(* ===== verification/Prelude.thy ===== *)
theory Prelude
  imports Main "HOL-Library.AList" "HOL-Library.Char_ord" "HOL-Library.List_Lexorder" "HOL-Library.Sublist"
begin

text \<open>
  The vocabulary every component shares: Python strings and their methods, exceptions as
  values, and the generic lemmas the component theories rest on.

  A Python \<^verbatim>\<open>str\<close> is a HOL \<open>string\<close>, that is a list of characters with code points
  below 256. The methods below are the ones of \<^verbatim>\<open>str\<close> restricted to those code points, for
  all of them and not for the ASCII ones only: white space, line boundaries and case mapping
  follow the Unicode tables that Python uses. Comparison is lexicographic on code points
  (\<open>HOL-Library.List_Lexorder\<close> over \<open>HOL-Library.Char_ord\<close>), as in Python. A byte string is
  also a \<open>string\<close>, its characters being the bytes.
\<close>

named_theorems str_defs \<open>definitions of the string methods\<close>
named_theorems exc_simps \<open>rules for computations that may raise\<close>

section \<open>Exceptions as values\<close>

text \<open>
  One constructor for each exception class that the code raises or handles. A computation that
  may raise is a value of \<open>exc + 'a\<close>, with \<open>Inl\<close> for the exception that is raised.
\<close>

datatype exc =
    AccessDenied string
  | RateLimited string
  | DraftRejected string
  | InvalidInput string
  | ValidationError
  | NotFound string
  | DraftConflict string
  | ExportRefused string
  | FeedRefused string
  | TokenInvalid string
  | ValueError string
  | KeyError string
  | TypeError
  | JSONDecodeError
  | UnicodeError
  | IntegrityError
  | AssertionError
  | ZeroDivisionError
  | IndexError
  | AttributeError
  | OSError

type_synonym 'a res = "exc + 'a"

fun rbind :: "'e + 'a \<Rightarrow> ('a \<Rightarrow> 'e + 'b) \<Rightarrow> 'e + 'b" where
  "rbind (Inl e) f = Inl e"
| "rbind (Inr x) f = f x"

fun is_ok :: "'e + 'a \<Rightarrow> bool" where
  "is_ok (Inl _) = False"
| "is_ok (Inr _) = True"

fun mapM :: "('a \<Rightarrow> 'e + 'b) \<Rightarrow> 'a list \<Rightarrow> 'e + 'b list" where
  "mapM f [] = Inr []"
| "mapM f (x # xs) = rbind (f x) (\<lambda>y. rbind (mapM f xs) (\<lambda>ys. Inr (y # ys)))"

lemma rbind_Inr_iff [exc_simps]: "rbind m f = Inr y \<longleftrightarrow> (\<exists>x. m = Inr x \<and> f x = Inr y)"
  by (cases m) auto

lemma rbind_Inl_iff [exc_simps]:
  "rbind m f = Inl e \<longleftrightarrow> m = Inl e \<or> (\<exists>x. m = Inr x \<and> f x = Inl e)"
  by (cases m) auto

lemma is_ok_iff [exc_simps]: "is_ok m \<longleftrightarrow> (\<exists>x. m = Inr x)"
  by (cases m) auto

lemma rbind_assoc: "rbind (rbind m f) g = rbind m (\<lambda>x. rbind (f x) g)"
  by (cases m) auto

lemma mapM_Inr_iff: "mapM f xs = Inr ys \<longleftrightarrow> list_all2 (\<lambda>x y. f x = Inr y) xs ys"
  by (induction xs arbitrary: ys)
    (auto simp: rbind_Inr_iff list_all2_Cons1)

section \<open>Characters\<close>

abbreviation ord :: "char \<Rightarrow> nat" where
  "ord c \<equiv> of_char c"

abbreviation nl :: char where
  "nl \<equiv> CHR 0x0A"

text \<open>\<^verbatim>\<open>str.isspace\<close> on one character.\<close>

definition is_space :: "char \<Rightarrow> bool" where
  [str_defs]: "is_space c \<longleftrightarrow>
     (9 \<le> ord c \<and> ord c \<le> 13) \<or> (28 \<le> ord c \<and> ord c \<le> 32) \<or> ord c = 133 \<or> ord c = 160"

text \<open>The characters at which \<^verbatim>\<open>str.splitlines\<close> ends a line.\<close>

definition is_line_end :: "char \<Rightarrow> bool" where
  [str_defs]: "is_line_end c \<longleftrightarrow>
     (10 \<le> ord c \<and> ord c \<le> 13) \<or> (28 \<le> ord c \<and> ord c \<le> 30) \<or> ord c = 133"

definition is_digit :: "char \<Rightarrow> bool" where
  [str_defs]: "is_digit c \<longleftrightarrow> 48 \<le> ord c \<and> ord c \<le> 57"

definition digit_val :: "char \<Rightarrow> nat" where
  [str_defs]: "digit_val c = ord c - 48"

definition digit_char :: "nat \<Rightarrow> char" where
  [str_defs]: "digit_char d = char_of (48 + d)"

text \<open>
  Case mapping: \<^verbatim>\<open>A-Z\<close> and the capital letters at 192..222 (215 is the multiplication sign)
  lie 32 below their small counterparts. The upper case of 181, 223 and 255 is not a single
  character below 256; \<open>upper_char\<close> leaves these three as they are.
\<close>

definition lower_char :: "char \<Rightarrow> char" where
  [str_defs]: "lower_char c =
     (if 65 \<le> ord c \<and> ord c \<le> 90 \<or> 192 \<le> ord c \<and> ord c \<le> 222 \<and> ord c \<noteq> 215
      then char_of (ord c + 32) else c)"

definition upper_char :: "char \<Rightarrow> char" where
  [str_defs]: "upper_char c =
     (if 97 \<le> ord c \<and> ord c \<le> 122 \<or> 224 \<le> ord c \<and> ord c \<le> 254 \<and> ord c \<noteq> 247
      then char_of (ord c - 32) else c)"

lemma ord_less: "ord c < 256"
  by (rule nat_of_char_less_256)

lemma ord_char_of: "n < 256 \<Longrightarrow> ord (char_of n) = n"
  by simp

lemma ord_eq_iff: "c = d \<longleftrightarrow> ord c = ord d"
  by simp

lemma char_less_iff: "c < d \<longleftrightarrow> ord c < (ord d :: nat)"
  by (simp add: less_char_def)

lemma line_end_is_space: "is_line_end c \<Longrightarrow> is_space c"
  by (auto simp: is_line_end_def is_space_def)

lemma digit_not_space: "is_digit c \<Longrightarrow> \<not> is_space c"
  by (auto simp: is_digit_def is_space_def)

lemma digit_char_is_digit: "d < 10 \<Longrightarrow> is_digit (digit_char d)"
  by (simp add: is_digit_def digit_char_def)

lemma digit_val_char: "d < 10 \<Longrightarrow> digit_val (digit_char d) = d"
  by (simp add: digit_val_def digit_char_def)

lemma lower_char_idem: "lower_char (lower_char c) = lower_char c"
  by (auto simp: lower_char_def)

section \<open>String methods\<close>

definition str_lower :: "string \<Rightarrow> string" where
  [str_defs]: "str_lower s = map lower_char s"

definition str_upper :: "string \<Rightarrow> string" where
  [str_defs]: "str_upper s = map upper_char s"

definition str_lstrip :: "string \<Rightarrow> string" where
  [str_defs]: "str_lstrip s = dropWhile is_space s"

definition str_rstrip :: "string \<Rightarrow> string" where
  [str_defs]: "str_rstrip s = rev (dropWhile is_space (rev s))"

definition str_strip :: "string \<Rightarrow> string" where
  [str_defs]: "str_strip s = str_rstrip (str_lstrip s)"

text \<open>\<^verbatim>\<open>s.rstrip(chars)\<close>.\<close>

definition str_rstrip_set :: "string \<Rightarrow> string \<Rightarrow> string" where
  [str_defs]: "str_rstrip_set cs s = rev (dropWhile (\<lambda>c. c \<in> set cs) (rev s))"

fun str_startswith :: "string \<Rightarrow> string \<Rightarrow> bool" where
  "str_startswith s [] = True"
| "str_startswith [] (p # ps) = False"
| "str_startswith (c # s) (p # ps) = (c = p \<and> str_startswith s ps)"

text \<open>\<open>str_contains p s\<close> is \<^verbatim>\<open>p in s\<close>.\<close>

fun str_contains :: "string \<Rightarrow> string \<Rightarrow> bool" where
  "str_contains p [] = (p = [])"
| "str_contains p (c # s) = (str_startswith (c # s) p \<or> str_contains p s)"

text \<open>\<^verbatim>\<open>s.count(p)\<close> for a non-empty \<open>p\<close>: occurrences that do not overlap, from the left.\<close>

function str_count :: "string \<Rightarrow> string \<Rightarrow> nat" where
  "str_count p s =
     (if p = [] \<or> s = [] then 0
      else if str_startswith s p then Suc (str_count p (drop (length p) s))
      else str_count p (tl s))"
  by pat_completeness auto
termination
  by (relation "measure (\<lambda>(p, s). length s)") auto

declare str_count.simps [simp del]

text \<open>\<^verbatim>\<open>s.split(c)\<close> for a one-character separator.\<close>

fun str_split :: "char \<Rightarrow> string \<Rightarrow> string list" where
  "str_split c [] = [[]]"
| "str_split c (x # xs) =
     (if x = c then [] # str_split c xs
      else (case str_split c xs of [] \<Rightarrow> [[x]] | p # ps \<Rightarrow> (x # p) # ps))"

text \<open>\<^verbatim>\<open>k, _, v = s.partition(c)\<close>: the parts before and after the first \<open>c\<close>.\<close>

definition str_partition :: "char \<Rightarrow> string \<Rightarrow> string \<times> string" where
  [str_defs]: "str_partition c s = (takeWhile (\<lambda>x. x \<noteq> c) s, tl (dropWhile (\<lambda>x. x \<noteq> c) s))"

fun str_join :: "string \<Rightarrow> string list \<Rightarrow> string" where
  "str_join sep [] = []"
| "str_join sep [x] = x"
| "str_join sep (x # y # ys) = x @ sep @ str_join sep (y # ys)"

text \<open>
  \<^verbatim>\<open>s.splitlines()\<close>: a line ends at any of the line boundary characters, carriage return
  and line feed together being one boundary, and a boundary at the very end opens no new line.
  \<open>splitlines_acc\<close> carries the current line; its flag says that the last character was a
  carriage return, so that a line feed right after it is skipped.
\<close>

fun splitlines_acc :: "bool \<Rightarrow> string \<Rightarrow> string \<Rightarrow> string list" where
  "splitlines_acc cr cur [] = (if cur = [] then [] else [cur])"
| "splitlines_acc cr cur (c # s) =
     (if cr \<and> ord c = 10 then splitlines_acc False cur s
      else if is_line_end c then cur # splitlines_acc (ord c = 13) [] s
      else splitlines_acc False (cur @ [c]) s)"

definition str_splitlines :: "string \<Rightarrow> string list" where
  [str_defs]: "str_splitlines s = splitlines_acc False [] s"

text \<open>\<^verbatim>\<open>s.replace(c, '')\<close> for one character.\<close>

definition str_remove :: "char \<Rightarrow> string \<Rightarrow> string" where
  [str_defs]: "str_remove c s = filter (\<lambda>x. x \<noteq> c) s"

text \<open>Decimal notation of numbers, as in \<^verbatim>\<open>str(n)\<close>, and reading it back.\<close>

fun nat_str :: "nat \<Rightarrow> string" where
  "nat_str n = (if n < 10 then [digit_char n] else nat_str (n div 10) @ [digit_char (n mod 10)])"

declare nat_str.simps [simp del]

definition int_str :: "int \<Rightarrow> string" where
  [str_defs]: "int_str i = (if i < 0 then CHR ''-'' # nat_str (nat (- i)) else nat_str (nat i))"

definition digits_val :: "string \<Rightarrow> nat" where
  [str_defs]: "digits_val s = foldl (\<lambda>n c. 10 * n + digit_val c) 0 s"

text \<open>A number with leading zeros up to a given width, as \<^verbatim>\<open>{n:0wd}\<close> prints it.\<close>

definition pad0 :: "nat \<Rightarrow> nat \<Rightarrow> string" where
  [str_defs]: "pad0 w n = replicate (w - length (nat_str n)) (CHR ''0'') @ nat_str n"

subsection \<open>Their properties\<close>

lemma startswith_iff: "str_startswith s p \<longleftrightarrow> prefix p s"
  by (induction s p rule: str_startswith.induct) auto

lemma contains_iff: "str_contains p s \<longleftrightarrow> sublist p s"
proof (induction s)
  case Nil
  then show ?case by simp
next
  case (Cons c s)
  then show ?case by (auto simp: startswith_iff sublist_Cons_right)
qed

lemma contains_Nil [simp]: "str_contains [] s"
  by (cases s) auto

lemma contains_refl [simp]: "str_contains s s"
  by (simp add: contains_iff)

lemma contains_append: "str_contains p s \<Longrightarrow> str_contains p (xs @ s @ ys)"
  by (auto simp: contains_iff sublist_def) (metis append.assoc)

lemma contains_trans: "str_contains p s \<Longrightarrow> str_contains s t \<Longrightarrow> str_contains p t"
  by (auto simp: contains_iff intro: sublist_order.order_trans)

lemma lower_idem [simp]: "str_lower (str_lower s) = str_lower s"
  by (simp add: str_lower_def lower_char_idem)

lemma lower_append: "str_lower (s @ t) = str_lower s @ str_lower t"
  by (simp add: str_lower_def)

lemma contains_lower: "str_contains p s \<Longrightarrow> str_contains (str_lower p) (str_lower s)"
  unfolding contains_iff sublist_def str_lower_def by (metis map_append)

lemma lstrip_idem: "str_lstrip (str_lstrip s) = str_lstrip s"
  unfolding str_lstrip_def by (induction s) auto

lemma rstrip_idem: "str_rstrip (str_rstrip s) = str_rstrip s"
  using lstrip_idem [of "rev s"] by (simp add: str_rstrip_def str_lstrip_def)

lemma strip_Nil_iff: "str_strip s = [] \<longleftrightarrow> (\<forall>c \<in> set s. is_space c)"
proof
  assume a: "str_strip s = []"
  have "dropWhile is_space (rev (dropWhile is_space s)) = []"
    using a by (simp add: str_strip_def str_rstrip_def str_lstrip_def)
  then have all: "\<forall>c \<in> set (dropWhile is_space s). is_space c"
    by (simp add: dropWhile_eq_Nil_conv)
  have "set s = set (takeWhile is_space s) \<union> set (dropWhile is_space s)"
    by (metis set_append takeWhile_dropWhile_id)
  with all show "\<forall>c \<in> set s. is_space c"
    by (auto dest: set_takeWhileD)
next
  assume "\<forall>c \<in> set s. is_space c"
  then show "str_strip s = []"
    by (auto simp: str_strip_def str_rstrip_def str_lstrip_def dropWhile_eq_Nil_conv dest: set_dropWhileD)
qed

lemma strip_Nil [simp]: "str_strip [] = []"
  by (simp add: strip_Nil_iff)

lemma set_strip: "set (str_strip s) \<subseteq> set s"
  unfolding str_strip_def str_rstrip_def str_lstrip_def
  by (metis set_dropWhileD set_rev subsetI)

lemma dropWhile_hd: "dropWhile P s = c # t \<Longrightarrow> \<not> P c"
  by (metis dropWhile_eq_Cons_conv)

lemma strip_unfold: "str_strip s = rev (dropWhile is_space (rev (dropWhile is_space s)))"
  by (simp add: str_strip_def str_rstrip_def str_lstrip_def)

lemma rstrip_last: "str_rstrip s \<noteq> [] \<Longrightarrow> \<not> is_space (last (str_rstrip s))"
  unfolding str_rstrip_def by (metis hd_dropWhile last_rev rev_is_Nil_conv)

lemma rstrip_decomp: "\<exists>w. s = str_rstrip s @ w \<and> (\<forall>c \<in> set w. is_space c)"
proof -
  let ?w = "rev (takeWhile is_space (rev s))"
  have "rev s = takeWhile is_space (rev s) @ dropWhile is_space (rev s)" by simp
  then have "s = rev (dropWhile is_space (rev s)) @ ?w"
    by (metis rev_append rev_rev_ident)
  moreover have "\<forall>c \<in> set ?w. is_space c" by (auto dest: set_takeWhileD)
  ultimately show ?thesis unfolding str_rstrip_def by blast
qed

lemma strip_hd: "str_strip s \<noteq> [] \<Longrightarrow> \<not> is_space (hd (str_strip s))"
proof -
  assume ne: "str_strip s \<noteq> []"
  let ?l = "str_lstrip s"
  obtain w where w: "?l = str_rstrip ?l @ w" using rstrip_decomp by blast
  have ne2: "str_rstrip ?l \<noteq> []" using ne by (simp add: str_strip_def)
  then have "hd (str_rstrip ?l) = hd ?l" by (metis hd_append2 w)
  moreover have "?l \<noteq> []" using ne2 w by (metis append_is_Nil_conv)
  then have "\<not> is_space (hd ?l)"
    unfolding str_lstrip_def by (rule hd_dropWhile)
  ultimately show ?thesis by (simp add: str_strip_def)
qed

lemma strip_last: "str_strip s \<noteq> [] \<Longrightarrow> \<not> is_space (last (str_strip s))"
  unfolding str_strip_def by (rule rstrip_last)

lemma strip_fixed:
  assumes "s = [] \<or> (\<not> is_space (hd s) \<and> \<not> is_space (last s))"
  shows "str_strip s = s"
proof (cases "s = []")
  case False
  then have h: "\<not> is_space (hd s)" and l: "\<not> is_space (last s)" using assms by auto
  have "dropWhile is_space s = s" using False h by (cases s) auto
  moreover have "dropWhile is_space (rev s) = rev s"
    using False l by (cases "rev s") (auto simp: last_rev [symmetric] hd_rev)
  ultimately show ?thesis by (simp add: strip_unfold)
qed simp

lemma strip_idem [simp]: "str_strip (str_strip s) = str_strip s"
  by (rule strip_fixed) (metis strip_hd strip_last)

lemma strip_lower: "str_strip (str_lower s) = str_lower (str_strip s)"
proof -
  have sp: "is_space (lower_char c) = is_space c" for c
    by (auto simp: is_space_def lower_char_def)
  have dw: "dropWhile is_space (map lower_char t) = map lower_char (dropWhile is_space t)" for t
    by (induction t) (auto simp: sp)
  show ?thesis
    by (simp add: strip_unfold str_lower_def dw rev_map)
qed

lemma split_not_Nil [simp]: "str_split c s \<noteq> []"
  by (induction s) (auto split: list.splits)

lemma split_pieces: "p \<in> set (str_split c s) \<Longrightarrow> c \<notin> set p"
proof (induction s arbitrary: p)
  case Nil
  then show ?case by simp
next
  case (Cons x s)
  then show ?case by (cases "str_split c s") (auto split: if_splits)
qed

lemma split_append: "c \<notin> set l \<Longrightarrow> str_split c (l @ c # s) = l # str_split c s"
  by (induction l) auto

lemma split_single: "c \<notin> set l \<Longrightarrow> str_split c l = [l]"
  by (induction l) auto

lemma split_append_last:
  "str_split c (s @ t) = butlast (str_split c s) @ (last (str_split c s) @ hd (str_split c t)) # tl (str_split c t)"
proof (induction s)
  case Nil
  then show ?case by simp
next
  case (Cons x s)
  show ?case
  proof (cases "x = c")
    case True
    then show ?thesis using Cons by simp
  next
    case False
    obtain p ps where p: "str_split c s = p # ps" by (cases "str_split c s") auto
    show ?thesis using Cons False p by (cases ps) auto
  qed
qed

lemma splitlines_acc_pieces:
  assumes "\<forall>c \<in> set cur. \<not> is_line_end c" and "l \<in> set (splitlines_acc cr cur s)"
  shows "\<forall>c \<in> set l. \<not> is_line_end c"
  using assms
proof (induction cr cur s arbitrary: l rule: splitlines_acc.induct)
  case (1 cr cur)
  then show ?case by (auto split: if_splits)
next
  case (2 cr cur c s)
  consider (skip) "cr \<and> ord c = (10::nat)" | (brk) "\<not> (cr \<and> ord c = (10::nat))" "is_line_end c"
    | (chr) "\<not> (cr \<and> ord c = (10::nat))" "\<not> is_line_end c"
    by blast
  then show ?case
  proof cases
    case skip
    then show ?thesis using "2.IH"(1) "2.prems" by simp
  next
    case brk
    then have "l = cur \<or> l \<in> set (splitlines_acc (ord c = 13) [] s)"
      using "2.prems"(2) unfolding splitlines_acc.simps if_not_P [OF brk(1)] if_P [OF brk(2)]
      by simp
    then show ?thesis using "2.IH"(2) [OF brk(1,2)] "2.prems"(1) by force
  next
    case chr
    have "\<forall>d \<in> set (cur @ [c]). \<not> is_line_end d" using "2.prems"(1) chr(2) by simp
    then show ?thesis using "2.IH"(3) [OF chr] "2.prems"(2) chr by simp
  qed
qed

lemma splitlines_pieces:
  "l \<in> set (str_splitlines s) \<Longrightarrow> c \<in> set l \<Longrightarrow> \<not> is_line_end c"
  using splitlines_acc_pieces [of "[]" l False s] by (auto simp: str_splitlines_def)

lemma splitlines_acc_line:
  "\<forall>c \<in> set l. \<not> is_line_end c \<Longrightarrow>
   splitlines_acc False cur (l @ nl # s) = (cur @ l) # splitlines_acc False [] s"
  by (induction l arbitrary: cur) (auto simp: is_line_end_def)

text \<open>Lines without an inner boundary, joined by line feeds and ended by one, come back.\<close>

lemma splitlines_unlines:
  "\<forall>l \<in> set ls. \<forall>c \<in> set l. \<not> is_line_end c \<Longrightarrow>
   str_splitlines (concat (map (\<lambda>l. l @ [nl]) ls)) = ls"
proof (induction ls)
  case Nil
  then show ?case by (simp add: str_splitlines_def)
next
  case (Cons l ls)
  then show ?case
    using splitlines_acc_line [of l "[]"] by (simp add: str_splitlines_def)
qed

subsection \<open>Numbers as text\<close>

lemma nat_str_digits: "\<forall>c \<in> set (nat_str n). is_digit c"
proof (induction n rule: nat_str.induct)
  case (1 n)
  show ?case
  proof (cases "n < 10")
    case True
    then show ?thesis by (simp add: nat_str.simps [of n] digit_char_is_digit)
  next
    case False
    with 1 show ?thesis by (simp add: nat_str.simps [of n] digit_char_is_digit)
  qed
qed

lemma nat_str_length: "n < 10 ^ w \<Longrightarrow> 0 < w \<Longrightarrow> length (nat_str n) \<le> w"
proof (induction n arbitrary: w rule: nat_str.induct)
  case (1 n)
  show ?case
  proof (cases "n < 10")
    case True
    then show ?thesis using 1 by (simp add: nat_str.simps [of n])
  next
    case False
    then obtain v where v: "w = Suc v" "0 < v"
      using 1 by (cases w; cases "w - 1") auto
    then have "n div 10 < 10 ^ v" using 1 by simp
    then show ?thesis using 1 False v by (simp add: nat_str.simps [of n])
  qed
qed

lemma nat_str_not_Nil [simp]: "nat_str n \<noteq> []"
  by (subst nat_str.simps) simp

lemma digits_val_snoc: "digits_val (s @ [c]) = 10 * digits_val s + digit_val c"
  by (simp add: digits_val_def)

lemma digits_val_nat_str [simp]: "digits_val (nat_str n) = n"
proof (induction n rule: nat_str.induct)
  case (1 n)
  show ?case
  proof (cases "n < 10")
    case True
    then show ?thesis by (simp add: nat_str.simps [of n] digits_val_def digit_val_char)
  next
    case False
    with 1 show ?thesis
      by (simp add: nat_str.simps [of n] digits_val_snoc digit_val_char)
  qed
qed

lemma nat_str_inj: "nat_str m = nat_str n \<longleftrightarrow> m = n"
  by (metis digits_val_nat_str)

lemma int_str_not_Nil [simp]: "int_str i \<noteq> []"
  by (simp add: int_str_def)

section \<open>Lists\<close>

text \<open>\<^verbatim>\<open>sorted(xs, key=f)\<close> is \<open>sort_key f xs\<close>, which is stable.\<close>

lemma set_sort_key [simp]: "set (sort_key f xs) = set xs"
  by simp

lemma last_sort_key_max:
  fixes f :: "'a \<Rightarrow> 'k::linorder"
  assumes "x \<in> set xs"
  shows "f x \<le> f (last (sort_key f xs))"
proof -
  let ?ys = "sort_key f xs"
  have ne: "?ys \<noteq> []" using assms by (metis empty_iff list.set(1) set_sort_key)
  have "sorted (map f ?ys)" by simp
  then have "sorted (map f (butlast ?ys) @ [f (last ?ys)])"
    using ne by (metis append_butlast_last_id list.simps(8) list.simps(9) map_append)
  moreover have "x \<in> set (butlast ?ys @ [last ?ys])" using assms ne by simp
  ultimately show ?thesis by (auto simp: sorted_append)
qed

lemma last_filter_append: "P x \<Longrightarrow> last (filter P (xs @ [x])) = x"
  by simp

section \<open>Dictionaries as association lists\<close>

lemma keys_delete: "fst ` set (AList.delete k d) = fst ` set d - {k}"
  by (induction d) auto

lemma keys_update: "fst ` set (AList.update k v d) = insert k (fst ` set d)"
  by (induction d) auto

lemma distinct_keys_delete: "distinct (map fst d) \<Longrightarrow> distinct (map fst (AList.delete k d))"
  by (induction d) (auto simp: keys_delete)

end
