(* ===== verification/Json.thy ===== *)
theory Json
  imports Prelude "HOL-Library.AList"
begin

text \<open>
  JSON as the code uses it: Python's \<^verbatim>\<open>json.dumps\<close> with \<^verbatim>\<open>sort_keys\<close>, its two separator styles
  and \<^verbatim>\<open>ensure_ascii\<close> on or off, \<^verbatim>\<open>json.loads\<close>, and the UTF-8 encoding in which text reaches a
  file or a hash. A dictionary is an association list in insertion order, updated by
  \<open>AList.update\<close>, which like Python replaces in place and appends new keys.

  The main facts are the round trips \<open>loads_dumps\<close> and \<open>utf8_decode_encode\<close>, and with them the
  injectivity of the canonical form that the audit chain hashes (audit.py: \<^verbatim>\<open>_canonical\<close>).

  Numbers are integers: no record of the program holds another kind. A document with a fraction,
  an exponent or an escape above \<open>\u00ff\<close> is outside the model, and \<open>loads\<close> rejects it.
\<close>

named_theorems json_defs \<open>definitions of the printer and the parser\<close>

section \<open>UTF-8\<close>

definition utf8_char :: "char \<Rightarrow> string" where
  "utf8_char c =
     (if ord c < (128 :: nat) then [c]
      else [char_of (192 + (ord c :: nat) div 64), char_of (128 + (ord c :: nat) mod 64)])"

definition utf8 :: "string \<Rightarrow> string" where
  "utf8 s = concat (map utf8_char s)"

fun utf8_decode :: "string \<Rightarrow> string res" where
  "utf8_decode [] = Inr []"
| "utf8_decode (b # s) =
     (if ord b < (128 :: nat) then rbind (utf8_decode s) (\<lambda>t. Inr (b # t))
      else if ord b = (194 :: nat) \<or> ord b = (195 :: nat) then
        (case s of [] \<Rightarrow> Inl UnicodeError
         | d # s1 \<Rightarrow>
             if 128 \<le> (ord d :: nat) \<and> (ord d :: nat) < 192
             then rbind (utf8_decode s1) (\<lambda>t. Inr (char_of ((ord b - 192) * 64 + (ord d - 128) :: nat) # t))
             else Inl UnicodeError)
      else Inl UnicodeError)"

lemma utf8_Nil [simp]: "utf8 [] = []"
  by (simp add: utf8_def)

lemma utf8_append: "utf8 (s @ t) = utf8 s @ utf8 t"
  by (simp add: utf8_def)

lemma utf8_decode_char: "utf8_decode (utf8_char c @ s) = rbind (utf8_decode s) (\<lambda>t. Inr (c # t))"
proof (cases "ord c < (128 :: nat)")
  case True
  then show ?thesis by (simp add: utf8_char_def)
next
  case False
  let ?n = "ord c :: nat"
  have n: "128 \<le> ?n" "?n < 256" using False nat_of_char_less_256 [of c] by auto
  have "128 div 64 \<le> ?n div 64" using n(1) by (rule div_le_mono)
  moreover have "?n div 64 < 4" using n(2) by (simp add: div_less_iff_less_mult)
  ultimately have q: "?n div 64 = 2 \<or> ?n div 64 = 3" by simp linarith
  have r: "?n mod 64 < 64" by simp
  have b: "ord (char_of (192 + ?n div 64)) = 192 + ?n div 64"
      "ord (char_of (128 + ?n mod 64)) = 128 + ?n mod 64"
    using q r by (auto intro!: ord_char_of)
  have "(192 + ?n div 64 - 192) * 64 + (128 + ?n mod 64 - 128) = ?n" by simp
  then show ?thesis using False q r b by (auto simp: utf8_char_def)
qed

theorem utf8_decode_encode [simp]: "utf8_decode (utf8 s) = Inr s"
proof (induction s)
  case (Cons c s)
  have "utf8 (c # s) = utf8_char c @ utf8 s" by (simp add: utf8_def)
  then show ?case using Cons utf8_decode_char by simp
qed simp

lemma utf8_inj: "utf8 s = utf8 t \<longleftrightarrow> s = t"
  by (metis utf8_decode_encode sum.inject(2))

lemma utf8_char_ascii: "ord x < (128 :: nat) \<Longrightarrow> x \<in> set (utf8_char c) \<longleftrightarrow> x = c"
proof (cases "ord c < (128 :: nat)")
  case False
  let ?n = "ord c :: nat"
  have n: "?n < 256" by (rule nat_of_char_less_256)
  then have "?n div 64 < 4" by (simp add: div_less_iff_less_mult)
  moreover have "?n mod 64 < 64" by simp
  ultimately have "192 + ?n div 64 < 256" "128 + ?n mod 64 < 256" by linarith+
  then have "ord (char_of (192 + ?n div 64)) = 192 + ?n div 64"
      "ord (char_of (128 + ?n mod 64)) = 128 + ?n mod 64"
    by (simp_all only: ord_char_of)
  then show "ord x < (128 :: nat) \<Longrightarrow> x \<in> set (utf8_char c) \<longleftrightarrow> x = c"
    using False by (auto simp: utf8_char_def)
qed (simp add: utf8_char_def)

lemma utf8_ascii_mem: "ord x < (128 :: nat) \<Longrightarrow> x \<in> set (utf8 s) \<longleftrightarrow> x \<in> set s"
  by (auto simp: utf8_def utf8_char_ascii)

section \<open>Values and printing\<close>

datatype json =
    JNull
  | JBool bool
  | JInt int
  | JStr string
  | JArr "json list"
  | JObj "(string \<times> json) list"

text \<open>The style of a document: \<^verbatim>\<open>separators\<close> and \<^verbatim>\<open>ensure_ascii\<close>.\<close>

record jstyle =
  item_sep :: string
  key_sep :: string
  ascii_only :: bool

definition compact :: jstyle where
  [json_defs]: "compact = \<lparr>item_sep = '','', key_sep = '':'', ascii_only = False\<rparr>"

definition spaced :: jstyle where
  [json_defs]: "spaced = \<lparr>item_sep = '', '', key_sep = '': '', ascii_only = False\<rparr>"

definition spaced_ascii :: jstyle where
  [json_defs]: "spaced_ascii = \<lparr>item_sep = '', '', key_sep = '': '', ascii_only = True\<rparr>"

abbreviation quote :: char where "quote \<equiv> CHR 0x22"
abbreviation backslash :: char where "backslash \<equiv> CHR 0x5C"

definition hex_digit :: "nat \<Rightarrow> char" where
  [json_defs]: "hex_digit n = (if n < 10 then char_of (48 + n) else char_of (87 + n))"

definition hex_val :: "char \<Rightarrow> nat option" where
  [json_defs]: "hex_val c =
     (let n = ord c in if 48 \<le> n \<and> n \<le> 57 then Some (n - 48)
      else if 97 \<le> n \<and> n \<le> 102 then Some (n - 87)
      else if 65 \<le> n \<and> n \<le> 70 then Some (n - 55) else None)"

text \<open>One character inside a string literal.\<close>

definition jescape :: "bool \<Rightarrow> char \<Rightarrow> string" where
  [json_defs]: "jescape ascii c =
     (let n = ord c :: nat in
      if c = quote then [backslash, quote]
      else if c = backslash then [backslash, backslash]
      else if n = 8 then [backslash, CHR ''b'']
      else if n = 9 then [backslash, CHR ''t'']
      else if n = 10 then [backslash, CHR ''n'']
      else if n = 12 then [backslash, CHR ''f'']
      else if n = 13 then [backslash, CHR ''r'']
      else if n < 32 \<or> ascii \<and> 126 < n
      then [backslash, CHR ''u'', CHR ''0'', CHR ''0'', hex_digit (n div 16), hex_digit (n mod 16)]
      else [c])"

definition dumps_str :: "jstyle \<Rightarrow> string \<Rightarrow> string" where
  [json_defs]: "dumps_str f s = quote # concat (map (jescape (ascii_only f)) s) @ [quote]"

fun dumps :: "jstyle \<Rightarrow> json \<Rightarrow> string"
  and dumps_items :: "jstyle \<Rightarrow> json list \<Rightarrow> string"
  and dumps_members :: "jstyle \<Rightarrow> (string \<times> json) list \<Rightarrow> string" where
  "dumps f JNull = ''null''"
| "dumps f (JBool b) = (if b then ''true'' else ''false'')"
| "dumps f (JInt i) = int_str i"
| "dumps f (JStr s) = dumps_str f s"
| "dumps f (JArr xs) = ''['' @ dumps_items f xs @ '']''"
| "dumps f (JObj ms) = ''{'' @ dumps_members f ms @ ''}''"
| "dumps_items f [] = []"
| "dumps_items f (x # xs) = dumps f x @ (if xs = [] then [] else item_sep f @ dumps_items f xs)"
| "dumps_members f [] = []"
| "dumps_members f ((k, v) # ms) =
     dumps_str f k @ key_sep f @ dumps f v @ (if ms = [] then [] else item_sep f @ dumps_members f ms)"

text \<open>\<^verbatim>\<open>sort_keys=True\<close> sorts the members of every object by their keys.\<close>

fun sort_json :: "json \<Rightarrow> json"
  and sort_items :: "json list \<Rightarrow> json list"
  and sort_members :: "(string \<times> json) list \<Rightarrow> (string \<times> json) list" where
  "sort_json (JArr xs) = JArr (sort_items xs)"
| "sort_json (JObj ms) = JObj (sort_key fst (sort_members ms))"
| "sort_json JNull = JNull"
| "sort_json (JBool b) = JBool b"
| "sort_json (JInt i) = JInt i"
| "sort_json (JStr s) = JStr s"
| "sort_items [] = []"
| "sort_items (x # xs) = sort_json x # sort_items xs"
| "sort_members [] = []"
| "sort_members ((k, v) # ms) = (k, sort_json v) # sort_members ms"

text \<open>The keys of a Python dictionary are distinct.\<close>

fun wf_json :: "json \<Rightarrow> bool" where
  "wf_json (JArr xs) = (\<forall>x \<in> set xs. wf_json x)"
| "wf_json (JObj ms) = (distinct (map fst ms) \<and> (\<forall>v \<in> snd ` set ms. wf_json v))"
| "wf_json _ = True"

section \<open>Parsing\<close>

definition is_jws :: "char \<Rightarrow> bool" where
  [json_defs]: "is_jws c \<longleftrightarrow> c = CHR '' '' \<or> ord c = (9 :: nat) \<or> ord c = (10 :: nat) \<or> ord c = (13 :: nat)"

definition skip_ws :: "string \<Rightarrow> string" where
  [json_defs]: "skip_ws s = dropWhile is_jws s"

definition jpush :: "char \<Rightarrow> (string \<times> string) option \<Rightarrow> (string \<times> string) option" where
  [json_defs]: "jpush c r = map_option (\<lambda>(t, rest). (c # t, rest)) r"

definition junescape :: "char \<Rightarrow> char option" where
  [json_defs]: "junescape e =
     (if e = quote \<or> e = backslash \<or> e = CHR ''/'' then Some e
      else if e = CHR ''b'' then Some (char_of (8 :: nat))
      else if e = CHR ''f'' then Some (char_of (12 :: nat))
      else if e = CHR ''n'' then Some (char_of (10 :: nat))
      else if e = CHR ''r'' then Some (char_of (13 :: nat))
      else if e = CHR ''t'' then Some (char_of (9 :: nat)) else None)"

definition hex4 :: "char \<Rightarrow> char \<Rightarrow> char \<Rightarrow> char \<Rightarrow> nat option" where
  [json_defs]: "hex4 a b c d =
     (case (hex_val a, hex_val b, hex_val c, hex_val d) of
        (Some h, Some i, Some j, Some k) \<Rightarrow> Some (((h * 16 + i) * 16 + j) * 16 + k)
      | _ \<Rightarrow> None)"

text \<open>The rest of a string literal after its opening quote: its value and what follows it.\<close>

fun scan_str :: "string \<Rightarrow> (string \<times> string) option" where
  "scan_str [] = None"
| "scan_str (c # s) =
     (if c = quote then Some ([], s)
      else if c = backslash then
        (case s of [] \<Rightarrow> None
         | e # s1 \<Rightarrow>
             if e = CHR ''u'' then
               (case s1 of h # i # j # k # s2 \<Rightarrow>
                  (case hex4 h i j k of None \<Rightarrow> None
                   | Some n \<Rightarrow> if n < 256 then jpush (char_of n) (scan_str s2) else None)
                | _ \<Rightarrow> None)
             else (case junescape e of None \<Rightarrow> None | Some x \<Rightarrow> jpush x (scan_str s1)))
      else if ord c < (32 :: nat) then None
      else jpush c (scan_str s))"

text \<open>The digits of an integer: a single zero, or digits that start with another one.\<close>

definition lead_digits :: "string \<Rightarrow> string" where
  [json_defs]: "lead_digits t = (if t \<noteq> [] \<and> hd t = CHR ''0'' then ''0'' else takeWhile is_digit t)"

definition scan_int :: "string \<Rightarrow> (json \<times> string) option" where
  [json_defs]: "scan_int s =
     (let neg = (s \<noteq> [] \<and> hd s = CHR ''-''); t = (if neg then tl s else s);
          ds = lead_digits t;
          rest = drop (length ds) t; n = int (digits_val ds)
      in if ds = [] then None
         else if rest \<noteq> [] \<and> hd rest \<in> {CHR ''.'', CHR ''e'', CHR ''E''} then None
         else Some (JInt (if neg then - n else n), rest))"

text \<open>
  A value, the elements of an array after its bracket, and the members of an object after its
  brace. The comparisons of lengths always hold, since every value has at least one character;
  they are what makes the recursion well-founded.
\<close>

lemma length_skip_ws: "length (skip_ws s) \<le> length s"
  by (simp add: skip_ws_def length_dropWhile_le)

lemma scan_str_length: "scan_str s = Some (t, rest) \<Longrightarrow> length rest < length s"
proof (induction s arbitrary: t rule: scan_str.induct)
  case 1
  then show ?case by simp
next
  case (2 c s)
  show ?case
    using "2.prems" "2.IH"
    by (fastforce simp: jpush_def split: if_splits list.splits option.splits)
qed

function (sequential) parse_value :: "string \<Rightarrow> (json \<times> string) option"
  and parse_elems :: "string \<Rightarrow> (json list \<times> string) option"
  and parse_members :: "string \<Rightarrow> ((string \<times> json) list \<times> string) option" where
  "parse_value [] = None"
| "parse_value (c # s) =
     (if c = quote then map_option (\<lambda>(t, rest). (JStr t, rest)) (scan_str s)
      else if c = CHR ''{'' then
        (case skip_ws s of [] \<Rightarrow> None
         | d # s1 \<Rightarrow>
             if d = CHR ''}'' then Some (JObj [], s1)
             else map_option (\<lambda>(ms, rest). (JObj (fold (\<lambda>(k, v) m. AList.update k v m) ms []), rest))
                    (parse_members (skip_ws s)))
      else if c = CHR ''['' then
        (case skip_ws s of [] \<Rightarrow> None
         | d # s1 \<Rightarrow>
             if d = CHR '']'' then Some (JArr [], s1)
             else map_option (\<lambda>(xs, rest). (JArr xs, rest)) (parse_elems (skip_ws s)))
      else if str_startswith (c # s) ''null'' then Some (JNull, drop 3 s)
      else if str_startswith (c # s) ''true'' then Some (JBool True, drop 3 s)
      else if str_startswith (c # s) ''false'' then Some (JBool False, drop 4 s)
      else scan_int (c # s))"
| "parse_elems s =
     (case parse_value s of None \<Rightarrow> None
      | Some (v, s1) \<Rightarrow>
          if length s1 < length s then
            (case skip_ws s1 of [] \<Rightarrow> None
             | d # s2 \<Rightarrow>
                 if d = CHR '']'' then Some ([v], s2)
                 else if d = CHR '','' then
                   map_option (\<lambda>(vs, rest). (v # vs, rest)) (parse_elems (skip_ws s2))
                 else None)
          else None)"
| "parse_members s =
     (if s = [] \<or> hd s \<noteq> quote then None
      else case scan_str (tl s) of None \<Rightarrow> None
      | Some (k, s1) \<Rightarrow>
          (case skip_ws s1 of [] \<Rightarrow> None
           | d # s2 \<Rightarrow>
               if d \<noteq> CHR '':'' then None
               else case parse_value (skip_ws s2) of None \<Rightarrow> None
               | Some (v, s3) \<Rightarrow>
                   if length s3 < length s then
                     (case skip_ws s3 of [] \<Rightarrow> None
                      | e # s4 \<Rightarrow>
                          if e = CHR ''}'' then Some ([(k, v)], s4)
                          else if e = CHR '','' then
                            map_option (\<lambda>(ms, rest). ((k, v) # ms, rest)) (parse_members (skip_ws s4))
                          else None)
                   else None))"
  by pat_completeness auto


termination
proof (relation "measure (\<lambda>x. case x of Inl s \<Rightarrow> 2 * length s | Inr (Inl s) \<Rightarrow> 2 * length s + 1
    | Inr (Inr s) \<Rightarrow> 2 * length s)", goal_cases)
  case (2 c s)
  then show ?case using length_skip_ws [of s] by simp
next
  case (3 c s)
  then show ?case using length_skip_ws [of s] by simp
next
  case (5 s x v s1 d s2)
  then have "length s2 < length s1"
    using length_skip_ws [of s1] by simp
  then show ?case using 5 length_skip_ws [of s2] by simp
next
  case (6 s x k s1 d s2)
  then have "length s1 < length (tl s)" "length s2 < length s1"
    using scan_str_length [of "tl s" k s1] length_skip_ws [of s1] by simp_all
  then show ?case using 6 length_skip_ws [of s2] by simp
next
  case (7 s x k s1 d s2 y v s3 e s4)
  then have "length s4 < length s3"
    using length_skip_ws [of s3] by simp
  then show ?case using 7 length_skip_ws [of s4] by simp
qed simp_all

declare parse_elems.simps [simp del] parse_members.simps [simp del]

text \<open>\<^verbatim>\<open>json.loads\<close>: one value, with white space around it and nothing after it.\<close>

definition loads :: "string \<Rightarrow> json res" where
  [json_defs]: "loads s =
     (case parse_value (skip_ws s) of None \<Rightarrow> Inl JSONDecodeError
      | Some (v, rest) \<Rightarrow> if skip_ws rest = [] then Inr v else Inl JSONDecodeError)"

section \<open>Reading back what was printed\<close>

lemma hex_val_digit: "n < 16 \<Longrightarrow> hex_val (hex_digit n) = Some n"
proof -
  assume "n < 16"
  then have "n < 10 \<and> ord (char_of (48 + n)) = 48 + n \<or> 10 \<le> n \<and> ord (char_of (87 + n)) = 87 + n"
    by (auto intro!: ord_char_of)
  then show ?thesis using \<open>n < 16\<close> by (auto simp: hex_digit_def hex_val_def Let_def)
qed

lemma scan_str_escape: "scan_str (jescape a c @ s) = jpush c (scan_str s)"
proof -
  let ?n = "ord c :: nat"
  have "?n < 256" by (rule nat_of_char_less_256)
  then have "?n div 16 < 16" by (simp add: div_less_iff_less_mult)
  then have hex: "hex4 (CHR ''0'') (CHR ''0'') (hex_digit (?n div 16)) (hex_digit (?n mod 16)) = Some ?n"
    by (simp add: hex4_def hex_val_digit) (simp add: hex_val_def)
  have chars: "?n = 8 \<Longrightarrow> c = char_of (8 :: nat)" "?n = 9 \<Longrightarrow> c = char_of (9 :: nat)"
      "?n = 10 \<Longrightarrow> c = char_of (10 :: nat)" "?n = 12 \<Longrightarrow> c = char_of (12 :: nat)"
      "?n = 13 \<Longrightarrow> c = char_of (13 :: nat)"
    by (metis char_of_char)+
  consider "c = quote" | "c = backslash" | "c = char_of (8 :: nat)" | "c = char_of (9 :: nat)"
    | "c = char_of (10 :: nat)" | "c = char_of (12 :: nat)" | "c = char_of (13 :: nat)"
    | "c \<noteq> quote" "c \<noteq> backslash" "?n \<notin> {8, 9, 10, 12, 13}" using chars by blast
  then show ?thesis
  proof cases
    case 8
    show ?thesis
    proof (cases "?n < 32 \<or> a \<and> 126 < ?n")
      case True
      then have "jescape a c =
          [backslash, CHR ''u'', CHR ''0'', CHR ''0'', hex_digit (?n div 16), hex_digit (?n mod 16)]"
        using 8 by (simp add: jescape_def Let_def)
      then show ?thesis using hex \<open>?n < 256\<close> by simp
    next
      case False
      then have "jescape a c = [c]" using 8 by (simp add: jescape_def Let_def)
      then show ?thesis using False 8 by simp
    qed
  qed (simp_all add: jescape_def junescape_def Let_def)
qed

lemma scan_str_escapes: "scan_str (concat (map (jescape a) t) @ quote # rest) = Some (t, rest)"
  by (induction t) (simp_all add: scan_str_escape jpush_def)

lemma scan_str_dumps: "scan_str (tl (dumps_str f t) @ rest) = Some (t, rest)"
  by (simp add: dumps_str_def scan_str_escapes)

lemma nat_str_hd: "0 < n \<Longrightarrow> hd (nat_str n) \<noteq> CHR ''0''"
proof (induction n rule: nat_str.induct)
  case (1 n)
  show ?case
  proof (cases "n < 10")
    case True
    then have "ord (digit_char n) = 48 + n" by (simp add: digit_char_def)
    then have "digit_char n \<noteq> CHR ''0''" using "1.prems" by auto
    then show ?thesis using True by (simp add: nat_str.simps [of n])
  next
    case False
    then show ?thesis using 1 by (simp add: nat_str.simps [of n])
  qed
qed

definition json_end :: "string \<Rightarrow> bool" where
  "json_end s \<longleftrightarrow> s = [] \<or> \<not> is_digit (hd s) \<and> hd s \<notin> {CHR ''.'', CHR ''e'', CHR ''E''}"

lemma scan_digits:
  assumes "json_end rest"
  shows "takeWhile is_digit (nat_str n @ rest) = nat_str n"
  using assms nat_str_digits [of n]
  by (cases rest) (auto simp: json_end_def takeWhile_append)

lemma hd_nat_str_digit: "is_digit (hd (nat_str n))"
  using nat_str_digits [of n] hd_in_set [of "nat_str n"] by simp

lemma scan_int_int_str:
  assumes "json_end rest"
  shows "scan_int (int_str i @ rest) = Some (JInt i, rest)"
proof -
  have zero: "nat_str 0 = ''0''"
    by (simp add: nat_str.simps [of 0] digit_char_def char_of_eq_iff)
  have nat_scan: "lead_digits (nat_str n @ rest) = nat_str n" for n
    unfolding lead_digits_def using nat_str_hd [of n] scan_digits [OF assms, of n] by (cases "n = 0") (simp_all add: zero)
  have not_minus: "hd (nat_str n) \<noteq> CHR ''-''" for n
    using hd_nat_str_digit [of n] by (auto simp: is_digit_def)
  have re: "\<not> (rest \<noteq> [] \<and> hd rest \<in> {CHR ''.'', CHR ''e'', CHR ''E''})"
    using assms by (auto simp: json_end_def)
  show ?thesis
  proof (cases "i < 0")
    case True
    then show ?thesis
      unfolding scan_int_def int_str_def Let_def using nat_scan re by simp
  next
    case False
    then show ?thesis
      unfolding scan_int_def int_str_def Let_def using nat_scan [of "nat i"] not_minus re by simp
  qed
qed

definition good_style :: "jstyle \<Rightarrow> bool" where
  "good_style f \<longleftrightarrow> (\<exists>w u. item_sep f = CHR '','' # w \<and> key_sep f = CHR '':'' # u \<and>
     (\<forall>c \<in> set w. is_jws c) \<and> (\<forall>c \<in> set u. is_jws c))"

lemma good_styles [simp]: "good_style compact" "good_style spaced" "good_style spaced_ascii"
  by (simp_all add: good_style_def json_defs)

text \<open>A printed value starts with a character that is no white space and closes no bracket.\<close>

lemma dumps_start: "\<exists>c t. dumps f j = c # t \<and> \<not> is_jws c \<and> c \<noteq> CHR '']'' \<and> c \<noteq> CHR ''}''"
proof (cases j)
  case (JInt i)
  have "\<not> is_jws (hd (nat_str n)) \<and> hd (nat_str n) \<noteq> CHR '']'' \<and> hd (nat_str n) \<noteq> CHR ''}''" for n
    using hd_nat_str_digit [of n] by (auto simp: is_digit_def is_jws_def)
  moreover have "nat_str n = hd (nat_str n) # tl (nat_str n)" for n by simp
  ultimately have "\<exists>c t. nat_str n = c # t \<and> \<not> is_jws c \<and> c \<noteq> CHR '']'' \<and> c \<noteq> CHR ''}''" for n
    by blast
  then show ?thesis unfolding JInt dumps.simps int_str_def by (simp add: is_jws_def)
qed (auto simp: is_jws_def dumps_str_def)

lemma skip_ws_start: "\<not> is_jws c \<Longrightarrow> skip_ws (c # s) = c # s"
  by (simp add: skip_ws_def)

lemma skip_ws_append: "\<forall>c \<in> set w. is_jws c \<Longrightarrow> skip_ws (w @ s) = skip_ws s"
  by (simp add: skip_ws_def dropWhile_append2)

lemma skip_ws_dumps: "skip_ws (dumps f j @ s) = dumps f j @ s"
  using dumps_start [of f j] by (auto simp: skip_ws_start)

lemma skip_ws_items: "xs \<noteq> [] \<Longrightarrow> skip_ws (dumps_items f xs @ s) = dumps_items f xs @ s"
  by (cases xs) (simp_all add: skip_ws_dumps)

lemma members_start: "ms \<noteq> [] \<Longrightarrow> \<exists>t. dumps_members f ms = quote # t"
  by (cases ms) (auto simp: dumps_str_def)

lemma skip_ws_members: "ms \<noteq> [] \<Longrightarrow> skip_ws (dumps_members f ms @ s) = dumps_members f ms @ s"
  using members_start [of ms f] by (auto simp: skip_ws_def is_jws_def)

lemma update_new: "k \<notin> fst ` set m \<Longrightarrow> AList.update k v m = m @ [(k, v)]"
  by (induction m) auto

lemma fold_update_distinct:
  "distinct (map fst (acc @ ms)) \<Longrightarrow> fold (\<lambda>(k, v) m. AList.update k v m) ms acc = acc @ ms"
proof (induction ms arbitrary: acc)
  case (Cons p ms)
  then show ?case by (cases p) (auto simp: update_new)
qed simp

lemma json_end_closers [simp]:
  "json_end []" "json_end (CHR '','' # s)" "json_end (CHR '']'' # s)" "json_end (CHR ''}'' # s)"
  by (simp_all add: json_end_def is_digit_def)

lemma parse_dumps:
  shows "good_style f \<Longrightarrow> wf_json j \<Longrightarrow> json_end rest \<Longrightarrow> parse_value (dumps f j @ rest) = Some (j, rest)"
    and "good_style f \<Longrightarrow> xs \<noteq> [] \<Longrightarrow> \<forall>x \<in> set xs. wf_json x \<Longrightarrow>
      parse_elems (dumps_items f xs @ CHR '']'' # rest) = Some (xs, rest)"
    and "good_style f \<Longrightarrow> ms \<noteq> [] \<Longrightarrow> \<forall>v \<in> snd ` set ms. wf_json v \<Longrightarrow>
      parse_members (dumps_members f ms @ CHR ''}'' # rest) = Some (ms, rest)"
proof (induction f j and f xs and f ms arbitrary: rest and rest and rest
    rule: dumps_dumps_items_dumps_members.induct)
  case (1 f)
  then show ?case by simp
next
  case (2 f b)
  then show ?case by simp
next
  case (3 f i)
  obtain c t where c: "int_str i = c # t" by (cases "int_str i") simp_all
  have "c = CHR ''-'' \<or> is_digit c"
    using c hd_nat_str_digit by (metis hd_append2 int_str_def list.sel(1) nat_str_not_Nil)
  then have "c \<noteq> quote" "c \<notin> {CHR ''{'', CHR ''['', CHR ''n'', CHR ''t'', CHR ''f''}"
    by (auto simp: is_digit_def)
  then show ?case using scan_int_int_str [OF "3.prems"(3), of i] c by simp
next
  case (4 f s)
  then show ?case using scan_str_dumps [of f s rest] by (simp add: dumps_str_def)
next
  case (5 f xs)
  show ?case
  proof (cases "xs = []")
    case False
    obtain c t where s: "dumps_items f xs @ CHR '']'' # rest = c # t" "c \<noteq> CHR '']''"
      using dumps_start [of f "hd xs"] False by (cases xs) auto
    moreover have "parse_elems (dumps_items f xs @ CHR '']'' # rest) = Some (xs, rest)"
      using 5 False by simp
    ultimately have "parse_elems (c # t) = Some (xs, rest)" "skip_ws (c # t) = c # t"
      using skip_ws_items [OF False, of f "CHR '']'' # rest"] by simp_all
    with s show ?thesis by simp
  qed (simp add: skip_ws_def is_jws_def)
next
  case (6 f ms)
  show ?case
  proof (cases "ms = []")
    case False
    obtain t where s: "dumps_members f ms = quote # t" using members_start [OF False] by blast
    have "fold (\<lambda>(k, v) m. AList.update k v m) ms [] = ms"
      using "6.prems"(2) fold_update_distinct [of "[]" ms] by simp
    then show ?thesis
      using 6 False s skip_ws_members [OF False, of f "CHR ''}'' # rest"] by simp
  qed (simp add: skip_ws_def is_jws_def)
next
  case (7 f)
  then show ?case by simp
next
  case (8 f x xs)
  obtain w u where sty: "item_sep f = CHR '','' # w" "\<forall>c \<in> set w. is_jws c"
    using "8.prems"(1) by (auto simp: good_style_def)
  have ne: "dumps f x \<noteq> []" using dumps_start [of f x] by auto
  show ?case
  proof (cases "xs = []")
    case True
    then show ?thesis
      using 8 ne by (simp add: parse_elems.simps [of "dumps f x @ CHR '']'' # rest"] skip_ws_start is_jws_def)
  next
    case False
    let ?r = "CHR '','' # w @ dumps_items f xs @ CHR '']'' # rest"
    have "parse_value (dumps f x @ ?r) = Some (x, ?r)" using 8 by simp
    moreover have "parse_elems (skip_ws (w @ dumps_items f xs @ CHR '']'' # rest)) = Some (xs, rest)"
      using 8 False by (simp add: skip_ws_append [OF sty(2)] skip_ws_items)
    ultimately show ?thesis
      using False ne sty(1)
      by (simp add: parse_elems.simps [of "dumps f x @ ?r"] skip_ws_start is_jws_def)
  qed
next
  case (9 f)
  then show ?case by simp
next
  case (10 f k v ms)
  obtain w u where sty: "item_sep f = CHR '','' # w" "\<forall>c \<in> set w. is_jws c"
      "key_sep f = CHR '':'' # u" "\<forall>c \<in> set u. is_jws c"
    using "10.prems"(1) by (auto simp: good_style_def)
  define tail where "tail = (if ms = [] then CHR ''}'' # rest
      else CHR '','' # w @ dumps_members f ms @ CHR ''}'' # rest)"
  let ?s = "dumps_str f k @ CHR '':'' # u @ dumps f v @ tail"
  have s: "dumps_members f ((k, v) # ms) @ CHR ''}'' # rest = ?s"
    by (simp add: tail_def sty)
  have "json_end tail" by (simp add: tail_def)
  then have v: "parse_value (skip_ws (u @ dumps f v @ tail)) = Some (v, tail)"
    using "10.IH"(1) "10.prems" by (simp add: skip_ws_append [OF sty(4)] skip_ws_dumps)
  have k: "?s \<noteq> []" "hd ?s = quote" "scan_str (tl ?s) = Some (k, CHR '':'' # u @ dumps f v @ tail)"
    using scan_str_dumps [of f k] by (simp_all add: dumps_str_def)
  have "parse_members (skip_ws (w @ dumps_members f ms @ CHR ''}'' # rest)) = Some (ms, rest)" if "ms \<noteq> []"
    using "10.IH"(2) [of rest] "10.prems" that by (simp add: skip_ws_append [OF sty(2)] skip_ws_members)
  then have m: "(case skip_ws tail of [] \<Rightarrow> None
      | e # s4 \<Rightarrow> if e = CHR ''}'' then Some ([(k, v)], s4)
          else if e = CHR '','' then map_option (\<lambda>(ms, rest). ((k, v) # ms, rest)) (parse_members (skip_ws s4))
          else None) = Some ((k, v) # ms, rest)"
    by (simp add: tail_def skip_ws_start is_jws_def)
  have "length tail < length ?s" by simp
  then show ?case
    unfolding s using k v m by (simp add: parse_members.simps [of ?s] skip_ws_start is_jws_def)
qed

theorem loads_dumps: "good_style f \<Longrightarrow> wf_json j \<Longrightarrow> loads (dumps f j) = Inr j"
  using parse_dumps(1) [of f j "[]"] skip_ws_dumps [of f j "[]"]
  by (simp add: loads_def) (simp add: skip_ws_def)

section \<open>Sorting the keys\<close>

lemma sort_items_map: "sort_items xs = map sort_json xs"
  by (induction xs) auto

lemma sort_members_map: "sort_members ms = map (\<lambda>(k, v). (k, sort_json v)) ms"
  by (induction ms) auto

lemma map_fst_sort_members: "map fst (sort_members ms) = map fst ms"
  by (induction ms) auto

lemma wf_sort_json: "wf_json j \<Longrightarrow> wf_json (sort_json j)"
proof (induction j rule: wf_json.induct)
  case (1 xs)
  then show ?case by (auto simp: sort_items_map)
next
  case (2 ms)
  have "distinct (map fst (sort_key fst (sort_members ms)))"
    using "2.prems" map_fst_sort_members [of ms]
    by (metis distinct_map distinct_sort set_sort wf_json.simps(2))
  then show ?case using 2 by (force simp: sort_members_map)
qed auto

lemma sort_key_sorted: "sorted (map f xs) \<Longrightarrow> sort_key f xs = xs"
  by (induction xs) (simp_all add: insort_is_Cons)

lemma sort_key_map_snd:
  "sort_key fst (map (\<lambda>(k, v). (k, g v)) ms) = map (\<lambda>(k, v). (k, g v)) (sort_key fst ms)"
proof (induction ms)
  case (Cons p ms)
  have "insort_key fst ((\<lambda>(k, v). (k, g v)) p) (map (\<lambda>(k, v). (k, g v)) qs) =
      map (\<lambda>(k, v). (k, g v)) (insort_key fst p qs)" for qs
    by (induction qs) (auto split: prod.splits)
  with Cons show ?case by simp
qed simp

lemma sort_members_sort: "sort_members (sort_key fst ms) = sort_key fst (sort_members ms)"
  by (simp add: sort_members_map sort_key_map_snd)

lemma sort_json_idem: "sort_json (sort_json j) = sort_json j"
proof (induction j rule: wf_json.induct)
  case (1 xs)
  then show ?case by (simp add: sort_items_map)
next
  case (2 ms)
  have "sort_members (sort_members ms) = sort_members ms"
    using 2 by (force simp: sort_members_map)
  then show ?case by (simp add: sort_members_sort sort_key_sorted)
qed simp_all

text \<open>
  audit.py: \<^verbatim>\<open>_canonical\<close>. Two values have the same canonical bytes only when they are equal
  up to the order of their keys.
\<close>

definition canonical :: "json \<Rightarrow> string" where
  "canonical j = utf8 (dumps compact (sort_json j))"

theorem canonical_inj:
  assumes "wf_json a" and "wf_json b"
  shows "canonical a = canonical b \<longleftrightarrow> sort_json a = sort_json b"
proof
  assume "canonical a = canonical b"
  then have "dumps compact (sort_json a) = dumps compact (sort_json b)"
    by (simp add: canonical_def utf8_inj)
  moreover have "loads (dumps compact (sort_json j)) = Inr (sort_json j)" if "wf_json j" for j
    using that by (intro loads_dumps wf_sort_json) simp_all
  ultimately have "(Inr (sort_json a) :: json res) = Inr (sort_json b)"
    using assms by metis
  then show "sort_json a = sort_json b" by simp
qed (simp add: canonical_def)

lemma canonical_sort [simp]: "canonical (sort_json j) = canonical j"
  by (simp add: canonical_def sort_json_idem)

section \<open>No line breaks\<close>

text \<open>A printed document is one line: line breaks are escaped inside its strings.\<close>

lemma hex_digit_ord: "n < 16 \<Longrightarrow> 48 \<le> ord (hex_digit n)"
proof -
  assume "n < 16"
  then have "ord (char_of (48 + n)) = 48 + n" "ord (char_of (87 + n)) = 87 + n"
    by (auto intro!: ord_char_of)
  then show ?thesis by (simp add: hex_digit_def)
qed

lemma jescape_printable: "x \<in> set (jescape a c) \<Longrightarrow> 32 \<le> (ord x :: nat)"
proof -
  let ?n = "ord c :: nat"
  have "?n div 16 < 16" using nat_of_char_less_256 [of c] by (simp add: div_less_iff_less_mult)
  then have "48 \<le> ord (hex_digit (?n div 16))" "48 \<le> ord (hex_digit (?n mod 16))"
    by (simp_all add: hex_digit_ord)
  then show "x \<in> set (jescape a c) \<Longrightarrow> 32 \<le> (ord x :: nat)"
    by (auto simp: jescape_def Let_def split: if_splits)
qed

lemma dumps_str_printable: "x \<in> set (dumps_str f s) \<Longrightarrow> 32 \<le> (ord x :: nat)"
  by (auto simp: dumps_str_def dest: jescape_printable)

lemma int_str_printable: "x \<in> set (int_str i) \<Longrightarrow> 32 \<le> (ord x :: nat)"
  using nat_str_digits by (fastforce simp: int_str_def is_digit_def split: if_splits)

definition printable_style :: "jstyle \<Rightarrow> bool" where
  "printable_style f \<longleftrightarrow> (\<forall>x \<in> set (item_sep f @ key_sep f). 32 \<le> (ord x :: nat))"

lemma printable_styles [simp]:
  "printable_style compact" "printable_style spaced" "printable_style spaced_ascii"
  by (auto simp: printable_style_def json_defs)

lemma dumps_printable:
  shows "printable_style f \<Longrightarrow> x \<in> set (dumps f j) \<Longrightarrow> 32 \<le> (ord x :: nat)"
    and "printable_style f \<Longrightarrow> x \<in> set (dumps_items f xs) \<Longrightarrow> 32 \<le> (ord x :: nat)"
    and "printable_style f \<Longrightarrow> x \<in> set (dumps_members f ms) \<Longrightarrow> 32 \<le> (ord x :: nat)"
proof (induction f j and f xs and f ms rule: dumps_dumps_items_dumps_members.induct)
  case (8 f y ys)
  then show ?case by (auto simp: printable_style_def split: if_splits)
next
  case (10 f k v ms)
  then show ?case by (auto simp: printable_style_def dest: dumps_str_printable split: if_splits)
qed (auto dest: dumps_str_printable int_str_printable split: if_splits)

lemma nl_not_in_line: "printable_style f \<Longrightarrow> nl \<notin> set (utf8 (dumps f j))"
  using dumps_printable(1) [of f nl j] by (auto simp: utf8_ascii_mem)

lemma dumps_ascii_start: "\<exists>c t. dumps f j = c # t \<and> (ord c :: nat) < 128"
proof (cases j)
  case (JInt i)
  have "(ord (hd (nat_str n)) :: nat) < 128" for n
    using hd_nat_str_digit [of n] by (auto simp: is_digit_def)
  moreover have "nat_str n = hd (nat_str n) # tl (nat_str n)" for n by simp
  ultimately have "\<exists>c t. nat_str n = c # t \<and> (ord c :: nat) < 128" for n by blast
  then show ?thesis unfolding JInt dumps.simps int_str_def by simp
qed (auto simp: dumps_str_def)

lemma dumps_not_blank: "\<exists>c t. dumps f j = c # t \<and> \<not> is_jws c"
  using dumps_start [of f j] by blast

section \<open>Members of sorted objects\<close>

lemma map_of_sort_key: "distinct (map fst ms) \<Longrightarrow> map_of (sort_key fst ms) = map_of ms"
  by (subst map_of_inject_set) (simp_all add: distinct_map)

lemma map_of_sort_members: "map_of (sort_members ms) k = map_option sort_json (map_of ms k)"
  by (induction ms) auto

lemma sorted_objects_eq:
  assumes "sort_json (JObj ms) = sort_json (JObj ms')" "distinct (map fst ms)" "distinct (map fst ms')"
  shows "map_option sort_json (map_of ms k) = map_option sort_json (map_of ms' k)"
proof -
  have "map_of (sort_key fst (sort_members ms)) k = map_of (sort_key fst (sort_members ms')) k" using assms(1) by simp
  then show ?thesis
    using assms(2,3) by (simp add: map_of_sort_key map_of_sort_members map_fst_sort_members)
qed

end
