(* ===== verification/Iso_Dates.thy ===== *)
theory Iso_Dates
  imports Prelude
begin

text \<open>
  Calendar dates and UTC time stamps as the code uses them: \<^verbatim>\<open>parse_iso_date\<close>
  (models.py), \<^verbatim>\<open>date\<close> subtraction and \<^verbatim>\<open>isoformat\<close>, and the two \<^verbatim>\<open>_utc_now\<close>
  functions (audit.py, drafts.py). Dates and stamps are kept as text in every record of the
  program and compared as text; the theorems of this theory say when that is the same as
  comparing the days or the seconds.
\<close>

named_theorems date_defs \<open>definitions of the calendar\<close>

section \<open>Digit strings\<close>

abbreviation all_digits :: "string \<Rightarrow> bool" where
  "all_digits s \<equiv> \<forall>c \<in> set s. is_digit c"

lemma digits_val_Nil [simp]: "digits_val [] = 0"
  by (simp add: digits_val_def)

lemma digits_val_append: "digits_val (s @ t) = digits_val s * 10 ^ length t + digits_val t"
proof (induction t rule: rev_induct)
  case Nil
  then show ?case by simp
next
  case (snoc c t)
  have "digits_val (s @ t @ [c]) = 10 * digits_val (s @ t) + digit_val c"
    using digits_val_snoc [of "s @ t" c] by simp
  then show ?case using snoc by (simp add: digits_val_snoc algebra_simps)
qed

lemma digits_val_Cons: "digits_val (c # s) = digit_val c * 10 ^ length s + digits_val s"
  using digits_val_append [of "[c]" s] by (simp add: digits_val_def)

lemma digit_val_less: "is_digit c \<Longrightarrow> digit_val c < 10"
  by (auto simp: is_digit_def digit_val_def)

lemma digits_val_bound: "all_digits s \<Longrightarrow> digits_val s < 10 ^ length s"
proof (induction s)
  case Nil
  then show ?case by simp
next
  case (Cons c s)
  then have "digits_val s < 10 ^ length s" "digit_val c \<le> 9"
    using digit_val_less [of c] by auto
  moreover have "digit_val c * 10 ^ length s \<le> 9 * 10 ^ length s"
    using \<open>digit_val c \<le> 9\<close> by (rule mult_le_mono1)
  ultimately have "digit_val c * 10 ^ length s + digits_val s < 10 * 10 ^ length s" by linarith
  then show ?case by (simp add: digits_val_Cons)
qed

lemma digit_less_iff: "is_digit c \<Longrightarrow> is_digit d \<Longrightarrow> digit_val c < digit_val d \<longleftrightarrow> c < d"
  by (auto simp: is_digit_def digit_val_def char_less_iff)

lemma digit_eq_iff: "is_digit c \<Longrightarrow> is_digit d \<Longrightarrow> digit_val c = digit_val d \<longleftrightarrow> c = d"
  using digit_less_iff by (metis linorder_neqE order_less_irrefl)

lemma digits_less_iff:
  "length s = length t \<Longrightarrow> all_digits s \<Longrightarrow> all_digits t \<Longrightarrow>
   s < t \<longleftrightarrow> digits_val s < digits_val t"
proof (induction s t rule: list_induct2)
  case Nil
  then show ?case by simp
next
  case (Cons c s d t)
  let ?p = "10 ^ length t :: nat"
  have b: "digits_val s < ?p" "digits_val t < ?p"
    using Cons digits_val_bound [of s] digits_val_bound [of t] by auto
  have dig: "is_digit c" "is_digit d" using Cons.prems by auto
  show ?case
  proof (cases "c = d")
    case True
    then show ?thesis using Cons by (simp add: digits_val_Cons)
  next
    case False
    have less: "digit_val x * ?p + m < digit_val y * ?p + n"
      if "digit_val x < digit_val y" "m < ?p" for x y m n
    proof -
      have "digit_val x * ?p + m < digit_val x * ?p + ?p" using that by simp
      also have "\<dots> = Suc (digit_val x) * ?p" by simp
      also have "\<dots> \<le> digit_val y * ?p" using that(1) by (intro mult_le_mono1) simp
      finally show ?thesis by simp
    qed
    from False dig consider "digit_val c < digit_val d" | "digit_val d < digit_val c"
      using digit_eq_iff by (metis linorder_neqE_nat)
    then show ?thesis
    proof cases
      case 1
      then show ?thesis
        using less [OF 1 b(1), of "digits_val t"] digit_less_iff [OF dig] Cons.hyps
        by (simp add: digits_val_Cons)
    next
      case 2
      then show ?thesis
        using less [OF 2 b(2), of "digits_val s"] digit_less_iff [OF dig(2,1)] Cons.hyps False
        by (auto simp: digits_val_Cons)
    qed
  qed
qed

lemma digits_eq_iff:
  "length s = length t \<Longrightarrow> all_digits s \<Longrightarrow> all_digits t \<Longrightarrow>
   s = t \<longleftrightarrow> digits_val s = digits_val t"
  using digits_less_iff by (metis length_0_conv linorder_neqE order_less_irrefl)

text \<open>Text that starts with parts of equal length is compared part by part.\<close>

lemma append_less_iff:
  "length a = length b \<Longrightarrow> a @ x < b @ y \<longleftrightarrow> a < b \<or> a = b \<and> (x :: string) < y"
  by (induction a b rule: list_induct2) auto

lemma digits_val_zeros: "digits_val (replicate k (CHR ''0'') @ s) = digits_val s"
  by (induction k) (auto simp: digits_val_Cons digit_val_def)

lemma length_pad0: "n < 10 ^ w \<Longrightarrow> 0 < w \<Longrightarrow> length (pad0 w n) = w"
  using nat_str_length by (simp add: pad0_def)

lemma all_digits_pad0: "all_digits (pad0 w n)"
  using nat_str_digits [of n] by (auto simp: pad0_def is_digit_def)

lemma digits_val_pad0 [simp]: "digits_val (pad0 w n) = n"
  by (simp add: pad0_def digits_val_zeros)

lemma pad0_less_iff:
  "m < 10 ^ w \<Longrightarrow> n < 10 ^ w \<Longrightarrow> 0 < w \<Longrightarrow> pad0 w m < pad0 w n \<longleftrightarrow> m < n"
  using digits_less_iff [of "pad0 w m" "pad0 w n"] all_digits_pad0 by (simp add: length_pad0)

lemma pad0_inj: "pad0 w m = pad0 w n \<longleftrightarrow> m = n"
  by (metis digits_val_pad0)

section \<open>The calendar\<close>

text \<open>\<^verbatim>\<open>datetime.date\<close>: a year, a month and a day.\<close>

record date =
  d_year :: int
  d_month :: int
  d_day :: int

definition is_leap :: "int \<Rightarrow> bool" where
  [date_defs]: "is_leap y \<longleftrightarrow> y mod 4 = 0 \<and> (y mod 100 \<noteq> 0 \<or> y mod 400 = 0)"

definition days_in_year :: "int \<Rightarrow> int" where
  [date_defs]: "days_in_year y = (if is_leap y then 366 else 365)"

definition days_in_month :: "int \<Rightarrow> int \<Rightarrow> int" where
  [date_defs]: "days_in_month y m =
     (if m = 2 then (if is_leap y then 29 else 28) else if m \<in> {4, 6, 9, 11} then 30 else 31)"

definition days_before_month :: "int \<Rightarrow> int \<Rightarrow> int" where
  [date_defs]: "days_before_month y m =
     (if m \<le> 1 then 0 else if m = 2 then 31
      else (if is_leap y then 1 else 0) +
        (if m = 3 then 59 else if m = 4 then 90 else if m = 5 then 120 else if m = 6 then 151
         else if m = 7 then 181 else if m = 8 then 212 else if m = 9 then 243
         else if m = 10 then 273 else if m = 11 then 304 else 334))"

definition days_before_year :: "int \<Rightarrow> int" where
  [date_defs]: "days_before_year y = (y - 1) * 365 + (y - 1) div 4 - (y - 1) div 100 + (y - 1) div 400"

definition valid_date :: "date \<Rightarrow> bool" where
  [date_defs]: "valid_date d \<longleftrightarrow> 1 \<le> d_year d \<and> d_year d \<le> 9999 \<and> 1 \<le> d_month d \<and> d_month d \<le> 12
     \<and> 1 \<le> d_day d \<and> d_day d \<le> days_in_month (d_year d) (d_month d)"

text \<open>\<^verbatim>\<open>date.toordinal\<close>; \<^verbatim>\<open>(a - b).days\<close> is the difference of the ordinals.\<close>

definition toordinal :: "date \<Rightarrow> int" where
  [date_defs]: "toordinal d =
     days_before_year (d_year d) + days_before_month (d_year d) (d_month d) + d_day d"

definition days_between :: "date \<Rightarrow> date \<Rightarrow> int" where
  [date_defs]: "days_between a b = toordinal a - toordinal b"

text \<open>
  The inverse, \<^verbatim>\<open>date.fromordinal\<close>: whole 400-year cycles first, then year by year and
  month by month.
\<close>

lemma days_in_year_pos: "0 < days_in_year y"
  by (simp add: days_in_year_def)

lemma days_in_month_pos: "0 < days_in_month y m"
  by (simp add: days_in_month_def)

function year_from :: "int \<Rightarrow> int \<Rightarrow> int \<times> int" where
  "year_from y d = (if d < days_in_year y then (y, d) else year_from (y + 1) (d - days_in_year y))"
  by pat_completeness auto
termination
proof (relation "measure (\<lambda>(y, d). nat d)")
  fix y d :: int
  assume "\<not> d < days_in_year y"
  then show "((y + 1, d - days_in_year y), (y, d)) \<in> measure (\<lambda>(y, d). nat d)"
    using days_in_year_pos [of y] by simp
qed simp

function month_from :: "int \<Rightarrow> int \<Rightarrow> int \<Rightarrow> int \<times> int" where
  "month_from y m d =
     (if d < days_in_month y m \<or> 12 \<le> m then (m, d) else month_from y (m + 1) (d - days_in_month y m))"
  by pat_completeness auto
termination
  by (relation "measure (\<lambda>(y, m, d). nat (12 - m))") auto

declare year_from.simps [simp del] month_from.simps [simp del]

definition fromordinal :: "int \<Rightarrow> date" where
  [date_defs]: "fromordinal n =
     (let q = (n - 1) div 146097; (y, d) = year_from (400 * q + 1) ((n - 1) mod 146097);
          (m, e) = month_from y 1 d
      in \<lparr>d_year = y, d_month = m, d_day = e + 1\<rparr>)"

lemma div_step:
  fixes x k :: int
  assumes "0 < k"
  shows "(x + 1) div k = x div k + (if (x + 1) mod k = 0 then 1 else 0)"
proof (cases "x mod k + 1 < k")
  case True
  have eq: "x + 1 = k * (x div k) + (x mod k + 1)" by simp
  have "0 \<le> x mod k" using assms by simp
  then have "(x + 1) div k = x div k" "(x + 1) mod k = x mod k + 1"
    using int_div_pos_eq [OF eq] int_mod_pos_eq [OF eq] True by simp_all
  then show ?thesis using \<open>0 \<le> x mod k\<close> by simp
next
  case False
  then have "x mod k = k - 1" using assms pos_mod_bound [of k x] by linarith
  then have eq: "x + 1 = k * (x div k + 1) + 0"
    using mult_div_mod_eq [of k x] distrib_left [of k "x div k" 1] by linarith
  then show ?thesis using int_div_pos_eq [OF eq] int_mod_pos_eq [OF eq] assms by simp
qed

lemma mod_cycles:
  fixes y :: int
  shows "y mod 400 = 0 \<Longrightarrow> y mod 100 = 0" and "y mod 100 = 0 \<Longrightarrow> y mod 4 = 0"
proof -
  have "y mod 400 mod 100 = y mod 100" "y mod 100 mod 4 = y mod 4"
    by (rule mod_mod_cancel; simp)+
  then show "y mod 400 = 0 \<Longrightarrow> y mod 100 = 0" "y mod 100 = 0 \<Longrightarrow> y mod 4 = 0"
    by simp_all
qed

lemma days_in_year_sum:
  "days_in_year y = 365 + (if y mod 4 = 0 then 1 else 0) - (if y mod 100 = 0 then 1 else 0)
     + (if y mod 400 = 0 then 1 else 0)"
proof -
  have bools: "(if A \<and> (\<not> B \<or> C) then 366 else 365 :: int) =
      365 + (if A then 1 else 0) - (if B then 1 else 0) + (if C then 1 else 0)"
    if "C \<Longrightarrow> B" "B \<Longrightarrow> A" for A B C
    using that by (cases A; cases B; cases C; simp)
  show ?thesis
    unfolding days_in_year_def is_leap_def by (rule bools; rule mod_cycles; assumption)
qed

lemma days_before_year_step: "days_before_year (y + 1) = days_before_year y + days_in_year y"
proof -
  have step: "y div k = (y - 1) div k + (if y mod k = 0 then 1 else 0)" if "0 < k" for k
    using div_step [OF that, of "y - 1"] by (simp only: diff_add_cancel)
  have sum: "(y + 1 - 1) * 365 + a - b + c = (y - 1) * 365 + a' - b' + c' + (365 + i - j + k)"
    if "a = a' + i" "b = b' + j" "c = c' + k" for a b c a' b' c' i j k :: int
    using that by simp
  have "y + 1 - 1 = y" by simp
  then show ?thesis
    unfolding days_before_year_def days_in_year_sum
    by (intro sum) (simp_all only: step zero_less_numeral)
qed

lemma days_before_year_cycle: "days_before_year (400 * q + 1) = 146097 * q"
  by (simp add: days_before_year_def)

lemma year_from_spec:
  assumes "0 \<le> d" and "year_from y d = (y', d')"
  shows "days_before_year y' + d' = days_before_year y + d \<and> 0 \<le> d' \<and> d' < days_in_year y' \<and> y \<le> y'"
  using assms
proof (induction y d arbitrary: y' d' rule: year_from.induct)
  case (1 y d)
  show ?case
  proof (cases "d < days_in_year y")
    case True
    then show ?thesis using "1.prems" by (simp add: year_from.simps [of y d])
  next
    case False
    then show ?thesis
      using "1.IH" [OF False, of y' d'] "1.prems" days_before_year_step [of y]
      by (auto simp: year_from.simps [of y d])
  qed
qed

lemma days_before_month_step:
  "1 \<le> m \<Longrightarrow> m < 12 \<Longrightarrow> days_before_month y (m + 1) = days_before_month y m + days_in_month y m"
proof -
  assume "1 \<le> m" "m < 12"
  then have "m \<in> {1, 2, 3, 4, 5, 6, 7, 8, 9, 10, 11}"
    unfolding insert_iff empty_iff by presburger
  then show ?thesis by (elim insertE) (auto simp: days_before_month_def days_in_month_def)
qed

lemma days_in_december: "days_before_month y 12 + days_in_month y 12 = days_in_year y"
  by (simp add: days_before_month_def days_in_month_def days_in_year_def)

lemma month_from_spec:
  assumes "1 \<le> m" and "m \<le> 12" and "0 \<le> d" and "days_before_month y m + d < days_in_year y"
    and "month_from y m d = (m', d')"
  shows "days_before_month y m' + d' = days_before_month y m + d \<and> 0 \<le> d' \<and> d' < days_in_month y m'
    \<and> 1 \<le> m' \<and> m' \<le> 12"
  using assms
proof (induction y m d arbitrary: m' d' rule: month_from.induct)
  case (1 y m d)
  show ?case
  proof (cases "d < days_in_month y m \<or> 12 \<le> m")
    case True
    then show ?thesis
      using "1.prems" days_in_december [of y] by (auto simp: month_from.simps [of y m d])
  next
    case False
    then have step: "days_before_month y (m + 1) = days_before_month y m + days_in_month y m"
      using "1.prems" by (intro days_before_month_step) auto
    from False have "month_from y (m + 1) (d - days_in_month y m) = (m', d')"
      using "1.prems"(5) by (simp add: month_from.simps [of y m d])
    then show ?thesis using "1.IH" [OF False, of m' d'] "1.prems" False step by auto
  qed
qed

lemma toordinal_fromordinal:
  assumes "1 \<le> n"
  shows "toordinal (fromordinal n) = n \<and> 1 \<le> d_year (fromordinal n)
    \<and> 1 \<le> d_month (fromordinal n) \<and> d_month (fromordinal n) \<le> 12 \<and> 1 \<le> d_day (fromordinal n)
    \<and> d_day (fromordinal n) \<le> days_in_month (d_year (fromordinal n)) (d_month (fromordinal n))"
proof -
  define q where "q = (n - 1) div 146097"
  define r where "r = (n - 1) mod 146097"
  have q: "0 \<le> q" and r: "0 \<le> r" and n: "146097 * q + r = n - 1"
    using assms by (auto simp: q_def r_def pos_imp_zdiv_nonneg_iff)
  obtain y d where yd: "year_from (400 * q + 1) r = (y, d)" by fastforce
  obtain m e where me: "month_from y 1 d = (m, e)" by fastforce
  have y: "days_before_year y + d = 146097 * q + r" "0 \<le> d" "d < days_in_year y" "400 * q + 1 \<le> y"
    using year_from_spec [OF r yd] by (simp_all add: days_before_year_cycle)
  have m: "days_before_month y m + e = d" "0 \<le> e" "e < days_in_month y m" "1 \<le> m" "m \<le> 12"
    using month_from_spec [OF _ _ y(2) _ me] y(3) by (simp_all add: days_before_month_def)
  have "fromordinal n = \<lparr>d_year = y, d_month = m, d_day = e + 1\<rparr>"
    using yd me by (simp add: fromordinal_def q_def [symmetric] r_def [symmetric])
  then show ?thesis using y m n q by (simp add: toordinal_def)
qed

subsection \<open>The order of days\<close>

definition date_less :: "date \<Rightarrow> date \<Rightarrow> bool" where
  [date_defs]: "date_less a b \<longleftrightarrow> d_year a < d_year b \<or> d_year a = d_year b \<and>
     (d_month a < d_month b \<or> d_month a = d_month b \<and> d_day a < d_day b)"

lemma days_before_year_mono: "y < y' \<Longrightarrow> days_before_year y + days_in_year y \<le> days_before_year y'"
proof (induction y' rule: int_gr_induct)
  case base
  then show ?case by (simp add: days_before_year_step)
next
  case (step i)
  then show ?case using days_in_year_pos [of i] by (simp add: days_before_year_step)
qed

lemma days_before_month_mono:
  "m < m' \<Longrightarrow> 1 \<le> m \<Longrightarrow> m' \<le> 12 \<Longrightarrow> days_before_month y m + days_in_month y m \<le> days_before_month y m'"
proof (induction m' rule: int_gr_induct)
  case base
  then show ?case by (simp add: days_before_month_step)
next
  case (step i)
  then show ?case using days_in_month_pos [of y i] by (simp add: days_before_month_step)
qed

lemma day_of_year_bound:
  "valid_date d \<Longrightarrow> 0 < days_before_month (d_year d) (d_month d) + d_day d \<and>
   days_before_month (d_year d) (d_month d) + d_day d \<le> days_in_year (d_year d)"
proof -
  assume v: "valid_date d"
  have nn: "0 \<le> days_before_month (d_year d) (d_month d)"
    by (simp add: days_before_month_def)
  show ?thesis
  proof (cases "d_month d = 12")
    case True
    then show ?thesis using v nn days_in_december [of "d_year d"] by (simp add: valid_date_def)
  next
    case False
    then have "d_month d < 12" using v by (simp add: valid_date_def)
    then show ?thesis
      using v nn days_before_month_mono [of "d_month d" 12 "d_year d"] days_in_december [of "d_year d"]
        days_in_month_pos [of "d_year d" 12]
      by (simp add: valid_date_def)
  qed
qed

lemma date_less_toordinal:
  assumes "valid_date a" and "valid_date b" and "date_less a b"
  shows "toordinal a < toordinal b"
proof (cases "d_year a = d_year b")
  case False
  then have "d_year a < d_year b" using assms(3) by (simp add: date_less_def)
  then show ?thesis
    using days_before_year_mono [of "d_year a" "d_year b"] day_of_year_bound [OF assms(1)]
      day_of_year_bound [OF assms(2)]
    by (simp add: toordinal_def)
next
  case True
  then have c: "d_month a < d_month b \<or> d_month a = d_month b \<and> d_day a < d_day b"
    using assms(3) by (simp add: date_less_def)
  then show ?thesis
    using days_before_month_mono [of "d_month a" "d_month b" "d_year b"] assms(1,2) True
    by (auto simp: toordinal_def valid_date_def)
qed

lemma date_less_linear: "date_less a b \<or> (a :: date) = b \<or> date_less b a"
  by (auto simp: date_less_def intro: date.equality)

lemma toordinal_less_iff:
  "valid_date a \<Longrightarrow> valid_date b \<Longrightarrow> toordinal a < toordinal b \<longleftrightarrow> date_less a b"
  using date_less_toordinal date_less_linear by (metis order_less_asym order_less_irrefl)

lemma toordinal_inj: "valid_date a \<Longrightarrow> valid_date b \<Longrightarrow> toordinal a = toordinal b \<Longrightarrow> a = b"
  using date_less_toordinal date_less_linear by (metis order_less_irrefl)

section \<open>ISO date strings\<close>

text \<open>The pattern of \<^verbatim>\<open>IsoDate\<close> (models.py): four, two and two digits with dashes between.\<close>

definition iso_pattern :: "string \<Rightarrow> bool" where
  [date_defs]: "iso_pattern s \<longleftrightarrow> length s = 10 \<and> s ! 4 = CHR ''-'' \<and> s ! 7 = CHR ''-'' \<and>
     all_digits (take 4 s) \<and> all_digits (take 2 (drop 5 s)) \<and> all_digits (drop 8 s)"

definition parse_digits :: "nat \<Rightarrow> string \<Rightarrow> (int \<times> string) option" where
  [date_defs]: "parse_digits n s =
     (if length (take n s) = n \<and> all_digits (take n s)
      then Some (int (digits_val (take n s)), drop n s) else None)"

abbreviation bad_iso :: "date res" where
  "bad_iso \<equiv> Inl (ValueError ''Invalid isoformat string'')"

definition check_date :: "int \<Rightarrow> int \<Rightarrow> int \<Rightarrow> date res" where
  [date_defs]: "check_date y m d =
     (let x = \<lparr>d_year = y, d_month = m, d_day = d\<rparr> in if valid_date x then Inr x else bad_iso)"

text \<open>Week dates, \<^verbatim>\<open>YYYY-Www-D\<close>: the Monday of week 1 is the one next to 1 January.\<close>

definition weekday :: "int \<Rightarrow> int" where
  [date_defs]: "weekday n = (n + 6) mod 7"

definition iso_week1_monday :: "int \<Rightarrow> int" where
  [date_defs]: "iso_week1_monday y =
     (let f = days_before_year y + 1; w = weekday f in if 3 < w then f - w + 7 else f - w)"

definition iso_to_ymd :: "int \<Rightarrow> int \<Rightarrow> int \<Rightarrow> date res" where
  [date_defs]: "iso_to_ymd y w d =
     (let fw = weekday (days_before_year y + 1)
      in if y < 1 \<or> 9999 < y \<or> w < 1 \<or> 53 < w \<or> (w = 53 \<and> \<not> (fw = 3 \<or> fw = 2 \<and> is_leap y)) \<or> d < 1 \<or> 7 < d
         then bad_iso
         else (let x = fromordinal (iso_week1_monday y + (w - 1) * 7 + d - 1)
               in if valid_date x then Inr x else bad_iso))"

definition parse_week :: "int \<Rightarrow> bool \<Rightarrow> string \<Rightarrow> date res" where
  [date_defs]: "parse_week y sep s =
     (case parse_digits 2 s of None \<Rightarrow> bad_iso
      | Some (w, s1) \<Rightarrow>
          if s1 = [] then iso_to_ymd y w 1
          else if sep \<and> hd s1 \<noteq> CHR ''-'' then bad_iso
          else (case parse_digits 1 (if sep then tl s1 else s1) of None \<Rightarrow> bad_iso
                | Some (d, s2) \<Rightarrow> if s2 = [] then iso_to_ymd y w d else bad_iso))"

text \<open>\<^verbatim>\<open>date.fromisoformat\<close> of Python 3.11 and later, with its three forms and their basic variants.\<close>

definition fromisoformat :: "string \<Rightarrow> date res" where
  [date_defs]: "fromisoformat s =
     (if length s \<noteq> 7 \<and> length s \<noteq> 8 \<and> length s \<noteq> 10 then bad_iso
      else case parse_digits 4 s of None \<Rightarrow> bad_iso
      | Some (y, s1) \<Rightarrow>
          (let sep = (s1 \<noteq> [] \<and> hd s1 = CHR ''-''); s2 = (if sep then tl s1 else s1)
           in if s2 \<noteq> [] \<and> hd s2 = CHR ''W'' then parse_week y sep (tl s2)
              else case parse_digits 2 s2 of None \<Rightarrow> bad_iso
              | Some (m, s3) \<Rightarrow>
                  if sep \<and> (s3 = [] \<or> hd s3 \<noteq> CHR ''-'') then bad_iso
                  else case parse_digits 2 (if sep then tl s3 else s3) of None \<Rightarrow> bad_iso
                  | Some (d, s4) \<Rightarrow> if s4 = [] then check_date y m d else bad_iso))"

text \<open>models.py: \<^verbatim>\<open>parse_iso_date\<close>.\<close>

definition parse_iso_date :: "string \<Rightarrow> date res" where
  [date_defs]: "parse_iso_date v = fromisoformat v"

text \<open>\<^verbatim>\<open>date.isoformat\<close>.\<close>

definition isoformat :: "date \<Rightarrow> string" where
  [date_defs]: "isoformat d =
     pad0 4 (nat (d_year d)) @ CHR ''-'' # pad0 2 (nat (d_month d)) @ CHR ''-'' # pad0 2 (nat (d_day d))"

lemma iso_pattern_append:
  assumes "length y = 4" "length m = 2" "length d = 2"
  shows "iso_pattern (y @ CHR ''-'' # m @ CHR ''-'' # d) \<longleftrightarrow> all_digits y \<and> all_digits m \<and> all_digits d"
  using assms by (auto simp: iso_pattern_def nth_append)

lemma iso_pattern_split:
  assumes "iso_pattern s"
  obtains y m d where "s = y @ CHR ''-'' # m @ CHR ''-'' # d" "length y = 4" "length m = 2" "length d = 2"
    "all_digits y" "all_digits m" "all_digits d"
proof -
  let ?y = "take 4 s" and ?m = "take 2 (drop 5 s)" and ?d = "drop 8 s"
  have len: "length s = 10" and c: "s ! 4 = CHR ''-''" "s ! 7 = CHR ''-''"
    using assms by (auto simp: iso_pattern_def)
  have "s = take 4 s @ drop 4 s" by simp
  also have "drop 4 s = s ! 4 # drop 5 s" using len by (simp add: Cons_nth_drop_Suc [symmetric])
  also have "drop 5 s = ?m @ drop 7 s"
    using append_take_drop_id [of 2 "drop 5 s"] by simp
  also have "drop 7 s = s ! 7 # drop 8 s" using len by (simp add: Cons_nth_drop_Suc [symmetric])
  finally have "s = ?y @ CHR ''-'' # ?m @ CHR ''-'' # ?d" using c by simp
  then show thesis using that [of ?y ?m ?d] len assms by (simp add: iso_pattern_def)
qed

lemma parse_iso_date_parts:
  assumes "length y = 4" "length m = 2" "length d = 2" "all_digits y" "all_digits m" "all_digits d"
  shows "parse_iso_date (y @ CHR ''-'' # m @ CHR ''-'' # d) =
    check_date (int (digits_val y)) (int (digits_val m)) (int (digits_val d))"
proof -
  have "m \<noteq> []" using assms by auto
  then have "hd m \<in> set m" by simp
  then have "hd m \<noteq> CHR ''W''" using assms(5) by (auto simp: is_digit_def)
  then have "hd (m @ CHR ''-'' # d) \<noteq> CHR ''W''" using \<open>m \<noteq> []\<close> by simp
  then show ?thesis
    using assms by (simp add: parse_iso_date_def fromisoformat_def parse_digits_def Let_def)
qed

lemma check_date_Inr: "check_date y m d = Inr x \<longleftrightarrow> valid_date x \<and> x = \<lparr>d_year = y, d_month = m, d_day = d\<rparr>"
  by (auto simp: check_date_def Let_def)

lemma parse_iso_date_valid: "iso_pattern s \<Longrightarrow> parse_iso_date s = Inr x \<Longrightarrow> valid_date x"
  by (elim iso_pattern_split) (auto simp: parse_iso_date_parts check_date_Inr)

lemma parse_isoformat:
  assumes "valid_date x"
  shows "iso_pattern (isoformat x) \<and> parse_iso_date (isoformat x) = Inr x"
proof -
  have b: "nat (d_year x) < 10 ^ 4" "nat (d_month x) < 10 ^ 2" "nat (d_day x) < 10 ^ 2"
    using assms days_in_month_def [of "d_year x" "d_month x"] by (auto simp: valid_date_def split: if_splits)
  then have l: "length (pad0 4 (nat (d_year x))) = 4" "length (pad0 2 (nat (d_month x))) = 2"
      "length (pad0 2 (nat (d_day x))) = 2"
    by (simp_all add: length_pad0)
  have "int (nat (d_year x)) = d_year x" "int (nat (d_month x)) = d_month x" "int (nat (d_day x)) = d_day x"
    using assms by (auto simp: valid_date_def)
  then show ?thesis
    using assms l
    by (simp add: isoformat_def iso_pattern_append all_digits_pad0 parse_iso_date_parts check_date_Inr)
qed

text \<open>Comparing two date strings is comparing the days they name.\<close>

lemma iso_less_iff:
  assumes "iso_pattern s" "iso_pattern t" "parse_iso_date s = Inr a" "parse_iso_date t = Inr b"
  shows "s < t \<longleftrightarrow> toordinal a < toordinal b"
proof -
  obtain y m d where s: "s = y @ CHR ''-'' # m @ CHR ''-'' # d" "length y = 4" "length m = 2" "length d = 2"
    "all_digits y" "all_digits m" "all_digits d"
    using assms(1) by (rule iso_pattern_split)
  obtain y' m' d' where t: "t = y' @ CHR ''-'' # m' @ CHR ''-'' # d'" "length y' = 4" "length m' = 2" "length d' = 2"
    "all_digits y'" "all_digits m'" "all_digits d'"
    using assms(2) by (rule iso_pattern_split)
  have ab: "valid_date a" "a = \<lparr>d_year = int (digits_val y), d_month = int (digits_val m), d_day = int (digits_val d)\<rparr>"
      "valid_date b" "b = \<lparr>d_year = int (digits_val y'), d_month = int (digits_val m'), d_day = int (digits_val d')\<rparr>"
    using assms(3,4) s t by (auto simp: parse_iso_date_parts check_date_Inr)
  have "s < t \<longleftrightarrow> y < y' \<or> y = y' \<and> (m < m' \<or> m = m' \<and> d < d')"
    unfolding s(1) t(1) using s t
    by (simp add: append_less_iff [of y y'] append_less_iff [of m m'])
  also have "\<dots> \<longleftrightarrow> date_less a b"
    using s t ab digits_less_iff [of y y'] digits_less_iff [of m m'] digits_less_iff [of d d']
      digits_eq_iff [of y y'] digits_eq_iff [of m m']
    by (simp add: date_less_def)
  finally show ?thesis using toordinal_less_iff [of a b] ab by simp
qed

lemma iso_le_iff:
  "iso_pattern s \<Longrightarrow> iso_pattern t \<Longrightarrow> parse_iso_date s = Inr a \<Longrightarrow> parse_iso_date t = Inr b \<Longrightarrow>
   s \<le> t \<longleftrightarrow> toordinal a \<le> toordinal b"
  using iso_less_iff [of t s b a] by (simp add: not_less [symmetric])

section \<open>UTC time stamps\<close>

text \<open>
  Seconds since the epoch as \<^verbatim>\<open>time.gmtime\<close> breaks them up, and the two formats of the code:
  \<^verbatim>\<open>%Y-%m-%dT%H:%M:%SZ\<close> of the records and \<^verbatim>\<open>%Y%m%dT%H%M%S\<close> of the names of rotated files.
  719163 is the ordinal of 1 January 1970.
\<close>

definition gm_date :: "nat \<Rightarrow> date" where
  [date_defs]: "gm_date t = fromordinal (719163 + int (t div 86400))"

definition clock_text :: "string \<Rightarrow> nat \<Rightarrow> string" where
  [date_defs]: "clock_text sep t =
     pad0 2 (t mod 86400 div 3600) @ sep @ pad0 2 (t mod 3600 div 60) @ sep @ pad0 2 (t mod 60)"

text \<open>audit.py and drafts.py: \<^verbatim>\<open>_utc_now\<close>, for the time \<open>t\<close> on the clock.\<close>

definition utc_now :: "nat \<Rightarrow> string" where
  [date_defs]: "utc_now t = isoformat (gm_date t) @ ''T'' @ clock_text '':'' t @ ''Z''"

definition stamp_seconds :: "nat \<Rightarrow> string" where
  [date_defs]: "stamp_seconds t = str_remove (CHR ''-'') (isoformat (gm_date t)) @ ''T'' @ clock_text [] t"

definition date_compact :: "nat \<Rightarrow> string" where
  [date_defs]: "date_compact t = str_remove (CHR ''-'') (isoformat (gm_date t))"

text \<open>The instants up to the end of the year 9999, which is where \<^verbatim>\<open>datetime\<close> ends.\<close>

definition clock_range :: "nat \<Rightarrow> bool" where
  [date_defs]: "clock_range t \<longleftrightarrow> t < 253402300800"

lemma toordinal_gm_date: "toordinal (gm_date t) = 719163 + int (t div 86400)"
  using toordinal_fromordinal [of "719163 + int (t div 86400)"] by (simp add: gm_date_def)

lemma valid_gm_date:
  assumes "clock_range t"
  shows "valid_date (gm_date t)"
proof -
  have dom: "1 \<le> d_year (gm_date t)" "1 \<le> d_month (gm_date t)" "d_month (gm_date t) \<le> 12"
      "1 \<le> d_day (gm_date t)" "d_day (gm_date t) \<le> days_in_month (d_year (gm_date t)) (d_month (gm_date t))"
    using toordinal_fromordinal [of "719163 + int (t div 86400)"] by (simp_all add: gm_date_def)
  have "d_year (gm_date t) \<le> 9999"
  proof (rule ccontr)
    assume "\<not> d_year (gm_date t) \<le> 9999"
    then have "days_before_year 9999 + days_in_year 9999 \<le> days_before_year (d_year (gm_date t))"
      by (intro days_before_year_mono) simp
    moreover have "days_before_year 9999 + days_in_year 9999 = 3652059"
      by (simp add: days_before_year_def days_in_year_def is_leap_def)
    moreover have "days_before_year (d_year (gm_date t)) < toordinal (gm_date t)"
      using dom by (simp add: toordinal_def days_before_month_def)
    moreover have "t div 86400 < 2932897"
      using assms by (simp add: clock_range_def div_less_iff_less_mult)
    ultimately show False by (simp add: toordinal_gm_date)
  qed
  then show ?thesis using dom by (simp add: valid_date_def)
qed

lemma length_isoformat: "valid_date x \<Longrightarrow> length (isoformat x) = 10"
  using parse_isoformat [of x] by (simp add: iso_pattern_def)

lemma isoformat_gm_less_iff:
  assumes "clock_range t" "clock_range u"
  shows "isoformat (gm_date t) < isoformat (gm_date u) \<longleftrightarrow> t div 86400 < u div 86400"
  using iso_less_iff [of "isoformat (gm_date t)" "isoformat (gm_date u)"]
    parse_isoformat [OF valid_gm_date [OF assms(1)]] parse_isoformat [OF valid_gm_date [OF assms(2)]]
  by (simp add: toordinal_gm_date)

lemma hms_less_iff:
  fixes h m s h' m' s' :: nat
  assumes "m < 60" "s < 60" "m' < 60" "s' < 60"
  shows "h * 3600 + m * 60 + s < h' * 3600 + m' * 60 + s' \<longleftrightarrow>
    h < h' \<or> h = h' \<and> (m < m' \<or> m = m' \<and> s < s')"
  using assms by auto

lemma clock_split: "(t :: nat) mod 86400 = t mod 86400 div 3600 * 3600 + t mod 3600 div 60 * 60 + t mod 60"
proof -
  have "t mod 86400 mod 3600 = t mod 3600" "t mod 3600 mod 60 = t mod 60"
    by (rule mod_mod_cancel; simp)+
  then show ?thesis
    using div_mult_mod_eq [of "t mod 86400" 3600] div_mult_mod_eq [of "t mod 3600" 60] by simp
qed

lemma clock_parts: "t mod 86400 div 3600 < 10 ^ 2" "t mod 3600 div 60 < 60" "(t :: nat) mod 60 < 60"
  by (simp_all add: div_less_iff_less_mult less_trans [OF mod_less_divisor])

lemma clock_text_less_iff:
  assumes "length sep \<le> 1"
  shows "clock_text sep t @ x < clock_text sep u @ x \<longleftrightarrow> t mod 86400 < u mod 86400"
proof -
  let ?p = "pad0 2" and ?h = "\<lambda>t :: nat. t mod 86400 div 3600" and ?m = "\<lambda>t :: nat. t mod 3600 div 60"
    and ?s = "\<lambda>t :: nat. t mod 60"
  have b: "?h t < 10 ^ 2" "?m t < 10 ^ 2" "?s t < 10 ^ 2" for t
    using clock_parts [of t] by auto
  have len: "length (?p (?h t)) = 2" "length (?p (?m t)) = 2" "length (?p (?s t)) = 2" for t
    using b [of t] by (simp_all add: length_pad0)
  have irr: "\<not> w < (w :: string)" for w by simp
  have "clock_text sep t @ x < clock_text sep u @ x \<longleftrightarrow>
      ?h t < ?h u \<or> ?h t = ?h u \<and> (?m t < ?m u \<or> ?m t = ?m u \<and> ?s t < ?s u)"
    using len [of t] len [of u] b [of t] b [of u]
    by (simp add: clock_text_def append_less_iff pad0_less_iff pad0_inj irr)
  also have "\<dots> \<longleftrightarrow> t mod 86400 < u mod 86400"
    using hms_less_iff [OF clock_parts(2,3) [of t] clock_parts(2,3) [of u], of "?h t" "?h u"]
      clock_split [of t] clock_split [of u] by simp
  finally show ?thesis .
qed

lemma div_mod_less_iff:
  fixes t u k :: nat
  assumes "0 < k"
  shows "t < u \<longleftrightarrow> t div k < u div k \<or> t div k = u div k \<and> t mod k < u mod k"
proof -
  have less: "x < y" if "x div k < y div k" for x y :: nat
    using that div_le_mono [of y x k] by (metis not_le)
  show ?thesis
  proof (cases "t div k = u div k")
    case True
    then show ?thesis
      using div_mult_mod_eq [of t k] div_mult_mod_eq [of u k]
      by (metis add_less_cancel_left less_irrefl)
  next
    case False
    then show ?thesis using less [of t u] less [of u t] by (metis less_asym linorder_neqE_nat)
  qed
qed

text \<open>Comparing two time stamps is comparing the seconds they name.\<close>

lemma utc_now_less_iff:
  assumes "clock_range t" "clock_range u"
  shows "utc_now t < utc_now u \<longleftrightarrow> t < u"
proof -
  have len: "length (isoformat (gm_date t)) = length (isoformat (gm_date u))"
    using length_isoformat valid_gm_date assms by simp
  have same: "isoformat (gm_date t) = isoformat (gm_date u) \<longleftrightarrow> t div 86400 = u div 86400"
  proof
    assume "isoformat (gm_date t) = isoformat (gm_date u)"
    then have "\<not> t div 86400 < u div 86400" "\<not> u div 86400 < t div 86400"
      using isoformat_gm_less_iff [OF assms] isoformat_gm_less_iff [OF assms(2,1)] by simp_all
    then show "t div 86400 = u div 86400" by simp
  qed (simp add: gm_date_def)
  have "utc_now t < utc_now u \<longleftrightarrow>
      t div 86400 < u div 86400 \<or> t div 86400 = u div 86400 \<and> t mod 86400 < u mod 86400"
    using clock_text_less_iff [of "'':''" t "''Z''" u] isoformat_gm_less_iff [OF assms]
    by (simp add: utc_now_def append_less_iff [OF len] same)
  also have "\<dots> \<longleftrightarrow> t < u" by (rule div_mod_less_iff [symmetric]) simp
  finally show ?thesis .
qed

text \<open>The stamps without separators, in the names of rotated files, are ordered in the same way.\<close>

lemma remove_digits: "all_digits s \<Longrightarrow> str_remove (CHR ''-'') s = s"
  by (induction s) (auto simp: str_remove_def is_digit_def)

lemma compact_iso:
  assumes "iso_pattern s" "iso_pattern t"
  shows "length (str_remove (CHR ''-'') s) = 8"
    "str_remove (CHR ''-'') s < str_remove (CHR ''-'') t \<longleftrightarrow> s < t"
proof -
  obtain y m d where s: "s = y @ CHR ''-'' # m @ CHR ''-'' # d" "length y = 4" "length m = 2" "length d = 2"
    "all_digits y" "all_digits m" "all_digits d"
    using assms(1) by (rule iso_pattern_split)
  obtain y' m' d' where t: "t = y' @ CHR ''-'' # m' @ CHR ''-'' # d'" "length y' = 4" "length m' = 2" "length d' = 2"
    "all_digits y'" "all_digits m'" "all_digits d'"
    using assms(2) by (rule iso_pattern_split)
  have r: "str_remove (CHR ''-'') s = y @ m @ d" "str_remove (CHR ''-'') t = y' @ m' @ d'"
    using s t remove_digits by (simp_all add: str_remove_def)
  show "length (str_remove (CHR ''-'') s) = 8" using r s by simp
  show "str_remove (CHR ''-'') s < str_remove (CHR ''-'') t \<longleftrightarrow> s < t"
    unfolding r unfolding s(1) t(1) using s t
    by (simp add: append_less_iff [of y y'] append_less_iff [of m m'])
qed

lemma length_clock_text: "length (clock_text [] t) = 6"
proof -
  have "t mod 86400 div 3600 < 10 ^ 2" "t mod 3600 div 60 < 10 ^ 2" "t mod 60 < 10 ^ 2"
    using clock_parts [of t] by auto
  then show ?thesis by (simp add: clock_text_def length_pad0)
qed

lemma stamp_seconds_less_iff:
  assumes "clock_range t" "clock_range u"
  shows "stamp_seconds t < stamp_seconds u \<longleftrightarrow> t < u" "length (stamp_seconds t) = 15"
proof -
  have iso: "iso_pattern (isoformat (gm_date t))" "iso_pattern (isoformat (gm_date u))"
    using parse_isoformat valid_gm_date assms by blast+
  have len: "length (date_compact t) = length (date_compact u)" "length (date_compact t) = 8"
    using compact_iso(1) [OF iso] compact_iso(1) [OF iso(2,1)] by (simp_all add: date_compact_def)
  have less: "date_compact t < date_compact u \<longleftrightarrow> t div 86400 < u div 86400"
      "date_compact u < date_compact t \<longleftrightarrow> u div 86400 < t div 86400"
    using compact_iso(2) [OF iso] compact_iso(2) [OF iso(2,1)] isoformat_gm_less_iff [OF assms]
      isoformat_gm_less_iff [OF assms(2,1)] by (simp_all add: date_compact_def)
  have same: "date_compact t = date_compact u \<longleftrightarrow> t div 86400 = u div 86400"
  proof
    assume "date_compact t = date_compact u"
    then have "\<not> t div 86400 < u div 86400" "\<not> u div 86400 < t div 86400" using less by simp_all
    then show "t div 86400 = u div 86400" by simp
  qed (simp add: date_compact_def gm_date_def)
  have "stamp_seconds t < stamp_seconds u \<longleftrightarrow>
      t div 86400 < u div 86400 \<or> t div 86400 = u div 86400 \<and> t mod 86400 < u mod 86400"
    using clock_text_less_iff [of "[]" t "[]" u] less(1)
    by (simp add: stamp_seconds_def date_compact_def [symmetric] append_less_iff [OF len(1)] same)
  also have "\<dots> \<longleftrightarrow> t < u" by (rule div_mod_less_iff [symmetric]) simp
  finally show "stamp_seconds t < stamp_seconds u \<longleftrightarrow> t < u" .
  show "length (stamp_seconds t) = 15"
    using len(2) length_clock_text [of t] by (simp add: stamp_seconds_def date_compact_def)
qed

end
