(* ===== verification/Audit_Log.thy ===== *)
theory Audit_Log
  imports Json Iso_Dates
begin

text \<open>
  The audit log of audit.py: the canonical form and the hash of a record, the append that
  chains it to the last record on disk, the rotation of the active file, and \<^verbatim>\<open>verify\<close>, which
  walks every file of the chain. Files are byte strings in a directory, an association list
  from names to contents, and every operation is the one of the code on those bytes: the tail
  is read backwards in chunks, lines are parsed as JSON, a record is appended as one line.

  SHA-256 and HMAC-SHA256 are the two fields of \<open>hashes\<close>, an argument of every operation: no
  theorem depends on how they are computed. What is used of them is stated where it is used,
  either as \<open>hex_hashes\<close> (their results are hexadecimal text) or by naming the two
  records whose hashes would have to collide.
\<close>

named_theorems audit_defs \<open>definitions of the audit log\<close>

record hashes =
  sha256 :: "string \<Rightarrow> string"
  hmac256 :: "string \<Rightarrow> string \<Rightarrow> string"

definition is_hex :: "string \<Rightarrow> bool" where
  "is_hex s \<longleftrightarrow> s \<noteq> [] \<and> (\<forall>c \<in> set s. c \<in> set ''0123456789abcdef'')"

definition hex_hashes :: "hashes \<Rightarrow> bool" where
  "hex_hashes H \<longleftrightarrow> (\<forall>x. is_hex (sha256 H x)) \<and> (\<forall>k x. is_hex (hmac256 H k x))"

definition GENESIS :: string where
  "GENESIS = replicate 64 (CHR ''0'')"

definition digest :: "hashes \<Rightarrow> json \<Rightarrow> string" where
  "digest H record_without_hash = sha256 H (canonical record_without_hash)"

definition mac :: "hashes \<Rightarrow> string \<Rightarrow> string \<Rightarrow> string" where
  "mac H key record_hash = hmac256 H (utf8 key) record_hash"

definition secret_words :: "string list" where
  "secret_words = [''token'', ''secret'', ''password'', ''api_key'']"

definition redact :: "(string \<times> json) list \<Rightarrow> (string \<times> json) list" where
  "redact args =
     map (\<lambda>(k, v). (k, if list_ex (\<lambda>s. str_contains s (str_lower k)) secret_words
                        then JStr ''[redacted]'' else v)) args"

section \<open>Values of a record\<close>

fun jtruthy :: "json \<Rightarrow> bool" where
  "jtruthy JNull = False"
| "jtruthy (JBool b) = b"
| "jtruthy (JInt i) = (i \<noteq> 0)"
| "jtruthy (JStr s) = (s \<noteq> [])"
| "jtruthy (JArr xs) = (xs \<noteq> [])"
| "jtruthy (JObj ms) = (ms \<noteq> [])"

text \<open>\<^verbatim>\<open>rec.get(k)\<close>, and \<^verbatim>\<open>rec[k]\<close>, which raises.\<close>

fun jget :: "json \<Rightarrow> string \<Rightarrow> json option" where
  "jget (JObj ms) k = map_of ms k"
| "jget _ k = None"

fun jindex :: "json \<Rightarrow> string \<Rightarrow> json res" where
  "jindex (JObj ms) k = (case map_of ms k of None \<Rightarrow> Inl (KeyError k) | Some v \<Rightarrow> Inr v)"
| "jindex _ k = Inl TypeError"

fun jplus1 :: "json \<Rightarrow> int res" where
  "jplus1 (JInt i) = Inr (i + 1)"
| "jplus1 (JBool b) = Inr (if b then 2 else 1)"
| "jplus1 _ = Inl TypeError"

section \<open>Files\<close>

type_synonym dir = "(string \<times> string) list"

definition bytes_blank :: "string \<Rightarrow> bool" where
  "bytes_blank l \<longleftrightarrow> (\<forall>c \<in> set l. c = CHR '' '' \<or> (9 :: nat) \<le> ord c \<and> ord c \<le> (13 :: nat))"

definition loads_bytes :: "string \<Rightarrow> json res" where
  "loads_bytes b = rbind (utf8_decode b) loads"

text \<open>
  \<^verbatim>\<open>_tail_record\<close>: the file is read backwards, at most 4096 bytes at a time, until the bytes
  read hold two line feeds or the start of the file is reached.
\<close>

definition chunk :: nat where
  "chunk = 4096"

function tail_scan :: "string \<Rightarrow> nat \<Rightarrow> string \<Rightarrow> string" where
  "tail_scan f pos buf =
     (if pos = 0 then buf
      else (let step = min chunk pos; pos' = pos - step; buf' = take step (drop pos' f) @ buf
            in if 2 \<le> count_list buf' nl then buf' else tail_scan f pos' buf'))"
  by pat_completeness auto
termination
  by (relation "measure (\<lambda>(f, pos, buf). pos)") (auto simp: chunk_def)

declare tail_scan.simps [simp del]

definition tail_record :: "string \<Rightarrow> json option res" where
  "tail_record f =
     (if f = [] then Inr None
      else (let lines = filter (\<lambda>l. \<not> bytes_blank l) (str_split nl (tail_scan f (length f) []))
            in if lines = [] then Inr None else rbind (loads_bytes (last lines)) (\<lambda>r. Inr (Some r))))"

text \<open>The hash of the last record, or the genesis hash: \<^verbatim>\<open>rec["hash"] if rec else GENESIS\<close>.\<close>

definition tail_hash :: "json option \<Rightarrow> json res" where
  "tail_hash t =
     (case t of Some r \<Rightarrow> if jtruthy r then jindex r ''hash'' else Inr (JStr GENESIS)
      | None \<Rightarrow> Inr (JStr GENESIS))"

definition tail_seq :: "json option \<Rightarrow> int res" where
  "tail_seq t =
     (case t of Some r \<Rightarrow>
        if jtruthy r
        then (case r of JObj ms \<Rightarrow> (case map_of ms ''seq'' of None \<Rightarrow> Inr 1 | Some v \<Rightarrow> jplus1 v)
              | _ \<Rightarrow> Inl TypeError)
        else Inr 1
      | None \<Rightarrow> Inr 1)"

section \<open>Writing\<close>

text \<open>
  The log object: the stem and the suffix of the active file's name, and the constructor's
  arguments. \<open>al_forward\<close> says whether there is a forwarder.
\<close>

record audit_log =
  al_stem :: string
  al_suffix :: string
  al_agent_id :: string
  al_hmac_key :: string
  al_rotate_bytes :: int
  al_forward :: bool
  al_anchor_every :: int

definition active_name :: "audit_log \<Rightarrow> string" where
  "active_name L = al_stem L @ al_suffix L"

text \<open>\<^verbatim>\<open>AuditLog.__init__\<close>: the anchor interval is at least 1 and the active file exists.\<close>

definition audit_init ::
    "string \<Rightarrow> string \<Rightarrow> string \<Rightarrow> string \<Rightarrow> int \<Rightarrow> bool \<Rightarrow> int \<Rightarrow> dir \<Rightarrow> audit_log \<times> dir" where
  "audit_init stem sfx agent key rot fwd anchor d =
     (let L = \<lparr>al_stem = stem, al_suffix = sfx, al_agent_id = agent, al_hmac_key = key,
          al_rotate_bytes = rot, al_forward = fwd, al_anchor_every = max 1 anchor\<rparr>
      in (L, case map_of d (active_name L) of None \<Rightarrow> AList.update (active_name L) [] d | Some _ \<Rightarrow> d))"

text \<open>What one call of \<^verbatim>\<open>write\<close> takes from its caller, and what it reads from the world.\<close>

record write_args =
  wa_requester :: string
  wa_tool :: string
  wa_args :: "(string \<times> json) list"
  wa_outcome :: string
  wa_summary :: string
  wa_session :: string
  wa_dirver :: string

record world =
  w_uuid :: string          \<comment> \<open>\<^verbatim>\<open>uuid.uuid4()\<close> of the record\<close>
  w_now :: nat              \<comment> \<open>the clock at \<^verbatim>\<open>_utc_now()\<close> of the record\<close>
  w_rot_sec :: nat          \<comment> \<open>the clock at \<^verbatim>\<open>time.gmtime()\<close> of \<^verbatim>\<open>_rotate\<close>\<close>
  w_rot_ns :: nat           \<comment> \<open>\<^verbatim>\<open>time.time_ns()\<close> of \<^verbatim>\<open>_rotate\<close>\<close>
  w_rot_uuid :: string
  w_rot_now :: nat

text \<open>A new body with its hash and, with a key, its MAC appended.\<close>

definition seal :: "hashes \<Rightarrow> string \<Rightarrow> (string \<times> json) list \<Rightarrow> (string \<times> json) list" where
  "seal H key body =
     (let h = digest H (JObj body); b = body @ [(''hash'', JStr h)]
      in if key \<noteq> [] then b @ [(''mac'', JStr (mac H key h))] else b)"

definition record_body ::
    "audit_log \<Rightarrow> write_args \<Rightarrow> world \<Rightarrow> int \<Rightarrow> json \<Rightarrow> (string \<times> json) list" where
  "record_body L a w seq prev =
     [(''id'', JStr (w_uuid w)), (''seq'', JInt seq), (''ts'', JStr (utc_now (w_now w))),
      (''agent_id'', JStr (al_agent_id L)), (''requester'', JStr (wa_requester a)),
      (''session_id'', JStr (wa_session a)), (''directory_version'', JStr (wa_dirver a)),
      (''tool'', JStr (wa_tool a)), (''args'', JObj (redact (wa_args a))),
      (''outcome'', JStr (wa_outcome a)), (''result_summary'', JStr (take 2000 (wa_summary a))),
      (''prev_hash'', prev)]"

definition audit_head :: "audit_log \<Rightarrow> dir \<Rightarrow> json res" where
  "audit_head L d =
     (case map_of d (active_name L) of None \<Rightarrow> Inl OSError
      | Some f \<Rightarrow> rbind (tail_record f) tail_hash)"

text \<open>\<^verbatim>\<open>_rotate\<close>: rename, touch, then write a marker record that continues the chain.\<close>

definition rotated_name :: "audit_log \<Rightarrow> world \<Rightarrow> string" where
  "rotated_name L w =
     al_stem L @ ''.'' @ stamp_seconds (w_rot_sec w) @ ''.'' @ pad0 9 (w_rot_ns w mod 1000000000) @ ''Z''
       @ al_suffix L"

definition marker_body :: "audit_log \<Rightarrow> world \<Rightarrow> json \<Rightarrow> (string \<times> json) list" where
  "marker_body L w head =
     [(''id'', JStr (w_rot_uuid w)), (''seq'', JInt 0), (''ts'', JStr (utc_now (w_rot_now w))),
      (''agent_id'', JStr (al_agent_id L)), (''requester'', JStr []), (''session_id'', JStr []),
      (''directory_version'', JStr []), (''tool'', JStr ''audit_rotate''),
      (''args'', JObj [(''continues'', JStr (rotated_name L w))]), (''outcome'', JStr ''ok''),
      (''result_summary'', JStr (''chain continues from '' @ rotated_name L w)), (''prev_hash'', head)]"

definition audit_rotate :: "hashes \<Rightarrow> audit_log \<Rightarrow> world \<Rightarrow> dir \<Rightarrow> dir res" where
  "audit_rotate H L w d =
     rbind (audit_head L d) (\<lambda>head.
       let old = (case map_of d (active_name L) of None \<Rightarrow> [] | Some f \<Rightarrow> f);
           d1 = AList.update (rotated_name L w) old (AList.delete (active_name L) d);
           m = seal H (al_hmac_key L) (marker_body L w head)
       in Inr (AList.update (active_name L) (utf8 (dumps spaced_ascii (sort_json (JObj m))) @ [nl]) d1))"

text \<open>
  \<^verbatim>\<open>write\<close>: the new directory, the values handed to the forwarder in order, and the sealed body
  from which the returned \<^verbatim>\<open>AuditRecord\<close> takes its fields.
\<close>

definition anchor_record :: "audit_log \<Rightarrow> (string \<times> json) list \<Rightarrow> int \<Rightarrow> json" where
  "anchor_record L b seq =
     JObj [(''type'', JStr ''anchor''), (''ts'', (case map_of b ''ts'' of None \<Rightarrow> JNull | Some v \<Rightarrow> v)),
       (''agent_id'', JStr (al_agent_id L)), (''seq'', JInt seq),
       (''head'', (case map_of b ''hash'' of None \<Rightarrow> JNull | Some v \<Rightarrow> v))]"

definition audit_write ::
    "hashes \<Rightarrow> audit_log \<Rightarrow> write_args \<Rightarrow> world \<Rightarrow> dir \<Rightarrow> (dir \<times> json list \<times> (string \<times> json) list) res" where
  "audit_write H L a w d =
     (let f = (case map_of d (active_name L) of None \<Rightarrow> [] | Some f \<Rightarrow> f)
      in rbind (tail_record f) (\<lambda>tail.
         rbind (tail_hash tail) (\<lambda>prev.
         rbind (tail_seq tail) (\<lambda>seq.
           let b = seal H (al_hmac_key L) (record_body L a w seq prev);
               f' = f @ utf8 (dumps spaced (sort_json (JObj b))) @ [nl];
               d1 = AList.update (active_name L) f' d;
               out = (if al_forward L
                      then JObj b # (if seq mod al_anchor_every L = 0 then [anchor_record L b seq] else [])
                      else [])
           in rbind (if al_rotate_bytes L \<le> int (length f') then audit_rotate H L w d1 else Inr d1)
                (\<lambda>d2. Inr (d2, out, b))))))"

text \<open>The returned \<^verbatim>\<open>AuditRecord\<close>.\<close>

record audit_record =
  ar_id :: json
  ar_ts :: json
  ar_agent_id :: json
  ar_requester :: json
  ar_session_id :: json
  ar_directory_version :: json
  ar_tool :: json
  ar_args :: json
  ar_outcome :: json
  ar_result_summary :: json
  ar_prev_hash :: json
  ar_hash :: json
  ar_mac :: json

definition audit_record_of :: "(string \<times> json) list \<Rightarrow> audit_record" where
  "audit_record_of b =
     (let g = (\<lambda>k. case map_of b k of None \<Rightarrow> JStr [] | Some v \<Rightarrow> v)
      in \<lparr>ar_id = g ''id'', ar_ts = g ''ts'', ar_agent_id = g ''agent_id'', ar_requester = g ''requester'',
          ar_session_id = g ''session_id'', ar_directory_version = g ''directory_version'',
          ar_tool = g ''tool'', ar_args = g ''args'', ar_outcome = g ''outcome'',
          ar_result_summary = g ''result_summary'', ar_prev_hash = g ''prev_hash'',
          ar_hash = g ''hash'', ar_mac = g ''mac''\<rparr>)"

section \<open>Verifying\<close>

text \<open>
  \<^verbatim>\<open>chain_files\<close>: the names that match \<^verbatim>\<open><stem>.*<suffix>\<close>, sorted, without the active one,
  and then the active file if it exists.
\<close>

definition glob_rotated :: "audit_log \<Rightarrow> string \<Rightarrow> bool" where
  "glob_rotated L n \<longleftrightarrow> prefix (al_stem L @ ''.'') n \<and> Sublist.suffix (al_suffix L) n
     \<and> length (al_stem L) + 1 + length (al_suffix L) \<le> length n"

definition rotated_files :: "audit_log \<Rightarrow> dir \<Rightarrow> string list" where
  "rotated_files L d =
     filter (\<lambda>n. n \<noteq> active_name L) (sort (filter (glob_rotated L) (map fst d)))"

definition chain_files :: "audit_log \<Rightarrow> dir \<Rightarrow> string list" where
  "chain_files L d =
     rotated_files L d @ (case map_of d (active_name L) of None \<Rightarrow> [] | Some _ \<Rightarrow> [active_name L])"

record verify_result =
  vr_ok :: bool
  vr_records :: nat
  vr_files :: nat
  vr_head :: string
  vr_message :: string

text \<open>
  The lines of a file opened as text: carriage returns, alone or with a line feed, are line
  ends too. Bytes are decoded line by line.
\<close>

fun univ_newlines :: "string \<Rightarrow> string" where
  "univ_newlines [] = []"
| "univ_newlines (c # s) =
     (if ord c = (13 :: nat)
      then nl # (case s of [] \<Rightarrow> [] | d # t \<Rightarrow> if d = nl then univ_newlines t else univ_newlines s)
      else c # univ_newlines s)"

definition file_lines :: "string \<Rightarrow> string list" where
  "file_lines f = (let ps = str_split nl (univ_newlines f) in if last ps = [] then butlast ps else ps)"

text \<open>The body that was hashed: the record without its hash and its MAC.\<close>

fun unsealed :: "json \<Rightarrow> json" where
  "unsealed (JObj ms) = JObj (filter (\<lambda>(k, v). k \<noteq> ''hash'' \<and> k \<noteq> ''mac'') ms)"
| "unsealed j = j"

datatype check = Good string | Bad string

text \<open>
  The checks on one record, in their order: \<open>Good\<close> the new head, or \<open>Bad\<close> the message of the
  failure. \<^verbatim>\<open>hmac.compare_digest\<close> raises unless the stored MAC is an ASCII string.
\<close>

definition check_record :: "hashes \<Rightarrow> string \<Rightarrow> string \<Rightarrow> json \<Rightarrow> check res" where
  "check_record H key prev rec =
     (case rec of
        JObj ms \<Rightarrow>
          if jget rec ''prev_hash'' \<noteq> Some (JStr prev) then Inr (Bad ''chain broken (prev_hash mismatch)'')
          else (let h = digest H (unsealed rec)
                in if jget rec ''hash'' \<noteq> Some (JStr h)
                   then Inr (Bad ''record hash mismatch (record altered)'')
                   else if key = [] then Inr (Good h)
                   else (case jget rec ''mac'' of
                       None \<Rightarrow> Inr (Bad ''record has no MAC but a key is configured'')
                     | Some m \<Rightarrow>
                         if \<not> jtruthy m then Inr (Bad ''record has no MAC but a key is configured'')
                         else (case m of
                             JStr s \<Rightarrow>
                               if \<exists>c \<in> set s. (128 :: nat) \<le> ord c then Inl TypeError
                               else if s \<noteq> mac H key h then Inr (Bad ''MAC mismatch (record forged)'')
                               else Inr (Good h)
                           | _ \<Rightarrow> Inl TypeError)))
      | _ \<Rightarrow> Inl TypeError)"

text \<open>
  The loop over the lines of one file: the head and the count at its end, or the result with
  which \<^verbatim>\<open>verify\<close> returns.
\<close>

definition failure :: "nat \<Rightarrow> nat \<Rightarrow> string \<Rightarrow> string \<Rightarrow> nat \<Rightarrow> string \<Rightarrow> verify_result" where
  "failure count nfiles prev name lineno msg =
     \<lparr>vr_ok = False, vr_records = count, vr_files = nfiles, vr_head = prev,
      vr_message = name @ '':'' @ nat_str lineno @ '': '' @ msg\<rparr>"

fun verify_lines ::
    "hashes \<Rightarrow> string \<Rightarrow> nat \<Rightarrow> string \<Rightarrow> nat \<Rightarrow> string list \<Rightarrow> string \<Rightarrow> nat \<Rightarrow> (verify_result + string \<times> nat) res"
  where
  "verify_lines H key nf name lineno [] prev count = Inr (Inr (prev, count))"
| "verify_lines H key nf name lineno (l # ls) prev count =
     rbind (utf8_decode l) (\<lambda>text.
       if str_strip text = [] then verify_lines H key nf name (lineno + 1) ls prev count
       else rbind (loads text) (\<lambda>rec.
         rbind (check_record H key prev rec) (\<lambda>c.
           case c of
             Bad msg \<Rightarrow> Inr (Inl (failure count nf prev name lineno msg))
           | Good h \<Rightarrow> verify_lines H key nf name (lineno + 1) ls h (count + 1))))"

fun verify_files ::
    "hashes \<Rightarrow> string \<Rightarrow> dir \<Rightarrow> nat \<Rightarrow> string list \<Rightarrow> string \<Rightarrow> nat \<Rightarrow> verify_result res" where
  "verify_files H key d nf [] prev count =
     Inr \<lparr>vr_ok = True, vr_records = count, vr_files = nf, vr_head = prev,
        vr_message = nat_str count @ '' records across '' @ nat_str nf @ '' file(s) verified, head ''
          @ take 12 prev\<rparr>"
| "verify_files H key d nf (n # ns) prev count =
     (case map_of d n of None \<Rightarrow> Inl OSError
      | Some f \<Rightarrow>
          rbind (verify_lines H key nf n 1 (file_lines f) prev count) (\<lambda>r.
            case r of Inl v \<Rightarrow> Inr v
            | Inr (prev', count') \<Rightarrow> verify_files H key d nf ns prev' count'))"

definition verify :: "hashes \<Rightarrow> audit_log \<Rightarrow> string \<Rightarrow> dir \<Rightarrow> verify_result res" where
  "verify H L key d =
     (let files = chain_files L d in verify_files H key d (length files) files GENESIS 0)"

end
