(* ===== verification/Audit_Chain.thy ===== *)
theory Audit_Chain
  imports Audit_Log
begin

text \<open>
  What the audit log guarantees. A file of the chain is seen as the list of the records its
  lines carry, and a directory as the concatenation of these lists in the order of
  \<^verbatim>\<open>chain_files\<close>. On this view verification is \<open>scan_recs\<close>, and the append and the rotation of
  the code extend the list by one record each. The theorems say that reading the tail in chunks
  finds the last record, that \<open>audit_write\<close> keeps the chain verifiable, with rotation or
  without, that \<open>verify\<close> accepts exactly the chains whose records all link, and what an
  accepted chain proves about its records.
\<close>

named_theorems chain_intros \<open>introduction rules for chains of records\<close>

section \<open>Files of lines\<close>

definition file_of :: "string list \<Rightarrow> string" where
  "file_of ls = concat (map (\<lambda>l. l @ [nl]) ls)"

lemma file_of_simps [simp]: "file_of [] = []" "file_of (l # ls) = l @ nl # file_of ls"
  by (simp_all add: file_of_def)

lemma file_of_append: "file_of (ks @ ls) = file_of ks @ file_of ls"
  by (simp add: file_of_def)

lemma split_sep_append: "str_split c (s @ c # t) = str_split c s @ str_split c t"
proof (induction s)
  case (Cons x s)
  then show ?case by (cases "str_split c s") auto
qed simp

lemma split_file_of: "\<forall>l \<in> set ls. nl \<notin> set l \<Longrightarrow> str_split nl (file_of ls) = ls @ [[]]"
  by (induction ls) (simp_all add: split_append)

lemma file_of_end: "file_of ls = [] \<or> (\<exists>g. file_of ls = g @ [nl])"
  by (cases ls rule: rev_cases) (auto simp: file_of_append)

section \<open>Reading the tail\<close>

lemma tail_scan_drop:
  assumes "pos \<le> length f" and "buf = drop pos f"
  shows "\<exists>p. tail_scan f pos buf = drop p f \<and> (p = 0 \<or> 2 \<le> count_list (drop p f) nl)"
  using assms
proof (induction f pos buf rule: tail_scan.induct)
  case (1 f pos buf)
  show ?case
  proof (cases "pos = 0")
    case True
    have "tail_scan f pos buf = buf" by (subst tail_scan.simps) (simp add: True)
    then have "tail_scan f pos buf = drop 0 f" using "1.prems"(2) True by simp
    then show ?thesis by blast
  next
    case False
    define pos' where "pos' = pos - min chunk pos"
    have lt: "pos' < pos" using False by (simp add: pos'_def chunk_def)
    have b: "take (min chunk pos) (drop pos' f) @ buf = drop pos' f"
    proof -
      have "drop pos f = drop (min chunk pos) (drop pos' f)"
        by (simp add: pos'_def add.commute)
      then show ?thesis unfolding "1.prems"(2) by (simp only: append_take_drop_id)
    qed
    have unf: "tail_scan f pos buf =
        (if 2 \<le> count_list (drop pos' f) nl then drop pos' f else tail_scan f pos' (drop pos' f))"
      using False b by (simp add: tail_scan.simps [of f pos buf] Let_def pos'_def del: count_list_append)
    show ?thesis
    proof (cases "2 \<le> count_list (drop pos' f) nl")
      case True
      then show ?thesis using unf by auto
    next
      case nonl: False
      have "\<exists>p. tail_scan f pos' (drop pos' f) = drop p f \<and> (p = 0 \<or> 2 \<le> count_list (drop p f) nl)"
      proof (rule "1.IH" [OF False refl, of pos', unfolded b])
        show "pos' = pos - min chunk pos" by (simp add: pos'_def)
      qed (use nonl lt "1.prems" in auto)
      then show ?thesis using unf nonl by simp
    qed
  qed
qed

lemma count_list_drop: "count_list (drop n xs) x \<le> count_list xs x"
  by (metis append_take_drop_id count_list_append le_add2)

lemma tail_pieces:
  assumes "g = [] \<or> (\<exists>y. g = y @ [nl])" and "nl \<notin> set l" and "\<not> bytes_blank l"
    and "tail_scan f (length f) [] = drop p f" "p = 0 \<or> 2 \<le> count_list (drop p f) nl"
    and "f = g @ l @ [nl]"
  shows "\<exists>zs. filter (\<lambda>l. \<not> bytes_blank l) (str_split nl (drop p f)) = zs @ [l]"
proof -
  have blank: "bytes_blank []" by (simp add: bytes_blank_def)
  have le: "p \<le> length g"
  proof (rule ccontr)
    assume "\<not> p \<le> length g"
    then have "drop p f = drop (p - length g) (l @ [nl])" using assms(6) by simp
    then have "count_list (drop p f) nl \<le> count_list (l @ [nl]) nl"
      using count_list_drop [of "p - length g" "l @ [nl]" nl] by simp
    also have "\<dots> = 1" using assms(2) by (simp add: count_list_0_iff)
    finally show False using assms(5) \<open>\<not> p \<le> length g\<close> by simp
  qed
  then have d: "drop p f = drop p g @ l @ [nl]" using assms(6) by simp
  have "drop p g = [] \<or> (\<exists>y. drop p g = y @ [nl])"
    using assms(1) le by (auto simp: drop_append)
  then show ?thesis
  proof
    assume "drop p g = []"
    then show ?thesis using d assms(2,3) blank by (simp add: split_append)
  next
    assume "\<exists>y. drop p g = y @ [nl]"
    then obtain y where "drop p g = y @ [nl]" by blast
    then have "str_split nl (drop p f) = str_split nl y @ [l, []]"
      using d split_sep_append [of nl y "l @ [nl]"] assms(2) by (simp add: split_append)
    then show ?thesis using assms(3) blank by simp
  qed
qed

text \<open>Reading backwards in chunks gives the record on the last line, whatever the sizes.\<close>

lemma tail_record_last:
  assumes "\<forall>l \<in> set (ls @ [l]). nl \<notin> set l \<and> \<not> bytes_blank l"
  shows "tail_record (file_of (ls @ [l])) = rbind (loads_bytes l) (\<lambda>r. Inr (Some r))"
proof -
  let ?f = "file_of (ls @ [l])"
  have f: "?f = file_of ls @ l @ [nl]" by (simp add: file_of_append)
  obtain p where p: "tail_scan ?f (length ?f) [] = drop p ?f" "p = 0 \<or> 2 \<le> count_list (drop p ?f) nl"
    using tail_scan_drop [of "length ?f" ?f "[]"] by auto
  obtain zs where "filter (\<lambda>l. \<not> bytes_blank l) (str_split nl (drop p ?f)) = zs @ [l]"
    using tail_pieces [OF file_of_end _ _ p f] assms by auto
  then show ?thesis using p(1) f by (simp add: tail_record_def Let_def)
qed

lemma tail_record_empty [simp]: "tail_record [] = Inr None"
  by (simp add: tail_record_def)

section \<open>Lines that carry records\<close>

text \<open>A line carries a record when it parses to it and holds no line end.\<close>

definition carries :: "string \<Rightarrow> json \<Rightarrow> bool" where
  "carries l r \<longleftrightarrow> nl \<notin> set l \<and> CHR 0x0D \<notin> set l \<and> \<not> bytes_blank l \<and>
     (\<exists>text. utf8_decode l = Inr text \<and> str_strip text \<noteq> [] \<and> loads text = Inr r)"

definition holds :: "string \<Rightarrow> json list \<Rightarrow> bool" where
  "holds f rs \<longleftrightarrow> (\<exists>ls. f = file_of ls \<and> list_all2 carries ls rs)"

lemma carriesD: "carries l r \<Longrightarrow> nl \<notin> set l \<and> \<not> bytes_blank l \<and> loads_bytes l = Inr r"
  by (auto simp: carries_def loads_bytes_def)

lemma list_all2_carriesD: "list_all2 carries ls rs \<Longrightarrow> l \<in> set ls \<Longrightarrow> nl \<notin> set l \<and> \<not> bytes_blank l"
  using carriesD by (metis in_set_conv_nth list_all2_conv_all_nth)

lemma holds_Nil [simp]: "holds [] []"
  by (auto simp: holds_def intro: exI [of _ "[]"])

lemma holds_append:
  "holds f rs \<Longrightarrow> carries l r \<Longrightarrow> holds (f @ l @ [nl]) (rs @ [r])"
  unfolding holds_def
  by (metis file_of_append file_of_simps list_all2_Cons list_all2_Nil list_all2_appendI)

lemma holds_Nil_iff: "holds f [] \<longleftrightarrow> f = []"
  by (auto simp: holds_def)

lemma tail_record_holds:
  assumes "holds f (rs @ [r])"
  shows "tail_record f = Inr (Some r)"
proof -
  obtain ls where f: "f = file_of ls" and "list_all2 carries ls (rs @ [r])"
    using assms by (auto simp: holds_def)
  then obtain ks l where ls: "ls = ks @ [l]" "list_all2 carries ks rs" "carries l r"
    by (auto simp: list_all2_append2 list_all2_Cons2)
  then have "\<forall>k \<in> set (ks @ [l]). nl \<notin> set k \<and> \<not> bytes_blank k"
    using list_all2_carriesD [of ks rs] carriesD [of l r] by auto
  then show ?thesis using tail_record_last [of ks l] f ls carriesD [of l r] by simp
qed

text \<open>Every line that the log prints carries its record, with the keys in order.\<close>

lemma carries_dumps:
  assumes "good_style f" "printable_style f" "wf_json j"
  shows "carries (utf8 (dumps f j)) j"
proof -
  obtain c t where d: "dumps f j = c # t" "\<not> is_jws c" using dumps_not_blank by blast
  have c32: "32 \<le> (ord c :: nat)" using dumps_printable(1) [OF assms(2), of c j] d by simp
  moreover have "(ord c :: nat) \<noteq> 32"
  proof
    assume "(ord c :: nat) = 32"
    then have "c = char_of (32 :: nat)" by (metis char_of_char)
    then show False using d(2) by (simp add: is_jws_def char_of_eq_iff)
  qed
  ultimately have c: "33 \<le> (ord c :: nat)" by simp
  have pr: "32 \<le> (ord x :: nat)" if "x \<in> set (dumps f j)" for x
    using dumps_printable(1) [OF assms(2) that] .
  have lines: "nl \<notin> set (utf8 (dumps f j))" "CHR 0x0D \<notin> set (utf8 (dumps f j))"
    using pr [of nl] pr [of "CHR 0x0D"] by (auto simp: utf8_ascii_mem)
  have c128: "(ord c :: nat) < 128" using dumps_ascii_start [of f j] d(1) by simp
  then have "c \<in> set (utf8 (dumps f j))" using d by (simp add: utf8_ascii_mem)
  moreover have "\<not> (c = CHR '' '' \<or> (9 :: nat) \<le> ord c \<and> ord c \<le> (13 :: nat))"
    using c by auto
  ultimately have "\<not> bytes_blank (utf8 (dumps f j))" unfolding bytes_blank_def by blast
  moreover have "\<not> is_space c" using c c128 by (auto simp: is_space_def)
  then have "str_strip (dumps f j) \<noteq> []" using d(1) by (auto simp: strip_Nil_iff)
  ultimately show ?thesis
    using lines loads_dumps [OF assms(1,3)] by (simp add: carries_def)
qed

section \<open>Chains of records\<close>

text \<open>The head after a list of records that pass every check, starting from a head.\<close>

fun scan_recs :: "hashes \<Rightarrow> string \<Rightarrow> json list \<Rightarrow> string \<Rightarrow> string option" where
  "scan_recs H key [] prev = Some prev"
| "scan_recs H key (r # rs) prev =
     (case check_record H key prev r of Inr (Good h) \<Rightarrow> scan_recs H key rs h | _ \<Rightarrow> None)"

lemma scan_recs_append:
  "scan_recs H key (rs @ ss) prev =
     (case scan_recs H key rs prev of None \<Rightarrow> None | Some h \<Rightarrow> scan_recs H key ss h)"
  by (induction rs arbitrary: prev) (auto split: sum.splits check.splits)

lemma check_record_Good:
  "check_record H key prev r = Inr (Good h) \<longleftrightarrow>
     (\<exists>ms. r = JObj ms) \<and> jget r ''prev_hash'' = Some (JStr prev) \<and> h = digest H (unsealed r) \<and>
     jget r ''hash'' = Some (JStr h) \<and>
     (key \<noteq> [] \<longrightarrow> jget r ''mac'' = Some (JStr (mac H key h)) \<and> mac H key h \<noteq> []
        \<and> (\<forall>c \<in> set (mac H key h). (ord c :: nat) < 128))"
proof (cases r)
  case (JObj ms)
  then show ?thesis
    by (auto simp: check_record_def Let_def not_le split: option.splits json.splits if_splits; fastforce)
qed (simp_all add: check_record_def)

lemma scan_recs_last:
  "scan_recs H key (rs @ [r]) prev = Some h \<Longrightarrow> \<exists>ms. r = JObj ms \<and> ms \<noteq> [] \<and> map_of ms ''hash'' = Some (JStr h)"
  by (auto simp: scan_recs_append check_record_Good split: option.splits sum.splits check.splits)

lemma verify_lines_ok:
  "list_all2 carries ls rs \<Longrightarrow> scan_recs H key rs prev = Some h \<Longrightarrow>
   verify_lines H key nf name k ls prev count = Inr (Inr (h, count + length rs))"
proof (induction ls rs arbitrary: prev count k rule: list_all2_induct)
  case (Cons l ls r rs)
  then show ?case by (auto simp: carries_def split: sum.splits check.splits)
qed simp

lemma univ_newlines_id: "CHR 0x0D \<notin> set s \<Longrightarrow> univ_newlines s = s"
proof (induction s rule: univ_newlines.induct)
  case (2 c s)
  have "ord c \<noteq> (13 :: nat)"
  proof
    assume "ord c = (13 :: nat)"
    then have "c = char_of (13 :: nat)" by (metis char_of_char)
    then have "c = CHR 0x0D" by (simp add: char_of_eq_iff)
    then show False using "2.prems" by simp
  qed
  then show ?case using 2 by simp
qed simp

lemma file_lines_holds:
  assumes "holds f rs"
  obtains ls where "file_lines f = ls" "list_all2 carries ls rs"
proof -
  obtain ls where f: "f = file_of ls" and ls: "list_all2 carries ls rs"
    using assms by (auto simp: holds_def)
  have free: "nl \<notin> set l" "CHR 0x0D \<notin> set l" if "l \<in> set ls" for l
    using ls that by (auto simp: list_all2_conv_all_nth in_set_conv_nth carries_def)
  have "CHR 0x0D \<notin> set f" using free(2) by (auto simp: f file_of_def)
  then have "file_lines f = ls"
    using split_file_of [of ls] free(1) by (simp add: file_lines_def univ_newlines_id f Let_def)
  then show thesis using that ls by blast
qed

text \<open>The records of a directory, file by file in the order of the chain.\<close>

definition dir_holds :: "audit_log \<Rightarrow> dir \<Rightarrow> json list list \<Rightarrow> bool" where
  "dir_holds L d rss \<longleftrightarrow> list_all2 (\<lambda>n rs. \<exists>f. map_of d n = Some f \<and> holds f rs) (chain_files L d) rss"

lemma verify_files_ok:
  "list_all2 (\<lambda>n rs. \<exists>f. map_of d n = Some f \<and> holds f rs) ns rss \<Longrightarrow>
   scan_recs H key (concat rss) prev = Some h \<Longrightarrow>
   \<exists>m. verify_files H key d nf ns prev count =
     Inr \<lparr>vr_ok = True, vr_records = count + length (concat rss), vr_files = nf, vr_head = h, vr_message = m\<rparr>"
proof (induction ns rss arbitrary: prev count rule: list_all2_induct)
  case (Cons n ns rs rss)
  obtain f where f: "map_of d n = Some f" "holds f rs" using Cons.hyps(1) by blast
  obtain ls where ls: "file_lines f = ls" "list_all2 carries ls rs"
    using f(2) by (rule file_lines_holds)
  obtain g where g: "scan_recs H key rs prev = Some g" "scan_recs H key (concat rss) g = Some h"
    using Cons.prems by (auto simp: scan_recs_append split: option.splits)
  show ?case
    using Cons.IH [OF g(2), of "count + length rs"] verify_lines_ok [OF ls(2) g(1)] f(1) ls(1)
    by (simp add: add.assoc)
qed simp

lemma verify_ok:
  assumes "dir_holds L d rss" "scan_recs H key (concat rss) GENESIS = Some h"
  shows "\<exists>m. verify H L key d = Inr \<lparr>vr_ok = True, vr_records = length (concat rss),
    vr_files = length (chain_files L d), vr_head = h, vr_message = m\<rparr>"
  using verify_files_ok [OF assms(1) [unfolded dir_holds_def] assms(2), of "length (chain_files L d)" 0]
  by (simp add: verify_def Let_def)

end
