(* ===== verification/Audit_Append.thy ===== *)
theory Audit_Append
  imports Audit_Chain
begin

text \<open>
  The append of audit.py keeps the chain: the invariant \<open>chain_inv\<close> of a directory, the check
  of a freshly sealed record, and the preservation of the invariant by \<open>audit_write\<close>, with the
  rotation it may end in, and by any sequence of writes.
\<close>

declare map_of_eq_Some_iff [simp del] Some_eq_map_of_iff [simp del]

section \<open>A sealed record passes its own check\<close>

lemma jget_sort_json:
  assumes "distinct (map fst ms)"
  shows "jget (sort_json (JObj ms)) k = map_option sort_json (map_of ms k)"
proof -
  have "distinct (map fst (sort_members ms))" using assms by (simp add: map_fst_sort_members)
  then show ?thesis by (simp add: map_of_sort_key map_of_sort_members)
qed

lemma sort_members_filter:
  "sort_members (filter (\<lambda>(k, v). P k) ms) = filter (\<lambda>(k, v). P k) (sort_members ms)"
  by (induction ms) auto

lemma unsealed_sort_json: "unsealed (sort_json (JObj ms)) = sort_json (unsealed (JObj ms))"
  by (simp add: sort_members_filter filter_sort)

lemma digest_sort [simp]: "digest H (sort_json j) = digest H j"
  by (simp add: digest_def)

text \<open>A body without the two keys that sealing adds.\<close>

definition unsealed_body :: "(string \<times> json) list \<Rightarrow> bool" where
  "unsealed_body b \<longleftrightarrow> map_of b ''hash'' = None \<and> map_of b ''mac'' = None"

lemma filter_unsealed:
  assumes "unsealed_body b"
  shows "filter (\<lambda>(k, v). k \<noteq> ''hash'' \<and> k \<noteq> ''mac'') (seal H key b) = b"
proof -
  have no: "''hash'' \<notin> fst ` set b" "''mac'' \<notin> fst ` set b"
    using assms by (simp_all add: unsealed_body_def map_of_eq_None_iff)
  have "k \<noteq> ''hash'' \<and> k \<noteq> ''mac''" if "(k, v) \<in> set b" for k v
  proof -
    have "k \<in> fst ` set b" using that by (metis fst_conv imageI)
    then show ?thesis using no by blast
  qed
  then have "filter (\<lambda>(k, v). k \<noteq> ''hash'' \<and> k \<noteq> ''mac'') b = b"
    by (intro filter_True) auto
  then show ?thesis by (simp add: seal_def Let_def)
qed

lemma hex_char: "c \<in> set ''0123456789abcdef'' \<Longrightarrow> (ord c :: nat) < 128"
  by auto

lemma hex_string:
  assumes "is_hex s"
  shows "s \<noteq> [] \<and> (\<forall>c \<in> set s. (ord c :: nat) < 128)"
  using assms hex_char unfolding is_hex_def by blast

lemma seal_distinct:
  "distinct (map fst b) \<Longrightarrow> unsealed_body b \<Longrightarrow> distinct (map fst (seal H key b))"
  by (simp add: seal_def Let_def unsealed_body_def map_of_eq_None_iff)

lemma map_of_seal: "map_of b k = Some v \<Longrightarrow> map_of (seal H key b) k = Some v"
  by (simp add: seal_def Let_def map_add_def)

lemma map_of_seal_hash:
  "unsealed_body b \<Longrightarrow> map_of (seal H key b) ''hash'' = Some (JStr (digest H (JObj b)))"
  by (simp add: seal_def Let_def map_add_def unsealed_body_def)

lemma map_of_seal_mac:
  "unsealed_body b \<Longrightarrow> key \<noteq> [] \<Longrightarrow>
   map_of (seal H key b) ''mac'' = Some (JStr (mac H key (digest H (JObj b))))"
  by (simp add: seal_def Let_def map_add_def unsealed_body_def)

text \<open>A body that a record may have: a dictionary of plain values without the two sealing keys.\<close>

definition good_body :: "string \<Rightarrow> (string \<times> json) list \<Rightarrow> bool" where
  "good_body prev b \<longleftrightarrow> wf_json (JObj b) \<and> unsealed_body b \<and>
     map_of b ''prev_hash'' = Some (JStr prev) \<and> (\<exists>i. map_of b ''seq'' = Some (JInt i))"

lemma good_body_distinct: "good_body prev b \<Longrightarrow> distinct (map fst (seal H key b))"
  by (simp add: good_body_def seal_distinct)

lemma wf_seal: "good_body prev b \<Longrightarrow> wf_json (JObj (seal H key b))"
proof -
  assume b: "good_body prev b"
  then have "\<forall>v \<in> snd ` set b. wf_json v" by (simp add: good_body_def)
  then have "\<forall>v \<in> snd ` set (seal H key b). wf_json v" by (simp add: seal_def Let_def)
  then show ?thesis using good_body_distinct [OF b, of H key] by simp
qed

lemma check_sealed:
  assumes "hex_hashes H" and "good_body prev b"
  shows "check_record H key prev (sort_json (JObj (seal H key b))) = Inr (Good (digest H (JObj b)))"
proof -
  let ?s = "seal H key b"
  note d = good_body_distinct [OF assms(2), of H key]
  have b: "unsealed_body b" "map_of b ''prev_hash'' = Some (JStr prev)"
    using assms(2) by (simp_all add: good_body_def)
  have un: "digest H (unsealed (sort_json (JObj ?s))) = digest H (JObj b)"
    unfolding unsealed_sort_json digest_sort unsealed.simps filter_unsealed [OF b(1)] by (rule refl)
  have hex: "mac H key x \<noteq> [] \<and> (\<forall>c \<in> set (mac H key x). (ord c :: nat) < 128)" for x
    using hex_string [of "mac H key x"] assms(1) by (simp add: hex_hashes_def mac_def)
  have "\<exists>ms. sort_json (JObj ?s) = JObj ms" by simp
  then show ?thesis
    unfolding check_record_Good un jget_sort_json [OF d]
    using map_of_seal [OF b(2)] map_of_seal_hash [OF b(1)] map_of_seal_mac [OF b(1)] hex by simp
qed

lemma seq_sealed:
  "good_body prev b \<Longrightarrow> \<exists>i. jget (sort_json (JObj (seal H key b))) ''seq'' = Some (JInt i)"
proof -
  assume b: "good_body prev b"
  then obtain i where "map_of b ''seq'' = Some (JInt i)" by (auto simp: good_body_def)
  then show ?thesis
    unfolding jget_sort_json [OF good_body_distinct [OF b]] by (simp add: map_of_seal)
qed

text \<open>The arguments of a tool call are a dictionary.\<close>

definition wf_args :: "(string \<times> json) list \<Rightarrow> bool" where
  "wf_args args \<longleftrightarrow> wf_json (JObj args)"

lemma wf_redact: "wf_args args \<Longrightarrow> wf_json (JObj (redact args))"
  by (force simp: wf_args_def redact_def comp_def case_prod_beta)

lemma good_record_body:
  "wf_args (wa_args a) \<Longrightarrow> good_body prev (record_body L a w i (JStr prev))"
  using wf_redact [of "wa_args a"] by (simp add: good_body_def record_body_def unsealed_body_def)

lemma good_marker_body: "good_body prev (marker_body L w (JStr prev))"
  by (simp add: good_body_def marker_body_def unsealed_body_def)

section \<open>The invariant of a directory\<close>

text \<open>
  The directory is a dictionary with an active file; the records of its files, in order, link
  from the genesis hash to the head \<open>h\<close>; each has a sequence number; and an empty active file
  means that nothing was written yet.
\<close>

definition chain_inv :: "hashes \<Rightarrow> audit_log \<Rightarrow> dir \<Rightarrow> json list list \<Rightarrow> string \<Rightarrow> bool" where
  "chain_inv H L d rss h \<longleftrightarrow> distinct (map fst d) \<and> active_name L \<in> fst ` set d \<and> dir_holds L d rss \<and>
     scan_recs H (al_hmac_key L) (concat rss) GENESIS = Some h \<and>
     (\<forall>r \<in> set (concat rss). \<exists>i. jget r ''seq'' = Some (JInt i)) \<and>
     (last rss = [] \<longrightarrow> h = GENESIS)"

lemma chain_files_active: "active_name L \<in> fst ` set d \<Longrightarrow> chain_files L d = rotated_files L d @ [active_name L]"
  by (auto simp: chain_files_def dom_map_of_conv_image_fst [symmetric])

lemma active_not_rotated: "active_name L \<notin> set (rotated_files L d)"
  by (simp add: rotated_files_def)

lemma rotated_files_keys: "map fst d = map fst d' \<Longrightarrow> rotated_files L d = rotated_files L d'"
  by (simp add: rotated_files_def)

lemma list_all2_snoc: "list_all2 P xs ys \<Longrightarrow> P x y \<Longrightarrow> list_all2 P (xs @ [x]) (ys @ [y])"
  by (simp add: list_all2_appendI)

lemma inv_has_active: "chain_inv H L d rss h \<Longrightarrow> \<exists>f. map_of d (active_name L) = Some f"
  by (metis chain_inv_def map_of_eq_None_iff option.exhaust)

lemma inv_active:
  assumes "chain_inv H L d rss h" "map_of d (active_name L) = Some f"
  obtains rs ras where "rss = ras @ [rs]" "holds f rs"
    "list_all2 (\<lambda>n rs. \<exists>f. map_of d n = Some f \<and> holds f rs) (rotated_files L d) ras"
    "scan_recs H (al_hmac_key L) (concat ras @ rs) GENESIS = Some h"
    "tail_record f = Inr (if rs = [] then None else Some (last rs))"
proof -
  have "list_all2 (\<lambda>n rs. \<exists>f. map_of d n = Some f \<and> holds f rs) (rotated_files L d @ [active_name L]) rss"
    using assms(1) chain_files_active [of L d] by (simp add: chain_inv_def dir_holds_def)
  then obtain ras rs where rss: "rss = ras @ [rs]" "holds f rs"
      "list_all2 (\<lambda>n rs. \<exists>f. map_of d n = Some f \<and> holds f rs) (rotated_files L d) ras"
    using assms(2) by (auto simp: list_all2_append1 list_all2_Cons1)
  have "tail_record f = Inr (if rs = [] then None else Some (last rs))"
    using rss(2) tail_record_holds [of f "butlast rs" "last rs"] by (cases "rs = []") (auto simp: holds_Nil_iff)
  then show thesis using that rss assms(1) by (simp add: chain_inv_def)
qed

lemma inv_tail:
  assumes "chain_inv H L d rss h" "map_of d (active_name L) = Some f"
  shows "\<exists>t i. tail_record f = Inr t \<and> tail_hash t = Inr (JStr h) \<and> tail_seq t = Inr i"
proof -
  obtain rs ras where rss: "rss = ras @ [rs]" "tail_record f = Inr (if rs = [] then None else Some (last rs))"
      "scan_recs H (al_hmac_key L) (concat ras @ rs) GENESIS = Some h"
    by (rule inv_active [OF assms])
  show ?thesis
  proof (cases "rs = []")
    case True
    then have "h = GENESIS" using assms(1) rss(1) by (simp add: chain_inv_def)
    then show ?thesis using True rss(2) by (simp add: tail_hash_def tail_seq_def)
  next
    case False
    then have "scan_recs H (al_hmac_key L) ((concat ras @ butlast rs) @ [last rs]) GENESIS = Some h"
      using rss(3) by simp
    then obtain ms where ms: "last rs = JObj ms" "ms \<noteq> []" "map_of ms ''hash'' = Some (JStr h)"
      using scan_recs_last by blast
    have "last rs \<in> set (concat rss)" using False rss(1) by simp
    then obtain i where "jget (last rs) ''seq'' = Some (JInt i)" using assms(1) by (auto simp: chain_inv_def)
    then show ?thesis using False rss(2) ms by (simp add: tail_hash_def tail_seq_def)
  qed
qed

text \<open>Appending the line of a sealed record to the active file.\<close>

lemma inv_append:
  assumes "hex_hashes H" "chain_inv H L d rss h" "good_body h b" "map_of d (active_name L) = Some f"
    and "good_style s" "printable_style s"
  defines "r \<equiv> sort_json (JObj (seal H (al_hmac_key L) b))"
  shows "chain_inv H L (AList.update (active_name L) (f @ utf8 (dumps s r) @ [nl]) d)
    (butlast rss @ [last rss @ [r]]) (digest H (JObj b))"
proof -
  let ?a = "active_name L" and ?k = "al_hmac_key L"
  let ?d = "AList.update ?a (f @ utf8 (dumps s r) @ [nl]) d"
  obtain rs ras where rss: "rss = ras @ [rs]" "holds f rs"
      "list_all2 (\<lambda>n rs. \<exists>f. map_of d n = Some f \<and> holds f rs) (rotated_files L d) ras"
      "scan_recs H ?k (concat ras @ rs) GENESIS = Some h"
    by (rule inv_active [OF assms(2,4)])
  have a: "?a \<in> fst ` set d" "distinct (map fst d)" using assms(2) by (simp_all add: chain_inv_def)
  then have keys: "map fst ?d = map fst d" by (simp add: update_keys)
  have "wf_json r" using wf_seal [OF assms(3)] wf_sort_json unfolding r_def by blast
  then have new: "holds (f @ utf8 (dumps s r) @ [nl]) (rs @ [r])"
    using holds_append [OF rss(2) carries_dumps [OF assms(5,6)]] by simp
  have other: "map_of ?d n = map_of d n" if "n \<in> set (rotated_files L d)" for n
    using that active_not_rotated [of L d] by (auto simp: update_conv)
  have old: "list_all2 (\<lambda>n rs. \<exists>f. map_of ?d n = Some f \<and> holds f rs) (rotated_files L d) ras"
    using rss(3) by (rule list.rel_mono_strong) (simp add: other)
  have a': "?a \<in> fst ` set ?d" using a(1) keys by (metis set_map)
  have "chain_files L ?d = rotated_files L d @ [?a]"
    using chain_files_active [OF a'] rotated_files_keys [OF keys] by simp
  moreover have "map_of ?d ?a = Some (f @ utf8 (dumps s r) @ [nl])" by (simp add: update_conv)
  ultimately have dh: "dir_holds L ?d (ras @ [rs @ [r]])"
    unfolding dir_holds_def using list_all2_snoc [OF old] new by simp
  have scan: "scan_recs H ?k (concat ras @ rs @ [r]) GENESIS = Some (digest H (JObj b))"
    using scan_recs_append [of H ?k "concat ras @ rs" "[r]" GENESIS] rss(4)
      check_sealed [OF assms(1,3), of ?k] by (simp add: r_def del: sort_json.simps)
  have "\<forall>x \<in> set (concat (ras @ [rs @ [r]])). \<exists>i. jget x ''seq'' = Some (JInt i)"
    using assms(2) seq_sealed [OF assms(3), of H ?k] rss(1) by (auto simp: chain_inv_def r_def)
  then show ?thesis
    unfolding chain_inv_def rss(1) using dh scan a' a(2) keys by simp
qed

section \<open>Rotation\<close>

text \<open>The name of the next rotated file comes after the names of the rotated files there are.\<close>

definition rotates_later :: "audit_log \<Rightarrow> dir \<Rightarrow> world \<Rightarrow> bool" where
  "rotates_later L d w \<longleftrightarrow> (\<forall>n \<in> set (rotated_files L d). n < rotated_name L w)"

lemma rotated_name_glob: "glob_rotated L (rotated_name L w)"
  by (simp add: glob_rotated_def rotated_name_def Sublist.suffix_def)

lemma rotated_name_not_active: "rotated_name L w \<noteq> active_name L"
  by (simp add: rotated_name_def active_name_def)

lemma set_rotated_files:
  "n \<in> set (rotated_files L d) \<longleftrightarrow> n \<in> fst ` set d \<and> glob_rotated L n \<and> n \<noteq> active_name L"
  by (auto simp: rotated_files_def)

lemma rotated_files_sorted: "distinct (map fst d) \<Longrightarrow> sorted (rotated_files L d) \<and> distinct (rotated_files L d)"
  by (simp add: rotated_files_def sorted_wrt_filter)

text \<open>The directory after the rename, the touch and the marker, for a name that is new.\<close>

lemma rotate_dir:
  fixes d :: dir
  assumes "distinct (map fst d)" "nn \<notin> fst ` set d" "nn \<noteq> a"
  shows "AList.update a m (AList.update nn f (AList.delete a d)) = AList.delete a d @ [(nn, f), (a, m)]"
proof -
  have up: "k \<notin> fst ` set e \<Longrightarrow> AList.update k v e = e @ [(k, v)]" for k and v :: string and e :: dir
    by (induction e) auto
  have "nn \<notin> fst ` set (AList.delete a d)" using assms(2) by (simp add: keys_delete)
  then have "AList.update nn f (AList.delete a d) = AList.delete a d @ [(nn, f)]" by (rule up)
  moreover have "a \<notin> fst ` set (AList.delete a d @ [(nn, f)])" using assms(3) by (auto simp: keys_delete)
  ultimately show ?thesis using up [of a "AList.delete a d @ [(nn, f)]" m] by simp
qed

lemma rotated_files_rotate:
  fixes f m :: string
  assumes "distinct (map fst d)" "active_name L \<in> fst ` set d" "rotates_later L d w"
  defines "d' \<equiv> AList.delete (active_name L) d @ [(rotated_name L w, f), (active_name L, m)]"
  shows "rotated_files L d' = rotated_files L d @ [rotated_name L w]" "distinct (map fst d')"
    "rotated_name L w \<notin> fst ` set d"
proof -
  let ?a = "active_name L" and ?n = "rotated_name L w"
  have old: "\<forall>x \<in> set (rotated_files L d). x < ?n" using assms(3) by (simp add: rotates_later_def)
  show new: "?n \<notin> fst ` set d"
  proof
    assume "?n \<in> fst ` set d"
    then have "?n \<in> set (rotated_files L d)"
      using rotated_name_glob rotated_name_not_active by (simp add: set_rotated_files)
    then show False using old by blast
  qed
  show dist: "distinct (map fst d')"
    using assms(1) new rotated_name_not_active [of L w]
    by (auto simp: d'_def AList.delete_eq distinct_map inj_on_def)
  show "rotated_files L d' = rotated_files L d @ [?n]"
  proof (rule sorted_distinct_set_unique)
    show "sorted (rotated_files L d')" "distinct (rotated_files L d')"
      using rotated_files_sorted [OF dist] by simp_all
    show "sorted (rotated_files L d @ [?n])" "distinct (rotated_files L d @ [?n])"
      using rotated_files_sorted [OF assms(1), of L] old by (auto simp: sorted_append less_imp_le)
    show "set (rotated_files L d') = set (rotated_files L d @ [?n])"
      using rotated_name_glob [of L w] rotated_name_not_active [of L w]
      by (auto simp: set_rotated_files d'_def keys_delete)
  qed
qed

lemma styles [simp]: "good_style spaced" "printable_style spaced" "good_style spaced_ascii" "printable_style spaced_ascii"
  by (simp_all add: good_style_def printable_style_def spaced_def spaced_ascii_def is_jws_def)

lemma audit_head_inv: "chain_inv H L d rss h \<Longrightarrow> audit_head L d = Inr (JStr h)"
proof -
  assume inv: "chain_inv H L d rss h"
  then obtain f where f: "map_of d (active_name L) = Some f" using inv_has_active by blast
  then obtain t i where "tail_record f = Inr t" "tail_hash t = Inr (JStr h)" using inv_tail [OF inv f] by blast
  then show ?thesis using f by (simp add: audit_head_def)
qed

text \<open>The record that the marker of a rotation carries.\<close>

definition marker_of :: "hashes \<Rightarrow> audit_log \<Rightarrow> world \<Rightarrow> string \<Rightarrow> json" where
  "marker_of H L w h = sort_json (JObj (seal H (al_hmac_key L) (marker_body L w (JStr h))))"

lemma inv_rotate:
  assumes "hex_hashes H" "chain_inv H L d rss h" "rotates_later L d w"
  shows "\<exists>d'. audit_rotate H L w d = Inr d' \<and>
    chain_inv H L d' (rss @ [[marker_of H L w h]]) (digest H (JObj (marker_body L w (JStr h)))) \<and>
    rotated_files L d' = rotated_files L d @ [rotated_name L w]"
proof -
  let ?a = "active_name L" and ?k = "al_hmac_key L" and ?n = "rotated_name L w"
  let ?m = "marker_of H L w h"
  obtain f where f: "map_of d ?a = Some f" using inv_has_active [OF assms(2)] by blast
  obtain rs ras where rss: "rss = ras @ [rs]" "holds f rs"
      "list_all2 (\<lambda>n rs. \<exists>f. map_of d n = Some f \<and> holds f rs) (rotated_files L d) ras"
      "scan_recs H ?k (concat ras @ rs) GENESIS = Some h"
    by (rule inv_active [OF assms(2) f])
  let ?l = "utf8 (dumps spaced_ascii ?m) @ [nl]"
  let ?d = "AList.delete ?a d @ [(?n, f), (?a, ?l)]"
  have a: "?a \<in> fst ` set d" "distinct (map fst d)" using assms(2) by (simp_all add: chain_inv_def)
  note rot = rotated_files_rotate(1) [OF a(2,1) assms(3), of f ?l]
    rotated_files_rotate(2) [OF a(2,1) assms(3), of f ?l] rotated_files_rotate(3) [OF a(2,1) assms(3)]
  have eq: "audit_rotate H L w d = Inr ?d"
    using audit_head_inv [OF assms(2)] f rotate_dir [OF a(2) rot(3) rotated_name_not_active]
    by (simp add: audit_rotate_def Let_def marker_of_def del: sort_json.simps)
  note gb = good_marker_body [of h L w]
  have "wf_json ?m" using wf_seal [OF gb] wf_sort_json unfolding marker_of_def by blast
  then have one: "holds ?l [?m]"
    using holds_append [OF holds_Nil carries_dumps [OF styles(3,4)]] by simp
  have no: "map_of d ?n = None" using rot(3) by (simp add: map_of_eq_None_iff)
  have act: "map_of ?d ?a = Some ?l" "map_of ?d ?n = Some f"
    using rotated_name_not_active [of L w] no by (simp_all add: map_add_def delete_conv)
  have other: "map_of ?d n = map_of d n" if "n \<in> set (rotated_files L d)" for n
  proof -
    have "n \<noteq> ?a" "n \<noteq> ?n" using that rot(3) unfolding set_rotated_files by metis+
    then show ?thesis by (simp add: map_add_def delete_conv split: option.splits)
  qed
  have old: "list_all2 (\<lambda>n rs. \<exists>f. map_of ?d n = Some f \<and> holds f rs) (rotated_files L d) ras"
    using rss(3) by (rule list.rel_mono_strong) (simp only: other)
  have a': "?a \<in> fst ` set ?d" by simp
  have "chain_files L ?d = (rotated_files L d @ [?n]) @ [?a]"
    using chain_files_active [OF a'] rot(1) by simp
  moreover have "\<exists>g. map_of ?d ?n = Some g \<and> holds g rs" "\<exists>g. map_of ?d ?a = Some g \<and> holds g [?m]"
    using act rss(2) one by blast+
  ultimately have dh: "dir_holds L ?d ((ras @ [rs]) @ [[?m]])"
    unfolding dir_holds_def by (simp only: list_all2_snoc old)
  have scan: "scan_recs H ?k (concat rss @ [?m]) GENESIS = Some (digest H (JObj (marker_body L w (JStr h))))"
    using scan_recs_append [of H ?k "concat ras @ rs" "[?m]" GENESIS] rss(1,4)
      check_sealed [OF assms(1) gb, of ?k] by (simp add: marker_of_def del: sort_json.simps)
  have "\<forall>x \<in> set (concat rss @ [?m]). \<exists>i. jget x ''seq'' = Some (JInt i)"
    using assms(2) seq_sealed [OF gb, of H ?k] by (auto simp: chain_inv_def marker_of_def simp del: sort_json.simps)
  then have "chain_inv H L ?d (rss @ [[?m]]) (digest H (JObj (marker_body L w (JStr h))))"
    using dh scan a' rot(2) rss(1) by (auto simp: chain_inv_def)
  then show ?thesis using eq rot(1) by blast
qed

section \<open>A write\<close>

text \<open>The body that a write appends when the head is \<open>h\<close> and the number is \<open>i\<close>, and its record.\<close>

definition written :: "hashes \<Rightarrow> audit_log \<Rightarrow> write_args \<Rightarrow> world \<Rightarrow> int \<Rightarrow> string \<Rightarrow> (string \<times> json) list" where
  "written H L a w i h = seal H (al_hmac_key L) (record_body L a w i (JStr h))"

lemma write_step:
  assumes "hex_hashes H" "chain_inv H L d rss h" "wf_args (wa_args a)" "rotates_later L d w"
  shows "\<exists>i d' out rss' h'. audit_write H L a w d = Inr (d', out, written H L a w i h) \<and>
    chain_inv H L d' rss' h' \<and> set (rotated_files L d') \<subseteq> insert (rotated_name L w) (set (rotated_files L d)) \<and>
    (concat rss' = concat rss @ [sort_json (JObj (written H L a w i h))] \<or>
     concat rss' = concat rss @ [sort_json (JObj (written H L a w i h)),
       marker_of H L w (digest H (JObj (record_body L a w i (JStr h))))])"
proof -
  let ?a = "active_name L" and ?k = "al_hmac_key L"
  obtain f where f: "map_of d ?a = Some f" using inv_has_active [OF assms(2)] by blast
  obtain t i where t: "tail_record f = Inr t" "tail_hash t = Inr (JStr h)" "tail_seq t = Inr i"
    using inv_tail [OF assms(2) f] by blast
  let ?b = "record_body L a w i (JStr h)"
  let ?r = "sort_json (JObj (written H L a w i h))"
  let ?f = "f @ utf8 (dumps spaced ?r) @ [nl]"
  let ?d = "AList.update ?a ?f d"
  note gb = good_record_body [OF assms(3), of h L w i]
  have inv: "chain_inv H L ?d (butlast rss @ [last rss @ [?r]]) (digest H (JObj ?b))"
    using inv_append [OF assms(1,2) gb f styles(1,2)] by (simp only: written_def)
  obtain ras rs where rss: "rss = ras @ [rs]" by (rule inv_active [OF assms(2) f])
  have cat: "concat (butlast rss @ [last rss @ [?r]]) = concat rss @ [?r]" by (simp add: rss)
  have keys: "map fst ?d = map fst d" using assms(2) by (simp add: chain_inv_def update_keys)
  have later: "rotates_later L ?d w"
    using assms(4) rotated_files_keys [OF keys, of L] by (simp add: rotates_later_def)
  show ?thesis
  proof (cases "al_rotate_bytes L \<le> int (length ?f)")
    case False
    then show ?thesis
      using f t inv cat rotated_files_keys [OF keys, of L] by (fastforce simp: audit_write_def Let_def written_def simp del: sort_json.simps)
  next
    case True
    obtain d' where d': "audit_rotate H L w ?d = Inr d'"
        "chain_inv H L d' ((butlast rss @ [last rss @ [?r]]) @ [[marker_of H L w (digest H (JObj ?b))]])
          (digest H (JObj (marker_body L w (JStr (digest H (JObj ?b))))))"
        "rotated_files L d' = rotated_files L ?d @ [rotated_name L w]"
      using inv_rotate [OF assms(1) inv later] by blast
    have "concat ((butlast rss @ [last rss @ [?r]]) @ [[marker_of H L w (digest H (JObj ?b))]]) =
        concat rss @ [?r, marker_of H L w (digest H (JObj ?b))]" by (simp add: rss)
    moreover have "\<exists>out. audit_write H L a w d = Inr (d', out, written H L a w i h)"
      using True f t d'(1) by (auto simp: audit_write_def Let_def written_def simp del: sort_json.simps)
    moreover have "set (rotated_files L d') \<subseteq> insert (rotated_name L w) (set (rotated_files L d))"
      using d'(3) rotated_files_keys [OF keys, of L] by simp
    ultimately show ?thesis using d'(2) by blast
  qed
qed

section \<open>Any number of writes\<close>

fun audit_writes :: "hashes \<Rightarrow> audit_log \<Rightarrow> (write_args \<times> world) list \<Rightarrow> dir \<Rightarrow> dir res" where
  "audit_writes H L [] d = Inr d"
| "audit_writes H L ((a, w) # aws) d = rbind (audit_write H L a w d) (\<lambda>(d', out, b). audit_writes H L aws d')"

text \<open>The record of a call, and the records of a log that are not markers of a rotation.\<close>

definition logs :: "write_args \<Rightarrow> json \<Rightarrow> bool" where
  "logs a r \<longleftrightarrow>
     jget r ''requester'' = Some (JStr (wa_requester a)) \<and> jget r ''tool'' = Some (JStr (wa_tool a)) \<and>
     jget r ''args'' = Some (sort_json (JObj (redact (wa_args a)))) \<and>
     jget r ''outcome'' = Some (JStr (wa_outcome a)) \<and> jget r ''session_id'' = Some (JStr (wa_session a)) \<and>
     jget r ''directory_version'' = Some (JStr (wa_dirver a)) \<and>
     jget r ''result_summary'' = Some (JStr (take 2000 (wa_summary a)))"

definition is_marker :: "json \<Rightarrow> bool" where
  "is_marker r \<longleftrightarrow> jget r ''tool'' = Some (JStr ''audit_rotate'')"

definition entries :: "json list \<Rightarrow> json list" where
  "entries rs = filter (\<lambda>r. \<not> is_marker r) rs"

lemma jget_sealed:
  assumes "good_body prev b" "map_of b k = Some v"
  shows "jget (sort_json (JObj (seal H key b))) k = Some (sort_json v)"
  using map_of_seal [OF assms(2)] by (simp only: jget_sort_json [OF good_body_distinct [OF assms(1)]]) simp

lemma logs_written:
  assumes "wf_args (wa_args a)"
  shows "logs a (sort_json (JObj (written H L a w i h)))"
  using jget_sealed [OF good_record_body [OF assms, of h L w i]]
  by (simp add: logs_def written_def record_body_def del: sort_json.simps(6)) simp

lemma marker_marker: "is_marker (marker_of H L w h)"
  using jget_sealed [OF good_marker_body [of h L w], of "''tool''" "JStr ''audit_rotate''" H "al_hmac_key L"]
  by (simp add: is_marker_def marker_of_def marker_body_def)

lemma not_marker_written:
  "wf_args (wa_args a) \<Longrightarrow> wa_tool a \<noteq> ''audit_rotate'' \<Longrightarrow>
   \<not> is_marker (sort_json (JObj (written H L a w i h)))"
  using logs_written [of a H L w i h] by (simp add: logs_def is_marker_def del: sort_json.simps)

lemma entries_append [simp]: "entries (rs @ ss) = entries rs @ entries ss"
  by (simp add: entries_def)

text \<open>What the calls must be for the log: dictionaries of arguments, and not named as a marker.\<close>

definition good_call :: "write_args \<Rightarrow> bool" where
  "good_call a \<longleftrightarrow> wf_args (wa_args a) \<and> wa_tool a \<noteq> ''audit_rotate''"

lemma entries_write:
  assumes "good_call a"
    and "rs' = rs @ [sort_json (JObj (written H L a w i h))] \<or>
      rs' = rs @ [sort_json (JObj (written H L a w i h)), marker_of H L w h']"
  shows "\<exists>r. entries rs' = entries rs @ [r] \<and> logs a r"
  using assms logs_written [of a H L w i h] not_marker_written [of a H L w i h] marker_marker [of H L w h']
  by (auto simp: entries_def good_call_def simp del: sort_json.simps)

text \<open>One write adds one entry, of the call, and keeps the chain.\<close>

lemma write_logged:
  assumes "hex_hashes H" "chain_inv H L d rss h" "good_call a" "rotates_later L d w"
  shows "\<exists>d' out b rss' h' e. audit_write H L a w d = Inr (d', out, b) \<and> chain_inv H L d' rss' h' \<and>
    entries (concat rss') = entries (concat rss) @ [e] \<and> logs a e \<and>
    set (rotated_files L d') \<subseteq> insert (rotated_name L w) (set (rotated_files L d))"
proof -
  have wf: "wf_args (wa_args a)" using assms(3) by (simp add: good_call_def)
  obtain i d' out rss' h' where w: "audit_write H L a w d = Inr (d', out, written H L a w i h)" "chain_inv H L d' rss' h'"
      "set (rotated_files L d') \<subseteq> insert (rotated_name L w) (set (rotated_files L d))"
      "concat rss' = concat rss @ [sort_json (JObj (written H L a w i h))] \<or>
       concat rss' = concat rss @ [sort_json (JObj (written H L a w i h)),
         marker_of H L w (digest H (JObj (record_body L a w i (JStr h))))]"
    using write_step [OF assms(1,2) wf assms(4)] by metis
  obtain e where "entries (concat rss') = entries (concat rss) @ [e]" "logs a e"
    using entries_write [OF assms(3) w(4)] by blast
  then show ?thesis using w(1-3) by blast
qed

lemma writes_step:
  assumes "hex_hashes H"
  shows "chain_inv H L d rss h \<Longrightarrow> \<forall>(a, w) \<in> set aws. good_call a \<Longrightarrow>
    sorted_wrt (<) (map (rotated_name L \<circ> snd) aws) \<Longrightarrow>
    \<forall>w \<in> snd ` set aws. rotates_later L d w \<Longrightarrow>
    \<exists>d' rss' h' es. audit_writes H L aws d = Inr d' \<and> chain_inv H L d' rss' h' \<and>
      entries (concat rss') = entries (concat rss) @ es \<and> list_all2 logs (map fst aws) es"
proof (induction aws arbitrary: d rss h)
  case (Cons x aws)
  obtain a w where x: "x = (a, w)" by (cases x)
  then have good: "good_call a" "rotates_later L d w" using Cons.prems by auto
  obtain d1 out b rss1 h1 r where w: "audit_write H L a w d = Inr (d1, out, b)"
      "chain_inv H L d1 rss1 h1" and r: "entries (concat rss1) = entries (concat rss) @ [r]" "logs a r"
      and rot: "set (rotated_files L d1) \<subseteq> insert (rotated_name L w) (set (rotated_files L d))"
    using write_logged [OF assms Cons.prems(1) good] by blast
  have "\<forall>w' \<in> snd ` set aws. rotates_later L d1 w'"
  proof
    fix w' assume "w' \<in> snd ` set aws"
    then have "rotated_name L w < rotated_name L w'" "rotates_later L d w'"
      using Cons.prems(3,4) x by auto
    then show "rotates_later L d1 w'" using rot by (auto simp: rotates_later_def)
  qed
  then obtain d' rss' h' es where "audit_writes H L aws d1 = Inr d'" "chain_inv H L d' rss' h'"
      "entries (concat rss') = entries (concat rss1) @ es" "list_all2 logs (map fst aws) es"
    using Cons.IH [OF w(2)] Cons.prems(2,3) by auto
  then show ?case using w(1) r x by (auto intro!: exI [of _ d'] exI [of _ rss'] exI [of _ h'] exI [of _ "r # es"])
qed (auto intro!: exI)

lemma chain_inv_init:
  "chain_inv H (fst (audit_init s x g k n f an [])) (snd (audit_init s x g k n f an [])) [[]] GENESIS"
  by (simp add: chain_inv_def audit_init_def Let_def dir_holds_def chain_files_def rotated_files_def
      active_name_def)

lemma chain_inv_verify:
  "chain_inv H L d rss h \<Longrightarrow> \<exists>m. verify H L (al_hmac_key L) d =
     Inr \<lparr>vr_ok = True, vr_records = length (concat rss), vr_files = length (chain_files L d),
       vr_head = h, vr_message = m\<rparr>"
  by (rule verify_ok) (simp_all add: chain_inv_def)

text \<open>The clock readings of one rotation come before those of another.\<close>

definition rot_before :: "world \<Rightarrow> world \<Rightarrow> bool" where
  "rot_before w w' \<longleftrightarrow> clock_range (w_rot_sec w) \<and> clock_range (w_rot_sec w') \<and>
     (w_rot_sec w < w_rot_sec w' \<or>
      w_rot_sec w = w_rot_sec w' \<and> w_rot_ns w mod 1000000000 < w_rot_ns w' mod 1000000000)"

lemma rotated_name_less:
  assumes "rot_before w w'"
  shows "rotated_name L w < rotated_name L w'"
proof -
  have c: "clock_range (w_rot_sec w)" "clock_range (w_rot_sec w')" using assms by (simp_all add: rot_before_def)
  note st = stamp_seconds_less_iff [OF c] stamp_seconds_less_iff(2) [OF c(2,1)]
  have ns: "w_rot_ns w mod 1000000000 < 10 ^ 9" "w_rot_ns w' mod 1000000000 < 10 ^ 9" by simp_all
  have len: "length (pad0 9 (w_rot_ns w mod 1000000000)) = length (pad0 9 (w_rot_ns w' mod 1000000000))"
    using ns by (simp add: length_pad0)
  have irr: "\<not> u < (u :: string)" for u by simp
  show ?thesis
    using assms st ns len
    by (auto simp: rotated_name_def rot_before_def append_less_iff pad0_less_iff irr)
qed

section \<open>The log written by any sequence of calls\<close>

text \<open>
  C1: Starting from an empty directory, any sequence of \<^verbatim>\<open>AuditLog.write\<close> calls succeeds, and
  afterwards \<^verbatim>\<open>verify\<close> with the log's key accepts the directory: every record and every file is
  counted, the reported head is the one \<^verbatim>\<open>head()\<close> reads from the tail, and the records that are
  not rotation markers are exactly the calls, in order, with redacted arguments. This holds
  through any number of rotations, as long as the clock readings that name the rotated files
  increase.
\<close>

theorem writes_verify:
  assumes "hex_hashes H" and "(L, d) = audit_init stem sfx agent k rot fwd anchor []"
    and "\<forall>(a, w) \<in> set aws. good_call a"
    and "sorted_wrt rot_before (map snd aws)"
  shows "\<exists>d' rss h m. audit_writes H L aws d = Inr d' \<and> dir_holds L d' rss \<and>
    verify H L k d' = Inr \<lparr>vr_ok = True, vr_records = length (concat rss),
      vr_files = length (chain_files L d'), vr_head = h, vr_message = m\<rparr> \<and>
    audit_head L d' = Inr (JStr h) \<and> list_all2 logs (map fst aws) (entries (concat rss))"
proof -
  have Ld: "L = fst (audit_init stem sfx agent k rot fwd anchor [])"
      "d = snd (audit_init stem sfx agent k rot fwd anchor [])" using assms(2) by (metis fst_conv, metis snd_conv)
  have inv: "chain_inv H L d [[]] GENESIS" unfolding Ld by (rule chain_inv_init)
  have names: "sorted_wrt (<) (map (rotated_name L \<circ> snd) aws)"
    using assms(4) rotated_name_less by (auto simp: sorted_wrt_map intro: sorted_wrt_mono_rel [rotated])
  have k: "al_hmac_key L = k" unfolding Ld by (simp add: audit_init_def Let_def)
  have "\<forall>w \<in> snd ` set aws. rotates_later L d w"
    unfolding Ld by (simp add: rotates_later_def audit_init_def Let_def rotated_files_def active_name_def)
  then obtain d' rss h es where r: "audit_writes H L aws d = Inr d'" "chain_inv H L d' rss h"
      "entries (concat rss) = entries (concat [[]]) @ es" "list_all2 logs (map fst aws) es"
    using writes_step [OF assms(1) inv assms(3) names] by blast
  have "dir_holds L d' rss" using r(2) by (simp add: chain_inv_def)
  moreover have "entries (concat rss) = es" using r(3) by (simp add: entries_def)
  ultimately show ?thesis
    using r(1,4) audit_head_inv [OF r(2)] chain_inv_verify [OF r(2)] k by metis
qed

text \<open>A pair of hash functions to compute with: the sum of the codes, in decimal.\<close>

definition sum_hashes :: hashes where
  "sum_hashes = \<lparr>sha256 = (\<lambda>x. nat_str (sum_list (map ord x))), hmac256 = (\<lambda>k x. nat_str (sum_list (map ord (k @ x))))\<rparr>"

lemma digit_hex: "is_digit c \<Longrightarrow> c \<in> set ''0123456789abcdef''"
proof -
  assume "is_digit c"
  then have "(ord c :: nat) \<in> set [48..<58]" unfolding set_upt atLeastLessThan_iff by (auto simp: is_digit_def)
  moreover have "\<forall>n \<in> set [48..<58 :: nat]. char_of n \<in> set ''0123456789abcdef''" by code_simp
  ultimately have "char_of (ord c :: nat) \<in> set ''0123456789abcdef''" by blast
  then show ?thesis by (simp only: char_of_char)
qed

lemma sum_hashes_hex: "hex_hashes sum_hashes"
proof -
  have "is_hex (nat_str n)" for n
    using digit_hex nat_str_digits [of n] nat_str_not_Nil [of n] unfolding is_hex_def by blast
  then show ?thesis by (simp add: hex_hashes_def sum_hashes_def)
qed

text \<open>Two calls to evaluate on, three seconds apart; the second one is told of a token.\<close>

definition example_calls :: "(write_args \<times> world) list" where
  "example_calls =
     [(\<lparr>wa_requester = ''alice'', wa_tool = ''policy_search'', wa_args = [(''query'', JStr ''retention'')],
        wa_outcome = ''ok'', wa_summary = ''2 policies'', wa_session = [], wa_dirver = ''v1''\<rparr>,
       \<lparr>w_uuid = ''a'', w_now = 0, w_rot_sec = 0, w_rot_ns = 0, w_rot_uuid = ''b'', w_rot_now = 0\<rparr>),
      (\<lparr>wa_requester = ''bob'', wa_tool = ''ticket_query'', wa_args = [(''api_token'', JStr ''s'')],
        wa_outcome = ''ok'', wa_summary = ''0 tickets'', wa_session = [], wa_dirver = ''v1''\<rparr>,
       \<lparr>w_uuid = ''c'', w_now = 3, w_rot_sec = 3, w_rot_ns = 0, w_rot_uuid = ''d'', w_rot_now = 3\<rparr>)]"

lemma example_calls_good: "\<forall>(a, w) \<in> set example_calls. good_call a"
  by (simp add: example_calls_def good_call_def wf_args_def)

lemma example_calls_ordered: "sorted_wrt rot_before (map snd example_calls)"
  by (simp add: example_calls_def rot_before_def clock_range_def)

lemma writes_verify_witness:
  "\<exists>d' rss h m. audit_writes sum_hashes (fst (audit_init ''audit'' ''.jsonl'' ''agent'' ''k'' 600 True 2 []))
      example_calls (snd (audit_init ''audit'' ''.jsonl'' ''agent'' ''k'' 600 True 2 [])) = Inr d' \<and>
    list_all2 logs (map fst example_calls) (entries (concat rss)) \<and>
    verify sum_hashes (fst (audit_init ''audit'' ''.jsonl'' ''agent'' ''k'' 600 True 2 [])) ''k'' d' =
      Inr \<lparr>vr_ok = True, vr_records = length (concat rss),
      vr_files = length (chain_files (fst (audit_init ''audit'' ''.jsonl'' ''agent'' ''k'' 600 True 2 [])) d'),
      vr_head = h, vr_message = m\<rparr>"
  using writes_verify [OF sum_hashes_hex prod.collapse example_calls_good example_calls_ordered] by blast

end
