(* ===== verification/Audit_Tamper.thy ===== *)
theory Audit_Tamper
  imports Audit_Append
begin

text \<open>
  What a chain accepted by \<^verbatim>\<open>verify\<close> proves about its records. Acceptance is turned into a scan
  of the records that the lines of the files parse to, for any contents of the files, and the
  theorems compare two directories: with the same head and the same number of records, their
  records agree, or two different bodies with the same SHA-256 can be named.
\<close>

section \<open>Parsed values are dictionaries with distinct keys\<close>

lemma wf_fold_update:
  "wf_json (JObj m) \<Longrightarrow> \<forall>v \<in> snd ` set ms. wf_json v \<Longrightarrow>
   wf_json (JObj (fold (\<lambda>(k, v) m. AList.update k v m) ms m))"
proof (induction ms arbitrary: m)
  case (Cons x ms)
  obtain k v where x: "x = (k, v)" by (cases x)
  have "u = v \<or> u \<in> snd ` set m" if "(j, u) \<in> set (AList.update k v m)" for j u
    using that by (induction m) (force split: if_splits)+
  then have "wf_json (JObj (AList.update k v m))"
    using Cons.prems x distinct_update [of m k v] unfolding wf_json.simps by fastforce
  then show ?case using Cons x by simp
qed simp

lemma parse_wf:
  "parse_value s = Some (v, r) \<Longrightarrow> wf_json v"
  "parse_elems s = Some (vs, r) \<Longrightarrow> \<forall>v \<in> set vs. wf_json v"
  "parse_members s = Some (ms, r) \<Longrightarrow> \<forall>v \<in> snd ` set ms. wf_json v"
proof (induction s and s and s arbitrary: v r and vs r and ms r
    rule: parse_value_parse_elems_parse_members.induct)
  case (2 c s)
  consider "c = quote" | "c \<noteq> quote" "c = CHR ''{''" | "c \<noteq> quote" "c \<noteq> CHR ''{''" "c = CHR ''[''"
    | "c \<noteq> quote" "c \<noteq> CHR ''{''" "c \<noteq> CHR ''[''" by blast
  then show ?case
  proof cases
    case 1
    then show ?thesis using "2.prems" by auto
  next
    case obj: 2
    obtain d s1 where s: "skip_ws s = d # s1" using "2.prems" obj by (auto split: list.splits)
    show ?thesis
    proof (cases "d = CHR ''}''")
      case True
      then have "v = JObj []" using "2.prems" obj s by simp
      then show ?thesis by simp
    next
      case False
      then obtain ms r' where "parse_members (skip_ws s) = Some (ms, r')"
          "v = JObj (fold (\<lambda>(k, v) m. AList.update k v m) ms [])"
        using "2.prems" obj s by auto
      then show ?thesis using "2.IH"(1) [OF obj s False] wf_fold_update [of "[]" ms] by simp
    qed
  next
    case arr: 3
    obtain d s1 where s: "skip_ws s = d # s1" using "2.prems" arr by (auto split: list.splits)
    show ?thesis
    proof (cases "d = CHR '']''")
      case True
      then have "v = JArr []" using "2.prems" arr s by simp
      then show ?thesis by simp
    next
      case False
      then obtain vs r' where "parse_elems (skip_ws s) = Some (vs, r')" "v = JArr vs"
        using "2.prems" arr s by auto
      then show ?thesis using "2.IH"(2) [OF arr s False] by simp
    qed
  next
    case 4
    then show ?thesis using "2.prems" by (auto simp: scan_int_def Let_def split: if_splits)
  qed
next
  case (3 s)
  show ?case
    using "3.prems" "3.IH" unfolding parse_elems.simps [of s]
    by (fastforce split: if_splits list.splits option.splits prod.splits)
next
  case (4 s)
  show ?case
    using "4.prems" "4.IH" unfolding parse_members.simps [of s]
    by (fastforce split: if_splits list.splits option.splits prod.splits)
qed simp

lemma loads_wf: "loads s = Inr j \<Longrightarrow> wf_json j"
  using parse_wf(1) by (auto simp: loads_def split: option.splits if_splits)

section \<open>From the lines to the records\<close>

text \<open>The records that the lines of a file parse to, and those of a directory in order.\<close>

fun line_records :: "string list \<Rightarrow> json list" where
  "line_records [] = []"
| "line_records (l # ls) =
     (case utf8_decode l of Inl _ \<Rightarrow> line_records ls
      | Inr text \<Rightarrow>
          if str_strip text = [] then line_records ls
          else (case loads text of Inl _ \<Rightarrow> line_records ls | Inr r \<Rightarrow> r # line_records ls))"

definition file_records :: "dir \<Rightarrow> string \<Rightarrow> json list" where
  "file_records d n = (case map_of d n of None \<Rightarrow> [] | Some f \<Rightarrow> line_records (file_lines f))"

definition log_records :: "audit_log \<Rightarrow> dir \<Rightarrow> json list" where
  "log_records L d = concat (map (file_records d) (chain_files L d))"

lemma line_records_wf: "r \<in> set (line_records ls) \<Longrightarrow> wf_json r"
  by (induction ls) (auto split: sum.splits if_splits intro: loads_wf)

lemma log_records_wf: "r \<in> set (log_records L d) \<Longrightarrow> wf_json r"
  by (auto simp: log_records_def file_records_def split: option.splits intro: line_records_wf)

text \<open>What one line does to the loop: it is blank, or it carries a record that passes or fails.\<close>

lemma verify_line_cases:
  assumes "verify_lines H key nf n k (l # ls) prev count = Inr x"
  obtains (blank) "line_records (l # ls) = line_records ls"
      "verify_lines H key nf n (k + 1) ls prev count = Inr x"
    | (good) r h where "line_records (l # ls) = r # line_records ls"
      "check_record H key prev r = Inr (Good h)" "verify_lines H key nf n (k + 1) ls h (count + 1) = Inr x"
    | (bad) msg where "x = Inl (failure count nf prev n k msg)"
proof -
  obtain t where t: "utf8_decode l = Inr t" using assms by (auto simp: rbind_Inr_iff)
  show thesis
  proof (cases "str_strip t = []")
    case True
    then show thesis using assms t blank by simp
  next
    case False
    then obtain r c where "loads t = Inr r" "check_record H key prev r = Inr c"
      using assms t by (auto simp: rbind_Inr_iff)
    then show thesis using assms t False good bad by (cases c) auto
  qed
qed

lemma verify_lines_scan:
  "verify_lines H key nf n k ls prev count = Inr (Inr (h, c)) \<Longrightarrow>
   scan_recs H key (line_records ls) prev = Some h \<and> c = count + length (line_records ls)"
proof (induction ls arbitrary: prev count k)
  case (Cons l ls)
  from Cons.prems show ?case by (cases rule: verify_line_cases)
      (use Cons.IH in \<open>fastforce simp del: line_records.simps(2)\<close>)+
qed simp

lemma verify_lines_fail: "verify_lines H key nf n k ls prev count = Inr (Inl v) \<Longrightarrow> \<not> vr_ok v"
proof (induction ls arbitrary: prev count k)
  case (Cons l ls)
  from Cons.prems show ?case by (cases rule: verify_line_cases) (use Cons.IH in \<open>auto simp: failure_def\<close>)
qed simp

lemma verify_files_scan:
  "verify_files H key d nf ns prev count = Inr v \<Longrightarrow> vr_ok v \<Longrightarrow>
   scan_recs H key (concat (map (file_records d) ns)) prev = Some (vr_head v) \<and>
   vr_records v = count + length (concat (map (file_records d) ns))"
proof (induction ns arbitrary: prev count)
  case (Cons n ns)
  obtain f x where x: "map_of d n = Some f" "verify_lines H key nf n 1 (file_lines f) prev count = Inr x"
      "(case x of Inl v \<Rightarrow> Inr v | Inr (h, c) \<Rightarrow> verify_files H key d nf ns h c) = Inr v"
    using Cons.prems(1) by (auto simp: rbind_Inr_iff split: option.splits)
  then obtain h c where "x = Inr (h, c)" using verify_lines_fail Cons.prems(2) by (cases x) auto
  then have f: "map_of d n = Some f" "verify_lines H key nf n 1 (file_lines f) prev count = Inr (Inr (h, c))"
      "verify_files H key d nf ns h c = Inr v" using x by auto
  then show ?case
    using verify_lines_scan [OF f(2)] Cons.IH [OF f(3) Cons.prems(2)]
    by (simp add: file_records_def scan_recs_append)
qed auto

text \<open>An accepted directory is one whose records link from the genesis hash to the reported head.\<close>

lemma verify_scan:
  assumes "verify H L key d = Inr v" "vr_ok v"
  shows "scan_recs H key (log_records L d) GENESIS = Some (vr_head v)"
    "vr_records v = length (log_records L d)"
  using verify_files_scan [of H key d _ "chain_files L d" GENESIS 0 v] assms
  by (auto simp: verify_def Let_def log_records_def)

section \<open>Two chains with the same head\<close>

text \<open>The contents of a record: the canonical bytes of its body, without hash and MAC.\<close>

definition body_bytes :: "json \<Rightarrow> string" where
  "body_bytes r = canonical (unsealed r)"

text \<open>Two records of two logs at the same place whose bodies differ and hash to the same value.\<close>

definition collision :: "hashes \<Rightarrow> json list \<Rightarrow> json list \<Rightarrow> bool" where
  "collision H rs ss \<longleftrightarrow> (\<exists>(r, s) \<in> set (zip rs ss).
     body_bytes r \<noteq> body_bytes s \<and> sha256 H (body_bytes r) = sha256 H (body_bytes s))"

lemma wf_unsealed: "wf_json r \<Longrightarrow> wf_json (unsealed r)"
  by (cases r) (auto simp: distinct_map_filter)

lemma jget_unsealed: "k \<noteq> ''hash'' \<Longrightarrow> k \<noteq> ''mac'' \<Longrightarrow> jget (unsealed r) k = jget r k"
proof (cases r)
  case (JObj ms)
  assume k: "k \<noteq> ''hash''" "k \<noteq> ''mac''"
  have "map_of (filter (\<lambda>(k, v). k \<noteq> ''hash'' \<and> k \<noteq> ''mac'') ms) k = map_of ms k"
    by (induction ms) (use k in auto)
  then show ?thesis using JObj by simp
qed simp_all

lemma jget_sorted: "wf_json r \<Longrightarrow> jget (sort_json r) k = map_option sort_json (jget r k)"
  by (cases r) (simp_all add: map_of_sort_key map_of_sort_members map_fst_sort_members)

text \<open>Bodies with the same bytes name the same previous hash.\<close>

lemma body_prev:
  assumes "wf_json r" "wf_json s" "body_bytes r = body_bytes s"
    and "jget r ''prev_hash'' = Some (JStr p)" "jget s ''prev_hash'' = Some (JStr q)"
  shows "p = q"
proof -
  have "sort_json (unsealed r) = sort_json (unsealed s)"
    using assms(3) canonical_inj [OF wf_unsealed [OF assms(1)] wf_unsealed [OF assms(2)]]
    by (simp add: body_bytes_def)
  then have "jget (sort_json (unsealed r)) ''prev_hash'' = jget (sort_json (unsealed s)) ''prev_hash''" by simp
  then show ?thesis
    using assms(4,5) by (simp add: jget_sorted wf_unsealed assms(1,2) jget_unsealed)
qed

lemma scan_snoc:
  assumes "scan_recs H key (rs @ [r]) p = Some h"
  obtains g where "scan_recs H key rs p = Some g" "jget r ''prev_hash'' = Some (JStr g)"
    "h = sha256 H (body_bytes r)"
  using assms by (auto simp: scan_recs_append check_record_Good digest_def body_bytes_def
      split: option.splits sum.splits check.splits)

lemma chains_agree:
  assumes "length rs = length ss" "\<forall>r \<in> set rs \<union> set ss. wf_json r"
    and "scan_recs H k rs p = Some h" "scan_recs H k' ss p' = Some h"
  shows "collision H rs ss \<or> map body_bytes rs = map body_bytes ss"
  using assms
proof (induction rs arbitrary: ss h rule: rev_induct)
  case (snoc r rs)
  then obtain ss' s where ss: "ss = ss' @ [s]" by (cases ss rule: rev_cases) auto
  obtain g where r: "scan_recs H k rs p = Some g" "jget r ''prev_hash'' = Some (JStr g)"
      "h = sha256 H (body_bytes r)" by (rule scan_snoc [OF snoc.prems(3)])
  obtain g' where s: "scan_recs H k' ss' p' = Some g'" "jget s ''prev_hash'' = Some (JStr g')"
      "h = sha256 H (body_bytes s)" by (rule scan_snoc [OF snoc.prems(4) [unfolded ss]])
  have len: "length rs = length ss'" using snoc.prems(1) ss by simp
  show ?case
  proof (cases "body_bytes r = body_bytes s")
    case False
    then have "collision H (rs @ [r]) ss"
      using r(3) s(3) len by (auto simp: collision_def ss)
    then show ?thesis ..
  next
    case True
    then have "g = g'" using body_prev [OF _ _ True r(2) s(2)] snoc.prems(2) ss by simp
    then have "collision H rs ss' \<or> map body_bytes rs = map body_bytes ss'"
      using snoc.IH [OF len _ r(1)] s(1) snoc.prems(2) ss by simp
    then show ?thesis using True len by (auto simp: collision_def ss)
  qed
qed simp

text \<open>
  C2: The head that \<^verbatim>\<open>verify\<close> reports, together with the number of records, commits to the whole
  log. If two directories, whatever bytes their files hold, are both accepted with the same head
  and the same count, with any keys, then the two sequences of record bodies are the same, or
  two records at the same place have different bodies with the same SHA-256. So a record
  altered, inserted, deleted or moved after its head was archived is noticed.
\<close>

theorem head_commits:
  assumes "verify H L k d = Inr v" "vr_ok v" and "verify H L' k' d' = Inr v'" "vr_ok v'"
    and "vr_head v = vr_head v'" "vr_records v = vr_records v'"
  shows "collision H (log_records L d) (log_records L' d') \<or>
    map body_bytes (log_records L d) = map body_bytes (log_records L' d')"
proof (rule chains_agree)
  show "length (log_records L d) = length (log_records L' d')"
    using verify_scan(2) [OF assms(1,2)] verify_scan(2) [OF assms(3,4)] assms(6) by simp
  show "\<forall>r \<in> set (log_records L d) \<union> set (log_records L' d'). wf_json r"
    using log_records_wf by blast
  show "scan_recs H k (log_records L d) GENESIS = Some (vr_head v)"
    by (rule verify_scan(1) [OF assms(1,2)])
  show "scan_recs H k' (log_records L' d') GENESIS = Some (vr_head v)"
    using verify_scan(1) [OF assms(3,4)] assms(5) by simp
qed

text \<open>
  Two files with one record each, the members in another order, and hash functions that are
  easy to compute: the length of the text, in decimal.
\<close>

definition len_hashes :: hashes where
  "len_hashes = \<lparr>sha256 = (\<lambda>x. nat_str (length x)), hmac256 = (\<lambda>k x. nat_str (length (k @ x)))\<rparr>"

definition plain_log :: audit_log where
  "plain_log = \<lparr>al_stem = ''a'', al_suffix = ''.j'', al_agent_id = [], al_hmac_key = ''k'',
     al_rotate_bytes = 0, al_forward = False, al_anchor_every = 1\<rparr>"

definition quoted :: "string \<Rightarrow> string" where
  "quoted s = quote # s @ [quote]"

definition example_dir :: "bool \<Rightarrow> dir" where
  "example_dir b =
     (let p = quoted ''prev_hash'' @ '': '' @ quoted GENESIS; h = quoted ''hash'' @ '':'' @ quoted ''80'';
          m = quoted ''mac'' @ '':'' @ quoted ''3''
      in [(''a.j'', ''{'' @ (if b then p @ '','' @ h @ '','' @ m else h @ '','' @ m @ '', '' @ p) @ ''}'' @ [nl])])"

definition example_result :: verify_result where
  "example_result = \<lparr>vr_ok = True, vr_records = 1, vr_files = 1, vr_head = ''80'',
     vr_message = ''1 records across 1 file(s) verified, head 80''\<rparr>"

lemma example_verify:
  "verify len_hashes plain_log ''k'' (example_dir True) = Inr example_result"
  "verify len_hashes plain_log [] (example_dir False) = Inr example_result"
  by code_simp+

lemma example_result_ok: "vr_ok example_result" "vr_head example_result = ''80''"
  by (simp_all add: example_result_def)

lemma head_commits_witness:
  "collision len_hashes (log_records plain_log (example_dir True)) (log_records plain_log (example_dir False)) \<or>
   map body_bytes (log_records plain_log (example_dir True)) = map body_bytes (log_records plain_log (example_dir False))"
  using head_commits [OF example_verify(1) example_result_ok(1) example_verify(2) example_result_ok(1)] by simp

section \<open>A chain whose MACs are those of the writer\<close>

lemma scan_prev:
  "scan_recs H k rs p = Some h \<Longrightarrow> i < length rs \<Longrightarrow>
   jget (rs ! i) ''prev_hash'' = Some (JStr (if i = 0 then p else sha256 H (body_bytes (rs ! (i - 1)))))"
proof (induction rs arbitrary: p i)
  case (Cons r rs)
  then obtain g where r: "check_record H k p r = Inr (Good g)" "scan_recs H k rs g = Some h"
    by (auto split: sum.splits check.splits)
  then have "g = sha256 H (body_bytes r)" "jget r ''prev_hash'' = Some (JStr p)"
    by (auto simp: check_record_Good digest_def body_bytes_def)
  then show ?case using Cons.IH [OF r(2), of "i - 1"] Cons.prems(2) by (cases i) (auto simp: nth_Cons')
qed simp

text \<open>
  No two bodies of the two lists collide, and none hashes to the genesis hash. The records of a
  list that links from the genesis hash are then told apart by their bodies.
\<close>

definition clash :: "hashes \<Rightarrow> json list \<Rightarrow> bool" where
  "clash H rs \<longleftrightarrow> (\<exists>r \<in> set rs. sha256 H (body_bytes r) = GENESIS) \<or>
     (\<exists>r \<in> set rs. \<exists>s \<in> set rs. body_bytes r \<noteq> body_bytes s \<and> sha256 H (body_bytes r) = sha256 H (body_bytes s))"

lemma no_clashD:
  "\<not> clash H rs \<Longrightarrow> r \<in> set rs \<Longrightarrow> s \<in> set rs \<Longrightarrow> sha256 H (body_bytes r) = sha256 H (body_bytes s) \<Longrightarrow>
   body_bytes r = body_bytes s"
  "\<not> clash H rs \<Longrightarrow> r \<in> set rs \<Longrightarrow> sha256 H (body_bytes r) \<noteq> GENESIS"
  by (auto simp: clash_def)

lemma place_of_body:
  assumes "scan_recs H k rs GENESIS = Some h" "\<forall>r \<in> set rs. wf_json r" "\<not> clash H (rs @ ss)"
  shows "i < length rs \<Longrightarrow> j < length rs \<Longrightarrow> body_bytes (rs ! i) = body_bytes (rs ! j) \<Longrightarrow> i = j"
proof (induction i arbitrary: j)
  case 0
  show ?case
  proof (cases j)
    case (Suc j')
    have "GENESIS = sha256 H (body_bytes (rs ! j'))"
      using body_prev [OF _ _ "0.prems"(3) scan_prev [OF assms(1) "0.prems"(1)] scan_prev [OF assms(1) "0.prems"(2)]]
        assms(2) "0.prems" Suc by simp
    then show ?thesis using no_clashD(2) [OF assms(3), of "rs ! j'"] "0.prems"(2) Suc by simp
  qed simp
next
  case (Suc i)
  have p: "(if Suc i = 0 then GENESIS else sha256 H (body_bytes (rs ! (Suc i - 1)))) =
      (if j = 0 then GENESIS else sha256 H (body_bytes (rs ! (j - 1))))"
    using body_prev [OF _ _ Suc.prems(3) scan_prev [OF assms(1) Suc.prems(1)] scan_prev [OF assms(1) Suc.prems(2)]]
      assms(2) Suc.prems by simp
  show ?case
  proof (cases j)
    case 0
    then show ?thesis using p no_clashD(2) [OF assms(3), of "rs ! i"] Suc.prems(1) by simp
  next
    case (Suc j')
    then have "body_bytes (rs ! i) = body_bytes (rs ! j')"
      using p no_clashD(1) [OF assms(3), of "rs ! i" "rs ! j'"] Suc.prems by simp
    then show ?thesis using Suc.IH [of j'] Suc Suc.prems by simp
  qed
qed

lemma forged_source:
  assumes rs: "scan_recs H k rs GENESIS = Some h" and ss: "scan_recs H k' ss GENESIS = Some h'"
    and wf: "\<forall>r \<in> set (rs @ ss). wf_json r" and nc: "\<not> clash H (rs @ ss)"
    and known: "\<forall>s \<in> set ss. \<exists>r \<in> set rs. sha256 H (body_bytes r) = sha256 H (body_bytes s)"
    and j: "j < length ss"
  shows "\<exists>i < length rs. body_bytes (ss ! j) = body_bytes (rs ! i) \<and>
      (if i = 0 then GENESIS else sha256 H (body_bytes (rs ! (i - 1)))) =
      (if j = 0 then GENESIS else sha256 H (body_bytes (ss ! (j - 1))))"
proof -
  obtain i where i: "i < length rs" "sha256 H (body_bytes (rs ! i)) = sha256 H (body_bytes (ss ! j))"
    using known j by (metis in_set_conv_nth)
  have same: "body_bytes (rs ! i) = body_bytes (ss ! j)"
    using no_clashD(1) [OF nc _ _ i(2)] i(1) j by simp
  have "(if i = 0 then GENESIS else sha256 H (body_bytes (rs ! (i - 1)))) =
      (if j = 0 then GENESIS else sha256 H (body_bytes (ss ! (j - 1))))"
    using body_prev [OF _ _ same scan_prev [OF rs i(1)] scan_prev [OF ss j]] wf i(1) j by simp
  then show ?thesis using i(1) same by metis
qed

lemma forged_prefix:
  assumes rs: "scan_recs H k rs GENESIS = Some h" and ss: "scan_recs H k' ss GENESIS = Some h'"
    and wf: "\<forall>r \<in> set (rs @ ss). wf_json r" and nc: "\<not> clash H (rs @ ss)"
    and known: "\<forall>s \<in> set ss. \<exists>r \<in> set rs. sha256 H (body_bytes r) = sha256 H (body_bytes s)"
  shows "j < length ss \<Longrightarrow> j < length rs \<and> body_bytes (ss ! j) = body_bytes (rs ! j)"
proof (induction j)
  case 0
  then obtain i where i: "i < length rs" "body_bytes (ss ! 0) = body_bytes (rs ! i)"
      "(if i = 0 then GENESIS else sha256 H (body_bytes (rs ! (i - 1)))) = GENESIS"
    using forged_source [OF rs ss wf nc known 0] unfolding if_P [OF refl] by blast
  have "i = 0"
    using i(1,3) no_clashD(2) [OF nc, of "rs ! (i - 1)"] by (cases i) auto
  then show ?case using i by simp
next
  case (Suc j)
  obtain i where i: "i < length rs" "body_bytes (ss ! Suc j) = body_bytes (rs ! i)"
      "(if i = 0 then GENESIS else sha256 H (body_bytes (rs ! (i - 1)))) = sha256 H (body_bytes (ss ! j))"
    using forged_source [OF rs ss wf nc known Suc.prems] by (metis diff_Suc_1 nat.distinct(1))
  have jr: "j < length rs" "body_bytes (ss ! j) = body_bytes (rs ! j)" using Suc by simp_all
  then have p: "(if i = 0 then GENESIS else sha256 H (body_bytes (rs ! (i - 1)))) = sha256 H (body_bytes (rs ! j))"
    using i(3) by simp
  show ?case
  proof (cases i)
    case 0
    then show ?thesis using p no_clashD(2) [OF nc, of "rs ! j"] jr(1) by simp
  next
    case (Suc i')
    then have "body_bytes (rs ! i') = body_bytes (rs ! j)"
      using p no_clashD(1) [OF nc, of "rs ! i'" "rs ! j"] i(1) jr(1) by simp
    then have "i' = j" using place_of_body [OF rs _ nc, of i' j] wf Suc i(1) jr(1) by simp
    then show ?thesis using i Suc by simp
  qed
qed

text \<open>
  The MACs of a log are known: each record of \<open>ss\<close> that carries the MAC of its hash under the key
  has a hash that the writer of \<open>rs\<close> computed a MAC for. This is what an attacker without the
  key is confined to.
\<close>

definition macs_known :: "hashes \<Rightarrow> string \<Rightarrow> json list \<Rightarrow> json list \<Rightarrow> bool" where
  "macs_known H k rs ss \<longleftrightarrow> (\<forall>s \<in> set ss.
     jget s ''mac'' = Some (JStr (mac H k (sha256 H (body_bytes s)))) \<longrightarrow>
     sha256 H (body_bytes s) \<in> set (map (\<lambda>r. sha256 H (body_bytes r)) rs))"

lemma scan_mac:
  "scan_recs H k rs p = Some h \<Longrightarrow> k \<noteq> [] \<Longrightarrow> s \<in> set rs \<Longrightarrow>
   jget s ''mac'' = Some (JStr (mac H k (sha256 H (body_bytes s))))"
  by (induction rs arbitrary: p)
    (auto simp: check_record_Good digest_def body_bytes_def split: sum.splits check.splits)

text \<open>
  C3: Let \<open>d\<close> be a log that \<^verbatim>\<open>verify\<close> accepts with the key, and \<open>d'\<close> whatever is found in its
  place later. If \<open>verify\<close> with the key accepts \<open>d'\<close> and its MACs are those of the writer of \<open>d\<close>,
  then the records of \<open>d'\<close> are a prefix of those of \<open>d\<close>: nothing was altered, inserted, moved or
  deleted except at the end. The only exceptions are a SHA-256 collision between two of the
  records, or a record that hashes to sixty-four zeros.
\<close>

theorem keyed_log_is_prefix:
  assumes "verify H L k d = Inr v" "vr_ok v" and "verify H L' k d' = Inr v'" "vr_ok v'" and "k \<noteq> []"
    and "macs_known H k (log_records L d) (log_records L' d')"
  shows "clash H (log_records L d @ log_records L' d') \<or>
    (vr_records v' \<le> vr_records v \<and>
     map body_bytes (log_records L' d') = map body_bytes (take (vr_records v') (log_records L d)))"
proof (cases "clash H (log_records L d @ log_records L' d')")
  case False
  let ?rs = "log_records L d" and ?ss = "log_records L' d'"
  note d = verify_scan [OF assms(1,2)] and d' = verify_scan [OF assms(3,4)]
  have "\<forall>s \<in> set ?ss. \<exists>r \<in> set ?rs. sha256 H (body_bytes r) = sha256 H (body_bytes s)"
    using assms(6) scan_mac [OF d'(1) assms(5)] by (fastforce simp: macs_known_def)
  moreover have "\<forall>r \<in> set (?rs @ ?ss). wf_json r" using log_records_wf by auto
  ultimately have pre: "j < length ?rs \<and> body_bytes (?ss ! j) = body_bytes (?rs ! j)" if "j < length ?ss" for j
    using forged_prefix [OF d(1) d'(1) _ False] that by blast
  have "length ?ss \<le> length ?rs" using pre by (meson not_le less_irrefl)
  then show ?thesis using pre d(2) d'(2) by (auto intro!: nth_equalityI)
qed simp

lemma keyed_log_is_prefix_witness:
  "clash len_hashes (log_records plain_log (example_dir True) @ log_records plain_log (example_dir True)) \<or>
   (vr_records example_result \<le> vr_records example_result \<and>
    map body_bytes (log_records plain_log (example_dir True)) =
    map body_bytes (take (vr_records example_result) (log_records plain_log (example_dir True))))"
proof -
  have "macs_known len_hashes ''k'' (log_records plain_log (example_dir True)) (log_records plain_log (example_dir True))"
    by (auto simp: macs_known_def)
  moreover have "''k'' \<noteq> []" by simp
  ultimately show ?thesis
    using keyed_log_is_prefix [OF example_verify(1) example_result_ok(1) example_verify(1) example_result_ok(1)]
    by blast
qed

section \<open>What verification alone does not notice\<close>

lemma scan_take: "scan_recs H k rs p = Some h \<Longrightarrow> \<exists>h'. scan_recs H k (take n rs) p = Some h'"
  using scan_recs_append [of H k "take n rs" "drop n rs" p] by (auto split: option.splits)

lemma holds_take: "holds f rs \<Longrightarrow> \<exists>g t. f = g @ t \<and> holds g (take n rs)"
proof -
  assume "holds f rs"
  then obtain ls where ls: "f = file_of ls" "list_all2 carries ls rs" by (auto simp: holds_def)
  have "f = file_of (take n ls) @ file_of (drop n ls)"
    using file_of_append [of "take n ls" "drop n ls"] ls(1) by simp
  moreover have "holds (file_of (take n ls)) (take n rs)"
    using list_all2_takeI [OF ls(2)] by (auto simp: holds_def)
  ultimately show ?thesis by blast
qed

text \<open>
  Cutting whole records off the end of the active file is not noticed by \<^verbatim>\<open>verify\<close>: every log
  that the server wrote, cut after any number of records of the active file, is accepted, with
  that many fewer records and an earlier head. This is why the head is anchored outside.
\<close>

theorem truncation_accepted:
  assumes "chain_inv H L d rss h" and "n \<le> length (last rss)"
  shows "\<exists>f g t v. map_of d (active_name L) = Some f \<and> f = g @ t \<and>
    verify H L (al_hmac_key L) (AList.update (active_name L) g d) = Inr v \<and> vr_ok v \<and>
    vr_records v + n = length (concat rss)"
proof -
  let ?a = "active_name L" and ?k = "al_hmac_key L"
  obtain f where f: "map_of d ?a = Some f" using inv_has_active [OF assms(1)] by blast
  obtain rs ras where rss: "rss = ras @ [rs]" "holds f rs"
      "list_all2 (\<lambda>n rs. \<exists>f. map_of d n = Some f \<and> holds f rs) (rotated_files L d) ras"
      "scan_recs H ?k (concat ras @ rs) GENESIS = Some h"
    by (rule inv_active [OF assms(1) f])
  let ?n = "length rs - n"
  obtain g t where g: "f = g @ t" "holds g (take ?n rs)" using holds_take [OF rss(2)] by blast
  let ?d = "AList.update ?a g d"
  have a: "?a \<in> fst ` set d" using assms(1) by (simp add: chain_inv_def)
  then have keys: "map fst ?d = map fst d" by (simp add: update_keys)
  have old: "list_all2 (\<lambda>n rs. \<exists>f. map_of ?d n = Some f \<and> holds f rs) (rotated_files L d) ras"
    using rss(3) by (rule list.rel_mono_strong) (use active_not_rotated [of L d] in \<open>auto simp: update_conv\<close>)
  have "chain_files L ?d = rotated_files L d @ [?a]"
    using chain_files_active [of L ?d] a keys rotated_files_keys [OF keys] by (metis set_map)
  moreover have "\<exists>f. map_of ?d ?a = Some f \<and> holds f (take ?n rs)" using g(2) by (simp add: update_conv)
  ultimately have dh: "dir_holds L ?d (ras @ [take ?n rs])"
    unfolding dir_holds_def using list_all2_snoc [OF old] by simp
  have "concat ras @ take ?n rs = take (length (concat ras) + ?n) (concat ras @ rs)" by simp
  then obtain h' where "scan_recs H ?k (concat (ras @ [take ?n rs])) GENESIS = Some h'"
    using scan_take [OF rss(4)] by (metis append_Nil2 concat.simps concat_append)
  from verify_ok [OF dh this] show ?thesis
    using f g(1) assms(2) rss(1) by fastforce
qed

lemma truncation_accepted_witness:
  "\<exists>L d rss f g t v. map_of d (active_name L) = Some f \<and> f = g @ t \<and>
    verify sum_hashes L (al_hmac_key L) (AList.update (active_name L) g d) = Inr v \<and> vr_ok v \<and>
    dir_holds L d rss \<and> 2 \<le> length (concat rss) \<and> vr_records v + length (last rss) = length (concat rss)"
proof -
  define L where "L = fst (audit_init ''audit'' ''.jsonl'' ''agent'' ''k'' 600 True 2 [])"
  define d where "d = snd (audit_init ''audit'' ''.jsonl'' ''agent'' ''k'' 600 True 2 [])"
  have inv: "chain_inv sum_hashes L d [[]] GENESIS" unfolding L_def d_def by (rule chain_inv_init)
  have names: "sorted_wrt (<) (map (rotated_name L \<circ> snd) example_calls)"
    using example_calls_ordered rotated_name_less
    by (auto simp: sorted_wrt_map intro: sorted_wrt_mono_rel [rotated])
  have "\<forall>w \<in> snd ` set example_calls. rotates_later L d w"
    by (simp add: rotates_later_def L_def d_def audit_init_def Let_def rotated_files_def active_name_def)
  then obtain d' rss h es where r: "chain_inv sum_hashes L d' rss h"
      "entries (concat rss) = entries (concat [[]]) @ es" "list_all2 logs (map fst example_calls) es"
    using writes_step [OF sum_hashes_hex inv example_calls_good names] by blast
  have "length es = 2" using list_all2_lengthD [OF r(3)] by (simp add: example_calls_def)
  then have "2 \<le> length (concat rss)"
    using r(2) length_filter_le [of "\<lambda>r. \<not> is_marker r" "concat rss"] by (simp add: entries_def)
  moreover have "dir_holds L d' rss" using r(1) by (simp add: chain_inv_def)
  ultimately show ?thesis
    using truncation_accepted [OF r(1) order_refl]
    by (elim exE conjE) (rule exI [of _ L], rule exI [of _ d'], rule exI [of _ rss], blast)
qed

end
