(* ===== verification/Forwarder.thy ===== *)
theory Forwarder
  imports Audit_Log
begin

text \<open>
  The forwarder of audit.py: a spool directory with one file per record, named by a clock and
  a unique suffix, the synchronous \<^verbatim>\<open>flush_once\<close>, and one turn of the sender thread with its
  backoff. The HTTP client is an argument: the status of the response, or \<open>None\<close> when it raises.
  The spool is shown to be a queue: what was sent followed by what is in the spool is what was
  enqueued, in that order.
\<close>

section \<open>The spool\<close>

definition spool_name :: "nat \<Rightarrow> string \<Rightarrow> string" where
  "spool_name ns uuid = pad0 20 ns @ ''-'' @ uuid @ ''.json''"

definition is_json_file :: "string \<Rightarrow> bool" where
  "is_json_file n \<longleftrightarrow> Sublist.suffix ''.json'' n"

text \<open>\<^verbatim>\<open>sorted(self.spool_dir.glob("*.json"))\<close>\<close>

definition spool_files :: "dir \<Rightarrow> string list" where
  "spool_files d = sort (filter is_json_file (map fst d))"

text \<open>\<^verbatim>\<open>enqueue\<close> writes a temporary file and then publishes it under its name.\<close>

definition tmp_name :: "string \<Rightarrow> string" where
  "tmp_name n = ''.'' @ n @ ''.tmp''"

definition enqueue_tmp :: "nat \<Rightarrow> string \<Rightarrow> json \<Rightarrow> dir \<Rightarrow> dir" where
  "enqueue_tmp ns uuid rec d = AList.update (tmp_name (spool_name ns uuid)) (canonical rec) d"

definition replace_file :: "string \<Rightarrow> string \<Rightarrow> dir \<Rightarrow> dir res" where
  "replace_file src dst d =
     (case map_of d src of None \<Rightarrow> Inl OSError
      | Some f \<Rightarrow> Inr (AList.update dst f (AList.delete src d)))"

definition enqueue :: "nat \<Rightarrow> string \<Rightarrow> json \<Rightarrow> dir \<Rightarrow> dir res" where
  "enqueue ns uuid rec d =
     replace_file (tmp_name (spool_name ns uuid)) (spool_name ns uuid) (enqueue_tmp ns uuid rec d)"

definition pending :: "dir \<Rightarrow> nat" where
  "pending d = length (filter is_json_file (map fst d))"

text \<open>
  \<^verbatim>\<open>_send\<close>: the file is read and posted, and removed when the status is a success. The
  headers carry the bearer token when one is set.
\<close>

definition send_headers :: "string \<Rightarrow> (string \<times> string) list" where
  "send_headers token =
     (''Content-Type'', ''application/json'') #
     (if token \<noteq> [] then [(''Authorization'', ''Bearer '' @ token)] else [])"

definition success :: "int option \<Rightarrow> bool" where
  "success r = (case r of None \<Rightarrow> False | Some st \<Rightarrow> 200 \<le> st \<and> st < 300)"

definition send :: "((string \<times> string) list \<Rightarrow> string \<Rightarrow> int option) \<Rightarrow> string \<Rightarrow> string \<Rightarrow> dir \<Rightarrow> (dir \<times> bool) res" where
  "send post token n d =
     (case map_of d n of None \<Rightarrow> Inl OSError
      | Some body \<Rightarrow>
          if success (post (send_headers token) body) then Inr (AList.delete n d, True) else Inr (d, False))"

text \<open>\<^verbatim>\<open>flush_once\<close>: the files in order until one is not delivered.\<close>

fun flush_files ::
    "((string \<times> string) list \<Rightarrow> string \<Rightarrow> int option) \<Rightarrow> string \<Rightarrow> string list \<Rightarrow> nat \<Rightarrow> dir \<Rightarrow> (dir \<times> nat) res" where
  "flush_files post token [] sent d = Inr (d, sent)"
| "flush_files post token (n # ns) sent d =
     rbind (send post token n d) (\<lambda>(d', ok).
       if ok then flush_files post token ns (sent + 1) d' else Inr (d', sent))"

definition flush_once :: "((string \<times> string) list \<Rightarrow> string \<Rightarrow> int option) \<Rightarrow> string \<Rightarrow> dir \<Rightarrow> (dir \<times> nat) res" where
  "flush_once post token d = flush_files post token (spool_files d) 0 d"

text \<open>
  The sender thread: its flags, its backoff in seconds, and the spool. One turn of \<^verbatim>\<open>_run\<close>
  after the wait; \<open>None\<close> when the loop ends.
\<close>

record sender =
  sd_stop :: bool
  sd_wake :: bool
  sd_backoff :: nat
  sd_spool :: dir

definition sender_init :: "dir \<Rightarrow> sender" where
  "sender_init d = \<lparr>sd_stop = False, sd_wake = False, sd_backoff = 1, sd_spool = d\<rparr>"

definition sender_turn ::
    "((string \<times> string) list \<Rightarrow> string \<Rightarrow> int option) \<Rightarrow> string \<Rightarrow> sender \<Rightarrow> sender option res" where
  "sender_turn post token s =
     (if sd_stop s then Inr None
      else (let s0 = s\<lparr>sd_wake := False\<rparr>
            in case spool_files (sd_spool s) of [] \<Rightarrow> Inr (Some (s0\<lparr>sd_backoff := 1\<rparr>))
               | n # ns \<Rightarrow>
                   rbind (send post token n (sd_spool s)) (\<lambda>(d', ok).
                     Inr (Some (if ok then s0\<lparr>sd_backoff := 1, sd_wake := True, sd_spool := d'\<rparr>
                                else s0\<lparr>sd_backoff := min (sd_backoff s * 2) 60, sd_spool := d'\<rparr>)))))"

definition sender_stop :: "sender \<Rightarrow> sender" where
  "sender_stop s = s\<lparr>sd_stop := True, sd_wake := True\<rparr>"

section \<open>Queues\<close>

text \<open>
  The contract of a queue with an abstraction to lists: putting appends, taking removes the
  front. Whatever sequence of operations runs, what was taken followed by what is held is what
  was held at first followed by what was put.
\<close>

datatype 'e queue_op = Put 'e | Take

fun run_queue ::
    "('e \<Rightarrow> 's \<Rightarrow> 's) \<Rightarrow> ('s \<Rightarrow> 's) \<Rightarrow> ('s \<Rightarrow> 'a list) \<Rightarrow> 'e queue_op list \<Rightarrow> 's \<Rightarrow> 'a list \<Rightarrow> 'a list \<times> 's" where
  "run_queue enq deq items [] s out = (out, s)"
| "run_queue enq deq items (Put e # ops) s out = run_queue enq deq items ops (enq e s) out"
| "run_queue enq deq items (Take # ops) s out =
     (if items s = [] then run_queue enq deq items ops s out
      else run_queue enq deq items ops (deq s) (out @ [hd (items s)]))"

fun puts :: "'e queue_op list \<Rightarrow> 'e list" where
  "puts [] = []"
| "puts (Put e # ops) = e # puts ops"
| "puts (Take # ops) = puts ops"

text \<open>Each operation is allowed in the state in which it runs.\<close>

fun allowed ::
    "('e \<Rightarrow> 's \<Rightarrow> bool) \<Rightarrow> ('e \<Rightarrow> 's \<Rightarrow> 's) \<Rightarrow> ('s \<Rightarrow> 's) \<Rightarrow> ('s \<Rightarrow> 'a list) \<Rightarrow> 'e queue_op list \<Rightarrow> 's \<Rightarrow> bool" where
  "allowed ok enq deq items [] s = True"
| "allowed ok enq deq items (Put e # ops) s = (ok e s \<and> allowed ok enq deq items ops (enq e s))"
| "allowed ok enq deq items (Take # ops) s =
     allowed ok enq deq items ops (if items s = [] then s else deq s)"

locale fifo =
  fixes inv :: "'s \<Rightarrow> bool" and items :: "'s \<Rightarrow> 'a list" and ok :: "'e \<Rightarrow> 's \<Rightarrow> bool"
    and val :: "'e \<Rightarrow> 'a" and enq :: "'e \<Rightarrow> 's \<Rightarrow> 's" and deq :: "'s \<Rightarrow> 's"
  assumes inv_enq: "inv s \<Longrightarrow> ok e s \<Longrightarrow> inv (enq e s)"
    and items_enq: "inv s \<Longrightarrow> ok e s \<Longrightarrow> items (enq e s) = items s @ [val e]"
    and inv_deq: "inv s \<Longrightarrow> items s \<noteq> [] \<Longrightarrow> inv (deq s)"
    and items_deq: "inv s \<Longrightarrow> items s \<noteq> [] \<Longrightarrow> items (deq s) = tl (items s)"
begin

lemma run_in_order:
  "inv s \<Longrightarrow> allowed ok enq deq items ops s \<Longrightarrow> run_queue enq deq items ops s out = (out', s') \<Longrightarrow>
   inv s' \<and> out' @ items s' = out @ items s @ map val (puts ops)"
proof (induction ops arbitrary: s out)
  case (Cons op ops)
  show ?case
  proof (cases op)
    case (Put e)
    then show ?thesis
      using Cons.IH [of "enq e s" out] Cons.prems inv_enq [of s e] items_enq [of s e] by simp
  next
    case Take
    show ?thesis
    proof (cases "items s = []")
      case True
      then show ?thesis using Cons Take by simp
    next
      case False
      then show ?thesis
        using Cons.IH [of "deq s" "out @ [hd (items s)]"] Cons.prems Take inv_deq items_deq by simp
    qed
  qed
qed simp

end

section \<open>The spool is a queue\<close>

type_synonym item = "nat \<times> string \<times> json"

definition spool_inv :: "dir \<Rightarrow> bool" where
  "spool_inv d \<longleftrightarrow> distinct (map fst d)"

definition spool_items :: "dir \<Rightarrow> string list" where
  "spool_items d = map (\<lambda>n. case map_of d n of None \<Rightarrow> [] | Some f \<Rightarrow> f) (spool_files d)"

text \<open>The clock of a new file is later than those of the files in the spool.\<close>

definition spool_ok :: "item \<Rightarrow> dir \<Rightarrow> bool" where
  "spool_ok e d = (case e of (ns, uuid, rec) \<Rightarrow> \<forall>n \<in> set (spool_files d). n < spool_name ns uuid)"

definition spool_put :: "item \<Rightarrow> dir \<Rightarrow> dir" where
  "spool_put e d = (case e of (ns, uuid, rec) \<Rightarrow> case enqueue ns uuid rec d of Inl _ \<Rightarrow> d | Inr d' \<Rightarrow> d')"

definition spool_val :: "item \<Rightarrow> string" where
  "spool_val e = (case e of (ns, uuid, rec) \<Rightarrow> canonical rec)"

definition spool_take :: "dir \<Rightarrow> dir" where
  "spool_take d = (case spool_files d of [] \<Rightarrow> d | n # ns \<Rightarrow> AList.delete n d)"

lemma spool_name_json: "is_json_file (spool_name ns uuid)"
  by (simp add: spool_name_def is_json_file_def Sublist.suffix_def)

lemma tmp_not_json: "\<not> is_json_file (tmp_name n)"
proof
  assume "is_json_file (tmp_name n)"
  then obtain z where "CHR ''.'' # n @ ''.tmp'' = z @ ''.json''"
    by (auto simp: is_json_file_def tmp_name_def Sublist.suffix_def)
  then have "last (CHR ''.'' # n @ ''.tmp'') = last (z @ ''.json'')" by (rule arg_cong)
  then show False by simp
qed

lemma set_spool_files: "n \<in> set (spool_files d) \<longleftrightarrow> n \<in> fst ` set d \<and> is_json_file n"
  by (auto simp: spool_files_def)

lemma spool_files_sorted: "spool_inv d \<Longrightarrow> sorted (spool_files d) \<and> distinct (spool_files d)"
  by (simp add: spool_files_def spool_inv_def)

lemma spool_files_unique:
  assumes "spool_inv d" "sorted ns" "distinct ns" "set ns = set (spool_files d)"
  shows "spool_files d = ns"
  by (rule sorted_distinct_set_unique) (use assms spool_files_sorted in auto)

lemma enqueue_eq:
  "enqueue ns uuid rec d = Inr (AList.update (spool_name ns uuid) (canonical rec)
     (AList.delete (tmp_name (spool_name ns uuid))
       (AList.update (tmp_name (spool_name ns uuid)) (canonical rec) d)))"
  by (simp add: enqueue_def replace_file_def enqueue_tmp_def update_conv)

lemma spool_put_facts:
  assumes "spool_inv d" "spool_ok e d"
  shows "spool_inv (spool_put e d)" "spool_items (spool_put e d) = spool_items d @ [spool_val e]"
    "spool_files (spool_put e d) = spool_files d @ [spool_name (fst e) (fst (snd e))]"
proof -
  obtain ns uuid rec where e: "e = (ns, uuid, rec)" by (cases e)
  let ?n = "spool_name ns uuid" and ?c = "canonical rec"
  let ?d = "AList.update ?n ?c (AList.delete (tmp_name ?n) (AList.update (tmp_name ?n) ?c d))"
  have put: "spool_put e d = ?d" by (simp add: spool_put_def e enqueue_eq)
  have ord: "\<forall>m \<in> set (spool_files d). m < ?n" using assms(2) by (simp add: spool_ok_def e)
  have ne: "tmp_name ?n \<noteq> ?n" using tmp_not_json spool_name_json by metis
  show inv: "spool_inv (spool_put e d)"
    using assms(1) by (simp add: put spool_inv_def distinct_update distinct_keys_delete)
  have "set (spool_files d @ [?n]) = set (spool_files ?d)"
    using spool_name_json [of ns uuid] tmp_not_json [of ?n]
    by (auto simp: set_spool_files keys_update keys_delete)
  moreover have "sorted (spool_files d @ [?n])" "distinct (spool_files d @ [?n])"
    using spool_files_sorted [OF assms(1)] ord by (auto simp: sorted_append less_imp_le)
  ultimately have files: "spool_files (spool_put e d) = spool_files d @ [?n]"
    using spool_files_unique [OF inv] put by simp
  then show "spool_files (spool_put e d) = spool_files d @ [spool_name (fst e) (fst (snd e))]" by (simp add: e)
  have old: "map_of ?d m = map_of d m" if "m \<in> set (spool_files d)" for m
  proof -
    have "m \<noteq> ?n" using that ord by auto
    moreover have "m \<noteq> tmp_name ?n" using that tmp_not_json unfolding set_spool_files by metis
    ultimately have "m \<noteq> ?n" "m \<noteq> tmp_name ?n" by simp_all
    then show ?thesis by (simp add: update_conv delete_conv)
  qed
  have "map_of ?d ?n = Some ?c" by (simp add: update_conv)
  then show "spool_items (spool_put e d) = spool_items d @ [spool_val e]"
    unfolding spool_items_def files unfolding put using old by (simp add: spool_val_def e)
qed

lemma spool_take_facts:
  assumes "spool_inv d" "spool_items d \<noteq> []"
  shows "spool_inv (spool_take d)" "spool_items (spool_take d) = tl (spool_items d)"
    "spool_files (spool_take d) = tl (spool_files d)"
proof -
  obtain n ns where n: "spool_files d = n # ns" using assms(2) by (cases "spool_files d") (auto simp: spool_items_def)
  then have take: "spool_take d = AList.delete n d" by (simp add: spool_take_def)
  show inv: "spool_inv (spool_take d)"
    using assms(1) by (simp add: take spool_inv_def distinct_keys_delete)
  have srt: "sorted (n # ns)" "distinct (n # ns)" using spool_files_sorted [OF assms(1)] n by simp_all
  have "set ns = set (spool_files d) - {n}" using srt n by auto
  also have "\<dots> = set (spool_files (AList.delete n d))"
    by (auto simp: set_spool_files keys_delete)
  finally have "set ns = set (spool_files (AList.delete n d))" .
  then have files: "spool_files (spool_take d) = ns"
    using spool_files_unique [OF inv] srt take by simp
  then show "spool_files (spool_take d) = tl (spool_files d)" using n by simp
  have "map_of (AList.delete n d) m = map_of d m" if "m \<in> set ns" for m
    using that srt(2) by (auto simp: delete_conv)
  then show "spool_items (spool_take d) = tl (spool_items d)"
    unfolding spool_items_def files unfolding take n by simp
qed

interpretation spool: fifo spool_inv spool_items spool_ok spool_val spool_put spool_take
  by unfold_locales (simp_all add: spool_put_facts spool_take_facts)

section \<open>Runs of the forwarder\<close>

text \<open>
  Records are enqueued by the server while the sender thread takes turns; the status that the
  sink answers, or an exception, is part of the turn.
\<close>

datatype fwd_event = Enq item | Turn "int option"

fun fwd_step :: "string \<Rightarrow> fwd_event \<Rightarrow> sender \<times> string list \<Rightarrow> (sender \<times> string list) res" where
  "fwd_step token (Enq (ns, uuid, rec)) (s, out) =
     rbind (enqueue ns uuid rec (sd_spool s)) (\<lambda>d. Inr (s\<lparr>sd_spool := d, sd_wake := True\<rparr>, out))"
| "fwd_step token (Turn r) (s, out) =
     rbind (sender_turn (\<lambda>_ _. r) token s) (\<lambda>s'.
       Inr (case s' of None \<Rightarrow> s | Some t \<Rightarrow> t,
         out @ (if success r \<and> \<not> sd_stop s then List.take 1 (spool_items (sd_spool s)) else [])))"

fun fwd_run :: "string \<Rightarrow> fwd_event list \<Rightarrow> sender \<times> string list \<Rightarrow> (sender \<times> string list) res" where
  "fwd_run token [] st = Inr st"
| "fwd_run token (e # es) st = rbind (fwd_step token e st) (fwd_run token es)"

fun enqueued :: "fwd_event list \<Rightarrow> item list" where
  "enqueued [] = []"
| "enqueued (Enq e # es) = e # enqueued es"
| "enqueued (Turn r # es) = enqueued es"

fun queue_ops :: "bool \<Rightarrow> fwd_event list \<Rightarrow> item queue_op list" where
  "queue_ops stopped [] = []"
| "queue_ops stopped (Enq e # es) = Put e # queue_ops stopped es"
| "queue_ops stopped (Turn r # es) = (if success r \<and> \<not> stopped then [Take] else []) @ queue_ops stopped es"

lemma puts_ops: "puts (queue_ops b es) = enqueued es"
  by (induction b es rule: queue_ops.induct) auto

text \<open>The clocks of the records come in order, and print in twenty digits.\<close>

definition item_before :: "item \<Rightarrow> item \<Rightarrow> bool" where
  "item_before a b \<longleftrightarrow> fst a < fst b \<and> fst b < 10 ^ 20"

lemma spool_name_less:
  assumes "t < u" "u < 10 ^ 20"
  shows "spool_name t x < spool_name u y"
proof -
  have "length (pad0 20 t) = length (pad0 20 u)" "pad0 20 t < pad0 20 u"
    using assms by (simp_all add: length_pad0 pad0_less_iff del: One_nat_def)
  then show ?thesis by (simp add: spool_name_def append_less_iff)
qed

lemma spool_files_items: "spool_files d = [] \<longleftrightarrow> spool_items d = []"
  by (simp add: spool_items_def)

lemma sender_turn_eq:
  assumes "spool_inv (sd_spool s)"
  shows "\<exists>t. sender_turn (\<lambda>_ _. r) token s = Inr t \<and>
    (case t of None \<Rightarrow> sd_stop s | Some s' \<Rightarrow> \<not> sd_stop s \<and> \<not> sd_stop s' \<and>
      sd_spool s' = (if success r then spool_take (sd_spool s) else sd_spool s))"
proof (cases "sd_stop s \<or> spool_files (sd_spool s) = []")
  case True
  then show ?thesis by (auto simp: sender_turn_def spool_take_def)
next
  case False
  then obtain n ns where n: "\<not> sd_stop s" "spool_files (sd_spool s) = n # ns"
    by (cases "spool_files (sd_spool s)") auto
  then have "n \<in> set (spool_files (sd_spool s))" by simp
  then have "n \<in> fst ` set (sd_spool s)" unfolding set_spool_files by blast
  then obtain f where "map_of (sd_spool s) n = Some f" by (metis map_of_eq_None_iff option.exhaust)
  then show ?thesis using n by (simp add: sender_turn_def send_def spool_take_def)
qed

text \<open>A run of the code is a run of the queue: each step is the operation of the event.\<close>

lemma fwd_run_queue:
  "spool_inv (sd_spool s) \<Longrightarrow>
   allowed spool_ok spool_put spool_take spool_items (queue_ops (sd_stop s) es) (sd_spool s) \<Longrightarrow>
   \<exists>s' out'. fwd_run token es (s, out) = Inr (s', out') \<and>
     run_queue spool_put spool_take spool_items (queue_ops (sd_stop s) es) (sd_spool s) out = (out', sd_spool s')"
proof (induction es arbitrary: s out)
  case (Cons e es)
  show ?case
  proof (cases e)
    case (Enq i)
    obtain ns uuid rec where i: "i = (ns, uuid, rec)" by (cases i)
    let ?s = "s\<lparr>sd_spool := spool_put i (sd_spool s), sd_wake := True\<rparr>"
    have "fwd_step token e (s, out) = Inr (?s, out)"
      by (simp add: Enq i enqueue_eq spool_put_def)
    then show ?thesis
      using Cons.IH [of ?s out] Cons.prems Enq spool.inv_enq [of "sd_spool s" i] by simp
  next
    case (Turn r)
    obtain t where t: "sender_turn (\<lambda>_ _. r) token s = Inr t"
      "(case t of None \<Rightarrow> sd_stop s | Some s' \<Rightarrow> \<not> sd_stop s \<and> \<not> sd_stop s' \<and>
        sd_spool s' = (if success r then spool_take (sd_spool s) else sd_spool s))"
      using sender_turn_eq [OF Cons.prems(1)] by blast
    show ?thesis
    proof (cases "success r \<and> \<not> sd_stop s \<and> spool_items (sd_spool s) \<noteq> []")
      case True
      then obtain s' where s': "t = Some s'" "sd_spool s' = spool_take (sd_spool s)" "\<not> sd_stop s'"
        using t(2) by (cases t) auto
      then show ?thesis
        using Cons.IH [of s' "out @ [hd (spool_items (sd_spool s))]"] Cons.prems t(1) Turn True
          spool.inv_deq [of "sd_spool s"] by (simp add: take_Suc)
    next
      case False
      then have same: "spool_take (sd_spool s) = sd_spool s" if "success r" "\<not> sd_stop s"
        using that by (simp add: spool_take_def spool_files_items [symmetric])
      show ?thesis
      proof (cases t)
        case None
        then show ?thesis using Cons.IH [of s out] Cons.prems t Turn by simp
      next
        case (Some s')
        then have s': "\<not> sd_stop s" "\<not> sd_stop s'" "sd_spool s' = sd_spool s"
          using t(2) same by auto
        then show ?thesis using Cons.IH [of s' out] Cons.prems t(1) Turn False Some by (auto split: if_splits)
      qed
    qed
  qed
qed simp

lemma allowed_by_clock:
  "spool_inv d \<Longrightarrow> \<forall>e \<in> set (enqueued es). spool_ok e d \<Longrightarrow> sorted_wrt item_before (enqueued es) \<Longrightarrow>
   allowed spool_ok spool_put spool_take spool_items (queue_ops b es) d"
proof (induction es arbitrary: d)
  case (Cons ev es)
  show ?case
  proof (cases ev)
    case (Enq e)
    have ok: "spool_ok e d" using Cons.prems(2) Enq by simp
    have "\<forall>e' \<in> set (enqueued es). spool_ok e' (spool_put e d)"
    proof
      fix e' assume e': "e' \<in> set (enqueued es)"
      then have "item_before e e'" "spool_ok e' d" using Cons.prems(2,3) Enq by simp_all
      then show "spool_ok e' (spool_put e d)"
        using spool_put_facts(3) [OF Cons.prems(1) ok] spool_name_less [of "fst e" "fst e'"]
        by (auto simp: spool_ok_def item_before_def)
    qed
    then show ?thesis
      using Cons.IH [of "spool_put e d"] Cons.prems Enq ok spool.inv_enq [of d e] by simp
  next
    case (Turn r)
    show ?thesis
    proof (cases "spool_items d = []")
      case True
      then show ?thesis using Cons Turn by (cases b) simp_all
    next
      case False
      have "\<forall>e \<in> set (enqueued es). spool_ok e (spool_take d)"
        using spool_take_facts(3) [OF Cons.prems(1) False] Cons.prems(2) Turn
        by (cases "spool_files d") (auto simp: spool_ok_def)
      then show ?thesis
        using Cons.IH [of "spool_take d"] Cons.IH [of d] Cons.prems Turn False spool.inv_deq [of d] by (cases b) simp_all
    qed
  qed
qed simp



section \<open>Flushing, draining and the backoff\<close>

lemma pending_files: "pending d = length (spool_files d)"
  by (simp add: pending_def spool_files_def)

lemma flush_all:
  assumes "\<forall>h b. success (post h b)"
  shows "distinct ns \<Longrightarrow> set ns \<subseteq> fst ` set d \<Longrightarrow>
    \<exists>d'. flush_files post token ns k d = Inr (d', k + length ns) \<and> fst ` set d' = fst ` set d - set ns"
proof (induction ns arbitrary: k d)
  case (Cons n ns)
  have "\<exists>f. map_of d n = Some f" using Cons.prems(2) by (metis list.set_intros(1) map_of_eq_None_iff option.exhaust subsetD)
  then have snd: "send post token n d = Inr (AList.delete n d, True)" using assms by (auto simp: send_def)
  have "set ns \<subseteq> fst ` set (AList.delete n d)" using Cons.prems by (auto simp: keys_delete)
  then obtain d' where "flush_files post token ns (k + 1) (AList.delete n d) = Inr (d', k + 1 + length ns)"
      "fst ` set d' = fst ` set (AList.delete n d) - set ns"
    using Cons.IH [of "AList.delete n d" "k + 1"] Cons.prems(1) by auto
  then show ?case using snd by (auto simp: keys_delete)
qed simp

text \<open>
  When the sink accepts, \<^verbatim>\<open>flush_once\<close> delivers every pending record: it returns the number
  of records that \<^verbatim>\<open>pending\<close> counted and leaves an empty queue, without raising.
\<close>

theorem flush_delivers_all:
  assumes "spool_inv d" and "\<And>headers body. success (post headers body)"
  shows "\<exists>d'. flush_once post token d = Inr (d', pending d) \<and> pending d' = 0"
proof -
  have sub: "set (spool_files d) \<subseteq> fst ` set d" by (auto simp: set_spool_files)
  obtain d' where d': "flush_files post token (spool_files d) 0 d = Inr (d', 0 + length (spool_files d))"
      "fst ` set d' = fst ` set d - set (spool_files d)"
    using flush_all [of post "spool_files d" d token 0] assms spool_files_sorted sub by blast
  have none: "\<not> is_json_file n" if "n \<in> set (map fst d')" for n
    using that d'(2) set_spool_files [of n d] by auto
  have "filter is_json_file (map fst d') = []" unfolding filter_empty_conv using none by blast
  then have "pending d' = 0" unfolding pending_def by (simp only: list.size)
  then show ?thesis using d'(1) by (simp add: flush_once_def pending_def spool_files_def)
qed

lemma flush_delivers_all_witness:
  "\<exists>d'. flush_once (\<lambda>h b. Some 202) ''t'' [(''1.json'', ''x''), (''0.json'', ''y''), (''z'', [])] =
      Inr (d', pending [(''1.json'', ''x''), (''0.json'', ''y''), (''z'', [])]) \<and> pending d' = 0"
proof -
  have inv: "spool_inv [(''1.json'', ''x''), (''0.json'', ''y''), (''z'', [])]" by (simp add: spool_inv_def)
  have ok: "\<And>h b. success ((\<lambda>h b. Some 202) (h :: (string \<times> string) list) (b :: string))" by (simp add: success_def)
  show ?thesis using flush_delivers_all [OF inv, of "\<lambda>h b. Some 202", OF ok] by blast
qed

text \<open>
  While the sink fails, with an error status or an exception, the sender keeps the spool as
  it is, and after \<open>n\<close> failed turns it waits \<open>2 ^ n\<close> seconds, at most sixty: the backoff is
  exponential and bounded, and no record is dropped.
\<close>

theorem backoff_bounded:
  assumes "spool_inv d" and "pending d \<noteq> 0" and "\<not> success r"
  shows "\<exists>s. fwd_run token (replicate n (Turn r)) (sender_init d, []) = Inr (s, []) \<and>
    sd_backoff s = min (2 ^ n) 60 \<and> sd_spool s = d"
proof -
  obtain m ms where m: "spool_files d = m # ms"
    using assms(2) by (cases "spool_files d") (simp_all add: pending_files)
  have "m \<in> set (spool_files d)" using m by simp
  then have "m \<in> fst ` set d" unfolding set_spool_files by blast
  then obtain f where f: "map_of d m = Some f" by (metis map_of_eq_None_iff option.exhaust)
  have turn: "sender_turn (\<lambda>_ _. r) token s =
      Inr (Some (s\<lparr>sd_wake := False, sd_backoff := min (sd_backoff s * 2) 60, sd_spool := d\<rparr>))"
    if "\<not> sd_stop s" "sd_spool s = d" for s
    using that m f assms(3) by (simp add: sender_turn_def send_def Let_def)
  have "\<exists>s'. fwd_run token (replicate n (Turn r)) (s, out) = Inr (s', out) \<and>
      sd_backoff s' = min (2 ^ n * sd_backoff s) 60 \<and> sd_spool s' = d"
    if "\<not> sd_stop s" "sd_spool s = d" "sd_backoff s \<le> 60" for s out
    using that
  proof (induction n arbitrary: s)
    case (Suc n)
    let ?s = "s\<lparr>sd_wake := False, sd_backoff := min (sd_backoff s * 2) 60, sd_spool := d\<rparr>"
    obtain s' where s': "fwd_run token (replicate n (Turn r)) (?s, out) = Inr (s', out)"
        "sd_backoff s' = min (2 ^ n * sd_backoff ?s) 60" "sd_spool s' = d"
      using Suc.IH [of ?s] Suc.prems by auto
    have "min (2 ^ n * min x 60) 60 = min (2 ^ n * x) 60" for x :: nat
    proof (cases "x \<le> 60")
      case False
      have "1 * 61 \<le> (2 :: nat) ^ n * x" by (rule mult_le_mono) (use False in simp_all)
      then show ?thesis using False by simp
    qed simp
    then have "min (2 ^ n * min (sd_backoff s * 2) 60) 60 = min (2 ^ Suc n * sd_backoff s) 60"
      by (simp add: ac_simps)
    then show ?case using s' turn [OF Suc.prems(1,2)] assms(3) by simp
  qed simp
  from this [of "sender_init d" "[]"] show ?thesis by (simp add: sender_init_def)
qed

lemma backoff_bounded_witness:
  "\<exists>s. fwd_run ''t'' (replicate 7 (Turn (Some 503))) (sender_init [(''0.json'', ''y'')], []) = Inr (s, []) \<and>
     sd_backoff s = 60 \<and> sd_spool s = [(''0.json'', ''y'')]"
proof -
  have "is_json_file ''0.json''" unfolding is_json_file_def by (rule suffixI [of _ "''0''"]) simp
  then have "spool_inv [(''0.json'', ''y'')]" "pending [(''0.json'', ''y'')] \<noteq> 0" "\<not> success (Some 503)"
    by (simp_all add: spool_inv_def pending_def success_def)
  from backoff_bounded [OF this, of "''t''" 7] show ?thesis by simp
qed

end
