(* ===== verification/Models.thy ===== *)
theory Models
  imports Json Iso_Dates
begin

text \<open>
  The typed contracts of models.py: the enumerations with the strings that stand for them, the
  records of the systems of record, the drafts, and the results of the tools. A field that has
  a default in the source is an ordinary field here; the defaults are the \<open>default_\<dots>\<close> values.
  Calendar dates are strings of the shape \<open>YYYY-MM-DD\<close>, as in the source.
\<close>

named_theorems model_simps \<open>the enumerations and their strings\<close>

section \<open>Identity\<close>

datatype identity_source = FromHeader | FromParameter

fun identity_source_str :: "identity_source \<Rightarrow> string" where
  "identity_source_str FromHeader = ''header''"
| "identity_source_str FromParameter = ''parameter''"

record caller_identity =
  ci_requester :: string
  ci_source :: identity_source
  ci_session_id :: string

datatype account_kind = Person | Service

record user =
  u_id :: string
  u_upn :: string
  u_name :: string
  u_groups :: "string list"
  u_active :: bool
  u_kind :: account_kind

definition default_user :: "string \<Rightarrow> string \<Rightarrow> string \<Rightarrow> user" where
  "default_user i upn name = \<lparr>u_id = i, u_upn = upn, u_name = name, u_groups = [], u_active = True, u_kind = Person\<rparr>"

section \<open>Systems of record\<close>

datatype policy_status = PolicyApproved | PolicyDraft | PolicyRetired

fun policy_status_str :: "policy_status \<Rightarrow> string" where
  "policy_status_str PolicyApproved = ''approved''"
| "policy_status_str PolicyDraft = ''draft''"
| "policy_status_str PolicyRetired = ''retired''"

definition policy_status_of :: "string \<Rightarrow> policy_status res" where
  "policy_status_of s =
     (if s = ''approved'' then Inr PolicyApproved else if s = ''draft'' then Inr PolicyDraft
      else if s = ''retired'' then Inr PolicyRetired else Inl (ValueError s))"

record policy_section =
  sec_heading :: string
  sec_text :: string

record policy =
  p_id :: string
  p_version :: string
  p_effective :: string
  p_status :: policy_status
  p_title :: string
  p_owner :: string
  p_regulations :: "string list"
  p_controls :: "string list"
  p_source :: string
  p_sha256 :: string
  p_sections :: "policy_section list"

text \<open>The pattern of \<open>IsoDate\<close> and the validator \<^verbatim>\<open>_real_date\<close>.\<close>

definition real_date :: "string \<Rightarrow> string res" where
  "real_date v = (if iso_pattern v then (case parse_iso_date v of Inl _ \<Rightarrow> Inl ValidationError | Inr _ \<Rightarrow> Inr v)
                  else Inl ValidationError)"

definition make_policy :: "policy \<Rightarrow> policy res" where
  "make_policy p = rbind (real_date (p_effective p)) (\<lambda>_. Inr p)"

record policy_hit =
  h_policy_id :: string
  h_version :: string
  h_effective :: string
  h_title :: string
  h_heading :: string
  h_text :: string
  h_citation :: string

record policy_summary =
  ps_id :: string
  ps_version :: string
  ps_effective :: string
  ps_title :: string
  ps_owner :: string
  ps_regulations :: "string list"
  ps_controls :: "string list"

datatype frequency = Monthly | Quarterly | Annual | NoFrequency

fun frequency_str :: "frequency \<Rightarrow> string" where
  "frequency_str Monthly = ''monthly''"
| "frequency_str Quarterly = ''quarterly''"
| "frequency_str Annual = ''annual''"
| "frequency_str NoFrequency = []"

record control =
  c_id :: string
  c_name :: string
  c_description :: string
  c_owner :: string
  c_frequency :: frequency
  c_policies :: "string list"
  c_regulations :: "string list"
  c_evidence :: "string list"

datatype test_outcome = Pass | Fail | Partial | NotTested

fun test_outcome_str :: "test_outcome \<Rightarrow> string" where
  "test_outcome_str Pass = ''pass''"
| "test_outcome_str Fail = ''fail''"
| "test_outcome_str Partial = ''partial''"
| "test_outcome_str NotTested = ''not-tested''"

record test_result =
  t_id :: string
  t_control_id :: string
  t_tested_on :: string
  t_tester :: string
  t_result :: test_outcome
  t_notes :: string

datatype ticket_type = Change | Incident | Task

fun ticket_type_str :: "ticket_type \<Rightarrow> string" where
  "ticket_type_str Change = ''change''"
| "ticket_type_str Incident = ''incident''"
| "ticket_type_str Task = ''task''"

record ticket =
  k_id :: string
  k_created :: string
  k_status :: string
  k_type :: ticket_type
  k_title :: string
  k_summary :: string
  k_controls :: "string list"
  k_policies :: "string list"

record release =
  r_id :: string
  r_source :: string
  r_published :: string
  r_title :: string
  r_url :: string
  r_text :: string

record release_summary =
  rs_id :: string
  rs_source :: string
  rs_published :: string
  rs_title :: string
  rs_url :: string

datatype attestation_status = Open | Complete | Overdue

record attestation =
  a_id :: string
  a_type :: string
  a_owner :: string
  a_manager :: string
  a_due :: string
  a_status :: attestation_status

record attestation_due = attestation +
  a_days_remaining :: int

section \<open>Drafts\<close>

datatype draft_kind = PolicyMapping | EvidencePackIndex | ControlFindingNote | AttestationEscalation

fun draft_kind_str :: "draft_kind \<Rightarrow> string" where
  "draft_kind_str PolicyMapping = ''policy_mapping''"
| "draft_kind_str EvidencePackIndex = ''evidence_pack_index''"
| "draft_kind_str ControlFindingNote = ''control_finding_note''"
| "draft_kind_str AttestationEscalation = ''attestation_escalation''"

definition draft_kind_of :: "string \<Rightarrow> draft_kind res" where
  "draft_kind_of s =
     (if s = ''policy_mapping'' then Inr PolicyMapping else if s = ''evidence_pack_index'' then Inr EvidencePackIndex
      else if s = ''control_finding_note'' then Inr ControlFindingNote
      else if s = ''attestation_escalation'' then Inr AttestationEscalation else Inl (ValueError s))"

datatype draft_status = Pending | Approved | Rejected

fun draft_status_str :: "draft_status \<Rightarrow> string" where
  "draft_status_str Pending = ''pending''"
| "draft_status_str Approved = ''approved''"
| "draft_status_str Rejected = ''rejected''"

definition draft_status_of :: "string \<Rightarrow> draft_status res" where
  "draft_status_of s =
     (if s = ''pending'' then Inr Pending else if s = ''approved'' then Inr Approved
      else if s = ''rejected'' then Inr Rejected else Inl (ValueError s))"

lemma enum_round_trips [model_simps]:
  "policy_status_of (policy_status_str p) = Inr p"
  "draft_kind_of (draft_kind_str k) = Inr k"
  "draft_status_of (draft_status_str s) = Inr s"
  subgoal by (cases p) (simp_all add: policy_status_of_def)
  subgoal by (cases k) (simp_all add: draft_kind_of_def)
  subgoal by (cases s) (simp_all add: draft_status_of_def)
  done

lemma draft_status_inj [model_simps]: "draft_status_str a = draft_status_str b \<longleftrightarrow> a = b"
  by (metis enum_round_trips(3) sum.inject(2))

record decision =
  de_by :: string
  de_note :: string
  de_at :: string

record draft =
  d_draft_id :: string
  d_kind :: draft_kind
  d_title :: string
  d_body :: string
  d_requester :: string
  d_session_id :: string
  d_related_ids :: "string list"
  d_created :: string
  d_status :: draft_status
  d_content_sha256 :: string
  d_decision :: "decision option"

record draft_summary =
  ds_draft_id :: string
  ds_kind :: draft_kind
  ds_title :: string
  ds_requester :: string
  ds_created :: string
  ds_status :: draft_status
  ds_decision :: "decision option"

section \<open>Results of the tools\<close>

datatype error_code =
  AccessDeniedCode | RateLimitedCode | InvalidInputCode | DraftRejectedCode | NotFoundCode | InternalErrorCode

fun error_code_str :: "error_code \<Rightarrow> string" where
  "error_code_str AccessDeniedCode = ''access_denied''"
| "error_code_str RateLimitedCode = ''rate_limited''"
| "error_code_str InvalidInputCode = ''invalid_input''"
| "error_code_str DraftRejectedCode = ''draft_rejected''"
| "error_code_str NotFoundCode = ''not_found''"
| "error_code_str InternalErrorCode = ''internal_error''"

record tool_error =
  te_error :: error_code
  te_detail :: string

record policy_version_ref =
  pv_id :: string
  pv_version :: string
  pv_effective :: string
  pv_title :: string
  pv_source :: string
  pv_sha256 :: string

record evidence_manifest =
  em_control :: control
  em_start :: string
  em_end :: string
  em_policy_versions :: "policy_version_ref list"
  em_test_results :: "test_result list"
  em_change_tickets :: "ticket list"
  em_gaps :: "string list"
  em_sha256 :: string

definition lookup_instruction :: string where
  "lookup_instruction = ''Answer only from these sections and cite each one. If nothing here answers the question, say so and name the policy owner.''"

text \<open>A successful result: one constructor per result class, its summary first.\<close>

datatype tool_result =
  PolicyLookupResult string "policy_hit list" string
| PolicyGetResult string "policy option"
| PolicyListResult string "policy_summary list"
| ControlLookupResult string "control list"
| ControlTestResultsResult string "test_result list"
| RegulatoryReleasesResult string "release_summary list"
| RegulatoryReleaseGetResult string "release option"
| TicketSearchResult string "ticket list"
| AttestationsDueResult string "attestation_due list"
| EvidenceBundleResult string evidence_manifest
| DraftCreateResult string string draft_status
| DraftListResult string "draft_summary list"
| DraftGetResult string "draft option"

fun tool_summary :: "tool_result \<Rightarrow> string" where
  "tool_summary (PolicyLookupResult s _ _) = s"
| "tool_summary (PolicyGetResult s _) = s"
| "tool_summary (PolicyListResult s _) = s"
| "tool_summary (ControlLookupResult s _) = s"
| "tool_summary (ControlTestResultsResult s _) = s"
| "tool_summary (RegulatoryReleasesResult s _) = s"
| "tool_summary (RegulatoryReleaseGetResult s _) = s"
| "tool_summary (TicketSearchResult s _) = s"
| "tool_summary (AttestationsDueResult s _) = s"
| "tool_summary (EvidenceBundleResult s _) = s"
| "tool_summary (DraftCreateResult s _ _) = s"
| "tool_summary (DraftListResult s _) = s"
| "tool_summary (DraftGetResult s _) = s"

end
