(* ===== verification/Py_Regex.thy ===== *)
theory Py_Regex
  imports Prelude
begin

text \<open>
  The part of Python's \<^verbatim>\<open>re\<close> module that the code uses: character classes, groups, greedy and
  lazy repetition, anchors, and the functions \<^verbatim>\<open>match\<close>, \<^verbatim>\<open>search\<close>, \<^verbatim>\<open>findall\<close> and \<^verbatim>\<open>sub\<close>.
  A matcher returns the list of all its matches in the order in which the backtracking engine
  tries them, so that its head is the match Python reports. Patterns of the program are written
  in this datatype, piece by piece, in the theory of the component that owns them.
\<close>

datatype rx =
    Cls "char \<Rightarrow> bool"     \<comment> \<open>one character of a class\<close>
  | Emp
  | Cat rx rx
  | Alt rx rx
  | Rep bool rx           \<comment> \<open>\<open>r*\<close> when the flag is set, the lazy \<open>r*?\<close> otherwise\<close>
  | Grp nat rx            \<comment> \<open>a group that captures\<close>
  | Bol                   \<comment> \<open>\<open>^\<close> under \<open>re.M\<close>\<close>
  | Bos                   \<comment> \<open>\<open>^\<close> without it\<close>
  | Eos                   \<comment> \<open>\<open>$\<close> without \<open>re.M\<close>\<close>
  | Wb                    \<comment> \<open>\<open>\b\<close>\<close>

text \<open>
  The state of a match: the character before the current position, the text from there on, and
  the groups captured so far.
\<close>

type_synonym mstate = "char option \<times> string \<times> (nat \<times> string) list"

abbreviation ms_rest :: "mstate \<Rightarrow> string" where
  "ms_rest st \<equiv> fst (snd st)"

definition is_word :: "char \<Rightarrow> bool" where
  [str_defs]: "is_word c \<longleftrightarrow>
     (let n = (ord c :: nat) in 48 \<le> n \<and> n \<le> 57 \<or> 65 \<le> n \<and> n \<le> 90 \<or> n = 95 \<or> 97 \<le> n \<and> n \<le> 122
        \<or> n \<in> {170, 178, 179, 181, 185, 186, 188, 189, 190} \<or> 192 \<le> n \<and> n \<noteq> 215 \<and> n \<noteq> 247)"

fun rep_iter :: "(mstate \<Rightarrow> mstate list) \<Rightarrow> bool \<Rightarrow> nat \<Rightarrow> mstate \<Rightarrow> mstate list" where
  "rep_iter f g 0 st = [st]"
| "rep_iter f g (Suc n) st =
     (let more = concat (map (\<lambda>t. if length (ms_rest t) < length (ms_rest st)
                                  then rep_iter f g n t else []) (f st))
      in if g then more @ [st] else st # more)"

text \<open>
  \<open>rx_match r st\<close>: the matches of \<open>r\<close> at the current position, best first. A repetition runs at
  most once for each remaining character, since every round has to consume one.
\<close>

primrec rx_match :: "rx \<Rightarrow> mstate \<Rightarrow> mstate list" where
  "rx_match (Cls P) st =
     (case st of (p, [], cs) \<Rightarrow> [] | (p, c # s, cs) \<Rightarrow> if P c then [(Some c, s, cs)] else [])"
| "rx_match Emp st = [st]"
| "rx_match (Cat r q) st = concat (map (rx_match q) (rx_match r st))"
| "rx_match (Alt r q) st = rx_match r st @ rx_match q st"
| "rx_match (Rep g r) st = rep_iter (rx_match r) g (length (ms_rest st)) st"
| "rx_match (Grp k r) st =
     map (\<lambda>(p, s, cs). (p, s, cs @ [(k, take (length (ms_rest st) - length s) (ms_rest st))]))
       (rx_match r st)"
| "rx_match Bol st = (if fst st = None \<or> fst st = Some nl then [st] else [])"
| "rx_match Bos st = (if fst st = None then [st] else [])"
| "rx_match Eos st = (if ms_rest st = [] \<or> ms_rest st = [nl] then [st] else [])"
| "rx_match Wb st =
     (if (case fst st of None \<Rightarrow> False | Some c \<Rightarrow> is_word c) \<noteq>
         (case ms_rest st of [] \<Rightarrow> False | c # _ \<Rightarrow> is_word c) then [st] else [])"

definition rx_lit :: "string \<Rightarrow> rx" where
  "rx_lit s = foldr (\<lambda>c r. Cat (Cls (\<lambda>x. x = c)) r) s Emp"

definition rx_plus :: "bool \<Rightarrow> rx \<Rightarrow> rx" where
  "rx_plus g r = Cat r (Rep g r)"

fun rx_times :: "nat \<Rightarrow> rx \<Rightarrow> rx" where
  "rx_times 0 r = Emp"
| "rx_times (Suc n) r = Cat r (rx_times n r)"

fun rx_cats :: "rx list \<Rightarrow> rx" where
  "rx_cats [] = Emp"
| "rx_cats [r] = r"
| "rx_cats (r # q # rs) = Cat r (rx_cats (q # rs))"

text \<open>
  A match: the text skipped before it, the text it covers, its groups, and what follows it.
\<close>

record rmatch =
  m_skip :: string
  m_text :: string
  m_groups :: "(nat \<times> string) list"
  m_prev :: "char option"
  m_rest :: string

definition m_group :: "rmatch \<Rightarrow> nat \<Rightarrow> string" where
  "m_group m k = (case map_of (m_groups m) k of None \<Rightarrow> [] | Some s \<Rightarrow> s)"

text \<open>\<^verbatim>\<open>re.search\<close> from a position on: the leftmost position with a match wins.\<close>

fun rx_search_from :: "rx \<Rightarrow> char option \<Rightarrow> string \<Rightarrow> string \<Rightarrow> rmatch option" where
  "rx_search_from r p skip s =
     (case rx_match r (p, s, []) of
        (p', s', cs) # _ \<Rightarrow> Some \<lparr>m_skip = rev skip, m_text = take (length s - length s') s,
           m_groups = cs, m_prev = p', m_rest = s'\<rparr>
      | [] \<Rightarrow> (case s of [] \<Rightarrow> None | c # s' \<Rightarrow> rx_search_from r (Some c) (c # skip) s'))"

declare rx_search_from.simps [simp del]

definition rx_search :: "rx \<Rightarrow> string \<Rightarrow> rmatch option" where
  "rx_search r s = rx_search_from r None [] s"

text \<open>\<^verbatim>\<open>re.match\<close>: the match has to start at the start of the text.\<close>

definition rx_match_start :: "rx \<Rightarrow> string \<Rightarrow> rmatch option" where
  "rx_match_start r s =
     (case rx_match r (None, s, []) of
        (p', s', cs) # _ \<Rightarrow> Some \<lparr>m_skip = [], m_text = take (length s - length s') s,
           m_groups = cs, m_prev = p', m_rest = s'\<rparr>
      | [] \<Rightarrow> None)"

text \<open>
  The successive matches that \<^verbatim>\<open>findall\<close> and \<^verbatim>\<open>sub\<close> go through. Every pattern the code
  uses in this way covers at least one character, so that the search always moves on.
\<close>

function rx_iter :: "rx \<Rightarrow> char option \<Rightarrow> string \<Rightarrow> rmatch list" where
  "rx_iter r p s =
     (case rx_search_from r p [] s of None \<Rightarrow> []
      | Some m \<Rightarrow> m # (if length (m_rest m) < length s then rx_iter r (m_prev m) (m_rest m) else []))"
  by pat_completeness auto
termination
  by (relation "measure (\<lambda>(r, p, s). length s)") auto

declare rx_iter.simps [simp del]

text \<open>\<^verbatim>\<open>re.findall\<close> for a pattern without groups, and for one with the group \<open>k\<close>.\<close>

definition rx_findall :: "rx \<Rightarrow> string \<Rightarrow> string list" where
  "rx_findall r s = map m_text (rx_iter r None s)"

definition rx_findall_group :: "rx \<Rightarrow> nat \<Rightarrow> string \<Rightarrow> string list" where
  "rx_findall_group r k s = map (\<lambda>m. m_group m k) (rx_iter r None s)"

text \<open>\<^verbatim>\<open>re.sub\<close> with a replacement that is plain text.\<close>

definition rx_sub :: "rx \<Rightarrow> string \<Rightarrow> string \<Rightarrow> string" where
  "rx_sub r new s =
     (let ms = rx_iter r None s
      in concat (map (\<lambda>m. m_skip m @ new) ms) @ (if ms = [] then s else m_rest (last ms)))"

section \<open>What a match covers\<close>

text \<open>A match ends at a suffix of the text it started from.\<close>

lemma rep_iter_suffix:
  assumes "\<And>st t. t \<in> set (f st) \<Longrightarrow> suffix (ms_rest t) (ms_rest st)"
    and "t \<in> set (rep_iter f g n st)"
  shows "suffix (ms_rest t) (ms_rest st)"
  using assms(2)
proof (induction n arbitrary: st)
  case 0
  then show ?case by simp
next
  case (Suc n)
  then have "t = st \<or> (\<exists>u \<in> set (f st). t \<in> set (rep_iter f g n u))"
    by (auto simp: Let_def split: if_splits)
  then show ?case
  proof
    assume "\<exists>u \<in> set (f st). t \<in> set (rep_iter f g n u)"
    then obtain u where u: "u \<in> set (f st)" "t \<in> set (rep_iter f g n u)" by (rule bexE)
    show ?thesis
      using Suc.IH [OF u(2)] assms(1) [OF u(1)] by (rule suffix_order.order_trans)
  qed simp
qed

lemma rx_match_suffix: "t \<in> set (rx_match r st) \<Longrightarrow> suffix (ms_rest t) (ms_rest st)"
proof (induction r arbitrary: st t)
  case (Cls P)
  then show ?case by (cases st) (auto simp: suffix_Cons split: list.splits if_splits)
next
  case (Cat r q)
  then obtain u where u: "u \<in> set (rx_match r st)" "t \<in> set (rx_match q u)"
    unfolding rx_match.simps set_concat set_map by blast
  show ?case using Cat.IH(2) [OF u(2)] Cat.IH(1) [OF u(1)] by (rule suffix_order.order_trans)
next
  case (Rep g r)
  then have "t \<in> set (rep_iter (rx_match r) g (length (ms_rest st)) st)" by simp
  with Rep.IH show ?case by (rule rep_iter_suffix)
next
  case (Grp k r)
  then obtain u where "u \<in> set (rx_match r st)" "ms_rest t = ms_rest u" by auto
  then show ?case using Grp.IH [of u st] by simp
qed (auto split: if_splits)

lemma rx_search_from_parts:
  "rx_search_from r p skip s = Some m \<Longrightarrow> rev skip @ s = m_skip m @ m_text m @ m_rest m"
proof (induction r p skip s rule: rx_search_from.induct)
  case (1 r p skip s)
  show ?case
  proof (cases "rx_match r (p, s, [])")
    case Nil
    have "s \<noteq> []"
      using "1.prems" Nil by (auto simp: rx_search_from.simps [of r p skip s])
    then obtain c s' where s: "s = c # s'" by (cases s) auto
    then have "rx_search_from r (Some c) (c # skip) s' = Some m"
      using "1.prems" Nil s by (simp add: rx_search_from.simps [of r p skip "c # s'"])
    then show ?thesis using "1.IH" [OF Nil s] s by simp
  next
    case (Cons t ts)
    obtain p' s' cs where t: "t = (p', s', cs)" by (cases t)
    have "suffix s' s" using rx_match_suffix [of t r "(p, s, [])"] Cons t by simp
    then obtain pre where pre: "s = pre @ s'" by (auto simp: suffix_def)
    have "m = \<lparr>m_skip = rev skip, m_text = take (length s - length s') s, m_groups = cs,
        m_prev = p', m_rest = s'\<rparr>"
      using "1.prems" Cons t by (simp add: rx_search_from.simps [of r p skip s])
    then show ?thesis using pre by simp
  qed
qed

lemma rx_search_parts: "rx_search r s = Some m \<Longrightarrow> s = m_skip m @ m_text m @ m_rest m"
  using rx_search_from_parts [of r None "[]" s m] by (simp add: rx_search_def)

text \<open>Every text that \<^verbatim>\<open>findall\<close> returns occurs in the searched text.\<close>

lemma rx_iter_contains: "m \<in> set (rx_iter r p s) \<Longrightarrow> sublist (m_text m) s"
proof (induction r p s rule: rx_iter.induct)
  case (1 r p s)
  obtain m0 where m0: "rx_search_from r p [] s = Some m0"
    using "1.prems" by (cases "rx_search_from r p [] s") (simp_all add: rx_iter.simps [of r p s])
  have s: "s = m_skip m0 @ m_text m0 @ m_rest m0"
    using rx_search_from_parts [OF m0] by simp
  have "m = m0 \<or> length (m_rest m0) < length s \<and> m \<in> set (rx_iter r (m_prev m0) (m_rest m0))"
    using "1.prems" m0 by (simp add: rx_iter.simps [of r p s] split: if_splits)
  then show ?case
  proof
    assume "m = m0"
    then show ?thesis using s by (metis sublist_def)
  next
    assume "length (m_rest m0) < length s \<and> m \<in> set (rx_iter r (m_prev m0) (m_rest m0))"
    then have "sublist (m_text m) (m_rest m0)" using "1.IH" [OF m0] by blast
    moreover have "sublist (m_rest m0) s" using s by (metis append.assoc suffix_def suffix_imp_sublist)
    ultimately show ?thesis by (rule sublist_order.order_trans)
  qed
qed

lemma rx_findall_contains: "t \<in> set (rx_findall r s) \<Longrightarrow> str_contains t s"
  by (auto simp: rx_findall_def contains_iff rx_iter_contains)

end
