(* ===== verification/Directory.thy ===== *)
theory Directory
  imports Complex_Main Models Audit_Log
begin

text \<open>
  The user directory of directory.py: the snapshot of the users file with its version, the
  check for changes at most once per \<open>ttl\<close> seconds, and the three checks of a requester. The
  file is what the disk holds at the time of a call, its modification time and its bytes, or
  nothing when it cannot be read. The validation of a JSON value as a \<open>User\<close> is pydantic's, an
  argument of the operations.
\<close>

section \<open>The snapshot\<close>

type_synonym users_file = "(rat \<times> string) option"

record directory =
  dy_ttl :: rat
  dy_users :: "(string \<times> user) list"
  dy_version :: string
  dy_mtime :: rat
  dy_checked_at :: rat

text \<open>Iterating over a JSON value, as a \<^verbatim>\<open>for\<close> loop does.\<close>

fun json_iter :: "json \<Rightarrow> json list res" where
  "json_iter (JArr xs) = Inr xs"
| "json_iter (JObj ms) = Inr (map (\<lambda>(k, v). JStr k) ms)"
| "json_iter (JStr s) = Inr (map (\<lambda>c. JStr [c]) s)"
| "json_iter _ = Inl TypeError"

definition index_users :: "user list \<Rightarrow> (string \<times> user) list" where
  "index_users us =
     fold (\<lambda>u m. AList.update (str_lower (u_upn u)) u (AList.update (str_lower (u_id u)) u m)) us []"

definition parse_users :: "(json \<Rightarrow> user res) \<Rightarrow> string \<Rightarrow> user list res" where
  "parse_users valid raw =
     rbind (loads_bytes raw) (\<lambda>j. rbind (jindex j ''users'') (\<lambda>us. rbind (json_iter us) (mapM valid)))"

definition snapshot_version :: "hashes \<Rightarrow> string \<Rightarrow> string" where
  "snapshot_version H raw = take 16 (sha256 H raw)"

text \<open>\<^verbatim>\<open>_load\<close>: the directory after the call, and the exception if it raised.\<close>

definition dir_load ::
    "hashes \<Rightarrow> (json \<Rightarrow> user res) \<Rightarrow> bool \<Rightarrow> rat \<Rightarrow> users_file \<Rightarrow> directory \<Rightarrow> directory \<times> unit res" where
  "dir_load H valid force now file s =
     (if \<not> force \<and> now - dy_checked_at s < dy_ttl s then (s, Inr ())
      else (let s1 = s\<lparr>dy_checked_at := now\<rparr>
            in case file of None \<Rightarrow> (s1, Inl OSError)
               | Some (mtime, raw) \<Rightarrow>
                   if \<not> force \<and> mtime = dy_mtime s then (s1, Inr ())
                   else (case parse_users valid raw of
                           Inl e \<Rightarrow> (s1, Inl e)
                         | Inr us \<Rightarrow>
                             (s1\<lparr>dy_users := index_users us, dy_version := snapshot_version H raw, dy_mtime := mtime\<rparr>,
                               Inr ()))))"

definition dir_init ::
    "hashes \<Rightarrow> (json \<Rightarrow> user res) \<Rightarrow> int \<Rightarrow> rat \<Rightarrow> users_file \<Rightarrow> directory res" where
  "dir_init H valid ttl now file =
     (case dir_load H valid True now file
        \<lparr>dy_ttl = of_int ttl, dy_users = [], dy_version = [], dy_mtime = 0, dy_checked_at = 0\<rparr> of
        (s, Inl e) \<Rightarrow> Inl e | (s, Inr _) \<Rightarrow> Inr s)"

definition dir_version ::
    "hashes \<Rightarrow> (json \<Rightarrow> user res) \<Rightarrow> rat \<Rightarrow> users_file \<Rightarrow> directory \<Rightarrow> directory \<times> string res" where
  "dir_version H valid now file s =
     (case dir_load H valid False now file s of (s', r) \<Rightarrow> (s', rbind r (\<lambda>_. Inr (dy_version s'))))"

section \<open>The checks\<close>

definition ANALYST_GROUP :: string where
  "ANALYST_GROUP = ''compliance-analysts''"

definition APPROVER_GROUP :: string where
  "APPROVER_GROUP = ''compliance-approvers''"

definition single_quoted :: "string \<Rightarrow> string" where
  "single_quoted s = CHR 0x27 # s @ [CHR 0x27]"

text \<open>Looking a requester up in a snapshot that was loaded.\<close>

definition find_user :: "string \<Rightarrow> directory \<Rightarrow> user res" where
  "find_user requester s =
     (let key = str_lower (str_strip requester)
      in if key = [] then Inl (AccessDenied ''requester identity is required on every call'')
         else case map_of (dy_users s) key of
                None \<Rightarrow> Inl (AccessDenied (''requester '' @ single_quoted requester @ '' is not in the allowlist''))
              | Some u \<Rightarrow>
                  if \<not> u_active u then Inl (AccessDenied (''requester '' @ single_quoted requester @ '' is inactive''))
                  else Inr u)"

definition dir_resolve ::
    "hashes \<Rightarrow> (json \<Rightarrow> user res) \<Rightarrow> rat \<Rightarrow> users_file \<Rightarrow> string \<Rightarrow> directory \<Rightarrow> directory \<times> user res" where
  "dir_resolve H valid now file requester s =
     (case dir_load H valid False now file s of (s', r) \<Rightarrow> (s', rbind r (\<lambda>_. find_user requester s')))"

definition dir_require_group ::
    "hashes \<Rightarrow> (json \<Rightarrow> user res) \<Rightarrow> rat \<Rightarrow> users_file \<Rightarrow> string \<Rightarrow> string \<Rightarrow> directory \<Rightarrow> directory \<times> user res" where
  "dir_require_group H valid now file requester grp s =
     (case dir_resolve H valid now file requester s of
        (s', r) \<Rightarrow> (s', rbind r (\<lambda>u.
          if grp \<notin> set (u_groups u)
          then Inl (AccessDenied (''requester '' @ single_quoted (u_upn u) @ '' is not a member of '' @ single_quoted grp))
          else Inr u)))"

definition dir_require_approver ::
    "hashes \<Rightarrow> (json \<Rightarrow> user res) \<Rightarrow> rat \<Rightarrow> users_file \<Rightarrow> string \<Rightarrow> directory \<Rightarrow> directory \<times> user res" where
  "dir_require_approver H valid now file requester s =
     (case dir_require_group H valid now file requester APPROVER_GROUP s of
        (s', r) \<Rightarrow> (s', rbind r (\<lambda>u.
          if u_kind u \<noteq> Person
          then Inl (AccessDenied (single_quoted (u_upn u) @ '' is a service account and cannot approve''))
          else Inr u)))"

section \<open>The contract of a check\<close>

text \<open>
  What the callers of the directory rely on: a check keeps the invariant of the directory, and
  whom it lets through is a user of the snapshot, active, and with the property the check is
  for. It extends to any sequence of checks.
\<close>

fun granted :: "('e \<Rightarrow> string \<Rightarrow> 's \<Rightarrow> 's \<times> user res) \<Rightarrow> ('e \<times> string) list \<Rightarrow> 's \<Rightarrow> (string \<times> user) list \<times> 's" where
  "granted check [] s = ([], s)"
| "granted check ((e, r) # es) s =
     (case check e r s of (s', x) \<Rightarrow> (case granted check es s' of (us, t) \<Rightarrow>
        (case x of Inl _ \<Rightarrow> us | Inr u \<Rightarrow> (r, u) # us, t)))"

locale authoriser =
  fixes inv :: "'s \<Rightarrow> bool" and allows :: "string \<Rightarrow> user \<Rightarrow> bool"
    and check :: "'e \<Rightarrow> string \<Rightarrow> 's \<Rightarrow> 's \<times> user res"
  assumes check_inv: "inv s \<Longrightarrow> check e r s = (s', x) \<Longrightarrow> inv s'"
    and check_allows: "inv s \<Longrightarrow> check e r s = (s', Inr u) \<Longrightarrow> u_active u \<and> allows r u"
begin

lemma granted_allows:
  "inv s \<Longrightarrow> granted check es s = (us, s') \<Longrightarrow> inv s' \<and> (\<forall>(r, u) \<in> set us. u_active u \<and> allows r u)"
proof (induction es arbitrary: s us s')
  case (Cons c es)
  obtain e r where c: "c = (e, r)" by (cases c)
  obtain s1 x where s1: "check e r s = (s1, x)" by fastforce
  obtain vs t where vs: "granted check es s1 = (vs, t)" by fastforce
  note IH = Cons.IH [OF check_inv [OF Cons.prems(1) s1] vs]
  show ?case
    using IH Cons.prems(2) c s1 vs check_allows [OF Cons.prems(1), of e r s1] by (cases x) auto
qed simp

end

text \<open>A check that lets through the members of a group only.\<close>

locale group_authoriser = authoriser +
  fixes grp :: string
  assumes check_member: "inv s \<Longrightarrow> check e r s = (s', Inr u) \<Longrightarrow> grp \<in> set (u_groups u)"
begin

lemma granted_members:
  "inv s \<Longrightarrow> granted check es s = (us, s') \<Longrightarrow> \<forall>(r, u) \<in> set us. grp \<in> set (u_groups u)"
proof (induction es arbitrary: s us s')
  case (Cons c es)
  obtain e r where c: "c = (e, r)" by (cases c)
  obtain s1 x where s1: "check e r s = (s1, x)" by fastforce
  obtain vs t where vs: "granted check es s1 = (vs, t)" by fastforce
  note IH = Cons.IH [OF check_inv [OF Cons.prems(1) s1] vs]
  show ?case
    using IH Cons.prems(2) c s1 vs check_member [OF Cons.prems(1), of e r s1] by (cases x) auto
qed simp

end

section \<open>The checks of the directory keep the contract\<close>

text \<open>The key a requester is looked up by, and the users it can stand for.\<close>

definition names_user :: "string \<Rightarrow> user \<Rightarrow> bool" where
  "names_user requester u \<longleftrightarrow> str_strip requester \<noteq> [] \<and>
     str_lower (str_strip requester) \<in> {str_lower (u_id u), str_lower (u_upn u)}"

text \<open>The snapshot and the version come from the same bytes.\<close>

definition dir_inv :: "hashes \<Rightarrow> (json \<Rightarrow> user res) \<Rightarrow> directory \<Rightarrow> bool" where
  "dir_inv H valid s \<longleftrightarrow> (\<exists>raw us. parse_users valid raw = Inr us \<and> dy_users s = index_users us \<and>
     dy_version s = snapshot_version H raw)"

lemma index_users_snoc:
  "index_users (us @ [u]) = AList.update (str_lower (u_upn u)) u (AList.update (str_lower (u_id u)) u (index_users us))"
  by (simp add: index_users_def)

lemma index_usersD:
  "map_of (index_users us) k = Some u \<Longrightarrow> u \<in> set us \<and> k \<in> {str_lower (u_id u), str_lower (u_upn u)}"
proof (induction us rule: rev_induct)
  case (snoc x us)
  then show ?case by (auto simp: index_users_snoc update_conv split: if_splits)
qed (simp add: index_users_def)

lemma find_userD:
  "find_user r s = Inr u \<Longrightarrow> u_active u \<and> str_strip r \<noteq> [] \<and> map_of (dy_users s) (str_lower (str_strip r)) = Some u"
  by (auto simp: find_user_def Let_def str_lower_def split: if_splits option.splits)

lemma load_inv:
  "dir_inv H valid s \<Longrightarrow> dir_load H valid force now file s = (s', x) \<Longrightarrow> dir_inv H valid s'"
  by (fastforce simp: dir_load_def dir_inv_def Let_def split: if_splits option.splits sum.splits prod.splits)

lemma resolve_facts:
  assumes "dir_inv H valid s" "dir_resolve H valid now file r s = (s', x)"
  shows "dir_inv H valid s'" "x = Inr u \<Longrightarrow> u_active u \<and> names_user r u"
proof -
  obtain s1 y where s1: "dir_load H valid False now file s = (s1, y)" by fastforce
  have s': "s' = s1" "x = rbind y (\<lambda>_. find_user r s1)" using assms(2) s1 by (auto simp: dir_resolve_def)
  show inv: "dir_inv H valid s'" using load_inv [OF assms(1) s1] s' by simp
  show "u_active u \<and> names_user r u" if "x = Inr u"
  proof -
    have "find_user r s1 = Inr u" using that s' by (simp add: rbind_Inr_iff)
    note f = find_userD [OF this]
    obtain us where "dy_users s1 = index_users us" using inv s'(1) by (auto simp: dir_inv_def)
    then show ?thesis using f index_usersD [of us "str_lower (str_strip r)" u] by (simp add: names_user_def)
  qed
qed

lemma require_group_facts:
  assumes "dir_inv H valid s" "dir_require_group H valid now file r g s = (s', x)"
  shows "dir_inv H valid s'" "x = Inr u \<Longrightarrow> u_active u \<and> names_user r u \<and> g \<in> set (u_groups u)"
proof -
  obtain s1 y where s1: "dir_resolve H valid now file r s = (s1, y)" by fastforce
  note f = resolve_facts [OF assms(1) s1]
  show "dir_inv H valid s'" using f(1) assms(2) s1 by (simp add: dir_require_group_def)
  show "u_active u \<and> names_user r u \<and> g \<in> set (u_groups u)" if "x = Inr u"
    using f(2) assms(2) s1 that by (auto simp: dir_require_group_def rbind_Inr_iff split: if_splits)
qed

lemma require_approver_facts:
  assumes "dir_inv H valid s" "dir_require_approver H valid now file r s = (s', x)"
  shows "dir_inv H valid s'"
    "x = Inr u \<Longrightarrow> u_active u \<and> names_user r u \<and> APPROVER_GROUP \<in> set (u_groups u) \<and> u_kind u = Person"
proof -
  obtain s1 y where s1: "dir_require_group H valid now file r APPROVER_GROUP s = (s1, y)" by fastforce
  note f = require_group_facts [OF assms(1) s1]
  show "dir_inv H valid s'" using f(1) assms(2) s1 by (simp add: dir_require_approver_def)
  show "u_active u \<and> names_user r u \<and> APPROVER_GROUP \<in> set (u_groups u) \<and> u_kind u = Person" if "x = Inr u"
    using f(2) assms(2) s1 that by (auto simp: dir_require_approver_def rbind_Inr_iff split: if_splits)
qed

interpretation resolving: authoriser "dir_inv H valid" names_user
    "\<lambda>(now, file) r s. dir_resolve H valid now file r s" for H valid
  using resolve_facts by unfold_locales (auto split: prod.splits)

interpretation in_group: group_authoriser "dir_inv H valid" names_user
    "\<lambda>(now, file) r s. dir_require_group H valid now file r g s" g for H valid g
  using require_group_facts by unfold_locales (auto split: prod.splits)

interpretation approving: group_authoriser "dir_inv H valid" "\<lambda>r u. names_user r u \<and> u_kind u = Person"
    "\<lambda>(now, file) r s. dir_require_approver H valid now file r s" APPROVER_GROUP for H valid
  using require_approver_facts by unfold_locales (auto split: prod.splits)

lemma init_inv: "dir_init H valid ttl now file = Inr s \<Longrightarrow> dir_inv H valid s \<and> (\<exists>m raw. file = Some (m, raw) \<and> dy_mtime s = m) \<and>
    dy_checked_at s = now \<and> dy_ttl s = of_int ttl"
  by (fastforce simp: dir_init_def dir_load_def dir_inv_def Let_def split: option.splits sum.splits)

text \<open>
  C7: Whoever passes \<^verbatim>\<open>require_approver\<close>, in any sequence of checks while the users file changes
  under the server, is an active person of the approver group whose id or UPN is the one that
  was presented. A service account never approves.
\<close>

theorem approver_is_active_person:
  assumes "dir_init H valid ttl t0 f0 = Inr s"
    and "granted (\<lambda>(now, file) r s. dir_require_approver H valid now file r s) es s = (us, s')"
  shows "\<forall>(r, u) \<in> set us. u_active u \<and> u_kind u = Person \<and> APPROVER_GROUP \<in> set (u_groups u) \<and> names_user r u"
proof -
  have inv: "dir_inv H valid s" using init_inv [OF assms(1)] by blast
  from approving.granted_allows [OF inv assms(2)] approving.granted_members [OF inv assms(2)]
  show ?thesis by fastforce
qed

text \<open>
  C8: A deactivation takes effect without a restart. Once the period of the last check is over
  and the file was replaced by one in which no active user has the presented name, the next
  \<^verbatim>\<open>resolve\<close> is refused with \<^verbatim>\<open>AccessDenied\<close>, and the version is the one of the new file.
\<close>

theorem deactivation_takes_effect:
  assumes "dy_ttl s \<le> now - dy_checked_at s" and "mtime \<noteq> dy_mtime s"
    and "parse_users valid raw = Inr us"
    and "\<forall>u \<in> set us. names_user r u \<longrightarrow> \<not> u_active u"
  shows "\<exists>s' msg. dir_resolve H valid now (Some (mtime, raw)) r s = (s', Inl (AccessDenied msg)) \<and>
    dy_version s' = snapshot_version H raw \<and> dy_users s' = index_users us"
proof -
  let ?s = "s\<lparr>dy_checked_at := now, dy_users := index_users us, dy_version := snapshot_version H raw, dy_mtime := mtime\<rparr>"
  have load: "dir_load H valid False now (Some (mtime, raw)) s = (?s, Inr ())"
    using assms(1-3) by (simp add: dir_load_def Let_def)
  have "\<exists>msg. find_user r ?s = Inl (AccessDenied msg)"
  proof (cases "find_user r ?s")
    case (Inl e)
    then show ?thesis by (auto simp: find_user_def Let_def split: if_splits option.splits)
  next
    case (Inr u)
    note f = find_userD [OF this]
    then have "u \<in> set us \<and> names_user r u"
      using index_usersD [of us "str_lower (str_strip r)" u] by (simp add: names_user_def)
    with f show ?thesis using assms(4) by blast
  qed
  then show ?thesis using load by (auto simp: dir_resolve_def)
qed

text \<open>
  When the users file cannot be read or parsed, the call that notices it raises, and the
  server then goes on with the old snapshot and the old version until the next check of the
  file is due: within the period every requester is answered from the old snapshot.
\<close>

theorem bad_file_keeps_snapshot:
  assumes "dir_load H valid False now file s = (s1, Inl e)"
    and "now \<le> later" and "later < now + dy_ttl s"
  shows "dy_users s1 = dy_users s \<and> dy_version s1 = dy_version s \<and>
    dir_resolve H valid now file r s = (s1, Inl e) \<and>
    dir_resolve H valid later file' r s1 = (s1, find_user r s)"
proof -
  have s1: "s1 = s\<lparr>dy_checked_at := now\<rparr>"
    using assms(1) by (auto simp: dir_load_def Let_def split: if_splits option.splits sum.splits prod.splits)
  then have "dir_load H valid False later file' s1 = (s1, Inr ())"
    using assms(2,3) by (simp add: dir_load_def algebra_simps)
  then show ?thesis using assms(1) s1 by (simp add: dir_resolve_def find_user_def Let_def)
qed

section \<open>Witnesses\<close>

text \<open>A validator of users for the examples, and two files.\<close>

definition simple_user :: "json \<Rightarrow> user res" where
  "simple_user j = (case (jget j ''id'', jget j ''active'') of
     (Some (JStr i), Some (JBool b)) \<Rightarrow>
       Inr \<lparr>u_id = i, u_upn = i @ ''@x'', u_name = i, u_groups = [APPROVER_GROUP], u_active = b, u_kind = Person\<rparr>
   | _ \<Rightarrow> Inl ValidationError)"

definition users_json :: "bool \<Rightarrow> json" where
  "users_json b = JObj [(''users'', JArr [JObj [(''id'', JStr ''ann''), (''active'', JBool b)]])]"

definition users_bytes :: "bool \<Rightarrow> string" where
  "users_bytes b = utf8 (dumps compact (users_json b))"

definition ann :: "bool \<Rightarrow> user" where
  "ann b = \<lparr>u_id = ''ann'', u_upn = ''ann@x'', u_name = ''ann'', u_groups = [APPROVER_GROUP], u_active = b, u_kind = Person\<rparr>"

lemma parse_example: "parse_users simple_user (users_bytes b) = Inr [ann b]"
proof -
  have "wf_json (users_json b)" by (simp add: users_json_def)
  then have "loads_bytes (users_bytes b) = Inr (users_json b)"
    by (simp add: loads_bytes_def users_bytes_def loads_dumps)
  then show ?thesis by (simp add: parse_users_def users_json_def simple_user_def ann_def)
qed

definition example_directory :: "bool \<Rightarrow> directory" where
  "example_directory b = \<lparr>dy_ttl = 60, dy_users = index_users [ann b],
     dy_version = snapshot_version \<lparr>sha256 = (\<lambda>x. x), hmac256 = (\<lambda>k x. x)\<rparr> (users_bytes b), dy_mtime = 1, dy_checked_at = 5\<rparr>"

lemma example_init:
  "dir_init \<lparr>sha256 = (\<lambda>x. x), hmac256 = (\<lambda>k x. x)\<rparr> simple_user 60 5 (Some (1, users_bytes b)) = Inr (example_directory b)"
  by (simp add: dir_init_def dir_load_def Let_def parse_example example_directory_def)

lemma approver_is_active_person_witness:
  "set (fst (granted (\<lambda>(now, file) r s. dir_require_approver \<lparr>sha256 = (\<lambda>x. x), hmac256 = (\<lambda>k x. x)\<rparr> simple_user now file r s)
      [((6, Some (1, [])), ''ANN''), ((99, Some (2, users_bytes False)), ''ann'')] (example_directory True)))
   \<subseteq> {(r, u). u_active u \<and> u_kind u = Person \<and> APPROVER_GROUP \<in> set (u_groups u) \<and> names_user r u}"
  using approver_is_active_person [OF example_init prod.collapse [symmetric]] by blast

lemma deactivation_takes_effect_witness:
  "\<exists>s' msg. dir_resolve \<lparr>sha256 = (\<lambda>x. x), hmac256 = (\<lambda>k x. x)\<rparr> simple_user 65 (Some (2, users_bytes False)) ''ann''
      (example_directory True) = (s', Inl (AccessDenied msg)) \<and>
    dy_version s' = take 16 (users_bytes False) \<and> dy_users s' = index_users [ann False]"
proof -
  have "\<forall>u \<in> set [ann False]. names_user ''ann'' u \<longrightarrow> \<not> u_active u" by (simp add: ann_def)
  from deactivation_takes_effect [OF _ _ parse_example [of False] this, of "example_directory True" 65 2
      "\<lparr>sha256 = (\<lambda>x. x), hmac256 = (\<lambda>k x. x)\<rparr>"]
  show ?thesis by (simp add: example_directory_def snapshot_version_def)
qed

lemma bad_file_keeps_snapshot_witness:
  "snd (dir_resolve \<lparr>sha256 = (\<lambda>x. x), hmac256 = (\<lambda>k x. x)\<rparr> simple_user 70 None ''ann''
     ((example_directory True)\<lparr>dy_checked_at := 65\<rparr>)) = find_user ''ann'' (example_directory True)"
proof -
  have "dir_load \<lparr>sha256 = (\<lambda>x. x), hmac256 = (\<lambda>k x. x)\<rparr> simple_user False 65 None (example_directory True) =
      ((example_directory True)\<lparr>dy_checked_at := 65\<rparr>, Inl OSError)"
    by (simp add: dir_load_def example_directory_def)
  from bad_file_keeps_snapshot [OF this, of 70 "''ann''" None] show ?thesis by (simp add: example_directory_def)
qed

end
