(* ===== verification/Store.thy ===== *)
theory Store
  imports Models Py_Regex Directory "HOL-Library.Multiset"
begin

text \<open>
  The read-only adapters of store.py over the systems of record: the policy repository with its
  front matter, its sections, the current version and the version in force on a date; controls
  and test results; tickets; the regulator feed; and attestations. Pydantic's validation of a
  JSON value as a model, and its JSON text of a model, which the searches look into, are
  arguments.
\<close>

named_theorems store_defs \<open>the adapters of the systems of record\<close>

text \<open>\<^verbatim>\<open>_in_range\<close>: an absent or empty bound does not restrict.\<close>

definition in_range :: "string \<Rightarrow> string option \<Rightarrow> string option \<Rightarrow> bool" where
  [store_defs]: "in_range day start stop \<longleftrightarrow>
     (start = None \<or> start = Some [] \<or> the start \<le> day) \<and> (stop = None \<or> stop = Some [] \<or> day \<le> the stop)"

text \<open>A slice \<^verbatim>\<open>xs[:n]\<close>, whose bound may be negative.\<close>

definition py_take :: "int \<Rightarrow> 'a list \<Rightarrow> 'a list" where
  [store_defs]: "py_take n xs = (if 0 \<le> n then take (nat n) xs else take (length xs - nat (- n)) xs)"

section \<open>Policies\<close>

definition any_char :: rx where
  "any_char = Cls (\<lambda>_. True)"

definition front_matter :: rx where
  "front_matter = rx_cats [Bos, rx_lit (''---'' @ [nl]), Grp 1 (Rep False any_char), rx_lit ([nl] @ ''---'' @ [nl]),
     Grp 2 (Rep True any_char), Eos]"

definition parse_meta :: "string \<Rightarrow> (string \<times> string) list" where
  "parse_meta block =
     fold (\<lambda>line m. case str_partition CHR '':'' line of (k, v) \<Rightarrow> AList.update (str_strip k) (str_strip v) m)
       (str_splitlines block) []"

definition meta_get :: "(string \<times> string) list \<Rightarrow> string \<Rightarrow> string \<Rightarrow> string" where
  "meta_get m k dflt = (case map_of m k of None \<Rightarrow> dflt | Some v \<Rightarrow> v)"

definition meta_index :: "(string \<times> string) list \<Rightarrow> string \<Rightarrow> string res" where
  "meta_index m k = (case map_of m k of None \<Rightarrow> Inl (KeyError k) | Some v \<Rightarrow> Inr v)"

definition comma_list :: "string \<Rightarrow> string list" where
  "comma_list s = map str_strip (filter (\<lambda>x. str_strip x \<noteq> []) (str_split CHR '','' s))"

text \<open>\<^verbatim>\<open>_split_sections\<close>: \<^verbatim>\<open>flush\<close> and the loop over the lines.\<close>

definition flush_section :: "string \<Rightarrow> string list \<Rightarrow> policy_section list \<Rightarrow> policy_section list" where
  "flush_section heading ls secs =
     (if list_ex (\<lambda>l. str_strip l \<noteq> []) ls
      then secs @ [\<lparr>sec_heading = heading, sec_text = str_strip (str_join [nl] ls)\<rparr>] else secs)"

fun section_loop :: "string list \<Rightarrow> string \<Rightarrow> string list \<Rightarrow> policy_section list \<Rightarrow> policy_section list" where
  "section_loop [] heading ls secs = flush_section heading ls secs"
| "section_loop (line # rest) heading ls secs =
     (if str_startswith line ''## ''
      then section_loop rest (str_strip (drop 3 line)) [] (flush_section heading ls secs)
      else section_loop rest heading (ls @ [line]) secs)"

definition split_sections :: "string \<Rightarrow> policy_section list" where
  "split_sections body = section_loop (str_splitlines body) ''Preamble'' [] []"

text \<open>\<^verbatim>\<open>_parse\<close> of the file \<open>name\<close> of the directory \<open>folder\<close>.\<close>

definition parse_policy :: "hashes \<Rightarrow> string \<Rightarrow> string \<Rightarrow> string \<Rightarrow> policy res" where
  "parse_policy H folder name text =
     (case rx_match_start front_matter text of
        None \<Rightarrow> Inl (ValueError (name @ '': missing front matter''))
      | Some m \<Rightarrow>
          let meta = parse_meta (m_group m 1)
          in rbind (meta_index meta ''policy_id'') (\<lambda>pid.
             rbind (meta_index meta ''version'') (\<lambda>version.
             rbind (meta_index meta ''effective_date'') (\<lambda>effective.
             rbind (policy_status_of (meta_get meta ''status'' ''approved'')) (\<lambda>status.
             rbind (meta_index meta ''title'') (\<lambda>title.
               make_policy \<lparr>p_id = pid, p_version = version, p_effective = effective, p_status = status,
                 p_title = title, p_owner = meta_get meta ''owner'' [],
                 p_regulations = comma_list (meta_get meta ''regulations'' []),
                 p_controls = comma_list (meta_get meta ''controls'' []),
                 p_source = folder @ ''/'' @ name, p_sha256 = sha256 H (utf8 text),
                 p_sections = split_sections (m_group m 2)\<rparr>))))))"

text \<open>The repository: every Markdown file of the directory, in the order of the names.\<close>

definition load_policies :: "hashes \<Rightarrow> string \<Rightarrow> dir \<Rightarrow> policy list res" where
  "load_policies H folder d =
     mapM (\<lambda>n. rbind (utf8_decode (case map_of d n of None \<Rightarrow> [] | Some f \<Rightarrow> f))
                 (\<lambda>text. parse_policy H folder n (univ_newlines text)))
       (sort (filter (\<lambda>n. Sublist.suffix ''.md'' n) (map fst d)))"

definition pick_latest :: "policy \<Rightarrow> (string \<times> policy) list \<Rightarrow> (string \<times> policy) list" where
  [store_defs]: "pick_latest doc m =
     (if p_status doc \<noteq> PolicyApproved then m
      else case map_of m (p_id doc) of
             None \<Rightarrow> AList.update (p_id doc) doc m
           | Some old \<Rightarrow> if p_effective old < p_effective doc then AList.update (p_id doc) doc m else m)"

definition policies_current :: "policy list \<Rightarrow> policy list" where
  "policies_current docs = sort_key p_id (map snd (fold pick_latest docs []))"

definition policy_versions :: "policy list \<Rightarrow> string \<Rightarrow> policy list" where
  "policy_versions docs pid = sort_key p_effective (filter (\<lambda>d. p_id d = pid) docs)"

definition version_as_of :: "policy list \<Rightarrow> string \<Rightarrow> string \<Rightarrow> policy option" where
  "version_as_of docs pid as_of =
     (let cs = filter (\<lambda>d. p_status d = PolicyApproved \<and> p_effective d \<le> as_of) (policy_versions docs pid)
      in if cs = [] then None else Some (last cs))"

text \<open>\<^verbatim>\<open>search\<close>: the terms of the query, the score of a section, and the ranking.\<close>

definition term_rx :: rx where
  "term_rx = rx_plus True (Cls (\<lambda>c. 97 \<le> (ord c :: nat) \<and> ord c \<le> (122 :: nat) \<or> is_digit c))"

definition search_terms :: "string \<Rightarrow> string list" where
  "search_terms query = filter (\<lambda>t. 2 < length t) (rx_findall term_rx (str_lower query))"

definition section_score :: "string list \<Rightarrow> policy_section \<Rightarrow> nat" where
  "section_score terms s =
     sum_list (map (\<lambda>t. str_count t (str_lower (sec_heading s @ '' '' @ sec_text s))) terms)"

definition citation :: "policy \<Rightarrow> policy_section \<Rightarrow> string" where
  "citation d s =
     p_id d @ '' v'' @ p_version d @ '' (effective '' @ p_effective d @ ''), section '' @ single_quoted (sec_heading s)
       @ '', source '' @ p_source d"

definition hit_of :: "policy \<Rightarrow> policy_section \<Rightarrow> policy_hit" where
  "hit_of d s =
     \<lparr>h_policy_id = p_id d, h_version = p_version d, h_effective = p_effective d, h_title = p_title d,
       h_heading = sec_heading s, h_text = sec_text s, h_citation = citation d s\<rparr>"

definition scored_hits :: "policy list \<Rightarrow> string \<Rightarrow> (nat \<times> policy_hit) list" where
  "scored_hits docs query =
     (let terms = search_terms query
      in concat (map (\<lambda>d. map (\<lambda>s. (section_score terms s, hit_of d s))
           (filter (\<lambda>s. section_score terms s \<noteq> 0) (p_sections d))) (policies_current docs)))"

definition policies_search :: "policy list \<Rightarrow> string \<Rightarrow> int \<Rightarrow> policy_hit list" where
  "policies_search docs query limit =
     map snd (py_take limit (sort_key (\<lambda>p. - int (fst p)) (scored_hits docs query)))"

section \<open>Controls and test results\<close>

text \<open>A dictionary of records by a key of theirs; a later one replaces an earlier one in place.\<close>

definition by_key :: "('a \<Rightarrow> string) \<Rightarrow> 'a list \<Rightarrow> (string \<times> 'a) list" where
  [store_defs]: "by_key f xs = fold (\<lambda>x m. AList.update (f x) x m) xs []"

definition load_json :: "string \<Rightarrow> json res" where
  "load_json raw = rbind (utf8_decode raw) (\<lambda>text. loads (univ_newlines text))"

definition load_field :: "(json \<Rightarrow> 'a res) \<Rightarrow> string \<Rightarrow> json \<Rightarrow> 'a list res" where
  "load_field valid field j = rbind (jindex j field) (\<lambda>xs. rbind (json_iter xs) (mapM valid))"

record control_library =
  cl_controls :: "(string \<times> control) list"
  cl_tests :: "test_result list"

definition load_controls ::
    "(json \<Rightarrow> control res) \<Rightarrow> (json \<Rightarrow> test_result res) \<Rightarrow> string \<Rightarrow> control_library res" where
  "load_controls valid_c valid_t raw =
     rbind (load_json raw) (\<lambda>j. rbind (load_field valid_c ''controls'' j) (\<lambda>cs.
       rbind (load_field valid_t ''test_results'' j) (\<lambda>ts.
         Inr \<lparr>cl_controls = by_key c_id cs, cl_tests = ts\<rparr>)))"

definition controls_get :: "control_library \<Rightarrow> string \<Rightarrow> control option" where
  [store_defs]: "controls_get l i = map_of (cl_controls l) i"

definition controls_search :: "(control \<Rightarrow> string) \<Rightarrow> control_library \<Rightarrow> string \<Rightarrow> control list" where
  [store_defs]: "controls_search dump l query =
     filter (\<lambda>c. str_contains (str_lower query) (str_lower (dump c))) (map snd (cl_controls l))"

definition controls_results :: "control_library \<Rightarrow> string \<Rightarrow> string option \<Rightarrow> string option \<Rightarrow> test_result list" where
  [store_defs]: "controls_results l i start stop =
     filter (\<lambda>t. t_control_id t = i \<and> in_range (t_tested_on t) start stop) (cl_tests l)"

section \<open>Tickets\<close>

definition load_tickets :: "(json \<Rightarrow> ticket res) \<Rightarrow> string \<Rightarrow> ticket list res" where
  "load_tickets valid raw = rbind (load_json raw) (load_field valid ''tickets'')"

definition tickets_search ::
    "(ticket \<Rightarrow> string) \<Rightarrow> ticket list \<Rightarrow> string \<Rightarrow> string \<Rightarrow> string option \<Rightarrow> string option \<Rightarrow> ticket list" where
  [store_defs]: "tickets_search dump ts query control_id start stop =
     (let needle = str_lower query
      in filter (\<lambda>t. (control_id = [] \<or> control_id \<in> set (k_controls t)) \<and>
           (needle = [] \<or> str_contains needle (str_lower (dump t))) \<and> in_range (k_created t) start stop) ts)"

section \<open>The regulator feed\<close>

definition load_feed :: "(json \<Rightarrow> release res) \<Rightarrow> dir \<Rightarrow> (string \<times> release) list res" where
  "load_feed valid d =
     rbind (mapM (\<lambda>n. rbind (load_json (case map_of d n of None \<Rightarrow> [] | Some f \<Rightarrow> f)) (load_field valid ''releases''))
              (sort (filter (\<lambda>n. Sublist.suffix ''.json'' n) (map fst d))))
       (\<lambda>rss. Inr (by_key r_id (concat rss)))"

definition feed_since :: "(string \<times> release) list \<Rightarrow> string \<Rightarrow> string \<Rightarrow> release list" where
  "feed_since feed since source =
     sort_key r_published (filter (\<lambda>r. since \<le> r_published r \<and> (source = [] \<or> r_source r = source)) (map snd feed))"

definition feed_get :: "(string \<times> release) list \<Rightarrow> string \<Rightarrow> release option" where
  "feed_get feed i = map_of feed i"

section \<open>Attestations\<close>

definition load_attestations :: "(json \<Rightarrow> attestation res) \<Rightarrow> string \<Rightarrow> attestation list res" where
  "load_attestations valid raw = rbind (load_json raw) (load_field valid ''attestations'')"

definition due_of :: "attestation \<Rightarrow> int \<Rightarrow> attestation_due" where
  "due_of a n = attestation.extend a \<lparr>a_days_remaining = n\<rparr>"

fun due_items :: "int \<Rightarrow> date \<Rightarrow> attestation list \<Rightarrow> attestation_due list res" where
  "due_items horizon today [] = Inr []"
| "due_items horizon today (a # as) =
     (if a_status a = Complete then due_items horizon today as
      else rbind (parse_iso_date (a_due a)) (\<lambda>due.
        let days = days_between due today
        in rbind (due_items horizon today as) (\<lambda>rest. Inr (if days \<le> horizon then due_of a days # rest else rest))))"

definition attestations_due :: "attestation list \<Rightarrow> int \<Rightarrow> date \<Rightarrow> attestation_due list res" where
  "attestations_due items horizon today = rbind (due_items horizon today items) (\<lambda>ds. Inr (sort_key a_due ds))"

section \<open>The current version and the version in force\<close>

declare map_of_eq_Some_iff [simp del] Some_eq_map_of_iff [simp del]

definition approved :: "policy list \<Rightarrow> string \<Rightarrow> policy set" where
  "approved docs pid = {d \<in> set docs. p_id d = pid \<and> p_status d = PolicyApproved}"

definition latest :: "policy set \<Rightarrow> policy \<Rightarrow> bool" where
  "latest ds d \<longleftrightarrow> d \<in> ds \<and> (\<forall>e \<in> ds. p_effective e \<le> p_effective d)"

text \<open>What a dictionary of the loop holds for an id, after the documents so far.\<close>

definition chosen :: "policy list \<Rightarrow> (string \<times> policy) list \<Rightarrow> string \<Rightarrow> bool" where
  "chosen docs m k \<longleftrightarrow>
     (case map_of m k of None \<Rightarrow> approved docs k = {} | Some d \<Rightarrow> latest (approved docs k) d)"

lemma pick_latest_distinct: "distinct (map fst m) \<Longrightarrow> distinct (map fst (pick_latest doc m))"
  by (simp add: pick_latest_def distinct_update split: option.split)

lemma pick_latest_chosen:
  assumes "chosen docs m k"
  shows "chosen (docs @ [doc]) (pick_latest doc m) k"
proof -
  have app: "approved (docs @ [doc]) k =
      (if p_id doc = k \<and> p_status doc = PolicyApproved then insert doc (approved docs k) else approved docs k)"
    by (auto simp: approved_def)
  show ?thesis
  proof (cases "p_status doc = PolicyApproved \<and> p_id doc = k")
    case False
    then have "map_of (pick_latest doc m) k = map_of m k"
      by (auto simp: pick_latest_def update_conv split: option.split)
    then show ?thesis using assms False unfolding chosen_def app by auto
  next
    case True
    then show ?thesis
      using assms unfolding chosen_def app
      by (cases "map_of m k") (auto simp: pick_latest_def update_conv latest_def intro: order_trans less_imp_le)
  qed
qed

lemma pick_latest_inv:
  "distinct (map fst (fold pick_latest docs [])) \<and> chosen docs (fold pick_latest docs []) k"
proof (induction docs rule: rev_induct)
  case (snoc doc docs)
  then show ?case using pick_latest_distinct pick_latest_chosen by simp
qed (simp add: approved_def chosen_def)

lemma pick_latest_dist: "distinct (map fst (fold pick_latest docs []))"
  using pick_latest_inv by blast

lemma pick_latest_Some: "map_of (fold pick_latest docs []) k = Some d \<Longrightarrow> latest (approved docs k) d"
  using pick_latest_inv [of docs k] by (simp add: chosen_def)

lemma latest_id: "latest (approved docs k) d \<Longrightarrow> p_id d = k"
  by (simp add: latest_def approved_def)

lemma current_iff: "d \<in> set (policies_current docs) \<longleftrightarrow> map_of (fold pick_latest docs []) (p_id d) = Some d"
proof -
  let ?m = "fold pick_latest docs []"
  have "d \<in> set (policies_current docs) \<longleftrightarrow> (\<exists>k. (k, d) \<in> set ?m)" by (force simp: policies_current_def)
  also have "\<dots> \<longleftrightarrow> (\<exists>k. map_of ?m k = Some d)" using map_of_eq_Some_iff [OF pick_latest_dist] by blast
  also have "\<dots> \<longleftrightarrow> map_of ?m (p_id d) = Some d" using pick_latest_Some latest_id by blast
  finally show ?thesis .
qed

lemma current_latest: "d \<in> set (policies_current docs) \<Longrightarrow> latest (approved docs (p_id d)) d"
  unfolding current_iff by (rule pick_latest_Some)

lemma current_ids: "sorted (map p_id (policies_current docs)) \<and> distinct (map p_id (policies_current docs))"
proof -
  let ?m = "fold pick_latest docs []"
  have "p_id d = k" if "(k, d) \<in> set ?m" for k d
    using that map_of_is_SomeI [OF pick_latest_dist] pick_latest_Some latest_id by blast
  then have "map p_id (map snd ?m) = map fst ?m" by auto
  then have "distinct (map p_id (map snd ?m))" using pick_latest_dist by metis
  moreover have "mset (map p_id (policies_current docs)) = mset (map p_id (map snd ?m))"
    by (simp add: policies_current_def multiset.map_comp)
  ultimately have "distinct (map p_id (policies_current docs))"
    using mset_eq_imp_distinct_iff by blast
  then show ?thesis by (simp add: policies_current_def)
qed

text \<open>
  \<^verbatim>\<open>current()\<close> lists, in the order of the ids, exactly one document for each policy that has an
  approved version; it is an approved version of that policy, and no approved version of it has
  a later effective date. Drafts and retired versions never appear.
\<close>

theorem current_is_latest:
  "sorted (map p_id (policies_current docs)) \<and> distinct (map p_id (policies_current docs)) \<and>
   set (map p_id (policies_current docs)) = {pid. approved docs pid \<noteq> {}} \<and>
   set (policies_current docs) \<subseteq> {d. latest (approved docs (p_id d)) d}"
proof -
  have "pid \<in> set (map p_id (policies_current docs)) \<longleftrightarrow> approved docs pid \<noteq> {}" for pid
  proof
    assume "pid \<in> set (map p_id (policies_current docs))"
    then obtain d where "d \<in> set (policies_current docs)" "p_id d = pid" by auto
    then show "approved docs pid \<noteq> {}" using current_latest [of d docs] by (auto simp: latest_def)
  next
    assume "approved docs pid \<noteq> {}"
    then obtain d where d: "map_of (fold pick_latest docs []) pid = Some d"
      using pick_latest_inv [of docs pid] by (cases "map_of (fold pick_latest docs []) pid") (auto simp: chosen_def)
    then have "p_id d = pid" using pick_latest_Some latest_id by blast
    then show "pid \<in> set (map p_id (policies_current docs))" using d current_iff [of d docs] by force
  qed
  then show ?thesis using current_ids [of docs] current_latest [of _ docs] by blast
qed

definition day_of :: "string \<Rightarrow> int" where
  "day_of s = (case parse_iso_date s of Inl _ \<Rightarrow> 0 | Inr d \<Rightarrow> toordinal d)"

lemma real_date_le: "is_ok (real_date s) \<Longrightarrow> is_ok (real_date t) \<Longrightarrow> s \<le> t \<longleftrightarrow> day_of s \<le> day_of t"
  using iso_le_iff [of s t] by (auto simp: real_date_def is_ok_iff day_of_def split: if_splits sum.splits)

lemma sorted_last_max: "sorted (map f xs) \<Longrightarrow> x \<in> set xs \<Longrightarrow> f x \<le> f (last xs)"
  by (induction xs) auto

text \<open>
  \<^verbatim>\<open>version_as_of\<close> returns the version in force on the day: with real dates, an approved
  version of the policy whose effective day is not after the day asked for, and no approved
  version of the policy became effective between the two; when it returns nothing, no approved
  version was effective on that day. The comparison of the strings is the comparison of the days.
\<close>

theorem version_in_force:
  assumes "\<And>d. d \<in> set docs \<Longrightarrow> is_ok (real_date (p_effective d))" and "is_ok (real_date as_of)"
  shows "case version_as_of docs pid as_of of
      None \<Rightarrow> approved docs pid \<inter> {d. day_of (p_effective d) \<le> day_of as_of} = {}
    | Some d \<Rightarrow> d \<in> approved docs pid \<and> day_of (p_effective d) \<le> day_of as_of \<and>
        approved docs pid \<inter> {e. day_of (p_effective d) < day_of (p_effective e) \<and> day_of (p_effective e) \<le> day_of as_of} = {}"
proof -
  let ?cs = "filter (\<lambda>d. p_status d = PolicyApproved \<and> p_effective d \<le> as_of) (policy_versions docs pid)"
  have le: "p_effective d \<le> as_of \<longleftrightarrow> day_of (p_effective d) \<le> day_of as_of"
      "p_effective d \<le> p_effective e \<longleftrightarrow> day_of (p_effective d) \<le> day_of (p_effective e)"
    if "d \<in> set docs" "e \<in> set docs" for d e
    using real_date_le assms that by blast+
  have cs: "d \<in> set ?cs \<longleftrightarrow> d \<in> approved docs pid \<and> day_of (p_effective d) \<le> day_of as_of" for d
    using le(1) by (auto simp: policy_versions_def approved_def)
  show ?thesis
  proof (cases "?cs = []")
    case True
    then have none: "version_as_of docs pid as_of = None" by (simp add: version_as_of_def)
    have "\<not> (d \<in> approved docs pid \<and> day_of (p_effective d) \<le> day_of as_of)" for d
      unfolding cs [symmetric] True by simp
    then show ?thesis unfolding none by auto
  next
    case False
    then have some: "version_as_of docs pid as_of = Some (last ?cs)" by (simp add: version_as_of_def)
    have "sorted (map p_effective ?cs)" by (simp add: policy_versions_def sorted_filter)
    then have max: "p_effective e \<le> p_effective (last ?cs)" if "e \<in> set ?cs" for e
      using that by (simp add: sorted_last_max)
    have l: "last ?cs \<in> approved docs pid \<and> day_of (p_effective (last ?cs)) \<le> day_of as_of"
      using last_in_set [OF False] unfolding cs .
    have "day_of (p_effective e) \<le> day_of (p_effective (last ?cs))"
      if "e \<in> approved docs pid" "day_of (p_effective e) \<le> day_of as_of" for e
      using max [of e] that l le(2) [of e "last ?cs"] unfolding cs by (simp add: approved_def)
    then show ?thesis unfolding some using l by fastforce
  qed
qed

text \<open>Three versions of one policy, the last one a draft, to evaluate on.\<close>

definition example_policy :: "string \<Rightarrow> string \<Rightarrow> policy_status \<Rightarrow> policy" where
  "example_policy v day st = \<lparr>p_id = ''P-1'', p_version = v, p_effective = day, p_status = st, p_title = ''T'', p_owner = [],
     p_regulations = [], p_controls = [], p_source = ''policies/'' @ v, p_sha256 = v, p_sections = []\<rparr>"

definition example_docs :: "policy list" where
  "example_docs = [example_policy ''1'' ''2025-01-31'' PolicyApproved, example_policy ''2'' ''2026-01-31'' PolicyApproved,
     example_policy ''3'' ''2026-02-28'' PolicyDraft]"

lemma real_dates_example:
  "is_ok (real_date ''2025-01-31'')" "is_ok (real_date ''2026-01-31'')" "is_ok (real_date ''2026-02-28'')"
  by code_simp+

lemma version_in_force_witness:
  "case version_as_of example_docs ''P-1'' ''2026-02-28'' of
      None \<Rightarrow> approved example_docs ''P-1'' \<inter> {d. day_of (p_effective d) \<le> day_of ''2026-02-28''} = {}
    | Some d \<Rightarrow> d \<in> approved example_docs ''P-1'' \<and> day_of (p_effective d) \<le> day_of ''2026-02-28'' \<and>
        approved example_docs ''P-1'' \<inter> {e. day_of (p_effective d) < day_of (p_effective e) \<and>
          day_of (p_effective e) \<le> day_of ''2026-02-28''} = {}"
proof (rule version_in_force)
  show "is_ok (real_date (p_effective d))" if "d \<in> set example_docs" for d
    using that real_dates_example by (auto simp: example_docs_def example_policy_def)
  show "is_ok (real_date ''2026-02-28'')" by (rule real_dates_example)
qed

text \<open>
  Two approved versions with the same effective date are told apart differently: \<^verbatim>\<open>current\<close> keeps
  the first one, \<^verbatim>\<open>version_as_of\<close> returns the last one.
\<close>

lemma equal_dates_differ:
  fixes a b :: policy
  defines "a \<equiv> example_policy ''1'' ''2026-01-31'' PolicyApproved" and "b \<equiv> example_policy ''2'' ''2026-01-31'' PolicyApproved"
  shows "policies_current [a, b] = [a]" "version_as_of [a, b] ''P-1'' ''2026-01-31'' = Some b" "a \<noteq> b"
  by (simp_all add: a_def b_def example_policy_def policies_current_def pick_latest_def version_as_of_def policy_versions_def)

section \<open>Search and ranking\<close>

text \<open>
  A search returns sections of current policies only, each with at least one term of the
  query and with the citation built from that policy, at most \<open>limit\<close> of them; they come best
  first, and no section that was left out scores higher than one that is returned.
\<close>

theorem search_ranks:
  fixes docs query and limit :: int
  defines "ks \<equiv> py_take limit (sort_key (\<lambda>p. - int (fst p)) (scored_hits docs query))"
  assumes "0 \<le> limit"
  shows "policies_search docs query limit = map snd ks \<and> int (length ks) \<le> limit \<and>
    sorted_wrt (\<ge>) (map fst ks) \<and>
    (\<exists>rest. mset (ks @ rest) = mset (scored_hits docs query) \<and> (\<forall>p \<in> set ks. \<forall>q \<in> set rest. fst q \<le> fst p)) \<and>
    set ks \<subseteq> {(n, h). 0 < n \<and> (\<exists>d \<in> set (policies_current docs). \<exists>s \<in> set (p_sections d).
      h = hit_of d s \<and> n = section_score (search_terms query) s)}"
proof -
  let ?all = "sort_key (\<lambda>p. - int (fst p)) (scored_hits docs query)"
  have ks: "ks = take (nat limit) ?all" using assms(2) by (simp add: ks_def py_take_def)
  have "sorted (map (\<lambda>p. - int (fst p)) ?all)" by simp
  then have srt: "sorted_wrt (\<lambda>p q. fst q \<le> fst p) ?all" by (simp add: sorted_map)
  have split: "?all = ks @ drop (nat limit) ?all" by (simp add: ks)
  have "sorted_wrt (\<lambda>p q. fst q \<le> fst p) (ks @ drop (nat limit) ?all)" using srt split by metis
  then have parts: "sorted_wrt (\<lambda>p q. fst q \<le> fst p) ks" "\<forall>p \<in> set ks. \<forall>q \<in> set (drop (nat limit) ?all). fst q \<le> fst p"
    unfolding sorted_wrt_append by blast+
  have "mset (ks @ drop (nat limit) ?all) = mset (scored_hits docs query)" using split by (metis mset_sort)
  moreover have "int (length ks) \<le> limit" using assms(2) by (simp add: ks)
  moreover have "set ks \<subseteq> set (scored_hits docs query)" using set_take_subset ks by (metis set_sort)
  moreover have "set (scored_hits docs query) \<subseteq> {(n, h). 0 < n \<and> (\<exists>d \<in> set (policies_current docs). \<exists>s \<in> set (p_sections d).
      h = hit_of d s \<and> n = section_score (search_terms query) s)}"
    by (auto simp: scored_hits_def Let_def)
  moreover have "policies_search docs query limit = map snd ks" by (simp add: policies_search_def ks_def)
  ultimately show ?thesis using parts by (auto simp: sorted_wrt_map)
qed

lemma search_ranks_witness:
  "int (length (py_take 5 (sort_key (\<lambda>p. - int (fst p)) (scored_hits example_docs ''retention'')))) \<le> 5"
  using search_ranks [of 5 example_docs "''retention''"] by simp

section \<open>Attestations that are due\<close>

lemma due_items_spec:
  "case due_items h today items of
     Inr ds \<Rightarrow> {a \<in> set items. a_status a \<noteq> Complete} \<subseteq> {a. is_ok (parse_iso_date (a_due a))} \<and>
       ds = map (\<lambda>a. due_of a (day_of (a_due a) - toordinal today))
         (filter (\<lambda>a. a_status a \<noteq> Complete \<and> day_of (a_due a) - toordinal today \<le> h) items)
   | Inl e \<Rightarrow> \<exists>a \<in> set items. a_status a \<noteq> Complete \<and> parse_iso_date (a_due a) = Inl e"
proof (induction items)
  case (Cons a items)
  show ?case
  proof (cases "a_status a = Complete")
    case True
    then show ?thesis using Cons by (auto split: sum.splits)
  next
    case False
    then show ?thesis
      using Cons by (cases "parse_iso_date (a_due a)"; cases "due_items h today items")
        (auto simp: Let_def is_ok_iff day_of_def days_between_def)
  qed
qed simp

text \<open>
  \<^verbatim>\<open>due\<close> lists exactly the attestations that are not complete and whose due date is at most
  \<open>h\<close> days after today, overdue ones included, each with the number of days that remain, in the
  order of the due dates. It raises when, and only when, an open attestation has an impossible
  date: one bad record hides all the others.
\<close>

theorem attestations_due_exact:
  "case attestations_due items h today of
     Inr ds \<Rightarrow> {a \<in> set items. a_status a \<noteq> Complete} \<subseteq> {a. is_ok (parse_iso_date (a_due a))} \<and>
       sorted (map a_due ds) \<and>
       mset ds = mset (map (\<lambda>a. due_of a (day_of (a_due a) - toordinal today))
         (filter (\<lambda>a. a_status a \<noteq> Complete \<and> day_of (a_due a) - toordinal today \<le> h) items))
   | Inl e \<Rightarrow> \<exists>a \<in> set items. a_status a \<noteq> Complete \<and> parse_iso_date (a_due a) = Inl e"
  using due_items_spec [where h = h and today = today and items = items]
  by (cases "due_items h today items") (simp_all add: attestations_due_def)

end
