(* ===== verification/Draft_Checks.thy ===== *)
theory Draft_Checks
  imports Store
begin

text \<open>
  The checks of draft_checks.py on the content of a draft: the quotes of a policy mapping must
  be verbatim from the releases it names, and an evidence index must cite the hash of the
  evidence recomputed now. The release lookup and the recomputation are arguments, as in the
  source; the regular expressions are those of the source, run by the engine of \<open>Py_Regex\<close>.
\<close>

section \<open>The patterns\<close>

definition rx_space :: rx where
  "rx_space = Cls is_space"

definition rx_digits :: "nat \<Rightarrow> rx" where
  "rx_digits n = rx_times n (Cls is_digit)"

definition rx_chr :: "char \<Rightarrow> rx" where
  "rx_chr c = Cls (\<lambda>x. x = c)"

definition quote_cell :: rx where
  "quote_cell = rx_cats [Bol, rx_chr (CHR ''|''), Rep True rx_space, rx_plus True (Cls is_digit), Rep True rx_space,
     rx_chr (CHR ''|''), Rep True (Cls (\<lambda>c. c \<noteq> CHR ''|'')), rx_chr (CHR ''|''), Rep True rx_space, rx_chr quote,
     Grp 1 (rx_plus False (Cls (\<lambda>c. c \<noteq> nl))), rx_chr quote, Rep True rx_space, rx_chr (CHR ''|'')]"

definition sha256_rx :: rx where
  "sha256_rx = rx_cats [Wb, rx_times 64 (Cls (\<lambda>c. c \<in> set ''0123456789abcdef'')), Wb]"

definition rx_date :: rx where
  "rx_date = rx_cats [rx_digits 4, rx_chr (CHR ''-''), rx_digits 2, rx_chr (CHR ''-''), rx_digits 2]"

definition index_title :: rx where
  "index_title = rx_cats [rx_lit ''Evidence index '',
     Grp 1 (rx_plus True (Cls (\<lambda>c. 65 \<le> (ord c :: nat) \<and> ord c \<le> (90 :: nat) \<or> is_digit c \<or> c = CHR ''-''))),
     rx_lit '' '', Grp 2 rx_date, rx_lit ''..'', Grp 3 rx_date]"

definition normalise :: "string \<Rightarrow> string" where
  "normalise text = str_strip (rx_sub (rx_plus True rx_space) '' '' text)"

section \<open>The checks\<close>

definition double_quoted :: "string \<Rightarrow> string" where
  "double_quoted s = quote # s @ [quote]"

definition quotes_of :: "string \<Rightarrow> string list" where
  "quotes_of body = map normalise (rx_findall_group quote_cell 1 body)"

definition corpus_of :: "(string \<Rightarrow> release option) \<Rightarrow> string list \<Rightarrow> string list" where
  "corpus_of lookup related = map (\<lambda>r. normalise (r_text r)) (concat (map (\<lambda>i. case lookup i of None \<Rightarrow> [] | Some r \<Rightarrow> [r]) related))"

definition missing_quotes :: "string list \<Rightarrow> string list \<Rightarrow> string list" where
  "missing_quotes quotes corpus = filter (\<lambda>q. \<not> list_ex (\<lambda>text. str_contains q text) corpus) quotes"

definition listed_quote :: "string \<Rightarrow> string" where
  "listed_quote q = double_quoted (take 80 q @ (if 80 < length q then ''...'' else []))"

definition check_policy_mapping :: "string \<Rightarrow> string list \<Rightarrow> (string \<Rightarrow> release option) \<Rightarrow> unit res" where
  "check_policy_mapping body related lookup =
     (let quotes = quotes_of body; corpus = corpus_of lookup related; missing = missing_quotes quotes corpus
      in if quotes = []
         then Inl (DraftRejected (''policy_mapping draft has no obligations table with quoted text (| # | type | ''
                @ double_quoted ''quote'' @ '' | ...)''))
         else if corpus = []
         then Inl (DraftRejected ''related_ids must include at least one known release id so quotes can be verified'')
         else if missing \<noteq> []
         then Inl (DraftRejected (nat_str (length missing) @ '' quote(s) are not verbatim from the related release(s): ''
                @ str_join ''; '' (map listed_quote missing)))
         else Inr ())"

definition check_evidence_pack_index ::
    "string \<Rightarrow> string \<Rightarrow> (string \<Rightarrow> string \<Rightarrow> string \<Rightarrow> string option res) \<Rightarrow> unit res" where
  "check_evidence_pack_index body title recompute =
     (case rx_search index_title title of
        None \<Rightarrow> Inl (DraftRejected (''evidence_pack_index title must be '' @ single_quoted ''Evidence index <control_id> <start>..<end>''))
      | Some m \<Rightarrow>
          (let cited = rx_findall sha256_rx body
           in if cited = []
              then Inl (DraftRejected ''evidence_pack_index body must cite the manifest SHA-256 from evidence_bundle'')
              else rbind (recompute (m_group m 1) (m_group m 2) (m_group m 3)) (\<lambda>actual.
                case actual of
                  None \<Rightarrow> Inl (DraftRejected (''cannot recompute evidence for '' @ m_group m 1 @ '' '' @ m_group m 2 @ ''..'' @ m_group m 3))
                | Some h \<Rightarrow>
                    if h \<notin> set cited
                    then Inl (DraftRejected ''cited manifest hash does not match the evidence bundle for this control and period; re-run evidence_bundle'')
                    else Inr ())))"

definition check_draft ::
    "draft_kind \<Rightarrow> string \<Rightarrow> string \<Rightarrow> string list \<Rightarrow> (string \<Rightarrow> release option) \<Rightarrow>
     (string \<Rightarrow> string \<Rightarrow> string \<Rightarrow> string option res) \<Rightarrow> unit res" where
  "check_draft kind title body related lookup recompute =
     (if kind = PolicyMapping then check_policy_mapping body related lookup
      else if kind = EvidencePackIndex then check_evidence_pack_index body title recompute
      else Inr ())"

section \<open>What an accepted draft satisfies\<close>


text \<open>
  An evidence index is accepted only when its title names a control and a period and its
  body contains, verbatim, the hash that the evidence of that control and period has now. A
  body without that hash is refused, whatever other hashes it cites.
\<close>

theorem index_cites_current_hash:
  assumes "check_draft EvidencePackIndex title body related lookup recompute = Inr ()"
  shows "\<exists>m h. rx_search index_title title = Some m \<and> recompute (m_group m 1) (m_group m 2) (m_group m 3) = Inr (Some h) \<and>
    str_contains h body"
  using assms rx_findall_contains
  by (fastforce simp: check_draft_def check_evidence_pack_index_def Let_def rbind_Inr_iff split: option.splits if_splits)

definition example_hash :: string where
  "example_hash = replicate 64 (CHR ''a'')"

lemma example_index_accepted:
  "check_draft EvidencePackIndex ''Evidence index C-1 2026-01-01..2026-03-31'' (''hash '' @ example_hash) []
     (\<lambda>_. None) (\<lambda>c s e. Inr (if c = ''C-1'' then Some example_hash else None)) = Inr ()"
  by code_simp

lemma index_cites_current_hash_witness:
  "\<exists>m h. rx_search index_title ''Evidence index C-1 2026-01-01..2026-03-31'' = Some m \<and>
     str_contains h (''hash '' @ example_hash)"
  using index_cites_current_hash [OF example_index_accepted] by blast

text \<open>
  Only rows that start at the beginning of a line are looked at: an indented row of the table
  with an invented quote is not checked.
\<close>

lemma indented_row_not_checked:
  "check_draft PolicyMapping [] (''|1|t|'' @ double_quoted ''ab'' @ ''|'' @ [nl] @ '' |2|t|'' @ double_quoted ''zz'' @ ''|'')
     [''R''] (\<lambda>i. Some \<lparr>r_id = i, r_source = [], r_published = [], r_title = [], r_url = [], r_text = ''ab''\<rparr>)
     (\<lambda>_ _ _. Inr None) = Inr ()"
  by code_simp

end
