(* ===== verification/Drafts.thy ===== *)
theory Drafts
  imports Models Audit_Log
begin

text \<open>
  The review queue of drafts.py. The table is the list of its rows in the order of insertion,
  one column per field, with the key constraint and the conditional update of the SQL
  statements; a row is decoded by \<open>to_draft\<close>, which raises where the code does. One operation
  is one transaction, so a run of the server and of the review command is a sequence of them.
\<close>

named_theorems draft_defs \<open>the operations of the draft store\<close>

section \<open>The table\<close>

record draft_row =
  dr_draft_id :: string
  dr_kind :: string
  dr_title :: string
  dr_body :: string
  dr_requester :: string
  dr_session_id :: string
  dr_related_ids :: string
  dr_created :: string
  dr_status :: string
  dr_content_sha256 :: string
  dr_decision_by :: "string option"
  dr_decision_note :: "string option"
  dr_decision_at :: "string option"

type_synonym drafts_db = "draft_row list"

definition row_of :: "drafts_db \<Rightarrow> string \<Rightarrow> draft_row option" where
  [draft_defs]: "row_of db i = find (\<lambda>r. dr_draft_id r = i) db"

text \<open>\<^verbatim>\<open>INSERT\<close>: the primary key is unique.\<close>

definition insert_row :: "draft_row \<Rightarrow> drafts_db \<Rightarrow> drafts_db res" where
  [draft_defs]: "insert_row r db = (if row_of db (dr_draft_id r) = None then Inr (db @ [r]) else Inl IntegrityError)"

text \<open>\<^verbatim>\<open>UPDATE ... WHERE draft_id = ? AND status = 'pending'\<close>: the table and the row count.\<close>

definition update_pending ::
    "string \<Rightarrow> string \<Rightarrow> string \<Rightarrow> string \<Rightarrow> string \<Rightarrow> drafts_db \<Rightarrow> drafts_db \<times> nat" where
  [draft_defs]: "update_pending status who note at i db =
     (let hit = (\<lambda>r. dr_draft_id r = i \<and> dr_status r = ''pending'')
      in (map (\<lambda>r. if hit r then r\<lparr>dr_status := status, dr_decision_by := Some who,
                dr_decision_note := Some note, dr_decision_at := Some at\<rparr> else r) db,
          length (filter hit db)))"

section \<open>Decoding a row\<close>

text \<open>\<^verbatim>\<open>tuple(json.loads(text))\<close>, which the model then requires to be a tuple of strings.\<close>

fun json_str :: "json \<Rightarrow> string res" where
  "json_str (JStr s) = Inr s"
| "json_str _ = Inl ValidationError"

fun tuple_of :: "json \<Rightarrow> string list res" where
  "tuple_of (JArr xs) = mapM json_str xs"
| "tuple_of (JStr s) = Inr (map (\<lambda>c. [c]) s)"
| "tuple_of (JObj ms) = Inr (map fst ms)"
| "tuple_of _ = Inl TypeError"

definition row_decision :: "draft_row \<Rightarrow> decision option res" where
  [draft_defs]: "row_decision r =
     (case dr_decision_by r of None \<Rightarrow> Inr None
      | Some who \<Rightarrow>
          if who = [] then Inr None
          else (case dr_decision_at r of None \<Rightarrow> Inl ValidationError
                | Some at \<Rightarrow> Inr (Some \<lparr>de_by = who, de_note = (case dr_decision_note r of None \<Rightarrow> [] | Some n \<Rightarrow> n),
                    de_at = at\<rparr>)))"

definition to_draft :: "draft_row \<Rightarrow> draft res" where
  [draft_defs]: "to_draft r =
     rbind (row_decision r) (\<lambda>decision.
     rbind (draft_kind_of (dr_kind r)) (\<lambda>kind.
     rbind (rbind (loads (dr_related_ids r)) tuple_of) (\<lambda>related.
     rbind (draft_status_of (dr_status r)) (\<lambda>status.
       Inr \<lparr>d_draft_id = dr_draft_id r, d_kind = kind, d_title = dr_title r, d_body = dr_body r,
         d_requester = dr_requester r, d_session_id = dr_session_id r, d_related_ids = related,
         d_created = dr_created r, d_status = status, d_content_sha256 = dr_content_sha256 r,
         d_decision = decision\<rparr>))))"

section \<open>The operations\<close>

text \<open>What \<^verbatim>\<open>create\<close> reads from the world: two readings of the clock and a new uuid.\<close>

record draft_world =
  dw_day :: nat
  dw_uuid :: string
  dw_now :: nat

definition new_draft ::
    "hashes \<Rightarrow> draft_kind \<Rightarrow> string \<Rightarrow> string \<Rightarrow> string \<Rightarrow> string list \<Rightarrow> string \<Rightarrow> draft_world \<Rightarrow> draft" where
  "new_draft H kind title body requester related session w =
     \<lparr>d_draft_id = ''D-'' @ date_compact (dw_day w) @ ''-'' @ take 8 (dw_uuid w), d_kind = kind,
       d_title = str_strip title, d_body = body, d_requester = requester, d_session_id = session,
       d_related_ids = related, d_created = utc_now (dw_now w), d_status = Pending,
       d_content_sha256 = sha256 H (utf8 body), d_decision = None\<rparr>"

definition row_for :: "draft \<Rightarrow> draft_row" where
  [draft_defs]: "row_for d =
     \<lparr>dr_draft_id = d_draft_id d, dr_kind = draft_kind_str (d_kind d), dr_title = d_title d, dr_body = d_body d,
       dr_requester = d_requester d, dr_session_id = d_session_id d,
       dr_related_ids = dumps spaced_ascii (JArr (map JStr (d_related_ids d))), dr_created = d_created d,
       dr_status = draft_status_str (d_status d), dr_content_sha256 = d_content_sha256 d,
       dr_decision_by = None, dr_decision_note = None, dr_decision_at = None\<rparr>"

definition draft_create ::
    "hashes \<Rightarrow> draft_kind \<Rightarrow> string \<Rightarrow> string \<Rightarrow> string \<Rightarrow> string list \<Rightarrow> string \<Rightarrow> draft_world \<Rightarrow> drafts_db \<Rightarrow>
     (draft \<times> drafts_db) res" where
  "draft_create H kind title body requester related session w db =
     (if str_strip title = [] \<or> str_strip body = [] then Inl (ValueError ''title and body are required'')
      else (let d = new_draft H kind title body requester related session w
            in rbind (insert_row (row_for d) db) (\<lambda>db'. Inr (d, db'))))"

definition draft_get :: "string \<Rightarrow> drafts_db \<Rightarrow> draft option res" where
  "draft_get i db = (case row_of db i of None \<Rightarrow> Inr None | Some r \<Rightarrow> rbind (to_draft r) (\<lambda>d. Inr (Some d)))"

text \<open>
  \<^verbatim>\<open>decide\<close>: the table after the call, which on an error is the one after the rollback, and the
  draft that is returned.
\<close>

definition draft_decide ::
    "string \<Rightarrow> draft_status \<Rightarrow> string \<Rightarrow> string \<Rightarrow> nat \<Rightarrow> drafts_db \<Rightarrow> drafts_db \<times> draft res" where
  "draft_decide i status who note now db =
     (if status \<noteq> Approved \<and> status \<noteq> Rejected then (db, Inl (ValueError ''decision must be approved or rejected''))
      else (case update_pending (draft_status_str status) who note (utc_now now) i db of
              (db', n) \<Rightarrow>
                if n \<noteq> 1
                then (db, Inl (DraftConflict (''draft '' @ i @ '' is not pending (missing or already decided)'')))
                else (db', rbind (draft_get i db') (\<lambda>d. case d of None \<Rightarrow> Inl AssertionError | Some d \<Rightarrow> Inr d))))"

definition summary_of :: "draft \<Rightarrow> draft_summary" where
  "summary_of d =
     \<lparr>ds_draft_id = d_draft_id d, ds_kind = d_kind d, ds_title = d_title d, ds_requester = d_requester d,
       ds_created = d_created d, ds_status = d_status d, ds_decision = d_decision d\<rparr>"

text \<open>Rows with the same creation time come in the order of the index, that of insertion.\<close>

definition draft_list :: "draft_status \<Rightarrow> drafts_db \<Rightarrow> draft_summary list res" where
  "draft_list status db =
     rbind (mapM to_draft (sort_key dr_created (filter (\<lambda>r. dr_status r = draft_status_str status) db)))
       (\<lambda>ds. Inr (map summary_of ds))"

section \<open>The contract of a review queue\<close>

text \<open>
  Items are added as pending and decided once. From these laws alone: in any run, at most one
  decision of an item is accepted, a decided item never changes, and what an item says never
  changes.
\<close>

datatype ('a, 'i, 'v) queue_call = Add 'a | Settle 'i 'v

fun settle_count ::
    "('a \<Rightarrow> 's \<Rightarrow> 's option) \<Rightarrow> ('i \<Rightarrow> 'v \<Rightarrow> 's \<Rightarrow> 's option) \<Rightarrow> 'i \<Rightarrow> ('a, 'i, 'v) queue_call list \<Rightarrow> 's \<Rightarrow> nat \<times> 's" where
  "settle_count add settle i [] s = (0, s)"
| "settle_count add settle i (Add a # cs) s =
     settle_count add settle i cs (case add a s of None \<Rightarrow> s | Some s' \<Rightarrow> s')"
| "settle_count add settle i (Settle j v # cs) s =
     (case settle j v s of None \<Rightarrow> settle_count add settle i cs s
      | Some s' \<Rightarrow> (case settle_count add settle i cs s' of (n, t) \<Rightarrow> (if j = i then n + 1 else n, t)))"

locale review_queue =
  fixes ok :: "'s \<Rightarrow> bool" and look :: "'i \<Rightarrow> 's \<Rightarrow> 'd option" and is_pending :: "'d \<Rightarrow> bool"
    and content :: "'d \<Rightarrow> 'c"
    and add :: "'a \<Rightarrow> 's \<Rightarrow> 's option" and settle :: "'i \<Rightarrow> 'v \<Rightarrow> 's \<Rightarrow> 's option"
  assumes add_ok: "ok s \<Longrightarrow> add a s = Some s' \<Longrightarrow> ok s'"
    and add_look: "ok s \<Longrightarrow> add a s = Some s' \<Longrightarrow> look i s = Some d \<Longrightarrow> look i s' = Some d"
    and settle_ok: "ok s \<Longrightarrow> settle i v s = Some s' \<Longrightarrow> ok s'"
    and settle_pending: "ok s \<Longrightarrow> settle i v s = Some s' \<Longrightarrow> \<exists>d d'. look i s = Some d \<and> is_pending d \<and>
        look i s' = Some d' \<and> \<not> is_pending d' \<and> content d' = content d"
    and settle_other: "ok s \<Longrightarrow> settle i v s = Some s' \<Longrightarrow> j \<noteq> i \<Longrightarrow> look j s' = look j s"
begin

lemma decided_stays:
  "ok s \<Longrightarrow> look i s = Some d \<Longrightarrow> \<not> is_pending d \<Longrightarrow> settle_count add settle i cs s = (n, s') \<Longrightarrow>
   n = 0 \<and> ok s' \<and> look i s' = Some d"
proof (induction cs arbitrary: s n s')
  case (Cons c cs)
  show ?case
  proof (cases c)
    case (Add a)
    show ?thesis
    proof (cases "add a s")
      case None
      then show ?thesis using Cons.IH [of s n s'] Cons.prems Add by simp
    next
      case (Some t)
      then show ?thesis
        using Cons.IH [of t n s'] Cons.prems Add add_ok [of s a t] add_look [of s a t i d] by simp
    qed
  next
    case (Settle j v)
    show ?thesis
    proof (cases "settle j v s")
      case None
      then show ?thesis using Cons.IH [of s n s'] Cons.prems Settle by simp
    next
      case (Some t)
      obtain m u where mu: "settle_count add settle i cs t = (m, u)" by fastforce
      have ne: "j \<noteq> i" using settle_pending [OF Cons.prems(1) Some] Cons.prems(2,3) by auto
      then have "look i t = Some d" using settle_other [OF Cons.prems(1) Some] Cons.prems(2) by simp
      then show ?thesis
        using Cons.IH [OF settle_ok [OF Cons.prems(1) Some] _ Cons.prems(3) mu] Cons.prems(4) Settle Some mu ne by simp
    qed
  qed
qed simp

lemma settled_at_most_once:
  "ok s \<Longrightarrow> settle_count add settle i cs s = (n, s') \<Longrightarrow>
   n \<le> 1 \<and> ok s' \<and> (\<forall>d. look i s = Some d \<longrightarrow> (\<exists>d'. look i s' = Some d' \<and> content d' = content d \<and>
     (\<not> is_pending d \<longrightarrow> d' = d \<and> n = 0) \<and> (is_pending d \<longrightarrow> (if n = 1 then \<not> is_pending d' else d' = d))))"
proof (induction cs arbitrary: s n s')
  case (Cons c cs)
  show ?case
  proof (cases c)
    case (Add a)
    show ?thesis
    proof (cases "add a s")
      case None
      then show ?thesis using Cons.IH [of s n s'] Cons.prems Add by simp
    next
      case (Some t)
      then show ?thesis
        using Cons.IH [of t n s'] Cons.prems Add add_ok [of s a t] add_look [of s a t i] by simp
    qed
  next
    case (Settle j v)
    show ?thesis
    proof (cases "settle j v s")
      case None
      then show ?thesis using Cons.IH [of s n s'] Cons.prems Settle by simp
    next
      case (Some t)
      obtain m u where mu: "settle_count add settle i cs t = (m, u)" by fastforce
      note t = settle_ok [OF Cons.prems(1) Some]
      show ?thesis
      proof (cases "j = i")
        case True
        then obtain d d' where d: "look i s = Some d" "is_pending d" "look i t = Some d'" "\<not> is_pending d'"
            "content d' = content d" using settle_pending [OF Cons.prems(1) Some] by auto
        then show ?thesis
          using decided_stays [OF t d(3,4) mu] Cons.prems(2) Settle Some mu True by auto
      next
        case False
        then show ?thesis
          using Cons.IH [OF t mu] settle_other [OF Cons.prems(1) Some, of i] Cons.prems(2) Settle Some mu by simp
      qed
    qed
  qed
qed auto

end

section \<open>The draft table keeps the contract\<close>

lemma find_some_id: "row_of db i = Some r \<Longrightarrow> r \<in> set db \<and> dr_draft_id r = i"
  by (induction db) (auto simp: row_of_def split: if_splits)

lemma row_of_append: "row_of (db @ [r]) i = (case row_of db i of None \<Rightarrow> if dr_draft_id r = i then Some r else None | Some x \<Rightarrow> Some x)"
  by (induction db) (auto simp: row_of_def)

lemma row_of_None: "row_of db i = None \<longleftrightarrow> i \<notin> dr_draft_id ` set db"
  by (induction db) (auto simp: row_of_def)

lemma row_of_map:
  "(\<And>r. dr_draft_id (f r) = dr_draft_id r) \<Longrightarrow> row_of (map f db) i = map_option f (row_of db i)"
  by (induction db) (auto simp: row_of_def)

lemma map_ids: "(\<And>r. dr_draft_id (f r) = dr_draft_id r) \<Longrightarrow> map dr_draft_id (map f db) = map dr_draft_id db"
  by (induction db) auto

text \<open>A table with distinct ids, whose rows decode.\<close>

definition row_wf :: "draft_row \<Rightarrow> bool" where
  "row_wf r \<longleftrightarrow> is_ok (to_draft r) \<and> (dr_status r = ''pending'' \<longrightarrow> dr_decision_by r = None)"

definition db_wf :: "drafts_db \<Rightarrow> bool" where
  "db_wf db \<longleftrightarrow> distinct (map dr_draft_id db) \<and> (\<forall>r \<in> set db. row_wf r)"

lemma update_count:
  "distinct (map dr_draft_id db) \<Longrightarrow>
   length (filter (\<lambda>r. dr_draft_id r = i \<and> dr_status r = ''pending'') db) =
     (case row_of db i of None \<Rightarrow> 0 | Some r \<Rightarrow> if dr_status r = ''pending'' then 1 else 0)"
proof (induction db)
  case (Cons x db)
  have "filter (\<lambda>r. dr_draft_id r = i \<and> dr_status r = ''pending'') db = []" if "dr_draft_id x = i"
    using Cons.prems that by (auto simp: filter_empty_conv) (metis imageI)
  then show ?case using Cons by (auto simp: row_of_def)
qed (simp add: row_of_def)

text \<open>The row of a decided draft.\<close>

definition decided_row :: "draft_status \<Rightarrow> string \<Rightarrow> string \<Rightarrow> nat \<Rightarrow> draft_row \<Rightarrow> draft_row" where
  "decided_row st who note now r =
     r\<lparr>dr_status := draft_status_str st, dr_decision_by := Some who, dr_decision_note := Some note,
       dr_decision_at := Some (utc_now now)\<rparr>"

lemma decided_row_wf: "is_ok (to_draft r) \<Longrightarrow> st \<noteq> Pending \<Longrightarrow> row_wf (decided_row st who note now r)"
  using draft_status_inj [of st Pending]
  by (cases st) (auto simp: row_wf_def decided_row_def to_draft_def row_decision_def is_ok_iff rbind_Inr_iff
      draft_status_of_def)

text \<open>\<open>decide\<close> succeeds exactly on a pending draft, and then changes its row and no other.\<close>

lemma decide_cases:
  assumes "db_wf db"
  shows "(case row_of db i of
      Some r \<Rightarrow> if dr_status r = ''pending'' \<and> st \<noteq> Pending
        then \<exists>db' d. draft_decide i st who note now db = (db', Inr d) \<and> to_draft (decided_row st who note now r) = Inr d \<and>
          (\<forall>j. row_of db' j = (if j = i then Some (decided_row st who note now r) else row_of db j)) \<and> db_wf db' \<and>
          map dr_draft_id db' = map dr_draft_id db
        else \<exists>e. draft_decide i st who note now db = (db, Inl e)
    | None \<Rightarrow> \<exists>e. draft_decide i st who note now db = (db, Inl e))"
proof -
  have dist: "distinct (map dr_draft_id db)" using assms by (simp add: db_wf_def)
  let ?f = "\<lambda>r. if dr_draft_id r = i \<and> dr_status r = ''pending''
    then decided_row st who note now r else r"
  have id: "dr_draft_id (?f r) = dr_draft_id r" for r by (simp add: decided_row_def)
  have upd: "update_pending (draft_status_str st) who note (utc_now now) i db = (map ?f db,
      (case row_of db i of None \<Rightarrow> 0 | Some r \<Rightarrow> if dr_status r = ''pending'' then 1 else 0))"
    by (simp add: update_pending_def Let_def update_count [OF dist] decided_row_def)
  show ?thesis
  proof (cases "row_of db i")
    case None
    then show ?thesis by (simp add: draft_decide_def upd)
  next
    case (Some r)
    show ?thesis
    proof (cases "dr_status r = ''pending'' \<and> st \<noteq> Pending")
      case False
      then show ?thesis using Some
        by (cases "st \<noteq> Approved \<and> st \<noteq> Rejected") (auto simp: draft_decide_def upd)
    next
      case True
      have st: "\<not> (st \<noteq> Approved \<and> st \<noteq> Rejected)" using True by (cases st) auto
      have r: "r \<in> set db" "dr_draft_id r = i" using find_some_id [OF Some] by simp_all
      have look: "row_of (map ?f db) j = (if j = i then Some (decided_row st who note now r) else row_of db j)" for j
      proof (cases "j = i")
        case True
        then show ?thesis using row_of_map [of ?f db j, OF id] Some r \<open>dr_status r = ''pending'' \<and> st \<noteq> Pending\<close> by simp
      next
        case False
        have "map_option ?f (row_of db j) = row_of db j"
          using find_some_id [of db j] False by (cases "row_of db j") simp_all
        then show ?thesis using row_of_map [of ?f db j, OF id] False by simp
      qed
      have wf: "row_wf (decided_row st who note now x)" if "x \<in> set db" for x
        using decided_row_wf assms that True by (simp add: db_wf_def row_wf_def)
      then obtain d where d: "to_draft (decided_row st who note now r) = Inr d"
        using r(1) by (auto simp: row_wf_def is_ok_iff)
      have "db_wf (map ?f db)"
        using assms wf dist by (auto simp: db_wf_def map_ids [OF id] simp del: map_map)
      moreover have "draft_decide i st who note now db = (map ?f db, Inr d)"
        using Some True d look [of i] st by (simp add: draft_decide_def upd draft_get_def)
      ultimately show ?thesis using Some True d look map_ids [of ?f db, OF id] by auto
    qed
  qed
qed

lemma decide_refused:
  assumes "db_wf db" "row_of db i = Some r" "dr_status r \<noteq> ''pending''" "st \<noteq> Pending"
  shows "draft_decide i st who note now db =
    (db, Inl (DraftConflict (''draft '' @ i @ '' is not pending (missing or already decided)'')))"
proof -
  have "distinct (map dr_draft_id db)" using assms(1) by (simp add: db_wf_def)
  then have "snd (update_pending (draft_status_str st) who note (utc_now now) i db) = 0"
    using update_count [of db i] assms(2,3) by (simp add: update_pending_def Let_def)
  then show ?thesis
    using assms(4) by (cases "update_pending (draft_status_str st) who note (utc_now now) i db"; cases st)
      (auto simp: draft_decide_def)
qed

lemma related_round_trip: "rbind (loads (dumps spaced_ascii (JArr (map JStr xs)))) tuple_of = Inr xs"
proof -
  have "wf_json (JArr (map JStr xs))" by simp
  then have "loads (dumps spaced_ascii (JArr (map JStr xs))) = Inr (JArr (map JStr xs))"
    by (rule loads_dumps [OF good_styles(3)])
  moreover have "mapM json_str (map JStr xs) = Inr xs" by (induction xs) simp_all
  ultimately show ?thesis by simp
qed

lemma to_draft_row_for: "d_decision d = None \<Longrightarrow> to_draft (row_for d) = Inr d"
  using related_round_trip [of "d_related_ids d"]
  by (cases d) (simp add: to_draft_def row_for_def row_decision_def model_simps rbind_Inr_iff)

type_synonym draft_args = "draft_kind \<times> string \<times> string \<times> string \<times> string list \<times> string \<times> draft_world"
type_synonym draft_verdict = "draft_status \<times> string \<times> string \<times> nat"

definition draft_add :: "hashes \<Rightarrow> draft_args \<Rightarrow> drafts_db \<Rightarrow> drafts_db option" where
  "draft_add H a db = (case a of (kind, title, body, req, rel, ses, w) \<Rightarrow>
     case draft_create H kind title body req rel ses w db of Inl _ \<Rightarrow> None | Inr (d, db') \<Rightarrow> Some db')"

definition draft_settle :: "string \<Rightarrow> draft_verdict \<Rightarrow> drafts_db \<Rightarrow> drafts_db option" where
  "draft_settle i v db = (case v of (st, who, note, now) \<Rightarrow>
     case draft_decide i st who note now db of (db', Inl _) \<Rightarrow> None | (db', Inr d) \<Rightarrow> Some db')"

definition row_pending :: "draft_row \<Rightarrow> bool" where
  "row_pending r \<longleftrightarrow> dr_status r = ''pending''"

text \<open>What a draft says: everything but its decision.\<close>

definition row_content :: "draft_row \<Rightarrow> draft_row" where
  "row_content r = r\<lparr>dr_status := [], dr_decision_by := None, dr_decision_note := None, dr_decision_at := None\<rparr>"

lemma create_cases:
  assumes "db_wf db" "draft_create H kind title body req rel ses w db = Inr (d, db')"
  shows "d = new_draft H kind title body req rel ses w" "db' = db @ [row_for d]" "row_of db (d_draft_id d) = None"
    "db_wf db'" "str_strip title \<noteq> []" "str_strip body \<noteq> []"
proof -
  show d: "d = new_draft H kind title body req rel ses w" "db' = db @ [row_for d]" "row_of db (d_draft_id d) = None"
      "str_strip title \<noteq> []" "str_strip body \<noteq> []"
    using assms(2) by (auto simp: draft_create_def insert_row_def Let_def row_for_def rbind_Inr_iff split: if_splits)
  have "to_draft (row_for d) = Inr d" by (rule to_draft_row_for) (simp add: d(1) new_draft_def)
  moreover have "dr_draft_id (row_for d) \<notin> dr_draft_id ` set db"
    using d(3) by (simp add: row_of_None row_for_def)
  ultimately show "db_wf db'"
    using assms(1) d(2) by (simp add: db_wf_def row_wf_def is_ok_iff row_for_def)
qed

interpretation drafts: review_queue db_wf "\<lambda>i db. row_of db i" row_pending row_content "draft_add H" draft_settle for H
proof (unfold_locales, goal_cases)
  case (1 s a s')
  then show ?case using create_cases(4) by (auto simp: draft_add_def split: prod.splits sum.splits)
next
  case (2 s a s' i d)
  obtain k t b q l s0 w where a: "a = (k, t, b, q, l, s0, w)" by (cases a) auto
  then obtain x where "draft_create H k t b q l s0 w s = Inr (x, s')"
    using 2(2) by (auto simp: draft_add_def split: sum.splits)
  then have "s' = s @ [row_for x]" by (rule create_cases(2) [OF 2(1)])
  then show ?case using 2(3) by (simp add: row_of_append)
next
  case (3 s i v s')
  obtain st who nt now where v: "v = (st, who, nt, now)" by (cases v) auto
  show ?case using 3(2) decide_cases [OF 3(1), of i st who nt now]
    by (auto simp: draft_settle_def v split: option.splits if_splits)
next
  case (4 s i v s')
  obtain st who nt now where v: "v = (st, who, nt, now)" by (cases v) auto
  show ?case
    using 4(2) decide_cases [OF 4(1), of i st who nt now] draft_status_inj [of st Pending]
    by (auto simp: draft_settle_def v row_pending_def row_content_def decided_row_def split: option.splits if_splits)
next
  case (5 s i v s' j)
  obtain st who nt now where v: "v = (st, who, nt, now)" by (cases v) auto
  show ?case using 5(2,3) decide_cases [OF 5(1), of i st who nt now]
    by (auto simp: draft_settle_def v split: option.splits if_splits)
qed

section \<open>Runs of the store\<close>

text \<open>
  A run of the operations, in any order and from any number of callers: the number of decisions
  of draft \<open>i\<close> that were accepted, and the table at the end. A call that raises leaves the table
  that the operation leaves.
\<close>

fun draft_run :: "hashes \<Rightarrow> string \<Rightarrow> (draft_args, string, draft_verdict) queue_call list \<Rightarrow> drafts_db \<Rightarrow> nat \<times> drafts_db" where
  "draft_run H i [] db = (0, db)"
| "draft_run H i (Add (kind, title, body, req, rel, ses, w) # cs) db =
     draft_run H i cs (case draft_create H kind title body req rel ses w db of Inl _ \<Rightarrow> db | Inr (d, db') \<Rightarrow> db')"
| "draft_run H i (Settle j (st, who, note, now) # cs) db =
     (case draft_decide j st who note now db of
        (db', r) \<Rightarrow> (case draft_run H i cs db' of (n, t) \<Rightarrow> (if j = i \<and> is_ok r then n + 1 else n, t)))"

lemma draft_run_settle:
  "db_wf db \<Longrightarrow> draft_run H i cs db = settle_count (draft_add H) draft_settle i cs db"
proof (induction cs arbitrary: db)
  case (Cons c cs)
  show ?case
  proof (cases c)
    case (Add a)
    obtain k t b q l s0 w where a: "a = (k, t, b, q, l, s0, w)" by (cases a) auto
    show ?thesis
    proof (cases "draft_create H k t b q l s0 w db")
      case (Inl e)
      then show ?thesis using Cons Add a by (simp add: draft_add_def)
    next
      case (Inr p)
      obtain d db' where p: "p = (d, db')" by (cases p)
      then show ?thesis
        using Cons.IH [OF create_cases(4) [OF Cons.prems]] Inr Add a by (simp add: draft_add_def)
    qed
  next
    case (Settle j v)
    obtain st who nt now where v: "v = (st, who, nt, now)" by (cases v) auto
    consider e where "draft_decide j st who nt now db = (db, Inl e)"
      | db' d where "draft_decide j st who nt now db = (db', Inr d)" "db_wf db'"
      using decide_cases [OF Cons.prems, of j st who nt now] by (auto split: option.splits if_splits)
    then show ?thesis
    proof cases
      case 1
      then show ?thesis
        using Cons.IH [OF Cons.prems] Settle v
        by (cases "settle_count (draft_add H) draft_settle i cs db") (simp add: draft_settle_def is_ok_iff)
    next
      case 2
      then show ?thesis
        using Cons.IH [OF 2(2)] Settle v by (simp add: draft_settle_def is_ok_iff)
    qed
  qed
qed simp

text \<open>
  C5: A draft is decided at most once, and what it says never changes. In any run of \<^verbatim>\<open>create\<close> and
  \<^verbatim>\<open>decide\<close> calls, in any order, at most one decision of a given draft is accepted; a draft that was
  decided already is exactly the same afterwards, and no decision of it is accepted; a pending
  draft keeps its content, and is still there, changed only by the one decision accepted.
\<close>

theorem draft_decided_once:
  assumes "db_wf db" and "draft_run H i cs db = (n, db')"
  shows "n \<le> 1 \<and> db_wf db' \<and>
    (\<forall>r. row_of db i = Some r \<longrightarrow> (\<exists>r'. row_of db' i = Some r' \<and> row_content r' = row_content r \<and>
      (dr_status r \<noteq> ''pending'' \<longrightarrow> r' = r \<and> n = 0) \<and>
      (dr_status r = ''pending'' \<longrightarrow> (if n = 1 then dr_status r' \<noteq> ''pending'' else r' = r))))"
  using drafts.settled_at_most_once [OF assms(1), of H i cs n db'] assms(2) draft_run_settle [OF assms(1)]
  unfolding row_pending_def by simp

definition sum_hash :: hashes where
  "sum_hash = \<lparr>sha256 = (\<lambda>x. nat_str (sum_list (map ord x))), hmac256 = (\<lambda>k x. [])\<rparr>"

definition example_draft :: draft where
  "example_draft = new_draft sum_hash ControlFindingNote '' Finding '' ''text'' ''a@x'' [''C-1''] []
     \<lparr>dw_day = 0, dw_uuid = ''0123456789'', dw_now = 5\<rparr>"

lemma example_db_wf: "db_wf [row_for example_draft]"
  using to_draft_row_for [of example_draft]
  by (simp add: db_wf_def row_wf_def is_ok_iff example_draft_def new_draft_def row_for_def)

lemma draft_decided_once_witness:
  "fst (draft_run sum_hash (d_draft_id example_draft)
     [Settle (d_draft_id example_draft) (Approved, ''bob'', ''ok'', 9),
      Settle (d_draft_id example_draft) (Rejected, ''eve'', [], 9)] [row_for example_draft]) \<le> 1"
  using draft_decided_once [OF example_db_wf prod.collapse [symmetric]] by blast

text \<open>
  When two reviewers decide the same pending draft, the first decision is recorded and
  returned, and the second one is refused with \<^verbatim>\<open>DraftConflict\<close> without touching the table.
\<close>

theorem first_decision_wins:
  assumes "db_wf db" and "row_of db i = Some r" and "dr_status r = ''pending''"
    and "st \<noteq> Pending" and "st' \<noteq> Pending" and "who \<noteq> []"
  shows "\<exists>db1 d. draft_decide i st who remark t db = (db1, Inr d) \<and> d_status d = st \<and>
    d_decision d = Some \<lparr>de_by = who, de_note = remark, de_at = utc_now t\<rparr> \<and>
    draft_decide i st' who' remark' t' db1 =
      (db1, Inl (DraftConflict (''draft '' @ i @ '' is not pending (missing or already decided)'')))"
proof -
  obtain db1 d where d: "draft_decide i st who remark t db = (db1, Inr d)"
      "to_draft (decided_row st who remark t r) = Inr d"
      "row_of db1 i = Some (decided_row st who remark t r)" "db_wf db1"
    using decide_cases [OF assms(1), of i st who remark t] assms(2,3,4) by auto
  have "dr_status (decided_row st who remark t r) \<noteq> ''pending''"
    using draft_status_inj [of st Pending] assms(4) by (simp add: decided_row_def)
  then have "draft_decide i st' who' remark' t' db1 =
      (db1, Inl (DraftConflict (''draft '' @ i @ '' is not pending (missing or already decided)'')))"
    using decide_refused [OF d(4,3)] assms(5) by blast
  moreover have "d_status d = st" "d_decision d = Some \<lparr>de_by = who, de_note = remark, de_at = utc_now t\<rparr>"
    using d(2) assms(6)
    by (auto simp: to_draft_def decided_row_def row_decision_def rbind_Inr_iff model_simps split: if_splits)
  ultimately show ?thesis using d(1) by blast
qed

lemma first_decision_wins_witness:
  "\<exists>db1 d. draft_decide (d_draft_id example_draft) Approved ''bob'' ''ok'' 9 [row_for example_draft] = (db1, Inr d) \<and>
    d_status d = Approved \<and> d_decision d = Some \<lparr>de_by = ''bob'', de_note = ''ok'', de_at = utc_now 9\<rparr> \<and>
    draft_decide (d_draft_id example_draft) Rejected ''eve'' [] 9 db1 =
      (db1, Inl (DraftConflict (''draft '' @ d_draft_id example_draft @ '' is not pending (missing or already decided)'')))"
proof -
  have "row_of [row_for example_draft] (d_draft_id example_draft) = Some (row_for example_draft)"
      "dr_status (row_for example_draft) = ''pending''"
    by (simp_all add: row_of_def row_for_def example_draft_def new_draft_def)
  from first_decision_wins [OF example_db_wf this, of Approved Rejected "''bob''" "''ok''" 9 "''eve''" "[]" 9]
  show ?thesis by simp
qed

text \<open>
  Reading back. \<^verbatim>\<open>get\<close> after \<^verbatim>\<open>create\<close> returns the very draft that was created, pending, with
  the stripped title, the related ids and the hash of the body, and every other draft reads as
  before; after \<^verbatim>\<open>decide\<close> it returns the draft that \<^verbatim>\<open>decide\<close> returned.
\<close>

theorem draft_round_trip:
  assumes "db_wf db" and "draft_create H kind title body req rel ses w db = Inr (d, db1)"
    and "st \<noteq> Pending"
  shows "draft_get (d_draft_id d) db1 = Inr (Some d) \<and> d_status d = Pending \<and> d_body d = body \<and>
    d_title d = str_strip title \<and> d_related_ids d = rel \<and> d_content_sha256 d = sha256 H (utf8 body) \<and>
    (\<forall>j. j \<noteq> d_draft_id d \<longrightarrow> draft_get j db1 = draft_get j db) \<and>
    (\<exists>db2 d2. draft_decide (d_draft_id d) st who remark t db1 = (db2, Inr d2) \<and>
      draft_get (d_draft_id d) db2 = Inr (Some d2) \<and> d_body d2 = body \<and> d_status d2 = st)"
proof -
  note c = create_cases [OF assms(1,2)]
  have none: "d_decision d = None" "d_status d = Pending" by (simp_all add: c(1) new_draft_def)
  have look: "row_of db1 (d_draft_id d) = Some (row_for d)"
    using c(2,3) by (simp add: row_of_append row_for_def)
  have others: "draft_get j db1 = draft_get j db" if "j \<noteq> d_draft_id d" for j
    using that c(2) by (auto simp: draft_get_def row_of_append row_for_def split: option.splits)
  have pend: "dr_status (row_for d) = ''pending''" using none by (simp add: row_for_def)
  obtain db2 d2 where d2: "draft_decide (d_draft_id d) st who remark t db1 = (db2, Inr d2)"
      "to_draft (decided_row st who remark t (row_for d)) = Inr d2"
      "row_of db2 (d_draft_id d) = Some (decided_row st who remark t (row_for d))"
    using decide_cases [OF c(4), of "d_draft_id d" st who remark t] look pend assms(3) by auto
  have "d_body d2 = body" "d_status d2 = st"
    using d2(2) by (auto simp: to_draft_def decided_row_def row_for_def rbind_Inr_iff model_simps c(1) new_draft_def)
  then show ?thesis
    using look to_draft_row_for [OF none(1)] none(2) others d2
    by (simp add: draft_get_def c(1) new_draft_def)
qed

lemma draft_round_trip_witness:
  "draft_get (d_draft_id example_draft) [row_for example_draft] = Inr (Some example_draft) \<and>
   (\<exists>db2 d2. draft_decide (d_draft_id example_draft) Rejected ''bob'' [] 7 [row_for example_draft] = (db2, Inr d2) \<and>
      draft_get (d_draft_id example_draft) db2 = Inr (Some d2))"
proof -
  have "db_wf []" by (simp add: db_wf_def)
  moreover have "draft_create sum_hash ControlFindingNote '' Finding '' ''text'' ''a@x'' [''C-1''] []
      \<lparr>dw_day = 0, dw_uuid = ''0123456789'', dw_now = 5\<rparr> [] = Inr (example_draft, [row_for example_draft])"
    unfolding draft_create_def example_draft_def insert_row_def row_of_def Let_def
    by (simp add: str_strip_def str_lstrip_def str_rstrip_def is_space_def)
  ultimately show ?thesis
    using draft_round_trip [of "[]" sum_hash ControlFindingNote "'' Finding ''" "''text''" "''a@x''" "[''C-1'']" "[]"
      "\<lparr>dw_day = 0, dw_uuid = ''0123456789'', dw_now = 5\<rparr>" example_draft "[row_for example_draft]" Rejected] by blast
qed

lemma row_of_mem: "distinct (map dr_draft_id db) \<Longrightarrow> r \<in> set db \<Longrightarrow> row_of db (dr_draft_id r) = Some r"
  by (induction db) (auto simp: row_of_def rev_image_eqI)

lemma mapM_total: "\<forall>x \<in> set xs. is_ok (f x) \<Longrightarrow> \<exists>ys. mapM f xs = Inr ys"
  by (induction xs) (auto simp: is_ok_iff rbind_Inr_iff)

lemma list_all2_source: "list_all2 P xs ys \<Longrightarrow> y \<in> set ys \<Longrightarrow> \<exists>x \<in> set xs. P x y"
  by (induction xs ys rule: list_all2_induct) auto

lemma to_draft_fields:
  "to_draft r = Inr d \<Longrightarrow> d_draft_id d = dr_draft_id r \<and> d_created d = dr_created r \<and>
     draft_status_of (dr_status r) = Inr (d_status d)"
  by (auto simp: to_draft_def rbind_Inr_iff)

text \<open>
  \<^verbatim>\<open>list\<close> shows the whole queue: it never raises, every draft with the status asked for is
  listed once, nothing else is, the drafts come in the order of their creation times, and each
  line is the summary of what \<^verbatim>\<open>get\<close> returns for that id.
\<close>

theorem draft_list_complete:
  assumes "db_wf db"
  shows "\<exists>ds. draft_list st db = Inr ds \<and> sorted (map ds_created ds) \<and> distinct (map ds_draft_id ds) \<and>
    set (map ds_draft_id ds) = {i. \<exists>r. row_of db i = Some r \<and> dr_status r = draft_status_str st} \<and>
    (\<forall>x \<in> set ds. \<exists>d. draft_get (ds_draft_id x) db = Inr (Some d) \<and> x = summary_of d \<and> ds_status x = st)"
proof -
  let ?rows = "sort_key dr_created (filter (\<lambda>r. dr_status r = draft_status_str st) db)"
  have dist: "distinct (map dr_draft_id db)" and ok: "\<forall>r \<in> set ?rows. is_ok (to_draft r)"
    using assms by (auto simp: db_wf_def row_wf_def)
  obtain ds where ds: "mapM to_draft ?rows = Inr ds" using mapM_total [OF ok] by blast
  then have rel: "list_all2 (\<lambda>r d. to_draft r = Inr d) ?rows ds" by (simp add: mapM_Inr_iff)
  have ids: "map d_draft_id ds = map dr_draft_id ?rows" "map d_created ds = map dr_created ?rows"
    using rel by (auto simp: list_all2_conv_all_nth to_draft_fields intro!: nth_equalityI)
  have sets: "set (map d_draft_id ds) = {i. \<exists>r. row_of db i = Some r \<and> dr_status r = draft_status_str st}"
    unfolding ids using row_of_mem [OF dist] find_some_id [of db] by fastforce
  have each: "\<exists>d'. draft_get (d_draft_id d) db = Inr (Some d') \<and> summary_of d = summary_of d' \<and> d_status d = st"
    if "d \<in> set ds" for d
  proof -
    have "\<exists>r \<in> set ?rows. to_draft r = Inr d" by (rule list_all2_source [OF rel that])
    then obtain r where r: "r \<in> set ?rows" "to_draft r = Inr d" by blast
    then have "row_of db (d_draft_id d) = Some r" using row_of_mem [OF dist] to_draft_fields by fastforce
    moreover have "d_status d = st" using r to_draft_fields [OF r(2)] by (auto simp: model_simps)
    ultimately show ?thesis using r(2) by (simp add: draft_get_def)
  qed
  have "distinct (map dr_draft_id ?rows)"
    using dist by (simp add: distinct_map inj_on_def)
  then have "sorted (map ds_created (map summary_of ds)) \<and> distinct (map ds_draft_id (map summary_of ds)) \<and>
      set (map ds_draft_id (map summary_of ds)) = {i. \<exists>r. row_of db i = Some r \<and> dr_status r = draft_status_str st}"
    using ids sets by (simp add: summary_of_def comp_def)
  moreover have "\<forall>x \<in> set (map summary_of ds). \<exists>d. draft_get (ds_draft_id x) db = Inr (Some d) \<and> x = summary_of d \<and> ds_status x = st"
  proof
    fix x assume "x \<in> set (map summary_of ds)"
    then obtain d where d: "d \<in> set ds" "x = summary_of d" by auto
    then show "\<exists>d. draft_get (ds_draft_id x) db = Inr (Some d) \<and> x = summary_of d \<and> ds_status x = st"
      using each [OF d(1)] unfolding d(2) by (simp add: summary_of_def)
  qed
  moreover have "draft_list st db = Inr (map summary_of ds)" by (simp add: draft_list_def ds)
  ultimately show ?thesis by blast
qed

lemma draft_list_complete_witness:
  "\<exists>ds. draft_list Pending [row_for example_draft] = Inr ds \<and>
    set (map ds_draft_id ds) = {i. \<exists>r. row_of [row_for example_draft] i = Some r \<and> dr_status r = ''pending''}"
  using draft_list_complete [OF example_db_wf, of Pending] by auto

end
