(* ===== verification/Evidence.thy ===== *)
theory Evidence
  imports Draft_Checks Drafts
begin

text \<open>
  The evidence manifest of service.py: \<^verbatim>\<open>compute_manifest\<close> with the gap detection and the hash over
  the canonical JSON of every other field. The frequencies of the tests are the fractions of
  the source; with the floating point numbers of Python the same integers come out, since
  \<open>1/3\<close> and \<open>1/12\<close> round down and their products with a number of months round to the exact
  value when it is an integer.
\<close>

named_theorems evidence_json \<open>the JSON of the evidence models\<close>

section \<open>Gaps\<close>

definition tests_per_month :: "frequency \<Rightarrow> rat option" where
  "tests_per_month f =
     (case f of Monthly \<Rightarrow> Some 1 | Quarterly \<Rightarrow> Some (1 / 3) | Annual \<Rightarrow> Some (1 / 12) | NoFrequency \<Rightarrow> None)"

definition months_inclusive :: "string \<Rightarrow> string \<Rightarrow> int res" where
  "months_inclusive start stop =
     rbind (parse_iso_date start) (\<lambda>s. rbind (parse_iso_date stop) (\<lambda>e.
       Inr (max 1 ((d_year e - d_year s) * 12 + d_month e - d_month s + 1))))"

definition count_gap :: "int \<Rightarrow> frequency \<Rightarrow> nat \<Rightarrow> string" where
  "count_gap needed f n =
     ''expected at least '' @ int_str needed @ '' '' @ frequency_str f @ '' test(s) in period, found '' @ nat_str n"

definition result_gap :: "test_result \<Rightarrow> string" where
  "result_gap r =
     str_rstrip_set '': '' (''test '' @ t_id r @ '' on '' @ t_tested_on r @ '' result='' @ test_outcome_str (t_result r)
       @ '': '' @ t_notes r)"

definition detect_gaps :: "frequency \<Rightarrow> test_result list \<Rightarrow> string \<Rightarrow> string \<Rightarrow> string list res" where
  "detect_gaps f results start stop =
     rbind (case tests_per_month f of
              None \<Rightarrow> Inr []
            | Some per_month \<Rightarrow>
                rbind (months_inclusive start stop) (\<lambda>months.
                  let needed = \<lceil>of_int months * per_month\<rceil>
                  in Inr (if int (length results) < needed then [count_gap needed f (length results)] else [])))
       (\<lambda>gaps. Inr (gaps @ map result_gap (filter (\<lambda>r. t_result r \<noteq> Pass) results)))"

section \<open>The manifest\<close>

definition version_ref :: "policy \<Rightarrow> policy_version_ref" where
  "version_ref p = \<lparr>pv_id = p_id p, pv_version = p_version p, pv_effective = p_effective p, pv_title = p_title p,
     pv_source = p_source p, pv_sha256 = p_sha256 p\<rparr>"

definition strs :: "string list \<Rightarrow> json" where
  [evidence_json]: "strs xs = JArr (map JStr xs)"

definition control_json :: "control \<Rightarrow> json" where
  [evidence_json]: "control_json c = JObj
     [(''control_id'', JStr (c_id c)), (''name'', JStr (c_name c)), (''description'', JStr (c_description c)),
      (''owner'', JStr (c_owner c)), (''test_frequency'', JStr (frequency_str (c_frequency c))),
      (''policies'', strs (c_policies c)), (''regulations'', strs (c_regulations c)), (''evidence'', strs (c_evidence c))]"

definition version_json :: "policy_version_ref \<Rightarrow> json" where
  [evidence_json]: "version_json v = JObj
     [(''policy_id'', JStr (pv_id v)), (''version'', JStr (pv_version v)), (''effective_date'', JStr (pv_effective v)),
      (''title'', JStr (pv_title v)), (''source'', JStr (pv_source v)), (''sha256'', JStr (pv_sha256 v))]"

definition test_json :: "test_result \<Rightarrow> json" where
  [evidence_json]: "test_json t = JObj
     [(''test_id'', JStr (t_id t)), (''control_id'', JStr (t_control_id t)), (''tested_on'', JStr (t_tested_on t)),
      (''tester'', JStr (t_tester t)), (''result'', JStr (test_outcome_str (t_result t))), (''notes'', JStr (t_notes t))]"

definition ticket_json :: "ticket \<Rightarrow> json" where
  [evidence_json]: "ticket_json k = JObj
     [(''ticket_id'', JStr (k_id k)), (''created'', JStr (k_created k)), (''status'', JStr (k_status k)),
      (''type'', JStr (ticket_type_str (k_type k))), (''title'', JStr (k_title k)), (''summary'', JStr (k_summary k)),
      (''controls'', strs (k_controls k)), (''policies'', strs (k_policies k))]"

text \<open>\<^verbatim>\<open>unsigned.model_dump(exclude={"manifest_sha256"})\<close>\<close>

definition manifest_json :: "evidence_manifest \<Rightarrow> json" where
  [evidence_json]: "manifest_json m = JObj
     [(''control'', control_json (em_control m)), (''period_start'', JStr (em_start m)), (''period_end'', JStr (em_end m)),
      (''policy_versions'', JArr (map version_json (em_policy_versions m))),
      (''test_results'', JArr (map test_json (em_test_results m))),
      (''change_tickets'', JArr (map ticket_json (em_change_tickets m))), (''gaps'', strs (em_gaps m))]"

definition manifest_bytes :: "evidence_manifest \<Rightarrow> string" where
  "manifest_bytes m = utf8 (dumps spaced_ascii (sort_json (manifest_json m)))"

text \<open>The adapters the service holds, with pydantic's JSON text of a ticket for the search.\<close>

record systems =
  sy_policies :: "policy list"
  sy_controls :: control_library
  sy_tickets :: "ticket list"
  sy_feed :: "(string \<times> release) list"
  sy_attestations :: "attestation list"
  sy_control_text :: "control \<Rightarrow> string"
  sy_ticket_text :: "ticket \<Rightarrow> string"

definition manifest_versions :: "systems \<Rightarrow> control \<Rightarrow> string \<Rightarrow> policy_version_ref list" where
  "manifest_versions S c stop =
     concat (map (\<lambda>pid. map version_ref
       (filter (\<lambda>v. p_status v = PolicyApproved \<and> p_effective v \<le> stop) (policy_versions (sy_policies S) pid))) (c_policies c))"

definition compute_manifest :: "hashes \<Rightarrow> systems \<Rightarrow> string \<Rightarrow> string \<Rightarrow> string \<Rightarrow> evidence_manifest option res" where
  "compute_manifest H S i start stop =
     (case controls_get (sy_controls S) i of
        None \<Rightarrow> Inr None
      | Some c \<Rightarrow>
          let results = controls_results (sy_controls S) i (Some start) (Some stop);
              tickets = tickets_search (sy_ticket_text S) (sy_tickets S) [] i (Some start) (Some stop)
          in rbind (detect_gaps (c_frequency c) results start stop) (\<lambda>gaps.
               if \<not> (iso_pattern start \<and> iso_pattern stop) then Inl ValidationError
               else (let unsigned = \<lparr>em_control = c, em_start = start, em_end = stop,
                           em_policy_versions = manifest_versions S c stop, em_test_results = results,
                           em_change_tickets = tickets, em_gaps = gaps, em_sha256 = []\<rparr>
                     in Inr (Some (unsigned\<lparr>em_sha256 := sha256 H (manifest_bytes unsigned)\<rparr>)))))"

text \<open>The hash that the draft checks recompute.\<close>

definition recompute_hash :: "hashes \<Rightarrow> systems \<Rightarrow> string \<Rightarrow> string \<Rightarrow> string \<Rightarrow> string option res" where
  "recompute_hash H S c s e = rbind (compute_manifest H S c s e) (\<lambda>m. Inr (map_option em_sha256 m))"

section \<open>What the gaps say\<close>

text \<open>The number of tests that a period of so many months requires.\<close>

definition needed_tests :: "frequency \<Rightarrow> int \<Rightarrow> int" where
  "needed_tests f months =
     (case f of Monthly \<Rightarrow> months | Quarterly \<Rightarrow> (months + 2) div 3 | Annual \<Rightarrow> (months + 11) div 12 | NoFrequency \<Rightarrow> 0)"

lemma ceiling_div:
  fixes m k :: int
  assumes "0 < k"
  shows "- (- m div k) = (m + (k - 1)) div k"
proof -
  have split: "(m + (k - 1)) div k = m div k + (m mod k + (k - 1)) div k"
  proof -
    have "m + (k - 1) = (m mod k + (k - 1)) + k * (m div k)" using mult_div_mod_eq [of k m] by linarith
    moreover have "((m mod k + (k - 1)) + k * (m div k)) div k = m div k + (m mod k + (k - 1)) div k"
      using assms by (intro div_mult_self2) simp
    ultimately show ?thesis by (simp only:)
  qed
  show ?thesis
  proof (cases "m mod k = 0")
    case True
    then show ?thesis using split assms by (simp add: zdiv_zminus1_eq_if)
  next
    case False
    have r: "0 \<le> m mod k" "m mod k < k" using assms by simp_all
    then have "m mod k + (k - 1) = (m mod k - 1) + k * 1" by simp
    moreover have "((m mod k - 1) + k * 1) div k = 1 + (m mod k - 1) div k"
      using assms by (intro div_mult_self2) simp
    ultimately have "(m mod k + (k - 1)) div k = 1 + (m mod k - 1) div k" by (simp only:)
    moreover have "(m mod k - 1) div k = 0" using r False by (intro div_pos_pos_trivial) linarith+
    ultimately show ?thesis using split assms False by (simp add: zdiv_zminus1_eq_if)
  qed
qed

lemma ceiling_third: "\<lceil>of_int m * (1 / 3) :: rat\<rceil> = (m + 2) div 3"
proof -
  have "\<lceil>of_int m * (1 / 3) :: rat\<rceil> = \<lceil>(of_int m / of_int 3) :: rat\<rceil>" by simp
  also have "\<dots> = - (- m div 3)" by (rule ceiling_divide_eq_div)
  also have "\<dots> = (m + 2) div 3" using ceiling_div [of 3 m] by simp
  finally show ?thesis .
qed

lemma ceiling_twelfth: "\<lceil>of_int m * (1 / 12) :: rat\<rceil> = (m + 11) div 12"
proof -
  have "\<lceil>of_int m * (1 / 12) :: rat\<rceil> = \<lceil>(of_int m / of_int 12) :: rat\<rceil>" by simp
  also have "\<dots> = - (- m div 12)" by (rule ceiling_divide_eq_div)
  also have "\<dots> = (m + 11) div 12" using ceiling_div [of 12 m] by simp
  finally show ?thesis .
qed

text \<open>
  The gap list hides nothing. Every result of the period that is not a pass has its line,
  in order, and the line about the number of tests is there exactly when there are fewer results
  than the cadence requires for the months of the period, rounded up; so the list is empty
  exactly when every result is a pass and there are enough of them.
\<close>

theorem gaps_complete:
  assumes "months_inclusive start stop = Inr months"
  shows "detect_gaps f results start stop = Inr
    ((if int (length results) < needed_tests f months then [count_gap (needed_tests f months) f (length results)] else []) @
      map result_gap (filter (\<lambda>r. t_result r \<noteq> Pass) results)) \<and>
    (detect_gaps f results start stop = Inr [] \<longleftrightarrow>
      {r \<in> set results. t_result r \<noteq> Pass} = {} \<and> needed_tests f months \<le> int (length results))"
proof -
  have eq: "detect_gaps f results start stop = Inr
    ((if int (length results) < needed_tests f months then [count_gap (needed_tests f months) f (length results)] else []) @
      map result_gap (filter (\<lambda>r. t_result r \<noteq> Pass) results))"
  proof (cases f)
    case Monthly
    then show ?thesis using assms by (simp add: detect_gaps_def tests_per_month_def needed_tests_def)
  next
    case Quarterly
    then show ?thesis using assms ceiling_third [of months] by (simp add: detect_gaps_def tests_per_month_def needed_tests_def del: times_divide_eq_right)
  next
    case Annual
    then show ?thesis using assms ceiling_twelfth [of months] by (simp add: detect_gaps_def tests_per_month_def needed_tests_def del: times_divide_eq_right)
  next
    case NoFrequency
    then show ?thesis by (simp add: detect_gaps_def tests_per_month_def needed_tests_def)
  qed
  then show ?thesis by (auto simp: filter_empty_conv)
qed

section \<open>The hash commits to the manifest\<close>

lemma sort_strs [simp]: "sort_json (strs xs) = strs xs"
  by (simp add: strs_def sort_items_map)

lemma strs_inj [simp]: "strs xs = strs ys \<longleftrightarrow> xs = ys"
  by (simp add: strs_def inj_map_eq_map inj_def)

lemma enum_strs_inj [simp]:
  "frequency_str f = frequency_str g \<longleftrightarrow> f = g" "test_outcome_str a = test_outcome_str b \<longleftrightarrow> a = b"
  "ticket_type_str s = ticket_type_str t \<longleftrightarrow> s = t"
  subgoal by (cases f; cases g) simp_all
  subgoal by (cases a; cases b) simp_all
  subgoal by (cases s; cases t) simp_all
  done

lemma control_json_inj: "sort_json (control_json c) = sort_json (control_json d) \<longleftrightarrow> c = d"
proof
  assume "sort_json (control_json c) = sort_json (control_json d)"
  note f = sorted_objects_eq [OF this [unfolded control_json_def]]
  show "c = d"
    using f [of "''control_id''"] f [of "''name''"] f [of "''description''"] f [of "''owner''"]
      f [of "''test_frequency''"] f [of "''policies''"] f [of "''regulations''"] f [of "''evidence''"]
    by (cases c; cases d) simp
qed simp

lemma version_json_inj: "sort_json (version_json c) = sort_json (version_json d) \<longleftrightarrow> c = d"
proof
  assume "sort_json (version_json c) = sort_json (version_json d)"
  note f = sorted_objects_eq [OF this [unfolded version_json_def]]
  show "c = d"
    using f [of "''policy_id''"] f [of "''version''"] f [of "''effective_date''"] f [of "''title''"]
      f [of "''source''"] f [of "''sha256''"]
    by (cases c; cases d) simp
qed simp

lemma test_json_inj: "sort_json (test_json c) = sort_json (test_json d) \<longleftrightarrow> c = d"
proof
  assume "sort_json (test_json c) = sort_json (test_json d)"
  note f = sorted_objects_eq [OF this [unfolded test_json_def]]
  show "c = d"
    using f [of "''test_id''"] f [of "''control_id''"] f [of "''tested_on''"] f [of "''tester''"]
      f [of "''result''"] f [of "''notes''"]
    by (cases c; cases d) simp
qed simp

lemma ticket_json_inj: "sort_json (ticket_json c) = sort_json (ticket_json d) \<longleftrightarrow> c = d"
proof
  assume "sort_json (ticket_json c) = sort_json (ticket_json d)"
  note f = sorted_objects_eq [OF this [unfolded ticket_json_def]]
  show "c = d"
    using f [of "''ticket_id''"] f [of "''created''"] f [of "''status''"] f [of "''type''"]
      f [of "''title''"] f [of "''summary''"] f [of "''controls''"] f [of "''policies''"]
    by (cases c; cases d) simp
qed simp

lemma sorted_list_inj:
  assumes "\<And>x y. sort_json (f x) = sort_json (f y) \<longleftrightarrow> x = y"
  shows "sort_json (JArr (map f xs)) = sort_json (JArr (map f ys)) \<longleftrightarrow> xs = ys"
proof -
  have "inj (\<lambda>x. sort_json (f x))" using assms by (auto simp: inj_def)
  then show ?thesis by (simp add: sort_items_map comp_def inj_map_eq_map)
qed

lemma manifest_json_inj:
  assumes "sort_json (manifest_json m) = sort_json (manifest_json n)"
  shows "m\<lparr>em_sha256 := h\<rparr> = n\<lparr>em_sha256 := h\<rparr>"
proof -
  note f = sorted_objects_eq [OF assms [unfolded manifest_json_def]]
  show ?thesis
    using f [of "''control''"] f [of "''period_start''"] f [of "''period_end''"] f [of "''policy_versions''"]
      f [of "''test_results''"] f [of "''change_tickets''"] f [of "''gaps''"]
    by (cases m; cases n) (simp add: control_json_inj sorted_list_inj version_json_inj test_json_inj ticket_json_inj
        del: sort_json.simps(1))
qed

lemma manifest_wf: "wf_json (manifest_json m)"
  by (auto simp: evidence_json)

lemma manifest_bytes_inj:
  "manifest_bytes m = manifest_bytes n \<Longrightarrow> m\<lparr>em_sha256 := h\<rparr> = n\<lparr>em_sha256 := h\<rparr>"
proof -
  assume "manifest_bytes m = manifest_bytes n"
  then have "dumps spaced_ascii (sort_json (manifest_json m)) = dumps spaced_ascii (sort_json (manifest_json n))"
    by (simp add: manifest_bytes_def utf8_inj)
  then have "loads (dumps spaced_ascii (sort_json (manifest_json m))) = loads (dumps spaced_ascii (sort_json (manifest_json n)))"
    by simp
  then have "sort_json (manifest_json m) = sort_json (manifest_json n)"
    using loads_dumps [OF good_styles(3) wf_sort_json [OF manifest_wf]] by simp
  then show ?thesis by (rule manifest_json_inj)
qed

lemma bytes_ignore_hash [simp]: "manifest_bytes (m\<lparr>em_sha256 := h\<rparr>) = manifest_bytes m"
  by (simp add: manifest_bytes_def manifest_json_def)

lemma compute_manifestD:
  assumes "compute_manifest H S i start stop = Inr (Some m)"
  shows "em_sha256 m = sha256 H (manifest_bytes m)" "controls_get (sy_controls S) i = Some (em_control m)"
    "em_start m = start" "em_end m = stop" "iso_pattern start" "iso_pattern stop"
    "em_policy_versions m = manifest_versions S (em_control m) stop"
    "em_test_results m = controls_results (sy_controls S) i (Some start) (Some stop)"
    "em_change_tickets m = tickets_search (sy_ticket_text S) (sy_tickets S) [] i (Some start) (Some stop)"
    "detect_gaps (c_frequency (em_control m)) (em_test_results m) start stop = Inr (em_gaps m)"
  using assms by (auto simp: compute_manifest_def Let_def rbind_Inr_iff manifest_bytes_def manifest_json_def
      split: option.splits if_splits)

text \<open>
  The manifest hash commits to the evidence. Two manifests with the same hash, computed at
  any times from any state of the systems of record, are the same in every field, or their
  canonical bytes are a SHA-256 collision.
\<close>

theorem manifest_hash_commits:
  assumes "compute_manifest H S i start stop = Inr (Some m)" and "compute_manifest H S' i' start' stop' = Inr (Some n)"
    and "em_sha256 m = em_sha256 n"
  shows "m = n \<or> (manifest_bytes m \<noteq> manifest_bytes n \<and> sha256 H (manifest_bytes m) = sha256 H (manifest_bytes n))"
proof (cases "manifest_bytes m = manifest_bytes n")
  case True
  have "m = m\<lparr>em_sha256 := em_sha256 m\<rparr>" "n = n\<lparr>em_sha256 := em_sha256 n\<rparr>" by simp_all
  then have "m = n" using manifest_bytes_inj [OF True, of "em_sha256 n"] assms(3) by metis
  then show ?thesis ..
next
  case False
  then show ?thesis using compute_manifestD(1) [OF assms(1)] compute_manifestD(1) [OF assms(2)] assms(3) by metis
qed

text \<open>
  A manifest holds all the evidence of the control and the period and nothing else: exactly
  the test results of the control from the first to the last day, exactly the tickets that name
  the control and were created in those days, every approved version, effective by the last day,
  of every policy the control names, and the gaps found in those results.
\<close>

theorem manifest_contents:
  assumes "compute_manifest H S i start stop = Inr (Some m)"
  shows "set (em_test_results m) = {t \<in> set (cl_tests (sy_controls S)). t_control_id t = i \<and> start \<le> t_tested_on t \<and> t_tested_on t \<le> stop} \<and>
    (i \<noteq> [] \<longrightarrow> set (em_change_tickets m) = {k \<in> set (sy_tickets S). i \<in> set (k_controls k) \<and> start \<le> k_created k \<and> k_created k \<le> stop}) \<and>
    set (em_policy_versions m) = version_ref ` {p \<in> set (sy_policies S). p_id p \<in> set (c_policies (em_control m)) \<and>
      p_status p = PolicyApproved \<and> p_effective p \<le> stop} \<and>
    detect_gaps (c_frequency (em_control m)) (em_test_results m) start stop = Inr (em_gaps m)"
proof -
  note d = compute_manifestD [OF assms]
  have ne: "start \<noteq> []" "stop \<noteq> []" using d(5,6) by (auto simp: iso_pattern_def)
  have "set (em_policy_versions m) = version_ref ` {p \<in> set (sy_policies S). p_id p \<in> set (c_policies (em_control m)) \<and>
      p_status p = PolicyApproved \<and> p_effective p \<le> stop}"
    by (auto simp: d(7) manifest_versions_def policy_versions_def)
  then show ?thesis
    using ne d(10) by (auto simp: d(8,9) controls_results_def tickets_search_def in_range_def Let_def str_lower_def)
qed

section \<open>Witnesses\<close>

definition example_control :: control where
  "example_control = \<lparr>c_id = ''C-1'', c_name = ''Access'', c_description = [], c_owner = [], c_frequency = Quarterly,
     c_policies = [''P-1''], c_regulations = [], c_evidence = []\<rparr>"

definition example_test :: "string \<Rightarrow> test_outcome \<Rightarrow> test_result" where
  "example_test day r = \<lparr>t_id = ''T'', t_control_id = ''C-1'', t_tested_on = day, t_tester = ''a'', t_result = r, t_notes = []\<rparr>"

definition example_systems :: systems where
  "example_systems = \<lparr>sy_policies = example_docs,
     sy_controls = \<lparr>cl_controls = [(''C-1'', example_control)],
       cl_tests = [example_test ''2026-02-03'' Pass, example_test ''2026-09-09'' Fail]\<rparr>,
     sy_tickets = [], sy_feed = [], sy_attestations = [], sy_control_text = c_id, sy_ticket_text = k_id\<rparr>"

lemma example_months: "months_inclusive ''2026-01-01'' ''2026-06-30'' = Inr 6"
  by code_simp

lemma example_period: "iso_pattern ''2026-01-01''" "iso_pattern ''2026-06-30''"
  by code_simp+

lemma example_manifest:
  "\<exists>m. compute_manifest H example_systems ''C-1'' ''2026-01-01'' ''2026-06-30'' = Inr (Some m)"
  by (simp add: compute_manifest_def example_systems_def controls_get_def example_control_def detect_gaps_def
      tests_per_month_def example_months example_period Let_def)

lemma gaps_complete_witness:
  "detect_gaps Quarterly [example_test ''2026-02-03'' Pass] ''2026-01-01'' ''2026-06-30'' \<noteq> Inr []"
  using gaps_complete [OF example_months, of Quarterly "[example_test ''2026-02-03'' Pass]"]
  by (simp add: needed_tests_def)

lemma manifest_hash_commits_witness:
  "\<exists>m. compute_manifest sum_hash example_systems ''C-1'' ''2026-01-01'' ''2026-06-30'' = Inr (Some m) \<and>
    (m = m \<or> (manifest_bytes m \<noteq> manifest_bytes m \<and> sha256 sum_hash (manifest_bytes m) = sha256 sum_hash (manifest_bytes m)))"
  using example_manifest [of sum_hash] manifest_hash_commits [OF _ _ refl] by blast

lemma manifest_contents_witness:
  "\<exists>m. compute_manifest sum_hash example_systems ''C-1'' ''2026-01-01'' ''2026-06-30'' = Inr (Some m) \<and>
    set (em_test_results m) = {t \<in> set (cl_tests (sy_controls example_systems)). t_control_id t = ''C-1'' \<and>
      ''2026-01-01'' \<le> t_tested_on t \<and> t_tested_on t \<le> ''2026-06-30''}"
  using example_manifest [of sum_hash] manifest_contents by blast

end
