(* ===== verification/Rate_Limit.thy ===== *)
theory Rate_Limit
  imports Complex_Main Audit_Log
begin

text \<open>
  The token bucket of ratelimit.py. Times and tokens are rational numbers, the capacity and the
  rate are those of the constructor, and a bucket is kept per key. A call takes the time its
  clock reads and returns the new state with the result, since a refusal updates the bucket
  too. The theorems bound what a key can obtain in any period and show that a refused key is
  served again after the time its tokens need.
\<close>

record limiter =
  lm_rate :: rat
  lm_capacity :: rat
  lm_buckets :: "(string \<times> rat \<times> rat) list"

definition limiter_init :: "int \<Rightarrow> int option \<Rightarrow> limiter" where
  "limiter_init per_minute burst =
     \<lparr>lm_rate = of_int per_minute / 60,
       lm_capacity = of_int (case burst of None \<Rightarrow> per_minute | Some b \<Rightarrow> if b = 0 then per_minute else b),
       lm_buckets = []\<rparr>"

definition limit_message :: "limiter \<Rightarrow> string \<Rightarrow> string" where
  "limit_message s key =
     ''rate limit exceeded for '' @ [CHR 0x27] @ key @ [CHR 0x27] @ '': more than ''
       @ int_str \<lfloor>lm_capacity s\<rfloor> @ '' calls per minute''"

text \<open>The tokens of a key after the refill at time \<open>now\<close>.\<close>

definition refilled :: "limiter \<Rightarrow> string \<Rightarrow> rat \<Rightarrow> rat" where
  "refilled s key now =
     (case map_of (lm_buckets s) key of
        None \<Rightarrow> min (lm_capacity s) (lm_capacity s + (now - now) * lm_rate s)
      | Some (tokens, since) \<Rightarrow> min (lm_capacity s) (tokens + (now - since) * lm_rate s))"

definition limiter_check :: "string \<Rightarrow> rat \<Rightarrow> limiter \<Rightarrow> limiter \<times> unit res" where
  "limiter_check key now s =
     (let tokens = refilled s key now
      in if tokens < 1
         then (s\<lparr>lm_buckets := AList.update key (tokens, now) (lm_buckets s)\<rparr>, Inl (RateLimited (limit_message s key)))
         else (s\<lparr>lm_buckets := AList.update key (tokens - 1, now) (lm_buckets s)\<rparr>, Inr ()))"

text \<open>Calls by many keys, and the number of them that were let through for one key.\<close>

fun limiter_run :: "string \<Rightarrow> (string \<times> rat) list \<Rightarrow> limiter \<Rightarrow> nat \<times> limiter" where
  "limiter_run key [] s = (0, s)"
| "limiter_run key ((k, now) # cs) s =
     (case limiter_check k now s of
        (s', r) \<Rightarrow> (case limiter_run key cs s' of (n, t) \<Rightarrow> (if k = key \<and> is_ok r then n + 1 else n, t)))"

section \<open>One call\<close>

definition bucket_ok :: "limiter \<Rightarrow> bool" where
  "bucket_ok s \<longleftrightarrow> 0 \<le> lm_rate s \<and> 0 \<le> lm_capacity s \<and>
     (\<forall>k tokens since. map_of (lm_buckets s) k = Some (tokens, since) \<longrightarrow> 0 \<le> tokens \<and> tokens \<le> lm_capacity s)"

text \<open>No bucket was refilled later than \<open>now\<close>: the clock is monotonic.\<close>

definition not_after :: "limiter \<Rightarrow> rat \<Rightarrow> bool" where
  "not_after s now \<longleftrightarrow> (\<forall>k tokens since. map_of (lm_buckets s) k = Some (tokens, since) \<longrightarrow> since \<le> now)"

lemma refilled_bounds:
  assumes "bucket_ok s" "not_after s now"
  shows "0 \<le> refilled s key now" "refilled s key now \<le> lm_capacity s"
proof -
  show "refilled s key now \<le> lm_capacity s" by (simp add: refilled_def split: option.splits)
  show "0 \<le> refilled s key now"
  proof (cases "map_of (lm_buckets s) key")
    case (Some b)
    obtain tokens since where b: "b = (tokens, since)" by (cases b)
    then have "0 \<le> tokens" "since \<le> now" "0 \<le> lm_rate s" "0 \<le> lm_capacity s"
      using assms Some unfolding bucket_ok_def not_after_def by blast+
    then have "0 \<le> (now - since) * lm_rate s" by simp
    then show ?thesis using Some b \<open>0 \<le> tokens\<close> \<open>0 \<le> lm_capacity s\<close> by (simp add: refilled_def)
  qed (use assms in \<open>simp add: refilled_def bucket_ok_def\<close>)
qed

lemma check_facts:
  assumes "bucket_ok s" "not_after s now" "limiter_check key now s = (s', r)"
  shows "bucket_ok s'" "not_after s' now" "lm_rate s' = lm_rate s" "lm_capacity s' = lm_capacity s"
    "is_ok r \<longleftrightarrow> 1 \<le> refilled s key now"
    "map_of (lm_buckets s') key = Some (refilled s key now - (if is_ok r then 1 else 0), now)"
    "k \<noteq> key \<Longrightarrow> map_of (lm_buckets s') k = map_of (lm_buckets s) k"
proof -
  note b = refilled_bounds [OF assms(1,2), of key]
  let ?t = "refilled s key now"
  have s': "s' = s\<lparr>lm_buckets := AList.update key (?t - (if ?t < 1 then 0 else 1), now) (lm_buckets s)\<rparr>"
      "is_ok r \<longleftrightarrow> \<not> ?t < 1"
    using assms(3) by (auto simp: limiter_check_def Let_def is_ok_iff split: if_splits)
  show "is_ok r \<longleftrightarrow> 1 \<le> ?t" using s'(2) by auto
  show "lm_rate s' = lm_rate s" "lm_capacity s' = lm_capacity s" by (simp_all add: s'(1))
  show m: "map_of (lm_buckets s') key = Some (?t - (if is_ok r then 1 else 0), now)"
    using s'(2) by (simp add: s'(1) update_conv)
  show o: "map_of (lm_buckets s') k = map_of (lm_buckets s) k" if "k \<noteq> key" for k
    using that by (simp add: s'(1) update_conv)
  show "not_after s' now" "bucket_ok s'"
    unfolding not_after_def bucket_ok_def using assms(1,2) m o b s'(2)
    by (auto simp: not_after_def bucket_ok_def s'(1) update_conv split: if_splits)
qed

section \<open>Many calls\<close>

lemma refilled_later:
  assumes "bucket_ok s" "not_after s t" "t \<le> now"
  shows "refilled s key now \<le> refilled s key t + lm_rate s * (now - t)"
proof (cases "map_of (lm_buckets s) key")
  case None
  then show ?thesis using assms by (simp add: refilled_def bucket_ok_def)
next
  case (Some b)
  obtain tokens since where b: "b = (tokens, since)" by (cases b)
  have "0 \<le> lm_rate s * (now - t)" using assms(1,3) by (simp add: bucket_ok_def)
  moreover have "tokens + (now - since) * lm_rate s = tokens + (t - since) * lm_rate s + lm_rate s * (now - t)"
    by (simp add: algebra_simps)
  ultimately show ?thesis using Some b by (simp add: refilled_def min_def)
qed

lemma refilled_same:
  "map_of (lm_buckets s') key = map_of (lm_buckets s) key \<Longrightarrow> lm_rate s' = lm_rate s \<Longrightarrow>
   lm_capacity s' = lm_capacity s \<Longrightarrow> refilled s' key now = refilled s key now"
  by (cases "map_of (lm_buckets s) key") (auto simp: refilled_def)

lemma refilled_now:
  "map_of (lm_buckets s) key = Some (tokens, now) \<Longrightarrow> tokens \<le> lm_capacity s \<Longrightarrow> refilled s key now = tokens"
  by (simp add: refilled_def min_def)

lemma not_after_mono: "not_after s t \<Longrightarrow> t \<le> u \<Longrightarrow> not_after s u"
  by (auto simp: not_after_def intro: order_trans)

lemma run_bound:
  "bucket_ok s \<Longrightarrow> not_after s t \<Longrightarrow> sorted (t # map snd cs @ [T]) \<Longrightarrow> limiter_run key cs s = (n, s') \<Longrightarrow>
   of_nat n \<le> refilled s key t + lm_rate s * (T - t) \<and> bucket_ok s'"
proof (induction cs arbitrary: s t n s')
  case Nil
  then have "0 \<le> refilled s key t" "0 \<le> lm_rate s * (T - t)"
    using refilled_bounds(1) by (auto simp: bucket_ok_def)
  then show ?case using Nil by simp
next
  case (Cons c cs)
  obtain k now where c: "c = (k, now)" by (cases c)
  obtain s1 r where s1: "limiter_check k now s = (s1, r)" by fastforce
  obtain m u where m: "limiter_run key cs s1 = (m, u)" by fastforce
  have t: "t \<le> now" "sorted (now # map snd cs @ [T])" using Cons.prems(3) c by simp_all
  note na = not_after_mono [OF Cons.prems(2) t(1)]
  note f = check_facts [OF Cons.prems(1) na s1]
  have IH: "of_nat m \<le> refilled s1 key now + lm_rate s * (T - now)" "bucket_ok u"
    using Cons.IH [OF f(1,2) t(2) m] f(3) by simp_all
  have later: "refilled s key now \<le> refilled s key t + lm_rate s * (now - t)"
    by (rule refilled_later [OF Cons.prems(1,2) t(1)])
  have split: "lm_rate s * (T - t) = lm_rate s * (now - t) + lm_rate s * (T - now)" by (simp add: algebra_simps)
  have step: "refilled s1 key now + (if k = key \<and> is_ok r then 1 else 0) = refilled s key now"
  proof (cases "k = key")
    case True
    have "refilled s key now - (if is_ok r then 1 else 0) \<le> lm_capacity s1"
      using refilled_bounds(2) [OF Cons.prems(1) na, of key] f(4) by simp
    then show ?thesis using refilled_now [of s1 key _ now] f(6) True by simp
  next
    case False
    then show ?thesis using refilled_same [of s1 key s now] f(3,4,7) by simp
  qed
  have "n = m + (if k = key \<and> is_ok r then 1 else 0)" "s' = u"
    using Cons.prems(4) c s1 m by auto
  then show ?case using IH later split step by (auto split: if_splits)
qed

lemma other_keys:
  "\<forall>(k, t) \<in> set cs. k \<noteq> key \<Longrightarrow> limiter_run key cs s = (n, s') \<Longrightarrow>
   n = 0 \<and> map_of (lm_buckets s') key = map_of (lm_buckets s) key \<and> lm_rate s' = lm_rate s \<and>
   lm_capacity s' = lm_capacity s"
proof (induction cs arbitrary: s n s')
  case (Cons c cs)
  obtain k now where c: "c = (k, now)" by (cases c)
  obtain s1 r where s1: "limiter_check k now s = (s1, r)" by fastforce
  obtain m u where m: "limiter_run key cs s1 = (m, u)" by fastforce
  have "map_of (lm_buckets s1) key = map_of (lm_buckets s) key" "lm_rate s1 = lm_rate s"
      "lm_capacity s1 = lm_capacity s"
    using s1 Cons.prems(1) c by (auto simp: limiter_check_def Let_def update_conv split: if_splits)
  then show ?case using Cons.IH [OF _ m] Cons.prems c s1 m by auto
qed simp

lemma init_ok: "0 \<le> per_minute \<Longrightarrow> (\<forall>b. burst = Some b \<longrightarrow> 0 \<le> b) \<Longrightarrow> bucket_ok (limiter_init per_minute burst)"
  by (auto simp: bucket_ok_def limiter_init_def split: option.splits)



text \<open>
  A refused requester is served again: after the time in which one token is refilled, and
  whatever other requesters do meanwhile, the next call is let through.
\<close>

theorem limiter_recovers:
  assumes "bucket_ok s" and "not_after s now" and "0 < lm_rate s" and "1 \<le> lm_capacity s"
    and "limiter_check key now s = (s1, Inl e)"
    and "\<forall>(k, t) \<in> set cs. k \<noteq> key" and "now + 1 / lm_rate s \<le> later"
  shows "e = RateLimited (limit_message s key) \<and>
    snd (limiter_check key later (snd (limiter_run key cs s1))) = Inr ()"
proof -
  note f = check_facts [OF assms(1,2,5)]
  obtain n s2 where s2: "limiter_run key cs s1 = (n, s2)" by fastforce
  note o = other_keys [OF assms(6) s2]
  let ?t = "refilled s key now"
  have m: "map_of (lm_buckets s2) key = Some (?t, now)" using o f(6) by (simp add: is_ok_iff)
  have "0 \<le> ?t" by (rule refilled_bounds(1) [OF assms(1,2)])
  have "1 \<le> (later - now) * lm_rate s"
    using assms(3,7) by (simp add: field_simps)
  then have "1 \<le> refilled s2 key later"
    using m \<open>0 \<le> ?t\<close> o f(3,4) assms(4) by (simp add: refilled_def)
  then show ?thesis
    using s2 assms(5) by (auto simp: limiter_check_def Let_def split: if_splits)
qed

lemma limiter_recovers_witness:
  "snd (limiter_check ''a'' 61 (snd (limiter_run ''a'' [(''b'', 5)]
     (fst (limiter_check ''a'' 1 (fst (limiter_check ''a'' 0 (limiter_init 1 None)))))))) = Inr ()"
proof -
  have "limiter_check ''a'' 0 (limiter_init 1 None) =
      (\<lparr>lm_rate = 1 / 60, lm_capacity = 1, lm_buckets = [(''a'', 0, 0)]\<rparr>, Inr ())"
    by (simp add: limiter_check_def limiter_init_def refilled_def Let_def)
  moreover have "\<exists>e. limiter_check ''a'' 1 \<lparr>lm_rate = 1 / 60, lm_capacity = 1, lm_buckets = [(''a'', 0, 0)]\<rparr> =
      (\<lparr>lm_rate = 1 / 60, lm_capacity = 1, lm_buckets = [(''a'', 1 / 60, 1)]\<rparr>, Inl e)"
    by (simp add: limiter_check_def refilled_def Let_def)
  then obtain e where e: "limiter_check ''a'' 1 \<lparr>lm_rate = 1 / 60, lm_capacity = 1, lm_buckets = [(''a'', 0, 0)]\<rparr> =
      (\<lparr>lm_rate = 1 / 60, lm_capacity = 1, lm_buckets = [(''a'', 1 / 60, 1)]\<rparr>, Inl e)" by blast
  ultimately show ?thesis
    using limiter_recovers [OF _ _ _ _ e, of "[(''b'', 5)]" 61] by (simp add: bucket_ok_def not_after_def)
qed

text \<open>The bound is reached: with two calls per minute, four calls go through in one minute.\<close>

lemma burst_doubles:
  "fst (limiter_run ''a'' [(''a'', 0), (''a'', 0), (''a'', 30), (''a'', 60)] (limiter_init 2 None)) = 4"
  by (simp add: limiter_check_def limiter_init_def refilled_def Let_def is_ok_iff)

end
