(* ===== verification/Service.thy ===== *)
theory Service
  imports Evidence Rate_Limit Audit_Append
begin

text \<open>
  The tools of service.py and the wrapper \<^verbatim>\<open>audited\<close> around them: authorisation, the rate limit,
  the body, exactly one audit record, and the translation of exceptions into a \<open>ToolError\<close>. The
  state is what the calls change: the audit directory, the users snapshot, the drafts and the
  buckets. What a call reads from outside (clocks, the users file, uuids, today's date) is its
  environment.
\<close>

named_theorems service_defs \<open>the bodies of the tools\<close>

section \<open>The service\<close>

record service =
  sv_hashes :: hashes
  sv_log :: audit_log
  sv_systems :: systems
  sv_valid_user :: "json \<Rightarrow> user res"
  sv_clock_override :: bool

record service_state =
  st_audit :: dir
  st_forwarded :: "json list"
  st_directory :: directory
  st_drafts :: drafts_db
  st_limiter :: limiter

record call_env =
  en_version_now :: rat
  en_version_file :: users_file
  en_auth_now :: rat
  en_auth_file :: users_file
  en_limit_now :: rat
  en_world :: world
  en_retry_world :: world
  en_draft :: draft_world
  en_today :: date

section \<open>The bodies of the tools\<close>

definition truthy_str :: "string option \<Rightarrow> bool" where
  [service_defs]: "truthy_str s \<longleftrightarrow> s \<noteq> None \<and> s \<noteq> Some []"

definition check_real :: "string \<Rightarrow> string option \<Rightarrow> unit res" where
  "check_real label value =
     (if truthy_str value
      then (case parse_iso_date (the value) of
              Inl (ValueError _) \<Rightarrow> Inl (InvalidInput (label @ '' is not a real date: '' @ the value))
            | Inl e \<Rightarrow> Inl e
            | Inr _ \<Rightarrow> Inr ())
      else Inr ())"

definition validate_range :: "string option \<Rightarrow> string option \<Rightarrow> unit res" where
  "validate_range start stop =
     rbind (check_real ''start'' start) (\<lambda>_. rbind (check_real ''end'' stop) (\<lambda>_.
       if truthy_str start \<and> truthy_str stop \<and> the stop < the start
       then Inl (InvalidInput (''start '' @ the start @ '' is after end '' @ the stop)) else Inr ()))"

definition or_empty :: "string option \<Rightarrow> string" where
  "or_empty s = (case s of None \<Rightarrow> [] | Some v \<Rightarrow> v)"

definition found_text :: "'a option \<Rightarrow> string" where
  "found_text x = (case x of None \<Rightarrow> ''not found'' | Some _ \<Rightarrow> ''found'')"

definition policy_lookup :: "service \<Rightarrow> string \<Rightarrow> int \<Rightarrow> tool_result res" where
  [service_defs]: "policy_lookup C query limit =
     (if str_strip query = [] then Inl (InvalidInput ''query is required'')
      else (let hits = policies_search (sy_policies (sv_systems C)) query (max 1 (min limit 20))
            in Inr (PolicyLookupResult (nat_str (length hits) @ '' section(s) for '' @ single_quoted query) hits lookup_instruction)))"

definition policy_get :: "service \<Rightarrow> string \<Rightarrow> string option \<Rightarrow> tool_result res" where
  [service_defs]: "policy_get C pid as_of =
     rbind (validate_range as_of None) (\<lambda>_.
       let docs = sy_policies (sv_systems C);
           doc = (if truthy_str as_of then version_as_of docs pid (the as_of)
                  else find (\<lambda>d. p_id d = pid) (policies_current docs));
           when = (if truthy_str as_of then '' as of '' @ the as_of else [])
       in Inr (PolicyGetResult
            (case doc of Some d \<Rightarrow> pid @ '' v'' @ p_version d | None \<Rightarrow> ''no approved version of '' @ pid @ when) doc))"

definition policy_summary_of :: "policy \<Rightarrow> policy_summary" where
  "policy_summary_of p = \<lparr>ps_id = p_id p, ps_version = p_version p, ps_effective = p_effective p, ps_title = p_title p,
     ps_owner = p_owner p, ps_regulations = p_regulations p, ps_controls = p_controls p\<rparr>"

definition policy_list :: "service \<Rightarrow> tool_result res" where
  [service_defs]: "policy_list C =
     (let items = map policy_summary_of (policies_current (sy_policies (sv_systems C)))
      in Inr (PolicyListResult (nat_str (length items) @ '' current policies'') items))"

definition control_lookup :: "service \<Rightarrow> string \<Rightarrow> string \<Rightarrow> tool_result res" where
  [service_defs]: "control_lookup C control_id query =
     (let S = sv_systems C
      in if control_id \<noteq> []
         then (let c = controls_get (sy_controls S) control_id
               in Inr (ControlLookupResult (''control '' @ control_id @ '' '' @ found_text c)
                    (case c of None \<Rightarrow> [] | Some x \<Rightarrow> [x])))
         else if str_strip query = [] then Inl (InvalidInput ''control_id or query is required'')
         else (let hits = controls_search (sy_control_text S) (sy_controls S) query
               in Inr (ControlLookupResult (nat_str (length hits) @ '' control(s) for '' @ single_quoted query) hits)))"

definition control_test_results :: "service \<Rightarrow> string \<Rightarrow> string option \<Rightarrow> string option \<Rightarrow> tool_result res" where
  [service_defs]: "control_test_results C control_id start stop =
     rbind (validate_range start stop) (\<lambda>_.
       let rows = controls_results (sy_controls (sv_systems C)) control_id start stop
       in Inr (ControlTestResultsResult (nat_str (length rows) @ '' test result(s) for '' @ control_id @ '' ''
            @ or_empty start @ ''..'' @ or_empty stop) rows))"

definition release_summary_of :: "release \<Rightarrow> release_summary" where
  "release_summary_of r = \<lparr>rs_id = r_id r, rs_source = r_source r, rs_published = r_published r,
     rs_title = r_title r, rs_url = r_url r\<rparr>"

definition regulatory_releases :: "service \<Rightarrow> string \<Rightarrow> string \<Rightarrow> tool_result res" where
  [service_defs]: "regulatory_releases C since source =
     rbind (validate_range (Some since) None) (\<lambda>_.
       let rows = map release_summary_of (feed_since (sy_feed (sv_systems C)) since source)
       in Inr (RegulatoryReleasesResult (nat_str (length rows) @ '' release(s) since '' @ since) rows))"

definition regulatory_release_get :: "service \<Rightarrow> string \<Rightarrow> tool_result res" where
  [service_defs]: "regulatory_release_get C i =
     (let r = feed_get (sy_feed (sv_systems C)) i
      in Inr (RegulatoryReleaseGetResult (''release '' @ i @ '' '' @ found_text r) r))"

definition ticket_search :: "service \<Rightarrow> string \<Rightarrow> string \<Rightarrow> string option \<Rightarrow> string option \<Rightarrow> tool_result res" where
  [service_defs]: "ticket_search C query control_id start stop =
     rbind (validate_range start stop) (\<lambda>_.
       let rows = tickets_search (sy_ticket_text (sv_systems C)) (sy_tickets (sv_systems C)) query control_id start stop
       in Inr (TicketSearchResult (nat_str (length rows) @ '' ticket(s)'') rows))"

definition attestations_due_tool :: "service \<Rightarrow> call_env \<Rightarrow> int \<Rightarrow> string option \<Rightarrow> tool_result res" where
  [service_defs]: "attestations_due_tool C E days today =
     (if days < 0 \<or> 366 < days then Inl (InvalidInput ''within_days must be between 0 and 366'')
      else if truthy_str today \<and> \<not> sv_clock_override C
      then Inl (InvalidInput ''overriding today's date is disabled in this environment'')
      else rbind (validate_range today None) (\<lambda>_.
        rbind (if truthy_str today then parse_iso_date (the today) else Inr (en_today E)) (\<lambda>as_of.
        rbind (attestations_due (sy_attestations (sv_systems C)) days as_of) (\<lambda>rows.
          Inr (AttestationsDueResult (nat_str (length rows) @ '' attestation(s) due within '' @ int_str days @ '' days of ''
            @ isoformat as_of) rows)))))"

definition evidence_bundle :: "service \<Rightarrow> string \<Rightarrow> string \<Rightarrow> string \<Rightarrow> tool_result res" where
  [service_defs]: "evidence_bundle C control_id start stop =
     rbind (validate_range (Some start) (Some stop)) (\<lambda>_.
     rbind (compute_manifest (sv_hashes C) (sv_systems C) control_id start stop) (\<lambda>m.
       case m of None \<Rightarrow> Inl (NotFound (''unknown control '' @ control_id))
       | Some m \<Rightarrow> Inr (EvidenceBundleResult
           (''evidence for '' @ control_id @ '' '' @ start @ ''..'' @ stop @ '': ''
             @ nat_str (length (em_policy_versions m)) @ '' policy versions, ''
             @ nat_str (length (em_test_results m)) @ '' tests, ''
             @ nat_str (length (em_change_tickets m)) @ '' tickets, '' @ nat_str (length (em_gaps m)) @ '' gap(s)'') m)))"

definition draft_create_tool ::
    "service \<Rightarrow> call_env \<Rightarrow> user \<Rightarrow> draft_kind \<Rightarrow> string \<Rightarrow> string \<Rightarrow> string list \<Rightarrow> drafts_db \<Rightarrow>
     (tool_result \<times> drafts_db) res" where
  [service_defs]: "draft_create_tool C E u kind title body related db =
     (if str_strip title = [] \<or> str_strip body = [] then Inl (InvalidInput ''title and body are required'')
      else rbind (check_draft kind title body related (feed_get (sy_feed (sv_systems C)))
                    (recompute_hash (sv_hashes C) (sv_systems C))) (\<lambda>_.
           rbind (draft_create (sv_hashes C) kind title body (u_upn u) related [] (en_draft E) db) (\<lambda>(d, db').
             Inr (DraftCreateResult (''draft '' @ d_draft_id d @ '' ('' @ draft_kind_str kind @ '') queued for human review'')
                    (d_draft_id d) (d_status d), db'))))"

definition draft_list_tool :: "draft_status \<Rightarrow> drafts_db \<Rightarrow> tool_result res" where
  [service_defs]: "draft_list_tool status db =
     rbind (draft_list status db) (\<lambda>rows.
       Inr (DraftListResult (nat_str (length rows) @ '' '' @ draft_status_str status @ '' draft(s)'') rows))"

definition draft_get_tool :: "string \<Rightarrow> drafts_db \<Rightarrow> tool_result res" where
  [service_defs]: "draft_get_tool i db =
     rbind (draft_get i db) (\<lambda>d. Inr (DraftGetResult (''draft '' @ i @ '' '' @ found_text d) d))"

section \<open>One call of a tool\<close>

text \<open>The tools with their arguments, as the shims of server.py pass them on.\<close>

datatype tool_call =
  PolicyLookup string int
| PolicyGet string "string option"
| PolicyList
| ControlLookup string string
| ControlTestResults string "string option" "string option"
| RegulatoryReleases string string
| RegulatoryReleaseGet string
| TicketSearch string string "string option" "string option"
| AttestationsDue int "string option"
| EvidenceBundle string string string
| DraftCreate draft_kind string string "string list"
| DraftList draft_status
| DraftGet string

fun tool_name :: "tool_call \<Rightarrow> string" where
  "tool_name (PolicyLookup _ _) = ''policy_lookup''"
| "tool_name (PolicyGet _ _) = ''policy_get''"
| "tool_name PolicyList = ''policy_list''"
| "tool_name (ControlLookup _ _) = ''control_lookup''"
| "tool_name (ControlTestResults _ _ _) = ''control_test_results''"
| "tool_name (RegulatoryReleases _ _) = ''regulatory_releases''"
| "tool_name (RegulatoryReleaseGet _) = ''regulatory_release_get''"
| "tool_name (TicketSearch _ _ _ _) = ''ticket_search''"
| "tool_name (AttestationsDue _ _) = ''attestations_due''"
| "tool_name (EvidenceBundle _ _ _) = ''evidence_bundle''"
| "tool_name (DraftCreate _ _ _ _) = ''draft_create''"
| "tool_name (DraftList _) = ''draft_list''"
| "tool_name (DraftGet _) = ''draft_get''"

fun tool_group :: "tool_call \<Rightarrow> string option" where
  "tool_group (DraftCreate _ _ _ _) = Some ANALYST_GROUP"
| "tool_group _ = None"

definition jopt :: "string option \<Rightarrow> json" where
  "jopt s = (case s of None \<Rightarrow> JNull | Some v \<Rightarrow> JStr v)"

text \<open>What is recorded of the arguments: all of them, except the body of a draft, which is hashed.\<close>

definition draft_audit_args ::
    "hashes \<Rightarrow> draft_kind \<Rightarrow> string \<Rightarrow> string \<Rightarrow> string list \<Rightarrow> (string \<times> json) list" where
  "draft_audit_args H kind title body related =
     [(''kind'', JStr (draft_kind_str kind)), (''title'', JStr title),
      (''body_sha256'', JStr (sha256 H (utf8 body))), (''related_ids'', JArr (map JStr related))]"

fun tool_args :: "hashes \<Rightarrow> tool_call \<Rightarrow> (string \<times> json) list" where
  "tool_args H (PolicyLookup q n) = [(''query'', JStr q), (''limit'', JInt n)]"
| "tool_args H (PolicyGet i d) = [(''policy_id'', JStr i), (''as_of'', jopt d)]"
| "tool_args H PolicyList = []"
| "tool_args H (ControlLookup i q) = [(''control_id'', JStr i), (''query'', JStr q)]"
| "tool_args H (ControlTestResults i s e) = [(''control_id'', JStr i), (''start'', jopt s), (''end'', jopt e)]"
| "tool_args H (RegulatoryReleases since src) = [(''since'', JStr since), (''source'', JStr src)]"
| "tool_args H (RegulatoryReleaseGet i) = [(''release_id'', JStr i)]"
| "tool_args H (TicketSearch q i s e) =
     [(''query'', JStr q), (''control_id'', JStr i), (''start'', jopt s), (''end'', jopt e)]"
| "tool_args H (AttestationsDue n d) = [(''within_days'', JInt n), (''today'', jopt d)]"
| "tool_args H (EvidenceBundle i s e) = [(''control_id'', JStr i), (''start'', JStr s), (''end'', JStr e)]"
| "tool_args H (DraftCreate k t b r) = draft_audit_args H k t b r"
| "tool_args H (DraftList s) = [(''status'', JStr (draft_status_str s))]"
| "tool_args H (DraftGet i) = [(''draft_id'', JStr i)]"

definition reading :: "tool_result res \<Rightarrow> drafts_db \<Rightarrow> (tool_result \<times> drafts_db) res" where
  "reading r db = rbind r (\<lambda>x. Inr (x, db))"

fun tool_body :: "service \<Rightarrow> call_env \<Rightarrow> user \<Rightarrow> tool_call \<Rightarrow> drafts_db \<Rightarrow> (tool_result \<times> drafts_db) res" where
  "tool_body C E u (PolicyLookup q n) db = reading (policy_lookup C q n) db"
| "tool_body C E u (PolicyGet i d) db = reading (policy_get C i d) db"
| "tool_body C E u PolicyList db = reading (policy_list C) db"
| "tool_body C E u (ControlLookup i q) db = reading (control_lookup C i q) db"
| "tool_body C E u (ControlTestResults i s e) db = reading (control_test_results C i s e) db"
| "tool_body C E u (RegulatoryReleases since src) db = reading (regulatory_releases C since src) db"
| "tool_body C E u (RegulatoryReleaseGet i) db = reading (regulatory_release_get C i) db"
| "tool_body C E u (TicketSearch q i s e) db = reading (ticket_search C q i s e) db"
| "tool_body C E u (AttestationsDue n d) db = reading (attestations_due_tool C E n d) db"
| "tool_body C E u (EvidenceBundle i s e) db = reading (evidence_bundle C i s e) db"
| "tool_body C E u (DraftCreate k t b r) db = draft_create_tool C E u k t b r db"
| "tool_body C E u (DraftList s) db = reading (draft_list_tool s db) db"
| "tool_body C E u (DraftGet i) db = reading (draft_get_tool i db) db"

text \<open>
  The handlers of \<^verbatim>\<open>audited\<close>, one per exception class: the code and the detail of the
  \<open>ToolError\<close>, and the outcome and the summary of the record.
\<close>

fun handler :: "exc \<Rightarrow> tool_error \<times> string \<times> string" where
  "handler (AccessDenied m) = (\<lparr>te_error = AccessDeniedCode, te_detail = m\<rparr>, ''denied'', m)"
| "handler (RateLimited m) = (\<lparr>te_error = RateLimitedCode, te_detail = m\<rparr>, ''denied'', m)"
| "handler (DraftRejected m) =
     (\<lparr>te_error = DraftRejectedCode, te_detail = m\<rparr>, ''error'', ''draft_rejected: '' @ m)"
| "handler (InvalidInput m) =
     (\<lparr>te_error = InvalidInputCode, te_detail = m\<rparr>, ''error'', ''invalid_input: '' @ m)"
| "handler ValidationError =
     (\<lparr>te_error = InvalidInputCode, te_detail = ''argument failed validation''\<rparr>, ''error'',
      ''invalid_input: argument failed validation'')"
| "handler (NotFound m) = (\<lparr>te_error = NotFoundCode, te_detail = m\<rparr>, ''error'', ''not_found: '' @ m)"
| "handler _ =
     (\<lparr>te_error = InternalErrorCode, te_detail = ''the tool failed; the error has been logged''\<rparr>, ''error'',
      ''internal_error'')"

type_synonym reply = "tool_error + tool_result"

text \<open>The partially applied \<^verbatim>\<open>record\<close>, completed by a requester, an outcome and a summary.\<close>

definition record_call ::
    "service \<Rightarrow> caller_identity \<Rightarrow> tool_call \<Rightarrow> string \<Rightarrow> string \<Rightarrow> string \<Rightarrow> string \<Rightarrow> world \<Rightarrow> service_state \<Rightarrow>
     service_state res" where
  "record_call C caller call version requester outcome summary w s =
     rbind (audit_write (sv_hashes C) (sv_log C)
         \<lparr>wa_requester = requester, wa_tool = tool_name call, wa_args = tool_args (sv_hashes C) call,
           wa_outcome = outcome, wa_summary = summary, wa_session = ci_session_id caller, wa_dirver = version\<rparr>
         w (st_audit s))
       (\<lambda>(d, out, b). Inr (s\<lparr>st_audit := d, st_forwarded := st_forwarded s @ out\<rparr>))"

text \<open>Authorisation, with the group of the tool if it has one.\<close>

definition authorise :: "service \<Rightarrow> call_env \<Rightarrow> caller_identity \<Rightarrow> tool_call \<Rightarrow> service_state \<Rightarrow> service_state \<times> user res" where
  "authorise C E caller call s =
     (let (d, r) = (case tool_group call of
            Some g \<Rightarrow> dir_require_group (sv_hashes C) (sv_valid_user C) (en_auth_now E) (en_auth_file E)
                        (ci_requester caller) g (st_directory s)
          | None \<Rightarrow> dir_resolve (sv_hashes C) (sv_valid_user C) (en_auth_now E) (en_auth_file E)
                        (ci_requester caller) (st_directory s))
      in (s\<lparr>st_directory := d\<rparr>, r))"

text \<open>The body of the \<^verbatim>\<open>try\<close>: authorise, limit, run, record. The state is the one reached when it raises.\<close>

definition try_call ::
    "service \<Rightarrow> call_env \<Rightarrow> caller_identity \<Rightarrow> tool_call \<Rightarrow> string \<Rightarrow> service_state \<Rightarrow> service_state \<times> tool_result res" where
  "try_call C E caller call version s =
     (case authorise C E caller call s of
        (s1, Inl e) \<Rightarrow> (s1, Inl e)
      | (s1, Inr u) \<Rightarrow>
          (case limiter_check (u_upn u) (en_limit_now E) (st_limiter s1) of
             (l, Inl e) \<Rightarrow> (s1\<lparr>st_limiter := l\<rparr>, Inl e)
           | (l, Inr _) \<Rightarrow>
               let s2 = s1\<lparr>st_limiter := l\<rparr>
               in case tool_body C E u call (st_drafts s2) of
                    Inl e \<Rightarrow> (s2, Inl e)
                  | Inr (result, db) \<Rightarrow>
                      let s3 = s2\<lparr>st_drafts := db\<rparr>
                      in case record_call C caller call version (u_upn u) ''ok'' (tool_summary result) (en_world E) s3 of
                           Inl e \<Rightarrow> (s3, Inl e)
                         | Inr s4 \<Rightarrow> (s4, Inr result)))"

text \<open>
  The wrapper. The version of the directory is read before the \<^verbatim>\<open>try\<close>, so an exception of
  that reload reaches the transport, as does one of the record that a handler writes.
\<close>

definition service_call ::
    "service \<Rightarrow> call_env \<Rightarrow> caller_identity \<Rightarrow> tool_call \<Rightarrow> service_state \<Rightarrow> service_state \<times> reply res" where
  "service_call C E caller call s =
     (case dir_version (sv_hashes C) (sv_valid_user C) (en_version_now E) (en_version_file E) (st_directory s) of
        (d, Inl e) \<Rightarrow> (s\<lparr>st_directory := d\<rparr>, Inl e)
      | (d, Inr version) \<Rightarrow>
          (case try_call C E caller call version (s\<lparr>st_directory := d\<rparr>) of
             (s1, Inr result) \<Rightarrow> (s1, Inr (Inr result))
           | (s1, Inl e) \<Rightarrow>
               (case handler e of (err, outcome, summary) \<Rightarrow>
                  (case record_call C caller call version (ci_requester caller) outcome summary (en_retry_world E) s1 of
                     Inl e' \<Rightarrow> (s1, Inl e')
                   | Inr s2 \<Rightarrow> (s2, Inr (Inl err))))))"

fun service_run ::
    "service \<Rightarrow> (call_env \<times> caller_identity \<times> tool_call) list \<Rightarrow> service_state \<Rightarrow> service_state \<times> reply res list" where
  "service_run C [] s = (s, [])"
| "service_run C ((E, caller, call) # cs) s =
     (case service_call C E caller call s of
        (s', r) \<Rightarrow> (case service_run C cs s' of (t, rs) \<Rightarrow> (t, r # rs)))"

end
