(* ===== verification/Service_Calls.thy ===== *)
theory Service_Calls
  imports Service
begin

text \<open>
  What the wrapper \<^verbatim>\<open>audited\<close> guarantees over the whole of a call and over any sequence of calls:
  exactly one audit record per answer, answers for authorised callers only, and a change of the
  drafts by an accepted \<^verbatim>\<open>draft_create\<close> only.
\<close>

declare map_of_eq_Some_iff [simp del] Some_eq_map_of_iff [simp del]

section \<open>The record of a call\<close>

lemma good_tool_args: "wf_args (tool_args H call)"
  by (cases call) (auto simp: wf_args_def jopt_def draft_audit_args_def split: option.splits)

lemma not_rotation: "tool_name call \<noteq> ''audit_rotate''"
  by (cases call) auto

text \<open>The arguments of the write that records a call.\<close>

definition call_entry :: "service \<Rightarrow> caller_identity \<Rightarrow> tool_call \<Rightarrow> string \<Rightarrow> string \<Rightarrow> string \<Rightarrow> string \<Rightarrow> write_args" where
  "call_entry C caller call version requester outcome summary =
     \<lparr>wa_requester = requester, wa_tool = tool_name call, wa_args = tool_args (sv_hashes C) call,
       wa_outcome = outcome, wa_summary = summary, wa_session = ci_session_id caller, wa_dirver = version\<rparr>"

lemma good_call_entry: "good_call (call_entry C caller call v who outc sm)"
  by (simp add: good_call_def call_entry_def good_tool_args not_rotation)

text \<open>The log of the service: its records and its head, and the names of the rotated files so far.\<close>

definition log_holds :: "service \<Rightarrow> service_state \<Rightarrow> json list \<Rightarrow> bool" where
  "log_holds C s es \<longleftrightarrow> (\<exists>rss h. chain_inv (sv_hashes C) (sv_log C) (st_audit s) rss h \<and> entries (concat rss) = es)"

definition rotates_late :: "service \<Rightarrow> service_state \<Rightarrow> call_env \<Rightarrow> bool" where
  "rotates_late C s E \<longleftrightarrow> rotates_later (sv_log C) (st_audit s) (en_world E) \<and>
     rotates_later (sv_log C) (st_audit s) (en_retry_world E)"

lemma record_step:
  assumes "hex_hashes (sv_hashes C)" "log_holds C s es" "rotates_later (sv_log C) (st_audit s) w"
  shows "\<exists>d out e. record_call C caller call v who outc sm w s = Inr (s\<lparr>st_audit := d, st_forwarded := st_forwarded s @ out\<rparr>) \<and>
    log_holds C (s\<lparr>st_audit := d, st_forwarded := st_forwarded s @ out\<rparr>) (es @ [e]) \<and>
    logs (call_entry C caller call v who outc sm) e \<and>
    set (rotated_files (sv_log C) d) \<subseteq> insert (rotated_name (sv_log C) w) (set (rotated_files (sv_log C) (st_audit s)))"
proof -
  let ?H = "sv_hashes C" and ?L = "sv_log C" and ?a = "call_entry C caller call v who outc sm"
  obtain rss h where inv: "chain_inv ?H ?L (st_audit s) rss h" "entries (concat rss) = es"
    using assms(2) by (auto simp: log_holds_def)
  obtain d out b rss' h' e where w: "audit_write ?H ?L ?a w (st_audit s) = Inr (d, out, b)" "chain_inv ?H ?L d rss' h'"
      and e: "entries (concat rss') = entries (concat rss) @ [e]" "logs ?a e"
      and rot: "set (rotated_files ?L d) \<subseteq> insert (rotated_name ?L w) (set (rotated_files ?L (st_audit s)))"
    using write_logged [OF assms(1) inv(1) good_call_entry assms(3)] by blast
  have "record_call C caller call v who outc sm w s = Inr (s\<lparr>st_audit := d, st_forwarded := st_forwarded s @ out\<rparr>)"
    using w(1) by (simp add: record_call_def call_entry_def)
  moreover have "log_holds C (s\<lparr>st_audit := d, st_forwarded := st_forwarded s @ out\<rparr>) (es @ [e])"
    using w(2) e(1) inv(2) by (auto simp: log_holds_def)
  ultimately show ?thesis using e(2) rot by blast
qed

section \<open>The body of the try block\<close>

lemma reading_drafts: "reading r db = Inr (x, db') \<Longrightarrow> db' = db"
  by (auto simp: reading_def rbind_Inr_iff)

lemma body_drafts:
  "tool_body C E u call db = Inr (res, db') \<Longrightarrow> db' \<noteq> db \<Longrightarrow> \<exists>k t b r. call = DraftCreate k t b r"
  by (cases call) (auto dest: reading_drafts)

lemma authorise_facts:
  assumes "dir_inv (sv_hashes C) (sv_valid_user C) (st_directory s)" "authorise C E caller call s = (s', x)"
  shows "dir_inv (sv_hashes C) (sv_valid_user C) (st_directory s')" "s' = s\<lparr>st_directory := st_directory s'\<rparr>"
    "x = Inr u \<Longrightarrow> u_active u \<and> names_user (ci_requester caller) u \<and>
       (\<forall>g. tool_group call = Some g \<longrightarrow> g \<in> set (u_groups u))"
  using assms resolve_facts [OF assms(1)] require_group_facts [OF assms(1)]
  by (auto simp: authorise_def split: option.splits prod.splits)

text \<open>
  An accepted call: who was authorised, what the body made of the drafts, and the record. The
  audit log and the drafts are as before when the call is refused or fails.
\<close>

definition accepted :: "service \<Rightarrow> call_env \<Rightarrow> caller_identity \<Rightarrow> tool_call \<Rightarrow> service_state \<Rightarrow> service_state \<Rightarrow>
    tool_result \<Rightarrow> user \<Rightarrow> bool" where
  "accepted C E caller call s s' result u \<longleftrightarrow>
     u_active u \<and> names_user (ci_requester caller) u \<and>
     (\<forall>g. tool_group call = Some g \<longrightarrow> g \<in> set (u_groups u)) \<and>
     tool_body C E u call (st_drafts s) = Inr (result, st_drafts s') \<and>
     limiter_check (u_upn u) (en_limit_now E) (st_limiter s) = (st_limiter s', Inr ())"

lemma try_step:
  assumes "hex_hashes (sv_hashes C)" "log_holds C s es" "rotates_late C s E"
    and "dir_inv (sv_hashes C) (sv_valid_user C) (st_directory s)"
    and "try_call C E caller call v s = (s', x)"
  shows "dir_inv (sv_hashes C) (sv_valid_user C) (st_directory s') \<and>
    (case x of
       Inl e \<Rightarrow> st_audit s' = st_audit s \<and> st_drafts s' = st_drafts s
     | Inr result \<Rightarrow> \<exists>u e. accepted C E caller call s s' result u \<and> log_holds C s' (es @ [e]) \<and>
         logs (call_entry C caller call v (u_upn u) ''ok'' (tool_summary result)) e \<and>
         set (rotated_files (sv_log C) (st_audit s')) \<subseteq>
           insert (rotated_name (sv_log C) (en_world E)) (set (rotated_files (sv_log C) (st_audit s))))"
proof -
  obtain s1 a where a: "authorise C E caller call s = (s1, a)" by fastforce
  note f = authorise_facts [OF assms(4) a]
  have s1: "st_audit s1 = st_audit s" "st_drafts s1 = st_drafts s" "st_limiter s1 = st_limiter s"
    using f(2) by (metis service_state.select_convs service_state.surjective service_state.update_convs(3))+
  show ?thesis
  proof (cases a)
    case (Inl e)
    then show ?thesis using assms(5) a f(1) s1 by (auto simp: try_call_def)
  next
    case (Inr u)
    obtain l y where l: "limiter_check (u_upn u) (en_limit_now E) (st_limiter s1) = (l, y)" by fastforce
    show ?thesis
    proof (cases y)
      case (Inl e)
      then show ?thesis using assms(5) a f(1) s1 Inr l by (auto simp: try_call_def)
    next
      case y: (Inr un)
      let ?s2 = "s1\<lparr>st_limiter := l\<rparr>"
      show ?thesis
      proof (cases "tool_body C E u call (st_drafts ?s2)")
        case (Inl e)
        then show ?thesis using assms(5) a f(1) s1 Inr l y by (auto simp: try_call_def Let_def)
      next
        case b: (Inr p)
        obtain result db where p: "p = (result, db)" by (cases p)
        let ?s3 = "?s2\<lparr>st_drafts := db\<rparr>"
        have h: "log_holds C ?s3 es" using assms(2) s1 by (simp add: log_holds_def)
        have r: "rotates_later (sv_log C) (st_audit ?s3) (en_world E)"
          using assms(3) s1 by (simp add: rotates_late_def)
        obtain d out e where e: "record_call C caller call v (u_upn u) ''ok'' (tool_summary result) (en_world E) ?s3 =
              Inr (?s3\<lparr>st_audit := d, st_forwarded := st_forwarded ?s3 @ out\<rparr>)"
            "log_holds C (?s3\<lparr>st_audit := d, st_forwarded := st_forwarded ?s3 @ out\<rparr>) (es @ [e])"
            "logs (call_entry C caller call v (u_upn u) ''ok'' (tool_summary result)) e"
            "set (rotated_files (sv_log C) d) \<subseteq> insert (rotated_name (sv_log C) (en_world E))
               (set (rotated_files (sv_log C) (st_audit ?s3)))"
          using record_step [OF assms(1) h r, of caller call v "u_upn u" "''ok''" "tool_summary result"] by blast
        have x: "x = Inr result" "s' = ?s3\<lparr>st_audit := d, st_forwarded := st_forwarded ?s3 @ out\<rparr>"
          using assms(5) a Inr l y b p e(1) by (auto simp: try_call_def Let_def)
        have "accepted C E caller call s s' result u"
          using f(3) [OF Inr] b p s1 x(2) l y by (simp add: accepted_def)
        then show ?thesis using x e(2-4) f(1) s1 by auto
      qed
    qed
  qed
qed

section \<open>The wrapper\<close>

text \<open>The outcome and the summary that the record of an answer has.\<close>

fun code_prefix :: "error_code \<Rightarrow> string" where
  "code_prefix AccessDeniedCode = []"
| "code_prefix RateLimitedCode = []"
| "code_prefix c = error_code_str c @ '': ''"

definition reply_outcome :: "reply \<Rightarrow> string" where
  "reply_outcome r =
     (case r of Inr _ \<Rightarrow> ''ok''
      | Inl e \<Rightarrow> if te_error e \<in> {AccessDeniedCode, RateLimitedCode} then ''denied'' else ''error'')"

definition reply_summary :: "reply \<Rightarrow> string" where
  "reply_summary r =
     (case r of Inr x \<Rightarrow> tool_summary x
      | Inl e \<Rightarrow> if te_error e = InternalErrorCode then ''internal_error'' else code_prefix (te_error e) @ te_detail e)"

lemma handler_reply: "handler e = (err, outc, sm) \<Longrightarrow> outc = reply_outcome (Inl err) \<and> sm = reply_summary (Inl err)"
  by (induction e rule: handler.induct) (clarsimp simp: reply_outcome_def reply_summary_def)+

text \<open>A record tells of a call and its answer.\<close>

definition recorded :: "service \<Rightarrow> caller_identity \<Rightarrow> tool_call \<Rightarrow> reply \<Rightarrow> json \<Rightarrow> bool" where
  "recorded C caller call r x \<longleftrightarrow> (\<exists>v who.
     logs (call_entry C caller call v who (reply_outcome r) (reply_summary r)) x \<and>
     (case r of Inl _ \<Rightarrow> who = ci_requester caller
      | Inr _ \<Rightarrow> \<exists>u. who = u_upn u \<and> u_active u \<and> names_user (ci_requester caller) u \<and>
          (\<forall>g. tool_group call = Some g \<longrightarrow> g \<in> set (u_groups u))))"

text \<open>The state of a service: the directory snapshot is consistent and the log is intact.\<close>

definition service_ok :: "service \<Rightarrow> service_state \<Rightarrow> json list \<Rightarrow> bool" where
  "service_ok C s es \<longleftrightarrow> hex_hashes (sv_hashes C) \<and>
     dir_inv (sv_hashes C) (sv_valid_user C) (st_directory s) \<and> log_holds C s es"

lemma version_inv:
  "dir_inv H valid d \<Longrightarrow> dir_version H valid now file d = (d', x) \<Longrightarrow> dir_inv H valid d'"
  using load_inv by (fastforce simp: dir_version_def split: prod.splits)

text \<open>What one call does to a service, and to the names of the rotated files.\<close>

lemma call_step:
  assumes ok: "service_ok C s es" and late: "rotates_late C s E"
    and call: "service_call C E caller call s = (s', x)"
  shows "\<exists>es'. service_ok C s' es' \<and>
    (case x of
       Inl e \<Rightarrow> es' = es \<and> st_drafts s' = st_drafts s
     | Inr r \<Rightarrow> \<exists>e. es' = es @ [e] \<and> recorded C caller call r e \<and>
         (case r of
            Inl _ \<Rightarrow> st_drafts s' = st_drafts s \<and> jget e ''outcome'' \<noteq> Some (JStr ''ok'')
          | Inr result \<Rightarrow> \<exists>u. accepted C E caller call s s' result u \<and> jget e ''requester'' = Some (JStr (u_upn u)))) \<and>
    set (rotated_files (sv_log C) (st_audit s')) \<subseteq>
      {rotated_name (sv_log C) (en_world E), rotated_name (sv_log C) (en_retry_world E)} \<union>
      set (rotated_files (sv_log C) (st_audit s))"
proof -
  let ?H = "sv_hashes C" and ?V = "sv_valid_user C"
  obtain d v where v: "dir_version ?H ?V (en_version_now E) (en_version_file E) (st_directory s) = (d, v)" by fastforce
  let ?s = "s\<lparr>st_directory := d\<rparr>"
  have hex: "hex_hashes ?H" and inv: "dir_inv ?H ?V (st_directory ?s)" and log: "log_holds C ?s es"
    and late': "rotates_late C ?s E"
    using ok version_inv [OF _ v] late by (auto simp: service_ok_def log_holds_def rotates_late_def)
  show ?thesis
  proof (cases v)
    case (Inl e)
    then have "x = Inl e" "s' = ?s" using call v by (auto simp: service_call_def)
    then show ?thesis using hex inv log by (auto simp: service_ok_def)
  next
    case (Inr version)
    obtain s1 y where t: "try_call C E caller call version ?s = (s1, y)" by fastforce
    note step = try_step [OF hex log late' inv t]
    show ?thesis
    proof (cases y)
      case (Inr result)
      then have x: "x = Inr (Inr result)" "s' = s1"
        using call v \<open>v = Inr version\<close> t by (auto simp: service_call_def)
      obtain u e where ue: "accepted C E caller call ?s s1 result u" "log_holds C s1 (es @ [e])"
          "logs (call_entry C caller call version (u_upn u) ''ok'' (tool_summary result)) e"
          "set (rotated_files (sv_log C) (st_audit s1)) \<subseteq>
             insert (rotated_name (sv_log C) (en_world E)) (set (rotated_files (sv_log C) (st_audit ?s)))"
        using step Inr by auto
      have "recorded C caller call (Inr result) e"
        using ue(1,3) by (auto simp: recorded_def accepted_def reply_outcome_def reply_summary_def)
      moreover have "accepted C E caller call s s1 result u" using ue(1) by (simp add: accepted_def)
      moreover have "service_ok C s1 (es @ [e])" using step hex ue(2) by (simp add: service_ok_def)
      moreover have "jget e ''requester'' = Some (JStr (u_upn u))" using ue(3) by (simp add: logs_def call_entry_def)
      ultimately show ?thesis using x ue(4) by auto
    next
      case (Inl e)
      obtain err outc sm where h: "handler e = (err, outc, sm)" by (metis prod.exhaust)
      have s1: "st_audit s1 = st_audit s" "st_drafts s1 = st_drafts s" "dir_inv ?H ?V (st_directory s1)"
        using step Inl by auto
      have log1: "log_holds C s1 es" and late1: "rotates_later (sv_log C) (st_audit s1) (en_retry_world E)"
        using log late' s1(1) by (auto simp: log_holds_def rotates_late_def)
      obtain d' out e' where r: "record_call C caller call version (ci_requester caller) outc sm (en_retry_world E) s1 =
            Inr (s1\<lparr>st_audit := d', st_forwarded := st_forwarded s1 @ out\<rparr>)"
          "log_holds C (s1\<lparr>st_audit := d', st_forwarded := st_forwarded s1 @ out\<rparr>) (es @ [e'])"
          "logs (call_entry C caller call version (ci_requester caller) outc sm) e'"
          "set (rotated_files (sv_log C) d') \<subseteq> insert (rotated_name (sv_log C) (en_retry_world E))
             (set (rotated_files (sv_log C) (st_audit s1)))"
        using record_step [OF hex log1 late1, of caller call version "ci_requester caller" outc sm] by blast
      have x: "x = Inr (Inl err)" "s' = s1\<lparr>st_audit := d', st_forwarded := st_forwarded s1 @ out\<rparr>"
        using call v \<open>v = Inr version\<close> t Inl h r(1) by (auto simp: service_call_def)
      have "recorded C caller call (Inl err) e'"
        using r(3) handler_reply [OF h] by (auto simp: recorded_def)
      moreover have "service_ok C s' (es @ [e'])" using hex s1(3) r(2) x(2) by (simp add: service_ok_def)
      moreover have "jget e' ''outcome'' \<noteq> Some (JStr ''ok'')"
        using r(3) handler_reply [OF h] by (auto simp: logs_def call_entry_def reply_outcome_def)
      ultimately show ?thesis using x r(4) s1 by auto
    qed
  qed
qed

text \<open>A call asks the limiter at most once.\<close>

lemma limiter_step:
  assumes "service_call C E caller call s = (s', x)"
  shows "st_limiter s' = st_limiter s \<or>
    (\<exists>k r. limiter_check k (en_limit_now E) (st_limiter s) = (st_limiter s', r))"
proof -
  have rec: "st_limiter t' = st_limiter t" if "record_call C caller call v who outc sm w t = Inr t'" for v who outc sm w t t'
    using that by (auto simp: record_call_def rbind_Inr_iff)
  have aut: "st_limiter t' = st_limiter t" if "authorise C E caller call t = (t', y)" for t t' y
    using that by (auto simp: authorise_def split: prod.splits)
  have "st_limiter t' = st_limiter t \<or> (\<exists>k r. limiter_check k (en_limit_now E) (st_limiter t) = (st_limiter t', r))"
    if t: "try_call C E caller call v t = (t', y)" for v t t' y
  proof -
    obtain t1 a where a: "authorise C E caller call t = (t1, a)" by fastforce
    show ?thesis
    proof (cases a)
      case (Inl e)
      then show ?thesis using t a aut [OF a] by (auto simp: try_call_def)
    next
      case (Inr u)
      obtain l r where l: "limiter_check (u_upn u) (en_limit_now E) (st_limiter t1) = (l, r)" by fastforce
      have "st_limiter t' = l"
        using t a Inr l rec [of v "u_upn u" "''ok''"]
        by (auto simp: try_call_def Let_def split: sum.splits dest: rec)
      then show ?thesis using l aut [OF a] by metis
    qed
  qed
  note tried = this
  obtain d v where v: "dir_version (sv_hashes C) (sv_valid_user C) (en_version_now E) (en_version_file E) (st_directory s) = (d, v)"
    by fastforce
  show ?thesis
  proof (cases v)
    case (Inr version)
    obtain s1 y where y: "try_call C E caller call version (s\<lparr>st_directory := d\<rparr>) = (s1, y)" by fastforce
    have "st_limiter s' = st_limiter s1"
      using assms v Inr y by (auto simp: service_call_def split: sum.splits prod.splits dest: rec)
    then show ?thesis using tried [OF y] by simp
  qed (use assms v in \<open>auto simp: service_call_def\<close>)
qed

section \<open>Many calls\<close>

text \<open>The clock readings for the names of rotated files increase from call to call.\<close>

definition call_before :: "call_env \<times> caller_identity \<times> tool_call \<Rightarrow> call_env \<times> caller_identity \<times> tool_call \<Rightarrow> bool" where
  "call_before c d \<longleftrightarrow>
     (\<forall>w \<in> {en_world (fst c), en_retry_world (fst c)}. \<forall>w' \<in> {en_world (fst d), en_retry_world (fst d)}. rot_before w w')"

definition late_calls :: "service \<Rightarrow> service_state \<Rightarrow> (call_env \<times> caller_identity \<times> tool_call) list \<Rightarrow> bool" where
  "late_calls C s cs \<longleftrightarrow> sorted_wrt call_before cs \<and> (\<forall>c \<in> set cs. rotates_late C s (fst c))"

text \<open>The calls that were answered, with their answers.\<close>

definition answered :: "'a list \<Rightarrow> reply res list \<Rightarrow> ('a \<times> reply) list" where
  "answered cs rs = concat (map2 (\<lambda>c r. case r of Inl _ \<Rightarrow> [] | Inr x \<Rightarrow> [(c, x)]) cs rs)"

definition answer_recorded :: "service \<Rightarrow> (call_env \<times> caller_identity \<times> tool_call) \<times> reply \<Rightarrow> json \<Rightarrow> bool" where
  "answer_recorded C a x = (case a of ((E, caller, call), r) \<Rightarrow> recorded C caller call r x)"

lemma answered_simps [simp]:
  "answered [] [] = []"
  "answered (c # cs) (Inl e # rs) = answered cs rs"
  "answered (c # cs) (Inr a # rs) = (c, a) # answered cs rs"
  by (simp_all add: answered_def)

lemma answer_recorded_simp [simp]: "answer_recorded C ((E, caller, call), r) x = recorded C caller call r x"
  by (simp add: answer_recorded_def)

lemma late_calls_step:
  assumes "late_calls C s ((E, x) # cs)"
    and "set (rotated_files (sv_log C) (st_audit s')) \<subseteq>
      {rotated_name (sv_log C) (en_world E), rotated_name (sv_log C) (en_retry_world E)} \<union>
      set (rotated_files (sv_log C) (st_audit s))"
  shows "late_calls C s' cs"
proof -
  have "rotates_late C s' (fst c)" if c: "c \<in> set cs" for c
  proof -
    have "call_before (E, x) c" "rotates_late C s (fst c)" using assms(1) c by (auto simp: late_calls_def)
    have "n < rotated_name (sv_log C) w" if n: "n \<in> set (rotated_files (sv_log C) (st_audit s'))"
      and w: "w \<in> {en_world (fst c), en_retry_world (fst c)}" for n w
    proof (cases "n \<in> set (rotated_files (sv_log C) (st_audit s))")
      case True
      then show ?thesis using \<open>rotates_late C s (fst c)\<close> w by (auto simp: rotates_late_def rotates_later_def)
    next
      case False
      then obtain w' where "w' \<in> {en_world E, en_retry_world E}" "n = rotated_name (sv_log C) w'"
        using n assms(2) by blast
      then show ?thesis
        using \<open>call_before (E, x) c\<close> w rotated_name_less [of w' w "sv_log C"] unfolding call_before_def fst_conv by blast
    qed
    then show ?thesis by (simp add: rotates_late_def rotates_later_def)
  qed
  then show ?thesis using assms(1) by (simp add: late_calls_def)
qed

lemma call_cases:
  assumes "service_ok C s es" "late_calls C s ((E, caller, call) # cs)" "service_call C E caller call s = (s', x)"
  obtains (raised) e where "x = Inl e" "service_ok C s' es" "late_calls C s' cs" "st_drafts s' = st_drafts s"
  | (refused) err e where "x = Inr (Inl err)" "service_ok C s' (es @ [e])" "late_calls C s' cs"
      "recorded C caller call (Inl err) e" "st_drafts s' = st_drafts s" "jget e ''outcome'' \<noteq> Some (JStr ''ok'')"
  | (accepted) result u e where "x = Inr (Inr result)" "service_ok C s' (es @ [e])" "late_calls C s' cs"
      "recorded C caller call (Inr result) e" "accepted C E caller call s s' result u"
      "jget e ''requester'' = Some (JStr (u_upn u))"
proof -
  have late: "rotates_late C s E" using assms(2) by (simp add: late_calls_def)
  note step = call_step [OF assms(1) late assms(3)]
  have later: "late_calls C s' cs" using late_calls_step [OF assms(2)] step by blast
  show ?thesis
  proof (cases x)
    case (Inl e)
    then show ?thesis using raised step later by auto
  next
    case r: (Inr r)
    show ?thesis
    proof (cases r)
      case (Inl err)
      then show ?thesis using refused step later r by auto
    next
      case (Inr result)
      then show ?thesis using accepted step later r by auto
    qed
  qed
qed

lemma run_step:
  "service_ok C s es \<Longrightarrow> late_calls C s cs \<Longrightarrow> service_run C cs s = (s', rs) \<Longrightarrow>
   \<exists>as. service_ok C s' (es @ as) \<and> list_all2 (answer_recorded C) (answered cs rs) as"
proof (induction cs arbitrary: s es s' rs)
  case Nil
  then show ?case by auto
next
  case (Cons c cs)
  obtain E caller call where c: "c = (E, caller, call)" by (metis prod.exhaust)
  obtain s1 r where s1: "service_call C E caller call s = (s1, r)" by fastforce
  obtain t qs where t: "service_run C cs s1 = (t, qs)" by fastforce
  have res: "s' = t" "rs = r # qs" using Cons.prems(3) c s1 t by auto
  have answer: ?case if "service_ok C s1 (es @ [e])" "late_calls C s1 cs" "r = Inr a" "recorded C caller call a e" for a e
  proof -
    note call = that
    obtain bs where "service_ok C t ((es @ [e]) @ bs)" "list_all2 (answer_recorded C) (answered cs qs) bs"
      using Cons.IH [OF call(1,2) t] by blast
    then show ?thesis using call res c
      by (intro exI [of _ "e # bs"]) simp
  qed
  from Cons.prems(1) Cons.prems(2) [unfolded c] s1 show ?case
  proof (cases rule: call_cases)
    case (raised e)
    then show ?thesis using Cons.IH [OF raised(2,3) t] res by simp
  qed (use answer in blast)+
qed


text \<open>An authorised call within the limit whose body succeeds is answered with the result.\<close>

lemma call_accepted:
  assumes "service_ok C s es" "rotates_late C s E"
    and "dir_version (sv_hashes C) (sv_valid_user C) (en_version_now E) (en_version_file E) (st_directory s) = (d, Inr v)"
    and "authorise C E caller call (s\<lparr>st_directory := d\<rparr>) = (s1, Inr u)"
    and "limiter_check (u_upn u) (en_limit_now E) (st_limiter s1) = (l, Inr ())"
    and "tool_body C E u call (st_drafts s1) = Inr (result, db)"
  shows "\<exists>s'. service_call C E caller call s = (s', Inr (Inr result)) \<and> st_drafts s' = db"
proof -
  have hex: "hex_hashes (sv_hashes C)" and inv: "dir_inv (sv_hashes C) (sv_valid_user C) (st_directory (s\<lparr>st_directory := d\<rparr>))"
    and log: "log_holds C s es" using assms(1) version_inv [OF _ assms(3)] by (auto simp: service_ok_def)
  note f = authorise_facts(2) [OF inv assms(4)]
  let ?s3 = "s1\<lparr>st_limiter := l, st_drafts := db\<rparr>"
  have "st_audit s1 = st_audit s" using f by (metis service_state.select_convs(1) service_state.surjective service_state.update_convs(3))
  then have "log_holds C ?s3 es" "rotates_later (sv_log C) (st_audit ?s3) (en_world E)"
    using log assms(2) by (simp_all add: log_holds_def rotates_late_def)
  then obtain d' out where "record_call C caller call v (u_upn u) ''ok'' (tool_summary result) (en_world E) ?s3 =
      Inr (?s3\<lparr>st_audit := d', st_forwarded := st_forwarded ?s3 @ out\<rparr>)"
    using record_step [OF hex, of ?s3 es "en_world E"] by metis
  then show ?thesis using assms(3-6) by (simp add: service_call_def try_call_def Let_def)
qed

section \<open>The drafts of a run\<close>

definition is_create :: "(call_env \<times> caller_identity \<times> tool_call) \<times> reply \<Rightarrow> bool" where
  "is_create a \<longleftrightarrow> (case a of ((_, _, DraftCreate _ _ _ _), Inr _) \<Rightarrow> True | _ \<Rightarrow> False)"

lemma not_create [simp]: "\<not> is_create (c, Inl err)"
  by (auto simp: is_create_def split: tool_call.splits prod.splits)

text \<open>A row of the table is the pending draft of a call that an analyst was entitled to make.\<close>

definition created_by :: "service \<Rightarrow> (call_env \<times> caller_identity \<times> tool_call) \<times> reply \<Rightarrow> draft_row \<Rightarrow> bool" where
  "created_by C a row \<longleftrightarrow> (\<exists>E caller kind title body related r u.
     a = ((E, caller, DraftCreate kind title body related), Inr r) \<and>
     u_active u \<and> names_user (ci_requester caller) u \<and> ANALYST_GROUP \<in> set (u_groups u) \<and>
     str_strip title \<noteq> [] \<and> str_strip body \<noteq> [] \<and>
     check_draft kind title body related (feed_get (sy_feed (sv_systems C))) (recompute_hash (sv_hashes C) (sv_systems C)) = Inr () \<and>
     row = row_for (new_draft (sv_hashes C) kind title body (u_upn u) related [] (en_draft E)))"

lemma create_drafts:
  assumes "draft_create_tool C E u kind title body related db = Inr (r, db')"
  shows "str_strip title \<noteq> [] \<and> str_strip body \<noteq> [] \<and>
    check_draft kind title body related (feed_get (sy_feed (sv_systems C))) (recompute_hash (sv_hashes C) (sv_systems C)) = Inr () \<and>
    db' = db @ [row_for (new_draft (sv_hashes C) kind title body (u_upn u) related [] (en_draft E))]"
  using assms
  by (auto simp: draft_create_tool_def draft_create_def insert_row_def Let_def rbind_Inr_iff split: if_splits)

lemma accepted_drafts:
  assumes "accepted C E caller call s s' r u"
  shows "if is_create ((E, caller, call), Inr r)
    then \<exists>row. st_drafts s' = st_drafts s @ [row] \<and> created_by C ((E, caller, call), Inr r) row
    else st_drafts s' = st_drafts s"
proof (cases "\<exists>k t b rel. call = DraftCreate k t b rel")
  case True
  then obtain k t b rel where call: "call = DraftCreate k t b rel" by blast
  have "draft_create_tool C E u k t b rel (st_drafts s) = Inr (r, st_drafts s')"
    using assms call by (simp add: accepted_def)
  note d = create_drafts [OF this]
  have "created_by C ((E, caller, call), Inr r) (row_for (new_draft (sv_hashes C) k t b (u_upn u) rel [] (en_draft E)))"
    using d assms call by (auto simp: created_by_def accepted_def)
  then show ?thesis using d call by (auto simp: is_create_def)
next
  case False
  then have "st_drafts s' = st_drafts s" using body_drafts [of C E u call "st_drafts s"] assms by (auto simp: accepted_def)
  moreover have "\<not> is_create ((E, caller, call), Inr r)" using False by (cases call) (auto simp: is_create_def)
  ultimately show ?thesis by simp
qed

lemma run_drafts:
  "service_ok C s es \<Longrightarrow> late_calls C s cs \<Longrightarrow> service_run C cs s = (s', rs) \<Longrightarrow>
   \<exists>rows. st_drafts s' = st_drafts s @ rows \<and> list_all2 (created_by C) (filter is_create (answered cs rs)) rows"
proof (induction cs arbitrary: s es s' rs)
  case Nil
  then show ?case by simp
next
  case (Cons c cs)
  obtain E caller call where c: "c = (E, caller, call)" by (metis prod.exhaust)
  obtain s1 r where s1: "service_call C E caller call s = (s1, r)" by fastforce
  obtain t qs where t: "service_run C cs s1 = (t, qs)" by fastforce
  have res: "s' = t" "rs = r # qs" using Cons.prems(3) c s1 t by auto
  from Cons.prems(1) Cons.prems(2) [unfolded c] s1 show ?case
  proof (cases rule: call_cases)
    case (raised e)
    then show ?thesis using Cons.IH [OF raised(2,3) t] res by simp
  next
    case (refused err e)
    then show ?thesis using Cons.IH [OF refused(2,3) t] refused(1,5) res by simp
  next
    case (accepted a u e)
    note d = accepted_drafts [OF accepted(5)]
    obtain rows where rows: "st_drafts t = st_drafts s1 @ rows"
        "list_all2 (created_by C) (filter is_create (answered cs qs)) rows"
      using Cons.IH [OF accepted(2,3) t] by blast
    have "answered (c # cs) rs = (c, Inr a) # answered cs qs" using accepted(1) res by simp
    then show ?thesis using d rows c res by (cases "is_create (c, Inr a)") auto
  qed
qed


section \<open>The rate limit over the log\<close>

definition ok_records :: "string \<Rightarrow> json list \<Rightarrow> nat" where
  "ok_records key es = length (filter (\<lambda>e. jget e ''requester'' = Some (JStr key) \<and> jget e ''outcome'' = Some (JStr ''ok'')) es)"

lemma ok_records_append [simp]: "ok_records key (es @ fs) = ok_records key es + ok_records key fs"
  by (simp add: ok_records_def)

text \<open>A run of the service is a run of the limiter, and every accepted call of \<open>key\<close> was let through.\<close>

lemma run_limited:
  "service_ok C s es \<Longrightarrow> late_calls C s cs \<Longrightarrow> sorted (t # map (\<lambda>c. en_limit_now (fst c)) cs @ [T]) \<Longrightarrow>
   service_run C cs s = (s', rs) \<Longrightarrow>
   \<exists>es' checks n. service_ok C s' es' \<and> limiter_run key checks (st_limiter s) = (n, st_limiter s') \<and>
     sorted (t # map snd checks @ [T]) \<and> ok_records key es' \<le> ok_records key es + n"
proof (induction cs arbitrary: s es t s' rs)
  case Nil
  then show ?case by (intro exI [of _ es] exI [of _ "[]"] exI [of _ 0]) simp
next
  case (Cons c cs)
  obtain E caller call where c: "c = (E, caller, call)" by (metis prod.exhaust)
  obtain s1 r where s1: "service_call C E caller call s = (s1, r)" by fastforce
  obtain u qs where u: "service_run C cs s1 = (u, qs)" by fastforce
  let ?now = "en_limit_now E"
  have t: "t \<le> ?now" "sorted (?now # map (\<lambda>c. en_limit_now (fst c)) cs @ [T])" using Cons.prems(3) c by simp_all
  have res: "s' = u" using Cons.prems(4) c s1 u by auto
  have quiet: ?case if "service_ok C s1 es1" "late_calls C s1 cs" "ok_records key es1 \<le> ok_records key es" for es1
  proof -
    note call = that
    obtain es' checks n where IH: "service_ok C u es'" "limiter_run key checks (st_limiter s1) = (n, st_limiter u)"
        "sorted (?now # map snd checks @ [T])" "ok_records key es' \<le> ok_records key es1 + n"
      using Cons.IH [OF call(1,2) t(2) u] by blast
    consider "st_limiter s1 = st_limiter s" | k x where "limiter_check k ?now (st_limiter s) = (st_limiter s1, x)"
      using limiter_step [OF s1] by metis
    then show ?thesis
    proof cases
      case 1
      then show ?thesis using IH call(3) res t(1) by (intro exI [of _ es'] exI [of _ checks] exI [of _ n]) (auto intro: order_trans)
    next
      case 2
      then have "limiter_run key ((k, ?now) # checks) (st_limiter s) =
          (if k = key \<and> is_ok x then n + 1 else n, st_limiter u)" using IH(2) by simp
      moreover have "ok_records key es' \<le> ok_records key es + (if k = key \<and> is_ok x then n + 1 else n)"
        using IH(4) call(3) by simp
      ultimately show ?thesis using IH(1,3) res t(1)
        by (intro exI [of _ es'] exI [of _ "(k, ?now) # checks"] exI conjI) auto
    qed
  qed
  from Cons.prems(1) Cons.prems(2) [unfolded c] s1 show ?case
  proof (cases rule: call_cases)
    case (raised e)
    then show ?thesis using quiet [OF raised(2,3)] by simp
  next
    case (refused err e)
    then show ?thesis using quiet [OF refused(2,3)] by (simp add: ok_records_def)
  next
    case (accepted a v e)
    show ?thesis
    proof (cases "u_upn v = key")
      case False
      then show ?thesis using quiet [OF accepted(2,3)] accepted(6) by (simp add: ok_records_def)
    next
      case True
      obtain es' checks n where IH: "service_ok C u es'" "limiter_run key checks (st_limiter s1) = (n, st_limiter u)"
          "sorted (?now # map snd checks @ [T])" "ok_records key es' \<le> ok_records key (es @ [e]) + n"
        using Cons.IH [OF accepted(2,3) t(2) u] by blast
      have "limiter_run key ((key, ?now) # checks) (st_limiter s) = (n + 1, st_limiter u)"
        using IH(2) accepted(5) True by (simp add: accepted_def)
      moreover have "ok_records key es' \<le> ok_records key es + (n + 1)"
        using IH(4) by (simp add: ok_records_def split: if_splits)
      ultimately show ?thesis using IH(1,3) res t(1)
        by (intro exI [of _ es'] exI [of _ "(key, ?now) # checks"] exI [of _ "n + 1"]) auto
    qed
  qed
qed


section \<open>Witnesses\<close>

text \<open>A service with one approver, and three calls to it: a look-up, a draft, and a stranger's.\<close>

definition example_service :: service where
  "example_service = \<lparr>sv_hashes = sum_hashes, sv_log = fst (audit_init ''audit'' ''.jsonl'' ''agent'' ''k'' 600 True 2 []),
     sv_systems = example_systems, sv_valid_user = simple_user, sv_clock_override = False\<rparr>"

definition example_snapshot :: directory where
  "example_snapshot = \<lparr>dy_ttl = 60, dy_users = index_users [ann True],
     dy_version = snapshot_version sum_hashes (users_bytes True), dy_mtime = 1, dy_checked_at = 5\<rparr>"

definition example_state :: service_state where
  "example_state = \<lparr>st_audit = snd (audit_init ''audit'' ''.jsonl'' ''agent'' ''k'' 600 True 2 []), st_forwarded = [],
     st_directory = example_snapshot, st_drafts = [], st_limiter = limiter_init 2 None\<rparr>"

definition example_env :: "nat \<Rightarrow> call_env" where
  "example_env n = (let w = \<lparr>w_uuid = ''a'', w_now = n, w_rot_sec = n, w_rot_ns = 0, w_rot_uuid = ''b'', w_rot_now = n\<rparr> in
     \<lparr>en_version_now = of_nat n, en_version_file = Some (1, users_bytes True), en_auth_now = of_nat n,
      en_auth_file = Some (1, users_bytes True), en_limit_now = of_nat n, en_world = w, en_retry_world = w,
      en_draft = \<lparr>dw_day = 0, dw_uuid = ''0123456789'', dw_now = n\<rparr>, en_today = \<lparr>d_year = 2026, d_month = 1, d_day = 2\<rparr>\<rparr>)"

definition example_caller :: "string \<Rightarrow> caller_identity" where
  "example_caller who = \<lparr>ci_requester = who, ci_source = FromHeader, ci_session_id = ''s''\<rparr>"

definition example_run :: "(call_env \<times> caller_identity \<times> tool_call) list" where
  "example_run =
     [(example_env 6, example_caller ''Ann'', ControlLookup ''C-1'' []),
      (example_env 7, example_caller ''ann@x'', DraftCreate ControlFindingNote ''note'' ''body'' []),
      (example_env 8, example_caller ''bob'', PolicyList)]"

lemma example_dir_init:
  "dir_init (sv_hashes example_service) (sv_valid_user example_service) 60 5 (Some (1, users_bytes True)) =
     Inr (st_directory example_state)"
  by (simp add: dir_init_def dir_load_def Let_def parse_example example_service_def example_state_def example_snapshot_def)

lemma example_before: "sorted_wrt call_before example_run"
  by (simp add: example_run_def call_before_def example_env_def Let_def rot_before_def clock_range_def)

lemma example_hex: "hex_hashes (sv_hashes example_service)"
  by (simp add: example_service_def sum_hashes_hex)

lemma example_log: "(sv_log example_service, st_audit example_state) = audit_init ''audit'' ''.jsonl'' ''agent'' ''k'' 600 True 2 []"
  by (simp add: example_service_def example_state_def)

lemma example_ok: "service_ok example_service example_state []"
  using chain_inv_init [of sum_hashes "''audit''" "''.jsonl''" "''agent''" "''k''" 600 True 2] init_inv [OF example_dir_init] example_hex
  by (auto simp: service_ok_def log_holds_def example_service_def example_state_def entries_def intro!: exI [of _ "[[]]"])

lemma example_late: "late_calls example_service example_state example_run"
  using example_before
  by (simp add: late_calls_def rotates_late_def rotates_later_def example_state_def example_service_def audit_init_def Let_def
      rotated_files_def active_name_def)




end
