(* ===== verification/Settings.thy ===== *)
theory Settings
  imports Prelude
begin

text \<open>
  The configuration of settings.py: the readers of environment variables, the two identity
  modes, and the construction of the settings, which fails on a number or a mode that cannot be
  read. \<^verbatim>\<open>Path.expanduser().resolve()\<close> depends on the file system and is an argument.
\<close>

type_synonym env = "string \<Rightarrow> string option"

section \<open>The readers\<close>

text \<open>
  \<^verbatim>\<open>int(raw)\<close> in base ten: white space around, a sign, and digits that single underscores may
  separate, at most 4300 of them.
\<close>

definition read_digits :: "string \<Rightarrow> nat res" where
  "read_digits s =
     (let parts = str_split (CHR ''_'') s; ds = concat parts
      in if list_ex (\<lambda>p. p = [] \<or> \<not> list_all is_digit p) parts \<or> 4300 < length ds
         then Inl (ValueError ''invalid literal for int() with base 10'') else Inr (digits_val ds))"

text \<open>
  White space for \<^verbatim>\<open>int\<close>: the separators 28 to 31 count only in a text that is not ASCII, where they
  are made blanks first.
\<close>

definition int_space :: "string \<Rightarrow> char \<Rightarrow> bool" where
  "int_space s c \<longleftrightarrow>
     is_space c \<and> \<not> (list_all (\<lambda>x. ord x < (128 :: nat)) s \<and> 28 \<le> (ord c :: nat) \<and> (ord c :: nat) \<le> 31)"

definition int_strip :: "string \<Rightarrow> string" where
  "int_strip s = rev (dropWhile (int_space s) (rev (dropWhile (int_space s) s)))"

definition py_int :: "string \<Rightarrow> int res" where
  "py_int raw =
     (case int_strip raw of
        [] \<Rightarrow> Inl (ValueError ''invalid literal for int() with base 10'')
      | c # s \<Rightarrow>
          if c = CHR ''-'' then rbind (read_digits s) (\<lambda>n. Inr (- int n))
          else if c = CHR ''+'' then rbind (read_digits s) (\<lambda>n. Inr (int n))
          else rbind (read_digits (c # s)) (\<lambda>n. Inr (int n)))"

definition env_str :: "env \<Rightarrow> string \<Rightarrow> string \<Rightarrow> string" where
  "env_str E name dflt = (case E name of None \<Rightarrow> dflt | Some v \<Rightarrow> v)"

definition env_bool :: "env \<Rightarrow> string \<Rightarrow> bool \<Rightarrow> bool" where
  "env_bool E name dflt =
     (case E name of None \<Rightarrow> dflt
      | Some raw \<Rightarrow> str_lower (str_strip raw) \<in> {''1'', ''true'', ''yes'', ''on''})"

definition env_int :: "env \<Rightarrow> string \<Rightarrow> int \<Rightarrow> int res" where
  "env_int E name dflt =
     (case E name of None \<Rightarrow> Inr dflt
      | Some raw \<Rightarrow> if raw \<noteq> [] then py_int raw else Inr dflt)"

definition env_path :: "(string \<Rightarrow> string) \<Rightarrow> env \<Rightarrow> string \<Rightarrow> string \<Rightarrow> string" where
  "env_path resolve E name dflt = resolve (env_str E name dflt)"

definition env_csv :: "env \<Rightarrow> string \<Rightarrow> string \<Rightarrow> string list" where
  "env_csv E name dflt =
     map str_strip (filter (\<lambda>part. str_strip part \<noteq> []) (str_split (CHR '','') (env_str E name dflt)))"

section \<open>Settings\<close>

datatype identity_mode = HeaderMode | ParameterMode

definition identity_mode_of :: "string \<Rightarrow> identity_mode res" where
  "identity_mode_of v =
     (if v = ''header'' then Inr HeaderMode else if v = ''parameter'' then Inr ParameterMode
      else Inl (ValueError (v @ '' is not a valid IdentityMode'')))"

datatype review_identity_mode = OidcMode | DevMode

definition review_identity_mode_of :: "string \<Rightarrow> review_identity_mode res" where
  "review_identity_mode_of v =
     (if v = ''oidc'' then Inr OidcMode else if v = ''dev'' then Inr DevMode
      else Inl (ValueError (v @ '' is not a valid ReviewIdentityMode'')))"

record settings =
  se_data_dir :: string
  se_state_dir :: string
  se_audit_log :: string
  se_audit_hmac_key :: string
  se_audit_rotate_bytes :: int
  se_audit_forward_url :: string
  se_audit_forward_token :: string
  se_audit_anchor_every :: int
  se_host :: string
  se_port :: int
  se_allowed_hosts :: "string list"
  se_bearer_token :: string
  se_identity_mode :: identity_mode
  se_identity_header :: string
  se_identity_header_strict :: bool
  se_session_header :: string
  se_directory_ttl_seconds :: int
  se_review_identity_mode :: review_identity_mode
  se_oidc_issuer :: string
  se_oidc_audience :: string
  se_oidc_jwks_url :: string
  se_oidc_username_claim :: string
  se_allow_clock_override :: bool
  se_rate_limit_per_minute :: int
  se_agent_id :: string
  se_log_json :: bool

text \<open>The fields in their order; the seven that can fail are read one after the other.\<close>

definition settings_of :: "(string \<Rightarrow> string) \<Rightarrow> env \<Rightarrow> settings res" where
  "settings_of resolve E =
     rbind (env_int E ''COMPLIANCE_AUDIT_ROTATE_BYTES'' 50000000) (\<lambda>rot.
     rbind (env_int E ''COMPLIANCE_AUDIT_ANCHOR_EVERY'' 100) (\<lambda>anchor.
     rbind (env_int E ''COMPLIANCE_MCP_PORT'' 8765) (\<lambda>port.
     rbind (identity_mode_of (env_str E ''COMPLIANCE_IDENTITY_MODE'' ''parameter'')) (\<lambda>mode.
     rbind (env_int E ''COMPLIANCE_DIRECTORY_TTL_SECONDS'' 60) (\<lambda>ttl.
     rbind (review_identity_mode_of (env_str E ''COMPLIANCE_REVIEW_IDENTITY_MODE'' ''dev'')) (\<lambda>review.
     rbind (env_int E ''COMPLIANCE_RATE_LIMIT_PER_MINUTE'' 120) (\<lambda>rate.
       Inr \<lparr>se_data_dir = env_path resolve E ''COMPLIANCE_DATA_DIR'' ''./data'',
         se_state_dir = env_path resolve E ''COMPLIANCE_STATE_DIR'' ''./state'',
         se_audit_log = env_path resolve E ''COMPLIANCE_AUDIT_LOG'' ''./state/audit/audit.jsonl'',
         se_audit_hmac_key = env_str E ''COMPLIANCE_AUDIT_HMAC_KEY'' [],
         se_audit_rotate_bytes = rot,
         se_audit_forward_url = env_str E ''COMPLIANCE_AUDIT_FORWARD_URL'' [],
         se_audit_forward_token = env_str E ''COMPLIANCE_AUDIT_FORWARD_TOKEN'' [],
         se_audit_anchor_every = anchor,
         se_host = env_str E ''COMPLIANCE_MCP_HOST'' ''127.0.0.1'',
         se_port = port,
         se_allowed_hosts = env_csv E ''COMPLIANCE_MCP_ALLOWED_HOSTS'' ''127.0.0.1:8765,localhost:8765,compliance-mcp:8765'',
         se_bearer_token = env_str E ''COMPLIANCE_MCP_TOKEN'' [],
         se_identity_mode = mode,
         se_identity_header = str_lower (env_str E ''COMPLIANCE_IDENTITY_HEADER'' ''x-requester''),
         se_identity_header_strict = env_bool E ''COMPLIANCE_IDENTITY_HEADER_STRICT'' True,
         se_session_header = str_lower (env_str E ''COMPLIANCE_SESSION_HEADER'' ''x-session-id''),
         se_directory_ttl_seconds = ttl,
         se_review_identity_mode = review,
         se_oidc_issuer = env_str E ''COMPLIANCE_OIDC_ISSUER'' [],
         se_oidc_audience = env_str E ''COMPLIANCE_OIDC_AUDIENCE'' [],
         se_oidc_jwks_url = env_str E ''COMPLIANCE_OIDC_JWKS_URL'' [],
         se_oidc_username_claim = env_str E ''COMPLIANCE_OIDC_USERNAME_CLAIM'' ''preferred_username'',
         se_allow_clock_override = env_bool E ''COMPLIANCE_ALLOW_CLOCK_OVERRIDE'' False,
         se_rate_limit_per_minute = rate,
         se_agent_id = env_str E ''COMPLIANCE_AGENT_ID'' ''hermes-regcomply'',
         se_log_json = env_bool E ''COMPLIANCE_LOG_JSON'' True\<rparr>)))))))"

text \<open>Paths: the last component, its stem and suffix, the parent, and \<^verbatim>\<open>p / name\<close>.\<close>

definition path_name :: "string \<Rightarrow> string" where
  "path_name p = last (str_split (CHR ''/'') p)"

definition path_parent :: "string \<Rightarrow> string" where
  "path_parent p = (let ps = butlast (str_split (CHR ''/'') p) in if ps = [[]] then ''/'' else str_join ''/'' ps)"

definition path_join :: "string \<Rightarrow> string \<Rightarrow> string" where
  "path_join p n = (if p = ''/'' then p @ n else p @ ''/'' @ n)"

definition path_suffix :: "string \<Rightarrow> string" where
  "path_suffix p =
     (let n = path_name p; sfx = rev (takeWhile (\<lambda>c. c \<noteq> CHR ''.'') (rev n)); stem = length n - length sfx - 1
      in if CHR ''.'' \<in> set n \<and> 0 < stem \<and> sfx \<noteq> [] then CHR ''.'' # sfx else [])"

definition path_stem :: "string \<Rightarrow> string" where
  "path_stem p = (let n = path_name p in take (length n - length (path_suffix p)) n)"

definition drafts_db_path :: "settings \<Rightarrow> string" where
  "drafts_db_path S = path_join (se_state_dir S) ''drafts.sqlite3''"

definition audit_spool_dir :: "settings \<Rightarrow> string" where
  "audit_spool_dir S = path_join (path_parent (se_audit_log S)) ''spool''"

section \<open>What can be read\<close>

lemma stem_suffix: "path_stem p @ path_suffix p = path_name p"
proof -
  let ?n = "path_name p" and ?s = "rev (takeWhile (\<lambda>c. c \<noteq> CHR ''.'') (rev (path_name p)))"
  let ?d = "dropWhile (\<lambda>c. c \<noteq> CHR ''.'') (rev ?n)"
  have n: "?n = rev ?d @ ?s" by (metis rev_append rev_rev_ident takeWhile_dropWhile_id)
  have "\<exists>a. ?n = a @ path_suffix p"
  proof (cases "CHR ''.'' \<in> set ?n")
    case True
    then have "?d \<noteq> []" by (simp add: dropWhile_eq_Nil_conv)
    then obtain t where "?d = CHR ''.'' # t" using hd_dropWhile [OF \<open>?d \<noteq> []\<close>] by (cases ?d) auto
    then have "?n = rev t @ CHR ''.'' # ?s" using n by simp
    moreover have "path_suffix p = CHR ''.'' # ?s \<or> path_suffix p = []"
      unfolding path_suffix_def Let_def by (rule if_split [THEN iffD2]) simp
    ultimately show ?thesis by (metis append_Nil2)
  qed (simp add: path_suffix_def Let_def)
  then obtain a where "?n = a @ path_suffix p" by blast
  then have "take (length ?n - length (path_suffix p)) ?n = a" by simp
  then show ?thesis using \<open>?n = a @ path_suffix p\<close> by (simp add: path_stem_def Let_def)
qed

lemma split_subset: "p \<in> set (str_split c s) \<Longrightarrow> set p \<subseteq> set s"
proof (induction s arbitrary: p)
  case (Cons x s)
  obtain q qs where q: "str_split c s = q # qs" by (cases "str_split c s") auto
  then show ?case using Cons by (fastforce split: if_splits)
qed simp

lemma digits_no_underscore: "list_all is_digit ds \<Longrightarrow> CHR ''_'' \<notin> set ds"
  by (auto simp: list_all_iff is_digit_def)

lemma read_digits_plain:
  "list_all is_digit ds \<Longrightarrow> ds \<noteq> [] \<Longrightarrow> length ds \<le> 4300 \<Longrightarrow> read_digits ds = Inr (digits_val ds)"
  using split_single [OF digits_no_underscore] by (simp add: read_digits_def Let_def)

lemma nat_str_all_digits: "list_all is_digit (nat_str n)"
  using nat_str_digits by (auto simp: list_all_iff)

lemma read_nat_str: "length (nat_str n) \<le> 4300 \<Longrightarrow> read_digits (nat_str n) = Inr n"
  using read_digits_plain [OF nat_str_all_digits nat_str_not_Nil] by simp

lemma int_str_chars: "c \<in> set (int_str n) \<Longrightarrow> \<not> is_space c"
  using nat_str_digits digit_not_space unfolding int_str_def by (auto simp: is_space_def split: if_splits)

lemma int_strip_padded:
  assumes "\<forall>c \<in> set pre \<union> set post. 9 \<le> (ord c :: nat) \<and> (ord c :: nat) \<le> 13 \<or> c = CHR '' ''"
    and "\<forall>c \<in> set s. \<not> is_space c" and "s \<noteq> []"
  shows "int_strip (pre @ s @ post) = s"
proof -
  let ?P = "int_space (pre @ s @ post)"
  have blank: "\<forall>c \<in> set pre. ?P c" "\<forall>c \<in> set post. ?P c" "\<forall>c \<in> set s. \<not> ?P c"
    using assms(1,2) by (fastforce simp: int_space_def is_space_def)+
  obtain c t d u where s: "s = c # t" "rev s = d # u" using assms(3) by (cases s; cases "rev s") auto
  have "c \<in> set s" "d \<in> set s" using s(1) arg_cong [OF s(2), of set] by auto
  then have cd: "\<not> ?P c" "\<not> ?P d" using blank(3) by blast+
  have "dropWhile ?P (pre @ s @ post) = s @ post"
    using blank(1) cd(1) s(1) by (simp add: dropWhile_append2)
  moreover have "dropWhile ?P (rev (s @ post)) = rev s"
    using blank(2) cd(2) dropWhile_append2 [of "rev post" ?P "rev s"] by (simp add: s(2))
  ultimately show ?thesis unfolding int_strip_def by (metis rev_rev_ident)
qed

lemma set_int_strip: "set (int_strip s) \<subseteq> set s"
  unfolding int_strip_def by (metis set_dropWhileD set_rev subsetI)

lemma py_int_padded:
  assumes "\<forall>c \<in> set pre \<union> set post. 9 \<le> (ord c :: nat) \<and> (ord c :: nat) \<le> 13 \<or> c = CHR '' ''"
    and "length (nat_str (nat \<bar>n\<bar>)) \<le> 4300"
  shows "py_int (pre @ int_str n @ post) = Inr n"
proof -
  have ne: "int_str n \<noteq> []" using nat_str_not_Nil by (simp add: int_str_def)
  have st: "int_strip (pre @ int_str n @ post) = int_str n"
    using assms(1) int_str_chars ne by (intro int_strip_padded) auto
  show ?thesis
  proof (cases "n < 0")
    case True
    then show ?thesis using st assms(2) read_nat_str [of "nat (- n)"] by (simp add: py_int_def int_str_def)
  next
    case False
    obtain c t where c: "nat_str (nat n) = c # t" using nat_str_not_Nil by (cases "nat_str (nat n)") auto
    then have "is_digit c" using nat_str_digits [of "nat n"] by simp
    then have "c \<noteq> CHR ''-''" "c \<noteq> CHR ''+''" by (auto simp: is_digit_def)
    then show ?thesis using st False c assms(2) read_nat_str [of "nat n"] by (simp add: py_int_def int_str_def)
  qed
qed

text \<open>
  Every number written in decimal, with white space around it, is read back as it is by
  \<^verbatim>\<open>_env_int\<close>, the empty string and an unset variable give the default, and a text without a
  digit is refused with \<^verbatim>\<open>ValueError\<close>.
\<close>

theorem int_setting_read:
  assumes "\<forall>c \<in> set pre \<union> set post. 9 \<le> (ord c :: nat) \<and> (ord c :: nat) \<le> 13 \<or> c = CHR '' ''" and "length (nat_str (nat \<bar>n\<bar>)) \<le> 4300"
    and "s \<noteq> []" and "list_all (\<lambda>c. \<not> is_digit c) s"
  shows "env_int (E(name \<mapsto> pre @ int_str n @ post)) name dflt = Inr n \<and>
    env_int (E(name := None)) name dflt = Inr dflt \<and> env_int (E(name \<mapsto> [])) name dflt = Inr dflt \<and>
    env_int (E(name \<mapsto> s)) name dflt = Inl (ValueError ''invalid literal for int() with base 10'')"
proof -
  have "py_int (pre @ int_str n @ post) = Inr n" using assms(1,2) by (rule py_int_padded)
  moreover have "pre @ int_str n @ post \<noteq> []" using nat_str_not_Nil by (simp add: int_str_def)
  moreover have bad: "read_digits u = Inl (ValueError ''invalid literal for int() with base 10'')"
    if "list_all (\<lambda>c. \<not> is_digit c) u" for u
  proof -
    have "\<exists>p \<in> set (str_split (CHR ''_'') u). p = [] \<or> \<not> list_all is_digit p"
    proof (rule ccontr)
      assume n: "\<not> ?thesis"
      obtain p ps where p: "str_split (CHR ''_'') u = p # ps" by (cases "str_split (CHR ''_'') u") auto
      then have "p \<noteq> []" "list_all is_digit p" using n by auto
      then have "hd p \<in> set p" "is_digit (hd p)" by (auto simp: list_all_iff)
      moreover have "set p \<subseteq> set u" using split_subset [where c = "CHR ''_''" and s = u and p = p] p by simp
      ultimately show False using that by (auto simp: list_all_iff)
    qed
    then show ?thesis by (simp add: read_digits_def Let_def list_ex_iff)
  qed
  moreover have "list_all (\<lambda>c. \<not> is_digit c) (int_strip s)" using assms(4) set_int_strip [of s] by (auto simp: list_all_iff)
  then have "py_int s = Inl (ValueError ''invalid literal for int() with base 10'')"
    using bad [of "int_strip s"] bad [of "tl (int_strip s)"]
    by (cases "int_strip s") (simp_all add: py_int_def)
  ultimately show ?thesis using assms(3) by (simp add: env_int_def)
qed

lemma int_setting_read_witness:
  "env_int ((\<lambda>_. None)(''PORT'' \<mapsto> '' '' @ int_str (- 42) @ '' '')) ''PORT'' 7 = Inr (- 42) \<and>
    env_int ((\<lambda>_. None)(''PORT'' \<mapsto> ''abc'')) ''PORT'' 7 = Inl (ValueError ''invalid literal for int() with base 10'')"
proof -
  have "length (nat_str (nat \<bar>- 42 :: int\<bar>)) \<le> 4300" by (simp add: nat_str.simps)
  then show ?thesis
    using int_setting_read [of "'' ''" "'' ''" "- 42" "''abc''" "\<lambda>_. None" "''PORT''" 7] by (simp add: is_space_def is_digit_def)
qed

text \<open>The seven variables that can make the settings fail.\<close>

definition int_variables :: "(string \<times> int) list" where
  "int_variables =
     [(''COMPLIANCE_AUDIT_ROTATE_BYTES'', 50000000), (''COMPLIANCE_AUDIT_ANCHOR_EVERY'', 100),
      (''COMPLIANCE_MCP_PORT'', 8765), (''COMPLIANCE_DIRECTORY_TTL_SECONDS'', 60),
      (''COMPLIANCE_RATE_LIMIT_PER_MINUTE'', 120)]"

lemma read_digits_error: "read_digits s = Inl e \<Longrightarrow> \<exists>m. e = ValueError m"
  by (auto simp: read_digits_def Let_def split: if_splits)

lemma env_int_error: "env_int E v d = Inl e \<Longrightarrow> \<exists>m. e = ValueError m"
  by (auto simp: env_int_def py_int_def rbind_Inl_iff split: option.splits if_splits list.splits dest: read_digits_error)

text \<open>
  The settings cannot be built exactly when one of the five numbers is not an integer or
  one of the two identity modes is not a known one; the exception is then \<^verbatim>\<open>ValueError\<close>. In
  particular a misspelt identity mode stops the server rather than select a weaker one.
\<close>

theorem settings_total:
  "(is_ok (settings_of resolve E) \<longleftrightarrow>
     list_all (\<lambda>(v, d). is_ok (env_int E v d)) int_variables \<and>
     E ''COMPLIANCE_IDENTITY_MODE'' \<in> {None, Some ''header'', Some ''parameter''} \<and>
     E ''COMPLIANCE_REVIEW_IDENTITY_MODE'' \<in> {None, Some ''oidc'', Some ''dev''}) \<and>
   ((\<exists>S. settings_of resolve E = Inr S) \<or> (\<exists>m. settings_of resolve E = Inl (ValueError m)))"
proof -
  have m: "is_ok (identity_mode_of (env_str E v ''parameter'')) \<longleftrightarrow> E v \<in> {None, Some ''header'', Some ''parameter''}"
      "is_ok (review_identity_mode_of (env_str E v ''dev'')) \<longleftrightarrow> E v \<in> {None, Some ''oidc'', Some ''dev''}" for v
    by (auto simp: identity_mode_of_def review_identity_mode_of_def env_str_def split: option.splits)
  have e: "identity_mode_of x = Inl y \<Longrightarrow> \<exists>m. y = ValueError m"
      "review_identity_mode_of x = Inl y \<Longrightarrow> \<exists>m. y = ValueError m" for x y
    by (auto simp: identity_mode_of_def review_identity_mode_of_def split: if_splits)
  have ok: "is_ok (rbind a f) \<longleftrightarrow> is_ok a \<and> is_ok (f (projr a))" for a and f :: "'c \<Rightarrow> settings res"
    by (cases a) auto
  have "is_ok (settings_of resolve E) \<longleftrightarrow>
     list_all (\<lambda>(v, d). is_ok (env_int E v d)) int_variables \<and>
     is_ok (identity_mode_of (env_str E ''COMPLIANCE_IDENTITY_MODE'' ''parameter'')) \<and>
     is_ok (review_identity_mode_of (env_str E ''COMPLIANCE_REVIEW_IDENTITY_MODE'' ''dev''))"
    unfolding settings_of_def ok int_variables_def by auto
  moreover have "\<exists>m. e = ValueError m" if "settings_of resolve E = Inl e" for e
    using that e env_int_error unfolding settings_of_def rbind_Inl_iff by blast
  ultimately show ?thesis unfolding m by (cases "settings_of resolve E") auto
qed

end
