(* ===== verification/Json_Indent.thy ===== *)
theory Json_Indent
  imports Json
begin

text \<open>
  The layout of \<^verbatim>\<open>json.dumps(value, indent=2)\<close>, which the evidence pack and the feed cache are
  written in, and the proof that \<^verbatim>\<open>json.loads\<close> reads it back.
\<close>

abbreviation (input) escaping :: "bool \<Rightarrow> jstyle" where
  "escaping a \<equiv> \<lparr>item_sep = '','', key_sep = '': '', ascii_only = a\<rparr>"

definition new_line :: "nat \<Rightarrow> string" where
  "new_line n = nl # replicate (2 * n) (CHR '' '')"

fun pretty :: "bool \<Rightarrow> nat \<Rightarrow> json \<Rightarrow> string"
  and pretty_items :: "bool \<Rightarrow> nat \<Rightarrow> json list \<Rightarrow> string"
  and pretty_members :: "bool \<Rightarrow> nat \<Rightarrow> (string \<times> json) list \<Rightarrow> string" where
  "pretty a n JNull = ''null''"
| "pretty a n (JBool b) = (if b then ''true'' else ''false'')"
| "pretty a n (JInt i) = int_str i"
| "pretty a n (JStr s) = dumps_str (escaping a) s"
| "pretty a n (JArr xs) =
     (if xs = [] then ''[]'' else ''['' @ new_line (n + 1) @ pretty_items a (n + 1) xs @ new_line n @ '']'')"
| "pretty a n (JObj ms) =
     (if ms = [] then ''{}'' else ''{'' @ new_line (n + 1) @ pretty_members a (n + 1) ms @ new_line n @ ''}'')"
| "pretty_items a n [] = []"
| "pretty_items a n (x # xs) = pretty a n x @ (if xs = [] then [] else '','' @ new_line n @ pretty_items a n xs)"
| "pretty_members a n [] = []"
| "pretty_members a n ((k, v) # ms) =
     dumps_str (escaping a) k @ '': '' @ pretty a n v @
     (if ms = [] then [] else '','' @ new_line n @ pretty_members a n ms)"

definition dumps_indent :: "bool \<Rightarrow> json \<Rightarrow> string" where
  "dumps_indent a j = pretty a 0 j"

section \<open>Reading it back\<close>

lemma new_line_ws: "\<forall>c \<in> set (new_line n). is_jws c"
  by (auto simp: new_line_def is_jws_def)

lemma new_line_not_Nil [simp]: "new_line n \<noteq> []"
  by (simp add: new_line_def)

lemma json_end_new_line [simp]: "json_end (new_line n @ s)"
  by (simp add: new_line_def json_end_def is_digit_def)

lemma skip_new_line [simp]: "skip_ws (new_line n @ s) = skip_ws s"
  by (rule skip_ws_append [OF new_line_ws])

lemma json_end_ws:
  assumes "\<forall>c \<in> set w. is_jws c" "w \<noteq> [] \<or> json_end s"
  shows "json_end (w @ s)"
proof (cases w)
  case (Cons c t)
  have "c = CHR '' '' \<or> c = char_of (9 :: nat) \<or> c = char_of (10 :: nat) \<or> c = char_of (13 :: nat)"
    using assms(1) Cons char_of_char [of c] unfolding is_jws_def by (metis list.set_intros(1))
  then have "\<not> is_digit c \<and> c \<notin> {CHR ''.'', CHR ''e'', CHR ''E''}"
    by (elim disjE) (simp_all add: is_digit_def char_of_eq_iff)
  then show ?thesis using Cons by (simp add: json_end_def)
qed (use assms in simp)

lemma pretty_start: "\<exists>c t. pretty a n j = c # t \<and> \<not> is_jws c \<and> c \<noteq> CHR '']'' \<and> c \<noteq> CHR ''}''"
proof (cases j)
  case (JInt i)
  then show ?thesis using dumps_start [of compact "JInt i"] by simp
qed (auto simp: is_jws_def dumps_str_def)

lemma skip_ws_pretty [simp]: "skip_ws (pretty a n j @ s) = pretty a n j @ s"
  using pretty_start [of a n j] by (auto simp: skip_ws_start)

lemma skip_ws_pretty_items: "xs \<noteq> [] \<Longrightarrow> skip_ws (pretty_items a n xs @ s) = pretty_items a n xs @ s"
  by (cases xs) simp_all

lemma pretty_members_start: "ms \<noteq> [] \<Longrightarrow> \<exists>t. pretty_members a n ms = quote # t"
  by (cases ms) (auto simp: dumps_str_def)

lemma skip_ws_pretty_members: "ms \<noteq> [] \<Longrightarrow> skip_ws (pretty_members a n ms @ s) = pretty_members a n ms @ s"
  using pretty_members_start [of ms a n] by (auto simp: skip_ws_def is_jws_def)

lemma parse_pretty:
  shows "wf_json j \<Longrightarrow> json_end rest \<Longrightarrow> parse_value (pretty a n j @ rest) = Some (j, rest)"
    and "xs \<noteq> [] \<Longrightarrow> \<forall>x \<in> set xs. wf_json x \<Longrightarrow> \<forall>c \<in> set w. is_jws c \<Longrightarrow> w \<noteq> [] \<Longrightarrow>
      parse_elems (pretty_items a n xs @ w @ CHR '']'' # rest) = Some (xs, rest)"
    and "ms \<noteq> [] \<Longrightarrow> \<forall>v \<in> snd ` set ms. wf_json v \<Longrightarrow> \<forall>c \<in> set w. is_jws c \<Longrightarrow> w \<noteq> [] \<Longrightarrow>
      parse_members (pretty_members a n ms @ w @ CHR ''}'' # rest) = Some (ms, rest)"
proof (induction a n j and a n xs and a n ms arbitrary: rest and w rest and w rest
    rule: pretty_pretty_items_pretty_members.induct)
  case (1 a n)
  then show ?case by simp
next
  case (2 a n b)
  then show ?case by simp
next
  case (3 a n i)
  then show ?case using parse_dumps(1) [of compact "JInt i" rest] by simp
next
  case (4 a n s)
  then show ?case using scan_str_dumps [of "escaping a" s rest] by (simp add: dumps_str_def)
next
  case (5 a n xs)
  show ?case
  proof (cases "xs = []")
    case False
    let ?t = "pretty_items a (n + 1) xs @ new_line n @ CHR '']'' # rest"
    have p: "parse_elems ?t = Some (xs, rest)"
      using "5.IH" False "5.prems"(1) new_line_ws [of n] by simp
    obtain c t where c: "?t = c # t" "c \<noteq> CHR '']''"
      using pretty_start [of a "n + 1" "hd xs"] False by (cases xs) auto
    have "skip_ws (new_line (n + 1) @ ?t) = ?t" using skip_ws_pretty_items [OF False] by simp
    then have "parse_value (CHR ''['' # new_line (n + 1) @ ?t) = Some (JArr xs, rest)"
      using p c by (simp del: skip_new_line)
    then show ?thesis using False by simp
  qed (simp add: skip_ws_def is_jws_def)
next
  case (6 a n ms)
  show ?case
  proof (cases "ms = []")
    case False
    let ?t = "pretty_members a (n + 1) ms @ new_line n @ CHR ''}'' # rest"
    have p: "parse_members ?t = Some (ms, rest)"
      using "6.IH" False "6.prems"(1) new_line_ws [of n] by simp
    obtain t where c: "?t = quote # t" using pretty_members_start [OF False, of a "n + 1"] by auto
    have "skip_ws (new_line (n + 1) @ ?t) = ?t" using skip_ws_pretty_members [OF False] by simp
    moreover have "fold (\<lambda>(k, v) m. AList.update k v m) ms [] = ms"
      using "6.prems"(1) fold_update_distinct [of "[]" ms] by simp
    ultimately have "parse_value (CHR ''{'' # new_line (n + 1) @ ?t) = Some (JObj ms, rest)"
      using p c by (simp del: skip_new_line)
    then show ?thesis using False by simp
  qed (simp add: skip_ws_def is_jws_def)
next
  case (7 a n)
  then show ?case by simp
next
  case (8 a n x xs)
  have ne: "pretty a n x \<noteq> []" using pretty_start [of a n x] by auto
  have je: "json_end (w @ CHR '']'' # rest)" using "8.prems"(3,4) by (intro json_end_ws) auto
  show ?case
  proof (cases "xs = []")
    case True
    let ?r = "w @ CHR '']'' # rest"
    have "parse_value (pretty a n x @ ?r) = Some (x, ?r)" using 8 je by simp
    then show ?thesis
      using True ne by (simp add: parse_elems.simps [of "pretty a n x @ ?r"] skip_ws_append [OF "8.prems"(3)] skip_ws_start is_jws_def)
  next
    case False
    let ?r = "CHR '','' # new_line n @ pretty_items a n xs @ w @ CHR '']'' # rest"
    have "parse_value (pretty a n x @ ?r) = Some (x, ?r)" using 8 by simp
    moreover have "parse_elems (skip_ws (new_line n @ pretty_items a n xs @ w @ CHR '']'' # rest)) = Some (xs, rest)"
      using 8 False by (simp add: skip_ws_pretty_items)
    ultimately show ?thesis
      using False ne by (simp add: parse_elems.simps [of "pretty a n x @ ?r"] skip_ws_start is_jws_def del: skip_new_line)
  qed
next
  case (9 a n)
  then show ?case by simp
next
  case (10 a n k v ms)
  define tail where "tail = (if ms = [] then w @ CHR ''}'' # rest
      else CHR '','' # new_line n @ pretty_members a n ms @ w @ CHR ''}'' # rest)"
  let ?s = "dumps_str (escaping a) k @ CHR '':'' # CHR '' '' # pretty a n v @ tail"
  have s: "pretty_members a n ((k, v) # ms) @ w @ CHR ''}'' # rest = ?s" by (simp add: tail_def)
  have "json_end tail" using json_end_ws [OF "10.prems"(3), of "CHR ''}'' # rest"] by (simp add: tail_def)
  then have v: "parse_value (skip_ws (CHR '' '' # pretty a n v @ tail)) = Some (v, tail)"
    using "10.IH"(1) "10.prems" skip_ws_append [of "'' ''" "pretty a n v @ tail"] by (simp add: is_jws_def)
  have k: "?s \<noteq> []" "hd ?s = quote" "scan_str (tl ?s) = Some (k, CHR '':'' # CHR '' '' # pretty a n v @ tail)"
    using scan_str_dumps [of "escaping a" k] by (simp_all add: dumps_str_def)
  have "parse_members (skip_ws (new_line n @ pretty_members a n ms @ w @ CHR ''}'' # rest)) = Some (ms, rest)" if "ms \<noteq> []"
    using "10.IH"(2) "10.prems" that by (simp add: skip_ws_pretty_members)
  then have m: "(case skip_ws tail of [] \<Rightarrow> None
      | e # s4 \<Rightarrow> if e = CHR ''}'' then Some ([(k, v)], s4)
          else if e = CHR '','' then map_option (\<lambda>(ms, rest). ((k, v) # ms, rest)) (parse_members (skip_ws s4))
          else None) = Some ((k, v) # ms, rest)"
    by (simp add: tail_def skip_ws_start is_jws_def skip_ws_append [OF "10.prems"(3)] del: skip_new_line)
  have "length tail < length ?s" by simp
  then show ?case
    unfolding s using k v m by (simp add: parse_members.simps [of ?s] skip_ws_start is_jws_def)
qed

theorem loads_dumps_indent:
  assumes "wf_json j" and "\<forall>c \<in> set w. is_jws c"
  shows "loads (dumps_indent a j @ w) = Inr j"
proof -
  have "json_end w" using json_end_ws [OF assms(2), of "[]"] by simp
  then have "parse_value (skip_ws (pretty a 0 j @ w)) = Some (j, w)"
    using parse_pretty(1) [OF assms(1)] by simp
  moreover have "skip_ws w = []" using assms(2) by (simp add: skip_ws_def)
  ultimately show ?thesis unfolding loads_def dumps_indent_def by simp
qed

lemma pretty_printable:
  shows "x \<in> set (pretty a n j) \<Longrightarrow> x = nl \<or> 32 \<le> (ord x :: nat)"
    and "x \<in> set (pretty_items a n xs) \<Longrightarrow> x = nl \<or> 32 \<le> (ord x :: nat)"
    and "x \<in> set (pretty_members a n ms) \<Longrightarrow> x = nl \<or> 32 \<le> (ord x :: nat)"
proof (induction a n j and a n xs and a n ms rule: pretty_pretty_items_pretty_members.induct)
  case (5 a n xs)
  then show ?case by (auto simp: new_line_def split: if_splits)
next
  case (6 a n ms)
  then show ?case by (auto simp: new_line_def split: if_splits)
next
  case (8 a n y ys)
  then show ?case by (auto simp: new_line_def split: if_splits)
next
  case (10 a n k v ms)
  then show ?case by (auto simp: new_line_def dest: dumps_str_printable split: if_splits)
qed (auto dest: dumps_str_printable int_str_printable split: if_splits)

lemma dumps_indent_no_cr: "CHR 0x0D \<notin> set (dumps_indent a j)"
  using pretty_printable(1) [of "CHR 0x0D" a 0 j] by (auto simp: dumps_indent_def)

end
