(* ===== verification/Evidence_Export.thy ===== *)
theory Evidence_Export
  imports Evidence Settings Json_Indent
begin

text \<open>
  The evidence pack of evidence_export.py: the refusals, the files of the pack with their check
  listing, the period read from a title, and the excerpt of the audit log. Compression into the zip
  container and the JSON text of pydantic are arguments.
\<close>

named_theorems export_defs \<open>definitions of the evidence pack\<close>

section \<open>The files of a pack\<close>

definition cover_json :: "draft \<Rightarrow> decision \<Rightarrow> evidence_manifest \<Rightarrow> string \<Rightarrow> nat \<Rightarrow> json" where
  "cover_json d de m exporter now =
     JObj [(''draft_id'', JStr (d_draft_id d)), (''title'', JStr (d_title d)),
       (''control_id'', JStr (c_id (em_control m))),
       (''period'', JObj [(''start'', JStr (em_start m)), (''end'', JStr (em_end m))]),
       (''manifest_sha256'', JStr (em_sha256 m)), (''requested_by'', JStr (d_requester d)),
       (''approved_by'', JStr (de_by de)), (''approved_at'', JStr (de_at de)), (''approval_note'', JStr (de_note de)),
       (''exported_by'', JStr exporter), (''exported_at'', JStr (utc_now now))]"

text \<open>The policy documents: each file must still have the hash recorded in the manifest.\<close>

fun add_policies ::
    "hashes \<Rightarrow> dir \<Rightarrow> policy_version_ref list \<Rightarrow> (string \<times> string) list \<Rightarrow> (string \<times> string) list res" where
  "add_policies H data [] files = Inr files"
| "add_policies H data (r # rs) files =
     (case map_of data (pv_source r) of None \<Rightarrow> Inl OSError
      | Some content \<Rightarrow>
          if sha256 H content \<noteq> pv_sha256 r
          then Inl (ExportRefused (''policy document '' @ pv_source r @ '' no longer matches the hash recorded in the manifest''))
          else add_policies H data rs (AList.update (''policies/'' @ path_name (pv_source r)) content files))"

definition sum_line :: "hashes \<Rightarrow> string \<times> string \<Rightarrow> string" where
  [export_defs]: "sum_line H f = sha256 H (snd f) @ ''  '' @ fst f @ [nl]"

definition by_name :: "(string \<times> string) list \<Rightarrow> (string \<times> string) list" where
  [export_defs]: "by_name files = sort_key fst files"

definition pack_files ::
    "hashes \<Rightarrow> (evidence_manifest \<Rightarrow> string) \<Rightarrow> draft \<Rightarrow> evidence_manifest \<Rightarrow> dir \<Rightarrow> string list \<Rightarrow> string \<Rightarrow> nat \<Rightarrow>
     (string \<times> string) list res" where
  "pack_files H dump d m data audit_lines exporter now =
     (if d_kind d \<noteq> EvidencePackIndex
      then Inl (ExportRefused (''draft '' @ d_draft_id d @ '' is a '' @ draft_kind_str (d_kind d) @ '', not an evidence index''))
      else case d_decision d of
        None \<Rightarrow> Inl (ExportRefused (''draft '' @ d_draft_id d @ '' is '' @ draft_status_str (d_status d)
                    @ ''; only approved indexes can be exported''))
      | Some de \<Rightarrow>
          if d_status d \<noteq> Approved
          then Inl (ExportRefused (''draft '' @ d_draft_id d @ '' is '' @ draft_status_str (d_status d)
                    @ ''; only approved indexes can be exported''))
          else rbind (add_policies H data (em_policy_versions m)
                  [(''index.md'', utf8 (d_body d)), (''manifest.json'', utf8 (dump m)),
                   (''audit-excerpt.jsonl'', utf8 (str_join [nl] audit_lines @ [nl]))]) (\<lambda>files.
               let files1 = AList.update ''COVER.json'' (utf8 (dumps_indent True (cover_json d de m exporter now) @ [nl])) files;
                   listing = utf8 (concat (map (sum_line H) (by_name files1)))
               in Inr (by_name (AList.update ''SHA256SUMS'' listing files1))))"

definition build_pack ::
    "hashes \<Rightarrow> (evidence_manifest \<Rightarrow> string) \<Rightarrow> ((string \<times> string) list \<Rightarrow> string) \<Rightarrow> draft \<Rightarrow> evidence_manifest \<Rightarrow> dir \<Rightarrow>
     string list \<Rightarrow> string \<Rightarrow> nat \<Rightarrow> string res" where
  "build_pack H dump archive d m data audit_lines exporter now =
     rbind (pack_files H dump d m data audit_lines exporter now) (\<lambda>files. Inr (archive files))"

section \<open>The period and the audit excerpt\<close>

definition period_from_title :: "string \<Rightarrow> (string \<times> string \<times> string) option" where
  "period_from_title title =
     (case rx_search index_title title of None \<Rightarrow> None
      | Some m \<Rightarrow> Some (m_group m 1, m_group m 2, m_group m 3))"

definition audit_lines_for :: "string \<Rightarrow> string option \<Rightarrow> string list res" where
  "audit_lines_for draft_id file =
     (case file of None \<Rightarrow> Inr []
      | Some raw \<Rightarrow> rbind (utf8_decode raw) (\<lambda>text.
          Inr (filter (str_contains draft_id) (str_splitlines (univ_newlines text)))))"

section \<open>What a pack is\<close>

declare map_of_eq_Some_iff [simp del] Some_eq_map_of_iff [simp del]

lemma by_name_map_of: "distinct (map fst fs) \<Longrightarrow> map_of (by_name fs) k = map_of fs k"
  by (simp add: by_name_def map_of_sort_key)

lemma by_name_props: "distinct (map fst fs) \<Longrightarrow> sorted (map fst (by_name fs)) \<and> distinct (map fst (by_name fs))"
  by (simp add: by_name_def distinct_map)

definition unchanged :: "hashes \<Rightarrow> dir \<Rightarrow> policy_version_ref \<Rightarrow> bool" where
  "unchanged H data r \<longleftrightarrow> (\<exists>content. map_of data (pv_source r) = Some content \<and> sha256 H content = pv_sha256 r)"

lemma add_policies_total:
  "is_ok (add_policies H data rs fs) \<longleftrightarrow> list_all (unchanged H data) rs"
  by (induction H data rs fs rule: add_policies.induct) (auto simp: unchanged_def split: option.splits)

lemma add_policies_files:
  "add_policies H data rs fs = Inr fs' \<Longrightarrow> distinct (map fst fs) \<Longrightarrow>
   distinct (map fst fs') \<and>
   (\<forall>n. \<not> prefix ''policies/'' n \<longrightarrow> map_of fs' n = map_of fs n) \<and>
   (\<forall>n c. map_of fs' n = Some c \<longrightarrow> map_of fs n = Some c \<or>
      (\<exists>r \<in> set rs. n = ''policies/'' @ path_name (pv_source r) \<and> sha256 H c = pv_sha256 r)) \<and>
   (\<forall>n. map_of fs n \<noteq> None \<or> n \<in> (\<lambda>r. ''policies/'' @ path_name (pv_source r)) ` set rs \<longrightarrow> map_of fs' n \<noteq> None)"
proof (induction H data rs fs rule: add_policies.induct)
  case (2 H data r rs fs)
  let ?k = "''policies/'' @ path_name (pv_source r)"
  obtain content where c: "map_of data (pv_source r) = Some content" "sha256 H content = pv_sha256 r"
      "add_policies H data rs (AList.update ?k content fs) = Inr fs'"
    using "2.prems"(1) by (auto split: option.splits if_splits)
  let ?fs = "AList.update ?k content fs"
  have d: "distinct (map fst ?fs)" using "2.prems"(2) by (rule distinct_update)
  have IH: "distinct (map fst fs')" "\<forall>n. \<not> prefix ''policies/'' n \<longrightarrow> map_of fs' n = map_of ?fs n"
      "\<forall>n c. map_of fs' n = Some c \<longrightarrow> map_of ?fs n = Some c \<or>
        (\<exists>r \<in> set rs. n = ''policies/'' @ path_name (pv_source r) \<and> sha256 H c = pv_sha256 r)"
      "\<forall>n. map_of ?fs n \<noteq> None \<or> n \<in> (\<lambda>r. ''policies/'' @ path_name (pv_source r)) ` set rs \<longrightarrow> map_of fs' n \<noteq> None"
    using "2.IH" [OF c(1) _ c(3) d] c(2) by blast+
  have upd: "map_of ?fs n = (if n = ?k then Some content else map_of fs n)" for n by (simp add: update_conv')
  have pre: "prefix ''policies/'' ?k" by simp
  show ?case
  proof (intro conjI allI impI)
    show "distinct (map fst fs')" by (rule IH(1))
    show "map_of fs' n = map_of fs n" if "\<not> prefix ''policies/'' n" for n
      using IH(2) upd that pre by metis
    show "map_of fs n = Some c \<or> (\<exists>r' \<in> set (r # rs). n = ''policies/'' @ path_name (pv_source r') \<and> sha256 H c = pv_sha256 r')"
      if "map_of fs' n = Some c" for n c
    proof -
      have "map_of ?fs n = Some c \<or> (\<exists>r \<in> set rs. n = ''policies/'' @ path_name (pv_source r) \<and> sha256 H c = pv_sha256 r)"
        using IH(3) that by blast
      then show ?thesis using upd [of n] c(2) by (cases "n = ?k") auto
    qed
    show "map_of fs' n \<noteq> None" if "map_of fs n \<noteq> None \<or> n \<in> (\<lambda>r. ''policies/'' @ path_name (pv_source r)) ` set (r # rs)" for n
    proof (cases "n = ?k")
      case True
      then show ?thesis using IH(4) upd by (metis option.distinct(1))
    next
      case False
      then have "map_of ?fs n \<noteq> None \<or> n \<in> (\<lambda>r. ''policies/'' @ path_name (pv_source r)) ` set rs" using that upd by auto
      then show ?thesis using IH(4) by blast
    qed
  qed
qed auto

text \<open>What an evidence pack must be for the recipient.\<close>

definition pack_spec :: "hashes \<Rightarrow> (evidence_manifest \<Rightarrow> string) \<Rightarrow> draft \<Rightarrow> evidence_manifest \<Rightarrow> (string \<times> string) list \<Rightarrow> bool" where
  "pack_spec H dump d m files \<longleftrightarrow>
     sorted (map fst files) \<and> distinct (map fst files) \<and>
     map_of files ''index.md'' = Some (utf8 (d_body d)) \<and> map_of files ''manifest.json'' = Some (utf8 (dump m)) \<and>
     (\<forall>r \<in> set (em_policy_versions m). \<exists>c r'. map_of files (''policies/'' @ path_name (pv_source r)) = Some c \<and>
        r' \<in> set (em_policy_versions m) \<and> path_name (pv_source r') = path_name (pv_source r) \<and> sha256 H c = pv_sha256 r') \<and>
     map_of files ''SHA256SUMS'' =
       Some (utf8 (concat (map (sum_line H) (filter (\<lambda>(n, c). n \<noteq> ''SHA256SUMS'') files))))"

lemma filter_sort_update:
  assumes "distinct (map fst fs)" "k \<notin> fst ` set fs"
  shows "filter (\<lambda>(n, c). n \<noteq> k) (by_name (AList.update k v fs)) = by_name fs"
proof -
  have "AList.update k v fs = fs @ [(k, v)]" using update_new assms(2) by metis
  moreover have "filter (\<lambda>(n, c). n \<noteq> k) fs = fs" using assms(2) by (intro filter_True) force
  ultimately show ?thesis by (simp add: by_name_def filter_sort)
qed

lemma pack_files_iff:
  "(is_ok (pack_files H dump d m data ls exporter now) \<longleftrightarrow>
     d_kind d = EvidencePackIndex \<and> d_status d = Approved \<and> d_decision d \<noteq> None \<and>
     list_all (unchanged H data) (em_policy_versions m)) \<and>
   (case pack_files H dump d m data ls exporter now of Inl _ \<Rightarrow> True | Inr files \<Rightarrow> pack_spec H dump d m files)"
proof -
  let ?r = "pack_files H dump d m data ls exporter now" and ?n = "\<lambda>r. ''policies/'' @ path_name (pv_source r)"
  let ?fs = "[(''index.md'', utf8 (d_body d)), (''manifest.json'', utf8 (dump m)),
      (''audit-excerpt.jsonl'', utf8 (str_join [nl] ls @ [nl]))]"
  have ok: "is_ok (rbind a (\<lambda>x. Inr (f x))) = is_ok a" for a :: "'a res" and f :: "'a \<Rightarrow> 'b" by (cases a) auto
  have "is_ok ?r \<longleftrightarrow> d_kind d = EvidencePackIndex \<and> d_status d = Approved \<and> d_decision d \<noteq> None \<and>
      list_all (unchanged H data) (em_policy_versions m)"
    by (cases "d_decision d") (auto simp: pack_files_def ok Let_def add_policies_total)
  moreover have "pack_spec H dump d m files" if built: "?r = Inr files" for files
  proof -
    obtain de fs where de: "add_policies H data (em_policy_versions m) ?fs = Inr fs" and
        files: "files = (let files1 = AList.update ''COVER.json'' (utf8 (dumps_indent True (cover_json d de m exporter now) @ [nl])) fs
          in by_name (AList.update ''SHA256SUMS'' (utf8 (concat (map (sum_line H) (by_name files1)))) files1))"
      using built by (auto simp: pack_files_def rbind_Inr_iff Let_def split: if_splits option.splits)
    define f1 where "f1 = AList.update ''COVER.json'' (utf8 (dumps_indent True (cover_json d de m exporter now) @ [nl])) fs"
    let ?sums = "utf8 (concat (map (sum_line H) (by_name f1)))"
    have "distinct (map fst ?fs)" by simp
    note a = add_policies_files [OF de this]
    have d1: "distinct (map fst f1)" unfolding f1_def by (rule distinct_update) (use a in blast)
    have f1: "map_of f1 n = (if n = ''COVER.json'' then Some (utf8 (dumps_indent True (cover_json d de m exporter now) @ [nl])) else map_of fs n)"
      for n by (simp add: f1_def update_conv')
    have keep: "map_of fs n = map_of ?fs n" if "\<not> prefix ''policies/'' n" for n using a that by blast
    have "map_of fs ''SHA256SUMS'' = None" by (subst keep) simp_all
    then have "map_of f1 ''SHA256SUMS'' = None" unfolding f1 by simp
    then have fresh: "''SHA256SUMS'' \<notin> fst ` set f1" by (simp add: map_of_eq_None_iff)
    have d2: "distinct (map fst (AList.update ''SHA256SUMS'' ?sums f1))" by (rule distinct_update [OF d1])
    have files': "files = by_name (AList.update ''SHA256SUMS'' ?sums f1)" using files by (simp add: f1_def Let_def)
    have m: "map_of files n = (if n = ''SHA256SUMS'' then Some ?sums else map_of f1 n)" for n
      unfolding files' by_name_map_of [OF d2] by (simp add: update_conv')
    have pol: "\<exists>c r'. map_of files (?n r) = Some c \<and> r' \<in> set (em_policy_versions m) \<and>
        path_name (pv_source r') = path_name (pv_source r) \<and> sha256 H c = pv_sha256 r'"
      if r: "r \<in> set (em_policy_versions m)" for r
    proof -
      have "map_of fs (?n r) \<noteq> None" using a r by blast
      then obtain c where c: "map_of fs (?n r) = Some c" by blast
      then have "map_of ?fs (?n r) = Some c \<or>
          (\<exists>r' \<in> set (em_policy_versions m). ?n r = ?n r' \<and> sha256 H c = pv_sha256 r')" using a by blast
      then obtain r' where "r' \<in> set (em_policy_versions m)" "?n r = ?n r'" "sha256 H c = pv_sha256 r'" by auto
      then show ?thesis using c m f1 by auto
    qed
    have filt: "filter (\<lambda>(n, c). n \<noteq> ''SHA256SUMS'') files = by_name f1"
      unfolding files' by (rule filter_sort_update [OF d1 fresh])
    have "map_of files ''index.md'' = Some (utf8 (d_body d))" "map_of files ''manifest.json'' = Some (utf8 (dump m))"
        "map_of files ''SHA256SUMS'' = Some ?sums"
      unfolding m f1 by (simp_all add: keep)
    moreover have "sorted (map fst files)" "distinct (map fst files)"
      unfolding files' using by_name_props [OF d2] by blast+
    ultimately show ?thesis unfolding pack_spec_def filt using pol by blast
  qed
  ultimately show ?thesis by (auto split: sum.splits)
qed

text \<open>
  C15: A pack is built exactly for an approved evidence index whose policy documents are all on
  disk with the hashes of the manifest. It then holds the approved body, the manifest, and for
  every policy version a document with the hash that the manifest records under its name, and
  \<^verbatim>\<open>SHA256SUMS\<close> lists the hash of every other file in the order of their names.
\<close>

theorem pack_built_iff:
  "(is_ok (pack_files H dump d m data ls exporter now) \<longleftrightarrow>
     d_kind d = EvidencePackIndex \<and> d_status d = Approved \<and> d_decision d \<noteq> None \<and>
     list_all (unchanged H data) (em_policy_versions m)) \<and>
   (case pack_files H dump d m data ls exporter now of Inl _ \<Rightarrow> True | Inr files \<Rightarrow> pack_spec H dump d m files)"
  by (rule pack_files_iff)

text \<open>The hash that the approved index cites is not compared with the manifest of the export.\<close>

lemma export_ignores_body:
  "is_ok (pack_files H dump (d\<lparr>d_body := b\<rparr>) m data ls exporter now) = is_ok (pack_files H dump d m data ls exporter now)"
  using pack_files_iff [of H dump d] pack_files_iff [of H dump "d\<lparr>d_body := b\<rparr>"] by simp

end
