(* ===== verification/Oidc.thy ===== *)
theory Oidc
  imports Json
begin

text \<open>
  The verification of ID tokens in oidc.py. PyJWT, which fetches the keys and checks a token's
  signature and claims, is an argument: for a token it gives the signing key, and for a token,
  a key and the options of the check the claims, or the text of its exception.
\<close>

record jwt_options =
  jo_algorithms :: "string list"
  jo_audience :: string
  jo_issuer :: string
  jo_require :: "string list"
  jo_leeway :: int

record jwt_library =
  jl_signing_key :: "string \<Rightarrow> string \<Rightarrow> string + string"
  jl_decode :: "string \<Rightarrow> string \<Rightarrow> jwt_options \<Rightarrow> string + (string \<times> json) list"

record oidc_config =
  oc_issuer :: string
  oc_audience :: string
  oc_jwks_url :: string
  oc_username_claim :: string

definition missing_settings :: "oidc_config \<Rightarrow> string list" where
  "missing_settings c =
     map fst (filter (\<lambda>(k, v). v = [])
       [(''ISSUER'', oc_issuer c), (''AUDIENCE'', oc_audience c), (''JWKS_URL'', oc_jwks_url c)])"

definition oidc_validate :: "oidc_config \<Rightarrow> unit res" where
  "oidc_validate c =
     (if missing_settings c \<noteq> []
      then Inl (ValueError (''OIDC review identity needs COMPLIANCE_OIDC_'' @ str_join ''/'' (missing_settings c)))
      else Inr ())"

definition decode_options :: "oidc_config \<Rightarrow> jwt_options" where
  "decode_options c =
     \<lparr>jo_algorithms = [''RS256'', ''ES256''], jo_audience = oc_audience c, jo_issuer = oc_issuer c,
       jo_require = [''exp'', ''iat'', ''iss'', ''aud''], jo_leeway = 30\<rparr>"

definition oidc_username :: "jwt_library \<Rightarrow> oidc_config \<Rightarrow> string \<Rightarrow> string res" where
  "oidc_username J c token =
     (case jl_signing_key J (oc_jwks_url c) token of
        Inl m \<Rightarrow> Inl (TokenInvalid (''id token rejected: '' @ m))
      | Inr key \<Rightarrow>
          (case jl_decode J token key (decode_options c) of
             Inl m \<Rightarrow> Inl (TokenInvalid (''id token rejected: '' @ m))
           | Inr claims \<Rightarrow>
               (let bad = Inl (TokenInvalid (''id token has no '' @ (CHR 0x27 # oc_username_claim c @ [CHR 0x27]) @ '' claim''))
                in case map_of claims (oc_username_claim c) of
                     Some (JStr s) \<Rightarrow> if s = [] then bad else Inr s
                   | _ \<Rightarrow> bad)))"

lemma oidc_usernameD:
  "oidc_username J c token = Inr s \<Longrightarrow> s \<noteq> [] \<and>
   (\<exists>key claims. jl_signing_key J (oc_jwks_url c) token = Inr key \<and>
     jl_decode J token key (decode_options c) = Inr claims \<and> map_of claims (oc_username_claim c) = Some (JStr s))"
  by (auto simp: oidc_username_def Let_def split: sum.splits option.splits json.splits if_splits)

end
