(* ===== verification/Server.thy ===== *)
theory Server
  imports Service_Calls Settings
begin

text \<open>
  The transport of server.py: wiring the service from the settings and the data files, the
  identity of the caller, the shims that hand a request to the service and count it, and the
  middleware in front of them. The MCP library, starlette and uvicorn are not modelled; a request
  is its headers and arguments, an ASGI scope is the fields that the middleware reads.
\<close>

named_theorems server_defs \<open>the steps of a request\<close>

section \<open>Wiring\<close>

text \<open>The validators of pydantic and the JSON text of two models, which are arguments of the adapters.\<close>

record validators =
  va_user :: "json \<Rightarrow> user res"
  va_control :: "json \<Rightarrow> control res"
  va_test :: "json \<Rightarrow> test_result res"
  va_ticket :: "json \<Rightarrow> ticket res"
  va_release :: "json \<Rightarrow> release res"
  va_attestation :: "json \<Rightarrow> attestation res"
  va_control_text :: "control \<Rightarrow> string"
  va_ticket_text :: "ticket \<Rightarrow> string"

text \<open>The data directory: a missing file is \<open>None\<close>.\<close>

record data_files =
  df_policies :: dir
  df_controls :: "string option"
  df_tickets :: "string option"
  df_feed :: dir
  df_attestations :: "string option"

definition read_file :: "string option \<Rightarrow> string res" where
  "read_file f = (case f of None \<Rightarrow> Inl OSError | Some raw \<Rightarrow> Inr raw)"

definition load_systems :: "hashes \<Rightarrow> validators \<Rightarrow> data_files \<Rightarrow> systems res" where
  "load_systems H V D =
     rbind (load_policies H ''policies'' (df_policies D)) (\<lambda>ps.
     rbind (rbind (read_file (df_controls D)) (load_controls (va_control V) (va_test V))) (\<lambda>cs.
     rbind (rbind (read_file (df_tickets D)) (load_tickets (va_ticket V))) (\<lambda>ts.
     rbind (load_feed (va_release V) (df_feed D)) (\<lambda>fs.
     rbind (rbind (read_file (df_attestations D)) (load_attestations (va_attestation V))) (\<lambda>as.
       Inr \<lparr>sy_policies = ps, sy_controls = cs, sy_tickets = ts, sy_feed = fs, sy_attestations = as,
         sy_control_text = va_control_text V, sy_ticket_text = va_ticket_text V\<rparr>)))))"

definition build_service ::
    "hashes \<Rightarrow> validators \<Rightarrow> settings \<Rightarrow> data_files \<Rightarrow> rat \<Rightarrow> users_file \<Rightarrow> drafts_db \<Rightarrow> dir \<Rightarrow>
     (service \<times> service_state) res" where
  "build_service H V S D now users db d =
     (let (L, d') = audit_init (path_stem (se_audit_log S)) (path_suffix (se_audit_log S)) (se_agent_id S)
            (se_audit_hmac_key S) (se_audit_rotate_bytes S) (se_audit_forward_url S \<noteq> []) (se_audit_anchor_every S) d
      in rbind (dir_init H (va_user V) (se_directory_ttl_seconds S) now users) (\<lambda>dy.
         rbind (load_systems H V D) (\<lambda>sys.
           Inr (\<lparr>sv_hashes = H, sv_log = L, sv_systems = sys, sv_valid_user = va_user V,
                  sv_clock_override = se_allow_clock_override S\<rparr>,
                \<lparr>st_audit = d', st_forwarded = [], st_directory = dy, st_drafts = db,
                  st_limiter = limiter_init (se_rate_limit_per_minute S) None\<rparr>))))"

section \<open>Who is calling\<close>

text \<open>Headers by lower-case name; a later one replaces an earlier one of the same name.\<close>

definition header_map :: "(string \<times> string) list \<Rightarrow> (string \<times> string) list" where
  [server_defs]: "header_map hs = fold (\<lambda>(k, v) m. AList.update (str_lower k) v m) hs []"

definition header_get :: "(string \<times> string) list \<Rightarrow> string \<Rightarrow> string" where
  [server_defs]: "header_get m k = (case map_of m k of None \<Rightarrow> [] | Some v \<Rightarrow> v)"

definition caller_identity_of :: "settings \<Rightarrow> (string \<times> string) list \<Rightarrow> string \<Rightarrow> caller_identity" where
  [server_defs]: "caller_identity_of S hs param =
     (let m = header_map hs; session = header_get m (se_session_header S)
      in case se_identity_mode S of
           ParameterMode \<Rightarrow> \<lparr>ci_requester = param, ci_source = FromParameter, ci_session_id = session\<rparr>
         | HeaderMode \<Rightarrow>
             (let from_header = str_strip (header_get m (se_identity_header S))
              in if from_header = [] then \<lparr>ci_requester = [], ci_source = FromHeader, ci_session_id = session\<rparr>
                 else if se_identity_header_strict S \<and> str_strip param \<noteq> [] \<and>
                     str_lower (str_strip param) \<noteq> str_lower from_header
                 then \<lparr>ci_requester = [], ci_source = FromHeader, ci_session_id = session\<rparr>
                 else \<lparr>ci_requester = from_header, ci_source = FromHeader, ci_session_id = session\<rparr>))"

section \<open>The tools of the server\<close>

text \<open>The request for a tool, with the defaults of the shims still to be filled in.\<close>

datatype tool_request =
  AskPolicyLookup string "int option"
| AskPolicyGet string "string option"
| AskPolicyList
| AskControlLookup "string option" "string option"
| AskControlTestResults string "string option" "string option"
| AskRegulatoryReleases string "string option"
| AskRegulatoryReleaseGet string
| AskTicketSearch "string option" "string option" "string option" "string option"
| AskAttestationsDue "int option" "string option"
| AskEvidenceBundle string string string
| AskDraftCreate draft_kind string string "string list option"
| AskDraftList "draft_status option"
| AskDraftGet string

definition or_default :: "'a \<Rightarrow> 'a option \<Rightarrow> 'a" where
  "or_default d x = (case x of None \<Rightarrow> d | Some v \<Rightarrow> v)"

fun shim :: "tool_request \<Rightarrow> tool_call" where
  "shim (AskPolicyLookup q n) = PolicyLookup q (or_default 5 n)"
| "shim (AskPolicyGet i d) = PolicyGet i d"
| "shim AskPolicyList = PolicyList"
| "shim (AskControlLookup i q) = ControlLookup (or_default [] i) (or_default [] q)"
| "shim (AskControlTestResults i s e) = ControlTestResults i s e"
| "shim (AskRegulatoryReleases since src) = RegulatoryReleases since (or_default [] src)"
| "shim (AskRegulatoryReleaseGet i) = RegulatoryReleaseGet i"
| "shim (AskTicketSearch q i s e) = TicketSearch (or_default [] q) (or_default [] i) s e"
| "shim (AskAttestationsDue n d) = AttestationsDue (or_default 14 n) d"
| "shim (AskEvidenceBundle i s e) = EvidenceBundle i s e"
| "shim (AskDraftCreate k t b r) = DraftCreate k t b (or_default [] r)"
| "shim (AskDraftList s) = DraftList (or_default Pending s)"
| "shim (AskDraftGet i) = DraftGet i"

text \<open>The counter of calls by tool and outcome.\<close>

type_synonym tool_counter = "((string \<times> string) \<times> nat) list"

definition count_call :: "string \<Rightarrow> reply \<Rightarrow> tool_counter \<Rightarrow> tool_counter" where
  [server_defs]: "count_call tool r m =
     (let k = (tool, case r of Inl e \<Rightarrow> error_code_str (te_error e) | Inr _ \<Rightarrow> ''ok'')
      in AList.update k (1 + (case map_of m k of None \<Rightarrow> 0 | Some n \<Rightarrow> n)) m)"

definition server_call ::
    "settings \<Rightarrow> service \<Rightarrow> call_env \<Rightarrow> (string \<times> string) list \<Rightarrow> string \<Rightarrow> tool_request \<Rightarrow> service_state \<times> tool_counter \<Rightarrow>
     (service_state \<times> tool_counter) \<times> reply res" where
  "server_call S C E hs param req sm =
     (let call = shim req
      in case service_call C E (caller_identity_of S hs param) call (fst sm) of
           (s', Inl e) \<Rightarrow> ((s', snd sm), Inl e)
         | (s', Inr r) \<Rightarrow> ((s', count_call (tool_name call) r (snd sm)), Inr r))"

section \<open>The edge\<close>

record http_scope =
  hs_type :: string
  hs_path :: string
  hs_method :: "string option"
  hs_headers :: "(string \<times> string) list"

datatype edge =
  ToApp
| Healthz
| Metrics
| Unauthorized
| MethodNotAllowed

text \<open>
  \<^verbatim>\<open>hmac.compare_digest\<close> on strings raises \<^verbatim>\<open>TypeError\<close> unless both are ASCII. The headers are
  bytes and are all decoded first.
\<close>

definition compare_digest :: "string \<Rightarrow> string \<Rightarrow> bool res" where
  "compare_digest a b = (if list_all (\<lambda>c. ord c < (128 :: nat)) (a @ b) then Inr (a = b) else Inl TypeError)"

definition decode_header :: "string \<times> string \<Rightarrow> (string \<times> string) res" where
  "decode_header kv = rbind (utf8_decode (fst kv)) (\<lambda>k. rbind (utf8_decode (snd kv)) (\<lambda>v. Inr (k, v)))"

definition edge_middleware :: "string \<Rightarrow> http_scope \<Rightarrow> edge res" where
  "edge_middleware token scope =
     (if hs_type scope \<noteq> ''http'' then Inr ToApp
      else if hs_path scope = ''/healthz'' then Inr Healthz
      else if hs_path scope = ''/metrics'' then Inr Metrics
      else rbind (mapM decode_header (hs_headers scope)) (\<lambda>hs.
           rbind (if token = [] then Inr True
                  else compare_digest (header_get (header_map hs) ''authorization'') (''Bearer '' @ token)) (\<lambda>allowed.
             if \<not> allowed then Inr Unauthorized
             else if hs_method scope = Some ''GET'' then Inr MethodNotAllowed else Inr ToApp)))"

text \<open>\<^verbatim>\<open>main\<close>: the transport and the warnings.\<close>

datatype transport = Stdio | Http

definition server_main :: "settings \<Rightarrow> string list \<Rightarrow> transport \<times> string list" where
  "server_main S argv =
     (if ''--stdio'' \<in> set argv then (Stdio, [])
      else (Http,
        (if se_bearer_token S = []
         then [''COMPLIANCE_MCP_TOKEN is empty; the HTTP endpoint is unauthenticated (dev only)''] else []) @
        (if se_identity_mode S = ParameterMode
         then [''identity mode is '' @ single_quoted ''parameter'' @ '': the model supplies requester identity (dev only)''] else [])))"

section \<open>Identity\<close>

text \<open>In header mode the requester is nobody or the header's, whatever the model passes.\<close>

lemma header_identity:
  assumes "se_identity_mode S = HeaderMode" "ci_requester (caller_identity_of S hs param) \<noteq> []"
  shows "ci_requester (caller_identity_of S hs param) = str_strip (header_get (header_map hs) (se_identity_header S))"
    "se_identity_header_strict S \<Longrightarrow> str_strip param \<noteq> [] \<Longrightarrow>
     str_lower (str_strip param) = str_lower (ci_requester (caller_identity_of S hs param))"
  using assms by (auto simp: caller_identity_of_def Let_def split: if_splits)


section \<open>The bearer token\<close>

lemma compare_digest_True: "compare_digest a b = Inr True \<longleftrightarrow> list_all (\<lambda>c. ord c < (128 :: nat)) (a @ b) \<and> a = b"
  by (auto simp: compare_digest_def)


text \<open>A header that is not ASCII is an error of the server, not a refusal.\<close>

lemma non_ascii_token_raises:
  "edge_middleware ''t'' \<lparr>hs_type = ''http'', hs_path = ''/mcp'', hs_method = Some ''POST'',
     hs_headers = [(''authorization'', utf8 [CHR 0xE9])]\<rparr> = Inl TypeError"
  by (simp add: edge_middleware_def decode_header_def utf8_decode_encode compare_digest_def header_map_def header_get_def
      str_lower_def lower_char_def)

section \<open>Witnesses\<close>

definition example_settings :: settings where
  "example_settings = \<lparr>se_data_dir = ''/data'', se_state_dir = ''/state'', se_audit_log = ''/state/audit/audit.jsonl'',
     se_audit_hmac_key = ''k'', se_audit_rotate_bytes = 600, se_audit_forward_url = ''https://sink'', se_audit_forward_token = [],
     se_audit_anchor_every = 2, se_host = ''0.0.0.0'', se_port = 8765, se_allowed_hosts = [], se_bearer_token = ''t'',
     se_identity_mode = HeaderMode, se_identity_header = ''x-requester'', se_identity_header_strict = True,
     se_session_header = ''x-session-id'', se_directory_ttl_seconds = 60, se_review_identity_mode = OidcMode,
     se_oidc_issuer = ''i'', se_oidc_audience = ''a'', se_oidc_jwks_url = ''j'', se_oidc_username_claim = ''upn'',
     se_allow_clock_override = False, se_rate_limit_per_minute = 2, se_agent_id = ''agent'', se_log_json = True\<rparr>"

lemma example_headers: "mapM decode_header [(''Authorization'', ''Bearer t'')] = Inr [(''Authorization'', ''Bearer t'')]"
  "header_get (header_map [(''Authorization'', ''Bearer t'')]) ''authorization'' = ''Bearer t''"
  by code_simp+


lemma example_identity:
  "caller_identity_of example_settings [(''X-Requester'', ''ann '')] ''ANN'' =
     \<lparr>ci_requester = ''ann'', ci_source = FromHeader, ci_session_id = []\<rparr>"
  "str_strip (header_get (header_map [(''X-Requester'', ''ann '')]) (se_identity_header example_settings)) = ''ann''"
  by code_simp+

lemma example_answer:
  "\<exists>s' m' r. server_call example_settings example_service (example_env 6) [(''X-Requester'', ''ann '')] ''ANN'' (AskDraftList None)
     (example_state, []) = ((s', m'), Inr (Inr r))"
proof -
  let ?c = "\<lparr>ci_requester = ''ann'', ci_source = FromHeader, ci_session_id = []\<rparr>"
  have "map_of (index_users [ann True]) (str_lower (str_strip ''ann'')) = Some (ann True)" "str_lower (str_strip ''ann'') \<noteq> []"
    by code_simp+
  then have "find_user ''ann'' example_snapshot = Inr (ann True)"
    by (simp add: find_user_def Let_def example_snapshot_def ann_def)
  then have a: "authorise example_service (example_env 6) ?c (DraftList Pending) (example_state\<lparr>st_directory := example_snapshot\<rparr>) =
      (example_state, Inr (ann True))"
    by (simp add: authorise_def dir_resolve_def dir_load_def example_env_def Let_def example_snapshot_def example_state_def)
  have l: "\<exists>l. limiter_check (u_upn (ann True)) (en_limit_now (example_env 6)) (st_limiter example_state) = (l, Inr ())"
    by (simp add: limiter_check_def refilled_def limiter_init_def example_state_def Let_def)
  have b: "tool_body example_service (example_env 6) (ann True) (DraftList Pending) (st_drafts example_state) =
      Inr (DraftListResult (nat_str 0 @ '' '' @ draft_status_str Pending @ '' draft(s)'') [], [])"
    by (simp add: reading_def draft_list_tool_def draft_list_def example_state_def)
  have late: "rotates_late example_service example_state (example_env 6)"
    using example_late by (simp add: late_calls_def example_run_def)
  obtain s' where "service_call example_service (example_env 6) ?c (DraftList Pending) example_state =
      (s', Inr (Inr (DraftListResult (nat_str 0 @ '' '' @ draft_status_str Pending @ '' draft(s)'') [])))"
    using l call_accepted [OF example_ok late _ a _ b, where v = "dy_version example_snapshot"]
    by (fastforce simp: dir_version_def dir_load_def example_env_def Let_def example_state_def example_snapshot_def)
  then show ?thesis by (simp add: server_call_def example_identity or_default_def)
qed


end
