(* ===== verification/Audit_Cli.thy ===== *)
theory Audit_Cli
  imports Audit_Append Forwarder
begin

text \<open>
  The command \<^verbatim>\<open>compliance-audit\<close> of audit.py and the JSON log lines of logging_setup.py: what is
  printed and the exit status. A command that returns has status 0.
\<close>

section \<open>The command\<close>

datatype audit_command = AuditVerify | AuditTail int | AuditSpool

text \<open>\<^verbatim>\<open>lines[-n:]\<close>: the last \<open>n\<close> lines, and all of them for 0.\<close>

definition slice_last :: "int \<Rightarrow> 'a list \<Rightarrow> 'a list" where
  "slice_last n xs =
     (if 0 < n then drop (length xs - nat n) xs else drop (nat (- n)) xs)"

definition pad_to :: "nat \<Rightarrow> string \<Rightarrow> string" where
  "pad_to n s = s @ replicate (n - length s) (CHR '' '')"

text \<open>A field of a record in the listing; the formats need strings.\<close>

definition text_field :: "json \<Rightarrow> string \<Rightarrow> string res" where
  "text_field r k = rbind (jindex r k) (\<lambda>v. case v of JStr s \<Rightarrow> Inr s | _ \<Rightarrow> Inl TypeError)"

definition tail_line :: "string \<Rightarrow> string res" where
  "tail_line l =
     rbind (loads l) (\<lambda>r. rbind (text_field r ''ts'') (\<lambda>ts. rbind (text_field r ''outcome'') (\<lambda>outcome.
     rbind (text_field r ''requester'') (\<lambda>who. rbind (text_field r ''tool'') (\<lambda>tool.
     rbind (text_field r ''result_summary'') (\<lambda>summary.
       Inr (ts @ '' '' @ pad_to 6 outcome @ '' '' @ pad_to 28 who @ '' '' @ pad_to 24 tool @ '' '' @ take 80 summary)))))))"

definition audit_main ::
    "hashes \<Rightarrow> audit_log \<Rightarrow> string list \<Rightarrow> audit_command \<Rightarrow> dir \<Rightarrow> (string list \<times> nat) res" where
  "audit_main H L spool cmd d =
     (case cmd of
        AuditVerify \<Rightarrow> rbind (verify H L (al_hmac_key L) d) (\<lambda>r.
          Inr ([(if vr_ok r then ''OK '' else ''FAIL '') @ vr_message r], if vr_ok r then 0 else 1))
      | AuditSpool \<Rightarrow> Inr ([nat_str (length spool) @ '' record(s) pending''], 0)
      | AuditTail n \<Rightarrow>
          rbind (case map_of d (active_name L) of None \<Rightarrow> Inr []
                 | Some f \<Rightarrow> rbind (utf8_decode f) (\<lambda>t. Inr (str_splitlines (univ_newlines t)))) (\<lambda>lines.
          rbind (mapM tail_line (slice_last n lines)) (\<lambda>ls. Inr (ls, 0))))"

lemma check_case_iff:
  "(case c of Good h \<Rightarrow> f h | Bad m \<Rightarrow> g m) = y \<longleftrightarrow> (\<exists>h. c = Good h \<and> f h = y) \<or> (\<exists>m. c = Bad m \<and> g m = y)"
  by (cases c) auto

text \<open>
  The status of \<^verbatim>\<open>compliance-audit verify\<close> after any sequence of writes is 0, with the number
  of records and files in its line.
\<close>

theorem audit_verify_status:
  assumes "chain_inv H L d rss h"
  shows "\<exists>m. audit_main H L spool AuditVerify d = Inr ([''OK '' @ m], 0) \<and>
    m = nat_str (length (concat rss)) @ '' records across '' @ nat_str (length (chain_files L d)) @ '' file(s) verified, head '' @ take 12 h"
proof -
  obtain m where v: "verify H L (al_hmac_key L) d = Inr \<lparr>vr_ok = True, vr_records = length (concat rss),
      vr_files = length (chain_files L d), vr_head = h, vr_message = m\<rparr>"
    using chain_inv_verify [OF assms] by blast
  have "vr_message r = nat_str (vr_records r) @ '' records across '' @ nat_str nf @ '' file(s) verified, head '' @ take 12 (vr_head r)"
    if "verify_files H key d nf ns prev count = Inr r" "vr_ok r" for H key d nf ns prev count r
    using that
  proof (induction ns arbitrary: prev count)
    case (Cons n ns)
    have bad: "\<not> vr_ok v" if "verify_lines H key nf name k ls p c = Inr (Inl v)" for name k ls p c v
      using that by (induction ls arbitrary: k p c)
        (auto simp: rbind_Inr_iff failure_def check_case_iff split: if_split_asm)
    obtain f x where f: "map_of d n = Some f" "verify_lines H key nf n 1 (file_lines f) prev count = Inr x"
        "(case x of Inl v \<Rightarrow> Inr v | Inr (p, c) \<Rightarrow> verify_files H key d nf ns p c) = Inr r"
      using Cons.prems(1) by (auto simp: rbind_Inr_iff split: option.splits)
    obtain p c where x: "x = Inr (p, c)" using f(2,3) bad Cons.prems(2) by (cases x) auto
    show ?case using f(3) by (intro Cons.IH Cons.prems(2)) (simp add: x)
  qed auto
  from this [of H "al_hmac_key L" d "length (chain_files L d)" "chain_files L d" GENESIS 0] v
  show ?thesis by (simp add: audit_main_def verify_def Let_def)
qed

lemma audit_verify_status_witness:
  "\<exists>m. audit_main sum_hashes (fst (audit_init ''a'' ''.jsonl'' ''agent'' [] 9 False 1 [])) [] AuditVerify
     (snd (audit_init ''a'' ''.jsonl'' ''agent'' [] 9 False 1 [])) = Inr ([''OK '' @ m], 0)"
  using audit_verify_status [OF chain_inv_init [of sum_hashes "''a''" "''.jsonl''" "''agent''" "[]" 9 False 1], of "[]"] by blast

text \<open>Asking for no lines prints them all.\<close>

lemma tail_zero_is_everything: "slice_last 0 xs = xs"
  by (simp add: slice_last_def)

section \<open>Log lines\<close>

text \<open>
  A log record: the time, the level, the logger, the message, the text of an exception, and the
  attributes, those passed in \<^verbatim>\<open>extra\<close> among them. Values that are not JSON are their \<^verbatim>\<open>str\<close>.
\<close>

record log_record =
  lr_created :: nat
  lr_level :: string
  lr_logger :: string
  lr_message :: string
  lr_exception :: "string option"
  lr_attrs :: "(string \<times> json) list"

definition standard_attrs :: "string list" where
  "standard_attrs =
     [''name'', ''msg'', ''args'', ''levelname'', ''levelno'', ''pathname'', ''filename'', ''module'', ''exc_info'',
      ''exc_text'', ''stack_info'', ''lineno'', ''funcName'', ''created'', ''msecs'', ''relativeCreated'', ''thread'',
      ''threadName'', ''processName'', ''process'', ''taskName'', ''message'', ''asctime'']"

definition log_payload :: "log_record \<Rightarrow> (string \<times> json) list" where
  "log_payload r =
     (let base = [(''ts'', JStr (utc_now (lr_created r))), (''level'', JStr (lr_level r)), (''logger'', JStr (lr_logger r)),
            (''message'', JStr (lr_message r))];
          extras = fold (\<lambda>(k, v) m. if k \<notin> set standard_attrs \<and> \<not> str_startswith k ''_'' then AList.update k v m else m)
                     (lr_attrs r) base
      in case lr_exception r of None \<Rightarrow> extras | Some e \<Rightarrow> AList.update ''exception'' (JStr e) extras)"

definition json_format :: "log_record \<Rightarrow> string" where
  "json_format r = dumps spaced (JObj (log_payload r))"

lemma update_wf: "wf_json (JObj m) \<Longrightarrow> wf_json v \<Longrightarrow> wf_json (JObj (AList.update k v m))"
proof -
  have "snd ` set (AList.update k v m) \<subseteq> insert v (snd ` set m)" by (induction m) auto
  then show "wf_json (JObj m) \<Longrightarrow> wf_json v \<Longrightarrow> wf_json (JObj (AList.update k v m))"
    unfolding wf_json.simps using distinct_update [of m k v] by blast
qed

lemma log_payload_wf:
  assumes "\<forall>v \<in> snd ` set (lr_attrs r). wf_json v"
  shows "wf_json (JObj (log_payload r))"
proof -
  let ?f = "\<lambda>(k, v) m. if k \<notin> set standard_attrs \<and> \<not> str_startswith k ''_'' then AList.update k v m else m"
  have "wf_json (JObj (fold ?f xs m))" if "wf_json (JObj m)" "\<forall>v \<in> snd ` set xs. wf_json v" for xs m
    using that
  proof (induction xs arbitrary: m)
    case (Cons x xs)
    obtain k v where x: "x = (k, v)" by (cases x)
    have "wf_json v" using Cons.prems(2) x by simp
    then have "wf_json (JObj (?f x m))" unfolding x using update_wf [OF Cons.prems(1)] Cons.prems(1) by (simp del: wf_json.simps)
    then show ?case using Cons.IH Cons.prems(2) by (simp del: wf_json.simps)
  qed simp
  from this [OF _ assms, of "[(''ts'', JStr (utc_now (lr_created r))), (''level'', JStr (lr_level r)),
      (''logger'', JStr (lr_logger r)), (''message'', JStr (lr_message r))]"]
  have "wf_json (JObj (fold ?f (lr_attrs r) [(''ts'', JStr (utc_now (lr_created r))), (''level'', JStr (lr_level r)),
      (''logger'', JStr (lr_logger r)), (''message'', JStr (lr_message r))]))" by simp
  from this update_wf [OF this, of "JStr (the (lr_exception r))"] show ?thesis
    unfolding log_payload_def Let_def by (cases "lr_exception r") (simp_all del: wf_json.simps(2))
qed

text \<open>
  Every log line is a single line that parses back to its payload, whatever the message and
  the extra values contain, so no message can forge a second line.
\<close>

theorem log_line_parses:
  assumes "\<forall>v \<in> snd ` set (lr_attrs r). wf_json v"
  shows "loads (json_format r) = Inr (JObj (log_payload r)) \<and> nl \<notin> set (json_format r) \<and> CHR 0x0D \<notin> set (json_format r)"
proof -
  have "32 \<le> (ord x :: nat)" if "x \<in> set (json_format r)" for x
    using dumps_printable(1) [of spaced x "JObj (log_payload r)"] that by (simp add: json_format_def)
  then have "nl \<notin> set (json_format r)" "CHR 0x0D \<notin> set (json_format r)" by force+
  then show ?thesis using loads_dumps [of spaced, OF _ log_payload_wf [OF assms]] by (simp add: json_format_def)
qed

definition example_log_record :: log_record where
  "example_log_record = \<lparr>lr_created = 0, lr_level = ''INFO'', lr_logger = ''m'', lr_message = ''a'' @ [nl] @ ''b'',
     lr_exception = None, lr_attrs = [(''msg'', JStr []), (''requester'', JStr ''ann'')]\<rparr>"

lemma log_line_parses_witness: "loads (json_format example_log_record) = Inr (JObj (log_payload example_log_record))"
  using log_line_parses [of example_log_record] by (simp add: example_log_record_def)


section \<open>The root logger\<close>

text \<open>\<^verbatim>\<open>configure_logging\<close>: the handlers there were are removed one by one, and one is installed.\<close>

datatype log_format = Json_Formatter | Text_Formatter string

record log_handler =
  lh_stream :: string
  lh_format :: log_format

record root_logger =
  rl_level :: int
  rl_handlers :: "log_handler list"

definition configure_logging :: "bool \<Rightarrow> int \<Rightarrow> root_logger \<Rightarrow> root_logger" where
  "configure_logging json_output level root =
     (let cleared = fold remove1 (rl_handlers root) (rl_handlers root);
          handler = \<lparr>lh_stream = ''stderr'',
            lh_format = (if json_output then Json_Formatter
                         else Text_Formatter ''%(asctime)s %(levelname)s %(name)s: %(message)s'')\<rparr>
      in \<lparr>rl_level = level, rl_handlers = cleared @ [handler]\<rparr>)"

lemma remove_all: "fold remove1 xs xs = []"
proof -
  have "fold remove1 xs (xs @ ys) = ys" for ys :: "'a list" by (induction xs) simp_all
  from this [of "[]"] show ?thesis by simp
qed

text \<open>However often it is called, one handler is left, so every record is written once.\<close>

lemma configure_logging_once:
  "length (rl_handlers (configure_logging j l root)) = 1"
  "configure_logging j l (configure_logging j' l' root) = configure_logging j l root"
  by (simp_all add: configure_logging_def Let_def remove_all)

end
