(* ===== verification/Review_Cli.thy ===== *)
theory Review_Cli
  imports Evidence_Export Oidc Server Audit_Cli
begin

text \<open>
  The review command of review_cli.py: the identity of the approver, the decision with its
  refusals, the export, and the two read-only commands. The parsed arguments are a datatype; what
  is printed is the list of lines with the exit status. A run is its own process: it opens the
  users file and the audit log anew.
\<close>

section \<open>The command\<close>

datatype review_command =
  ReviewList draft_status
| ReviewShow string
| ReviewExport string string
| ReviewDecide bool string "string option" "string option" string
    \<comment> \<open>approve, the draft, \<^verbatim>\<open>--id-token\<close>, \<^verbatim>\<open>--as\<close>, \<^verbatim>\<open>--note\<close>\<close>

record review_state =
  rv_audit :: dir
  rv_drafts :: drafts_db
  rv_files :: dir

record review_env =
  re_init_now :: rat
  re_init_file :: users_file
  re_check_now :: rat
  re_check_file :: users_file
  re_version_now :: rat
  re_version_file :: users_file
  re_decide_now :: nat
  re_world :: world
  re_user :: "string option"
  re_data :: data_files
  re_raw :: dir          \<comment> \<open>the data directory by relative path, as the export reads it\<close>
  re_export_now :: nat

text \<open>The libraries: hashes, pydantic, PyJWT, the JSON text of models and the zip container.\<close>

record review_lib =
  rl_hashes :: hashes
  rl_valid :: validators
  rl_jwt :: jwt_library
  rl_draft_text :: "draft \<Rightarrow> string"
  rl_manifest_text :: "evidence_manifest \<Rightarrow> string"
  rl_archive :: "(string \<times> string) list \<Rightarrow> string"

definition given :: "string option \<Rightarrow> bool" where
  "given s \<longleftrightarrow> s \<noteq> None \<and> s \<noteq> Some []"

definition approver_identity :: "jwt_library \<Rightarrow> settings \<Rightarrow> string option \<Rightarrow> string option \<Rightarrow> string res" where
  "approver_identity J S id_token as_upn =
     (if se_review_identity_mode S = OidcMode
      then (if \<not> given id_token then Inl (AccessDenied ''this environment requires --id-token; --as is not accepted'')
            else (let c = \<lparr>oc_issuer = se_oidc_issuer S, oc_audience = se_oidc_audience S,
                        oc_jwks_url = se_oidc_jwks_url S, oc_username_claim = se_oidc_username_claim S\<rparr>
                  in rbind (oidc_validate c) (\<lambda>_.
                     case oidc_username J c (the id_token) of
                       Inl (TokenInvalid m) \<Rightarrow> Inl (AccessDenied m)
                     | r \<Rightarrow> r)))
      else if \<not> given as_upn then Inl (AccessDenied ''dev mode expects --as <upn>'')
      else Inr (the as_upn))"

text \<open>The audit log of the command: the one of the server, under its own name and without a forwarder.\<close>

definition review_log :: "settings \<Rightarrow> dir \<Rightarrow> audit_log \<times> dir" where
  "review_log S d =
     audit_init (path_stem (se_audit_log S)) (path_suffix (se_audit_log S)) ''human-review-cli''
       (se_audit_hmac_key S) (se_audit_rotate_bytes S) False 100 d"

section \<open>Deciding\<close>

text \<open>
  The body of the \<^verbatim>\<open>try\<close> up to the decision: the directory and the drafts it leaves, and the
  approver with the decided draft, or the exception.
\<close>

definition try_decide ::
    "review_lib \<Rightarrow> settings \<Rightarrow> review_env \<Rightarrow> bool \<Rightarrow> string \<Rightarrow> string option \<Rightarrow> string option \<Rightarrow> string \<Rightarrow>
     directory \<Rightarrow> drafts_db \<Rightarrow> (directory \<times> drafts_db) \<times> (user \<times> draft) res" where
  "try_decide R S E approve i id_token as_upn note_text dy db =
     (case approver_identity (rl_jwt R) S id_token as_upn of
        Inl e \<Rightarrow> ((dy, db), Inl e)
      | Inr upn \<Rightarrow>
          (case dir_require_approver (rl_hashes R) (va_user (rl_valid R)) (re_check_now E) (re_check_file E) upn dy of
             (dy', Inl e) \<Rightarrow> ((dy', db), Inl e)
           | (dy', Inr approver) \<Rightarrow>
               (case draft_get i db of
                  Inl e \<Rightarrow> ((dy', db), Inl e)
                | Inr None \<Rightarrow> ((dy', db), Inl (DraftConflict (''no draft '' @ i)))
                | Inr (Some d) \<Rightarrow>
                    if str_lower (d_requester d) = str_lower (u_upn approver)
                    then ((dy', db), Inl (AccessDenied ''four-eyes: a draft cannot be approved by its requester''))
                    else (case draft_decide i (if approve then Approved else Rejected) (u_upn approver) note_text
                              (re_decide_now E) db of
                            (db', Inl e) \<Rightarrow> ((dy', db'), Inl e)
                          | (db', Inr d') \<Rightarrow> ((dy', db'), Inr (approver, d'))))))"

definition decision_tool :: "bool \<Rightarrow> string" where
  "decision_tool approve = ''draft_'' @ draft_status_str (if approve then Approved else Rejected)"

definition os_user :: "review_env \<Rightarrow> string" where
  "os_user E = (case re_user E of None \<Rightarrow> [] | Some u \<Rightarrow> u)"

text \<open>What the record of a decision and of a refusal holds.\<close>

definition decided_entry :: "review_env \<Rightarrow> bool \<Rightarrow> string \<Rightarrow> string \<Rightarrow> user \<Rightarrow> draft \<Rightarrow> string \<Rightarrow> write_args" where
  "decided_entry E approve i note_text approver d version =
     \<lparr>wa_requester = u_upn approver, wa_tool = decision_tool approve,
       wa_args = [(''draft_id'', JStr i), (''content_sha256'', JStr (d_content_sha256 d)), (''note'', JStr note_text),
         (''os_user'', JStr (os_user E))],
       wa_outcome = ''ok'', wa_summary = i @ '' '' @ draft_status_str (if approve then Approved else Rejected),
       wa_session = [], wa_dirver = version\<rparr>"

definition refused_entry :: "review_env \<Rightarrow> bool \<Rightarrow> string \<Rightarrow> string option \<Rightarrow> string \<Rightarrow> string \<Rightarrow> write_args" where
  "refused_entry E approve i as_upn msg version =
     \<lparr>wa_requester = (if given as_upn then the as_upn else ''<id-token>''), wa_tool = decision_tool approve,
       wa_args = [(''draft_id'', JStr i), (''os_user'', JStr (os_user E))],
       wa_outcome = ''denied'', wa_summary = msg, wa_session = [], wa_dirver = version\<rparr>"

fun refusal_text :: "exc \<Rightarrow> string option" where
  "refusal_text (AccessDenied m) = Some m"
| "refusal_text (DraftConflict m) = Some m"
| "refusal_text _ = None"

text \<open>The record, for which the version of the directory is read first.\<close>

definition review_record ::
    "review_lib \<Rightarrow> review_env \<Rightarrow> audit_log \<Rightarrow> directory \<Rightarrow> (string \<Rightarrow> write_args) \<Rightarrow> dir \<Rightarrow> dir res" where
  "review_record R E L dy entry d =
     (case dir_version (rl_hashes R) (va_user (rl_valid R)) (re_version_now E) (re_version_file E) dy of
        (_, Inl e) \<Rightarrow> Inl e
      | (_, Inr version) \<Rightarrow> rbind (audit_write (rl_hashes R) L (entry version) (re_world E) d) (\<lambda>(d', out, b). Inr d'))"

definition review_decide ::
    "review_lib \<Rightarrow> settings \<Rightarrow> review_env \<Rightarrow> bool \<Rightarrow> string \<Rightarrow> string option \<Rightarrow> string option \<Rightarrow> string \<Rightarrow>
     audit_log \<Rightarrow> directory \<Rightarrow> review_state \<Rightarrow> review_state \<times> (string list \<times> nat) res" where
  "review_decide R S E approve i id_token as_upn note_text L dy s =
     (case try_decide R S E approve i id_token as_upn note_text dy (rv_drafts s) of
        ((dy', db), Inr (approver, d)) \<Rightarrow>
          (case review_record R E L dy' (decided_entry E approve i note_text approver d) (rv_audit s) of
             Inl e \<Rightarrow> (s\<lparr>rv_drafts := db\<rparr>, Inl e)
           | Inr a \<Rightarrow> (s\<lparr>rv_drafts := db, rv_audit := a\<rparr>,
               Inr ([i @ '' '' @ draft_status_str (if approve then Approved else Rejected) @ '' by '' @ u_upn approver], 0)))
      | ((dy', db), Inl e) \<Rightarrow>
          (case refusal_text e of
             None \<Rightarrow> (s\<lparr>rv_drafts := db\<rparr>, Inl e)
           | Some msg \<Rightarrow>
               (case review_record R E L dy' (refused_entry E approve i as_upn msg) (rv_audit s) of
                  Inl e' \<Rightarrow> (s\<lparr>rv_drafts := db\<rparr>, Inl e')
                | Inr a \<Rightarrow> (s\<lparr>rv_drafts := db, rv_audit := a\<rparr>, Inr ([''refused: '' @ msg], 2)))))"

section \<open>Exporting\<close>

definition export_pack ::
    "review_lib \<Rightarrow> settings \<Rightarrow> review_env \<Rightarrow> string \<Rightarrow> string \<Rightarrow> review_state \<Rightarrow> (string \<times> evidence_manifest) res" where
  "export_pack R S E i exporter s =
     rbind (draft_get i (rv_drafts s)) (\<lambda>d.
       case d of None \<Rightarrow> Inl (ExportRefused (''no draft '' @ i))
       | Some d \<Rightarrow>
           (case period_from_title (d_title d) of
              None \<Rightarrow> Inl (ExportRefused ''draft title does not identify a control and period'')
            | Some (c, start, stop) \<Rightarrow>
                rbind (build_service (rl_hashes R) (rl_valid R) S (re_data E) (re_init_now E) (re_init_file E) (rv_drafts s)
                    (rv_audit s)) (\<lambda>(svc, st).
                rbind (compute_manifest (rl_hashes R) (sv_systems svc) c start stop) (\<lambda>m.
                  case m of None \<Rightarrow> Inl (ExportRefused (''unknown control '' @ c))
                  | Some m \<Rightarrow>
                      rbind (audit_lines_for i (map_of (rv_audit s) (path_name (se_audit_log S)))) (\<lambda>ls.
                      rbind (build_pack (rl_hashes R) (rl_manifest_text R) (rl_archive R) d m (re_raw E) ls exporter
                          (re_export_now E)) (\<lambda>pack. Inr (pack, m)))))))"

definition exported_entry :: "string \<Rightarrow> string \<Rightarrow> string \<Rightarrow> nat \<Rightarrow> string \<Rightarrow> string \<Rightarrow> write_args" where
  "exported_entry exporter i path n manifest_hash version =
     \<lparr>wa_requester = exporter, wa_tool = ''evidence_export'',
       wa_args = [(''draft_id'', JStr i), (''path'', JStr path), (''manifest_sha256'', JStr manifest_hash)],
       wa_outcome = ''ok'', wa_summary = i @ '' exported ('' @ nat_str n @ '' bytes)'',
       wa_session = [], wa_dirver = version\<rparr>"

definition export_refused_entry :: "string \<Rightarrow> string \<Rightarrow> string \<Rightarrow> string \<Rightarrow> write_args" where
  "export_refused_entry exporter i msg version =
     \<lparr>wa_requester = exporter, wa_tool = ''evidence_export'', wa_args = [(''draft_id'', JStr i)],
       wa_outcome = ''denied'', wa_summary = msg, wa_session = [], wa_dirver = version\<rparr>"

definition review_export ::
    "review_lib \<Rightarrow> settings \<Rightarrow> review_env \<Rightarrow> string \<Rightarrow> string \<Rightarrow> audit_log \<Rightarrow> directory \<Rightarrow> review_state \<Rightarrow>
     review_state \<times> (string list \<times> nat) res" where
  "review_export R S E i out L dy s =
     (let exporter = (case re_user E of None \<Rightarrow> ''operator'' | Some u \<Rightarrow> u); path = path_join out (i @ ''.zip'')
      in case export_pack R S E i exporter s of
           Inr (pack, m) \<Rightarrow>
             (let s1 = s\<lparr>rv_files := AList.update path pack (rv_files s)\<rparr>
              in case review_record R E L dy (exported_entry exporter i path (length pack) (em_sha256 m)) (rv_audit s1) of
                   Inl e \<Rightarrow> (s1, Inl e)
                 | Inr a \<Rightarrow> (s1\<lparr>rv_audit := a\<rparr>, Inr ([''wrote '' @ path], 0)))
         | Inl (ExportRefused msg) \<Rightarrow>
             (case review_record R E L dy (export_refused_entry exporter i msg) (rv_audit s) of
                Inl e \<Rightarrow> (s, Inl e)
              | Inr a \<Rightarrow> (s\<lparr>rv_audit := a\<rparr>, Inr ([''refused: '' @ msg], 2)))
         | Inl e \<Rightarrow> (s, Inl e))"

section \<open>The whole command\<close>

definition list_line :: "draft_summary \<Rightarrow> string" where
  "list_line d =
     ds_draft_id d @ ''  '' @ pad_to 22 (draft_kind_str (ds_kind d)) @ '' '' @ ds_created d @ ''  by ''
       @ pad_to 30 (ds_requester d) @ '' '' @ ds_title d"

definition review_main ::
    "review_lib \<Rightarrow> settings \<Rightarrow> review_env \<Rightarrow> review_command \<Rightarrow> review_state \<Rightarrow> review_state \<times> (string list \<times> nat) res" where
  "review_main R S E cmd s =
     (let opened = (\<lambda>run. case dir_init (rl_hashes R) (va_user (rl_valid R)) (se_directory_ttl_seconds S)
                        (re_init_now E) (re_init_file E) of
                      Inl e \<Rightarrow> (s, Inl e)
                    | Inr dy \<Rightarrow> (case review_log S (rv_audit s) of (L, d) \<Rightarrow> run L dy (s\<lparr>rv_audit := d\<rparr>)))
      in case cmd of
           ReviewList status \<Rightarrow> (s, rbind (draft_list status (rv_drafts s)) (\<lambda>ds. Inr (map list_line ds, 0)))
         | ReviewShow i \<Rightarrow> (s, rbind (draft_get i (rv_drafts s)) (\<lambda>d. case d of
               None \<Rightarrow> Inr ([''no draft '' @ i], 1) | Some d \<Rightarrow> Inr ([rl_draft_text R d], 0)))
         | ReviewExport i out \<Rightarrow> opened (review_export R S E i out)
         | ReviewDecide approve i id_token as_upn note_text \<Rightarrow> opened (review_decide R S E approve i id_token as_upn note_text))"

section \<open>Decisions are guarded and recorded\<close>

lemma identity_oidc:
  assumes "se_review_identity_mode S = OidcMode" "approver_identity J S id_token as_upn = Inr upn"
  shows "\<exists>token key claims. id_token = Some token \<and> jl_signing_key J (se_oidc_jwks_url S) token = Inr key \<and>
    jl_decode J token key \<lparr>jo_algorithms = [''RS256'', ''ES256''], jo_audience = se_oidc_audience S,
      jo_issuer = se_oidc_issuer S, jo_require = [''exp'', ''iat'', ''iss'', ''aud''], jo_leeway = 30\<rparr> = Inr claims \<and>
    map_of claims (se_oidc_username_claim S) = Some (JStr upn)"
  using assms
  by (auto simp: approver_identity_def Let_def rbind_Inr_iff given_def decode_options_def
      split: if_splits sum.splits exc.splits dest!: oidc_usernameD)

text \<open>Who may decide a draft: an active person of the approver group who is not its requester.\<close>

definition entitled :: "review_lib \<Rightarrow> settings \<Rightarrow> string option \<Rightarrow> string option \<Rightarrow> user \<Rightarrow> draft \<Rightarrow> bool" where
  "entitled R S id_token as_upn u d \<longleftrightarrow>
     u_active u \<and> u_kind u = Person \<and> APPROVER_GROUP \<in> set (u_groups u) \<and>
     (\<exists>upn. approver_identity (rl_jwt R) S id_token as_upn = Inr upn \<and> names_user upn u) \<and>
     str_lower (d_requester d) \<noteq> str_lower (u_upn u)"

lemma try_decide_cases:
  assumes "dir_inv (rl_hashes R) (va_user (rl_valid R)) dy" and "db_wf db"
    and "try_decide R S E approve i id_token as_upn note_text dy db = ((dy', db'), x)"
  shows "dir_inv (rl_hashes R) (va_user (rl_valid R)) dy' \<and>
    (case x of
       Inl e \<Rightarrow> db' = db
     | Inr (u, d') \<Rightarrow> \<exists>d. draft_get i db = Inr (Some d) \<and> entitled R S id_token as_upn u d \<and>
         draft_decide i (if approve then Approved else Rejected) (u_upn u) note_text (re_decide_now E) db = (db', Inr d'))"
proof (cases "approver_identity (rl_jwt R) S id_token as_upn")
  case (Inl e)
  then show ?thesis using assms(1,3) by (auto simp: try_decide_def)
next
  case (Inr upn)
  obtain dy1 y where y: "dir_require_approver (rl_hashes R) (va_user (rl_valid R)) (re_check_now E) (re_check_file E) upn dy = (dy1, y)"
    by fastforce
  note f = require_approver_facts [OF assms(1) y]
  show ?thesis
  proof (cases y)
    case (Inl e)
    then show ?thesis using assms(3) f(1) y \<open>_ = Inr upn\<close> by (auto simp: try_decide_def)
  next
    case u: (Inr u)
    show ?thesis
    proof (cases "\<exists>d. draft_get i db = Inr (Some d) \<and> str_lower (d_requester d) \<noteq> str_lower (u_upn u)")
      case False
      then show ?thesis using assms(3) f(1) y u Inr by (auto simp: try_decide_def split: sum.splits option.splits if_splits)
    next
      case True
      then obtain d where d: "draft_get i db = Inr (Some d)" "str_lower (d_requester d) \<noteq> str_lower (u_upn u)" by blast
      have en: "entitled R S id_token as_upn u d" using f(2) [OF u] d(2) Inr by (auto simp: entitled_def)
      obtain db1 z where z: "draft_decide i (if approve then Approved else Rejected) (u_upn u) note_text (re_decide_now E) db = (db1, z)"
        by fastforce
      have refused: "db1 = db" if "z = Inl e" for e
        using z that decide_cases [OF assms(2), of i "if approve then Approved else Rejected" "u_upn u" note_text "re_decide_now E"]
        by (auto split: option.splits if_splits)
      show ?thesis
        using assms(3) f(1) y u Inr d en z refused by (auto simp: try_decide_def split: sum.splits)
    qed
  qed
qed

lemma decided_draft:
  assumes "to_draft r = Inr d" "dr_status r = ''pending''" "to_draft (decided_row st who remark t r) = Inr d'"
  shows "d_status d = Pending \<and> d_status d' = st \<and> d_body d' = d_body d \<and> d_content_sha256 d' = d_content_sha256 d \<and>
    (who \<noteq> [] \<longrightarrow> d' = d\<lparr>d_status := st, d_decision := Some \<lparr>de_by = who, de_note = remark, de_at = utc_now t\<rparr>\<rparr>)"
  using assms
  by (cases st) (auto simp: to_draft_def decided_row_def row_decision_def rbind_Inr_iff draft_status_of_def)

section \<open>The record of a decision\<close>

lemma decision_not_rotation: "decision_tool approve \<noteq> ''audit_rotate''"
  by (simp add: decision_tool_def)

lemma good_review_entries:
  "good_call (decided_entry E approve i remark u d v)"
  "good_call (refused_entry E approve i as_upn msg v)"
  "good_call (exported_entry exporter i path n hs v)"
  "good_call (export_refused_entry exporter i msg v)"
  by (simp_all add: good_call_def decided_entry_def refused_entry_def exported_entry_def export_refused_entry_def
      wf_args_def decision_not_rotation)

text \<open>The audit trail that the command shares with the server.\<close>

definition trail :: "review_lib \<Rightarrow> settings \<Rightarrow> dir \<Rightarrow> json list \<Rightarrow> bool" where
  "trail R S d es \<longleftrightarrow> hex_hashes (rl_hashes R) \<and>
     (\<exists>rss h. chain_inv (rl_hashes R) (fst (review_log S d)) d rss h \<and> entries (concat rss) = es)"

lemma review_log_fst: "fst (review_log S d) = fst (review_log S d')"
  by (simp add: review_log_def audit_init_def Let_def)

lemma review_log_trail: "trail R S d es \<Longrightarrow> review_log S d = (fst (review_log S d), d)"
proof -
  assume "trail R S d es"
  then obtain rss h where "chain_inv (rl_hashes R) (fst (review_log S d)) d rss h" by (auto simp: trail_def)
  from inv_has_active [OF this] obtain f where "map_of d (active_name (fst (review_log S d))) = Some f" by blast
  then show ?thesis by (simp add: review_log_def audit_init_def Let_def)
qed

text \<open>A command that writes its record writes exactly one, unless the version cannot be read.\<close>

lemma review_record_step:
  assumes "trail R S d es" "rotates_later (fst (review_log S d)) d (re_world E)" "\<And>v. good_call (entry v)"
  shows "case review_record R E (fst (review_log S d)) dy entry d of
      Inl e \<Rightarrow> True
    | Inr d' \<Rightarrow> \<exists>v x. trail R S d' (es @ [x]) \<and> logs (entry v) x"
proof (cases "dir_version (rl_hashes R) (va_user (rl_valid R)) (re_version_now E) (re_version_file E) dy")
  case (Pair dy' r)
  let ?L = "fst (review_log S d)"
  show ?thesis
  proof (cases r)
    case (Inl e)
    then show ?thesis using Pair by (simp add: review_record_def)
  next
    case (Inr v)
    obtain rss h where inv: "hex_hashes (rl_hashes R)" "chain_inv (rl_hashes R) ?L d rss h" "entries (concat rss) = es"
      using assms(1) by (auto simp: trail_def)
    obtain d' out b rss' h' x where w: "audit_write (rl_hashes R) ?L (entry v) (re_world E) d = Inr (d', out, b)"
        "chain_inv (rl_hashes R) ?L d' rss' h'" "entries (concat rss') = entries (concat rss) @ [x]" "logs (entry v) x"
      using write_logged [OF inv(1,2) assms(3) assms(2)] by blast
    have "trail R S d' (es @ [x])" using inv w(2,3) review_log_fst [of S d d'] by (auto simp: trail_def)
    then show ?thesis using Pair Inr w(1,4) by (auto simp: review_record_def)
  qed
qed


text \<open>The exception of the version after the decision: the draft is decided, and nothing recorded.\<close>

lemma decided_without_record:
  assumes "try_decide R S E approve i id_token as_upn remark dy (rv_drafts s) = ((dy', db), Inr (u, d))"
    and "dir_version (rl_hashes R) (va_user (rl_valid R)) (re_version_now E) (re_version_file E) dy' = (dy'', Inl e)"
  shows "review_decide R S E approve i id_token as_upn remark L dy s = (s\<lparr>rv_drafts := db\<rparr>, Inl e)"
  using assms by (simp add: review_decide_def review_record_def)

section \<open>Witness\<close>

definition example_lib :: review_lib where
  "example_lib = \<lparr>rl_hashes = sum_hashes,
     rl_valid = \<lparr>va_user = simple_user, va_control = (\<lambda>_. Inl ValidationError), va_test = (\<lambda>_. Inl ValidationError),
       va_ticket = (\<lambda>_. Inl ValidationError), va_release = (\<lambda>_. Inl ValidationError),
       va_attestation = (\<lambda>_. Inl ValidationError), va_control_text = c_id, va_ticket_text = k_id\<rparr>,
     rl_jwt = \<lparr>jl_signing_key = (\<lambda>url token. Inr ''key''), jl_decode = (\<lambda>token key opts. Inr [(''upn'', JStr token)])\<rparr>,
     rl_draft_text = d_body, rl_manifest_text = em_sha256, rl_archive = (\<lambda>fs. concat (map snd fs))\<rparr>"

definition example_review_env :: review_env where
  "example_review_env = \<lparr>re_init_now = 5, re_init_file = Some (1, users_bytes True), re_check_now = 6,
     re_check_file = Some (1, users_bytes True), re_version_now = 7, re_version_file = Some (1, users_bytes True),
     re_decide_now = 8,
     re_world = \<lparr>w_uuid = ''a'', w_now = 8, w_rot_sec = 8, w_rot_ns = 0, w_rot_uuid = ''b'', w_rot_now = 8\<rparr>,
     re_user = Some ''ann'', re_data = \<lparr>df_policies = [], df_controls = None, df_tickets = None, df_feed = [], df_attestations = None\<rparr>,
     re_raw = [], re_export_now = 9\<rparr>"

definition example_review_state :: review_state where
  "example_review_state = \<lparr>rv_audit = [(''audit.jsonl'', [])], rv_drafts = [row_for example_draft], rv_files = []\<rparr>"

lemma example_paths: "path_stem (se_audit_log example_settings) = ''audit''" "path_suffix (se_audit_log example_settings) = ''.jsonl''"
  by code_simp+

lemma example_review_log: "review_log example_settings [(''audit.jsonl'', [])] =
    (fst (audit_init ''audit'' ''.jsonl'' ''human-review-cli'' ''k'' 600 False 100 []), [(''audit.jsonl'', [])])"
  unfolding review_log_def example_paths by (simp add: audit_init_def Let_def active_name_def example_settings_def)

lemma example_trail: "trail example_lib example_settings (rv_audit example_review_state) []"
proof -
  have "snd (audit_init ''audit'' ''.jsonl'' ''human-review-cli'' ''k'' 600 False 100 []) = [(''audit.jsonl'', [])]"
    by (simp add: audit_init_def Let_def active_name_def)
  then show ?thesis
    using chain_inv_init [of sum_hashes "''audit''" "''.jsonl''" "''human-review-cli''" "''k''" 600 False 100]
    by (auto simp: trail_def example_lib_def example_review_state_def sum_hashes_hex example_review_log entries_def intro!: exI [of _ "[[]]"])
qed

lemma example_run_decides:
  "\<exists>s' out. review_main example_lib example_settings example_review_env
     (ReviewDecide True (d_draft_id example_draft) (Some ''ann'') None ''fine'') example_review_state = (s', Inr (out, 0))"
proof -
  let ?R = example_lib and ?S = example_settings and ?E = example_review_env and ?s = example_review_state
  have dy: "dir_init (rl_hashes ?R) (va_user (rl_valid ?R)) (se_directory_ttl_seconds ?S) (re_init_now ?E) (re_init_file ?E) = Inr example_snapshot"
    using example_dir_init by (simp add: example_lib_def example_settings_def example_review_env_def example_service_def example_state_def)
  have "map_of (index_users [ann True]) (str_lower (str_strip ''ann'')) = Some (ann True)" "str_lower (str_strip ''ann'') \<noteq> []"
    by code_simp+
  then have "find_user ''ann'' example_snapshot = Inr (ann True)"
    by (simp add: find_user_def Let_def example_snapshot_def ann_def)
  then have a: "dir_require_approver (rl_hashes ?R) (va_user (rl_valid ?R)) (re_check_now ?E) (re_check_file ?E) ''ann'' example_snapshot =
      (example_snapshot, Inr (ann True))"
    by (simp add: dir_require_approver_def dir_require_group_def dir_resolve_def dir_load_def example_review_env_def
        example_snapshot_def ann_def)
  have i: "approver_identity (rl_jwt ?R) ?S (Some ''ann'') None = Inr ''ann''"
    by (simp add: approver_identity_def given_def example_lib_def example_settings_def oidc_validate_def missing_settings_def
        oidc_username_def Let_def)
  have r: "row_of (rv_drafts ?s) (d_draft_id example_draft) = Some (row_for example_draft)"
    by (simp add: row_of_def example_review_state_def row_for_def)
  have d: "draft_get (d_draft_id example_draft) (rv_drafts ?s) = Inr (Some example_draft)"
  proof -
    have "d_decision example_draft = None" by (simp add: example_draft_def new_draft_def)
    from to_draft_row_for [OF this] show ?thesis using r by (simp add: draft_get_def)
  qed
  have "d_requester example_draft = ''a@x''" "u_upn (ann True) = ''ann@x''"
    by (simp_all add: example_draft_def new_draft_def ann_def)
  then have req: "str_lower (d_requester example_draft) \<noteq> str_lower (u_upn (ann True))" by (simp add: str_lower_def)
  have "dr_status (row_for example_draft) = ''pending''" by (simp add: row_for_def example_draft_def new_draft_def)
  then obtain db x where dec: "draft_decide (d_draft_id example_draft) Approved (u_upn (ann True)) ''fine'' (re_decide_now ?E) (rv_drafts ?s) = (db, Inr x)"
    using decide_cases [of "rv_drafts ?s" "d_draft_id example_draft" Approved "u_upn (ann True)" "''fine''" "re_decide_now ?E"] r
      example_db_wf by (auto simp: example_review_state_def)
  have t: "try_decide ?R ?S ?E True (d_draft_id example_draft) (Some ''ann'') None ''fine'' example_snapshot (rv_drafts ?s) =
      ((example_snapshot, db), Inr (ann True, x))"
    using i a d req dec by (simp add: try_decide_def)
  have v: "dir_version (rl_hashes ?R) (va_user (rl_valid ?R)) (re_version_now ?E) (re_version_file ?E) example_snapshot =
      (example_snapshot, Inr (dy_version example_snapshot))"
    by (simp add: dir_version_def dir_load_def example_review_env_def example_snapshot_def)
  let ?L = "fst (review_log ?S (rv_audit ?s))"
  obtain rss h where inv: "hex_hashes (rl_hashes ?R)" "chain_inv (rl_hashes ?R) ?L (rv_audit ?s) rss h"
    using example_trail by (auto simp: trail_def)
  have "rotates_later ?L (rv_audit ?s) (re_world ?E)"
    by (simp add: rotates_later_def example_review_state_def example_review_log rotated_files_def audit_init_def Let_def active_name_def)
  from write_logged [OF inv good_review_entries(1) this, of ?E True "d_draft_id example_draft" "''fine''" "ann True" x "dy_version example_snapshot"]
  obtain d' out b where "audit_write (rl_hashes ?R) ?L (decided_entry ?E True (d_draft_id example_draft) ''fine'' (ann True) x
      (dy_version example_snapshot)) (re_world ?E) (rv_audit ?s) = Inr (d', out, b)" by blast
  then have "review_record ?R ?E ?L example_snapshot (decided_entry ?E True (d_draft_id example_draft) ''fine'' (ann True) x) (rv_audit ?s) = Inr d'"
    unfolding review_record_def v prod.case sum.case by (simp only: rbind.simps prod.case)
  then have "\<exists>s' out. review_decide ?R ?S ?E True (d_draft_id example_draft) (Some ''ann'') None ''fine'' ?L example_snapshot ?s =
      (s', Inr (out, 0))" by (simp only: review_decide_def t prod.case sum.case) blast
  moreover have "?s\<lparr>rv_audit := rv_audit ?s\<rparr> = ?s" by simp
  moreover obtain L where L: "review_log ?S (rv_audit ?s) = (L, rv_audit ?s)" using review_log_trail [OF example_trail] by blast
  ultimately show ?thesis
    by (simp only: review_main_def Let_def review_command.case dy sum.case L prod.case fst_conv)
qed


end
