(* ===== verification/Admin_Cli.thy ===== *)
theory Admin_Cli
  imports Review_Cli
begin

text \<open>
  The retention purge of admin_cli.py, on the audit directory with the modification times of its
  files and on the table of drafts, with what it keeps and what it does to the verification of
  the chain.
\<close>

section \<open>The purge\<close>

text \<open>\<^verbatim>\<open>strftime("%Y-%m-%dT%H:%M:%SZ")\<close> of a time that may lie before 1970.\<close>

definition iso_stamp :: "int \<Rightarrow> string" where
  "iso_stamp t =
     isoformat (fromordinal (719163 + t div 86400)) @ ''T'' @ clock_text '':'' (nat (t mod 86400)) @ ''Z''"

text \<open>\<^verbatim>\<open>datetime.now(UTC) - timedelta(days=n)\<close> raises outside of the years 1 to 9999.\<close>

definition purge_cutoff :: "rat \<Rightarrow> int \<Rightarrow> rat res" where
  "purge_cutoff now days =
     (let c = now - of_int days * 86400; day = 719163 + \<lfloor>c\<rfloor> div 86400
      in if 999999999 < \<bar>days\<bar> \<or> day < 1 \<or> 3652059 < day then Inl (ValueError ''date value out of range'') else Inr c)"

definition past_retention :: "string \<Rightarrow> draft_row \<Rightarrow> bool" where
  "past_retention cutoff r \<longleftrightarrow> dr_status r \<noteq> ''pending'' \<and>
     (case dr_decision_at r of None \<Rightarrow> False | Some decided \<Rightarrow> decided < cutoff)"

definition purge_drafts :: "string \<Rightarrow> drafts_db \<Rightarrow> nat \<times> drafts_db" where
  "purge_drafts cutoff db = (length (filter (past_retention cutoff) db), filter (\<lambda>r. \<not> past_retention cutoff r) db)"

definition old_files :: "audit_log \<Rightarrow> dir \<Rightarrow> (string \<Rightarrow> rat) \<Rightarrow> rat \<Rightarrow> string list" where
  "old_files L d mtime cutoff = filter (\<lambda>n. mtime n < cutoff) (butlast (chain_files L d))"

definition unlink_all :: "string list \<Rightarrow> dir \<Rightarrow> dir" where
  "unlink_all ns d = fold AList.delete ns d"

definition admin_log :: "settings \<Rightarrow> dir \<Rightarrow> audit_log \<times> dir" where
  "admin_log S d =
     audit_init (path_stem (se_audit_log S)) (path_suffix (se_audit_log S)) ''compliance-admin'' (se_audit_hmac_key S)
       50000000 False 100 d"

definition purge_text :: "nat \<Rightarrow> nat \<Rightarrow> int \<Rightarrow> string" where
  "purge_text drafts files days =
     nat_str drafts @ '' decided draft(s) and '' @ nat_str files @ '' rotated audit file(s) older than '' @ int_str days @ '' days''"

definition purge_entry :: "int \<Rightarrow> string \<Rightarrow> nat \<Rightarrow> string list \<Rightarrow> write_args" where
  "purge_entry days cutoff drafts files =
     \<lparr>wa_requester = ''operator'', wa_tool = ''retention_purge'',
       wa_args = [(''older_than_days'', JInt days), (''cutoff'', JStr cutoff), (''files'', JArr (map JStr files))],
       wa_outcome = ''ok'',
       wa_summary = ''purged '' @ nat_str drafts @ '' draft(s) and '' @ nat_str (length files)
         @ '' rotated audit file(s) older than '' @ int_str days @ '' days'',
       wa_session = [], wa_dirver = []\<rparr>"

definition purge ::
    "hashes \<Rightarrow> settings \<Rightarrow> int \<Rightarrow> bool \<Rightarrow> rat \<Rightarrow> (string \<Rightarrow> rat) \<Rightarrow> world \<Rightarrow> dir \<Rightarrow> drafts_db \<Rightarrow>
     (dir \<times> drafts_db) \<times> string res" where
  "purge H S days apply now mtime w d db =
     (case purge_cutoff now days of
        Inl e \<Rightarrow> ((d, db), Inl e)
      | Inr cutoff \<Rightarrow>
          (let stamp = iso_stamp \<lfloor>cutoff\<rfloor>; (n, db') = purge_drafts stamp db;
               files = old_files (fst (admin_log S d)) d mtime cutoff
           in if apply
              then (case admin_log S (unlink_all files d) of
                      (L, d1) \<Rightarrow>
                        (case audit_write H L (purge_entry days stamp n files) w d1 of
                           Inl e \<Rightarrow> ((d1, db'), Inl e)
                         | Inr (d2, out, b) \<Rightarrow> ((d2, db'), Inr (''purged '' @ purge_text n (length files) days
                             @ '' (cutoff '' @ stamp @ '')''))))
              else ((d, db), Inr (''would purge '' @ purge_text n (length files) days @ '' (cutoff '' @ stamp @ '')''))))"

section \<open>What it keeps\<close>

declare map_of_eq_Some_iff [simp del] Some_eq_map_of_iff [simp del]

lemma unlink_lookup: "map_of (unlink_all ns d) k = (if k \<in> set ns then None else map_of d k)"
  unfolding unlink_all_def by (induction ns arbitrary: d) (auto simp: delete_conv)


section \<open>Verification after a purge\<close>

lemma map_fst_delete: "map fst (AList.delete k d) = filter (\<lambda>x. x \<noteq> k) (map fst d)"
  by (induction d) (auto simp: AList.delete_eq)

lemma map_fst_unlink: "map fst (unlink_all ns d) = filter (\<lambda>x. x \<notin> set ns) (map fst d)"
  unfolding unlink_all_def by (induction ns arbitrary: d) (simp_all add: map_fst_delete conj_commute)

lemma chain_files_unlink: "chain_files L (unlink_all ns d) = filter (\<lambda>n. n \<notin> set ns) (chain_files L d)"
proof -
  have "rotated_files L (unlink_all ns d) = filter (\<lambda>n. n \<notin> set ns) (rotated_files L d)"
    by (simp add: rotated_files_def map_fst_unlink filter_sort conj_commute conj_left_commute)
  moreover have "map_of (unlink_all ns d) (active_name L) = (if active_name L \<in> set ns then None else map_of d (active_name L))"
    by (rule unlink_lookup)
  ultimately show ?thesis by (auto simp: chain_files_def split: option.splits)
qed

text \<open>A record that does not link to the genesis hash cannot be the first of a chain.\<close>

lemma verify_wrong_start:
  assumes "chain_files L d = n # ns" "map_of d n = Some f" "holds f (r # rs)" "jget r ''prev_hash'' \<noteq> Some (JStr GENESIS)"
    "r = JObj ms"
  shows "verify H L key d = Inr (failure 0 (length (n # ns)) GENESIS n 1 ''chain broken (prev_hash mismatch)'')"
proof -
  obtain ls where ls: "file_lines f = ls" "list_all2 carries ls (r # rs)" using assms(3) by (rule file_lines_holds)
  then obtain l ls' where l: "ls = l # ls'" "carries l r" by (auto simp: list_all2_Cons2)
  have "check_record H key GENESIS r = Inr (Bad ''chain broken (prev_hash mismatch)'')"
    using assms(4,5) by (simp add: check_record_def)
  then have "verify_lines H key k n 1 ls GENESIS 0 = Inr (Inl (failure 0 k GENESIS n 1 ''chain broken (prev_hash mismatch)''))" for k
    using l by (auto simp: carries_def)
  then show ?thesis using assms(1,2) ls(1) by (simp add: verify_def Let_def)
qed

text \<open>
  Deleting the oldest rotated file of an intact log makes \<^verbatim>\<open>verify\<close> fail: it starts at the
  genesis hash, and the first record that is left links to the purged file. The chain is not
  verifiable from the purge point on, as the purge command's description says it is.
\<close>

theorem purge_breaks_verify:
  assumes "chain_inv H L d (rs0 # (r # rs) # rss) h" and "rs0 \<noteq> []" and "GENESIS \<notin> range (sha256 H)"
    and "old_files L d mtime cutoff = [hd (chain_files L d)]"
  shows "\<exists>n v. verify H L (al_hmac_key L) (unlink_all (old_files L d mtime cutoff) d) = Inr v \<and> \<not> vr_ok v \<and>
    vr_records v = 0 \<and> vr_message v = n @ '':1: chain broken (prev_hash mismatch)''"
proof -
  have dist: "distinct (map fst d)" and dh: "dir_holds L d (rs0 # (r # rs) # rss)"
    and sc: "scan_recs H (al_hmac_key L) (concat (rs0 # (r # rs) # rss)) GENESIS = Some h"
    using assms(1) by (simp_all add: chain_inv_def)
  obtain n0 n ns f where files: "chain_files L d = n0 # n # ns" "map_of d n = Some f" "holds f (r # rs)"
    using dh by (auto simp: dir_holds_def list_all2_Cons2)
  obtain g where g: "scan_recs H (al_hmac_key L) rs0 GENESIS = Some g" "scan_recs H (al_hmac_key L) ((r # rs) @ concat rss) g = Some h"
    using sc by (auto simp: scan_recs_append split: option.splits)
  have "rs0 = butlast rs0 @ [last rs0]" using assms(2) by simp
  then have "scan_recs H (al_hmac_key L) (butlast rs0 @ [last rs0]) GENESIS = Some g" using g(1) by simp
  then obtain p where "check_record H (al_hmac_key L) p (last rs0) = Inr (Good g)"
    by (auto simp: scan_recs_append split: option.splits sum.splits check.splits)
  then have "g = digest H (unsealed (last rs0))" by (simp add: check_record_Good)
  then have ne: "g \<noteq> GENESIS" using assms(3) unfolding digest_def by (metis rangeI)
  obtain h' where "check_record H (al_hmac_key L) g r = Inr (Good h')"
    using g(2) by (auto split: sum.splits check.splits)
  then obtain ms where r: "r = JObj ms" "jget r ''prev_hash'' = Some (JStr g)" by (auto simp: check_record_Good)
  have old: "old_files L d mtime cutoff = [n0]" using assms(4) files(1) by simp
  have "distinct (chain_files L d)"
    using rotated_files_sorted [OF dist, of L] active_not_rotated [of L d] by (auto simp: chain_files_def split: option.splits)
  then have rest: "chain_files L (unlink_all [n0] d) = n # ns" "n \<noteq> n0"
    unfolding chain_files_unlink using files(1) by (auto intro!: filter_True)
  have "map_of (unlink_all [n0] d) n = Some f" unfolding unlink_lookup using rest(2) files(2) by simp
  from verify_wrong_start [OF rest(1) this files(3) _ r(1), of H "al_hmac_key L"] ne r(2) old
  show ?thesis by (auto simp: failure_def nat_str.simps digit_char_def char_of_eq_iff)
qed

section \<open>Witnesses\<close>

definition example_admin_log :: audit_log where
  "example_admin_log = fst (audit_init ''audit'' ''.jsonl'' ''agent'' ''k'' 600 False 100 [])"

definition example_world :: world where
  "example_world = \<lparr>w_uuid = ''a'', w_now = 8, w_rot_sec = 8, w_rot_ns = 0, w_rot_uuid = ''b'', w_rot_now = 8\<rparr>"

text \<open>A log that was rotated once after one record.\<close>

lemma example_rotated:
  "\<exists>d r m h. chain_inv sum_hashes example_admin_log d ([r] # (m # []) # []) h \<and>
    chain_files example_admin_log d = [rotated_name example_admin_log example_world, active_name example_admin_log]"
proof -
  let ?L = example_admin_log and ?H = sum_hashes and ?w = example_world
  let ?a = "\<lparr>wa_requester = [], wa_tool = [], wa_args = [], wa_outcome = [], wa_summary = [], wa_session = [], wa_dirver = []\<rparr>"
  let ?d = "snd (audit_init ''audit'' ''.jsonl'' ''agent'' ''k'' 600 False 100 [])"
  have inv: "chain_inv ?H ?L ?d [[]] GENESIS" unfolding example_admin_log_def by (rule chain_inv_init)
  obtain f where f: "map_of ?d (active_name ?L) = Some f" using inv_has_active [OF inv] by blast
  let ?b = "record_body ?L ?a ?w 1 (JStr GENESIS)"
  have gb: "good_body GENESIS ?b" by (rule good_record_body) (simp add: wf_args_def)
  have seq: "map_of (seal ?H (al_hmac_key ?L) ?b) ''seq'' = Some (JInt 1)"
    by (rule map_of_seal) (simp add: record_body_def)
  let ?r = "sort_json (JObj (seal ?H (al_hmac_key ?L) ?b))"
  let ?d1 = "AList.update (active_name ?L) (f @ utf8 (dumps spaced ?r) @ [nl]) ?d"
  have inv1: "chain_inv ?H ?L ?d1 [[?r]] (digest ?H (JObj ?b))"
    using inv_append [OF sum_hashes_hex inv gb f, of spaced] by simp
  have late: "rotates_later ?L ?d1 ?w"
    by (simp add: rotates_later_def example_admin_log_def audit_init_def Let_def rotated_files_def active_name_def)
  obtain d' where d': "chain_inv ?H ?L d' ([[?r]] @ [[marker_of ?H ?L ?w (digest ?H (JObj ?b))]])
      (digest ?H (JObj (marker_body ?L ?w (JStr (digest ?H (JObj ?b))))))"
      "rotated_files ?L d' = rotated_files ?L ?d1 @ [rotated_name ?L ?w]"
    using inv_rotate [OF sum_hashes_hex inv1 late] by blast
  have "rotated_files ?L ?d1 = []"
    by (simp add: example_admin_log_def audit_init_def Let_def rotated_files_def active_name_def)
  then have "chain_files ?L d' = [rotated_name ?L ?w, active_name ?L]"
    using d' chain_files_active [of ?L d'] by (simp add: chain_inv_def)
  then show ?thesis using d'(1) by auto
qed

lemma sum_hash_not_genesis: "GENESIS \<notin> range (sha256 sum_hashes)"
proof
  assume "GENESIS \<in> range (sha256 sum_hashes)"
  then obtain n where n: "GENESIS = nat_str n" by (auto simp: sum_hashes_def)
  have "digits_val GENESIS = 0" by code_simp
  then have "n = 0" using n digits_val_nat_str by metis
  then have "length GENESIS = length (nat_str 0)" using n by metis
  then show False by (simp add: GENESIS_def nat_str.simps [of 0])
qed

lemma purge_breaks_verify_witness:
  "\<exists>d v. verify sum_hashes example_admin_log (al_hmac_key example_admin_log) d = Inr v \<and> \<not> vr_ok v \<and> vr_records v = 0"
proof -
  obtain d r m h where d: "chain_inv sum_hashes example_admin_log d ([r] # (m # []) # []) h"
      "chain_files example_admin_log d = [rotated_name example_admin_log example_world, active_name example_admin_log]"
    using example_rotated by blast
  have "old_files example_admin_log d (\<lambda>_. 0) 1 = [hd (chain_files example_admin_log d)]" by (simp add: old_files_def d(2))
  from purge_breaks_verify [OF d(1) _ sum_hash_not_genesis this] show ?thesis by auto
qed


end
