(* ===== verification/Feed_Fetcher.thy ===== *)
theory Feed_Fetcher
  imports Settings Store Draft_Checks Json_Indent Audit_Tamper
begin

text \<open>
  The feed fetcher of feed_fetcher.py: the host check before a request, the extraction of
  releases from RSS and Atom, and the merge into the cache that never overwrites a release. The
  XML and date parsers, the table of HTML entities and the HTTP client are arguments.
\<close>

named_theorems feed_defs \<open>definitions of the feed fetcher\<close>

section \<open>The libraries\<close>

text \<open>An element: its tag, attributes, text, children, and the text after it.\<close>

datatype xml = Elem (xml_tag: string) (xml_attrs: "(string \<times> string) list") (xml_text: "string option")
  (xml_children: "xml list") (xml_tail: "string option")

record feed_lib =
  fl_hashes :: hashes
  fl_xml :: "string \<Rightarrow> xml res"           \<comment> \<open>\<^verbatim>\<open>ET.fromstring\<close>\<close>
  fl_unescape :: "string \<Rightarrow> string"        \<comment> \<open>\<^verbatim>\<open>html.unescape\<close>\<close>
  fl_rfc2822 :: "string \<Rightarrow> int res"        \<comment> \<open>\<^verbatim>\<open>parsedate_to_datetime(raw).astimezone(UTC)\<close>, in seconds\<close>
  fl_iso8601 :: "string \<Rightarrow> int res"        \<comment> \<open>\<^verbatim>\<open>datetime.fromisoformat(raw).astimezone(UTC)\<close>\<close>
  fl_get :: "string \<Rightarrow> string res"         \<comment> \<open>\<^verbatim>\<open>httpx.get\<close> without redirects, \<^verbatim>\<open>raise_for_status\<close>, \<^verbatim>\<open>text\<close>\<close>
  fl_ip :: "string \<Rightarrow> bool"                \<comment> \<open>whether a bracketed host is an IP literal\<close>

section \<open>The host of a URL\<close>

definition allowed_hosts :: "string list" where
  "allowed_hosts = [''www.sec.gov'', ''sec.gov'', ''www.finra.org'', ''finra.org'', ''www.fca.org.uk'', ''fca.org.uk'']"

definition scheme_char :: "char \<Rightarrow> bool" where
  [feed_defs]: "scheme_char c \<longleftrightarrow> (65 \<le> ord c \<and> ord c \<le> 90) \<or> (97 \<le> ord c \<and> ord c \<le> (122 :: nat)) \<or> is_digit c
     \<or> c \<in> {CHR ''+'', CHR ''-'', CHR ''.''}"

definition ascii_letter :: "char \<Rightarrow> bool" where
  [feed_defs]: "ascii_letter c \<longleftrightarrow> (65 \<le> ord c \<and> ord c \<le> 90) \<or> (97 \<le> ord c \<and> ord c \<le> (122 :: nat))"

text \<open>\<^verbatim>\<open>urlsplit\<close>: leading control characters, tabs and line ends go, then the scheme, then the authority.\<close>

definition after_scheme :: "string \<Rightarrow> string" where
  [feed_defs]: "after_scheme url =
     (let pre = takeWhile (\<lambda>c. c \<noteq> CHR '':'') url
      in if pre \<noteq> url \<and> pre \<noteq> [] \<and> ascii_letter (hd pre) \<and> list_all scheme_char pre
         then drop (length pre + 1) url else url)"

definition authority :: "string \<Rightarrow> string" where
  [feed_defs]: "authority url =
     (let u = after_scheme (filter (\<lambda>c. ord c \<notin> {9, 10, 13 :: nat}) (dropWhile (\<lambda>c. ord c \<le> (32 :: nat)) url))
      in if take 2 u = ''//'' then takeWhile (\<lambda>c. c \<notin> {CHR ''/'', CHR ''?'', CHR ''#''}) (drop 2 u) else [])"

text \<open>The host: after the last \<^verbatim>\<open>@\<close>, in brackets or before the colon, in lower case up to a zone.\<close>

definition host_of :: "(string \<Rightarrow> bool) \<Rightarrow> string \<Rightarrow> string res" where
  [feed_defs]: "host_of ip netloc =
     (let info = rev (takeWhile (\<lambda>c. c \<noteq> CHR ''@'') (rev netloc));
          lower = (\<lambda>h. str_lower (takeWhile (\<lambda>c. c \<noteq> CHR ''%'') h) @ dropWhile (\<lambda>c. c \<noteq> CHR ''%'') h)
      in if (CHR ''['' \<in> set netloc) \<noteq> (CHR '']'' \<in> set netloc) then Inl (ValueError ''Invalid IPv6 URL'')
         else if CHR ''['' \<in> set netloc
         then (let h = takeWhile (\<lambda>c. c \<noteq> CHR '']'') (tl (dropWhile (\<lambda>c. c \<noteq> CHR ''['') info))
               in if ip h then Inr (lower h) else Inl (ValueError ''not an IP literal''))
         else Inr (lower (takeWhile (\<lambda>c. c \<noteq> CHR '':'') info)))"

definition url_hostname :: "(string \<Rightarrow> bool) \<Rightarrow> string \<Rightarrow> string res" where
  [feed_defs]: "url_hostname ip url = host_of ip (authority url)"

text \<open>\<^verbatim>\<open>fetch_xml\<close>: the requests made, and the result.\<close>

definition fetch_xml :: "feed_lib \<Rightarrow> string \<Rightarrow> string list \<times> string res" where
  "fetch_xml F url =
     (case url_hostname (fl_ip F) url of
        Inl e \<Rightarrow> ([], Inl e)
      | Inr host \<Rightarrow>
          if str_lower host \<notin> set allowed_hosts
          then ([], Inl (FeedRefused (''host '' @ single_quoted host @ '' is not on the regulator allowlist'')))
          else ([url], fl_get F url))"

section \<open>Reading a feed\<close>

definition opt_text :: "string option \<Rightarrow> string" where
  [feed_defs]: "opt_text t = (case t of None \<Rightarrow> [] | Some s \<Rightarrow> s)"

fun itertext :: "xml \<Rightarrow> string" where
  "itertext (Elem tag attrs txt cs after) = opt_text txt @ concat (map (\<lambda>c. itertext c @ opt_text (xml_tail c)) cs)"

definition tags_rx :: rx where
  "tags_rx = rx_cats [rx_chr (CHR ''<''), rx_plus True (Cls (\<lambda>c. c \<noteq> CHR ''>'')), rx_chr (CHR ''>'')]"

definition text_of :: "feed_lib \<Rightarrow> xml option \<Rightarrow> string" where
  "text_of F node =
     (case node of None \<Rightarrow> []
      | Some n \<Rightarrow>
          (let raw = (case xml_text n of None \<Rightarrow> itertext n | Some t \<Rightarrow> t)
           in str_strip (fl_unescape F (rx_sub tags_rx '' '' raw))))"

definition normalise_ws :: "string \<Rightarrow> string" where
  "normalise_ws text = str_strip (rx_sub (rx_plus True rx_space) '' '' text)"

definition iso_day :: "int \<Rightarrow> string" where
  "iso_day t = isoformat (fromordinal (719163 + t div 86400))"

definition replace_Z :: "string \<Rightarrow> string" where
  "replace_Z s = concat (map (\<lambda>c. if c = CHR ''Z'' then ''+00:00'' else [c]) s)"

text \<open>\<^verbatim>\<open>_iso_date\<close>; \<open>now\<close> is the clock, which a missing date is replaced by.\<close>

definition iso_date :: "feed_lib \<Rightarrow> int \<Rightarrow> string \<Rightarrow> string res" where
  "iso_date F now raw =
     (if raw = [] then Inr (iso_day now)
      else case fl_rfc2822 F raw of
             Inr t \<Rightarrow> Inr (iso_day t)
           | Inl e \<Rightarrow> (if (case e of TypeError \<Rightarrow> True | ValueError _ \<Rightarrow> True | _ \<Rightarrow> False)
                      then rbind (fl_iso8601 F (replace_Z raw)) (\<lambda>t. Inr (iso_day t)) else Inl e))"

definition atom_ns :: string where
  "atom_ns = ''{http://www.w3.org/2005/Atom}''"

fun descendants :: "string \<Rightarrow> xml \<Rightarrow> xml list" where
  "descendants tag (Elem _ _ _ cs _) = concat (map (\<lambda>c. (if xml_tag c = tag then [c] else []) @ descendants tag c) cs)"

definition child :: "xml \<Rightarrow> string \<Rightarrow> xml option" where
  "child n tag = find (\<lambda>c. xml_tag c = tag) (xml_children n)"

definition first_text :: "string \<Rightarrow> string \<Rightarrow> string" where
  "first_text a b = (if a = [] then b else a)"

definition release_id_of :: "hashes \<Rightarrow> string \<Rightarrow> string \<Rightarrow> string \<Rightarrow> string \<Rightarrow> string" where
  "release_id_of H src published title text =
     src @ ''-'' @ str_remove (CHR ''-'') published @ ''-'' @ take 8 (sha256 H (utf8 (title @ [nl] @ text)))"

text \<open>One item: \<open>None\<close> when it has no title or no text.\<close>

definition parse_item :: "feed_lib \<Rightarrow> int \<Rightarrow> string \<Rightarrow> xml \<Rightarrow> release option res" where
  "parse_item F now src item =
     (let atom = str_startswith (xml_tag item) atom_ns; t = (\<lambda>tag. text_of F (child item tag));
          title = t (if atom then atom_ns @ ''title'' else ''title'');
          url = (if atom
                 then (case child item (atom_ns @ ''link'') of None \<Rightarrow> []
                       | Some l \<Rightarrow> (case map_of (xml_attrs l) ''href'' of None \<Rightarrow> [] | Some h \<Rightarrow> h))
                 else t ''link'');
          date = (if atom then first_text (t (atom_ns @ ''updated'')) (t (atom_ns @ ''published'')) else t ''pubDate'');
          body = (if atom then first_text (t (atom_ns @ ''content'')) (t (atom_ns @ ''summary''))
                  else first_text (t ''{http://purl.org/rss/1.0/modules/content/}encoded'') (t ''description''))
      in rbind (iso_date F now date) (\<lambda>published.
           let text = normalise_ws body
           in if title = [] \<or> text = [] then Inr None
              else Inr (Some \<lparr>r_id = release_id_of (fl_hashes F) src published title text, r_source = src,
                     r_published = published, r_title = normalise_ws title, r_url = url, r_text = text\<rparr>)))"

definition parse_feed :: "feed_lib \<Rightarrow> int \<Rightarrow> string \<Rightarrow> string \<Rightarrow> release list res" where
  "parse_feed F now src doc_text =
     rbind (fl_xml F doc_text) (\<lambda>doc.
       let items = (case descendants ''item'' doc of [] \<Rightarrow> descendants (atom_ns @ ''entry'') doc | is \<Rightarrow> is)
       in rbind (mapM (parse_item F now src) items) (\<lambda>rs. Inr (concat (map (\<lambda>r. case r of None \<Rightarrow> [] | Some x \<Rightarrow> [x]) rs))))"

section \<open>The cache\<close>

definition release_json :: "release \<Rightarrow> json" where
  "release_json r =
     JObj [(''release_id'', JStr (r_id r)), (''source'', JStr (r_source r)), (''published'', JStr (r_published r)),
       (''title'', JStr (r_title r)), (''url'', JStr (r_url r)), (''text'', JStr (r_text r))]"

fun hashable :: "json \<Rightarrow> bool" where
  "hashable (JArr _) = False"
| "hashable (JObj _) = False"
| "hashable _ = True"

definition known_ids :: "json list \<Rightarrow> json list res" where
  "known_ids rs = mapM (\<lambda>r. rbind (jindex r ''release_id'') (\<lambda>v. if hashable v then Inr v else Inl TypeError)) rs"

text \<open>The releases already in the cache; anything but a list of objects makes the merge raise.\<close>

definition cached :: "string option \<Rightarrow> json list res" where
  "cached file =
     (case file of None \<Rightarrow> Inr []
      | Some raw \<Rightarrow> rbind (load_json raw) (\<lambda>j.
          case j of
            JObj ms \<Rightarrow> (case map_of ms ''releases'' of None \<Rightarrow> Inr [] | Some (JArr rs) \<Rightarrow> Inr rs | Some _ \<Rightarrow> Inl TypeError)
          | _ \<Rightarrow> Inl TypeError))"

definition cache_text :: "string \<Rightarrow> nat \<Rightarrow> json list \<Rightarrow> string" where
  "cache_text src now rs =
     utf8 (dumps_indent False (JObj [(''source'', JStr src), (''fetched'', JStr (utc_now now)), (''releases'', JArr rs)]) @ [nl])"

definition merge_into_cache :: "string option \<Rightarrow> string \<Rightarrow> release list \<Rightarrow> nat \<Rightarrow> (string \<times> nat \<times> nat) res" where
  "merge_into_cache file src releases now =
     rbind (cached file) (\<lambda>existing.
     rbind (known_ids existing) (\<lambda>known.
       let added = map release_json (filter (\<lambda>r. JStr (r_id r) \<notin> set known) releases)
       in Inr (cache_text src now (existing @ added), length added, length existing)))"

text \<open>\<^verbatim>\<open>main\<close>: the cache directory afterwards, and the line printed with the exit status.\<close>

datatype feed_source =
  FromUrl string
| FromFile "string option"   \<comment> \<open>the bytes of the file, if it exists\<close>

definition feed_main ::
    "feed_lib \<Rightarrow> string \<Rightarrow> feed_source \<Rightarrow> nat \<Rightarrow> dir \<Rightarrow> dir \<times> (string \<times> nat) res" where
  "feed_main F src origin now cache =
     (let name = str_lower src @ ''.json'';
          text = (case origin of
              FromFile None \<Rightarrow> Inl OSError
            | FromFile (Some f) \<Rightarrow> rbind (utf8_decode f) (\<lambda>t. Inr (univ_newlines t))
            | FromUrl url \<Rightarrow> snd (fetch_xml F url))
      in case text of
           Inl (FeedRefused m) \<Rightarrow> (cache, Inr (''refused: '' @ m, 2))
         | Inl e \<Rightarrow> (cache, Inl e)
         | Inr doc_text \<Rightarrow>
             (case rbind (parse_feed F (int now) (str_upper src) doc_text) (\<lambda>rs.
                     rbind (merge_into_cache (map_of cache name) (str_upper src) rs now) (\<lambda>m. Inr (length rs, m))) of
                Inl e \<Rightarrow> (cache, Inl e)
              | Inr (parsed, content, added, kept) \<Rightarrow>
                  (AList.update name content cache,
                   Inr (str_upper src @ '': '' @ nat_str parsed @ '' parsed, '' @ nat_str added @ '' new, ''
                     @ nat_str kept @ '' already cached'', 0))))"

section \<open>Where requests go\<close>

declare map_of_eq_Some_iff [simp del] Some_eq_map_of_iff [simp del]

text \<open>
  A request is only ever made to a URL whose host is on the allowlist, exactly one, and
  for any other URL the fetch is refused or the URL is malformed, before a request.
\<close>

theorem requests_allowed:
  "case fetch_xml F url of (requests, r) \<Rightarrow>
     (\<exists>host. url_hostname (fl_ip F) url = Inr host \<and> str_lower host \<in> set allowed_hosts \<and> requests = [url] \<and> r = fl_get F url) \<or>
     (requests = [] \<and> (\<exists>m. r = Inl (FeedRefused m) \<or> r = Inl (ValueError m)))"
  by (auto simp: fetch_xml_def url_hostname_def host_of_def Let_def split: sum.splits if_splits)

section \<open>The merge\<close>

lemma known_ids_total:
  "is_ok (known_ids rs) \<Longrightarrow> known_ids rs = Inr (map (\<lambda>r. projr (jindex r ''release_id'')) rs)"
  unfolding known_ids_def
  by (induction rs) (auto simp: exc_simps split: if_splits)

lemma release_id_json [simp]: "jindex (release_json r) ''release_id'' = Inr (JStr (r_id r))"
  by (simp add: release_json_def)

lemma known_ids_append:
  "known_ids es = Inr ks \<Longrightarrow> known_ids (es @ map release_json rs) = Inr (ks @ map (\<lambda>r. JStr (r_id r)) rs)"
  unfolding known_ids_def
proof (induction es arbitrary: ks)
  case Nil
  then show ?case by (induction rs) auto
next
  case (Cons e es)
  then show ?case by (auto simp: exc_simps split: if_splits)
qed

lemma wf_release_json [simp]: "wf_json (release_json r)"
  by (simp add: release_json_def)

text \<open>What is written is read back.\<close>

lemma cached_cache_text:
  assumes "\<forall>r \<in> set rs. wf_json r"
  shows "cached (Some (cache_text src now rs)) = Inr rs"
proof -
  let ?j = "JObj [(''source'', JStr src), (''fetched'', JStr (utc_now now)), (''releases'', JArr rs)]"
  have "wf_json ?j" using assms by simp
  then have "loads (dumps_indent False ?j @ [nl]) = Inr ?j" by (rule loads_dumps_indent) (simp add: is_jws_def)
  moreover have "univ_newlines (dumps_indent False ?j @ [nl]) = dumps_indent False ?j @ [nl]"
    using dumps_indent_no_cr [of False ?j] by (intro univ_newlines_id) simp
  ultimately show ?thesis by (simp add: cached_def load_json_def cache_text_def)
qed

lemma cached_wf: "cached file = Inr rs \<Longrightarrow> \<forall>r \<in> set rs. wf_json r"
proof -
  assume c: "cached file = Inr rs"
  show ?thesis
  proof (cases "file")
    case (Some raw)
    then obtain j where j: "load_json raw = Inr j"
        "(case j of JObj ms \<Rightarrow> (case map_of ms ''releases'' of None \<Rightarrow> Inr [] | Some (JArr rs) \<Rightarrow> Inr rs | Some _ \<Rightarrow> Inl TypeError)
          | _ \<Rightarrow> Inl TypeError) = (Inr rs :: json list res)"
      using c by (auto simp: cached_def rbind_Inr_iff)
    then have wf: "wf_json j" using loads_wf by (auto simp: load_json_def rbind_Inr_iff)
    obtain ms where ms: "j = JObj ms" using j(2) by (cases j) auto
    show ?thesis
    proof (cases "map_of ms ''releases''")
      case None
      then show ?thesis using j(2) ms by simp
    next
      case (Some v)
      then have "v = JArr rs" using j(2) ms by (cases v) auto
      moreover have "v \<in> snd ` set ms" using map_of_SomeD [OF Some] by force
      then have "wf_json v" using wf ms by (metis wf_json.simps(2))
      ultimately show ?thesis by simp
    qed
  qed (use c in \<open>simp add: cached_def\<close>)
qed

text \<open>
  The merge only appends: every release in the cache stays, unchanged and in place, the
  releases with an id not seen before follow in order, and the file that is written is read back
  as exactly that list. Merging the same feed again, at any later time, adds nothing.
\<close>

theorem merge_appends_once:
  assumes "merge_into_cache file src rs now = Inr (content, added, kept)"
  shows "\<exists>old ids. cached file = Inr old \<and> known_ids old = Inr ids \<and>
    (let new = filter (\<lambda>r. JStr (r_id r) \<notin> set ids) rs
     in cached (Some content) = Inr (old @ map release_json new) \<and> added = length new \<and> kept = length old \<and>
        (\<exists>content'. merge_into_cache (Some content) src rs later = Inr (content', 0, kept + added)))"
proof -
  obtain old ids where o: "cached file = Inr old" "known_ids old = Inr ids"
      "content = cache_text src now (old @ map release_json (filter (\<lambda>r. JStr (r_id r) \<notin> set ids) rs))"
      "added = length (filter (\<lambda>r. JStr (r_id r) \<notin> set ids) rs)" "kept = length old"
    using assms by (auto simp: merge_into_cache_def rbind_Inr_iff Let_def)
  let ?new = "filter (\<lambda>r. JStr (r_id r) \<notin> set ids) rs"
  have wf: "\<forall>r \<in> set (old @ map release_json ?new). wf_json r" using cached_wf [OF o(1)] by auto
  have read: "cached (Some content) = Inr (old @ map release_json ?new)" unfolding o(3) by (rule cached_cache_text [OF wf])
  have ids: "known_ids (old @ map release_json ?new) = Inr (ids @ map (\<lambda>r. JStr (r_id r)) ?new)"
    by (rule known_ids_append [OF o(2)])
  have "filter (\<lambda>r. JStr (r_id r) \<notin> set (ids @ map (\<lambda>r. JStr (r_id r)) ?new)) rs = []"
    by (auto simp: filter_empty_conv)
  then have "\<exists>content'. merge_into_cache (Some content) src rs later = Inr (content', 0, kept + added)"
    unfolding merge_into_cache_def read rbind.simps ids Let_def using o(4,5) by simp
  then show ?thesis using o read by (auto simp: Let_def)
qed

text \<open>Two items of one feed with the same id are both added.\<close>

lemma batch_not_deduplicated:
  "merge_into_cache None src [r, r] now = Inr (cache_text src now [release_json r, release_json r], 2, 0)"
  by (simp add: merge_into_cache_def cached_def known_ids_def)

section \<open>Witness\<close>

definition example_release :: release where
  "example_release = \<lparr>r_id = ''SEC-20260101-0a'', r_source = ''SEC'', r_published = ''2026-01-01'', r_title = ''Rule'',
     r_url = [], r_text = ''The firm shall keep records.''\<rparr>"

lemma merge_appends_once_witness:
  "\<exists>content c2. merge_into_cache None ''SEC'' [example_release] 0 = Inr (content, 1, 0) \<and>
    merge_into_cache (Some content) ''SEC'' [example_release] 9 = Inr (c2, 0, 1)"
proof -
  have m: "merge_into_cache None ''SEC'' [example_release] 0 = Inr (cache_text ''SEC'' 0 [release_json example_release], 1, 0)"
    by (simp add: merge_into_cache_def cached_def known_ids_def)
  show ?thesis using m merge_appends_once [OF m, of 9] by (auto simp: Let_def)
qed

end
