(* ===== verification/Extraction_Eval.thy ===== *)
theory Extraction_Eval
  imports Directory
begin

text \<open>
  The scorer of eval/validate_extraction.py: recall, hallucination rate and date accuracy of the
  obligations that a model extracted, against a gold set. The model's answer is any JSON value.
  Ratios are rational numbers; the rounding of floating point is not modelled.
\<close>

section \<open>Scoring\<close>

record gold_obligation =
  go_quote :: string
  go_date :: "string option"

record gold =
  gd_release_id :: string
  gd_obligations :: "gold_obligation list"

record score =
  sc_release_id :: string
  sc_recall :: rat
  sc_hallucination :: rat
  sc_date_accuracy :: rat
  sc_n_gold :: nat
  sc_n_output :: nat

text \<open>\<^verbatim>\<open>o.get(k, default)\<close>, which only a dictionary has.\<close>

fun jget_default :: "json \<Rightarrow> string \<Rightarrow> json \<Rightarrow> json res" where
  "jget_default (JObj ms) k dflt = Inr (case map_of ms k of None \<Rightarrow> dflt | Some v \<Rightarrow> v)"
| "jget_default _ k dflt = Inl TypeError"

fun jlower :: "json \<Rightarrow> string res" where
  "jlower (JStr s) = Inr (str_lower s)"
| "jlower _ = Inl TypeError"

definition quote_of :: "json \<Rightarrow> json res" where
  "quote_of ob = jget_default ob ''quote'' (JStr [])"

text \<open>Whether an extracted obligation counts for a gold quote, in lower case.\<close>

definition quote_matches :: "string \<Rightarrow> json \<Rightarrow> bool res" where
  "quote_matches gq ob =
     rbind (quote_of ob) (\<lambda>q. rbind (jlower q) (\<lambda>l.
       Inr (str_contains gq l \<or> str_contains l gq \<and> 20 < length l)))"

fun first_match :: "string \<Rightarrow> json list \<Rightarrow> json option res" where
  "first_match gq [] = Inr None"
| "first_match gq (ob # obs) = rbind (quote_matches gq ob) (\<lambda>m. if m then Inr (Some ob) else first_match gq obs)"

text \<open>The loop over the gold obligations: found, dates to compare, and dates that agree.\<close>

fun count_matches :: "json list \<Rightarrow> gold_obligation list \<Rightarrow> (nat \<times> nat \<times> nat) res" where
  "count_matches obs [] = Inr (0, 0, 0)"
| "count_matches obs (g # gs) =
     rbind (first_match (str_lower (go_quote g)) obs) (\<lambda>m.
     rbind (case m of None \<Rightarrow> Inr (0, 0, 0)
            | Some ob \<Rightarrow>
                if go_date g \<in> {None, Some []} then Inr (1, 0, 0)
                else rbind (jget_default ob ''date'' JNull) (\<lambda>d.
                  Inr (1, 1, if d = JStr (the (go_date g)) then 1 else 0))) (\<lambda>(f, t, h).
     rbind (count_matches obs gs) (\<lambda>(fs, ts, hs). Inr (f + fs, t + ts, h + hs))))"

fun count_hallucinated :: "string \<Rightarrow> json list \<Rightarrow> nat res" where
  "count_hallucinated text [] = Inr 0"
| "count_hallucinated text (q # qs) =
     rbind (if jtruthy q then rbind (jlower q) (\<lambda>l. Inr (\<not> str_contains l text)) else Inr False) (\<lambda>bad.
     rbind (count_hallucinated text qs) (\<lambda>n. Inr (if bad then Suc n else n)))"

definition score_release :: "string \<Rightarrow> gold \<Rightarrow> json \<Rightarrow> score res" where
  "score_release release_text G out =
     (let text = str_lower release_text in
      rbind (jget_default out ''obligations'' (JArr [])) (\<lambda>os. rbind (json_iter os) (\<lambda>obs.
      rbind (mapM quote_of obs) (\<lambda>quotes.
      rbind (count_matches obs (gd_obligations G)) (\<lambda>(found, total, hits).
      rbind (count_hallucinated text quotes) (\<lambda>halluc.
        if gd_obligations G = [] then Inl ZeroDivisionError
        else Inr \<lparr>sc_release_id = gd_release_id G, sc_recall = of_nat found / of_nat (length (gd_obligations G)),
               sc_hallucination = of_nat halluc / of_nat (max 1 (length quotes)),
               sc_date_accuracy = (if total \<noteq> 0 then of_nat hits / of_nat total else 1),
               sc_n_gold = length (gd_obligations G), sc_n_output = length quotes\<rparr>))))))"

section \<open>The verdict\<close>

record thresholds =
  th_recall :: rat
  th_hallucination :: rat
  th_date_accuracy :: rat

definition THRESHOLDS :: thresholds where
  "THRESHOLDS = \<lparr>th_recall = 85 / 100, th_hallucination = 5 / 100, th_date_accuracy = 90 / 100\<rparr>"

definition mean :: "rat list \<Rightarrow> rat res" where
  "mean xs = (if xs = [] then Inl ZeroDivisionError else Inr (sum_list xs / of_nat (length xs)))"

definition passed :: "score list \<Rightarrow> bool res" where
  "passed rows =
     rbind (mean (map sc_recall rows)) (\<lambda>r. rbind (mean (map sc_hallucination rows)) (\<lambda>h.
     rbind (mean (map sc_date_accuracy rows)) (\<lambda>d.
       Inr (th_recall THRESHOLDS \<le> r \<and> h \<le> th_hallucination THRESHOLDS \<and> th_date_accuracy THRESHOLDS \<le> d))))"

text \<open>The feed by release id, and the run over the gold sets in the order of their files.\<close>

definition by_release_id :: "json list \<Rightarrow> (string \<times> json) list res" where
  "by_release_id rs =
     rbind (mapM (\<lambda>r. rbind (jindex r ''release_id'') (\<lambda>i. case i of JStr s \<Rightarrow> Inr (s, r) | _ \<Rightarrow> Inl TypeError)) rs)
       (\<lambda>ps. Inr (fold (\<lambda>(k, v) m. AList.update k v m) ps []))"

definition gold_json :: "gold \<Rightarrow> json" where
  "gold_json G = JObj [(''obligations'', JArr (map (\<lambda>g. JObj [(''quote'', JStr (go_quote g)),
     (''date'', case go_date g of None \<Rightarrow> JNull | Some d \<Rightarrow> JStr d)]) (gd_obligations G)))]"

definition eval_main :: "(string \<Rightarrow> json res) \<Rightarrow> bool \<Rightarrow> (string \<times> json) list \<Rightarrow> gold list \<Rightarrow> (score list \<times> nat) res" where
  "eval_main call_model dry feed golds =
     rbind (mapM (\<lambda>G. case map_of feed (gd_release_id G) of None \<Rightarrow> Inl (KeyError (gd_release_id G))
                | Some rel \<Rightarrow> rbind (jindex rel ''text'') (\<lambda>t. case t of
                    JStr text \<Rightarrow> rbind (if dry then Inr (gold_json G) else call_model text) (score_release text G)
                  | _ \<Rightarrow> Inl TypeError)) golds) (\<lambda>rows.
     rbind (passed rows) (\<lambda>ok. Inr (rows, if ok then 0 else 1)))"

section \<open>Bounds\<close>

lemma count_matches_bounds: "count_matches obs gs = Inr (f, t, h) \<Longrightarrow> f \<le> length gs \<and> t \<le> f \<and> h \<le> t"
  by (induction gs arbitrary: f t h) (fastforce simp: rbind_Inr_iff split: option.splits if_splits)+

lemma count_hallucinated_bound: "count_hallucinated text qs = Inr n \<Longrightarrow> n \<le> length qs"
  by (induction qs arbitrary: n) (fastforce simp: rbind_Inr_iff split: if_splits)+

lemma ratio_bounds: "m \<le> n \<Longrightarrow> 0 \<le> (of_nat m / of_nat n :: rat) \<and> (of_nat m / of_nat n :: rat) \<le> 1"
  by (cases "n = 0") (auto simp: divide_le_eq)

text \<open>
  Whatever a model answers, a score that is computed lies between 0 and 1 in all its three
  ratios, and none is computed against an empty gold set.
\<close>

theorem scores_bounded:
  assumes "score_release text G out = Inr s"
  shows "sc_recall s \<in> {0..1} \<and> sc_hallucination s \<in> {0..1} \<and> sc_date_accuracy s \<in> {0..1} \<and> gd_obligations G \<noteq> []"
proof -
  obtain obs quotes f t h n where o: "count_matches obs (gd_obligations G) = Inr (f, t, h)"
      "count_hallucinated (str_lower text) quotes = Inr n" "gd_obligations G \<noteq> []"
      "s = \<lparr>sc_release_id = gd_release_id G, sc_recall = of_nat f / of_nat (length (gd_obligations G)),
         sc_hallucination = of_nat n / of_nat (max 1 (length quotes)),
         sc_date_accuracy = (if t \<noteq> 0 then of_nat h / of_nat t else 1),
         sc_n_gold = length (gd_obligations G), sc_n_output = length quotes\<rparr>"
    using assms by (auto simp: score_release_def Let_def rbind_Inr_iff split: if_splits)
  have "f \<le> length (gd_obligations G)" "h \<le> t" using count_matches_bounds [OF o(1)] by auto
  moreover have "n \<le> max 1 (length quotes)" using count_hallucinated_bound [OF o(2)] by simp
  ultimately show ?thesis using o(3) ratio_bounds unfolding o(4) by simp
qed

section \<open>The self test\<close>

lemma first_match_total:
  "\<forall>ob \<in> set obs. \<exists>s. quote_of ob = Inr (JStr s) \<Longrightarrow> \<exists>m. first_match gq obs = Inr m \<and>
   ((\<exists>ob \<in> set obs. \<exists>s. quote_of ob = Inr (JStr s) \<and> str_contains gq (str_lower s)) \<longrightarrow> m \<noteq> None) \<and> (\<forall>ob. m = Some ob \<longrightarrow> ob \<in> set obs)"
  by (induction obs) (auto simp: quote_matches_def split: if_splits)

text \<open>
  The gold set scored against itself has recall 1, whatever its quotes and dates are.
\<close>

theorem self_test_recall:
  assumes "gd_obligations G \<noteq> []"
  shows "\<exists>s. score_release text G (gold_json G) = Inr s \<and> sc_recall s = 1"
proof -
  let ?ob = "\<lambda>g. JObj [(''quote'', JStr (go_quote g)), (''date'', case go_date g of None \<Rightarrow> JNull | Some d \<Rightarrow> JStr d)]"
  let ?obs = "map ?ob (gd_obligations G)"
  have q: "quote_of (?ob g) = Inr (JStr (go_quote g))" for g by (simp add: quote_of_def)
  have self: "str_contains s s" for s by (cases s) (simp_all add: contains_iff)
  have "\<exists>t h. count_matches ?obs gs = Inr (length gs, t, h)" if "set gs \<subseteq> set (gd_obligations G)" for gs
    using that
  proof (induction gs)
    case (Cons g gs)
    obtain t h where th: "count_matches ?obs gs = Inr (length gs, t, h)" using Cons by auto
    have "\<exists>m. first_match (str_lower (go_quote g)) ?obs = Inr m \<and> m \<noteq> None \<and> (\<forall>ob. m = Some ob \<longrightarrow> ob \<in> set ?obs)"
    proof -
      have "\<exists>ob \<in> set ?obs. \<exists>s. quote_of ob = Inr (JStr s) \<and> str_contains (str_lower (go_quote g)) (str_lower s)"
        using Cons.prems q [of g] self by (intro bexI [of _ "?ob g"]) auto
      then show ?thesis using first_match_total [of ?obs "str_lower (go_quote g)"] q by fastforce
    qed
    then obtain ob where ob: "first_match (str_lower (go_quote g)) ?obs = Inr (Some ob)" "ob \<in> set ?obs" by auto
    then obtain d where "jget_default ob ''date'' JNull = Inr d" by auto
    then show ?case using th ob(1) by auto
  qed simp
  then obtain t h where m: "count_matches ?obs (gd_obligations G) = Inr (length (gd_obligations G), t, h)" by blast
  have quotes: "mapM quote_of ?obs = Inr (map (\<lambda>g. JStr (go_quote g)) (gd_obligations G))"
    unfolding mapM_Inr_iff by (simp add: list_all2_map1 list_all2_map2 list_all2_same q)
  have "\<exists>n. count_hallucinated u (map (\<lambda>g. JStr (go_quote g)) gs) = Inr n" for u gs by (induction gs) auto
  then obtain n where "count_hallucinated (str_lower text) (map (\<lambda>g. JStr (go_quote g)) (gd_obligations G)) = Inr n" by blast
  then show ?thesis using m quotes assms by (simp add: score_release_def gold_json_def Let_def)
qed

section \<open>Witnesses\<close>

definition example_gold :: gold where
  "example_gold = \<lparr>gd_release_id = ''SEC-1'', gd_obligations =
     [\<lparr>go_quote = ''keep records'', go_date = Some ''2026-01-01''\<rparr>, \<lparr>go_quote = ''keep'', go_date = Some ''2027-01-01''\<rparr>]\<rparr>"

lemma self_test_recall_witness: "\<exists>s. score_release ''Firms keep records.'' example_gold (gold_json example_gold) = Inr s \<and> sc_recall s = 1"
  using self_test_recall [of example_gold] by (simp add: example_gold_def)

lemma scores_bounded_witness:
  "\<exists>s. score_release ''Firms keep records.'' example_gold (gold_json example_gold) = Inr s \<and> sc_date_accuracy s \<in> {0..1}"
  using self_test_recall_witness scores_bounded by blast

text \<open>A gold quote inside an earlier one is matched to it, so the self test can miss a date.\<close>

lemma self_test_misses_date:
  "\<exists>s. score_release ''Firms keep records.'' example_gold (gold_json example_gold) = Inr s \<and> sc_date_accuracy s = 1 / 2"
  by (simp add: score_release_def example_gold_def gold_json_def Let_def quote_of_def quote_matches_def str_lower_def lower_char_def)

end
