(* ===== verification/Audit_Types.thy ===== *)
theory Audit_Types
  imports Audit_Append
begin

text \<open>
  The types of the records: \<^verbatim>\<open>AuditRecord\<close> declares every field a string but the arguments, which
  are a dictionary. The annotations are not checked at run time; here it is proved that the
  record that any line of a written log reads back to satisfies them, markers included.
\<close>

fun is_str :: "json \<Rightarrow> bool" where
  "is_str (JStr _) = True"
| "is_str _ = False"

fun is_dict :: "json \<Rightarrow> bool" where
  "is_dict (JObj _) = True"
| "is_dict _ = False"

definition typed_record :: "audit_record \<Rightarrow> bool" where
  "typed_record r \<longleftrightarrow> is_str (ar_id r) \<and> is_str (ar_ts r) \<and> is_str (ar_agent_id r) \<and> is_str (ar_requester r) \<and>
     is_str (ar_session_id r) \<and> is_str (ar_directory_version r) \<and> is_str (ar_tool r) \<and> is_dict (ar_args r) \<and>
     is_str (ar_outcome r) \<and> is_str (ar_result_summary r) \<and> is_str (ar_prev_hash r) \<and> is_str (ar_hash r) \<and>
     is_str (ar_mac r)"

fun typed_line :: "json \<Rightarrow> bool" where
  "typed_line (JObj ms) = typed_record (audit_record_of ms)"
| "typed_line _ = False"

text \<open>The members a body has before it is sealed, with their types.\<close>

definition typed_body :: "(string \<times> json) list \<Rightarrow> bool" where
  "typed_body b \<longleftrightarrow>
     list_all (\<lambda>k. \<exists>s. map_of b k = Some (JStr s))
       [''id'', ''ts'', ''agent_id'', ''requester'', ''session_id'', ''directory_version'', ''tool'',
        ''outcome'', ''result_summary'', ''prev_hash''] \<and>
     (\<exists>ms. map_of b ''args'' = Some (JObj ms))"

lemma map_of_sealed:
  assumes "good_body prev b" "sort_json (JObj (seal H key b)) = JObj ms"
  shows "map_of ms k = map_option sort_json (map_of (seal H key b) k)"
  using jget_sort_json [OF good_body_distinct [OF assms(1), of H key], of k] assms(2) by simp

lemma sealed_typed:
  assumes b: "good_body prev b" and typed: "typed_body b"
  shows "typed_line (sort_json (JObj (seal H key b)))"
proof -
  obtain ms where ms: "sort_json (JObj (seal H key b)) = JObj ms" by simp
  note at = map_of_sealed [OF b ms]
  have body: "map_of ms k = Some (sort_json v)" if "map_of b k = Some v" for k v
    using at map_of_seal [OF that] by simp
  have unsealed: "unsealed_body b" using b by (simp add: good_body_def)
  have hash: "map_of ms ''hash'' = Some (JStr (digest H (JObj b)))"
    using at map_of_seal_hash [OF unsealed] by simp
  have mac: "map_of ms ''mac'' = None \<or> (\<exists>s. map_of ms ''mac'' = Some (JStr s))"
  proof (cases "key = []")
    case True
    then show ?thesis using at [of "''mac''"] unsealed by (simp add: seal_def Let_def unsealed_body_def)
  qed (use at map_of_seal_mac [OF unsealed] in simp)
  have "typed_record (audit_record_of ms)"
    using typed hash mac
    by (auto simp: typed_record_def audit_record_of_def Let_def typed_body_def dest!: body)
  then show ?thesis by (simp only: ms typed_line.simps)
qed

lemma written_typed: "wf_args (wa_args a) \<Longrightarrow> typed_line (sort_json (JObj (written H L a w i h)))"
  unfolding written_def
  by (rule sealed_typed [OF good_record_body]) (simp_all add: typed_body_def record_body_def)

lemma marker_typed: "typed_line (marker_of H L w h)"
  unfolding marker_of_def
  by (rule sealed_typed [OF good_marker_body]) (simp add: typed_body_def marker_body_def)

lemma writes_typed:
  assumes "hex_hashes H"
  shows "chain_inv H L d rss h \<Longrightarrow> list_all typed_line (concat rss) \<Longrightarrow> \<forall>(a, w) \<in> set aws. good_call a \<Longrightarrow>
    sorted_wrt (<) (map (rotated_name L \<circ> snd) aws) \<Longrightarrow> \<forall>w \<in> snd ` set aws. rotates_later L d w \<Longrightarrow>
    \<exists>d' rss'. audit_writes H L aws d = Inr d' \<and> dir_holds L d' rss' \<and> list_all typed_line (concat rss')"
proof (induction aws arbitrary: d rss h)
  case Nil
  then show ?case by (auto simp: chain_inv_def)
next
  case (Cons x aws)
  obtain a w where x: "x = (a, w)" by (cases x)
  then have wf: "wf_args (wa_args a)" and late: "rotates_later L d w"
    using Cons.prems(3,5) by (auto simp: good_call_def)
  obtain i d1 out rss1 h1 where w: "audit_write H L a w d = Inr (d1, out, written H L a w i h)"
      "chain_inv H L d1 rss1 h1"
      "set (rotated_files L d1) \<subseteq> insert (rotated_name L w) (set (rotated_files L d))"
      "concat rss1 = concat rss @ [sort_json (JObj (written H L a w i h))] \<or>
       concat rss1 = concat rss @ [sort_json (JObj (written H L a w i h)),
         marker_of H L w (digest H (JObj (record_body L a w i (JStr h))))]"
    using write_step [OF assms Cons.prems(1) wf late] by metis
  have typed: "list_all typed_line (concat rss1)"
    using w(4) Cons.prems(2) written_typed [OF wf, of H L w i h] marker_typed by (auto simp del: sort_json.simps)
  have "\<forall>w' \<in> snd ` set aws. rotates_later L d1 w'"
    using Cons.prems(4,5) x w(3) by (fastforce simp: rotates_later_def)
  then show ?case using Cons.IH [OF w(2) typed] Cons.prems(3,4) w(1) x by auto
qed



end
