(* ===== verification/Idna_Ranges.thy ===== *)
theory Idna_Ranges
  imports Prelude "HOL-Library.Word"
begin

text \<open>
  Sets of code points as sorted tuples of ranges (\<^verbatim>\<open>idna/intranges.py\<close>), each range one
  integer \<open>start << 32 | end\<close>, and the binary search that asks them for a code point.

  Python's \<^verbatim>\<open>bisect\<close> is modelled with its loop: the function recurses on the interval the
  search still has, and the interval's length is its measure. \<open>ranges_of\<close> reads a tuple back as
  pairs; \<open>wf_ranges\<close> says what a tuple must satisfy for the search to be right, and
  \<open>intranges_contain_iff\<close> is the fact the rest of the library uses. The tuples here hold code
  points, so integers are natural numbers.
\<close>

unbundle bit_operations_syntax

type_synonym code_point = nat
type_synonym ustr = "code_point list"

section \<open>Ranges as integers\<close>

definition encode_range :: "nat \<Rightarrow> nat \<Rightarrow> nat" where
  "encode_range start end' = push_bit 32 start OR end'"

definition decode_range :: "nat \<Rightarrow> nat \<times> nat" where
  "decode_range r = (drop_bit 32 r, r AND (push_bit 32 1 - 1))"

lemma encode_range_sum: "e < 2 ^ 32 \<Longrightarrow> encode_range s e = s * 2 ^ 32 + e"
proof -
  assume "e < 2 ^ 32"
  then have e: "take_bit 32 e = e" by (rule take_bit_nat_eq_self)
  have "push_bit 32 s + take_bit 32 e = push_bit 32 s OR take_bit 32 e"
    by (rule disjunctive_add) (auto simp: bit_push_bit_iff bit_take_bit_iff)
  then show ?thesis using e by (simp add: encode_range_def push_bit_eq_mult)
qed

lemma decode_range_div: "decode_range r = (r div 2 ^ 32, r mod 2 ^ 32)"
proof -
  have "push_bit 32 1 - 1 = (mask 32 :: nat)" by (simp add: mask_eq_exp_minus_1 push_bit_eq_mult)
  then show ?thesis
    by (simp only: decode_range_def drop_bit_eq_div take_bit_eq_mask [symmetric] take_bit_eq_mod)
qed

lemma decode_encode_range [simp]: "e < 2 ^ 32 \<Longrightarrow> decode_range (encode_range s e) = (s, e)"
  by (simp add: decode_range_div encode_range_sum)

section \<open>Binary search\<close>

function bisect_left :: "nat list \<Rightarrow> nat \<Rightarrow> nat \<Rightarrow> nat \<Rightarrow> nat" where
  "bisect_left a x lo hi =
     (if lo < hi
      then (let mid = (lo + hi) div 2
            in if a ! mid < x then bisect_left a x (mid + 1) hi else bisect_left a x lo mid)
      else lo)"
  by pat_completeness auto

termination
  by (relation "measure (\<lambda>(a, x, lo, hi). hi - lo)") auto

text \<open>The number of elements the search compares with.\<close>

function bisect_steps :: "nat list \<Rightarrow> nat \<Rightarrow> nat \<Rightarrow> nat \<Rightarrow> nat" where
  "bisect_steps a x lo hi =
     (if lo < hi
      then (let mid = (lo + hi) div 2
            in Suc (if a ! mid < x then bisect_steps a x (mid + 1) hi else bisect_steps a x lo mid))
      else 0)"
  by pat_completeness auto

termination
  by (relation "measure (\<lambda>(a, x, lo, hi). hi - lo)") auto

declare bisect_left.simps [simp del] bisect_steps.simps [simp del]

lemma bisect_left_split:
  "lo < hi \<Longrightarrow> bisect_left a x lo hi =
    (if a ! ((lo + hi) div 2) < x then bisect_left a x ((lo + hi) div 2 + 1) hi
     else bisect_left a x lo ((lo + hi) div 2))"
  by (subst bisect_left.simps) (simp add: Let_def)

lemma bisect_left_done: "\<not> lo < hi \<Longrightarrow> bisect_left a x lo hi = lo"
  by (subst bisect_left.simps) simp

lemma bisect_steps_bound: "hi - lo < 2 ^ k \<Longrightarrow> bisect_steps a x lo hi \<le> k"
proof (induction a x lo hi arbitrary: k rule: bisect_steps.induct)
  case (1 a x lo hi)
  show ?case
  proof (cases "lo < hi")
    case True
    then obtain j where k: "k = Suc j" using "1.prems" by (cases k) auto
    then have half: "hi - ((lo + hi) div 2 + 1) < 2 ^ j" "(lo + hi) div 2 - lo < 2 ^ j"
      using "1.prems" True by (auto simp: less_mult_imp_div_less)
    then show ?thesis
      using "1.IH" [OF True refl] True k by (subst bisect_steps.simps) (auto simp: Let_def)
  qed (simp add: bisect_steps.simps)
qed

lemma bisect_left_bounds: "lo \<le> hi \<Longrightarrow> lo \<le> bisect_left a x lo hi \<and> bisect_left a x lo hi \<le> hi"
proof (induction a x lo hi rule: bisect_left.induct)
  case (1 a x lo hi)
  show ?case
  proof (cases "lo < hi")
    case True
    then have "lo \<le> (lo + hi) div 2" "(lo + hi) div 2 < hi" by auto
    then show ?thesis
      using "1.IH" [OF True refl] by (auto simp: bisect_left_split [OF True])
  qed (use "1.prems" in \<open>simp add: bisect_left_done\<close>)
qed

lemma bisect_left_partition:
  assumes "sorted a" "hi \<le> length a" "lo \<le> hi"
  shows "(\<forall>i. lo \<le> i \<and> i < bisect_left a x lo hi \<longrightarrow> a ! i < x)
    \<and> (\<forall>i. bisect_left a x lo hi \<le> i \<and> i < hi \<longrightarrow> x \<le> a ! i)"
  using assms
proof (induction a x lo hi rule: bisect_left.induct)
  case (1 a x lo hi)
  show ?case
  proof (cases "lo < hi")
    case True
    define mid where "mid = (lo + hi) div 2"
    have mid: "lo \<le> mid" "mid < hi" "mid < length a" using True "1.prems" by (auto simp: mid_def)
    show ?thesis
    proof (cases "a ! mid < x")
      case less: True
      have below: "a ! i < x" if "i \<le> mid" for i
        using sorted_nth_mono [OF "1.prems"(1) that mid(3)] less by simp
      have split: "bisect_left a x lo hi = bisect_left a x (mid + 1) hi"
        using bisect_left_split [OF True] less by (simp add: mid_def)
      have IH: "(\<forall>i. mid + 1 \<le> i \<and> i < bisect_left a x (mid + 1) hi \<longrightarrow> a ! i < x)
        \<and> (\<forall>i. bisect_left a x (mid + 1) hi \<le> i \<and> i < hi \<longrightarrow> x \<le> a ! i)"
        by (rule "1.IH"(1) [OF True mid_def less "1.prems"(1,2)]) (use mid in simp)
      show ?thesis unfolding split
      proof (intro conjI allI impI)
        fix i assume "lo \<le> i \<and> i < bisect_left a x (mid + 1) hi"
        then show "a ! i < x" using IH below by (cases "i \<le> mid") auto
      qed (use IH in blast)
    next
      case False
      have above: "x \<le> a ! i" if "mid \<le> i" "i < length a" for i
        using sorted_nth_mono [OF "1.prems"(1) that] False by simp
      have split: "bisect_left a x lo hi = bisect_left a x lo mid"
        using bisect_left_split [OF True] False by (simp add: mid_def)
      have IH: "(\<forall>i. lo \<le> i \<and> i < bisect_left a x lo mid \<longrightarrow> a ! i < x)
        \<and> (\<forall>i. bisect_left a x lo mid \<le> i \<and> i < mid \<longrightarrow> x \<le> a ! i)"
        by (rule "1.IH"(2) [OF True mid_def False "1.prems"(1)]) (use mid in simp_all)
      show ?thesis unfolding split
      proof (intro conjI allI impI)
        fix i assume i: "bisect_left a x lo mid \<le> i \<and> i < hi"
        show "x \<le> a ! i"
        proof (cases "i < mid")
          case False
          then show ?thesis using above "1.prems" i by simp
        qed (use IH i in blast)
      qed (use IH in blast)
    qed
  qed (use "1.prems" in \<open>auto simp: bisect_left_done\<close>)
qed


section \<open>Membership\<close>

definition intranges_contain :: "code_point \<Rightarrow> nat list \<Rightarrow> bool" where
  "intranges_contain x ranges =
     (let pos = bisect_left ranges (encode_range x 0) 0 (length ranges)
      in if pos > 0 \<and> (let (left, right) = decode_range (ranges ! (pos - 1)) in left \<le> x \<and> x < right)
         then True
         else pos < length ranges \<and> fst (decode_range (ranges ! pos)) = x)"

definition ranges_of :: "nat list \<Rightarrow> (nat \<times> nat) list" where
  "ranges_of ranges = map decode_range ranges"

definition nested_step :: "nat \<times> nat \<Rightarrow> nat \<times> nat \<Rightarrow> bool" where
  "nested_step p q \<longleftrightarrow> fst p \<le> fst q \<and> snd p \<le> snd q"

definition wf_ranges :: "(nat \<times> nat) list \<Rightarrow> bool" where
  "wf_ranges P \<longleftrightarrow> sorted_wrt nested_step P \<and> (\<forall>p \<in> set P. fst p < snd p \<and> snd p < 2 ^ 32)"

definition in_ranges :: "nat \<Rightarrow> (nat \<times> nat) list \<Rightarrow> bool" where
  "in_ranges x P \<longleftrightarrow> (\<exists>p \<in> set P. fst p \<le> x \<and> x < snd p)"

lemma decode_range_inj: "decode_range r = (s, e) \<longleftrightarrow> e < 2 ^ 32 \<and> r = encode_range s e"
proof
  assume "decode_range r = (s, e)"
  then have *: "s = r div 2 ^ 32" "e = r mod 2 ^ 32" by (auto simp: decode_range_div)
  then have "e < 2 ^ 32" by simp
  moreover have "r = encode_range s e"
    using encode_range_sum [OF \<open>e < 2 ^ 32\<close>, of s] * by (simp add: div_mult_mod_eq)
  ultimately show "e < 2 ^ 32 \<and> r = encode_range s e" by blast
qed simp

lemma encode_range_less: "e < 2 ^ 32 \<Longrightarrow> encode_range s e < encode_range x 0 \<longleftrightarrow> s < x"
proof -
  assume e: "e < 2 ^ 32"
  have "s * 2 ^ 32 + e < x * 2 ^ 32 \<longleftrightarrow> s < x"
  proof
    assume "s < x"
    then have "(s + 1) * 2 ^ 32 \<le> x * (2 ^ 32 :: nat)" by (intro mult_le_mono1) simp
    then show "s * 2 ^ 32 + e < x * 2 ^ 32" using e by simp
  next
    assume "s * 2 ^ 32 + e < x * 2 ^ 32"
    then have "s * 2 ^ 32 < x * (2 ^ 32 :: nat)" by linarith
    then show "s < x" by simp
  qed
  then show ?thesis using e by (simp add: encode_range_sum)
qed

lemma range_less_iff:
  assumes "decode_range r = (s, e)"
  shows "r < encode_range x 0 \<longleftrightarrow> s < x"
  using assms encode_range_less by (simp add: decode_range_inj)

lemma nested_le: "fst (decode_range r) \<le> fst (decode_range r') \<Longrightarrow>
    snd (decode_range r) \<le> snd (decode_range r') \<Longrightarrow> r \<le> r'"
  by (metis add_le_mono decode_range_div div_mult_mod_eq fst_conv mult_le_mono1 snd_conv)

lemma ranges_sorted: "sorted_wrt nested_step (ranges_of rs) \<Longrightarrow> sorted rs"
  unfolding ranges_of_def sorted_wrt_map nested_step_def
  by (rule sorted_wrt_mono_rel [of rs _ "(\<le>)"]) (auto intro: nested_le)

text \<open>The search is membership in the union of the ranges, for every well-formed tuple.\<close>

theorem intranges_contain_iff:
  assumes wf: "wf_ranges (ranges_of rs)"
  shows "intranges_contain x rs \<longleftrightarrow> in_ranges x (ranges_of rs)"
proof -
  define t where "t = encode_range x 0"
  define pos where "pos = bisect_left rs t 0 (length rs)"
  define S where "S i = fst (decode_range (rs ! i))" for i
  define E where "E i = snd (decode_range (rs ! i))" for i
  have sorted: "sorted rs" using wf ranges_sorted by (auto simp: wf_ranges_def)
  have less: "rs ! i < t \<longleftrightarrow> S i < x" for i
    unfolding t_def S_def by (rule range_less_iff [of _ _ "snd (decode_range (rs ! i))"]) simp
  have pos: "pos \<le> length rs" using bisect_left_bounds [of 0 "length rs" rs t] by (simp add: pos_def)
  have below: "i < pos \<Longrightarrow> S i < x" and above: "pos \<le> i \<Longrightarrow> i < length rs \<Longrightarrow> x \<le> S i" for i
    using bisect_left_partition [OF sorted order_refl, of 0 t] less
    by (auto simp: pos_def [symmetric] not_less dest!: leD)
  have mono: "S i \<le> S j \<and> E i \<le> E j" if "i \<le> j" "j < length rs" for i j
  proof (cases "i = j")
    case False
    then have "nested_step (ranges_of rs ! i) (ranges_of rs ! j)"
      using wf that sorted_wrt_nth_less [of nested_step "ranges_of rs" i j]
      by (auto simp: wf_ranges_def ranges_of_def)
    then show ?thesis using that by (simp add: nested_step_def ranges_of_def S_def E_def)
  qed simp
  have nonempty: "S i < E i" if "i < length rs" for i
    using wf that by (auto simp: wf_ranges_def ranges_of_def S_def E_def)
  have member: "in_ranges x (ranges_of rs) \<longleftrightarrow> (\<exists>i < length rs. S i \<le> x \<and> x < E i)"
    by (simp add: in_ranges_def ranges_of_def S_def E_def) (metis in_set_conv_nth)
  have search: "intranges_contain x rs \<longleftrightarrow>
      0 < pos \<and> S (pos - 1) \<le> x \<and> x < E (pos - 1) \<or> pos < length rs \<and> S pos = x"
    by (auto simp: intranges_contain_def Let_def pos_def t_def S_def E_def split: prod.splits)
  show ?thesis
  proof
    assume "intranges_contain x rs"
    then show "in_ranges x (ranges_of rs)"
      unfolding search member using pos nonempty by (metis One_nat_def Suc_pred less_le_trans lessI order_refl)
  next
    assume "in_ranges x (ranges_of rs)"
    then obtain i where i: "i < length rs" "S i \<le> x" "x < E i" unfolding member by blast
    show "intranges_contain x rs"
    proof (cases "i < pos")
      case True
      then have "i \<le> pos - 1" "pos - 1 < length rs" "pos - 1 < pos" using pos by auto
      then have "x < E (pos - 1)" "S (pos - 1) < x"
        using mono [of i "pos - 1"] below [of "pos - 1"] i by (auto intro: less_le_trans)
      then show ?thesis using True by (auto simp: search)
    next
      case False
      then have "S pos = x" using above [of pos] mono [of pos i] above [of i] i by auto
      then show ?thesis using False i by (auto simp: search)
    qed
  qed
qed


section \<open>Building a tuple of ranges\<close>

text \<open>
  The loop of \<^verbatim>\<open>intranges_from_list\<close> over the indices of the sorted list; \<open>first\<close> is
  \<^verbatim>\<open>last_write + 1\<close>, where the run that is being read starts.
\<close>

function runs_from :: "nat list \<Rightarrow> nat \<Rightarrow> nat \<Rightarrow> nat list \<Rightarrow> nat list" where
  "runs_from sorted_list i first ranges =
     (if i < length sorted_list
      then if i + 1 < length sorted_list \<and> sorted_list ! i + 1 = sorted_list ! (i + 1)
           then runs_from sorted_list (i + 1) first ranges
           else (let current_range = drop first (take (i + 1) sorted_list)
                 in runs_from sorted_list (i + 1) (i + 1)
                      (ranges @ [encode_range (hd current_range) (last current_range + 1)]))
      else ranges)"
  by pat_completeness auto

termination
  by (relation "measure (\<lambda>(s, i, f, r). length s - i)") auto

declare runs_from.simps [simp del]

lemma runs_from_longer:
  "i + 1 < length s \<and> s ! i + 1 = s ! (i + 1) \<Longrightarrow> runs_from s i first rs = runs_from s (i + 1) first rs"
  by (subst runs_from.simps) simp

lemma runs_from_close:
  "i < length s \<Longrightarrow> \<not> (i + 1 < length s \<and> s ! i + 1 = s ! (i + 1)) \<Longrightarrow>
    runs_from s i first rs = runs_from s (i + 1) (i + 1)
      (rs @ [encode_range (hd (drop first (take (i + 1) s))) (last (drop first (take (i + 1) s)) + 1)])"
  by (simp only: runs_from.simps [of s i first rs] if_P if_not_P if_False Let_def)

definition intranges_from_list :: "nat list \<Rightarrow> nat list" where
  "intranges_from_list list = runs_from (sort list) 0 0 []"

definition run_inv :: "nat list \<Rightarrow> nat \<Rightarrow> nat \<Rightarrow> nat list \<Rightarrow> bool" where
  "run_inv s i first rs \<longleftrightarrow>
     first \<le> i \<and> i \<le> length s \<and> (first < i \<longrightarrow> i < length s) \<and>
     (\<forall>j. first \<le> j \<and> j < i \<longrightarrow> s ! j + 1 = s ! (j + 1)) \<and>
     wf_ranges (ranges_of rs) \<and>
     (\<forall>p \<in> set (ranges_of rs). first < length s \<longrightarrow> fst p \<le> s ! first \<and> snd p \<le> s ! first + 1) \<and>
     (\<forall>x. in_ranges x (ranges_of rs) \<longleftrightarrow> x \<in> set (take first s))"

lemma run_values:
  assumes "run_inv s i first rs" "first + d \<le> i"
  shows "s ! (first + d) = s ! first + d"
  using assms(2)
proof (induction d)
  case (Suc d)
  have "\<forall>j. first \<le> j \<and> j < i \<longrightarrow> s ! j + 1 = s ! (j + 1)" using assms(1) by (simp add: run_inv_def)
  from this [rule_format, of "first + d"] Suc.prems
  have "s ! (first + d) + 1 = s ! (first + d + 1)" by simp
  then show ?case using Suc by simp
qed simp



lemma run_members:
  assumes "run_inv s i first rs" "i < length s"
  shows "x \<in> set (drop first (take (i + 1) s)) \<longleftrightarrow> s ! first \<le> x \<and> x \<le> s ! i"
proof -
  have le: "first \<le> i" using assms(1) by (simp add: run_inv_def)
  have seg: "drop first (take (i + 1) s) = map (\<lambda>j. s ! (first + j)) [0..<i + 1 - first]"
    using assms(2) le by (intro nth_equalityI) auto
  have vals: "s ! (first + j) = s ! first + j" if "j < i + 1 - first" for j
    using run_values [OF assms(1), of j] that by simp
  have "s ! i = s ! first + (i - first)" using run_values [OF assms(1), of "i - first"] le by simp
  moreover have "drop first (take (i + 1) s) = map (\<lambda>j. s ! first + j) [0..<i + 1 - first]"
    unfolding seg by (rule map_cong) (auto intro: vals)
  moreover have "x \<in> set (map (\<lambda>j. a + j) [0..<n]) \<longleftrightarrow> a \<le> x \<and> x < a + n" for a n
    by auto
  ultimately show ?thesis using le by auto
qed

lemma in_ranges_snoc:
  "in_ranges x (P @ [(a, b)]) \<longleftrightarrow> in_ranges x P \<or> a \<le> x \<and> x < b"
  by (auto simp: in_ranges_def)

lemma wf_ranges_snoc:
  "wf_ranges (P @ [q]) \<longleftrightarrow> wf_ranges P \<and> (\<forall>p \<in> set P. nested_step p q) \<and> fst q < snd q \<and> snd q < 2 ^ 32"
  by (auto simp: wf_ranges_def sorted_wrt_append)

lemma run_closed:
  assumes inv: "run_inv s i first rs" and i: "i < length s" and s: "sorted s"
    and small: "\<forall>x \<in> set s. x + 1 < 2 ^ 32"
  shows "run_inv s (i + 1) (i + 1)
    (rs @ [encode_range (hd (drop first (take (i + 1) s))) (last (drop first (take (i + 1) s)) + 1)])"
proof -
  have le: "first \<le> i" using inv by (simp add: run_inv_def)
  have hd: "hd (drop first (take (i + 1) s)) = s ! first"
    using le i by (subst hd_drop_conv_nth) auto
  have last: "last (drop first (take (i + 1) s)) = s ! i"
    using le i by (simp add: last_conv_nth)
  have b: "s ! i + 1 < 2 ^ 32" using small i by auto
  have new: "ranges_of (rs @ [encode_range (s ! first) (s ! i + 1)]) = ranges_of rs @ [(s ! first, s ! i + 1)]"
    using b by (simp add: ranges_of_def)
  have fi: "s ! first \<le> s ! i" using s le i sorted_nth_mono by blast
  have split: "set (take (i + 1) s) = set (take first s) \<union> set (drop first (take (i + 1) s))"
    by (metis append_take_drop_id le le_add1 le_trans min.absorb1 set_append take_take)
  have mono: "s ! j \<le> s ! (i + 1)" if "i + 1 < length s" "j \<le> i" for j
    using s that sorted_nth_mono [of s j "i + 1"] by simp
  have "wf_ranges (ranges_of rs @ [(s ! first, s ! i + 1)])"
    using inv le i fi b by (auto simp: wf_ranges_snoc run_inv_def nested_step_def)
  moreover have "in_ranges x (ranges_of rs @ [(s ! first, s ! i + 1)]) \<longleftrightarrow> x \<in> set (take (i + 1) s)" for x
    using run_members [OF inv i, of x] inv unfolding in_ranges_snoc split by (auto simp: run_inv_def)
  moreover have "fst p \<le> s ! (i + 1) \<and> snd p \<le> s ! (i + 1) + 1"
    if "p \<in> set (ranges_of rs @ [(s ! first, s ! i + 1)])" "i + 1 < length s" for p
    using that inv le i mono [of first] mono [of i] by (fastforce simp: run_inv_def)
  ultimately show ?thesis
    unfolding hd last run_inv_def new using i by auto
qed

lemma run_longer:
  assumes "run_inv s i first rs" "i + 1 < length s" "s ! i + 1 = s ! (i + 1)"
  shows "run_inv s (i + 1) first rs"
  using assms less_Suc_eq by (auto simp: run_inv_def)

lemma runs_from_inv:
  assumes "run_inv s i first rs" "sorted s" "\<forall>x \<in> set s. x + 1 < 2 ^ 32"
  shows "run_inv s (length s) (length s) (runs_from s i first rs)"
  using assms
proof (induction s i first rs rule: runs_from.induct)
  case (1 s i first rs)
  show ?case
  proof (cases "i < length s")
    case i: True
    show ?thesis
    proof (cases "i + 1 < length s \<and> s ! i + 1 = s ! (i + 1)")
      case True
      then show ?thesis
        using "1.IH"(1) [OF i True run_longer "1.prems"(2,3)] "1.prems"(1) runs_from_longer [OF True]
        by simp
    next
      case False
      then show ?thesis
        using "1.IH"(2) [OF i False refl run_closed "1.prems"(2,3)] "1.prems" i
          runs_from_close [OF i False] by simp
    qed
  next
    case False
    then have "i = length s" "first = length s" using "1.prems"(1) by (auto simp: run_inv_def)
    then show ?thesis using "1.prems"(1) by (subst runs_from.simps) simp
  qed
qed

text \<open>
  a tuple built from a list of code points, in any order and with repetitions, contains
  exactly the members of the list, for every code point asked.
\<close>

theorem intranges_round_trip:
  assumes "\<forall>x \<in> set list. x + 1 < 2 ^ 32"
  shows "intranges_contain c (intranges_from_list list) \<longleftrightarrow> c \<in> set list"
proof -
  have "run_inv (sort list) 0 0 []"
    by (simp add: run_inv_def ranges_of_def wf_ranges_def in_ranges_def)
  then have "run_inv (sort list) (length list) (length list) (intranges_from_list list)"
    using runs_from_inv [of "sort list" 0 0 "[]"] assms by (simp add: intranges_from_list_def)
  then have "wf_ranges (ranges_of (intranges_from_list list))"
    and "in_ranges c (ranges_of (intranges_from_list list)) \<longleftrightarrow> c \<in> set list"
    by (auto simp: run_inv_def)
  then show ?thesis by (simp add: intranges_contain_iff)
qed

lemma intranges_round_trip_witness:
  "intranges_contain 7 (intranges_from_list [8, 6, 7, 3, 7]) \<longleftrightarrow> 7 \<in> set [8, 6, 7, 3, 7 :: nat]"
  by (rule intranges_round_trip) simp

text \<open>
  the question costs time logarithmic in the number of ranges, as the module promises:
  fewer than \<open>2 ^ k\<close> ranges need at most \<open>k\<close> comparisons.
\<close>

theorem lookup_is_logarithmic:
  assumes "length ranges < 2 ^ k"
  shows "bisect_steps ranges (encode_range x 0) 0 (length ranges) \<le> k"
  using assms bisect_steps_bound [of "length ranges" 0 k] by simp

lemma lookup_is_logarithmic_witness:
  "bisect_steps [encode_range 1 4, encode_range 6 9, encode_range 12 13] (encode_range 7 0) 0
     (length [encode_range 1 4, encode_range 6 9, encode_range 12 13]) \<le> 2"
  using lookup_is_logarithmic [of "[encode_range 1 4, encode_range 6 9, encode_range 12 13]" 2 7] by simp

end
