(* ===== verification/Idna_Data.thy ===== *)
theory Idna_Data
  imports Idna_Ranges
begin

text \<open>
  The tables of \<^verbatim>\<open>idna/idnadata.py\<close>, entry for entry: the scripts, the joining types and the
  code point classes of RFC 5892, each a tuple of ranges. A table longer than 150 lines of the
  source is cut into numbered parts. Every tuple is checked to be well formed (\<open>wf_tables\<close>), so
  the binary search finds exactly the code points of its ranges.
\<close>

definition script_Greek :: "nat list" where
  "script_Greek =
    [0x37000000374, 0x37500000378, 0x37A0000037E, 0x37F00000380, 0x38400000385, 0x38600000387,
     0x3880000038B, 0x38C0000038D, 0x38E000003A2, 0x3A3000003E2, 0x3F000000400, 0x1D2600001D2B,
     0x1D5D00001D62, 0x1D6600001D6B, 0x1DBF00001DC0, 0x1F0000001F16, 0x1F1800001F1E,
     0x1F2000001F46, 0x1F4800001F4E, 0x1F5000001F58, 0x1F5900001F5A, 0x1F5B00001F5C,
     0x1F5D00001F5E, 0x1F5F00001F7E, 0x1F8000001FB5, 0x1FB600001FC5, 0x1FC600001FD4,
     0x1FD600001FDC, 0x1FDD00001FF0, 0x1FF200001FF5, 0x1FF600001FFF, 0x212600002127,
     0xAB650000AB66, 0x101400001018F, 0x101A0000101A1, 0x1D2000001D246]"

definition script_Han :: "nat list" where
  "script_Han =
    [0x2E8000002E9A, 0x2E9B00002EF4, 0x2F0000002FD6, 0x300500003006, 0x300700003008,
     0x30210000302A, 0x30380000303C, 0x340000004DC0, 0x4E000000A000, 0xF9000000FA6E,
     0xFA700000FADA, 0x16FE200016FE4, 0x16FF000016FF7, 0x200000002A6E0, 0x2A7000002B81E,
     0x2B8200002CEAE, 0x2CEB00002EBE1, 0x2EBF00002EE5E, 0x2F8000002FA1E, 0x300000003134B,
     0x313500003347A]"

definition script_Hebrew :: "nat list" where
  "script_Hebrew =
    [0x591000005C8, 0x5D0000005EB, 0x5EF000005F5, 0xFB1D0000FB37, 0xFB380000FB3D, 0xFB3E0000FB3F,
     0xFB400000FB42, 0xFB430000FB45, 0xFB460000FB50]"

definition script_Hiragana :: "nat list" where
  "script_Hiragana =
    [0x304100003097, 0x309D000030A0, 0x1B0010001B120, 0x1B1320001B133, 0x1B1500001B153,
     0x1F2000001F201]"

definition script_Katakana :: "nat list" where
  "script_Katakana =
    [0x30A1000030FB, 0x30FD00003100, 0x31F000003200, 0x32D0000032FF, 0x330000003358,
     0xFF660000FF70, 0xFF710000FF9E, 0x1AFF00001AFF4, 0x1AFF50001AFFC, 0x1AFFD0001AFFF,
     0x1B0000001B001, 0x1B1200001B123, 0x1B1550001B156, 0x1B1640001B168]"

definition joining_C :: "nat list" where
  "joining_C =
    [0x64000000641, 0x7FA000007FB, 0x88300000886, 0x180A0000180B, 0x200D0000200E]"

definition joining_D :: "nat list" where
  "joining_D =
    [0x62000000621, 0x62600000627, 0x62800000629, 0x62A0000062F, 0x63300000640, 0x64100000648,
     0x6490000064B, 0x66E00000670, 0x67800000688, 0x69A000006C0, 0x6C1000006C3, 0x6CC000006CD,
     0x6CE000006CF, 0x6D0000006D2, 0x6FA000006FD, 0x6FF00000700, 0x71200000715, 0x71A0000071E,
     0x71F00000728, 0x7290000072A, 0x72B0000072C, 0x72D0000072F, 0x74E00000759, 0x75C0000076B,
     0x76D00000771, 0x77200000773, 0x77500000778, 0x77A00000780, 0x7CA000007EB, 0x84100000846,
     0x84800000849, 0x84A00000854, 0x85500000856, 0x86000000861, 0x86200000866, 0x86800000869,
     0x88600000887, 0x8890000088E, 0x88F00000890, 0x8A0000008AA, 0x8AF000008B1, 0x8B3000008B9,
     0x8BA000008C9, 0x180700001808, 0x182000001879, 0x1887000018A9, 0x18AA000018AB,
     0xA8400000A872, 0x10AC000010AC5, 0x10AD300010AD7, 0x10AD800010ADD, 0x10ADE00010AE1,
     0x10AEB00010AEF, 0x10B8000010B81, 0x10B8200010B83, 0x10B8600010B89, 0x10B8A00010B8C,
     0x10B8D00010B8E, 0x10B9000010B91, 0x10BAD00010BAF, 0x10D0100010D22, 0x10D2300010D24,
     0x10EC300010EC5, 0x10EC600010EC8, 0x10F3000010F33, 0x10F3400010F45, 0x10F5100010F54,
     0x10F7000010F74, 0x10F7600010F82, 0x10FB000010FB1, 0x10FB200010FB4, 0x10FB800010FB9,
     0x10FBB00010FBD, 0x10FBE00010FC0, 0x10FC100010FC2, 0x10FC400010FC5, 0x10FCA00010FCB,
     0x1E9000001E944]"

definition joining_L :: "nat list" where
  "joining_L =
    [0xA8720000A873, 0x10ACD00010ACE, 0x10AD700010AD8, 0x10D0000010D01, 0x10FCB00010FCC]"

definition joining_R :: "nat list" where
  "joining_R =
    [0x62200000626, 0x62700000628, 0x6290000062A, 0x62F00000633, 0x64800000649, 0x67100000674,
     0x67500000678, 0x6880000069A, 0x6C0000006C1, 0x6C3000006CC, 0x6CD000006CE, 0x6CF000006D0,
     0x6D2000006D4, 0x6D5000006D6, 0x6EE000006F0, 0x71000000711, 0x7150000071A, 0x71E0000071F,
     0x72800000729, 0x72A0000072B, 0x72C0000072D, 0x72F00000730, 0x74D0000074E, 0x7590000075C,
     0x76B0000076D, 0x77100000772, 0x77300000775, 0x7780000077A, 0x84000000841, 0x84600000848,
     0x8490000084A, 0x85400000855, 0x85600000859, 0x86700000868, 0x8690000086B, 0x87000000883,
     0x88E0000088F, 0x8AA000008AD, 0x8AE000008AF, 0x8B1000008B3, 0x8B9000008BA, 0x10AC500010AC6,
     0x10AC700010AC8, 0x10AC900010ACB, 0x10ACE00010AD3, 0x10ADD00010ADE, 0x10AE100010AE2,
     0x10AE400010AE5, 0x10AEF00010AF0, 0x10B8100010B82, 0x10B8300010B86, 0x10B8900010B8A,
     0x10B8C00010B8D, 0x10B8E00010B90, 0x10B9100010B92, 0x10BA900010BAD, 0x10D2200010D23,
     0x10EC200010EC3, 0x10F3300010F34, 0x10F5400010F55, 0x10F7400010F76, 0x10FB400010FB7,
     0x10FB900010FBB, 0x10FBD00010FBE, 0x10FC200010FC4, 0x10FC900010FCA]"

definition joining_T_1 :: "nat list" where
  "joining_T_1 =
    [0xAD000000AE, 0x30000000370, 0x4830000048A, 0x591000005BE, 0x5BF000005C0, 0x5C1000005C3,
     0x5C4000005C6, 0x5C7000005C8, 0x6100000061B, 0x61C0000061D, 0x64B00000660, 0x67000000671,
     0x6D6000006DD, 0x6DF000006E5, 0x6E7000006E9, 0x6EA000006EE, 0x70F00000710, 0x71100000712,
     0x7300000074B, 0x7A6000007B1, 0x7EB000007F4, 0x7FD000007FE, 0x8160000081A, 0x81B00000824,
     0x82500000828, 0x8290000082E, 0x8590000085C, 0x897000008A0, 0x8CA000008E2, 0x8E300000903,
     0x93A0000093B, 0x93C0000093D, 0x94100000949, 0x94D0000094E, 0x95100000958, 0x96200000964,
     0x98100000982, 0x9BC000009BD, 0x9C1000009C5, 0x9CD000009CE, 0x9E2000009E4, 0x9FE000009FF,
     0xA0100000A03, 0xA3C00000A3D, 0xA4100000A43, 0xA4700000A49, 0xA4B00000A4E, 0xA5100000A52,
     0xA7000000A72, 0xA7500000A76, 0xA8100000A83, 0xABC00000ABD, 0xAC100000AC6, 0xAC700000AC9,
     0xACD00000ACE, 0xAE200000AE4, 0xAFA00000B00, 0xB0100000B02, 0xB3C00000B3D, 0xB3F00000B40,
     0xB4100000B45, 0xB4D00000B4E, 0xB5500000B57, 0xB6200000B64, 0xB8200000B83, 0xBC000000BC1,
     0xBCD00000BCE, 0xC0000000C01, 0xC0400000C05, 0xC3C00000C3D, 0xC3E00000C41, 0xC4600000C49,
     0xC4A00000C4E, 0xC5500000C57, 0xC6200000C64, 0xC8100000C82, 0xCBC00000CBD, 0xCBF00000CC0,
     0xCC600000CC7, 0xCCC00000CCE, 0xCE200000CE4, 0xD0000000D02, 0xD3B00000D3D, 0xD4100000D45,
     0xD4D00000D4E, 0xD6200000D64, 0xD8100000D82, 0xDCA00000DCB, 0xDD200000DD5, 0xDD600000DD7,
     0xE3100000E32, 0xE3400000E3B, 0xE4700000E4F, 0xEB100000EB2, 0xEB400000EBD, 0xEC800000ECF,
     0xF1800000F1A, 0xF3500000F36, 0xF3700000F38, 0xF3900000F3A, 0xF7100000F7F, 0xF8000000F85,
     0xF8600000F88, 0xF8D00000F98, 0xF9900000FBD, 0xFC600000FC7, 0x102D00001031, 0x103200001038,
     0x10390000103B, 0x103D0000103F, 0x10580000105A, 0x105E00001061, 0x107100001075,
     0x108200001083, 0x108500001087, 0x108D0000108E, 0x109D0000109E, 0x135D00001360,
     0x171200001715, 0x173200001734, 0x175200001754, 0x177200001774, 0x17B4000017B6,
     0x17B7000017BE, 0x17C6000017C7, 0x17C9000017D4, 0x17DD000017DE, 0x180B0000180E,
     0x180F00001810, 0x188500001887, 0x18A9000018AA, 0x192000001923, 0x192700001929,
     0x193200001933, 0x19390000193C, 0x1A1700001A19, 0x1A1B00001A1C, 0x1A5600001A57,
     0x1A5800001A5F, 0x1A6000001A61, 0x1A6200001A63, 0x1A6500001A6D, 0x1A7300001A7D,
     0x1A7F00001A80, 0x1AB000001ADE, 0x1AE000001AEC, 0x1B0000001B04, 0x1B3400001B35,
     0x1B3600001B3B]"

definition joining_T_2 :: "nat list" where
  "joining_T_2 =
    [0x1B3C00001B3D, 0x1B4200001B43, 0x1B6B00001B74, 0x1B8000001B82, 0x1BA200001BA6,
     0x1BA800001BAA, 0x1BAB00001BAE, 0x1BE600001BE7, 0x1BE800001BEA, 0x1BED00001BEE,
     0x1BEF00001BF2, 0x1C2C00001C34, 0x1C3600001C38, 0x1CD000001CD3, 0x1CD400001CE1,
     0x1CE200001CE9, 0x1CED00001CEE, 0x1CF400001CF5, 0x1CF800001CFA, 0x1DC000001E00,
     0x200B0000200C, 0x200E00002010, 0x202A0000202F, 0x206000002065, 0x206A00002070,
     0x20D0000020F1, 0x2CEF00002CF2, 0x2D7F00002D80, 0x2DE000002E00, 0x302A0000302E,
     0x30990000309B, 0xA66F0000A673, 0xA6740000A67E, 0xA69E0000A6A0, 0xA6F00000A6F2,
     0xA8020000A803, 0xA8060000A807, 0xA80B0000A80C, 0xA8250000A827, 0xA82C0000A82D,
     0xA8C40000A8C6, 0xA8E00000A8F2, 0xA8FF0000A900, 0xA9260000A92E, 0xA9470000A952,
     0xA9800000A983, 0xA9B30000A9B4, 0xA9B60000A9BA, 0xA9BC0000A9BE, 0xA9E50000A9E6,
     0xAA290000AA2F, 0xAA310000AA33, 0xAA350000AA37, 0xAA430000AA44, 0xAA4C0000AA4D,
     0xAA7C0000AA7D, 0xAAB00000AAB1, 0xAAB20000AAB5, 0xAAB70000AAB9, 0xAABE0000AAC0,
     0xAAC10000AAC2, 0xAAEC0000AAEE, 0xAAF60000AAF7, 0xABE50000ABE6, 0xABE80000ABE9,
     0xABED0000ABEE, 0xFB1E0000FB1F, 0xFE000000FE10, 0xFE200000FE30, 0xFEFF0000FF00,
     0xFFF90000FFFC, 0x101FD000101FE, 0x102E0000102E1, 0x103760001037B, 0x10A0100010A04,
     0x10A0500010A07, 0x10A0C00010A10, 0x10A3800010A3B, 0x10A3F00010A40, 0x10AE500010AE7,
     0x10D2400010D28, 0x10D6900010D6E, 0x10EAB00010EAD, 0x10EFA00010F00, 0x10F4600010F51,
     0x10F8200010F86, 0x1100100011002, 0x1103800011047, 0x1107000011071, 0x1107300011075,
     0x1107F00011082, 0x110B3000110B7, 0x110B9000110BB, 0x110C2000110C3, 0x1110000011103,
     0x111270001112C, 0x1112D00011135, 0x1117300011174, 0x1118000011182, 0x111B6000111BF,
     0x111C9000111CD, 0x111CF000111D0, 0x1122F00011232, 0x1123400011235, 0x1123600011238,
     0x1123E0001123F, 0x1124100011242, 0x112DF000112E0, 0x112E3000112EB, 0x1130000011302,
     0x1133B0001133D, 0x1134000011341, 0x113660001136D, 0x1137000011375, 0x113BB000113C1,
     0x113CE000113CF, 0x113D0000113D1, 0x113D2000113D3, 0x113E1000113E3, 0x1143800011440,
     0x1144200011445, 0x1144600011447, 0x1145E0001145F, 0x114B3000114B9, 0x114BA000114BB,
     0x114BF000114C1, 0x114C2000114C4, 0x115B2000115B6, 0x115BC000115BE, 0x115BF000115C1,
     0x115DC000115DE, 0x116330001163B, 0x1163D0001163E, 0x1163F00011641, 0x116AB000116AC,
     0x116AD000116AE, 0x116B0000116B6, 0x116B7000116B8, 0x1171D0001171E, 0x1171F00011720,
     0x1172200011726, 0x117270001172C, 0x1182F00011838, 0x118390001183B, 0x1193B0001193D,
     0x1193E0001193F, 0x1194300011944, 0x119D4000119D8, 0x119DA000119DC, 0x119E0000119E1]"

definition joining_T_3 :: "nat list" where
  "joining_T_3 =
    [0x11A0100011A0B, 0x11A3300011A39, 0x11A3B00011A3F, 0x11A4700011A48, 0x11A5100011A57,
     0x11A5900011A5C, 0x11A8A00011A97, 0x11A9800011A9A, 0x11B6000011B61, 0x11B6200011B65,
     0x11B6600011B67, 0x11C3000011C37, 0x11C3800011C3E, 0x11C3F00011C40, 0x11C9200011CA8,
     0x11CAA00011CB1, 0x11CB200011CB4, 0x11CB500011CB7, 0x11D3100011D37, 0x11D3A00011D3B,
     0x11D3C00011D3E, 0x11D3F00011D46, 0x11D4700011D48, 0x11D9000011D92, 0x11D9500011D96,
     0x11D9700011D98, 0x11EF300011EF5, 0x11F0000011F02, 0x11F3600011F3B, 0x11F4000011F41,
     0x11F4200011F43, 0x11F5A00011F5B, 0x1343000013441, 0x1344700013456, 0x1611E0001612A,
     0x1612D00016130, 0x16AF000016AF5, 0x16B3000016B37, 0x16F4F00016F50, 0x16F8F00016F93,
     0x16FE400016FE5, 0x1BC9D0001BC9F, 0x1BCA00001BCA4, 0x1CF000001CF2E, 0x1CF300001CF47,
     0x1D1670001D16A, 0x1D1730001D183, 0x1D1850001D18C, 0x1D1AA0001D1AE, 0x1D2420001D245,
     0x1DA000001DA37, 0x1DA3B0001DA6D, 0x1DA750001DA76, 0x1DA840001DA85, 0x1DA9B0001DAA0,
     0x1DAA10001DAB0, 0x1E0000001E007, 0x1E0080001E019, 0x1E01B0001E022, 0x1E0230001E025,
     0x1E0260001E02B, 0x1E08F0001E090, 0x1E1300001E137, 0x1E2AE0001E2AF, 0x1E2EC0001E2F0,
     0x1E4EC0001E4F0, 0x1E5EE0001E5F0, 0x1E6E30001E6E4, 0x1E6E60001E6E7, 0x1E6EE0001E6F0,
     0x1E6F50001E6F6, 0x1E8D00001E8D7, 0x1E9440001E94C, 0xE0001000E0002, 0xE0020000E0080,
     0xE0100000E01F0]"

definition joining_T :: "nat list" where
  "joining_T = joining_T_1 @ joining_T_2 @ joining_T_3"

definition class_PVALID_1 :: "nat list" where
  "class_PVALID_1 =
    [0x2D0000002E, 0x300000003A, 0x610000007B, 0xDF000000F7, 0xF800000100, 0x10100000102,
     0x10300000104, 0x10500000106, 0x10700000108, 0x1090000010A, 0x10B0000010C, 0x10D0000010E,
     0x10F00000110, 0x11100000112, 0x11300000114, 0x11500000116, 0x11700000118, 0x1190000011A,
     0x11B0000011C, 0x11D0000011E, 0x11F00000120, 0x12100000122, 0x12300000124, 0x12500000126,
     0x12700000128, 0x1290000012A, 0x12B0000012C, 0x12D0000012E, 0x12F00000130, 0x13100000132,
     0x13500000136, 0x13700000139, 0x13A0000013B, 0x13C0000013D, 0x13E0000013F, 0x14200000143,
     0x14400000145, 0x14600000147, 0x14800000149, 0x14B0000014C, 0x14D0000014E, 0x14F00000150,
     0x15100000152, 0x15300000154, 0x15500000156, 0x15700000158, 0x1590000015A, 0x15B0000015C,
     0x15D0000015E, 0x15F00000160, 0x16100000162, 0x16300000164, 0x16500000166, 0x16700000168,
     0x1690000016A, 0x16B0000016C, 0x16D0000016E, 0x16F00000170, 0x17100000172, 0x17300000174,
     0x17500000176, 0x17700000178, 0x17A0000017B, 0x17C0000017D, 0x17E0000017F, 0x18000000181,
     0x18300000184, 0x18500000186, 0x18800000189, 0x18C0000018E, 0x19200000193, 0x19500000196,
     0x1990000019C, 0x19E0000019F, 0x1A1000001A2, 0x1A3000001A4, 0x1A5000001A6, 0x1A8000001A9,
     0x1AA000001AC, 0x1AD000001AE, 0x1B0000001B1, 0x1B4000001B5, 0x1B6000001B7, 0x1B9000001BC,
     0x1BD000001C4, 0x1CE000001CF, 0x1D0000001D1, 0x1D2000001D3, 0x1D4000001D5, 0x1D6000001D7,
     0x1D8000001D9, 0x1DA000001DB, 0x1DC000001DE, 0x1DF000001E0, 0x1E1000001E2, 0x1E3000001E4,
     0x1E5000001E6, 0x1E7000001E8, 0x1E9000001EA, 0x1EB000001EC, 0x1ED000001EE, 0x1EF000001F1,
     0x1F5000001F6, 0x1F9000001FA, 0x1FB000001FC, 0x1FD000001FE, 0x1FF00000200, 0x20100000202,
     0x20300000204, 0x20500000206, 0x20700000208, 0x2090000020A, 0x20B0000020C, 0x20D0000020E,
     0x20F00000210, 0x21100000212, 0x21300000214, 0x21500000216, 0x21700000218, 0x2190000021A,
     0x21B0000021C, 0x21D0000021E, 0x21F00000220, 0x22100000222, 0x22300000224, 0x22500000226,
     0x22700000228, 0x2290000022A, 0x22B0000022C, 0x22D0000022E, 0x22F00000230, 0x23100000232,
     0x2330000023A, 0x23C0000023D, 0x23F00000241, 0x24200000243, 0x24700000248, 0x2490000024A,
     0x24B0000024C, 0x24D0000024E, 0x24F000002B0, 0x2B9000002C2, 0x2C6000002D2, 0x2EC000002ED,
     0x2EE000002EF, 0x30000000340, 0x34200000343, 0x3460000034F, 0x35000000370]"

definition class_PVALID_2 :: "nat list" where
  "class_PVALID_2 =
    [0x37100000372, 0x37300000374, 0x37700000378, 0x37B0000037E, 0x39000000391, 0x3AC000003CF,
     0x3D7000003D8, 0x3D9000003DA, 0x3DB000003DC, 0x3DD000003DE, 0x3DF000003E0, 0x3E1000003E2,
     0x3E3000003E4, 0x3E5000003E6, 0x3E7000003E8, 0x3E9000003EA, 0x3EB000003EC, 0x3ED000003EE,
     0x3EF000003F0, 0x3F3000003F4, 0x3F8000003F9, 0x3FB000003FD, 0x43000000460, 0x46100000462,
     0x46300000464, 0x46500000466, 0x46700000468, 0x4690000046A, 0x46B0000046C, 0x46D0000046E,
     0x46F00000470, 0x47100000472, 0x47300000474, 0x47500000476, 0x47700000478, 0x4790000047A,
     0x47B0000047C, 0x47D0000047E, 0x47F00000480, 0x48100000482, 0x48300000488, 0x48B0000048C,
     0x48D0000048E, 0x48F00000490, 0x49100000492, 0x49300000494, 0x49500000496, 0x49700000498,
     0x4990000049A, 0x49B0000049C, 0x49D0000049E, 0x49F000004A0, 0x4A1000004A2, 0x4A3000004A4,
     0x4A5000004A6, 0x4A7000004A8, 0x4A9000004AA, 0x4AB000004AC, 0x4AD000004AE, 0x4AF000004B0,
     0x4B1000004B2, 0x4B3000004B4, 0x4B5000004B6, 0x4B7000004B8, 0x4B9000004BA, 0x4BB000004BC,
     0x4BD000004BE, 0x4BF000004C0, 0x4C2000004C3, 0x4C4000004C5, 0x4C6000004C7, 0x4C8000004C9,
     0x4CA000004CB, 0x4CC000004CD, 0x4CE000004D0, 0x4D1000004D2, 0x4D3000004D4, 0x4D5000004D6,
     0x4D7000004D8, 0x4D9000004DA, 0x4DB000004DC, 0x4DD000004DE, 0x4DF000004E0, 0x4E1000004E2,
     0x4E3000004E4, 0x4E5000004E6, 0x4E7000004E8, 0x4E9000004EA, 0x4EB000004EC, 0x4ED000004EE,
     0x4EF000004F0, 0x4F1000004F2, 0x4F3000004F4, 0x4F5000004F6, 0x4F7000004F8, 0x4F9000004FA,
     0x4FB000004FC, 0x4FD000004FE, 0x4FF00000500, 0x50100000502, 0x50300000504, 0x50500000506,
     0x50700000508, 0x5090000050A, 0x50B0000050C, 0x50D0000050E, 0x50F00000510, 0x51100000512,
     0x51300000514, 0x51500000516, 0x51700000518, 0x5190000051A, 0x51B0000051C, 0x51D0000051E,
     0x51F00000520, 0x52100000522, 0x52300000524, 0x52500000526, 0x52700000528, 0x5290000052A,
     0x52B0000052C, 0x52D0000052E, 0x52F00000530, 0x5590000055A, 0x56000000587, 0x58800000589,
     0x591000005BE, 0x5BF000005C0, 0x5C1000005C3, 0x5C4000005C6, 0x5C7000005C8, 0x5D0000005EB,
     0x5EF000005F3, 0x6100000061B, 0x62000000640, 0x64100000660, 0x66E00000675, 0x679000006D4,
     0x6D5000006DD, 0x6DF000006E9, 0x6EA000006F0, 0x6FA00000700, 0x7100000074B, 0x74D000007B2,
     0x7C0000007F6, 0x7FD000007FE, 0x8000000082E, 0x8400000085C, 0x8600000086B, 0x87000000888]"

definition class_PVALID_3 :: "nat list" where
  "class_PVALID_3 =
    [0x88900000890, 0x897000008E2, 0x8E300000958, 0x96000000964, 0x96600000970, 0x97100000984,
     0x9850000098D, 0x98F00000991, 0x993000009A9, 0x9AA000009B1, 0x9B2000009B3, 0x9B6000009BA,
     0x9BC000009C5, 0x9C7000009C9, 0x9CB000009CF, 0x9D7000009D8, 0x9E0000009E4, 0x9E6000009F2,
     0x9FC000009FD, 0x9FE000009FF, 0xA0100000A04, 0xA0500000A0B, 0xA0F00000A11, 0xA1300000A29,
     0xA2A00000A31, 0xA3200000A33, 0xA3500000A36, 0xA3800000A3A, 0xA3C00000A3D, 0xA3E00000A43,
     0xA4700000A49, 0xA4B00000A4E, 0xA5100000A52, 0xA5C00000A5D, 0xA6600000A76, 0xA8100000A84,
     0xA8500000A8E, 0xA8F00000A92, 0xA9300000AA9, 0xAAA00000AB1, 0xAB200000AB4, 0xAB500000ABA,
     0xABC00000AC6, 0xAC700000ACA, 0xACB00000ACE, 0xAD000000AD1, 0xAE000000AE4, 0xAE600000AF0,
     0xAF900000B00, 0xB0100000B04, 0xB0500000B0D, 0xB0F00000B11, 0xB1300000B29, 0xB2A00000B31,
     0xB3200000B34, 0xB3500000B3A, 0xB3C00000B45, 0xB4700000B49, 0xB4B00000B4E, 0xB5500000B58,
     0xB5F00000B64, 0xB6600000B70, 0xB7100000B72, 0xB8200000B84, 0xB8500000B8B, 0xB8E00000B91,
     0xB9200000B96, 0xB9900000B9B, 0xB9C00000B9D, 0xB9E00000BA0, 0xBA300000BA5, 0xBA800000BAB,
     0xBAE00000BBA, 0xBBE00000BC3, 0xBC600000BC9, 0xBCA00000BCE, 0xBD000000BD1, 0xBD700000BD8,
     0xBE600000BF0, 0xC0000000C0D, 0xC0E00000C11, 0xC1200000C29, 0xC2A00000C3A, 0xC3C00000C45,
     0xC4600000C49, 0xC4A00000C4E, 0xC5500000C57, 0xC5800000C5B, 0xC5C00000C5E, 0xC6000000C64,
     0xC6600000C70, 0xC8000000C84, 0xC8500000C8D, 0xC8E00000C91, 0xC9200000CA9, 0xCAA00000CB4,
     0xCB500000CBA, 0xCBC00000CC5, 0xCC600000CC9, 0xCCA00000CCE, 0xCD500000CD7, 0xCDC00000CDF,
     0xCE000000CE4, 0xCE600000CF0, 0xCF100000CF4, 0xD0000000D0D, 0xD0E00000D11, 0xD1200000D45,
     0xD4600000D49, 0xD4A00000D4F, 0xD5400000D58, 0xD5F00000D64, 0xD6600000D70, 0xD7A00000D80,
     0xD8100000D84, 0xD8500000D97, 0xD9A00000DB2, 0xDB300000DBC, 0xDBD00000DBE, 0xDC000000DC7,
     0xDCA00000DCB, 0xDCF00000DD5, 0xDD600000DD7, 0xDD800000DE0, 0xDE600000DF0, 0xDF200000DF4,
     0xE0100000E33, 0xE3400000E3B, 0xE4000000E4F, 0xE5000000E5A, 0xE8100000E83, 0xE8400000E85,
     0xE8600000E8B, 0xE8C00000EA4, 0xEA500000EA6, 0xEA700000EB3, 0xEB400000EBE, 0xEC000000EC5,
     0xEC600000EC7, 0xEC800000ECF, 0xED000000EDA, 0xEDE00000EE0, 0xF0000000F01, 0xF0B00000F0C,
     0xF1800000F1A, 0xF2000000F2A, 0xF3500000F36, 0xF3700000F38, 0xF3900000F3A, 0xF3E00000F43]"

definition class_PVALID_4 :: "nat list" where
  "class_PVALID_4 =
    [0xF4400000F48, 0xF4900000F4D, 0xF4E00000F52, 0xF5300000F57, 0xF5800000F5C, 0xF5D00000F69,
     0xF6A00000F6D, 0xF7100000F73, 0xF7400000F75, 0xF7A00000F81, 0xF8200000F85, 0xF8600000F93,
     0xF9400000F98, 0xF9900000F9D, 0xF9E00000FA2, 0xFA300000FA7, 0xFA800000FAC, 0xFAD00000FB9,
     0xFBA00000FBD, 0xFC600000FC7, 0x10000000104A, 0x10500000109E, 0x10D0000010FB,
     0x10FD00001100, 0x120000001249, 0x124A0000124E, 0x125000001257, 0x125800001259,
     0x125A0000125E, 0x126000001289, 0x128A0000128E, 0x1290000012B1, 0x12B2000012B6,
     0x12B8000012BF, 0x12C0000012C1, 0x12C2000012C6, 0x12C8000012D7, 0x12D800001311,
     0x131200001316, 0x13180000135B, 0x135D00001360, 0x138000001390, 0x13A0000013F6,
     0x14010000166D, 0x166F00001680, 0x16810000169B, 0x16A0000016EB, 0x16F1000016F9,
     0x170000001716, 0x171F00001735, 0x174000001754, 0x17600000176D, 0x176E00001771,
     0x177200001774, 0x1780000017B4, 0x17B6000017D4, 0x17D7000017D8, 0x17DC000017DE,
     0x17E0000017EA, 0x18100000181A, 0x182000001879, 0x1880000018AB, 0x18B0000018F6,
     0x19000000191F, 0x19200000192C, 0x19300000193C, 0x19460000196E, 0x197000001975,
     0x1980000019AC, 0x19B0000019CA, 0x19D0000019DA, 0x1A0000001A1C, 0x1A2000001A5F,
     0x1A6000001A7D, 0x1A7F00001A8A, 0x1A9000001A9A, 0x1AA700001AA8, 0x1AB000001ABE,
     0x1ABF00001ADE, 0x1AE000001AEC, 0x1B0000001B4D, 0x1B5000001B5A, 0x1B6B00001B74,
     0x1B8000001BF4, 0x1C0000001C38, 0x1C4000001C4A, 0x1C4D00001C7E, 0x1C8A00001C8B,
     0x1CD000001CD3, 0x1CD400001CFB, 0x1D0000001D2C, 0x1D2F00001D30, 0x1D3B00001D3C,
     0x1D4E00001D4F, 0x1D6B00001D78, 0x1D7900001D9B, 0x1DC000001E00, 0x1E0100001E02,
     0x1E0300001E04, 0x1E0500001E06, 0x1E0700001E08, 0x1E0900001E0A, 0x1E0B00001E0C,
     0x1E0D00001E0E, 0x1E0F00001E10, 0x1E1100001E12, 0x1E1300001E14, 0x1E1500001E16,
     0x1E1700001E18, 0x1E1900001E1A, 0x1E1B00001E1C, 0x1E1D00001E1E, 0x1E1F00001E20,
     0x1E2100001E22, 0x1E2300001E24, 0x1E2500001E26, 0x1E2700001E28, 0x1E2900001E2A,
     0x1E2B00001E2C, 0x1E2D00001E2E, 0x1E2F00001E30, 0x1E3100001E32, 0x1E3300001E34,
     0x1E3500001E36, 0x1E3700001E38, 0x1E3900001E3A, 0x1E3B00001E3C, 0x1E3D00001E3E,
     0x1E3F00001E40, 0x1E4100001E42, 0x1E4300001E44, 0x1E4500001E46, 0x1E4700001E48,
     0x1E4900001E4A, 0x1E4B00001E4C, 0x1E4D00001E4E, 0x1E4F00001E50, 0x1E5100001E52,
     0x1E5300001E54, 0x1E5500001E56, 0x1E5700001E58, 0x1E5900001E5A, 0x1E5B00001E5C,
     0x1E5D00001E5E, 0x1E5F00001E60, 0x1E6100001E62, 0x1E6300001E64, 0x1E6500001E66,
     0x1E6700001E68, 0x1E6900001E6A]"

definition class_PVALID_5 :: "nat list" where
  "class_PVALID_5 =
    [0x1E6B00001E6C, 0x1E6D00001E6E, 0x1E6F00001E70, 0x1E7100001E72, 0x1E7300001E74,
     0x1E7500001E76, 0x1E7700001E78, 0x1E7900001E7A, 0x1E7B00001E7C, 0x1E7D00001E7E,
     0x1E7F00001E80, 0x1E8100001E82, 0x1E8300001E84, 0x1E8500001E86, 0x1E8700001E88,
     0x1E8900001E8A, 0x1E8B00001E8C, 0x1E8D00001E8E, 0x1E8F00001E90, 0x1E9100001E92,
     0x1E9300001E94, 0x1E9500001E9A, 0x1E9C00001E9E, 0x1E9F00001EA0, 0x1EA100001EA2,
     0x1EA300001EA4, 0x1EA500001EA6, 0x1EA700001EA8, 0x1EA900001EAA, 0x1EAB00001EAC,
     0x1EAD00001EAE, 0x1EAF00001EB0, 0x1EB100001EB2, 0x1EB300001EB4, 0x1EB500001EB6,
     0x1EB700001EB8, 0x1EB900001EBA, 0x1EBB00001EBC, 0x1EBD00001EBE, 0x1EBF00001EC0,
     0x1EC100001EC2, 0x1EC300001EC4, 0x1EC500001EC6, 0x1EC700001EC8, 0x1EC900001ECA,
     0x1ECB00001ECC, 0x1ECD00001ECE, 0x1ECF00001ED0, 0x1ED100001ED2, 0x1ED300001ED4,
     0x1ED500001ED6, 0x1ED700001ED8, 0x1ED900001EDA, 0x1EDB00001EDC, 0x1EDD00001EDE,
     0x1EDF00001EE0, 0x1EE100001EE2, 0x1EE300001EE4, 0x1EE500001EE6, 0x1EE700001EE8,
     0x1EE900001EEA, 0x1EEB00001EEC, 0x1EED00001EEE, 0x1EEF00001EF0, 0x1EF100001EF2,
     0x1EF300001EF4, 0x1EF500001EF6, 0x1EF700001EF8, 0x1EF900001EFA, 0x1EFB00001EFC,
     0x1EFD00001EFE, 0x1EFF00001F08, 0x1F1000001F16, 0x1F2000001F28, 0x1F3000001F38,
     0x1F4000001F46, 0x1F5000001F58, 0x1F6000001F68, 0x1F7000001F71, 0x1F7200001F73,
     0x1F7400001F75, 0x1F7600001F77, 0x1F7800001F79, 0x1F7A00001F7B, 0x1F7C00001F7D,
     0x1FB000001FB2, 0x1FB600001FB7, 0x1FC600001FC7, 0x1FD000001FD3, 0x1FD600001FD8,
     0x1FE000001FE3, 0x1FE400001FE8, 0x1FF600001FF7, 0x214E0000214F, 0x218400002185,
     0x2C3000002C60, 0x2C6100002C62, 0x2C6500002C67, 0x2C6800002C69, 0x2C6A00002C6B,
     0x2C6C00002C6D, 0x2C7100002C72, 0x2C7300002C75, 0x2C7600002C7C, 0x2C8100002C82,
     0x2C8300002C84, 0x2C8500002C86, 0x2C8700002C88, 0x2C8900002C8A, 0x2C8B00002C8C,
     0x2C8D00002C8E, 0x2C8F00002C90, 0x2C9100002C92, 0x2C9300002C94, 0x2C9500002C96,
     0x2C9700002C98, 0x2C9900002C9A, 0x2C9B00002C9C, 0x2C9D00002C9E, 0x2C9F00002CA0,
     0x2CA100002CA2, 0x2CA300002CA4, 0x2CA500002CA6, 0x2CA700002CA8, 0x2CA900002CAA,
     0x2CAB00002CAC, 0x2CAD00002CAE, 0x2CAF00002CB0, 0x2CB100002CB2, 0x2CB300002CB4,
     0x2CB500002CB6, 0x2CB700002CB8, 0x2CB900002CBA, 0x2CBB00002CBC, 0x2CBD00002CBE,
     0x2CBF00002CC0, 0x2CC100002CC2, 0x2CC300002CC4, 0x2CC500002CC6, 0x2CC700002CC8,
     0x2CC900002CCA, 0x2CCB00002CCC, 0x2CCD00002CCE, 0x2CCF00002CD0, 0x2CD100002CD2,
     0x2CD300002CD4, 0x2CD500002CD6, 0x2CD700002CD8, 0x2CD900002CDA, 0x2CDB00002CDC]"

definition class_PVALID_6 :: "nat list" where
  "class_PVALID_6 =
    [0x2CDD00002CDE, 0x2CDF00002CE0, 0x2CE100002CE2, 0x2CE300002CE5, 0x2CEC00002CED,
     0x2CEE00002CF2, 0x2CF300002CF4, 0x2D0000002D26, 0x2D2700002D28, 0x2D2D00002D2E,
     0x2D3000002D68, 0x2D7F00002D97, 0x2DA000002DA7, 0x2DA800002DAF, 0x2DB000002DB7,
     0x2DB800002DBF, 0x2DC000002DC7, 0x2DC800002DCF, 0x2DD000002DD7, 0x2DD800002DDF,
     0x2DE000002E00, 0x2E2F00002E30, 0x300500003008, 0x302A0000302E, 0x303C0000303D,
     0x304100003097, 0x30990000309B, 0x309D0000309F, 0x30A1000030FB, 0x30FC000030FF,
     0x310500003130, 0x31A0000031C0, 0x31F000003200, 0x340000004DC0, 0x4E000000A48D,
     0xA4D00000A4FE, 0xA5000000A60D, 0xA6100000A62C, 0xA6410000A642, 0xA6430000A644,
     0xA6450000A646, 0xA6470000A648, 0xA6490000A64A, 0xA64B0000A64C, 0xA64D0000A64E,
     0xA64F0000A650, 0xA6510000A652, 0xA6530000A654, 0xA6550000A656, 0xA6570000A658,
     0xA6590000A65A, 0xA65B0000A65C, 0xA65D0000A65E, 0xA65F0000A660, 0xA6610000A662,
     0xA6630000A664, 0xA6650000A666, 0xA6670000A668, 0xA6690000A66A, 0xA66B0000A66C,
     0xA66D0000A670, 0xA6740000A67E, 0xA67F0000A680, 0xA6810000A682, 0xA6830000A684,
     0xA6850000A686, 0xA6870000A688, 0xA6890000A68A, 0xA68B0000A68C, 0xA68D0000A68E,
     0xA68F0000A690, 0xA6910000A692, 0xA6930000A694, 0xA6950000A696, 0xA6970000A698,
     0xA6990000A69A, 0xA69B0000A69C, 0xA69E0000A6E6, 0xA6F00000A6F2, 0xA7170000A720,
     0xA7230000A724, 0xA7250000A726, 0xA7270000A728, 0xA7290000A72A, 0xA72B0000A72C,
     0xA72D0000A72E, 0xA72F0000A732, 0xA7330000A734, 0xA7350000A736, 0xA7370000A738,
     0xA7390000A73A, 0xA73B0000A73C, 0xA73D0000A73E, 0xA73F0000A740, 0xA7410000A742,
     0xA7430000A744, 0xA7450000A746, 0xA7470000A748, 0xA7490000A74A, 0xA74B0000A74C,
     0xA74D0000A74E, 0xA74F0000A750, 0xA7510000A752, 0xA7530000A754, 0xA7550000A756,
     0xA7570000A758, 0xA7590000A75A, 0xA75B0000A75C, 0xA75D0000A75E, 0xA75F0000A760,
     0xA7610000A762, 0xA7630000A764, 0xA7650000A766, 0xA7670000A768, 0xA7690000A76A,
     0xA76B0000A76C, 0xA76D0000A76E, 0xA76F0000A770, 0xA7710000A779, 0xA77A0000A77B,
     0xA77C0000A77D, 0xA77F0000A780, 0xA7810000A782, 0xA7830000A784, 0xA7850000A786,
     0xA7870000A789, 0xA78C0000A78D, 0xA78E0000A790, 0xA7910000A792, 0xA7930000A796,
     0xA7970000A798, 0xA7990000A79A, 0xA79B0000A79C, 0xA79D0000A79E, 0xA79F0000A7A0,
     0xA7A10000A7A2, 0xA7A30000A7A4, 0xA7A50000A7A6, 0xA7A70000A7A8, 0xA7A90000A7AA,
     0xA7AF0000A7B0, 0xA7B50000A7B6, 0xA7B70000A7B8, 0xA7B90000A7BA, 0xA7BB0000A7BC,
     0xA7BD0000A7BE, 0xA7BF0000A7C0, 0xA7C10000A7C2, 0xA7C30000A7C4, 0xA7C80000A7C9]"

definition class_PVALID_7 :: "nat list" where
  "class_PVALID_7 =
    [0xA7CA0000A7CB, 0xA7CD0000A7CE, 0xA7CF0000A7D0, 0xA7D10000A7D2, 0xA7D30000A7D4,
     0xA7D50000A7D6, 0xA7D70000A7D8, 0xA7D90000A7DA, 0xA7DB0000A7DC, 0xA7F60000A7F8,
     0xA7FA0000A828, 0xA82C0000A82D, 0xA8400000A874, 0xA8800000A8C6, 0xA8D00000A8DA,
     0xA8E00000A8F8, 0xA8FB0000A8FC, 0xA8FD0000A92E, 0xA9300000A954, 0xA9800000A9C1,
     0xA9CF0000A9DA, 0xA9E00000A9FF, 0xAA000000AA37, 0xAA400000AA4E, 0xAA500000AA5A,
     0xAA600000AA77, 0xAA7A0000AAC3, 0xAADB0000AADE, 0xAAE00000AAF0, 0xAAF20000AAF7,
     0xAB010000AB07, 0xAB090000AB0F, 0xAB110000AB17, 0xAB200000AB27, 0xAB280000AB2F,
     0xAB300000AB5B, 0xAB600000AB69, 0xABC00000ABEB, 0xABEC0000ABEE, 0xABF00000ABFA,
     0xAC000000D7A4, 0xFA0E0000FA10, 0xFA110000FA12, 0xFA130000FA15, 0xFA1F0000FA20,
     0xFA210000FA22, 0xFA230000FA25, 0xFA270000FA2A, 0xFB1E0000FB1F, 0xFE200000FE30,
     0xFE730000FE74, 0x100000001000C, 0x1000D00010027, 0x100280001003B, 0x1003C0001003E,
     0x1003F0001004E, 0x100500001005E, 0x10080000100FB, 0x101FD000101FE, 0x102800001029D,
     0x102A0000102D1, 0x102E0000102E1, 0x1030000010320, 0x1032D00010341, 0x103420001034A,
     0x103500001037B, 0x103800001039E, 0x103A0000103C4, 0x103C8000103D0, 0x104280001049E,
     0x104A0000104AA, 0x104D8000104FC, 0x1050000010528, 0x1053000010564, 0x10597000105A2,
     0x105A3000105B2, 0x105B3000105BA, 0x105BB000105BD, 0x105C0000105F4, 0x1060000010737,
     0x1074000010756, 0x1076000010768, 0x1078000010781, 0x1080000010806, 0x1080800010809,
     0x1080A00010836, 0x1083700010839, 0x1083C0001083D, 0x1083F00010856, 0x1086000010877,
     0x108800001089F, 0x108E0000108F3, 0x108F4000108F6, 0x1090000010916, 0x109200001093A,
     0x109400001095A, 0x10980000109B8, 0x109BE000109C0, 0x10A0000010A04, 0x10A0500010A07,
     0x10A0C00010A14, 0x10A1500010A18, 0x10A1900010A36, 0x10A3800010A3B, 0x10A3F00010A40,
     0x10A6000010A7D, 0x10A8000010A9D, 0x10AC000010AC8, 0x10AC900010AE7, 0x10B0000010B36,
     0x10B4000010B56, 0x10B6000010B73, 0x10B8000010B92, 0x10C0000010C49, 0x10CC000010CF3,
     0x10D0000010D28, 0x10D3000010D3A, 0x10D4000010D50, 0x10D6900010D6E, 0x10D6F00010D86,
     0x10E8000010EAA, 0x10EAB00010EAD, 0x10EB000010EB2, 0x10EC200010EC8, 0x10EFA00010F1D,
     0x10F2700010F28, 0x10F3000010F51, 0x10F7000010F86, 0x10FB000010FC5, 0x10FE000010FF7,
     0x1100000011047, 0x1106600011076, 0x1107F000110BB, 0x110C2000110C3, 0x110D0000110E9,
     0x110F0000110FA, 0x1110000011135, 0x1113600011140, 0x1114400011148, 0x1115000011174,
     0x1117600011177, 0x11180000111C5, 0x111C9000111CD, 0x111CE000111DB, 0x111DC000111DD,
     0x1120000011212, 0x1121300011238, 0x1123E00011242, 0x1128000011287, 0x1128800011289]"

definition class_PVALID_8 :: "nat list" where
  "class_PVALID_8 =
    [0x1128A0001128E, 0x1128F0001129E, 0x1129F000112A9, 0x112B0000112EB, 0x112F0000112FA,
     0x1130000011304, 0x113050001130D, 0x1130F00011311, 0x1131300011329, 0x1132A00011331,
     0x1133200011334, 0x113350001133A, 0x1133B00011345, 0x1134700011349, 0x1134B0001134E,
     0x1135000011351, 0x1135700011358, 0x1135D00011364, 0x113660001136D, 0x1137000011375,
     0x113800001138A, 0x1138B0001138C, 0x1138E0001138F, 0x11390000113B6, 0x113B7000113C1,
     0x113C2000113C3, 0x113C5000113C6, 0x113C7000113CB, 0x113CC000113D4, 0x113E1000113E3,
     0x114000001144B, 0x114500001145A, 0x1145E00011462, 0x11480000114C6, 0x114C7000114C8,
     0x114D0000114DA, 0x11580000115B6, 0x115B8000115C1, 0x115D8000115DE, 0x1160000011641,
     0x1164400011645, 0x116500001165A, 0x11680000116B9, 0x116C0000116CA, 0x116D0000116E4,
     0x117000001171B, 0x1171D0001172C, 0x117300001173A, 0x1174000011747, 0x118000001183B,
     0x118C0000118EA, 0x118FF00011907, 0x119090001190A, 0x1190C00011914, 0x1191500011917,
     0x1191800011936, 0x1193700011939, 0x1193B00011944, 0x119500001195A, 0x119A0000119A8,
     0x119AA000119D8, 0x119DA000119E2, 0x119E3000119E5, 0x11A0000011A3F, 0x11A4700011A48,
     0x11A5000011A9A, 0x11A9D00011A9E, 0x11AB000011AF9, 0x11B6000011B68, 0x11BC000011BE1,
     0x11BF000011BFA, 0x11C0000011C09, 0x11C0A00011C37, 0x11C3800011C41, 0x11C5000011C5A,
     0x11C7200011C90, 0x11C9200011CA8, 0x11CA900011CB7, 0x11D0000011D07, 0x11D0800011D0A,
     0x11D0B00011D37, 0x11D3A00011D3B, 0x11D3C00011D3E, 0x11D3F00011D48, 0x11D5000011D5A,
     0x11D6000011D66, 0x11D6700011D69, 0x11D6A00011D8F, 0x11D9000011D92, 0x11D9300011D99,
     0x11DA000011DAA, 0x11DB000011DDC, 0x11DE000011DEA, 0x11EE000011EF7, 0x11F0000011F11,
     0x11F1200011F3B, 0x11F3E00011F43, 0x11F5000011F5B, 0x11FB000011FB1, 0x120000001239A,
     0x1248000012544, 0x12F9000012FF1, 0x1300000013430, 0x1344000013456, 0x13460000143FB,
     0x1440000014647, 0x161000001613A, 0x1680000016A39, 0x16A4000016A5F, 0x16A6000016A6A,
     0x16A7000016ABF, 0x16AC000016ACA, 0x16AD000016AEE, 0x16AF000016AF5, 0x16B0000016B37,
     0x16B4000016B44, 0x16B5000016B5A, 0x16B6300016B78, 0x16B7D00016B90, 0x16D4000016D6D,
     0x16D7000016D7A, 0x16E6000016E80, 0x16EBB00016ED4, 0x16F0000016F4B, 0x16F4F00016F88,
     0x16F8F00016FA0, 0x16FE000016FE2, 0x16FE300016FE5, 0x16FF000016FF4, 0x1700000018CD6,
     0x18CFF00018D1F, 0x18D8000018DF3, 0x1AFF00001AFF4, 0x1AFF50001AFFC, 0x1AFFD0001AFFF,
     0x1B0000001B123, 0x1B1320001B133, 0x1B1500001B153, 0x1B1550001B156, 0x1B1640001B168,
     0x1B1700001B2FC, 0x1BC000001BC6B, 0x1BC700001BC7D, 0x1BC800001BC89, 0x1BC900001BC9A,
     0x1BC9D0001BC9F, 0x1CF000001CF2E, 0x1CF300001CF47, 0x1DA000001DA37, 0x1DA3B0001DA6D]"

definition class_PVALID_9 :: "nat list" where
  "class_PVALID_9 =
    [0x1DA750001DA76, 0x1DA840001DA85, 0x1DA9B0001DAA0, 0x1DAA10001DAB0, 0x1DF000001DF1F,
     0x1DF250001DF2B, 0x1E0000001E007, 0x1E0080001E019, 0x1E01B0001E022, 0x1E0230001E025,
     0x1E0260001E02B, 0x1E08F0001E090, 0x1E1000001E12D, 0x1E1300001E13E, 0x1E1400001E14A,
     0x1E14E0001E14F, 0x1E2900001E2AF, 0x1E2C00001E2FA, 0x1E4D00001E4FA, 0x1E5D00001E5FB,
     0x1E6C00001E6DF, 0x1E6E00001E6F6, 0x1E6FE0001E700, 0x1E7E00001E7E7, 0x1E7E80001E7EC,
     0x1E7ED0001E7EF, 0x1E7F00001E7FF, 0x1E8000001E8C5, 0x1E8D00001E8D7, 0x1E9220001E94C,
     0x1E9500001E95A, 0x200000002A6E0, 0x2A7000002B81E, 0x2B8200002CEAE, 0x2CEB00002EBE1,
     0x2EBF00002EE5E, 0x300000003134B, 0x313500003347A]"

definition class_PVALID :: "nat list" where
  "class_PVALID = class_PVALID_1 @ class_PVALID_2 @ class_PVALID_3 @ class_PVALID_4 @ class_PVALID_5 @ class_PVALID_6 @ class_PVALID_7 @ class_PVALID_8 @ class_PVALID_9"

definition class_CONTEXTJ :: "nat list" where
  "class_CONTEXTJ =
    [0x200C0000200E]"

definition class_CONTEXTO :: "nat list" where
  "class_CONTEXTO =
    [0xB7000000B8, 0x37500000376, 0x5F3000005F5, 0x6600000066A, 0x6F0000006FA, 0x30FB000030FC]"

definition scripts :: "(string \<times> nat list) list" where
  "scripts =
    [(''Greek'', script_Greek),
     (''Han'', script_Han),
     (''Hebrew'', script_Hebrew),
     (''Hiragana'', script_Hiragana),
     (''Katakana'', script_Katakana)]"

definition joining_types :: "(string \<times> nat list) list" where
  "joining_types =
    [(''C'', joining_C),
     (''D'', joining_D),
     (''L'', joining_L),
     (''R'', joining_R),
     (''T'', joining_T)]"

definition codepoint_classes :: "(string \<times> nat list) list" where
  "codepoint_classes =
    [(''PVALID'', class_PVALID),
     (''CONTEXTJ'', class_CONTEXTJ),
     (''CONTEXTO'', class_CONTEXTO)]"

section \<open>The tables are well formed\<close>

text \<open>One pass over a tuple: the ranges are non-empty, disjoint and in order from \<open>lo\<close> on.\<close>

fun ranges_end :: "nat \<Rightarrow> nat list \<Rightarrow> nat option" where
  "ranges_end lo [] = Some lo"
| "ranges_end lo (r # rs) =
     (let (s, e) = decode_range r in if lo \<le> s \<and> s < e then ranges_end e rs else None)"

lemma ranges_end_append:
  "ranges_end lo (xs @ ys) = Option.bind (ranges_end lo xs) (\<lambda>e. ranges_end e ys)"
  by (induction xs arbitrary: lo) (auto simp: Let_def split: prod.splits)

lemma ranges_end_wf:
  "ranges_end lo rs = Some hi \<Longrightarrow>
    wf_ranges (ranges_of rs) \<and> (\<forall>p \<in> set (ranges_of rs). lo \<le> fst p \<and> lo \<le> snd p)"
proof (induction rs arbitrary: lo)
  case (Cons r rs)
  obtain s e where se: "decode_range r = (s, e)" by fastforce
  then have *: "lo \<le> s" "s < e" "ranges_end e rs = Some hi"
    using Cons.prems by (auto split: if_splits)
  moreover have "e < 2 ^ 32" using se by (simp add: decode_range_inj)
  moreover have "ranges_of (r # rs) = (s, e) # ranges_of rs" using se by (simp add: ranges_of_def)
  ultimately show ?case using Cons.IH [OF *(3)] by (auto simp: wf_ranges_def nested_step_def)
qed (simp add: ranges_of_def wf_ranges_def)

text \<open>One step of the pass, as a rule: the tables are checked by resolution, entry by entry.\<close>

lemma ranges_step:
  "r div 2 ^ 32 = s \<Longrightarrow> r mod 2 ^ 32 = e \<Longrightarrow> lo \<le> s \<Longrightarrow> s < e \<Longrightarrow> ranges_end e rs = Some hi \<Longrightarrow>
    ranges_end lo (r # rs) = Some hi"
  by (simp add: decode_range_div)

lemma script_Greek_end: "ranges_end 0 script_Greek = Some 119366"
  unfolding script_Greek_def
  by (rule ranges_step, simp (no_asm), simp (no_asm), simp (no_asm), simp (no_asm))+ (rule ranges_end.simps)

lemma script_Han_end: "ranges_end 0 script_Han = Some 210042"
  unfolding script_Han_def
  by (rule ranges_step, simp (no_asm), simp (no_asm), simp (no_asm), simp (no_asm))+ (rule ranges_end.simps)

lemma script_Hebrew_end: "ranges_end 0 script_Hebrew = Some 64336"
  unfolding script_Hebrew_def
  by (rule ranges_step, simp (no_asm), simp (no_asm), simp (no_asm), simp (no_asm))+ (rule ranges_end.simps)

lemma script_Hiragana_end: "ranges_end 0 script_Hiragana = Some 127489"
  unfolding script_Hiragana_def
  by (rule ranges_step, simp (no_asm), simp (no_asm), simp (no_asm), simp (no_asm))+ (rule ranges_end.simps)

lemma script_Katakana_end: "ranges_end 0 script_Katakana = Some 110952"
  unfolding script_Katakana_def
  by (rule ranges_step, simp (no_asm), simp (no_asm), simp (no_asm), simp (no_asm))+ (rule ranges_end.simps)

lemma joining_C_end: "ranges_end 0 joining_C = Some 8206"
  unfolding joining_C_def
  by (rule ranges_step, simp (no_asm), simp (no_asm), simp (no_asm), simp (no_asm))+ (rule ranges_end.simps)

lemma joining_D_end: "ranges_end 0 joining_D = Some 125252"
  unfolding joining_D_def
  by (rule ranges_step, simp (no_asm), simp (no_asm), simp (no_asm), simp (no_asm))+ (rule ranges_end.simps)

lemma joining_L_end: "ranges_end 0 joining_L = Some 69580"
  unfolding joining_L_def
  by (rule ranges_step, simp (no_asm), simp (no_asm), simp (no_asm), simp (no_asm))+ (rule ranges_end.simps)

lemma joining_R_end: "ranges_end 0 joining_R = Some 69578"
  unfolding joining_R_def
  by (rule ranges_step, simp (no_asm), simp (no_asm), simp (no_asm), simp (no_asm))+ (rule ranges_end.simps)

lemma joining_T_1_end: "ranges_end 0 joining_T_1 = Some 6971"
  unfolding joining_T_1_def
  by (rule ranges_step, simp (no_asm), simp (no_asm), simp (no_asm), simp (no_asm))+ (rule ranges_end.simps)

lemma joining_T_2_end: "ranges_end 6971 joining_T_2 = Some 72161"
  unfolding joining_T_2_def
  by (rule ranges_step, simp (no_asm), simp (no_asm), simp (no_asm), simp (no_asm))+ (rule ranges_end.simps)

lemma joining_T_3_end: "ranges_end 72161 joining_T_3 = Some 918000"
  unfolding joining_T_3_def
  by (rule ranges_step, simp (no_asm), simp (no_asm), simp (no_asm), simp (no_asm))+ (rule ranges_end.simps)

lemma joining_T_end: "ranges_end 0 joining_T = Some 918000"
  by (simp add: joining_T_def ranges_end_append joining_T_1_end joining_T_2_end joining_T_3_end)

lemma class_PVALID_1_end: "ranges_end 0 class_PVALID_1 = Some 880"
  unfolding class_PVALID_1_def
  by (rule ranges_step, simp (no_asm), simp (no_asm), simp (no_asm), simp (no_asm))+ (rule ranges_end.simps)

lemma class_PVALID_2_end: "ranges_end 880 class_PVALID_2 = Some 2184"
  unfolding class_PVALID_2_def
  by (rule ranges_step, simp (no_asm), simp (no_asm), simp (no_asm), simp (no_asm))+ (rule ranges_end.simps)

lemma class_PVALID_3_end: "ranges_end 2184 class_PVALID_3 = Some 3907"
  unfolding class_PVALID_3_def
  by (rule ranges_step, simp (no_asm), simp (no_asm), simp (no_asm), simp (no_asm))+ (rule ranges_end.simps)

lemma class_PVALID_4_end: "ranges_end 3907 class_PVALID_4 = Some 7786"
  unfolding class_PVALID_4_def
  by (rule ranges_step, simp (no_asm), simp (no_asm), simp (no_asm), simp (no_asm))+ (rule ranges_end.simps)

lemma class_PVALID_5_end: "ranges_end 7786 class_PVALID_5 = Some 11484"
  unfolding class_PVALID_5_def
  by (rule ranges_step, simp (no_asm), simp (no_asm), simp (no_asm), simp (no_asm))+ (rule ranges_end.simps)

lemma class_PVALID_6_end: "ranges_end 11484 class_PVALID_6 = Some 42953"
  unfolding class_PVALID_6_def
  by (rule ranges_step, simp (no_asm), simp (no_asm), simp (no_asm), simp (no_asm))+ (rule ranges_end.simps)

lemma class_PVALID_7_end: "ranges_end 42953 class_PVALID_7 = Some 70281"
  unfolding class_PVALID_7_def
  by (rule ranges_step, simp (no_asm), simp (no_asm), simp (no_asm), simp (no_asm))+ (rule ranges_end.simps)

lemma class_PVALID_8_end: "ranges_end 70281 class_PVALID_8 = Some 121453"
  unfolding class_PVALID_8_def
  by (rule ranges_step, simp (no_asm), simp (no_asm), simp (no_asm), simp (no_asm))+ (rule ranges_end.simps)

lemma class_PVALID_9_end: "ranges_end 121453 class_PVALID_9 = Some 210042"
  unfolding class_PVALID_9_def
  by (rule ranges_step, simp (no_asm), simp (no_asm), simp (no_asm), simp (no_asm))+ (rule ranges_end.simps)

lemma class_PVALID_end: "ranges_end 0 class_PVALID = Some 210042"
  by (simp add: class_PVALID_def ranges_end_append class_PVALID_1_end class_PVALID_2_end class_PVALID_3_end class_PVALID_4_end class_PVALID_5_end class_PVALID_6_end class_PVALID_7_end class_PVALID_8_end class_PVALID_9_end)

lemma class_CONTEXTJ_end: "ranges_end 0 class_CONTEXTJ = Some 8206"
  unfolding class_CONTEXTJ_def
  by (rule ranges_step, simp (no_asm), simp (no_asm), simp (no_asm), simp (no_asm))+ (rule ranges_end.simps)

lemma class_CONTEXTO_end: "ranges_end 0 class_CONTEXTO = Some 12540"
  unfolding class_CONTEXTO_def
  by (rule ranges_step, simp (no_asm), simp (no_asm), simp (no_asm), simp (no_asm))+ (rule ranges_end.simps)

end
