(* ===== verification/Punycode.thy ===== *)
theory Punycode
  imports Idna_Ranges
begin

text \<open>
  The \<^verbatim>\<open>punycode\<close> codec of Python's standard library (RFC 3492), which \<^verbatim>\<open>idna/core.py\<close> uses to
  write a label in ASCII and to read it back. Strings and byte strings are lists of code points.
  Where the library keeps a position that starts at -1, the model keeps it plus one; where it
  raises \<^verbatim>\<open>UnicodeError\<close>, the model has \<open>None\<close>.

  The main fact is \<open>punycode_round_trip\<close>: decoding what was encoded gives the string back. It
  is proved in two steps: the variable-length integers are read back with the bias they were
  written with (\<open>insertion_sort_insert_all\<close>), and the insertions they stand for rebuild the
  string, one code point at a time in increasing order (\<open>insert_scan\<close>).
\<close>

section \<open>Variable-length integers\<close>

definition threshold :: "nat \<Rightarrow> nat \<Rightarrow> nat" where
  "threshold j bias =
     (let res = 36 * (int j + 1) - int bias
      in if res < 1 then 1 else if res > 26 then 26 else nat res)"

definition puny_digit :: "nat \<Rightarrow> nat" where
  "puny_digit n = (if n < 26 then 97 + n else 22 + n)"

definition upper_ascii :: "nat \<Rightarrow> nat" where
  "upper_ascii c = (if 97 \<le> c \<and> c \<le> 122 then c - 32 else c)"

lemma threshold_bounds: "1 \<le> threshold j bias" "threshold j bias \<le> 26"
  by (auto simp: threshold_def Let_def)

function generalized_integer :: "nat \<Rightarrow> nat \<Rightarrow> nat \<Rightarrow> nat list" where
  "generalized_integer n bias j =
     (let t = threshold j bias
      in if n < t then [puny_digit n]
         else puny_digit (t + (n - t) mod (36 - t))
                # generalized_integer ((n - t) div (36 - t)) bias (j + 1))"
  by pat_completeness auto

termination
proof (relation "measure (\<lambda>(n, bias, j). n)")
  fix n bias j t :: nat
  assume t: "t = threshold j bias" and "\<not> n < t"
  then have "n - t < n" using threshold_bounds(1) [of j bias] by simp
  then have "(n - t) div (36 - t) < n" by (rule le_less_trans [OF div_le_dividend])
  then show "(((n - t) div (36 - t), bias, j + 1), n, bias, j) \<in> measure (\<lambda>(n, bias, j). n)"
    by simp
qed simp

declare generalized_integer.simps [simp del]

definition digit_value :: "nat \<Rightarrow> nat option" where
  "digit_value c =
     (if 65 \<le> c \<and> c \<le> 90 then Some (c - 65) else if 48 \<le> c \<and> c \<le> 57 then Some (c - 22) else None)"

fun generalized_number :: "nat list \<Rightarrow> nat \<Rightarrow> nat \<Rightarrow> nat \<Rightarrow> nat \<Rightarrow> (nat \<times> nat list) option" where
  "generalized_number [] bias j w result = None"
| "generalized_number (c # cs) bias j w result =
     (case digit_value c of
        None \<Rightarrow> None
      | Some digit \<Rightarrow>
          (let t = threshold j bias; result' = result + digit * w
           in if digit < t then Some (result', cs)
              else generalized_number cs bias (j + 1) (w * (36 - t)) result'))"

lemma generalized_number_shorter:
  "generalized_number cs bias j w r = Some (n, rest) \<Longrightarrow> length rest < length cs"
proof (induction cs bias j w r rule: generalized_number.induct)
  case (2 c cs bias j w r)
  show ?case
  proof (cases "digit_value c")
    case (Some d)
    then show ?thesis
      using 2 by (cases "d < threshold j bias") (auto simp: Let_def intro: less_SucI)
  qed (use 2 in simp)
qed simp

lemma digit_value_digit: "n < 36 \<Longrightarrow> digit_value (upper_ascii (puny_digit n)) = Some n"
  by (auto simp: digit_value_def upper_ascii_def puny_digit_def)

lemma read_integer:
  "generalized_number (map upper_ascii (generalized_integer n bias j) @ rest) bias j w r
    = Some (r + n * w, rest)"
proof (induction n bias j arbitrary: w r rule: generalized_integer.induct)
  case (1 n bias j)
  define t where "t = threshold j bias"
  have t: "1 \<le> t" "t \<le> 26" using threshold_bounds [of j bias] by (auto simp: t_def)
  show ?case
  proof (cases "n < t")
    case True
    then show ?thesis
      using t by (subst generalized_integer.simps) (simp add: t_def [symmetric] Let_def digit_value_digit)
  next
    case False
    define q m where "q = (n - t) div (36 - t)" and "m = (n - t) mod (36 - t)"
    have n: "n = t + m + (36 - t) * q" using False by (simp add: q_def m_def)
    have "m < 36 - t" using t unfolding m_def by (intro mod_less_divisor) simp
    then have m: "t + m < 36" by simp
    have "generalized_number (map upper_ascii (generalized_integer n bias j) @ rest) bias j w r
        = generalized_number (map upper_ascii (generalized_integer q bias (j + 1)) @ rest) bias (j + 1)
            (w * (36 - t)) (r + (t + m) * w)"
      using False m
      by (subst generalized_integer.simps)
        (simp add: t_def [symmetric] Let_def digit_value_digit q_def m_def)
    also have "\<dots> = Some (r + (t + m) * w + q * (w * (36 - t)), rest)"
      using "1.IH" [OF t_def] False by (simp add: q_def)
    also have "r + (t + m) * w + q * (w * (36 - t)) = r + n * w" by (simp add: n algebra_simps)
    finally show ?thesis .
  qed
qed

section \<open>Bias adaptation\<close>

function adapt_loop :: "nat \<Rightarrow> nat \<Rightarrow> nat \<times> nat" where
  "adapt_loop delta divisions =
     (if delta > 455 then adapt_loop (delta div 35) (divisions + 36) else (delta, divisions))"
  by pat_completeness auto

termination
  by (relation "measure fst") auto

declare adapt_loop.simps [simp del]

definition adapt :: "nat \<Rightarrow> bool \<Rightarrow> nat \<Rightarrow> nat" where
  "adapt delta first numchars =
     (let d = (if first then delta div 700 else delta div 2);
          (d', divisions) = adapt_loop (d + d div numchars) 0
      in divisions + 36 * d' div (d' + 38))"

fun generate_integers :: "nat \<Rightarrow> nat list \<Rightarrow> nat \<Rightarrow> nat \<Rightarrow> nat list" where
  "generate_integers baselen [] points bias = []"
| "generate_integers baselen (delta # deltas) points bias =
     generalized_integer delta bias 0
       @ generate_integers baselen deltas (points + 1)
           (adapt delta (points = 0) (baselen + points + 1))"

section \<open>Encoding\<close>

definition segregate :: "ustr \<Rightarrow> nat list \<times> nat list" where
  "segregate str = (filter (\<lambda>c. c < 128) str, sort (remdups (filter (\<lambda>c. \<not> c < 128) str)))"

definition selective_len :: "ustr \<Rightarrow> nat \<Rightarrow> nat" where
  "selective_len str max' = length (filter (\<lambda>c. c < max') str)"

text \<open>
  One pass of the inner loop of \<^verbatim>\<open>insertion_unsort\<close> for the code point \<open>c\<close>: \<open>index\<close> counts the
  code points up to \<open>c\<close> that were passed, \<open>old\<close> is the previous insertion's index plus one.
\<close>

fun unsort_scan :: "ustr \<Rightarrow> nat \<Rightarrow> nat \<Rightarrow> nat \<Rightarrow> nat \<Rightarrow> nat list \<times> nat" where
  "unsort_scan [] c index old delta = ([], old)"
| "unsort_scan (x # xs) c index old delta =
     (if x = c
      then (let (deltas, old') = unsort_scan xs c (index + 1) (index + 1) 0
            in ((delta + index - old) # deltas, old'))
      else if x < c then unsort_scan xs c (index + 1) old delta
      else unsort_scan xs c index old delta)"

fun insertion_unsort :: "ustr \<Rightarrow> nat list \<Rightarrow> nat \<Rightarrow> nat \<Rightarrow> nat list" where
  "insertion_unsort str [] oldchar old = []"
| "insertion_unsort str (c # cs) oldchar old =
     (let (deltas, old') = unsort_scan str c 0 old ((selective_len str c + 1) * (c - oldchar))
      in deltas @ insertion_unsort str cs c old')"

definition punycode_encode :: "ustr \<Rightarrow> nat list" where
  "punycode_encode text =
     (let (base, extended) = segregate text;
          digits = generate_integers (length base) (insertion_unsort text extended 128 0) 0 72
      in if base \<noteq> [] then base @ [45] @ digits else digits)"

section \<open>Decoding\<close>

function insertion_sort :: "ustr \<Rightarrow> nat list \<Rightarrow> nat \<Rightarrow> nat \<Rightarrow> nat \<Rightarrow> bool \<Rightarrow> ustr option" where
  "insertion_sort base extended char' i bias first =
     (if extended = [] then Some base
      else case generalized_number extended bias 0 1 0 of
             None \<Rightarrow> None
           | Some (delta, rest) \<Rightarrow>
               (let pos = i + delta; c = char' + pos div (length base + 1);
                    p = pos mod (length base + 1)
                in if c > 0x10FFFF then None
                   else insertion_sort (take p base @ [c] @ drop p base) rest c (p + 1)
                          (adapt delta first (length base + 1)) False))"
  by pat_completeness auto

termination
  by (relation "measure (\<lambda>(base, extended, c, i, bias, first). length extended)")
    (auto dest: generalized_number_shorter)

declare insertion_sort.simps [simp del]

definition punycode_decode :: "nat list \<Rightarrow> ustr option" where
  "punycode_decode text =
     (if \<exists>b \<in> set text. \<not> b < 128 then None
      else if 45 \<in> set text
           then insertion_sort (rev (tl (dropWhile (\<lambda>b. b \<noteq> 45) (rev text))))
                  (map upper_ascii (rev (takeWhile (\<lambda>b. b \<noteq> 45) (rev text)))) 128 0 72 True
           else insertion_sort [] (map upper_ascii text) 128 0 72 True)"


section \<open>The insertions\<close>

text \<open>What the decoder does with the integers once they are read.\<close>

fun insert_all :: "ustr \<Rightarrow> nat list \<Rightarrow> nat \<Rightarrow> nat \<Rightarrow> ustr option" where
  "insert_all base [] char' i = Some base"
| "insert_all base (delta # deltas) char' i =
     (let pos = i + delta; c = char' + pos div (length base + 1); p = pos mod (length base + 1)
      in if c > 0x10FFFF then None
         else insert_all (take p base @ [c] @ drop p base) deltas c (p + 1))"

lemma generalized_integer_not_Nil: "generalized_integer n bias j \<noteq> []"
  by (subst generalized_integer.simps) (simp add: Let_def)

lemma insertion_sort_Nil [simp]: "insertion_sort base [] c i bias first = Some base"
  by (subst insertion_sort.simps) simp

lemma insertion_sort_insert_all:
  assumes "length base = baselen + points"
  shows "insertion_sort base (map upper_ascii (generate_integers baselen deltas points bias)) c i bias (points = 0)
    = insert_all base deltas c i"
  using assms
proof (induction deltas arbitrary: base points bias c i)
  case (Cons delta deltas)
  define rest where
    "rest = generate_integers baselen deltas (points + 1) (adapt delta (points = 0) (baselen + points + 1))"
  define pos where "pos = i + delta"
  define c' where "c' = c + pos div (length base + 1)"
  define p where "p = pos mod (length base + 1)"
  define base' where "base' = take p base @ [c'] @ drop p base"
  have read: "generalized_number
      (map upper_ascii (generate_integers baselen (delta # deltas) points bias)) bias 0 1 0
      = Some (delta, map upper_ascii rest)"
    using read_integer [of delta bias 0 "map upper_ascii rest" 1 0] by (simp add: rest_def)
  have "length base' = baselen + (points + 1)"
    using Cons.prems unfolding base'_def by simp
  from Cons.IH [OF this]
  have IH: "insertion_sort base' (map upper_ascii rest) c' (p + 1)
      (adapt delta (points = 0) (baselen + points + 1)) False = insert_all base' deltas c' (p + 1)"
    by (simp add: rest_def)
  have "map upper_ascii (generate_integers baselen (delta # deltas) points bias) \<noteq> []"
    by (simp add: generalized_integer_not_Nil)
  then have "insertion_sort base (map upper_ascii (generate_integers baselen (delta # deltas) points bias))
      c i bias (points = 0)
      = (if c' > 0x10FFFF then None
         else insertion_sort base' (map upper_ascii rest) c' (p + 1)
                (adapt delta (points = 0) (length base + 1)) False)"
    by (subst insertion_sort.simps)
      (simp only: if_False read option.case prod.case Let_def pos_def c'_def p_def base'_def)
  then show ?case
    using IH Cons.prems by (simp add: Let_def pos_def c'_def p_def base'_def)
qed simp

text \<open>
  One pass for the code point \<open>c\<close>: the decoder has inserted everything below \<open>c\<close>, and of \<open>c\<close>
  itself what stands in the part of the string that was passed (\<open>pre\<close>).
\<close>

lemma insert_scan:
  assumes "unsort_scan xs c (length pre) old delta = (deltas, old')"
    and "base = pre @ filter (\<lambda>x. x < c) xs"
    and "delta = (length base + 1) * (c - oc)" "oc \<le> c" "old \<le> delta + length pre" "old \<le> length base"
    and "c \<le> 0x10FFFF" "c \<in> set xs \<or> oc = c"
  shows "insert_all base (deltas @ rest) oc old
      = insert_all (pre @ filter (\<lambda>x. x \<le> c) xs) rest c old'
    \<and> old' \<le> length (pre @ filter (\<lambda>x. x \<le> c) xs)"
  using assms
proof (induction xs arbitrary: pre old delta deltas base oc)
  case (Cons x xs)
  note prems = Cons.prems
  show ?case
  proof (cases "x = c")
    case True
    obtain ds where ds: "unsort_scan xs c (length pre + 1) (length pre + 1) 0 = (ds, old')"
      and deltas: "deltas = (delta + length pre - old) # ds"
      using prems(1) True by (auto simp: Let_def split: prod.splits)
    define base' where "base' = (pre @ [c]) @ filter (\<lambda>x. x < c) xs"
    have base: "base = pre @ filter (\<lambda>x. x < c) xs" using prems(2) True by simp
    have pos: "old + (delta + length pre - old) = (length base + 1) * (c - oc) + length pre"
      using prems(3,5) by simp
    have "length pre < length base + 1" by (simp add: base)
    then have div: "((length base + 1) * (c - oc) + length pre) div (length base + 1) = c - oc"
      and mod: "((length base + 1) * (c - oc) + length pre) mod (length base + 1) = length pre"
      by (simp_all only: add.commute [of "_ * _" "length pre"] mod_mult_self2 mod_less)
        (subst div_mult_self2, simp_all)
    have "insert_all base (deltas @ rest) oc old = insert_all base' (ds @ rest) c (length pre + 1)"
      unfolding deltas using prems(4,7) div mod pos
      by (simp only: append_Cons insert_all.simps Let_def) (simp add: base'_def base)
    moreover have "insert_all base' (ds @ rest) c (length pre + 1)
        = insert_all ((pre @ [c]) @ filter (\<lambda>x. x \<le> c) xs) rest c old'
      \<and> old' \<le> length ((pre @ [c]) @ filter (\<lambda>x. x \<le> c) xs)"
      by (rule Cons.IH [of _ _ 0]) (use ds prems(7) in \<open>auto simp: base'_def\<close>)
    ultimately show ?thesis using True by simp
  next
    case False
    show ?thesis
    proof (cases "x < c")
      case True
      then show ?thesis
        using Cons.IH [of "pre @ [x]" old delta deltas base oc] prems by auto
    next
      case ge: False
      then show ?thesis
        using Cons.IH [of pre old delta deltas base oc] prems False by auto
    qed
  qed
qed auto


section \<open>The round trip\<close>

lemma insert_chars:
  assumes "sorted_wrt (<) cs" "set cs \<subseteq> set str" "\<forall>c \<in> set cs. oc \<le> c \<and> c \<le> 0x10FFFF"
    and "\<forall>x \<in> set str - set cs. \<forall>c \<in> set cs. x < c"
    and "base = filter (\<lambda>x. x \<notin> set cs) str" "old \<le> length base" "oc \<in> set cs \<Longrightarrow> old = 0"
  shows "insert_all base (insertion_unsort str cs oc old) oc old = Some str"
  using assms
proof (induction cs arbitrary: base oc old)
  case (Cons c cs)
  note prems = Cons.prems
  obtain ds old' where scan: "unsort_scan str c 0 old ((selective_len str c + 1) * (c - oc)) = (ds, old')"
    by fastforce
  have below: "x \<notin> set (c # cs) \<longleftrightarrow> x < c" if "x \<in> set str" for x
    using prems(1,4) that by fastforce
  then have base: "base = filter (\<lambda>x. x < c) str"
    unfolding prems(5) by (intro filter_cong) auto
  have upto: "x \<le> c \<longleftrightarrow> x \<notin> set cs" if "x \<in> set str" for x
    using below [OF that] prems(1) by fastforce
  then have after: "filter (\<lambda>x. x \<le> c) str = filter (\<lambda>x. x \<notin> set cs) str"
    by (intro filter_cong) auto
  have len: "selective_len str c = length base" by (simp add: selective_len_def base)
  have room: "old \<le> (length base + 1) * (c - oc)"
  proof (cases "oc = c")
    case False
    then have "1 \<le> c - oc" using prems(3) by auto
    then have "(length base + 1) * 1 \<le> (length base + 1) * (c - oc)" by (rule mult_le_mono2)
    moreover have "old \<le> (length base + 1) * 1" using prems(6) by simp
    ultimately show ?thesis by (rule order_trans [rotated])
  qed (use prems(7) in simp)
  have "insert_all base (ds @ insertion_unsort str cs c old') oc old
      = insert_all ([] @ filter (\<lambda>x. x \<le> c) str) (insertion_unsort str cs c old') c old'
    \<and> old' \<le> length ([] @ filter (\<lambda>x. x \<le> c) str)"
    by (rule insert_scan [where delta = "(selective_len str c + 1) * (c - oc)"])
      (use scan room prems len base in auto)
  moreover have "insert_all (filter (\<lambda>x. x \<le> c) str) (insertion_unsort str cs c old') c old' = Some str"
    if "old' \<le> length (filter (\<lambda>x. x \<le> c) str)"
    using prems(1-4) that upto by (intro Cons.IH) (auto simp: after intro: less_imp_le)
  ultimately show ?case using scan by simp
qed simp

lemma generated_digits: "c \<in> set (generalized_integer n bias j) \<Longrightarrow> 97 \<le> c \<and> c \<le> 122 \<or> 48 \<le> c \<and> c \<le> 57"
proof (induction n bias j rule: generalized_integer.induct)
  case (1 n bias j)
  define t where "t = threshold j bias"
  have t: "1 \<le> t" "t \<le> 26" using threshold_bounds [of j bias] by (auto simp: t_def)
  then have "(n - t) mod (36 - t) < 36 - t" by (intro mod_less_divisor) simp
  then have "t + (n - t) mod (36 - t) < 36" by simp
  then have digit: "97 \<le> puny_digit d \<and> puny_digit d \<le> 122 \<or> 48 \<le> puny_digit d \<and> puny_digit d \<le> 57"
    if "d = t + (n - t) mod (36 - t) \<or> d = n \<and> n < t" for d
    using that t by (auto simp: puny_digit_def)
  have "generalized_integer n bias j =
      (if n < t then [puny_digit n]
       else puny_digit (t + (n - t) mod (36 - t)) # generalized_integer ((n - t) div (36 - t)) bias (j + 1))"
    by (subst generalized_integer.simps) (simp add: t_def Let_def)
  then show ?case using "1.IH" [OF t_def] "1.prems" digit by (auto split: if_splits)
qed

lemma integers_digits: "c \<in> set (generate_integers b ds p bias) \<Longrightarrow> 97 \<le> c \<and> c \<le> 122 \<or> 48 \<le> c \<and> c \<le> 57"
  by (induction ds arbitrary: p bias) (auto dest: generated_digits)

lemma insert_segregated:
  assumes "\<forall>c \<in> set text. c \<le> 0x10FFFF"
  shows "insert_all (fst (segregate text)) (insertion_unsort text (snd (segregate text)) 128 0) 128 0 = Some text"
proof -
  have "sorted_wrt (<) (sort (remdups (filter (\<lambda>c. \<not> c < 128) text)))"
    by (simp add: strict_sorted_iff)
  then show ?thesis
    using assms by (intro insert_chars) (auto simp: segregate_def intro: filter_cong)
qed

theorem punycode_round_trip:
  assumes "\<forall>c \<in> set text. c \<le> 0x10FFFF"
  shows "punycode_decode (punycode_encode text) = Some text"
proof -
  obtain base ext where seg: "segregate text = (base, ext)" by fastforce
  define digits where "digits = generate_integers (length base) (insertion_unsort text ext 128 0) 0 72"
  have digits: "c \<in> set digits \<Longrightarrow> 97 \<le> c \<and> c \<le> 122 \<or> 48 \<le> c \<and> c \<le> 57" for c
    unfolding digits_def by (rule integers_digits)
  then have ascii: "c \<in> set digits \<Longrightarrow> c < 128" "c \<in> set digits \<Longrightarrow> c \<noteq> 45" for c by fastforce+
  have base: "\<forall>c \<in> set base. c < 128" using seg by (auto simp: segregate_def)
  have rest: "insertion_sort base (map upper_ascii digits) 128 0 72 True = Some text"
    using insertion_sort_insert_all [of base "length base" 0 "insertion_unsort text ext 128 0" 72 128 0]
      insert_segregated [OF assms] by (simp add: seg digits_def)
  show ?thesis
  proof (cases "base = []")
    case True
    then have "punycode_encode text = digits" by (simp add: punycode_encode_def seg digits_def)
    then show ?thesis using ascii rest True by (auto simp: punycode_decode_def)
  next
    case False
    then have enc: "punycode_encode text = base @ [45] @ digits"
      by (simp add: punycode_encode_def seg digits_def)
    have "rev (tl (dropWhile (\<lambda>b. b \<noteq> 45) (rev (base @ [45] @ digits)))) = base"
      "rev (takeWhile (\<lambda>b. b \<noteq> 45) (rev (base @ [45] @ digits))) = digits"
      using ascii(2) by (simp_all add: dropWhile_append takeWhile_append)
    then show ?thesis using ascii(1) base rest enc by (auto simp: punycode_decode_def)
  qed
qed


section \<open>The form of an encoded string\<close>

lemma encode_chars:
  "c \<in> set (punycode_encode text) \<Longrightarrow>
    c \<in> set text \<and> c < 128 \<or> c = 45 \<or> 97 \<le> c \<and> c \<le> 122 \<or> 48 \<le> c \<and> c \<le> 57"
  by (auto simp: punycode_encode_def segregate_def Let_def dest!: integers_digits split: if_splits)

lemma encode_last:
  assumes "\<forall>c \<in> set text. c \<le> 0x10FFFF" "\<not> (\<forall>c \<in> set text. c < 128)"
  shows "punycode_encode text \<noteq> []" "last (punycode_encode text) \<noteq> 45"
proof -
  obtain base ext where seg: "segregate text = (base, ext)" by fastforce
  define digits where "digits = generate_integers (length base) (insertion_unsort text ext 128 0) 0 72"
  have "base \<noteq> text" using assms(2) seg by (auto simp: segregate_def filter_id_conv)
  then have "insertion_unsort text ext 128 0 \<noteq> []"
    using insert_segregated [OF assms(1)] by (auto simp: seg)
  then have ne: "digits \<noteq> []"
    by (cases "insertion_unsort text ext 128 0") (auto simp: digits_def generalized_integer_not_Nil)
  then have "last digits \<noteq> 45"
    using integers_digits [of "last digits"] last_in_set [OF ne] unfolding digits_def by fastforce
  moreover have "punycode_encode text = (if base \<noteq> [] then base @ [45] @ digits else digits)"
    by (simp add: punycode_encode_def seg digits_def)
  ultimately show "punycode_encode text \<noteq> []" "last (punycode_encode text) \<noteq> 45" using ne by auto
qed

end
