(* ===== verification/Idna_Core.thy ===== *)
theory Idna_Core
  imports Idna_Data Punycode
begin

text \<open>
  Internationalised labels (\<^verbatim>\<open>idna/core.py\<close>): the length checks, the Bidi rule, the contextual
  rules and \<^verbatim>\<open>check_label\<close>, and the two conversions \<^verbatim>\<open>alabel\<close> and \<^verbatim>\<open>ulabel\<close>.

  A \<^verbatim>\<open>str\<close> is a list of code points, a byte string a list of bytes; an argument that may be
  either is a \<open>py_text\<close>. What the code asks of Python's \<^verbatim>\<open>unicodedata\<close> and of the Unicode case
  and \<^verbatim>\<open>repr\<close> tables is the record \<open>unicode_data\<close>, an argument of the definitions that use it. An
  exception is a value with the message it is raised with.
\<close>

section \<open>Exceptions, and what Python knows of Unicode\<close>

datatype idna_exc =
    IDNAError string
  | IDNABidiError string
  | InvalidCodepoint string
  | InvalidCodepointContext string
  | PyValueError string
  | PyUnicodeError
  | PyIndexError
  | PyKeyError

text \<open>The last three of the library's classes extend the first.\<close>

fun is_IDNAError :: "idna_exc \<Rightarrow> bool" where
  "is_IDNAError (IDNAError _) = True"
| "is_IDNAError (IDNABidiError _) = True"
| "is_IDNAError (InvalidCodepoint _) = True"
| "is_IDNAError (InvalidCodepointContext _) = True"
| "is_IDNAError _ = False"

type_synonym 'a idna_res = "idna_exc + 'a"

record unicode_data =
  bidirectional :: "code_point \<Rightarrow> string"
  category :: "code_point \<Rightarrow> string"
  combining :: "code_point \<Rightarrow> nat"
  char_name :: "code_point \<Rightarrow> string option"
  nfc :: "ustr \<Rightarrow> ustr"
  lower_ustr :: "ustr \<Rightarrow> ustr"
  repr_ustr :: "ustr \<Rightarrow> string"

datatype py_text = Str ustr | Bytes "nat list"

definition virama_combining_class :: nat where "virama_combining_class = 9"
definition alabel_prefix :: "nat list" where "alabel_prefix = [120, 110, 45, 45]"
definition max_input_length :: nat where "max_input_length = 1024"

definition bidi_rtl_first :: "string list" where "bidi_rtl_first = [''R'', ''AL'']"
definition bidi_rtl_categories :: "string list" where "bidi_rtl_categories = [''R'', ''AL'', ''AN'']"
definition bidi_rtl_allowed :: "string list" where
  "bidi_rtl_allowed = [''R'', ''AL'', ''AN'', ''EN'', ''ES'', ''CS'', ''ET'', ''ON'', ''BN'', ''NSM'']"
definition bidi_rtl_valid_ending :: "string list" where
  "bidi_rtl_valid_ending = [''R'', ''AL'', ''EN'', ''AN'']"
definition bidi_rtl_numeric :: "string list" where "bidi_rtl_numeric = [''AN'', ''EN'']"
definition bidi_ltr_allowed :: "string list" where
  "bidi_ltr_allowed = [''L'', ''EN'', ''ES'', ''CS'', ''ET'', ''ON'', ''BN'', ''NSM'']"
definition bidi_ltr_valid_ending :: "string list" where "bidi_ltr_valid_ending = [''L'', ''EN'']"
definition bidi_joiner_l_or_d :: "string list" where "bidi_joiner_l_or_d = [''L'', ''D'']"
definition bidi_joiner_r_or_d :: "string list" where "bidi_joiner_r_or_d = [''R'', ''D'']"

section \<open>Lookups\<close>

definition joining_type :: "code_point \<Rightarrow> string option" where
  "joining_type cp = map_option fst (find (\<lambda>(jt, ranges). intranges_contain cp ranges) joining_types)"

definition combining_class :: "unicode_data \<Rightarrow> code_point \<Rightarrow> nat idna_res" where
  "combining_class U cp =
     (let v = combining U cp
      in if v = 0
         then (case char_name U cp of
                 None \<Rightarrow> Inl (PyValueError ''no such name'')
               | Some name \<Rightarrow>
                   if name = '''' then Inl (PyValueError ''Unknown character in unicodedata'') else Inr v)
         else Inr v)"

definition is_script :: "code_point \<Rightarrow> string \<Rightarrow> bool" where
  "is_script cp script =
     (case map_of scripts script of None \<Rightarrow> False | Some ranges \<Rightarrow> intranges_contain cp ranges)"

definition in_class :: "code_point \<Rightarrow> string \<Rightarrow> bool" where
  "in_class cp cls =
     (case map_of codepoint_classes cls of None \<Rightarrow> False | Some ranges \<Rightarrow> intranges_contain cp ranges)"

fun hex_upper :: "nat \<Rightarrow> string" where
  "hex_upper n =
     (let d = (if n mod 16 < 10 then char_of (48 + n mod 16) else char_of (55 + n mod 16))
      in if n < 16 then [d] else hex_upper (n div 16) @ [d])"

declare hex_upper.simps [simp del]

definition unot :: "nat \<Rightarrow> string" where
  "unot s = ''U+'' @ replicate (4 - length (hex_upper s)) (CHR ''0'') @ hex_upper s"

definition valid_label_length :: "nat list \<Rightarrow> bool" where
  "valid_label_length label \<longleftrightarrow> length label \<le> 63"

definition valid_string_length :: "nat list \<Rightarrow> bool \<Rightarrow> bool" where
  "valid_string_length domain trailing_dot \<longleftrightarrow> length domain \<le> (if trailing_dot then 254 else 253)"

section \<open>The Bidi rule\<close>

fun bidi_label :: "unicode_data \<Rightarrow> ustr \<Rightarrow> ustr \<Rightarrow> nat \<Rightarrow> bool \<Rightarrow> bool idna_res" where
  "bidi_label U label [] idx found = Inr found"
| "bidi_label U label (cp # cps) idx found =
     (let direction = bidirectional U cp
      in if direction = ''''
         then Inl (IDNABidiError (''Unknown directionality in label '' @ repr_ustr U label
                @ '' at position '' @ nat_str idx))
         else bidi_label U label cps (idx + 1) (found \<or> direction \<in> set bidi_rtl_categories))"

text \<open>The second loop of \<^verbatim>\<open>check_bidi\<close>; the result is whether the label may end where it does.\<close>

fun bidi_rules ::
  "unicode_data \<Rightarrow> bool \<Rightarrow> ustr \<Rightarrow> nat \<Rightarrow> bool \<Rightarrow> string option \<Rightarrow> bool idna_res" where
  "bidi_rules U rtl [] idx valid_ending number_type = Inr valid_ending"
| "bidi_rules U rtl (cp # cps) idx valid_ending number_type =
     (let direction = bidirectional U cp
      in if rtl
         then if direction \<notin> set bidi_rtl_allowed
              then Inl (IDNABidiError (''Invalid direction for codepoint at position '' @ nat_str idx
                     @ '' in a right-to-left label''))
              else let ending = (if direction \<in> set bidi_rtl_valid_ending then True
                                 else if direction \<noteq> ''NSM'' then False else valid_ending)
                   in if direction \<in> set bidi_rtl_numeric
                      then (case number_type of
                              None \<Rightarrow> bidi_rules U rtl cps (idx + 1) ending (Some direction)
                            | Some t \<Rightarrow>
                                if t \<noteq> direction
                                then Inl (IDNABidiError ''Can not mix numeral types in a right-to-left label'')
                                else bidi_rules U rtl cps (idx + 1) ending number_type)
                      else bidi_rules U rtl cps (idx + 1) ending number_type
         else if direction \<notin> set bidi_ltr_allowed
              then Inl (IDNABidiError (''Invalid direction for codepoint at position '' @ nat_str idx
                     @ '' in a left-to-right label''))
              else let ending = (if direction \<in> set bidi_ltr_valid_ending then True
                                 else if direction \<noteq> ''NSM'' then False else valid_ending)
                   in bidi_rules U rtl cps (idx + 1) ending number_type)"

definition check_bidi :: "unicode_data \<Rightarrow> ustr \<Rightarrow> bool \<Rightarrow> bool idna_res" where
  "check_bidi U label check_ltr =
     (if length label > max_input_length then Inl (IDNAError ''Label too long'')
      else rbind (bidi_label U label label 1 False) (\<lambda>bidi.
        if \<not> bidi \<and> \<not> check_ltr then Inr True
        else case label of
          [] \<Rightarrow> Inl PyIndexError
        | cp # _ \<Rightarrow>
            (let direction = bidirectional U cp
             in if direction \<in> set bidi_rtl_first \<or> direction = ''L''
                then rbind (bidi_rules U (direction \<in> set bidi_rtl_first) label 1 False None) (\<lambda>valid_ending.
                  if \<not> valid_ending
                  then Inl (IDNABidiError ''Label ends with illegal codepoint directionality'')
                  else Inr True)
                else Inl (IDNABidiError (''First codepoint in label '' @ repr_ustr U label
                       @ '' must be directionality L, R or AL'')))))"

section \<open>The other checks\<close>

definition check_initial_combiner :: "unicode_data \<Rightarrow> ustr \<Rightarrow> bool idna_res" where
  "check_initial_combiner U label =
     (case label of
        [] \<Rightarrow> Inl PyIndexError
      | cp # _ \<Rightarrow>
          if take 1 (category U cp) = ''M''
          then Inl (IDNAError ''Label begins with an illegal combining character'') else Inr True)"

definition check_hyphen_ok :: "ustr \<Rightarrow> bool idna_res" where
  "check_hyphen_ok label =
     (if take 2 (drop 2 label) = [45, 45]
      then Inl (IDNAError ''Label has disallowed hyphens in 3rd and 4th position'')
      else if label = [] then Inl PyIndexError
      else if hd label = 45 \<or> last label = 45
      then Inl (IDNAError ''Label must not start or end with a hyphen'')
      else Inr True)"

definition check_nfc :: "unicode_data \<Rightarrow> ustr \<Rightarrow> unit idna_res" where
  "check_nfc U label =
     (if length label > max_input_length then Inl (IDNAError ''Label too long'')
      else if nfc U label \<noteq> label then Inl (IDNAError ''Label must be in Normalization Form C'')
      else Inr ())"


section \<open>Contextual rules\<close>

text \<open>Whether the first neighbour that is not transparent joins as the rule asks.\<close>

fun joiner_side :: "string list \<Rightarrow> ustr \<Rightarrow> bool" where
  "joiner_side allowed [] = False"
| "joiner_side allowed (cp # cps) =
     (case joining_type cp of
        None \<Rightarrow> False
      | Some jt \<Rightarrow> if jt = ''T'' then joiner_side allowed cps else jt \<in> set allowed)"

definition after_virama :: "unicode_data \<Rightarrow> ustr \<Rightarrow> nat \<Rightarrow> bool idna_res" where
  "after_virama U label pos =
     (if pos > 0
      then rbind (combining_class U (label ! (pos - 1))) (\<lambda>v. Inr (v = virama_combining_class))
      else Inr False)"

definition valid_contextj :: "unicode_data \<Rightarrow> ustr \<Rightarrow> nat \<Rightarrow> bool idna_res" where
  "valid_contextj U label pos =
     (if length label > max_input_length then Inl (IDNAError ''Label too long'')
      else if \<not> pos < length label then Inl PyIndexError
      else if label ! pos = 0x200C
      then rbind (after_virama U label pos) (\<lambda>virama.
        if virama then Inr True
        else if \<not> joiner_side bidi_joiner_l_or_d (rev (take pos label)) then Inr False
        else Inr (joiner_side bidi_joiner_r_or_d (drop (pos + 1) label)))
      else if label ! pos = 0x200D then after_virama U label pos
      else Inr False)"

definition valid_contexto :: "ustr \<Rightarrow> nat \<Rightarrow> bool idna_res" where
  "valid_contexto label pos =
     (if length label > max_input_length then Inl (IDNAError ''Label too long'')
      else if \<not> pos < length label then Inl PyIndexError
      else let cp_value = label ! pos in
        if cp_value = 0xB7
        then Inr (0 < pos \<and> pos < length label - 1 \<and> label ! (pos - 1) = 0x6C \<and> label ! (pos + 1) = 0x6C)
        else if cp_value = 0x375
        then Inr (pos < length label - 1 \<and> length label > 1 \<and> is_script (label ! (pos + 1)) ''Greek'')
        else if cp_value \<in> {0x5F3, 0x5F4}
        then Inr (pos > 0 \<and> is_script (label ! (pos - 1)) ''Hebrew'')
        else if cp_value = 0x30FB
        then Inr (\<exists>cp \<in> set label. cp \<noteq> 0x30FB \<and>
               (is_script cp ''Hiragana'' \<or> is_script cp ''Katakana'' \<or> is_script cp ''Han''))
        else if 0x660 \<le> cp_value \<and> cp_value \<le> 0x669
        then Inr (\<not> (\<exists>cp \<in> set label. 0x6F0 \<le> cp \<and> cp \<le> 0x6F9))
        else if 0x6F0 \<le> cp_value \<and> cp_value \<le> 0x6F9
        then Inr (\<not> (\<exists>cp \<in> set label. 0x660 \<le> cp \<and> cp \<le> 0x669))
        else Inr False)"

section \<open>Labels\<close>

definition utf8_cont :: "nat \<Rightarrow> bool" where
  "utf8_cont b \<longleftrightarrow> 0x80 \<le> b \<and> b \<le> 0xBF"

text \<open>Python's strict UTF-8 decoder: no overlong forms, no surrogates, nothing above U+10FFFF.\<close>

fun utf8_points :: "nat list \<Rightarrow> ustr option" where
  "utf8_points [] = Some []"
| "utf8_points (a # bs) =
     (if a < 0x80 then map_option ((#) a) (utf8_points bs)
      else case bs of
        [] \<Rightarrow> None
      | b # cs \<Rightarrow>
          if \<not> utf8_cont b then None
          else if 0xC2 \<le> a \<and> a \<le> 0xDF
          then map_option ((#) ((a - 0xC0) * 64 + (b - 0x80))) (utf8_points cs)
          else (case cs of
            [] \<Rightarrow> None
          | c # ds \<Rightarrow>
              if \<not> utf8_cont c then None
              else if 0xE0 \<le> a \<and> a \<le> 0xEF
              then if a = 0xE0 \<and> b < 0xA0 \<or> a = 0xED \<and> b > 0x9F then None
                   else map_option ((#) ((a - 0xE0) * 4096 + (b - 0x80) * 64 + (c - 0x80))) (utf8_points ds)
              else (case ds of
                [] \<Rightarrow> None
              | d # es \<Rightarrow>
                  if \<not> utf8_cont d \<or> \<not> (0xF0 \<le> a \<and> a \<le> 0xF4)
                     \<or> a = 0xF0 \<and> b < 0x90 \<or> a = 0xF4 \<and> b > 0x8F then None
                  else map_option ((#) ((a - 0xF0) * 262144 + (b - 0x80) * 4096 + (c - 0x80) * 64 + (d - 0x80)))
                         (utf8_points es))))"

definition is_ascii :: "nat list \<Rightarrow> bool" where
  "is_ascii s \<longleftrightarrow> (\<forall>c \<in> set s. c < 128)"

text \<open>\<^verbatim>\<open>IDNAError\<close> is a \<^verbatim>\<open>UnicodeError\<close> and so a \<^verbatim>\<open>ValueError\<close>; \<^verbatim>\<open>IndexError\<close> and \<^verbatim>\<open>KeyError\<close> are not.\<close>

definition is_ValueError :: "idna_exc \<Rightarrow> bool" where
  "is_ValueError e \<longleftrightarrow> e \<noteq> PyIndexError \<and> e \<noteq> PyKeyError"

text \<open>The body of the loop of \<^verbatim>\<open>check_label\<close> at one position.\<close>

definition check_codepoint :: "unicode_data \<Rightarrow> ustr \<Rightarrow> nat \<Rightarrow> unit idna_res" where
  "check_codepoint U label pos =
     (let cp_value = label ! pos;
          place = unot cp_value @ '' not allowed at position '' @ nat_str (pos + 1) @ '' in '' @ repr_ustr U label
      in if in_class cp_value ''PVALID'' then Inr ()
         else if in_class cp_value ''CONTEXTJ''
         then (case rbind (valid_contextj U label pos) (\<lambda>ok.
                      if \<not> ok then Inl (InvalidCodepointContext (''Joiner '' @ place)) else Inr ()) of
                 Inl e \<Rightarrow>
                   if is_ValueError e
                   then Inl (IDNAError (''Unknown codepoint adjacent to joiner '' @ unot cp_value
                          @ '' at position '' @ nat_str (pos + 1) @ '' in '' @ repr_ustr U label))
                   else Inl e
               | Inr _ \<Rightarrow> Inr ())
         else if in_class cp_value ''CONTEXTO''
         then rbind (valid_contexto label pos) (\<lambda>ok.
                if \<not> ok then Inl (InvalidCodepointContext (''Codepoint '' @ place)) else Inr ())
         else Inl (InvalidCodepoint (''Codepoint '' @ unot cp_value @ '' at position '' @ nat_str (pos + 1)
                @ '' of '' @ repr_ustr U label @ '' not allowed'')))"

fun check_codepoints :: "unicode_data \<Rightarrow> ustr \<Rightarrow> nat list \<Rightarrow> unit idna_res" where
  "check_codepoints U label [] = Inr ()"
| "check_codepoints U label (pos # ps) =
     rbind (check_codepoint U label pos) (\<lambda>_. check_codepoints U label ps)"

text \<open>\<^verbatim>\<open>check_label\<close> on a string; \<open>check_label_bytes\<close> is the call with a byte string.\<close>

definition check_label :: "unicode_data \<Rightarrow> ustr \<Rightarrow> unit idna_res" where
  "check_label U label =
     (if length label > max_input_length then Inl (IDNAError ''Label too long'')
      else if label = [] then Inl (IDNAError ''Empty Label'')
      else if \<not> valid_string_length label True then Inl (IDNAError ''Label too long'')
      else rbind (check_nfc U label) (\<lambda>_.
           rbind (check_hyphen_ok label) (\<lambda>_.
           rbind (check_initial_combiner U label) (\<lambda>_.
           rbind (check_codepoints U label [0..<length label]) (\<lambda>_.
           rbind (check_bidi U label False) (\<lambda>_. Inr ()))))))"

definition check_label_bytes :: "unicode_data \<Rightarrow> nat list \<Rightarrow> unit idna_res" where
  "check_label_bytes U label =
     (if length label > max_input_length then Inl (IDNAError ''Label too long'')
      else case utf8_points label of None \<Rightarrow> Inl PyUnicodeError | Some s \<Rightarrow> check_label U s)"

definition lower_byte :: "nat \<Rightarrow> nat" where
  "lower_byte b = (if 65 \<le> b \<and> b \<le> 90 then b + 32 else b)"

text \<open>The rest of \<^verbatim>\<open>ulabel\<close>, on the bytes of the label.\<close>

definition ulabel_bytes :: "unicode_data \<Rightarrow> nat list \<Rightarrow> ustr idna_res" where
  "ulabel_bytes U label =
     (let label_bytes = map lower_byte label
      in if take 4 label_bytes = alabel_prefix
         then let rest = drop 4 label_bytes
              in if rest = [] then Inl (IDNAError ''Malformed A-label, no Punycode eligible content found'')
                 else if last rest = 45 then Inl (IDNAError ''A-label must not end with a hyphen'')
                 else (case punycode_decode rest of
                         None \<Rightarrow> Inl (IDNAError ''Invalid A-label'')
                       | Some u \<Rightarrow> rbind (check_label U u) (\<lambda>_. Inr u))
         else rbind (check_label_bytes U label_bytes) (\<lambda>_.
                if is_ascii label_bytes then Inr label_bytes else Inl PyUnicodeError))"

definition ulabel :: "unicode_data \<Rightarrow> py_text \<Rightarrow> ustr idna_res" where
  "ulabel U label =
     (case label of
        Str s \<Rightarrow>
          if length s > max_input_length then Inl (IDNAError ''Label too long'')
          else if is_ascii s then ulabel_bytes U s
          else rbind (check_label U s) (\<lambda>_. Inr s)
      | Bytes b \<Rightarrow>
          if length b > max_input_length then Inl (IDNAError ''Label too long'') else ulabel_bytes U b)"

definition alabel :: "unicode_data \<Rightarrow> ustr \<Rightarrow> nat list idna_res" where
  "alabel U label =
     (if length label > max_input_length then Inl (IDNAError ''Label too long'')
      else if is_ascii label
      then rbind (ulabel U (Bytes label)) (\<lambda>_.
             if \<not> valid_label_length label then Inl (IDNAError ''Label too long'') else Inr label)
      else rbind (check_label U label) (\<lambda>_.
             let label_bytes = alabel_prefix @ punycode_encode label
             in if \<not> valid_label_length label_bytes then Inl (IDNAError ''Label too long'')
                else Inr label_bytes))"


section \<open>What the tables contain\<close>

definition points_of :: "nat list \<Rightarrow> nat set" where
  "points_of ranges = {c. in_ranges c (ranges_of ranges)}"

lemma table_lookup:
  assumes "ranges_end 0 ranges = Some e"
  shows "intranges_contain c ranges \<longleftrightarrow> c \<in> points_of ranges"
  using ranges_end_wf [OF assms] by (simp add: intranges_contain_iff points_of_def)

lemma in_class_iff:
  "in_class c ''PVALID'' \<longleftrightarrow> c \<in> points_of class_PVALID"
  "in_class c ''CONTEXTJ'' \<longleftrightarrow> c \<in> points_of class_CONTEXTJ"
  "in_class c ''CONTEXTO'' \<longleftrightarrow> c \<in> points_of class_CONTEXTO"
  using table_lookup [OF class_PVALID_end] table_lookup [OF class_CONTEXTJ_end]
    table_lookup [OF class_CONTEXTO_end]
  by (simp_all add: in_class_def codepoint_classes_def)

lemma points_from:
  assumes "ranges_end lo rs = Some hi" "c \<in> points_of rs"
  shows "lo \<le> c"
  using ranges_end_wf [OF assms(1)] assms(2) by (fastforce simp: points_of_def in_ranges_def)

lemma points_of_append: "points_of (rs @ rs') = points_of rs \<union> points_of rs'"
  by (auto simp: points_of_def in_ranges_def ranges_of_def)

lemma points_of_Cons:
  "decode_range r = (s, e) \<Longrightarrow> points_of (r # rs) = {s..<e} \<union> points_of rs"
  by (auto simp: points_of_def in_ranges_def ranges_of_def)

lemma points_of_Nil [simp]: "points_of [] = {}"
  by (simp add: points_of_def in_ranges_def ranges_of_def)

lemma pvalid_head: "class_PVALID = [0x2D0000002E, 0x300000003A, 0x610000007B, 0xDF000000F7, 0xF800000100]
    @ drop 5 class_PVALID"
  by (simp add: class_PVALID_def class_PVALID_1_def)

lemma pvalid_points:
  "points_of class_PVALID = {0x2D} \<union> {0x30..<0x3A} \<union> {0x61..<0x7B} \<union> {0xDF..<0xF7} \<union> {0xF8..<0x100}
    \<union> points_of (drop 5 class_PVALID)"
  by (subst pvalid_head) (auto simp: points_of_append points_of_Cons decode_range_div)

lemma pvalid_rest: "c \<in> points_of (drop 5 class_PVALID) \<Longrightarrow> 0x100 \<le> c"
proof -
  have "Option.bind (ranges_end 0 (take 5 class_PVALID)) (\<lambda>e. ranges_end e (drop 5 class_PVALID))
      = ranges_end 0 class_PVALID"
    by (simp flip: ranges_end_append)
  moreover have "take 5 class_PVALID = [0x2D0000002E, 0x300000003A, 0x610000007B, 0xDF000000F7, 0xF800000100]"
    by (subst pvalid_head) simp
  ultimately have "\<exists>hi. ranges_end 0x100 (drop 5 class_PVALID) = Some hi"
    using class_PVALID_end by (simp add: decode_range_div)
  then show "c \<in> points_of (drop 5 class_PVALID) \<Longrightarrow> 0x100 \<le> c" using points_from by blast
qed

definition ldh :: "code_point \<Rightarrow> bool" where
  "ldh c \<longleftrightarrow> c = 45 \<or> 48 \<le> c \<and> c \<le> 57 \<or> 97 \<le> c \<and> c \<le> 122"

lemma contextual_points:
  "points_of class_CONTEXTJ = {0x200C..<0x200E}"
  "c \<in> points_of class_CONTEXTO \<Longrightarrow> 0xB7 \<le> c"
  by (simp_all add: class_CONTEXTJ_def class_CONTEXTO_def points_of_Cons decode_range_div) auto

text \<open>The ASCII code points a label may have are lower-case letters, digits and the hyphen.\<close>

lemma allowed_ascii:
  assumes "check_codepoint U label pos = Inr ()" "label ! pos < 128"
  shows "ldh (label ! pos)"
proof -
  have "\<not> in_class (label ! pos) ''CONTEXTJ''" "\<not> in_class (label ! pos) ''CONTEXTO''"
    using assms(2) contextual_points(2) [of "label ! pos"] by (auto simp: in_class_iff contextual_points(1))
  then have "label ! pos \<in> points_of class_PVALID"
    using assms(1) by (auto simp: check_codepoint_def Let_def in_class_iff split: if_splits)
  then show ?thesis using assms(2) pvalid_rest [of "label ! pos"] by (auto simp: pvalid_points ldh_def)
qed

section \<open>What a check accepts\<close>

lemma check_codepoints_iff:
  "check_codepoints U label ps = Inr () \<longleftrightarrow> (\<forall>pos \<in> set ps. check_codepoint U label pos = Inr ())"
  by (induction ps) (auto simp: rbind_Inr_iff)

text \<open>What \<^verbatim>\<open>check_label\<close> asks of one code point of a label, over the sets of the tables.\<close>

definition codepoint_ok :: "unicode_data \<Rightarrow> ustr \<Rightarrow> nat \<Rightarrow> bool" where
  "codepoint_ok U label pos \<longleftrightarrow>
     label ! pos \<in> points_of class_PVALID
     \<or> label ! pos \<in> points_of class_CONTEXTJ \<and> valid_contextj U label pos = Inr True
     \<or> label ! pos \<in> points_of class_CONTEXTO \<and> label ! pos \<notin> points_of class_CONTEXTJ
       \<and> valid_contexto label pos = Inr True"

lemma check_codepoint_iff: "check_codepoint U label pos = Inr () \<longleftrightarrow> codepoint_ok U label pos"
  by (cases "valid_contextj U label pos"; cases "valid_contexto label pos")
    (auto simp: check_codepoint_def codepoint_ok_def Let_def in_class_iff)


section \<open>The Bidi rule of RFC 5893\<close>

text \<open>
  The rule as the RFC states it, over the directions of a label: which directions may occur,
  that European and Arabic numerals do not mix in a right-to-left label, and that the label
  ends in a letter or a number, marks that follow it aside.
\<close>

definition ends_with :: "string set \<Rightarrow> string list \<Rightarrow> bool" where
  "ends_with E ds \<longleftrightarrow> (\<exists>front d n. ds = front @ d # replicate n ''NSM'' \<and> d \<in> E)"

definition rtl_rule :: "string list \<Rightarrow> bool" where
  "rtl_rule ds \<longleftrightarrow> set ds \<subseteq> {''R'', ''AL'', ''AN'', ''EN'', ''ES'', ''CS'', ''ET'', ''ON'', ''BN'', ''NSM''}
     \<and> \<not> {''EN'', ''AN''} \<subseteq> set ds \<and> ends_with {''R'', ''AL'', ''EN'', ''AN''} ds"

definition ltr_rule :: "string list \<Rightarrow> bool" where
  "ltr_rule ds \<longleftrightarrow> set ds \<subseteq> {''L'', ''EN'', ''ES'', ''CS'', ''ET'', ''ON'', ''BN'', ''NSM''}
     \<and> ends_with {''L'', ''EN''} ds"

definition bidi_rule :: "string list \<Rightarrow> bool" where
  "bidi_rule ds \<longleftrightarrow>
     ds \<noteq> [] \<and> (hd ds \<in> {''R'', ''AL''} \<and> rtl_rule ds \<or> hd ds = ''L'' \<and> ltr_rule ds)"

definition ending :: "string set \<Rightarrow> bool \<Rightarrow> string list \<Rightarrow> bool" where
  "ending E v ds = foldl (\<lambda>v d. if d \<in> E then True else if d \<noteq> ''NSM'' then False else v) v ds"

lemma ending_snoc:
  "ending E v (ds @ [d]) = (if d \<in> E then True else if d \<noteq> ''NSM'' then False else ending E v ds)"
  by (simp add: ending_def)

lemma ends_with_snoc:
  assumes "''NSM'' \<notin> E"
  shows "ends_with E (ds @ [d]) \<longleftrightarrow> d \<in> E \<or> d = ''NSM'' \<and> ends_with E ds"
proof
  assume "ends_with E (ds @ [d])"
  then obtain front c n where *: "ds @ [d] = front @ c # replicate n ''NSM''" "c \<in> E"
    by (auto simp: ends_with_def)
  show "d \<in> E \<or> d = ''NSM'' \<and> ends_with E ds"
  proof (cases n)
    case (Suc m)
    then have "ds @ [d] = (front @ c # replicate m ''NSM'') @ [''NSM'']"
      using * by (simp add: replicate_append_same)
    then show ?thesis using *(2) by (auto simp: ends_with_def)
  qed (use * in simp)
next
  assume "d \<in> E \<or> d = ''NSM'' \<and> ends_with E ds"
  then show "ends_with E (ds @ [d])"
  proof
    assume "d \<in> E"
    then have "ds @ [d] = ds @ d # replicate 0 ''NSM'' \<and> d \<in> E" by simp
    then show ?thesis unfolding ends_with_def by blast
  next
    assume *: "d = ''NSM'' \<and> ends_with E ds"
    then obtain front c n where "ds = front @ c # replicate n ''NSM''" "c \<in> E"
      by (auto simp: ends_with_def)
    then have "ds @ [d] = front @ c # replicate (Suc n) ''NSM'' \<and> c \<in> E"
      using * by (simp add: replicate_append_same)
    then show ?thesis unfolding ends_with_def by blast
  qed
qed

lemma ending_iff: "''NSM'' \<notin> E \<Longrightarrow> ending E False ds \<longleftrightarrow> ends_with E ds"
proof (induction ds rule: rev_induct)
  case Nil
  then show ?case by (simp add: ending_def ends_with_def)
next
  case (snoc d ds)
  then show ?case by (auto simp: ending_snoc ends_with_snoc)
qed

lemma ending_Cons:
  "ending E v (d # ds) = ending E (if d \<in> E then True else if d \<noteq> ''NSM'' then False else v) ds"
  by (simp add: ending_def)

lemma bidi_label_iff:
  "bidi_label U label cps idx found = Inr b \<longleftrightarrow>
    '''' \<notin> set (map (bidirectional U) cps) \<and>
    b = (found \<or> set (map (bidirectional U) cps) \<inter> {''R'', ''AL'', ''AN''} \<noteq> {})"
  by (induction cps arbitrary: idx found) (auto simp: bidi_rtl_categories_def Let_def)

lemma bidi_rules_ltr:
  "bidi_rules U False cps idx v nt = Inr b \<longleftrightarrow>
    set (map (bidirectional U) cps) \<subseteq> set bidi_ltr_allowed \<and>
    b = ending (set bidi_ltr_valid_ending) v (map (bidirectional U) cps)"
  by (induction cps arbitrary: idx v) (auto simp: Let_def ending_Cons ending_def [of _ _ "[]"])

text \<open>The numerals met so far agree with the ones that follow.\<close>

definition numerals :: "string option \<Rightarrow> string list \<Rightarrow> string set" where
  "numerals nt ds = set_option nt \<union> set ds \<inter> {''EN'', ''AN''}"

lemma bidi_rules_rtl:
  assumes "set_option nt \<subseteq> {''EN'', ''AN''}"
  shows "bidi_rules U True cps idx v nt = Inr b \<longleftrightarrow>
    set (map (bidirectional U) cps) \<subseteq> set bidi_rtl_allowed \<and>
    \<not> {''EN'', ''AN''} \<subseteq> numerals nt (map (bidirectional U) cps) \<and>
    b = ending (set bidi_rtl_valid_ending) v (map (bidirectional U) cps)"
  using assms
proof (induction cps arbitrary: idx v nt)
  case Nil
  then show ?case by (cases nt) (auto simp: numerals_def ending_def)
next
  case (Cons cp cps)
  define d where "d = bidirectional U cp"
  define v' where "v' = (if d \<in> set bidi_rtl_valid_ending then True else if d \<noteq> ''NSM'' then False else v)"
  have v': "ending (set bidi_rtl_valid_ending) v (d # ds) = ending (set bidi_rtl_valid_ending) v' ds" for ds
    by (simp add: ending_Cons v'_def)
  show ?case
  proof (cases "d \<in> set bidi_rtl_allowed")
    case False
    then show ?thesis by (simp add: Let_def d_def)
  next
    case allowed: True
    show ?thesis
    proof (cases "d \<in> {''EN'', ''AN''}")
      case False
      then have "bidi_rules U True (cp # cps) idx v nt = bidi_rules U True cps (idx + 1) v' nt"
        using allowed by (simp add: Let_def d_def [symmetric] v'_def bidi_rtl_numeric_def)
      moreover have "numerals nt (d # ds) = numerals nt ds" for ds
        using False by (auto simp: numerals_def)
      ultimately show ?thesis
        using Cons.IH [OF Cons.prems] allowed v' by (simp add: d_def [symmetric])
    next
      case True
      show ?thesis
      proof (cases "nt = None \<or> nt = Some d")
        case same: True
        then have "bidi_rules U True (cp # cps) idx v nt = bidi_rules U True cps (idx + 1) v' (Some d)"
          using allowed True by (auto simp: Let_def d_def [symmetric] v'_def bidi_rtl_numeric_def)
        moreover have "numerals nt (d # ds) = numerals (Some d) ds" for ds
          using True same by (auto simp: numerals_def)
        ultimately show ?thesis
          using Cons.IH [of "Some d"] True allowed v' by (simp add: d_def [symmetric])
      next
        case False
        then obtain t where t: "nt = Some t" "t \<noteq> d" by (cases nt) auto
        then have "{''EN'', ''AN''} \<subseteq> numerals nt (d # ds)" for ds
          using True Cons.prems by (auto simp: numerals_def)
        then show ?thesis
          using t True allowed by (auto simp: Let_def d_def [symmetric] bidi_rtl_numeric_def)
      qed
    qed
  qed
qed

lemma check_bidi_iff:
  "check_bidi U label check_ltr = Inr True \<longleftrightarrow>
    length label \<le> 1024 \<and> '''' \<notin> set (map (bidirectional U) label) \<and>
    (set (map (bidirectional U) label) \<inter> {''R'', ''AL'', ''AN''} = {} \<and> \<not> check_ltr
     \<or> bidi_rule (map (bidirectional U) label))"
proof -
  define ds where "ds = map (bidirectional U) label"
  define b where "b \<longleftrightarrow> set ds \<inter> {''R'', ''AL'', ''AN''} \<noteq> {}"
  have scan: "bidi_label U label label 1 False = Inr b" if "'''' \<notin> set ds"
    using bidi_label_iff [of U label label 1 False b] that by (simp add: ds_def b_def)
  have noscan: "bidi_label U label label 1 False \<noteq> Inr x" if "'''' \<in> set ds" for x
    using bidi_label_iff [of U label label 1 False x] that by (simp add: ds_def)
  have rtl: "bidi_rules U True label (Suc 0) False None = Inr True \<longleftrightarrow> rtl_rule ds"
    using bidi_rules_rtl [of None U label "Suc 0" False True] ending_iff [of "set bidi_rtl_valid_ending" ds]
    by (auto simp: ds_def rtl_rule_def numerals_def bidi_rtl_allowed_def bidi_rtl_valid_ending_def)
  have ltr: "bidi_rules U False label (Suc 0) False None = Inr True \<longleftrightarrow> ltr_rule ds"
    using bidi_rules_ltr [of U label "Suc 0" False None True] ending_iff [of "set bidi_ltr_valid_ending" ds]
    by (auto simp: ds_def ltr_rule_def bidi_ltr_allowed_def bidi_ltr_valid_ending_def)
  have none: "rbind (bidi_rules U r label (Suc 0) False None)
        (\<lambda>v. if \<not> v then Inl (IDNABidiError m) else Inr True) = Inr True
      \<longleftrightarrow> bidi_rules U r label (Suc 0) False None = Inr True" for r m
    by (cases "bidi_rules U r label (Suc 0) False None") auto
  show ?thesis
  proof (cases "length label \<le> 1024 \<and> '''' \<notin> set ds")
    case False
    then show ?thesis
      using noscan by (auto simp: check_bidi_def max_input_length_def ds_def rbind_Inr_iff)
  next
    case True
    show ?thesis
    proof (cases "\<not> b \<and> \<not> check_ltr")
      case True
      then show ?thesis
        using \<open>length label \<le> 1024 \<and> _\<close> scan
        by (auto simp: check_bidi_def max_input_length_def ds_def b_def)
    next
      case checked: False
      have empty: "ds = [] \<longleftrightarrow> label = []" and first: "label \<noteq> [] \<Longrightarrow> bidirectional U (hd label) = hd ds"
        by (simp_all add: ds_def hd_map)
      have "check_bidi U label check_ltr = Inr True \<longleftrightarrow> bidi_rule ds"
        using True checked scan
        by (simp add: check_bidi_def max_input_length_def Let_def list.case_eq_if none bidi_rule_def
            bidi_rtl_first_def rtl ltr empty first) auto
      then show ?thesis using True checked by (auto simp: ds_def [symmetric] b_def)
    qed
  qed
qed

text \<open>
  C18: \<^verbatim>\<open>check_bidi\<close> accepts a label exactly when all its directions are known and it either has
  no right-to-left character and need not be checked, or satisfies the Bidi rule.
\<close>

theorem check_bidi_is_rule:
  "check_bidi U label check_ltr = Inr True \<longleftrightarrow>
    length label \<le> 1024 \<and> '''' \<notin> set (map (bidirectional U) label) \<and>
    (set (map (bidirectional U) label) \<inter> {''R'', ''AL'', ''AN''} = {} \<and> \<not> check_ltr
     \<or> bidi_rule (map (bidirectional U) label))"
  by (rule check_bidi_iff)


section \<open>Labels that are accepted\<close>

lemma check_bidi_True: "check_bidi U label ltr = Inr b \<Longrightarrow> b"
  by (auto simp: check_bidi_def Let_def rbind_Inr_iff split: if_splits list.splits)

lemma check_bidi_Inr: "(\<exists>b. check_bidi U label ltr = Inr b) \<longleftrightarrow> check_bidi U label ltr = Inr True"
  by (metis (full_types) check_bidi_True)

lemma check_label_iff:
  "check_label U label = Inr () \<longleftrightarrow>
    label \<noteq> [] \<and> length label \<le> 254 \<and> nfc U label = label \<and>
    take 2 (drop 2 label) \<noteq> [45, 45] \<and> hd label \<noteq> 45 \<and> last label \<noteq> 45 \<and>
    take 1 (category U (hd label)) \<noteq> ''M'' \<and>
    list_all (codepoint_ok U label) [0..<length label] \<and>
    '''' \<notin> set (map (bidirectional U) label) \<and>
    (set (map (bidirectional U) label) \<inter> {''R'', ''AL'', ''AN''} = {}
     \<or> bidi_rule (map (bidirectional U) label))"
proof -
  have nfc: "check_nfc U label = Inr x \<longleftrightarrow> length label \<le> 1024 \<and> nfc U label = label" for x
    by (simp add: check_nfc_def max_input_length_def)
  have hyphen: "check_hyphen_ok label = Inr x \<longleftrightarrow>
      x \<and> take 2 (drop 2 label) \<noteq> [45, 45] \<and> label \<noteq> [] \<and> hd label \<noteq> 45 \<and> last label \<noteq> 45" for x
    by (auto simp: check_hyphen_ok_def)
  have combiner: "check_initial_combiner U label = Inr x \<longleftrightarrow>
      x \<and> label \<noteq> [] \<and> take 1 (category U (hd label)) \<noteq> ''M''" for x
    by (cases label) (auto simp: check_initial_combiner_def)
  have points: "check_codepoints U label [0..<length label] = Inr x
      \<longleftrightarrow> list_all (codepoint_ok U label) [0..<length label]" for x
    using check_codepoints_iff [of U label "[0..<length label]"]
    by (cases x) (simp add: check_codepoint_iff list_all_iff)
  have "check_label U label = Inr () \<longleftrightarrow>
      label \<noteq> [] \<and> length label \<le> 254 \<and> nfc U label = label \<and>
      take 2 (drop 2 label) \<noteq> [45, 45] \<and> hd label \<noteq> 45 \<and> last label \<noteq> 45 \<and>
      take 1 (category U (hd label)) \<noteq> ''M'' \<and> list_all (codepoint_ok U label) [0..<length label] \<and>
      check_bidi U label False = Inr True"
    by (auto simp: check_label_def max_input_length_def valid_string_length_def rbind_Inr_iff nfc hyphen
        combiner points check_bidi_Inr dest: check_bidi_True)
  then show ?thesis by (auto simp: check_bidi_iff)
qed

text \<open>
  C19: \<^verbatim>\<open>check_label\<close> accepts exactly the labels of 1 to 254 code points that are in NFC, have no
  hyphen at either end nor two in the third and fourth place, begin with no combining mark,
  contain only code points that the tables allow, in a context the rules allow, and satisfy the
  Bidi rule when they contain a right-to-left character.
\<close>

theorem label_accepted_iff:
  "check_label U label = Inr () \<longleftrightarrow>
    label \<noteq> [] \<and> length label \<le> 254 \<and> nfc U label = label \<and>
    take 2 (drop 2 label) \<noteq> [45, 45] \<and> hd label \<noteq> 45 \<and> last label \<noteq> 45 \<and>
    take 1 (category U (hd label)) \<noteq> ''M'' \<and>
    list_all (codepoint_ok U label) [0..<length label] \<and>
    '''' \<notin> set (map (bidirectional U) label) \<and>
    (set (map (bidirectional U) label) \<inter> {''R'', ''AL'', ''AN''} = {}
     \<or> bidi_rule (map (bidirectional U) label))"
  by (rule check_label_iff)

section \<open>A-labels and U-labels\<close>

lemma points_below:
  "ranges_end lo rs = Some hi \<Longrightarrow> c \<in> points_of rs \<Longrightarrow> c < hi"
proof (induction rs arbitrary: lo)
  case (Cons r rs)
  obtain s e where se: "decode_range r = (s, e)" by fastforce
  then have rest: "ranges_end e rs = Some hi" using Cons.prems(1) by (auto split: if_splits)
  have "e \<le> hi" using rest
  proof (induction rs arbitrary: e)
    case (Cons q qs)
    then show ?case by (fastforce split: prod.splits if_splits)
  qed simp
  then show ?case using Cons.IH [OF rest] Cons.prems(2) se by (auto simp: points_of_Cons)
qed simp

lemma codepoint_ok_bound: "codepoint_ok U label pos \<Longrightarrow> label ! pos \<le> 0x10FFFF"
  using points_below [OF class_PVALID_end, of "label ! pos"]
    points_below [OF class_CONTEXTJ_end, of "label ! pos"]
    points_below [OF class_CONTEXTO_end, of "label ! pos"]
  by (auto simp: codepoint_ok_def)

lemma accepted_points:
  assumes "check_label U label = Inr ()" "c \<in> set label"
  shows "c \<le> 0x10FFFF" "c < 128 \<Longrightarrow> ldh c"
proof -
  obtain pos where pos: "pos < length label" "label ! pos = c"
    using assms(2) by (auto simp: in_set_conv_nth)
  then have "codepoint_ok U label pos"
    using assms(1) by (auto simp: check_label_iff list_all_iff)
  then show "c \<le> 0x10FFFF" "c < 128 \<Longrightarrow> ldh c"
    using codepoint_ok_bound [of U label pos] allowed_ascii [of U label pos] pos
    by (auto simp: check_codepoint_iff)
qed

lemma lower_byte_id: "\<not> (65 \<le> b \<and> b \<le> 90) \<Longrightarrow> lower_byte b = b"
  by (simp add: lower_byte_def)

lemma encoded_label:
  assumes "check_label U label = Inr ()" "c \<in> set (punycode_encode label)"
  shows "ldh c"
  using encode_chars [OF assms(2)] accepted_points(2) [OF assms(1)] by (auto simp: ldh_def)

lemma ldh_ascii: "ldh c \<Longrightarrow> c < 128 \<and> lower_byte c = c \<and> c \<noteq> 46"
  by (auto simp: ldh_def lower_byte_def)

lemma map_lower_ldh: "(\<And>c. c \<in> set s \<Longrightarrow> ldh c) \<Longrightarrow> map lower_byte s = s"
  by (rule map_idI) (simp add: ldh_ascii)

lemma alabel_unicode:
  assumes "alabel U label = Inr a" "\<not> is_ascii label"
  shows "check_label U label = Inr ()" "a = alabel_prefix @ punycode_encode label" "length a \<le> 63"
  using assms by (auto simp: alabel_def rbind_Inr_iff Let_def valid_label_length_def split: if_splits)

lemma alabel_ascii:
  assumes "alabel U label = Inr a" "is_ascii label"
  shows "a = label" "length a \<le> 63" "\<exists>u. ulabel U (Bytes label) = Inr u"
  using assms by (auto simp: alabel_def rbind_Inr_iff valid_label_length_def split: if_splits)

lemma alabel_chars:
  assumes "alabel U label = Inr a" "\<not> is_ascii label" "c \<in> set a"
  shows "ldh c"
  using alabel_unicode [OF assms(1,2)] encoded_label assms(3)
  by (auto simp: alabel_prefix_def ldh_def)

lemma utf8_points_ascii: "is_ascii s \<Longrightarrow> utf8_points s = Some s"
  by (induction s) (auto simp: is_ascii_def)

lemma ulabel_not_Nil: "ulabel U (Bytes b) = Inr u \<Longrightarrow> b \<noteq> []"
  by (auto simp: ulabel_def ulabel_bytes_def check_label_bytes_def check_label_def alabel_prefix_def
      split: if_splits)

lemma alabel_read_back:
  assumes "alabel U label = Inr a"
  shows "is_ascii a \<and> 0 < length a \<and> length a \<le> 63 \<and>
    (\<exists>u. ulabel U (Bytes a) = Inr u \<and> (is_ascii label \<or> u = label))"
proof (cases "is_ascii label")
  case True
  then show ?thesis using alabel_ascii [OF assms True] ulabel_not_Nil by auto
next
  case False
  note a = alabel_unicode [OF assms False]
  have points: "\<forall>c \<in> set label. c \<le> 0x10FFFF" using accepted_points(1) [OF a(1)] by blast
  have puny: "punycode_encode label \<noteq> []" "last (punycode_encode label) \<noteq> 45"
    using encode_last [OF points] False by (auto simp: is_ascii_def)
  have lower: "map lower_byte a = a" by (rule map_lower_ldh) (rule alabel_chars [OF assms False])
  have "ulabel_bytes U a = Inr label"
    using puny punycode_round_trip [OF points] a(1)
    by (simp add: ulabel_bytes_def lower a(2) [symmetric]) (simp add: a(2) alabel_prefix_def)
  moreover have "is_ascii a" using alabel_chars [OF assms False] ldh_ascii by (auto simp: is_ascii_def)
  ultimately show ?thesis
    using a(2,3) by (auto simp: ulabel_def max_input_length_def alabel_prefix_def)
qed

text \<open>
  C20: every A-label that \<^verbatim>\<open>alabel\<close> produces is 1 to 63 ASCII bytes that \<^verbatim>\<open>ulabel\<close> reads back,
  to the very label that was given when that is not an ASCII one.
\<close>

theorem ulabel_alabel:
  assumes "alabel U label = Inr a"
  shows "is_ascii a \<and> 0 < length a \<and> length a \<le> 63 \<and>
    (\<exists>u. ulabel U (Bytes a) = Inr u \<and> (is_ascii label \<or> u = label))"
  by (rule alabel_read_back [OF assms])

text \<open>A part of Unicode for the examples: ASCII and the letters of Latin-1.\<close>

definition latin_unicode :: unicode_data where
  "latin_unicode = \<lparr>
     bidirectional = (\<lambda>c. if 48 \<le> c \<and> c \<le> 57 then ''EN'' else if c = 45 then ''ES'' else ''L''),
     category = (\<lambda>c. ''Ll''), combining = (\<lambda>c. 0), char_name = (\<lambda>c. Some ''LETTER''),
     nfc = (\<lambda>s. s), lower_ustr = map lower_byte, repr_ustr = (\<lambda>s. '''')\<rparr>"

lemma latin_u_umlaut: "check_label latin_unicode [252] = Inr ()"
  by (simp add: check_label_iff latin_unicode_def codepoint_ok_def pvalid_points)

lemma encode_u_umlaut: "punycode_encode [252] = [116, 100, 97]"
proof -
  have t: "threshold 0 72 = 1" "threshold (Suc 0) 72 = 1" "threshold (Suc (Suc 0)) 72 = 26"
    by (simp_all add: threshold_def)
  have "generalized_integer 0 72 (Suc (Suc 0)) = [97]"
    by (subst generalized_integer.simps) (simp add: t puny_digit_def)
  then have "generalized_integer 3 72 (Suc 0) = [100, 97]"
    by (subst generalized_integer.simps) (simp add: t puny_digit_def)
  then have "generalized_integer 124 72 0 = [116, 100, 97]"
    by (subst generalized_integer.simps) (simp add: t puny_digit_def)
  then show ?thesis by (simp add: punycode_encode_def segregate_def selective_len_def)
qed

lemma alabel_u_umlaut: "alabel latin_unicode [252] = Inr (alabel_prefix @ [116, 100, 97])"
  by (simp add: alabel_def latin_u_umlaut encode_u_umlaut is_ascii_def max_input_length_def
      valid_label_length_def alabel_prefix_def)

lemma ulabel_alabel_witness:
  "alabel latin_unicode [252] = Inr (alabel_prefix @ [116, 100, 97])
   \<and> (\<exists>u. ulabel latin_unicode (Bytes (alabel_prefix @ [116, 100, 97])) = Inr u \<and> u = [252])"
  using ulabel_alabel [OF alabel_u_umlaut] alabel_u_umlaut by (auto simp: is_ascii_def)

section \<open>Two things the checks let through or misname\<close>

text \<open>
  The converse round trip fails: \<^verbatim>\<open>ulabel\<close> also accepts byte strings that no U-label is written
  as, here an encoded part that begins with the delimiter.
\<close>

lemma leading_delimiter:
  assumes "45 \<notin> set digits"
  shows "punycode_decode (45 # digits) = punycode_decode digits"
proof -
  have "takeWhile (\<lambda>b. b \<noteq> 45) (rev digits @ [45]) = rev digits"
    "dropWhile (\<lambda>b. b \<noteq> 45) (rev digits @ [45]) = [45]"
    using assms by (auto simp: takeWhile_append dropWhile_append)
  then show ?thesis using assms by (simp add: punycode_decode_def)
qed

lemma ulabel_accepts_two:
  "ulabel latin_unicode (Bytes (alabel_prefix @ [116, 100, 97])) = Inr [252]"
  "ulabel latin_unicode (Bytes (alabel_prefix @ [45, 116, 100, 97])) = Inr [252]"
proof -
  have "punycode_decode [116, 100, 97] = Some [252]"
    using punycode_round_trip [of "[252]"] by (simp add: encode_u_umlaut)
  moreover have "punycode_decode [45, 116, 100, 97] = punycode_decode [116, 100, 97]"
    by (rule leading_delimiter) simp
  ultimately show "ulabel latin_unicode (Bytes (alabel_prefix @ [116, 100, 97])) = Inr [252]"
    "ulabel latin_unicode (Bytes (alabel_prefix @ [45, 116, 100, 97])) = Inr [252]"
    using latin_u_umlaut
    by (simp_all add: ulabel_def ulabel_bytes_def alabel_prefix_def max_input_length_def lower_byte_def)
qed

text \<open>
  The \<^verbatim>\<open>InvalidCodepointContext\<close> of a joiner that the rules forbid is raised inside the
  \<^verbatim>\<open>try\<close> whose handler catches \<^verbatim>\<open>ValueError\<close>, of which it is a subclass; the caller is told of
  an unknown code point.
\<close>

lemma joiners_not_pvalid: "points_of class_CONTEXTJ \<inter> points_of class_PVALID = {}"
proof -
  have "c \<notin> points_of class_PVALID_5" if "c \<in> {0x200C..<0x200E}" for c
    using that by (simp add: class_PVALID_5_def points_of_Cons decode_range_div)
  moreover have "ranges_end 0 (class_PVALID_1 @ class_PVALID_2 @ class_PVALID_3 @ class_PVALID_4) = Some 7786"
    by (simp add: ranges_end_append class_PVALID_1_end class_PVALID_2_end class_PVALID_3_end class_PVALID_4_end)
  moreover have "ranges_end 11484 (class_PVALID_6 @ class_PVALID_7 @ class_PVALID_8 @ class_PVALID_9) = Some 210042"
    by (simp add: ranges_end_append class_PVALID_6_end class_PVALID_7_end class_PVALID_8_end class_PVALID_9_end)
  moreover have "points_of class_PVALID =
      points_of (class_PVALID_1 @ class_PVALID_2 @ class_PVALID_3 @ class_PVALID_4)
      \<union> points_of class_PVALID_5
      \<union> points_of (class_PVALID_6 @ class_PVALID_7 @ class_PVALID_8 @ class_PVALID_9)"
    by (simp add: class_PVALID_def points_of_append Un_assoc)
  ultimately show ?thesis
    by (fastforce simp: contextual_points(1) dest: points_below points_from)
qed

lemma joiner_error_misnamed:
  assumes "label ! pos \<in> points_of class_CONTEXTJ" "valid_contextj U label pos = Inr False"
  shows "check_codepoint U label pos =
    Inl (IDNAError (''Unknown codepoint adjacent to joiner '' @ unot (label ! pos)
      @ '' at position '' @ nat_str (pos + 1) @ '' in '' @ repr_ustr U label))"
  using assms joiners_not_pvalid
  by (auto simp: check_codepoint_def Let_def in_class_iff is_ValueError_def)

end
