(* ===== verification/Uts46_Starts.thy ===== *)
theory Uts46_Starts
  imports Idna_Ranges
begin

text \<open>
  The first of the three parallel tables of \<^verbatim>\<open>idna/uts46data.py\<close>: the code points at which the
  segments of the UTS 46 mapping start, entry for entry, in parts of at most 150 lines of the
  source. The facts at the end are what the lookup rests on: the table is strictly
  increasing, has 8372 entries, and begins with 0 to 255.
\<close>

definition uts46_starts_1 :: "nat list" where
  "uts46_starts_1 =
    [0x0, 0x1, 0x2, 0x3, 0x4, 0x5, 0x6, 0x7, 0x8, 0x9, 0xA, 0xB, 0xC, 0xD, 0xE, 0xF, 0x10, 0x11,
     0x12, 0x13, 0x14, 0x15, 0x16, 0x17, 0x18, 0x19, 0x1A, 0x1B, 0x1C, 0x1D, 0x1E, 0x1F, 0x20,
     0x21, 0x22, 0x23, 0x24, 0x25, 0x26, 0x27, 0x28, 0x29, 0x2A, 0x2B, 0x2C, 0x2D, 0x2E, 0x2F,
     0x30, 0x31, 0x32, 0x33, 0x34, 0x35, 0x36, 0x37, 0x38, 0x39, 0x3A, 0x3B, 0x3C, 0x3D, 0x3E,
     0x3F, 0x40, 0x41, 0x42, 0x43, 0x44, 0x45, 0x46, 0x47, 0x48, 0x49, 0x4A, 0x4B, 0x4C, 0x4D,
     0x4E, 0x4F, 0x50, 0x51, 0x52, 0x53, 0x54, 0x55, 0x56, 0x57, 0x58, 0x59, 0x5A, 0x5B, 0x5C,
     0x5D, 0x5E, 0x5F, 0x60, 0x61, 0x62, 0x63, 0x64, 0x65, 0x66, 0x67, 0x68, 0x69, 0x6A, 0x6B,
     0x6C, 0x6D, 0x6E, 0x6F, 0x70, 0x71, 0x72, 0x73, 0x74, 0x75, 0x76, 0x77, 0x78, 0x79, 0x7A,
     0x7B, 0x7C, 0x7D, 0x7E, 0x7F, 0x80, 0x81, 0x82, 0x83, 0x84, 0x85, 0x86, 0x87, 0x88, 0x89,
     0x8A, 0x8B, 0x8C, 0x8D, 0x8E, 0x8F, 0x90, 0x91, 0x92]"

definition uts46_starts_2 :: "nat list" where
  "uts46_starts_2 =
    [0x93, 0x94, 0x95, 0x96, 0x97, 0x98, 0x99, 0x9A, 0x9B, 0x9C, 0x9D, 0x9E, 0x9F, 0xA0, 0xA1,
     0xA2, 0xA3, 0xA4, 0xA5, 0xA6, 0xA7, 0xA8, 0xA9, 0xAA, 0xAB, 0xAC, 0xAD, 0xAE, 0xAF, 0xB0,
     0xB1, 0xB2, 0xB3, 0xB4, 0xB5, 0xB6, 0xB7, 0xB8, 0xB9, 0xBA, 0xBB, 0xBC, 0xBD, 0xBE, 0xBF,
     0xC0, 0xC1, 0xC2, 0xC3, 0xC4, 0xC5, 0xC6, 0xC7, 0xC8, 0xC9, 0xCA, 0xCB, 0xCC, 0xCD, 0xCE,
     0xCF, 0xD0, 0xD1, 0xD2, 0xD3, 0xD4, 0xD5, 0xD6, 0xD7, 0xD8, 0xD9, 0xDA, 0xDB, 0xDC, 0xDD,
     0xDE, 0xDF, 0xE0, 0xE1, 0xE2, 0xE3, 0xE4, 0xE5, 0xE6, 0xE7, 0xE8, 0xE9, 0xEA, 0xEB, 0xEC,
     0xED, 0xEE, 0xEF, 0xF0, 0xF1, 0xF2, 0xF3, 0xF4, 0xF5, 0xF6, 0xF7, 0xF8, 0xF9, 0xFA, 0xFB,
     0xFC, 0xFD, 0xFE, 0xFF, 0x100, 0x101, 0x102, 0x103, 0x104, 0x105, 0x106, 0x107, 0x108,
     0x109, 0x10A, 0x10B, 0x10C, 0x10D, 0x10E, 0x10F, 0x110, 0x111, 0x112, 0x113, 0x114, 0x115,
     0x116, 0x117, 0x118, 0x119, 0x11A, 0x11B, 0x11C, 0x11D, 0x11E, 0x11F, 0x120, 0x121, 0x122,
     0x123, 0x124, 0x125, 0x126, 0x127, 0x128]"

definition uts46_starts_3 :: "nat list" where
  "uts46_starts_3 =
    [0x129, 0x12A, 0x12B, 0x12C, 0x12D, 0x12E, 0x12F, 0x130, 0x131, 0x132, 0x134, 0x135, 0x136,
     0x137, 0x139, 0x13A, 0x13B, 0x13C, 0x13D, 0x13E, 0x13F, 0x141, 0x142, 0x143, 0x144, 0x145,
     0x146, 0x147, 0x148, 0x149, 0x14A, 0x14B, 0x14C, 0x14D, 0x14E, 0x14F, 0x150, 0x151, 0x152,
     0x153, 0x154, 0x155, 0x156, 0x157, 0x158, 0x159, 0x15A, 0x15B, 0x15C, 0x15D, 0x15E, 0x15F,
     0x160, 0x161, 0x162, 0x163, 0x164, 0x165, 0x166, 0x167, 0x168, 0x169, 0x16A, 0x16B, 0x16C,
     0x16D, 0x16E, 0x16F, 0x170, 0x171, 0x172, 0x173, 0x174, 0x175, 0x176, 0x177, 0x178, 0x179,
     0x17A, 0x17B, 0x17C, 0x17D, 0x17E, 0x17F, 0x180, 0x181, 0x182, 0x183, 0x184, 0x185, 0x186,
     0x187, 0x188, 0x189, 0x18A, 0x18B, 0x18C, 0x18E, 0x18F, 0x190, 0x191, 0x192, 0x193, 0x194,
     0x195, 0x196, 0x197, 0x198, 0x199, 0x19C, 0x19D, 0x19E, 0x19F, 0x1A0, 0x1A1, 0x1A2, 0x1A3,
     0x1A4, 0x1A5, 0x1A6, 0x1A7, 0x1A8, 0x1A9, 0x1AA, 0x1AC, 0x1AD, 0x1AE, 0x1AF, 0x1B0, 0x1B1,
     0x1B2, 0x1B3, 0x1B4, 0x1B5, 0x1B6, 0x1B7, 0x1B8, 0x1B9, 0x1BC, 0x1BD, 0x1C4, 0x1C7, 0x1CA,
     0x1CD, 0x1CE, 0x1CF, 0x1D0, 0x1D1, 0x1D2, 0x1D3]"

definition uts46_starts_4 :: "nat list" where
  "uts46_starts_4 =
    [0x1D4, 0x1D5, 0x1D6, 0x1D7, 0x1D8, 0x1D9, 0x1DA, 0x1DB, 0x1DC, 0x1DE, 0x1DF, 0x1E0, 0x1E1,
     0x1E2, 0x1E3, 0x1E4, 0x1E5, 0x1E6, 0x1E7, 0x1E8, 0x1E9, 0x1EA, 0x1EB, 0x1EC, 0x1ED, 0x1EE,
     0x1EF, 0x1F1, 0x1F4, 0x1F5, 0x1F6, 0x1F7, 0x1F8, 0x1F9, 0x1FA, 0x1FB, 0x1FC, 0x1FD, 0x1FE,
     0x1FF, 0x200, 0x201, 0x202, 0x203, 0x204, 0x205, 0x206, 0x207, 0x208, 0x209, 0x20A, 0x20B,
     0x20C, 0x20D, 0x20E, 0x20F, 0x210, 0x211, 0x212, 0x213, 0x214, 0x215, 0x216, 0x217, 0x218,
     0x219, 0x21A, 0x21B, 0x21C, 0x21D, 0x21E, 0x21F, 0x220, 0x221, 0x222, 0x223, 0x224, 0x225,
     0x226, 0x227, 0x228, 0x229, 0x22A, 0x22B, 0x22C, 0x22D, 0x22E, 0x22F, 0x230, 0x231, 0x232,
     0x233, 0x23A, 0x23B, 0x23C, 0x23D, 0x23E, 0x23F, 0x241, 0x242, 0x243, 0x244, 0x245, 0x246,
     0x247, 0x248, 0x249, 0x24A, 0x24B, 0x24C, 0x24D, 0x24E, 0x24F, 0x2B0, 0x2B1, 0x2B2, 0x2B3,
     0x2B4, 0x2B5, 0x2B6, 0x2B7, 0x2B8, 0x2B9, 0x2D8, 0x2D9, 0x2DA, 0x2DB, 0x2DC, 0x2DD, 0x2DE,
     0x2E0, 0x2E1, 0x2E2, 0x2E3, 0x2E4, 0x2E5, 0x340, 0x341, 0x342, 0x343, 0x344, 0x345, 0x346,
     0x34F, 0x350, 0x370, 0x371, 0x372, 0x373, 0x374]"

definition uts46_starts_5 :: "nat list" where
  "uts46_starts_5 =
    [0x375, 0x376, 0x377, 0x378, 0x37A, 0x37B, 0x37E, 0x37F, 0x380, 0x384, 0x385, 0x386, 0x387,
     0x388, 0x389, 0x38A, 0x38B, 0x38C, 0x38D, 0x38E, 0x38F, 0x390, 0x391, 0x392, 0x393, 0x394,
     0x395, 0x396, 0x397, 0x398, 0x399, 0x39A, 0x39B, 0x39C, 0x39D, 0x39E, 0x39F, 0x3A0, 0x3A1,
     0x3A2, 0x3A3, 0x3A4, 0x3A5, 0x3A6, 0x3A7, 0x3A8, 0x3A9, 0x3AA, 0x3AB, 0x3AC, 0x3C2, 0x3C3,
     0x3CF, 0x3D0, 0x3D1, 0x3D2, 0x3D3, 0x3D4, 0x3D5, 0x3D6, 0x3D7, 0x3D8, 0x3D9, 0x3DA, 0x3DB,
     0x3DC, 0x3DD, 0x3DE, 0x3DF, 0x3E0, 0x3E1, 0x3E2, 0x3E3, 0x3E4, 0x3E5, 0x3E6, 0x3E7, 0x3E8,
     0x3E9, 0x3EA, 0x3EB, 0x3EC, 0x3ED, 0x3EE, 0x3EF, 0x3F0, 0x3F1, 0x3F2, 0x3F3, 0x3F4, 0x3F5,
     0x3F6, 0x3F7, 0x3F8, 0x3F9, 0x3FA, 0x3FB, 0x3FD, 0x3FE, 0x3FF, 0x400, 0x401, 0x402, 0x403,
     0x404, 0x405, 0x406, 0x407, 0x408, 0x409, 0x40A, 0x40B, 0x40C, 0x40D, 0x40E, 0x40F, 0x410,
     0x411, 0x412, 0x413, 0x414, 0x415, 0x416, 0x417, 0x418, 0x419, 0x41A, 0x41B, 0x41C, 0x41D,
     0x41E, 0x41F, 0x420, 0x421, 0x422, 0x423, 0x424, 0x425, 0x426, 0x427, 0x428, 0x429, 0x42A,
     0x42B, 0x42C, 0x42D, 0x42E, 0x42F, 0x430, 0x460]"

definition uts46_starts_6 :: "nat list" where
  "uts46_starts_6 =
    [0x461, 0x462, 0x463, 0x464, 0x465, 0x466, 0x467, 0x468, 0x469, 0x46A, 0x46B, 0x46C, 0x46D,
     0x46E, 0x46F, 0x470, 0x471, 0x472, 0x473, 0x474, 0x475, 0x476, 0x477, 0x478, 0x479, 0x47A,
     0x47B, 0x47C, 0x47D, 0x47E, 0x47F, 0x480, 0x481, 0x48A, 0x48B, 0x48C, 0x48D, 0x48E, 0x48F,
     0x490, 0x491, 0x492, 0x493, 0x494, 0x495, 0x496, 0x497, 0x498, 0x499, 0x49A, 0x49B, 0x49C,
     0x49D, 0x49E, 0x49F, 0x4A0, 0x4A1, 0x4A2, 0x4A3, 0x4A4, 0x4A5, 0x4A6, 0x4A7, 0x4A8, 0x4A9,
     0x4AA, 0x4AB, 0x4AC, 0x4AD, 0x4AE, 0x4AF, 0x4B0, 0x4B1, 0x4B2, 0x4B3, 0x4B4, 0x4B5, 0x4B6,
     0x4B7, 0x4B8, 0x4B9, 0x4BA, 0x4BB, 0x4BC, 0x4BD, 0x4BE, 0x4BF, 0x4C0, 0x4C1, 0x4C2, 0x4C3,
     0x4C4, 0x4C5, 0x4C6, 0x4C7, 0x4C8, 0x4C9, 0x4CA, 0x4CB, 0x4CC, 0x4CD, 0x4CE, 0x4D0, 0x4D1,
     0x4D2, 0x4D3, 0x4D4, 0x4D5, 0x4D6, 0x4D7, 0x4D8, 0x4D9, 0x4DA, 0x4DB, 0x4DC, 0x4DD, 0x4DE,
     0x4DF, 0x4E0, 0x4E1, 0x4E2, 0x4E3, 0x4E4, 0x4E5, 0x4E6, 0x4E7, 0x4E8, 0x4E9, 0x4EA, 0x4EB,
     0x4EC, 0x4ED, 0x4EE, 0x4EF, 0x4F0, 0x4F1, 0x4F2, 0x4F3, 0x4F4, 0x4F5, 0x4F6, 0x4F7, 0x4F8,
     0x4F9, 0x4FA, 0x4FB, 0x4FC, 0x4FD, 0x4FE, 0x4FF]"

definition uts46_starts_7 :: "nat list" where
  "uts46_starts_7 =
    [0x500, 0x501, 0x502, 0x503, 0x504, 0x505, 0x506, 0x507, 0x508, 0x509, 0x50A, 0x50B, 0x50C,
     0x50D, 0x50E, 0x50F, 0x510, 0x511, 0x512, 0x513, 0x514, 0x515, 0x516, 0x517, 0x518, 0x519,
     0x51A, 0x51B, 0x51C, 0x51D, 0x51E, 0x51F, 0x520, 0x521, 0x522, 0x523, 0x524, 0x525, 0x526,
     0x527, 0x528, 0x529, 0x52A, 0x52B, 0x52C, 0x52D, 0x52E, 0x52F, 0x530, 0x531, 0x532, 0x533,
     0x534, 0x535, 0x536, 0x537, 0x538, 0x539, 0x53A, 0x53B, 0x53C, 0x53D, 0x53E, 0x53F, 0x540,
     0x541, 0x542, 0x543, 0x544, 0x545, 0x546, 0x547, 0x548, 0x549, 0x54A, 0x54B, 0x54C, 0x54D,
     0x54E, 0x54F, 0x550, 0x551, 0x552, 0x553, 0x554, 0x555, 0x556, 0x557, 0x559, 0x587, 0x588,
     0x58B, 0x58D, 0x590, 0x591, 0x5C8, 0x5D0, 0x5EB, 0x5EF, 0x5F5, 0x606, 0x61C, 0x61D, 0x675,
     0x676, 0x677, 0x678, 0x679, 0x6DD, 0x6DE, 0x70E, 0x710, 0x74B, 0x74D, 0x7B2, 0x7C0, 0x7FB,
     0x7FD, 0x82E, 0x830, 0x83F, 0x840, 0x85C, 0x85E, 0x85F, 0x860, 0x86B, 0x870, 0x890, 0x897,
     0x8E2, 0x8E3, 0x958, 0x959, 0x95A, 0x95B, 0x95C, 0x95D, 0x95E, 0x95F, 0x960, 0x984, 0x985,
     0x98D, 0x98F, 0x991, 0x993, 0x9A9, 0x9AA, 0x9B1]"

definition uts46_starts_8 :: "nat list" where
  "uts46_starts_8 =
    [0x9B2, 0x9B3, 0x9B6, 0x9BA, 0x9BC, 0x9C5, 0x9C7, 0x9C9, 0x9CB, 0x9CF, 0x9D7, 0x9D8, 0x9DC,
     0x9DD, 0x9DE, 0x9DF, 0x9E0, 0x9E4, 0x9E6, 0x9FF, 0xA01, 0xA04, 0xA05, 0xA0B, 0xA0F, 0xA11,
     0xA13, 0xA29, 0xA2A, 0xA31, 0xA32, 0xA33, 0xA34, 0xA35, 0xA36, 0xA37, 0xA38, 0xA3A, 0xA3C,
     0xA3D, 0xA3E, 0xA43, 0xA47, 0xA49, 0xA4B, 0xA4E, 0xA51, 0xA52, 0xA59, 0xA5A, 0xA5B, 0xA5C,
     0xA5D, 0xA5E, 0xA5F, 0xA66, 0xA77, 0xA81, 0xA84, 0xA85, 0xA8E, 0xA8F, 0xA92, 0xA93, 0xAA9,
     0xAAA, 0xAB1, 0xAB2, 0xAB4, 0xAB5, 0xABA, 0xABC, 0xAC6, 0xAC7, 0xACA, 0xACB, 0xACE, 0xAD0,
     0xAD1, 0xAE0, 0xAE4, 0xAE6, 0xAF2, 0xAF9, 0xB00, 0xB01, 0xB04, 0xB05, 0xB0D, 0xB0F, 0xB11,
     0xB13, 0xB29, 0xB2A, 0xB31, 0xB32, 0xB34, 0xB35, 0xB3A, 0xB3C, 0xB45, 0xB47, 0xB49, 0xB4B,
     0xB4E, 0xB55, 0xB58, 0xB5C, 0xB5D, 0xB5E, 0xB5F, 0xB64, 0xB66, 0xB78, 0xB82, 0xB84, 0xB85,
     0xB8B, 0xB8E, 0xB91, 0xB92, 0xB96, 0xB99, 0xB9B, 0xB9C, 0xB9D, 0xB9E, 0xBA0, 0xBA3, 0xBA5,
     0xBA8, 0xBAB, 0xBAE, 0xBBA, 0xBBE, 0xBC3, 0xBC6, 0xBC9, 0xBCA, 0xBCE, 0xBD0, 0xBD1, 0xBD7,
     0xBD8, 0xBE6, 0xBFB, 0xC00, 0xC0D, 0xC0E, 0xC11]"

definition uts46_starts_9 :: "nat list" where
  "uts46_starts_9 =
    [0xC12, 0xC29, 0xC2A, 0xC3A, 0xC3C, 0xC45, 0xC46, 0xC49, 0xC4A, 0xC4E, 0xC55, 0xC57, 0xC58,
     0xC5B, 0xC5C, 0xC5E, 0xC60, 0xC64, 0xC66, 0xC70, 0xC77, 0xC8D, 0xC8E, 0xC91, 0xC92, 0xCA9,
     0xCAA, 0xCB4, 0xCB5, 0xCBA, 0xCBC, 0xCC5, 0xCC6, 0xCC9, 0xCCA, 0xCCE, 0xCD5, 0xCD7, 0xCDC,
     0xCDF, 0xCE0, 0xCE4, 0xCE6, 0xCF0, 0xCF1, 0xCF4, 0xD00, 0xD0D, 0xD0E, 0xD11, 0xD12, 0xD45,
     0xD46, 0xD49, 0xD4A, 0xD50, 0xD54, 0xD64, 0xD66, 0xD80, 0xD81, 0xD84, 0xD85, 0xD97, 0xD9A,
     0xDB2, 0xDB3, 0xDBC, 0xDBD, 0xDBE, 0xDC0, 0xDC7, 0xDCA, 0xDCB, 0xDCF, 0xDD5, 0xDD6, 0xDD7,
     0xDD8, 0xDE0, 0xDE6, 0xDF0, 0xDF2, 0xDF5, 0xE01, 0xE33, 0xE34, 0xE3B, 0xE3F, 0xE5C, 0xE81,
     0xE83, 0xE84, 0xE85, 0xE86, 0xE8B, 0xE8C, 0xEA4, 0xEA5, 0xEA6, 0xEA7, 0xEB3, 0xEB4, 0xEBE,
     0xEC0, 0xEC5, 0xEC6, 0xEC7, 0xEC8, 0xECF, 0xED0, 0xEDA, 0xEDC, 0xEDD, 0xEDE, 0xEE0, 0xF00,
     0xF0C, 0xF0D, 0xF43, 0xF44, 0xF48, 0xF49, 0xF4D, 0xF4E, 0xF52, 0xF53, 0xF57, 0xF58, 0xF5C,
     0xF5D, 0xF69, 0xF6A, 0xF6D, 0xF71, 0xF73, 0xF74, 0xF75, 0xF76, 0xF77, 0xF78, 0xF79, 0xF7A,
     0xF81, 0xF82, 0xF93, 0xF94, 0xF98, 0xF99, 0xF9D]"

definition uts46_starts_10 :: "nat list" where
  "uts46_starts_10 =
    [0xF9E, 0xFA2, 0xFA3, 0xFA7, 0xFA8, 0xFAC, 0xFAD, 0xFB9, 0xFBA, 0xFBD, 0xFBE, 0xFCD, 0xFCE,
     0xFDB, 0x1000, 0x10A0, 0x10A1, 0x10A2, 0x10A3, 0x10A4, 0x10A5, 0x10A6, 0x10A7, 0x10A8,
     0x10A9, 0x10AA, 0x10AB, 0x10AC, 0x10AD, 0x10AE, 0x10AF, 0x10B0, 0x10B1, 0x10B2, 0x10B3,
     0x10B4, 0x10B5, 0x10B6, 0x10B7, 0x10B8, 0x10B9, 0x10BA, 0x10BB, 0x10BC, 0x10BD, 0x10BE,
     0x10BF, 0x10C0, 0x10C1, 0x10C2, 0x10C3, 0x10C4, 0x10C5, 0x10C6, 0x10C7, 0x10C8, 0x10CD,
     0x10CE, 0x10D0, 0x10FC, 0x10FD, 0x115F, 0x1161, 0x1249, 0x124A, 0x124E, 0x1250, 0x1257,
     0x1258, 0x1259, 0x125A, 0x125E, 0x1260, 0x1289, 0x128A, 0x128E, 0x1290, 0x12B1, 0x12B2,
     0x12B6, 0x12B8, 0x12BF, 0x12C0, 0x12C1, 0x12C2, 0x12C6, 0x12C8, 0x12D7, 0x12D8, 0x1311,
     0x1312, 0x1316, 0x1318, 0x135B, 0x135D, 0x137D, 0x1380, 0x139A, 0x13A0, 0x13F6, 0x13F8,
     0x13F9, 0x13FA, 0x13FB, 0x13FC, 0x13FD, 0x13FE, 0x1400, 0x1680, 0x1681, 0x169D, 0x16A0,
     0x16F9, 0x1700, 0x1716, 0x171F, 0x1737, 0x1740, 0x1754, 0x1760, 0x176D, 0x176E, 0x1771,
     0x1772, 0x1774, 0x1780, 0x17B4, 0x17B6, 0x17DE, 0x17E0, 0x17EA, 0x17F0, 0x17FA, 0x1800,
     0x180B, 0x1810, 0x181A, 0x1820, 0x1879, 0x1880, 0x18AB, 0x18B0, 0x18F6, 0x1900, 0x191F,
     0x1920, 0x192C, 0x1930, 0x193C, 0x1940]"

definition uts46_starts_11 :: "nat list" where
  "uts46_starts_11 =
    [0x1941, 0x1944, 0x196E, 0x1970, 0x1975, 0x1980, 0x19AC, 0x19B0, 0x19CA, 0x19D0, 0x19DB,
     0x19DE, 0x1A1C, 0x1A1E, 0x1A5F, 0x1A60, 0x1A7D, 0x1A7F, 0x1A8A, 0x1A90, 0x1A9A, 0x1AA0,
     0x1AAE, 0x1AB0, 0x1ADE, 0x1AE0, 0x1AEC, 0x1B00, 0x1B4D, 0x1B4E, 0x1BF4, 0x1BFC, 0x1C38,
     0x1C3B, 0x1C4A, 0x1C4D, 0x1C80, 0x1C81, 0x1C82, 0x1C83, 0x1C84, 0x1C86, 0x1C87, 0x1C88,
     0x1C89, 0x1C8A, 0x1C8B, 0x1C90, 0x1C91, 0x1C92, 0x1C93, 0x1C94, 0x1C95, 0x1C96, 0x1C97,
     0x1C98, 0x1C99, 0x1C9A, 0x1C9B, 0x1C9C, 0x1C9D, 0x1C9E, 0x1C9F, 0x1CA0, 0x1CA1, 0x1CA2,
     0x1CA3, 0x1CA4, 0x1CA5, 0x1CA6, 0x1CA7, 0x1CA8, 0x1CA9, 0x1CAA, 0x1CAB, 0x1CAC, 0x1CAD,
     0x1CAE, 0x1CAF, 0x1CB0, 0x1CB1, 0x1CB2, 0x1CB3, 0x1CB4, 0x1CB5, 0x1CB6, 0x1CB7, 0x1CB8,
     0x1CB9, 0x1CBA, 0x1CBB, 0x1CBD, 0x1CBE, 0x1CBF, 0x1CC0, 0x1CC8, 0x1CD0, 0x1CFB, 0x1D00,
     0x1D2C, 0x1D2D, 0x1D2E, 0x1D2F, 0x1D30, 0x1D31, 0x1D32, 0x1D33, 0x1D34, 0x1D35, 0x1D36,
     0x1D37, 0x1D38, 0x1D39, 0x1D3A, 0x1D3B, 0x1D3C, 0x1D3D, 0x1D3E, 0x1D3F, 0x1D40, 0x1D41,
     0x1D42, 0x1D43, 0x1D44, 0x1D45, 0x1D46, 0x1D47, 0x1D48, 0x1D49, 0x1D4A, 0x1D4B, 0x1D4C,
     0x1D4D, 0x1D4E, 0x1D4F, 0x1D50, 0x1D51, 0x1D52, 0x1D53, 0x1D54, 0x1D55, 0x1D56, 0x1D57,
     0x1D58, 0x1D59, 0x1D5A, 0x1D5B, 0x1D5C, 0x1D5D, 0x1D5E]"

definition uts46_starts_12 :: "nat list" where
  "uts46_starts_12 =
    [0x1D5F, 0x1D60, 0x1D61, 0x1D62, 0x1D63, 0x1D64, 0x1D65, 0x1D66, 0x1D67, 0x1D68, 0x1D69,
     0x1D6A, 0x1D6B, 0x1D78, 0x1D79, 0x1D9B, 0x1D9C, 0x1D9D, 0x1D9E, 0x1D9F, 0x1DA0, 0x1DA1,
     0x1DA2, 0x1DA3, 0x1DA4, 0x1DA5, 0x1DA6, 0x1DA7, 0x1DA8, 0x1DA9, 0x1DAA, 0x1DAB, 0x1DAC,
     0x1DAD, 0x1DAE, 0x1DAF, 0x1DB0, 0x1DB1, 0x1DB2, 0x1DB3, 0x1DB4, 0x1DB5, 0x1DB6, 0x1DB7,
     0x1DB8, 0x1DB9, 0x1DBA, 0x1DBB, 0x1DBC, 0x1DBD, 0x1DBE, 0x1DBF, 0x1DC0, 0x1E00, 0x1E01,
     0x1E02, 0x1E03, 0x1E04, 0x1E05, 0x1E06, 0x1E07, 0x1E08, 0x1E09, 0x1E0A, 0x1E0B, 0x1E0C,
     0x1E0D, 0x1E0E, 0x1E0F, 0x1E10, 0x1E11, 0x1E12, 0x1E13, 0x1E14, 0x1E15, 0x1E16, 0x1E17,
     0x1E18, 0x1E19, 0x1E1A, 0x1E1B, 0x1E1C, 0x1E1D, 0x1E1E, 0x1E1F, 0x1E20, 0x1E21, 0x1E22,
     0x1E23, 0x1E24, 0x1E25, 0x1E26, 0x1E27, 0x1E28, 0x1E29, 0x1E2A, 0x1E2B, 0x1E2C, 0x1E2D,
     0x1E2E, 0x1E2F, 0x1E30, 0x1E31, 0x1E32, 0x1E33, 0x1E34, 0x1E35, 0x1E36, 0x1E37, 0x1E38,
     0x1E39, 0x1E3A, 0x1E3B, 0x1E3C, 0x1E3D, 0x1E3E, 0x1E3F, 0x1E40, 0x1E41, 0x1E42, 0x1E43,
     0x1E44, 0x1E45, 0x1E46, 0x1E47, 0x1E48, 0x1E49, 0x1E4A, 0x1E4B, 0x1E4C, 0x1E4D, 0x1E4E,
     0x1E4F, 0x1E50, 0x1E51, 0x1E52, 0x1E53, 0x1E54, 0x1E55, 0x1E56, 0x1E57, 0x1E58, 0x1E59,
     0x1E5A, 0x1E5B, 0x1E5C, 0x1E5D, 0x1E5E, 0x1E5F, 0x1E60]"

definition uts46_starts_13 :: "nat list" where
  "uts46_starts_13 =
    [0x1E61, 0x1E62, 0x1E63, 0x1E64, 0x1E65, 0x1E66, 0x1E67, 0x1E68, 0x1E69, 0x1E6A, 0x1E6B,
     0x1E6C, 0x1E6D, 0x1E6E, 0x1E6F, 0x1E70, 0x1E71, 0x1E72, 0x1E73, 0x1E74, 0x1E75, 0x1E76,
     0x1E77, 0x1E78, 0x1E79, 0x1E7A, 0x1E7B, 0x1E7C, 0x1E7D, 0x1E7E, 0x1E7F, 0x1E80, 0x1E81,
     0x1E82, 0x1E83, 0x1E84, 0x1E85, 0x1E86, 0x1E87, 0x1E88, 0x1E89, 0x1E8A, 0x1E8B, 0x1E8C,
     0x1E8D, 0x1E8E, 0x1E8F, 0x1E90, 0x1E91, 0x1E92, 0x1E93, 0x1E94, 0x1E95, 0x1E9A, 0x1E9B,
     0x1E9C, 0x1E9E, 0x1E9F, 0x1EA0, 0x1EA1, 0x1EA2, 0x1EA3, 0x1EA4, 0x1EA5, 0x1EA6, 0x1EA7,
     0x1EA8, 0x1EA9, 0x1EAA, 0x1EAB, 0x1EAC, 0x1EAD, 0x1EAE, 0x1EAF, 0x1EB0, 0x1EB1, 0x1EB2,
     0x1EB3, 0x1EB4, 0x1EB5, 0x1EB6, 0x1EB7, 0x1EB8, 0x1EB9, 0x1EBA, 0x1EBB, 0x1EBC, 0x1EBD,
     0x1EBE, 0x1EBF, 0x1EC0, 0x1EC1, 0x1EC2, 0x1EC3, 0x1EC4, 0x1EC5, 0x1EC6, 0x1EC7, 0x1EC8,
     0x1EC9, 0x1ECA, 0x1ECB, 0x1ECC, 0x1ECD, 0x1ECE, 0x1ECF, 0x1ED0, 0x1ED1, 0x1ED2, 0x1ED3,
     0x1ED4, 0x1ED5, 0x1ED6, 0x1ED7, 0x1ED8, 0x1ED9, 0x1EDA, 0x1EDB, 0x1EDC, 0x1EDD, 0x1EDE,
     0x1EDF, 0x1EE0, 0x1EE1, 0x1EE2, 0x1EE3, 0x1EE4, 0x1EE5, 0x1EE6, 0x1EE7, 0x1EE8, 0x1EE9,
     0x1EEA, 0x1EEB, 0x1EEC, 0x1EED, 0x1EEE, 0x1EEF, 0x1EF0, 0x1EF1, 0x1EF2, 0x1EF3, 0x1EF4,
     0x1EF5, 0x1EF6, 0x1EF7, 0x1EF8, 0x1EF9, 0x1EFA, 0x1EFB]"

definition uts46_starts_14 :: "nat list" where
  "uts46_starts_14 =
    [0x1EFC, 0x1EFD, 0x1EFE, 0x1EFF, 0x1F08, 0x1F09, 0x1F0A, 0x1F0B, 0x1F0C, 0x1F0D, 0x1F0E,
     0x1F0F, 0x1F10, 0x1F16, 0x1F18, 0x1F19, 0x1F1A, 0x1F1B, 0x1F1C, 0x1F1D, 0x1F1E, 0x1F20,
     0x1F28, 0x1F29, 0x1F2A, 0x1F2B, 0x1F2C, 0x1F2D, 0x1F2E, 0x1F2F, 0x1F30, 0x1F38, 0x1F39,
     0x1F3A, 0x1F3B, 0x1F3C, 0x1F3D, 0x1F3E, 0x1F3F, 0x1F40, 0x1F46, 0x1F48, 0x1F49, 0x1F4A,
     0x1F4B, 0x1F4C, 0x1F4D, 0x1F4E, 0x1F50, 0x1F58, 0x1F59, 0x1F5A, 0x1F5B, 0x1F5C, 0x1F5D,
     0x1F5E, 0x1F5F, 0x1F60, 0x1F68, 0x1F69, 0x1F6A, 0x1F6B, 0x1F6C, 0x1F6D, 0x1F6E, 0x1F6F,
     0x1F70, 0x1F71, 0x1F72, 0x1F73, 0x1F74, 0x1F75, 0x1F76, 0x1F77, 0x1F78, 0x1F79, 0x1F7A,
     0x1F7B, 0x1F7C, 0x1F7D, 0x1F7E, 0x1F80, 0x1F81, 0x1F82, 0x1F83, 0x1F84, 0x1F85, 0x1F86,
     0x1F87, 0x1F88, 0x1F89, 0x1F8A, 0x1F8B, 0x1F8C, 0x1F8D, 0x1F8E, 0x1F8F, 0x1F90, 0x1F91,
     0x1F92, 0x1F93, 0x1F94, 0x1F95, 0x1F96, 0x1F97, 0x1F98, 0x1F99, 0x1F9A, 0x1F9B, 0x1F9C,
     0x1F9D, 0x1F9E, 0x1F9F, 0x1FA0, 0x1FA1, 0x1FA2, 0x1FA3, 0x1FA4, 0x1FA5, 0x1FA6, 0x1FA7,
     0x1FA8, 0x1FA9, 0x1FAA, 0x1FAB, 0x1FAC, 0x1FAD, 0x1FAE, 0x1FAF, 0x1FB0, 0x1FB2, 0x1FB3,
     0x1FB4, 0x1FB5, 0x1FB6, 0x1FB7, 0x1FB8, 0x1FB9, 0x1FBA, 0x1FBB, 0x1FBC, 0x1FBD, 0x1FBE,
     0x1FBF, 0x1FC0, 0x1FC1, 0x1FC2, 0x1FC3, 0x1FC4, 0x1FC5]"

definition uts46_starts_15 :: "nat list" where
  "uts46_starts_15 =
    [0x1FC6, 0x1FC7, 0x1FC8, 0x1FC9, 0x1FCA, 0x1FCB, 0x1FCC, 0x1FCD, 0x1FCE, 0x1FCF, 0x1FD0,
     0x1FD3, 0x1FD4, 0x1FD6, 0x1FD8, 0x1FD9, 0x1FDA, 0x1FDB, 0x1FDC, 0x1FDD, 0x1FDE, 0x1FDF,
     0x1FE0, 0x1FE3, 0x1FE4, 0x1FE8, 0x1FE9, 0x1FEA, 0x1FEB, 0x1FEC, 0x1FED, 0x1FEE, 0x1FEF,
     0x1FF0, 0x1FF2, 0x1FF3, 0x1FF4, 0x1FF5, 0x1FF6, 0x1FF7, 0x1FF8, 0x1FF9, 0x1FFA, 0x1FFB,
     0x1FFC, 0x1FFD, 0x1FFE, 0x1FFF, 0x2000, 0x200B, 0x200C, 0x200E, 0x2010, 0x2011, 0x2012,
     0x2017, 0x2018, 0x2024, 0x2027, 0x2028, 0x202F, 0x2030, 0x2033, 0x2034, 0x2035, 0x2036,
     0x2037, 0x2038, 0x203C, 0x203D, 0x203E, 0x203F, 0x2047, 0x2048, 0x2049, 0x204A, 0x2057,
     0x2058, 0x205F, 0x2060, 0x2065, 0x206A, 0x2070, 0x2071, 0x2072, 0x2074, 0x2075, 0x2076,
     0x2077, 0x2078, 0x2079, 0x207A, 0x207B, 0x207C, 0x207D, 0x207E, 0x207F, 0x2080, 0x2081,
     0x2082, 0x2083, 0x2084, 0x2085, 0x2086, 0x2087, 0x2088, 0x2089, 0x208A, 0x208B, 0x208C,
     0x208D, 0x208E, 0x208F, 0x2090, 0x2091, 0x2092, 0x2093, 0x2094, 0x2095, 0x2096, 0x2097,
     0x2098, 0x2099, 0x209A, 0x209B, 0x209C, 0x209D, 0x20A0, 0x20A8, 0x20A9, 0x20C2, 0x20D0,
     0x20F1, 0x2100, 0x2101, 0x2102, 0x2103, 0x2104, 0x2105, 0x2106, 0x2107, 0x2108, 0x2109,
     0x210A, 0x210B, 0x210F, 0x2110, 0x2112, 0x2114, 0x2115]"

definition uts46_starts_16 :: "nat list" where
  "uts46_starts_16 =
    [0x2116, 0x2117, 0x2119, 0x211A, 0x211B, 0x211E, 0x2120, 0x2121, 0x2122, 0x2123, 0x2124,
     0x2125, 0x2126, 0x2127, 0x2128, 0x2129, 0x212A, 0x212B, 0x212C, 0x212D, 0x212E, 0x212F,
     0x2131, 0x2132, 0x2133, 0x2134, 0x2135, 0x2136, 0x2137, 0x2138, 0x2139, 0x213A, 0x213B,
     0x213C, 0x213D, 0x213F, 0x2140, 0x2141, 0x2145, 0x2147, 0x2148, 0x2149, 0x214A, 0x2150,
     0x2151, 0x2152, 0x2153, 0x2154, 0x2155, 0x2156, 0x2157, 0x2158, 0x2159, 0x215A, 0x215B,
     0x215C, 0x215D, 0x215E, 0x215F, 0x2160, 0x2161, 0x2162, 0x2163, 0x2164, 0x2165, 0x2166,
     0x2167, 0x2168, 0x2169, 0x216A, 0x216B, 0x216C, 0x216D, 0x216E, 0x216F, 0x2170, 0x2171,
     0x2172, 0x2173, 0x2174, 0x2175, 0x2176, 0x2177, 0x2178, 0x2179, 0x217A, 0x217B, 0x217C,
     0x217D, 0x217E, 0x217F, 0x2180, 0x2183, 0x2184, 0x2189, 0x218A, 0x218C, 0x2190, 0x222C,
     0x222D, 0x222E, 0x222F, 0x2230, 0x2231, 0x2329, 0x232A, 0x232B, 0x242A, 0x2440, 0x244B,
     0x2460, 0x2461, 0x2462, 0x2463, 0x2464, 0x2465, 0x2466, 0x2467, 0x2468, 0x2469, 0x246A,
     0x246B, 0x246C, 0x246D, 0x246E, 0x246F, 0x2470, 0x2471, 0x2472, 0x2473, 0x2474, 0x2475,
     0x2476, 0x2477, 0x2478, 0x2479, 0x247A, 0x247B, 0x247C, 0x247D, 0x247E, 0x247F, 0x2480,
     0x2481, 0x2482, 0x2483, 0x2484, 0x2485, 0x2486, 0x2487]"

definition uts46_starts_17 :: "nat list" where
  "uts46_starts_17 =
    [0x2488, 0x249C, 0x249D, 0x249E, 0x249F, 0x24A0, 0x24A1, 0x24A2, 0x24A3, 0x24A4, 0x24A5,
     0x24A6, 0x24A7, 0x24A8, 0x24A9, 0x24AA, 0x24AB, 0x24AC, 0x24AD, 0x24AE, 0x24AF, 0x24B0,
     0x24B1, 0x24B2, 0x24B3, 0x24B4, 0x24B5, 0x24B6, 0x24B7, 0x24B8, 0x24B9, 0x24BA, 0x24BB,
     0x24BC, 0x24BD, 0x24BE, 0x24BF, 0x24C0, 0x24C1, 0x24C2, 0x24C3, 0x24C4, 0x24C5, 0x24C6,
     0x24C7, 0x24C8, 0x24C9, 0x24CA, 0x24CB, 0x24CC, 0x24CD, 0x24CE, 0x24CF, 0x24D0, 0x24D1,
     0x24D2, 0x24D3, 0x24D4, 0x24D5, 0x24D6, 0x24D7, 0x24D8, 0x24D9, 0x24DA, 0x24DB, 0x24DC,
     0x24DD, 0x24DE, 0x24DF, 0x24E0, 0x24E1, 0x24E2, 0x24E3, 0x24E4, 0x24E5, 0x24E6, 0x24E7,
     0x24E8, 0x24E9, 0x24EA, 0x24EB, 0x2A0C, 0x2A0D, 0x2A74, 0x2A75, 0x2A76, 0x2A77, 0x2ADC,
     0x2ADD, 0x2B74, 0x2B76, 0x2C00, 0x2C01, 0x2C02, 0x2C03, 0x2C04, 0x2C05, 0x2C06, 0x2C07,
     0x2C08, 0x2C09, 0x2C0A, 0x2C0B, 0x2C0C, 0x2C0D, 0x2C0E, 0x2C0F, 0x2C10, 0x2C11, 0x2C12,
     0x2C13, 0x2C14, 0x2C15, 0x2C16, 0x2C17, 0x2C18, 0x2C19, 0x2C1A, 0x2C1B, 0x2C1C, 0x2C1D,
     0x2C1E, 0x2C1F, 0x2C20, 0x2C21, 0x2C22, 0x2C23, 0x2C24, 0x2C25, 0x2C26, 0x2C27, 0x2C28,
     0x2C29, 0x2C2A, 0x2C2B, 0x2C2C, 0x2C2D, 0x2C2E, 0x2C2F, 0x2C30, 0x2C60, 0x2C61, 0x2C62,
     0x2C63, 0x2C64, 0x2C65, 0x2C67, 0x2C68, 0x2C69, 0x2C6A]"

definition uts46_starts_18 :: "nat list" where
  "uts46_starts_18 =
    [0x2C6B, 0x2C6C, 0x2C6D, 0x2C6E, 0x2C6F, 0x2C70, 0x2C71, 0x2C72, 0x2C73, 0x2C75, 0x2C76,
     0x2C7C, 0x2C7D, 0x2C7E, 0x2C7F, 0x2C80, 0x2C81, 0x2C82, 0x2C83, 0x2C84, 0x2C85, 0x2C86,
     0x2C87, 0x2C88, 0x2C89, 0x2C8A, 0x2C8B, 0x2C8C, 0x2C8D, 0x2C8E, 0x2C8F, 0x2C90, 0x2C91,
     0x2C92, 0x2C93, 0x2C94, 0x2C95, 0x2C96, 0x2C97, 0x2C98, 0x2C99, 0x2C9A, 0x2C9B, 0x2C9C,
     0x2C9D, 0x2C9E, 0x2C9F, 0x2CA0, 0x2CA1, 0x2CA2, 0x2CA3, 0x2CA4, 0x2CA5, 0x2CA6, 0x2CA7,
     0x2CA8, 0x2CA9, 0x2CAA, 0x2CAB, 0x2CAC, 0x2CAD, 0x2CAE, 0x2CAF, 0x2CB0, 0x2CB1, 0x2CB2,
     0x2CB3, 0x2CB4, 0x2CB5, 0x2CB6, 0x2CB7, 0x2CB8, 0x2CB9, 0x2CBA, 0x2CBB, 0x2CBC, 0x2CBD,
     0x2CBE, 0x2CBF, 0x2CC0, 0x2CC1, 0x2CC2, 0x2CC3, 0x2CC4, 0x2CC5, 0x2CC6, 0x2CC7, 0x2CC8,
     0x2CC9, 0x2CCA, 0x2CCB, 0x2CCC, 0x2CCD, 0x2CCE, 0x2CCF, 0x2CD0, 0x2CD1, 0x2CD2, 0x2CD3,
     0x2CD4, 0x2CD5, 0x2CD6, 0x2CD7, 0x2CD8, 0x2CD9, 0x2CDA, 0x2CDB, 0x2CDC, 0x2CDD, 0x2CDE,
     0x2CDF, 0x2CE0, 0x2CE1, 0x2CE2, 0x2CE3, 0x2CEB, 0x2CEC, 0x2CED, 0x2CEE, 0x2CF2, 0x2CF3,
     0x2CF4, 0x2CF9, 0x2D26, 0x2D27, 0x2D28, 0x2D2D, 0x2D2E, 0x2D30, 0x2D68, 0x2D6F, 0x2D70,
     0x2D71, 0x2D7F, 0x2D97, 0x2DA0, 0x2DA7, 0x2DA8, 0x2DAF, 0x2DB0, 0x2DB7, 0x2DB8, 0x2DBF,
     0x2DC0, 0x2DC7, 0x2DC8, 0x2DCF, 0x2DD0, 0x2DD7, 0x2DD8]"

definition uts46_starts_19 :: "nat list" where
  "uts46_starts_19 =
    [0x2DDF, 0x2DE0, 0x2E5E, 0x2E80, 0x2E9A, 0x2E9B, 0x2E9F, 0x2EA0, 0x2EF3, 0x2EF4, 0x2F00,
     0x2F01, 0x2F02, 0x2F03, 0x2F04, 0x2F05, 0x2F06, 0x2F07, 0x2F08, 0x2F09, 0x2F0A, 0x2F0B,
     0x2F0C, 0x2F0D, 0x2F0E, 0x2F0F, 0x2F10, 0x2F11, 0x2F12, 0x2F13, 0x2F14, 0x2F15, 0x2F16,
     0x2F17, 0x2F18, 0x2F19, 0x2F1A, 0x2F1B, 0x2F1C, 0x2F1D, 0x2F1E, 0x2F1F, 0x2F20, 0x2F21,
     0x2F22, 0x2F23, 0x2F24, 0x2F25, 0x2F26, 0x2F27, 0x2F28, 0x2F29, 0x2F2A, 0x2F2B, 0x2F2C,
     0x2F2D, 0x2F2E, 0x2F2F, 0x2F30, 0x2F31, 0x2F32, 0x2F33, 0x2F34, 0x2F35, 0x2F36, 0x2F37,
     0x2F38, 0x2F39, 0x2F3A, 0x2F3B, 0x2F3C, 0x2F3D, 0x2F3E, 0x2F3F, 0x2F40, 0x2F41, 0x2F42,
     0x2F43, 0x2F44, 0x2F45, 0x2F46, 0x2F47, 0x2F48, 0x2F49, 0x2F4A, 0x2F4B, 0x2F4C, 0x2F4D,
     0x2F4E, 0x2F4F, 0x2F50, 0x2F51, 0x2F52, 0x2F53, 0x2F54, 0x2F55, 0x2F56, 0x2F57, 0x2F58,
     0x2F59, 0x2F5A, 0x2F5B, 0x2F5C, 0x2F5D, 0x2F5E, 0x2F5F, 0x2F60, 0x2F61, 0x2F62, 0x2F63,
     0x2F64, 0x2F65, 0x2F66, 0x2F67, 0x2F68, 0x2F69, 0x2F6A, 0x2F6B, 0x2F6C, 0x2F6D, 0x2F6E,
     0x2F6F, 0x2F70, 0x2F71, 0x2F72, 0x2F73, 0x2F74, 0x2F75, 0x2F76, 0x2F77, 0x2F78, 0x2F79,
     0x2F7A, 0x2F7B, 0x2F7C, 0x2F7D, 0x2F7E, 0x2F7F, 0x2F80, 0x2F81, 0x2F82, 0x2F83, 0x2F84,
     0x2F85, 0x2F86, 0x2F87, 0x2F88, 0x2F89, 0x2F8A, 0x2F8B]"

definition uts46_starts_20 :: "nat list" where
  "uts46_starts_20 =
    [0x2F8C, 0x2F8D, 0x2F8E, 0x2F8F, 0x2F90, 0x2F91, 0x2F92, 0x2F93, 0x2F94, 0x2F95, 0x2F96,
     0x2F97, 0x2F98, 0x2F99, 0x2F9A, 0x2F9B, 0x2F9C, 0x2F9D, 0x2F9E, 0x2F9F, 0x2FA0, 0x2FA1,
     0x2FA2, 0x2FA3, 0x2FA4, 0x2FA5, 0x2FA6, 0x2FA7, 0x2FA8, 0x2FA9, 0x2FAA, 0x2FAB, 0x2FAC,
     0x2FAD, 0x2FAE, 0x2FAF, 0x2FB0, 0x2FB1, 0x2FB2, 0x2FB3, 0x2FB4, 0x2FB5, 0x2FB6, 0x2FB7,
     0x2FB8, 0x2FB9, 0x2FBA, 0x2FBB, 0x2FBC, 0x2FBD, 0x2FBE, 0x2FBF, 0x2FC0, 0x2FC1, 0x2FC2,
     0x2FC3, 0x2FC4, 0x2FC5, 0x2FC6, 0x2FC7, 0x2FC8, 0x2FC9, 0x2FCA, 0x2FCB, 0x2FCC, 0x2FCD,
     0x2FCE, 0x2FCF, 0x2FD0, 0x2FD1, 0x2FD2, 0x2FD3, 0x2FD4, 0x2FD5, 0x2FD6, 0x3000, 0x3001,
     0x3002, 0x3003, 0x3036, 0x3037, 0x3038, 0x3039, 0x303A, 0x303B, 0x3040, 0x3041, 0x3097,
     0x3099, 0x309B, 0x309C, 0x309D, 0x309F, 0x30A0, 0x30FF, 0x3100, 0x3105, 0x3130, 0x3131,
     0x3132, 0x3133, 0x3134, 0x3135, 0x3136, 0x3137, 0x3138, 0x3139, 0x313A, 0x313B, 0x313C,
     0x313D, 0x313E, 0x313F, 0x3140, 0x3141, 0x3142, 0x3143, 0x3144, 0x3145, 0x3146, 0x3147,
     0x3148, 0x3149, 0x314A, 0x314B, 0x314C, 0x314D, 0x314E, 0x314F, 0x3150, 0x3151, 0x3152,
     0x3153, 0x3154, 0x3155, 0x3156, 0x3157, 0x3158, 0x3159, 0x315A, 0x315B, 0x315C, 0x315D,
     0x315E, 0x315F, 0x3160, 0x3161, 0x3162, 0x3163, 0x3164]"

definition uts46_starts_21 :: "nat list" where
  "uts46_starts_21 =
    [0x3165, 0x3166, 0x3167, 0x3168, 0x3169, 0x316A, 0x316B, 0x316C, 0x316D, 0x316E, 0x316F,
     0x3170, 0x3171, 0x3172, 0x3173, 0x3174, 0x3175, 0x3176, 0x3177, 0x3178, 0x3179, 0x317A,
     0x317B, 0x317C, 0x317D, 0x317E, 0x317F, 0x3180, 0x3181, 0x3182, 0x3183, 0x3184, 0x3185,
     0x3186, 0x3187, 0x3188, 0x3189, 0x318A, 0x318B, 0x318C, 0x318D, 0x318E, 0x318F, 0x3190,
     0x3192, 0x3193, 0x3194, 0x3195, 0x3196, 0x3197, 0x3198, 0x3199, 0x319A, 0x319B, 0x319C,
     0x319D, 0x319E, 0x319F, 0x31A0, 0x31E6, 0x31F0, 0x3200, 0x3201, 0x3202, 0x3203, 0x3204,
     0x3205, 0x3206, 0x3207, 0x3208, 0x3209, 0x320A, 0x320B, 0x320C, 0x320D, 0x320E, 0x320F,
     0x3210, 0x3211, 0x3212, 0x3213, 0x3214, 0x3215, 0x3216, 0x3217, 0x3218, 0x3219, 0x321A,
     0x321B, 0x321C, 0x321D, 0x321E, 0x321F, 0x3220, 0x3221, 0x3222, 0x3223, 0x3224, 0x3225,
     0x3226, 0x3227, 0x3228, 0x3229, 0x322A, 0x322B, 0x322C, 0x322D, 0x322E, 0x322F, 0x3230,
     0x3231, 0x3232, 0x3233, 0x3234, 0x3235, 0x3236, 0x3237, 0x3238, 0x3239, 0x323A, 0x323B,
     0x323C, 0x323D, 0x323E, 0x323F, 0x3240, 0x3241, 0x3242, 0x3243, 0x3244, 0x3245, 0x3246,
     0x3247, 0x3248, 0x3250, 0x3251, 0x3252, 0x3253, 0x3254, 0x3255, 0x3256, 0x3257, 0x3258,
     0x3259, 0x325A, 0x325B, 0x325C, 0x325D, 0x325E, 0x325F]"

definition uts46_starts_22 :: "nat list" where
  "uts46_starts_22 =
    [0x3260, 0x3261, 0x3262, 0x3263, 0x3264, 0x3265, 0x3266, 0x3267, 0x3268, 0x3269, 0x326A,
     0x326B, 0x326C, 0x326D, 0x326E, 0x326F, 0x3270, 0x3271, 0x3272, 0x3273, 0x3274, 0x3275,
     0x3276, 0x3277, 0x3278, 0x3279, 0x327A, 0x327B, 0x327C, 0x327D, 0x327E, 0x327F, 0x3280,
     0x3281, 0x3282, 0x3283, 0x3284, 0x3285, 0x3286, 0x3287, 0x3288, 0x3289, 0x328A, 0x328B,
     0x328C, 0x328D, 0x328E, 0x328F, 0x3290, 0x3291, 0x3292, 0x3293, 0x3294, 0x3295, 0x3296,
     0x3297, 0x3298, 0x3299, 0x329A, 0x329B, 0x329C, 0x329D, 0x329E, 0x329F, 0x32A0, 0x32A1,
     0x32A2, 0x32A3, 0x32A4, 0x32A5, 0x32A6, 0x32A7, 0x32A8, 0x32A9, 0x32AA, 0x32AB, 0x32AC,
     0x32AD, 0x32AE, 0x32AF, 0x32B0, 0x32B1, 0x32B2, 0x32B3, 0x32B4, 0x32B5, 0x32B6, 0x32B7,
     0x32B8, 0x32B9, 0x32BA, 0x32BB, 0x32BC, 0x32BD, 0x32BE, 0x32BF, 0x32C0, 0x32C1, 0x32C2,
     0x32C3, 0x32C4, 0x32C5, 0x32C6, 0x32C7, 0x32C8, 0x32C9, 0x32CA, 0x32CB, 0x32CC, 0x32CD,
     0x32CE, 0x32CF, 0x32D0, 0x32D1, 0x32D2, 0x32D3, 0x32D4, 0x32D5, 0x32D6, 0x32D7, 0x32D8,
     0x32D9, 0x32DA, 0x32DB, 0x32DC, 0x32DD, 0x32DE, 0x32DF, 0x32E0, 0x32E1, 0x32E2, 0x32E3,
     0x32E4, 0x32E5, 0x32E6, 0x32E7, 0x32E8, 0x32E9, 0x32EA, 0x32EB, 0x32EC, 0x32ED, 0x32EE,
     0x32EF, 0x32F0, 0x32F1, 0x32F2, 0x32F3, 0x32F4, 0x32F5]"

definition uts46_starts_23 :: "nat list" where
  "uts46_starts_23 =
    [0x32F6, 0x32F7, 0x32F8, 0x32F9, 0x32FA, 0x32FB, 0x32FC, 0x32FD, 0x32FE, 0x32FF, 0x3300,
     0x3301, 0x3302, 0x3303, 0x3304, 0x3305, 0x3306, 0x3307, 0x3308, 0x3309, 0x330A, 0x330B,
     0x330C, 0x330D, 0x330E, 0x330F, 0x3310, 0x3311, 0x3312, 0x3313, 0x3314, 0x3315, 0x3316,
     0x3317, 0x3318, 0x3319, 0x331A, 0x331B, 0x331C, 0x331D, 0x331E, 0x331F, 0x3320, 0x3321,
     0x3322, 0x3323, 0x3324, 0x3325, 0x3326, 0x3327, 0x3328, 0x3329, 0x332A, 0x332B, 0x332C,
     0x332D, 0x332E, 0x332F, 0x3330, 0x3331, 0x3332, 0x3333, 0x3334, 0x3335, 0x3336, 0x3337,
     0x3338, 0x3339, 0x333A, 0x333B, 0x333C, 0x333D, 0x333E, 0x333F, 0x3340, 0x3341, 0x3342,
     0x3343, 0x3344, 0x3345, 0x3346, 0x3347, 0x3348, 0x3349, 0x334A, 0x334B, 0x334C, 0x334D,
     0x334E, 0x334F, 0x3350, 0x3351, 0x3352, 0x3353, 0x3354, 0x3355, 0x3356, 0x3357, 0x3358,
     0x3359, 0x335A, 0x335B, 0x335C, 0x335D, 0x335E, 0x335F, 0x3360, 0x3361, 0x3362, 0x3363,
     0x3364, 0x3365, 0x3366, 0x3367, 0x3368, 0x3369, 0x336A, 0x336B, 0x336C, 0x336D, 0x336E,
     0x336F, 0x3370, 0x3371, 0x3372, 0x3373, 0x3374, 0x3375, 0x3376, 0x3377, 0x3378, 0x3379,
     0x337A, 0x337B, 0x337C, 0x337D, 0x337E, 0x337F, 0x3380, 0x3381, 0x3382, 0x3383, 0x3384,
     0x3385, 0x3386, 0x3387, 0x3388, 0x3389, 0x338A, 0x338B]"

definition uts46_starts_24 :: "nat list" where
  "uts46_starts_24 =
    [0x338C, 0x338D, 0x338E, 0x338F, 0x3390, 0x3391, 0x3392, 0x3393, 0x3394, 0x3395, 0x3396,
     0x3397, 0x3398, 0x3399, 0x339A, 0x339B, 0x339C, 0x339D, 0x339E, 0x339F, 0x33A0, 0x33A1,
     0x33A2, 0x33A3, 0x33A4, 0x33A5, 0x33A6, 0x33A7, 0x33A8, 0x33A9, 0x33AA, 0x33AB, 0x33AC,
     0x33AD, 0x33AE, 0x33AF, 0x33B0, 0x33B1, 0x33B2, 0x33B3, 0x33B4, 0x33B5, 0x33B6, 0x33B7,
     0x33B8, 0x33B9, 0x33BA, 0x33BB, 0x33BC, 0x33BD, 0x33BE, 0x33BF, 0x33C0, 0x33C1, 0x33C2,
     0x33C3, 0x33C4, 0x33C5, 0x33C6, 0x33C7, 0x33C8, 0x33C9, 0x33CA, 0x33CB, 0x33CC, 0x33CD,
     0x33CE, 0x33CF, 0x33D0, 0x33D1, 0x33D2, 0x33D3, 0x33D4, 0x33D5, 0x33D6, 0x33D7, 0x33D8,
     0x33D9, 0x33DA, 0x33DB, 0x33DC, 0x33DD, 0x33DE, 0x33DF, 0x33E0, 0x33E1, 0x33E2, 0x33E3,
     0x33E4, 0x33E5, 0x33E6, 0x33E7, 0x33E8, 0x33E9, 0x33EA, 0x33EB, 0x33EC, 0x33ED, 0x33EE,
     0x33EF, 0x33F0, 0x33F1, 0x33F2, 0x33F3, 0x33F4, 0x33F5, 0x33F6, 0x33F7, 0x33F8, 0x33F9,
     0x33FA, 0x33FB, 0x33FC, 0x33FD, 0x33FE, 0x33FF, 0x3400, 0xA48D, 0xA490, 0xA4C7, 0xA4D0,
     0xA62C, 0xA640, 0xA641, 0xA642, 0xA643, 0xA644, 0xA645, 0xA646, 0xA647, 0xA648, 0xA649,
     0xA64A, 0xA64B, 0xA64C, 0xA64D, 0xA64E, 0xA64F, 0xA650, 0xA651, 0xA652, 0xA653, 0xA654,
     0xA655, 0xA656, 0xA657, 0xA658, 0xA659, 0xA65A, 0xA65B]"

definition uts46_starts_25 :: "nat list" where
  "uts46_starts_25 =
    [0xA65C, 0xA65D, 0xA65E, 0xA65F, 0xA660, 0xA661, 0xA662, 0xA663, 0xA664, 0xA665, 0xA666,
     0xA667, 0xA668, 0xA669, 0xA66A, 0xA66B, 0xA66C, 0xA66D, 0xA680, 0xA681, 0xA682, 0xA683,
     0xA684, 0xA685, 0xA686, 0xA687, 0xA688, 0xA689, 0xA68A, 0xA68B, 0xA68C, 0xA68D, 0xA68E,
     0xA68F, 0xA690, 0xA691, 0xA692, 0xA693, 0xA694, 0xA695, 0xA696, 0xA697, 0xA698, 0xA699,
     0xA69A, 0xA69B, 0xA69C, 0xA69D, 0xA69E, 0xA6F8, 0xA700, 0xA722, 0xA723, 0xA724, 0xA725,
     0xA726, 0xA727, 0xA728, 0xA729, 0xA72A, 0xA72B, 0xA72C, 0xA72D, 0xA72E, 0xA72F, 0xA732,
     0xA733, 0xA734, 0xA735, 0xA736, 0xA737, 0xA738, 0xA739, 0xA73A, 0xA73B, 0xA73C, 0xA73D,
     0xA73E, 0xA73F, 0xA740, 0xA741, 0xA742, 0xA743, 0xA744, 0xA745, 0xA746, 0xA747, 0xA748,
     0xA749, 0xA74A, 0xA74B, 0xA74C, 0xA74D, 0xA74E, 0xA74F, 0xA750, 0xA751, 0xA752, 0xA753,
     0xA754, 0xA755, 0xA756, 0xA757, 0xA758, 0xA759, 0xA75A, 0xA75B, 0xA75C, 0xA75D, 0xA75E,
     0xA75F, 0xA760, 0xA761, 0xA762, 0xA763, 0xA764, 0xA765, 0xA766, 0xA767, 0xA768, 0xA769,
     0xA76A, 0xA76B, 0xA76C, 0xA76D, 0xA76E, 0xA76F, 0xA770, 0xA771, 0xA779, 0xA77A, 0xA77B,
     0xA77C, 0xA77D, 0xA77E, 0xA77F, 0xA780, 0xA781, 0xA782, 0xA783, 0xA784, 0xA785, 0xA786,
     0xA787, 0xA78B, 0xA78C, 0xA78D, 0xA78E, 0xA790, 0xA791]"

definition uts46_starts_26 :: "nat list" where
  "uts46_starts_26 =
    [0xA792, 0xA793, 0xA796, 0xA797, 0xA798, 0xA799, 0xA79A, 0xA79B, 0xA79C, 0xA79D, 0xA79E,
     0xA79F, 0xA7A0, 0xA7A1, 0xA7A2, 0xA7A3, 0xA7A4, 0xA7A5, 0xA7A6, 0xA7A7, 0xA7A8, 0xA7A9,
     0xA7AA, 0xA7AB, 0xA7AC, 0xA7AD, 0xA7AE, 0xA7AF, 0xA7B0, 0xA7B1, 0xA7B2, 0xA7B3, 0xA7B4,
     0xA7B5, 0xA7B6, 0xA7B7, 0xA7B8, 0xA7B9, 0xA7BA, 0xA7BB, 0xA7BC, 0xA7BD, 0xA7BE, 0xA7BF,
     0xA7C0, 0xA7C1, 0xA7C2, 0xA7C3, 0xA7C4, 0xA7C5, 0xA7C6, 0xA7C7, 0xA7C8, 0xA7C9, 0xA7CA,
     0xA7CB, 0xA7CC, 0xA7CD, 0xA7CE, 0xA7CF, 0xA7D0, 0xA7D1, 0xA7D2, 0xA7D3, 0xA7D4, 0xA7D5,
     0xA7D6, 0xA7D7, 0xA7D8, 0xA7D9, 0xA7DA, 0xA7DB, 0xA7DC, 0xA7DD, 0xA7F1, 0xA7F2, 0xA7F3,
     0xA7F4, 0xA7F5, 0xA7F6, 0xA7F8, 0xA7F9, 0xA7FA, 0xA82D, 0xA830, 0xA83A, 0xA840, 0xA878,
     0xA880, 0xA8C6, 0xA8CE, 0xA8DA, 0xA8E0, 0xA954, 0xA95F, 0xA97D, 0xA980, 0xA9CE, 0xA9CF,
     0xA9DA, 0xA9DE, 0xA9FF, 0xAA00, 0xAA37, 0xAA40, 0xAA4E, 0xAA50, 0xAA5A, 0xAA5C, 0xAAC3,
     0xAADB, 0xAAF7, 0xAB01, 0xAB07, 0xAB09, 0xAB0F, 0xAB11, 0xAB17, 0xAB20, 0xAB27, 0xAB28,
     0xAB2F, 0xAB30, 0xAB5C, 0xAB5D, 0xAB5E, 0xAB5F, 0xAB60, 0xAB69, 0xAB6A, 0xAB6C, 0xAB70,
     0xAB71, 0xAB72, 0xAB73, 0xAB74, 0xAB75, 0xAB76, 0xAB77, 0xAB78, 0xAB79, 0xAB7A, 0xAB7B,
     0xAB7C, 0xAB7D, 0xAB7E, 0xAB7F, 0xAB80, 0xAB81, 0xAB82]"

definition uts46_starts_27 :: "nat list" where
  "uts46_starts_27 =
    [0xAB83, 0xAB84, 0xAB85, 0xAB86, 0xAB87, 0xAB88, 0xAB89, 0xAB8A, 0xAB8B, 0xAB8C, 0xAB8D,
     0xAB8E, 0xAB8F, 0xAB90, 0xAB91, 0xAB92, 0xAB93, 0xAB94, 0xAB95, 0xAB96, 0xAB97, 0xAB98,
     0xAB99, 0xAB9A, 0xAB9B, 0xAB9C, 0xAB9D, 0xAB9E, 0xAB9F, 0xABA0, 0xABA1, 0xABA2, 0xABA3,
     0xABA4, 0xABA5, 0xABA6, 0xABA7, 0xABA8, 0xABA9, 0xABAA, 0xABAB, 0xABAC, 0xABAD, 0xABAE,
     0xABAF, 0xABB0, 0xABB1, 0xABB2, 0xABB3, 0xABB4, 0xABB5, 0xABB6, 0xABB7, 0xABB8, 0xABB9,
     0xABBA, 0xABBB, 0xABBC, 0xABBD, 0xABBE, 0xABBF, 0xABC0, 0xABEE, 0xABF0, 0xABFA, 0xAC00,
     0xD7A4, 0xD7B0, 0xD7C7, 0xD7CB, 0xD7FC, 0xF900, 0xF901, 0xF902, 0xF903, 0xF904, 0xF905,
     0xF906, 0xF907, 0xF909, 0xF90A, 0xF90B, 0xF90C, 0xF90D, 0xF90E, 0xF90F, 0xF910, 0xF911,
     0xF912, 0xF913, 0xF914, 0xF915, 0xF916, 0xF917, 0xF918, 0xF919, 0xF91A, 0xF91B, 0xF91C,
     0xF91D, 0xF91E, 0xF91F, 0xF920, 0xF921, 0xF922, 0xF923, 0xF924, 0xF925, 0xF926, 0xF927,
     0xF928, 0xF929, 0xF92A, 0xF92B, 0xF92C, 0xF92D, 0xF92E, 0xF92F, 0xF930, 0xF931, 0xF932,
     0xF933, 0xF934, 0xF935, 0xF936, 0xF937, 0xF938, 0xF939, 0xF93A, 0xF93B, 0xF93C, 0xF93D,
     0xF93E, 0xF93F, 0xF940, 0xF941, 0xF942, 0xF943, 0xF944, 0xF945, 0xF946, 0xF947, 0xF948,
     0xF949, 0xF94A, 0xF94B, 0xF94C, 0xF94D, 0xF94E, 0xF94F]"

definition uts46_starts_28 :: "nat list" where
  "uts46_starts_28 =
    [0xF950, 0xF951, 0xF952, 0xF953, 0xF954, 0xF955, 0xF956, 0xF957, 0xF958, 0xF959, 0xF95A,
     0xF95B, 0xF95C, 0xF95D, 0xF95E, 0xF95F, 0xF960, 0xF961, 0xF962, 0xF963, 0xF964, 0xF965,
     0xF966, 0xF967, 0xF968, 0xF969, 0xF96A, 0xF96B, 0xF96C, 0xF96D, 0xF96E, 0xF96F, 0xF970,
     0xF971, 0xF972, 0xF973, 0xF974, 0xF975, 0xF976, 0xF977, 0xF978, 0xF979, 0xF97A, 0xF97B,
     0xF97C, 0xF97D, 0xF97E, 0xF97F, 0xF980, 0xF981, 0xF982, 0xF983, 0xF984, 0xF985, 0xF986,
     0xF987, 0xF988, 0xF989, 0xF98A, 0xF98B, 0xF98C, 0xF98D, 0xF98E, 0xF98F, 0xF990, 0xF991,
     0xF992, 0xF993, 0xF994, 0xF995, 0xF996, 0xF997, 0xF998, 0xF999, 0xF99A, 0xF99B, 0xF99C,
     0xF99D, 0xF99E, 0xF99F, 0xF9A0, 0xF9A1, 0xF9A2, 0xF9A3, 0xF9A4, 0xF9A5, 0xF9A6, 0xF9A7,
     0xF9A8, 0xF9A9, 0xF9AA, 0xF9AB, 0xF9AC, 0xF9AD, 0xF9AE, 0xF9AF, 0xF9B0, 0xF9B1, 0xF9B2,
     0xF9B3, 0xF9B4, 0xF9B5, 0xF9B6, 0xF9B7, 0xF9B8, 0xF9B9, 0xF9BA, 0xF9BB, 0xF9BC, 0xF9BD,
     0xF9BE, 0xF9BF, 0xF9C0, 0xF9C1, 0xF9C2, 0xF9C3, 0xF9C4, 0xF9C5, 0xF9C6, 0xF9C7, 0xF9C8,
     0xF9C9, 0xF9CA, 0xF9CB, 0xF9CC, 0xF9CD, 0xF9CE, 0xF9CF, 0xF9D0, 0xF9D1, 0xF9D2, 0xF9D3,
     0xF9D4, 0xF9D5, 0xF9D6, 0xF9D7, 0xF9D8, 0xF9D9, 0xF9DA, 0xF9DB, 0xF9DC, 0xF9DD, 0xF9DE,
     0xF9DF, 0xF9E0, 0xF9E1, 0xF9E2, 0xF9E3, 0xF9E4, 0xF9E5]"

definition uts46_starts_29 :: "nat list" where
  "uts46_starts_29 =
    [0xF9E6, 0xF9E7, 0xF9E8, 0xF9E9, 0xF9EA, 0xF9EB, 0xF9EC, 0xF9ED, 0xF9EE, 0xF9EF, 0xF9F0,
     0xF9F1, 0xF9F2, 0xF9F3, 0xF9F4, 0xF9F5, 0xF9F6, 0xF9F7, 0xF9F8, 0xF9F9, 0xF9FA, 0xF9FB,
     0xF9FC, 0xF9FD, 0xF9FE, 0xF9FF, 0xFA00, 0xFA01, 0xFA02, 0xFA03, 0xFA04, 0xFA05, 0xFA06,
     0xFA07, 0xFA08, 0xFA09, 0xFA0A, 0xFA0B, 0xFA0C, 0xFA0D, 0xFA0E, 0xFA10, 0xFA11, 0xFA12,
     0xFA13, 0xFA15, 0xFA16, 0xFA17, 0xFA18, 0xFA19, 0xFA1A, 0xFA1B, 0xFA1C, 0xFA1D, 0xFA1E,
     0xFA1F, 0xFA20, 0xFA21, 0xFA22, 0xFA23, 0xFA25, 0xFA26, 0xFA27, 0xFA2A, 0xFA2B, 0xFA2C,
     0xFA2D, 0xFA2E, 0xFA2F, 0xFA30, 0xFA31, 0xFA32, 0xFA33, 0xFA34, 0xFA35, 0xFA36, 0xFA37,
     0xFA38, 0xFA39, 0xFA3A, 0xFA3B, 0xFA3C, 0xFA3D, 0xFA3E, 0xFA3F, 0xFA40, 0xFA41, 0xFA42,
     0xFA43, 0xFA44, 0xFA45, 0xFA46, 0xFA47, 0xFA48, 0xFA49, 0xFA4A, 0xFA4B, 0xFA4C, 0xFA4D,
     0xFA4E, 0xFA4F, 0xFA50, 0xFA51, 0xFA52, 0xFA53, 0xFA54, 0xFA55, 0xFA56, 0xFA57, 0xFA58,
     0xFA59, 0xFA5A, 0xFA5B, 0xFA5C, 0xFA5D, 0xFA5F, 0xFA60, 0xFA61, 0xFA62, 0xFA63, 0xFA64,
     0xFA65, 0xFA66, 0xFA67, 0xFA68, 0xFA69, 0xFA6A, 0xFA6B, 0xFA6C, 0xFA6D, 0xFA6E, 0xFA70,
     0xFA71, 0xFA72, 0xFA73, 0xFA74, 0xFA75, 0xFA76, 0xFA77, 0xFA78, 0xFA79, 0xFA7A, 0xFA7B,
     0xFA7C, 0xFA7D, 0xFA7E, 0xFA7F, 0xFA80, 0xFA81, 0xFA82]"

definition uts46_starts_30 :: "nat list" where
  "uts46_starts_30 =
    [0xFA83, 0xFA84, 0xFA85, 0xFA86, 0xFA87, 0xFA88, 0xFA89, 0xFA8A, 0xFA8B, 0xFA8C, 0xFA8D,
     0xFA8E, 0xFA8F, 0xFA90, 0xFA91, 0xFA92, 0xFA93, 0xFA94, 0xFA95, 0xFA96, 0xFA97, 0xFA98,
     0xFA99, 0xFA9A, 0xFA9B, 0xFA9C, 0xFA9D, 0xFA9E, 0xFA9F, 0xFAA0, 0xFAA1, 0xFAA2, 0xFAA3,
     0xFAA4, 0xFAA5, 0xFAA6, 0xFAA7, 0xFAA8, 0xFAA9, 0xFAAA, 0xFAAB, 0xFAAC, 0xFAAD, 0xFAAE,
     0xFAAF, 0xFAB0, 0xFAB1, 0xFAB2, 0xFAB3, 0xFAB4, 0xFAB5, 0xFAB6, 0xFAB7, 0xFAB8, 0xFAB9,
     0xFABA, 0xFABB, 0xFABC, 0xFABD, 0xFABE, 0xFABF, 0xFAC0, 0xFAC1, 0xFAC2, 0xFAC3, 0xFAC4,
     0xFAC5, 0xFAC6, 0xFAC7, 0xFAC8, 0xFAC9, 0xFACA, 0xFACB, 0xFACC, 0xFACD, 0xFACE, 0xFACF,
     0xFAD0, 0xFAD1, 0xFAD2, 0xFAD3, 0xFAD4, 0xFAD5, 0xFAD6, 0xFAD7, 0xFAD8, 0xFAD9, 0xFADA,
     0xFB00, 0xFB01, 0xFB02, 0xFB03, 0xFB04, 0xFB05, 0xFB07, 0xFB13, 0xFB14, 0xFB15, 0xFB16,
     0xFB17, 0xFB18, 0xFB1D, 0xFB1E, 0xFB1F, 0xFB20, 0xFB21, 0xFB22, 0xFB23, 0xFB24, 0xFB25,
     0xFB26, 0xFB27, 0xFB28, 0xFB29, 0xFB2A, 0xFB2B, 0xFB2C, 0xFB2D, 0xFB2E, 0xFB2F, 0xFB30,
     0xFB31, 0xFB32, 0xFB33, 0xFB34, 0xFB35, 0xFB36, 0xFB37, 0xFB38, 0xFB39, 0xFB3A, 0xFB3B,
     0xFB3C, 0xFB3D, 0xFB3E, 0xFB3F, 0xFB40, 0xFB41, 0xFB42, 0xFB43, 0xFB44, 0xFB45, 0xFB46,
     0xFB47, 0xFB48, 0xFB49, 0xFB4A, 0xFB4B, 0xFB4C, 0xFB4D]"

definition uts46_starts_31 :: "nat list" where
  "uts46_starts_31 =
    [0xFB4E, 0xFB4F, 0xFB50, 0xFB52, 0xFB56, 0xFB5A, 0xFB5E, 0xFB62, 0xFB66, 0xFB6A, 0xFB6E,
     0xFB72, 0xFB76, 0xFB7A, 0xFB7E, 0xFB82, 0xFB84, 0xFB86, 0xFB88, 0xFB8A, 0xFB8C, 0xFB8E,
     0xFB92, 0xFB96, 0xFB9A, 0xFB9E, 0xFBA0, 0xFBA4, 0xFBA6, 0xFBAA, 0xFBAE, 0xFBB0, 0xFBB2,
     0xFBD3, 0xFBD7, 0xFBD9, 0xFBDB, 0xFBDD, 0xFBDE, 0xFBE0, 0xFBE2, 0xFBE4, 0xFBE8, 0xFBEA,
     0xFBEC, 0xFBEE, 0xFBF0, 0xFBF2, 0xFBF4, 0xFBF6, 0xFBF9, 0xFBFC, 0xFC00, 0xFC01, 0xFC02,
     0xFC03, 0xFC04, 0xFC05, 0xFC06, 0xFC07, 0xFC08, 0xFC09, 0xFC0A, 0xFC0B, 0xFC0C, 0xFC0D,
     0xFC0E, 0xFC0F, 0xFC10, 0xFC11, 0xFC12, 0xFC13, 0xFC14, 0xFC15, 0xFC16, 0xFC17, 0xFC18,
     0xFC19, 0xFC1A, 0xFC1B, 0xFC1C, 0xFC1D, 0xFC1E, 0xFC1F, 0xFC20, 0xFC21, 0xFC22, 0xFC23,
     0xFC24, 0xFC25, 0xFC26, 0xFC27, 0xFC28, 0xFC29, 0xFC2A, 0xFC2B, 0xFC2C, 0xFC2D, 0xFC2E,
     0xFC2F, 0xFC30, 0xFC31, 0xFC32, 0xFC33, 0xFC34, 0xFC35, 0xFC36, 0xFC37, 0xFC38, 0xFC39,
     0xFC3A, 0xFC3B, 0xFC3C, 0xFC3D, 0xFC3E, 0xFC3F, 0xFC40, 0xFC41, 0xFC42, 0xFC43, 0xFC44,
     0xFC45, 0xFC46, 0xFC47, 0xFC48, 0xFC49, 0xFC4A, 0xFC4B, 0xFC4C, 0xFC4D, 0xFC4E, 0xFC4F,
     0xFC50, 0xFC51, 0xFC52, 0xFC53, 0xFC54, 0xFC55, 0xFC56, 0xFC57, 0xFC58, 0xFC59, 0xFC5A,
     0xFC5B, 0xFC5C, 0xFC5D, 0xFC5E, 0xFC5F, 0xFC60, 0xFC61]"

definition uts46_starts_32 :: "nat list" where
  "uts46_starts_32 =
    [0xFC62, 0xFC63, 0xFC64, 0xFC65, 0xFC66, 0xFC67, 0xFC68, 0xFC69, 0xFC6A, 0xFC6B, 0xFC6C,
     0xFC6D, 0xFC6E, 0xFC6F, 0xFC70, 0xFC71, 0xFC72, 0xFC73, 0xFC74, 0xFC75, 0xFC76, 0xFC77,
     0xFC78, 0xFC79, 0xFC7A, 0xFC7B, 0xFC7C, 0xFC7D, 0xFC7E, 0xFC7F, 0xFC80, 0xFC81, 0xFC82,
     0xFC83, 0xFC84, 0xFC85, 0xFC86, 0xFC87, 0xFC88, 0xFC89, 0xFC8A, 0xFC8B, 0xFC8C, 0xFC8D,
     0xFC8E, 0xFC8F, 0xFC90, 0xFC91, 0xFC92, 0xFC93, 0xFC94, 0xFC95, 0xFC96, 0xFC97, 0xFC98,
     0xFC99, 0xFC9A, 0xFC9B, 0xFC9C, 0xFC9D, 0xFC9E, 0xFC9F, 0xFCA0, 0xFCA1, 0xFCA2, 0xFCA3,
     0xFCA4, 0xFCA5, 0xFCA6, 0xFCA7, 0xFCA8, 0xFCA9, 0xFCAA, 0xFCAB, 0xFCAC, 0xFCAD, 0xFCAE,
     0xFCAF, 0xFCB0, 0xFCB1, 0xFCB2, 0xFCB3, 0xFCB4, 0xFCB5, 0xFCB6, 0xFCB7, 0xFCB8, 0xFCB9,
     0xFCBA, 0xFCBB, 0xFCBC, 0xFCBD, 0xFCBE, 0xFCBF, 0xFCC0, 0xFCC1, 0xFCC2, 0xFCC3, 0xFCC4,
     0xFCC5, 0xFCC6, 0xFCC7, 0xFCC8, 0xFCC9, 0xFCCA, 0xFCCB, 0xFCCC, 0xFCCD, 0xFCCE, 0xFCCF,
     0xFCD0, 0xFCD1, 0xFCD2, 0xFCD3, 0xFCD4, 0xFCD5, 0xFCD6, 0xFCD7, 0xFCD8, 0xFCD9, 0xFCDA,
     0xFCDB, 0xFCDC, 0xFCDD, 0xFCDE, 0xFCDF, 0xFCE0, 0xFCE1, 0xFCE2, 0xFCE3, 0xFCE4, 0xFCE5,
     0xFCE6, 0xFCE7, 0xFCE8, 0xFCE9, 0xFCEA, 0xFCEB, 0xFCEC, 0xFCED, 0xFCEE, 0xFCEF, 0xFCF0,
     0xFCF1, 0xFCF2, 0xFCF3, 0xFCF4, 0xFCF5, 0xFCF6, 0xFCF7]"

definition uts46_starts_33 :: "nat list" where
  "uts46_starts_33 =
    [0xFCF8, 0xFCF9, 0xFCFA, 0xFCFB, 0xFCFC, 0xFCFD, 0xFCFE, 0xFCFF, 0xFD00, 0xFD01, 0xFD02,
     0xFD03, 0xFD04, 0xFD05, 0xFD06, 0xFD07, 0xFD08, 0xFD09, 0xFD0A, 0xFD0B, 0xFD0C, 0xFD0D,
     0xFD0E, 0xFD0F, 0xFD10, 0xFD11, 0xFD12, 0xFD13, 0xFD14, 0xFD15, 0xFD16, 0xFD17, 0xFD18,
     0xFD19, 0xFD1A, 0xFD1B, 0xFD1C, 0xFD1D, 0xFD1E, 0xFD1F, 0xFD20, 0xFD21, 0xFD22, 0xFD23,
     0xFD24, 0xFD25, 0xFD26, 0xFD27, 0xFD28, 0xFD29, 0xFD2A, 0xFD2B, 0xFD2C, 0xFD2D, 0xFD2E,
     0xFD2F, 0xFD30, 0xFD31, 0xFD32, 0xFD33, 0xFD34, 0xFD35, 0xFD36, 0xFD37, 0xFD38, 0xFD39,
     0xFD3A, 0xFD3B, 0xFD3C, 0xFD3E, 0xFD50, 0xFD51, 0xFD53, 0xFD54, 0xFD55, 0xFD56, 0xFD57,
     0xFD58, 0xFD5A, 0xFD5B, 0xFD5C, 0xFD5D, 0xFD5E, 0xFD5F, 0xFD61, 0xFD62, 0xFD64, 0xFD66,
     0xFD67, 0xFD69, 0xFD6A, 0xFD6C, 0xFD6E, 0xFD6F, 0xFD71, 0xFD73, 0xFD74, 0xFD75, 0xFD76,
     0xFD78, 0xFD79, 0xFD7A, 0xFD7B, 0xFD7C, 0xFD7E, 0xFD7F, 0xFD80, 0xFD81, 0xFD82, 0xFD83,
     0xFD85, 0xFD87, 0xFD89, 0xFD8A, 0xFD8B, 0xFD8C, 0xFD8D, 0xFD8E, 0xFD8F, 0xFD90, 0xFD92,
     0xFD93, 0xFD94, 0xFD95, 0xFD96, 0xFD97, 0xFD99, 0xFD9A, 0xFD9B, 0xFD9C, 0xFD9E, 0xFD9F,
     0xFDA0, 0xFDA1, 0xFDA2, 0xFDA3, 0xFDA4, 0xFDA5, 0xFDA6, 0xFDA7, 0xFDA8, 0xFDA9, 0xFDAA,
     0xFDAB, 0xFDAC, 0xFDAD, 0xFDAE, 0xFDAF, 0xFDB0, 0xFDB1]"

definition uts46_starts_34 :: "nat list" where
  "uts46_starts_34 =
    [0xFDB2, 0xFDB3, 0xFDB4, 0xFDB5, 0xFDB6, 0xFDB7, 0xFDB8, 0xFDB9, 0xFDBA, 0xFDBB, 0xFDBC,
     0xFDBD, 0xFDBE, 0xFDBF, 0xFDC0, 0xFDC1, 0xFDC2, 0xFDC3, 0xFDC4, 0xFDC5, 0xFDC6, 0xFDC7,
     0xFDC8, 0xFDD0, 0xFDF0, 0xFDF1, 0xFDF2, 0xFDF3, 0xFDF4, 0xFDF5, 0xFDF6, 0xFDF7, 0xFDF8,
     0xFDF9, 0xFDFA, 0xFDFB, 0xFDFC, 0xFDFD, 0xFE00, 0xFE10, 0xFE11, 0xFE12, 0xFE13, 0xFE14,
     0xFE15, 0xFE16, 0xFE17, 0xFE18, 0xFE19, 0xFE20, 0xFE30, 0xFE31, 0xFE32, 0xFE33, 0xFE35,
     0xFE36, 0xFE37, 0xFE38, 0xFE39, 0xFE3A, 0xFE3B, 0xFE3C, 0xFE3D, 0xFE3E, 0xFE3F, 0xFE40,
     0xFE41, 0xFE42, 0xFE43, 0xFE44, 0xFE45, 0xFE47, 0xFE48, 0xFE49, 0xFE4D, 0xFE50, 0xFE51,
     0xFE52, 0xFE54, 0xFE55, 0xFE56, 0xFE57, 0xFE58, 0xFE59, 0xFE5A, 0xFE5B, 0xFE5C, 0xFE5D,
     0xFE5E, 0xFE5F, 0xFE60, 0xFE61, 0xFE62, 0xFE63, 0xFE64, 0xFE65, 0xFE66, 0xFE67, 0xFE68,
     0xFE69, 0xFE6A, 0xFE6B, 0xFE6C, 0xFE70, 0xFE71, 0xFE72, 0xFE73, 0xFE74, 0xFE75, 0xFE76,
     0xFE77, 0xFE78, 0xFE79, 0xFE7A, 0xFE7B, 0xFE7C, 0xFE7D, 0xFE7E, 0xFE7F, 0xFE80, 0xFE81,
     0xFE83, 0xFE85, 0xFE87, 0xFE89, 0xFE8D, 0xFE8F, 0xFE93, 0xFE95, 0xFE99, 0xFE9D, 0xFEA1,
     0xFEA5, 0xFEA9, 0xFEAB, 0xFEAD, 0xFEAF, 0xFEB1, 0xFEB5, 0xFEB9, 0xFEBD, 0xFEC1, 0xFEC5,
     0xFEC9, 0xFECD, 0xFED1, 0xFED5, 0xFED9, 0xFEDD, 0xFEE1]"

definition uts46_starts_35 :: "nat list" where
  "uts46_starts_35 =
    [0xFEE5, 0xFEE9, 0xFEED, 0xFEEF, 0xFEF1, 0xFEF5, 0xFEF7, 0xFEF9, 0xFEFB, 0xFEFD, 0xFEFF,
     0xFF00, 0xFF01, 0xFF02, 0xFF03, 0xFF04, 0xFF05, 0xFF06, 0xFF07, 0xFF08, 0xFF09, 0xFF0A,
     0xFF0B, 0xFF0C, 0xFF0D, 0xFF0E, 0xFF0F, 0xFF10, 0xFF11, 0xFF12, 0xFF13, 0xFF14, 0xFF15,
     0xFF16, 0xFF17, 0xFF18, 0xFF19, 0xFF1A, 0xFF1B, 0xFF1C, 0xFF1D, 0xFF1E, 0xFF1F, 0xFF20,
     0xFF21, 0xFF22, 0xFF23, 0xFF24, 0xFF25, 0xFF26, 0xFF27, 0xFF28, 0xFF29, 0xFF2A, 0xFF2B,
     0xFF2C, 0xFF2D, 0xFF2E, 0xFF2F, 0xFF30, 0xFF31, 0xFF32, 0xFF33, 0xFF34, 0xFF35, 0xFF36,
     0xFF37, 0xFF38, 0xFF39, 0xFF3A, 0xFF3B, 0xFF3C, 0xFF3D, 0xFF3E, 0xFF3F, 0xFF40, 0xFF41,
     0xFF42, 0xFF43, 0xFF44, 0xFF45, 0xFF46, 0xFF47, 0xFF48, 0xFF49, 0xFF4A, 0xFF4B, 0xFF4C,
     0xFF4D, 0xFF4E, 0xFF4F, 0xFF50, 0xFF51, 0xFF52, 0xFF53, 0xFF54, 0xFF55, 0xFF56, 0xFF57,
     0xFF58, 0xFF59, 0xFF5A, 0xFF5B, 0xFF5C, 0xFF5D, 0xFF5E, 0xFF5F, 0xFF60, 0xFF61, 0xFF62,
     0xFF63, 0xFF64, 0xFF65, 0xFF66, 0xFF67, 0xFF68, 0xFF69, 0xFF6A, 0xFF6B, 0xFF6C, 0xFF6D,
     0xFF6E, 0xFF6F, 0xFF70, 0xFF71, 0xFF72, 0xFF73, 0xFF74, 0xFF75, 0xFF76, 0xFF77, 0xFF78,
     0xFF79, 0xFF7A, 0xFF7B, 0xFF7C, 0xFF7D, 0xFF7E, 0xFF7F, 0xFF80, 0xFF81, 0xFF82, 0xFF83,
     0xFF84, 0xFF85, 0xFF86, 0xFF87, 0xFF88, 0xFF89, 0xFF8A]"

definition uts46_starts_36 :: "nat list" where
  "uts46_starts_36 =
    [0xFF8B, 0xFF8C, 0xFF8D, 0xFF8E, 0xFF8F, 0xFF90, 0xFF91, 0xFF92, 0xFF93, 0xFF94, 0xFF95,
     0xFF96, 0xFF97, 0xFF98, 0xFF99, 0xFF9A, 0xFF9B, 0xFF9C, 0xFF9D, 0xFF9E, 0xFF9F, 0xFFA0,
     0xFFA1, 0xFFA2, 0xFFA3, 0xFFA4, 0xFFA5, 0xFFA6, 0xFFA7, 0xFFA8, 0xFFA9, 0xFFAA, 0xFFAB,
     0xFFAC, 0xFFAD, 0xFFAE, 0xFFAF, 0xFFB0, 0xFFB1, 0xFFB2, 0xFFB3, 0xFFB4, 0xFFB5, 0xFFB6,
     0xFFB7, 0xFFB8, 0xFFB9, 0xFFBA, 0xFFBB, 0xFFBC, 0xFFBD, 0xFFBE, 0xFFBF, 0xFFC2, 0xFFC3,
     0xFFC4, 0xFFC5, 0xFFC6, 0xFFC7, 0xFFC8, 0xFFCA, 0xFFCB, 0xFFCC, 0xFFCD, 0xFFCE, 0xFFCF,
     0xFFD0, 0xFFD2, 0xFFD3, 0xFFD4, 0xFFD5, 0xFFD6, 0xFFD7, 0xFFD8, 0xFFDA, 0xFFDB, 0xFFDC,
     0xFFDD, 0xFFE0, 0xFFE1, 0xFFE2, 0xFFE3, 0xFFE4, 0xFFE5, 0xFFE6, 0xFFE7, 0xFFE8, 0xFFE9,
     0xFFEA, 0xFFEB, 0xFFEC, 0xFFED, 0xFFEE, 0xFFEF, 0x10000, 0x1000C, 0x1000D, 0x10027, 0x10028,
     0x1003B, 0x1003C, 0x1003E, 0x1003F, 0x1004E, 0x10050, 0x1005E, 0x10080, 0x100FB, 0x10100,
     0x10103, 0x10107, 0x10134, 0x10137, 0x1018F, 0x10190, 0x1019D, 0x101A0, 0x101A1, 0x101D0,
     0x101FE, 0x10280, 0x1029D, 0x102A0, 0x102D1, 0x102E0, 0x102FC, 0x10300, 0x10324, 0x1032D,
     0x1034B, 0x10350, 0x1037B, 0x10380, 0x1039E, 0x1039F, 0x103C4, 0x103C8, 0x103D6, 0x10400,
     0x10401, 0x10402, 0x10403, 0x10404, 0x10405, 0x10406, 0x10407, 0x10408, 0x10409, 0x1040A,
     0x1040B]"

definition uts46_starts_37 :: "nat list" where
  "uts46_starts_37 =
    [0x1040C, 0x1040D, 0x1040E, 0x1040F, 0x10410, 0x10411, 0x10412, 0x10413, 0x10414, 0x10415,
     0x10416, 0x10417, 0x10418, 0x10419, 0x1041A, 0x1041B, 0x1041C, 0x1041D, 0x1041E, 0x1041F,
     0x10420, 0x10421, 0x10422, 0x10423, 0x10424, 0x10425, 0x10426, 0x10427, 0x10428, 0x1049E,
     0x104A0, 0x104AA, 0x104B0, 0x104B1, 0x104B2, 0x104B3, 0x104B4, 0x104B5, 0x104B6, 0x104B7,
     0x104B8, 0x104B9, 0x104BA, 0x104BB, 0x104BC, 0x104BD, 0x104BE, 0x104BF, 0x104C0, 0x104C1,
     0x104C2, 0x104C3, 0x104C4, 0x104C5, 0x104C6, 0x104C7, 0x104C8, 0x104C9, 0x104CA, 0x104CB,
     0x104CC, 0x104CD, 0x104CE, 0x104CF, 0x104D0, 0x104D1, 0x104D2, 0x104D3, 0x104D4, 0x104D8,
     0x104FC, 0x10500, 0x10528, 0x10530, 0x10564, 0x1056F, 0x10570, 0x10571, 0x10572, 0x10573,
     0x10574, 0x10575, 0x10576, 0x10577, 0x10578, 0x10579, 0x1057A, 0x1057B, 0x1057C, 0x1057D,
     0x1057E, 0x1057F, 0x10580, 0x10581, 0x10582, 0x10583, 0x10584, 0x10585, 0x10586, 0x10587,
     0x10588, 0x10589, 0x1058A, 0x1058B, 0x1058C, 0x1058D, 0x1058E, 0x1058F, 0x10590, 0x10591,
     0x10592, 0x10593, 0x10594, 0x10595, 0x10596, 0x10597, 0x105A2, 0x105A3, 0x105B2, 0x105B3,
     0x105BA, 0x105BB, 0x105BD, 0x105C0, 0x105F4, 0x10600, 0x10737, 0x10740, 0x10756, 0x10760,
     0x10768, 0x10780, 0x10781, 0x10782, 0x10783, 0x10784, 0x10785, 0x10786, 0x10787, 0x10788,
     0x10789, 0x1078A, 0x1078B, 0x1078C, 0x1078D, 0x1078E, 0x1078F, 0x10790, 0x10791, 0x10792]"

definition uts46_starts_38 :: "nat list" where
  "uts46_starts_38 =
    [0x10793, 0x10794, 0x10795, 0x10796, 0x10797, 0x10798, 0x10799, 0x1079A, 0x1079B, 0x1079C,
     0x1079D, 0x1079E, 0x1079F, 0x107A0, 0x107A1, 0x107A2, 0x107A3, 0x107A4, 0x107A5, 0x107A6,
     0x107A7, 0x107A8, 0x107A9, 0x107AA, 0x107AB, 0x107AC, 0x107AD, 0x107AE, 0x107AF, 0x107B0,
     0x107B1, 0x107B2, 0x107B3, 0x107B4, 0x107B5, 0x107B6, 0x107B7, 0x107B8, 0x107B9, 0x107BA,
     0x107BB, 0x10800, 0x10806, 0x10808, 0x10809, 0x1080A, 0x10836, 0x10837, 0x10839, 0x1083C,
     0x1083D, 0x1083F, 0x10856, 0x10857, 0x1089F, 0x108A7, 0x108B0, 0x108E0, 0x108F3, 0x108F4,
     0x108F6, 0x108FB, 0x1091C, 0x1091F, 0x1093A, 0x1093F, 0x1095A, 0x10980, 0x109B8, 0x109BC,
     0x109D0, 0x109D2, 0x10A04, 0x10A05, 0x10A07, 0x10A0C, 0x10A14, 0x10A15, 0x10A18, 0x10A19,
     0x10A36, 0x10A38, 0x10A3B, 0x10A3F, 0x10A49, 0x10A50, 0x10A59, 0x10A60, 0x10AA0, 0x10AC0,
     0x10AE7, 0x10AEB, 0x10AF7, 0x10B00, 0x10B36, 0x10B39, 0x10B56, 0x10B58, 0x10B73, 0x10B78,
     0x10B92, 0x10B99, 0x10B9D, 0x10BA9, 0x10BB0, 0x10C00, 0x10C49, 0x10C80, 0x10C81, 0x10C82,
     0x10C83, 0x10C84, 0x10C85, 0x10C86, 0x10C87, 0x10C88, 0x10C89, 0x10C8A, 0x10C8B, 0x10C8C,
     0x10C8D, 0x10C8E, 0x10C8F, 0x10C90, 0x10C91, 0x10C92, 0x10C93, 0x10C94, 0x10C95, 0x10C96,
     0x10C97, 0x10C98, 0x10C99, 0x10C9A, 0x10C9B, 0x10C9C, 0x10C9D, 0x10C9E, 0x10C9F, 0x10CA0,
     0x10CA1, 0x10CA2, 0x10CA3, 0x10CA4, 0x10CA5, 0x10CA6, 0x10CA7, 0x10CA8, 0x10CA9, 0x10CAA]"

definition uts46_starts_39 :: "nat list" where
  "uts46_starts_39 =
    [0x10CAB, 0x10CAC, 0x10CAD, 0x10CAE, 0x10CAF, 0x10CB0, 0x10CB1, 0x10CB2, 0x10CB3, 0x10CC0,
     0x10CF3, 0x10CFA, 0x10D28, 0x10D30, 0x10D3A, 0x10D40, 0x10D50, 0x10D51, 0x10D52, 0x10D53,
     0x10D54, 0x10D55, 0x10D56, 0x10D57, 0x10D58, 0x10D59, 0x10D5A, 0x10D5B, 0x10D5C, 0x10D5D,
     0x10D5E, 0x10D5F, 0x10D60, 0x10D61, 0x10D62, 0x10D63, 0x10D64, 0x10D65, 0x10D66, 0x10D69,
     0x10D86, 0x10D8E, 0x10D90, 0x10E60, 0x10E7F, 0x10E80, 0x10EAA, 0x10EAB, 0x10EAE, 0x10EB0,
     0x10EB2, 0x10EC2, 0x10EC8, 0x10ED0, 0x10ED9, 0x10EFA, 0x10F28, 0x10F30, 0x10F5A, 0x10F70,
     0x10F8A, 0x10FB0, 0x10FCC, 0x10FE0, 0x10FF7, 0x11000, 0x1104E, 0x11052, 0x11076, 0x1107F,
     0x110BD, 0x110BE, 0x110C3, 0x110D0, 0x110E9, 0x110F0, 0x110FA, 0x11100, 0x11135, 0x11136,
     0x11148, 0x11150, 0x11177, 0x11180, 0x111E0, 0x111E1, 0x111F5, 0x11200, 0x11212, 0x11213,
     0x11242, 0x11280, 0x11287, 0x11288, 0x11289, 0x1128A, 0x1128E, 0x1128F, 0x1129E, 0x1129F,
     0x112AA, 0x112B0, 0x112EB, 0x112F0, 0x112FA, 0x11300, 0x11304, 0x11305, 0x1130D, 0x1130F,
     0x11311, 0x11313, 0x11329, 0x1132A, 0x11331, 0x11332, 0x11334, 0x11335, 0x1133A, 0x1133B,
     0x11345, 0x11347, 0x11349, 0x1134B, 0x1134E, 0x11350, 0x11351, 0x11357, 0x11358, 0x1135D,
     0x11364, 0x11366, 0x1136D, 0x11370, 0x11375, 0x11380, 0x1138A, 0x1138B, 0x1138C, 0x1138E,
     0x1138F, 0x11390, 0x113B6, 0x113B7, 0x113C1, 0x113C2, 0x113C3, 0x113C5, 0x113C6, 0x113C7]"

definition uts46_starts_40 :: "nat list" where
  "uts46_starts_40 =
    [0x113CB, 0x113CC, 0x113D6, 0x113D7, 0x113D9, 0x113E1, 0x113E3, 0x11400, 0x1145C, 0x1145D,
     0x11462, 0x11480, 0x114C8, 0x114D0, 0x114DA, 0x11580, 0x115B6, 0x115B8, 0x115DE, 0x11600,
     0x11645, 0x11650, 0x1165A, 0x11660, 0x1166D, 0x11680, 0x116BA, 0x116C0, 0x116CA, 0x116D0,
     0x116E4, 0x11700, 0x1171B, 0x1171D, 0x1172C, 0x11730, 0x11747, 0x11800, 0x1183C, 0x118A0,
     0x118A1, 0x118A2, 0x118A3, 0x118A4, 0x118A5, 0x118A6, 0x118A7, 0x118A8, 0x118A9, 0x118AA,
     0x118AB, 0x118AC, 0x118AD, 0x118AE, 0x118AF, 0x118B0, 0x118B1, 0x118B2, 0x118B3, 0x118B4,
     0x118B5, 0x118B6, 0x118B7, 0x118B8, 0x118B9, 0x118BA, 0x118BB, 0x118BC, 0x118BD, 0x118BE,
     0x118BF, 0x118C0, 0x118F3, 0x118FF, 0x11907, 0x11909, 0x1190A, 0x1190C, 0x11914, 0x11915,
     0x11917, 0x11918, 0x11936, 0x11937, 0x11939, 0x1193B, 0x11947, 0x11950, 0x1195A, 0x119A0,
     0x119A8, 0x119AA, 0x119D8, 0x119DA, 0x119E5, 0x11A00, 0x11A48, 0x11A50, 0x11AA3, 0x11AB0,
     0x11AF9, 0x11B00, 0x11B0A, 0x11B60, 0x11B68, 0x11BC0, 0x11BE2, 0x11BF0, 0x11BFA, 0x11C00,
     0x11C09, 0x11C0A, 0x11C37, 0x11C38, 0x11C46, 0x11C50, 0x11C6D, 0x11C70, 0x11C90, 0x11C92,
     0x11CA8, 0x11CA9, 0x11CB7, 0x11D00, 0x11D07, 0x11D08, 0x11D0A, 0x11D0B, 0x11D37, 0x11D3A,
     0x11D3B, 0x11D3C, 0x11D3E, 0x11D3F, 0x11D48, 0x11D50, 0x11D5A, 0x11D60, 0x11D66, 0x11D67,
     0x11D69, 0x11D6A, 0x11D8F, 0x11D90, 0x11D92, 0x11D93, 0x11D99, 0x11DA0, 0x11DAA, 0x11DB0]"

definition uts46_starts_41 :: "nat list" where
  "uts46_starts_41 =
    [0x11DDC, 0x11DE0, 0x11DEA, 0x11EE0, 0x11EF9, 0x11F00, 0x11F11, 0x11F12, 0x11F3B, 0x11F3E,
     0x11F5B, 0x11FB0, 0x11FB1, 0x11FC0, 0x11FF2, 0x11FFF, 0x1239A, 0x12400, 0x1246F, 0x12470,
     0x12475, 0x12480, 0x12544, 0x12F90, 0x12FF3, 0x13000, 0x13430, 0x13440, 0x13456, 0x13460,
     0x143FB, 0x14400, 0x14647, 0x16100, 0x1613A, 0x16800, 0x16A39, 0x16A40, 0x16A5F, 0x16A60,
     0x16A6A, 0x16A6E, 0x16ABF, 0x16AC0, 0x16ACA, 0x16AD0, 0x16AEE, 0x16AF0, 0x16AF6, 0x16B00,
     0x16B46, 0x16B50, 0x16B5A, 0x16B5B, 0x16B62, 0x16B63, 0x16B78, 0x16B7D, 0x16B90, 0x16D40,
     0x16D7A, 0x16E40, 0x16E41, 0x16E42, 0x16E43, 0x16E44, 0x16E45, 0x16E46, 0x16E47, 0x16E48,
     0x16E49, 0x16E4A, 0x16E4B, 0x16E4C, 0x16E4D, 0x16E4E, 0x16E4F, 0x16E50, 0x16E51, 0x16E52,
     0x16E53, 0x16E54, 0x16E55, 0x16E56, 0x16E57, 0x16E58, 0x16E59, 0x16E5A, 0x16E5B, 0x16E5C,
     0x16E5D, 0x16E5E, 0x16E5F, 0x16E60, 0x16E9B, 0x16EA0, 0x16EA1, 0x16EA2, 0x16EA3, 0x16EA4,
     0x16EA5, 0x16EA6, 0x16EA7, 0x16EA8, 0x16EA9, 0x16EAA, 0x16EAB, 0x16EAC, 0x16EAD, 0x16EAE,
     0x16EAF, 0x16EB0, 0x16EB1, 0x16EB2, 0x16EB3, 0x16EB4, 0x16EB5, 0x16EB6, 0x16EB7, 0x16EB8,
     0x16EB9, 0x16EBB, 0x16ED4, 0x16F00, 0x16F4B, 0x16F4F, 0x16F88, 0x16F8F, 0x16FA0, 0x16FE0,
     0x16FE5, 0x16FF0, 0x16FF7, 0x17000, 0x18CD6, 0x18CFF, 0x18D1F, 0x18D80, 0x18DF3, 0x1AFF0,
     0x1AFF4, 0x1AFF5, 0x1AFFC, 0x1AFFD, 0x1AFFF, 0x1B000, 0x1B123, 0x1B132, 0x1B133, 0x1B150]"

definition uts46_starts_42 :: "nat list" where
  "uts46_starts_42 =
    [0x1B153, 0x1B155, 0x1B156, 0x1B164, 0x1B168, 0x1B170, 0x1B2FC, 0x1BC00, 0x1BC6B, 0x1BC70,
     0x1BC7D, 0x1BC80, 0x1BC89, 0x1BC90, 0x1BC9A, 0x1BC9C, 0x1BCA0, 0x1BCA4, 0x1CC00, 0x1CCD6,
     0x1CCD7, 0x1CCD8, 0x1CCD9, 0x1CCDA, 0x1CCDB, 0x1CCDC, 0x1CCDD, 0x1CCDE, 0x1CCDF, 0x1CCE0,
     0x1CCE1, 0x1CCE2, 0x1CCE3, 0x1CCE4, 0x1CCE5, 0x1CCE6, 0x1CCE7, 0x1CCE8, 0x1CCE9, 0x1CCEA,
     0x1CCEB, 0x1CCEC, 0x1CCED, 0x1CCEE, 0x1CCEF, 0x1CCF0, 0x1CCF1, 0x1CCF2, 0x1CCF3, 0x1CCF4,
     0x1CCF5, 0x1CCF6, 0x1CCF7, 0x1CCF8, 0x1CCF9, 0x1CCFA, 0x1CCFD, 0x1CD00, 0x1CEB4, 0x1CEBA,
     0x1CED1, 0x1CEE0, 0x1CEF1, 0x1CF00, 0x1CF2E, 0x1CF30, 0x1CF47, 0x1CF50, 0x1CFC4, 0x1D000,
     0x1D0F6, 0x1D100, 0x1D127, 0x1D129, 0x1D15E, 0x1D15F, 0x1D160, 0x1D161, 0x1D162, 0x1D163,
     0x1D164, 0x1D165, 0x1D173, 0x1D17B, 0x1D1BB, 0x1D1BC, 0x1D1BD, 0x1D1BE, 0x1D1BF, 0x1D1C0,
     0x1D1C1, 0x1D1EB, 0x1D200, 0x1D246, 0x1D2C0, 0x1D2D4, 0x1D2E0, 0x1D2F4, 0x1D300, 0x1D357,
     0x1D360, 0x1D379, 0x1D400, 0x1D401, 0x1D402, 0x1D403, 0x1D404, 0x1D405, 0x1D406, 0x1D407,
     0x1D408, 0x1D409, 0x1D40A, 0x1D40B, 0x1D40C, 0x1D40D, 0x1D40E, 0x1D40F, 0x1D410, 0x1D411,
     0x1D412, 0x1D413, 0x1D414, 0x1D415, 0x1D416, 0x1D417, 0x1D418, 0x1D419, 0x1D41A, 0x1D41B,
     0x1D41C, 0x1D41D, 0x1D41E, 0x1D41F, 0x1D420, 0x1D421, 0x1D422, 0x1D423, 0x1D424, 0x1D425,
     0x1D426, 0x1D427, 0x1D428, 0x1D429, 0x1D42A, 0x1D42B, 0x1D42C, 0x1D42D, 0x1D42E, 0x1D42F]"

definition uts46_starts_43 :: "nat list" where
  "uts46_starts_43 =
    [0x1D430, 0x1D431, 0x1D432, 0x1D433, 0x1D434, 0x1D435, 0x1D436, 0x1D437, 0x1D438, 0x1D439,
     0x1D43A, 0x1D43B, 0x1D43C, 0x1D43D, 0x1D43E, 0x1D43F, 0x1D440, 0x1D441, 0x1D442, 0x1D443,
     0x1D444, 0x1D445, 0x1D446, 0x1D447, 0x1D448, 0x1D449, 0x1D44A, 0x1D44B, 0x1D44C, 0x1D44D,
     0x1D44E, 0x1D44F, 0x1D450, 0x1D451, 0x1D452, 0x1D453, 0x1D454, 0x1D455, 0x1D456, 0x1D457,
     0x1D458, 0x1D459, 0x1D45A, 0x1D45B, 0x1D45C, 0x1D45D, 0x1D45E, 0x1D45F, 0x1D460, 0x1D461,
     0x1D462, 0x1D463, 0x1D464, 0x1D465, 0x1D466, 0x1D467, 0x1D468, 0x1D469, 0x1D46A, 0x1D46B,
     0x1D46C, 0x1D46D, 0x1D46E, 0x1D46F, 0x1D470, 0x1D471, 0x1D472, 0x1D473, 0x1D474, 0x1D475,
     0x1D476, 0x1D477, 0x1D478, 0x1D479, 0x1D47A, 0x1D47B, 0x1D47C, 0x1D47D, 0x1D47E, 0x1D47F,
     0x1D480, 0x1D481, 0x1D482, 0x1D483, 0x1D484, 0x1D485, 0x1D486, 0x1D487, 0x1D488, 0x1D489,
     0x1D48A, 0x1D48B, 0x1D48C, 0x1D48D, 0x1D48E, 0x1D48F, 0x1D490, 0x1D491, 0x1D492, 0x1D493,
     0x1D494, 0x1D495, 0x1D496, 0x1D497, 0x1D498, 0x1D499, 0x1D49A, 0x1D49B, 0x1D49C, 0x1D49D,
     0x1D49E, 0x1D49F, 0x1D4A0, 0x1D4A2, 0x1D4A3, 0x1D4A5, 0x1D4A6, 0x1D4A7, 0x1D4A9, 0x1D4AA,
     0x1D4AB, 0x1D4AC, 0x1D4AD, 0x1D4AE, 0x1D4AF, 0x1D4B0, 0x1D4B1, 0x1D4B2, 0x1D4B3, 0x1D4B4,
     0x1D4B5, 0x1D4B6, 0x1D4B7, 0x1D4B8, 0x1D4B9, 0x1D4BA, 0x1D4BB, 0x1D4BC, 0x1D4BD, 0x1D4BE,
     0x1D4BF, 0x1D4C0, 0x1D4C1, 0x1D4C2, 0x1D4C3, 0x1D4C4, 0x1D4C5, 0x1D4C6, 0x1D4C7, 0x1D4C8]"

definition uts46_starts_44 :: "nat list" where
  "uts46_starts_44 =
    [0x1D4C9, 0x1D4CA, 0x1D4CB, 0x1D4CC, 0x1D4CD, 0x1D4CE, 0x1D4CF, 0x1D4D0, 0x1D4D1, 0x1D4D2,
     0x1D4D3, 0x1D4D4, 0x1D4D5, 0x1D4D6, 0x1D4D7, 0x1D4D8, 0x1D4D9, 0x1D4DA, 0x1D4DB, 0x1D4DC,
     0x1D4DD, 0x1D4DE, 0x1D4DF, 0x1D4E0, 0x1D4E1, 0x1D4E2, 0x1D4E3, 0x1D4E4, 0x1D4E5, 0x1D4E6,
     0x1D4E7, 0x1D4E8, 0x1D4E9, 0x1D4EA, 0x1D4EB, 0x1D4EC, 0x1D4ED, 0x1D4EE, 0x1D4EF, 0x1D4F0,
     0x1D4F1, 0x1D4F2, 0x1D4F3, 0x1D4F4, 0x1D4F5, 0x1D4F6, 0x1D4F7, 0x1D4F8, 0x1D4F9, 0x1D4FA,
     0x1D4FB, 0x1D4FC, 0x1D4FD, 0x1D4FE, 0x1D4FF, 0x1D500, 0x1D501, 0x1D502, 0x1D503, 0x1D504,
     0x1D505, 0x1D506, 0x1D507, 0x1D508, 0x1D509, 0x1D50A, 0x1D50B, 0x1D50D, 0x1D50E, 0x1D50F,
     0x1D510, 0x1D511, 0x1D512, 0x1D513, 0x1D514, 0x1D515, 0x1D516, 0x1D517, 0x1D518, 0x1D519,
     0x1D51A, 0x1D51B, 0x1D51C, 0x1D51D, 0x1D51E, 0x1D51F, 0x1D520, 0x1D521, 0x1D522, 0x1D523,
     0x1D524, 0x1D525, 0x1D526, 0x1D527, 0x1D528, 0x1D529, 0x1D52A, 0x1D52B, 0x1D52C, 0x1D52D,
     0x1D52E, 0x1D52F, 0x1D530, 0x1D531, 0x1D532, 0x1D533, 0x1D534, 0x1D535, 0x1D536, 0x1D537,
     0x1D538, 0x1D539, 0x1D53A, 0x1D53B, 0x1D53C, 0x1D53D, 0x1D53E, 0x1D53F, 0x1D540, 0x1D541,
     0x1D542, 0x1D543, 0x1D544, 0x1D545, 0x1D546, 0x1D547, 0x1D54A, 0x1D54B, 0x1D54C, 0x1D54D,
     0x1D54E, 0x1D54F, 0x1D550, 0x1D551, 0x1D552, 0x1D553, 0x1D554, 0x1D555, 0x1D556, 0x1D557,
     0x1D558, 0x1D559, 0x1D55A, 0x1D55B, 0x1D55C, 0x1D55D, 0x1D55E, 0x1D55F, 0x1D560, 0x1D561]"

definition uts46_starts_45 :: "nat list" where
  "uts46_starts_45 =
    [0x1D562, 0x1D563, 0x1D564, 0x1D565, 0x1D566, 0x1D567, 0x1D568, 0x1D569, 0x1D56A, 0x1D56B,
     0x1D56C, 0x1D56D, 0x1D56E, 0x1D56F, 0x1D570, 0x1D571, 0x1D572, 0x1D573, 0x1D574, 0x1D575,
     0x1D576, 0x1D577, 0x1D578, 0x1D579, 0x1D57A, 0x1D57B, 0x1D57C, 0x1D57D, 0x1D57E, 0x1D57F,
     0x1D580, 0x1D581, 0x1D582, 0x1D583, 0x1D584, 0x1D585, 0x1D586, 0x1D587, 0x1D588, 0x1D589,
     0x1D58A, 0x1D58B, 0x1D58C, 0x1D58D, 0x1D58E, 0x1D58F, 0x1D590, 0x1D591, 0x1D592, 0x1D593,
     0x1D594, 0x1D595, 0x1D596, 0x1D597, 0x1D598, 0x1D599, 0x1D59A, 0x1D59B, 0x1D59C, 0x1D59D,
     0x1D59E, 0x1D59F, 0x1D5A0, 0x1D5A1, 0x1D5A2, 0x1D5A3, 0x1D5A4, 0x1D5A5, 0x1D5A6, 0x1D5A7,
     0x1D5A8, 0x1D5A9, 0x1D5AA, 0x1D5AB, 0x1D5AC, 0x1D5AD, 0x1D5AE, 0x1D5AF, 0x1D5B0, 0x1D5B1,
     0x1D5B2, 0x1D5B3, 0x1D5B4, 0x1D5B5, 0x1D5B6, 0x1D5B7, 0x1D5B8, 0x1D5B9, 0x1D5BA, 0x1D5BB,
     0x1D5BC, 0x1D5BD, 0x1D5BE, 0x1D5BF, 0x1D5C0, 0x1D5C1, 0x1D5C2, 0x1D5C3, 0x1D5C4, 0x1D5C5,
     0x1D5C6, 0x1D5C7, 0x1D5C8, 0x1D5C9, 0x1D5CA, 0x1D5CB, 0x1D5CC, 0x1D5CD, 0x1D5CE, 0x1D5CF,
     0x1D5D0, 0x1D5D1, 0x1D5D2, 0x1D5D3, 0x1D5D4, 0x1D5D5, 0x1D5D6, 0x1D5D7, 0x1D5D8, 0x1D5D9,
     0x1D5DA, 0x1D5DB, 0x1D5DC, 0x1D5DD, 0x1D5DE, 0x1D5DF, 0x1D5E0, 0x1D5E1, 0x1D5E2, 0x1D5E3,
     0x1D5E4, 0x1D5E5, 0x1D5E6, 0x1D5E7, 0x1D5E8, 0x1D5E9, 0x1D5EA, 0x1D5EB, 0x1D5EC, 0x1D5ED,
     0x1D5EE, 0x1D5EF, 0x1D5F0, 0x1D5F1, 0x1D5F2, 0x1D5F3, 0x1D5F4, 0x1D5F5, 0x1D5F6, 0x1D5F7]"

definition uts46_starts_46 :: "nat list" where
  "uts46_starts_46 =
    [0x1D5F8, 0x1D5F9, 0x1D5FA, 0x1D5FB, 0x1D5FC, 0x1D5FD, 0x1D5FE, 0x1D5FF, 0x1D600, 0x1D601,
     0x1D602, 0x1D603, 0x1D604, 0x1D605, 0x1D606, 0x1D607, 0x1D608, 0x1D609, 0x1D60A, 0x1D60B,
     0x1D60C, 0x1D60D, 0x1D60E, 0x1D60F, 0x1D610, 0x1D611, 0x1D612, 0x1D613, 0x1D614, 0x1D615,
     0x1D616, 0x1D617, 0x1D618, 0x1D619, 0x1D61A, 0x1D61B, 0x1D61C, 0x1D61D, 0x1D61E, 0x1D61F,
     0x1D620, 0x1D621, 0x1D622, 0x1D623, 0x1D624, 0x1D625, 0x1D626, 0x1D627, 0x1D628, 0x1D629,
     0x1D62A, 0x1D62B, 0x1D62C, 0x1D62D, 0x1D62E, 0x1D62F, 0x1D630, 0x1D631, 0x1D632, 0x1D633,
     0x1D634, 0x1D635, 0x1D636, 0x1D637, 0x1D638, 0x1D639, 0x1D63A, 0x1D63B, 0x1D63C, 0x1D63D,
     0x1D63E, 0x1D63F, 0x1D640, 0x1D641, 0x1D642, 0x1D643, 0x1D644, 0x1D645, 0x1D646, 0x1D647,
     0x1D648, 0x1D649, 0x1D64A, 0x1D64B, 0x1D64C, 0x1D64D, 0x1D64E, 0x1D64F, 0x1D650, 0x1D651,
     0x1D652, 0x1D653, 0x1D654, 0x1D655, 0x1D656, 0x1D657, 0x1D658, 0x1D659, 0x1D65A, 0x1D65B,
     0x1D65C, 0x1D65D, 0x1D65E, 0x1D65F, 0x1D660, 0x1D661, 0x1D662, 0x1D663, 0x1D664, 0x1D665,
     0x1D666, 0x1D667, 0x1D668, 0x1D669, 0x1D66A, 0x1D66B, 0x1D66C, 0x1D66D, 0x1D66E, 0x1D66F,
     0x1D670, 0x1D671, 0x1D672, 0x1D673, 0x1D674, 0x1D675, 0x1D676, 0x1D677, 0x1D678, 0x1D679,
     0x1D67A, 0x1D67B, 0x1D67C, 0x1D67D, 0x1D67E, 0x1D67F, 0x1D680, 0x1D681, 0x1D682, 0x1D683,
     0x1D684, 0x1D685, 0x1D686, 0x1D687, 0x1D688, 0x1D689, 0x1D68A, 0x1D68B, 0x1D68C, 0x1D68D]"

definition uts46_starts_47 :: "nat list" where
  "uts46_starts_47 =
    [0x1D68E, 0x1D68F, 0x1D690, 0x1D691, 0x1D692, 0x1D693, 0x1D694, 0x1D695, 0x1D696, 0x1D697,
     0x1D698, 0x1D699, 0x1D69A, 0x1D69B, 0x1D69C, 0x1D69D, 0x1D69E, 0x1D69F, 0x1D6A0, 0x1D6A1,
     0x1D6A2, 0x1D6A3, 0x1D6A4, 0x1D6A5, 0x1D6A6, 0x1D6A8, 0x1D6A9, 0x1D6AA, 0x1D6AB, 0x1D6AC,
     0x1D6AD, 0x1D6AE, 0x1D6AF, 0x1D6B0, 0x1D6B1, 0x1D6B2, 0x1D6B3, 0x1D6B4, 0x1D6B5, 0x1D6B6,
     0x1D6B7, 0x1D6B8, 0x1D6B9, 0x1D6BA, 0x1D6BB, 0x1D6BC, 0x1D6BD, 0x1D6BE, 0x1D6BF, 0x1D6C0,
     0x1D6C1, 0x1D6C2, 0x1D6C3, 0x1D6C4, 0x1D6C5, 0x1D6C6, 0x1D6C7, 0x1D6C8, 0x1D6C9, 0x1D6CA,
     0x1D6CB, 0x1D6CC, 0x1D6CD, 0x1D6CE, 0x1D6CF, 0x1D6D0, 0x1D6D1, 0x1D6D2, 0x1D6D3, 0x1D6D5,
     0x1D6D6, 0x1D6D7, 0x1D6D8, 0x1D6D9, 0x1D6DA, 0x1D6DB, 0x1D6DC, 0x1D6DD, 0x1D6DE, 0x1D6DF,
     0x1D6E0, 0x1D6E1, 0x1D6E2, 0x1D6E3, 0x1D6E4, 0x1D6E5, 0x1D6E6, 0x1D6E7, 0x1D6E8, 0x1D6E9,
     0x1D6EA, 0x1D6EB, 0x1D6EC, 0x1D6ED, 0x1D6EE, 0x1D6EF, 0x1D6F0, 0x1D6F1, 0x1D6F2, 0x1D6F3,
     0x1D6F4, 0x1D6F5, 0x1D6F6, 0x1D6F7, 0x1D6F8, 0x1D6F9, 0x1D6FA, 0x1D6FB, 0x1D6FC, 0x1D6FD,
     0x1D6FE, 0x1D6FF, 0x1D700, 0x1D701, 0x1D702, 0x1D703, 0x1D704, 0x1D705, 0x1D706, 0x1D707,
     0x1D708, 0x1D709, 0x1D70A, 0x1D70B, 0x1D70C, 0x1D70D, 0x1D70F, 0x1D710, 0x1D711, 0x1D712,
     0x1D713, 0x1D714, 0x1D715, 0x1D716, 0x1D717, 0x1D718, 0x1D719, 0x1D71A, 0x1D71B, 0x1D71C,
     0x1D71D, 0x1D71E, 0x1D71F, 0x1D720, 0x1D721, 0x1D722, 0x1D723, 0x1D724, 0x1D725, 0x1D726]"

definition uts46_starts_48 :: "nat list" where
  "uts46_starts_48 =
    [0x1D727, 0x1D728, 0x1D729, 0x1D72A, 0x1D72B, 0x1D72C, 0x1D72D, 0x1D72E, 0x1D72F, 0x1D730,
     0x1D731, 0x1D732, 0x1D733, 0x1D734, 0x1D735, 0x1D736, 0x1D737, 0x1D738, 0x1D739, 0x1D73A,
     0x1D73B, 0x1D73C, 0x1D73D, 0x1D73E, 0x1D73F, 0x1D740, 0x1D741, 0x1D742, 0x1D743, 0x1D744,
     0x1D745, 0x1D746, 0x1D747, 0x1D749, 0x1D74A, 0x1D74B, 0x1D74C, 0x1D74D, 0x1D74E, 0x1D74F,
     0x1D750, 0x1D751, 0x1D752, 0x1D753, 0x1D754, 0x1D755, 0x1D756, 0x1D757, 0x1D758, 0x1D759,
     0x1D75A, 0x1D75B, 0x1D75C, 0x1D75D, 0x1D75E, 0x1D75F, 0x1D760, 0x1D761, 0x1D762, 0x1D763,
     0x1D764, 0x1D765, 0x1D766, 0x1D767, 0x1D768, 0x1D769, 0x1D76A, 0x1D76B, 0x1D76C, 0x1D76D,
     0x1D76E, 0x1D76F, 0x1D770, 0x1D771, 0x1D772, 0x1D773, 0x1D774, 0x1D775, 0x1D776, 0x1D777,
     0x1D778, 0x1D779, 0x1D77A, 0x1D77B, 0x1D77C, 0x1D77D, 0x1D77E, 0x1D77F, 0x1D780, 0x1D781,
     0x1D783, 0x1D784, 0x1D785, 0x1D786, 0x1D787, 0x1D788, 0x1D789, 0x1D78A, 0x1D78B, 0x1D78C,
     0x1D78D, 0x1D78E, 0x1D78F, 0x1D790, 0x1D791, 0x1D792, 0x1D793, 0x1D794, 0x1D795, 0x1D796,
     0x1D797, 0x1D798, 0x1D799, 0x1D79A, 0x1D79B, 0x1D79C, 0x1D79D, 0x1D79E, 0x1D79F, 0x1D7A0,
     0x1D7A1, 0x1D7A2, 0x1D7A3, 0x1D7A4, 0x1D7A5, 0x1D7A6, 0x1D7A7, 0x1D7A8, 0x1D7A9, 0x1D7AA,
     0x1D7AB, 0x1D7AC, 0x1D7AD, 0x1D7AE, 0x1D7AF, 0x1D7B0, 0x1D7B1, 0x1D7B2, 0x1D7B3, 0x1D7B4,
     0x1D7B5, 0x1D7B6, 0x1D7B7, 0x1D7B8, 0x1D7B9, 0x1D7BA, 0x1D7BB, 0x1D7BD, 0x1D7BE, 0x1D7BF]"

definition uts46_starts_49 :: "nat list" where
  "uts46_starts_49 =
    [0x1D7C0, 0x1D7C1, 0x1D7C2, 0x1D7C3, 0x1D7C4, 0x1D7C5, 0x1D7C6, 0x1D7C7, 0x1D7C8, 0x1D7C9,
     0x1D7CA, 0x1D7CC, 0x1D7CE, 0x1D7CF, 0x1D7D0, 0x1D7D1, 0x1D7D2, 0x1D7D3, 0x1D7D4, 0x1D7D5,
     0x1D7D6, 0x1D7D7, 0x1D7D8, 0x1D7D9, 0x1D7DA, 0x1D7DB, 0x1D7DC, 0x1D7DD, 0x1D7DE, 0x1D7DF,
     0x1D7E0, 0x1D7E1, 0x1D7E2, 0x1D7E3, 0x1D7E4, 0x1D7E5, 0x1D7E6, 0x1D7E7, 0x1D7E8, 0x1D7E9,
     0x1D7EA, 0x1D7EB, 0x1D7EC, 0x1D7ED, 0x1D7EE, 0x1D7EF, 0x1D7F0, 0x1D7F1, 0x1D7F2, 0x1D7F3,
     0x1D7F4, 0x1D7F5, 0x1D7F6, 0x1D7F7, 0x1D7F8, 0x1D7F9, 0x1D7FA, 0x1D7FB, 0x1D7FC, 0x1D7FD,
     0x1D7FE, 0x1D7FF, 0x1D800, 0x1DA8C, 0x1DA9B, 0x1DAA0, 0x1DAA1, 0x1DAB0, 0x1DF00, 0x1DF1F,
     0x1DF25, 0x1DF2B, 0x1E000, 0x1E007, 0x1E008, 0x1E019, 0x1E01B, 0x1E022, 0x1E023, 0x1E025,
     0x1E026, 0x1E02B, 0x1E030, 0x1E031, 0x1E032, 0x1E033, 0x1E034, 0x1E035, 0x1E036, 0x1E037,
     0x1E038, 0x1E039, 0x1E03A, 0x1E03B, 0x1E03C, 0x1E03D, 0x1E03E, 0x1E03F, 0x1E040, 0x1E041,
     0x1E042, 0x1E043, 0x1E044, 0x1E045, 0x1E046, 0x1E047, 0x1E048, 0x1E049, 0x1E04A, 0x1E04B,
     0x1E04C, 0x1E04D, 0x1E04E, 0x1E04F, 0x1E050, 0x1E051, 0x1E052, 0x1E053, 0x1E054, 0x1E055,
     0x1E056, 0x1E057, 0x1E058, 0x1E059, 0x1E05A, 0x1E05B, 0x1E05C, 0x1E05D, 0x1E05E, 0x1E05F,
     0x1E060, 0x1E061, 0x1E062, 0x1E063, 0x1E064, 0x1E065, 0x1E066, 0x1E067, 0x1E068, 0x1E069,
     0x1E06A, 0x1E06B, 0x1E06C, 0x1E06D, 0x1E06E, 0x1E08F, 0x1E090, 0x1E100, 0x1E12D, 0x1E130]"

definition uts46_starts_50 :: "nat list" where
  "uts46_starts_50 =
    [0x1E13E, 0x1E140, 0x1E14A, 0x1E14E, 0x1E150, 0x1E290, 0x1E2AF, 0x1E2C0, 0x1E2FA, 0x1E2FF,
     0x1E300, 0x1E4D0, 0x1E4FA, 0x1E5D0, 0x1E5FB, 0x1E5FF, 0x1E600, 0x1E6C0, 0x1E6DF, 0x1E6E0,
     0x1E6F6, 0x1E6FE, 0x1E700, 0x1E7E0, 0x1E7E7, 0x1E7E8, 0x1E7EC, 0x1E7ED, 0x1E7EF, 0x1E7F0,
     0x1E7FF, 0x1E800, 0x1E8C5, 0x1E8C7, 0x1E8D7, 0x1E900, 0x1E901, 0x1E902, 0x1E903, 0x1E904,
     0x1E905, 0x1E906, 0x1E907, 0x1E908, 0x1E909, 0x1E90A, 0x1E90B, 0x1E90C, 0x1E90D, 0x1E90E,
     0x1E90F, 0x1E910, 0x1E911, 0x1E912, 0x1E913, 0x1E914, 0x1E915, 0x1E916, 0x1E917, 0x1E918,
     0x1E919, 0x1E91A, 0x1E91B, 0x1E91C, 0x1E91D, 0x1E91E, 0x1E91F, 0x1E920, 0x1E921, 0x1E922,
     0x1E94C, 0x1E950, 0x1E95A, 0x1E95E, 0x1E960, 0x1EC71, 0x1ECB5, 0x1ED01, 0x1ED3E, 0x1EE00,
     0x1EE01, 0x1EE02, 0x1EE03, 0x1EE04, 0x1EE05, 0x1EE06, 0x1EE07, 0x1EE08, 0x1EE09, 0x1EE0A,
     0x1EE0B, 0x1EE0C, 0x1EE0D, 0x1EE0E, 0x1EE0F, 0x1EE10, 0x1EE11, 0x1EE12, 0x1EE13, 0x1EE14,
     0x1EE15, 0x1EE16, 0x1EE17, 0x1EE18, 0x1EE19, 0x1EE1A, 0x1EE1B, 0x1EE1C, 0x1EE1D, 0x1EE1E,
     0x1EE1F, 0x1EE20, 0x1EE21, 0x1EE22, 0x1EE23, 0x1EE24, 0x1EE25, 0x1EE27, 0x1EE28, 0x1EE29,
     0x1EE2A, 0x1EE2B, 0x1EE2C, 0x1EE2D, 0x1EE2E, 0x1EE2F, 0x1EE30, 0x1EE31, 0x1EE32, 0x1EE33,
     0x1EE34, 0x1EE35, 0x1EE36, 0x1EE37, 0x1EE38, 0x1EE39, 0x1EE3A, 0x1EE3B, 0x1EE3C, 0x1EE42,
     0x1EE43, 0x1EE47, 0x1EE48, 0x1EE49, 0x1EE4A, 0x1EE4B, 0x1EE4C, 0x1EE4D, 0x1EE4E, 0x1EE4F]"

definition uts46_starts_51 :: "nat list" where
  "uts46_starts_51 =
    [0x1EE50, 0x1EE51, 0x1EE52, 0x1EE53, 0x1EE54, 0x1EE55, 0x1EE57, 0x1EE58, 0x1EE59, 0x1EE5A,
     0x1EE5B, 0x1EE5C, 0x1EE5D, 0x1EE5E, 0x1EE5F, 0x1EE60, 0x1EE61, 0x1EE62, 0x1EE63, 0x1EE64,
     0x1EE65, 0x1EE67, 0x1EE68, 0x1EE69, 0x1EE6A, 0x1EE6B, 0x1EE6C, 0x1EE6D, 0x1EE6E, 0x1EE6F,
     0x1EE70, 0x1EE71, 0x1EE72, 0x1EE73, 0x1EE74, 0x1EE75, 0x1EE76, 0x1EE77, 0x1EE78, 0x1EE79,
     0x1EE7A, 0x1EE7B, 0x1EE7C, 0x1EE7D, 0x1EE7E, 0x1EE7F, 0x1EE80, 0x1EE81, 0x1EE82, 0x1EE83,
     0x1EE84, 0x1EE85, 0x1EE86, 0x1EE87, 0x1EE88, 0x1EE89, 0x1EE8A, 0x1EE8B, 0x1EE8C, 0x1EE8D,
     0x1EE8E, 0x1EE8F, 0x1EE90, 0x1EE91, 0x1EE92, 0x1EE93, 0x1EE94, 0x1EE95, 0x1EE96, 0x1EE97,
     0x1EE98, 0x1EE99, 0x1EE9A, 0x1EE9B, 0x1EE9C, 0x1EEA1, 0x1EEA2, 0x1EEA3, 0x1EEA4, 0x1EEA5,
     0x1EEA6, 0x1EEA7, 0x1EEA8, 0x1EEA9, 0x1EEAA, 0x1EEAB, 0x1EEAC, 0x1EEAD, 0x1EEAE, 0x1EEAF,
     0x1EEB0, 0x1EEB1, 0x1EEB2, 0x1EEB3, 0x1EEB4, 0x1EEB5, 0x1EEB6, 0x1EEB7, 0x1EEB8, 0x1EEB9,
     0x1EEBA, 0x1EEBB, 0x1EEBC, 0x1EEF0, 0x1EEF2, 0x1F000, 0x1F02C, 0x1F030, 0x1F094, 0x1F0A0,
     0x1F0AF, 0x1F0B1, 0x1F0C0, 0x1F0C1, 0x1F0D0, 0x1F0D1, 0x1F0F6, 0x1F101, 0x1F102, 0x1F103,
     0x1F104, 0x1F105, 0x1F106, 0x1F107, 0x1F108, 0x1F109, 0x1F10A, 0x1F10B, 0x1F110, 0x1F111,
     0x1F112, 0x1F113, 0x1F114, 0x1F115, 0x1F116, 0x1F117, 0x1F118, 0x1F119, 0x1F11A, 0x1F11B,
     0x1F11C, 0x1F11D, 0x1F11E, 0x1F11F, 0x1F120, 0x1F121, 0x1F122, 0x1F123, 0x1F124, 0x1F125]"

definition uts46_starts_52 :: "nat list" where
  "uts46_starts_52 =
    [0x1F126, 0x1F127, 0x1F128, 0x1F129, 0x1F12A, 0x1F12B, 0x1F12C, 0x1F12D, 0x1F12E, 0x1F12F,
     0x1F130, 0x1F131, 0x1F132, 0x1F133, 0x1F134, 0x1F135, 0x1F136, 0x1F137, 0x1F138, 0x1F139,
     0x1F13A, 0x1F13B, 0x1F13C, 0x1F13D, 0x1F13E, 0x1F13F, 0x1F140, 0x1F141, 0x1F142, 0x1F143,
     0x1F144, 0x1F145, 0x1F146, 0x1F147, 0x1F148, 0x1F149, 0x1F14A, 0x1F14B, 0x1F14C, 0x1F14D,
     0x1F14E, 0x1F14F, 0x1F150, 0x1F16A, 0x1F16B, 0x1F16C, 0x1F16D, 0x1F190, 0x1F191, 0x1F1AE,
     0x1F1E6, 0x1F200, 0x1F201, 0x1F202, 0x1F203, 0x1F210, 0x1F211, 0x1F212, 0x1F213, 0x1F214,
     0x1F215, 0x1F216, 0x1F217, 0x1F218, 0x1F219, 0x1F21A, 0x1F21B, 0x1F21C, 0x1F21D, 0x1F21E,
     0x1F21F, 0x1F220, 0x1F221, 0x1F222, 0x1F223, 0x1F224, 0x1F225, 0x1F226, 0x1F227, 0x1F228,
     0x1F229, 0x1F22A, 0x1F22B, 0x1F22C, 0x1F22D, 0x1F22E, 0x1F22F, 0x1F230, 0x1F231, 0x1F232,
     0x1F233, 0x1F234, 0x1F235, 0x1F236, 0x1F237, 0x1F238, 0x1F239, 0x1F23A, 0x1F23B, 0x1F23C,
     0x1F240, 0x1F241, 0x1F242, 0x1F243, 0x1F244, 0x1F245, 0x1F246, 0x1F247, 0x1F248, 0x1F249,
     0x1F250, 0x1F251, 0x1F252, 0x1F260, 0x1F266, 0x1F300, 0x1F6D9, 0x1F6DC, 0x1F6ED, 0x1F6F0,
     0x1F6FD, 0x1F700, 0x1F7DA, 0x1F7E0, 0x1F7EC, 0x1F7F0, 0x1F7F1, 0x1F800, 0x1F80C, 0x1F810,
     0x1F848, 0x1F850, 0x1F85A, 0x1F860, 0x1F888, 0x1F890, 0x1F8AE, 0x1F8B0, 0x1F8BC, 0x1F8C0,
     0x1F8C2, 0x1F8D0, 0x1F8D9, 0x1F900, 0x1FA58, 0x1FA60, 0x1FA6E, 0x1FA70, 0x1FA7D, 0x1FA80]"

definition uts46_starts_53 :: "nat list" where
  "uts46_starts_53 =
    [0x1FA8B, 0x1FA8E, 0x1FAC7, 0x1FAC8, 0x1FAC9, 0x1FACD, 0x1FADD, 0x1FADF, 0x1FAEB, 0x1FAEF,
     0x1FAF9, 0x1FB00, 0x1FB93, 0x1FB94, 0x1FBF0, 0x1FBF1, 0x1FBF2, 0x1FBF3, 0x1FBF4, 0x1FBF5,
     0x1FBF6, 0x1FBF7, 0x1FBF8, 0x1FBF9, 0x1FBFA, 0x1FBFB, 0x20000, 0x2A6E0, 0x2A700, 0x2B81E,
     0x2B820, 0x2CEAE, 0x2CEB0, 0x2EBE1, 0x2EBF0, 0x2EE5E, 0x2F800, 0x2F801, 0x2F802, 0x2F803,
     0x2F804, 0x2F805, 0x2F806, 0x2F807, 0x2F808, 0x2F809, 0x2F80A, 0x2F80B, 0x2F80C, 0x2F80D,
     0x2F80E, 0x2F80F, 0x2F810, 0x2F811, 0x2F812, 0x2F813, 0x2F814, 0x2F815, 0x2F816, 0x2F817,
     0x2F818, 0x2F819, 0x2F81A, 0x2F81B, 0x2F81C, 0x2F81D, 0x2F81E, 0x2F81F, 0x2F820, 0x2F821,
     0x2F822, 0x2F823, 0x2F824, 0x2F825, 0x2F826, 0x2F827, 0x2F828, 0x2F829, 0x2F82A, 0x2F82B,
     0x2F82C, 0x2F82D, 0x2F82E, 0x2F82F, 0x2F830, 0x2F831, 0x2F834, 0x2F835, 0x2F836, 0x2F837,
     0x2F838, 0x2F839, 0x2F83A, 0x2F83B, 0x2F83C, 0x2F83D, 0x2F83E, 0x2F83F, 0x2F840, 0x2F841,
     0x2F842, 0x2F843, 0x2F844, 0x2F845, 0x2F847, 0x2F848, 0x2F849, 0x2F84A, 0x2F84B, 0x2F84C,
     0x2F84D, 0x2F84E, 0x2F84F, 0x2F850, 0x2F851, 0x2F852, 0x2F853, 0x2F854, 0x2F855, 0x2F856,
     0x2F857, 0x2F858, 0x2F859, 0x2F85A, 0x2F85B, 0x2F85C, 0x2F85D, 0x2F85E, 0x2F85F, 0x2F860,
     0x2F861, 0x2F862, 0x2F863, 0x2F864, 0x2F865, 0x2F866, 0x2F867, 0x2F868, 0x2F869, 0x2F86A,
     0x2F86C, 0x2F86D, 0x2F86E, 0x2F86F, 0x2F870, 0x2F871, 0x2F872, 0x2F873, 0x2F874, 0x2F875]"

definition uts46_starts_54 :: "nat list" where
  "uts46_starts_54 =
    [0x2F876, 0x2F877, 0x2F878, 0x2F879, 0x2F87A, 0x2F87B, 0x2F87C, 0x2F87D, 0x2F87E, 0x2F87F,
     0x2F880, 0x2F881, 0x2F882, 0x2F883, 0x2F884, 0x2F885, 0x2F886, 0x2F887, 0x2F888, 0x2F889,
     0x2F88A, 0x2F88B, 0x2F88C, 0x2F88D, 0x2F88E, 0x2F88F, 0x2F890, 0x2F891, 0x2F893, 0x2F894,
     0x2F896, 0x2F897, 0x2F898, 0x2F899, 0x2F89A, 0x2F89B, 0x2F89C, 0x2F89D, 0x2F89E, 0x2F89F,
     0x2F8A0, 0x2F8A1, 0x2F8A2, 0x2F8A3, 0x2F8A4, 0x2F8A5, 0x2F8A6, 0x2F8A7, 0x2F8A8, 0x2F8A9,
     0x2F8AA, 0x2F8AB, 0x2F8AC, 0x2F8AD, 0x2F8AE, 0x2F8AF, 0x2F8B0, 0x2F8B1, 0x2F8B2, 0x2F8B3,
     0x2F8B4, 0x2F8B5, 0x2F8B6, 0x2F8B7, 0x2F8B8, 0x2F8B9, 0x2F8BA, 0x2F8BB, 0x2F8BC, 0x2F8BD,
     0x2F8BE, 0x2F8BF, 0x2F8C0, 0x2F8C1, 0x2F8C2, 0x2F8C3, 0x2F8C4, 0x2F8C5, 0x2F8C6, 0x2F8C7,
     0x2F8C8, 0x2F8C9, 0x2F8CA, 0x2F8CB, 0x2F8CC, 0x2F8CD, 0x2F8CE, 0x2F8CF, 0x2F8D0, 0x2F8D1,
     0x2F8D2, 0x2F8D3, 0x2F8D4, 0x2F8D5, 0x2F8D6, 0x2F8D7, 0x2F8D8, 0x2F8D9, 0x2F8DA, 0x2F8DB,
     0x2F8DC, 0x2F8DD, 0x2F8DE, 0x2F8DF, 0x2F8E0, 0x2F8E1, 0x2F8E2, 0x2F8E3, 0x2F8E4, 0x2F8E5,
     0x2F8E6, 0x2F8E7, 0x2F8E8, 0x2F8E9, 0x2F8EA, 0x2F8EB, 0x2F8EC, 0x2F8ED, 0x2F8EE, 0x2F8EF,
     0x2F8F0, 0x2F8F1, 0x2F8F2, 0x2F8F3, 0x2F8F4, 0x2F8F5, 0x2F8F6, 0x2F8F7, 0x2F8F8, 0x2F8F9,
     0x2F8FA, 0x2F8FB, 0x2F8FC, 0x2F8FD, 0x2F8FE, 0x2F8FF, 0x2F900, 0x2F901, 0x2F902, 0x2F903,
     0x2F904, 0x2F905, 0x2F906, 0x2F907, 0x2F908, 0x2F909, 0x2F90A, 0x2F90B, 0x2F90C, 0x2F90D]"

definition uts46_starts_55 :: "nat list" where
  "uts46_starts_55 =
    [0x2F90E, 0x2F90F, 0x2F910, 0x2F911, 0x2F912, 0x2F913, 0x2F914, 0x2F915, 0x2F916, 0x2F917,
     0x2F918, 0x2F919, 0x2F91A, 0x2F91B, 0x2F91C, 0x2F91D, 0x2F91E, 0x2F91F, 0x2F920, 0x2F921,
     0x2F922, 0x2F923, 0x2F924, 0x2F925, 0x2F926, 0x2F927, 0x2F928, 0x2F929, 0x2F92A, 0x2F92B,
     0x2F92C, 0x2F92E, 0x2F92F, 0x2F930, 0x2F931, 0x2F932, 0x2F933, 0x2F934, 0x2F935, 0x2F936,
     0x2F937, 0x2F938, 0x2F939, 0x2F93A, 0x2F93B, 0x2F93C, 0x2F93D, 0x2F93E, 0x2F93F, 0x2F940,
     0x2F941, 0x2F942, 0x2F943, 0x2F944, 0x2F945, 0x2F946, 0x2F948, 0x2F949, 0x2F94A, 0x2F94B,
     0x2F94C, 0x2F94D, 0x2F94E, 0x2F94F, 0x2F950, 0x2F951, 0x2F952, 0x2F953, 0x2F954, 0x2F955,
     0x2F956, 0x2F957, 0x2F958, 0x2F959, 0x2F95A, 0x2F95B, 0x2F95C, 0x2F95D, 0x2F95F, 0x2F960,
     0x2F961, 0x2F962, 0x2F963, 0x2F964, 0x2F965, 0x2F966, 0x2F967, 0x2F968, 0x2F969, 0x2F96A,
     0x2F96B, 0x2F96C, 0x2F96D, 0x2F96E, 0x2F96F, 0x2F970, 0x2F971, 0x2F972, 0x2F973, 0x2F974,
     0x2F975, 0x2F976, 0x2F977, 0x2F978, 0x2F979, 0x2F97A, 0x2F97B, 0x2F97C, 0x2F97D, 0x2F97E,
     0x2F97F, 0x2F980, 0x2F981, 0x2F982, 0x2F983, 0x2F984, 0x2F985, 0x2F986, 0x2F987, 0x2F988,
     0x2F989, 0x2F98A, 0x2F98B, 0x2F98C, 0x2F98D, 0x2F98E, 0x2F98F, 0x2F990, 0x2F991, 0x2F992,
     0x2F993, 0x2F994, 0x2F995, 0x2F996, 0x2F997, 0x2F998, 0x2F999, 0x2F99A, 0x2F99B, 0x2F99C,
     0x2F99D, 0x2F99E, 0x2F99F, 0x2F9A0, 0x2F9A1, 0x2F9A2, 0x2F9A3, 0x2F9A4, 0x2F9A5, 0x2F9A6]"

definition uts46_starts_56 :: "nat list" where
  "uts46_starts_56 =
    [0x2F9A7, 0x2F9A8, 0x2F9A9, 0x2F9AA, 0x2F9AB, 0x2F9AC, 0x2F9AD, 0x2F9AE, 0x2F9AF, 0x2F9B0,
     0x2F9B1, 0x2F9B2, 0x2F9B3, 0x2F9B4, 0x2F9B5, 0x2F9B6, 0x2F9B7, 0x2F9B8, 0x2F9B9, 0x2F9BA,
     0x2F9BB, 0x2F9BC, 0x2F9BD, 0x2F9BE, 0x2F9BF, 0x2F9C0, 0x2F9C1, 0x2F9C2, 0x2F9C3, 0x2F9C4,
     0x2F9C5, 0x2F9C6, 0x2F9C7, 0x2F9C8, 0x2F9C9, 0x2F9CA, 0x2F9CB, 0x2F9CC, 0x2F9CD, 0x2F9CE,
     0x2F9CF, 0x2F9D0, 0x2F9D1, 0x2F9D2, 0x2F9D3, 0x2F9D4, 0x2F9D5, 0x2F9D6, 0x2F9D7, 0x2F9D8,
     0x2F9D9, 0x2F9DA, 0x2F9DB, 0x2F9DC, 0x2F9DD, 0x2F9DE, 0x2F9DF, 0x2F9E0, 0x2F9E1, 0x2F9E2,
     0x2F9E3, 0x2F9E4, 0x2F9E5, 0x2F9E6, 0x2F9E7, 0x2F9E8, 0x2F9E9, 0x2F9EA, 0x2F9EB, 0x2F9EC,
     0x2F9ED, 0x2F9EE, 0x2F9EF, 0x2F9F0, 0x2F9F1, 0x2F9F2, 0x2F9F3, 0x2F9F4, 0x2F9F5, 0x2F9F6,
     0x2F9F7, 0x2F9F8, 0x2F9F9, 0x2F9FA, 0x2F9FB, 0x2F9FC, 0x2F9FD, 0x2F9FE, 0x2FA00, 0x2FA01,
     0x2FA02, 0x2FA03, 0x2FA04, 0x2FA05, 0x2FA06, 0x2FA07, 0x2FA08, 0x2FA09, 0x2FA0A, 0x2FA0B,
     0x2FA0C, 0x2FA0D, 0x2FA0E, 0x2FA0F, 0x2FA10, 0x2FA11, 0x2FA12, 0x2FA13, 0x2FA14, 0x2FA15,
     0x2FA16, 0x2FA17, 0x2FA18, 0x2FA19, 0x2FA1A, 0x2FA1B, 0x2FA1C, 0x2FA1D, 0x2FA1E, 0x30000,
     0x3134B, 0x31350, 0x3347A, 0xE0100, 0xE01F0]"

definition uts46_starts :: "nat list" where
  "uts46_starts = concat
    [uts46_starts_1, uts46_starts_2, uts46_starts_3, uts46_starts_4, uts46_starts_5,
     uts46_starts_6, uts46_starts_7, uts46_starts_8, uts46_starts_9, uts46_starts_10,
     uts46_starts_11, uts46_starts_12, uts46_starts_13, uts46_starts_14, uts46_starts_15,
     uts46_starts_16, uts46_starts_17, uts46_starts_18, uts46_starts_19, uts46_starts_20,
     uts46_starts_21, uts46_starts_22, uts46_starts_23, uts46_starts_24, uts46_starts_25,
     uts46_starts_26, uts46_starts_27, uts46_starts_28, uts46_starts_29, uts46_starts_30,
     uts46_starts_31, uts46_starts_32, uts46_starts_33, uts46_starts_34, uts46_starts_35,
     uts46_starts_36, uts46_starts_37, uts46_starts_38, uts46_starts_39, uts46_starts_40,
     uts46_starts_41, uts46_starts_42, uts46_starts_43, uts46_starts_44, uts46_starts_45,
     uts46_starts_46, uts46_starts_47, uts46_starts_48, uts46_starts_49, uts46_starts_50,
     uts46_starts_51, uts46_starts_52, uts46_starts_53, uts46_starts_54, uts46_starts_55,
     uts46_starts_56]"

section \<open>The table is strictly increasing\<close>

text \<open>\<open>ascends p xs q\<close>: the entries increase strictly from above \<open>p\<close> to \<open>q\<close>, the last one.\<close>

inductive ascends :: "nat \<Rightarrow> nat list \<Rightarrow> nat \<Rightarrow> bool" where
  ascends_Nil: "ascends p [] p"
| ascends_Cons: "p < x \<Longrightarrow> ascends x xs q \<Longrightarrow> ascends p (x # xs) q"

lemma ascends_append: "ascends p xs q \<Longrightarrow> ascends q ys r \<Longrightarrow> ascends p (xs @ ys) r"
  by (induction rule: ascends.induct) (auto intro: ascends_Cons)

lemma ascends_sorted: "ascends p xs q \<Longrightarrow> sorted_wrt (<) xs \<and> (\<forall>x \<in> set xs. p < x) \<and> p \<le> q"
  by (induction rule: ascends.induct) fastforce+

lemma uts46_starts_1_ascends: "ascends 0 (tl uts46_starts_1) 146"
  unfolding uts46_starts_1_def list.sel
  by (rule ascends_Cons, simp (no_asm))+ (rule ascends_Nil)

lemma length_uts46_starts_1: "length uts46_starts_1 = 147"
  by (simp add: uts46_starts_1_def)

lemma uts46_starts_2_ascends: "ascends 146 uts46_starts_2 296"
  unfolding uts46_starts_2_def
  by (rule ascends_Cons, simp (no_asm))+ (rule ascends_Nil)

lemma length_uts46_starts_2: "length uts46_starts_2 = 150"
  by (simp add: uts46_starts_2_def)

lemma uts46_starts_3_ascends: "ascends 296 uts46_starts_3 467"
  unfolding uts46_starts_3_def
  by (rule ascends_Cons, simp (no_asm))+ (rule ascends_Nil)

lemma length_uts46_starts_3: "length uts46_starts_3 = 150"
  by (simp add: uts46_starts_3_def)

lemma uts46_starts_4_ascends: "ascends 467 uts46_starts_4 884"
  unfolding uts46_starts_4_def
  by (rule ascends_Cons, simp (no_asm))+ (rule ascends_Nil)

lemma length_uts46_starts_4: "length uts46_starts_4 = 150"
  by (simp add: uts46_starts_4_def)

lemma uts46_starts_5_ascends: "ascends 884 uts46_starts_5 1120"
  unfolding uts46_starts_5_def
  by (rule ascends_Cons, simp (no_asm))+ (rule ascends_Nil)

lemma length_uts46_starts_5: "length uts46_starts_5 = 150"
  by (simp add: uts46_starts_5_def)

lemma uts46_starts_6_ascends: "ascends 1120 uts46_starts_6 1279"
  unfolding uts46_starts_6_def
  by (rule ascends_Cons, simp (no_asm))+ (rule ascends_Nil)

lemma length_uts46_starts_6: "length uts46_starts_6 = 150"
  by (simp add: uts46_starts_6_def)

lemma uts46_starts_7_ascends: "ascends 1279 uts46_starts_7 2481"
  unfolding uts46_starts_7_def
  by (rule ascends_Cons, simp (no_asm))+ (rule ascends_Nil)

lemma length_uts46_starts_7: "length uts46_starts_7 = 150"
  by (simp add: uts46_starts_7_def)

lemma uts46_starts_8_ascends: "ascends 2481 uts46_starts_8 3089"
  unfolding uts46_starts_8_def
  by (rule ascends_Cons, simp (no_asm))+ (rule ascends_Nil)

lemma length_uts46_starts_8: "length uts46_starts_8 = 150"
  by (simp add: uts46_starts_8_def)

lemma uts46_starts_9_ascends: "ascends 3089 uts46_starts_9 3997"
  unfolding uts46_starts_9_def
  by (rule ascends_Cons, simp (no_asm))+ (rule ascends_Nil)

lemma length_uts46_starts_9: "length uts46_starts_9 = 150"
  by (simp add: uts46_starts_9_def)

lemma uts46_starts_10_ascends: "ascends 3997 uts46_starts_10 6464"
  unfolding uts46_starts_10_def
  by (rule ascends_Cons, simp (no_asm))+ (rule ascends_Nil)

lemma length_uts46_starts_10: "length uts46_starts_10 = 150"
  by (simp add: uts46_starts_10_def)

lemma uts46_starts_11_ascends: "ascends 6464 uts46_starts_11 7518"
  unfolding uts46_starts_11_def
  by (rule ascends_Cons, simp (no_asm))+ (rule ascends_Nil)

lemma length_uts46_starts_11: "length uts46_starts_11 = 150"
  by (simp add: uts46_starts_11_def)

lemma uts46_starts_12_ascends: "ascends 7518 uts46_starts_12 7776"
  unfolding uts46_starts_12_def
  by (rule ascends_Cons, simp (no_asm))+ (rule ascends_Nil)

lemma length_uts46_starts_12: "length uts46_starts_12 = 150"
  by (simp add: uts46_starts_12_def)

lemma uts46_starts_13_ascends: "ascends 7776 uts46_starts_13 7931"
  unfolding uts46_starts_13_def
  by (rule ascends_Cons, simp (no_asm))+ (rule ascends_Nil)

lemma length_uts46_starts_13: "length uts46_starts_13 = 150"
  by (simp add: uts46_starts_13_def)

lemma uts46_starts_14_ascends: "ascends 7931 uts46_starts_14 8133"
  unfolding uts46_starts_14_def
  by (rule ascends_Cons, simp (no_asm))+ (rule ascends_Nil)

lemma length_uts46_starts_14: "length uts46_starts_14 = 150"
  by (simp add: uts46_starts_14_def)

lemma uts46_starts_15_ascends: "ascends 8133 uts46_starts_15 8469"
  unfolding uts46_starts_15_def
  by (rule ascends_Cons, simp (no_asm))+ (rule ascends_Nil)

lemma length_uts46_starts_15: "length uts46_starts_15 = 150"
  by (simp add: uts46_starts_15_def)

lemma uts46_starts_16_ascends: "ascends 8469 uts46_starts_16 9351"
  unfolding uts46_starts_16_def
  by (rule ascends_Cons, simp (no_asm))+ (rule ascends_Nil)

lemma length_uts46_starts_16: "length uts46_starts_16 = 150"
  by (simp add: uts46_starts_16_def)

lemma uts46_starts_17_ascends: "ascends 9351 uts46_starts_17 11370"
  unfolding uts46_starts_17_def
  by (rule ascends_Cons, simp (no_asm))+ (rule ascends_Nil)

lemma length_uts46_starts_17: "length uts46_starts_17 = 150"
  by (simp add: uts46_starts_17_def)

lemma uts46_starts_18_ascends: "ascends 11370 uts46_starts_18 11736"
  unfolding uts46_starts_18_def
  by (rule ascends_Cons, simp (no_asm))+ (rule ascends_Nil)

lemma length_uts46_starts_18: "length uts46_starts_18 = 150"
  by (simp add: uts46_starts_18_def)

lemma uts46_starts_19_ascends: "ascends 11736 uts46_starts_19 12171"
  unfolding uts46_starts_19_def
  by (rule ascends_Cons, simp (no_asm))+ (rule ascends_Nil)

lemma length_uts46_starts_19: "length uts46_starts_19 = 150"
  by (simp add: uts46_starts_19_def)

lemma uts46_starts_20_ascends: "ascends 12171 uts46_starts_20 12644"
  unfolding uts46_starts_20_def
  by (rule ascends_Cons, simp (no_asm))+ (rule ascends_Nil)

lemma length_uts46_starts_20: "length uts46_starts_20 = 150"
  by (simp add: uts46_starts_20_def)

lemma uts46_starts_21_ascends: "ascends 12644 uts46_starts_21 12895"
  unfolding uts46_starts_21_def
  by (rule ascends_Cons, simp (no_asm))+ (rule ascends_Nil)

lemma length_uts46_starts_21: "length uts46_starts_21 = 150"
  by (simp add: uts46_starts_21_def)

lemma uts46_starts_22_ascends: "ascends 12895 uts46_starts_22 13045"
  unfolding uts46_starts_22_def
  by (rule ascends_Cons, simp (no_asm))+ (rule ascends_Nil)

lemma length_uts46_starts_22: "length uts46_starts_22 = 150"
  by (simp add: uts46_starts_22_def)

lemma uts46_starts_23_ascends: "ascends 13045 uts46_starts_23 13195"
  unfolding uts46_starts_23_def
  by (rule ascends_Cons, simp (no_asm))+ (rule ascends_Nil)

lemma length_uts46_starts_23: "length uts46_starts_23 = 150"
  by (simp add: uts46_starts_23_def)

lemma uts46_starts_24_ascends: "ascends 13195 uts46_starts_24 42587"
  unfolding uts46_starts_24_def
  by (rule ascends_Cons, simp (no_asm))+ (rule ascends_Nil)

lemma length_uts46_starts_24: "length uts46_starts_24 = 150"
  by (simp add: uts46_starts_24_def)

lemma uts46_starts_25_ascends: "ascends 42587 uts46_starts_25 42897"
  unfolding uts46_starts_25_def
  by (rule ascends_Cons, simp (no_asm))+ (rule ascends_Nil)

lemma length_uts46_starts_25: "length uts46_starts_25 = 150"
  by (simp add: uts46_starts_25_def)

lemma uts46_starts_26_ascends: "ascends 42897 uts46_starts_26 43906"
  unfolding uts46_starts_26_def
  by (rule ascends_Cons, simp (no_asm))+ (rule ascends_Nil)

lemma length_uts46_starts_26: "length uts46_starts_26 = 150"
  by (simp add: uts46_starts_26_def)

lemma uts46_starts_27_ascends: "ascends 43906 uts46_starts_27 63823"
  unfolding uts46_starts_27_def
  by (rule ascends_Cons, simp (no_asm))+ (rule ascends_Nil)

lemma length_uts46_starts_27: "length uts46_starts_27 = 150"
  by (simp add: uts46_starts_27_def)

lemma uts46_starts_28_ascends: "ascends 63823 uts46_starts_28 63973"
  unfolding uts46_starts_28_def
  by (rule ascends_Cons, simp (no_asm))+ (rule ascends_Nil)

lemma length_uts46_starts_28: "length uts46_starts_28 = 150"
  by (simp add: uts46_starts_28_def)

lemma uts46_starts_29_ascends: "ascends 63973 uts46_starts_29 64130"
  unfolding uts46_starts_29_def
  by (rule ascends_Cons, simp (no_asm))+ (rule ascends_Nil)

lemma length_uts46_starts_29: "length uts46_starts_29 = 150"
  by (simp add: uts46_starts_29_def)

lemma uts46_starts_30_ascends: "ascends 64130 uts46_starts_30 64333"
  unfolding uts46_starts_30_def
  by (rule ascends_Cons, simp (no_asm))+ (rule ascends_Nil)

lemma length_uts46_starts_30: "length uts46_starts_30 = 150"
  by (simp add: uts46_starts_30_def)

lemma uts46_starts_31_ascends: "ascends 64333 uts46_starts_31 64609"
  unfolding uts46_starts_31_def
  by (rule ascends_Cons, simp (no_asm))+ (rule ascends_Nil)

lemma length_uts46_starts_31: "length uts46_starts_31 = 150"
  by (simp add: uts46_starts_31_def)

lemma uts46_starts_32_ascends: "ascends 64609 uts46_starts_32 64759"
  unfolding uts46_starts_32_def
  by (rule ascends_Cons, simp (no_asm))+ (rule ascends_Nil)

lemma length_uts46_starts_32: "length uts46_starts_32 = 150"
  by (simp add: uts46_starts_32_def)

lemma uts46_starts_33_ascends: "ascends 64759 uts46_starts_33 64945"
  unfolding uts46_starts_33_def
  by (rule ascends_Cons, simp (no_asm))+ (rule ascends_Nil)

lemma length_uts46_starts_33: "length uts46_starts_33 = 150"
  by (simp add: uts46_starts_33_def)

lemma uts46_starts_34_ascends: "ascends 64945 uts46_starts_34 65249"
  unfolding uts46_starts_34_def
  by (rule ascends_Cons, simp (no_asm))+ (rule ascends_Nil)

lemma length_uts46_starts_34: "length uts46_starts_34 = 150"
  by (simp add: uts46_starts_34_def)

lemma uts46_starts_35_ascends: "ascends 65249 uts46_starts_35 65418"
  unfolding uts46_starts_35_def
  by (rule ascends_Cons, simp (no_asm))+ (rule ascends_Nil)

lemma length_uts46_starts_35: "length uts46_starts_35 = 150"
  by (simp add: uts46_starts_35_def)

lemma uts46_starts_36_ascends: "ascends 65418 uts46_starts_36 66571"
  unfolding uts46_starts_36_def
  by (rule ascends_Cons, simp (no_asm))+ (rule ascends_Nil)

lemma length_uts46_starts_36: "length uts46_starts_36 = 150"
  by (simp add: uts46_starts_36_def)

lemma uts46_starts_37_ascends: "ascends 66571 uts46_starts_37 67474"
  unfolding uts46_starts_37_def
  by (rule ascends_Cons, simp (no_asm))+ (rule ascends_Nil)

lemma length_uts46_starts_37: "length uts46_starts_37 = 150"
  by (simp add: uts46_starts_37_def)

lemma uts46_starts_38_ascends: "ascends 67474 uts46_starts_38 68778"
  unfolding uts46_starts_38_def
  by (rule ascends_Cons, simp (no_asm))+ (rule ascends_Nil)

lemma length_uts46_starts_38: "length uts46_starts_38 = 150"
  by (simp add: uts46_starts_38_def)

lemma uts46_starts_39_ascends: "ascends 68778 uts46_starts_39 70599"
  unfolding uts46_starts_39_def
  by (rule ascends_Cons, simp (no_asm))+ (rule ascends_Nil)

lemma length_uts46_starts_39: "length uts46_starts_39 = 150"
  by (simp add: uts46_starts_39_def)

lemma uts46_starts_40_ascends: "ascends 70599 uts46_starts_40 73136"
  unfolding uts46_starts_40_def
  by (rule ascends_Cons, simp (no_asm))+ (rule ascends_Nil)

lemma length_uts46_starts_40: "length uts46_starts_40 = 150"
  by (simp add: uts46_starts_40_def)

lemma uts46_starts_41_ascends: "ascends 73136 uts46_starts_41 110928"
  unfolding uts46_starts_41_def
  by (rule ascends_Cons, simp (no_asm))+ (rule ascends_Nil)

lemma length_uts46_starts_41: "length uts46_starts_41 = 150"
  by (simp add: uts46_starts_41_def)

lemma uts46_starts_42_ascends: "ascends 110928 uts46_starts_42 119855"
  unfolding uts46_starts_42_def
  by (rule ascends_Cons, simp (no_asm))+ (rule ascends_Nil)

lemma length_uts46_starts_42: "length uts46_starts_42 = 150"
  by (simp add: uts46_starts_42_def)

lemma uts46_starts_43_ascends: "ascends 119855 uts46_starts_43 120008"
  unfolding uts46_starts_43_def
  by (rule ascends_Cons, simp (no_asm))+ (rule ascends_Nil)

lemma length_uts46_starts_43: "length uts46_starts_43 = 150"
  by (simp add: uts46_starts_43_def)

lemma uts46_starts_44_ascends: "ascends 120008 uts46_starts_44 120161"
  unfolding uts46_starts_44_def
  by (rule ascends_Cons, simp (no_asm))+ (rule ascends_Nil)

lemma length_uts46_starts_44: "length uts46_starts_44 = 150"
  by (simp add: uts46_starts_44_def)

lemma uts46_starts_45_ascends: "ascends 120161 uts46_starts_45 120311"
  unfolding uts46_starts_45_def
  by (rule ascends_Cons, simp (no_asm))+ (rule ascends_Nil)

lemma length_uts46_starts_45: "length uts46_starts_45 = 150"
  by (simp add: uts46_starts_45_def)

lemma uts46_starts_46_ascends: "ascends 120311 uts46_starts_46 120461"
  unfolding uts46_starts_46_def
  by (rule ascends_Cons, simp (no_asm))+ (rule ascends_Nil)

lemma length_uts46_starts_46: "length uts46_starts_46 = 150"
  by (simp add: uts46_starts_46_def)

lemma uts46_starts_47_ascends: "ascends 120461 uts46_starts_47 120614"
  unfolding uts46_starts_47_def
  by (rule ascends_Cons, simp (no_asm))+ (rule ascends_Nil)

lemma length_uts46_starts_47: "length uts46_starts_47 = 150"
  by (simp add: uts46_starts_47_def)

lemma uts46_starts_48_ascends: "ascends 120614 uts46_starts_48 120767"
  unfolding uts46_starts_48_def
  by (rule ascends_Cons, simp (no_asm))+ (rule ascends_Nil)

lemma length_uts46_starts_48: "length uts46_starts_48 = 150"
  by (simp add: uts46_starts_48_def)

lemma uts46_starts_49_ascends: "ascends 120767 uts46_starts_49 123184"
  unfolding uts46_starts_49_def
  by (rule ascends_Cons, simp (no_asm))+ (rule ascends_Nil)

lemma length_uts46_starts_49: "length uts46_starts_49 = 150"
  by (simp add: uts46_starts_49_def)

lemma uts46_starts_50_ascends: "ascends 123184 uts46_starts_50 126543"
  unfolding uts46_starts_50_def
  by (rule ascends_Cons, simp (no_asm))+ (rule ascends_Nil)

lemma length_uts46_starts_50: "length uts46_starts_50 = 150"
  by (simp add: uts46_starts_50_def)

lemma uts46_starts_51_ascends: "ascends 126543 uts46_starts_51 127269"
  unfolding uts46_starts_51_def
  by (rule ascends_Cons, simp (no_asm))+ (rule ascends_Nil)

lemma length_uts46_starts_51: "length uts46_starts_51 = 150"
  by (simp add: uts46_starts_51_def)

lemma uts46_starts_52_ascends: "ascends 127269 uts46_starts_52 129664"
  unfolding uts46_starts_52_def
  by (rule ascends_Cons, simp (no_asm))+ (rule ascends_Nil)

lemma length_uts46_starts_52: "length uts46_starts_52 = 150"
  by (simp add: uts46_starts_52_def)

lemma uts46_starts_53_ascends: "ascends 129664 uts46_starts_53 194677"
  unfolding uts46_starts_53_def
  by (rule ascends_Cons, simp (no_asm))+ (rule ascends_Nil)

lemma length_uts46_starts_53: "length uts46_starts_53 = 150"
  by (simp add: uts46_starts_53_def)

lemma uts46_starts_54_ascends: "ascends 194677 uts46_starts_54 194829"
  unfolding uts46_starts_54_def
  by (rule ascends_Cons, simp (no_asm))+ (rule ascends_Nil)

lemma length_uts46_starts_54: "length uts46_starts_54 = 150"
  by (simp add: uts46_starts_54_def)

lemma uts46_starts_55_ascends: "ascends 194829 uts46_starts_55 194982"
  unfolding uts46_starts_55_def
  by (rule ascends_Cons, simp (no_asm))+ (rule ascends_Nil)

lemma length_uts46_starts_55: "length uts46_starts_55 = 150"
  by (simp add: uts46_starts_55_def)

lemma uts46_starts_56_ascends: "ascends 194982 uts46_starts_56 918000"
  unfolding uts46_starts_56_def
  by (rule ascends_Cons, simp (no_asm))+ (rule ascends_Nil)

lemma length_uts46_starts_56: "length uts46_starts_56 = 125"
  by (simp add: uts46_starts_56_def)

lemmas starts_ascend =
  uts46_starts_1_ascends uts46_starts_2_ascends uts46_starts_3_ascends
  uts46_starts_4_ascends uts46_starts_5_ascends uts46_starts_6_ascends
  uts46_starts_7_ascends uts46_starts_8_ascends uts46_starts_9_ascends
  uts46_starts_10_ascends uts46_starts_11_ascends uts46_starts_12_ascends
  uts46_starts_13_ascends uts46_starts_14_ascends uts46_starts_15_ascends
  uts46_starts_16_ascends uts46_starts_17_ascends uts46_starts_18_ascends
  uts46_starts_19_ascends uts46_starts_20_ascends uts46_starts_21_ascends
  uts46_starts_22_ascends uts46_starts_23_ascends uts46_starts_24_ascends
  uts46_starts_25_ascends uts46_starts_26_ascends uts46_starts_27_ascends
  uts46_starts_28_ascends uts46_starts_29_ascends uts46_starts_30_ascends
  uts46_starts_31_ascends uts46_starts_32_ascends uts46_starts_33_ascends
  uts46_starts_34_ascends uts46_starts_35_ascends uts46_starts_36_ascends
  uts46_starts_37_ascends uts46_starts_38_ascends uts46_starts_39_ascends
  uts46_starts_40_ascends uts46_starts_41_ascends uts46_starts_42_ascends
  uts46_starts_43_ascends uts46_starts_44_ascends uts46_starts_45_ascends
  uts46_starts_46_ascends uts46_starts_47_ascends uts46_starts_48_ascends
  uts46_starts_49_ascends uts46_starts_50_ascends uts46_starts_51_ascends
  uts46_starts_52_ascends uts46_starts_53_ascends uts46_starts_54_ascends
  uts46_starts_55_ascends uts46_starts_56_ascends

lemmas starts_lengths =
  length_uts46_starts_1 length_uts46_starts_2 length_uts46_starts_3
  length_uts46_starts_4 length_uts46_starts_5 length_uts46_starts_6
  length_uts46_starts_7 length_uts46_starts_8 length_uts46_starts_9
  length_uts46_starts_10 length_uts46_starts_11 length_uts46_starts_12
  length_uts46_starts_13 length_uts46_starts_14 length_uts46_starts_15
  length_uts46_starts_16 length_uts46_starts_17 length_uts46_starts_18
  length_uts46_starts_19 length_uts46_starts_20 length_uts46_starts_21
  length_uts46_starts_22 length_uts46_starts_23 length_uts46_starts_24
  length_uts46_starts_25 length_uts46_starts_26 length_uts46_starts_27
  length_uts46_starts_28 length_uts46_starts_29 length_uts46_starts_30
  length_uts46_starts_31 length_uts46_starts_32 length_uts46_starts_33
  length_uts46_starts_34 length_uts46_starts_35 length_uts46_starts_36
  length_uts46_starts_37 length_uts46_starts_38 length_uts46_starts_39
  length_uts46_starts_40 length_uts46_starts_41 length_uts46_starts_42
  length_uts46_starts_43 length_uts46_starts_44 length_uts46_starts_45
  length_uts46_starts_46 length_uts46_starts_47 length_uts46_starts_48
  length_uts46_starts_49 length_uts46_starts_50 length_uts46_starts_51
  length_uts46_starts_52 length_uts46_starts_53 length_uts46_starts_54
  length_uts46_starts_55 length_uts46_starts_56

lemma uts46_starts_ascends: "ascends 0 (tl uts46_starts) 918000"
proof -
  have "tl uts46_starts = concat (tl uts46_starts_1 #
      [uts46_starts_2, uts46_starts_3, uts46_starts_4, uts46_starts_5, uts46_starts_6,
       uts46_starts_7, uts46_starts_8, uts46_starts_9, uts46_starts_10, uts46_starts_11,
       uts46_starts_12, uts46_starts_13, uts46_starts_14, uts46_starts_15, uts46_starts_16,
       uts46_starts_17, uts46_starts_18, uts46_starts_19, uts46_starts_20, uts46_starts_21,
       uts46_starts_22, uts46_starts_23, uts46_starts_24, uts46_starts_25, uts46_starts_26,
       uts46_starts_27, uts46_starts_28, uts46_starts_29, uts46_starts_30, uts46_starts_31,
       uts46_starts_32, uts46_starts_33, uts46_starts_34, uts46_starts_35, uts46_starts_36,
       uts46_starts_37, uts46_starts_38, uts46_starts_39, uts46_starts_40, uts46_starts_41,
       uts46_starts_42, uts46_starts_43, uts46_starts_44, uts46_starts_45, uts46_starts_46,
       uts46_starts_47, uts46_starts_48, uts46_starts_49, uts46_starts_50, uts46_starts_51,
       uts46_starts_52, uts46_starts_53, uts46_starts_54, uts46_starts_55, uts46_starts_56])"
    by (simp add: uts46_starts_def uts46_starts_1_def)
  then show ?thesis
    by (simp only: concat.simps append_Nil2) ((rule ascends_append, rule starts_ascend)+, rule starts_ascend)
qed

lemma uts46_starts_sorted: "sorted_wrt (<) uts46_starts" "length uts46_starts = 8372"
proof -
  have "uts46_starts = 0 # tl uts46_starts" by (simp add: uts46_starts_def uts46_starts_1_def)
  then show "sorted_wrt (<) uts46_starts"
    using ascends_sorted [OF uts46_starts_ascends] by (metis sorted_wrt.simps(2))
  show "length uts46_starts = 8372" by (simp add: uts46_starts_def starts_lengths)
qed

lemma uts46_starts_low: "take 256 uts46_starts = [0..<256]"
  by (simp add: uts46_starts_def uts46_starts_1_def uts46_starts_2_def upt_conv_Cons)

end
