(* ===== verification/Idna_Domain.thy ===== *)
theory Idna_Domain
  imports Idna_Core Uts46_Starts Uts46_Replacements
begin

text \<open>
  Whole domain names (\<^verbatim>\<open>idna/core.py\<close>): the UTS 46 mapping over the three parallel tables, and
  \<^verbatim>\<open>encode\<close> and \<^verbatim>\<open>decode\<close>, which split a domain into labels, convert each and join them again.

  The deprecation warning of \<^verbatim>\<open>encode\<close> is left out. Arguments stand in the order of the source.
\<close>

section \<open>The UTS 46 mapping\<close>

function bisect_right :: "nat list \<Rightarrow> nat \<Rightarrow> nat \<Rightarrow> nat \<Rightarrow> nat" where
  "bisect_right a x lo hi =
     (if lo < hi
      then (let mid = (lo + hi) div 2
            in if x < a ! mid then bisect_right a x lo mid else bisect_right a x (mid + 1) hi)
      else lo)"
  by pat_completeness auto

termination
  by (relation "measure (\<lambda>(a, x, lo, hi). hi - lo)") auto

declare bisect_right.simps [simp del]

definition segment_index :: "code_point \<Rightarrow> nat" where
  "segment_index code_point =
     (if code_point < 256 then code_point
      else bisect_right uts46_starts code_point 0 (length uts46_starts) - 1)"

text \<open>What becomes of one character; \<open>None\<close> when it is not allowed.\<close>

definition remap_char :: "bool \<Rightarrow> bool \<Rightarrow> code_point \<Rightarrow> ustr option" where
  "remap_char std3_rules transitional code_point =
     (let i = segment_index code_point;
          status = uts46_statuses ! i;
          replacement = uts46_replacements ! i;
          keep_as_is = (status = CHR ''V'' \<or> status = CHR ''D'' \<and> \<not> transitional
            \<or> status = CHR ''3'' \<and> \<not> std3_rules \<and> replacement = None);
          use_replacement = (replacement \<noteq> None \<and>
            (status = CHR ''M'' \<or> status = CHR ''3'' \<and> \<not> std3_rules \<or> status = CHR ''D'' \<and> transitional))
      in if keep_as_is then Some [code_point]
         else if use_replacement then replacement
         else if status = CHR ''I'' then Some []
         else None)"

fun remap_chars :: "unicode_data \<Rightarrow> ustr \<Rightarrow> bool \<Rightarrow> bool \<Rightarrow> nat \<Rightarrow> ustr \<Rightarrow> ustr idna_res" where
  "remap_chars U domain std3_rules transitional pos [] = Inr []"
| "remap_chars U domain std3_rules transitional pos (c # cs) =
     (case remap_char std3_rules transitional c of
        None \<Rightarrow> Inl (InvalidCodepoint (''Codepoint '' @ unot c @ '' not allowed at position ''
                  @ nat_str (pos + 1) @ '' in '' @ repr_ustr U domain))
      | Some out \<Rightarrow>
          rbind (remap_chars U domain std3_rules transitional (pos + 1) cs) (\<lambda>rest. Inr (out @ rest)))"

definition uts46_remap :: "unicode_data \<Rightarrow> ustr \<Rightarrow> bool \<Rightarrow> bool \<Rightarrow> ustr idna_res" where
  "uts46_remap U domain std3_rules transitional =
     (if length domain > max_input_length then Inl (IDNAError ''Domain too long'')
      else rbind (remap_chars U domain std3_rules transitional 0 domain) (\<lambda>output. Inr (nfc U output)))"

section \<open>Domains\<close>

fun split_on :: "(nat \<Rightarrow> bool) \<Rightarrow> ustr \<Rightarrow> ustr list" where
  "split_on sep [] = [[]]"
| "split_on sep (c # cs) =
     (if sep c then [] # split_on sep cs
      else case split_on sep cs of [] \<Rightarrow> [[c]] | p # ps \<Rightarrow> (c # p) # ps)"

fun join_dots :: "nat list list \<Rightarrow> nat list" where
  "join_dots [] = []"
| "join_dots [p] = p"
| "join_dots (p # q # ps) = p @ [0x2E] @ join_dots (q # ps)"

definition unicode_dot :: "code_point \<Rightarrow> bool" where
  "unicode_dot c \<longleftrightarrow> c = 0x2E \<or> c = 0x3002 \<or> c = 0xFF0E \<or> c = 0xFF61"

definition split_labels :: "bool \<Rightarrow> ustr \<Rightarrow> ustr list" where
  "split_labels strict s = (if strict then split_on (\<lambda>c. c = 0x2E) s else split_on unicode_dot s)"

definition as_str :: "py_text \<Rightarrow> string \<Rightarrow> ustr idna_res" where
  "as_str s message =
     (case s of Str t \<Rightarrow> Inr t | Bytes b \<Rightarrow> if is_ascii b then Inr b else Inl (IDNAError message))"

definition nonempty_label :: "ustr \<Rightarrow> ustr idna_res" where
  "nonempty_label label = (if label \<noteq> [] then Inr label else Inl (IDNAError ''Empty label''))"

text \<open>The steps \<^verbatim>\<open>encode\<close> and \<^verbatim>\<open>decode\<close> share: what \<open>k\<close> gets are the labels, and whether a dot ended them.\<close>

definition with_labels ::
  "unicode_data \<Rightarrow> ustr \<Rightarrow> bool \<Rightarrow> bool \<Rightarrow> bool \<Rightarrow> bool \<Rightarrow> (ustr list \<Rightarrow> bool \<Rightarrow> 'a idna_res) \<Rightarrow> 'a idna_res" where
  "with_labels U s strict uts46 std3_rules transitional k =
     (if length s > max_input_length then Inl (IDNAError ''Domain too long'')
      else rbind (if uts46 then uts46_remap U s std3_rules transitional else Inr s) (\<lambda>s.
        if \<not> valid_string_length s True then Inl (IDNAError ''Domain too long'')
        else let labels = split_labels strict s
             in if labels = [[]] then Inl (IDNAError ''Empty domain'')
                else if last labels = [] then k (butlast labels) True
                else k labels False))"

definition encode ::
  "unicode_data \<Rightarrow> py_text \<Rightarrow> bool \<Rightarrow> bool \<Rightarrow> bool \<Rightarrow> bool \<Rightarrow> nat list idna_res" where
  "encode U s strict uts46 std3_rules transitional =
     rbind (as_str s ''should pass a unicode string to the function rather than a byte string.'') (\<lambda>s.
       with_labels U s strict uts46 std3_rules transitional (\<lambda>labels trailing_dot.
         rbind (mapM (\<lambda>label. rbind (alabel U label) nonempty_label) labels) (\<lambda>result.
           let s = join_dots (result @ (if trailing_dot then [[]] else []))
           in if \<not> valid_string_length s trailing_dot then Inl (IDNAError ''Domain too long'')
              else Inr s)))"

definition decode_label :: "unicode_data \<Rightarrow> bool \<Rightarrow> ustr \<Rightarrow> ustr idna_res" where
  "decode_label U display label =
     (case ulabel U (Str label) of
        Inr u \<Rightarrow> Inr u
      | Inl e \<Rightarrow>
          if is_IDNAError e \<and> display \<and> lower_ustr U (take 4 label) = alabel_prefix
          then Inr (lower_ustr U label)
          else Inl e)"

definition decode ::
  "unicode_data \<Rightarrow> py_text \<Rightarrow> bool \<Rightarrow> bool \<Rightarrow> bool \<Rightarrow> bool \<Rightarrow> ustr idna_res" where
  "decode U s strict uts46 std3_rules display =
     rbind (as_str s ''Invalid ASCII in A-label'') (\<lambda>s.
       with_labels U s strict uts46 std3_rules False (\<lambda>labels trailing_dot.
         rbind (mapM (\<lambda>label. rbind (decode_label U display label) nonempty_label) labels) (\<lambda>result.
           Inr (join_dots (result @ (if trailing_dot then [[]] else []))))))"


section \<open>Splitting and joining\<close>

lemma split_on_not_Nil [simp]: "split_on sep s \<noteq> []"
  by (induction s) (auto split: list.splits)

lemma split_on_parts: "\<forall>p \<in> set (split_on sep s). \<forall>c \<in> set p. c \<in> set s \<and> \<not> sep c"
proof (induction s)
  case (Cons d s)
  then show ?case by (cases "split_on sep s") auto
qed simp

lemma split_on_append:
  "\<forall>c \<in> set p. \<not> sep c \<Longrightarrow> sep d \<Longrightarrow> split_on sep (p @ d # s) = p # split_on sep s"
  by (induction p) auto

lemma split_on_single: "\<forall>c \<in> set p. \<not> sep c \<Longrightarrow> split_on sep p = [p]"
  by (induction p) auto

lemma split_join:
  assumes "ps \<noteq> []" "\<forall>p \<in> set ps. \<forall>c \<in> set p. \<not> sep c" "sep 0x2E"
  shows "split_on sep (join_dots ps) = ps"
  using assms
proof (induction ps rule: join_dots.induct)
  case (3 p q ps)
  then show ?case by (simp add: split_on_append)
qed (auto simp: split_on_single)

lemma split_on_cong: "(\<And>c. c \<in> set s \<Longrightarrow> sep c = sep' c) \<Longrightarrow> split_on sep s = split_on sep' s"
proof (induction s)
  case (Cons c s)
  then have "split_on sep s = split_on sep' s" "sep c = sep' c" by simp_all
  then show ?case by simp
qed simp

lemma split_labels_ascii: "is_ascii s \<Longrightarrow> split_labels strict s = split_on (\<lambda>c. c = 0x2E) s"
  unfolding split_labels_def is_ascii_def
  by (auto intro!: split_on_cong simp: unicode_dot_def)

lemma split_labels_no_dot: "p \<in> set (split_labels strict s) \<Longrightarrow> 0x2E \<notin> set p"
  using split_on_parts [of "\<lambda>c. c = 0x2E" s] split_on_parts [of unicode_dot s]
  unfolding split_labels_def by (cases strict) (auto simp: unicode_dot_def)

lemma set_join_dots: "set (join_dots ps) \<subseteq> (\<Union>p \<in> set ps. set p) \<union> {0x2E}"
  by (induction ps rule: join_dots.induct) auto

lemma is_ascii_join: "\<forall>p \<in> set ps. is_ascii p \<Longrightarrow> is_ascii (join_dots ps)"
  unfolding is_ascii_def using set_join_dots [of ps] by fastforce

lemma join_dots_snoc: "ps \<noteq> [] \<Longrightarrow> join_dots (ps @ [q]) = join_dots ps @ [0x2E] @ q"
  by (induction ps rule: join_dots.induct) auto

lemma last_join_dots:
  assumes "ps \<noteq> []" "\<forall>p \<in> set ps. p \<noteq> [] \<and> is_ascii p \<and> 0x2E \<notin> set p \<and> length p \<le> 63"
  shows "last (join_dots (ps @ (if trailing then [[]] else []))) = 0x2E \<longleftrightarrow> trailing"
proof (cases trailing)
  case False
  obtain qs q where ps: "ps = qs @ [q]" using assms(1) by (metis append_butlast_last_id)
  then have "q \<noteq> []" "0x2E \<notin> set q" using assms(2) by auto
  then have "last q \<noteq> 0x2E" using last_in_set by metis
  moreover have "last (join_dots ps) = last q"
    using ps \<open>q \<noteq> []\<close> by (cases "qs = []") (auto simp: join_dots_snoc)
  ultimately show ?thesis using False by simp
qed (use assms(1) in \<open>simp add: join_dots_snoc\<close>)

section \<open>Encoding, then decoding\<close>

lemma check_label_not_Nil: "check_label U s = Inr x \<Longrightarrow> s \<noteq> []"
  by (auto simp: check_label_def split: if_splits)

lemma ulabel_result_not_Nil: "ulabel U l = Inr u \<Longrightarrow> u \<noteq> []"
  by (auto simp: ulabel_def ulabel_bytes_def check_label_bytes_def rbind_Inr_iff Let_def
      dest!: check_label_not_Nil split: py_text.splits if_splits option.splits)

text \<open>One label: its A-label decodes to what the label itself decodes to.\<close>

lemma decode_encoded_label:
  assumes a: "alabel U l = Inr a" and dot: "0x2E \<notin> set l"
  shows "a \<noteq> []" "is_ascii a" "0x2E \<notin> set a" "length a \<le> 63"
    "\<exists>u. ulabel U (Str a) = Inr u \<and> ulabel U (Str l) = Inr u \<and> u \<noteq> []"
proof -
  note facts = alabel_read_back [OF a]
  then obtain u where u: "ulabel U (Bytes a) = Inr u" "is_ascii l \<or> u = l" by blast
  show "a \<noteq> []" "is_ascii a" "length a \<le> 63" using facts by auto
  then have str: "ulabel U (Str a) = Inr u" using u(1) by (simp add: ulabel_def max_input_length_def)
  have "ulabel U (Str l) = Inr u"
  proof (cases "is_ascii l")
    case True
    then show ?thesis using alabel_ascii(1) [OF a] str by simp
  next
    case False
    then have "length l \<le> max_input_length" using a by (auto simp: alabel_def split: if_splits)
    then show ?thesis
      using alabel_unicode(1) [OF a False] u(2) False by (simp add: ulabel_def)
  qed
  then show "\<exists>u. ulabel U (Str a) = Inr u \<and> ulabel U (Str l) = Inr u \<and> u \<noteq> []"
    using str ulabel_result_not_Nil by blast
  show "0x2E \<notin> set a"
    using alabel_ascii(1) [OF a] alabel_chars [OF a] ldh_ascii dot by (cases "is_ascii l") auto
qed

abbreviation encode_label :: "unicode_data \<Rightarrow> ustr \<Rightarrow> nat list idna_res" where
  "encode_label U label \<equiv> rbind (alabel U label) nonempty_label"

lemma encode_label_Inr [simp]: "encode_label U l = Inr a \<longleftrightarrow> alabel U l = Inr a \<and> a \<noteq> []"
  by (auto simp: rbind_Inr_iff nonempty_label_def split: if_splits)

lemma encode_labels_Cons:
  "mapM (encode_label U) (l # labels) = Inr result \<longleftrightarrow>
    (\<exists>a rest. alabel U l = Inr a \<and> a \<noteq> [] \<and> mapM (encode_label U) labels = Inr rest \<and> result = a # rest)"
  by (simp add: rbind_Inr_iff [of "encode_label U l"] rbind_Inr_iff [of "mapM _ _"]) blast

lemma encode_labels:
  assumes "mapM (encode_label U) labels = Inr result" "\<forall>l \<in> set labels. 0x2E \<notin> set l"
  shows "list_all2 (\<lambda>l a. alabel U l = Inr a) labels result"
    "\<forall>a \<in> set result. a \<noteq> [] \<and> is_ascii a \<and> 0x2E \<notin> set a \<and> length a \<le> 63"
    "mapM (\<lambda>label. rbind (decode_label U display label) nonempty_label) result
      = mapM (\<lambda>label. rbind (decode_label U display label) nonempty_label) labels"
    "\<exists>us. mapM (\<lambda>label. rbind (decode_label U display label) nonempty_label) labels = Inr us"
  using assms
proof (induction labels arbitrary: result)
  case (Cons l labels)
  {
    case 1 then show ?case using Cons.IH(1) unfolding encode_labels_Cons by auto
  next
    case 2 then show ?case
      using Cons.IH(2) decode_encoded_label [of U l] unfolding encode_labels_Cons by auto
  next
    case 3
    then obtain a rest where *: "alabel U l = Inr a" "result = a # rest" "mapM (encode_label U) labels = Inr rest"
      unfolding encode_labels_Cons by blast
    then obtain u where "ulabel U (Str a) = Inr u" "ulabel U (Str l) = Inr u"
      using decode_encoded_label(5) [of U l a] 3 by auto
    then show ?case using Cons.IH(3) [OF *(3)] 3 *(2) by (simp add: decode_label_def)
  next
    case 4
    then obtain a rest where *: "alabel U l = Inr a" "mapM (encode_label U) labels = Inr rest"
      unfolding encode_labels_Cons by blast
    then obtain u where "ulabel U (Str l) = Inr u" "u \<noteq> []"
      using decode_encoded_label(5) [of U l a] 4 by auto
    then have "rbind (decode_label U display l) nonempty_label = Inr u"
      by (simp add: decode_label_def nonempty_label_def)
    moreover obtain us where
      "mapM (\<lambda>label. rbind (decode_label U display label) nonempty_label) labels = Inr us"
      using Cons.IH(4) [OF *(2)] 4 by auto
    ultimately show ?case by simp
  }
qed auto

lemma mapM_length: "mapM f xs = Inr ys \<Longrightarrow> length ys = length xs"
  by (simp add: mapM_Inr_iff list_all2_lengthD)

text \<open>What an accepted call of \<^verbatim>\<open>encode\<close> without the UTS 46 mapping consists of.\<close>

lemma encodeD:
  assumes "encode U (Str s) strict False std3 tr = Inr b"
  obtains labels result trailing where
    "split_labels strict s = labels @ (if trailing then [[]] else [])" "labels \<noteq> []" "last (split_labels strict s) = [] \<longleftrightarrow> trailing"
    "mapM (encode_label U) labels = Inr result" "b = join_dots (result @ (if trailing then [[]] else []))"
    "length b \<le> (if trailing then 254 else 253)" "length s \<le> 254"
proof -
  have len: "length s \<le> 254" and ne: "split_labels strict s \<noteq> [[]]"
    using assms by (auto simp: encode_def as_str_def with_labels_def valid_string_length_def Let_def split: if_splits)
  have full: "split_labels strict s \<noteq> []" by (simp add: split_labels_def)
  define trailing where "trailing \<longleftrightarrow> last (split_labels strict s) = []"
  define labels where "labels = (if trailing then butlast (split_labels strict s) else split_labels strict s)"
  have parts: "split_labels strict s = labels @ (if trailing then [[]] else [])"
    using append_butlast_last_id [OF full] by (cases trailing) (simp_all add: labels_def trailing_def)
  have "labels \<noteq> []" using parts ne full by (auto simp: trailing_def split: if_splits)
  moreover obtain result where "mapM (encode_label U) labels = Inr result"
    "b = join_dots (result @ (if trailing then [[]] else []))" "length b \<le> (if trailing then 254 else 253)"
    using assms ne
    by (auto simp: encode_def as_str_def with_labels_def Let_def rbind_Inr_iff valid_string_length_def
        labels_def trailing_def split: if_splits)
  ultimately show thesis using that parts len trailing_def by blast
qed

text \<open>
  C21: encoding a domain and decoding the result, with any separators, gives what decoding the
  domain itself gives, and neither fails; the encoded form is ASCII.
\<close>

theorem decode_encode:
  assumes "encode U (Str s) strict False std3 tr = Inr b"
  shows "is_ascii b \<and> (\<exists>u. decode U (Bytes b) strict' False std3' display = Inr u
    \<and> decode U (Str s) strict False std3' display = Inr u)"
proof -
  obtain labels result trailing where
    parts: "split_labels strict s = labels @ (if trailing then [[]] else [])" "labels \<noteq> []"
      "last (split_labels strict s) = [] \<longleftrightarrow> trailing"
    and result: "mapM (encode_label U) labels = Inr result"
    and b: "b = join_dots (result @ (if trailing then [[]] else []))"
    and len: "length b \<le> (if trailing then 254 else 253)" "length s \<le> 254"
    using encodeD [OF assms] .
  have "\<forall>l \<in> set labels. 0x2E \<notin> set l"
    using parts(1) split_labels_no_dot [of _ strict s] by auto
  note labels = encode_labels [OF result this]
  have ne: "result \<noteq> []" using mapM_length [OF result] parts(2) by auto
  have ascii: "is_ascii b" unfolding b using labels(2) by (intro is_ascii_join) (auto simp: is_ascii_def)
  have split: "split_labels strict' b = result @ (if trailing then [[]] else [])"
    unfolding split_labels_ascii [OF ascii] unfolding b
    by (rule split_join) (use ne labels(2) in auto)
  obtain us where us: "mapM (\<lambda>label. rbind (decode_label U display label) nonempty_label) labels = Inr us"
    using labels(4) by blast
  define u where "u = join_dots (us @ (if trailing then [[]] else []))"
  have "last result \<noteq> []" using ne labels(2) last_in_set by blast
  then have "decode U (Bytes b) strict' False std3' display = Inr u"
    using split ascii len ne us labels(3) [of display]
    by (auto simp: decode_def as_str_def with_labels_def Let_def u_def max_input_length_def
        valid_string_length_def)
  moreover have "decode U (Str s) strict False std3' display = Inr u"
    using parts len us
    by (auto simp: decode_def as_str_def with_labels_def Let_def u_def max_input_length_def
        valid_string_length_def)
  ultimately show ?thesis using ascii by blast
qed

text \<open>
  an encoded domain is at most 253 bytes, a final dot aside, and every label between its
  dots has 1 to 63 bytes.
\<close>

theorem encoded_lengths:
  assumes "encode U (Str s) strict False std3 tr = Inr b"
  shows "length b \<le> (if last b = 0x2E then 254 else 253) \<and>
    list_all (\<lambda>l. 0 < length l \<and> length l \<le> 63)
      (let ls = split_on (\<lambda>c. c = 0x2E) b in if last b = 0x2E then butlast ls else ls)"
proof -
  obtain labels result trailing where
    parts: "split_labels strict s = labels @ (if trailing then [[]] else [])" "labels \<noteq> []"
    and result: "mapM (encode_label U) labels = Inr result"
    and b: "b = join_dots (result @ (if trailing then [[]] else []))"
    and len: "length b \<le> (if trailing then 254 else 253)"
    using encodeD [OF assms] .
  have "\<forall>l \<in> set labels. 0x2E \<notin> set l"
    using parts(1) split_labels_no_dot [of _ strict s] by auto
  note ok = encode_labels(2) [OF result this]
  have ne: "result \<noteq> []" using mapM_length [OF result] parts(2) by auto
  have split: "split_on (\<lambda>c. c = 0x2E) b = result @ (if trailing then [[]] else [])"
    unfolding b by (rule split_join) (use ne ok in auto)
  have "last b = 0x2E \<longleftrightarrow> trailing"
    unfolding b using last_join_dots [OF ne] ok by auto
  then show ?thesis using len ok split by (auto simp: list_all_iff)
qed


lemma encode_example:
  "encode latin_unicode (Str [252, 0x3002, 97]) False False False False
    = Inr (alabel_prefix @ [116, 100, 97, 0x2E, 97])"
proof -
  have "check_label latin_unicode [97] = Inr ()"
    by (simp add: check_label_iff latin_unicode_def codepoint_ok_def pvalid_points)
  then have "alabel latin_unicode [97] = Inr [97]"
    by (simp add: alabel_def ulabel_def ulabel_bytes_def check_label_bytes_def is_ascii_def
        max_input_length_def lower_byte_def valid_label_length_def alabel_prefix_def)
  then show ?thesis
    using alabel_u_umlaut
    by (simp add: encode_def as_str_def with_labels_def split_labels_def unicode_dot_def nonempty_label_def
        max_input_length_def valid_string_length_def alabel_prefix_def)
qed

lemma decode_encode_witness:
  "\<exists>u. decode latin_unicode (Bytes (alabel_prefix @ [116, 100, 97, 0x2E, 97])) True False False False = Inr u
    \<and> decode latin_unicode (Str [252, 0x3002, 97]) False False False False = Inr u"
  using decode_encode [OF encode_example, of True False False] by blast

lemma encoded_lengths_witness:
  "length (alabel_prefix @ [116, 100, 97, 0x2E, 97]) \<le> (253 :: nat)"
  using encoded_lengths [OF encode_example] by simp

section \<open>The UTS 46 lookup\<close>

lemma bisect_right_left: "bisect_right a x lo hi = bisect_left a (x + 1) lo hi"
proof (induction a x lo hi rule: bisect_right.induct)
  case (1 a x lo hi)
  show ?case
  proof (cases "lo < hi")
    case True
    then show ?thesis
      using "1.IH" [OF True refl]
      by (simp only: bisect_right.simps [of a x lo hi] bisect_left_split [OF True] Let_def if_True)
        (simp add: less_Suc_eq_le not_le)
  qed (simp add: bisect_right.simps bisect_left_done)
qed

text \<open>
  The index looked up for a code point, by the shortcut below 256 or by the search, is a
  position of the tables, and its segment is the one the code point lies in.
\<close>

theorem segment_found:
  "segment_index c < length uts46_starts \<and> uts46_starts ! segment_index c \<le> c \<and>
    (segment_index c + 1 = length uts46_starts \<or> c < uts46_starts ! (segment_index c + 1))"
proof -
  note table = uts46_starts_sorted
  have le: "sorted uts46_starts" using table(1) by (rule strict_sorted_imp_sorted)
  have low: "uts46_starts ! i = i" if "i < 256" for i
    using that uts46_starts_low nth_take [of i 256 uts46_starts] by simp
  show ?thesis
  proof (cases "c < 256")
    case True
    then show ?thesis
      using low [of c] sorted_wrt_nth_less [OF table(1), of c "c + 1"] table(2)
      by (simp add: segment_index_def)
  next
    case False
    define pos where "pos = bisect_left uts46_starts (c + 1) 0 (length uts46_starts)"
    have bound: "pos \<le> length uts46_starts" using bisect_left_bounds by (simp add: pos_def)
    have below: "uts46_starts ! i < c + 1" if "i < pos" for i
      using bisect_left_partition [OF le order_refl, of 0 "c + 1"] that by (simp add: pos_def)
    have above: "c + 1 \<le> uts46_starts ! i" if "pos \<le> i" "i < length uts46_starts" for i
      using bisect_left_partition [OF le order_refl, of 0 "c + 1"] that by (simp add: pos_def)
    have "pos \<noteq> 0" using above [of 0] low [of 0] table(2) by auto
    moreover have "segment_index c = pos - 1"
      using False by (simp only: segment_index_def bisect_right_left pos_def if_False)
    ultimately show ?thesis
      using bound below [of "pos - 1"] above [of pos] table(2) by (cases "pos < 8372") auto
  qed
qed


lemma list_all_concat: "list_all P (concat xss) = list_all (list_all P) xss"
  by (induction xss) auto

lemma take_concat: "length xs \<le> n \<Longrightarrow> take n (concat (xs # xss)) = xs @ take (n - length xs) (concat xss)"
  by simp

lemma length_line: "length l = 64 \<Longrightarrow> length (concat ls) = n \<Longrightarrow> length (concat (l # ls)) = 64 + n"
  by simp

lemma statuses_known: "list_all (\<lambda>s. s \<noteq> CHR ''3'') uts46_statuses"
  by (simp add: uts46_statuses_def list_all_concat del: concat.simps)

lemma length_statuses: "length uts46_statuses = 8372"
  unfolding uts46_statuses_def
  by (rule trans, (rule length_line, (simp (no_asm); fail))+, simp (no_asm), simp (no_asm))

lemma statuses_low: "take 128 uts46_statuses
    = replicate 65 (CHR ''V'') @ replicate 26 (CHR ''M'') @ replicate 37 (CHR ''V'')"
  by (simp add: uts46_statuses_def take_concat numeral_eq_Suc del: concat.simps)

lemma replacements_low: "take 26 (drop 65 uts46_replacements) = map (\<lambda>c. Some [c]) [97..<123]"
  by (simp add: uts46_replacements_def uts46_replacements_1_def upt_conv_Cons)


lemma status_known: "uts46_statuses ! segment_index c \<noteq> CHR ''3''"
  using segment_found [of c] statuses_known uts46_starts_sorted(2) length_statuses
  by (auto simp only: list_all_length)

text \<open>
  no segment of the table has the status \<open>3\<close>, so the argument \<open>std3_rules\<close> of
  \<^verbatim>\<open>uts46_remap\<close> changes nothing, on any domain.
\<close>

theorem std3_rules_ignored:
  "uts46_remap U domain std3_rules transitional = uts46_remap U domain (\<not> std3_rules) transitional"
proof -
  have same: "remap_char std3_rules transitional = remap_char (\<not> std3_rules) transitional"
  proof
    fix c
    show "remap_char std3_rules transitional c = remap_char (\<not> std3_rules) transitional c"
      using status_known [of c] by (auto simp: remap_char_def Let_def)
  qed
  have "remap_chars U domain std3_rules transitional pos cs
      = remap_chars U domain (\<not> std3_rules) transitional pos cs" for pos cs
    by (induction cs arbitrary: pos) (simp_all only: remap_chars.simps same)
  then show ?thesis by (simp only: uts46_remap_def)
qed

lemma remap_ascii: "c < 128 \<Longrightarrow> remap_char std3_rules transitional c = Some [lower_byte c]"
proof -
  assume c: "c < 128"
  have i: "segment_index c = c" using c by (simp add: segment_index_def)
  have status: "uts46_statuses ! c = (replicate 65 (CHR ''V'') @ replicate 26 (CHR ''M'') @ replicate 37 (CHR ''V'')) ! c"
    using statuses_low nth_take [of c 128 uts46_statuses] c by simp
  show ?thesis
  proof (cases "65 \<le> c \<and> c \<le> 90")
    case True
    have "length (take 26 (drop 65 uts46_replacements)) = 26" unfolding replacements_low by simp
    then have "65 \<le> length uts46_replacements" by (simp add: min_def split: if_splits)
    moreover have "c - 65 < 26" "65 + (c - 65) = c" using True by auto
    ultimately have "uts46_replacements ! c = take 26 (drop 65 uts46_replacements) ! (c - 65)"
      by (simp only: nth_take nth_drop)
    also have "\<dots> = Some [[97..<123] ! (c - 65)]"
      unfolding replacements_low by (rule nth_map) (use True in \<open>simp only: length_upt, arith\<close>)
    also have "[97..<123] ! (c - 65) = 97 + (c - 65)" by (rule nth_upt) (use True in simp)
    finally have "uts46_replacements ! c = Some [lower_byte c]" using True by (simp add: lower_byte_def)
    moreover have "uts46_statuses ! c = CHR ''M''"
      unfolding status using True by (simp only: nth_append length_replicate) auto
    ultimately show ?thesis using i by (simp add: remap_char_def Let_def)
  next
    case False
    then have "uts46_statuses ! c = CHR ''V''" using status c by (auto simp: nth_append)
    then show ?thesis using False i by (auto simp: remap_char_def Let_def lower_byte_def)
  qed
qed

text \<open>The mapping of an ASCII domain in NFC is its lower case.\<close>

theorem remap_lowers_ascii:
  assumes "is_ascii domain" "length domain \<le> 1024" "nfc U (map lower_byte domain) = map lower_byte domain"
  shows "uts46_remap U domain std3_rules transitional = Inr (map lower_byte domain)"
proof -
  have "remap_chars U domain std3_rules transitional pos cs = Inr (map lower_byte cs)" if "is_ascii cs" for pos cs
    using that by (induction cs arbitrary: pos) (auto simp: is_ascii_def remap_ascii)
  then show ?thesis using assms by (simp add: uts46_remap_def max_input_length_def)
qed

lemma remap_lowers_ascii_witness:
  "uts46_remap latin_unicode [65, 0x2E, 98] True False = Inr [97, 0x2E, 98]"
  using remap_lowers_ascii [of "[65, 0x2E, 98]" latin_unicode True False]
  by (simp add: is_ascii_def latin_unicode_def lower_byte_def)

end
