(* ===== verification/Audit_Race.thy ===== *)
theory Audit_Race
  imports Audit_Append
begin

text \<open>
  The server and the review command append to one log. This theory models \<^verbatim>\<open>AuditLog.write\<close> as
  the system calls of several processes, interleaved: opening the active file, appending under
  the exclusive lock, and, when the file has grown past the limit, the steps of \<^verbatim>\<open>_rotate\<close>, which
  run after the lock was released.

  A file is an inode: a process that opened the active file keeps its inode when another process
  renames it. The steps under the lock are one step of the model, for \<^verbatim>\<open>flock\<close> lets no other
  holder in between. The threads of one process are serialised by its own lock, so a process is
  one sequence of steps.

  Three facts: run without interleaving the steps are \<open>audit_write\<close> (\<open>sequential_write\<close>); as
  long as no file reaches the limit, every interleaving leaves a log that verifies and holds
  every record (\<open>appends_verify\<close>); and once a file is rotated, a record can be lost although its
  write returned and the log verifies (\<open>rotation_loses_record\<close>).
\<close>

section \<open>Files and processes\<close>

datatype proc =
    Idle
  | Waiting write_args world nat      \<comment> \<open>opened the inode, waits for the lock\<close>
  | Read_Head world                   \<comment> \<open>\<^verbatim>\<open>_rotate\<close> begins\<close>
  | Replace world json              \<comment> \<open>has the head, renames next\<close>
  | Touch world json
  | Mark world json

record log_fs =
  fs_names :: "(string \<times> nat) list"
  fs_data :: "nat \<Rightarrow> string"
  fs_next :: nat
  fs_procs :: "nat \<Rightarrow> proc"
  fs_written :: "json list"           \<comment> \<open>the records of the writes that appended, in order\<close>

definition fs_dir :: "log_fs \<Rightarrow> dir" where
  "fs_dir s = map (\<lambda>(n, i). (n, fs_data s i)) (fs_names s)"

text \<open>\<^verbatim>\<open>open\<close> with a mode that creates: the inode of the active file, made if there is none.\<close>

definition open_active :: "audit_log \<Rightarrow> log_fs \<Rightarrow> nat \<times> log_fs" where
  "open_active L s =
     (case map_of (fs_names s) (active_name L) of
        Some i \<Rightarrow> (i, s)
      | None \<Rightarrow> (fs_next s, s\<lparr>fs_names := AList.update (active_name L) (fs_next s) (fs_names s),
                  fs_data := (fs_data s)(fs_next s := []), fs_next := fs_next s + 1\<rparr>))"

definition proc_at :: "nat \<Rightarrow> proc \<Rightarrow> log_fs \<Rightarrow> log_fs" where
  "proc_at p c s = s\<lparr>fs_procs := (fs_procs s)(p := c)\<rparr>"

text \<open>The line that an append adds to a file, and the record in it.\<close>

definition appended :: "hashes \<Rightarrow> audit_log \<Rightarrow> write_args \<Rightarrow> world \<Rightarrow> string \<Rightarrow> (string \<times> json) res" where
  "appended H L a w f =
     rbind (tail_record f) (\<lambda>tail. rbind (tail_hash tail) (\<lambda>prev. rbind (tail_seq tail) (\<lambda>seq.
       let r = sort_json (JObj (seal H (al_hmac_key L) (record_body L a w seq prev)))
       in Inr (f @ utf8 (dumps spaced r) @ [nl], r))))"

definition marker_line :: "hashes \<Rightarrow> audit_log \<Rightarrow> world \<Rightarrow> json \<Rightarrow> string" where
  "marker_line H L w h =
     utf8 (dumps spaced_ascii (sort_json (JObj (seal H (al_hmac_key L) (marker_body L w h))))) @ [nl]"

text \<open>
  The arguments of a call are a dictionary. A process runs one call at a time, for the threads
  of a process share its own lock.
\<close>

inductive log_step :: "hashes \<Rightarrow> audit_log \<Rightarrow> log_fs \<Rightarrow> log_fs \<Rightarrow> bool" for H L where
  open_file:
    "fs_procs s p = Idle \<Longrightarrow> wf_args (wa_args a) \<Longrightarrow> open_active L s = (i, s') \<Longrightarrow>
     log_step H L s (proc_at p (Waiting a w i) s')"
| append_record:
    "fs_procs s p = Waiting a w i \<Longrightarrow> appended H L a w (fs_data s i) = Inr (f, r) \<Longrightarrow>
     log_step H L s (proc_at p (if al_rotate_bytes L \<le> int (length f) then Read_Head w else Idle)
       (s\<lparr>fs_data := (fs_data s)(i := f), fs_written := fs_written s @ [r]\<rparr>))"
| read_head:
    "fs_procs s p = Read_Head w \<Longrightarrow> audit_head L (fs_dir s) = Inr h \<Longrightarrow>
     log_step H L s (proc_at p (Replace w h) s)"
| rename_file:
    "fs_procs s p = Replace w h \<Longrightarrow> map_of (fs_names s) (active_name L) = Some i \<Longrightarrow>
     log_step H L s (proc_at p (Touch w h)
       (s\<lparr>fs_names := AList.update (rotated_name L w) i (AList.delete (active_name L) (fs_names s))\<rparr>))"
| touch_file:
    "fs_procs s p = Touch w h \<Longrightarrow> open_active L s = (i, s') \<Longrightarrow>
     log_step H L s (proc_at p (Mark w h) s')"
| write_marker:
    "fs_procs s p = Mark w h \<Longrightarrow> open_active L s = (i, s') \<Longrightarrow>
     log_step H L s (proc_at p Idle (s'\<lparr>fs_data := (fs_data s')(i := marker_line H L w h)\<rparr>))"

inductive log_steps :: "hashes \<Rightarrow> audit_log \<Rightarrow> log_fs \<Rightarrow> log_fs \<Rightarrow> bool" for H L where
  steps_refl: "log_steps H L s s"
| steps_more: "log_steps H L s t \<Longrightarrow> log_step H L t u \<Longrightarrow> log_steps H L s u"

inductive_cases log_stepE: "log_step H L s t"

section \<open>The directory of the processes\<close>

text \<open>Every inode in use is below the next one, and no file has two names.\<close>

definition fs_wf :: "log_fs \<Rightarrow> bool" where
  "fs_wf s \<longleftrightarrow> distinct (map fst (fs_names s)) \<and> distinct (map snd (fs_names s)) \<and>
     (\<forall>i \<in> snd ` set (fs_names s). i < fs_next s)"

definition with_data :: "(nat \<Rightarrow> string) \<Rightarrow> (string \<times> nat) list \<Rightarrow> dir" where
  "with_data g ns = map (\<lambda>(n, i). (n, g i)) ns"

lemma fs_dir_with: "fs_dir s = with_data (fs_data s) (fs_names s)"
  by (simp add: fs_dir_def with_data_def)

lemma map_of_with [simp]: "map_of (with_data g ns) n = map_option g (map_of ns n)"
  by (induction ns) (auto simp: with_data_def)

lemma with_update: "with_data g (AList.update n i ns) = AList.update n (g i) (with_data g ns)"
  by (induction ns) (auto simp: with_data_def)

lemma with_delete: "with_data g (AList.delete n ns) = AList.delete n (with_data g ns)"
  by (induction ns) (auto simp: with_data_def)

lemma with_unused: "i \<notin> snd ` set ns \<Longrightarrow> with_data (g(i := f)) ns = with_data g ns"
  by (force simp: with_data_def)

lemma with_write:
  "distinct (map snd ns) \<Longrightarrow> map_of ns n = Some i \<Longrightarrow>
   with_data (g(i := f)) ns = AList.update n f (with_data g ns)"
proof (induction ns)
  case (Cons x ns)
  obtain m j where x: "x = (m, j)" by (cases x)
  show ?case
  proof (cases "m = n")
    case True
    then have "j = i" "i \<notin> snd ` set ns" using Cons.prems x by auto
    then show ?thesis using True x with_unused [of i ns g f] by (simp add: with_data_def)
  next
    case False
    then have "map_of ns n = Some i" using Cons.prems x by simp
    then have "j \<noteq> i" using Cons.prems x by (metis distinct.simps(2) image_eqI list.simps(9) map_of_SomeD set_map snd_conv)
    then show ?thesis using False Cons x by (simp add: with_data_def)
  qed
qed simp

lemma proc_at_simps [simp]:
  "fs_names (proc_at p c s) = fs_names s" "fs_data (proc_at p c s) = fs_data s"
  "fs_next (proc_at p c s) = fs_next s" "fs_written (proc_at p c s) = fs_written s"
  "fs_procs (proc_at p c s) = (fs_procs s)(p := c)" "fs_dir (proc_at p c s) = fs_dir s"
  by (simp_all add: proc_at_def fs_dir_def)

lemma open_present: "map_of (fs_names s) (active_name L) = Some i \<Longrightarrow> open_active L s = (i, s)"
  by (simp add: open_active_def)

lemma open_absent:
  "map_of (fs_names s) (active_name L) = None \<Longrightarrow> open_active L s = (fs_next s,
     s\<lparr>fs_names := AList.update (active_name L) (fs_next s) (fs_names s),
       fs_data := (fs_data s)(fs_next s := []), fs_next := fs_next s + 1\<rparr>)"
  by (simp add: open_active_def)

lemma steps_join: "log_steps H L s t \<Longrightarrow> log_steps H L t u \<Longrightarrow> log_steps H L s u"
  by (rotate_tac, induction rule: log_steps.induct) (auto intro: log_steps.intros)

lemmas step_one = steps_more [OF steps_refl]

section \<open>Without interleaving\<close>

text \<open>The rotation of a process that no other interrupts: read the head, rename, touch, write.\<close>

lemma fresh_inode:
  fixes n :: nat
  assumes "i < n" "\<forall>j \<in> snd ` set ns. j < n"
  shows "n \<notin> snd ` set (AList.update r i (AList.delete a ns))"
proof
  have sub: "snd ` set (AList.update r i ms) \<subseteq> insert i (snd ` set ms)" for ms
  proof (induction ms)
    case (Cons x ms)
    then show ?case by (cases "fst x = r") (cases x, simp, blast)+
  qed simp
  assume "n \<in> snd ` set (AList.update r i (AList.delete a ns))"
  then have "n \<in> insert i (snd ` set (AList.delete a ns))" by (rule subsetD [OF sub])
  then have "n = i \<or> n \<in> snd ` set ns" by (auto simp: AList.delete_eq)
  then show False using assms by auto
qed

lemma rotate_until_touch:
  assumes "fs_procs s p = Read_Head w" "fs_wf s" "map_of (fs_names s) (active_name L) = Some i"
    "audit_rotate H L w (fs_dir s) = Inr d"
  shows "\<exists>t h. log_steps H L s t \<and> fs_procs t = (fs_procs s)(p := Mark w h) \<and> fs_written t = fs_written s \<and>
    map_of (fs_names t) (active_name L) = Some (fs_next s) \<and> fs_data t = (fs_data s)(fs_next s := []) \<and>
    with_data ((fs_data s)(fs_next s := marker_line H L w h)) (fs_names t) = d"
proof -
  let ?a = "active_name L" and ?r = "rotated_name L w" and ?n = "fs_next s"
  obtain h where h: "audit_head L (fs_dir s) = Inr h" using assms(4) by (auto simp: audit_rotate_def rbind_Inr_iff)
  let ?ns = "AList.update ?r i (AList.delete ?a (fs_names s))"
  let ?s1 = "proc_at p (Replace w h) s"
  let ?s2 = "proc_at p (Touch w h) (?s1\<lparr>fs_names := ?ns\<rparr>)"
  let ?s3 = "proc_at p (Mark w h) (?s2\<lparr>fs_names := AList.update ?a ?n ?ns, fs_data := (fs_data s)(?n := []), fs_next := ?n + 1\<rparr>)"
  have no: "map_of ?ns ?a = None" using rotated_name_not_active [of L w] by (simp add: update_conv delete_conv)
  have s1: "log_step H L s ?s1" by (rule read_head [OF assms(1) h])
  have s2: "log_step H L ?s1 ?s2" using rename_file [of ?s1 p w h L i H] assms(3) by simp
  have "log_step H L ?s2 (proc_at p (Mark w h) (snd (open_active L ?s2)))"
    by (rule touch_file [OF _ prod.collapse [symmetric]]) simp
  then have s3: "log_step H L ?s2 ?s3" using no by (simp add: open_absent)
  have "i < ?n" and lt: "\<forall>j \<in> snd ` set (fs_names s). j < ?n"
    using assms(2) map_of_SomeD [OF assms(3)] by (force simp: fs_wf_def)+
  then have "?n \<notin> snd ` set ?ns" by (rule fresh_inode)
  then have "with_data ((fs_data s)(?n := marker_line H L w h)) ?ns = with_data (fs_data s) ?ns" by (rule with_unused)
  then have "with_data ((fs_data s)(?n := marker_line H L w h)) (fs_names ?s3) =
      AList.update ?a (marker_line H L w h) (with_data (fs_data s) ?ns)"
    by (simp add: with_update [of _ ?a])
  also have "\<dots> = d"
    using assms(3,4) h by (simp add: audit_rotate_def Let_def with_update with_delete fs_dir_with marker_line_def)
  finally have "with_data ((fs_data s)(?n := marker_line H L w h)) (fs_names ?s3) = d" .
  moreover have "log_steps H L s ?s3" by (intro steps_more [OF _ s3] steps_more [OF _ s2] step_one [OF s1])
  ultimately show ?thesis by (intro exI [of _ ?s3] exI [of _ h]) (simp add: update_conv)
qed

lemma marker_step:
  assumes "fs_procs s p = Mark w h" "map_of (fs_names s) (active_name L) = Some i"
  shows "log_step H L s (proc_at p Idle (s\<lparr>fs_data := (fs_data s)(i := marker_line H L w h)\<rparr>))"
  by (rule write_marker [OF assms(1) open_present [OF assms(2)]])

lemma rotate_steps:
  assumes "fs_procs s p = Read_Head w" "fs_wf s" "map_of (fs_names s) (active_name L) = Some i"
    "audit_rotate H L w (fs_dir s) = Inr d"
  shows "\<exists>s'. log_steps H L s s' \<and> fs_dir s' = d \<and> fs_procs s' = (fs_procs s)(p := Idle) \<and> fs_written s' = fs_written s"
proof -
  obtain t h where t: "log_steps H L s t" "fs_procs t = (fs_procs s)(p := Mark w h)" "fs_written t = fs_written s"
      "map_of (fs_names t) (active_name L) = Some (fs_next s)" "fs_data t = (fs_data s)(fs_next s := [])"
      "with_data ((fs_data s)(fs_next s := marker_line H L w h)) (fs_names t) = d"
    using rotate_until_touch [OF assms] by blast
  let ?u = "proc_at p Idle (t\<lparr>fs_data := (fs_data t)(fs_next s := marker_line H L w h)\<rparr>)"
  have "log_step H L t ?u" using t(2,4) by (intro marker_step) simp_all
  then have "log_steps H L s ?u" by (rule steps_more [OF t(1)])
  then show ?thesis using t by (intro exI [of _ ?u]) (simp add: fs_dir_with)
qed

lemma dir_unique: "fs_wf s \<Longrightarrow> distinct (map snd (fs_names s))"
  by (simp add: fs_wf_def)

text \<open>The append of a process: what \<open>audit_write\<close> has in the active file before it may rotate.\<close>

lemma append_steps:
  assumes "fs_procs s p = Idle" "fs_wf s" "map_of (fs_names s) (active_name L) = Some i"
    "wf_args (wa_args a)" "appended H L a w (fs_data s i) = Inr (f, r)"
  defines "s' \<equiv> proc_at p (if al_rotate_bytes L \<le> int (length f) then Read_Head w else Idle)
    (s\<lparr>fs_data := (fs_data s)(i := f), fs_written := fs_written s @ [r]\<rparr>)"
  shows "log_steps H L s s'" "fs_dir s' = AList.update (active_name L) f (fs_dir s)"
proof -
  let ?s1 = "proc_at p (Waiting a w i) s"
  have "log_step H L s ?s1" by (rule open_file [OF assms(1,4) open_present [OF assms(3)]])
  moreover have "log_step H L ?s1 s'"
    using append_record [of ?s1 p a w i H L f r] assms(5) by (simp add: s'_def proc_at_def)
  ultimately show "log_steps H L s s'" by (rule steps_more [OF step_one])
  show "fs_dir s' = AList.update (active_name L) f (fs_dir s)"
    using with_write [OF dir_unique [OF assms(2)] assms(3)] by (simp add: s'_def fs_dir_with)
qed

text \<open>
  C24: When no other process comes in between, the system calls of one \<^verbatim>\<open>write\<close>, the rotation
  included, lead to exactly the directory of \<open>audit_write\<close>: the step relation refines the
  sequential model on which the other theorems about the log rest.
\<close>

theorem sequential_write:
  assumes "fs_procs s p = Idle" "fs_wf s" "map_of (fs_names s) (active_name L) = Some i"
    and "wf_args (wa_args a)" "audit_write H L a w (fs_dir s) = Inr (d, out, b)"
  shows "\<exists>s'. log_steps H L s s' \<and> fs_dir s' = d \<and> fs_procs s' = fs_procs s \<and>
    fs_written s' = fs_written s @ [sort_json (JObj b)]"
proof -
  let ?a = "active_name L"
  have d0: "map_of (fs_dir s) ?a = Some (fs_data s i)" by (simp add: fs_dir_with assms(3))
  obtain f where f: "appended H L a w (fs_data s i) = Inr (f, sort_json (JObj b))"
      "(if al_rotate_bytes L \<le> int (length f) then audit_rotate H L w (AList.update ?a f (fs_dir s))
        else Inr (AList.update ?a f (fs_dir s))) = Inr d"
    using assms(5) d0
    by (auto simp: audit_write_def appended_def Let_def rbind_Inr_iff simp del: sort_json.simps)
  let ?s = "proc_at p (if al_rotate_bytes L \<le> int (length f) then Read_Head w else Idle)
    (s\<lparr>fs_data := (fs_data s)(i := f), fs_written := fs_written s @ [sort_json (JObj b)]\<rparr>)"
  note app = append_steps [OF assms(1-4) f(1)]
  show ?thesis
  proof (cases "al_rotate_bytes L \<le> int (length f)")
    case False
    then show ?thesis using app f(2) assms(1) by (intro exI [of _ ?s]) (auto simp del: sort_json.simps)
  next
    case True
    have "fs_wf ?s" using assms(2) by (simp add: fs_wf_def)
    moreover have "audit_rotate H L w (fs_dir ?s) = Inr d" using f(2) True app(2) by (simp del: sort_json.simps)
    ultimately obtain s' where "log_steps H L ?s s'" "fs_dir s' = d" "fs_procs s' = (fs_procs ?s)(p := Idle)"
        "fs_written s' = fs_written ?s"
      using rotate_steps [of ?s p w L i H d] True assms(3) by (auto simp del: sort_json.simps)
    then show ?thesis using steps_join [OF app(1)] assms(1) by (intro exI [of _ s']) (auto simp del: sort_json.simps)
  qed
qed

text \<open>The log after \<^verbatim>\<open>AuditLog.__init__\<close> in an empty directory: one empty file.\<close>

definition fs_start :: "audit_log \<Rightarrow> log_fs" where
  "fs_start L = \<lparr>fs_names = [(active_name L, 0)], fs_data = (\<lambda>_. []), fs_next = 1,
     fs_procs = (\<lambda>_. Idle), fs_written = []\<rparr>"

lemma fs_start_simps [simp]:
  "fs_names (fs_start L) = [(active_name L, 0)]" "fs_procs (fs_start L) = (\<lambda>_. Idle)" "fs_written (fs_start L) = []" "fs_data (fs_start L) = (\<lambda>_. [])" "fs_next (fs_start L) = 1"
  "fs_dir (fs_start L) = [(active_name L, [])]" "fs_wf (fs_start L)"
  by (simp_all add: fs_start_def fs_dir_def fs_wf_def)

lemma chain_inv_start: "chain_inv H L [(active_name L, [])] [[]] GENESIS"
  by (simp add: chain_inv_def dir_holds_def chain_files_def rotated_files_def)

definition example_log :: "int \<Rightarrow> audit_log" where
  "example_log n = \<lparr>al_stem = ''audit'', al_suffix = ''.jsonl'', al_agent_id = ''agent'', al_hmac_key = ''k'',
     al_rotate_bytes = n, al_forward = False, al_anchor_every = 1\<rparr>"

lemma example_write:
  "\<exists>d out b. audit_write sum_hashes (example_log n) (fst (hd example_calls)) (snd (hd example_calls))
     [(active_name (example_log n), [])] = Inr (d, out, b)"
proof -
  have "wf_args (wa_args (fst (hd example_calls)))" by (simp add: example_calls_def wf_args_def)
  moreover have "rotates_later (example_log n) [(active_name (example_log n), [])] (snd (hd example_calls))"
    by (simp add: rotates_later_def rotated_files_def)
  ultimately show ?thesis using write_step [OF sum_hashes_hex chain_inv_start] by blast
qed

lemma sequential_write_witness:
  "\<exists>s' d out b. audit_write sum_hashes (example_log 600) (fst (hd example_calls)) (snd (hd example_calls))
     [(active_name (example_log 600), [])] = Inr (d, out, b) \<and>
   log_steps sum_hashes (example_log 600) (fs_start (example_log 600)) s' \<and> fs_dir s' = d"
proof -
  obtain d out b where "audit_write sum_hashes (example_log 600) (fst (hd example_calls)) (snd (hd example_calls))
     [(active_name (example_log 600), [])] = Inr (d, out, b)"
    using example_write by blast
  moreover have "wf_args (wa_args (fst (hd example_calls)))" by (simp add: example_calls_def wf_args_def)
  ultimately show ?thesis
    using sequential_write [of "fs_start (example_log 600)" 0 "example_log 600" 0 "fst (hd example_calls)"
        sum_hashes "snd (hd example_calls)" d out b] by auto
qed

section \<open>Any interleaving of appends\<close>

text \<open>
  As long as the active file was not renamed, every process is before its rename, the file holds
  the records written, and they chain.
\<close>

definition no_rename :: "audit_log \<Rightarrow> log_fs \<Rightarrow> bool" where
  "no_rename L s \<longleftrightarrow> fst ` set (fs_names s) \<subseteq> {active_name L}"

definition before_rename :: "proc \<Rightarrow> bool" where
  "before_rename c = (case c of Idle \<Rightarrow> True | Waiting a w i \<Rightarrow> i = 0 \<and> wf_args (wa_args a)
     | Read_Head w \<Rightarrow> True | Replace w h \<Rightarrow> True | _ \<Rightarrow> False)"

definition appending :: "hashes \<Rightarrow> audit_log \<Rightarrow> log_fs \<Rightarrow> bool" where
  "appending H L s \<longleftrightarrow> fs_names s = [(active_name L, 0)] \<and> (\<forall>p. before_rename (fs_procs s p)) \<and>
     (\<exists>h. chain_inv H L (fs_dir s) [fs_written s] h)"

lemma appended_sealed:
  assumes "hex_hashes H" "chain_inv H L d rss h" "map_of d (active_name L) = Some f" "wf_args (wa_args a)"
  shows "\<exists>g r h'. appended H L a w f = Inr (g, r) \<and>
    chain_inv H L (AList.update (active_name L) g d) (butlast rss @ [last rss @ [r]]) h' \<and> logs a r \<and>
    (wa_tool a \<noteq> ''audit_rotate'' \<longrightarrow> \<not> is_marker r)"
proof -
  obtain t i where t: "tail_record f = Inr t" "tail_hash t = Inr (JStr h)" "tail_seq t = Inr i"
    using inv_tail [OF assms(2,3)] by blast
  let ?r = "sort_json (JObj (written H L a w i h))"
  have "appended H L a w f = Inr (f @ utf8 (dumps spaced ?r) @ [nl], ?r)"
    using t by (simp add: appended_def Let_def written_def del: sort_json.simps)
  moreover have "chain_inv H L (AList.update (active_name L) (f @ utf8 (dumps spaced ?r) @ [nl]) d)
      (butlast rss @ [last rss @ [?r]]) (digest H (JObj (record_body L a w i (JStr h))))"
    using inv_append [OF assms(1,2) good_record_body [OF assms(4)] assms(3) styles(1,2)] by (simp only: written_def)
  ultimately show ?thesis using logs_written [OF assms(4)] not_marker_written [OF assms(4)] by blast
qed

lemma no_rename_open: "open_active L s = (i, s') \<Longrightarrow> no_rename L s' \<Longrightarrow> no_rename L s"
  by (cases "map_of (fs_names s) (active_name L)") (simp_all add: open_absent open_present no_rename_def dom_update, elim conjE, drule sym, simp add: dom_update)

lemma open_appending: "appending H L s \<Longrightarrow> open_active L s = (0, s)"
  by (simp add: appending_def open_present)

lemma appending_before: "appending H L s \<Longrightarrow> before_rename (fs_procs s p)"
  by (simp add: appending_def)

lemma appending_step:
  assumes "hex_hashes H" "log_step H L s t" "no_rename L s \<longrightarrow> appending H L s"
  shows "no_rename L t \<longrightarrow> appending H L t"
  using assms(2)
proof cases
  case (open_file p a i s' w)
  show ?thesis
  proof
    assume "no_rename L t"
    then have "no_rename L s'" using open_file by (simp add: no_rename_def)
    then have inv: "appending H L s" using assms(3) no_rename_open [OF open_file(4)] by blast
    then have "t = proc_at p (Waiting a w 0) s" using open_appending [OF inv] open_file by simp
    then show "appending H L t" using inv open_file(3) by (simp add: appending_def before_rename_def)
  qed
next
  case (append_record p a w i f r)
  show ?thesis
  proof
    assume "no_rename L t"
    then have inv: "appending H L s" using assms(3) append_record by (simp add: no_rename_def)
    then have i: "i = 0" "wf_args (wa_args a)" using append_record by (auto simp: appending_def before_rename_def dest: spec [of _ p])
    obtain h where h: "chain_inv H L (fs_dir s) [fs_written s] h" using inv by (auto simp: appending_def)
    have ns: "fs_names s = [(active_name L, 0)]" using inv by (simp add: appending_def)
    then have "map_of (fs_dir s) (active_name L) = Some (fs_data s 0)" by (simp add: fs_dir_with)
    then obtain h' where h': "chain_inv H L (AList.update (active_name L) f (fs_dir s)) [fs_written s @ [r]] h'"
      using appended_sealed [OF assms(1) h _ i(2), of _ w] append_record i(1) by fastforce
    have "AList.update (active_name L) f (fs_dir s) = fs_dir t"
      using append_record i(1) ns by (simp add: fs_dir_def)
    then show "appending H L t" using append_record inv h' by (auto simp: appending_def before_rename_def)
  qed
next
  case (read_head p w h)
  then show ?thesis using assms(3) by (auto simp: appending_def no_rename_def before_rename_def)
next
  case (rename_file p w h i)
  then have "rotated_name L w \<in> fst ` set (fs_names t)" by (simp add: dom_update [symmetric] dom_map_of_conv_image_fst [symmetric] update_conv')
  then show ?thesis using rotated_name_not_active [of L w] by (auto simp: no_rename_def)
next
  case (touch_file p w h i s')
  then have "\<not> appending H L s" using appending_before [of H L s p] by (auto simp: before_rename_def)
  then show ?thesis using assms(3) no_rename_open [of L s i s'] touch_file by (auto simp: no_rename_def)
next
  case (write_marker p w h i s')
  then have "\<not> appending H L s" using appending_before [of H L s p] by (auto simp: before_rename_def)
  then show ?thesis using assms(3) no_rename_open [of L s i s'] write_marker by (auto simp: no_rename_def)
qed

lemma appending_steps:
  assumes "hex_hashes H" "log_steps H L s t" "no_rename L s \<longrightarrow> appending H L s"
  shows "no_rename L t \<longrightarrow> appending H L t"
  using assms(2,3) appending_step [OF assms(1)] by (induction rule: log_steps.induct) blast+

lemma appending_start: "appending H L (fs_start L)"
  using chain_inv_start [of H L] by (auto simp: appending_def before_rename_def)

lemma appending_verify:
  assumes "appending H L s"
  shows "\<exists>h m. verify H L (al_hmac_key L) (fs_dir s) = Inr \<lparr>vr_ok = True, vr_records = length (fs_written s),
      vr_files = 1, vr_head = h, vr_message = m\<rparr> \<and> dir_holds L (fs_dir s) [fs_written s]"
proof -
  obtain h where h: "chain_inv H L (fs_dir s) [fs_written s] h" using assms by (auto simp: appending_def)
  have "fs_dir s = [(active_name L, fs_data s 0)]" using assms by (simp add: appending_def fs_dir_def)
  then have "length (chain_files L (fs_dir s)) = 1" by (simp add: chain_files_def rotated_files_def)
  then show ?thesis using chain_inv_verify [OF h] h by (auto simp: chain_inv_def)
qed

text \<open>
  C25: However the appends of several processes interleave, as long as no process has renamed the
  active file the log verifies and its records are exactly those of the writes that appended,
  in the order in which they got the lock: none is lost, none is there twice.
\<close>

theorem appends_verify:
  assumes "hex_hashes H" "log_steps H L (fs_start L) s" "fst ` set (fs_names s) \<subseteq> {active_name L}"
  shows "\<exists>h m. verify H L (al_hmac_key L) (fs_dir s) = Inr \<lparr>vr_ok = True, vr_records = length (fs_written s),
      vr_files = 1, vr_head = h, vr_message = m\<rparr> \<and> dir_holds L (fs_dir s) [fs_written s]"
proof -
  have "appending H L s"
    using appending_steps [OF assms(1,2)] appending_start assms(3) by (simp add: no_rename_def)
  then show ?thesis by (rule appending_verify)
qed

text \<open>A process can always open the file, and one that waits gets to append.\<close>

lemma enter_step:
  "appending H L s \<Longrightarrow> fs_procs s p = Idle \<Longrightarrow> wf_args (wa_args a) \<Longrightarrow> log_step H L s (proc_at p (Waiting a w 0) s)"
  using open_file [OF _ _ open_appending] by blast

lemma leave_step:
  assumes "hex_hashes H" "appending H L s" "fs_procs s p = Waiting a w 0"
  shows "\<exists>t r c. log_step H L s t \<and> fs_written t = fs_written s @ [r] \<and> fs_names t = fs_names s \<and>
    fs_procs t = (fs_procs s)(p := c) \<and> logs a r"
proof -
  have a: "wf_args (wa_args a)" using appending_before [OF assms(2), of p] assms(3) by (simp add: before_rename_def)
  obtain h where h: "chain_inv H L (fs_dir s) [fs_written s] h" using assms(2) by (auto simp: appending_def)
  have "map_of (fs_dir s) (active_name L) = Some (fs_data s 0)" using assms(2) by (simp add: appending_def fs_dir_with)
  then obtain f r where "appended H L a w (fs_data s 0) = Inr (f, r)" "logs a r"
    using appended_sealed [OF assms(1) h _ a] by blast
  then show ?thesis using append_record [OF assms(3)] by fastforce
qed

lemma appends_verify_witness:
  "\<exists>s h m. log_steps sum_hashes (example_log 600) (fs_start (example_log 600)) s \<and>
     verify sum_hashes (example_log 600) (al_hmac_key (example_log 600)) (fs_dir s) =
       Inr \<lparr>vr_ok = True, vr_records = 2, vr_files = 1, vr_head = h, vr_message = m\<rparr>"
proof -
  let ?H = sum_hashes and ?L = "example_log 600"
  let ?a = "fst (hd example_calls)" and ?w = "snd (hd example_calls)"
  have wf: "wf_args (wa_args ?a)" by (simp add: example_calls_def wf_args_def)
  let ?s1 = "proc_at 0 (Waiting ?a ?w 0) (fs_start ?L)"
  let ?s2 = "proc_at 1 (Waiting ?a ?w 0) ?s1"
  have s1: "log_step ?H ?L (fs_start ?L) ?s1" by (rule enter_step [OF appending_start _ wf]) simp
  then have i1: "appending ?H ?L ?s1"
    using appending_step [OF sum_hashes_hex s1] appending_start by (simp add: no_rename_def)
  have s2: "log_step ?H ?L ?s1 ?s2" by (rule enter_step [OF i1 _ wf]) simp
  then have i2: "appending ?H ?L ?s2"
    using appending_step [OF sum_hashes_hex s2] i1 by (simp add: no_rename_def)
  obtain s3 r3 c3 where s3: "log_step ?H ?L ?s2 s3" "fs_written s3 = [r3]" "fs_names s3 = fs_names ?s2"
      "fs_procs s3 = (fs_procs ?s2)(1 := c3)"
    using leave_step [OF sum_hashes_hex i2, of 1 ?a ?w] by auto
  then have i3: "appending ?H ?L s3"
    using appending_step [OF sum_hashes_hex s3(1)] i2 by (simp add: no_rename_def)
  obtain s4 r4 where s4: "log_step ?H ?L s3 s4" "fs_written s4 = [r3, r4]" "fs_names s4 = fs_names s3"
    using leave_step [OF sum_hashes_hex i3, of 0 ?a ?w] s3 by auto
  have "log_steps ?H ?L (fs_start ?L) s4"
    by (intro steps_more [OF _ s4(1)] steps_more [OF _ s3(1)] steps_more [OF _ s2] step_one [OF s1])
  then show ?thesis using appends_verify [OF sum_hashes_hex, of ?L s4] s3(3) s4(2,3) by auto
qed

section \<open>A record lost in a rotation\<close>

text \<open>
  The lock is released before \<^verbatim>\<open>_rotate\<close>, and the marker is written with \<^verbatim>\<open>write_text\<close>, which
  truncates. A process that opens the new file between the touch and the marker appends a record
  that the marker overwrites.
\<close>

lemma race_steps:
  assumes "fs_procs s p = Idle" "fs_procs s q = Idle" "p \<noteq> q" "fs_wf s"
    and "map_of (fs_names s) (active_name L) = Some i" "wf_args (wa_args a)" "wf_args (wa_args b)"
    and "appended H L a wa (fs_data s i) = Inr (f, ra)" "al_rotate_bytes L \<le> int (length f)"
    and "audit_rotate H L wa (AList.update (active_name L) f (fs_dir s)) = Inr d"
    and "appended H L b wb [] = Inr (g, rb)" "int (length g) < al_rotate_bytes L"
  shows "\<exists>s'. log_steps H L s s' \<and> fs_procs s' = fs_procs s \<and> fs_written s' = fs_written s @ [ra, rb] \<and> fs_dir s' = d"
proof -
  let ?s = "proc_at p (Read_Head wa) (s\<lparr>fs_data := (fs_data s)(i := f), fs_written := fs_written s @ [ra]\<rparr>)"
  have s: "log_steps H L s ?s" "fs_dir ?s = AList.update (active_name L) f (fs_dir s)"
    using append_steps [OF assms(1,4,5,6,8)] assms(9) by simp_all
  have "fs_wf ?s" using assms(4) by (simp add: fs_wf_def)
  then obtain t h where t: "log_steps H L ?s t" "fs_procs t = (fs_procs ?s)(p := Mark wa h)"
      "fs_written t = fs_written ?s" "map_of (fs_names t) (active_name L) = Some (fs_next ?s)"
      "fs_data t = (fs_data ?s)(fs_next ?s := [])"
      "with_data ((fs_data ?s)(fs_next ?s := marker_line H L wa h)) (fs_names t) = d"
    using rotate_until_touch [of ?s p wa L i H d] assms(5,10) s(2) by auto
  let ?n = "fs_next ?s"
  let ?t1 = "proc_at q (Waiting b wb ?n) t"
  let ?t2 = "proc_at q Idle (?t1\<lparr>fs_data := (fs_data t)(?n := g), fs_written := fs_written t @ [rb]\<rparr>)"
  let ?t3 = "proc_at p Idle (?t2\<lparr>fs_data := (fs_data ?t2)(?n := marker_line H L wa h)\<rparr>)"
  have t1: "log_step H L t ?t1"
    using open_file [OF _ assms(7) open_present [OF t(4)], of q H wb] t(2) assms(2,3) by simp
  have t2: "log_step H L ?t1 ?t2"
    using append_record [of ?t1 q b wb ?n H L g rb] t(5) assms(11,12) by simp
  have t3: "log_step H L ?t2 ?t3" using t(2,4) assms(3) by (intro marker_step) simp_all
  have "log_steps H L s ?t3"
    by (intro steps_more [OF _ t3] steps_more [OF _ t2] steps_more [OF _ t1] steps_join [OF s(1) t(1)])
  moreover have "fs_procs ?t3 = fs_procs s" using t(2) assms(1-3) by auto
  moreover have "fs_dir ?t3 = d" using t(5,6) by (simp add: fs_dir_with)
  ultimately show ?thesis using t(3) by (intro exI [of _ ?t3]) simp
qed

text \<open>
  C26: When a write that rotates meets a write of another process between its touch and its
  marker, both writes return and append, but afterwards the log holds only the record of the
  first: the other record is in no file. The log still verifies, so nobody notices.
\<close>

theorem rotation_loses_record:
  assumes "hex_hashes H" "chain_inv H L (fs_dir s) rss h" "fs_wf s" "map_of (fs_names s) (active_name L) = Some i"
    and "fs_procs s p = Idle" "fs_procs s q = Idle" "p \<noteq> q"
    and "good_call a" "good_call b" "rotates_later L (fs_dir s) wa"
    and "appended H L a wa (fs_data s i) = Inr (f, ra)" "al_rotate_bytes L \<le> int (length f)"
    and "appended H L b wb [] = Inr (g, rb)" "int (length g) < al_rotate_bytes L"
  shows "\<exists>s' rss' e v. log_steps H L s s' \<and> fs_procs s' = fs_procs s \<and> fs_written s' = fs_written s @ [ra, rb] \<and>
    dir_holds L (fs_dir s') rss' \<and> entries (concat rss') = entries (concat rss) @ [e] \<and> logs a e \<and>
    verify H L (al_hmac_key L) (fs_dir s') = Inr v \<and> vr_ok v"
proof -
  have wf: "wf_args (wa_args a)" "wf_args (wa_args b)" using assms(8,9) by (simp_all add: good_call_def)
  have f: "map_of (fs_dir s) (active_name L) = Some (fs_data s i)" by (simp add: fs_dir_with assms(4))
  obtain d out body rss' h' e where w: "audit_write H L a wa (fs_dir s) = Inr (d, out, body)"
      "chain_inv H L d rss' h'" "entries (concat rss') = entries (concat rss) @ [e]" "logs a e"
    using write_logged [OF assms(1,2,8,10)] by blast
  have "audit_rotate H L wa (AList.update (active_name L) f (fs_dir s)) = Inr d"
    using w(1) f assms(11,12)
    by (auto simp: audit_write_def appended_def Let_def rbind_Inr_iff simp del: sort_json.simps)
  then obtain s' where "log_steps H L s s'" "fs_procs s' = fs_procs s" "fs_written s' = fs_written s @ [ra, rb]"
      "fs_dir s' = d"
    using race_steps [OF assms(5-7,3,4) wf assms(11,12) _ assms(13,14)] by blast
  moreover obtain v where "verify H L (al_hmac_key L) d = Inr v" "vr_ok v"
    using chain_inv_verify [OF w(2)] by fastforce
  moreover have "dir_holds L d rss'" using w(2) by (simp add: chain_inv_def)
  ultimately show ?thesis using w(3,4) by blast
qed

text \<open>A limit one byte above the first line: the second write rotates, and a fresh line does not.\<close>

lemma appended_limit: "appended H (example_log n) a w f = appended H (example_log m) a w f"
  by (simp add: appended_def example_log_def record_body_def)

lemma appended_longer: "appended H L a w f = Inr (g, r) \<Longrightarrow> length f < length g"
  by (auto simp: appended_def Let_def rbind_Inr_iff)

lemma rotation_loses_record_witness:
  "\<exists>n s s' rss' ra rb e v. log_steps sum_hashes (example_log n) (fs_start (example_log n)) s \<and>
     log_steps sum_hashes (example_log n) s s' \<and> fs_written s' = fs_written s @ [ra, rb] \<and>
     dir_holds (example_log n) (fs_dir s') rss' \<and> length (entries (concat rss')) = 2 \<and>
     verify sum_hashes (example_log n) ''k'' (fs_dir s') = Inr v \<and> vr_ok v"
proof -
  let ?H = sum_hashes and ?a = "fst (hd example_calls)" and ?w = "snd (hd example_calls)"
  have good: "good_call ?a" using example_calls_good by (simp add: example_calls_def)
  then have wf: "wf_args (wa_args ?a)" by (simp add: good_call_def)
  have start: "map_of (fs_dir (fs_start L)) (active_name L) = Some []" for L by simp
  obtain g r where g: "appended ?H (example_log 0) ?a ?w [] = Inr (g, r)"
    using appended_sealed [OF sum_hashes_hex chain_inv_start, of "example_log 0" "[]" ?a ?w] wf by auto
  define n where "n = int (length g) + 1"
  let ?L = "example_log n"
  have g': "appended ?H ?L ?a ?w [] = Inr (g, r)" "int (length g) < al_rotate_bytes ?L"
    using g appended_limit [of ?H n ?a ?w "[]" 0] by (simp_all add: n_def example_log_def)
  let ?s = "proc_at 0 Idle ((fs_start ?L)\<lparr>fs_data := (fs_data (fs_start ?L))(0 := g), fs_written := [r]\<rparr>)"
  have s: "log_steps ?H ?L (fs_start ?L) ?s" "fs_dir ?s = [(active_name ?L, g)]"
    using append_steps [of "fs_start ?L" 0 ?L 0 ?a ?H ?w g r] wf g' by simp_all
  obtain h where h: "chain_inv ?H ?L (fs_dir ?s) [[r]] h" "logs ?a r" "\<not> is_marker r"
    using appended_sealed [OF sum_hashes_hex chain_inv_start, of ?L "[]" ?a ?w] wf g' s(2) good
    by (auto simp: good_call_def)
  obtain f ra where f: "appended ?H ?L ?a ?w g = Inr (f, ra)"
    using appended_sealed [OF sum_hashes_hex h(1), of g ?a ?w] wf s(2) by auto
  have len: "al_rotate_bytes ?L \<le> int (length f)" using appended_longer [OF f] by (simp add: n_def example_log_def)
  have later: "rotates_later ?L (fs_dir ?s) ?w" unfolding s(2) by (simp add: rotates_later_def rotated_files_def)
  have "\<exists>s' rss' e v. log_steps ?H ?L ?s s' \<and> fs_procs s' = fs_procs ?s \<and> fs_written s' = fs_written ?s @ [ra, r] \<and>
    dir_holds ?L (fs_dir s') rss' \<and> entries (concat rss') = entries (concat [[r]]) @ [e] \<and> logs ?a e \<and>
    verify ?H ?L (al_hmac_key ?L) (fs_dir s') = Inr v \<and> vr_ok v"
    by (rule rotation_loses_record [OF sum_hashes_hex h(1) _ _ _ _ _ good good later _ len g', of 0 0 1 ra])
      (simp_all add: f fs_wf_def)
  moreover have "al_hmac_key ?L = ''k''" by (simp add: example_log_def)
  ultimately show ?thesis using s(1) h(3) by (force simp: entries_def)
qed

end
