(* ===== verification/Md_Probe.thy ===== *)
theory Md_Probe
  imports Prelude
begin

text \<open>
  The probing order of the hash table of multidict (\<^verbatim>\<open>_HtKeys\<close> in \<^verbatim>\<open>_multidict_py.py\<close>): the table
  sizes, and the sequence of slots that \<^verbatim>\<open>find_empty_slot\<close>, \<^verbatim>\<open>iter_hash\<close>, \<^verbatim>\<open>del_idx\<close> and
  \<^verbatim>\<open>restore_hash\<close> all follow. None of these loops counts its rounds: they end because the sequence
  comes to every slot (\<open>probe_reaches\<close>), after the 13 rounds that use the hash up and at most one
  more for each slot, and because a slot is always free.
\<close>

unbundle bit_operations_syntax

section \<open>Sizes\<close>

text \<open>\<^verbatim>\<open>int.bit_length\<close>\<close>

fun bit_length :: "nat \<Rightarrow> nat" where
  "bit_length n = (if n = 0 then 0 else Suc (bit_length (n div 2)))"

declare bit_length.simps [simp del]

definition estimate_log2_keysize :: "nat \<Rightarrow> nat" where
  "estimate_log2_keysize n = bit_length (((n * 3 + 1) div 2) OR 7)"

text \<open>The number of entries for which a table of \<open>2 ^ k\<close> slots is made.\<close>

definition usable_of :: "nat \<Rightarrow> nat" where
  "usable_of k = (2 ^ k * 2) div 3"

lemma bit_length_bound: "n < 2 ^ bit_length n"
proof (induction n rule: bit_length.induct)
  case (1 n)
  then show ?case by (cases "n = 0") (simp_all add: bit_length.simps [of n])
qed

lemma bit_length_mono: "m \<le> n \<Longrightarrow> bit_length m \<le> bit_length n"
proof (induction n arbitrary: m rule: bit_length.induct)
  case (1 n)
  show ?case
  proof (cases "m = 0")
    case False
    then have "n \<noteq> 0" "m div 2 \<le> n div 2" using 1(2) by (auto intro: div_le_mono)
    then show ?thesis using 1(1) False by (simp add: bit_length.simps [of m] bit_length.simps [of n])
  qed (simp add: bit_length.simps)
qed

lemma or_ge: "(m :: nat) \<le> m OR k" "k \<le> (m :: nat) OR k"
proof -
  have "int m \<le> int (m OR k)" "int k \<le> int (m OR k)"
    using or_greater_eq [of "int k" "int m"] or_greater_eq [of "int m" "int k"] by (simp_all add: of_nat_or_eq or.commute)
  then show "m \<le> m OR k" "k \<le> m OR k" by simp_all
qed

lemma usable_less: "usable_of k < 2 ^ k"
  unfolding usable_of_def by (rule less_mult_imp_div_less) simp

lemma estimate_fits: "n \<le> usable_of (estimate_log2_keysize n)"
proof -
  have "(n * 3 + 1) div 2 < 2 ^ estimate_log2_keysize n"
    unfolding estimate_log2_keysize_def using or_ge(1) bit_length_bound le_less_trans by blast
  then show ?thesis by (simp add: usable_of_def)
qed

lemma bit_length_7: "bit_length 7 = 3"
  by (simp add: bit_length.simps)

lemma log2_least: "3 \<le> bit_length (n OR 7)"
  using bit_length_mono [OF or_ge(2), of 7 n] by (simp add: bit_length_7)

lemma estimate_least: "3 \<le> estimate_log2_keysize n"
  unfolding estimate_log2_keysize_def by (rule log2_least)

text \<open>The size to which a full table is resized leaves room for one more entry.\<close>

lemma resize_fits: "n < usable_of (bit_length (n * 3 OR 7))"
proof -
  have "n * 3 OR 7 < 2 ^ bit_length (n * 3 OR 7)" by (rule bit_length_bound)
  then have "n * 3 < 2 ^ bit_length (n * 3 OR 7)" "(7 :: nat) < 2 ^ bit_length (n * 3 OR 7)"
    by (rule le_less_trans [OF or_ge(1)], rule le_less_trans [OF or_ge(2)])
  then show ?thesis by (simp add: usable_of_def)
qed

section \<open>The sequence of slots\<close>

text \<open>\<^verbatim>\<open>i = hash_ & mask\<close>, \<^verbatim>\<open>perturb = hash_ & sys.maxsize\<close>, and one round of the loops.\<close>

definition probe_start :: "nat \<Rightarrow> int \<Rightarrow> nat \<times> nat" where
  "probe_start k h = (nat (h AND mask k), nat (h AND mask 63))"

fun probe_next :: "nat \<Rightarrow> nat \<times> nat \<Rightarrow> nat \<times> nat" where
  "probe_next k (i, perturb) =
     (let perturb' = drop_bit 5 perturb in ((i * 5 + perturb' + 1) AND mask k, perturb'))"

definition probe :: "nat \<Rightarrow> int \<Rightarrow> nat \<Rightarrow> nat" where
  "probe k h n = fst ((probe_next k ^^ n) (probe_start k h))"

lemma probe_less: "probe k h n < 2 ^ k"
proof -
  have "fst (probe_next k ip) < 2 ^ k" for ip
    by (cases ip) (simp add: Let_def flip: take_bit_eq_mask)
  moreover have "fst (probe_start k h) < 2 ^ k"
    by (simp add: probe_start_def nat_less_iff flip: take_bit_eq_mask)
  ultimately show ?thesis by (cases n) (simp_all add: probe_def)
qed

lemma perturb_after: "snd ((probe_next k ^^ n) (i, p)) = p div 32 ^ n"
proof (induction n)
  case (Suc n)
  obtain j q where "(probe_next k ^^ n) (i, p) = (j, q)" by (cases "(probe_next k ^^ n) (i, p)")
  then show ?case using Suc by (simp add: Let_def drop_bit_eq_div div_mult2_eq [symmetric] mult.commute)
qed simp

text \<open>With the perturbation used up the slots follow \<open>i \<mapsto> 5 i + 1\<close>.\<close>

definition lcg :: "nat \<Rightarrow> nat" where
  "lcg i = i * 5 + 1"

lemma probe_lcg: "(probe_next k ^^ m) (i mod 2 ^ k, 0) = ((lcg ^^ m) i mod 2 ^ k, 0)"
proof (induction m)
  case (Suc m)
  have "(x mod 2 ^ k * 5 + 1) mod 2 ^ k = (x * 5 + 1) mod 2 ^ k" for x :: nat
    by (metis mod_add_left_eq mod_mult_left_eq)
  then show ?case using Suc by (simp add: lcg_def Let_def take_bit_eq_mod flip: take_bit_eq_mask)
qed simp

lemma lcg_pow: "4 * (lcg ^^ m) i + 1 = 5 ^ m * (4 * i + 1)"
  by (induction m) (simp_all add: lcg_def)

lemma five_pow: "\<exists>c :: nat. odd c \<and> 5 ^ (2 ^ k) = 1 + 2 ^ (k + 2) * c"
proof (induction k)
  case (Suc k)
  then obtain c :: nat where c: "odd c" "5 ^ (2 ^ k) = 1 + 2 ^ (k + 2) * c" by blast
  have "(5 :: nat) ^ (2 ^ Suc k) = (1 + 2 ^ (k + 2) * c)\<^sup>2"
    unfolding c(2) [symmetric] by (simp add: power_mult [symmetric] power2_eq_square power_add [symmetric])
  also have "\<dots> = 1 + 2 ^ (Suc k + 2) * (c + 2 ^ (k + 1) * c\<^sup>2)" by (simp add: power2_eq_square algebra_simps)
  finally have "(5 :: nat) ^ (2 ^ Suc k) = 1 + 2 ^ (Suc k + 2) * (c + 2 ^ (k + 1) * c\<^sup>2)" .
  moreover have "odd (c + 2 ^ (k + 1) * c\<^sup>2)" using c(1) by simp
  ultimately show ?case by blast
qed (auto intro: exI [of _ 1])

text \<open>After \<open>2 ^ k\<close> rounds the bit \<open>k\<close> has changed and the bits below are as before.\<close>

lemma lcg_half: "(lcg ^^ (2 ^ k)) i mod 2 ^ Suc k = (i + 2 ^ k) mod 2 ^ Suc k"
proof -
  obtain c :: nat where c: "odd c" "5 ^ (2 ^ k) = 1 + 2 ^ (k + 2) * c" using five_pow by blast
  have "4 * (lcg ^^ (2 ^ k)) i + 1 = (1 + 2 ^ (k + 2) * c) * (4 * i + 1)" using lcg_pow [of "2 ^ k" i] c(2) by simp
  then have "(lcg ^^ (2 ^ k)) i = i + 2 ^ k * (c * (4 * i + 1))" by (simp add: algebra_simps)
  moreover obtain e where "c * (4 * i + 1) = 2 * e + 1" using c(1) by (elim oddE [of "c * (4 * i + 1)", rotated]) simp
  ultimately have "(lcg ^^ (2 ^ k)) i = i + 2 ^ k * (2 * e + 1)" by (simp only:)
  then have "(lcg ^^ (2 ^ k)) i = i + 2 ^ k + 2 ^ Suc k * e" by (simp add: algebra_simps)
  then show ?thesis by simp
qed

lemma lcg_mod: "(lcg ^^ m) (i mod 2 ^ k) mod 2 ^ k = (lcg ^^ m) i mod 2 ^ k"
  using probe_lcg [of m k i] probe_lcg [of m k "i mod 2 ^ k"] by simp

lemma half_mod:
  fixes x s :: nat
  assumes "x mod 2 ^ k = s mod 2 ^ k" "s < 2 ^ Suc k"
  shows "x mod 2 ^ Suc k = s \<or> (x + 2 ^ k) mod 2 ^ Suc k = s"
proof -
  define y where "y = x mod 2 ^ Suc k"
  have y: "y < 2 ^ Suc k" "y mod 2 ^ k = s mod 2 ^ k" "(x + 2 ^ k) mod 2 ^ Suc k = (y + 2 ^ k) mod 2 ^ Suc k"
    using assms(1) by (simp_all add: y_def mod_mod_cancel mod_simps)
  have split: "z = z mod 2 ^ k \<or> z = z mod 2 ^ k + 2 ^ k" if "z < 2 ^ Suc k" for z :: nat
  proof (cases "z < 2 ^ k")
    case False
    then have "z mod 2 ^ k = (z - 2 ^ k) mod 2 ^ k" by (simp add: le_mod_geq)
    also have "\<dots> = z - 2 ^ k" using that by (intro mod_less) simp
    finally show ?thesis using False by simp
  qed simp
  define r where "r = s mod 2 ^ k"
  have "y = r \<or> y = r + 2 ^ k" "s = r \<or> s = r + 2 ^ k" and r: "r < 2 ^ k"
    using split [OF y(1)] split [OF assms(2)] y(2) unfolding r_def by (metis, metis, simp)
  moreover have "(r + 2 ^ k + 2 ^ k) mod 2 ^ Suc k = r"
    using mod_add_self2 [of r "2 ^ Suc k"] r by (simp add: mult_2 add.assoc)
  ultimately have "y = s \<or> (y + 2 ^ k) mod 2 ^ Suc k = s" using r by auto
  then show ?thesis using y(3) by (simp add: y_def)
qed

lemma lcg_covers: "s < 2 ^ k \<Longrightarrow> \<exists>m < 2 ^ k. (lcg ^^ m) i mod 2 ^ k = s"
proof (induction k arbitrary: s)
  case (Suc k)
  obtain m where m: "m < 2 ^ k" "(lcg ^^ m) i mod 2 ^ k = s mod 2 ^ k" using Suc.IH [of "s mod 2 ^ k"] by auto
  let ?x = "(lcg ^^ m) i"
  have "?x mod 2 ^ Suc k = s \<or> (?x + 2 ^ k) mod 2 ^ Suc k = s"
    using m(2) Suc.prems by (rule half_mod)
  then show ?case
  proof
    assume "(?x + 2 ^ k) mod 2 ^ Suc k = s"
    then have "(lcg ^^ (2 ^ k + m)) i mod 2 ^ Suc k = s" using lcg_half [of k ?x] by (simp add: funpow_add)
    then show ?thesis using m(1) by (intro exI [of _ "2 ^ k + m"]) simp
  qed (use m(1) in \<open>auto intro!: exI [of _ m]\<close>)
qed simp

lemma probe_hits:
  assumes "s < 2 ^ k"
  shows "\<exists>n < 13 + 2 ^ k. probe k h n = s"
proof -
  obtain i p where st: "(probe_next k ^^ 13) (probe_start k h) = (i, p)" by (cases "(probe_next k ^^ 13) (probe_start k h)")
  have "snd (probe_start k h) < 2 ^ 63"
    using take_bit_int_less_exp [of 63 h] by (simp add: probe_start_def nat_less_iff flip: take_bit_eq_mask)
  then have "p = 0" using perturb_after [of 13 k "fst (probe_start k h)" "snd (probe_start k h)"] st by simp
  moreover have "i < 2 ^ k" using probe_less [of k h 13] st by (simp add: probe_def)
  ultimately have "probe k h (m + 13) = (lcg ^^ m) i mod 2 ^ k" for m
    using st probe_lcg [of m k i] by (simp only: probe_def funpow_add comp_def) simp
  moreover obtain m where "m < 2 ^ k" "(lcg ^^ m) i mod 2 ^ k = s" using lcg_covers [OF assms] by blast
  ultimately show ?thesis by (intro exI [of _ "m + 13"]) simp
qed

text \<open>
  C28: for every hash and every size of the table the loops reach every slot within \<open>13 + 2 ^ k\<close>
  rounds, although the perturbation makes the first rounds irregular: so a loop that looks for a
  free slot ends as soon as the table has one.
\<close>

theorem probe_reaches: "s < 2 ^ k \<Longrightarrow> \<exists>n < 13 + 2 ^ k. probe k h n = s"
  by (rule probe_hits)

lemma probe_reaches_witness: "\<exists>n. n < 21 \<and> probe 3 (- 7) n = 5"
  using probe_reaches [of 5 3 "- 7"] by auto

end
