(* ===== verification/Md_Table.thy ===== *)
theory Md_Table
  imports Md_Probe
begin

text \<open>
  The hash table of multidict: \<^verbatim>\<open>_Entry\<close> and \<^verbatim>\<open>_HtKeys\<close> of \<^verbatim>\<open>_multidict_py.py\<close>. A table is an array
  of slots, each free (\<open>-1\<close>), deleted (\<open>-2\<close>) or the index of an entry, and the list of entries in
  the order of insertion, with \<^verbatim>\<open>None\<close> for one that was deleted.

  The invariant \<open>placed\<close> says that walking the probing sequence of a hash up to the first free
  slot meets exactly the live entries with that hash, in the order of insertion. The lemmas of
  the last sections show that inserting, deleting and reindexing keep it.
\<close>

section \<open>Entries and tables\<close>

text \<open>
  A Python value is an \<open>option\<close>: \<open>None\<close> is \<^verbatim>\<open>None\<close>. During \<^verbatim>\<open>update\<close> an entry that is to go has the
  key \<^verbatim>\<open>None\<close>; during several operations an entry that was handled has the hash \<open>-1\<close>.
\<close>

record 'v mentry =
  me_hash :: int
  me_identity :: string
  me_key :: "string option"
  me_value :: "'v option"

record 'v ht =
  ht_log2 :: nat
  ht_usable :: int
  ht_indices :: "int list"
  ht_entries :: "'v mentry option list"

definition ht_new :: "nat \<Rightarrow> 'v mentry option list \<Rightarrow> 'v ht" where
  "ht_new k es = \<lparr>ht_log2 = k, ht_usable = int ((2 ^ k * 2) div 3), ht_indices = replicate (2 ^ k) (- 1), ht_entries = es\<rparr>"

definition iter_entries :: "'v ht \<Rightarrow> 'v mentry list" where
  "iter_entries t = map the (filter (\<lambda>e. e \<noteq> None) (ht_entries t))"

definition upd_entry :: "nat \<Rightarrow> ('v mentry \<Rightarrow> 'v mentry) \<Rightarrow> 'v ht \<Rightarrow> 'v ht" where
  "upd_entry j f t = t\<lparr>ht_entries := (ht_entries t)[j := map_option f (ht_entries t ! j)]\<rparr>"

section \<open>The loops\<close>

text \<open>\<^verbatim>\<open>find_empty_slot\<close>; \<open>None\<close> stands for a loop that does not end.\<close>

partial_function (option) empty_slot :: "nat \<Rightarrow> int list \<Rightarrow> nat \<times> nat \<Rightarrow> nat option" where
  "empty_slot k ixs ip =
     (if ixs ! fst ip = - 1 then Some (fst ip) else empty_slot k ixs (probe_next k ip))"

definition find_empty_slot :: "'v ht \<Rightarrow> int \<Rightarrow> nat option" where
  "find_empty_slot t h = empty_slot (ht_log2 t) (ht_indices t) (probe_start (ht_log2 t) h)"

text \<open>
  The \<^verbatim>\<open>while\<close> loop that \<^verbatim>\<open>iter_hash\<close> and \<^verbatim>\<open>restore_hash\<close> share: up to a free slot, past deleted
  ones, with the body applied to the entries. \<open>tb\<close> finds the table in the state of the loop, and
  the body goes on (\<open>Inr\<close>) or breaks (\<open>Inl\<close>). The result is the state and the exception, if any.
\<close>

partial_function (option) probe_loop ::
    "('s \<Rightarrow> 'v ht) \<Rightarrow> (nat \<Rightarrow> nat \<Rightarrow> 'v mentry \<Rightarrow> 's \<Rightarrow> 's + 's) \<Rightarrow> nat \<Rightarrow> nat \<times> nat \<Rightarrow> 's \<Rightarrow> ('s \<times> exc option) option"
  where
  "probe_loop tb body k ip s =
     (let ix = ht_indices (tb s) ! fst ip
      in if ix = - 1 then Some (s, None)
         else if ix = - 2 then probe_loop tb body k (probe_next k ip) s
         else (case ht_entries (tb s) ! nat ix of
             None \<Rightarrow> Some (s, Some AttributeError)
           | Some e \<Rightarrow>
               (case body (fst ip) (nat ix) e s of
                  Inl s' \<Rightarrow> Some (s', None)
                | Inr s' \<Rightarrow> probe_loop tb body k (probe_next k ip) s')))"

text \<open>\<^verbatim>\<open>iter_hash\<close>, with the body of the \<^verbatim>\<open>for\<close> loop that consumes it.\<close>

definition iter_hash ::
    "('s \<Rightarrow> 'v ht) \<Rightarrow> (nat \<Rightarrow> nat \<Rightarrow> 'v mentry \<Rightarrow> 's \<Rightarrow> 's + 's) \<Rightarrow> int \<Rightarrow> 's \<Rightarrow> ('s \<times> exc option) option" where
  "iter_hash tb body h s =
     probe_loop tb (\<lambda>i j e s. if me_hash e = h then body i j e s else Inr s)
       (ht_log2 (tb s)) (probe_start (ht_log2 (tb s)) h) s"

definition restore_hash :: "int \<Rightarrow> 'v ht \<Rightarrow> ('v ht \<times> exc option) option" where
  "restore_hash h t =
     probe_loop (\<lambda>t. t) (\<lambda>i j e t. Inr (if me_hash e = - 1 then upd_entry j (\<lambda>e. e\<lparr>me_hash := h\<rparr>) t else t))
       (ht_log2 t) (probe_start (ht_log2 t) h) t"

text \<open>\<^verbatim>\<open>del_idx\<close>\<close>

partial_function (option) find_idx :: "nat \<Rightarrow> int list \<Rightarrow> int \<Rightarrow> nat \<times> nat \<Rightarrow> nat option" where
  "find_idx k ixs idx ip =
     (if ixs ! fst ip = idx then Some (fst ip) else find_idx k ixs idx (probe_next k ip))"

definition del_idx :: "int \<Rightarrow> nat \<Rightarrow> 'v ht \<Rightarrow> 'v ht option" where
  "del_idx h j t =
     map_option (\<lambda>i. t\<lparr>ht_indices := (ht_indices t)[i := - 2]\<rparr>)
       (find_idx (ht_log2 t) (ht_indices t) (int j) (probe_start (ht_log2 t) h))"

text \<open>
  \<^verbatim>\<open>build_indices\<close>: the entries from the index \<open>j\<close> on. \<open>hs\<close> is \<^verbatim>\<open>hash\<close> on strings.
\<close>

fun build_from :: "(string \<Rightarrow> int) \<Rightarrow> bool \<Rightarrow> nat \<Rightarrow> 'v mentry option list \<Rightarrow> 'v ht \<Rightarrow> ('v ht \<times> exc option) option" where
  "build_from hs upd j [] t = Some (t, None)"
| "build_from hs upd j (None # es) t = Some (t, Some AssertionError)"
| "build_from hs upd j (Some e # es) t =
     (if \<not> upd \<and> me_hash e = - 1 then Some (t, Some AssertionError)
      else (let h = if me_hash e = - 1 then hs (me_identity e) else me_hash e
            in case find_empty_slot t h of
                 None \<Rightarrow> None
               | Some i \<Rightarrow> build_from hs upd (j + 1) es (t\<lparr>ht_indices := (ht_indices t)[i := int j]\<rparr>)))"

definition build_indices :: "(string \<Rightarrow> int) \<Rightarrow> bool \<Rightarrow> 'v ht \<Rightarrow> ('v ht \<times> exc option) option" where
  "build_indices hs upd t = build_from hs upd 0 (ht_entries t) t"

section \<open>The walk up to the first free slot\<close>

fun nub :: "'a list \<Rightarrow> 'a list" where
  "nub [] = []"
| "nub (x # xs) = x # filter (\<lambda>y. y \<noteq> x) (nub xs)"

lemma set_nub [simp]: "set (nub xs) = set xs"
  by (induction xs) auto

lemma distinct_nub [simp]: "distinct (nub xs)"
  by (induction xs) auto

lemma nub_append: "nub (xs @ ys) = nub xs @ filter (\<lambda>y. y \<notin> set xs) (nub ys)"
  by (induction xs) (simp_all add: conj_commute)

definition steps_to :: "nat \<Rightarrow> bool list \<Rightarrow> int \<Rightarrow> nat" where
  "steps_to k fr h = (LEAST n. fr ! probe k h n)"

definition path :: "nat \<Rightarrow> bool list \<Rightarrow> int \<Rightarrow> nat list" where
  "path k fr h = map (probe k h) [0..<steps_to k fr h]"

definition has_free :: "nat \<Rightarrow> bool list \<Rightarrow> bool" where
  "has_free k fr \<longleftrightarrow> (\<exists>i < 2 ^ k. fr ! i)"

lemma steps_to:
  assumes "has_free k fr"
  shows "fr ! probe k h (steps_to k fr h)" "n < steps_to k fr h \<Longrightarrow> \<not> fr ! probe k h n"
    "steps_to k fr h < 13 + 2 ^ k"
proof -
  obtain i where i: "i < 2 ^ k" "fr ! i" using assms by (auto simp: has_free_def)
  obtain n where n: "n < 13 + 2 ^ k" "probe k h n = i" using probe_hits [OF i(1)] by blast
  then have "fr ! probe k h n" using i(2) by simp
  then show "fr ! probe k h (steps_to k fr h)" unfolding steps_to_def by (rule LeastI)
  show "n < steps_to k fr h \<Longrightarrow> \<not> fr ! probe k h n" for n unfolding steps_to_def by (rule not_less_Least)
  show "steps_to k fr h < 13 + 2 ^ k"
    using Least_le [of "\<lambda>n. fr ! probe k h n" n] n i(2) by (simp add: steps_to_def)
qed

lemma path_not_free: "has_free k fr \<Longrightarrow> i \<in> set (path k fr h) \<Longrightarrow> \<not> fr ! i \<and> i < 2 ^ k"
  using steps_to(2) [of k fr _ h] probe_less [of k h] by (auto simp: path_def)

text \<open>Taking a free slot makes every path longer, and the one that led to it goes through it.\<close>

lemma path_taken:
  assumes "length fr = 2 ^ k" "has_free k (fr[s := False])"
  shows "\<exists>ys. path k (fr[s := False]) h = path k fr h @ ys"
    "s = probe k h (steps_to k fr h) \<Longrightarrow> fr ! s \<Longrightarrow> s \<in> set (path k (fr[s := False]) h)"
proof -
  let ?fr = "fr[s := False]"
  have imp: "fr ! probe k h n" if "?fr ! probe k h n" for n
    using that assms(1) probe_less [of k h n] by (cases "probe k h n = s") (auto simp: nth_list_update)
  have "?fr ! i \<Longrightarrow> i < 2 ^ k \<Longrightarrow> fr ! i" for i using assms(1) by (cases "i = s") simp_all
  then have fr: "has_free k fr" using assms(2) unfolding has_free_def by blast
  have "fr ! probe k h (steps_to k ?fr h)" using imp steps_to(1) [OF assms(2)] by blast
  then have le: "steps_to k fr h \<le> steps_to k ?fr h"
    using steps_to(2) [OF fr, of "steps_to k ?fr h" h] by (meson not_le)
  then have "[0..<steps_to k ?fr h] = [0..<steps_to k fr h] @ [steps_to k fr h..<steps_to k ?fr h]"
    using upt_add_eq_append [of 0 "steps_to k fr h" "steps_to k ?fr h - steps_to k fr h"] by simp
  then show "\<exists>ys. path k ?fr h = path k fr h @ ys" by (simp add: path_def)
  assume s: "s = probe k h (steps_to k fr h)"
  have "s < 2 ^ k" using probe_less s by simp
  then have "\<not> ?fr ! s" using assms(1) by simp
  then have "steps_to k fr h \<noteq> steps_to k ?fr h" using steps_to(1) [OF assms(2), of h] s by metis
  then show "s \<in> set (path k ?fr h)" using le s by (auto simp: path_def)
qed

section \<open>The loops follow the path\<close>

definition frees :: "'v ht \<Rightarrow> bool list" where
  "frees t = map (\<lambda>x. x = - 1) (ht_indices t)"

lemma frees_nth: "i < length (ht_indices t) \<Longrightarrow> frees t ! i \<longleftrightarrow> ht_indices t ! i = - 1"
  by (simp add: frees_def)

lemma length_frees [simp]: "length (frees t) = length (ht_indices t)"
  by (simp add: frees_def)

text \<open>A table whose slots lead to live entries, with a slot for each size and one of them free.\<close>

definition sound :: "'v ht \<Rightarrow> bool" where
  "sound t \<longleftrightarrow> length (ht_indices t) = 2 ^ ht_log2 t \<and> has_free (ht_log2 t) (frees t) \<and>
     (\<forall>ix \<in> set (ht_indices t). ix = - 1 \<or> ix = - 2 \<or>
        (\<exists>j < length (ht_entries t). ix = int j \<and> ht_entries t ! j \<noteq> None))"

definition look :: "'v ht \<Rightarrow> nat \<Rightarrow> (nat \<times> 'v mentry) option" where
  "look t i = (if ht_indices t ! i < 0 then None
     else map_option (Pair (nat (ht_indices t ! i))) (ht_entries t ! nat (ht_indices t ! i)))"

fun walk ::
    "('s \<Rightarrow> nat \<Rightarrow> (nat \<times> 'v mentry) option) \<Rightarrow> (nat \<Rightarrow> nat \<Rightarrow> 'v mentry \<Rightarrow> 's \<Rightarrow> 's + 's) \<Rightarrow> nat list \<Rightarrow> 's \<Rightarrow> 's"
  where
  "walk lk body [] s = s"
| "walk lk body (i # is) s =
     (case lk s i of None \<Rightarrow> walk lk body is s
      | Some (j, e) \<Rightarrow> (case body i j e s of Inl s' \<Rightarrow> s' | Inr s' \<Rightarrow> walk lk body is s'))"

lemma sound_slot:
  assumes "sound t" "i < 2 ^ ht_log2 t" "ht_indices t ! i \<noteq> - 1" "ht_indices t ! i \<noteq> - 2"
  shows "\<exists>j e. ht_indices t ! i = int j \<and> j < length (ht_entries t) \<and> ht_entries t ! j = Some e \<and> look t i = Some (j, e)"
proof -
  have "ht_indices t ! i \<in> set (ht_indices t)" using assms(1,2) by (simp add: sound_def)
  then show ?thesis using assms by (auto simp: sound_def look_def)
qed

lemma look_deleted: "ht_indices t ! i = - 2 \<Longrightarrow> look t i = None"
  by (simp add: look_def)

lemma sound_free_slot:
  assumes "sound t"
  shows "ht_indices t ! probe (ht_log2 t) h n = - 1 \<longleftrightarrow> frees t ! probe (ht_log2 t) h n"
  using assms probe_less [of "ht_log2 t" h n] frees_nth [of "probe (ht_log2 t) h n" t] by (simp add: sound_def)

lemma probe_loop_path:
  assumes inv: "\<And>s. P s \<Longrightarrow> sound (tb s) \<and> ht_log2 (tb s) = k \<and> frees (tb s) = fr"
    and pres: "\<And>s i j e s'. P s \<Longrightarrow> look (tb s) i = Some (j, e) \<Longrightarrow> i < 2 ^ k \<Longrightarrow> body i j e s = Inr s' \<Longrightarrow> P s'"
    and "P s" "n \<le> steps_to k fr h"
  shows "probe_loop tb body k ((probe_next k ^^ n) (probe_start k h)) s =
    Some (walk (\<lambda>s. look (tb s)) body (map (probe k h) [n..<steps_to k fr h]) s, None)"
  using assms(3,4)
proof (induction "steps_to k fr h - n" arbitrary: n s)
  case 0
  then have n: "n = steps_to k fr h" by simp
  have t: "sound (tb s)" "ht_log2 (tb s) = k" "frees (tb s) = fr" using inv [OF 0(2)] by auto
  then have "fr ! probe k h n" using steps_to(1) [of k fr h] n by (auto simp: sound_def)
  then have "ht_indices (tb s) ! probe k h n = - 1" using sound_free_slot [OF t(1)] t by simp
  then show ?case using n by (subst probe_loop.simps) (simp add: probe_def)
next
  case (Suc m)
  let ?ip = "(probe_next k ^^ n) (probe_start k h)"
  let ?i = "probe k h n"
  have n: "n < steps_to k fr h" using Suc(2) by simp
  then have up: "[n..<steps_to k fr h] = n # [Suc n..<steps_to k fr h]" by (rule upt_conv_Cons)
  have t: "sound (tb s)" "ht_log2 (tb s) = k" "frees (tb s) = fr" using inv [OF Suc(3)] by auto
  then have free: "has_free k fr" by (auto simp: sound_def)
  have i: "?i < 2 ^ k" by (rule probe_less)
  have used: "ht_indices (tb s) ! ?i \<noteq> - 1" using steps_to(2) [OF free n] sound_free_slot [OF t(1)] t by simp
  have IH: "probe_loop tb body k (probe_next k ?ip) s' =
      Some (walk (\<lambda>s. look (tb s)) body (map (probe k h) [Suc n..<steps_to k fr h]) s', None)" if "P s'" for s'
    using Suc(1) [of "Suc n" s'] Suc(2) n that by simp
  have fst: "fst ?ip = ?i" by (simp add: probe_def)
  show ?case
  proof (cases "ht_indices (tb s) ! ?i = - 2")
    case True
    then show ?thesis using IH [OF Suc(3)] by (subst probe_loop.simps) (simp add: fst up look_deleted)
  next
    case False
    obtain j e where j: "ht_indices (tb s) ! ?i = int j" "ht_entries (tb s) ! j = Some e" "look (tb s) ?i = Some (j, e)"
      using sound_slot [OF t(1)] i t(2) False used by blast
    show ?thesis
      using IH [OF pres [OF Suc(3) j(3) i]] j by (subst probe_loop.simps) (simp add: fst up split: sum.split)
  qed
qed

lemmas probe_loop_start = probe_loop_path [where n = 0, simplified]

text \<open>The entries a loop body acts on, and what \<open>iter_hash\<close> shows to its body.\<close>

definition look_q :: "('v mentry \<Rightarrow> bool) \<Rightarrow> 'v ht \<Rightarrow> nat \<Rightarrow> (nat \<times> 'v mentry) option" where
  "look_q Q t i = (case look t i of None \<Rightarrow> None | Some (j, e) \<Rightarrow> if Q e then Some (j, e) else None)"

lemma look_q_Some: "look_q Q t i = Some (j, e) \<longleftrightarrow> look t i = Some (j, e) \<and> Q e"
  by (auto simp: look_q_def split: option.splits)

lemma look_q_None: "look_q Q t i = None \<longleftrightarrow> (\<forall>j e. look t i = Some (j, e) \<longrightarrow> \<not> Q e)"
  by (auto simp: look_q_def split: option.splits)

lemma walk_filter:
  "walk (\<lambda>s. look_q Q (tb s)) (\<lambda>i j e s. if R e then body i j e s else Inr s) is s =
   walk (\<lambda>s. look_q (\<lambda>e. Q e \<and> R e) (tb s)) body is s"
  by (induction "is" arbitrary: s) (auto simp: look_q_def split: option.split sum.split)

lemma look_q_True: "look = look_q (\<lambda>e. True)"
  by (auto simp: look_q_def fun_eq_iff split: option.split)

lemma empty_slot_found:
  assumes "sound t" "n \<le> steps_to (ht_log2 t) (frees t) h"
  shows "empty_slot (ht_log2 t) (ht_indices t) ((probe_next (ht_log2 t) ^^ n) (probe_start (ht_log2 t) h)) =
    Some (probe (ht_log2 t) h (steps_to (ht_log2 t) (frees t) h))"
  using assms(2)
proof (induction "steps_to (ht_log2 t) (frees t) h - n" arbitrary: n)
  case 0
  then have n: "n = steps_to (ht_log2 t) (frees t) h" by simp
  then have "ht_indices t ! probe (ht_log2 t) h n = - 1"
    using steps_to(1) [of "ht_log2 t" "frees t" h] assms(1) sound_free_slot [OF assms(1)] by (simp add: sound_def)
  then show ?case using n by (subst empty_slot.simps) (simp add: probe_def)
next
  case (Suc m)
  then have n: "n < steps_to (ht_log2 t) (frees t) h" by simp
  then have "ht_indices t ! probe (ht_log2 t) h n \<noteq> - 1"
    using steps_to(2) [of "ht_log2 t" "frees t" n h] assms(1) sound_free_slot [OF assms(1)] by (simp add: sound_def)
  then show ?case using Suc(1) [of "Suc n"] Suc(2) n by (subst empty_slot.simps) (simp add: probe_def)
qed

lemmas find_empty_slot_found = empty_slot_found [where n = 0, simplified, folded find_empty_slot_def]

section \<open>Where the entries are found\<close>

definition look_of :: "('v mentry \<Rightarrow> bool) \<Rightarrow> 'v ht \<Rightarrow> nat \<Rightarrow> nat option" where
  "look_of Q t i = (case look t i of None \<Rightarrow> None | Some (j, e) \<Rightarrow> if Q e then Some j else None)"

definition found :: "(string \<Rightarrow> int) \<Rightarrow> 'v ht \<Rightarrow> int \<Rightarrow> nat list" where
  "found hs t h =
     List.map_filter (look_of (\<lambda>e. hs (me_identity e) = h) t) (nub (path (ht_log2 t) (frees t) h))"

definition idx_of :: "('v mentry \<Rightarrow> bool) \<Rightarrow> 'v mentry option list \<Rightarrow> nat list" where
  "idx_of Q es = filter (\<lambda>j. case es ! j of None \<Rightarrow> False | Some e \<Rightarrow> Q e) [0..<length es]"

definition one_slot :: "'v ht \<Rightarrow> bool" where
  "one_slot t \<longleftrightarrow> (\<forall>i < length (ht_indices t). \<forall>i' < length (ht_indices t).
     0 \<le> ht_indices t ! i \<longrightarrow> ht_indices t ! i = ht_indices t ! i' \<longrightarrow> i = i')"

definition placed :: "(string \<Rightarrow> int) \<Rightarrow> 'v ht \<Rightarrow> bool" where
  "placed hs t \<longleftrightarrow> sound t \<and> one_slot t \<and>
     (\<forall>h. found hs t h = idx_of (\<lambda>e. hs (me_identity e) = h) (ht_entries t))"

text \<open>The free slots are at least a third, and \<open>usable\<close> says how many may still be taken.\<close>

definition room :: "'v ht \<Rightarrow> bool" where
  "room t \<longleftrightarrow> length (ht_indices t) = 2 ^ ht_log2 t \<and> 0 \<le> ht_usable t \<and>
     int (length (filter Not (frees t))) + ht_usable t = int (usable_of (ht_log2 t))"

lemma idx_of_snoc:
  "idx_of Q (es @ [x]) = idx_of Q es @ (case x of Some e \<Rightarrow> if Q e then [length es] else [] | None \<Rightarrow> [])"
proof -
  have "filter (\<lambda>j. case (es @ [x]) ! j of None \<Rightarrow> False | Some e \<Rightarrow> Q e) [0..<length es] = idx_of Q es"
    unfolding idx_of_def by (rule filter_cong) (auto simp: nth_append)
  then show ?thesis by (simp add: idx_of_def split: option.split)
qed

lemma set_idx_of: "j \<in> set (idx_of Q es) \<longleftrightarrow> j < length es \<and> (\<exists>e. es ! j = Some e \<and> Q e)"
  by (auto simp: idx_of_def split: option.splits)

lemma distinct_idx_of [simp]: "distinct (idx_of Q es)"
  by (simp add: idx_of_def)

lemma map_filter_none: "(\<And>x. x \<in> set xs \<Longrightarrow> f x = None) \<Longrightarrow> List.map_filter f xs = []"
  by (induction xs) (simp_all add: map_filter_simps)

lemma map_filter_cong: "(\<And>x. x \<in> set xs \<Longrightarrow> f x = g x) \<Longrightarrow> List.map_filter f xs = List.map_filter g xs"
  by (induction xs) (simp_all add: map_filter_simps split: option.splits)

lemma map_filter_append: "List.map_filter f (xs @ ys) = List.map_filter f xs @ List.map_filter f ys"
  by (induction xs) (simp_all add: map_filter_simps split: option.split)

lemma map_filter_one:
  "distinct xs \<Longrightarrow> x \<in> set xs \<Longrightarrow> f x = Some y \<Longrightarrow> (\<And>z. z \<in> set xs \<Longrightarrow> z \<noteq> x \<Longrightarrow> f z = None) \<Longrightarrow>
   List.map_filter f xs = [y]"
proof (induction xs)
  case (Cons a xs)
  show ?case
  proof (cases "a = x")
    case True
    then have "List.map_filter f xs = []" using Cons.prems by (intro map_filter_none) auto
    then show ?thesis using True Cons.prems(3) by (simp add: map_filter_simps)
  next
    case False
    then have "f a = None" "List.map_filter f xs = [y]" using Cons by auto
    then show ?thesis by (simp add: map_filter_simps)
  qed
qed simp

lemma set_map_filter: "y \<in> set (List.map_filter f xs) \<longleftrightarrow> (\<exists>x \<in> set xs. f x = Some y)"
  by (induction xs) (auto simp: map_filter_simps split: option.split)

text \<open>A slot that shows an entry lies on the path of its hash.\<close>

lemma look_Some:
  "look t i = Some (j, e) \<longleftrightarrow> 0 \<le> ht_indices t ! i \<and> j = nat (ht_indices t ! i) \<and> ht_entries t ! j = Some e"
  by (auto simp: look_def)

lemma look_of_Some: "look_of Q t i = Some j \<longleftrightarrow> (\<exists>e. look t i = Some (j, e) \<and> Q e)"
  by (auto simp: look_of_def split: option.splits if_splits prod.splits)

lemma look_bounds: "sound t \<Longrightarrow> i < 2 ^ ht_log2 t \<Longrightarrow> look t i = Some (j, e) \<Longrightarrow> j < length (ht_entries t)"
  using sound_slot [of t i] by (auto simp: look_Some)

lemma placed_on_path:
  assumes "placed hs t" "i < 2 ^ ht_log2 t" "look t i = Some (j, e)"
  shows "i \<in> set (path (ht_log2 t) (frees t) (hs (me_identity e)))"
proof -
  let ?h = "hs (me_identity e)" and ?p = "path (ht_log2 t) (frees t) (hs (me_identity e))"
  have t: "sound t" "one_slot t" using assms(1) by (simp_all add: placed_def)
  have "j < length (ht_entries t)" by (rule look_bounds [OF t(1) assms(2,3)])
  then have "j \<in> set (idx_of (\<lambda>e. hs (me_identity e) = ?h) (ht_entries t))"
    using assms(3) unfolding set_idx_of look_Some by blast
  then have "j \<in> set (found hs t ?h)" using assms(1) by (simp add: placed_def)
  then obtain i' e' where i': "i' \<in> set ?p" "look t i' = Some (j, e')"
    by (auto simp: found_def set_map_filter look_of_Some)
  then have "i' < 2 ^ ht_log2 t" using path_not_free [of "ht_log2 t" "frees t" i'] t(1) by (auto simp: sound_def)
  then have "i' = i"
    using t assms(2,3) i'(2) by (auto simp: one_slot_def look_Some sound_def)
  then show ?thesis using i'(1) by simp
qed

section \<open>Taking a slot\<close>

text \<open>The table after the entry \<open>x\<close> was appended and its index put into the slot \<open>i\<close>.\<close>

definition put_slot :: "nat \<Rightarrow> 'v mentry \<Rightarrow> 'v ht \<Rightarrow> 'v ht" where
  "put_slot i x t = t\<lparr>ht_indices := (ht_indices t)[i := int (length (ht_entries t))],
     ht_entries := ht_entries t @ [Some x], ht_usable := ht_usable t - 1\<rparr>"

lemma put_slot_simps [simp]:
  "ht_log2 (put_slot i x t) = ht_log2 t" "ht_usable (put_slot i x t) = ht_usable t - 1"
  "ht_indices (put_slot i x t) = (ht_indices t)[i := int (length (ht_entries t))]"
  "ht_entries (put_slot i x t) = ht_entries t @ [Some x]"
  by (simp_all add: put_slot_def)

lemma frees_put: "frees (put_slot i x t) = (frees t)[i := False]"
  by (simp add: frees_def map_update)

lemma look_put:
  assumes "sound t" "i < 2 ^ ht_log2 t" "i' < 2 ^ ht_log2 t"
  shows "look (put_slot i x t) i' = (if i' = i then Some (length (ht_entries t), x) else look t i')"
proof (cases "i' = i")
  case False
  then show ?thesis
    using assms sound_slot [OF assms(1,3)] by (auto simp: look_def nth_append sound_def)
qed (use assms in \<open>simp add: look_def sound_def\<close>)

lemma not_on_path_free:
  assumes "placed hs t" "i < 2 ^ ht_log2 t" "i \<notin> set (path (ht_log2 t) (frees t) h)"
  shows "look_of (\<lambda>e. hs (me_identity e) = h) t i = None"
  using placed_on_path [OF assms(1,2)] assms(3) by (fastforce simp: look_of_def split: option.split)

lemma found_put:
  assumes t: "placed hs t" and h: "h = hs (me_identity x)" and i: "i = probe (ht_log2 t) h (steps_to (ht_log2 t) (frees t) h)"
    and free: "has_free (ht_log2 t) ((frees t)[i := False])"
  shows "found hs (put_slot i x t) h' = found hs t h' @ (if h' = h then [length (ht_entries t)] else [])"
proof -
  let ?k = "ht_log2 t" and ?fr = "frees t" and ?t = "put_slot i x t"
  let ?Q = "\<lambda>e. hs (me_identity e) = h'"
  have s: "sound t" "length ?fr = 2 ^ ?k" "has_free ?k ?fr" using t by (auto simp: placed_def sound_def)
  have i': "i < 2 ^ ?k" "?fr ! i" using steps_to(1) [OF s(3)] probe_less i by auto
  obtain ys where ys: "path ?k (?fr[i := False]) h' = path ?k ?fr h' @ ys" using path_taken(1) [OF s(2) free] by blast
  let ?new = "filter (\<lambda>y. y \<notin> set (path ?k ?fr h')) (nub ys)"
  have inp: "i \<notin> set (path ?k ?fr h')" using path_not_free [OF s(3)] i'(2) by blast
  have bound: "z < 2 ^ ?k" if "z \<in> set (path ?k ?fr h' @ ys)" for z
    using path_not_free [OF free] that unfolding ys [symmetric] by blast
  have old: "look_of ?Q ?t z = look_of ?Q t z" if "z \<in> set (path ?k ?fr h')" for z
    using look_put [OF s(1) i'(1), of z x] bound [of z] that inp by (auto simp: look_of_def)
  have none: "look_of ?Q ?t z = None" if "z \<in> set ?new" "z \<noteq> i \<or> h' \<noteq> h" for z
  proof -
    have z: "z < 2 ^ ?k" "z \<notin> set (path ?k ?fr h')" using that(1) bound [of z] by auto
    then show ?thesis
      using not_on_path_free [OF t z] look_put [OF s(1) i'(1) z(1), of x] that(2) h by (auto simp: look_of_def)
  qed
  have "List.map_filter (look_of ?Q ?t) ?new = (if h' = h then [length (ht_entries t)] else [])"
  proof (cases "h' = h")
    case True
    have "i \<in> set (path ?k (?fr[i := False]) h')" using path_taken(2) [OF s(2) free] i i'(2) True by blast
    then have "i \<in> set ?new" using ys inp by auto
    moreover have "look_of ?Q ?t i = Some (length (ht_entries t))"
      using look_put [OF s(1) i'(1) i'(1), of x] h True by (simp add: look_of_def)
    ultimately show ?thesis using none True by (intro trans [OF map_filter_one]) auto
  next
    case False
    then have "List.map_filter (look_of ?Q ?t) ?new = []" using none by (intro map_filter_none) blast
    then show ?thesis using False by simp
  qed
  moreover have "nub (path ?k (?fr[i := False]) h') = nub (path ?k ?fr h') @ ?new" by (simp add: ys nub_append)
  moreover have "List.map_filter (look_of ?Q ?t) (nub (path ?k ?fr h')) = found hs t h'"
    unfolding found_def by (rule map_filter_cong) (simp add: old)
  ultimately show ?thesis by (simp add: found_def frees_put map_filter_append)
qed

lemma sound_put:
  assumes "sound t" "i < 2 ^ ht_log2 t" "has_free (ht_log2 t) ((frees t)[i := False])"
  shows "sound (put_slot i x t)"
proof -
  have "\<exists>j < Suc (length (ht_entries t)). ix = int j \<and> (ht_entries t @ [Some x]) ! j \<noteq> None"
    if "ix \<in> set ((ht_indices t)[i := int (length (ht_entries t))])" "ix \<noteq> - 1" "ix \<noteq> - 2" for ix
  proof (cases "ix = int (length (ht_entries t))")
    case False
    note ix = that
    have "ix \<in> set (ht_indices t)" using ix(1) False set_update_subset_insert by fastforce
    then obtain j where "j < length (ht_entries t)" "ix = int j" "ht_entries t ! j \<noteq> None"
      using assms(1) ix(2,3) by (auto simp: sound_def)
    then show ?thesis by (intro exI [of _ j]) (simp add: nth_append)
  qed auto
  then show ?thesis using assms by (auto simp: sound_def frees_put)
qed

lemma one_slot_put:
  assumes "sound t" "one_slot t" "i < 2 ^ ht_log2 t"
  shows "one_slot (put_slot i x t)"
proof -
  have "ht_indices t ! i' < int (length (ht_entries t))" if "i' < 2 ^ ht_log2 t" for i'
    using sound_slot [OF assms(1) that] by (cases "ht_indices t ! i' < 0") auto
  then have new: "ht_indices t ! i' \<noteq> int (length (ht_entries t))" if "i' < 2 ^ ht_log2 t" for i'
    using that by fastforce
  have len: "length (ht_indices t) = 2 ^ ht_log2 t" using assms(1) by (simp add: sound_def)
  have "i1 = i2" if "i1 < 2 ^ ht_log2 t" "i2 < 2 ^ ht_log2 t"
      "0 \<le> ht_indices (put_slot i x t) ! i1" "ht_indices (put_slot i x t) ! i1 = ht_indices (put_slot i x t) ! i2" for i1 i2
    using that new [of i1] new [of i2] assms(2,3) len
    by (cases "i1 = i"; cases "i2 = i") (simp_all add: one_slot_def)
  then show ?thesis by (simp add: one_slot_def len)
qed

lemma placed_put:
  assumes "placed hs t" "h = hs (me_identity x)" "i = probe (ht_log2 t) h (steps_to (ht_log2 t) (frees t) h)"
    and "has_free (ht_log2 t) ((frees t)[i := False])"
  shows "placed hs (put_slot i x t)"
proof -
  have i: "i < 2 ^ ht_log2 t" using assms(3) probe_less by simp
  have "sound (put_slot i x t)" "one_slot (put_slot i x t)"
    using assms(1,4) i by (simp_all add: placed_def sound_put one_slot_put)
  moreover have "found hs (put_slot i x t) h' = idx_of (\<lambda>e. hs (me_identity e) = h') (ht_entries (put_slot i x t))" for h'
    using found_put [OF assms] assms(1,2) by (simp add: placed_def idx_of_snoc)
  ultimately show ?thesis by (simp add: placed_def)
qed

section \<open>Giving a slot up\<close>

text \<open>
  The entry \<open>j\<close> goes, either replaced by \<^verbatim>\<open>None\<close> or taken from the end of the list together with
  the \<^verbatim>\<open>None\<close>s behind it.
\<close>

definition without :: "nat \<Rightarrow> 'v mentry option list \<Rightarrow> 'v mentry option list \<Rightarrow> bool" where
  "without j es es' \<longleftrightarrow> length es' \<le> length es \<and>
     (\<forall>j' < length es. j' \<noteq> j \<longrightarrow> (if j' < length es' then es' ! j' = es ! j' else es ! j' = None)) \<and>
     (j < length es' \<longrightarrow> es' ! j = None)"

lemma without_None: "j < length es \<Longrightarrow> without j es (es[j := None])"
  by (simp add: without_def)

lemma idx_of_without:
  assumes "without j es es'"
  shows "idx_of Q es' = filter (\<lambda>j'. j' \<noteq> j) (idx_of Q es)"
proof (rule sorted_distinct_set_unique)
  have "j' < length es' \<and> (\<exists>e. es' ! j' = Some e \<and> Q e) \<longleftrightarrow>
      (j' < length es \<and> (\<exists>e. es ! j' = Some e \<and> Q e)) \<and> j' \<noteq> j" for j'
    using assms unfolding without_def by (cases "j' = j"; cases "j' < length es'") auto
  then show "set (idx_of Q es') = set (filter (\<lambda>j'. j' \<noteq> j) (idx_of Q es))"
    by (intro set_eqI) (simp add: set_idx_of)
qed (simp_all add: idx_of_def sorted_wrt_filter)

definition drop_slot :: "nat \<Rightarrow> 'v mentry option list \<Rightarrow> 'v ht \<Rightarrow> 'v ht" where
  "drop_slot i es t = t\<lparr>ht_indices := (ht_indices t)[i := - 2], ht_entries := es\<rparr>"

lemma drop_slot_simps [simp]:
  "ht_log2 (drop_slot i es t) = ht_log2 t" "ht_usable (drop_slot i es t) = ht_usable t"
  "ht_indices (drop_slot i es t) = (ht_indices t)[i := - 2]" "ht_entries (drop_slot i es t) = es"
  by (simp_all add: drop_slot_def)

lemma upd_nth: "i' < length xs \<Longrightarrow> xs[i := x] ! i' = (if i' = i then x else xs ! i')"
  by (cases "i' = i") simp_all

lemma frees_drop: "0 \<le> ht_indices t ! i \<Longrightarrow> frees (drop_slot i es t) = frees t"
  by (auto simp: frees_def list_eq_iff_nth_eq upd_nth)

lemma look_drop:
  assumes "sound t" "one_slot t" "i < 2 ^ ht_log2 t" "look t i = Some (j, e)" "without j (ht_entries t) es" "i' < 2 ^ ht_log2 t"
  shows "look (drop_slot i es t) i' = (if i' = i then None else look t i')"
proof (cases "i' = i \<or> ht_indices t ! i' < 0")
  case True
  then show ?thesis using assms(1,3) by (auto simp: look_def sound_def)
next
  case False
  then obtain j' e' where j': "ht_indices t ! i' = int j'" "j' < length (ht_entries t)" "ht_entries t ! j' = Some e'"
    using sound_slot [OF assms(1,6)] by fastforce
  then have "j' \<noteq> j" using assms(1-4,6) False by (auto simp: one_slot_def sound_def look_Some)
  then have "es ! j' = Some e'" using assms(5) j' by (auto simp: without_def split: if_splits)
  then show ?thesis using False j' by (simp add: look_def)
qed

lemma sound_drop:
  assumes "sound t" "one_slot t" "i < 2 ^ ht_log2 t" "look t i = Some (j, e)" "without j (ht_entries t) es"
  shows "sound (drop_slot i es t)"
proof -
  have len: "length (ht_indices t) = 2 ^ ht_log2 t" using assms(1) by (simp add: sound_def)
  have "\<exists>j < length es. (ht_indices t)[i := - 2] ! i' = int j \<and> es ! j \<noteq> None"
    if i': "i' < 2 ^ ht_log2 t" "(ht_indices t)[i := - 2] ! i' \<noteq> - 1" "(ht_indices t)[i := - 2] ! i' \<noteq> - 2" for i'
  proof -
    have ne: "i' \<noteq> i" using i'(3) assms(3) len by auto
    then obtain j' e' where j': "ht_indices t ! i' = int j'" "j' < length (ht_entries t)" "ht_entries t ! j' = Some e'"
      using sound_slot [OF assms(1) i'(1)] i'(2,3) by fastforce
    then have "j' \<noteq> j" using assms(2-4) i'(1) ne len by (auto simp: one_slot_def look_Some)
    then show ?thesis using assms(5) j' ne by (intro exI [of _ j']) (auto simp: without_def split: if_splits)
  qed
  then have "\<forall>ix \<in> set ((ht_indices t)[i := - 2]). ix = - 1 \<or> ix = - 2 \<or> (\<exists>j < length es. ix = int j \<and> es ! j \<noteq> None)"
    unfolding in_set_conv_nth Ball_def length_list_update len by metis
  moreover have "0 \<le> ht_indices t ! i" using assms(4) by (simp add: look_Some)
  ultimately show ?thesis using assms(1) len by (simp add: sound_def frees_drop)
qed

lemma map_filter_removed:
  assumes "\<And>x. x \<in> set xs \<Longrightarrow> g x = (if f x = Some y then None else f x)"
  shows "List.map_filter g xs = filter (\<lambda>z. z \<noteq> y) (List.map_filter f xs)"
  using assms by (induction xs) (auto simp: map_filter_simps split: option.split)

lemma placed_drop:
  assumes "placed hs t" "i < 2 ^ ht_log2 t" "look t i = Some (j, e)" "without j (ht_entries t) es"
  shows "placed hs (drop_slot i es t)"
proof -
  have t: "sound t" "one_slot t" using assms(1) by (simp_all add: placed_def)
  have ix: "0 \<le> ht_indices t ! i" using assms(3) by (simp add: look_Some)
  have len: "length (ht_indices t) = 2 ^ ht_log2 t" using t(1) by (simp add: sound_def)
  have "found hs (drop_slot i es t) h = filter (\<lambda>j'. j' \<noteq> j) (found hs t h)" for h
    unfolding found_def drop_slot_simps frees_drop [OF ix]
  proof (rule map_filter_removed)
    fix x assume "x \<in> set (nub (path (ht_log2 t) (frees t) h))"
    then have x: "x < 2 ^ ht_log2 t" using path_not_free [of "ht_log2 t" "frees t" x h] t(1) by (simp add: sound_def)
    have "look_of (\<lambda>e. hs (me_identity e) = h) t x = Some j \<Longrightarrow> x = i"
      using t(2) assms(2,3) x len unfolding look_of_Some look_Some one_slot_def by fastforce
    moreover have "look_of (\<lambda>e. hs (me_identity e) = h) t i \<in> {None, Some j}" using assms(3) by (simp add: look_of_def)
    ultimately show "look_of (\<lambda>e. hs (me_identity e) = h) (drop_slot i es t) x =
        (if look_of (\<lambda>e. hs (me_identity e) = h) t x = Some j then None else look_of (\<lambda>e. hs (me_identity e) = h) t x)"
      using look_drop [OF t assms(2-4) x] by (auto simp: look_of_def)
  qed
  then have "found hs (drop_slot i es t) h = idx_of (\<lambda>e. hs (me_identity e) = h) es" for h
    using assms(1) idx_of_without [OF assms(4)] by (simp add: placed_def)
  moreover have "one_slot (drop_slot i es t)" using t(2) by (auto simp: one_slot_def upd_nth)
  ultimately show ?thesis using sound_drop [OF t assms(2-4)] by (simp add: placed_def)
qed

lemma room_drop: "room t \<Longrightarrow> look t i = Some (j, e) \<Longrightarrow> room (drop_slot i es t)"
  by (simp add: room_def frees_drop look_Some)

section \<open>Changing entries\<close>

text \<open>The hash, the key and the value of an entry may change: its identity says where it is.\<close>

definition same_ids :: "'v mentry option list \<Rightarrow> 'v mentry option list \<Rightarrow> bool" where
  "same_ids es es' \<longleftrightarrow> map (map_option me_identity) es = map (map_option me_identity) es'"

lemma same_ids_nth:
  "same_ids es es' \<Longrightarrow> j < length es \<Longrightarrow> map_option me_identity (es ! j) = map_option me_identity (es' ! j)"
  unfolding same_ids_def by (metis map_eq_imp_length_eq nth_map)

lemma same_ids_length: "same_ids es es' \<Longrightarrow> length es = length es'"
  unfolding same_ids_def by (rule map_eq_imp_length_eq)

lemma same_ids_update:
  "(\<And>e. me_identity (f e) = me_identity e) \<Longrightarrow> same_ids es (es[j := map_option f (es ! j)])"
  unfolding same_ids_def by (intro nth_equalityI) (simp_all add: upd_nth option.map_comp comp_def)

lemma idx_of_same:
  assumes "same_ids es es'"
  shows "idx_of (\<lambda>e. Q (me_identity e)) es = idx_of (\<lambda>e. Q (me_identity e)) es'"
proof -
  have "(case es ! j of None \<Rightarrow> False | Some e \<Rightarrow> Q (me_identity e)) =
      (case es' ! j of None \<Rightarrow> False | Some e \<Rightarrow> Q (me_identity e))" if "j < length es" for j
    using same_ids_nth [OF assms that] by (cases "es ! j"; cases "es' ! j") auto
  then show ?thesis unfolding idx_of_def same_ids_length [OF assms, symmetric] by (intro filter_cong) auto
qed

lemma look_same:
  assumes "same_ids (ht_entries t) es" "sound t" "i < 2 ^ ht_log2 t"
  shows "look_of (\<lambda>e. Q (me_identity e)) (t\<lparr>ht_entries := es\<rparr>) i = look_of (\<lambda>e. Q (me_identity e)) t i"
proof (cases "ht_indices t ! i < 0")
  case False
  then obtain j e where j: "ht_indices t ! i = int j" "j < length (ht_entries t)" "ht_entries t ! j = Some e"
    using sound_slot [OF assms(2,3)] by fastforce
  then obtain e' where "es ! j = Some e'" "me_identity e' = me_identity e"
    using same_ids_nth [OF assms(1) j(2)] by (cases "es ! j") auto
  then show ?thesis using j by (simp add: look_of_def look_def)
qed (simp add: look_of_def look_def)

lemma placed_same:
  assumes "placed hs t" "same_ids (ht_entries t) es"
  shows "placed hs (t\<lparr>ht_entries := es\<rparr>)"
proof -
  have t: "sound t" "one_slot t" using assms(1) by (simp_all add: placed_def)
  let ?t = "t\<lparr>ht_entries := es\<rparr>"
  have fr: "frees ?t = frees t" by (simp add: frees_def)
  have "es ! j \<noteq> None" if "j < length (ht_entries t)" "ht_entries t ! j \<noteq> None" for j
    using same_ids_nth [OF assms(2) that(1)] that(2) by (cases "es ! j") auto
  then have mono: "\<exists>j < length es. ix = int j \<and> es ! j \<noteq> None"
    if "\<exists>j < length (ht_entries t). ix = int j \<and> ht_entries t ! j \<noteq> None" for ix
    using that same_ids_length [OF assms(2)] by metis
  have sel: "ht_indices ?t = ht_indices t" "ht_log2 ?t = ht_log2 t" "ht_entries ?t = es" by simp_all
  have "sound ?t" unfolding sound_def fr sel using t(1) mono unfolding sound_def by blast
  moreover have "one_slot ?t" using t(2) by (simp add: one_slot_def)
  moreover have "found hs ?t h = found hs t h" for h
  proof -
    have "z < 2 ^ ht_log2 t" if "z \<in> set (path (ht_log2 t) (frees t) h)" for z
      using path_not_free [OF _ that] t(1) by (simp add: sound_def)
    then show ?thesis
      unfolding found_def fr sel using look_same [OF assms(2) t(1), of _ "\<lambda>x. hs x = h"]
      by (intro map_filter_cong) simp
  qed
  moreover have "idx_of (\<lambda>e. hs (me_identity e) = h) (ht_entries t) = idx_of (\<lambda>e. hs (me_identity e) = h) es" for h
    by (rule idx_of_same [OF assms(2), of "\<lambda>x. hs x = h"])
  ultimately show ?thesis using assms(1) by (simp add: placed_def)
qed

lemma room_same: "room (t\<lparr>ht_entries := es\<rparr>) = room t"
  by (simp add: room_def frees_def)

section \<open>The operations of the table\<close>

lemma length_filter_update: "length (filter P (xs[i := x])) \<le> length (filter P xs) + 1"
  by (induction xs arbitrary: i) (auto split: nat.split simp: le_SucI)

lemma room_free: "room t \<Longrightarrow> 0 < ht_usable t \<Longrightarrow> i < 2 ^ ht_log2 t \<Longrightarrow> has_free (ht_log2 t) ((frees t)[i := False])"
proof -
  assume t: "room t" "0 < ht_usable t" "i < 2 ^ ht_log2 t"
  let ?k = "ht_log2 t" and ?fr = "frees t"
  have len: "length ?fr = 2 ^ ?k" using t(1) by (simp add: room_def)
  have "length (filter Not ?fr) + 1 < 2 ^ ?k" using t(1,2) usable_less [of ?k] by (simp add: room_def)
  moreover have "length (filter Not (?fr[i := False])) \<le> length (filter Not ?fr) + 1"
    by (rule length_filter_update)
  ultimately have "length (filter Not (?fr[i := False])) < length (?fr[i := False])" using len by simp
  then have "\<exists>x \<in> set (?fr[i := False]). x" by (metis filter_True less_irrefl)
  then show ?thesis using len by (auto simp: has_free_def in_set_conv_nth)
qed

lemma length_filter_taken:
  "i < length xs \<Longrightarrow> xs ! i \<Longrightarrow> length (filter Not (xs[i := False])) = length (filter Not xs) + 1"
  by (induction xs arbitrary: i) (auto split: nat.split simp: less_Suc_eq_0_disj)

text \<open>Finding a free slot and putting an entry into it, as the two \<^verbatim>\<open>_add\<close> operations do.\<close>

lemma find_put:
  assumes "placed hs t" "room t" "0 < ht_usable t" "h = hs (me_identity x)"
  shows "\<exists>i. find_empty_slot t h = Some i \<and> placed hs (put_slot i x t) \<and> room (put_slot i x t)"
proof -
  let ?i = "probe (ht_log2 t) h (steps_to (ht_log2 t) (frees t) h)"
  have s: "sound t" using assms(1) by (simp add: placed_def)
  have i: "?i < 2 ^ ht_log2 t" by (rule probe_less)
  have free: "has_free (ht_log2 t) ((frees t)[?i := False])" by (rule room_free [OF assms(2,3) i])
  have "frees t ! ?i" using steps_to(1) s by (simp add: sound_def)
  then have "room (put_slot ?i x t)"
    using assms(2,3) i length_filter_taken [of ?i "frees t"] by (simp add: room_def frees_put)
  then show ?thesis
    using find_empty_slot_found [OF s, of h] placed_put [OF assms(1,4) refl free] by blast
qed

text \<open>An empty table, and one whose indices were built up to the entry \<open>j\<close>.\<close>

definition built :: "'v ht \<Rightarrow> nat \<Rightarrow> 'v ht" where
  "built t j = t\<lparr>ht_entries := take j (ht_entries t), ht_usable := int (usable_of (ht_log2 t)) - int j\<rparr>"

lemma placed_empty:
  assumes "ht_indices t = replicate (2 ^ ht_log2 t) (- 1)" "ht_entries t = []" "ht_usable t = int (usable_of (ht_log2 t))"
  shows "placed hs t \<and> room t"
proof -
  have fr: "frees t = replicate (2 ^ ht_log2 t) True" using assms(1) by (simp add: frees_def)
  have free: "has_free (ht_log2 t) (frees t)" unfolding has_free_def fr by (rule exI [of _ 0]) simp
  have "False" if "i \<in> set (path (ht_log2 t) (frees t) h)" for i h
    using path_not_free [OF free that] by (auto simp: fr)
  then have "path (ht_log2 t) (frees t) h = []" for h by (meson hd_in_set)
  then have "found hs t h = idx_of (\<lambda>e. hs (me_identity e) = h) (ht_entries t)" for h
    using assms(2) by (simp add: found_def idx_of_def map_filter_simps)
  moreover have "sound t" using assms(1) free by (simp add: sound_def)
  moreover have "one_slot t" using assms(1) by (simp add: one_slot_def)
  moreover have "room t" using assms(1,3) by (simp add: room_def fr)
  ultimately show ?thesis by (simp add: placed_def)
qed

text \<open>What \<^verbatim>\<open>build_indices\<close> asserts of the entries.\<close>

definition buildable :: "(string \<Rightarrow> int) \<Rightarrow> bool \<Rightarrow> 'v mentry option \<Rightarrow> bool" where
  "buildable hs upd x \<longleftrightarrow> (\<exists>e. x = Some e \<and> hs (me_identity e) \<noteq> - 1 \<and>
     (me_hash e = hs (me_identity e) \<or> upd \<and> me_hash e = - 1))"

lemma build_from_placed:
  assumes "\<forall>x \<in> set (ht_entries t). buildable hs upd x" "length (ht_entries t) \<le> usable_of (ht_log2 t)"
    and "placed hs (built t j)" "room (built t j)" "j \<le> length (ht_entries t)"
  shows "\<exists>ixs. build_from hs upd j (drop j (ht_entries t)) t = Some (t\<lparr>ht_indices := ixs\<rparr>, None) \<and>
    placed hs (built (t\<lparr>ht_indices := ixs\<rparr>) (length (ht_entries t))) \<and>
    room (built (t\<lparr>ht_indices := ixs\<rparr>) (length (ht_entries t)))"
  using assms
proof (induction "length (ht_entries t) - j" arbitrary: j t)
  case 0
  then show ?case by (intro exI [of _ "ht_indices t"]) simp
next
  case (Suc m)
  then have j: "j < length (ht_entries t)" by simp
  then obtain e where e: "ht_entries t ! j = Some e" "hs (me_identity e) \<noteq> - 1"
      "me_hash e = hs (me_identity e) \<or> upd \<and> me_hash e = - 1"
    using bspec [OF Suc.prems(1) nth_mem [OF j]] by (auto simp: buildable_def)
  let ?h = "hs (me_identity e)"
  have "0 < ht_usable (built t j)" using Suc.prems(2) j by (simp add: built_def)
  then obtain i where i: "find_empty_slot (built t j) ?h = Some i" "placed hs (put_slot i e (built t j))"
      "room (put_slot i e (built t j))"
    using find_put [OF Suc.prems(3,4)] by blast
  let ?t = "t\<lparr>ht_indices := (ht_indices t)[i := int j]\<rparr>"
  have put: "put_slot i e (built t j) = built ?t (Suc j)"
    using j e(1) by (simp add: put_slot_def built_def take_Suc_conv_app_nth)
  have "find_empty_slot t ?h = Some i" using i(1) by (simp add: find_empty_slot_def built_def)
  then have "build_from hs upd j (drop j (ht_entries t)) t = build_from hs upd (Suc j) (drop (Suc j) (ht_entries t)) ?t"
    using e j by (auto simp: Cons_nth_drop_Suc [symmetric])
  then show ?case
    using Suc.hyps(1) [of ?t "Suc j"] Suc.hyps(2) Suc.prems(1,2) i(2,3) j unfolding put by simp
qed

lemma build_indices_placed:
  assumes "\<forall>x \<in> set es. buildable hs upd x" "length es \<le> usable_of k"
  shows "\<exists>t. build_indices hs upd ((ht_new k es)\<lparr>ht_usable := ht_usable (ht_new k es) - int (length es)\<rparr>) = Some (t, None) \<and>
    placed hs t \<and> room t \<and> ht_entries t = es \<and> ht_log2 t = k \<and> ht_usable t = int (usable_of k) - int (length es)"
proof -
  let ?t = "(ht_new k es)\<lparr>ht_usable := ht_usable (ht_new k es) - int (length es)\<rparr>"
  have "placed hs (built ?t 0) \<and> room (built ?t 0)"
    by (rule placed_empty) (simp_all add: built_def ht_new_def usable_of_def)
  then obtain ixs where ixs: "build_from hs upd 0 es ?t = Some (?t\<lparr>ht_indices := ixs\<rparr>, None)"
      "placed hs (built (?t\<lparr>ht_indices := ixs\<rparr>) (length es))" "room (built (?t\<lparr>ht_indices := ixs\<rparr>) (length es))"
    using build_from_placed [of ?t hs upd 0] assms by (auto simp: ht_new_def)
  moreover have "built (?t\<lparr>ht_indices := ixs\<rparr>) (length es) = ?t\<lparr>ht_indices := ixs\<rparr>"
    by (simp add: built_def ht_new_def usable_of_def)
  ultimately show ?thesis
    by (intro exI [of _ "?t\<lparr>ht_indices := ixs\<rparr>"]) (simp add: build_indices_def ht_new_def usable_of_def)
qed

text \<open>\<^verbatim>\<open>del_idx\<close> finds the slot of an entry.\<close>

lemma find_idx_found:
  assumes "ixs ! probe k h n = idx" "\<And>m. m < n \<Longrightarrow> ixs ! probe k h m \<noteq> idx" "m \<le> n"
  shows "find_idx k ixs idx ((probe_next k ^^ m) (probe_start k h)) = Some (probe k h n)"
  using assms(3)
proof (induction "n - m" arbitrary: m)
  case 0
  then show ?case using assms(1) by (subst find_idx.simps) (simp add: probe_def)
next
  case (Suc d)
  then have "m < n" by simp
  then show ?case using Suc.hyps(1) [of "Suc m"] Suc.hyps(2) assms(2) [of m]
    by (subst find_idx.simps) (simp add: probe_def)
qed

lemma del_idx_drop:
  assumes "placed hs t" "i < 2 ^ ht_log2 t" "look t i = Some (j, e)"
  shows "del_idx (hs (me_identity e)) j (t\<lparr>ht_entries := es\<rparr>) = Some (drop_slot i es t)"
proof -
  let ?k = "ht_log2 t" and ?h = "hs (me_identity e)"
  have t: "sound t" "one_slot t" using assms(1) by (simp_all add: placed_def)
  obtain n where n: "probe ?k ?h n = i" using placed_on_path [OF assms] by (auto simp: path_def)
  let ?n = "LEAST n. probe ?k ?h n = i"
  have first: "probe ?k ?h ?n = i" "m < ?n \<Longrightarrow> probe ?k ?h m \<noteq> i" for m
    using LeastI [of "\<lambda>n. probe ?k ?h n = i", OF n] not_less_Least [of m "\<lambda>n. probe ?k ?h n = i"] by blast+
  have ix: "ht_indices t ! i = int j" using assms(3) by (simp add: look_Some)
  have "ht_indices t ! probe ?k ?h m \<noteq> int j" if "m < ?n" for m
    using t assms(2) ix first(2) [OF that] probe_less [of ?k ?h m] unfolding one_slot_def sound_def by force
  then have "find_idx ?k (ht_indices t) (int j) (probe_start ?k ?h) = Some i"
    using find_idx_found [of "ht_indices t" ?k ?h ?n "int j" 0] first(1) ix by simp
  then show ?thesis by (simp add: del_idx_def drop_slot_def)
qed

end
