(* ===== verification/Md_Loops.thy ===== *)
theory Md_Loops
  imports Md_Table
begin

text \<open>
  What the loops of multidict do. A loop over \<open>iter_hash\<close> that handles the entries of one identity,
  and makes each of them invisible to the rest of the loop, handles every entry with that
  identity exactly once and in the order of insertion, although the probing sequence may come to
  a slot several times.
\<close>

section \<open>Loops over the entries of one identity\<close>

text \<open>
  A slot may come up again. \<open>N s i\<close> says that the body has nothing to do any more at the slot \<open>i\<close>,
  because it shows nothing or because the body would change nothing; each round settles its slot.
\<close>

fun runs :: "(nat \<Rightarrow> nat \<Rightarrow> 'v mentry \<Rightarrow> 's \<Rightarrow> 's + 's) \<Rightarrow> (nat \<times> nat \<times> 'v mentry) list \<Rightarrow> 's \<Rightarrow> 's" where
  "runs body [] s = s"
| "runs body ((i, j, e) # ps) s = (case body i j e s of Inl s' \<Rightarrow> s' | Inr s' \<Rightarrow> runs body ps s')"

definition hits :: "(nat \<Rightarrow> (nat \<times> 'v mentry) option) \<Rightarrow> nat list \<Rightarrow> (nat \<times> nat \<times> 'v mentry) list" where
  "hits lk = List.map_filter (\<lambda>i. map_option (Pair i) (lk i))"

lemma hits_simps [simp]:
  "hits lk [] = []" "hits lk (i # is) = (case lk i of None \<Rightarrow> hits lk is | Some p \<Rightarrow> (i, p) # hits lk is)"
  by (simp_all add: hits_def map_filter_simps split: option.split)

lemma hits_cong: "(\<And>i. i \<in> set is \<Longrightarrow> lk i = lk' i) \<Longrightarrow> hits lk is = hits lk' is"
  unfolding hits_def by (rule map_filter_cong) simp

lemma hits_invisible: "lk i = None \<Longrightarrow> hits lk (filter (\<lambda>y. y \<noteq> i) is) = hits lk is"
  by (induction "is") (auto split: option.split)

definition settles ::
    "('s \<Rightarrow> bool) \<Rightarrow> ('s \<Rightarrow> nat \<Rightarrow> bool) \<Rightarrow> nat \<Rightarrow> ('s \<Rightarrow> nat \<Rightarrow> (nat \<times> 'v mentry) option) \<Rightarrow>
     (nat \<Rightarrow> nat \<Rightarrow> 'v mentry \<Rightarrow> 's \<Rightarrow> 's + 's) \<Rightarrow> bool" where
  "settles P N n lk body \<longleftrightarrow>
     (\<forall>s i j e s'. P s \<and> i < n \<and> lk s i = Some (j, e) \<and> body i j e s = Inr s' \<longrightarrow>
        P s' \<and> N s' i \<and> (\<forall>i' < n. i' \<noteq> i \<longrightarrow> lk s' i' = lk s i' \<and> (N s i' \<longrightarrow> N s' i'))) \<and>
     (\<forall>s i j e. P s \<and> N s i \<and> lk s i = Some (j, e) \<longrightarrow> body i j e s = Inr s)"

lemma settlesI:
  assumes "\<And>s i j e s'. P s \<Longrightarrow> i < n \<Longrightarrow> lk s i = Some (j, e) \<Longrightarrow> body i j e s = Inr s' \<Longrightarrow>
      P s' \<and> N s' i \<and> (\<forall>i' < n. i' \<noteq> i \<longrightarrow> lk s' i' = lk s i' \<and> (N s i' \<longrightarrow> N s' i'))"
    and "\<And>s i j e. P s \<Longrightarrow> N s i \<Longrightarrow> lk s i = Some (j, e) \<Longrightarrow> body i j e s = Inr s"
  shows "settles P N n lk body"
  unfolding settles_def
proof (intro conjI allI impI)
  fix s i j e s'
  assume "P s \<and> i < n \<and> lk s i = Some (j, e) \<and> body i j e s = Inr s'"
  then have "P s' \<and> N s' i \<and> (\<forall>i' < n. i' \<noteq> i \<longrightarrow> lk s' i' = lk s i' \<and> (N s i' \<longrightarrow> N s' i'))"
    using assms(1) [of s i j e s'] by simp
  then show "P s'" "N s' i" "i' < n \<Longrightarrow> i' \<noteq> i \<Longrightarrow> lk s' i' = lk s i'" "i' < n \<Longrightarrow> i' \<noteq> i \<Longrightarrow> N s i' \<Longrightarrow> N s' i'" for i'
    by simp_all
qed (use assms(2) in simp)

lemma settlesD:
  assumes "settles P N n lk body" "P s" "i < n" "lk s i = Some (j, e)" "body i j e s = Inr s'"
  shows "P s'" "N s' i" "i' < n \<Longrightarrow> i' \<noteq> i \<Longrightarrow> lk s' i' = lk s i'" "i' < n \<Longrightarrow> i' \<noteq> i \<Longrightarrow> N s i' \<Longrightarrow> N s' i'"
  using assms unfolding settles_def by blast+

lemma settles_done: "settles P N n lk body \<Longrightarrow> P s \<Longrightarrow> N s i \<Longrightarrow> lk s i = Some (j, e) \<Longrightarrow> body i j e s = Inr s"
  unfolding settles_def by blast

lemma walk_runs:
  assumes "settles P N n lk body" "P s" "\<forall>i \<in> set is. i < n" "\<forall>i \<in> V. N s i" "\<forall>i \<in> V. i < n"
  shows "walk lk body is s = runs body (hits (lk s) (filter (\<lambda>i. i \<notin> V) (nub is))) s"
  using assms(2-5)
proof (induction "is" arbitrary: s V)
  case (Cons i "is")
  have i: "i < n" "\<forall>x \<in> set is. x < n" using Cons.prems(2) by simp_all
  have nub: "filter (\<lambda>x. x \<notin> V) (nub (i # is)) = (if i \<in> V then filter (\<lambda>x. x \<notin> V) (nub is) else i # filter (\<lambda>x. x \<notin> insert i V) (nub is))"
    by (auto intro!: filter_cong)
  show ?case
  proof (cases "lk s i")
    case None
    have "hits (lk s) (filter (\<lambda>x. x \<notin> insert i V) (nub is)) = hits (lk s) (filter (\<lambda>x. x \<notin> V) (nub is))"
      using hits_invisible [of "lk s" i, OF None, of "filter (\<lambda>x. x \<notin> V) (nub is)"] by (simp add: conj_commute)
    then show ?thesis using Cons.IH [OF Cons.prems(1) i(2) Cons.prems(3,4)] None by (simp only: nub) simp
  next
    case (Some p)
    then obtain j e where p: "lk s i = Some (j, e)" by (cases p) auto
    show ?thesis
    proof (cases "i \<in> V")
      case True
      then have "body i j e s = Inr s" using settles_done [OF assms(1) Cons.prems(1) _ p] Cons.prems(3) by blast
      then show ?thesis using Cons.IH [OF Cons.prems(1) i(2) Cons.prems(3,4)] p True by (simp only: nub) simp
    next
      case False
      show ?thesis
      proof (cases "body i j e s")
        case (Inr s')
        note d = settlesD [OF assms(1) Cons.prems(1) i(1) p Inr]
        have "\<forall>x \<in> insert i V. N s' x" "\<forall>x \<in> insert i V. x < n" using d(2,4) Cons.prems(3,4) i(1) by auto
        note IH = Cons.IH [OF d(1) i(2) this]
        have "hits (lk s') (filter (\<lambda>x. x \<notin> insert i V) (nub is)) = hits (lk s) (filter (\<lambda>x. x \<notin> insert i V) (nub is))"
          using d(3) i(2) by (intro hits_cong) simp
        then show ?thesis using IH p Inr False by (simp only: nub) simp
      next
        case (Inl s')
        then show ?thesis using p False by (simp only: nub) simp
      qed
    qed
  qed
qed simp

lemma hits_idx:
  assumes "placed hs t" "\<forall>e. Some e \<in> set (ht_entries t) \<and> Q e \<longrightarrow> hs (me_identity e) = h"
  defines "ps \<equiv> hits (look_q Q t) (nub (path (ht_log2 t) (frees t) h))"
  shows "map (fst \<circ> snd) ps = idx_of Q (ht_entries t)"
    "(i, j, e) \<in> set ps \<Longrightarrow> look t i = Some (j, e) \<and> Q e \<and> i < 2 ^ ht_log2 t"
proof -
  let ?p = "nub (path (ht_log2 t) (frees t) h)" and ?Q0 = "\<lambda>e. hs (me_identity e) = h"
  have t: "sound t" using assms(1) by (simp add: placed_def)
  have p: "i < 2 ^ ht_log2 t" if "i \<in> set ?p" for i
    using that path_not_free [of "ht_log2 t" "frees t" i h] t by (simp add: sound_def)
  have js: "map (fst \<circ> snd) (hits (look_q Q t) is) = filter (\<lambda>j. j \<in> set (idx_of Q (ht_entries t))) (List.map_filter (look_of ?Q0 t) is)"
    if "\<forall>i \<in> set is. i < 2 ^ ht_log2 t" for "is"
    using that
  proof (induction "is")
    case (Cons i "is")
    show ?case
    proof (cases "look t i")
      case (Some je)
      then obtain j e where je: "look t i = Some (j, e)" by (cases je) auto
      have b: "j < length (ht_entries t)" using look_bounds [OF t _ je] Cons.prems by simp
      have e: "ht_entries t ! j = Some e" using je unfolding look_Some by blast
      have "j \<in> set (idx_of Q (ht_entries t)) \<longleftrightarrow> Q e" using b e by (simp add: set_idx_of)
      moreover have "Q e \<Longrightarrow> hs (me_identity e) = h" using assms(2) b e nth_mem by metis
      ultimately show ?thesis using Cons je
        by (auto simp: look_q_def look_of_def map_filter_simps)
    qed (use Cons in \<open>simp add: look_q_def look_of_def map_filter_simps\<close>)
  qed simp
  have sub: "set (idx_of Q (ht_entries t)) \<subseteq> set (idx_of ?Q0 (ht_entries t))"
    using assms(2) unfolding subset_iff set_idx_of by (metis nth_mem)
  have "map (fst \<circ> snd) ps = filter (\<lambda>j. j \<in> set (idx_of Q (ht_entries t))) (idx_of ?Q0 (ht_entries t))"
    using js [of ?p] p assms(1) by (simp add: ps_def placed_def found_def)
  also have "\<dots> = idx_of Q (ht_entries t)"
  proof (rule sorted_distinct_set_unique)
    show "set (filter (\<lambda>j. j \<in> set (idx_of Q (ht_entries t))) (idx_of ?Q0 (ht_entries t))) = set (idx_of Q (ht_entries t))"
      using sub by auto
  qed (simp_all add: idx_of_def sorted_wrt_filter)
  finally show "map (fst \<circ> snd) ps = idx_of Q (ht_entries t)" .
  show "(i, j, e) \<in> set ps \<Longrightarrow> look t i = Some (j, e) \<and> Q e \<and> i < 2 ^ ht_log2 t"
    using p by (auto simp: ps_def hits_def set_map_filter look_q_Some)
qed

text \<open>The loop as a run over its hits.\<close>

lemma probe_loop_runs:
  assumes inv: "\<And>s. P s \<Longrightarrow> sound (tb s) \<and> ht_log2 (tb s) = k \<and> frees (tb s) = fr"
    and settles: "settles P N (2 ^ k) (\<lambda>s. look_q Q (tb s)) body" and "P s"
  shows "probe_loop tb (\<lambda>i j e s. if Q e then body i j e s else Inr s) k (probe_start k h) s =
    Some (runs body (hits (look_q Q (tb s)) (nub (path k fr h))) s, None)"
proof -
  let ?body = "\<lambda>i j e s. if Q e then body i j e s else Inr s"
  have pres: "P s'" if "P s" "look (tb s) i = Some (j, e)" "i < 2 ^ k" "?body i j e s = Inr s'" for s i j e s'
    using that settlesD(1) [OF settles that(1,3), of j e s'] by (cases "Q e") (auto simp: look_q_Some)
  have "has_free k fr" using inv [OF assms(3)] by (auto simp: sound_def)
  then have "\<forall>i \<in> set (path k fr h). i < 2 ^ k" using path_not_free by blast
  then have "walk (\<lambda>s. look_q Q (tb s)) body (path k fr h) s = runs body (hits (look_q Q (tb s)) (nub (path k fr h))) s"
    using walk_runs [OF settles assms(3), of "path k fr h" "{}"] by simp
  moreover have "probe_loop tb ?body k (probe_start k h) s = Some (walk (\<lambda>s. look (tb s)) ?body (path k fr h) s, None)"
    using probe_loop_start [of P tb k fr ?body s h] inv pres assms(3) unfolding path_def by blast
  moreover have "walk (\<lambda>s. look (tb s)) ?body (path k fr h) s = walk (\<lambda>s. look_q Q (tb s)) body (path k fr h) s"
    using walk_filter [of "\<lambda>e. True" tb Q body] by (simp add: look_q_True)
  ultimately show ?thesis by simp
qed

text \<open>
  \<open>Q\<close> says which entries the body of a loop over \<open>iter_hash\<close> handles.
\<close>

lemma iter_hash_runs:
  assumes sel: "\<And>i j e s. (if me_hash e = h then bd i j e s else Inr s) = (if Q e then body i j e s else Inr s)"
    and inv: "\<And>s. P s \<Longrightarrow> sound (tb s) \<and> ht_log2 (tb s) = k \<and> frees (tb s) = fr"
    and settles: "settles P N (2 ^ k) (\<lambda>s. look_q Q (tb s)) body" and "P s"
  shows "iter_hash tb bd h s = Some (runs body (hits (look_q Q (tb s)) (nub (path k fr h))) s, None)"
proof -
  have "(\<lambda>i j e s. if me_hash e = h then bd i j e s else Inr s) = (\<lambda>i j e s. if Q e then body i j e s else Inr s)"
    using sel by (simp add: fun_eq_iff)
  moreover have "ht_log2 (tb s) = k" using inv [OF assms(4)] by simp
  moreover note probe_loop_runs [where P = P, OF inv settles assms(4), of h]
  ultimately show ?thesis unfolding iter_hash_def by (simp only:)
qed

lemma sel_id:
  "(if me_hash e = h then if me_identity e = x then body i j e s else Inr s else Inr s) =
   (if me_hash e = h \<and> me_identity e = x then body i j e s else Inr s)"
  by simp

section \<open>Handling the entries one after the other\<close>

text \<open>
  \<open>F n\<close> says what becomes of the \<open>n\<close>-th entry of the loop: a changed entry that the loop does not
  see again, or none. \<open>act\<close> is what the body does to the table, \<open>trans\<close> what the loop does to the
  list of entries.
\<close>

definition act :: "(nat \<Rightarrow> 'v mentry \<Rightarrow> 'v mentry option) \<Rightarrow> nat \<Rightarrow> nat \<times> nat \<times> 'v mentry \<Rightarrow> 'v ht \<Rightarrow> 'v ht" where
  "act F n = (\<lambda>(i, j, e) t. case F n e of
     Some e' \<Rightarrow> t\<lparr>ht_entries := (ht_entries t)[j := Some e']\<rparr>
   | None \<Rightarrow> drop_slot i ((ht_entries t)[j := None]) t)"

fun acts :: "(nat \<Rightarrow> 'v mentry \<Rightarrow> 'v mentry option) \<Rightarrow> nat \<Rightarrow> (nat \<times> nat \<times> 'v mentry) list \<Rightarrow> 'v ht \<Rightarrow> 'v ht" where
  "acts F n [] t = t"
| "acts F n (p # ps) t = acts F (Suc n) ps (act F n p t)"

fun trans_from ::
    "('v mentry \<Rightarrow> bool) \<Rightarrow> (nat \<Rightarrow> 'v mentry \<Rightarrow> 'v mentry option) \<Rightarrow> nat \<Rightarrow> 'v mentry option list \<Rightarrow> 'v mentry option list"
  where
  "trans_from Q F n [] = []"
| "trans_from Q F n (None # es) = None # trans_from Q F n es"
| "trans_from Q F n (Some e # es) =
     (if Q e then F n e # trans_from Q F (Suc n) es else Some e # trans_from Q F n es)"

definition keeps :: "('v mentry \<Rightarrow> bool) \<Rightarrow> ('v mentry \<Rightarrow> bool) \<Rightarrow> (nat \<Rightarrow> 'v mentry \<Rightarrow> 'v mentry option) \<Rightarrow> bool" where
  "keeps Q D F \<longleftrightarrow> (\<forall>n e e'. F n e = Some e' \<longrightarrow> me_identity e' = me_identity e \<and> (Q e' \<longrightarrow> D e'))"

lemma act_entries: "ht_entries (act F n (i, j, e) t) = (ht_entries t)[j := F n e]"
  by (simp add: act_def split: option.split)

lemma act_log2 [simp]: "ht_log2 (act F n p t) = ht_log2 t"
  by (cases p) (simp add: act_def split: option.split)

lemma same_ids_one:
  assumes "es ! j = Some e" "me_identity e' = me_identity e"
  shows "same_ids es (es[j := Some e'])"
  unfolding same_ids_def using assms by (intro nth_equalityI) (auto simp: upd_nth)

lemma act_ok:
  assumes "placed hs t" "i < 2 ^ ht_log2 t" "look t i = Some (j, e)" "keeps Q D F" "room t"
  shows "placed hs (act F n (i, j, e) t)" "frees (act F n (i, j, e) t) = frees t" "room (act F n (i, j, e) t)"
    "i' < 2 ^ ht_log2 t \<Longrightarrow> i' \<noteq> i \<Longrightarrow> look_q Q (act F n (i, j, e) t) i' = look_q Q t i'"
    "look_q Q (act F n (i, j, e) t) i = Some (j', e') \<Longrightarrow> j' = j \<and> D e'"
proof -
  have t: "sound t" "one_slot t" using assms(1) by (simp_all add: placed_def)
  have e: "ht_entries t ! j = Some e" "0 \<le> ht_indices t ! i" "j = nat (ht_indices t ! i)" using assms(3) by (auto simp: look_Some)
  have b: "j < length (ht_entries t)" by (rule look_bounds [OF t(1) assms(2,3)])
  have "placed hs (act F n (i, j, e) t) \<and> frees (act F n (i, j, e) t) = frees t \<and> room (act F n (i, j, e) t) \<and>
    (i' < 2 ^ ht_log2 t \<and> i' \<noteq> i \<longrightarrow> look_q Q (act F n (i, j, e) t) i' = look_q Q t i') \<and>
    (look_q Q (act F n (i, j, e) t) i = Some (j', e') \<longrightarrow> j' = j \<and> D e')" for i' j' e'
  proof (cases "F n e")
    case None
    then show ?thesis
      using placed_drop [OF assms(1-3) without_None [OF b]] frees_drop [OF e(2)] room_drop [OF assms(5,3)]
        look_drop [OF t assms(2,3) without_None [OF b], of i'] look_drop [OF t assms(2,3) without_None [OF b], of i] assms(2)
      by (simp add: act_def look_q_def)
  next
    case (Some e1)
    let ?t = "t\<lparr>ht_entries := (ht_entries t)[j := Some e1]\<rparr>"
    have e1: "me_identity e1 = me_identity e" "Q e1 \<longrightarrow> D e1" using assms(4) Some by (auto simp: keeps_def)
    have "look_q Q ?t i' = look_q Q t i'" if "i' < 2 ^ ht_log2 t" "i' \<noteq> i"
    proof -
      have "0 \<le> ht_indices t ! i' \<Longrightarrow> nat (ht_indices t ! i') \<noteq> j"
        using t assms(2) that e unfolding one_slot_def sound_def by (metis eq_nat_nat_iff)
      then show ?thesis by (cases "0 \<le> ht_indices t ! i'") (simp_all add: look_q_def look_def)
    qed
    moreover have "look_q Q ?t i = (if Q e1 then Some (j, e1) else None)" using b e by (simp add: look_q_def look_def)
    moreover have "frees ?t = frees t" by (simp add: frees_def)
    ultimately show ?thesis
      using placed_same [OF assms(1) same_ids_one [OF e(1) e1(1)]] assms(5) Some e1(2) by (auto simp: act_def room_same split: if_splits)
  qed
  then show "placed hs (act F n (i, j, e) t)" "frees (act F n (i, j, e) t) = frees t" "room (act F n (i, j, e) t)"
    "i' < 2 ^ ht_log2 t \<Longrightarrow> i' \<noteq> i \<Longrightarrow> look_q Q (act F n (i, j, e) t) i' = look_q Q t i'"
    "look_q Q (act F n (i, j, e) t) i = Some (j', e') \<Longrightarrow> j' = j \<and> D e'" by blast+
qed

text \<open>The list after a run over the indices of \<open>Q\<close>.\<close>

fun upd_seq :: "(nat \<Rightarrow> 'v mentry \<Rightarrow> 'v mentry option) \<Rightarrow> nat \<Rightarrow> nat list \<Rightarrow> 'v mentry option list \<Rightarrow> 'v mentry option list" where
  "upd_seq F n [] es = es"
| "upd_seq F n (j # js) es = upd_seq F (Suc n) js (es[j := Option.bind (es ! j) (F n)])"

lemma idx_of_Cons:
  "idx_of Q (x # es) = (case x of Some e \<Rightarrow> if Q e then [0] else [] | None \<Rightarrow> []) @ map Suc (idx_of Q es)"
proof -
  have "[0..<length (x # es)] = 0 # map Suc [0..<length es]" by (simp add: map_Suc_upt upt_conv_Cons del: upt_Suc)
  then show ?thesis by (simp add: idx_of_def filter_map comp_def split: option.split del: upt_Suc)
qed

lemma upd_seq_trans: "upd_seq F n (idx_of Q es) es = trans_from Q F n es"
proof -
  have "upd_seq F n (map (\<lambda>j. length pre + j) (idx_of Q es)) (pre @ es) = pre @ trans_from Q F n es" for pre
  proof (induction es arbitrary: pre n)
    case (Cons x es)
    have shift: "(\<lambda>j. length (pre @ [y]) + j) = (\<lambda>j. length pre + Suc j)" for y :: "'a mentry option"
      by auto
    have IH: "upd_seq F m (map (\<lambda>j. length pre + j) (map Suc (idx_of Q es))) (pre @ y # es) = pre @ y # trans_from Q F m es" for y m
      using Cons [of m "pre @ [y]"] unfolding shift by (simp add: comp_def)
    show ?case
    proof (cases x)
      case None
      then show ?thesis using IH by (simp add: idx_of_Cons)
    next
      case (Some e)
      then show ?thesis using IH by (simp add: idx_of_Cons nth_append)
    qed
  qed (simp add: idx_of_def)
  from this [of "[]"] show ?thesis by simp
qed

lemma look_entry: "look t i = Some (j, e) \<Longrightarrow> ht_entries t ! j = Some e"
  unfolding look_Some by blast

text \<open>The hits of a loop are distinct slots that show entries the loop handles.\<close>

definition hit_list :: "('v mentry \<Rightarrow> bool) \<Rightarrow> 'v ht \<Rightarrow> (nat \<times> nat \<times> 'v mentry) list \<Rightarrow> bool" where
  "hit_list Q t ps \<longleftrightarrow> distinct (map fst ps) \<and>
     (\<forall>(i, j, e) \<in> set ps. i < 2 ^ ht_log2 t \<and> look t i = Some (j, e) \<and> Q e)"

lemma hit_list_step:
  assumes "placed hs t" "room t" "keeps Q D F" "hit_list Q t (p # ps)"
  shows "hit_list Q (act F n p t) ps"
proof -
  obtain i j e where p: "p = (i, j, e)" by (cases p)
  have i: "i < 2 ^ ht_log2 t" "look t i = Some (j, e)" using assms(4) p by (auto simp: hit_list_def)
  note ok = act_ok [OF assms(1) i assms(3,2), where n = n]
  have "i' < 2 ^ ht_log2 t \<and> look (act F n p t) i' = Some (j', e') \<and> Q e'" if "(i', j', e') \<in> set ps" for i' j' e'
  proof -
    have i': "i' < 2 ^ ht_log2 t" "look t i' = Some (j', e')" "Q e'" "i' \<noteq> i"
      using that assms(4) p by (force simp: hit_list_def)+
    then have "look_q Q (act F n p t) i' = Some (j', e')" using ok(4) [OF i'(1,4)] p by (simp add: look_q_Some)
    then show ?thesis using i' by (simp add: look_q_Some)
  qed
  then show ?thesis using assms(4) by (auto simp: hit_list_def)
qed

lemma acts_ok:
  assumes "placed hs t" "room t" "keeps Q D F" "hit_list Q t ps"
  shows "placed hs (acts F n ps t) \<and> room (acts F n ps t) \<and> ht_log2 (acts F n ps t) = ht_log2 t \<and>
    frees (acts F n ps t) = frees t \<and> ht_entries (acts F n ps t) = upd_seq F n (map (fst \<circ> snd) ps) (ht_entries t)"
  using assms
proof (induction ps arbitrary: n t)
  case (Cons p ps)
  obtain i j e where p: "p = (i, j, e)" by (cases p)
  have i: "i < 2 ^ ht_log2 t" "look t i = Some (j, e)" using Cons.prems(4) p by (auto simp: hit_list_def)
  note ok = act_ok [OF Cons.prems(1) i Cons.prems(3,2), where n = n]
  have pl: "placed hs (act F n p t)" "room (act F n p t)" "frees (act F n p t) = frees t" using ok p by auto
  note IH = Cons.IH [OF pl(1,2) Cons.prems(3) hit_list_step [OF Cons.prems], of "Suc n"]
  have "ht_entries t ! j = Some e" using i(2) unfolding look_Some by blast
  then have "ht_entries (act F n p t) = (ht_entries t)[j := Option.bind (ht_entries t ! j) (F n)]"
    using act_entries [of F n i j e t] p by simp
  then show ?case using IH p pl(3) by simp
qed simp

section \<open>The loop over the entries with an identity\<close>

definition live :: "'v mentry option list \<Rightarrow> 'v mentry list" where
  "live es = map the (filter (\<lambda>e. e \<noteq> None) es)"

lemma iter_entries_live: "iter_entries t = live (ht_entries t)"
  by (simp add: iter_entries_def live_def)

lemma live_simps [simp]:
  "live [] = []" "live (None # es) = live es" "live (Some e # es) = e # live es" "live (es @ fs) = live es @ live fs"
  by (simp_all add: live_def)

lemma set_live: "e \<in> set (live es) \<longleftrightarrow> Some e \<in> set es"
  by (force simp: live_def image_iff)

lemma map_idx_of: "map (\<lambda>j. the (es ! j)) (idx_of Q es) = filter Q (live es)"
proof (induction es)
  case (Cons x es)
  then show ?case by (cases x) (simp_all add: idx_of_Cons comp_def)
qed (simp add: idx_of_def)

lemma idx_of_cong: "(\<And>e. e \<in> set (live es) \<Longrightarrow> Q e \<longleftrightarrow> R e) \<Longrightarrow> idx_of Q es = idx_of R es"
  unfolding idx_of_def set_live by (rule filter_cong) (auto split: option.split simp: in_set_conv_nth)

text \<open>
  The table \<open>t'\<close> after a loop over the entries for which \<open>Q\<close> holds, which met the hits \<open>ps\<close>.
\<close>

definition looped ::
    "(string \<Rightarrow> int) \<Rightarrow> ('v mentry \<Rightarrow> bool) \<Rightarrow> (nat \<Rightarrow> 'v mentry \<Rightarrow> 'v mentry option) \<Rightarrow> 'v ht \<Rightarrow>
     (nat \<times> nat \<times> 'v mentry) list \<Rightarrow> 'v ht \<Rightarrow> bool" where
  "looped hs Q F t ps t' \<longleftrightarrow> t' = acts F 0 ps t \<and> placed hs t' \<and> room t' \<and>
     map (\<lambda>(i, j, e). e) ps = filter Q (live (ht_entries t)) \<and>
     map (fst \<circ> snd) ps = idx_of Q (ht_entries t) \<and>
     ht_entries t' = trans_from Q F 0 (ht_entries t)"

lemma trans_from_cong:
  "(\<And>e. e \<in> set (live es) \<Longrightarrow> Q e \<longleftrightarrow> R e) \<Longrightarrow> trans_from Q F n es = trans_from R F n es"
proof (induction es arbitrary: n)
  case (Cons x es)
  then show ?case by (cases x) auto
qed simp

lemma looped_cong:
  assumes "looped hs Q F t ps t'" "\<And>e. e \<in> set (live (ht_entries t)) \<Longrightarrow> Q e \<longleftrightarrow> R e"
  shows "looped hs R F t ps t'"
proof -
  have "filter Q (live (ht_entries t)) = filter R (live (ht_entries t))" using assms(2) by (rule filter_cong [OF refl])
  moreover have "idx_of Q (ht_entries t) = idx_of R (ht_entries t)" by (rule idx_of_cong) (rule assms(2))
  moreover have "trans_from Q F 0 (ht_entries t) = trans_from R F 0 (ht_entries t)" by (rule trans_from_cong) (rule assms(2))
  ultimately show ?thesis using assms(1) unfolding looped_def by metis
qed

lemma map_fst_hits: "map fst (hits lk is) = filter (\<lambda>i. lk i \<noteq> None) is"
  by (induction "is") (auto split: option.split)

lemma q_hits:
  assumes t: "placed hs t" and h: "\<forall>e. Some e \<in> set (ht_entries t) \<and> Q e \<longrightarrow> hs (me_identity e) = h"
  defines "ps \<equiv> hits (look_q Q t) (nub (path (ht_log2 t) (frees t) h))"
  shows "hit_list Q t ps" "map (\<lambda>(i, j, e). e) ps = filter Q (live (ht_entries t))"
    "map (fst \<circ> snd) ps = idx_of Q (ht_entries t)"
proof -
  note hi = hits_idx [OF t(1) h, folded ps_def]
  show hits: "map (fst \<circ> snd) ps = idx_of Q (ht_entries t)" by (rule hi(1))
  have "e = the (ht_entries t ! j)" if "(i, j, e) \<in> set ps" for i j e
    using look_entry [of t i j e] hi(2) [OF that] by simp
  then have "map (\<lambda>(i, j, e). e) ps = map (\<lambda>j. the (ht_entries t ! j)) (map (fst \<circ> snd) ps)" by auto
  then show "map (\<lambda>(i, j, e). e) ps = filter Q (live (ht_entries t))"
    unfolding hits map_idx_of .
  have "\<forall>(i, j, e) \<in> set ps. i < 2 ^ ht_log2 t \<and> look t i = Some (j, e) \<and> Q e" using hi(2) by blast
  then show "hit_list Q t ps" by (simp add: hit_list_def ps_def map_fst_hits)
qed

lemma id_hits:
  fixes x :: string
  assumes t: "placed hs t"
  defines "Q \<equiv> \<lambda>e. me_hash e = hs x \<and> me_identity e = x"
  defines "ps \<equiv> hits (look_q Q t) (nub (path (ht_log2 t) (frees t) (hs x)))"
  shows "hit_list Q t ps" "map (\<lambda>(i, j, e). e) ps = filter Q (live (ht_entries t))"
    "map (fst \<circ> snd) ps = idx_of Q (ht_entries t)"
  unfolding ps_def by (rule q_hits [OF t]; simp add: Q_def)+

lemma q_loop:
  assumes t: "placed hs (tb s)" "room (tb s)"
    and h: "\<forall>e. Some e \<in> set (ht_entries (tb s)) \<and> Q e \<longrightarrow> hs (me_identity e) = h"
    and sel: "\<And>i j e s. (if me_hash e = h then bd i j e s else Inr s) = (if Q e then body i j e s else Inr s)"
    and F: "keeps Q D F"
    and body: "\<And>n i j e s. rel n s \<Longrightarrow> Q e \<Longrightarrow> body i j e s = Inr (g (i, j, e) s)"
    and g: "\<And>n i j e s. rel n s \<Longrightarrow> ht_entries (tb s) ! j = Some e \<Longrightarrow> tb (g (i, j, e) s) = act F n (i, j, e) (tb s) \<and> rel (Suc n) (g (i, j, e) s)"
    and idle: "\<And>n i j e s. rel (Suc n) s \<Longrightarrow> ht_entries (tb s) ! j = Some e \<Longrightarrow> D e \<Longrightarrow> g (i, j, e) s = s"
    and "rel 0 s"
  shows "\<exists>ps. iter_hash tb bd h s = Some (fold g ps s, None) \<and> looped hs Q F (tb s) ps (tb (fold g ps s))"
proof -
  let ?k = "ht_log2 (tb s)" and ?fr = "frees (tb s)"
  let ?P = "\<lambda>s. (\<exists>n. rel n s) \<and> placed hs (tb s) \<and> room (tb s) \<and> ht_log2 (tb s) = ?k \<and> frees (tb s) = ?fr"
  let ?N = "\<lambda>s i. (\<exists>n. rel (Suc n) s) \<and> (\<forall>j e. look_q Q (tb s) i = Some (j, e) \<longrightarrow> D e)"
  let ?ps = "hits (look_q Q (tb s)) (nub (path ?k ?fr h))"
  have step: "?P s2 \<and> ?N s2 i \<and> (\<forall>i' < 2 ^ ?k. i' \<noteq> i \<longrightarrow> look_q Q (tb s2) i' = look_q Q (tb s1) i' \<and> (?N s1 i' \<longrightarrow> ?N s2 i'))"
    if "?P s1" "i < 2 ^ ?k" "look_q Q (tb s1) i = Some (j, e)" "body i j e s1 = Inr s2" for s1 i j e s2
  proof -
    note prems = that
    obtain n where n: "rel n s1" using prems(1) by blast
    have lk: "look (tb s1) i = Some (j, e)" "Q e" using prems(3) by (simp_all add: look_q_Some)
    have s2: "s2 = g (i, j, e) s1" using body [OF n lk(2)] prems(4) by simp
    note gs = g [OF n look_entry [OF lk(1)], of i, folded s2]
    have p: "placed hs (tb s1)" "i < 2 ^ ht_log2 (tb s1)" "room (tb s1)" "ht_log2 (tb s1) = ?k" "frees (tb s1) = ?fr"
      using prems(1,2) by auto
    note ok = act_ok [OF p(1,2) lk(1) F p(3), where n = n]
    have "?P s2" using gs ok(1-3) p(4,5) by auto
    moreover have same: "\<forall>i' < 2 ^ ?k. i' \<noteq> i \<longrightarrow> look_q Q (tb s2) i' = look_q Q (tb s1) i'"
      using gs ok(4) p(4) by simp
    moreover have "\<forall>j' e'. look_q Q (tb s2) i = Some (j', e') \<longrightarrow> D e'" using gs ok(5) by simp
    ultimately show ?thesis using gs by auto
  qed
  have again: "body i j e s1 = Inr s1" if "?P s1" "?N s1 i" "look_q Q (tb s1) i = Some (j, e)" for s1 i j e
  proof -
    note prems = that
    have lk: "look (tb s1) i = Some (j, e)" "Q e" using prems(3) by (simp_all add: look_q_Some)
    obtain n where n: "rel (Suc n) s1" "D e" using prems(2,3) by blast
    show ?thesis using body [OF n(1) lk(2)] idle [OF n(1) look_entry [OF lk(1)] n(2)] by simp
  qed
  have settles: "settles ?P ?N (2 ^ ?k) (\<lambda>s. look_q Q (tb s)) body"
    by (rule settlesI) (fact step, fact again)
  have "?P s" using assms(9) t by auto
  then have loop: "iter_hash tb bd h s = Some (runs body ?ps s, None)"
    by (intro iter_hash_runs [where P = ?P, OF sel _ settles]) (auto simp: placed_def)
  note hl = q_hits [where hs = hs, OF t(1) h]
  have fold: "runs body ps s1 = fold g ps s1 \<and> tb (fold g ps s1) = acts F n ps (tb s1)"
    if "rel n s1" "placed hs (tb s1)" "room (tb s1)" "hit_list Q (tb s1) ps" for ps n s1
    using that
  proof (induction ps arbitrary: n s1)
    case (Cons p ps)
    obtain i j e where p: "p = (i, j, e)" by (cases p)
    have i: "i < 2 ^ ht_log2 (tb s1)" "look (tb s1) i = Some (j, e)" "Q e"
      using Cons.prems(4) p by (auto simp: hit_list_def)
    note gp = g [OF Cons.prems(1) look_entry [OF i(2)], of i, folded p]
    have "placed hs (act F n p (tb s1))" "room (act F n p (tb s1))"
      using act_ok [OF Cons.prems(2) i(1,2) F Cons.prems(3), where n = n] p by auto
    then have "runs body ps (g p s1) = fold g ps (g p s1) \<and> tb (fold g ps (g p s1)) = acts F (Suc n) ps (tb (g p s1))"
      using Cons.IH [of "Suc n" "g p s1"] gp hit_list_step [OF Cons.prems(2,3) F Cons.prems(4), where n = n] by simp
    then show ?case using gp body [OF Cons.prems(1) i(3), of i j] p by simp
  qed simp
  note f = fold [OF assms(9) t hl(1)]
  show ?thesis
    using acts_ok [OF t F hl(1), of 0] loop f hl(2,3) upd_seq_trans [of F 0 Q "ht_entries (tb s)"]
    by (intro exI [of _ ?ps]) (simp add: looped_def)
qed

lemma hash_loop:
  assumes "placed hs (tb s)" "room (tb s)"
    and h: "h = hs x"
    and "keeps (\<lambda>e. me_hash e = h \<and> me_identity e = x) D F"
    and body: "\<And>n i j e s. rel n s \<Longrightarrow> me_hash e = h \<Longrightarrow> body i j e s = Inr (g (i, j, e) s)"
    and g: "\<And>n i j e s. rel n s \<Longrightarrow> ht_entries (tb s) ! j = Some e \<Longrightarrow> tb (g (i, j, e) s) = act F n (i, j, e) (tb s) \<and> rel (Suc n) (g (i, j, e) s)"
    and idle: "\<And>n i j e s. rel (Suc n) s \<Longrightarrow> ht_entries (tb s) ! j = Some e \<Longrightarrow> D e \<Longrightarrow> g (i, j, e) s = s"
    and "rel 0 s"
  shows "\<exists>ps. iter_hash tb (\<lambda>i j e s. if me_identity e = x then body i j e s else Inr s) h s = Some (fold g ps s, None) \<and>
    looped hs (\<lambda>e. me_hash e = h \<and> me_identity e = x) F (tb s) ps (tb (fold g ps s))"
proof (rule q_loop [where rel = rel and D = D and body = body])
  show "body i j e s = Inr (g (i, j, e) s)" if "rel n s" "me_hash e = h \<and> me_identity e = x" for n i j e s
    using body that by blast
  show "\<forall>e. Some e \<in> set (ht_entries (tb s)) \<and> me_hash e = h \<and> me_identity e = x \<longrightarrow> hs (me_identity e) = h" using h by simp
qed (fact assms(1,2,4,8) g idle sel_id)+

lemma id_loop:
  assumes t: "placed hs (tb s)" "room (tb s)"
    and hash: "\<And>e. e \<in> set (live (ht_entries (tb s))) \<Longrightarrow> me_identity e = x \<Longrightarrow> me_hash e = h" "h = hs x"
    and F: "keeps (\<lambda>e. me_hash e = h \<and> me_identity e = x) D F"
    and body: "\<And>n i j e s. rel n s \<Longrightarrow> me_hash e = h \<Longrightarrow> body i j e s = Inr (g (i, j, e) s)"
    and g: "\<And>n i j e s. rel n s \<Longrightarrow> ht_entries (tb s) ! j = Some e \<Longrightarrow> tb (g (i, j, e) s) = act F n (i, j, e) (tb s) \<and> rel (Suc n) (g (i, j, e) s)"
    and idle: "\<And>n i j e s. rel (Suc n) s \<Longrightarrow> ht_entries (tb s) ! j = Some e \<Longrightarrow> D e \<Longrightarrow> g (i, j, e) s = s"
    and "rel 0 s"
  shows "\<exists>ps. iter_hash tb (\<lambda>i j e s. if me_identity e = x then body i j e s else Inr s) h s = Some (fold g ps s, None) \<and>
    looped hs (\<lambda>e. me_identity e = x) F (tb s) ps (tb (fold g ps s))"
proof -
  have loop: "\<exists>ps. iter_hash tb (\<lambda>i j e s. if me_identity e = x then body i j e s else Inr s) h s = Some (fold g ps s, None) \<and>
      looped hs (\<lambda>e. me_hash e = h \<and> me_identity e = x) F (tb s) ps (tb (fold g ps s))"
    by (rule hash_loop [where hs = hs and rel = rel and D = D]) (fact t hash(2) F body g idle assms(9))+
  obtain ps where ps: "iter_hash tb (\<lambda>i j e s. if me_identity e = x then body i j e s else Inr s) h s = Some (fold g ps s, None)"
      "looped hs (\<lambda>e. me_hash e = h \<and> me_identity e = x) F (tb s) ps (tb (fold g ps s))"
    using loop by blast
  have "looped hs (\<lambda>e. me_identity e = x) F (tb s) ps (tb (fold g ps s))"
    by (rule looped_cong [OF ps(2)]) (use hash(1) in blast)
  then show ?thesis using ps(1) by blast
qed

text \<open>\<^verbatim>\<open>restore_hash\<close> gives the entries that were marked their hash back.\<close>

lemma restore_ok:
  assumes t: "placed hs t" "room t"
    and marked: "\<forall>e. Some e \<in> set (ht_entries t) \<and> me_hash e = - 1 \<longrightarrow> hs (me_identity e) = h" and "h \<noteq> - 1"
  shows "\<exists>t'. restore_hash h t = Some (t', None) \<and> placed hs t' \<and> room t' \<and>
    ht_entries t' = trans_from (\<lambda>e. me_hash e = - 1) (\<lambda>n e. Some (e\<lparr>me_hash := h\<rparr>)) 0 (ht_entries t)"
proof -
  let ?Q = "\<lambda>e. me_hash e = - 1" and ?F = "\<lambda>n :: nat. \<lambda>e. Some (e\<lparr>me_hash := h\<rparr>)" and ?k = "ht_log2 t" and ?fr = "frees t"
  let ?b = "\<lambda>i :: nat. \<lambda>j e t. Inr (upd_entry j (\<lambda>e. e\<lparr>me_hash := h\<rparr>) t)"
  let ?P = "\<lambda>t. placed hs t \<and> room t \<and> ht_log2 t = ?k \<and> frees t = ?fr"
  let ?ps = "hits (look_q ?Q t) (nub (path ?k ?fr h))"
  have F: "keeps ?Q (\<lambda>e. False) ?F" using assms(4) by (simp add: keeps_def)
  let ?N = "\<lambda>t i. look_q ?Q t i = None"
  have upd: "upd_entry j (\<lambda>e. e\<lparr>me_hash := h\<rparr>) t1 = act ?F n (i, j, e) t1" if "ht_entries t1 ! j = Some e" for i j e t1 n
    using that by (simp add: upd_entry_def act_def)
  have step: "?P t2 \<and> ?N t2 i \<and> (\<forall>i' < 2 ^ ?k. i' \<noteq> i \<longrightarrow> look_q ?Q t2 i' = look_q ?Q t1 i' \<and> (?N t1 i' \<longrightarrow> ?N t2 i'))"
    if "?P t1" "i < 2 ^ ?k" "look_q ?Q t1 i = Some (j, e)" "?b i j e t1 = Inr t2" for t1 i j e t2
  proof -
    have lk: "look t1 i = Some (j, e)" using that(3) by (simp add: look_q_Some)
    have t2: "t2 = act ?F 0 (i, j, e) t1" using upd [OF look_entry [OF lk], of 0 i] that(4) by simp
    have p: "placed hs t1" "i < 2 ^ ht_log2 t1" "room t1" "ht_log2 t1 = ?k" "frees t1 = ?fr" using that(1,2) by auto
    note ok = act_ok [OF p(1,2) lk F p(3), where n = 0]
    have "look_q ?Q t2 i = None" using ok(5) t2 by (cases "look_q ?Q t2 i") auto
    then show ?thesis using ok(1-4) p(4,5) t2 by simp
  qed
  have settles: "settles ?P ?N (2 ^ ?k) (look_q ?Q) ?b"
  proof (rule settlesI)
    show "?b i j e t1 = Inr t1" if "look_q ?Q t1 i = None" "look_q ?Q t1 i = Some (j, e)" for t1 i j e
      using that by simp
  qed (fact step)
  have "probe_loop (\<lambda>t. t) (\<lambda>i j e s. if ?Q e then ?b i j e s else Inr s) ?k (probe_start ?k h) t =
      Some (runs ?b ?ps t, None)"
    by (rule probe_loop_runs [where P = ?P, OF _ settles]) (use t in \<open>auto simp: placed_def\<close>)
  then have "restore_hash h t = Some (runs ?b ?ps t, None)" unfolding restore_hash_def if_distrib [of Inr] .
  moreover have ra: "runs ?b ps t1 = acts ?F n ps t1" if "placed hs t1" "room t1" "hit_list ?Q t1 ps" for ps t1 n
    using that
  proof (induction ps arbitrary: t1 n)
    case (Cons p ps)
    obtain i j e where p: "p = (i, j, e)" by (cases p)
    have i: "i < 2 ^ ht_log2 t1" "look t1 i = Some (j, e)" using Cons.prems(3) p by (auto simp: hit_list_def)
    have "placed hs (act ?F n p t1)" "room (act ?F n p t1)"
      using act_ok [OF Cons.prems(1) i F Cons.prems(2), where n = n] p by auto
    then show ?case
      using Cons.IH [OF _ _ hit_list_step [OF Cons.prems(1,2) F Cons.prems(3)], of n "Suc n"]
        upd [OF look_entry [OF i(2)], of n i] p by simp
  qed simp
  moreover have "\<forall>(i, j, e) \<in> set ?ps. i < 2 ^ ?k \<and> look t i = Some (j, e) \<and> ?Q e"
    using hits_idx(2) [OF t(1) marked] by blast
  then have hl: "hit_list ?Q t ?ps" by (simp add: hit_list_def map_fst_hits)
  moreover have "map (fst \<circ> snd) ?ps = idx_of ?Q (ht_entries t)" by (rule hits_idx(1) [OF t(1) marked])
  ultimately show ?thesis
    using acts_ok [OF t F hl, of 0] ra [OF t hl, of 0] upd_seq_trans [of ?F 0 ?Q "ht_entries t"]
    by (intro exI [of _ "runs ?b ?ps t"]) simp
qed

section \<open>The live entries after a loop\<close>

fun trans_live ::
    "('v mentry \<Rightarrow> bool) \<Rightarrow> (nat \<Rightarrow> 'v mentry \<Rightarrow> 'v mentry option) \<Rightarrow> nat \<Rightarrow> 'v mentry list \<Rightarrow> 'v mentry list" where
  "trans_live Q F n [] = []"
| "trans_live Q F n (e # es) =
     (if Q e then (case F n e of Some e' \<Rightarrow> [e'] | None \<Rightarrow> []) @ trans_live Q F (Suc n) es else e # trans_live Q F n es)"

lemma live_trans: "live (trans_from Q F n es) = trans_live Q F n (live es)"
  by (induction Q F n es rule: trans_from.induct) (auto split: option.split)

lemma trans_live_none: "trans_live Q (\<lambda>n e. None) n es = filter (\<lambda>e. \<not> Q e) es"
  by (induction es arbitrary: n) simp_all

lemma trans_live_some: "trans_live Q (\<lambda>n e. Some (f e)) n es = map (\<lambda>e. if Q e then f e else e) es"
  by (induction es arbitrary: n) simp_all

lemma trans_from_twice:
  assumes "\<And>e. e \<in> set (live es) \<Longrightarrow> Q e \<Longrightarrow> R (f e) \<and> g (f e) = e" "\<And>e. e \<in> set (live es) \<Longrightarrow> \<not> Q e \<Longrightarrow> \<not> R e"
  shows "trans_from R (\<lambda>n e. Some (g e)) n (trans_from Q (\<lambda>n e. Some (f e)) m es) = es"
  using assms
proof (induction es arbitrary: n m)
  case (Cons x es)
  then show ?case by (cases x) simp_all
qed simp

lemma idx_of_trans_ids:
  "idx_of (\<lambda>e. me_identity e = x) (trans_from Q (\<lambda>n e. Some (e\<lparr>me_hash := h\<rparr>)) n es) = idx_of (\<lambda>e. me_identity e = x) es"
proof (rule idx_of_same [symmetric, of _ _ "\<lambda>y. y = x"])
  show "same_ids es (trans_from Q (\<lambda>n e. Some (e\<lparr>me_hash := h\<rparr>)) n es)"
    unfolding same_ids_def
  proof (induction es arbitrary: n)
    case (Cons x es)
    then show ?case by (cases x) simp_all
  qed simp
qed

text \<open>A loop that only changes entries.\<close>

lemma acts_some: "(\<And>n e. F n e \<noteq> None) \<Longrightarrow> acts F n ps t = t\<lparr>ht_entries := ht_entries (acts F n ps t)\<rparr>"
proof (induction ps arbitrary: n t)
  case (Cons p ps)
  obtain i j e where p: "p = (i, j, e)" by (cases p)
  obtain e' where "F n e = Some e'" using Cons.prems by blast
  then have a: "act F n p t = t\<lparr>ht_entries := (ht_entries t)[j := Some e']\<rparr>" by (simp add: p act_def)
  have "acts F (Suc n) ps (act F n p t) = (act F n p t)\<lparr>ht_entries := ht_entries (acts F (Suc n) ps (act F n p t))\<rparr>"
    by (rule Cons.IH [OF Cons.prems])
  also have "\<dots> = t\<lparr>ht_entries := ht_entries (acts F (Suc n) ps (act F n p t))\<rparr>" by (simp add: a)
  finally show ?case by simp
qed simp

lemma fold_upd_entry:
  "fold (\<lambda>j. upd_entry j f) js t = t\<lparr>ht_entries := upd_seq (\<lambda>n e. Some (f e)) n js (ht_entries t)\<rparr>"
proof (induction js arbitrary: t n)
  case (Cons j js)
  have "map_option f x = Option.bind x (\<lambda>e. Some (f e))" for x by (cases x) simp_all
  then show ?case using Cons [of "upd_entry j f t" "Suc n"] by (simp add: upd_entry_def)
qed simp

lemma looped_live:
  "looped hs Q F t ps t' \<Longrightarrow> live (ht_entries t') = trans_live Q F 0 (live (ht_entries t))"
  unfolding looped_def by (elim conjE) (simp only: live_trans)

end
