(* ===== verification/Multidict.thy ===== *)
theory Multidict
  imports Md_Loops
begin

text \<open>
  \<^verbatim>\<open>MultiDict\<close> and \<^verbatim>\<open>CIMultiDict\<close> of multidict, as operations on the hash table. An operation takes
  the dictionary and gives its new state with the value returned or the exception raised, or
  \<open>None\<close> if one of its loops would not end. The theory \<^verbatim>\<open>Multidict_Spec\<close> says what they do to the
  list of entries.
\<close>

section \<open>State\<close>

text \<open>
  \<^verbatim>\<open>hash\<close>, \<^verbatim>\<open>lower\<close> and \<^verbatim>\<open>repr\<close> of strings, which differ between runs and between Unicode
  versions.
\<close>

record str_env =
  se_hash :: "string \<Rightarrow> int"
  se_lower :: "string \<Rightarrow> string"
  se_repr :: "string \<Rightarrow> string"

text \<open>\<open>md_clock\<close> is the counter \<^verbatim>\<open>_version[0]\<close> of the module, as the dictionary last saw it.\<close>

record 'v multidict =
  md_ci :: bool
  md_keys :: "'v ht"
  md_used :: int
  md_version :: nat
  md_clock :: nat

type_synonym ('m, 'r) md_out = "('m \<times> 'r res) option"

definition md_identity :: "str_env \<Rightarrow> 'v multidict \<Rightarrow> string \<Rightarrow> string" where
  "md_identity E m key = (if md_ci m then se_lower E key else key)"

definition incr_version :: "'v multidict \<Rightarrow> 'v multidict" where
  "incr_version m = m\<lparr>md_clock := md_clock m + 1, md_version := md_clock m + 1\<rparr>"

definition on_keys :: "('v ht \<Rightarrow> 'v ht) \<Rightarrow> 'v multidict \<Rightarrow> 'v multidict" where
  "on_keys f m = m\<lparr>md_keys := f (md_keys m)\<rparr>"

text \<open>What follows a loop: an exception of the loop goes to the caller.\<close>

definition after :: "('s \<times> exc option) option \<Rightarrow> ('s \<Rightarrow> 'm) \<Rightarrow> ('s \<Rightarrow> ('m, 'r) md_out) \<Rightarrow> ('m, 'r) md_out" where
  "after r st k =
     (case r of None \<Rightarrow> None
      | Some (s, Some x) \<Rightarrow> Some (st s, Inl x)
      | Some (s, None) \<Rightarrow> k s)"

definition md_then :: "('m, 'a) md_out \<Rightarrow> ('m \<Rightarrow> 'a \<Rightarrow> ('m, 'b) md_out) \<Rightarrow> ('m, 'b) md_out" where
  "md_then r k =
     (case r of None \<Rightarrow> None
      | Some (m, Inl x) \<Rightarrow> Some (m, Inl x)
      | Some (m, Inr a) \<Rightarrow> k m a)"

section \<open>Reading\<close>

definition mark :: "int \<Rightarrow> 'v mentry \<Rightarrow> 'v mentry" where
  "mark h e = e\<lparr>me_hash := h\<rparr>"

definition md_getall ::
    "str_env \<Rightarrow> string \<Rightarrow> 'v option list option \<Rightarrow> 'v multidict \<Rightarrow> ('v multidict, 'v option list) md_out" where
  "md_getall E key dflt m =
     (let ident = md_identity E m key; h = se_hash E ident
      in after
        (iter_hash (\<lambda>(m, res, restore). md_keys m)
           (\<lambda>i j e s. if me_identity e = ident
              then (case s of (m, res, restore) \<Rightarrow>
                Inr (on_keys (upd_entry j (mark (- 1))) m, res @ [me_value e], restore @ [j]))
              else Inr s)
           h (m, [], []))
        (\<lambda>(m, res, restore). m)
        (\<lambda>(m, res, restore).
           if res \<noteq> [] then Some (on_keys (fold (\<lambda>j. upd_entry j (mark h)) restore) m, Inr res)
           else (case dflt of Some d \<Rightarrow> Some (m, Inr d)
             | None \<Rightarrow> Some (m, Inl (KeyError (''Key not found: '' @ se_repr E key))))))"

text \<open>A loop that returns at the first entry with the identity.\<close>

definition first_entry :: "str_env \<Rightarrow> string \<Rightarrow> 'v multidict \<Rightarrow> (('v multidict \<times> (nat \<times> nat \<times> 'v mentry) option) \<times> exc option) option"
  where
  "first_entry E ident m =
     iter_hash (\<lambda>(m, r). md_keys m)
       (\<lambda>i j e s. if me_identity e = ident then (case s of (m, r) \<Rightarrow> Inl (m, Some (i, j, e))) else Inr s)
       (se_hash E ident) (m, None)"

definition md_getone :: "str_env \<Rightarrow> string \<Rightarrow> 'v option option \<Rightarrow> 'v multidict \<Rightarrow> ('v multidict, 'v option) md_out" where
  "md_getone E key dflt m =
     after (first_entry E (md_identity E m key) m) fst
       (\<lambda>(m, r). case r of
          Some (i, j, e) \<Rightarrow> Some (m, Inr (me_value e))
        | None \<Rightarrow> (case dflt of Some d \<Rightarrow> Some (m, Inr d)
            | None \<Rightarrow> Some (m, Inl (KeyError (''Key not found: '' @ se_repr E key)))))"

definition md_contains :: "str_env \<Rightarrow> string \<Rightarrow> 'v multidict \<Rightarrow> ('v multidict, bool) md_out" where
  "md_contains E key m =
     after (first_entry E (md_identity E m key) m) fst (\<lambda>(m, r). Some (m, Inr (r \<noteq> None)))"

definition md_len :: "'v multidict \<Rightarrow> int" where
  "md_len m = md_used m"

definition md_items :: "'v multidict \<Rightarrow> (string option \<times> 'v option) list" where
  "md_items m = map (\<lambda>e. (me_key e, me_value e)) (iter_entries (md_keys m))"

text \<open>\<^verbatim>\<open>__eq__\<close> of two multidicts: \<^verbatim>\<open>zip\<close> stops at the shorter list.\<close>

definition md_eq :: "'v multidict \<Rightarrow> 'v multidict \<Rightarrow> bool" where
  "md_eq m m' \<longleftrightarrow> md_used m = md_used m' \<and>
     list_all (\<lambda>(e1, e2). me_identity e1 = me_identity e2 \<and> me_value e1 = me_value e2)
       (List.zip (iter_entries (md_keys m)) (iter_entries (md_keys m')))"

section \<open>Adding\<close>

definition md_resize :: "str_env \<Rightarrow> nat \<Rightarrow> bool \<Rightarrow> 'v multidict \<Rightarrow> ('v multidict, unit) md_out" where
  "md_resize E log2_newsize upd m =
     (let old = md_keys m;
          es = (if int (length (ht_entries old)) = md_used m then ht_entries old
                else filter (\<lambda>e. e \<noteq> None) (ht_entries old));
          new = ht_new log2_newsize es
      in after (build_indices (se_hash E) upd (new\<lparr>ht_usable := ht_usable new - md_used m\<rparr>))
           (\<lambda>t. m) (\<lambda>t. Some (m\<lparr>md_keys := t\<rparr>, Inr ())))"

definition md_make_room :: "str_env \<Rightarrow> bool \<Rightarrow> 'v multidict \<Rightarrow> ('v multidict, unit) md_out" where
  "md_make_room E upd m =
     (if ht_usable (md_keys m) \<le> 0 then md_resize E (bit_length (nat (md_used m * 3) OR 7)) upd m
      else Some (m, Inr ()))"

text \<open>The slot gets the index of the entry that is appended.\<close>

definition md_append :: "'v mentry \<Rightarrow> int \<Rightarrow> 'v multidict \<Rightarrow> ('v multidict, unit) md_out" where
  "md_append e h m =
     (case find_empty_slot (md_keys m) h of None \<Rightarrow> None
      | Some i \<Rightarrow> Some ((incr_version (on_keys (put_slot i e) m))\<lparr>md_used := md_used m + 1\<rparr>, Inr ()))"

definition add_with_hash :: "str_env \<Rightarrow> 'v mentry \<Rightarrow> 'v multidict \<Rightarrow> ('v multidict, unit) md_out" where
  "add_with_hash E e m = md_then (md_make_room E False m) (\<lambda>m _. md_append e (me_hash e) m)"

definition add_with_hash_for_upd :: "str_env \<Rightarrow> 'v mentry \<Rightarrow> 'v multidict \<Rightarrow> ('v multidict, unit) md_out" where
  "add_with_hash_for_upd E e m = md_then (md_make_room E True m) (\<lambda>m _. md_append (mark (- 1) e) (me_hash e) m)"

definition new_entry :: "str_env \<Rightarrow> 'v multidict \<Rightarrow> string \<times> 'v option \<Rightarrow> 'v mentry" where
  "new_entry E m = (\<lambda>(key, v). let ident = md_identity E m key
     in \<lparr>me_hash = se_hash E ident, me_identity = ident, me_key = Some key, me_value = v\<rparr>)"

definition md_add :: "str_env \<Rightarrow> string \<Rightarrow> 'v option \<Rightarrow> 'v multidict \<Rightarrow> ('v multidict, unit) md_out" where
  "md_add E key v m =
     md_then (add_with_hash E (new_entry E m (key, v)) m) (\<lambda>m _. Some (incr_version m, Inr ()))"

section \<open>Changing and removing\<close>

definition md_del_at :: "nat \<Rightarrow> nat \<Rightarrow> 'v multidict \<Rightarrow> 'v multidict" where
  "md_del_at i j m =
     (on_keys (\<lambda>t. drop_slot i ((ht_entries t)[j := None]) t) m)\<lparr>md_used := md_used m - 1\<rparr>"

definition md_restore :: "int \<Rightarrow> 'v multidict \<Rightarrow> ('v multidict, unit) md_out" where
  "md_restore h m = after (restore_hash h (md_keys m)) (\<lambda>t. m\<lparr>md_keys := t\<rparr>) (\<lambda>t. Some (m\<lparr>md_keys := t\<rparr>, Inr ()))"

definition md_setitem :: "str_env \<Rightarrow> string \<Rightarrow> 'v option \<Rightarrow> 'v multidict \<Rightarrow> ('v multidict, unit) md_out" where
  "md_setitem E key v m =
     (let ident = md_identity E m key; h = se_hash E ident
      in after
        (iter_hash (\<lambda>(m, fnd). md_keys m)
           (\<lambda>i j e s. if me_identity e = ident
              then (case s of (m, fnd) \<Rightarrow>
                if \<not> fnd
                then Inr (incr_version (on_keys (upd_entry j (\<lambda>e. e\<lparr>me_key := Some key, me_value := v, me_hash := - 1\<rparr>)) m), True)
                else if me_hash e \<noteq> - 1 then Inr (md_del_at i j m, True) else Inr s)
              else Inr s)
           h (m, False))
        fst
        (\<lambda>(m, fnd). if \<not> fnd then add_with_hash E (new_entry E m (key, v)) m else md_restore h m))"

definition md_delitem :: "str_env \<Rightarrow> string \<Rightarrow> 'v multidict \<Rightarrow> ('v multidict, unit) md_out" where
  "md_delitem E key m =
     (let ident = md_identity E m key
      in after
        (iter_hash (\<lambda>(m, fnd). md_keys m)
           (\<lambda>i j e s. if me_identity e = ident then (case s of (m, fnd) \<Rightarrow> Inr (md_del_at i j m, True)) else Inr s)
           (se_hash E ident) (m, False))
        fst
        (\<lambda>(m, fnd). if \<not> fnd then Some (m, Inl (KeyError key)) else Some (incr_version m, Inr ())))"

definition md_setdefault :: "str_env \<Rightarrow> string \<Rightarrow> 'v option \<Rightarrow> 'v multidict \<Rightarrow> ('v multidict, 'v option) md_out" where
  "md_setdefault E key dflt m =
     after (first_entry E (md_identity E m key) m) fst
       (\<lambda>(m, r). case r of
          Some (i, j, e) \<Rightarrow> Some (m, Inr (me_value e))
        | None \<Rightarrow> md_then (md_add E key dflt m) (\<lambda>m _. Some (m, Inr dflt)))"

definition md_popone :: "str_env \<Rightarrow> string \<Rightarrow> 'v option option \<Rightarrow> 'v multidict \<Rightarrow> ('v multidict, 'v option) md_out" where
  "md_popone E key dflt m =
     after (first_entry E (md_identity E m key) m) fst
       (\<lambda>(m, r). case r of
          Some (i, j, e) \<Rightarrow> Some (incr_version (md_del_at i j m), Inr (me_value e))
        | None \<Rightarrow> (case dflt of Some d \<Rightarrow> Some (m, Inr d) | None \<Rightarrow> Some (m, Inl (KeyError key))))"

definition md_popall ::
    "str_env \<Rightarrow> string \<Rightarrow> 'v option list option \<Rightarrow> 'v multidict \<Rightarrow> ('v multidict, 'v option list) md_out" where
  "md_popall E key dflt m =
     (let ident = md_identity E m key
      in after
        (iter_hash (\<lambda>(m, fnd, ret). md_keys m)
           (\<lambda>i j e s. if me_identity e = ident
              then (case s of (m, fnd, ret) \<Rightarrow> Inr (incr_version (md_del_at i j m), True, ret @ [me_value e]))
              else Inr s)
           (se_hash E ident) (m, False, []))
        fst
        (\<lambda>(m, fnd, ret). if \<not> fnd
           then (case dflt of Some d \<Rightarrow> Some (m, Inr d) | None \<Rightarrow> Some (m, Inl (KeyError key)))
           else Some (m, Inr ret)))"

text \<open>The pops of \<^verbatim>\<open>popitem\<close>, on the reversed entries: the position and the entry of the last one.\<close>

fun pop_entry :: "'v mentry option list \<Rightarrow> (nat \<times> 'v mentry) option" where
  "pop_entry [] = None"
| "pop_entry (Some e # es) = Some (length es, e)"
| "pop_entry (None # es) = pop_entry es"

definition md_popitem :: "'v multidict \<Rightarrow> ('v multidict, string option \<times> 'v option) md_out" where
  "md_popitem m =
     (if md_used m \<le> 0 then Some (m, Inl (KeyError ''empty multidict''))
      else (case pop_entry (rev (ht_entries (md_keys m))) of
          None \<Rightarrow> Some (on_keys (\<lambda>t. t\<lparr>ht_entries := []\<rparr>) m, Inl IndexError)
        | Some (pos, e) \<Rightarrow>
            (case del_idx (me_hash e) pos ((md_keys m)\<lparr>ht_entries := take pos (ht_entries (md_keys m))\<rparr>) of
               None \<Rightarrow> None
             | Some t \<Rightarrow> Some (incr_version (m\<lparr>md_keys := t, md_used := md_used m - 1\<rparr>), Inr (me_key e, me_value e)))))"

definition md_clear :: "'v multidict \<Rightarrow> 'v multidict" where
  "md_clear m = incr_version (m\<lparr>md_used := 0, md_keys := ht_new 3 []\<rparr>)"

section \<open>Arguments of several items\<close>

text \<open>
  The argument of the constructor, \<^verbatim>\<open>extend\<close>, \<^verbatim>\<open>update\<close> and \<^verbatim>\<open>merge\<close>: nothing or something empty,
  another multidict (or a proxy of one), or items, which a mapping gives as pairs; an item of the
  wrong length raises when it is reached, and \<^verbatim>\<open>len\<close> may be missing. \<open>kw\<close> are the keyword arguments.
\<close>

datatype 'v md_item = Pair_Item string "'v option" | Ill_Sized

datatype 'v md_arg = No_Arg | Md_Arg "'v multidict" | Items_Arg bool "'v md_item list"

definition arg_truthy :: "'v md_arg \<Rightarrow> bool" where
  "arg_truthy a = (case a of No_Arg \<Rightarrow> False | Md_Arg m \<Rightarrow> md_used m \<noteq> 0 | Items_Arg sized is \<Rightarrow> \<not> sized \<or> is \<noteq> [])"

fun item_entries :: "str_env \<Rightarrow> 'v multidict \<Rightarrow> 'v md_item list \<Rightarrow> 'v mentry list \<times> exc option" where
  "item_entries E m [] = ([], None)"
| "item_entries E m (Ill_Sized # is) = ([], Some (ValueError ''multidict update sequence element''))"
| "item_entries E m (Pair_Item k v # is) =
     (let (es, x) = item_entries E m is in (new_entry E m (k, v) # es, x))"

text \<open>
  \<^verbatim>\<open>_parse_args\<close>: the number announced, the entries that follow and the exception that ends them.
  The entries of a multidict of the same kind are taken over with their identity and hash. A
  keyword argument is appended to the list of items and counted twice.
\<close>

definition parse_args ::
    "str_env \<Rightarrow> 'v md_arg \<Rightarrow> (string \<times> 'v option) list \<Rightarrow> 'v multidict \<Rightarrow> nat \<times> 'v mentry list \<times> exc option" where
  "parse_args E a kw m =
     (let kws = map (new_entry E m) kw
      in if arg_truthy a
         then (case a of
             Md_Arg m' \<Rightarrow>
               (nat (md_used m') + length kw,
                map (\<lambda>e. if md_ci m \<noteq> md_ci m' then new_entry E m (the (me_key e), me_value e) else e)
                  (iter_entries (md_keys m')) @ kws, None)
           | Items_Arg sized is \<Rightarrow>
               (let is' = is @ map (\<lambda>(k, v). Pair_Item k v) kw; (es, x) = item_entries E m is'
                in (if sized \<or> kw \<noteq> [] then length is' + length kw else 0, es, x))
           | No_Arg \<Rightarrow> (length kw, kws, None))
         else (length kw, kws, None))"

text \<open>A loop over entries that ends with an exception of the loop or of the argument.\<close>

fun md_foreach ::
    "('v mentry \<Rightarrow> 'v multidict \<Rightarrow> ('v multidict, unit) md_out) \<Rightarrow> 'v mentry list \<Rightarrow> exc option \<Rightarrow> 'v multidict \<Rightarrow>
     ('v multidict, unit) md_out" where
  "md_foreach f [] x m = Some (m, case x of None \<Rightarrow> Inr () | Some e \<Rightarrow> Inl e)"
| "md_foreach f (e # es) x m = md_then (f e m) (\<lambda>m _. md_foreach f es x m)"

definition extend_items :: "str_env \<Rightarrow> 'v mentry list \<Rightarrow> exc option \<Rightarrow> 'v multidict \<Rightarrow> ('v multidict, unit) md_out" where
  "extend_items E es x m =
     md_then (md_foreach (add_with_hash E) es x m) (\<lambda>m _. Some (incr_version m, Inr ()))"

definition md_extend ::
    "str_env \<Rightarrow> 'v md_arg \<Rightarrow> (string \<times> 'v option) list \<Rightarrow> 'v multidict \<Rightarrow> ('v multidict, unit) md_out" where
  "md_extend E a kw m =
     (let (n, es, x) = parse_args E a kw m
      in md_then (md_resize E (estimate_log2_keysize (nat (md_used m) + n)) False m) (\<lambda>m _. extend_items E es x m))"

text \<open>The constructor, given the counter of the module.\<close>

definition md_init ::
    "str_env \<Rightarrow> bool \<Rightarrow> 'v md_arg \<Rightarrow> (string \<times> 'v option) list \<Rightarrow> nat \<Rightarrow> ('v multidict, unit) md_out" where
  "md_init E ci a kw clock =
     (let m0 = \<lparr>md_ci = ci, md_keys = ht_new 3 [], md_used = 0, md_version = clock + 1, md_clock = clock + 1\<rparr>;
          fresh = (let (n, es, x) = parse_args E a kw m0
                   in extend_items E es x (m0\<lparr>md_keys := ht_new (min 17 (estimate_log2_keysize n)) []\<rparr>))
      in case a of
           Md_Arg m' \<Rightarrow> if kw = [] \<and> md_ci m' = ci then Some (m0\<lparr>md_keys := md_keys m', md_used := md_used m'\<rparr>, Inr ()) else fresh
         | _ \<Rightarrow> fresh)"

definition md_copy :: "str_env \<Rightarrow> 'v multidict \<Rightarrow> ('v multidict, unit) md_out" where
  "md_copy E m = md_init E (md_ci m) (Md_Arg m) [] (md_clock m)"

text \<open>
  \<^verbatim>\<open>update\<close> and \<^verbatim>\<open>merge\<close> mark what they handled and clean up at the end, also after an exception.
  The first entry found that was not handled takes the item; the others are to go, unless a later
  item with the same identity takes them.
\<close>

definition del_for_upd :: "'v mentry \<Rightarrow> 'v mentry" where
  "del_for_upd e = e\<lparr>me_key := None, me_value := None\<rparr>"

definition update_item :: "str_env \<Rightarrow> 'v mentry \<Rightarrow> 'v multidict \<Rightarrow> ('v multidict, unit) md_out" where
  "update_item E x m =
     after
       (iter_hash (\<lambda>(m, fnd). md_keys m)
          (\<lambda>i j e s. if me_identity e = me_identity x
             then (case s of (m, fnd) \<Rightarrow>
               if \<not> fnd
               then Inr (on_keys (upd_entry j (\<lambda>e. e\<lparr>me_key := me_key x, me_value := me_value x, me_hash := - 1\<rparr>)) m, True)
               else Inr (on_keys (upd_entry j del_for_upd) m, True))
             else Inr s)
          (me_hash x) (m, False))
       fst
       (\<lambda>(m, fnd). if \<not> fnd then add_with_hash_for_upd E x m else Some (m, Inr ()))"

definition merge_item :: "str_env \<Rightarrow> 'v mentry \<Rightarrow> 'v multidict \<Rightarrow> ('v multidict, unit) md_out" where
  "merge_item E x m =
     after
       (iter_hash (\<lambda>(m, fnd). md_keys m)
          (\<lambda>i j e s. if me_identity e = me_identity x then Inl (fst s, True) else Inr s) (me_hash x) (m, False))
       fst
       (\<lambda>(m, fnd). if \<not> fnd then add_with_hash_for_upd E x m else Some (m, Inr ()))"

text \<open>\<^verbatim>\<open>_post_update\<close>, slot by slot.\<close>

fun post_update_from :: "str_env \<Rightarrow> nat \<Rightarrow> nat \<Rightarrow> 'v multidict \<Rightarrow> ('v multidict, unit) md_out" where
  "post_update_from E i 0 m = Some (incr_version m, Inr ())"
| "post_update_from E i (Suc n) m =
     (let ix = ht_indices (md_keys m) ! i
      in if ix < 0 then post_update_from E (Suc i) n m
         else (case ht_entries (md_keys m) ! nat ix of
             None \<Rightarrow> Some (m, Inl AssertionError)
           | Some e \<Rightarrow>
               post_update_from E (Suc i) n
                 (if me_key e = None then md_del_at i (nat ix) m
                  else if me_hash e = - 1 then on_keys (upd_entry (nat ix) (mark (se_hash E (me_identity e)))) m
                  else m)))"

definition post_update :: "str_env \<Rightarrow> 'v multidict \<Rightarrow> ('v multidict, unit) md_out" where
  "post_update E m = post_update_from E 0 (2 ^ ht_log2 (md_keys m)) m"

definition md_update_with ::
    "(str_env \<Rightarrow> 'v mentry \<Rightarrow> 'v multidict \<Rightarrow> ('v multidict, unit) md_out) \<Rightarrow> str_env \<Rightarrow> 'v md_arg \<Rightarrow>
     (string \<times> 'v option) list \<Rightarrow> 'v multidict \<Rightarrow> ('v multidict, unit) md_out" where
  "md_update_with step E a kw m =
     (let (n, es, x) = parse_args E a kw m; k = min 17 (estimate_log2_keysize (nat (md_used m) + n))
      in md_then (if ht_log2 (md_keys m) < k then md_resize E k False m else Some (m, Inr ()))
           (\<lambda>m _. case md_foreach (step E) es x m of
              None \<Rightarrow> None
            | Some (m, r) \<Rightarrow> md_then (post_update E m) (\<lambda>m _. Some (m, r))))"

definition md_update :: "str_env \<Rightarrow> 'v md_arg \<Rightarrow> (string \<times> 'v option) list \<Rightarrow> 'v multidict \<Rightarrow> ('v multidict, unit) md_out" where
  "md_update = md_update_with update_item"

definition md_merge :: "str_env \<Rightarrow> 'v md_arg \<Rightarrow> (string \<times> 'v option) list \<Rightarrow> 'v multidict \<Rightarrow> ('v multidict, unit) md_out" where
  "md_merge = md_update_with merge_item"

end
