(* ===== verification/Multidict_Spec.thy ===== *)
theory Multidict_Spec
  imports Multidict
begin

text \<open>
  What the operations of a multidict do to the list of its entries, each an identity with a key
  and a value, in the order of insertion: the hash table refines that list.
\<close>

section \<open>The invariant\<close>

text \<open>\<^verbatim>\<open>hash\<close> never gives \<open>-1\<close>.\<close>

definition good_env :: "str_env \<Rightarrow> bool" where
  "good_env E \<longleftrightarrow> (\<forall>s. se_hash E s \<noteq> - 1)"

definition entry_ok :: "str_env \<Rightarrow> bool \<Rightarrow> 'v mentry \<Rightarrow> bool" where
  "entry_ok E ci e \<longleftrightarrow> me_hash e = se_hash E (me_identity e) \<and>
     (\<exists>k. me_key e = Some k \<and> me_identity e = (if ci then se_lower E k else k))"

definition md_ok :: "str_env \<Rightarrow> 'v multidict \<Rightarrow> bool" where
  "md_ok E m \<longleftrightarrow> placed (se_hash E) (md_keys m) \<and> room (md_keys m) \<and>
     md_used m = int (length (live (ht_entries (md_keys m)))) \<and>
     (\<forall>e \<in> set (live (ht_entries (md_keys m))). entry_ok E (md_ci m) e)"

type_synonym 'v mitem = "string \<times> string option \<times> 'v option"

definition item_of :: "'v mentry \<Rightarrow> 'v mitem" where
  "item_of e = (me_identity e, me_key e, me_value e)"

definition md_list :: "'v multidict \<Rightarrow> 'v mitem list" where
  "md_list m = map item_of (live (ht_entries (md_keys m)))"

definition values_of :: "string \<Rightarrow> 'v mitem list \<Rightarrow> 'v option list" where
  "values_of x xs = map (snd \<circ> snd) (filter (\<lambda>i. fst i = x) xs)"

lemma values_of_list: "values_of x (md_list m) = map me_value (filter (\<lambda>e. me_identity e = x) (live (ht_entries (md_keys m))))"
  by (simp add: values_of_def md_list_def filter_map comp_def item_of_def)

lemma incr_version_simps [simp]:
  "md_keys (incr_version m) = md_keys m" "md_used (incr_version m) = md_used m" "md_ci (incr_version m) = md_ci m"
  by (simp_all add: incr_version_def)

lemma on_keys_simps [simp]:
  "md_keys (on_keys f m) = f (md_keys m)" "md_used (on_keys f m) = md_used m" "md_ci (on_keys f m) = md_ci m"
  "md_version (on_keys f m) = md_version m" "md_clock (on_keys f m) = md_clock m"
  by (simp_all add: on_keys_def)

lemma md_ok_hash: "md_ok E m \<Longrightarrow> e \<in> set (live (ht_entries (md_keys m))) \<Longrightarrow> me_identity e = x \<Longrightarrow> me_hash e = se_hash E x"
  by (auto simp: md_ok_def entry_ok_def)

section \<open>Reading\<close>

lemma getall_fold:
  "fold (\<lambda>(i, j, e) (m, res, rs). (on_keys (upd_entry j (mark h)) m, res @ [me_value e], rs @ [j])) ps (m, res, rs) =
   (on_keys (fold (\<lambda>j. upd_entry j (mark h)) (map (fst \<circ> snd) ps)) m,
    res @ map me_value (map (\<lambda>(i, j, e). e) ps), rs @ map (fst \<circ> snd) ps)"
  by (induction ps arbitrary: m res rs) (auto simp: on_keys_def)

text \<open>
  \<^verbatim>\<open>getall\<close> returns the values of the key in the order of insertion, or the default, or raises
  \<^verbatim>\<open>KeyError\<close>, and leaves the dictionary exactly as it was: the hashes it overwrites while it
  looks are all restored.
\<close>

lemma getall_ok:
  assumes "good_env E" "md_ok E m"
  shows "md_getall E key d m = Some (m,
    let vs = values_of (md_identity E m key) (md_list m)
    in if vs \<noteq> [] then Inr vs
       else (case d of Some v \<Rightarrow> Inr v | None \<Rightarrow> Inl (KeyError (''Key not found: '' @ se_repr E key))))"
proof -
  define vs where "vs = values_of (md_identity E m key) (md_list m)"
  let ?x = "md_identity E m key" and ?t = "md_keys m" and ?es = "ht_entries (md_keys m)"
  let ?h = "se_hash E ?x" and ?tb = "\<lambda>(m, res :: 'a option list, rs :: nat list). md_keys m"
  let ?g = "\<lambda>(i :: nat, j, e) (m, res, rs). (on_keys (upd_entry j (mark (- 1))) m, res @ [me_value e], rs @ [j])"
  let ?b = "\<lambda>i j e s. case s of (m, res, rs) \<Rightarrow> Inr (on_keys (upd_entry j (mark (- 1))) m, res @ [me_value e], rs @ [j])"
  let ?F = "\<lambda>n :: nat. \<lambda>e. Some (e\<lparr>me_hash := - 1\<rparr>)"
  have h: "?h \<noteq> - 1" using assms(1) by (simp add: good_env_def)
  have "\<exists>ps. iter_hash ?tb (\<lambda>i j e s. if me_identity e = ?x then ?b i j e s else Inr s) ?h (m, [], []) =
      Some (fold ?g ps (m, [], []), None) \<and>
    looped (se_hash E) (\<lambda>e. me_identity e = ?x) ?F (?tb (m, [], [])) ps (?tb (fold ?g ps (m, [], [])))"
  proof (rule id_loop [where rel = "\<lambda>n s. True" and D = "\<lambda>e. False"])
    show "keeps (\<lambda>e. me_hash e = ?h \<and> me_identity e = ?x) (\<lambda>e. False) ?F" using h by (simp add: keeps_def)
  qed (use assms(2) md_ok_hash [OF assms(2)] in \<open>auto simp: md_ok_def act_def upd_entry_def mark_def on_keys_def\<close>)
  then obtain ps where loop: "iter_hash ?tb (\<lambda>i j e s. if me_identity e = ?x then ?b i j e s else Inr s) ?h (m, [], []) =
      Some (fold ?g ps (m, [], []), None)"
    and l: "looped (se_hash E) (\<lambda>e. me_identity e = ?x) ?F (?tb (m, [], [])) ps (?tb (fold ?g ps (m, [], [])))"
    by blast
  let ?m = "on_keys (fold (\<lambda>j. upd_entry j (mark (- 1))) (map (fst \<circ> snd) ps)) m"
  have ps: "map (\<lambda>(i, j, e). e) ps = filter (\<lambda>e. me_identity e = ?x) (live ?es)"
      "map (fst \<circ> snd) ps = idx_of (\<lambda>e. me_identity e = ?x) ?es"
    using l by (simp_all add: looped_def)
  have s: "fold ?g ps (m, [], []) = (?m, vs, map (fst \<circ> snd) ps)"
    unfolding getall_fold by (simp add: ps(1) vs_def values_of_list)
  have t1: "md_keys ?m = ?t\<lparr>ht_entries := trans_from (\<lambda>e. me_identity e = ?x) ?F 0 ?es\<rparr>"
    by (simp add: ps(2) fold_upd_entry [where n = 0] upd_seq_trans mark_def)
  have "trans_from (\<lambda>e. me_identity e = ?x) (\<lambda>n e. Some (mark ?h e)) 0 (trans_from (\<lambda>e. me_identity e = ?x) ?F 0 ?es) = ?es"
    by (rule trans_from_twice) (auto simp: mark_def md_ok_hash [OF assms(2)])
  then have "fold (\<lambda>j. upd_entry j (mark ?h)) (map (fst \<circ> snd) ps) (md_keys ?m) = ?t"
    unfolding t1
    unfolding fold_upd_entry [where n = 0] ps(2)
    using upd_seq_trans [of "\<lambda>n. \<lambda>e. Some (mark ?h e)" 0 "\<lambda>e. me_identity e = ?x" "trans_from (\<lambda>e. me_identity e = ?x) ?F 0 ?es"]
    by (simp add: idx_of_trans_ids)
  then have restored: "on_keys (fold (\<lambda>j. upd_entry j (mark ?h)) (map (fst \<circ> snd) ps)) ?m = m" by (simp add: on_keys_def)
  have none: "?m = m" if "vs = []"
  proof -
    have "map (\<lambda>(i, j, e). e) ps = []" using that ps(1) by (simp add: vs_def values_of_list)
    then show ?thesis by (simp add: on_keys_def)
  qed
  show ?thesis
    unfolding vs_def [symmetric] md_getall_def Let_def loop after_def using restored none by (auto simp: s split: option.split)
qed

lemma md_placed: "md_ok E m \<Longrightarrow> placed (se_hash E) (md_keys m) \<and> sound (md_keys m)"
  by (simp add: md_ok_def placed_def)

text \<open>A loop that stops at the first entry finds the first one in the order of insertion.\<close>

lemma first_entry_ok:
  assumes "md_ok E m"
  shows "\<exists>ps. first_entry E x m = Some ((m, case ps of [] \<Rightarrow> None | p # _ \<Rightarrow> Some p), None) \<and>
    map (\<lambda>(i, j, e). e) ps = filter (\<lambda>e. me_identity e = x) (live (ht_entries (md_keys m))) \<and>
    map (fst \<circ> snd) ps = idx_of (\<lambda>e. me_identity e = x) (ht_entries (md_keys m)) \<and>
    (\<forall>(i, j, e) \<in> set ps. i < 2 ^ ht_log2 (md_keys m) \<and> look (md_keys m) i = Some (j, e) \<and> me_identity e = x)"
proof -
  let ?h = "se_hash E x" and ?t = "md_keys m"
  let ?b = "\<lambda>i j e s. case s of (m, r) \<Rightarrow> Inl (m, Some (i, j, e))"
  note t = md_placed [OF assms]
  let ?ps = "hits (look_q (\<lambda>e. me_hash e = ?h \<and> me_identity e = x) ?t) (nub (path (ht_log2 ?t) (frees ?t) ?h))"
  let ?tb = "\<lambda>(m, r :: (nat \<times> nat \<times> 'a mentry) option). md_keys m"
  have "iter_hash ?tb (\<lambda>i j e s. if me_identity e = x then ?b i j e s else Inr s) ?h (m, None) =
      Some (runs ?b (hits (look_q (\<lambda>e. me_hash e = ?h \<and> me_identity e = x) (?tb (m, None)))
        (nub (path (ht_log2 ?t) (frees ?t) ?h))) (m, None), None)"
  proof (rule iter_hash_runs [where P = "\<lambda>s. fst s = m" and N = "\<lambda>s i. False", OF sel_id])
    show "settles (\<lambda>s. fst s = m) (\<lambda>s i. False) (2 ^ ht_log2 ?t)
        (\<lambda>s. look_q (\<lambda>e. me_hash e = ?h \<and> me_identity e = x) (?tb s)) ?b"
      by (rule settlesI) (auto split: prod.splits)
    show "sound (?tb s) \<and> ht_log2 (?tb s) = ht_log2 ?t \<and> frees (?tb s) = frees ?t" if "fst s = m" for s
      using t that by (cases s) simp
  qed simp
  moreover have "runs ?b ?ps (m, None) = (m, case ?ps of [] \<Rightarrow> None | p # _ \<Rightarrow> Some p)"
    by (cases ?ps) auto
  ultimately have "first_entry E x m = Some ((m, case ?ps of [] \<Rightarrow> None | p # _ \<Rightarrow> Some p), None)"
    by (simp add: first_entry_def)
  moreover note hl = id_hits [OF conjunct1 [OF t], of x]
  moreover have "filter (\<lambda>e. me_hash e = ?h \<and> me_identity e = x) (live (ht_entries ?t)) = filter (\<lambda>e. me_identity e = x) (live (ht_entries ?t))"
      "idx_of (\<lambda>e. me_hash e = ?h \<and> me_identity e = x) (ht_entries ?t) = idx_of (\<lambda>e. me_identity e = x) (ht_entries ?t)"
    using md_ok_hash [OF assms] by (auto intro!: filter_cong idx_of_cong)
  moreover have "\<forall>(i, j, e) \<in> set ?ps. i < 2 ^ ht_log2 ?t \<and> look ?t i = Some (j, e) \<and> me_identity e = x"
    using hl(1) unfolding hit_list_def by fast
  ultimately show ?thesis by (intro exI [of _ ?ps]) simp
qed

lemma hits_values:
  assumes "map (\<lambda>(i, j, e). e) ps = filter (\<lambda>e. me_identity e = x) (live (ht_entries (md_keys m)))"
  shows "values_of x (md_list m) = map (\<lambda>(i, j, e). me_value e) ps"
proof -
  have "map (\<lambda>(i, j, e). me_value e) ps = map me_value (map (\<lambda>(i, j, e). e) ps)" by auto
  then show ?thesis by (simp only: assms values_of_list)
qed

text \<open>
  \<^verbatim>\<open>getone\<close>, on which \<^verbatim>\<open>[]\<close> and \<^verbatim>\<open>get\<close> rest, returns the value of the key that was inserted
  first, and \<^verbatim>\<open>in\<close> says whether there is one.
\<close>

lemma getone_ok:
  assumes "md_ok E m"
  shows "md_getone E key d m = Some (m,
      case values_of (md_identity E m key) (md_list m) of v # _ \<Rightarrow> Inr v
      | [] \<Rightarrow> (case d of Some v \<Rightarrow> Inr v | None \<Rightarrow> Inl (KeyError (''Key not found: '' @ se_repr E key)))) \<and>
    md_contains E key m = Some (m, Inr (values_of (md_identity E m key) (md_list m) \<noteq> []))"
proof -
  obtain ps where ps: "first_entry E (md_identity E m key) m = Some ((m, case ps of [] \<Rightarrow> None | p # _ \<Rightarrow> Some p), None)"
      "map (\<lambda>(i, j, e). e) ps = filter (\<lambda>e. me_identity e = md_identity E m key) (live (ht_entries (md_keys m)))"
    using first_entry_ok [OF assms] by blast
  then show ?thesis
    unfolding hits_values [OF ps(2)] md_getone_def md_contains_def ps(1) after_def
    by (auto split: list.split option.split)
qed

section \<open>Adding\<close>

text \<open>The part of the invariant that holds during an update too.\<close>

definition md_base :: "str_env \<Rightarrow> 'v multidict \<Rightarrow> bool" where
  "md_base E m \<longleftrightarrow> placed (se_hash E) (md_keys m) \<and> room (md_keys m) \<and>
     md_used m = int (length (live (ht_entries (md_keys m))))"

lemma md_ok_base: "md_ok E m \<longleftrightarrow> md_base E m \<and> (\<forall>e \<in> set (live (ht_entries (md_keys m))). entry_ok E (md_ci m) e)"
  by (auto simp: md_ok_def md_base_def)

lemma length_live: "length (live es) \<le> length es"
  by (simp add: live_def)

lemma live_all:
  assumes "length es = length (live es)"
  shows "filter (\<lambda>e. e \<noteq> None) es = es"
  using assms by (metis filter_True length_filter_less length_map less_irrefl live_def)

lemma live_filter: "live (filter (\<lambda>e. e \<noteq> None) es) = live es"
  by (simp add: live_def)

lemma length_some: "length (filter (\<lambda>e. e \<noteq> None) es) = length (live es)"
  by (simp add: live_def)

lemma resize_ok:
  assumes "md_base E m" "\<forall>e \<in> set (live (ht_entries (md_keys m))). buildable (se_hash E) upd (Some e)"
    and "md_used m \<le> int (usable_of k)"
  shows "\<exists>m'. md_resize E k upd m = Some (m', Inr ()) \<and> md_base E m' \<and> md_ci m' = md_ci m \<and> md_used m' = md_used m \<and>
    ht_usable (md_keys m') = int (usable_of k) - md_used m \<and> ht_log2 (md_keys m') = k \<and>
    live (ht_entries (md_keys m')) = live (ht_entries (md_keys m))"
proof -
  let ?es = "filter (\<lambda>e. e \<noteq> None) (ht_entries (md_keys m))"
  have used: "md_used m = int (length (live (ht_entries (md_keys m))))" using assms(1) by (simp add: md_base_def)
  have es: "(if int (length (ht_entries (md_keys m))) = md_used m then ht_entries (md_keys m) else ?es) = ?es"
    using used live_all [of "ht_entries (md_keys m)"] by simp
  have "\<forall>x \<in> set ?es. buildable (se_hash E) upd x" using assms(2) by (auto simp: set_live)
  moreover have "length ?es \<le> usable_of k" using assms(3) used unfolding length_some by simp
  ultimately obtain t where t: "build_indices (se_hash E) upd ((ht_new k ?es)\<lparr>ht_usable := ht_usable (ht_new k ?es) - int (length ?es)\<rparr>) = Some (t, None)"
      "placed (se_hash E) t" "room t" "ht_entries t = ?es" "ht_log2 t = k" "ht_usable t = int (usable_of k) - int (length ?es)"
    using build_indices_placed by blast
  have len: "int (length ?es) = md_used m" using used unfolding length_some by simp
  have "md_resize E k upd m = Some (m\<lparr>md_keys := t\<rparr>, Inr ())"
    using t(1) unfolding len by (simp only: md_resize_def Let_def es after_def) simp
  moreover have "live (ht_entries t) = live (ht_entries (md_keys m))" unfolding t(4) by (rule live_filter)
  ultimately show ?thesis using t(2,3,5,6) used len by (intro exI [of _ "m\<lparr>md_keys := t\<rparr>"]) (simp add: md_base_def)
qed

lemma make_room_ok:
  assumes "md_base E m" "\<forall>e \<in> set (live (ht_entries (md_keys m))). buildable (se_hash E) upd (Some e)"
  shows "\<exists>m'. md_make_room E upd m = Some (m', Inr ()) \<and> md_base E m' \<and> md_ci m' = md_ci m \<and> md_used m' = md_used m \<and>
    0 < ht_usable (md_keys m') \<and> live (ht_entries (md_keys m')) = live (ht_entries (md_keys m))"
proof (cases "ht_usable (md_keys m) \<le> 0")
  case True
  have used: "0 \<le> md_used m" using assms(1) by (simp add: md_base_def)
  have fits: "md_used m < int (usable_of (bit_length (nat (md_used m * 3) OR 7)))"
    using resize_fits [of "nat (md_used m)"] used by (simp add: nat_mult_distrib)
  then show ?thesis using resize_ok [OF assms, of "bit_length (nat (md_used m * 3) OR 7)"] True by (auto simp: md_make_room_def)
qed (use assms(1) in \<open>auto simp: md_make_room_def\<close>)

lemma append_ok:
  assumes "md_base E m" "0 < ht_usable (md_keys m)" "h = se_hash E (me_identity e)"
  shows "\<exists>m'. md_append e h m = Some (m', Inr ()) \<and> md_base E m' \<and> md_ci m' = md_ci m \<and>
    live (ht_entries (md_keys m')) = live (ht_entries (md_keys m)) @ [e]"
proof -
  have "placed (se_hash E) (md_keys m)" "room (md_keys m)" using assms(1) by (simp_all add: md_base_def)
  then obtain i where "find_empty_slot (md_keys m) h = Some i" "placed (se_hash E) (put_slot i e (md_keys m))"
      "room (put_slot i e (md_keys m))"
    using find_put [where hs = "se_hash E" and t = "md_keys m" and x = e and h = h] assms(2,3) by blast
  then show ?thesis using assms(1) by (simp add: md_append_def md_base_def)
qed

lemma entry_ok_buildable: "good_env E \<Longrightarrow> entry_ok E ci e \<Longrightarrow> buildable (se_hash E) False (Some e)"
  by (auto simp: good_env_def entry_ok_def buildable_def)

lemma add_with_hash_ok:
  assumes "good_env E" "md_ok E m" "entry_ok E (md_ci m) e"
  shows "\<exists>m'. add_with_hash E e m = Some (m', Inr ()) \<and> md_ok E m' \<and> md_ci m' = md_ci m \<and> md_list m' = md_list m @ [item_of e]"
proof -
  have base: "md_base E m" and ents: "\<forall>e \<in> set (live (ht_entries (md_keys m))). entry_ok E (md_ci m) e"
    using assms(2) by (simp_all add: md_ok_base)
  have "\<forall>e \<in> set (live (ht_entries (md_keys m))). buildable (se_hash E) False (Some e)"
    using ents entry_ok_buildable [OF assms(1)] by blast
  then obtain m1 where m1: "md_make_room E False m = Some (m1, Inr ())" "md_base E m1" "md_ci m1 = md_ci m"
      "0 < ht_usable (md_keys m1)" "live (ht_entries (md_keys m1)) = live (ht_entries (md_keys m))"
    using make_room_ok [OF base] by blast
  have "me_hash e = se_hash E (me_identity e)" using assms(3) by (simp add: entry_ok_def)
  then obtain m2 where m2: "md_append e (me_hash e) m1 = Some (m2, Inr ())" "md_base E m2" "md_ci m2 = md_ci m1"
      "live (ht_entries (md_keys m2)) = live (ht_entries (md_keys m1)) @ [e]"
    using append_ok [OF m1(2,4)] by blast
  then show ?thesis using m1 ents assms(3) by (simp add: add_with_hash_def md_then_def md_ok_base md_list_def)
qed

lemma new_entry_ok: "entry_ok E (md_ci m) (new_entry E m (key, v))"
  by (simp add: new_entry_def entry_ok_def md_identity_def Let_def)

lemma item_of_new: "item_of (new_entry E m (key, v)) = (md_identity E m key, Some key, v)"
  by (simp add: new_entry_def item_of_def Let_def)

lemma md_ok_version [simp]: "md_ok E (incr_version m) = md_ok E m" "md_list (incr_version m) = md_list m"
  by (simp_all add: md_ok_def md_list_def)

lemma md_identity_ci: "md_ci m = md_ci m' \<Longrightarrow> md_identity E m = md_identity E m'"
  by (simp add: md_identity_def fun_eq_iff)

text \<open>
  \<^verbatim>\<open>add\<close> always returns, keeps the invariant of the table, whether or not it has to be
  resized, and puts the new item behind all the others.
\<close>

lemma add_ok:
  assumes "good_env E" "md_ok E m"
  shows "\<exists>m'. md_add E key v m = Some (m', Inr ()) \<and> md_ok E m' \<and> md_ci m' = md_ci m \<and>
    md_list m' = md_list m @ [(md_identity E m key, Some key, v)]"
  using add_with_hash_ok [OF assms new_entry_ok, of key v] item_of_new [of E m key v]
  by (auto simp: md_add_def md_then_def)

section \<open>Removing\<close>

lemma del_at_simps [simp]:
  "md_keys (md_del_at i j m) = drop_slot i ((ht_entries (md_keys m))[j := None]) (md_keys m)"
  "md_used (md_del_at i j m) = md_used m - 1" "md_ci (md_del_at i j m) = md_ci m"
  by (simp_all add: md_del_at_def)

definition del_all :: "(nat \<times> nat \<times> 'v mentry) list \<Rightarrow> 'v multidict \<Rightarrow> 'v multidict" where
  "del_all ps m = fold (\<lambda>(i, j, e). md_del_at i j) ps m"

lemma del_all_simps: "md_used (del_all ps m) = md_used m - int (length ps)" "md_ci (del_all ps m) = md_ci m"
  by (induction ps arbitrary: m) (auto simp: del_all_def)

lemma delitem_fold:
  "fold (\<lambda>(i, j, e) (m, f). (md_del_at i j m, True)) ps (m, f) = (del_all ps m, f \<or> ps \<noteq> [])"
  by (induction ps arbitrary: m f) (auto simp: del_all_def)

text \<open>The dictionary after a loop that deletes the entries with an identity.\<close>

lemma looped_delete:
  assumes "md_ok E m" "looped (se_hash E) (\<lambda>e. me_identity e = x) (\<lambda>n e. None) (md_keys m) ps (md_keys m')"
    and "md_used m' = md_used m - int (length ps)" "md_ci m' = md_ci m"
  shows "md_ok E m'" "md_list m' = filter (\<lambda>i. fst i \<noteq> x) (md_list m)" "ps = [] \<longleftrightarrow> values_of x (md_list m) = []"
proof -
  let ?l = "live (ht_entries (md_keys m))"
  have ps: "map (\<lambda>(i, j, e). e) ps = filter (\<lambda>e. me_identity e = x) ?l" using assms(2) by (simp add: looped_def)
  have live: "live (ht_entries (md_keys m')) = filter (\<lambda>e. me_identity e \<noteq> x) ?l"
    using looped_live [OF assms(2)] by (simp add: trans_live_none)
  have "length ps = length (filter (\<lambda>e. me_identity e = x) ?l)" unfolding ps [symmetric] by simp
  then have "md_used m' = int (length (live (ht_entries (md_keys m'))))"
    using assms(1,3) sum_length_filter_compl [of "\<lambda>e. me_identity e = x" ?l] unfolding live md_ok_def by simp
  then show "md_ok E m'" using assms(1,2,4) live by (auto simp: md_ok_def looped_def)
  show "md_list m' = filter (\<lambda>i. fst i \<noteq> x) (md_list m)"
    unfolding md_list_def live by (simp add: filter_map comp_def item_of_def)
  show "ps = [] \<longleftrightarrow> values_of x (md_list m) = []" unfolding hits_values [OF ps] by simp
qed

lemma delete_loop:
  assumes "good_env E" "md_ok E m" "\<And>i j e s. b i j e s = Inr (g (i, j, e) s)" "\<And>s. md_keys (st s) = tb s"
    and "\<And>i j e s. tb (g (i, j, e) s) = drop_slot i ((ht_entries (tb s))[j := None]) (tb s)" "st s = m"
  shows "\<exists>ps. iter_hash tb (\<lambda>i j e s. if me_identity e = x then b i j e s else Inr s) (se_hash E x) s = Some (fold g ps s, None) \<and>
    looped (se_hash E) (\<lambda>e. me_identity e = x) (\<lambda>n e. None) (md_keys m) ps (md_keys (st (fold g ps s)))"
proof -
  have tb: "tb s = md_keys m" using assms(4) [of s] assms(6) by simp
  have "\<exists>ps. iter_hash tb (\<lambda>i j e s. if me_identity e = x then b i j e s else Inr s) (se_hash E x) s = Some (fold g ps s, None) \<and>
    looped (se_hash E) (\<lambda>e. me_identity e = x) (\<lambda>n e. None) (tb s) ps (tb (fold g ps s))"
  proof (rule id_loop [where rel = "\<lambda>n s. True" and D = "\<lambda>e. False"])
    show "placed (se_hash E) (tb s)" "room (tb s)" using assms(2) by (simp_all add: tb md_ok_def)
    show "me_hash e = se_hash E x" if "e \<in> set (live (ht_entries (tb s)))" "me_identity e = x" for e
      using md_ok_hash [OF assms(2)] that by (simp add: tb)
    show "keeps (\<lambda>e. me_hash e = se_hash E x \<and> me_identity e = x) (\<lambda>e. False) (\<lambda>n e. None)" by (simp add: keeps_def)
  qed (simp_all add: assms(3,5) act_def)
  then show ?thesis by (simp add: assms(4) tb)
qed

text \<open>
  \<^verbatim>\<open>del\<close> removes every item with the key's identity and keeps the others in their order, or
  raises \<^verbatim>\<open>KeyError\<close> and changes nothing.
\<close>

lemma delitem_ok:
  assumes "good_env E" "md_ok E m"
  shows "\<exists>m'. md_delitem E key m = Some (m',
      if values_of (md_identity E m key) (md_list m) = [] then Inl (KeyError key) else Inr ()) \<and>
    md_ok E m' \<and> md_ci m' = md_ci m \<and> md_list m' = filter (\<lambda>i. fst i \<noteq> md_identity E m key) (md_list m)"
proof -
  let ?x = "md_identity E m key"
  let ?b = "\<lambda>i j e s. case s of (m, f :: bool) \<Rightarrow> Inr (md_del_at i j m, True)"
  let ?g = "\<lambda>(i, j, e) (m, f :: bool). (md_del_at i j m, True)"
  obtain ps where ps: "iter_hash (\<lambda>(m, f). md_keys m) (\<lambda>i j e s. if me_identity e = ?x then ?b i j e s else Inr s)
      (se_hash E ?x) (m, False) = Some (fold ?g ps (m, False), None)"
      "looped (se_hash E) (\<lambda>e. me_identity e = ?x) (\<lambda>n e. None) (md_keys m) ps (md_keys (fst (fold ?g ps (m, False))))"
    using delete_loop [OF assms, of ?b ?g fst "\<lambda>(m, f). md_keys m" "(m, False)" ?x] by (auto split: prod.splits)
  have "looped (se_hash E) (\<lambda>e. me_identity e = ?x) (\<lambda>n e. None) (md_keys m) ps (md_keys (del_all ps m))" using ps(2) by (simp add: delitem_fold)
  note d = looped_delete [OF assms(2) this del_all_simps]
  show ?thesis unfolding md_delitem_def Let_def ps(1) after_def delitem_fold using d del_all_simps(2) [of ps m]
    by (cases "ps = []") (auto simp: del_all_def)
qed

lemma popall_fold:
  "fold (\<lambda>(i, j, e) (m, f, ret). (incr_version (md_del_at i j m), True, ret @ [me_value e])) ps (m, f, ret) =
   (fold (\<lambda>(i, j, e) m. incr_version (md_del_at i j m)) ps m, f \<or> ps \<noteq> [], ret @ map me_value (map (\<lambda>(i, j, e). e) ps))"
  by (induction ps arbitrary: m f ret) auto

lemma popall_used:
  "md_used (fold (\<lambda>(i, j, e) m. incr_version (md_del_at i j m)) ps m) = md_used m - int (length ps)"
  "md_ci (fold (\<lambda>(i, j, e) m. incr_version (md_del_at i j m)) ps m) = md_ci m"
  by (induction ps arbitrary: m) auto

text \<open>
  \<^verbatim>\<open>popall\<close> returns the values of the key in the order of insertion and removes its items;
  without any it returns the default or raises \<^verbatim>\<open>KeyError\<close>.
\<close>

lemma popall_ok:
  assumes "good_env E" "md_ok E m"
  shows "\<exists>m'. md_popall E key d m = Some (m',
      let vs = values_of (md_identity E m key) (md_list m)
      in if vs \<noteq> [] then Inr vs else (case d of Some v \<Rightarrow> Inr v | None \<Rightarrow> Inl (KeyError key))) \<and>
    md_ok E m' \<and> md_ci m' = md_ci m \<and> md_list m' = filter (\<lambda>i. fst i \<noteq> md_identity E m key) (md_list m)"
proof -
  let ?x = "md_identity E m key"
  let ?b = "\<lambda>i j e s. case s of (m, f :: bool, ret) \<Rightarrow> Inr (incr_version (md_del_at i j m), True, ret @ [me_value e])"
  let ?g = "\<lambda>(i, j, e) (m, f :: bool, ret). (incr_version (md_del_at i j m), True, ret @ [me_value e])"
  obtain ps where ps: "iter_hash (\<lambda>(m, f, ret). md_keys m) (\<lambda>i j e s. if me_identity e = ?x then ?b i j e s else Inr s)
      (se_hash E ?x) (m, False, []) = Some (fold ?g ps (m, False, []), None)"
      "looped (se_hash E) (\<lambda>e. me_identity e = ?x) (\<lambda>n e. None) (md_keys m) ps (md_keys (fst (fold ?g ps (m, False, []))))"
    using delete_loop [OF assms, of ?b ?g fst "\<lambda>(m, f, ret). md_keys m" "(m, False, [])" ?x] by (auto split: prod.splits)
  let ?m = "fold (\<lambda>(i, j, e) m. incr_version (md_del_at i j m)) ps m"
  have l: "looped (se_hash E) (\<lambda>e. me_identity e = ?x) (\<lambda>n e. None) (md_keys m) ps (md_keys ?m)" using ps(2) by (simp add: popall_fold)
  note d = looped_delete [OF assms(2) l popall_used]
  have "map (\<lambda>(i, j, e). e) ps = filter (\<lambda>e. me_identity e = ?x) (live (ht_entries (md_keys m)))"
    using l by (simp add: looped_def)
  then have vs: "values_of ?x (md_list m) = map me_value (map (\<lambda>(i, j, e). e) ps)" by (simp add: values_of_list)
  show ?thesis unfolding md_popall_def Let_def ps(1) after_def popall_fold using d vs popall_used(2) [of ps m]
    by (cases "ps = []") (auto split: option.split)
qed

text \<open>The list without the first item of an identity.\<close>

fun del_first :: "string \<Rightarrow> 'v mitem list \<Rightarrow> 'v mitem list" where
  "del_first x [] = []"
| "del_first x (i # is) = (if fst i = x then is else i # del_first x is)"

lemma del_first_append:
  "\<forall>i \<in> set pre. fst i \<noteq> x \<Longrightarrow> fst i = x \<Longrightarrow> del_first x (pre @ i # post) = pre @ post"
  by (induction pre) simp_all

lemma idx_of_first:
  "idx_of Q es = j # js \<Longrightarrow> \<exists>pre e post. es = pre @ Some e # post \<and> length pre = j \<and> Q e \<and> (\<forall>e \<in> set (live pre). \<not> Q e)"
proof (induction es arbitrary: j js)
  case (Cons x es)
  show ?case
  proof (cases "\<exists>e. x = Some e \<and> Q e")
    case True
    then show ?thesis using Cons.prems by (intro exI [of _ "[]"]) (auto simp: idx_of_Cons)
  next
    case False
    then have "map Suc (idx_of Q es) = j # js" using Cons.prems by (auto simp: idx_of_Cons split: option.splits)
    then obtain j' js' where "idx_of Q es = j' # js'" "j = Suc j'" by auto
    then obtain pre e post where "es = pre @ Some e # post" "length pre = j'" "Q e" "\<forall>e \<in> set (live pre). \<not> Q e"
      using Cons.IH by blast
    moreover have "\<forall>e \<in> set (live (x # pre)). \<not> Q e" using False calculation(4) by (cases x) auto
    ultimately show ?thesis using \<open>j = Suc j'\<close>
      by (intro exI [of _ "x # pre"] exI [of _ e] exI [of _ post]) simp
  qed
qed (simp add: idx_of_def)

lemma update_live:
  "es = pre @ Some e # post \<Longrightarrow> length pre = j \<Longrightarrow>
   live (es[j := None]) = live pre @ live post \<and> live es = live pre @ e # live post"
  by auto

lemma del_one_ok:
  assumes "md_ok E m" "i < 2 ^ ht_log2 (md_keys m)" "look (md_keys m) i = Some (j, e)" "ht_entries (md_keys m) = pre @ Some e # post"
    "length pre = j"
  shows "md_ok E (md_del_at i j m)" "md_list (md_del_at i j m) = map item_of (live pre @ live post)"
proof -
  let ?t = "md_keys m"
  have "placed (se_hash E) ?t" "room ?t" using assms(1) by (simp_all add: md_ok_def)
  moreover have "without j (ht_entries ?t) ((ht_entries ?t)[j := None])" using assms(4,5) by (intro without_None) simp
  ultimately have "placed (se_hash E) (md_keys (md_del_at i j m))" "room (md_keys (md_del_at i j m))"
    using placed_drop [OF _ assms(2,3)] room_drop [OF _ assms(3)] by simp_all
  then show "md_ok E (md_del_at i j m)"
    using assms(1) update_live [OF assms(4,5)] by (auto simp: md_ok_def)
  show "md_list (md_del_at i j m) = map item_of (live pre @ live post)"
    using update_live [OF assms(4,5)] by (simp add: md_list_def)
qed

text \<open>
  \<^verbatim>\<open>popone\<close>, also called \<^verbatim>\<open>pop\<close>, returns the value of the key that was inserted first and
  removes this item only; without any it returns the default or raises \<^verbatim>\<open>KeyError\<close>.
\<close>

lemma popone_ok:
  assumes "md_ok E m"
  shows "\<exists>m'. md_popone E key d m = Some (m',
      case values_of (md_identity E m key) (md_list m) of v # _ \<Rightarrow> Inr v
      | [] \<Rightarrow> (case d of Some v \<Rightarrow> Inr v | None \<Rightarrow> Inl (KeyError key))) \<and>
    md_ok E m' \<and> md_ci m' = md_ci m \<and> md_list m' = del_first (md_identity E m key) (md_list m)"
proof -
  let ?x = "md_identity E m key" and ?es = "ht_entries (md_keys m)"
  obtain ps where ps: "first_entry E ?x m = Some ((m, case ps of [] \<Rightarrow> None | p # _ \<Rightarrow> Some p), None)"
      "map (\<lambda>(i, j, e). e) ps = filter (\<lambda>e. me_identity e = ?x) (live ?es)"
      "map (fst \<circ> snd) ps = idx_of (\<lambda>e. me_identity e = ?x) ?es"
      "\<forall>(i, j, e) \<in> set ps. i < 2 ^ ht_log2 (md_keys m) \<and> look (md_keys m) i = Some (j, e) \<and> me_identity e = ?x"
    using first_entry_ok [OF assms] by blast
  note vs = hits_values [OF ps(2)]
  show ?thesis
  proof (cases ps)
    case Nil
    have none: "del_first x xs = xs" if "values_of x xs = []" for x and xs :: "'a mitem list"
      using that by (induction xs) (auto simp: values_of_def split: if_splits)
    have "values_of ?x (md_list m) = []" using vs Nil by simp
    then show ?thesis unfolding md_popone_def ps(1) after_def using Nil assms none by (auto split: option.split)
  next
    case (Cons p qs)
    obtain i j e where p: "p = (i, j, e)" by (cases p)
    have i: "i < 2 ^ ht_log2 (md_keys m)" "look (md_keys m) i = Some (j, e)" "me_identity e = ?x" using ps(4) Cons p by auto
    have "idx_of (\<lambda>e. me_identity e = ?x) ?es = j # map (fst \<circ> snd) qs" using ps(3) Cons p by simp
    then obtain pre e' post where es: "?es = pre @ Some e' # post" "length pre = j" "\<forall>e \<in> set (live pre). me_identity e \<noteq> ?x"
      using idx_of_first by blast
    moreover have "e' = e" using look_entry [OF i(2)] es(1,2) by (simp add: nth_append)
    ultimately have es: "?es = pre @ Some e # post" "length pre = j" "\<forall>e \<in> set (live pre). me_identity e \<noteq> ?x" by simp_all
    note del = del_one_ok [OF assms i(1,2) es(1,2)]
    have "del_first ?x (md_list m) = map item_of (live pre @ live post)"
      using del_first_append [of "map item_of (live pre)" ?x "item_of e" "map item_of (live post)"] es(1,3) i(3)
      by (simp add: md_list_def item_of_def)
    then show ?thesis unfolding md_popone_def ps(1) after_def using Cons p del vs by simp
  qed
qed

text \<open>The slot of a live entry.\<close>

lemma placed_slot:
  assumes "placed hs t" "j < length (ht_entries t)" "ht_entries t ! j = Some e"
  shows "\<exists>i < 2 ^ ht_log2 t. look t i = Some (j, e)"
proof -
  let ?h = "hs (me_identity e)"
  have "j \<in> set (idx_of (\<lambda>e. hs (me_identity e) = ?h) (ht_entries t))" using assms(2,3) by (simp add: set_idx_of)
  then have "j \<in> set (found hs t ?h)" using assms(1) by (simp add: placed_def)
  then obtain i e' where i: "i \<in> set (path (ht_log2 t) (frees t) ?h)" "look t i = Some (j, e')"
    by (auto simp: found_def set_map_filter look_of_Some)
  then have "e' = e" using look_entry [OF i(2)] assms(3) by simp
  moreover have "i < 2 ^ ht_log2 t" using path_not_free [OF _ i(1)] assms(1) by (simp add: placed_def sound_def)
  ultimately show ?thesis using i(2) by blast
qed

lemma pop_entry_last:
  "live es \<noteq> [] \<Longrightarrow> \<exists>pos e. pop_entry (rev es) = Some (pos, e) \<and> pos < length es \<and> es ! pos = Some e \<and>
     (\<forall>j < length es. pos < j \<longrightarrow> es ! j = None) \<and> live es = live (take pos es) @ [e]"
proof (induction es rule: rev_induct)
  case (snoc x es)
  show ?case
  proof (cases x)
    case None
    then obtain pos e where "pop_entry (rev es) = Some (pos, e)" "pos < length es" "es ! pos = Some e"
        "\<forall>j < length es. pos < j \<longrightarrow> es ! j = None" "live es = live (take pos es) @ [e]"
      using snoc by auto
    then show ?thesis using None by (auto simp: nth_append less_Suc_eq)
  qed simp
qed simp

text \<open>
  \<^verbatim>\<open>popitem\<close> returns the key and the value of the last item and removes it, or raises
  \<^verbatim>\<open>KeyError\<close> on an empty dictionary.
\<close>

lemma popitem_ok:
  assumes "md_ok E m"
  shows "\<exists>m'. md_popitem m = Some (m', if md_list m = [] then Inl (KeyError ''empty multidict'') else Inr (snd (last (md_list m)))) \<and>
    md_ok E m' \<and> md_ci m' = md_ci m \<and> md_list m' = butlast (md_list m)"
proof (cases "live (ht_entries (md_keys m)) = []")
  case True
  then show ?thesis using assms by (simp add: md_popitem_def md_list_def md_ok_def)
next
  case False
  let ?t = "md_keys m" and ?es = "ht_entries (md_keys m)"
  obtain pos e where pos: "pop_entry (rev ?es) = Some (pos, e)" "pos < length ?es" "?es ! pos = Some e"
      "\<forall>j < length ?es. pos < j \<longrightarrow> ?es ! j = None" "live ?es = live (take pos ?es) @ [e]"
    using pop_entry_last [OF False] by blast
  have t: "placed (se_hash E) ?t" "room ?t" using assms by (simp_all add: md_ok_def)
  obtain i where i: "i < 2 ^ ht_log2 ?t" "look ?t i = Some (pos, e)" using placed_slot [OF t(1) pos(2,3)] by blast
  have "without pos ?es (take pos ?es)"
    using pos(2,4) by (auto simp: without_def)
  note drop = placed_drop [OF t(1) i this] room_drop [OF t(2) i(2)]
  have "e \<in> set (live ?es)" using pos(5) by simp
  then have "me_hash e = se_hash E (me_identity e)" using md_ok_hash [OF assms] by simp
  then have del: "del_idx (me_hash e) pos (?t\<lparr>ht_entries := take pos ?es\<rparr>) = Some (drop_slot i (take pos ?es) ?t)"
    using del_idx_drop [OF t(1) i] by simp
  let ?m = "incr_version (m\<lparr>md_keys := drop_slot i (take pos ?es) ?t, md_used := md_used m - 1\<rparr>)"
  have used: "0 < md_used m" using False assms by (simp add: md_ok_def)
  then have "md_popitem m = Some (?m, Inr (me_key e, me_value e))" using pos(1) del by (simp add: md_popitem_def)
  moreover have "md_ok E ?m" using assms drop pos(5) by (auto simp: md_ok_def)
  moreover have "md_list m = md_list ?m @ [item_of e]" using pos(5) by (simp add: md_list_def)
  ultimately show ?thesis by (simp add: item_of_def)
qed

text \<open>
  \<^verbatim>\<open>setdefault\<close> returns the first value of the key, or adds the default at the end and returns
  it.
\<close>

lemma setdefault_ok:
  assumes "good_env E" "md_ok E m"
  shows "\<exists>m'. md_setdefault E key d m = Some (m',
      Inr (case values_of (md_identity E m key) (md_list m) of v # _ \<Rightarrow> v | [] \<Rightarrow> d)) \<and> md_ok E m' \<and> md_ci m' = md_ci m \<and>
    md_list m' = md_list m @ (if values_of (md_identity E m key) (md_list m) = [] then [(md_identity E m key, Some key, d)] else [])"
proof -
  obtain ps where ps: "first_entry E (md_identity E m key) m = Some ((m, case ps of [] \<Rightarrow> None | p # _ \<Rightarrow> Some p), None)"
      "map (\<lambda>(i, j, e). e) ps = filter (\<lambda>e. me_identity e = md_identity E m key) (live (ht_entries (md_keys m)))"
    using first_entry_ok [OF assms(2)] by blast
  obtain m' where "md_add E key d m = Some (m', Inr ())" "md_ok E m'" "md_ci m' = md_ci m" "md_list m' = md_list m @ [(md_identity E m key, Some key, d)]"
    using add_ok [OF assms] by blast
  then show ?thesis
    unfolding hits_values [OF ps(2)] md_setdefault_def ps(1) after_def using assms(2)
    by (cases ps) (auto simp: md_then_def)
qed

section \<open>Replacing\<close>

text \<open>The first item of an identity replaced, the others removed; or the new item at the end.\<close>

fun put_first :: "'v mitem \<Rightarrow> 'v mitem list \<Rightarrow> 'v mitem list" where
  "put_first n [] = [n]"
| "put_first n (i # is) = (if fst i = fst n then n # filter (\<lambda>i. fst i \<noteq> fst n) is else i # put_first n is)"

definition set_entry :: "string \<Rightarrow> 'v option \<Rightarrow> nat \<Rightarrow> 'v mentry \<Rightarrow> 'v mentry option" where
  "set_entry key v n e = (if n = 0 then Some (e\<lparr>me_key := Some key, me_value := v, me_hash := - 1\<rparr>) else None)"

lemma trans_live_later: "0 < n \<Longrightarrow> trans_live Q (set_entry key v) n es = filter (\<lambda>e. \<not> Q e) es"
  by (induction es arbitrary: n) (simp_all add: set_entry_def)

lemma trans_live_set:
  assumes "\<forall>e \<in> set es. me_hash e \<noteq> - 1" "filter (\<lambda>e. me_identity e = x) es \<noteq> []"
  shows "map item_of (map (\<lambda>e. if me_hash e = - 1 then e\<lparr>me_hash := h\<rparr> else e)
      (trans_live (\<lambda>e. me_identity e = x) (set_entry key v) 0 es)) = put_first (x, Some key, v) (map item_of es)"
  using assms
proof (induction es)
  case (Cons e es)
  show ?case
  proof (cases "me_identity e = x")
    case True
    have rest: "map (\<lambda>e. if me_hash e = - 1 then e\<lparr>me_hash := h\<rparr> else e) (filter (\<lambda>e. me_identity e \<noteq> x) es) =
        filter (\<lambda>e. me_identity e \<noteq> x) es"
      using Cons.prems(1) by (intro map_idI) auto
    have "trans_live (\<lambda>e. me_identity e = x) (set_entry key v) 0 (e # es) =
        (e\<lparr>me_key := Some key, me_value := v, me_hash := - 1\<rparr>) # filter (\<lambda>e. me_identity e \<noteq> x) es"
      using True by (simp add: trans_live_later set_entry_def [of key v 0])
    then show ?thesis using True rest by (simp add: item_of_def filter_map comp_def)
  next
    case False
    then show ?thesis using Cons by (simp add: item_of_def)
  qed
qed simp

lemma put_first_absent: "values_of (fst n) xs = [] \<Longrightarrow> put_first n xs = xs @ [n]"
  by (induction xs) (auto simp: values_of_def split: if_splits)

lemma trans_live_marked:
  "e \<in> set (trans_live (\<lambda>e. me_identity e = x) (set_entry key v) n es) \<Longrightarrow>
   (\<exists>e0 \<in> set es. e = e0\<lparr>me_key := Some key, me_value := v, me_hash := - 1\<rparr> \<and> me_identity e0 = x) \<or> e \<in> set es"
  by (induction es arbitrary: n) (auto simp: set_entry_def split: if_splits)

lemma length_trans_live_set:
  "filter (\<lambda>e. me_identity e = x) es \<noteq> [] \<Longrightarrow>
   length (trans_live (\<lambda>e. me_identity e = x) (set_entry key v) 0 es) + length (filter (\<lambda>e. me_identity e = x) es) = length es + 1"
proof (induction es)
  case (Cons e es)
  show ?case
  proof (cases "me_identity e = x")
    case True
    then show ?thesis
      using sum_length_filter_compl [of "\<lambda>e. me_identity e = x" es] by (simp add: trans_live_later set_entry_def [of key v 0])
  qed (use Cons in simp)
qed simp

definition setitem_step :: "string \<Rightarrow> 'v option \<Rightarrow> nat \<times> nat \<times> 'v mentry \<Rightarrow> 'v multidict \<times> bool \<Rightarrow> 'v multidict \<times> bool" where
  "setitem_step key v = (\<lambda>(i, j, e) (m, fnd).
     if \<not> fnd then (incr_version (on_keys (upd_entry j (\<lambda>e. e\<lparr>me_key := Some key, me_value := v, me_hash := - 1\<rparr>)) m), True)
     else (md_del_at i j m, True))"

lemma setitem_step_simps [simp]:
  "setitem_step key v (i, j, e) (m, True) = (md_del_at i j m, True)"
  "setitem_step key v (i, j, e) (m, False) =
     (incr_version (on_keys (upd_entry j (\<lambda>e. e\<lparr>me_key := Some key, me_value := v, me_hash := - 1\<rparr>)) m), True)"
  by (simp_all add: setitem_step_def)

lemma setitem_fold:
  "md_used (fst (fold (setitem_step key v) ps (m, f))) = md_used m - int (length ps) + (if f \<or> ps = [] then 0 else 1) \<and>
   md_ci (fst (fold (setitem_step key v) ps (m, f))) = md_ci m \<and>
   snd (fold (setitem_step key v) ps (m, f)) = (f \<or> ps \<noteq> [])"
proof (induction ps arbitrary: m f)
  case (Cons p ps)
  obtain i j e where "p = (i, j, e)" by (cases p)
  then show ?case using Cons by (cases f) simp_all
qed simp

lemma setitem_loop:
  assumes "good_env E" "md_ok E m"
  shows "\<exists>ps. iter_hash (\<lambda>(m, fnd). md_keys m)
      (\<lambda>i j e s. if me_identity e = x
         then (case s of (m, fnd) \<Rightarrow>
           if \<not> fnd
           then Inr (incr_version (on_keys (upd_entry j (\<lambda>e. e\<lparr>me_key := Some key, me_value := v, me_hash := - 1\<rparr>)) m), True)
           else if me_hash e \<noteq> - 1 then Inr (md_del_at i j m, True) else Inr s)
         else Inr s) (se_hash E x) (m, False) = Some (fold (setitem_step key v) ps (m, False), None) \<and>
    looped (se_hash E) (\<lambda>e. me_identity e = x) (set_entry key v) (md_keys m) ps (md_keys (fst (fold (setitem_step key v) ps (m, False))))"
proof -
  let ?h = "se_hash E x" and ?tb = "\<lambda>(m, fnd :: bool). md_keys m"
  let ?b = "\<lambda>i j e s. case s of (m, fnd) \<Rightarrow>
      if \<not> fnd
      then Inr (incr_version (on_keys (upd_entry j (\<lambda>e. e\<lparr>me_key := Some key, me_value := v, me_hash := - 1\<rparr>)) m), True)
      else if me_hash e \<noteq> - 1 then Inr (md_del_at i j m, True) else Inr s"
  have h: "?h \<noteq> - 1" using assms(1) by (simp add: good_env_def)
  have "\<exists>ps. iter_hash ?tb (\<lambda>i j e s. if me_identity e = x then ?b i j e s else Inr s) ?h (m, False) =
      Some (fold (setitem_step key v) ps (m, False), None) \<and>
    looped (se_hash E) (\<lambda>e. me_identity e = x) (set_entry key v) (?tb (m, False)) ps (?tb (fold (setitem_step key v) ps (m, False)))"
  proof (rule id_loop [where rel = "\<lambda>n s. snd s = (0 < n)" and D = "\<lambda>e. False"])
    show "me_hash e = ?h" if "e \<in> set (live (ht_entries (?tb (m, False))))" "me_identity e = x" for e
      using md_ok_hash [OF assms(2)] that by simp
    show "keeps (\<lambda>e. me_hash e = ?h \<and> me_identity e = x) (\<lambda>e. False) (set_entry key v)"
      using h by (simp add: keeps_def set_entry_def)
    show "?b i j e s = Inr (setitem_step key v (i, j, e) s)" if "snd s = (0 < n)" "me_hash e = ?h" for n :: nat and i j e s
      using that h by (cases s) (simp add: setitem_step_def)
    show "?tb (setitem_step key v (i, j, e) s) = act (set_entry key v) n (i, j, e) (?tb s) \<and>
        snd (setitem_step key v (i, j, e) s) = (0 < Suc n)"
      if "snd s = (0 < n)" "ht_entries (?tb s) ! j = Some e" for n :: nat and i j e s
      using that by (cases s) (simp add: setitem_step_def set_entry_def act_def upd_entry_def)
  qed (use assms(2) in \<open>simp_all add: md_ok_def\<close>)
  then show ?thesis by (simp add: case_prod_beta)
qed

lemma setitem_ok:
  assumes "good_env E" "md_ok E m"
  shows "\<exists>m'. md_setitem E key v m = Some (m', Inr ()) \<and> md_ok E m' \<and> md_ci m' = md_ci m \<and>
    md_list m' = put_first (md_identity E m key, Some key, v) (md_list m)"
proof -
  let ?x = "md_identity E m key" and ?l = "live (ht_entries (md_keys m))"
  let ?h = "se_hash E ?x"
  have h: "?h \<noteq> - 1" using assms(1) by (simp add: good_env_def)
  obtain ps where loop: "iter_hash (\<lambda>(m, fnd). md_keys m)
      (\<lambda>i j e s. if me_identity e = ?x
         then (case s of (m, fnd) \<Rightarrow>
           if \<not> fnd
           then Inr (incr_version (on_keys (upd_entry j (\<lambda>e. e\<lparr>me_key := Some key, me_value := v, me_hash := - 1\<rparr>)) m), True)
           else if me_hash e \<noteq> - 1 then Inr (md_del_at i j m, True) else Inr s)
         else Inr s) ?h (m, False) = Some (fold (setitem_step key v) ps (m, False), None)"
      "looped (se_hash E) (\<lambda>e. me_identity e = ?x) (set_entry key v) (md_keys m) ps (md_keys (fst (fold (setitem_step key v) ps (m, False))))"
    using setitem_loop [OF assms] by blast
  have ps: "map (\<lambda>(i, j, e). e) ps = filter (\<lambda>e. me_identity e = ?x) ?l" using loop(2) by (simp add: looped_def)
  show ?thesis
  proof (cases "ps = []")
    case True
    have "values_of ?x (md_list m) = []" using hits_values [OF ps] True by simp
    then show ?thesis
      using loop(1) True add_with_hash_ok [OF assms new_entry_ok, of key v]
      by (auto simp: md_setitem_def Let_def after_def item_of_new put_first_absent)
  next
    case False
    define m1 where "m1 = fst (fold (setitem_step key v) ps (m, False))"
    have fold: "fold (setitem_step key v) ps (m, False) = (m1, True)"
      using setitem_fold [of key v ps m False] False by (simp add: m1_def prod_eq_iff)
    have l: "looped (se_hash E) (\<lambda>e. me_identity e = ?x) (set_entry key v) (md_keys m) ps (md_keys m1)" using loop(2) by (simp add: m1_def)
    have live1: "live (ht_entries (md_keys m1)) = trans_live (\<lambda>e. me_identity e = ?x) (set_entry key v) 0 ?l"
      by (rule looped_live [OF l])
    have old: "\<forall>e \<in> set ?l. me_hash e \<noteq> - 1"
      using assms by (auto simp: md_ok_def entry_ok_def good_env_def)
    have new: "(\<exists>e0 \<in> set ?l. e = e0\<lparr>me_key := Some key, me_value := v, me_hash := - 1\<rparr> \<and> me_identity e0 = ?x) \<or> e \<in> set ?l"
      if "Some e \<in> set (ht_entries (md_keys m1))" for e
      using that trans_live_marked [of e ?x key v 0 ?l] unfolding live1 [symmetric] set_live by blast
    have "\<forall>e. Some e \<in> set (ht_entries (md_keys m1)) \<and> me_hash e = - 1 \<longrightarrow> se_hash E (me_identity e) = ?h"
      using new old by fastforce
    then obtain t where t: "restore_hash ?h (md_keys m1) = Some (t, None)" "placed (se_hash E) t" "room t"
        "ht_entries t = trans_from (\<lambda>e. me_hash e = - 1) (\<lambda>n e. Some (e\<lparr>me_hash := ?h\<rparr>)) 0 (ht_entries (md_keys m1))"
      using restore_ok [OF _ _ _ h, of "se_hash E" "md_keys m1"] l by (auto simp: looped_def)
    let ?m = "m1\<lparr>md_keys := t\<rparr>"
    have live2: "live (ht_entries t) = map (\<lambda>e. if me_hash e = - 1 then e\<lparr>me_hash := ?h\<rparr> else e) (live (ht_entries (md_keys m1)))"
      unfolding t(4) live_trans trans_live_some ..
    have ne: "filter (\<lambda>e. me_identity e = ?x) ?l \<noteq> []" using ps False by (metis map_is_Nil_conv)
    have list: "md_list ?m = put_first (?x, Some key, v) (md_list m)"
      using trans_live_set [OF old ne, of ?h key v] by (simp add: md_list_def live2 live1)
    have "md_used m1 = md_used m - int (length ps) + 1" using setitem_fold [of key v ps m False] False by (simp add: m1_def)
    moreover have "length ps = length (filter (\<lambda>e. me_identity e = ?x) ?l)" unfolding ps [symmetric] by simp
    ultimately have used: "md_used ?m = int (length (live (ht_entries t)))"
      using length_trans_live_set [OF ne, of key v] assms(2) by (simp add: live2 live1 md_ok_def)
    have ci: "md_ci m1 = md_ci m" using setitem_fold [of key v ps m False] by (simp add: m1_def)
    have "entry_ok E (md_ci m) e" if e: "e \<in> set (live (ht_entries t))" for e
    proof -
      obtain e1 where e1: "Some e1 \<in> set (ht_entries (md_keys m1))" "e = (if me_hash e1 = - 1 then e1\<lparr>me_hash := ?h\<rparr> else e1)"
        using e unfolding live2 by (auto simp: set_live)
      show ?thesis using new [OF e1(1)]
      proof
        assume "\<exists>e0 \<in> set ?l. e1 = e0\<lparr>me_key := Some key, me_value := v, me_hash := - 1\<rparr> \<and> me_identity e0 = ?x"
        then show ?thesis using e1(2) by (auto simp: entry_ok_def md_identity_def)
      next
        assume "e1 \<in> set ?l"
        then show ?thesis using e1(2) old assms(2) by (auto simp: md_ok_def)
      qed
    qed
    then have "md_ok E ?m" using t(2,3) used ci by (simp add: md_ok_def)
    moreover have "md_setitem E key v m = Some (?m, Inr ())"
      using loop(1) fold t(1) by (simp add: md_setitem_def Let_def after_def md_restore_def)
    ultimately show ?thesis using list ci by auto
  qed
qed

end
