(* ===== verification/Multidict_Update.thy ===== *)
theory Multidict_Update
  imports Multidict_Spec
begin

text \<open>
  \<^verbatim>\<open>update\<close> and \<^verbatim>\<open>merge\<close> of a multidict. While they run, an entry that was handled has the hash
  \<open>-1\<close> and an entry that is to go has the key \<^verbatim>\<open>None\<close>; the list they work on is a list of items with
  a flag for handled. The result is \<open>upd_items\<close>: the items given replace the items of the same
  identity one for one, items of that identity that are left over go, and items given that are
  left over are appended.
\<close>

section \<open>Specification\<close>

text \<open>The first item of an identity, and the items without it.\<close>

fun extract_id :: "string \<Rightarrow> 'v mitem list \<Rightarrow> ('v mitem \<times> 'v mitem list) option" where
  "extract_id x [] = None"
| "extract_id x (n # ns) =
     (if fst n = x then Some (n, ns) else map_option (\<lambda>(n', ns'). (n', n # ns')) (extract_id x ns))"

fun upd_items :: "string set \<Rightarrow> 'v mitem list \<Rightarrow> 'v mitem list \<Rightarrow> 'v mitem list" where
  "upd_items ids ns [] = ns"
| "upd_items ids ns (i # is) =
     (case extract_id (fst i) ns of
        Some (n, ns') \<Rightarrow> n # upd_items ids ns' is
      | None \<Rightarrow> if fst i \<in> ids then upd_items ids ns is else i # upd_items ids ns is)"

lemma extract_None: "extract_id x ns = None \<longleftrightarrow> x \<notin> fst ` set ns"
  by (induction ns) auto

lemma extract_id_values:
  "extract_id x ns = Some (n, ns') \<Longrightarrow> fst n = x \<and> values_of x ns = snd (snd n) # values_of x ns' \<and>
   (\<forall>y. y \<noteq> x \<longrightarrow> values_of y ns = values_of y ns') \<and> set ns = insert n (set ns')"
proof (induction ns arbitrary: n ns')
  case (Cons m ns)
  show ?case
  proof (cases "fst m = x")
    case True
    then show ?thesis using Cons.prems by (auto simp: values_of_def)
  next
    case False
    then obtain ns1 where ns1: "extract_id x ns = Some (n, ns1)" "ns' = m # ns1" using Cons.prems by auto
    show ?thesis using Cons.IH [OF ns1(1)] ns1(2) False by (auto simp: values_of_def)
  qed
qed simp

text \<open>What a reader of the new dictionary sees: the new values of a key, if there are any.\<close>

lemma upd_items_values:
  "fst ` set ns \<subseteq> ids \<Longrightarrow>
   values_of x (upd_items ids ns is) = (if x \<in> ids then values_of x ns else values_of x is)"
proof (induction "is" arbitrary: ns)
  case Nil
  then show ?case by (auto simp: values_of_def filter_empty_conv image_iff subset_iff)
next
  case (Cons i "is")
  show ?case
  proof (cases "extract_id (fst i) ns")
    case None
    then show ?thesis using Cons by (auto simp: values_of_def)
  next
    case (Some p)
    then obtain n ns' where p: "extract_id (fst i) ns = Some (n, ns')" by (cases p) auto
    note e = extract_id_values [OF p]
    have "fst ` set ns' \<subseteq> ids" "fst i \<in> ids" using e Cons.prems by auto
    then show ?thesis using Cons.IH [of ns'] e p by (cases "x = fst i") (auto simp: values_of_def)
  qed
qed

section \<open>Items with a flag\<close>

type_synonym 'v fitem = "'v mitem \<times> bool"

definition visible :: "string \<Rightarrow> 'v fitem \<Rightarrow> bool" where
  "visible x f \<longleftrightarrow> fst (fst f) = x \<and> \<not> snd f"

definition to_go :: "'v mitem \<Rightarrow> 'v fitem" where
  "to_go i = ((fst i, None, None), False)"

fun upd_step :: "'v mitem \<Rightarrow> 'v fitem list \<Rightarrow> 'v fitem list" where
  "upd_step n [] = [(n, True)]"
| "upd_step n (f # fs) =
     (if visible (fst n) f
      then (n, True) # map (\<lambda>f. if visible (fst n) f then to_go (fst f) else f) fs
      else f # upd_step n fs)"

definition clean :: "'v fitem list \<Rightarrow> 'v mitem list" where
  "clean fs = map fst (filter (\<lambda>f. fst (snd (fst f)) \<noteq> None) fs)"

text \<open>The list after the items \<open>ns\<close>.\<close>

fun upd_flags :: "string set \<Rightarrow> 'v mitem list \<Rightarrow> 'v mitem list \<Rightarrow> 'v fitem list" where
  "upd_flags ids ns [] = map (\<lambda>n. (n, True)) ns"
| "upd_flags ids ns (i # is) =
     (case extract_id (fst i) ns of
        Some (n, ns') \<Rightarrow> (n, True) # upd_flags ids ns' is
      | None \<Rightarrow> (if fst i \<in> ids then to_go i else (i, False)) # upd_flags ids ns is)"

lemma extract_snoc:
  "extract_id x (ns @ [n]) =
     (case extract_id x ns of Some (n', ns') \<Rightarrow> Some (n', ns' @ [n])
      | None \<Rightarrow> if fst n = x then Some (n, ns) else None)"
  by (induction ns) (auto split: option.split)

lemma upd_flags_pend:
  "x \<notin> fst ` set ns \<Longrightarrow>
   map (\<lambda>f. if visible x f then to_go (fst f) else f) (upd_flags ids ns is) = upd_flags (insert x ids) ns is"
proof (induction "is" arbitrary: ns)
  case (Cons i "is")
  show ?case
  proof (cases "extract_id (fst i) ns")
    case None
    then show ?thesis using Cons by (auto simp: visible_def to_go_def)
  next
    case (Some p)
    then obtain n ns' where p: "extract_id (fst i) ns = Some (n, ns')" by (cases p) auto
    have "x \<notin> fst ` set ns'" using extract_id_values [OF p] Cons.prems by auto
    then show ?thesis using Cons.IH [of ns'] p by (simp add: visible_def)
  qed
qed (simp add: visible_def)

lemma upd_step_flags: "upd_step n (upd_flags ids ns is) = upd_flags (insert (fst n) ids) (ns @ [n]) is"
proof (induction "is" arbitrary: ns)
  case Nil
  have "upd_step n (map (\<lambda>n. (n, True)) ms) = map (\<lambda>n. (n, True)) ms @ [(n, True)]" for ms
    by (induction ms) (simp_all add: visible_def)
  then show ?case by simp
next
  case (Cons i "is")
  show ?case
  proof (cases "extract_id (fst i) ns")
    case (Some p)
    then obtain n1 ns' where "extract_id (fst i) ns = Some (n1, ns')" by (cases p) auto
    then show ?thesis using Cons.IH [of ns'] by (simp add: visible_def extract_snoc)
  next
    case None
    then have "fst i \<notin> fst ` set ns" by (simp add: extract_None)
    then show ?thesis using Cons.IH [of ns] None upd_flags_pend [of "fst i" ns ids "is"]
      by (cases "fst i = fst n") (auto simp: extract_snoc visible_def to_go_def)
  qed
qed

lemma upd_flags_start: "upd_flags {} [] is = map (\<lambda>i. (i, False)) is"
  by (induction "is") simp_all

lemma upd_steps: "fold upd_step ns (upd_flags ids ms is) = upd_flags (ids \<union> fst ` set ns) (ms @ ns) is"
  by (induction ns arbitrary: ids ms) (simp_all add: upd_step_flags insert_commute)

lemma clean_flags:
  "\<forall>n \<in> set ns. fst (snd n) \<noteq> None \<Longrightarrow> \<forall>i \<in> set is. fst (snd i) \<noteq> None \<Longrightarrow> clean (upd_flags ids ns is) = upd_items ids ns is"
proof (induction "is" arbitrary: ns)
  case Nil
  then show ?case by (simp add: clean_def comp_def)
next
  case (Cons i "is")
  show ?case
  proof (cases "extract_id (fst i) ns")
    case None
    then show ?thesis using Cons by (auto simp: clean_def to_go_def)
  next
    case (Some p)
    then obtain n ns' where p: "extract_id (fst i) ns = Some (n, ns')" by (cases p) auto
    then show ?thesis using Cons.IH [of ns'] extract_id_values [OF p] Cons.prems by (auto simp: clean_def)
  qed
qed

section \<open>One item\<close>

definition flag_of :: "'v mentry \<Rightarrow> 'v fitem" where
  "flag_of e = (item_of e, me_hash e = - 1)"

definition flag_list :: "'v multidict \<Rightarrow> 'v fitem list" where
  "flag_list m = map flag_of (live (ht_entries (md_keys m)))"

text \<open>An entry during an update: marked or not; one that is to go is not marked.\<close>

definition upd_entry_ok :: "str_env \<Rightarrow> bool \<Rightarrow> 'v mentry \<Rightarrow> bool" where
  "upd_entry_ok E ci e \<longleftrightarrow> (me_hash e = se_hash E (me_identity e) \<or> me_hash e = - 1 \<and> me_key e \<noteq> None) \<and>
     (\<forall>k. me_key e = Some k \<longrightarrow> me_identity e = (if ci then se_lower E k else k))"

definition upd_ok :: "str_env \<Rightarrow> 'v multidict \<Rightarrow> bool" where
  "upd_ok E m \<longleftrightarrow> md_base E m \<and> (\<forall>e \<in> set (live (ht_entries (md_keys m))). upd_entry_ok E (md_ci m) e)"

lemma md_ok_upd: "md_ok E m \<Longrightarrow> upd_ok E m"
  by (auto simp: md_ok_base upd_ok_def upd_entry_ok_def entry_ok_def)

lemma flag_list_start:
  assumes "good_env E" "md_ok E m"
  shows "flag_list m = map (\<lambda>i. (i, False)) (md_list m)"
proof -
  have "me_hash e \<noteq> - 1" if "e \<in> set (live (ht_entries (md_keys m)))" for e
    using assms that by (auto simp: md_ok_def entry_ok_def good_env_def)
  then show ?thesis by (simp add: flag_list_def md_list_def flag_of_def)
qed

definition upd_act :: "'v mentry \<Rightarrow> nat \<Rightarrow> 'v mentry \<Rightarrow> 'v mentry option" where
  "upd_act x n e = Some (if n = 0 then e\<lparr>me_key := me_key x, me_value := me_value x, me_hash := - 1\<rparr> else del_for_upd e)"

definition update_step :: "'v mentry \<Rightarrow> nat \<times> nat \<times> 'v mentry \<Rightarrow> 'v multidict \<times> bool \<Rightarrow> 'v multidict \<times> bool" where
  "update_step x = (\<lambda>(i, j, e) (m, fnd).
     if \<not> fnd then (on_keys (upd_entry j (\<lambda>e. e\<lparr>me_key := me_key x, me_value := me_value x, me_hash := - 1\<rparr>)) m, True)
     else (on_keys (upd_entry j del_for_upd) m, True))"

lemma update_step_simps [simp]:
  "update_step x (i, j, e) (m, True) = (on_keys (upd_entry j del_for_upd) m, True)"
  "update_step x (i, j, e) (m, False) =
     (on_keys (upd_entry j (\<lambda>e. e\<lparr>me_key := me_key x, me_value := me_value x, me_hash := - 1\<rparr>)) m, True)"
  by (simp_all add: update_step_def)

lemma update_fold:
  "md_used (fst (fold (update_step x) ps (m, f))) = md_used m \<and> md_ci (fst (fold (update_step x) ps (m, f))) = md_ci m \<and>
   snd (fold (update_step x) ps (m, f)) = (f \<or> ps \<noteq> [])"
proof (induction ps arbitrary: m f)
  case (Cons p ps)
  obtain i j e where "p = (i, j, e)" by (cases p)
  then show ?case using Cons by (cases f) simp_all
qed simp

lemma on_keys_idle: "ht_entries (md_keys m) ! j = Some e \<Longrightarrow> f e = e \<Longrightarrow> on_keys (upd_entry j f) m = m"
  using list_update_id [of "ht_entries (md_keys m)" j] by (simp add: on_keys_def upd_entry_def)

lemma update_loop:
  fixes x :: "'v mentry"
  assumes "good_env E" "upd_ok E m"
  defines "h \<equiv> se_hash E (me_identity x)"
  shows "\<exists>ps. iter_hash (\<lambda>(m, fnd). md_keys m)
      (\<lambda>i j e s. if me_identity e = me_identity x
         then (case s of (m, fnd) \<Rightarrow>
           if \<not> fnd
           then Inr (on_keys (upd_entry j (\<lambda>e. e\<lparr>me_key := me_key x, me_value := me_value x, me_hash := - 1\<rparr>)) m, True)
           else Inr (on_keys (upd_entry j del_for_upd) m, True))
         else Inr s) h (m, False) = Some (fold (update_step x) ps (m, False), None) \<and>
    looped (se_hash E) (\<lambda>e. me_hash e = h \<and> me_identity e = me_identity x) (upd_act x) (md_keys m) ps
      (md_keys (fst (fold (update_step x) ps (m, False))))"
proof -
  let ?tb = "\<lambda>(m, fnd :: bool). md_keys m" and ?Q = "\<lambda>e. me_hash e = h \<and> me_identity e = me_identity x"
  let ?b = "\<lambda>(i :: nat) j (e :: 'v mentry) s. case s of (m, fnd) \<Rightarrow>
      if \<not> fnd
      then Inr (on_keys (upd_entry j (\<lambda>e. e\<lparr>me_key := me_key x, me_value := me_value x, me_hash := - 1\<rparr>)) m, True)
      else Inr (on_keys (upd_entry j del_for_upd) m, True)"
  have h: "h \<noteq> - 1" using assms(1) by (simp add: h_def good_env_def)
  have "\<exists>ps. iter_hash ?tb (\<lambda>i j e s. if me_identity e = me_identity x then ?b i j e s else Inr s) h (m, False) =
      Some (fold (update_step x) ps (m, False), None) \<and>
    looped (se_hash E) ?Q (upd_act x) (?tb (m, False)) ps (?tb (fold (update_step x) ps (m, False)))"
  proof (rule hash_loop [where rel = "\<lambda>n s. snd s = (0 < n)" and D = "\<lambda>e. del_for_upd e = e"])
    show "keeps ?Q (\<lambda>e. del_for_upd e = e) (upd_act x)"
      using h by (simp add: keeps_def upd_act_def del_for_upd_def)
    show "?b i j e s = Inr (update_step x (i, j, e) s)" if "snd s = (0 < n)" for n :: nat and i j e s
      using that by (cases s) (simp add: update_step_def)
    show "?tb (update_step x (i, j, e) s) = act (upd_act x) n (i, j, e) (?tb s) \<and> snd (update_step x (i, j, e) s) = (0 < Suc n)"
      if "snd s = (0 < n)" "ht_entries (?tb s) ! j = Some e" for n :: nat and i j e s
      using that by (cases s) (simp add: update_step_def upd_act_def act_def upd_entry_def)
    show "update_step x (i, j, e) s = s" if "snd s = (0 < Suc n)" "ht_entries (?tb s) ! j = Some e" "del_for_upd e = e" for n i j e s
      using that on_keys_idle [of "fst s" j e del_for_upd] by (cases s) simp
  qed (use assms(2) in \<open>simp_all add: upd_ok_def md_base_def h_def\<close>)
  then show ?thesis by (simp add: case_prod_beta)
qed

lemma upd_act_later:
  "0 < n \<Longrightarrow> trans_live Q (upd_act x) n es = map (\<lambda>e. if Q e then del_for_upd e else e) es"
  by (induction es arbitrary: n) (simp_all add: upd_act_def)

lemma trans_live_upd:
  assumes "h \<noteq> - 1" "\<forall>e \<in> set es. me_identity e = me_identity x \<longrightarrow> me_hash e = h \<or> me_hash e = - 1"
    "filter (\<lambda>e. me_hash e = h \<and> me_identity e = me_identity x) es \<noteq> []"
  shows "map flag_of (trans_live (\<lambda>e. me_hash e = h \<and> me_identity e = me_identity x) (upd_act x) 0 es) =
    upd_step (item_of x) (map flag_of es)"
  using assms(2,3)
proof (induction es)
  case (Cons e es)
  have vis: "visible (fst (item_of x)) (flag_of e') \<longleftrightarrow> me_hash e' = h \<and> me_identity e' = me_identity x"
    if "e' \<in> set (e # es)" for e'
    using that Cons.prems(1) assms(1) by (auto simp: visible_def flag_of_def item_of_def)
  show ?case
  proof (cases "me_hash e = h \<and> me_identity e = me_identity x")
    case True
    have "flag_of (if me_hash e' = h \<and> me_identity e' = me_identity x then del_for_upd e' else e') =
        (if visible (fst (item_of x)) (flag_of e') then to_go (fst (flag_of e')) else flag_of e')" if "e' \<in> set es" for e'
      using vis [of e'] that assms(1) by (auto simp: flag_of_def to_go_def item_of_def del_for_upd_def)
    then show ?thesis
      using True vis [of e] by (simp add: upd_act_def [of x 0] upd_act_later) (simp add: flag_of_def item_of_def)
  next
    case False
    then have "filter (\<lambda>e. me_hash e = h \<and> me_identity e = me_identity x) es \<noteq> []"
      using Cons.prems(2) False by (auto split: if_splits)
    note IH = Cons.IH [OF _ this]
    have "\<not> visible (fst (item_of x)) (flag_of e)" using vis [of e] False by simp
    then show ?thesis using IH Cons.prems(1) False by auto
  qed
qed simp

lemma upd_step_absent: "\<forall>f \<in> set fs. \<not> visible (fst n) f \<Longrightarrow> upd_step n fs = fs @ [(n, True)]"
  by (induction fs) simp_all

text \<open>Appending during an update.\<close>

lemma upd_buildable: "good_env E \<Longrightarrow> upd_entry_ok E ci e \<Longrightarrow> buildable (se_hash E) True (Some e)"
  by (auto simp: good_env_def upd_entry_ok_def buildable_def)

lemma add_for_upd_ok:
  assumes "good_env E" "upd_ok E m" "entry_ok E (md_ci m) x"
  shows "\<exists>m'. add_with_hash_for_upd E x m = Some (m', Inr ()) \<and> upd_ok E m' \<and> md_ci m' = md_ci m \<and>
    flag_list m' = flag_list m @ [(item_of x, True)]"
proof -
  have base: "md_base E m" and ents: "\<forall>e \<in> set (live (ht_entries (md_keys m))). upd_entry_ok E (md_ci m) e"
    using assms(2) by (simp_all add: upd_ok_def)
  have "\<forall>e \<in> set (live (ht_entries (md_keys m))). buildable (se_hash E) True (Some e)"
    using ents upd_buildable [OF assms(1)] by blast
  then obtain m1 where m1: "md_make_room E True m = Some (m1, Inr ())" "md_base E m1" "md_ci m1 = md_ci m"
      "0 < ht_usable (md_keys m1)" "live (ht_entries (md_keys m1)) = live (ht_entries (md_keys m))"
    using make_room_ok [OF base] by blast
  have "me_hash x = se_hash E (me_identity (mark (- 1) x))" using assms(3) by (simp add: entry_ok_def mark_def)
  then obtain m2 where m2: "md_append (mark (- 1) x) (me_hash x) m1 = Some (m2, Inr ())" "md_base E m2" "md_ci m2 = md_ci m1"
      "live (ht_entries (md_keys m2)) = live (ht_entries (md_keys m1)) @ [mark (- 1) x]"
    using append_ok [OF m1(2,4)] by blast
  moreover have "upd_entry_ok E (md_ci m) (mark (- 1) x)" using assms(3) by (auto simp: entry_ok_def upd_entry_ok_def mark_def)
  ultimately show ?thesis using m1 ents
    by (simp add: add_with_hash_for_upd_def md_then_def upd_ok_def flag_list_def) (simp add: flag_of_def item_of_def mark_def)
qed

lemma update_item_ok:
  fixes x :: "'v mentry"
  assumes "good_env E" "upd_ok E m" "entry_ok E (md_ci m) x"
  shows "\<exists>m'. update_item E x m = Some (m', Inr ()) \<and> upd_ok E m' \<and> md_ci m' = md_ci m \<and>
    flag_list m' = upd_step (item_of x) (flag_list m)"
proof -
  let ?l = "live (ht_entries (md_keys m))" and ?h = "se_hash E (me_identity x)"
  let ?Q = "\<lambda>e. me_hash e = ?h \<and> me_identity e = me_identity x"
  have h: "?h \<noteq> - 1" "me_hash x = ?h" using assms(1,3) by (simp_all add: good_env_def entry_ok_def)
  have ents: "\<forall>e \<in> set ?l. upd_entry_ok E (md_ci m) e" using assms(2) by (simp add: upd_ok_def)
  then have ids: "\<forall>e \<in> set ?l. me_identity e = me_identity x \<longrightarrow> me_hash e = ?h \<or> me_hash e = - 1"
    by (auto simp: upd_entry_ok_def)
  obtain ps where loop: "iter_hash (\<lambda>(m, fnd). md_keys m)
      (\<lambda>i j e s. if me_identity e = me_identity x
         then (case s of (m, fnd) \<Rightarrow>
           if \<not> fnd
           then Inr (on_keys (upd_entry j (\<lambda>e. e\<lparr>me_key := me_key x, me_value := me_value x, me_hash := - 1\<rparr>)) m, True)
           else Inr (on_keys (upd_entry j del_for_upd) m, True))
         else Inr s) ?h (m, False) = Some (fold (update_step x) ps (m, False), None)"
      "looped (se_hash E) ?Q (upd_act x) (md_keys m) ps (md_keys (fst (fold (update_step x) ps (m, False))))"
    using update_loop [OF assms(1,2)] by blast
  have ps: "map (\<lambda>(i, j, e). e) ps = filter ?Q ?l" using loop(2) by (simp add: looped_def)
  show ?thesis
  proof (cases "ps = []")
    case True
    then have none: "\<forall>e \<in> set ?l. \<not> ?Q e" using ps by (simp add: filter_empty_conv eq_commute [of "[]"])
    have "\<not> visible (me_identity x) (flag_of e)" if "e \<in> set ?l" for e
      using none ids that by (auto simp: visible_def flag_of_def item_of_def)
    then have "upd_step (item_of x) (flag_list m) = flag_list m @ [(item_of x, True)]"
      by (intro upd_step_absent) (auto simp: flag_list_def item_of_def)
    then show ?thesis
      using loop(1) True add_for_upd_ok [OF assms] by (simp add: update_item_def after_def h(2))
  next
    case False
    define m1 where "m1 = fst (fold (update_step x) ps (m, False))"
    have fold: "fold (update_step x) ps (m, False) = (m1, True)"
      using update_fold [of x ps m False] False by (simp add: m1_def prod_eq_iff)
    have l: "looped (se_hash E) ?Q (upd_act x) (md_keys m) ps (md_keys m1)" using loop(2) by (simp add: m1_def)
    have live1: "live (ht_entries (md_keys m1)) = trans_live ?Q (upd_act x) 0 ?l" by (rule looped_live [OF l])
    have ne: "filter ?Q ?l \<noteq> []" using ps False by (metis map_is_Nil_conv)
    have "length (trans_live Q (upd_act x) n es) = length es" for Q n and es :: "'v mentry list"
      by (induction es arbitrary: n) (simp_all add: upd_act_def)
    moreover have "placed (se_hash E) (md_keys m1)" "room (md_keys m1)" using l unfolding looped_def by blast+
    moreover have "md_used m1 = md_used m" using update_fold [of x ps m False] by (simp add: m1_def)
    ultimately have base: "md_base E m1" using assms(2) live1 by (simp add: md_base_def upd_ok_def)
    have "upd_entry_ok E (md_ci m) e" if "e \<in> set (trans_live ?Q (upd_act x) n es)" "set es \<subseteq> set ?l" for e n es
      using that
    proof (induction es arbitrary: n)
      case (Cons e0 es)
      have "upd_entry_ok E (md_ci m) (the (upd_act x n e0))" if "?Q e0"
        using that assms(3) by (auto simp: upd_act_def upd_entry_ok_def del_for_upd_def entry_ok_def)
      then show ?case using Cons ents by (auto simp: upd_act_def split: if_splits)
    qed simp
    then have "upd_ok E m1" using base live1 update_fold [of x ps m False] by (simp add: upd_ok_def m1_def)
    moreover have "flag_list m1 = upd_step (item_of x) (flag_list m)"
      unfolding flag_list_def live1 by (rule trans_live_upd [OF h(1) ids ne])
    moreover have "update_item E x m = Some (m1, Inr ())"
      using loop(1) fold by (simp add: update_item_def after_def h(2))
    ultimately show ?thesis using update_fold [of x ps m False] by (simp add: m1_def)
  qed
qed

text \<open>\<^verbatim>\<open>merge\<close> leaves an item out if its identity was there before.\<close>

definition merge_step :: "'v mitem \<Rightarrow> 'v fitem list \<Rightarrow> 'v fitem list" where
  "merge_step n fs = (if \<exists>f \<in> set fs. visible (fst n) f then fs else fs @ [(n, True)])"

lemma merge_steps:
  "fold merge_step ns (map (\<lambda>i. (i, False)) is @ map (\<lambda>n. (n, True)) ms) =
   map (\<lambda>i. (i, False)) is @ map (\<lambda>n. (n, True)) (ms @ filter (\<lambda>n. fst n \<notin> fst ` set is) ns)"
proof (induction ns arbitrary: ms)
  case (Cons n ns)
  have vis: "(\<exists>f \<in> set (map (\<lambda>i. (i, False)) is @ map (\<lambda>n. (n, True)) ms). visible (fst n) f) \<longleftrightarrow> fst n \<in> fst ` set is"
    by (simp add: visible_def bex_Un image_iff) metis
  show ?case
  proof (cases "fst n \<in> fst ` set is")
    case True
    then show ?thesis using Cons [of ms] vis by (simp add: merge_step_def)
  next
    case False
    then show ?thesis using Cons [of "ms @ [n]"] vis by (simp add: merge_step_def)
  qed
qed simp

lemma clean_merged:
  "\<forall>i \<in> set is. fst (snd i) \<noteq> None \<Longrightarrow> \<forall>n \<in> set ns. fst (snd n) \<noteq> None \<Longrightarrow>
   clean (map (\<lambda>i. (i, False)) is @ map (\<lambda>n. (n, True)) ns) = is @ ns"
  by (simp add: clean_def comp_def)

lemma first_seen:
  assumes "placed (se_hash E) (md_keys m)"
  shows "iter_hash (\<lambda>(m, fnd). md_keys m) (\<lambda>i j e s. if me_identity e = x then Inl (fst s, True) else Inr s) (se_hash E x) (m, False) =
    Some ((m, filter (\<lambda>e. me_hash e = se_hash E x \<and> me_identity e = x) (live (ht_entries (md_keys m))) \<noteq> []), None)"
proof -
  let ?h = "se_hash E x" and ?t = "md_keys m"
  let ?Q = "\<lambda>e. me_hash e = ?h \<and> me_identity e = x"
  let ?b = "\<lambda>i j e s. Inl (fst s, True)" and ?tb = "\<lambda>(m, fnd :: bool). md_keys m"
  let ?ps = "hits (look_q ?Q ?t) (nub (path (ht_log2 ?t) (frees ?t) ?h))"
  have t: "sound ?t" using assms by (simp add: placed_def)
  have "iter_hash ?tb (\<lambda>i j e s. if me_identity e = x then ?b i j e s else Inr s) ?h (m, False) =
      Some (runs ?b (hits (look_q ?Q (?tb (m, False))) (nub (path (ht_log2 ?t) (frees ?t) ?h))) (m, False), None)"
  proof (rule iter_hash_runs [where P = "\<lambda>s. fst s = m" and N = "\<lambda>s i. False", OF sel_id])
    show "settles (\<lambda>s. fst s = m) (\<lambda>s i. False) (2 ^ ht_log2 ?t) (\<lambda>s. look_q ?Q (?tb s)) ?b"
      by (rule settlesI) simp_all
    show "sound (?tb s) \<and> ht_log2 (?tb s) = ht_log2 ?t \<and> frees (?tb s) = frees ?t" if "fst s = m" for s
      using t that by (cases s) simp
  qed simp
  moreover have "runs ?b ?ps (m, False) = (m, ?ps \<noteq> [])" by (cases ?ps) auto
  moreover have "filter ?Q (live (ht_entries ?t)) = map (\<lambda>(i, j, e). e) ?ps" by (rule id_hits(2) [OF assms, symmetric])
  then have "(filter ?Q (live (ht_entries ?t)) = []) = (?ps = [])" by (simp only: map_is_Nil_conv)
  ultimately show ?thesis by (simp only: prod.case)
qed

lemma flag_visible:
  assumes "good_env E" "upd_ok E m"
  shows "(\<exists>f \<in> set (flag_list m). visible x f) \<longleftrightarrow>
    filter (\<lambda>e. me_hash e = se_hash E x \<and> me_identity e = x) (live (ht_entries (md_keys m))) \<noteq> []"
proof -
  have "visible x (flag_of e) \<longleftrightarrow> me_hash e = se_hash E x \<and> me_identity e = x" if "e \<in> set (live (ht_entries (md_keys m)))" for e
    using assms that by (auto simp: visible_def flag_of_def item_of_def upd_ok_def upd_entry_ok_def good_env_def)
  then show ?thesis by (auto simp: flag_list_def filter_empty_conv)
qed

lemma merge_item_ok:
  assumes "good_env E" "upd_ok E m" "entry_ok E (md_ci m) x"
  shows "\<exists>m'. merge_item E x m = Some (m', Inr ()) \<and> upd_ok E m' \<and> md_ci m' = md_ci m \<and>
    flag_list m' = merge_step (item_of x) (flag_list m)"
proof -
  have "placed (se_hash E) (md_keys m)" using assms(2) by (simp add: upd_ok_def md_base_def)
  note seen = first_seen [OF this, of "me_identity x"]
  have h: "me_hash x = se_hash E (me_identity x)" "fst (item_of x) = me_identity x"
    using assms(3) by (simp_all add: entry_ok_def item_of_def)
  note vis = flag_visible [OF assms(1,2), of "me_identity x"]
  show ?thesis
  proof (cases "\<exists>f \<in> set (flag_list m). visible (me_identity x) f")
    case True
    then show ?thesis using assms(2) seen vis h by (simp add: merge_item_def after_def merge_step_def)
  next
    case False
    then show ?thesis using add_for_upd_ok [OF assms] seen vis h by (simp add: merge_item_def after_def merge_step_def)
  qed
qed

end
