(* ===== verification/Multidict_Bulk.thy ===== *)
theory Multidict_Bulk
  imports Multidict_Update
begin

text \<open>
  The operations with several items: the constructor, \<^verbatim>\<open>copy\<close>, \<^verbatim>\<open>extend\<close>, \<^verbatim>\<open>update\<close>, \<^verbatim>\<open>merge\<close> and
  \<^verbatim>\<open>clear\<close>. The locale \<open>item_loop\<close> is the contract of one round of their loops, which \<^verbatim>\<open>extend\<close>,
  \<^verbatim>\<open>update\<close> and \<^verbatim>\<open>merge\<close> provide; \<open>post_update\<close> clears the marks up.
\<close>

section \<open>The loop over the items\<close>

locale item_loop =
  fixes ok :: "bool \<Rightarrow> 'v mentry \<Rightarrow> bool"
    and inv :: "'v multidict \<Rightarrow> bool"
    and view :: "'v multidict \<Rightarrow> 'a"
    and rnd :: "'v mentry \<Rightarrow> 'v multidict \<Rightarrow> ('v multidict, unit) md_out"
    and spec :: "'v mitem \<Rightarrow> 'a \<Rightarrow> 'a"
  assumes round_ok: "inv m \<Longrightarrow> ok (md_ci m) x \<Longrightarrow>
    \<exists>m'. rnd x m = Some (m', Inr ()) \<and> inv m' \<and> md_ci m' = md_ci m \<and> view m' = spec (item_of x) (view m)"
begin

lemma foreach_ok:
  assumes "inv m" "\<forall>e \<in> set es. ok (md_ci m) e"
  shows "\<exists>m'. md_foreach rnd es x m = Some (m', case x of None \<Rightarrow> Inr () | Some e \<Rightarrow> Inl e) \<and> inv m' \<and> md_ci m' = md_ci m \<and>
    view m' = fold spec (map item_of es) (view m)"
  using assms
proof (induction es arbitrary: m)
  case (Cons e es)
  obtain m1 where m1: "rnd e m = Some (m1, Inr ())" "inv m1" "md_ci m1 = md_ci m" "view m1 = spec (item_of e) (view m)"
    using round_ok [OF Cons.prems(1), of e] Cons.prems(2) by auto
  then show ?case using Cons.IH [OF m1(2)] Cons.prems(2) by (simp add: md_then_def)
qed simp

end

interpretation extend_loop: item_loop "entry_ok E" "\<lambda>m. good_env E \<and> md_ok E m" md_list "add_with_hash E" "\<lambda>i is. is @ [i]"
  for E
  by unfold_locales (use add_with_hash_ok in blast)

interpretation update_loop: item_loop "entry_ok E" "\<lambda>m. good_env E \<and> upd_ok E m" flag_list "update_item E" upd_step
  for E
  by unfold_locales (use update_item_ok in blast)

interpretation merge_loop: item_loop "entry_ok E" "\<lambda>m. good_env E \<and> upd_ok E m" flag_list "merge_item E" merge_step
  for E
  by unfold_locales (use merge_item_ok in blast)

section \<open>After the loop of update and merge\<close>

definition settled :: "str_env \<Rightarrow> 'v mentry \<Rightarrow> 'v mentry option" where
  "settled E e = (if me_key e = None then None
     else Some (if me_hash e = - 1 then mark (se_hash E (me_identity e)) e else e))"

lemma settled_twice: "good_env E \<Longrightarrow> settled E e = Some e' \<Longrightarrow> settled E e' = Some e'"
  by (auto simp: settled_def mark_def good_env_def split: if_splits)

lemma settled_keeps: "good_env E \<Longrightarrow> keeps (\<lambda>e. True) (\<lambda>e. settled E e = Some e) (\<lambda>n. settled E)"
  using settled_twice [of E] by (auto simp: keeps_def settled_def mark_def split: if_splits)

lemma length_live_update:
  "j < length es \<Longrightarrow> es ! j = Some e \<Longrightarrow> length (live (es[j := x])) + 1 = length (live es) + (if x = None then 0 else 1)"
proof -
  assume "j < length es" "es ! j = Some e"
  then have "es = take j es @ Some e # drop (Suc j) es" "es[j := x] = take j es @ x # drop (Suc j) es"
    by (simp_all add: id_take_nth_drop [symmetric] upd_conv_take_nth_drop Cons_nth_drop_Suc flip: \<open>es ! j = Some e\<close>)
  moreover have "length (live (take j es @ x # drop (Suc j) es)) + 1 =
      length (live (take j es @ Some e # drop (Suc j) es)) + (if x = None then 0 else 1)"
    by (cases x) simp_all
  ultimately show ?thesis by metis
qed

text \<open>What \<^verbatim>\<open>_post_update\<close> does at one slot.\<close>

lemma post_slot:
  assumes "good_env E" "md_base E m" "i < 2 ^ ht_log2 (md_keys m)" "look (md_keys m) i = Some (j, e)"
  defines "m' \<equiv> (if me_key e = None then md_del_at i j m
      else if me_hash e = - 1 then on_keys (upd_entry j (mark (se_hash E (me_identity e)))) m else m)"
  shows "md_keys m' = act (\<lambda>n. settled E) 0 (i, j, e) (md_keys m)" "md_base E m'" "md_ci m' = md_ci m"
proof -
  have t: "placed (se_hash E) (md_keys m)" "room (md_keys m)" using assms(2) by (simp_all add: md_base_def)
  have e: "ht_entries (md_keys m) ! j = Some e" by (rule look_entry [OF assms(4)])
  have j: "j < length (ht_entries (md_keys m))" using look_bounds [OF _ assms(3,4)] t(1) by (simp add: placed_def)
  have idle: "(md_keys m)\<lparr>ht_entries := (ht_entries (md_keys m))[j := Some e]\<rparr> = md_keys m"
    using list_update_id [of "ht_entries (md_keys m)" j] e by simp
  show k: "md_keys m' = act (\<lambda>n. settled E) 0 (i, j, e) (md_keys m)"
    using e idle by (simp add: m'_def act_def settled_def upd_entry_def)
  note ok = act_ok [OF t(1) assms(3,4) settled_keeps [OF assms(1)] t(2), where n = 0]
  have "md_used m' = md_used m - (if settled E e = None then 1 else 0)" by (simp add: m'_def settled_def)
  moreover have "length (live (ht_entries (md_keys m'))) + 1 = length (live (ht_entries (md_keys m))) + (if settled E e = None then 0 else 1)"
    unfolding k act_entries by (rule length_live_update [OF j e])
  ultimately show "md_base E m'" using assms(2) ok(1,3) k by (simp add: md_base_def split: if_splits)
  show "md_ci m' = md_ci m" by (simp add: m'_def)
qed

lemma post_update_from_ok:
  assumes "good_env E" "md_base E m" "i + n = 2 ^ ht_log2 (md_keys m)"
    and "\<forall>i' < i. \<forall>j e. look (md_keys m) i' = Some (j, e) \<longrightarrow> settled E e = Some e"
  shows "\<exists>m'. post_update_from E i n m = Some (m', Inr ()) \<and> md_base E m' \<and> md_ci m' = md_ci m \<and>
    ht_entries (md_keys m') = map (\<lambda>x. Option.bind x (settled E)) (ht_entries (md_keys m))"
  using assms(2-4)
proof (induction n arbitrary: i m)
  case 0
  have t: "placed (se_hash E) (md_keys m)" using "0.prems"(1) by (simp add: md_base_def)
  have "Option.bind x (settled E) = x" if x: "x \<in> set (ht_entries (md_keys m))" for x
  proof (cases x)
    case (Some e)
    then obtain j where "j < length (ht_entries (md_keys m))" "ht_entries (md_keys m) ! j = Some e"
      using x by (auto simp: in_set_conv_nth)
    then show ?thesis using placed_slot [OF t] "0.prems"(2,3) Some by fastforce
  qed simp
  then have "map (\<lambda>x. Option.bind x (settled E)) (ht_entries (md_keys m)) = ht_entries (md_keys m)" by (simp add: map_idI)
  then show ?case using "0.prems"(1) by (simp add: md_base_def)
next
  case (Suc n)
  let ?t = "md_keys m"
  have t: "placed (se_hash E) ?t" "room ?t" "sound ?t" using Suc.prems(1) by (simp_all add: md_base_def placed_def)
  have i: "i < 2 ^ ht_log2 ?t" using Suc.prems(2) by simp
  show ?case
  proof (cases "look ?t i")
    case None
    then have neg: "ht_indices ?t ! i < 0" using sound_slot [OF t(3) i] by (fastforce simp: look_def)
    have "\<forall>i' < Suc i. \<forall>j e. look ?t i' = Some (j, e) \<longrightarrow> settled E e = Some e"
      using Suc.prems(3) None by (auto simp: less_Suc_eq)
    then show ?thesis using Suc.IH [OF Suc.prems(1), of "Suc i"] Suc.prems(2) neg by (simp add: Let_def)
  next
    case (Some p)
    then obtain j e where je: "look ?t i = Some (j, e)" by (cases p) auto
    let ?m = "if me_key e = None then md_del_at i j m
      else if me_hash e = - 1 then on_keys (upd_entry j (mark (se_hash E (me_identity e)))) m else m"
    note ps = post_slot [OF assms(1) Suc.prems(1) i je]
    note ok = act_ok [OF t(1) i je settled_keeps [OF assms(1)] t(2), where n = 0]
    have lk: "look (act (\<lambda>n. settled E) 0 (i, j, e) ?t) i' = look ?t i'" if "i' < 2 ^ ht_log2 ?t" "i' \<noteq> i" for i'
      using ok(4) [OF that] by (simp only: look_q_True)
    have settled_upto: "\<forall>i' < Suc i. \<forall>j' e'. look (md_keys ?m) i' = Some (j', e') \<longrightarrow> settled E e' = Some e'"
    proof (intro allI impI)
      fix i' j' e' assume i': "i' < Suc i" "look (md_keys ?m) i' = Some (j', e')"
      show "settled E e' = Some e'"
      proof (cases "i' = i")
        case True
        then show ?thesis using ok(5) i'(2) unfolding ps(1) by (simp only: look_q_True)
      next
        case False
        then have "i' < i" "look ?t i' = Some (j', e')" using lk [of i'] i' i unfolding ps(1) by simp_all
        then show ?thesis using Suc.prems(3) by blast
      qed
    qed
    have "ht_indices ?t ! i \<ge> 0" "nat (ht_indices ?t ! i) = j" "ht_entries ?t ! j = Some e" using je by (auto simp: look_Some)
    then have step: "post_update_from E i (Suc n) m = post_update_from E (Suc i) n ?m" by (simp add: Let_def)
    have "ht_log2 (md_keys ?m) = ht_log2 ?t" unfolding ps(1) by simp
    then obtain m' where m': "post_update_from E (Suc i) n ?m = Some (m', Inr ())" "md_base E m'" "md_ci m' = md_ci ?m"
        "ht_entries (md_keys m') = map (\<lambda>x. Option.bind x (settled E)) (ht_entries (md_keys ?m))"
      using Suc.IH [OF ps(2) _ settled_upto] Suc.prems(2) by auto
    have "Option.bind (settled E e) (settled E) = settled E e"
      using settled_twice [OF assms(1), of e] by (cases "settled E e") simp_all
    then have "map (\<lambda>x. Option.bind x (settled E)) (ht_entries (md_keys ?m)) = map (\<lambda>x. Option.bind x (settled E)) (ht_entries ?t)"
      unfolding ps(1) act_entries map_update
      using list_update_id [of "map (\<lambda>x. Option.bind x (settled E)) (ht_entries ?t)" j] look_entry [OF je]
        look_bounds [OF t(3) i je] by simp
    then show ?thesis using m' ps(3) step by metis
  qed
qed

lemma clean_settled:
  "\<forall>e \<in> set es. me_key e \<noteq> None \<or> me_hash e \<noteq> - 1 \<Longrightarrow>
   map item_of (live (map (\<lambda>x. Option.bind x (settled E)) es')) = clean (map flag_of (live es'))"
proof (induction es')
  case (Cons x es')
  show ?case
  proof (cases x)
    case (Some e)
    then show ?thesis using Cons by (auto simp: settled_def clean_def flag_of_def item_of_def mark_def)
  qed (use Cons in simp)
qed (simp add: clean_def)

lemma post_update_ok:
  assumes "good_env E" "upd_ok E m"
  shows "\<exists>m'. post_update E m = Some (m', Inr ()) \<and> md_ok E m' \<and> md_ci m' = md_ci m \<and> md_list m' = clean (flag_list m)"
proof -
  have base: "md_base E m" using assms(2) by (simp add: upd_ok_def)
  obtain m' where m': "post_update_from E 0 (2 ^ ht_log2 (md_keys m)) m = Some (m', Inr ())" "md_base E m'" "md_ci m' = md_ci m"
      "ht_entries (md_keys m') = map (\<lambda>x. Option.bind x (settled E)) (ht_entries (md_keys m))"
    using post_update_from_ok [OF assms(1) base, of 0 "2 ^ ht_log2 (md_keys m)"] by auto
  have "entry_ok E (md_ci m) e'" if e': "e' \<in> set (live (ht_entries (md_keys m')))" for e'
  proof -
    obtain x where x: "x \<in> set (ht_entries (md_keys m))" "Option.bind x (settled E) = Some e'"
      using e' unfolding set_live m'(4) by (metis (no_types, lifting) imageE list.set_map)
    then obtain e where e: "Some e \<in> set (ht_entries (md_keys m))" "settled E e = Some e'"
      by (auto simp: bind_eq_Some_conv)
    then have "upd_entry_ok E (md_ci m) e" using assms(2) by (simp add: upd_ok_def set_live)
    then show ?thesis using e(2)
      by (cases "me_key e"; cases "me_hash e = - 1") (auto simp: settled_def upd_entry_ok_def entry_ok_def mark_def)
  qed
  then have "md_ok E m'" using m'(2,3) by (simp add: md_ok_base)
  moreover have "md_list m' = clean (flag_list m)"
    using clean_settled [of "[]"] by (simp add: md_list_def m'(4) flag_list_def)
  ultimately show ?thesis using m'(1,3) by (simp add: post_update_def)
qed

section \<open>The items of an argument\<close>

fun pairs_of :: "'v md_item list \<Rightarrow> (string \<times> 'v option) list" where
  "pairs_of [] = []"
| "pairs_of (Ill_Sized # is) = []"
| "pairs_of (Pair_Item k v # is) = (k, v) # pairs_of is"

definition given_item :: "str_env \<Rightarrow> bool \<Rightarrow> string \<times> 'v option \<Rightarrow> 'v mitem" where
  "given_item E ci p = (if ci then se_lower E (fst p) else fst p, Some (fst p), snd p)"

definition given_items :: "str_env \<Rightarrow> bool \<Rightarrow> 'v md_arg \<Rightarrow> (string \<times> 'v option) list \<Rightarrow> 'v mitem list" where
  "given_items E ci a kw = map (given_item E ci)
     (case a of
        No_Arg \<Rightarrow> kw
      | Md_Arg m' \<Rightarrow> map (\<lambda>i. (the (fst (snd i)), snd (snd i))) (md_list m') @ kw
      | Items_Arg sized is \<Rightarrow> pairs_of (is @ map (\<lambda>(k, v). Pair_Item k v) kw))"

definition given_result :: "'v md_arg \<Rightarrow> unit res" where
  "given_result a = (case a of
     Items_Arg sized is \<Rightarrow> if Ill_Sized \<in> set is then Inl (ValueError ''multidict update sequence element'') else Inr ()
   | _ \<Rightarrow> Inr ())"

definition arg_ok :: "str_env \<Rightarrow> 'v md_arg \<Rightarrow> bool" where
  "arg_ok E a = (case a of Md_Arg m' \<Rightarrow> md_ok E m' | _ \<Rightarrow> True)"

lemma new_entry_item: "item_of (new_entry E m p) = given_item E (md_ci m) p"
  by (cases p) (simp add: item_of_new given_item_def md_identity_def)

lemma new_entry_ok': "entry_ok E (md_ci m) (new_entry E m p)"
  by (cases p) (simp only: new_entry_ok)

lemma item_entries_given:
  "item_entries E m is = (map (new_entry E m) (pairs_of is),
     if Ill_Sized \<in> set is then Some (ValueError ''multidict update sequence element'') else None)"
proof (induction "is")
  case (Cons i "is")
  then show ?case by (cases i) simp_all
qed simp

lemma parse_given:
  assumes "arg_ok E a" "parse_args E a kw m = (n, es, x)"
  shows "\<forall>e \<in> set es. entry_ok E (md_ci m) e" "map item_of es = given_items E (md_ci m) a kw"
    "(case x of None \<Rightarrow> Inr () | Some e \<Rightarrow> Inl e) = given_result a"
proof -
  have kws: "map item_of (map (new_entry E m) ps) = map (given_item E (md_ci m)) ps"
      "\<forall>e \<in> set (map (new_entry E m) ps). entry_ok E (md_ci m) e" for ps
    using new_entry_ok' by (auto simp: new_entry_item)
  have "(\<forall>e \<in> set es. entry_ok E (md_ci m) e) \<and> map item_of es = given_items E (md_ci m) a kw \<and>
      (case x of None \<Rightarrow> Inr () | Some e \<Rightarrow> Inl e) = given_result a"
  proof (cases a)
    case No_Arg
    then show ?thesis using assms(2) kws [of kw] by (auto simp: parse_args_def arg_truthy_def given_items_def given_result_def)
  next
    case (Md_Arg m')
    let ?l = "live (ht_entries (md_keys m'))"
    have ok: "md_ok E m'" using assms(1) Md_Arg by (simp add: arg_ok_def)
    let ?f = "\<lambda>e. if md_ci m \<noteq> md_ci m' then new_entry E m (the (me_key e), me_value e) else e"
    have f: "entry_ok E (md_ci m) (?f e) \<and> item_of (?f e) = given_item E (md_ci m) (the (me_key e), me_value e)"
      if e: "e \<in> set ?l" for e
    proof (cases "md_ci m \<noteq> md_ci m'")
      case True
      then show ?thesis using new_entry_ok' [of E m "(the (me_key e), me_value e)"] by (simp add: new_entry_item)
    next
      case False
      then show ?thesis using ok e by (auto simp: md_ok_def entry_ok_def item_of_def given_item_def)
    qed
    have "es = map ?f ?l @ map (new_entry E m) kw \<and> x = None"
    proof (cases "md_used m' = 0")
      case True
      then have "?l = []" using ok by (simp add: md_ok_def)
      then show ?thesis using assms(2) True Md_Arg by (simp add: parse_args_def arg_truthy_def)
    next
      case False
      then show ?thesis using assms(2) Md_Arg by (simp add: parse_args_def arg_truthy_def iter_entries_live)
    qed
    then show ?thesis using f kws [of kw] Md_Arg
      by (auto simp: given_items_def given_result_def md_list_def item_of_def comp_def)
  next
    case (Items_Arg sized "is")
    let ?is = "is @ map (\<lambda>(k, v). Pair_Item k v) kw"
    have ill: "Ill_Sized \<in> set ?is \<longleftrightarrow> Ill_Sized \<in> set is" by auto
    have pk: "pairs_of (map (\<lambda>(k, v). Pair_Item k v) kw) = kw" by (induction kw) auto
    have "es = map (new_entry E m) (pairs_of ?is) \<and>
        x = (if Ill_Sized \<in> set is then Some (ValueError ''multidict update sequence element'') else None)"
      using assms(2) Items_Arg ill pk
      by (cases "\<not> sized \<or> is \<noteq> []") (auto simp: parse_args_def arg_truthy_def item_entries_given Let_def)
    then show ?thesis using kws [of "pairs_of ?is"] Items_Arg by (simp add: given_items_def given_result_def)
  qed
  then show "\<forall>e \<in> set es. entry_ok E (md_ci m) e" "map item_of es = given_items E (md_ci m) a kw"
    "(case x of None \<Rightarrow> Inr () | Some e \<Rightarrow> Inl e) = given_result a" by blast+
qed

lemma given_keys: "n \<in> set (given_items E ci a kw) \<Longrightarrow> fst (snd n) \<noteq> None"
  by (auto simp: given_items_def given_item_def)

section \<open>Room for the items\<close>

lemma used_fits:
  assumes "md_base E m"
  shows "md_used m \<le> int (usable_of (ht_log2 (md_keys m)))"
proof -
  let ?t = "md_keys m" and ?all = "\<lambda>e. True" and ?slots = "filter (\<lambda>i. \<not> frees (md_keys m) ! i) [0..<2 ^ ht_log2 (md_keys m)]"
  have t: "placed (se_hash E) ?t" "room ?t" "sound ?t" using assms by (simp_all add: md_base_def placed_def)
  have len: "length (frees ?t) = 2 ^ ht_log2 ?t" using t(3) by (simp add: sound_def)
  have "set (idx_of ?all (ht_entries ?t)) \<subseteq> (\<lambda>i. nat (ht_indices ?t ! i)) ` set ?slots"
  proof
    fix j assume "j \<in> set (idx_of ?all (ht_entries ?t))"
    then obtain e where "j < length (ht_entries ?t)" "ht_entries ?t ! j = Some e" by (auto simp: set_idx_of)
    then obtain i where i: "i < 2 ^ ht_log2 ?t" "look ?t i = Some (j, e)" using placed_slot [OF t(1)] by blast
    then have "i \<in> set ?slots" "j = nat (ht_indices ?t ! i)" using len by (auto simp: look_Some frees_nth)
    then show "j \<in> (\<lambda>i. nat (ht_indices ?t ! i)) ` set ?slots" by blast
  qed
  then have "card (set (idx_of ?all (ht_entries ?t))) \<le> card (set ?slots)"
    by (meson List.finite_set card_image_le card_mono finite_imageI le_trans)
  also have "\<dots> \<le> length (filter Not (frees ?t))"
  proof -
    have "filter Not (frees ?t) = map (\<lambda>i. frees ?t ! i) ?slots"
      by (subst map_nth [of "frees ?t", symmetric]) (simp only: filter_map comp_def len)
    then show ?thesis using card_length [of ?slots] by simp
  qed
  finally have "length (idx_of ?all (ht_entries ?t)) \<le> length (filter Not (frees ?t))" by (simp add: distinct_card)
  moreover have "length (idx_of ?all (ht_entries ?t)) = length (live (ht_entries ?t))"
    using arg_cong [OF map_idx_of [of "ht_entries ?t" ?all], of length] by simp
  ultimately show ?thesis using assms t(2) by (simp add: md_base_def room_def)
qed

lemma usable_mono: "k \<le> k' \<Longrightarrow> usable_of k \<le> usable_of k'"
  unfolding usable_of_def by (intro div_le_mono mult_le_mono1 power_increasing) simp_all

lemma resize_md_ok:
  assumes "good_env E" "md_ok E m" "md_used m \<le> int (usable_of k)"
  shows "\<exists>m'. md_resize E k False m = Some (m', Inr ()) \<and> md_ok E m' \<and> md_ci m' = md_ci m \<and> md_list m' = md_list m"
proof -
  have "md_base E m" "\<forall>e \<in> set (live (ht_entries (md_keys m))). buildable (se_hash E) False (Some e)"
    using assms(2) entry_ok_buildable [OF assms(1)] by (auto simp: md_ok_base)
  then show ?thesis using resize_ok [OF _ _ assms(3)] assms(2) by (fastforce simp: md_ok_base md_list_def)
qed

section \<open>The operations\<close>

lemma update_with_ok:
  assumes "good_env E" "md_ok E m" "arg_ok E a"
    and loop: "\<And>m es x. good_env E \<and> upd_ok E m \<Longrightarrow> \<forall>e \<in> set es. entry_ok E (md_ci m) e \<Longrightarrow>
      \<exists>m'. md_foreach (step E) es x m = Some (m', case x of None \<Rightarrow> Inr () | Some e \<Rightarrow> Inl e) \<and> (good_env E \<and> upd_ok E m') \<and>
        md_ci m' = md_ci m \<and> flag_list m' = fold spec (map item_of es) (flag_list m)"
  shows "\<exists>m'. md_update_with step E a kw m = Some (m', given_result a) \<and> md_ok E m' \<and> md_ci m' = md_ci m \<and>
    md_list m' = clean (fold spec (given_items E (md_ci m) a kw) (map (\<lambda>i. (i, False)) (md_list m)))"
proof -
  obtain n es x where p: "parse_args E a kw m = (n, es, x)" by (metis prod_cases3)
  note g = parse_given [OF assms(3) p]
  let ?k = "min 17 (estimate_log2_keysize (nat (md_used m) + n))"
  have "md_used m \<le> int (usable_of ?k)" if "ht_log2 (md_keys m) < ?k"
  proof -
    have "md_used m \<le> int (usable_of (ht_log2 (md_keys m)))" by (rule used_fits [of E]) (use assms(2) in \<open>simp add: md_ok_base\<close>)
    also have "\<dots> \<le> int (usable_of ?k)" using usable_mono [of "ht_log2 (md_keys m)" ?k] that by simp
    finally show ?thesis .
  qed
  then obtain m1 where m1: "(if ht_log2 (md_keys m) < ?k then md_resize E ?k False m else Some (m, Inr ())) = Some (m1, Inr ())"
      "md_ok E m1" "md_ci m1 = md_ci m" "md_list m1 = md_list m"
    using resize_md_ok [OF assms(1,2), of ?k] assms(2) by (cases "ht_log2 (md_keys m) < ?k") auto
  have "\<forall>e \<in> set es. entry_ok E (md_ci m1) e" using g(1) m1(3) by simp
  then obtain m2 where m2: "md_foreach (step E) es x m1 = Some (m2, given_result a)" "upd_ok E m2" "md_ci m2 = md_ci m1"
      "flag_list m2 = fold spec (given_items E (md_ci m) a kw) (flag_list m1)"
    using loop [of m1 es x] assms(1) md_ok_upd [OF m1(2)] g(2,3) by auto
  then obtain m3 where "post_update E m2 = Some (m3, Inr ())" "md_ok E m3" "md_ci m3 = md_ci m2" "md_list m3 = clean (flag_list m2)"
    using post_update_ok [OF assms(1) m2(2)] by blast
  then show ?thesis
    using p m1(1,3,4) m2 flag_list_start [OF assms(1) m1(2)] by (simp add: md_update_with_def Let_def md_then_def)
qed

lemma md_list_keys: "md_ok E m \<Longrightarrow> i \<in> set (md_list m) \<Longrightarrow> fst (snd i) \<noteq> None"
  by (auto simp: md_ok_def md_list_def entry_ok_def item_of_def)

text \<open>
  Each item given takes the place of an item with the same identity, in the order of both; what is
  left over of the identities given goes, and what is left over of the items given comes behind.
\<close>

lemma update_ok:
  assumes "good_env E" "md_ok E m" "arg_ok E a"
  shows "\<exists>m'. md_update E a kw m = Some (m', given_result a) \<and> md_ok E m' \<and> md_ci m' = md_ci m \<and>
    md_list m' = upd_items (fst ` set (given_items E (md_ci m) a kw)) (given_items E (md_ci m) a kw) (md_list m)"
proof -
  let ?ns = "given_items E (md_ci m) a kw"
  obtain m' where m': "md_update E a kw m = Some (m', given_result a)" "md_ok E m'" "md_ci m' = md_ci m"
      "md_list m' = clean (fold upd_step ?ns (map (\<lambda>i. (i, False)) (md_list m)))"
    using update_with_ok [OF assms, where step = update_item and spec = upd_step, OF update_loop.foreach_ok]
    unfolding md_update_def by blast
  have "fold upd_step ?ns (map (\<lambda>i. (i, False)) (md_list m)) = upd_flags (fst ` set ?ns) ?ns (md_list m)"
    using upd_steps [of ?ns "{}" "[]" "md_list m"] by (simp add: upd_flags_start)
  then have "md_list m' = upd_items (fst ` set ?ns) ?ns (md_list m)"
    using m'(4) clean_flags given_keys md_list_keys [OF assms(2)] by metis
  then show ?thesis using m'(1-3) by simp
qed

text \<open>
  \<^verbatim>\<open>merge\<close> appends the items given whose identity was not there before, all of them even if they
  share an identity.
\<close>

lemma merge_ok:
  assumes "good_env E" "md_ok E m" "arg_ok E a"
  shows "\<exists>m'. md_merge E a kw m = Some (m', given_result a) \<and> md_ok E m' \<and> md_ci m' = md_ci m \<and>
    md_list m' = md_list m @ filter (\<lambda>n. fst n \<notin> fst ` set (md_list m)) (given_items E (md_ci m) a kw)"
proof -
  let ?ns = "given_items E (md_ci m) a kw"
  obtain m' where m': "md_merge E a kw m = Some (m', given_result a)" "md_ok E m'" "md_ci m' = md_ci m"
      "md_list m' = clean (fold merge_step ?ns (map (\<lambda>i. (i, False)) (md_list m)))"
    using update_with_ok [OF assms, where step = merge_item and spec = merge_step, OF merge_loop.foreach_ok]
    unfolding md_merge_def by blast
  have "\<forall>i \<in> set (md_list m). fst (snd i) \<noteq> None" using md_list_keys [OF assms(2)] by blast
  then show ?thesis
    using m' merge_steps [of ?ns "md_list m" "[]"] clean_merged [of "md_list m"] given_keys [of _ E "md_ci m" a kw] by simp
qed

lemma extend_items_ok:
  assumes "good_env E" "md_ok E m" "\<forall>e \<in> set es. entry_ok E (md_ci m) e"
  shows "\<exists>m'. extend_items E es x m = Some (m', case x of None \<Rightarrow> Inr () | Some e \<Rightarrow> Inl e) \<and> md_ok E m' \<and> md_ci m' = md_ci m \<and>
    md_list m' = md_list m @ map item_of es"
proof -
  obtain m1 where m1: "md_foreach (add_with_hash E) es x m = Some (m1, case x of None \<Rightarrow> Inr () | Some e \<Rightarrow> Inl e)"
      "md_ok E m1" "md_ci m1 = md_ci m" "md_list m1 = fold (\<lambda>i is. is @ [i]) (map item_of es) (md_list m)"
    using extend_loop.foreach_ok [of E m es x] assms by auto
  moreover have "fold (\<lambda>i is. is @ [i]) is js = js @ is" for "is" js :: "'b list" by (induction "is" arbitrary: js) simp_all
  ultimately show ?thesis by (auto simp: extend_items_def md_then_def split: option.split)
qed

lemma extend_ok:
  assumes "good_env E" "md_ok E m" "arg_ok E a"
  shows "\<exists>m'. md_extend E a kw m = Some (m', given_result a) \<and> md_ok E m' \<and> md_ci m' = md_ci m \<and>
    md_list m' = md_list m @ given_items E (md_ci m) a kw"
proof -
  obtain n es x where p: "parse_args E a kw m = (n, es, x)" by (metis prod_cases3)
  note g = parse_given [OF assms(3) p]
  let ?k = "estimate_log2_keysize (nat (md_used m) + n)"
  have "nat (md_used m) + n \<le> usable_of ?k" by (rule estimate_fits)
  then have "md_used m \<le> int (usable_of ?k)" by linarith
  then obtain m1 where m1: "md_resize E ?k False m = Some (m1, Inr ())" "md_ok E m1" "md_ci m1 = md_ci m" "md_list m1 = md_list m"
    using resize_md_ok [OF assms(1,2)] by blast
  have "\<forall>e \<in> set es. entry_ok E (md_ci m1) e" using g(1) m1(3) by simp
  then show ?thesis using extend_items_ok [OF assms(1) m1(2), of es x] m1 g(2,3) p by (simp add: md_extend_def md_then_def)
qed

lemma empty_ok:
  "md_keys m = ht_new k [] \<Longrightarrow> md_used m = 0 \<Longrightarrow> md_ok E m \<and> md_list m = []"
  using placed_empty [of "ht_new k []" "se_hash E"] by (simp add: md_ok_def md_list_def ht_new_def usable_of_def)

lemma clear_ok: "md_ok E (md_clear m) \<and> md_ci (md_clear m) = md_ci m \<and> md_list (md_clear m) = []"
  using empty_ok [of "md_clear m" 3 E] by (simp add: md_clear_def)

lemma md_init_ok:
  assumes "good_env E" "arg_ok E a"
  shows "\<exists>m'. md_init E ci a kw clock = Some (m', given_result a) \<and> md_ok E m' \<and> md_ci m' = ci \<and> md_list m' = given_items E ci a kw"
proof -
  define m0 :: "'a multidict" where
    "m0 = \<lparr>md_ci = ci, md_keys = ht_new 3 [], md_used = 0, md_version = clock + 1, md_clock = clock + 1\<rparr>"
  obtain n es x where p: "parse_args E a kw m0 = (n, es, x)" by (metis prod_cases3)
  note g = parse_given [OF assms(2) p]
  let ?m1 = "m0\<lparr>md_keys := ht_new (min 17 (estimate_log2_keysize n)) []\<rparr>"
  have ci: "md_ci m0 = ci" by (simp add: m0_def)
  have "md_ok E ?m1 \<and> md_list ?m1 = []" using empty_ok [of ?m1 _ E] by (simp add: m0_def)
  then have fresh: "\<exists>m'. extend_items E es x ?m1 = Some (m', given_result a) \<and> md_ok E m' \<and> md_ci m' = ci \<and> md_list m' = given_items E ci a kw"
    using extend_items_ok [OF assms(1), of ?m1 es x] g ci by simp
  show ?thesis
  proof (cases "\<exists>m'. a = Md_Arg m' \<and> kw = [] \<and> md_ci m' = ci")
    case True
    then obtain m' where m': "a = Md_Arg m'" "kw = []" "md_ci m' = ci" by blast
    let ?c = "m0\<lparr>md_keys := md_keys m', md_used := md_used m'\<rparr>"
    have ok: "md_ok E m'" using assms(2) m'(1) by (simp add: arg_ok_def)
    then have "md_ok E ?c" "md_list ?c = md_list m'" using m'(3) ci by (simp_all add: md_ok_def md_list_def)
    moreover have "given_items E ci a [] = md_list m'"
    proof -
      have "given_item E ci (the (fst (snd i)), snd (snd i)) = i" if "i \<in> set (md_list m')" for i
        using ok that m'(3) by (auto simp: md_ok_def md_list_def entry_ok_def item_of_def given_item_def)
      then show ?thesis using m'(1) by (simp add: given_items_def comp_def map_idI)
    qed
    ultimately show ?thesis using m' by (simp add: md_init_def m0_def Let_def given_result_def)
  next
    case False
    then have "md_init E ci a kw clock = extend_items E es x ?m1"
      using p unfolding md_init_def Let_def m0_def [symmetric] by (cases a) auto
    then show ?thesis using fresh by simp
  qed
qed

lemma len_ok: "md_ok E m \<Longrightarrow> md_len m = int (length (md_list m)) \<and> md_items m = map snd (md_list m)"
  by (simp add: md_len_def md_items_def md_ok_def md_list_def iter_entries_live item_of_def comp_def)

text \<open>Two multidicts are equal when they have the same identities and values in the same order.\<close>

lemma eq_ok:
  assumes "md_ok E m" "md_ok E m'"
  shows "md_eq m m' \<longleftrightarrow> map (\<lambda>i. (fst i, snd (snd i))) (md_list m) = map (\<lambda>i. (fst i, snd (snd i))) (md_list m')"
proof -
  let ?f = "\<lambda>e. (me_identity e, me_value e)"
  have "list_all (\<lambda>(e1, e2). me_identity e1 = me_identity e2 \<and> me_value e1 = me_value e2) (List.zip es es') \<longleftrightarrow> map ?f es = map ?f es'"
    if "length es = length es'" for es es' :: "'a mentry list"
    using that by (induction es es' rule: list_induct2) simp_all
  moreover have "map (\<lambda>i. (fst i, snd (snd i))) (md_list d) = map ?f (live (ht_entries (md_keys d)))" for d :: "'a multidict"
    by (simp add: md_list_def item_of_def comp_def)
  moreover have "md_used m = md_used m' \<longleftrightarrow> length (live (ht_entries (md_keys m))) = length (live (ht_entries (md_keys m')))"
    using assms by (simp add: md_ok_def)
  ultimately show ?thesis
    using map_eq_imp_length_eq [of ?f "live (ht_entries (md_keys m))" ?f "live (ht_entries (md_keys m'))"]
    by (cases "md_used m = md_used m'") (auto simp: md_eq_def iter_entries_live)
qed

end
