(* ===== verification/Multidict_Refine.thy ===== *)
theory Multidict_Refine
  imports Multidict_Bulk
begin

text \<open>
  A multidict under any sequence of its operations behaves as the list of its items: the
  simulation of \<open>md_step\<close> by \<open>list_step\<close>, and what an update does to the values of the keys.
\<close>

section \<open>The operations and their results\<close>

datatype 'v md_op =
    Getall string "'v option list option"
  | Getone string "'v option option"
  | Contains string
  | Count
  | Items
  | Add string "'v option"
  | Set_Item string "'v option"
  | Delete string
  | Setdefault string "'v option"
  | Popone string "'v option option"
  | Popall string "'v option list option"
  | Popitem
  | Clear
  | Extend "'v md_arg" "(string \<times> 'v option) list"
  | Update "'v md_arg" "(string \<times> 'v option) list"
  | Merge "'v md_arg" "(string \<times> 'v option) list"

datatype 'v md_val =
    Done
  | Value "'v option"
  | Values "'v option list"
  | Truth bool
  | Number int
  | Pairs "(string option \<times> 'v option) list"

definition lift_val :: "('r \<Rightarrow> 'v md_val) \<Rightarrow> ('v multidict, 'r) md_out \<Rightarrow> ('v multidict \<times> 'v md_val res) option" where
  "lift_val f r = map_option (\<lambda>(m, x). (m, case x of Inl e \<Rightarrow> Inl e | Inr v \<Rightarrow> Inr (f v))) r"

lemma lift_val_Some: "lift_val f (Some (m, x)) = Some (m, case x of Inl e \<Rightarrow> Inl e | Inr v \<Rightarrow> Inr (f v))"
  by (simp add: lift_val_def)

fun md_step :: "str_env \<Rightarrow> 'v md_op \<Rightarrow> 'v multidict \<Rightarrow> ('v multidict \<times> 'v md_val res) option" where
  "md_step E (Getall k d) m = lift_val Values (md_getall E k d m)"
| "md_step E (Getone k d) m = lift_val Value (md_getone E k d m)"
| "md_step E (Contains k) m = lift_val Truth (md_contains E k m)"
| "md_step E Count m = Some (m, Inr (Number (md_len m)))"
| "md_step E Items m = Some (m, Inr (Pairs (md_items m)))"
| "md_step E (Add k v) m = lift_val (\<lambda>_. Done) (md_add E k v m)"
| "md_step E (Set_Item k v) m = lift_val (\<lambda>_. Done) (md_setitem E k v m)"
| "md_step E (Delete k) m = lift_val (\<lambda>_. Done) (md_delitem E k m)"
| "md_step E (Setdefault k v) m = lift_val Value (md_setdefault E k v m)"
| "md_step E (Popone k d) m = lift_val Value (md_popone E k d m)"
| "md_step E (Popall k d) m = lift_val Values (md_popall E k d m)"
| "md_step E Popitem m = lift_val (\<lambda>p. Pairs [p]) (md_popitem m)"
| "md_step E Clear m = Some (md_clear m, Inr Done)"
| "md_step E (Extend a kw) m = lift_val (\<lambda>_. Done) (md_extend E a kw m)"
| "md_step E (Update a kw) m = lift_val (\<lambda>_. Done) (md_update E a kw m)"
| "md_step E (Merge a kw) m = lift_val (\<lambda>_. Done) (md_merge E a kw m)"

section \<open>The same on a list of items\<close>

definition ident :: "str_env \<Rightarrow> bool \<Rightarrow> string \<Rightarrow> string" where
  "ident E ci k = (if ci then se_lower E k else k)"

definition not_found :: "str_env \<Rightarrow> string \<Rightarrow> exc" where
  "not_found E k = KeyError (''Key not found: '' @ se_repr E k)"

definition default_or :: "('r \<Rightarrow> 'v md_val) \<Rightarrow> 'r option \<Rightarrow> exc \<Rightarrow> 'v md_val res" where
  "default_or f d e = (case d of Some v \<Rightarrow> Inr (f v) | None \<Rightarrow> Inl e)"

definition first_value :: "'v option list \<Rightarrow> 'v md_val res \<Rightarrow> 'v md_val res" where
  "first_value vs r = (case vs of v # _ \<Rightarrow> Inr (Value v) | [] \<Rightarrow> r)"

definition all_values :: "'v option list \<Rightarrow> 'v md_val res \<Rightarrow> 'v md_val res" where
  "all_values vs r = (if vs \<noteq> [] then Inr (Values vs) else r)"

definition done_with :: "unit res \<Rightarrow> 'v md_val res" where
  "done_with r = (case r of Inl e \<Rightarrow> Inl e | Inr _ \<Rightarrow> Inr Done)"

fun list_step :: "str_env \<Rightarrow> bool \<Rightarrow> 'v md_op \<Rightarrow> 'v mitem list \<Rightarrow> 'v mitem list \<times> 'v md_val res" where
  "list_step E ci (Getall k d) xs = (xs, all_values (values_of (ident E ci k) xs) (default_or Values d (not_found E k)))"
| "list_step E ci (Getone k d) xs = (xs, first_value (values_of (ident E ci k) xs) (default_or Value d (not_found E k)))"
| "list_step E ci (Contains k) xs = (xs, Inr (Truth (values_of (ident E ci k) xs \<noteq> [])))"
| "list_step E ci Count xs = (xs, Inr (Number (int (length xs))))"
| "list_step E ci Items xs = (xs, Inr (Pairs (map snd xs)))"
| "list_step E ci (Add k v) xs = (xs @ [(ident E ci k, Some k, v)], Inr Done)"
| "list_step E ci (Set_Item k v) xs = (put_first (ident E ci k, Some k, v) xs, Inr Done)"
| "list_step E ci (Delete k) xs =
     (filter (\<lambda>i. fst i \<noteq> ident E ci k) xs, if values_of (ident E ci k) xs = [] then Inl (KeyError k) else Inr Done)"
| "list_step E ci (Setdefault k v) xs =
     (xs @ (if values_of (ident E ci k) xs = [] then [(ident E ci k, Some k, v)] else []),
      first_value (values_of (ident E ci k) xs) (Inr (Value v)))"
| "list_step E ci (Popone k d) xs =
     (del_first (ident E ci k) xs, first_value (values_of (ident E ci k) xs) (default_or Value d (KeyError k)))"
| "list_step E ci (Popall k d) xs =
     (filter (\<lambda>i. fst i \<noteq> ident E ci k) xs, all_values (values_of (ident E ci k) xs) (default_or Values d (KeyError k)))"
| "list_step E ci Popitem xs =
     (butlast xs, if xs = [] then Inl (KeyError ''empty multidict'') else Inr (Pairs [snd (last xs)]))"
| "list_step E ci Clear xs = ([], Inr Done)"
| "list_step E ci (Extend a kw) xs = (xs @ given_items E ci a kw, done_with (given_result a))"
| "list_step E ci (Update a kw) xs =
     (upd_items (fst ` set (given_items E ci a kw)) (given_items E ci a kw) xs, done_with (given_result a))"
| "list_step E ci (Merge a kw) xs =
     (xs @ filter (\<lambda>n. fst n \<notin> fst ` set xs) (given_items E ci a kw), done_with (given_result a))"

fun op_ok :: "str_env \<Rightarrow> 'v md_op \<Rightarrow> bool" where
  "op_ok E (Extend a kw) = arg_ok E a"
| "op_ok E (Update a kw) = arg_ok E a"
| "op_ok E (Merge a kw) = arg_ok E a"
| "op_ok E _ = True"

section \<open>The simulation\<close>

definition simulates :: "str_env \<Rightarrow> 'v multidict \<Rightarrow> ('v multidict \<times> 'v md_val res) option \<Rightarrow> 'v mitem list \<times> 'v md_val res \<Rightarrow> bool" where
  "simulates E m r s \<longleftrightarrow> (\<exists>m'. r = Some (m', snd s) \<and> md_ok E m' \<and> md_ci m' = md_ci m \<and> md_list m' = fst s)"

lemma simulatesI:
  assumes "\<exists>m'. r = Some (m', x) \<and> md_ok E m' \<and> md_ci m' = md_ci m \<and> md_list m' = l"
    and "(case x of Inl e \<Rightarrow> Inl e | Inr v \<Rightarrow> Inr (f v)) = y"
  shows "simulates E m (lift_val f r) (l, y)"
  using assms by (auto simp: simulates_def lift_val_Some)

lemma ident_md: "ident E (md_ci m) = md_identity E m"
  by (simp add: ident_def md_identity_def fun_eq_iff)

lemmas result_defs = all_values_def first_value_def default_or_def not_found_def done_with_def Let_def ident_md

lemma read_step:
  assumes "good_env E" "md_ok E m"
  shows "simulates E m (md_step E (Getall k d1) m) (list_step E (md_ci m) (Getall k d1) (md_list m))"
    "simulates E m (md_step E (Getone k d2) m) (list_step E (md_ci m) (Getone k d2) (md_list m))"
    "simulates E m (md_step E (Contains k) m) (list_step E (md_ci m) (Contains k) (md_list m))"
    "simulates E m (md_step E Count m) (list_step E (md_ci m) Count (md_list m))"
    "simulates E m (md_step E Items m) (list_step E (md_ci m) Items (md_list m))"
  using assms getall_ok [OF assms, of k d1] getone_ok [OF assms(2), of k d2] len_ok [OF assms(2)]
  by (simp_all add: simulates_def lift_val_Some result_defs split: list.split option.split)

lemma change_step:
  assumes "good_env E" "md_ok E m"
  shows "simulates E m (md_step E (Add k v) m) (list_step E (md_ci m) (Add k v) (md_list m))"
    "simulates E m (md_step E (Set_Item k v) m) (list_step E (md_ci m) (Set_Item k v) (md_list m))"
    "simulates E m (md_step E (Delete k) m) (list_step E (md_ci m) (Delete k) (md_list m))"
    "simulates E m (md_step E (Setdefault k v) m) (list_step E (md_ci m) (Setdefault k v) (md_list m))"
  unfolding md_step.simps list_step.simps ident_md
  by (rule simulatesI, rule add_ok [OF assms], simp add: result_defs)
    (rule simulatesI, rule setitem_ok [OF assms], simp add: result_defs,
     rule simulatesI, rule delitem_ok [OF assms], simp add: result_defs,
     rule simulatesI, rule setdefault_ok [OF assms], simp add: result_defs split: list.split)

lemma pop_step:
  assumes "good_env E" "md_ok E m"
  shows "simulates E m (md_step E (Popone k d1) m) (list_step E (md_ci m) (Popone k d1) (md_list m))"
    "simulates E m (md_step E (Popall k d2) m) (list_step E (md_ci m) (Popall k d2) (md_list m))"
    "simulates E m (md_step E Popitem m) (list_step E (md_ci m) Popitem (md_list m))"
    "simulates E m (md_step E Clear m) (list_step E (md_ci m) Clear (md_list m))"
  unfolding md_step.simps list_step.simps ident_md
  by (rule simulatesI, rule popone_ok [OF assms(2)], simp add: result_defs split: list.split option.split)
    (rule simulatesI, rule popall_ok [OF assms], simp add: result_defs split: option.split,
     rule simulatesI, rule popitem_ok [OF assms(2)], simp,
     simp add: simulates_def clear_ok)

lemma bulk_step:
  assumes "good_env E" "md_ok E m" "arg_ok E a"
  shows "simulates E m (md_step E (Extend a kw) m) (list_step E (md_ci m) (Extend a kw) (md_list m))"
    "simulates E m (md_step E (Update a kw) m) (list_step E (md_ci m) (Update a kw) (md_list m))"
    "simulates E m (md_step E (Merge a kw) m) (list_step E (md_ci m) (Merge a kw) (md_list m))"
  unfolding md_step.simps list_step.simps
  by (rule simulatesI, rule extend_ok [OF assms], simp add: done_with_def)
    (rule simulatesI, rule update_ok [OF assms], simp add: done_with_def,
     rule simulatesI, rule merge_ok [OF assms], simp add: done_with_def)

lemma step_refines:
  assumes "good_env E" "md_ok E m" "op_ok E oper"
  shows "simulates E m (md_step E oper m) (list_step E (md_ci m) oper (md_list m))"
  using assms(3) read_step [OF assms(1,2)] change_step [OF assms(1,2)] pop_step [OF assms(1,2)] bulk_step [OF assms(1,2)]
  by (cases oper) (simp_all del: md_step.simps list_step.simps)

text \<open>Sequences of operations; one that raises does not end the sequence.\<close>

fun md_run :: "str_env \<Rightarrow> 'v md_op list \<Rightarrow> 'v multidict \<Rightarrow> ('v multidict \<times> 'v md_val res list) option" where
  "md_run E [] m = Some (m, [])"
| "md_run E (oper # ops) m =
     (case md_step E oper m of None \<Rightarrow> None
      | Some (m', r) \<Rightarrow> map_option (\<lambda>(m'', rs). (m'', r # rs)) (md_run E ops m'))"

fun list_run :: "str_env \<Rightarrow> bool \<Rightarrow> 'v md_op list \<Rightarrow> 'v mitem list \<Rightarrow> 'v mitem list \<times> 'v md_val res list" where
  "list_run E ci [] xs = (xs, [])"
| "list_run E ci (oper # ops) xs =
     (let (xs', r) = list_step E ci oper xs; (xs'', rs) = list_run E ci ops xs' in (xs'', r # rs))"

lemma run_refines:
  assumes "good_env E" "md_ok E m" "list_all (op_ok E) ops"
  shows "\<exists>m'. md_run E ops m = Some (m', snd (list_run E (md_ci m) ops (md_list m))) \<and> md_ok E m' \<and>
    md_list m' = fst (list_run E (md_ci m) ops (md_list m))"
  using assms(2,3)
proof (induction ops arbitrary: m)
  case (Cons oper ops)
  obtain m1 where "md_step E oper m = Some (m1, snd (list_step E (md_ci m) oper (md_list m)))" "md_ok E m1" "md_ci m1 = md_ci m"
      "md_list m1 = fst (list_step E (md_ci m) oper (md_list m))"
    using step_refines [OF assms(1) Cons.prems(1), of oper] Cons.prems(2) by (auto simp: simulates_def)
  then show ?case using Cons.IH [of m1] Cons.prems(2)
    by (auto simp: case_prod_beta Let_def simp del: md_step.simps list_step.simps)
qed simp

text \<open>
  C27: a multidict made by the constructor and put through any sequence of operations, whatever
  its hash function and however it is resized, gives the results of the same operations on a
  plain list of items, in the order of insertion: every operation returns, raises the same
  exceptions, and the table and the list stay in step.
\<close>

theorem multidict_refines_list:
  assumes "good_env E" "arg_ok E a" "list_all (op_ok E) ops"
  shows "\<exists>m m'. md_init E ci a kw clock = Some (m, given_result a) \<and>
    md_run E ops m = Some (m', snd (list_run E ci ops (given_items E ci a kw))) \<and>
    md_list m' = fst (list_run E ci ops (given_items E ci a kw))"
proof -
  obtain m where m: "md_init E ci a kw clock = Some (m, given_result a)" "md_ok E m" "md_ci m = ci" "md_list m = given_items E ci a kw"
    using md_init_ok [OF assms(1,2), of ci kw clock] by blast
  then show ?thesis using run_refines [OF assms(1) m(2) assms(3)] by auto
qed

definition length_env :: str_env where
  "length_env = \<lparr>se_hash = \<lambda>s. int (length s), se_lower = map (\<lambda>c. if c = CHR ''A'' then CHR ''a'' else c), se_repr = \<lambda>s. s\<rparr>"

lemma length_env_good: "good_env length_env"
  by (simp add: good_env_def length_env_def)

lemma multidict_refines_list_witness:
  "\<exists>m m'. md_init length_env True (Items_Arg True [Pair_Item ''A'' (Some (1 :: nat)), Pair_Item ''b'' None]) [] 0 = Some (m, Inr ()) \<and>
    md_run length_env [Add ''a'' (Some 2), Getall ''A'' None, Popone ''a'' None, Delete ''c''] m =
      Some (m', [Inr Done, Inr (Values [Some 1, Some 2]), Inr (Value (Some 1)), Inl (KeyError ''c'')]) \<and>
    md_list m' = [(''b'', Some ''b'', None), (''a'', Some ''a'', Some 2)]"
  using multidict_refines_list [OF length_env_good, of "Items_Arg True [Pair_Item ''A'' (Some (1 :: nat)), Pair_Item ''b'' None]"
      "[Add ''a'' (Some 2), Getall ''A'' None, Popone ''a'' None, Delete ''c'']" True "[]" 0]
  by (simp add: arg_ok_def given_result_def given_items_def given_item_def values_of_def ident_def all_values_def first_value_def length_env_def)

text \<open>
  \<^verbatim>\<open>update\<close> always returns, also when the argument raises half-way; then a key that was given
  has exactly the values given, in their order, and every other key has the values it had.
\<close>

theorem update_replaces:
  assumes "good_env E" "md_ok E m" "arg_ok E a"
  shows "\<exists>m'. md_update E a kw m = Some (m', given_result a) \<and> md_ok E m' \<and>
    (\<forall>x. values_of x (md_list m') =
      (if x \<in> fst ` set (given_items E (md_ci m) a kw) then values_of x (given_items E (md_ci m) a kw) else values_of x (md_list m)))"
proof -
  obtain m' where "md_update E a kw m = Some (m', given_result a)" "md_ok E m'"
      "md_list m' = upd_items (fst ` set (given_items E (md_ci m) a kw)) (given_items E (md_ci m) a kw) (md_list m)"
    using update_ok [OF assms] by blast
  then show ?thesis using upd_items_values [of "given_items E (md_ci m) a kw"] by auto
qed

lemma update_replaces_witness:
  "\<exists>m'. md_update length_env (Items_Arg False [Pair_Item ''b'' (Some (7 :: nat)), Ill_Sized]) []
      \<lparr>md_ci = False, md_keys = ht_new 3 [], md_used = 0, md_version = 0, md_clock = 0\<rparr> =
    Some (m', Inl (ValueError ''multidict update sequence element'')) \<and> values_of ''b'' (md_list m') = [Some 7] \<and> md_ok length_env m'"
proof -
  let ?m = "\<lparr>md_ci = False, md_keys = ht_new 3 [], md_used = 0, md_version = 0, md_clock = 0\<rparr> :: nat multidict"
  have "md_ok length_env ?m" using empty_ok [of ?m 3] by simp
  from update_replaces [OF length_env_good this, of "Items_Arg False [Pair_Item ''b'' (Some 7), Ill_Sized]" "[]"]
  show ?thesis by (auto simp: arg_ok_def given_result_def given_items_def given_item_def values_of_def)
qed

end
