(* ===== verification/Multidict_Views.thy ===== *)
theory Multidict_Views
  imports Multidict_Refine
begin

text \<open>
  The views of a multidict: \<^verbatim>\<open>_KeysView\<close>, \<^verbatim>\<open>_ItemsView\<close> and \<^verbatim>\<open>_ValuesView\<close> with their set operations.
  The other operand is the list of its elements; an operation returns a set, or \<open>None\<close> if one of
  its loops would not end. The views of a \<^verbatim>\<open>MultiDict\<close> are proved to be sets; those of a
  \<^verbatim>\<open>CIMultiDict\<close> are not.
\<close>

section \<open>The operations\<close>

text \<open>An element: a string, a pair of a string and a value, or anything else.\<close>

datatype 'v view_el = Key_El string | Pair_El string "'v option" | Other_El nat

text \<open>A loop over the elements of the other operand.\<close>

fun each_el :: "('v view_el \<Rightarrow> 's \<Rightarrow> 's option) \<Rightarrow> 'v view_el list \<Rightarrow> 's \<Rightarrow> 's option" where
  "each_el f [] s = Some s"
| "each_el f (x # xs) s = Option.bind (f x s) (each_el f xs)"

text \<open>The loops that stop at the first entry with the key, or with the key and the value.\<close>

definition find_key :: "str_env \<Rightarrow> 'v multidict \<Rightarrow> string \<Rightarrow> 'v mentry option option" where
  "find_key E m k = map_option (\<lambda>((m, r), x). map_option (\<lambda>(i, j, e). e) r) (first_entry E (md_identity E m k) m)"

definition find_pair :: "str_env \<Rightarrow> 'v multidict \<Rightarrow> string \<Rightarrow> 'v option \<Rightarrow> bool option" where
  "find_pair E m k v = map_option fst
     (iter_hash (\<lambda>b. md_keys m)
        (\<lambda>i j e b. if me_identity e = md_identity E m k \<and> me_value e = v then Inl True else Inr b)
        (se_hash E (md_identity E m k)) False)"

definition keys_set :: "'v multidict \<Rightarrow> 'v view_el set" where
  "keys_set m = (\<lambda>e. Key_El (the (me_key e))) ` set (iter_entries (md_keys m))"

definition keys_contains :: "str_env \<Rightarrow> 'v multidict \<Rightarrow> 'v view_el \<Rightarrow> bool option" where
  "keys_contains E m x = (case x of Key_El k \<Rightarrow> map_option (\<lambda>r. r \<noteq> None) (find_key E m k) | _ \<Rightarrow> Some False)"

definition keys_and :: "str_env \<Rightarrow> 'v multidict \<Rightarrow> 'v view_el list \<Rightarrow> 'v view_el set option" where
  "keys_and E m other = each_el (\<lambda>x ret. case x of
       Key_El k \<Rightarrow> map_option (\<lambda>r. case r of Some e \<Rightarrow> insert (Key_El (the (me_key e))) ret | None \<Rightarrow> ret) (find_key E m k)
     | _ \<Rightarrow> Some ret) other {}"

definition keys_rand :: "str_env \<Rightarrow> 'v multidict \<Rightarrow> 'v view_el list \<Rightarrow> 'v view_el set option" where
  "keys_rand E m other = each_el (\<lambda>x ret. map_option (\<lambda>b. if b then insert x ret else ret) (keys_contains E m x)) other {}"

definition keys_or :: "str_env \<Rightarrow> 'v multidict \<Rightarrow> 'v view_el list \<Rightarrow> 'v view_el set option" where
  "keys_or E m other = each_el (\<lambda>x ret. map_option (\<lambda>b. if b then ret else insert x ret) (keys_contains E m x)) other (keys_set m)"

definition keys_ror :: "str_env \<Rightarrow> 'v multidict \<Rightarrow> 'v view_el list \<Rightarrow> 'v view_el set" where
  "keys_ror E m other =
     (let tmp = set (List.map_filter (\<lambda>x. case x of Key_El k \<Rightarrow> Some (md_identity E m k) | _ \<Rightarrow> None) other)
      in set other \<union> (\<lambda>e. Key_El (the (me_key e))) ` set (filter (\<lambda>e. me_identity e \<notin> tmp) (iter_entries (md_keys m))))"

definition keys_sub :: "str_env \<Rightarrow> 'v multidict \<Rightarrow> 'v view_el list \<Rightarrow> 'v view_el set option" where
  "keys_sub E m other = each_el (\<lambda>x ret. case x of
       Key_El k \<Rightarrow> map_option (\<lambda>r. case r of Some e \<Rightarrow> ret - {Key_El (the (me_key e))} | None \<Rightarrow> ret) (find_key E m k)
     | _ \<Rightarrow> Some ret) other (keys_set m)"

definition keys_rsub :: "str_env \<Rightarrow> 'v multidict \<Rightarrow> 'v view_el list \<Rightarrow> 'v view_el set option" where
  "keys_rsub E m other =
     each_el (\<lambda>x ret. map_option (\<lambda>b. if b then ret - {x} else ret) (keys_contains E m x)) other (set other)"

definition keys_xor :: "str_env \<Rightarrow> 'v multidict \<Rightarrow> 'v view_el list \<Rightarrow> 'v view_el set option" where
  "keys_xor E m other = Option.bind (keys_sub E m (remdups other)) (\<lambda>ret.
     map_option (\<lambda>r. ret \<union> r) (keys_rsub E m (remdups other)))"

fun keys_isdisjoint :: "str_env \<Rightarrow> 'v multidict \<Rightarrow> 'v view_el list \<Rightarrow> bool option" where
  "keys_isdisjoint E m [] = Some True"
| "keys_isdisjoint E m (x # other) =
     Option.bind (keys_contains E m x) (\<lambda>b. if b then Some False else keys_isdisjoint E m other)"

definition items_set :: "'v multidict \<Rightarrow> 'v view_el set" where
  "items_set m = (\<lambda>e. Pair_El (the (me_key e)) (me_value e)) ` set (iter_entries (md_keys m))"

definition items_contains :: "str_env \<Rightarrow> 'v multidict \<Rightarrow> 'v view_el \<Rightarrow> bool option" where
  "items_contains E m x = (case x of Pair_El k v \<Rightarrow> find_pair E m k v | _ \<Rightarrow> Some False)"

text \<open>\<^verbatim>\<open>&\<close> marks every entry with the hash, whatever its key, and restores them after each element.\<close>

definition items_and_el :: "str_env \<Rightarrow> 'v view_el \<Rightarrow> 'v multidict \<times> 'v view_el set \<Rightarrow> ('v multidict \<times> 'v view_el set) option" where
  "items_and_el E x = (\<lambda>(m, ret). case x of
       Pair_El k v \<Rightarrow>
         (let ident = md_identity E m k; h = se_hash E ident
          in Option.bind
            (iter_hash (\<lambda>(m, ret). md_keys m)
               (\<lambda>i j e (m, ret). Inr (on_keys (upd_entry j (mark (- 1))) m,
                  if me_identity e = ident \<and> me_value e = v then insert (Pair_El (the (me_key e)) (me_value e)) ret else ret))
               h (m, ret))
            (\<lambda>((m, ret), _). map_option (\<lambda>(m, _). (m, ret)) (md_restore h m)))
     | _ \<Rightarrow> Some (m, ret))"

definition items_and :: "str_env \<Rightarrow> 'v multidict \<Rightarrow> 'v view_el list \<Rightarrow> ('v multidict \<times> 'v view_el set) option" where
  "items_and E m other = each_el (items_and_el E) other (m, {})"

definition items_rand :: "str_env \<Rightarrow> 'v multidict \<Rightarrow> 'v view_el list \<Rightarrow> 'v view_el set option" where
  "items_rand E m other = each_el (\<lambda>x ret. map_option (\<lambda>b. if b then insert x ret else ret) (items_contains E m x)) other {}"

definition items_or :: "str_env \<Rightarrow> 'v multidict \<Rightarrow> 'v view_el list \<Rightarrow> 'v view_el set option" where
  "items_or E m other = each_el (\<lambda>x ret. map_option (\<lambda>b. if b then ret else insert x ret) (items_contains E m x)) other (items_set m)"

text \<open>\<^verbatim>\<open>_tmp_set\<close>: the identities and values of the pairs.\<close>

definition tmp_set :: "str_env \<Rightarrow> 'v multidict \<Rightarrow> 'v view_el list \<Rightarrow> (string \<times> 'v option) set" where
  "tmp_set E m other =
     set (List.map_filter (\<lambda>x. case x of Pair_El k v \<Rightarrow> Some (md_identity E m k, v) | _ \<Rightarrow> None) other)"

definition items_not_in :: "str_env \<Rightarrow> 'v multidict \<Rightarrow> 'v view_el list \<Rightarrow> 'v view_el set" where
  "items_not_in E m other = (\<lambda>e. Pair_El (the (me_key e)) (me_value e)) `
     set (filter (\<lambda>e. (me_identity e, me_value e) \<notin> tmp_set E m other) (iter_entries (md_keys m)))"

definition items_ror :: "str_env \<Rightarrow> 'v multidict \<Rightarrow> 'v view_el list \<Rightarrow> 'v view_el set" where
  "items_ror E m other = set other \<union> items_not_in E m other"

definition items_sub :: "str_env \<Rightarrow> 'v multidict \<Rightarrow> 'v view_el list \<Rightarrow> 'v view_el set" where
  "items_sub E m other = items_not_in E m other"

definition items_rsub :: "str_env \<Rightarrow> 'v multidict \<Rightarrow> 'v view_el list \<Rightarrow> 'v view_el set option" where
  "items_rsub E m other = each_el (\<lambda>x ret. map_option (\<lambda>b. if b then ret else insert x ret) (items_contains E m x)) other {}"

definition items_xor :: "str_env \<Rightarrow> 'v multidict \<Rightarrow> 'v view_el list \<Rightarrow> 'v view_el set option" where
  "items_xor E m other = map_option (\<lambda>r. items_sub E m (remdups other) \<union> r) (items_rsub E m (remdups other))"

fun items_isdisjoint :: "str_env \<Rightarrow> 'v multidict \<Rightarrow> 'v view_el list \<Rightarrow> bool option" where
  "items_isdisjoint E m [] = Some True"
| "items_isdisjoint E m (x # other) =
     Option.bind (items_contains E m x) (\<lambda>b. if b then Some False else items_isdisjoint E m other)"

definition values_contains :: "'v multidict \<Rightarrow> 'v option \<Rightarrow> bool" where
  "values_contains m v = list_ex (\<lambda>e. me_value e = v) (iter_entries (md_keys m))"

section \<open>The loops\<close>

lemma each_el_fold: "(\<And>x s. x \<in> set xs \<Longrightarrow> f x s = Some (g x s)) \<Longrightarrow> each_el f xs s = Some (fold g xs s)"
  by (induction xs arbitrary: s) simp_all

definition first_with :: "'v multidict \<Rightarrow> string \<Rightarrow> 'v mentry option" where
  "first_with m x = List.find (\<lambda>e. me_identity e = x) (live (ht_entries (md_keys m)))"

lemma find_filter: "List.find P xs = (case filter P xs of [] \<Rightarrow> None | x # _ \<Rightarrow> Some x)"
  by (induction xs) simp_all

lemma find_key_ok:
  assumes "md_ok E m"
  shows "find_key E m k = Some (first_with m (md_identity E m k))"
proof -
  obtain ps where ps: "first_entry E (md_identity E m k) m = Some ((m, case ps of [] \<Rightarrow> None | p # _ \<Rightarrow> Some p), None)"
      "map (\<lambda>(i, j, e). e) ps = filter (\<lambda>e. me_identity e = md_identity E m k) (live (ht_entries (md_keys m)))"
    using first_entry_ok [OF assms] by blast
  have "List.find (\<lambda>e. me_identity e = md_identity E m k) (live (ht_entries (md_keys m))) =
      (case ps of [] \<Rightarrow> None | (i, j, e) # _ \<Rightarrow> Some e)"
    unfolding find_filter ps(2) [symmetric] by (auto split: list.split)
  then show ?thesis using ps(1) by (auto simp: find_key_def first_with_def split: list.split)
qed

lemma find_pair_ok:
  assumes "md_ok E m"
  shows "find_pair E m k v =
    Some (\<exists>e \<in> set (live (ht_entries (md_keys m))). me_identity e = md_identity E m k \<and> me_value e = v)"
proof -
  let ?x = "md_identity E m k" and ?t = "md_keys m"
  let ?h = "se_hash E ?x"
  let ?Q = "\<lambda>e. me_hash e = ?h \<and> me_identity e = ?x \<and> me_value e = v"
  let ?b = "\<lambda>i j e s. Inl True"
  let ?ps = "hits (look_q ?Q ?t) (nub (path (ht_log2 ?t) (frees ?t) ?h))"
  note t = md_placed [OF assms]
  have "iter_hash (\<lambda>b. ?t) (\<lambda>i j e b. if me_identity e = ?x \<and> me_value e = v then Inl True else Inr b) ?h False =
      Some (runs ?b ?ps False, None)"
  proof (rule iter_hash_runs [where P = "\<lambda>s. True" and N = "\<lambda>s i. False"])
    show "settles (\<lambda>s. True) (\<lambda>s i. False) (2 ^ ht_log2 ?t) (\<lambda>s. look_q ?Q ?t) ?b"
      by (rule settlesI) simp_all
  qed (use t in simp_all)
  moreover have "runs ?b ?ps False = (?ps \<noteq> [])" by (cases ?ps) auto
  moreover have "filter ?Q (live (ht_entries ?t)) = map (\<lambda>(i, j, e). e) ?ps"
    by (rule q_hits(2) [where hs = "se_hash E", symmetric]) (use t in simp_all)
  then have "(filter ?Q (live (ht_entries ?t)) = []) = (?ps = [])" by (simp only: map_is_Nil_conv)
  moreover have "filter ?Q (live (ht_entries ?t)) \<noteq> [] \<longleftrightarrow>
      (\<exists>e \<in> set (live (ht_entries ?t)). me_identity e = ?x \<and> me_value e = v)"
    using md_ok_hash [OF assms] by (auto simp: filter_empty_conv)
  ultimately show ?thesis by (simp add: find_pair_def)
qed

text \<open>The loop of \<^verbatim>\<open>&\<close> on items: the marks are gone after each element.\<close>

lemma items_and_fold:
  "fold (\<lambda>(i, j, e) (m, ret). (on_keys (upd_entry j (mark (- 1))) m, if P e then insert (f e) ret else ret)) ps (m, ret) =
   (on_keys (fold (\<lambda>j. upd_entry j (mark (- 1))) (map (fst \<circ> snd) ps)) m, ret \<union> f ` set (filter P (map (\<lambda>(i, j, e). e) ps)))"
  by (induction ps arbitrary: m ret) (auto simp: on_keys_def)

lemma items_and_step:
  assumes "good_env E" "md_ok E m"
  shows "\<exists>m'. items_and_el E x (m, ret) = Some (m', ret \<union> {y. \<exists>k v. x = Pair_El k v \<and>
      (\<exists>e \<in> set (live (ht_entries (md_keys m))). me_identity e = md_identity E m k \<and> me_value e = v \<and> y = Pair_El (the (me_key e)) v)}) \<and>
    md_ok E m' \<and> md_ci m' = md_ci m \<and> live (ht_entries (md_keys m')) = live (ht_entries (md_keys m))"
proof (cases "\<exists>k v. x = Pair_El k v")
  case False
  then show ?thesis using assms(2) by (cases x) (simp_all add: items_and_el_def)
next
  case True
  then obtain k v where x: "x = Pair_El k v" by blast
  let ?x = "md_identity E m k" and ?t = "md_keys m"
  let ?h = "se_hash E ?x"
  let ?Q = "\<lambda>e. me_hash e = ?h" and ?F = "\<lambda>n :: nat. \<lambda>e. Some (mark (- 1) e)"
  let ?P = "\<lambda>e. me_identity e = ?x \<and> me_value e = v" and ?f = "\<lambda>e. Pair_El (the (me_key e)) (me_value e)"
  let ?g = "\<lambda>(i :: nat, j, e) (m, ret). (on_keys (upd_entry j (mark (- 1))) m, if ?P e then insert (?f e) ret else ret)"
  let ?b = "\<lambda>i j e (m, ret). Inr (on_keys (upd_entry j (mark (- 1))) m, if ?P e then insert (?f e) ret else ret)"
  let ?tb = "\<lambda>(m, ret :: 'a view_el set). md_keys m"
  have h: "?h \<noteq> - 1" "\<And>s. se_hash E s \<noteq> - 1" using assms(1) by (simp_all add: good_env_def)
  have t: "placed (se_hash E) ?t" "room ?t" using assms(2) by (simp_all add: md_ok_def)
  have hash: "me_hash e = se_hash E (me_identity e)" if "e \<in> set (live (ht_entries ?t))" for e
    using assms(2) that by (auto simp: md_ok_def entry_ok_def)
  have "\<exists>ps. iter_hash ?tb ?b ?h (m, ret) = Some (fold ?g ps (m, ret), None) \<and>
      looped (se_hash E) ?Q ?F (?tb (m, ret)) ps (?tb (fold ?g ps (m, ret)))"
  proof (rule q_loop [where rel = "\<lambda>n s. True" and D = "\<lambda>e. False"])
    show "\<forall>e. Some e \<in> set (ht_entries (?tb (m, ret))) \<and> ?Q e \<longrightarrow> se_hash E (me_identity e) = ?h"
      unfolding prod.case using hash set_live by metis
    show "keeps ?Q (\<lambda>e. False) ?F" using h(1) by (simp add: keeps_def mark_def)
  qed (use t in \<open>auto simp: act_def upd_entry_def mark_def\<close>)
  then obtain ps where loop: "iter_hash ?tb ?b ?h (m, ret) = Some (fold ?g ps (m, ret), None)"
      "looped (se_hash E) ?Q ?F ?t ps (?tb (fold ?g ps (m, ret)))"
    by auto
  let ?m = "on_keys (fold (\<lambda>j. upd_entry j (mark (- 1))) (map (fst \<circ> snd) ps)) m"
  have s: "fold ?g ps (m, ret) = (?m, ret \<union> ?f ` set (filter ?P (filter ?Q (live (ht_entries ?t)))))"
    using loop(2) by (simp add: items_and_fold looped_def)
  have m: "placed (se_hash E) (md_keys ?m)" "room (md_keys ?m)" "ht_entries (md_keys ?m) = trans_from ?Q ?F 0 (ht_entries ?t)"
    using loop(2) unfolding s looped_def prod.case by blast+
  have "se_hash E (me_identity e) = ?h" if "Some e \<in> set (ht_entries (md_keys ?m))" "me_hash e = - 1" for e
  proof -
    have "e \<in> set (map (\<lambda>e. if ?Q e then mark (- 1) e else e) (live (ht_entries ?t)))"
      using that(1) unfolding m(3) set_live [symmetric] live_trans trans_live_some .
    then show ?thesis using that(2) hash h(2) by (auto simp: mark_def)
  qed
  then obtain t' where t': "restore_hash ?h (md_keys ?m) = Some (t', None)" "placed (se_hash E) t'" "room t'"
      "ht_entries t' = trans_from (\<lambda>e. me_hash e = - 1) (\<lambda>n e. Some (e\<lparr>me_hash := ?h\<rparr>)) 0 (ht_entries (md_keys ?m))"
    using restore_ok [OF m(1,2) _ h(1)] by auto
  have "ht_entries t' = ht_entries ?t"
    unfolding t'(4) m(3) by (rule trans_from_twice) (use hash h(2) in \<open>auto simp: mark_def\<close>)
  then have "md_ok E (?m\<lparr>md_keys := t'\<rparr>)" "live (ht_entries t') = live (ht_entries ?t)" using assms(2) t'(2,3) by (simp_all add: md_ok_def)
  moreover have "items_and_el E x (m, ret) = Some (?m\<lparr>md_keys := t'\<rparr>, ret \<union> ?f ` set (filter ?P (filter ?Q (live (ht_entries ?t)))))"
    using loop(1) t'(1) by (simp add: items_and_el_def x Let_def s md_restore_def after_def)
  moreover have "?f ` set (filter ?P (filter ?Q (live (ht_entries ?t)))) = {y. \<exists>k v. x = Pair_El k v \<and>
      (\<exists>e \<in> set (live (ht_entries ?t)). me_identity e = md_identity E m k \<and> me_value e = v \<and> y = Pair_El (the (me_key e)) v)}"
    using hash by (auto simp: x)
  ultimately show ?thesis by (intro exI [of _ "?m\<lparr>md_keys := t'\<rparr>"]) simp
qed

definition hit_pair :: "str_env \<Rightarrow> 'v multidict \<Rightarrow> string \<Rightarrow> 'v option \<Rightarrow> 'v view_el \<Rightarrow> bool" where
  "hit_pair E m k v y \<longleftrightarrow> (\<exists>e \<in> set (live (ht_entries (md_keys m))).
     me_identity e = md_identity E m k \<and> me_value e = v \<and> y = Pair_El (the (me_key e)) v)"

lemma items_and_ok:
  assumes "good_env E" "md_ok E m"
  shows "\<exists>m'. each_el (items_and_el E) other (m, ret) = Some (m', ret \<union> {y. \<exists>k v. Pair_El k v \<in> set other \<and> hit_pair E m k v y}) \<and>
    md_ok E m' \<and> live (ht_entries (md_keys m')) = live (ht_entries (md_keys m))"
  using assms(2)
proof (induction other arbitrary: m ret)
  case (Cons x other)
  obtain m1 where m1: "items_and_el E x (m, ret) = Some (m1, ret \<union> {y. \<exists>k v. x = Pair_El k v \<and> hit_pair E m k v y})"
      "md_ok E m1" "md_ci m1 = md_ci m" "live (ht_entries (md_keys m1)) = live (ht_entries (md_keys m))"
    using items_and_step [OF assms(1) Cons.prems] unfolding hit_pair_def by blast
  have same: "hit_pair E m1 = hit_pair E m"
    using md_identity_ci [OF m1(3), of E] m1(4) by (simp add: hit_pair_def fun_eq_iff)
  have "ret \<union> {y. \<exists>k v. Pair_El k v \<in> set (x # other) \<and> R k v y} =
      (ret \<union> {y. \<exists>k v. x = Pair_El k v \<and> R k v y}) \<union> {y. \<exists>k v. Pair_El k v \<in> set other \<and> R k v y}" for R
    by auto
  from this [of "hit_pair E m"] show ?case
    using Cons.IH [OF m1(2), of "ret \<union> {y. \<exists>k v. x = Pair_El k v \<and> hit_pair E m k v y}"] m1(1,4) unfolding same by simp
qed simp

section \<open>The views of a MultiDict are sets\<close>

text \<open>
  Where identities are the keys. The operations on keys and on items have the same shape: they
  are folds over the other operand with the test whether an element is in the view.
\<close>

lemma fold_insert_in: "fold (\<lambda>x ret. if P x then insert x ret else ret) xs A = A \<union> {x \<in> set xs. P x}"
  by (induction xs arbitrary: A) auto

lemma fold_insert_out: "fold (\<lambda>x ret. if P x then ret else insert x ret) xs A = A \<union> {x \<in> set xs. \<not> P x}"
  by (induction xs arbitrary: A) auto

lemma fold_remove: "fold (\<lambda>x ret. if P x then ret - {x} else ret) xs A = A - {x \<in> set xs. P x}"
  by (induction xs arbitrary: A) auto

lemma each_in:
  assumes "\<And>x. mem x = Some (x \<in> A)"
  shows "each_el (\<lambda>x ret. map_option (\<lambda>b. if b then insert x ret else ret) (mem x)) xs {} = Some (A \<inter> set xs)"
    "each_el (\<lambda>x ret. map_option (\<lambda>b. if b then ret else insert x ret) (mem x)) xs R = Some (R \<union> (set xs - A))"
    "each_el (\<lambda>x ret. map_option (\<lambda>b. if b then ret - {x} else ret) (mem x)) xs (set xs) = Some (set xs - A)"
proof -
  show "each_el (\<lambda>x ret. map_option (\<lambda>b. if b then insert x ret else ret) (mem x)) xs {} = Some (A \<inter> set xs)"
    using fold_insert_in [of "\<lambda>x. x \<in> A" xs "{}"] by (subst each_el_fold [where g = "\<lambda>x ret. if x \<in> A then insert x ret else ret"]) (auto simp: assms)
  show "each_el (\<lambda>x ret. map_option (\<lambda>b. if b then ret else insert x ret) (mem x)) xs R = Some (R \<union> (set xs - A))"
    using fold_insert_out [of "\<lambda>x. x \<in> A" xs R] by (subst each_el_fold [where g = "\<lambda>x ret. if x \<in> A then ret else insert x ret"]) (auto simp: assms)
  show "each_el (\<lambda>x ret. map_option (\<lambda>b. if b then ret - {x} else ret) (mem x)) xs (set xs) = Some (set xs - A)"
    using fold_remove [of "\<lambda>x. x \<in> A" xs "set xs"] by (subst each_el_fold [where g = "\<lambda>x ret. if x \<in> A then ret - {x} else ret"]) (auto simp: assms)
qed

lemma identity_key: "\<not> md_ci m \<Longrightarrow> md_identity E m k = k"
  by (simp add: md_identity_def)

lemma entry_key: "md_ok E m \<Longrightarrow> \<not> md_ci m \<Longrightarrow> e \<in> set (live (ht_entries (md_keys m))) \<Longrightarrow> me_key e = Some (me_identity e)"
  by (auto simp: md_ok_def entry_ok_def)

lemma keys_mem:
  assumes "md_ok E m" "\<not> md_ci m"
  shows "keys_contains E m x = Some (x \<in> keys_set m)"
proof (cases x)
  case (Key_El k)
  have "(first_with m k \<noteq> None) = (\<exists>e \<in> set (live (ht_entries (md_keys m))). me_identity e = k)"
    unfolding first_with_def by (auto simp: find_None_iff)
  then show ?thesis
    using Key_El find_key_ok [OF assms(1), of k] entry_key [OF assms] identity_key [OF assms(2)]
    by (fastforce simp: keys_contains_def keys_set_def iter_entries_live)
qed (auto simp: keys_contains_def keys_set_def)

lemma items_mem:
  assumes "md_ok E m" "\<not> md_ci m"
  shows "items_contains E m x = Some (x \<in> items_set m)"
proof (cases x)
  case (Pair_El k v)
  then show ?thesis
    using find_pair_ok [OF assms(1), of k v] entry_key [OF assms] identity_key [OF assms(2)]
    by (force simp: items_contains_def items_set_def iter_entries_live)
qed (auto simp: items_contains_def items_set_def)

lemma first_with_key:
  assumes "md_ok E m" "\<not> md_ci m"
  shows "(case first_with m k of Some e \<Rightarrow> {Key_El (the (me_key e))} | None \<Rightarrow> {}) = keys_set m \<inter> {Key_El k}"
proof (cases "first_with m k")
  case None
  then have "\<forall>e \<in> set (live (ht_entries (md_keys m))). me_identity e \<noteq> k" by (auto simp: first_with_def find_None_iff)
  then show ?thesis using None entry_key [OF assms] by (auto simp: keys_set_def iter_entries_live)
next
  case (Some e)
  then have "e \<in> set (live (ht_entries (md_keys m)))" "me_identity e = k"
    unfolding first_with_def by (auto simp: find_Some_iff)
  then show ?thesis using Some entry_key [OF assms] by (force simp: keys_set_def iter_entries_live)
qed

lemma keys_loops:
  assumes "md_ok E m" "\<not> md_ci m"
  shows "keys_and E m xs = Some (keys_set m \<inter> set xs)" "keys_sub E m xs = Some (keys_set m - set xs)"
proof -
  let ?hit = "\<lambda>x. keys_set m \<inter> {x}"
  have hit: "(case first_with m k of Some e \<Rightarrow> insert (Key_El (the (me_key e))) ret | None \<Rightarrow> ret) = ret \<union> ?hit (Key_El k)"
      "(case first_with m k of Some e \<Rightarrow> ret - {Key_El (the (me_key e))} | None \<Rightarrow> ret) = ret - ?hit (Key_El k)" for k ret
    unfolding first_with_key [OF assms, symmetric] by (auto split: option.split)
  have not_key: "?hit (Pair_El k v) = {}" "?hit (Other_El n) = {}" for k v n by (auto simp: keys_set_def)
  have key: "find_key E m k = Some (first_with m k)" for k
    using find_key_ok [OF assms(1), of k] identity_key [OF assms(2)] by simp
  have "keys_and E m xs = Some (fold (\<lambda>x ret. ret \<union> ?hit x) xs {})"
    unfolding keys_and_def by (rule each_el_fold) (simp add: key hit not_key split: view_el.split)
  moreover have "fold (\<lambda>x ret. ret \<union> ?hit x) xs R = R \<union> (keys_set m \<inter> set xs)" for R by (induction xs arbitrary: R) auto
  ultimately show "keys_and E m xs = Some (keys_set m \<inter> set xs)" by simp
  have "keys_sub E m xs = Some (fold (\<lambda>x ret. ret - ?hit x) xs (keys_set m))"
    unfolding keys_sub_def by (rule each_el_fold) (simp add: key hit not_key split: view_el.split)
  moreover have "fold (\<lambda>x ret. ret - ?hit x) xs R = R - (keys_set m \<inter> set xs)" for R by (induction xs arbitrary: R) auto
  ultimately show "keys_sub E m xs = Some (keys_set m - set xs)" by auto
qed

lemma keys_direct:
  assumes "md_ok E m" "\<not> md_ci m"
  shows "keys_ror E m xs = keys_set m \<union> set xs" "keys_isdisjoint E m xs = Some (keys_set m \<inter> set xs = {})"
proof -
  have "set (List.map_filter (\<lambda>x. case x of Key_El k \<Rightarrow> Some (md_identity E m k) | _ \<Rightarrow> None) xs) = {k. Key_El k \<in> set xs}"
    using identity_key [OF assms(2)] by (induction xs) (auto simp: map_filter_simps split: view_el.split)
  then have "keys_ror E m xs = set xs \<union> (\<lambda>e. Key_El (the (me_key e))) ` {e \<in> set (live (ht_entries (md_keys m))). Key_El (me_identity e) \<notin> set xs}"
    by (simp add: keys_ror_def iter_entries_live)
  also have "\<dots> = set xs \<union> {y \<in> keys_set m. y \<notin> set xs}"
    using entry_key [OF assms] unfolding keys_set_def iter_entries_live by auto
  finally show "keys_ror E m xs = keys_set m \<union> set xs" by auto
  show "keys_isdisjoint E m xs = Some (keys_set m \<inter> set xs = {})"
    by (induction xs) (auto simp: keys_mem [OF assms])
qed

lemma items_direct:
  assumes "good_env E" "md_ok E m" "\<not> md_ci m"
  shows "map_option snd (items_and E m xs) = Some (items_set m \<inter> set xs)" "items_not_in E m xs = items_set m - set xs"
    "items_isdisjoint E m xs = Some (items_set m \<inter> set xs = {})"
proof -
  have hp: "hit_pair E m k v y \<longleftrightarrow> y \<in> items_set m \<and> y = Pair_El k v" for k v y
    using entry_key [OF assms(2,3)] identity_key [OF assms(3)] unfolding hit_pair_def items_set_def iter_entries_live by auto
  have "\<exists>k v. y = Pair_El k v" if "y \<in> items_set m" for y using that by (auto simp: items_set_def)
  then have "{y. \<exists>k v. Pair_El k v \<in> set xs \<and> hit_pair E m k v y} = items_set m \<inter> set xs" unfolding hp by fastforce
  then show "map_option snd (items_and E m xs) = Some (items_set m \<inter> set xs)"
    using items_and_ok [OF assms(1,2), of xs "{}"] by (auto simp: items_and_def)
  have "tmp_set E m xs = {(k, v). Pair_El k v \<in> set xs}"
    using identity_key [OF assms(3)] unfolding tmp_set_def by (induction xs) (auto simp: map_filter_simps split: view_el.split)
  then have "items_not_in E m xs = (\<lambda>e. Pair_El (the (me_key e)) (me_value e)) `
      {e \<in> set (live (ht_entries (md_keys m))). Pair_El (me_identity e) (me_value e) \<notin> set xs}"
    by (simp add: items_not_in_def iter_entries_live)
  also have "\<dots> = {y \<in> items_set m. y \<notin> set xs}"
    using entry_key [OF assms(2,3)] unfolding items_set_def iter_entries_live by auto
  finally show "items_not_in E m xs = items_set m - set xs" by auto
  show "items_isdisjoint E m xs = Some (items_set m \<inter> set xs = {})"
    by (induction xs) (auto simp: items_mem [OF assms(2,3)])
qed



text \<open>
  The view of the keys of a \<^verbatim>\<open>CIMultiDict\<close> is no set in this sense: \<^verbatim>\<open>-\<close> takes the first spelling
  of a key away and leaves the others.
\<close>

lemma ci_keys_sub_leaves:
  "\<exists>m. md_init length_env True (Items_Arg True [Pair_Item ''A'' (Some (1 :: nat)), Pair_Item ''a'' None]) [] 0 = Some (m, Inr ()) \<and>
    keys_contains length_env m (Key_El ''a'') = Some True \<and>
    keys_sub length_env m [Key_El ''a''] = Some {Key_El ''a''}"
proof -
  let ?a = "Items_Arg True [Pair_Item ''A'' (Some (1 :: nat)), Pair_Item ''a'' None]"
  obtain m where m: "md_init length_env True ?a [] 0 = Some (m, given_result ?a)" "md_ok length_env m" "md_ci m"
      "md_list m = given_items length_env True ?a []"
    using md_init_ok [OF length_env_good, of ?a True "[]" 0] by (auto simp: arg_ok_def)
  obtain e f where live: "live (ht_entries (md_keys m)) = [e, f]"
      and e: "me_identity e = ''a''" "me_key e = Some ''A''" "me_key f = Some ''a''"
    using m(4) by (auto simp: md_list_def given_items_def given_item_def length_env_def item_of_def)
  have "find_key length_env m ''a'' = Some (Some e)"
    using find_key_ok [OF m(2), of "''a''"] m(3) live e(1) by (simp add: first_with_def md_identity_def length_env_def)
  then show ?thesis using m(1) live e
    by (auto simp: keys_contains_def keys_sub_def keys_set_def iter_entries_live given_result_def)
qed

end
