(* ===== verification/Utf8.thy ===== *)
theory Utf8
  imports Json
begin

text \<open>
  UTF-8 on bytes for all code points: which byte strings are valid, and which are the start of a
  character. A \<^verbatim>\<open>bytes\<close> value is a \<open>string\<close> whose characters are the bytes.
\<close>

text \<open>
  Whether \<^verbatim>\<open>bytes.decode("utf-8")\<close> succeeds: no overlong forms, no surrogates, nothing above
  U+10FFFF.
\<close>

definition utf8_tail :: "char \<Rightarrow> bool" where
  "utf8_tail c \<longleftrightarrow> 128 \<le> (ord c :: nat) \<and> (ord c :: nat) < 192"

text \<open>What the first two bytes of a character of three or four bytes have to satisfy.\<close>

definition utf8_second3 :: "char \<Rightarrow> char \<Rightarrow> bool" where
  "utf8_second3 b c \<longleftrightarrow> utf8_tail c
     \<and> ((ord b :: nat) = 224 \<longrightarrow> 160 \<le> (ord c :: nat))
     \<and> ((ord b :: nat) = 237 \<longrightarrow> (ord c :: nat) < 160)"

definition utf8_second4 :: "char \<Rightarrow> char \<Rightarrow> bool" where
  "utf8_second4 b c \<longleftrightarrow> utf8_tail c
     \<and> ((ord b :: nat) = 240 \<longrightarrow> 144 \<le> (ord c :: nat))
     \<and> ((ord b :: nat) = 244 \<longrightarrow> (ord c :: nat) < 144)"

abbreviation utf8_lead2 :: "char \<Rightarrow> bool" where
  "utf8_lead2 b \<equiv> 194 \<le> (ord b :: nat) \<and> (ord b :: nat) \<le> 223"

abbreviation utf8_lead3 :: "char \<Rightarrow> bool" where
  "utf8_lead3 b \<equiv> 224 \<le> (ord b :: nat) \<and> (ord b :: nat) \<le> 239"

abbreviation utf8_lead4 :: "char \<Rightarrow> bool" where
  "utf8_lead4 b \<equiv> 240 \<le> (ord b :: nat) \<and> (ord b :: nat) \<le> 244"

fun utf8_valid :: "string \<Rightarrow> bool" where
  "utf8_valid [] = True"
| "utf8_valid (b # s) =
     (if (ord b :: nat) < 128 then utf8_valid s
      else if utf8_lead2 b then (case s of c # t \<Rightarrow> utf8_tail c \<and> utf8_valid t | [] \<Rightarrow> False)
      else if utf8_lead3 b then
        (case s of c # d # t \<Rightarrow> utf8_second3 b c \<and> utf8_tail d \<and> utf8_valid t | _ \<Rightarrow> False)
      else if utf8_lead4 b then
        (case s of c # d # e # t \<Rightarrow> utf8_second4 b c \<and> utf8_tail d \<and> utf8_tail e \<and> utf8_valid t
         | _ \<Rightarrow> False)
      else False)"

text \<open>A character that has begun and is not complete.\<close>

fun utf8_partial :: "string \<Rightarrow> bool" where
  "utf8_partial [b] = (utf8_lead2 b \<or> utf8_lead3 b \<or> utf8_lead4 b)"
| "utf8_partial [b, c] = (utf8_lead3 b \<and> utf8_second3 b c \<or> utf8_lead4 b \<and> utf8_second4 b c)"
| "utf8_partial [b, c, d] = (utf8_lead4 b \<and> utf8_second4 b c \<and> utf8_tail d)"
| "utf8_partial _ = False"

text \<open>
  The incremental decoder on one more byte: the characters completed, in their encoding, and the
  bytes held back; \<open>None\<close> when it raises.
\<close>

definition utf8_step :: "string \<Rightarrow> char \<Rightarrow> (string \<times> string) option" where
  "utf8_step buffer b =
     (let data = buffer @ [b]
      in if utf8_valid data then Some (data, [])
         else if utf8_partial data then Some ([], data) else None)"

lemma utf8_valid_char: "utf8_valid (utf8_char c @ t) = utf8_valid t"
proof (cases "(ord c :: nat) < 128")
  case True
  then show ?thesis by (simp add: utf8_char_def)
next
  case False
  have "(ord c :: nat) < 256" by (rule ord_less)
  then have q: "2 \<le> (ord c :: nat) div 64" "(ord c :: nat) div 64 \<le> 3" "(ord c :: nat) mod 64 < 64"
    using False div_le_mono [of 128 "ord c" 64] less_mult_imp_div_less [of "ord c" 4 64] by auto
  then show ?thesis using False by (simp add: utf8_char_def utf8_tail_def)
qed

lemma utf8_valid_utf8: "utf8_valid (utf8 s)"
  by (induction s) (auto simp: utf8_def utf8_valid_char)

text \<open>The four forms of a character.\<close>

lemma utf8_valid_cases:
  assumes "utf8_valid s"
  obtains (Nil) "s = []"
  | (One) b t where "s = b # t" "(ord b :: nat) < 128" "utf8_valid t"
  | (Two) b c t where "s = b # c # t" "utf8_lead2 b" "utf8_tail c" "utf8_valid t"
  | (Three) b c d t where "s = b # c # d # t" "utf8_lead3 b" "utf8_second3 b c" "utf8_tail d" "utf8_valid t"
  | (Four) b c d e t where "s = b # c # d # e # t" "utf8_lead4 b" "utf8_second4 b c" "utf8_tail d"
      "utf8_tail e" "utf8_valid t"
proof (cases s)
  case (Cons b t)
  consider "(ord b :: nat) < 128" | "utf8_lead2 b" | "utf8_lead3 b" | "utf8_lead4 b"
    using assms Cons by (auto split: if_splits)
  then show ?thesis
  proof cases
    case 1
    then show ?thesis using assms Cons that(2) by simp
  next
    case 2
    then show ?thesis using assms Cons that(3) by (cases t) auto
  next
    case 3
    then show ?thesis using assms Cons that(4) by (auto split: list.splits)
  next
    case 4
    then show ?thesis using assms Cons that(5) by (auto split: list.splits)
  qed
qed (use that in simp)

end
