(* ===== verification/Tts_Split.thy ===== *)
theory Tts_Split
  imports Utf8
begin

text \<open>
  The text side of \<^verbatim>\<open>edge_tts/communicate.py\<close>: cleaning, escaping and cutting the text into the
  chunks that are sent one request each, and the messages built around a chunk.

  A \<^verbatim>\<open>bytes\<close> value is a \<open>string\<close> whose characters are the bytes. A generator is the list of
  what it yields together with the exception that ends it, if any. The main lemma \<open>split_enc\<close>
  is on any text that is an escaped and encoded string: it is cut at white space only, never
  inside a character or an entity.
\<close>

section \<open>Bytes\<close>

datatype text_or_bytes = PyStr string | PyBytes string | PyOther

text \<open>White space as \<^verbatim>\<open>bytes.strip\<close> sees it: the ASCII characters only.\<close>

definition is_bspace :: "char \<Rightarrow> bool" where
  "is_bspace c \<longleftrightarrow> (9 \<le> (ord c :: nat) \<and> (ord c :: nat) \<le> 13) \<or> (ord c :: nat) = 32"

definition bytes_strip :: "string \<Rightarrow> string" where
  "bytes_strip s = rev (dropWhile is_bspace (rev (dropWhile is_bspace s)))"

text \<open>\<^verbatim>\<open>s.rfind(c, 0, hi)\<close>: the index of the last \<open>c\<close> before \<open>hi\<close>, or -1.\<close>

definition rfind_byte :: "char \<Rightarrow> string \<Rightarrow> nat \<Rightarrow> int" where
  "rfind_byte c s hi = int (length (dropWhile (\<lambda>x. x \<noteq> c) (rev (take hi s)))) - 1"

text \<open>\<^verbatim>\<open>s.find(c, lo, hi)\<close>.\<close>

definition find_byte :: "char \<Rightarrow> string \<Rightarrow> nat \<Rightarrow> nat \<Rightarrow> int" where
  "find_byte c s lo hi =
     (let t = take (hi - lo) (drop lo s)
      in if c \<in> set t then int (lo + length (takeWhile (\<lambda>x. x \<noteq> c) t)) else -1)"

section \<open>Cutting the text\<close>

definition find_last_newline_or_space_within_limit :: "string \<Rightarrow> nat \<Rightarrow> int" where
  "find_last_newline_or_space_within_limit text limit =
     (let split_at = rfind_byte nl text limit
      in if split_at < 0 then rfind_byte (CHR '' '') text limit else split_at)"

text \<open>The loop of \<^verbatim>\<open>_find_safe_utf8_split_point\<close>, from the index it has reached.\<close>

fun safe_utf8_from :: "string \<Rightarrow> nat \<Rightarrow> nat" where
  "safe_utf8_from s 0 = 0"
| "safe_utf8_from s (Suc k) = (if utf8_valid (take (Suc k) s) then Suc k else safe_utf8_from s k)"

definition find_safe_utf8_split_point :: "string \<Rightarrow> int" where
  "find_safe_utf8_split_point text_segment = int (safe_utf8_from text_segment (length text_segment))"

abbreviation amp :: char where "amp \<equiv> CHR 0x26"
abbreviation semi :: char where "semi \<equiv> CHR 0x3B"

lemma rfind_less: "rfind_byte c s hi < int hi"
proof -
  have "length (dropWhile (\<lambda>x. x \<noteq> c) (rev (take hi s))) \<le> hi"
    using length_dropWhile_le [of "\<lambda>x. x \<noteq> c" "rev (take hi s)"] by simp
  then show ?thesis by (simp add: rfind_byte_def)
qed

function adjust_split_point_for_xml_entity :: "string \<Rightarrow> int \<Rightarrow> int" where
  "adjust_split_point_for_xml_entity text split_at =
     (if 0 < split_at \<and> amp \<in> set (take (nat split_at) text) then
        (let ampersand_index = rfind_byte amp text (nat split_at)
         in if find_byte semi text (nat ampersand_index) (nat split_at) \<noteq> -1 then split_at
            else adjust_split_point_for_xml_entity text ampersand_index)
      else split_at)"
  by pat_completeness auto
termination
proof (relation "measure (\<lambda>(t, i). nat i)")
  fix t :: string and i a :: int
  assume "0 < i \<and> amp \<in> set (take (nat i) t)" and "a = rfind_byte amp t (nat i)"
  then show "((t, a), t, i) \<in> measure (\<lambda>(t, i). nat i)"
    using rfind_less [of amp t "nat i"] by auto
qed simp

declare adjust_split_point_for_xml_entity.simps [simp del]

text \<open>The loop of the generator, on what is left of the text.\<close>

function split_loop :: "string \<Rightarrow> nat \<Rightarrow> string list \<times> exc option" where
  "split_loop text byte_length =
     (if byte_length < length text then
        (let found = find_last_newline_or_space_within_limit text byte_length;
             safe = (if found < 0 then find_safe_utf8_split_point text else found);
             split_at = adjust_split_point_for_xml_entity text safe
         in if split_at < 0 then ([], Some (ValueError ''Maximum byte length is too small''))
            else (let chunk = bytes_strip (take (nat split_at) text);
                      more = split_loop (drop (if 0 < split_at then nat split_at else 1) text) byte_length
                  in (if chunk \<noteq> [] then chunk # fst more else fst more, snd more)))
      else (let remaining = bytes_strip text
            in (if remaining \<noteq> [] then [remaining] else [], None)))"
  by pat_completeness auto
termination
  by (relation "measure (\<lambda>(t, n). length t)") auto

declare split_loop.simps [simp del]

definition split_text_by_byte_length :: "text_or_bytes \<Rightarrow> int \<Rightarrow> string list \<times> exc option" where
  "split_text_by_byte_length text byte_length =
     (case (case text of PyStr s \<Rightarrow> Inr (utf8 s) | PyBytes b \<Rightarrow> Inr b | PyOther \<Rightarrow> Inl TypeError) of
        Inl e \<Rightarrow> ([], Some e)
      | Inr b \<Rightarrow> if byte_length \<le> 0
                 then ([], Some (ValueError ''byte_length must be greater than 0''))
                 else split_loop b (nat byte_length))"

section \<open>Cleaning and escaping\<close>

definition incompatible :: "char \<Rightarrow> bool" where
  "incompatible c \<longleftrightarrow>
     (let code = ord c :: nat in code \<le> 8 \<or> (11 \<le> code \<and> code \<le> 12) \<or> (14 \<le> code \<and> code \<le> 31))"

definition remove_incompatible_characters :: "text_or_bytes \<Rightarrow> string res" where
  "remove_incompatible_characters t =
     rbind (case t of PyStr s \<Rightarrow> Inr s | PyBytes b \<Rightarrow> utf8_decode b | PyOther \<Rightarrow> Inl TypeError)
       (\<lambda>s. Inr (map (\<lambda>c. if incompatible c then CHR '' '' else c) s))"

text \<open>\<^verbatim>\<open>s.replace(c, new)\<close> for one character, and \<^verbatim>\<open>xml.sax.saxutils.escape\<close>.\<close>

definition replace_char :: "char \<Rightarrow> string \<Rightarrow> string \<Rightarrow> string" where
  "replace_char c new s = concat (map (\<lambda>x. if x = c then new else [x]) s)"

definition xml_escape :: "string \<Rightarrow> string" where
  "xml_escape s =
     replace_char (CHR ''<'') (amp # ''lt;'')
       (replace_char (CHR ''>'') (amp # ''gt;'') (replace_char amp (amp # ''amp;'') s))"

text \<open>\<^verbatim>\<open>self.texts\<close> of a \<^verbatim>\<open>Communicate\<close> object for a text argument.\<close>

definition communicate_texts :: "string \<Rightarrow> string list \<times> exc option" where
  "communicate_texts text =
     (case remove_incompatible_characters (PyStr text) of
        Inl e \<Rightarrow> ([], Some e)
      | Inr clean \<Rightarrow> split_text_by_byte_length (PyStr (xml_escape clean)) 4096)"

section \<open>Search\<close>

lemma rfind_none: "c \<notin> set (take hi s) \<Longrightarrow> rfind_byte c s hi = -1"
proof -
  assume "c \<notin> set (take hi s)"
  then have "dropWhile (\<lambda>x. x \<noteq> c) (rev (take hi s)) = []"
    by (auto simp: dropWhile_eq_Nil_conv)
  then show ?thesis by (simp add: rfind_byte_def)
qed

lemma rfind_some:
  assumes "c \<in> set (take hi s)"
  obtains u v where "take hi s = u @ c # v" and "c \<notin> set v" and "rfind_byte c s hi = int (length u)"
proof -
  obtain u v where d: "take hi s = u @ c # v" "c \<notin> set v"
    using split_list_last [OF assms] by blast
  have "dropWhile (\<lambda>x. x \<noteq> c) (rev v @ c # rev u) = c # rev u"
    using d(2) by (subst dropWhile_append2) auto
  then have "rfind_byte c s hi = int (length u)" using d(1) by (simp add: rfind_byte_def)
  with d show ?thesis by (rule that)
qed

lemma rfind_cases:
  obtains (None) "c \<notin> set (take hi s)" "rfind_byte c s hi = -1"
  | (Some) u v w where "s = u @ c # v @ w" "take hi s = u @ c # v" "c \<notin> set v"
      "rfind_byte c s hi = int (length u)" "length u < hi"
proof (cases "c \<in> set (take hi s)")
  case True
  then obtain u v where d: "take hi s = u @ c # v" "c \<notin> set v" "rfind_byte c s hi = int (length u)"
    by (rule rfind_some)
  have "s = take hi s @ drop hi s" by simp
  then have "s = u @ c # v @ drop hi s" unfolding d(1) by simp
  moreover have "length u < hi"
    using rfind_less [of c s hi] d(3) by simp
  ultimately show ?thesis using d by (intro that(2))
next
  case False
  then show ?thesis using rfind_none by (intro that(1))
qed

lemma find_byte_none_iff: "find_byte c s lo hi = -1 \<longleftrightarrow> c \<notin> set (take (hi - lo) (drop lo s))"
  by (auto simp: find_byte_def Let_def)

text \<open>The preferred split point: none, or a newline or space before the limit.\<close>

lemma find_last_cases:
  obtains (None) "\<forall>c \<in> set (take n s). c \<noteq> nl \<and> c \<noteq> CHR '' ''"
      "find_last_newline_or_space_within_limit s n = -1"
  | (Some) u c v where "s = u @ c # v" "c = nl \<or> c = CHR '' ''" "length u < n"
      "find_last_newline_or_space_within_limit s n = int (length u)"
proof (cases rule: rfind_cases [of nl n s])
  case None
  note outer = this
  show ?thesis
  proof (cases rule: rfind_cases [of "CHR '' ''" n s])
    case None
    then show ?thesis using outer
      by (intro that(1)) (auto simp: find_last_newline_or_space_within_limit_def Let_def)
  next
    case (Some u v w)
    then show ?thesis using outer
      by (intro that(2) [of u "CHR '' ''" "v @ w"])
        (auto simp: find_last_newline_or_space_within_limit_def Let_def)
  qed
next
  case (Some u v w)
  then show ?thesis
    by (intro that(2) [of u nl "v @ w"])
      (auto simp: find_last_newline_or_space_within_limit_def Let_def)
qed

text \<open>Moving the split point: only to the left, and not at all when the last entity is complete.\<close>

lemma adjust_le: "adjust_split_point_for_xml_entity t i \<le> i"
proof (induction t i rule: adjust_split_point_for_xml_entity.induct)
  case (1 t i)
  show ?case
  proof (cases "0 < i \<and> amp \<in> set (take (nat i) t)
      \<and> find_byte semi t (nat (rfind_byte amp t (nat i))) (nat i) = -1")
    case True
    have "rfind_byte amp t (nat i) < i" using rfind_less [of amp t "nat i"] True by auto
    moreover have "adjust_split_point_for_xml_entity t (rfind_byte amp t (nat i)) \<le> rfind_byte amp t (nat i)"
      using 1 True by blast
    ultimately show ?thesis
      using True by (subst adjust_split_point_for_xml_entity.simps) (auto simp: Let_def)
  next
    case False
    then show ?thesis by (subst adjust_split_point_for_xml_entity.simps) (auto simp: Let_def)
  qed
qed

lemma adjust_nonneg: "0 \<le> i \<Longrightarrow> 0 \<le> adjust_split_point_for_xml_entity t i"
proof (induction t i rule: adjust_split_point_for_xml_entity.induct)
  case (1 t i)
  show ?case
  proof (cases "0 < i \<and> amp \<in> set (take (nat i) t)
      \<and> find_byte semi t (nat (rfind_byte amp t (nat i))) (nat i) = -1")
    case True
    then have "0 \<le> rfind_byte amp t (nat i)" by (metis rfind_some of_nat_0_le_iff)
    then have "0 \<le> adjust_split_point_for_xml_entity t (rfind_byte amp t (nat i))"
      using 1(1) True by blast
    then show ?thesis
      using True by (subst adjust_split_point_for_xml_entity.simps) (auto simp: Let_def)
  next
    case False
    then show ?thesis using 1(2)
      by (subst adjust_split_point_for_xml_entity.simps) (auto simp: Let_def)
  qed
qed

lemma find_last_ge: "-1 \<le> find_last_newline_or_space_within_limit s n"
  by (cases rule: find_last_cases [of n s]) auto

lemma adjust_closed:
  assumes "\<forall>x y. take (nat i) t = x @ amp # y \<longrightarrow> semi \<in> set y"
  shows "adjust_split_point_for_xml_entity t i = i"
proof (cases "0 < i \<and> amp \<in> set (take (nat i) t)")
  case True
  then obtain u v where d: "take (nat i) t = u @ amp # v" "rfind_byte amp t (nat i) = int (length u)"
    using rfind_some by blast
  then have "semi \<in> set v" using assms by blast
  moreover have "take (nat i - length u) (drop (length u) t) = amp # v"
    using d(1) by (simp flip: drop_take)
  ultimately have "find_byte semi t (nat (rfind_byte amp t (nat i))) (nat i) \<noteq> -1"
    unfolding find_byte_none_iff using d(2) by simp
  then show ?thesis
    using True by (subst adjust_split_point_for_xml_entity.simps) (simp add: Let_def)
next
  case False
  then show ?thesis by (subst adjust_split_point_for_xml_entity.simps) auto
qed

lemma safe_from_valid: "utf8_valid (take k s) \<Longrightarrow> safe_utf8_from s k = k"
  by (cases k) auto

section \<open>Codes that keep white space\<close>

lemma append_eq_mid: "a @ b = u @ c # v \<Longrightarrow> c \<notin> set a \<Longrightarrow> \<exists>u'. u = a @ u' \<and> b = u' @ c # v"
proof (induction a arbitrary: u)
  case (Cons x a)
  then show ?case by (cases u) auto
qed simp

text \<open>
  A code of characters under which a white space character stands for itself and no other
  character's code has white space in it: cutting the code at white space cuts the text.
\<close>

locale space_code =
  fixes code :: "char \<Rightarrow> string"
  assumes space: "is_bspace c \<Longrightarrow> code c = [c]"
    and solid: "\<not> is_bspace c \<Longrightarrow> x \<in> set (code c) \<Longrightarrow> \<not> is_bspace x"
    and nonempty: "code c \<noteq> []"
begin

lemma cut:
  "concat (map code s) = u @ c # v \<Longrightarrow> is_bspace c
   \<Longrightarrow> \<exists>s1 s2. s = s1 @ c # s2 \<and> u = concat (map code s1) \<and> v = concat (map code s2)"
proof (induction s arbitrary: u)
  case Nil
  then show ?case by simp
next
  case (Cons a s)
  show ?case
  proof (cases "is_bspace a")
    case True
    show ?thesis
    proof (cases u)
      case Nil
      then have "a # s = [] @ c # s \<and> u = concat (map code []) \<and> v = concat (map code s)"
        using Cons.prems True by (simp add: space)
      then show ?thesis by blast
    next
      case (Cons y u')
      then have "concat (map code s) = u' @ c # v" and y: "y = a"
        using Cons.prems(1) True by (auto simp: space)
      then obtain s1 s2 where "s = s1 @ c # s2" "u' = concat (map code s1)" "v = concat (map code s2)"
        using Cons.IH [of u'] Cons.prems(2) by blast
      then show ?thesis using True Cons y by (intro exI [of _ "a # s1"] exI [of _ s2]) (simp add: space)
    qed
  next
    case False
    from Cons.prems(1) have eq: "code a @ concat (map code s) = u @ c # v" by simp
    have "c \<notin> set (code a)" using solid [OF False] Cons.prems(2) by blast
    then obtain u' where u: "u = code a @ u'" "concat (map code s) = u' @ c # v"
      using append_eq_mid [OF eq] by blast
    then obtain s1 s2 where "s = s1 @ c # s2" "u' = concat (map code s1)" "v = concat (map code s2)"
      using Cons.IH [of u'] Cons.prems(2) by blast
    then show ?thesis using u(1) by (intro exI [of _ "a # s1"] exI [of _ s2]) simp
  qed
qed

lemma dropWhile_code:
  "dropWhile is_bspace (concat (map code s)) = concat (map code (dropWhile is_bspace s))"
proof (induction s)
  case (Cons a s)
  show ?case
  proof (cases "is_bspace a")
    case False
    then have "\<not> is_bspace (hd (code a))" using solid nonempty by (metis hd_in_set)
    then show ?thesis using False nonempty by (cases "code a") auto
  qed (simp add: space Cons)
qed simp

end

definition xcode :: "char \<Rightarrow> string" where
  "xcode c = utf8 (xml_escape [c])"

abbreviation xenc :: "string \<Rightarrow> string" where
  "xenc s \<equiv> concat (map xcode s)"

lemma xml_escape_append: "xml_escape (s @ t) = xml_escape s @ xml_escape t"
  by (simp add: xml_escape_def replace_char_def)

lemma xml_escape_Nil [simp]: "xml_escape [] = []"
  by (simp add: xml_escape_def replace_char_def)

lemma utf8_escape: "utf8 (xml_escape s) = xenc s"
proof (induction s)
  case (Cons c s)
  have "xml_escape (c # s) = xml_escape [c] @ xml_escape s"
    using xml_escape_append [of "[c]" s] by simp
  then show ?case using Cons by (simp add: xcode_def utf8_append)
qed simp

lemma xml_escape_char:
  "xml_escape [c] =
     (if c = amp then amp # ''amp;'' else if c = CHR ''>'' then amp # ''gt;''
      else if c = CHR ''<'' then amp # ''lt;'' else [c])"
  by (simp add: xml_escape_def replace_char_def)

lemma xcode_eq:
  "xcode c =
     (if c = amp then amp # ''amp;'' else if c = CHR ''>'' then amp # ''gt;''
      else if c = CHR ''<'' then amp # ''lt;'' else utf8_char c)"
  by (simp add: xcode_def xml_escape_char utf8_def utf8_char_def)

lemma utf8_char_mem: "x \<in> set (utf8_char c) \<Longrightarrow> x = c \<and> (ord c :: nat) < 128 \<or> 128 \<le> (ord x :: nat)"
  using utf8_char_ascii [of x c] by (cases "(ord x :: nat) < 128") auto

lemma xcode_space: "is_bspace c \<Longrightarrow> xcode c = [c]"
  by (auto simp: xcode_eq is_bspace_def utf8_char_def)

lemma xcode_solid: "\<not> is_bspace c \<Longrightarrow> x \<in> set (xcode c) \<Longrightarrow> \<not> is_bspace x"
  by (auto simp: xcode_eq is_bspace_def split: if_splits dest!: utf8_char_mem)

lemma xcode_nonempty: "xcode c \<noteq> []"
  by (auto simp: xcode_eq utf8_char_def)

interpretation enc: space_code xcode
  by unfold_locales (auto simp: xcode_space xcode_solid xcode_nonempty)

interpretation cne: space_code "\<lambda>c. rev (xcode c)"
  by unfold_locales (auto simp: xcode_space xcode_solid xcode_nonempty)

lemma rev_xenc: "rev (xenc s) = concat (map (\<lambda>c. rev (xcode c)) (rev s))"
  by (simp add: rev_concat rev_map comp_def)

lemma strip_xenc: "bytes_strip (xenc s) = xenc (bytes_strip s)"
proof -
  have "rev (dropWhile is_bspace (rev (xenc t))) = xenc (rev (dropWhile is_bspace (rev t)))" for t
    unfolding rev_xenc cne.dropWhile_code by (simp add: rev_concat rev_map comp_def)
  then show ?thesis by (simp add: bytes_strip_def enc.dropWhile_code)
qed

lemma xenc_Nil_iff: "xenc s = [] \<longleftrightarrow> s = []"
  using xcode_nonempty by (cases s) auto

lemma xenc_closed: "xenc s = x @ amp # y \<Longrightarrow> semi \<in> set y"
proof (induction s arbitrary: x)
  case (Cons c s)
  have closed: "xcode c = u @ amp # v \<Longrightarrow> semi \<in> set v" for u v
  proof -
    assume a: "xcode c = u @ amp # v"
    then have "amp \<in> set (xcode c)" by simp
    then have "c = amp \<or> c = CHR ''>'' \<or> c = CHR ''<''"
      by (auto simp: xcode_eq split: if_splits dest!: utf8_char_mem)
    then show ?thesis using a by (auto simp: xcode_eq Cons_eq_append_conv split: if_splits)
  qed
  have eq: "xcode c @ xenc s = x @ amp # y" using Cons.prems by simp
  then obtain w where "xcode c @ w = x \<and> xenc s = w @ amp # y \<or> xcode c = x @ w \<and> w @ xenc s = amp # y"
    by (auto simp: append_eq_append_conv2)
  then show ?case
  proof
    assume "xcode c @ w = x \<and> xenc s = w @ amp # y"
    then show ?thesis using Cons.IH [of w] by simp
  next
    assume a: "xcode c = x @ w \<and> w @ xenc s = amp # y"
    show ?thesis
    proof (cases w)
      case Nil
      then show ?thesis using a Cons.IH [of "[]"] by simp
    next
      case (Cons z w')
      then have "xcode c = x @ amp # w'" and "set w' \<subseteq> set y" using a by auto
      then show ?thesis using closed [of x w'] by blast
    qed
  qed
qed simp

section \<open>What the chunks are\<close>

text \<open>\<open>separated ps s\<close>: the text \<open>s\<close> is the pieces \<open>ps\<close> in order, with only white space around them.\<close>

fun separated :: "string list \<Rightarrow> string \<Rightarrow> bool" where
  "separated [] s \<longleftrightarrow> (\<forall>c \<in> set s. is_bspace c)"
| "separated (p # ps) s \<longleftrightarrow>
     (\<exists>w r. s = w @ p @ r \<and> (\<forall>c \<in> set w. is_bspace c) \<and> separated ps r)"

lemma separated_space: "\<forall>c \<in> set w. is_bspace c \<Longrightarrow> separated ps r \<Longrightarrow> separated ps (w @ r)"
proof (cases ps)
  case (Cons p ps')
  assume w: "\<forall>c \<in> set w. is_bspace c" and "separated ps r"
  then obtain w' r' where "r = w' @ p @ r'" "\<forall>c \<in> set w'. is_bspace c" "separated ps' r'"
    using Cons by auto
  then have "w @ r = (w @ w') @ p @ r' \<and> (\<forall>c \<in> set (w @ w'). is_bspace c) \<and> separated ps' r'"
    using w by auto
  then show ?thesis using Cons by (simp only: separated.simps) blast
qed auto

lemma strip_parts:
  obtains w w' where "s = w @ bytes_strip s @ w'" "\<forall>c \<in> set w. is_bspace c" "\<forall>c \<in> set w'. is_bspace c"
proof -
  let ?l = "dropWhile is_bspace s"
  have "?l = bytes_strip s @ rev (takeWhile is_bspace (rev ?l))"
    unfolding bytes_strip_def by (metis rev_append rev_rev_ident takeWhile_dropWhile_id)
  then have "s = takeWhile is_bspace s @ bytes_strip s @ rev (takeWhile is_bspace (rev ?l))"
    by (metis takeWhile_dropWhile_id)
  then show ?thesis by (rule that) (auto dest: set_takeWhileD)
qed

lemma strip_length: "length (bytes_strip s) \<le> length s"
  unfolding bytes_strip_def by (metis length_dropWhile_le length_rev order.trans)

lemma separated_cut:
  assumes "separated ps r"
  shows "separated (if bytes_strip s = [] then ps else bytes_strip s # ps) (s @ r)"
proof (cases s rule: strip_parts)
  case (1 w w')
  have "separated ps (w' @ r)" using separated_space [OF 1(3) assms] .
  moreover have "s @ r = w @ bytes_strip s @ (w' @ r)" using 1(1) by (metis append_assoc)
  ultimately have "separated (bytes_strip s # ps) (s @ r)"
    using 1(2) unfolding separated.simps by blast
  moreover have "separated ps (s @ r)" if "bytes_strip s = []"
    using that 1 separated_space [OF 1(2), of ps "w' @ r"] \<open>separated ps (w' @ r)\<close> by simp
  ultimately show ?thesis by simp
qed

lemma bytes_strip_Nil [simp]: "bytes_strip [] = []"
  by (simp add: bytes_strip_def)

text \<open>One round of the loop, when the split point is known.\<close>

lemma split_loop_short:
  "length t \<le> n \<Longrightarrow> split_loop t n = (if bytes_strip t \<noteq> [] then [bytes_strip t] else [], None)"
  by (subst split_loop.simps) (simp add: Let_def)

lemma split_loop_round:
  assumes "n < length t"
    and "adjust_split_point_for_xml_entity t
      (if find_last_newline_or_space_within_limit t n < 0 then find_safe_utf8_split_point t
       else find_last_newline_or_space_within_limit t n) = int k"
  shows "split_loop t n =
     (let more = split_loop (drop (if 0 < k then k else 1) t) n
      in (if bytes_strip (take k t) \<noteq> [] then bytes_strip (take k t) # fst more else fst more, snd more))"
  using assms by (subst split_loop.simps) (simp add: Let_def)

lemma split_loop_all:
  assumes "n < length t" and "find_last_newline_or_space_within_limit t n = -1"
    and "adjust_split_point_for_xml_entity t (find_safe_utf8_split_point t) = int (length t)"
  shows "split_loop t n = (if bytes_strip t \<noteq> [] then [bytes_strip t] else [], None)"
  using split_loop_round [of n t "length t"] split_loop_short [of "[]" n] assms
  by (auto simp: Let_def)

lemma split_loop_cut:
  assumes "n < length (u @ v)"
    and "find_last_newline_or_space_within_limit (u @ v) n = int (length u)"
    and "adjust_split_point_for_xml_entity (u @ v) (int (length u)) = int (length u)"
  shows "split_loop (u @ v) n =
     (let more = split_loop (if u = [] then drop 1 v else v) n
      in (if bytes_strip u \<noteq> [] then bytes_strip u # fst more else fst more, snd more))"
  using split_loop_round [of n "u @ v" "length u"] assms by (cases u) (auto simp: Let_def)

definition good_pieces :: "string \<Rightarrow> nat \<Rightarrow> string list \<Rightarrow> bool" where
  "good_pieces s n ps \<longleftrightarrow>
     separated ps s \<and> [] \<notin> set ps \<and> (\<forall>p \<in> set (butlast ps). length (xenc p) \<le> n)"

lemma good_pieces_cut:
  assumes "good_pieces r n ps" and "length (xenc s) \<le> n"
  shows "good_pieces (s @ r) n (if bytes_strip s = [] then ps else bytes_strip s # ps)"
proof -
  have "length (xenc (bytes_strip s)) \<le> n"
    using strip_length [of "xenc s"] assms(2) by (simp add: strip_xenc)
  then show ?thesis
    using assms separated_cut [of ps r s] by (auto simp: good_pieces_def split: if_splits)
qed

text \<open>Without a preferred split point, what is left of an encoded text is one chunk.\<close>

lemma split_loop_unbroken:
  assumes "find_last_newline_or_space_within_limit (xenc s) n = -1"
  shows "split_loop (xenc s) n = (if bytes_strip (xenc s) \<noteq> [] then [bytes_strip (xenc s)] else [], None)"
proof (cases "n < length (xenc s)")
  case True
  have "safe_utf8_from (xenc s) (length (xenc s)) = length (xenc s)"
    by (rule safe_from_valid) (simp add: utf8_valid_utf8 flip: utf8_escape)
  then have safe: "find_safe_utf8_split_point (xenc s) = int (length (xenc s))"
    by (simp add: find_safe_utf8_split_point_def)
  have "adjust_split_point_for_xml_entity (xenc s) (int (length (xenc s))) = int (length (xenc s))"
    by (rule adjust_closed) (auto dest: xenc_closed)
  then show ?thesis
    by (intro split_loop_all [OF True assms]) (simp only: safe)
qed (simp only: split_loop_short)

theorem split_enc:
  assumes "0 < n"
  shows "\<exists>ps. split_loop (xenc s) n = (map xenc ps, None) \<and> good_pieces s n ps"
proof (induction "length s" arbitrary: s rule: less_induct)
  case less
  note closed = adjust_closed [of _ "xenc s"]
  show ?case
  proof (cases "length (xenc s) \<le> n")
    case True
    let ?ps = "if bytes_strip s = [] then [] else [bytes_strip s]"
    have "good_pieces s n ?ps"
      using good_pieces_cut [of "[]" n "[]" s] True by (simp add: good_pieces_def)
    moreover have "split_loop (xenc s) n = (map xenc ?ps, None)"
      using split_loop_short [OF True] by (simp add: strip_xenc xcode_nonempty)
    ultimately show ?thesis by blast
  next
    case False
    then have long: "n < length (xenc s)" by simp
    show ?thesis
    proof (cases rule: find_last_cases [of n "xenc s"])
      case None
      have "split_loop (xenc s) n = (if bytes_strip (xenc s) \<noteq> [] then [bytes_strip (xenc s)] else [], None)"
        using split_loop_unbroken None(2) .
      then have "split_loop (xenc s) n = (map xenc (if bytes_strip s = [] then [] else [bytes_strip s]), None)"
        by (simp add: split_loop_short strip_xenc xcode_nonempty)
      moreover have "good_pieces s n (if bytes_strip s = [] then [] else [bytes_strip s])"
        using separated_cut [of "[]" "[]" s] by (simp add: good_pieces_def)
      ultimately show ?thesis by blast
    next
      case (Some u c v)
      have sp: "is_bspace c" using Some(2) by (auto simp: is_bspace_def)
      obtain s1 s2 where s: "s = s1 @ c # s2" "u = xenc s1" "v = xenc s2"
        using enc.cut [OF Some(1) sp] by blast
      have "adjust_split_point_for_xml_entity (xenc s) (int (length u)) = int (length u)"
        by (rule closed) (use Some(1) s(2) in \<open>auto dest: xenc_closed\<close>)
      then have "split_loop (xenc s) n =
          (let more = split_loop (if u = [] then drop 1 (c # v) else c # v) n
           in (if bytes_strip u \<noteq> [] then bytes_strip u # fst more else fst more, snd more))"
        using split_loop_cut [of n u "c # v"] long Some(4) unfolding Some(1) by blast
      moreover define r where "r = (if s1 = [] then s2 else c # s2)"
      moreover have "(if u = [] then drop 1 (c # v) else c # v) = xenc r"
        using s by (auto simp: r_def xcode_nonempty xcode_space [OF sp])
      ultimately have round: "split_loop (xenc s) n =
          (let more = split_loop (xenc r) n
           in (if bytes_strip s1 \<noteq> [] then xenc (bytes_strip s1) # fst more else fst more, snd more))"
        by (simp add: s(2) strip_xenc xcode_nonempty Let_def)
      have "length r < length s" by (auto simp: r_def s(1))
      then obtain ps where ps: "split_loop (xenc r) n = (map xenc ps, None)" "good_pieces r n ps"
        using less by blast
      have "good_pieces (c # s2) n ps"
        using ps(2) sp separated_space [of "[c]" ps s2] by (auto simp: r_def good_pieces_def split: if_splits)
      then have "good_pieces s n (if bytes_strip s1 = [] then ps else bytes_strip s1 # ps)"
        using good_pieces_cut [of "c # s2" n ps s1] Some(3) s by simp
      moreover have "split_loop (xenc s) n =
          (map xenc (if bytes_strip s1 = [] then ps else bytes_strip s1 # ps), None)"
        using round ps(1) by (simp add: Let_def)
      ultimately show ?thesis by blast
    qed
  qed
qed

section \<open>The size of the chunks\<close>

text \<open>Every \<open>n\<close> successive bytes of the text have a newline or a space among them.\<close>

definition breaks_within :: "nat \<Rightarrow> string \<Rightarrow> bool" where
  "breaks_within n t \<longleftrightarrow>
     (\<forall>i \<in> set [0..<Suc (length t) - n]. \<exists>c \<in> set (take n (drop i t)). c = nl \<or> c = CHR '' '')"

lemma breaks_within_drop: "breaks_within n t \<Longrightarrow> breaks_within n (drop k t)"
  unfolding breaks_within_def
proof
  fix i
  assume a: "\<forall>i \<in> set [0..<Suc (length t) - n]. \<exists>c \<in> set (take n (drop i t)). c = nl \<or> c = CHR '' ''"
    and i: "i \<in> set [0..<Suc (length (drop k t)) - n]"
  show "\<exists>c \<in> set (take n (drop i (drop k t))). c = nl \<or> c = CHR '' ''"
  proof (cases "k \<le> length t")
    case True
    then have "i + k \<in> set [0..<Suc (length t) - n]" using i by auto
    with a have "\<exists>c \<in> set (take n (drop (i + k) t)). c = nl \<or> c = CHR '' ''" by blast
    then show ?thesis by simp
  next
    case False
    then have "n = 0" using i by auto
    moreover have "0 \<in> set [0..<Suc (length t) - n]" using \<open>n = 0\<close> by simp
    ultimately show ?thesis using a by fastforce
  qed
qed

lemma split_loop_bound:
  "breaks_within n t \<Longrightarrow> c \<in> set (fst (split_loop t n)) \<Longrightarrow> length c \<le> n"
proof (induction "length t" arbitrary: t rule: less_induct)
  case less
  show ?case
  proof (cases "length t \<le> n")
    case True
    then show ?thesis using less.prems(2) strip_length [of t]
      by (auto simp: split_loop_short split: if_splits)
  next
    case False
    then have long: "n < length t" by simp
    then have "0 \<in> set [0..<Suc (length t) - n]" by simp
    then have "\<exists>c \<in> set (take n (drop 0 t)). c = nl \<or> c = CHR '' ''"
      using less.prems(1) unfolding breaks_within_def by blast
    then obtain u where
      u: "find_last_newline_or_space_within_limit t n = int u" "u < n"
      by (cases rule: find_last_cases [of n t]) auto
    obtain k where
      k: "adjust_split_point_for_xml_entity t (int u) = int k" "k \<le> u"
      using adjust_nonneg [of "int u" t] adjust_le [of t "int u"]
      by (metis nonneg_int_cases of_nat_0_le_iff of_nat_le_iff)
    let ?r = "drop (if 0 < k then k else 1) t"
    have "c \<in> set (fst (split_loop ?r n)) \<or> c = bytes_strip (take k t)"
      using less.prems(2) split_loop_round [OF long, of k] u k by (auto simp: Let_def split: if_splits)
    moreover have "length ?r < length t" using long by (cases t) auto
    then have "length c \<le> n" if "c \<in> set (fst (split_loop ?r n))"
      using less.hyps [of ?r] less.prems(1) breaks_within_drop that by blast
    moreover have "length (bytes_strip (take k t)) \<le> n"
      using strip_length [of "take k t"] k(2) u(2) by (auto simp: min_def split: if_splits)
    ultimately show ?thesis by blast
  qed
qed

text \<open>The guard inside the loop never fires: the only errors are those on the arguments.\<close>

lemma split_loop_no_error: "snd (split_loop t n) = None"
proof (induction t n rule: split_loop.induct)
  case (1 t n)
  let ?f = "find_last_newline_or_space_within_limit t n"
  let ?a = "adjust_split_point_for_xml_entity t (if ?f < 0 then find_safe_utf8_split_point t else ?f)"
  show ?case
  proof (cases "n < length t")
    case True
    have nn: "\<not> ?a < 0"
      using adjust_nonneg [of "if ?f < 0 then find_safe_utf8_split_point t else ?f" t]
      by (auto simp: find_safe_utf8_split_point_def)
    have "snd (split_loop (drop (if 0 < ?a then nat ?a else 1) t) n) = None"
      using 1 [OF True refl refl refl nn refl] .
    then show ?thesis using True nn by (subst split_loop.simps) (simp add: Let_def)
  next
    case False
    then show ?thesis by (simp add: split_loop_short)
  qed
qed

section \<open>The request\<close>

record tts_config =
  tc_voice :: string
  tc_rate :: string
  tc_volume :: string
  tc_pitch :: string
  tc_boundary :: string

definition mkssml :: "tts_config \<Rightarrow> text_or_bytes \<Rightarrow> string res" where
  "mkssml tc escaped =
     rbind (case escaped of PyStr s \<Rightarrow> Inr s | PyBytes b \<Rightarrow> utf8_decode b | PyOther \<Rightarrow> Inl TypeError)
       (\<lambda>s. Inr (''<speak version='' @ [CHR 0x27] @ ''1.0'' @ [CHR 0x27] @ '' xmlns='' @ [CHR 0x27]
          @ ''http://www.w3.org/2001/10/synthesis'' @ [CHR 0x27] @ '' xml:lang='' @ [CHR 0x27]
          @ ''en-US'' @ [CHR 0x27] @ ''>''
          @ ''<voice name='' @ [CHR 0x27] @ tc_voice tc @ [CHR 0x27] @ ''>''
          @ ''<prosody pitch='' @ [CHR 0x27] @ tc_pitch tc @ [CHR 0x27] @ '' rate='' @ [CHR 0x27]
          @ tc_rate tc @ [CHR 0x27] @ '' volume='' @ [CHR 0x27] @ tc_volume tc @ [CHR 0x27] @ ''>''
          @ s @ ''</prosody>'' @ ''</voice>'' @ ''</speak>''))"

abbreviation crlf :: string where
  "crlf \<equiv> [CHR 0x0D, CHR 0x0A]"

definition ssml_headers_plus_data :: "string \<Rightarrow> string \<Rightarrow> string \<Rightarrow> string" where
  "ssml_headers_plus_data request_id timestamp ssml =
     ''X-RequestId:'' @ request_id @ crlf
     @ ''Content-Type:application/ssml+xml'' @ crlf
     @ ''X-Timestamp:'' @ timestamp @ ''Z'' @ crlf
     @ ''Path:ssml'' @ crlf @ crlf @ ssml"

text \<open>
  The texts of a \<^verbatim>\<open>Communicate\<close> object, end to end: whatever text it is given, the generator
  ends without an error.
\<close>

definition cleaned :: "string \<Rightarrow> string" where
  "cleaned s = map (\<lambda>c. if incompatible c then CHR '' '' else c) s"

lemma communicate_texts_eq: "communicate_texts s = split_loop (xenc (cleaned s)) 4096"
  by (simp add: communicate_texts_def remove_incompatible_characters_def cleaned_def
      split_text_by_byte_length_def utf8_escape)

text \<open>
  C32: The texts that a Communicate object sends are, for every input text, the escaped and
  encoded forms of pieces that follow each other in the cleaned text with only white space
  left out between them: no character and no entity is cut, no word is lost or repeated, no
  empty request is made, the generator never raises, and every chunk but the last has at most
  4096 bytes.
\<close>

theorem communicate_texts_cover:
  "\<exists>pieces. communicate_texts s = (map (\<lambda>p. utf8 (xml_escape p)) pieces, None)
     \<and> separated pieces (cleaned s) \<and> [] \<notin> set pieces
     \<and> (\<forall>p \<in> set (butlast pieces). length (utf8 (xml_escape p)) \<le> 4096)"
  using split_enc [of 4096 "cleaned s"]
  by (simp add: communicate_texts_eq good_pieces_def utf8_escape)

lemma communicate_texts_cover_witness:
  "\<exists>pieces. communicate_texts ''to be'' = (map (\<lambda>p. utf8 (xml_escape p)) pieces, None)
     \<and> separated pieces (cleaned ''to be'')"
  using communicate_texts_cover [of "''to be''"] by blast

text \<open>
  On any bytes and for any positive limit, every chunk that the generator yields keeps the
  limit, provided a newline or a space occurs among every byte_length successive bytes.
\<close>

theorem chunks_within_limit:
  assumes "0 < byte_length" and "breaks_within (nat byte_length) b"
  shows "\<forall>chunk \<in> set (fst (split_text_by_byte_length (PyBytes b) byte_length)).
    int (length chunk) \<le> byte_length"
proof
  fix chunk
  assume "chunk \<in> set (fst (split_text_by_byte_length (PyBytes b) byte_length))"
  then have "length chunk \<le> nat byte_length"
    using split_loop_bound [OF assms(2)] assms(1) by (simp add: split_text_by_byte_length_def)
  then show "int (length chunk) \<le> byte_length" using assms(1) by simp
qed

lemma chunks_within_limit_witness:
  "list_all (\<lambda>chunk. int (length chunk) \<le> 4) (fst (split_text_by_byte_length (PyBytes ''ab cd ef'') 4))"
  using chunks_within_limit [of 4 "''ab cd ef''"] by (simp add: breaks_within_def upt_rec list_all_iff)

text \<open>
  Without a newline or space near, the limit does not hold: the search for a safe split point
  is given the whole text and not its first \<open>byte_length\<close> bytes, so that a long word is
  yielded whole.
\<close>

theorem long_word_yielded_whole:
  assumes "0 < n" and "\<forall>c \<in> set w. \<not> is_bspace c" and "w \<noteq> []"
  shows "split_text_by_byte_length (PyStr (xml_escape w)) n = ([utf8 (xml_escape w)], None)"
proof -
  have solid: "\<forall>c \<in> set (xenc w). \<not> is_bspace c" using assms(2) xcode_solid by auto
  then have "find_last_newline_or_space_within_limit (xenc w) (nat n) = -1"
    by (cases rule: find_last_cases [of "nat n" "xenc w"]) (auto simp: is_bspace_def)
  moreover have "bytes_strip w = w"
  proof -
    have "dropWhile is_bspace w = w" "dropWhile is_bspace (rev w) = rev w"
      using assms(2) by (auto simp: dropWhile_eq_self_iff hd_rev)
    then show ?thesis by (simp add: bytes_strip_def)
  qed
  ultimately show ?thesis
    using split_loop_unbroken [of w "nat n"] assms
    by (simp add: split_text_by_byte_length_def utf8_escape strip_xenc xcode_nonempty)
qed

end
