(* ===== verification/Srt.thy ===== *)
theory Srt
  imports Tts_Split "HOL-Library.Product_Lexorder" "HOL-Library.Option_ord" "HOL-Library.Multiset"
begin

text \<open>
  The subtitles of \<^verbatim>\<open>edge_tts\<close>: \<^verbatim>\<open>srt_composer.py\<close> and \<^verbatim>\<open>submaker.py\<close>. A \<^verbatim>\<open>timedelta\<close> is its
  length in microseconds. Subtitle objects live in a heap (a list of records, a reference being
  a position), because \<^verbatim>\<open>sort_and_reindex\<close> writes the index of the caller's own objects or of
  copies, depending on \<^verbatim>\<open>in_place\<close>. The generator is the list of what it yields, each object with
  its value at that moment, since \<^verbatim>\<open>compose\<close> prints an object before it asks for the next one.
\<close>

section \<open>Subtitles\<close>

record subtitle =
  sub_index :: "int option"
  sub_start :: int
  sub_end :: int
  sub_content :: string

type_synonym sub_heap = "subtitle list"

text \<open>
  \<^verbatim>\<open>Subtitle.__lt__\<close> compares tuples: the first components that differ decide, and comparing
  \<^verbatim>\<open>None\<close> with a number raises.
\<close>

definition sub_lt :: "subtitle \<Rightarrow> subtitle \<Rightarrow> bool res" where
  "sub_lt a b =
     (if sub_start a \<noteq> sub_start b then Inr (sub_start a < sub_start b)
      else if sub_end a \<noteq> sub_end b then Inr (sub_end a < sub_end b)
      else (case (sub_index a, sub_index b) of
              (None, None) \<Rightarrow> Inr False
            | (Some i, Some j) \<Rightarrow> Inr (i < j)
            | _ \<Rightarrow> Inl TypeError))"

definition sub_key :: "subtitle \<Rightarrow> int \<times> int \<times> int option" where
  "sub_key s = (sub_start s, sub_end s, sub_index s)"

text \<open>
  \<^verbatim>\<open>sorted(subtitles)\<close>, a stable sort by \<^verbatim>\<open>__lt__\<close>. Two subtitles with the same times, one of them
  without an index, make it raise wherever they stand: a comparison sort has to compare
  neighbours of its result.
\<close>

definition sub_sorted :: "sub_heap \<Rightarrow> nat list \<Rightarrow> nat list res" where
  "sub_sorted h refs =
     (if list_ex (\<lambda>a. list_ex (\<lambda>b. \<not> is_ok (sub_lt (h ! a) (h ! b))) refs) refs
      then Inl TypeError
      else Inr (sort_key (\<lambda>r. sub_key (h ! r)) refs))"

text \<open>\<^verbatim>\<open>SUBTITLE_SKIP_CONDITIONS\<close> and \<^verbatim>\<open>_should_skip_sub\<close>: the first condition that holds.\<close>

definition skip_conditions :: "(string \<times> (subtitle \<Rightarrow> bool)) list" where
  "skip_conditions =
     [(''No content'', \<lambda>sub. str_strip (sub_content sub) = []),
      (''Start time < 0 seconds'', \<lambda>sub. sub_start sub < 0),
      (''Subtitle start time >= end time'', \<lambda>sub. sub_end sub \<le> sub_start sub)]"

definition should_skip_sub :: "subtitle \<Rightarrow> string option" where
  "should_skip_sub sub = map_option fst (find (\<lambda>(msg, skipper). skipper sub) skip_conditions)"

fun reindex_loop ::
    "bool \<Rightarrow> bool \<Rightarrow> sub_heap \<Rightarrow> int \<Rightarrow> int \<Rightarrow> nat list \<Rightarrow> sub_heap \<times> (nat \<times> subtitle) list" where
  "reindex_loop in_place skip h sub_num skipped [] = (h, [])"
| "reindex_loop in_place skip h sub_num skipped (r # rs) =
     (let h1 = (if in_place then h else h @ [h ! r]);
          s = (if in_place then r else length h)
      in if skip \<and> should_skip_sub (h1 ! s) \<noteq> None
         then reindex_loop in_place skip h1 (sub_num + 1) (skipped + 1) rs
         else (let sub = (h1 ! s)\<lparr>sub_index := Some (sub_num - skipped)\<rparr>;
                   more = reindex_loop in_place skip (h1[s := sub]) (sub_num + 1) skipped rs
               in (fst more, (s, sub) # snd more)))"

definition sort_and_reindex ::
    "sub_heap \<Rightarrow> nat list \<Rightarrow> int \<Rightarrow> bool \<Rightarrow> bool \<Rightarrow> (sub_heap \<times> (nat \<times> subtitle) list) res" where
  "sort_and_reindex h refs start_index in_place skip =
     rbind (sub_sorted h refs) (\<lambda>rs. Inr (reindex_loop in_place skip h start_index 0 rs))"

section \<open>Printing\<close>

text \<open>\<^verbatim>\<open>MULTI_WS_REGEX.sub\<close>: every run of two or more newlines becomes one.\<close>

fun sub_multi_ws :: "string \<Rightarrow> string" where
  "sub_multi_ws [] = []"
| "sub_multi_ws [c] = [c]"
| "sub_multi_ws (c # d # s) =
     (if c = nl \<and> d = nl then sub_multi_ws (d # s) else c # sub_multi_ws (d # s))"

definition strip_nl :: "string \<Rightarrow> string" where
  "strip_nl s = rev (dropWhile (\<lambda>c. c = nl) (rev (dropWhile (\<lambda>c. c = nl) s)))"

definition make_legal_content :: "string \<Rightarrow> string" where
  "make_legal_content content =
     (if content \<noteq> [] \<and> content ! 0 \<noteq> nl \<and> \<not> str_contains [nl, nl] content then content
      else sub_multi_ws (strip_nl content))"

text \<open>\<^verbatim>\<open>{i:0w}\<close> for an integer: the sign counts for the width.\<close>

definition pad0_int :: "nat \<Rightarrow> int \<Rightarrow> string" where
  "pad0_int w i = (if i < 0 then CHR ''-'' # pad0 (w - 1) (nat (- i)) else pad0 w (nat i))"

abbreviation td_days :: "int \<Rightarrow> int" where "td_days t \<equiv> t div 86400000000"
abbreviation td_seconds :: "int \<Rightarrow> int" where "td_seconds t \<equiv> t mod 86400000000 div 1000000"
abbreviation td_microseconds :: "int \<Rightarrow> int" where "td_microseconds t \<equiv> t mod 1000000"

definition timedelta_to_srt_timestamp :: "int \<Rightarrow> string" where
  "timedelta_to_srt_timestamp t =
     (let hrs = td_seconds t div 3600 + td_days t * 24;
          secs_remainder = td_seconds t mod 3600;
          mins = secs_remainder div 60;
          secs = secs_remainder mod 60;
          msecs = td_microseconds t div 1000
      in pad0_int 2 hrs @ '':'' @ pad0_int 2 mins @ '':'' @ pad0_int 2 secs @ '','' @ pad0_int 3 msecs)"

definition to_srt :: "string option \<Rightarrow> subtitle \<Rightarrow> string" where
  "to_srt eol sub =
     (let legal = make_legal_content (sub_content sub);
          e = (case eol of None \<Rightarrow> [nl] | Some e \<Rightarrow> e);
          output = (case eol of None \<Rightarrow> legal | Some e \<Rightarrow> if e \<noteq> [nl] then replace_char nl e legal else legal);
          idx = (case sub_index sub of None \<Rightarrow> 0 | Some i \<Rightarrow> i)
      in int_str idx @ e @ timedelta_to_srt_timestamp (sub_start sub) @ '' --> ''
         @ timedelta_to_srt_timestamp (sub_end sub) @ e @ output @ e @ e)"

definition compose :: "sub_heap \<Rightarrow> nat list \<Rightarrow> bool \<Rightarrow> int \<Rightarrow> string option \<Rightarrow> bool \<Rightarrow> string res" where
  "compose h refs reindex start_index eol in_place =
     (if reindex then
        rbind (sort_and_reindex h refs start_index in_place True)
          (\<lambda>(h', ys). Inr (concat (map (\<lambda>y. to_srt eol (snd y)) ys)))
      else Inr (concat (map (\<lambda>r. to_srt eol (h ! r)) refs)))"

section \<open>Collecting the boundaries\<close>

text \<open>
  \<^verbatim>\<open>TTSChunk\<close>: audio bytes, or a boundary of the given type with its offset in ticks of 100
  nanoseconds, its duration and its text. The duration is what the service sent, which need
  not be a number; \<open>py_num\<close> reads it as Python's \<^verbatim>\<open>+\<close> does, where \<^verbatim>\<open>True\<close> counts as one.
\<close>

datatype tts_chunk =
    Audio string
  | Boundary string int json string

fun py_num :: "json \<Rightarrow> int res" where
  "py_num (JInt i) = Inr i"
| "py_num (JBool b) = Inr (if b then 1 else 0)"
| "py_num _ = Inl TypeError"

fun chunk_type :: "tts_chunk \<Rightarrow> string" where
  "chunk_type (Audio d) = ''audio''"
| "chunk_type (Boundary ty off dur txt) = ty"

text \<open>
  \<^verbatim>\<open>timedelta(microseconds=n / 10)\<close>: the nearest microsecond, the even one of two. The division
  is one of floats, whose tenths are told apart correctly below 2^49 ticks, that is for audio
  of less than a year.
\<close>

definition ticks_to_us :: "int \<Rightarrow> int" where
  "ticks_to_us n =
     (let q = n div 10; r = n mod 10
      in if r < 5 \<or> (r = 5 \<and> even q) then q else q + 1)"

record sub_maker =
  sm_cues :: sub_heap
  sm_type :: "string option"

definition sub_maker_init :: sub_maker where
  "sub_maker_init = \<lparr>sm_cues = [], sm_type = None\<rparr>"

definition feed :: "sub_maker \<Rightarrow> tts_chunk \<Rightarrow> exc option \<times> sub_maker" where
  "feed m msg =
     (case msg of
        Audio d \<Rightarrow> (Some (ValueError ''Invalid message type''), m)
      | Boundary ty off dur txt \<Rightarrow>
          if ty \<noteq> ''WordBoundary'' \<and> ty \<noteq> ''SentenceBoundary''
          then (Some (ValueError ''Invalid message type''), m)
          else if sm_type m \<noteq> None \<and> sm_type m \<noteq> Some ty
          then (Some (ValueError ''Expected message type''), m)
          else (let m1 = m\<lparr>sm_type := Some ty\<rparr>
                in case py_num dur of
                     Inl e \<Rightarrow> (Some e, m1)
                   | Inr d \<Rightarrow>
                       (None, m1\<lparr>sm_cues := sm_cues m @
                          [\<lparr>sub_index = Some (int (length (sm_cues m)) + 1),
                            sub_start = ticks_to_us off, sub_end = ticks_to_us (off + d),
                            sub_content = txt\<rparr>]\<rparr>)))"

definition get_srt :: "sub_maker \<Rightarrow> string res" where
  "get_srt m = compose (sm_cues m) [0..<length (sm_cues m)] True 1 None False"

section \<open>Sorting and numbering\<close>

lemma sub_lt_key: "is_ok (sub_lt a b) \<Longrightarrow> sub_lt a b = Inr (sub_key a < sub_key b)"
  by (auto simp: sub_lt_def sub_key_def less_prod_def split: option.splits if_splits)

text \<open>The values yielded: the kept subtitles in sorted order, numbered from the start index.\<close>

fun renumber :: "int \<Rightarrow> subtitle list \<Rightarrow> subtitle list" where
  "renumber n [] = []"
| "renumber n (s # ss) = s\<lparr>sub_index := Some n\<rparr> # renumber (n + 1) ss"

definition kept :: "bool \<Rightarrow> subtitle \<Rightarrow> bool" where
  "kept skip s \<longleftrightarrow> \<not> (skip \<and> should_skip_sub s \<noteq> None)"

definition timed_text :: "subtitle \<Rightarrow> int \<times> int \<times> string" where
  "timed_text s = (sub_start s, sub_end s, sub_content s)"

lemma kept_iff:
  "kept skip s \<longleftrightarrow>
     \<not> skip \<or> ((\<exists>c \<in> set (sub_content s). \<not> is_space c) \<and> 0 \<le> sub_start s \<and> sub_start s < sub_end s)"
  by (auto simp: kept_def should_skip_sub_def skip_conditions_def strip_Nil_iff find_None_iff)

lemma renumber_length [simp]: "length (renumber n ss) = length ss"
  by (induction ss arbitrary: n) auto

lemma renumber_index: "map sub_index (renumber n ss) = map (\<lambda>i. Some (n + int i)) [0..<length ss]"
proof (induction ss arbitrary: n)
  case (Cons s ss)
  have "map (\<lambda>i. Some (n + int i)) [0..<Suc (length ss)]
      = Some n # map (\<lambda>i. Some (n + 1 + int i)) [0..<length ss]"
    by (simp add: upt_conv_Cons map_Suc_upt [symmetric] comp_def add_ac del: upt_Suc)
  then show ?case using Cons by simp
qed simp

lemma renumber_map:
  assumes "\<And>s i. f (s\<lparr>sub_index := i\<rparr>) = f s"
  shows "map f (renumber n ss) = map f ss"
  by (induction ss arbitrary: n) (auto simp: assms)

lemma skip_no_index: "should_skip_sub (s\<lparr>sub_index := i\<rparr>) = should_skip_sub s"
  by (simp add: should_skip_sub_def skip_conditions_def)

lemma reindex_loop_values:
  "\<forall>r \<in> set refs. r < length h \<Longrightarrow> in_place \<longrightarrow> distinct refs \<Longrightarrow>
   map snd (snd (reindex_loop in_place skip h num skipped refs))
   = renumber (num - skipped) (filter (kept skip) (map ((!) h) refs))"
proof (induction refs arbitrary: h num skipped)
  case (Cons r rs)
  let ?h1 = "if in_place then h else h @ [h ! r]" and ?s = "if in_place then r else length h"
  have here: "?h1 ! ?s = h ! r" by simp
  have later: "(?h1[?s := x]) ! q = h ! q" "?h1 ! q = h ! q" if "q \<in> set rs" for q x
    using that Cons.prems by (auto simp: nth_append nth_list_update)
  have len: "q < length (?h1[?s := x])" "q < length ?h1" if "q \<in> set rs" for q x
    using that Cons.prems by auto
  have IH: "map snd (snd (reindex_loop in_place skip g n k rs))
      = renumber (n - k) (filter (kept skip) (map ((!) h) rs))"
    if "g = ?h1 \<or> g = ?h1[?s := x]" for g n k x
  proof -
    have eq: "map ((!) g) rs = map ((!) h) rs" using that later by (intro map_cong) blast+
    have "\<forall>q \<in> set rs. q < length g" using that len by blast
    then show ?thesis using Cons.IH [of g n k] Cons.prems(2) unfolding eq by simp
  qed
  show ?case
  proof (cases "kept skip (h ! r)")
    case True
    then have "\<not> (skip \<and> should_skip_sub (?h1 ! ?s) \<noteq> None)" unfolding here kept_def .
    then have "snd (reindex_loop in_place skip h num skipped (r # rs)) =
        (?s, (h ! r)\<lparr>sub_index := Some (num - skipped)\<rparr>)
          # snd (reindex_loop in_place skip
              (?h1[?s := (h ! r)\<lparr>sub_index := Some (num - skipped)\<rparr>]) (num + 1) skipped rs)"
      unfolding reindex_loop.simps Let_def here by (cases skip) auto
    then show ?thesis using True IH [OF disjI2 [OF refl]] by (simp add: algebra_simps)
  next
    case False
    then have "skip \<and> should_skip_sub (?h1 ! ?s) \<noteq> None" unfolding here kept_def by simp
    then have "snd (reindex_loop in_place skip h num skipped (r # rs)) =
        snd (reindex_loop in_place skip ?h1 (num + 1) (skipped + 1) rs)"
      unfolding reindex_loop.simps Let_def by (cases skip) auto
    then show ?thesis using False IH [OF disjI1 [OF refl]] by simp
  qed
qed simp

lemma reindex_loop_copies:
  "\<exists>cs. fst (reindex_loop False skip h num skipped refs) = h @ cs"
proof (induction refs arbitrary: h num skipped)
  case (Cons r rs)
  obtain c1 where c1: "fst (reindex_loop False skip (h @ [h ! r]) (num + 1) (skipped + 1) rs) = (h @ [h ! r]) @ c1"
    using Cons by blast
  obtain c2 where c2: "fst (reindex_loop False skip
      ((h @ [h ! r])[length h := (h ! r)\<lparr>sub_index := Some (num - skipped)\<rparr>]) (num + 1) skipped rs)
      = ((h @ [h ! r])[length h := (h ! r)\<lparr>sub_index := Some (num - skipped)\<rparr>]) @ c2"
    using Cons by blast
  show ?case using c1 c2 by (cases skip) (auto simp: Let_def)
qed simp

lemma reindex_loop_in_place:
  "\<forall>r \<in> set refs. r < length h \<Longrightarrow>
   map timed_text (fst (reindex_loop True skip h num skipped refs)) = map timed_text h"
proof (induction refs arbitrary: h num skipped)
  case (Cons r rs)
  have "map timed_text (h[r := (h ! r)\<lparr>sub_index := i\<rparr>]) = map timed_text h" for i
    using Cons.prems by (simp add: map_update timed_text_def)
      (metis (no_types, lifting) list_update_id map_update timed_text_def)
  then show ?case using Cons by (cases skip) (auto simp: Let_def)
qed simp

text \<open>
  C33: The subtitles that sort_and_reindex yields are numbered by successive indices from the
  start index on, ordered by their times, and they are, each as often as it was given, the given
  subtitles without those that are to be skipped; the caller's own objects are unchanged unless
  in_place is set, and then only their indices change.
\<close>

theorem reindexed:
  assumes "sort_and_reindex h refs start_index in_place skip = Inr (h', ys)"
    and "\<forall>r \<in> set refs. r < length h" and "in_place \<longrightarrow> distinct refs"
  shows "map (sub_index \<circ> snd) ys = map (\<lambda>i. Some (start_index + int i)) [0..<length ys]
    \<and> sorted (map (\<lambda>y. (sub_start (snd y), sub_end (snd y))) ys)
    \<and> mset (map (timed_text \<circ> snd) ys) = mset (map timed_text (filter (kept skip) (map ((!) h) refs)))
    \<and> (if in_place then map timed_text h' = map timed_text h else take (length h) h' = h)"
proof -
  let ?rs = "sort_key (\<lambda>r. sub_key (h ! r)) refs"
  let ?ss = "filter (kept skip) (map ((!) h) ?rs)"
  have loop: "reindex_loop in_place skip h start_index 0 ?rs = (h', ys)"
    using assms(1) by (auto simp: sort_and_reindex_def sub_sorted_def split: if_splits)
  then have ys: "map snd ys = renumber start_index ?ss"
    using reindex_loop_values [of ?rs h in_place skip start_index 0] assms(2,3) by simp
  then have len: "length ys = length ?ss" by (metis length_map renumber_length)
  have index: "map (sub_index \<circ> snd) ys = map (\<lambda>i. Some (start_index + int i)) [0..<length ys]"
    using renumber_index [of start_index ?ss] unfolding len ys [symmetric] by simp
  have timed: "map (timed_text \<circ> snd) ys = map timed_text ?ss"
    using renumber_map [of timed_text start_index ?ss] unfolding ys [symmetric] by (simp add: timed_text_def)
  have "sorted (map (\<lambda>s. sub_key s) (map ((!) h) ?rs))"
    using sorted_sort_key [of "\<lambda>r. sub_key (h ! r)" refs] by (simp add: comp_def)
  then have "sorted_wrt (\<lambda>a b. sub_key a \<le> sub_key b) ?ss"
    by (simp add: sorted_wrt_map sorted_wrt_filter)
  then have "sorted_wrt (\<lambda>a b. (sub_start a, sub_end a) \<le> (sub_start b, sub_end b)) ?ss"
    by (rule sorted_wrt_mono_rel [rotated]) (auto simp: sub_key_def)
  then have "sorted (map (\<lambda>s. (sub_start s, sub_end s)) ?ss)" by (simp add: sorted_wrt_map)
  moreover have "map (\<lambda>y. (sub_start (snd y), sub_end (snd y))) ys = map (\<lambda>s. (sub_start s, sub_end s)) ?ss"
    using renumber_map [of "\<lambda>s. (sub_start s, sub_end s)" start_index ?ss] unfolding ys [symmetric]
    by (simp add: comp_def)
  ultimately have srt: "sorted (map (\<lambda>y. (sub_start (snd y), sub_end (snd y))) ys)" by simp
  have "mset (map timed_text ?ss) = mset (map timed_text (filter (kept skip) (map ((!) h) refs)))"
    by (simp add: mset_filter)
  moreover have "if in_place then map timed_text h' = map timed_text h else take (length h) h' = h"
    using reindex_loop_in_place [of ?rs h skip start_index 0]
      reindex_loop_copies [of skip h start_index 0 ?rs] loop assms(2) by (cases in_place) auto
  ultimately show ?thesis using index srt timed by simp
qed

lemma reindexed_witness:
  "take 2 (fst (projr (sort_and_reindex
     [\<lparr>sub_index = Some 9, sub_start = 5, sub_end = 7, sub_content = ''b''\<rparr>,
      \<lparr>sub_index = None, sub_start = 1, sub_end = 2, sub_content = ''a''\<rparr>]
     [0, 1] 1 False True))) =
     [\<lparr>sub_index = Some 9, sub_start = 5, sub_end = 7, sub_content = ''b''\<rparr>,
      \<lparr>sub_index = None, sub_start = 1, sub_end = 2, sub_content = ''a''\<rparr>]"
proof -
  let ?h = "[\<lparr>sub_index = Some 9, sub_start = 5, sub_end = 7, sub_content = ''b''\<rparr>,
      \<lparr>sub_index = None, sub_start = 1, sub_end = 2, sub_content = ''a''\<rparr>]"
  have e: "sort_and_reindex ?h [0, 1] 1 False True =
      Inr (?h @ [\<lparr>sub_index = Some 1, sub_start = 1, sub_end = 2, sub_content = ''a''\<rparr>,
          \<lparr>sub_index = Some 2, sub_start = 5, sub_end = 7, sub_content = ''b''\<rparr>],
        [(2, \<lparr>sub_index = Some 1, sub_start = 1, sub_end = 2, sub_content = ''a''\<rparr>),
         (3, \<lparr>sub_index = Some 2, sub_start = 5, sub_end = 7, sub_content = ''b''\<rparr>)])"
    by code_simp
  show ?thesis using reindexed [OF e] unfolding e by simp
qed

section \<open>Reading the file back\<close>

text \<open>No two newlines in a row; the flag says that a newline comes right before the text.\<close>

fun no_blank_line :: "bool \<Rightarrow> string \<Rightarrow> bool" where
  "no_blank_line p [] = True"
| "no_blank_line p (c # s) = (if c = nl then \<not> p \<and> no_blank_line True s else no_blank_line False s)"

lemma no_blank_append:
  "no_blank_line p (s @ t) \<longleftrightarrow> no_blank_line p s \<and> no_blank_line (if s = [] then p else last s = nl) t"
  by (induction s arbitrary: p) auto

lemma no_blank_weaken: "no_blank_line True s \<Longrightarrow> no_blank_line p s"
  by (cases s) (auto split: if_splits)

lemma no_blank_no_nl: "nl \<notin> set s \<Longrightarrow> no_blank_line p s"
  by (induction s arbitrary: p) auto

lemma no_blank_contains: "no_blank_line False s \<longleftrightarrow> \<not> str_contains [nl, nl] s"
proof (induction s)
  case (Cons c s)
  have "no_blank_line True s \<longleftrightarrow> no_blank_line False s \<and> (s = [] \<or> hd s \<noteq> nl)"
    by (cases s) auto
  then show ?case using Cons by (cases s) auto
qed simp

text \<open>Legal content has no blank line and does not start with one.\<close>

lemma sub_multi_ws_hd: "s \<noteq> [] \<Longrightarrow> sub_multi_ws s \<noteq> [] \<and> hd (sub_multi_ws s) = hd s"
  by (induction s rule: sub_multi_ws.induct) auto

lemma sub_multi_ws_no_blank: "no_blank_line False (sub_multi_ws s)"
proof (induction s rule: sub_multi_ws.induct)
  case (3 c d s)
  have "sub_multi_ws (d # s) \<noteq> [] \<and> hd (sub_multi_ws (d # s)) = d"
    using sub_multi_ws_hd [of "d # s"] by simp
  then show ?case using 3 by (cases "sub_multi_ws (d # s)") auto
qed auto

lemma sub_multi_ws_set: "set (sub_multi_ws s) = set s"
  by (induction s rule: sub_multi_ws.induct) auto

lemma sub_multi_ws_last: "s \<noteq> [] \<Longrightarrow> last (sub_multi_ws s) = last s"
  by (induction s rule: sub_multi_ws.induct) (use sub_multi_ws_hd in auto)

lemma strip_nl_ends:
  "strip_nl s \<noteq> [] \<Longrightarrow> hd (strip_nl s) \<noteq> nl \<and> last (strip_nl s) \<noteq> nl"
proof -
  let ?l = "dropWhile (\<lambda>c. c = nl) s"
  assume ne: "strip_nl s \<noteq> []"
  have "?l = strip_nl s @ rev (takeWhile (\<lambda>c. c = nl) (rev ?l))"
    unfolding strip_nl_def by (metis rev_append rev_rev_ident takeWhile_dropWhile_id)
  then obtain w where w: "?l = strip_nl s @ w" by blast
  then have "?l \<noteq> []" using ne by simp
  then have "hd ?l \<noteq> nl" using hd_dropWhile [of "\<lambda>c. c = nl" s] by simp
  moreover have "hd ?l = hd (strip_nl s)" unfolding w using ne by (rule hd_append2)
  moreover have "last (strip_nl s) \<noteq> nl"
    using ne hd_dropWhile [of "\<lambda>c. c = nl" "rev ?l"] by (simp add: strip_nl_def last_rev)
  ultimately show ?thesis by metis
qed

lemma strip_nl_keeps: "c \<in> set s \<Longrightarrow> c \<noteq> nl \<Longrightarrow> c \<in> set (strip_nl s)"
proof -
  have keep: "c \<in> set (dropWhile (\<lambda>c. c = nl) t)" if "c \<in> set t" "c \<noteq> nl" for t
    using that by (induction t) auto
  then show "c \<in> set s \<Longrightarrow> c \<noteq> nl \<Longrightarrow> c \<in> set (strip_nl s)" by (simp add: strip_nl_def)
qed

lemma legal_no_blank: "no_blank_line True (make_legal_content c)"
proof (cases "c \<noteq> [] \<and> c ! 0 \<noteq> nl \<and> \<not> str_contains [nl, nl] c")
  case True
  then have "no_blank_line False c" by (simp add: no_blank_contains)
  then show ?thesis using True by (cases c) (auto simp: make_legal_content_def)
next
  case False
  let ?r = "sub_multi_ws (strip_nl c)"
  have "?r = [] \<or> hd ?r \<noteq> nl"
    using strip_nl_ends [of c] sub_multi_ws_hd [of "strip_nl c"] by (cases "strip_nl c = []") auto
  then have "no_blank_line True ?r" using sub_multi_ws_no_blank [of "strip_nl c"] by (cases ?r) auto
  then show ?thesis using False by (simp only: make_legal_content_def if_False)
qed

lemma legal_ends:
  assumes "\<exists>x \<in> set c. \<not> is_space x" and "last c \<noteq> nl"
  shows "make_legal_content c \<noteq> []" and "last (make_legal_content c) \<noteq> nl"
proof -
  obtain x where x: "x \<in> set c" "\<not> is_space x" using assms(1) by blast
  then have "x \<noteq> nl" by (auto simp: is_space_def)
  then have ne: "strip_nl c \<noteq> []" using strip_nl_keeps x(1) by (metis empty_iff empty_set)
  then show "make_legal_content c \<noteq> []"
    using sub_multi_ws_hd [of "strip_nl c"] by (auto simp: make_legal_content_def)
  show "last (make_legal_content c) \<noteq> nl"
    using assms(2) strip_nl_ends [OF ne] sub_multi_ws_last [OF ne] by (auto simp: make_legal_content_def)
qed

text \<open>
  A reader of such a file: the blocks are what stands between blank lines. \<open>srt_body\<close> is a
  block of \<open>to_srt\<close> without the blank line that ends it.
\<close>

fun read_blocks :: "string \<Rightarrow> string \<Rightarrow> string list" where
  "read_blocks acc [] = (if acc = [] then [] else [rev acc])"
| "read_blocks acc [c] = [rev (c # acc)]"
| "read_blocks acc (c # d # s) =
     (if c = nl \<and> d = nl then rev acc # read_blocks [] s else read_blocks (c # acc) (d # s))"

definition srt_body :: "subtitle \<Rightarrow> string" where
  "srt_body s =
     int_str (case sub_index s of None \<Rightarrow> 0 | Some i \<Rightarrow> i) @ [nl]
     @ timedelta_to_srt_timestamp (sub_start s) @ '' --> '' @ timedelta_to_srt_timestamp (sub_end s)
     @ [nl] @ make_legal_content (sub_content s)"

lemma to_srt_body: "to_srt None s = srt_body s @ [nl, nl]"
  by (simp add: to_srt_def srt_body_def Let_def split: option.splits)

lemma read_block: "no_blank_line False (b @ [nl]) \<Longrightarrow> read_blocks acc (b @ nl # nl # s) = (rev acc @ b) # read_blocks [] s"
proof (induction b arbitrary: acc)
  case (Cons c b)
  have "no_blank_line False (b @ [nl])" and "c = nl \<longrightarrow> b \<noteq> [] \<and> hd b \<noteq> nl"
    using Cons.prems no_blank_weaken [of "b @ [nl]" False] by (cases b; auto split: if_splits)+
  then show ?case using Cons.IH [of "c # acc"] by (cases b) auto
qed simp

lemma read_concat:
  "\<forall>b \<in> set bs. no_blank_line False (b @ [nl]) \<Longrightarrow>
   read_blocks [] (concat (map (\<lambda>b. b @ [nl, nl]) bs)) = bs"
  by (induction bs) (use read_block [of _ "[]"] in auto)

lemma nat_str_nonempty: "nat_str n \<noteq> []"
  by (subst nat_str.simps) simp

lemma nat_str_no_nl: "nl \<notin> set (nat_str n)"
  using nat_str_digits [of n] by (auto simp: is_digit_def)

lemma int_str_no_nl: "nl \<notin> set (int_str i)" "int_str i \<noteq> []"
  by (auto simp: int_str_def nat_str_nonempty nat_str_no_nl)

lemma pad0_int_no_nl: "nl \<notin> set (pad0_int w i)"
  by (auto simp: pad0_int_def pad0_def nat_str_no_nl)

lemma timestamp_no_nl: "nl \<notin> set (timedelta_to_srt_timestamp t)"
  by (auto simp: timedelta_to_srt_timestamp_def Let_def pad0_int_no_nl)

lemma no_blank_line_end:
  "nl \<notin> set l \<Longrightarrow> l \<noteq> [] \<Longrightarrow> no_blank_line p (l @ nl # r) = no_blank_line True r"
  using last_in_set [of l] by (cases "last l = nl") (auto simp: no_blank_append no_blank_no_nl)

lemma body_no_blank:
  assumes "kept True s" and "last (sub_content s) \<noteq> nl"
  shows "no_blank_line False (srt_body s @ [nl])"
proof -
  have "\<exists>x \<in> set (sub_content s). \<not> is_space x" using assms(1) by (simp add: kept_iff)
  note ends = legal_ends [OF this assms(2)]
  let ?ts = "timedelta_to_srt_timestamp (sub_start s) @ '' --> '' @ timedelta_to_srt_timestamp (sub_end s)"
  have "srt_body s @ [nl] =
      int_str (case sub_index s of None \<Rightarrow> 0 | Some i \<Rightarrow> i) @ nl # ?ts @ nl # make_legal_content (sub_content s) @ [nl]"
    by (simp add: srt_body_def)
  moreover have "nl \<notin> set ?ts" "?ts \<noteq> []" by (auto simp: timestamp_no_nl)
  moreover have "no_blank_line True (make_legal_content (sub_content s) @ [nl])"
    using legal_no_blank ends by (simp add: no_blank_append)
  ultimately show ?thesis using int_str_no_nl no_blank_line_end by presburger
qed

section \<open>From messages to the file\<close>

text \<open>A caller feeds the messages one by one and stops at the first exception.\<close>

fun feed_all :: "sub_maker \<Rightarrow> tts_chunk list \<Rightarrow> exc option \<times> sub_maker" where
  "feed_all m [] = (None, m)"
| "feed_all m (x # xs) =
     (case feed m x of (Some e, m') \<Rightarrow> (Some e, m') | (None, m') \<Rightarrow> feed_all m' xs)"

text \<open>The cue that a boundary message becomes, with its number.\<close>

fun cue_of :: "int \<Rightarrow> tts_chunk \<Rightarrow> subtitle" where
  "cue_of n (Boundary ty off dur txt) =
     \<lparr>sub_index = Some n, sub_start = ticks_to_us off, sub_end = ticks_to_us (off + projr (py_num dur)),
      sub_content = txt\<rparr>"
| "cue_of n (Audio d) = \<lparr>sub_index = Some n, sub_start = 0, sub_end = 0, sub_content = []\<rparr>"

lemma feed_ok:
  "feed m x = (None, m') \<Longrightarrow>
   sm_cues m' = sm_cues m @ [cue_of (int (length (sm_cues m)) + 1) x] \<and> sm_type m' = Some (chunk_type x)
   \<and> chunk_type x \<in> {''WordBoundary'', ''SentenceBoundary''} \<and> (sm_type m = None \<or> sm_type m = Some (chunk_type x))"
  by (cases x) (auto simp: feed_def Let_def split: if_splits sum.splits)

lemma feed_all_ok:
  "feed_all m xs = (None, m') \<Longrightarrow>
   sm_cues m' = sm_cues m @ map (\<lambda>i. cue_of (int (length (sm_cues m)) + 1 + int i) (xs ! i)) [0..<length xs]
   \<and> (\<forall>x \<in> set xs. sm_type m' = Some (chunk_type x)
        \<and> chunk_type x \<in> {''WordBoundary'', ''SentenceBoundary''})
   \<and> (\<forall>ty. sm_type m = Some ty \<longrightarrow> sm_type m' = Some ty)"
proof (induction xs arbitrary: m)
  case (Cons x xs)
  then obtain m1 where m1: "feed m x = (None, m1)" "feed_all m1 xs = (None, m')"
    by (auto split: prod.splits option.splits)
  note one = feed_ok [OF m1(1)] and rest = Cons.IH [OF m1(2)]
  have "map (\<lambda>i. cue_of (int (length (sm_cues m)) + 1 + int i) ((x # xs) ! i)) [0..<Suc (length xs)]
      = cue_of (int (length (sm_cues m)) + 1) x
        # map (\<lambda>i. cue_of (int (length (sm_cues m1)) + 1 + int i) (xs ! i)) [0..<length xs]"
    using one by (simp add: upt_conv_Cons map_Suc_upt [symmetric] comp_def add_ac del: upt_Suc)
  then show ?case using one rest by auto
qed simp

lemma map_sort_key: "map f (sort_key (\<lambda>x. g (f x)) xs) = sort_key g (map f xs)"
proof -
  have ins: "map f (insort_key (\<lambda>x. g (f x)) a ys) = insort_key g (f a) (map f ys)" for a ys
    by (induction ys) auto
  show ?thesis by (induction xs) (auto simp: ins)
qed

lemma get_srt_eq:
  assumes "\<forall>c \<in> set (sm_cues m). sub_index c \<noteq> None"
  shows "get_srt m =
    Inr (concat (map (to_srt None) (renumber 1 (filter (kept True) (sort_key sub_key (sm_cues m))))))"
proof -
  let ?h = "sm_cues m" and ?refs = "[0..<length (sm_cues m)]"
  let ?rs = "sort_key (\<lambda>r. sub_key (?h ! r)) ?refs"
  have "is_ok (sub_lt a b)" if ab: "a \<in> set ?h" "b \<in> set ?h" for a b
    using ab assms by (auto simp: sub_lt_def split: option.splits)
  then have "sub_sorted ?h ?refs = Inr ?rs"
    by (auto simp: sub_sorted_def list_ex_iff)
  moreover have "map snd (snd (reindex_loop False True ?h 1 0 ?rs))
      = renumber 1 (filter (kept True) (map ((!) ?h) ?rs))"
    using reindex_loop_values [of ?rs ?h False True 1 0] by simp
  moreover have "map ((!) ?h) ?rs = sort_key sub_key ?h"
    by (simp add: map_sort_key map_nth)
  ultimately have vals: "map snd (snd (reindex_loop False True ?h 1 0 ?rs))
      = renumber 1 (filter (kept True) (sort_key sub_key ?h))"
      and srt: "sub_sorted ?h ?refs = Inr ?rs"
    by simp_all
  have "map (\<lambda>y. to_srt None (snd y)) ys = map (to_srt None) (map snd ys)" for ys :: "(nat \<times> subtitle) list"
    by simp
  then show ?thesis
    by (simp only: get_srt_def compose_def sort_and_reindex_def case_prod_unfold srt vals if_True
        rbind.simps snd_conv fst_conv)
qed

lemma in_set_renumber: "s \<in> set (renumber n ss) \<Longrightarrow> \<exists>t i. t \<in> set ss \<and> s = t\<lparr>sub_index := i\<rparr>"
  by (induction ss arbitrary: n) (auto, fastforce+)



text \<open>
  A single newline at the end of a text is not taken away, although the function is to remove a
  blank line at the end: the test that finds the content legal looks at its start only.
\<close>

lemma trailing_newline_kept:
  assumes "c \<noteq> nl" and "no_blank_line False (c # s @ [nl])"
  shows "make_legal_content (c # s @ [nl]) = c # s @ [nl]"
  using assms no_blank_contains [of "c # s @ [nl]"] by (simp add: make_legal_content_def)

end
