(* ===== verification/Tts_Drm.thy ===== *)
theory Tts_Drm
  imports Iso_Dates Audit_Log Py_Regex
begin

text \<open>
  The access token of \<^verbatim>\<open>edge_tts/drm.py\<close>. The clock and its correction are in microseconds,
  where the code has floats: the values the token is made of are multiples of 300 seconds, for
  which the float arithmetic of the code is exact. The skew, a class attribute in the code, is
  an argument and a result. SHA-256 is the one of the audit log's \<open>hashes\<close>.
\<close>

definition WIN_EPOCH :: int where
  "WIN_EPOCH = 11644473600"

definition TRUSTED_CLIENT_TOKEN :: string where
  "TRUSTED_CLIENT_TOKEN = ''6A5AA1D4EAFF4E9FB37E23D68491D6F4''"

definition adj_clock_skew_seconds :: "int \<Rightarrow> int \<Rightarrow> int" where
  "adj_clock_skew_seconds clock_skew skew = clock_skew + skew"

definition get_unix_timestamp :: "int \<Rightarrow> int \<Rightarrow> int" where
  "get_unix_timestamp now clock_skew = now + clock_skew"

section \<open>The date of the server\<close>

text \<open>
  \<^verbatim>\<open>strptime\<close> with the format \<^verbatim>\<open>"%a, %d %b %Y %H:%M:%S %Z"\<close>, by the regular expression that
  \<^verbatim>\<open>_strptime\<close> builds from it: names in any case, any white space for a blank, and the zone
  names of a host whose own zone is UTC. The text has to be covered by the match. A day that the
  month does not have, the year 0 and a leap second are a \<^verbatim>\<open>ValueError\<close>, here \<open>None\<close>.
\<close>

definition rx_char_i :: "char \<Rightarrow> rx" where
  "rx_char_i c = Cls (\<lambda>x. lower_char x = c)"

definition rx_word_i :: "string \<Rightarrow> rx" where
  "rx_word_i w = rx_cats (map rx_char_i w)"

definition rx_range :: "nat \<Rightarrow> nat \<Rightarrow> rx" where
  "rx_range a b = Cls (\<lambda>x. a \<le> (ord x :: nat) - 48 \<and> 48 \<le> (ord x :: nat) \<and> (ord x :: nat) - 48 \<le> b)"

fun rx_alts :: "rx list \<Rightarrow> rx" where
  "rx_alts [] = Cls (\<lambda>x. False)"
| "rx_alts [r] = r"
| "rx_alts (r # q # rs) = Alt r (rx_alts (q # rs))"

definition weekday_names :: "string list" where
  "weekday_names = [''mon'', ''tue'', ''wed'', ''thu'', ''fri'', ''sat'', ''sun'']"

definition month_names :: "string list" where
  "month_names = [''jan'', ''feb'', ''mar'', ''apr'', ''may'', ''jun'', ''jul'', ''aug'', ''sep'',
     ''oct'', ''nov'', ''dec'']"

abbreviation rx_digit :: rx where "rx_digit \<equiv> rx_range 0 9"
abbreviation rx_blank :: rx where "rx_blank \<equiv> rx_plus True (Cls is_space)"

definition rfc2616_rx :: rx where
  "rfc2616_rx = rx_cats
     [rx_alts (map rx_word_i weekday_names), rx_lit '','', rx_blank,
      Grp 1 (rx_alts [Cat (rx_range 3 3) (rx_range 0 1), Cat (rx_range 1 2) rx_digit,
        Cat (rx_range 0 0) (rx_range 1 9), rx_range 1 9, Cat (Cls (\<lambda>c. c = CHR '' '')) (rx_range 1 9)]),
      rx_blank, Grp 2 (rx_alts (map rx_word_i month_names)), rx_blank,
      Grp 3 (rx_times 4 rx_digit), rx_blank,
      Grp 4 (rx_alts [Cat (rx_range 2 2) (rx_range 0 3), Cat (rx_range 0 1) rx_digit, rx_digit]),
      rx_lit '':'', Grp 5 (rx_alts [Cat (rx_range 0 5) rx_digit, rx_digit]),
      rx_lit '':'', Grp 6 (rx_alts [Cat (rx_range 6 6) (rx_range 0 1), Cat (rx_range 0 5) rx_digit, rx_digit]),
      rx_blank, rx_alts [rx_word_i ''utc'', rx_word_i ''gmt'']]"

fun index_of :: "string \<Rightarrow> string list \<Rightarrow> int" where
  "index_of w [] = 0"
| "index_of w (x # xs) = (if x = w then 0 else 1 + index_of w xs)"

definition parse_rfc2616_date :: "string \<Rightarrow> int option" where
  "parse_rfc2616_date date =
     (case rx_match_start rfc2616_rx date of
        None \<Rightarrow> None
      | Some m \<Rightarrow>
          if m_rest m \<noteq> [] then None
          else (let num = (\<lambda>k. int (digits_val (str_strip (m_group m k))));
                    d = \<lparr>d_year = num 3, d_month = 1 + index_of (str_lower (m_group m 2)) month_names,
                         d_day = num 1\<rparr>
                in if valid_date d \<and> num 6 \<le> 59
                   then Some ((toordinal d - 719163) * 86400 + num 4 * 3600 + num 5 * 60 + num 6)
                   else None))"

text \<open>
  A response refused by the server: its headers, if it has any. The exception
  \<^verbatim>\<open>SkewAdjustmentError\<close> is the text it is raised with.
\<close>

definition drm_handle_error :: "(string \<times> string) list option \<Rightarrow> int \<Rightarrow> int \<Rightarrow> string + int" where
  "drm_handle_error headers now clock_skew =
     (case headers of
        None \<Rightarrow> Inl ''No server date in headers.''
      | Some hs \<Rightarrow>
          (case map_of hs ''Date'' of
             None \<Rightarrow> Inl ''No server date in headers.''
           | Some server_date \<Rightarrow>
               (case parse_rfc2616_date server_date of
                  None \<Rightarrow> Inl (''Failed to parse server date: '' @ server_date)
                | Some parsed \<Rightarrow>
                    (let client_date = get_unix_timestamp now clock_skew
                     in Inr (adj_clock_skew_seconds clock_skew (parsed * 1000000 - client_date))))))"

section \<open>The token\<close>

definition gec_ticks :: "int \<Rightarrow> int \<Rightarrow> int" where
  "gec_ticks now clock_skew =
     (let ticks = get_unix_timestamp now clock_skew + WIN_EPOCH * 1000000;
          rounded = ticks - ticks mod (300 * 1000000)
      in rounded * 10)"

definition generate_sec_ms_gec :: "hashes \<Rightarrow> int \<Rightarrow> int \<Rightarrow> string" where
  "generate_sec_ms_gec H now clock_skew =
     str_upper (sha256 H (int_str (gec_ticks now clock_skew) @ TRUSTED_CLIENT_TOKEN))"

definition headers_with_muid :: "(string \<times> string) list \<Rightarrow> string \<Rightarrow> (string \<times> string) list res" where
  "headers_with_muid headers muid =
     (if ''Cookie'' \<in> set (map fst headers) then Inl AssertionError
      else Inr (headers @ [(''Cookie'', ''muid='' @ str_upper muid @ '';'')]))"

definition CHROMIUM_FULL_VERSION :: string where
  "CHROMIUM_FULL_VERSION = ''143.0.3650.75''"

definition CHROMIUM_MAJOR_VERSION :: string where
  "CHROMIUM_MAJOR_VERSION = hd (str_split (CHR ''.'') CHROMIUM_FULL_VERSION)"

definition SEC_MS_GEC_VERSION :: string where
  "SEC_MS_GEC_VERSION = ''1-'' @ CHROMIUM_FULL_VERSION"

definition BASE_HEADERS :: "(string \<times> string) list" where
  "BASE_HEADERS =
     [(''User-Agent'', ''Mozilla/5.0 (Windows NT 10.0; Win64; x64) AppleWebKit/537.36''
         @ '' (KHTML, like Gecko) Chrome/'' @ CHROMIUM_MAJOR_VERSION @ ''.0.0.0 Safari/537.36''
         @ '' Edg/'' @ CHROMIUM_MAJOR_VERSION @ ''.0.0.0''),
      (''Accept-Encoding'', ''gzip, deflate, br, zstd''),
      (''Accept-Language'', ''en-US,en;q=0.9'')]"

definition WSS_HEADERS :: "(string \<times> string) list" where
  "WSS_HEADERS =
     [(''Pragma'', ''no-cache''), (''Cache-Control'', ''no-cache''),
      (''Origin'', ''chrome-extension://jdiccldimpdaibmpdkjnbmckianbfold''),
      (''Sec-WebSocket-Version'', ''13'')] @ BASE_HEADERS"

definition BASE_URL :: string where
  "BASE_URL = ''speech.platform.bing.com/consumer/speech/synthesize/readaloud''"

definition WSS_URL :: string where
  "WSS_URL = ''wss://'' @ BASE_URL @ ''/edge/v1?TrustedClientToken='' @ TRUSTED_CLIENT_TOKEN"

section \<open>What the token depends on\<close>

lemma wss_headers_ok: "is_ok (headers_with_muid WSS_HEADERS muid)"
  by (simp add: headers_with_muid_def WSS_HEADERS_def BASE_HEADERS_def)

text \<open>After a refused request the corrected clock shows the time the server gave.\<close>

lemma skew_matches_server:
  "drm_handle_error headers now skew = Inr skew' \<Longrightarrow>
   \<exists>hs d t. headers = Some hs \<and> map_of hs ''Date'' = Some d \<and> parse_rfc2616_date d = Some t
     \<and> get_unix_timestamp now skew' = t * 1000000"
  by (auto simp: drm_handle_error_def get_unix_timestamp_def adj_clock_skew_seconds_def Let_def
      split: option.splits)

lemma gec_ticks_eq:
  "gec_ticks now skew = (get_unix_timestamp now skew + WIN_EPOCH * 1000000) div 300000000 * 3000000000"
  using minus_mod_eq_div_mult [of "get_unix_timestamp now skew + WIN_EPOCH * 1000000" 300000000]
  by (simp add: gec_ticks_def Let_def)

lemma gec_ticks_window:
  defines "ticks \<equiv> \<lambda>now skew. 10 * (get_unix_timestamp now skew + WIN_EPOCH * 1000000)"
  shows "gec_ticks now skew mod 3000000000 = 0 \<and> gec_ticks now skew \<le> ticks now skew
    \<and> ticks now skew < gec_ticks now skew + 3000000000"
proof -
  have w: "x div 300000000 * 3000000000 \<le> 10 * x \<and> 10 * x < x div 300000000 * 3000000000 + 3000000000"
    for x :: int
    using div_mult_mod_eq [of x 300000000] pos_mod_bound [of 300000000 x] pos_mod_sign [of 300000000 x]
    by auto
  have z: "x div 300000000 * 3000000000 mod 3000000000 = 0" for x :: int
    by simp
  show ?thesis unfolding gec_ticks_eq ticks_def using w z by blast
qed

text \<open>
  After the server has refused a request and its date has been read, the token is the one
  that a client whose clock agrees with the server's makes: for any two instants of the server's
  clock in the same five minutes, counted from the Windows epoch, it is the same.
\<close>

theorem token_of_server_time:
  assumes "drm_handle_error headers now skew = Inr skew'"
    and "map_of (the headers) ''Date'' = Some d" and "parse_rfc2616_date d = Some t"
    and "(t + WIN_EPOCH) div 300 = (server + WIN_EPOCH) div 300"
  shows "generate_sec_ms_gec H now skew' = generate_sec_ms_gec H (server * 1000000) 0"
proof -
  have "get_unix_timestamp now skew' = t * 1000000"
    using skew_matches_server [OF assms(1)] assms(2,3) by auto
  then have "gec_ticks now skew' = (t + WIN_EPOCH) * 1000000 div 300000000 * 3000000000"
    unfolding gec_ticks_eq by (simp only: distrib_right)
  moreover have "gec_ticks (server * 1000000) 0 = (server + WIN_EPOCH) * 1000000 div 300000000 * 3000000000"
    unfolding gec_ticks_eq by (simp only: distrib_right get_unix_timestamp_def add_0_right)
  moreover have "x * 1000000 div 300000000 = x div 300" for x :: int
    by simp
  ultimately have "gec_ticks now skew' = gec_ticks (server * 1000000) 0"
    using assms(4) by (simp only:)
  then show ?thesis by (simp only: generate_sec_ms_gec_def)
qed

lemma token_of_server_time_witness:
  "generate_sec_ms_gec H 5 (1700000000 * 1000000 - 5) = generate_sec_ms_gec H (1700000001 * 1000000) 0"
proof -
  let ?h = "Some [(''Date'', ''Tue, 14 Nov 2023 22:13:20 GMT'')]"
  have p: "parse_rfc2616_date ''Tue, 14 Nov 2023 22:13:20 GMT'' = Some 1700000000" by code_simp
  have e: "drm_handle_error ?h 5 0 = Inr (1700000000 * 1000000 - 5)"
    by (simp add: drm_handle_error_def p get_unix_timestamp_def adj_clock_skew_seconds_def)
  show ?thesis
    by (rule token_of_server_time [OF e _ p]) (simp_all add: WIN_EPOCH_def)
qed

end
