(* ===== verification/Tts_Stream.thy ===== *)
theory Tts_Stream
  imports Srt Tts_Drm
begin

text \<open>
  The conversation with the speech service: \<^verbatim>\<open>TTSConfig\<close> (\<^verbatim>\<open>data_classes.py\<close>) and the class
  \<^verbatim>\<open>Communicate\<close> (\<^verbatim>\<open>communicate.py\<close>). The web socket is not under \<^verbatim>\<open>src/\<close>: what the service
  does at one connection is an argument, an \<open>attempt\<close> with the messages received until the
  socket is closed, and so are the clock and the random identifiers drawn for it. An
  asynchronous generator is the list of what it yields, with the exception that ends it, run to
  its end by its caller.
\<close>

section \<open>Configuration\<close>

text \<open>An argument of a constructor, as far as the type tests tell values apart.\<close>

datatype py_arg = ArgStr string | ArgInt int | ArgNone | ArgConnector | ArgOther

definition rx_lower_letter :: rx where
  "rx_lower_letter = Cls (\<lambda>c. 97 \<le> (ord c :: nat) \<and> (ord c :: nat) \<le> 122)"

definition rx_upper_letter :: rx where
  "rx_upper_letter = Cls (\<lambda>c. 65 \<le> (ord c :: nat) \<and> (ord c :: nat) \<le> 90)"

definition rx_any :: rx where
  "rx_any = Cls (\<lambda>c. c \<noteq> nl)"

text \<open>\<^verbatim>\<open>^([a-z]{2,})-([A-Z]{2,})-(.+Neural)$\<close>\<close>

definition short_voice_rx :: rx where
  "short_voice_rx = rx_cats
     [Bos, Grp 1 (Cat rx_lower_letter (rx_plus True rx_lower_letter)), rx_lit ''-'',
      Grp 2 (Cat rx_upper_letter (rx_plus True rx_upper_letter)), rx_lit ''-'',
      Grp 3 (Cat (rx_plus True rx_any) (rx_lit ''Neural'')), Eos]"

definition full_voice_rx :: rx where
  "full_voice_rx = rx_cats
     [Bos, rx_lit ''Microsoft Server Speech Text to Speech Voice ('', rx_plus True rx_any, rx_lit '','',
      rx_plus True rx_any, rx_lit '')'', Eos]"

definition signed_rx :: "string \<Rightarrow> rx" where
  "signed_rx unit_name = rx_cats
     [Bos, Cls (\<lambda>c. c = CHR ''+'' \<or> c = CHR ''-''), rx_plus True (Cls is_digit), rx_lit unit_name, Eos]"

definition validate_string_param :: "string \<Rightarrow> py_arg \<Rightarrow> rx \<Rightarrow> string res" where
  "validate_string_param param_name param_value pattern =
     (case param_value of
        ArgStr v \<Rightarrow>
          if rx_match_start pattern v = None
          then Inl (ValueError (''Invalid '' @ param_name @ '' '' @ [CHR 0x27] @ v @ [CHR 0x27] @ ''.''))
          else Inr v
      | _ \<Rightarrow> Inl TypeError)"

definition full_voice :: "string \<Rightarrow> string" where
  "full_voice v =
     (case rx_match_start short_voice_rx v of
        None \<Rightarrow> v
      | Some m \<Rightarrow>
          (let lang = m_group m 1; region = m_group m 2; name = m_group m 3;
               (region', name') =
                 (if CHR ''-'' \<in> set name
                  then (region @ ''-'' @ fst (str_partition (CHR ''-'') name), snd (str_partition (CHR ''-'') name))
                  else (region, name))
           in ''Microsoft Server Speech Text to Speech Voice''
              @ '' ('' @ lang @ ''-'' @ region' @ '', '' @ name' @ '')''))"

definition make_tts_config :: "py_arg \<Rightarrow> py_arg \<Rightarrow> py_arg \<Rightarrow> py_arg \<Rightarrow> string \<Rightarrow> tts_config res" where
  "make_tts_config voice rate volume pitch boundary =
     (case voice of
        ArgStr v \<Rightarrow>
          rbind (validate_string_param ''voice'' (ArgStr (full_voice v)) full_voice_rx) (\<lambda>v'.
          rbind (validate_string_param ''rate'' rate (signed_rx ''%'')) (\<lambda>r.
          rbind (validate_string_param ''volume'' volume (signed_rx ''%'')) (\<lambda>vol.
          rbind (validate_string_param ''pitch'' pitch (signed_rx ''Hz'')) (\<lambda>p.
            Inr \<lparr>tc_voice = v', tc_rate = r, tc_volume = vol, tc_pitch = p, tc_boundary = boundary\<rparr>))))
      | _ \<Rightarrow> Inl TypeError)"

section \<open>The object\<close>

record comm_state =
  partial_text :: string
  offset_compensation :: int
  last_duration_offset :: int
  stream_was_called :: bool

record communicate =
  cm_config :: tts_config
  cm_texts :: "string list \<times> exc option"
  cm_proxy :: "string option"
  cm_sock_connect :: int
  cm_sock_read :: int
  cm_state :: comm_state

definition init_state :: comm_state where
  "init_state =
     \<lparr>partial_text = [], offset_compensation = 0, last_duration_offset = 0, stream_was_called = False\<rparr>"

definition arg_int :: "py_arg \<Rightarrow> int res" where
  "arg_int a = (case a of ArgInt i \<Rightarrow> Inr i | _ \<Rightarrow> Inl TypeError)"

definition communicate_init ::
    "py_arg \<Rightarrow> py_arg \<Rightarrow> py_arg \<Rightarrow> py_arg \<Rightarrow> py_arg \<Rightarrow> string \<Rightarrow> py_arg \<Rightarrow> py_arg \<Rightarrow> py_arg \<Rightarrow> py_arg
     \<Rightarrow> communicate res" where
  "communicate_init txt voice rate volume pitch boundary connector proxy connect_timeout receive_timeout =
     rbind (make_tts_config voice rate volume pitch boundary) (\<lambda>config.
     rbind (case txt of ArgStr t \<Rightarrow> Inr (communicate_texts t) | _ \<Rightarrow> Inl TypeError) (\<lambda>texts.
     rbind (case proxy of ArgNone \<Rightarrow> Inr None | ArgStr p \<Rightarrow> Inr (Some p) | _ \<Rightarrow> Inl TypeError) (\<lambda>px.
     rbind (arg_int connect_timeout) (\<lambda>ct.
     rbind (arg_int receive_timeout) (\<lambda>rt.
       if connector \<noteq> ArgNone \<and> connector \<noteq> ArgConnector then Inl TypeError
       else Inr \<lparr>cm_config = config, cm_texts = texts, cm_proxy = px, cm_sock_connect = ct,
              cm_sock_read = rt, cm_state = init_state\<rparr>)))))"

section \<open>Messages\<close>

text \<open>\<^verbatim>\<open>data[:k]\<close> and \<^verbatim>\<open>data[k:]\<close>, where a negative index counts from the end.\<close>

definition slice_to :: "int \<Rightarrow> 'a list \<Rightarrow> 'a list" where
  "slice_to k s = (if 0 \<le> k then take (nat k) s else take (length s - nat (- k)) s)"

definition slice_from :: "int \<Rightarrow> 'a list \<Rightarrow> 'a list" where
  "slice_from k s = (if 0 \<le> k then drop (nat k) s else drop (length s - nat (- k)) s)"

text \<open>\<^verbatim>\<open>s.split(b"\r\n")\<close> and \<^verbatim>\<open>s.find(p)\<close>.\<close>

fun split_crlf :: "string \<Rightarrow> string list" where
  "split_crlf [] = [[]]"
| "split_crlf [c] = [[c]]"
| "split_crlf (c # d # s) =
     (if c = CHR 0x0D \<and> d = CHR 0x0A then [] # split_crlf s
      else (case split_crlf (d # s) of [] \<Rightarrow> [[c]] | l # ls \<Rightarrow> (c # l) # ls))"

fun find_sub :: "string \<Rightarrow> string \<Rightarrow> int" where
  "find_sub p [] = (if p = [] then 0 else -1)"
| "find_sub p (c # s) =
     (if str_startswith (c # s) p then 0
      else (let i = find_sub p s in if i < 0 then -1 else i + 1))"

text \<open>The headers as a dictionary: a later line with the same key replaces the value.\<close>

fun header_dict :: "string list \<Rightarrow> (string \<times> string) list \<Rightarrow> (string \<times> string) list res" where
  "header_dict [] hs = Inr hs"
| "header_dict (line # ls) hs =
     (if CHR '':'' \<in> set line
      then header_dict ls (AList.update (fst (str_partition (CHR '':'') line))
             (snd (str_partition (CHR '':'') line)) hs)
      else Inl (ValueError ''not enough values to unpack (expected 2, got 1)''))"

definition get_headers_and_data :: "string \<Rightarrow> int \<Rightarrow> ((string \<times> string) list \<times> string) res" where
  "get_headers_and_data data header_length =
     rbind (header_dict (split_crlf (slice_to header_length data)) [])
       (\<lambda>hs. Inr (hs, slice_from (header_length + 2) data))"

text \<open>\<^verbatim>\<open>s.replace(p, new)\<close> for a non-empty \<open>p\<close>, and \<^verbatim>\<open>xml.sax.saxutils.unescape\<close>.\<close>

function str_replace :: "string \<Rightarrow> string \<Rightarrow> string \<Rightarrow> string" where
  "str_replace p new s =
     (if p = [] \<or> s = [] then s
      else if str_startswith s p then new @ str_replace p new (drop (length p) s)
      else hd s # str_replace p new (tl s))"
  by pat_completeness auto
termination
  by (relation "measure (\<lambda>(p, n, s). length s)") auto

declare str_replace.simps [simp del]

definition xml_unescape :: "string \<Rightarrow> string" where
  "xml_unescape s =
     str_replace (amp # ''amp;'') [amp] (str_replace (amp # ''lt;'') ''<'' (str_replace (amp # ''gt;'') ''>'' s))"

text \<open>
  The exceptions of the package beside Python's own. A refused connection is aiohttp's
  \<^verbatim>\<open>ClientResponseError\<close>, with its status and the headers of the response, if any.
\<close>

datatype tts_error =
    UnknownResponse string
  | UnexpectedResponse string
  | NoAudioReceived string
  | WebSocketError string
  | SkewAdjustmentError string
  | PyRuntimeError string
  | ClientResponseError nat "(string \<times> string) list option"
  | PyError exc

text \<open>\<^verbatim>\<open>for x in v\<close> over a JSON value.\<close>

fun json_elements :: "json \<Rightarrow> json list res" where
  "json_elements (JArr xs) = Inr xs"
| "json_elements (JObj ms) = Inr (map (\<lambda>m. JStr (fst m)) ms)"
| "json_elements (JStr s) = Inr (map (\<lambda>c. JStr [c]) s)"
| "json_elements _ = Inl TypeError"

fun py_ok :: "exc + 'a \<Rightarrow> tts_error + 'a" where
  "py_ok (Inl e) = Inl (PyError e)"
| "py_ok (Inr x) = Inr x"

text \<open>\<^verbatim>\<open>unescape(v)\<close> calls a method of \<^verbatim>\<open>str\<close>.\<close>

fun unescape_json :: "json \<Rightarrow> string res" where
  "unescape_json (JStr s) = Inr (xml_unescape s)"
| "unescape_json _ = Inl AttributeError"

definition parse_boundary :: "json \<Rightarrow> string \<Rightarrow> int \<Rightarrow> tts_chunk res" where
  "parse_boundary meta_obj meta_type compensation =
     rbind (jindex meta_obj ''Data'') (\<lambda>d.
     rbind (jindex d ''Offset'') (\<lambda>off.
     rbind (py_num off) (\<lambda>n.
     rbind (jindex d ''Duration'') (\<lambda>dur.
     rbind (jindex d ''text'') (\<lambda>t.
     rbind (jindex t ''Text'') (\<lambda>txt.
     rbind (unescape_json txt) (\<lambda>u.
       Inr (Boundary meta_type (n + compensation) dur u))))))))"

fun parse_meta_objs :: "json list \<Rightarrow> int \<Rightarrow> tts_error + tts_chunk" where
  "parse_meta_objs [] compensation = Inl (UnexpectedResponse ''No WordBoundary metadata found'')"
| "parse_meta_objs (meta_obj # rest) compensation =
     (case jindex meta_obj ''Type'' of
        Inl e \<Rightarrow> Inl (PyError e)
      | Inr ty \<Rightarrow>
          if ty = JStr ''WordBoundary'' then py_ok (parse_boundary meta_obj ''WordBoundary'' compensation)
          else if ty = JStr ''SentenceBoundary''
          then py_ok (parse_boundary meta_obj ''SentenceBoundary'' compensation)
          else if ty = JStr ''SessionEnd'' then parse_meta_objs rest compensation
          else Inl (UnknownResponse ''Unknown metadata type''))"

definition parse_metadata :: "string \<Rightarrow> int \<Rightarrow> tts_error + tts_chunk" where
  "parse_metadata data compensation =
     rbind (py_ok (rbind (rbind (rbind (utf8_decode data) loads) (\<lambda>j. jindex j ''Metadata'')) json_elements))
       (\<lambda>objs. parse_meta_objs objs compensation)"

section \<open>One turn\<close>

datatype ws_msg = WsText string | WsBinary string | WsError string | WsOther

datatype outcome = GoOn | Break | Raise tts_error

text \<open>What one message does: what is yielded, the state, whether audio has come, what is next.\<close>

definition text_step :: "comm_state \<Rightarrow> string \<Rightarrow> tts_chunk list \<times> comm_state \<times> outcome" where
  "text_step st received =
     (let encoded = utf8 received
      in case get_headers_and_data encoded (find_sub (crlf @ crlf) encoded) of
           Inl e \<Rightarrow> ([], st, Raise (PyError e))
         | Inr (parameters, data) \<Rightarrow>
             (let path = map_of parameters ''Path''
              in if path = Some ''audio.metadata'' then
                   (case parse_metadata data (offset_compensation st) of
                      Inl e \<Rightarrow> ([], st, Raise e)
                    | Inr (Audio d) \<Rightarrow> ([Audio d], st, Raise (PyError (KeyError ''offset'')))
                    | Inr (Boundary ty off dur txt) \<Rightarrow>
                        (case py_num dur of
                           Inl e \<Rightarrow> ([Boundary ty off dur txt], st, Raise (PyError e))
                         | Inr d \<Rightarrow> ([Boundary ty off dur txt], st\<lparr>last_duration_offset := off + d\<rparr>, GoOn)))
                 else if path = Some ''turn.end'' then
                   (let st1 = st\<lparr>offset_compensation := last_duration_offset st\<rparr>
                    in ([], st1\<lparr>offset_compensation := offset_compensation st1 + 8750000\<rparr>, Break))
                 else if path \<noteq> Some ''response'' \<and> path \<noteq> Some ''turn.start''
                 then ([], st, Raise (UnknownResponse ''Unknown path received''))
                 else ([], st, GoOn)))"

definition binary_step :: "string \<Rightarrow> (tts_error + string option)" where
  "binary_step received =
     (if length received < 2
      then Inl (UnexpectedResponse ''We received a binary message, but it is missing the header length.'')
      else
        let header_length = 256 * (ord (received ! 0) :: nat) + ord (received ! 1)
        in if length received < header_length
           then Inl (UnexpectedResponse ''The header length is greater than the length of the data.'')
           else
             (case get_headers_and_data received (int header_length) of
                Inl e \<Rightarrow> Inl (PyError e)
              | Inr (parameters, data) \<Rightarrow>
                  if map_of parameters ''Path'' \<noteq> Some ''audio''
                  then Inl (UnexpectedResponse ''Received binary message, but the path is not audio.'')
                  else
                    (let content_type = map_of parameters ''Content-Type''
                     in if content_type \<noteq> Some ''audio/mpeg'' \<and> content_type \<noteq> None
                        then Inl (UnexpectedResponse ''Received binary message, but with an unexpected Content-Type.'')
                        else if content_type = None
                        then (if length data = 0 then Inr None
                              else Inl (UnexpectedResponse
                                ''Received binary message with no Content-Type, but with data.''))
                        else if length data = 0
                        then Inl (UnexpectedResponse
                          ''Received binary message, but it is missing the audio data.'')
                        else Inr (Some data))))"

text \<open>The loop over the messages of one connection, and the test after it.\<close>

fun receive :: "comm_state \<Rightarrow> bool \<Rightarrow> ws_msg list \<Rightarrow> tts_chunk list \<times> comm_state \<times> tts_error option" where
  "receive st audio_was_received [] =
     ([], st, if audio_was_received then None
              else Some (NoAudioReceived
                ''No audio was received. Please verify that your parameters are correct.''))"
| "receive st audio_was_received (WsText s # ms) =
     (case text_step st s of
        (ys, st', Raise e) \<Rightarrow> (ys, st', Some e)
      | (ys, st', Break) \<Rightarrow> (let (zs, st2, e) = receive st' audio_was_received [] in (ys @ zs, st2, e))
      | (ys, st', GoOn) \<Rightarrow> (let (zs, st2, e) = receive st' audio_was_received ms in (ys @ zs, st2, e)))"
| "receive st audio_was_received (WsBinary b # ms) =
     (case binary_step b of
        Inl e \<Rightarrow> ([], st, Some e)
      | Inr None \<Rightarrow> receive st audio_was_received ms
      | Inr (Some d) \<Rightarrow> (let (zs, st2, e) = receive st True ms in (Audio d # zs, st2, e)))"
| "receive st audio_was_received (WsError s # ms) =
     ([], st, Some (WebSocketError (if s \<noteq> [] then s else ''Unknown error'')))"
| "receive st audio_was_received (WsOther # ms) = receive st audio_was_received ms"

text \<open>
  What the world supplies for one connection: the refusal or the messages of the service, the
  clock (in microseconds), the time stamps that \<^verbatim>\<open>date_to_string\<close> prints, and the random values.
\<close>

datatype connection = Refused nat "(string \<times> string) list option" | Opened "ws_msg list"

record attempt =
  at_now :: int
  at_connection :: connection
  at_stamp1 :: string
  at_stamp2 :: string
  at_conn_id :: string
  at_request_id :: string
  at_muid :: string

datatype sent = Connect string "(string \<times> string) list" | SendStr string

definition dq :: string where "dq = [CHR 0x22]"

definition command_request :: "tts_config \<Rightarrow> string \<Rightarrow> string" where
  "command_request config stamp =
     (let word_boundary = tc_boundary config = ''WordBoundary'';
          wd = (if word_boundary then ''true'' else ''false'');
          sq = (if \<not> word_boundary then ''true'' else ''false'')
      in ''X-Timestamp:'' @ stamp @ crlf
         @ ''Content-Type:application/json; charset=utf-8'' @ crlf
         @ ''Path:speech.config'' @ crlf @ crlf
         @ ''{'' @ dq @ ''context'' @ dq @ '':{'' @ dq @ ''synthesis'' @ dq @ '':{'' @ dq @ ''audio'' @ dq
         @ '':{'' @ dq @ ''metadataoptions'' @ dq @ '':{''
         @ dq @ ''sentenceBoundaryEnabled'' @ dq @ '':'' @ dq @ sq @ dq @ '',''
         @ dq @ ''wordBoundaryEnabled'' @ dq @ '':'' @ dq @ wd @ dq
         @ ''},'' @ dq @ ''outputFormat'' @ dq @ '':'' @ dq @ ''audio-24khz-48kbitrate-mono-mp3'' @ dq
         @ ''}}}}'' @ crlf)"

definition connect_url :: "hashes \<Rightarrow> attempt \<Rightarrow> int \<Rightarrow> string" where
  "connect_url H a skew =
     WSS_URL @ ''&ConnectionId='' @ at_conn_id a
     @ ''&Sec-MS-GEC='' @ generate_sec_ms_gec H (at_now a) skew
     @ ''&Sec-MS-GEC-Version='' @ SEC_MS_GEC_VERSION"

definition stream_once ::
    "hashes \<Rightarrow> tts_config \<Rightarrow> attempt \<Rightarrow> int \<Rightarrow> comm_state
     \<Rightarrow> sent list \<times> tts_chunk list \<times> comm_state \<times> tts_error option" where
  "stream_once H config a skew st =
     (case headers_with_muid WSS_HEADERS (at_muid a) of
        Inl e \<Rightarrow> ([], [], st, Some (PyError e))
      | Inr headers \<Rightarrow>
          (let opened = Connect (connect_url H a skew) headers
           in case at_connection a of
                Refused status hs \<Rightarrow> ([opened], [], st, Some (ClientResponseError status hs))
              | Opened ms \<Rightarrow>
                  (case mkssml config (PyBytes (partial_text st)) of
                     Inl e \<Rightarrow> ([opened, SendStr (command_request config (at_stamp1 a))], [], st, Some (PyError e))
                   | Inr ssml \<Rightarrow>
                       ([opened, SendStr (command_request config (at_stamp1 a)),
                         SendStr (ssml_headers_plus_data (at_request_id a) (at_stamp2 a) ssml)],
                        receive st False ms))))"

section \<open>The stream\<close>

text \<open>
  The texts one after the other; the \<open>n\<close>-th connection is \<open>world n\<close>. After a refusal with status
  403 the clock is corrected and the text is tried once more. The result ends with the number of
  connections made and the skew.
\<close>

fun stream_texts ::
    "hashes \<Rightarrow> tts_config \<Rightarrow> (nat \<Rightarrow> attempt) \<Rightarrow> nat \<Rightarrow> int \<Rightarrow> comm_state \<Rightarrow> string list
     \<Rightarrow> sent list \<times> tts_chunk list \<times> comm_state \<times> tts_error option \<times> nat \<times> int" where
  "stream_texts H config world n skew st [] = ([], [], st, None, n, skew)"
| "stream_texts H config world n skew st (t # ts) =
     (case stream_once H config (world n) skew (st\<lparr>partial_text := t\<rparr>) of
        (out, ys, st1, None) \<Rightarrow>
          (let (out', ys', rest) = stream_texts H config world (n + 1) skew st1 ts
           in (out @ out', ys @ ys', rest))
      | (out, ys, st1, Some (ClientResponseError status hs)) \<Rightarrow>
          if status \<noteq> 403 then (out, ys, st1, Some (ClientResponseError status hs), n + 1, skew)
          else
            (case drm_handle_error hs (at_now (world n)) skew of
               Inl msg \<Rightarrow> (out, ys, st1, Some (SkewAdjustmentError msg), n + 1, skew)
             | Inr skew' \<Rightarrow>
                 (case stream_once H config (world (n + 1)) skew' st1 of
                    (out2, ys2, st2, None) \<Rightarrow>
                      (let (out', ys', rest) = stream_texts H config world (n + 2) skew' st2 ts
                       in (out @ out2 @ out', ys @ ys2 @ ys', rest))
                  | (out2, ys2, st2, Some e) \<Rightarrow> (out @ out2, ys @ ys2, st2, Some e, n + 2, skew')))
      | (out, ys, st1, Some e) \<Rightarrow> (out, ys, st1, Some e, n + 1, skew))"

definition comm_stream ::
    "hashes \<Rightarrow> (nat \<Rightarrow> attempt) \<Rightarrow> nat \<Rightarrow> int \<Rightarrow> communicate
     \<Rightarrow> sent list \<times> tts_chunk list \<times> communicate \<times> tts_error option \<times> nat \<times> int" where
  "comm_stream H world n skew c =
     (if stream_was_called (cm_state c)
      then ([], [], c, Some (PyRuntimeError ''stream can only be called once.''), n, skew)
      else
        (case stream_texts H (cm_config c) world n skew ((cm_state c)\<lparr>stream_was_called := True\<rparr>)
                (fst (cm_texts c)) of
           (out, ys, st, None, n', skew') \<Rightarrow>
             (out, ys, c\<lparr>cm_state := st\<rparr>, map_option PyError (snd (cm_texts c)), n', skew')
         | (out, ys, st, Some e, n', skew') \<Rightarrow> (out, ys, c\<lparr>cm_state := st\<rparr>, Some e, n', skew')))"

section \<open>Writing what is streamed\<close>

text \<open>\<^verbatim>\<open>save\<close>: the audio file and, if it is wanted, the file of the boundaries, one JSON line each.\<close>

fun chunk_line :: "tts_chunk \<Rightarrow> string" where
  "chunk_line (Audio d) = []"
| "chunk_line (Boundary ty off dur txt) =
     dumps spaced_ascii (JObj [(''type'', JStr ty), (''offset'', JInt off), (''duration'', dur), (''text'', JStr txt)])
     @ [nl]"

fun chunk_audio :: "tts_chunk \<Rightarrow> string" where
  "chunk_audio (Audio d) = d"
| "chunk_audio (Boundary ty off dur txt) = []"

definition comm_save ::
    "hashes \<Rightarrow> (nat \<Rightarrow> attempt) \<Rightarrow> nat \<Rightarrow> int \<Rightarrow> communicate \<Rightarrow> bool
     \<Rightarrow> string \<times> string option \<times> communicate \<times> tts_error option" where
  "comm_save H world n skew c with_metadata =
     (let (out, ys, c', e, n', skew') = comm_stream H world n skew c
      in (concat (map chunk_audio ys),
          if with_metadata then Some (concat (map chunk_line ys)) else None, c', e))"

text \<open>
  \<^verbatim>\<open>stream_sync\<close>: the thread puts the items into the queue, and \<^verbatim>\<open>None\<close> after the last one if the
  stream ended without an exception; the consumer takes items until it meets \<^verbatim>\<open>None\<close>, and waits
  for ever when the queue is empty and the thread has ended. Waiting for ever is \<open>None\<close>, beside
  the items yielded before.
\<close>

definition sync_queue :: "tts_chunk list \<Rightarrow> tts_error option \<Rightarrow> tts_chunk option list" where
  "sync_queue ys e = map Some ys @ (case e of None \<Rightarrow> [None] | Some _ \<Rightarrow> [])"

fun sync_consume :: "tts_chunk option list \<Rightarrow> tts_chunk list \<times> unit option" where
  "sync_consume [] = ([], None)"
| "sync_consume (None # q) = ([], Some ())"
| "sync_consume (Some y # q) = (let (ys, r) = sync_consume q in (y # ys, r))"

definition stream_sync ::
    "hashes \<Rightarrow> (nat \<Rightarrow> attempt) \<Rightarrow> nat \<Rightarrow> int \<Rightarrow> communicate \<Rightarrow> tts_chunk list \<times> unit option" where
  "stream_sync H world n skew c =
     (let (out, ys, c', e, n', skew') = comm_stream H world n skew c
      in sync_consume (sync_queue ys e))"

text \<open>
  \<^verbatim>\<open>_run_tts\<close> of \<^verbatim>\<open>util.py\<close>, from the files opened on: audio is written as it comes, boundaries
  are fed to a \<open>SubMaker\<close>, and the subtitles are written at the end if a file for them was given.
\<close>

fun tts_consume :: "sub_maker \<Rightarrow> tts_chunk list \<Rightarrow> string \<times> sub_maker \<times> exc option" where
  "tts_consume m [] = ([], m, None)"
| "tts_consume m (Audio d # ys) = (let (a, m', e) = tts_consume m ys in (d @ a, m', e))"
| "tts_consume m (Boundary ty off dur txt # ys) =
     (if ty = ''WordBoundary'' \<or> ty = ''SentenceBoundary'' then
        (case feed m (Boundary ty off dur txt) of
           (Some e, m') \<Rightarrow> ([], m', Some e)
         | (None, m') \<Rightarrow> tts_consume m' ys)
      else tts_consume m ys)"

definition run_tts ::
    "hashes \<Rightarrow> (nat \<Rightarrow> attempt) \<Rightarrow> communicate \<Rightarrow> bool \<Rightarrow> string \<times> string option \<times> tts_error option" where
  "run_tts H world c with_subtitles =
     (let (out, ys, c', e, n', skew') = comm_stream H world 0 0 c;
          (audio, m, fe) = tts_consume sub_maker_init ys
      in case fe of
           Some x \<Rightarrow> (audio, None, Some (PyError x))
         | None \<Rightarrow>
             (case e of
                Some x \<Rightarrow> (audio, None, Some x)
              | None \<Rightarrow>
                  if with_subtitles then
                    (case get_srt m of
                       Inl x \<Rightarrow> (audio, None, Some (PyError x))
                     | Inr t \<Rightarrow> (audio, Some t, None))
                  else (audio, None, None)))"

section \<open>What a turn yields\<close>

definition is_audio :: "tts_chunk \<Rightarrow> bool" where
  "is_audio y \<longleftrightarrow> (case y of Audio d \<Rightarrow> d \<noteq> [] | _ \<Rightarrow> False)"

text \<open>The compensation only moves the offset.\<close>

fun shift :: "int \<Rightarrow> tts_chunk \<Rightarrow> tts_chunk" where
  "shift c (Audio d) = Audio d"
| "shift c (Boundary ty off dur txt) = Boundary ty (off + c) dur txt"

lemma map_sum_rbind: "map_sum id f (rbind m g) = rbind m (\<lambda>x. map_sum id f (g x))"
  by (cases m) auto

lemma map_sum_py_ok: "map_sum id f (py_ok m) = py_ok (map_sum id f m)"
  by (cases m) auto

lemma parse_boundary_shift: "parse_boundary j ty c = map_sum id (shift c) (parse_boundary j ty 0)"
  by (simp add: parse_boundary_def map_sum_rbind)

lemma parse_meta_objs_shift: "parse_meta_objs js c = map_sum id (shift c) (parse_meta_objs js 0)"
proof (induction js)
  case (Cons j js)
  have "py_ok (parse_boundary j t c) = map_sum id (shift c) (py_ok (parse_boundary j t 0))" for t
    by (subst parse_boundary_shift) (simp only: map_sum_py_ok)
  then show ?case using Cons by (cases "jindex j ''Type''") (simp_all add: id_def)
qed simp

lemma parse_metadata_shift: "parse_metadata data c = map_sum id (shift c) (parse_metadata data 0)"
proof -
  have "parse_meta_objs js c = map_sum id (shift c) (parse_meta_objs js 0)" for js
    by (rule parse_meta_objs_shift)
  then show ?thesis unfolding parse_metadata_def map_sum_rbind by simp
qed

lemma py_ok_error: "py_ok m = Inl e \<Longrightarrow> e \<noteq> ClientResponseError n hs"
  by (cases m) auto

lemma parse_metadata_boundary:
  "parse_metadata data c = Inr y \<Longrightarrow> \<exists>ty off dur tx. y = Boundary ty off dur tx"
proof -
  have b: "\<exists>ty off dur tx. y = Boundary ty off dur tx" if "py_ok (parse_boundary j t c) = Inr y" for j t
    using that by (cases "parse_boundary j t c") (auto simp: parse_boundary_def exc_simps)
  have "parse_meta_objs js c = Inr y \<Longrightarrow> \<exists>ty off dur tx. y = Boundary ty off dur tx" for js
    by (induction js) (auto split: sum.splits if_splits intro: b)
  then show "parse_metadata data c = Inr y \<Longrightarrow> \<exists>ty off dur tx. y = Boundary ty off dur tx"
    by (auto simp: parse_metadata_def exc_simps)
qed

lemma parse_metadata_error: "parse_metadata data c = Inl e \<Longrightarrow> e \<noteq> ClientResponseError n hs"
proof -
  have "parse_meta_objs js c = Inl e \<Longrightarrow> e \<noteq> ClientResponseError n hs" for js
    by (induction js) (auto split: sum.splits if_splits dest: py_ok_error)
  then show "parse_metadata data c = Inl e \<Longrightarrow> e \<noteq> ClientResponseError n hs"
    by (auto simp: parse_metadata_def exc_simps dest: py_ok_error)
qed

text \<open>The cases of a text message.\<close>

lemma text_step_cases:
  obtains (Fail) e where "text_step st s = ([], st, Raise e)" "\<forall>n hs. e \<noteq> ClientResponseError n hs"
  | (Bad) ty off dur tx e where
      "text_step st s = ([Boundary ty (off + offset_compensation st) dur tx], st, Raise (PyError e))"
      "text_step init_state s = ([Boundary ty off dur tx], init_state, Raise (PyError e))"
  | (Meta) ty off dur tx d where "py_num dur = Inr d"
      "text_step st s = ([Boundary ty (off + offset_compensation st) dur tx],
         st\<lparr>last_duration_offset := off + offset_compensation st + d\<rparr>, GoOn)"
      "text_step init_state s = ([Boundary ty off dur tx], init_state\<lparr>last_duration_offset := off + d\<rparr>, GoOn)"
  | (End) "text_step st s = ([], st\<lparr>offset_compensation := last_duration_offset st + 8750000\<rparr>, Break)"
      "\<exists>st0. text_step init_state s = ([], st0, Break)"
  | (Skip) "text_step st s = ([], st, GoOn)" "text_step init_state s = ([], init_state, GoOn)"
proof (cases "get_headers_and_data (utf8 s) (find_sub (crlf @ crlf) (utf8 s))")
  case (Inl e)
  then show ?thesis by (intro Fail [of "PyError e"]) (simp_all add: text_step_def)
next
  case (Inr p)
  obtain hs data where hd: "p = (hs, data)" by (cases p)
  consider "map_of hs ''Path'' = Some ''audio.metadata''" | "map_of hs ''Path'' = Some ''turn.end''"
    | "map_of hs ''Path'' = Some ''response'' \<or> map_of hs ''Path'' = Some ''turn.start''"
    | "map_of hs ''Path'' \<notin> Some ` {''audio.metadata'', ''turn.end'', ''response'', ''turn.start''}"
    by blast
  then show ?thesis
  proof cases
    case 1
    show ?thesis
    proof (cases "parse_metadata data 0")
      case (Inl e)
      then have "parse_metadata data (offset_compensation st) = Inl e"
        using parse_metadata_shift [of data "offset_compensation st"] by simp
      then show ?thesis using 1 Inr hd parse_metadata_error [OF Inl]
        by (intro Fail [of e]) (simp_all add: text_step_def)
    next
      case (Inr y)
      then obtain ty off dur tx where y: "y = Boundary ty off dur tx"
        using parse_metadata_boundary by blast
      then have "parse_metadata data (offset_compensation st) = Inr (Boundary ty (off + offset_compensation st) dur tx)"
        using parse_metadata_shift [of data "offset_compensation st"] Inr by simp
      then show ?thesis
        using 1 \<open>get_headers_and_data _ _ = Inr p\<close> hd Inr y
        by (cases "py_num dur")
          (auto simp: text_step_def init_state_def intro: Bad Meta)
    qed
  next
    case 2
    then show ?thesis using Inr hd by (intro End) (simp_all add: text_step_def Let_def)
  next
    case 3
    then show ?thesis using Inr hd by (intro Skip) (auto simp: text_step_def Let_def)
  next
    case 4
    then show ?thesis using Inr hd
      by (intro Fail [of "UnknownResponse ''Unknown path received''"]) (auto simp: text_step_def Let_def)
  qed
qed

lemma binary_step_ok:
  "binary_step b = Inr (Some d) \<Longrightarrow> d \<noteq> []"
  "binary_step b = Inl e \<Longrightarrow> e \<noteq> ClientResponseError n hs"
  by (auto simp: binary_step_def Let_def split: if_splits sum.splits)

text \<open>One connection: how it can end, and the audio it yields.\<close>

lemma receive_error: "receive st a ms = (ys, st', Some e) \<Longrightarrow> e \<noteq> ClientResponseError n hs"
proof (induction ms arbitrary: st a ys)
  case Nil
  then show ?case by (auto split: if_splits)
next
  case (Cons m ms)
  show ?case
  proof (cases m)
    case (WsText s)
    show ?thesis
      by (rule text_step_cases [of st s]) (use Cons WsText in \<open>auto split: prod.splits if_splits\<close>)
  next
    case (WsBinary b)
    then show ?thesis using Cons binary_step_ok(2) [of b]
      by (auto split: prod.splits sum.splits option.splits)
  qed (use Cons in auto)
qed

lemma text_step_no_audio: "text_step st s = (ys, st', r) \<Longrightarrow> Audio d \<notin> set ys"
  by (rule text_step_cases [of st s]) auto

lemma receive_audio:
  "receive st a ms = (ys, st', e) \<Longrightarrow>
   (\<forall>d. Audio d \<in> set ys \<longrightarrow> d \<noteq> []) \<and> (e = None \<longrightarrow> a \<or> (\<exists>y \<in> set ys. is_audio y))"
proof (induction ms arbitrary: st a ys)
  case Nil
  then show ?case by (auto split: if_splits)
next
  case (Cons m ms)
  show ?case
  proof (cases m)
    case (WsText s)
    show ?thesis
      by (rule text_step_cases [of st s])
        (use Cons WsText in \<open>fastforce split: prod.splits if_splits\<close>)+
  next
    case (WsBinary b)
    show ?thesis
    proof (cases "binary_step b")
      case (Inl x)
      then show ?thesis using Cons.prems WsBinary by auto
    next
      case (Inr o')
      then show ?thesis using Cons WsBinary binary_step_ok(1) [of b]
        by (cases o') (fastforce simp: is_audio_def split: prod.splits)+
    qed
  qed (use Cons in auto)
qed

section \<open>The requests of a stream\<close>

definition ssml_request :: "tts_config \<Rightarrow> string \<Rightarrow> sent \<Rightarrow> bool" where
  "ssml_request config t r \<longleftrightarrow>
     (\<exists>request_id stamp ssml. mkssml config (PyBytes t) = Inr ssml
        \<and> r = SendStr (ssml_headers_plus_data request_id stamp ssml))"

lemma headers_ok: "\<exists>hs. headers_with_muid WSS_HEADERS m = Inr hs"
  using wss_headers_ok by (simp add: is_ok_iff)

lemma stream_once_cases:
  assumes "stream_once H config a skew st = (out, ys, st', e)"
  obtains (Refused) u hd n hs where "at_connection a = Refused n hs" "out = [Connect u hd]" "ys = []"
      "st' = st" "e = Some (ClientResponseError n hs)"
  | (Bytes) u hd c x where "out = [Connect u hd, c]" "ys = []" "st' = st" "e = Some (PyError x)"
  | (Opened) u hd c r ms where "at_connection a = Opened ms" "out = [Connect u hd, c, r]"
      "ssml_request config (partial_text st) r" "receive st False ms = (ys, st', e)"
proof -
  obtain hd where hd: "headers_with_muid WSS_HEADERS (at_muid a) = Inr hd" using headers_ok by blast
  show ?thesis
  proof (cases "at_connection a")
    case (Refused n hs)
    then show ?thesis using assms hd by (intro that(1)) (auto simp: stream_once_def)
  next
    case (Opened ms)
    show ?thesis
    proof (cases "mkssml config (PyBytes (partial_text st))")
      case (Inl x)
      then show ?thesis using assms hd Opened by (intro that(2)) (auto simp: stream_once_def)
    next
      case (Inr ssml)
      then show ?thesis using assms hd Opened
        by (intro that(3)) (auto simp: stream_once_def ssml_request_def)
    qed
  qed
qed

lemma stream_once_ok:
  assumes "stream_once H config a skew st = (out, ys, st', None)"
  shows "(\<exists>u hs c r. out = [Connect u hs, c, r] \<and> ssml_request config (partial_text st) r)
    \<and> (\<exists>y \<in> set ys. is_audio y)"
  using assms by (cases rule: stream_once_cases) (auto dest: receive_audio)

lemma stream_once_audio:
  "stream_once H config a skew st = (out, ys, st', e) \<Longrightarrow> \<forall>d. Audio d \<in> set ys \<longrightarrow> d \<noteq> []"
  by (erule stream_once_cases) (auto dest: receive_audio)

lemma stream_once_refused:
  "stream_once H config a skew st = (out, ys, st', Some (ClientResponseError n hs)) \<Longrightarrow>
   ys = [] \<and> st' = st \<and> (\<exists>u h. out = [Connect u h])"
  by (erule stream_once_cases) (auto dest: receive_error)

text \<open>
  The rounds of \<open>stream_texts\<close>: an error that ends the stream, a text that is served at once, or
  one that is served after the clock is corrected.
\<close>

lemma stream_texts_round:
  assumes "stream_texts H config world n skew st (t # ts) = (out, ys, st', e, n', skew')"
  obtains (Stop) m k o' x where "e \<noteq> None"
      "stream_once H config (world m) k (st\<lparr>partial_text := t\<rparr>) = (o', ys, st', Some x)"
  | (Next) out1 ys1 st1 out2 ys2 k m pre where
      "stream_once H config (world m) k (st\<lparr>partial_text := t\<rparr>) = (out1, ys1, st1, None)"
      "out = pre @ out1 @ out2" "ys = ys1 @ ys2"
      "stream_texts H config world (m + 1) k st1 ts = (out2, ys2, st', e, n', skew')"
proof -
  obtain o1 y1 s1 e1 where one: "stream_once H config (world n) skew (st\<lparr>partial_text := t\<rparr>) = (o1, y1, s1, e1)"
    by (metis prod_cases4)
  obtain o3 y3 s3 e3 n3 k3 where three: "stream_texts H config world (n + 1) skew s1 ts = (o3, y3, s3, e3, n3, k3)"
    by (metis prod_cases6)
  consider "e1 = None" | status hs where "e1 = Some (ClientResponseError status hs)"
    | x where "e1 = Some x" "\<forall>status hs. x \<noteq> ClientResponseError status hs"
    by (cases e1) blast+
  then show ?thesis
  proof cases
    case 1
    then show ?thesis using assms one three by (intro that(2) [of n skew o1 y1 s1 "[]" o3 y3]) auto
  next
    case 2
    note refused = stream_once_refused [OF one [unfolded 2]]
    show ?thesis
    proof (cases "status = 403 \<and> is_ok (drm_handle_error hs (at_now (world n)) skew)")
      case False
      then show ?thesis using assms one 2
        by (intro that(1) [of n skew o1 "ClientResponseError status hs"])
          (auto split: sum.splits if_splits)
    next
      case True
      then obtain k where k: "drm_handle_error hs (at_now (world n)) skew = Inr k" by (auto simp: is_ok_iff)
      obtain o2 y2 s2 e2 where two: "stream_once H config (world (n + 1)) k s1 = (o2, y2, s2, e2)"
        by (metis prod_cases4)
      obtain o4 y4 s4 e4 n4 k4 where four: "stream_texts H config world (n + 2) k s2 ts = (o4, y4, s4, e4, n4, k4)"
        by (metis prod_cases6)
      show ?thesis
      proof (cases e2)
        case None
        then show ?thesis using assms one 2 True k two four refused
          by (intro that(2) [of "n + 1" k o2 y2 s2 o1 o4 y4]) auto
      next
        case (Some x)
        then show ?thesis using assms one 2 True k two refused
          by (intro that(1) [of "n + 1" k o2 x]) auto
      qed
    qed
  next
    case 3
    then show ?thesis using assms one by (intro that(1) [of n skew o1 x]) (cases x, auto)+
  qed
qed

lemma subseq_middle: "subseq rs b \<Longrightarrow> subseq (r # rs) (p @ [u, c, r] @ b)"
proof -
  assume "subseq rs b"
  then have "subseq (r # rs) (r # b)" by simp
  then have "subseq (r # rs) (u # c # r # b)" using list_emb_Cons by blast
  then have "subseq (r # rs) (p @ u # c # r # b)" by (rule list_emb_append2)
  then show "subseq (r # rs) (p @ [u, c, r] @ b)" by (simp only: append_Cons append_Nil)
qed

lemma stream_texts_ok:
  "stream_texts H config world n skew st ts = (out, ys, st', None, n', skew') \<Longrightarrow>
   (\<exists>reqs. list_all2 (ssml_request config) ts reqs \<and> subseq reqs out)
   \<and> length ts \<le> length (filter is_audio ys)"
proof (induction ts arbitrary: n skew st out ys)
  case (Cons t ts)
  from Cons.prems show ?case
  proof (cases rule: stream_texts_round)
    case (Next out1 ys1 st1 out2 ys2 k m pre)
    obtain u hs c r where o: "out1 = [Connect u hs, c, r]" "ssml_request config t r"
      using stream_once_ok [OF Next(1)] by auto
    have "filter is_audio ys1 \<noteq> []"
      using stream_once_ok [OF Next(1)] by (auto simp: filter_empty_conv)
    then have "Suc 0 \<le> length (filter is_audio ys1)" by (simp add: Suc_le_eq)
    moreover obtain reqs where "list_all2 (ssml_request config) ts reqs" "subseq reqs out2"
        "length ts \<le> length (filter is_audio ys2)"
      using Cons.IH [OF Next(4)] by blast
    ultimately show ?thesis using o Next(2,3) subseq_middle [of reqs out2 r pre]
      by (intro conjI exI [of _ "r # reqs"]) auto
  qed simp
qed simp

lemma stream_texts_audio:
  "stream_texts H config world n skew st ts = (out, ys, st', e, n', skew') \<Longrightarrow> \<forall>d. Audio d \<in> set ys \<longrightarrow> d \<noteq> []"
proof (induction ts arbitrary: n skew st out ys)
  case (Cons t ts)
  from Cons.prems show ?case
  proof (cases rule: stream_texts_round)
    case (Stop m k o' x)
    then show ?thesis using stream_once_audio by blast
  next
    case (Next out1 ys1 st1 out2 ys2 k m pre)
    then show ?thesis using stream_once_audio [OF Next(1)] Cons.IH [OF Next(4)] by auto
  qed
qed simp

lemma text_step_called: "text_step st s = (ys, st', r) \<Longrightarrow> stream_was_called st' = stream_was_called st"
  by (rule text_step_cases [of st s]) auto

lemma receive_called: "receive st a ms = (ys, st', e) \<Longrightarrow> stream_was_called st' = stream_was_called st"
  by (induction st a ms arbitrary: ys rule: receive.induct)
    (fastforce split: prod.splits outcome.splits sum.splits option.splits if_splits dest: text_step_called)+

lemma stream_once_called:
  "stream_once H config a skew st = (out, ys, st', e) \<Longrightarrow> stream_was_called st' = stream_was_called st"
  by (erule stream_once_cases) (auto dest: receive_called)

lemma stream_texts_called:
  "stream_texts H config world n skew st ts = (out, ys, st', e, n', skew') \<Longrightarrow>
   stream_was_called st' = stream_was_called st"
proof (induction ts arbitrary: n skew st out ys)
  case (Cons t ts)
  from Cons.prems show ?case
    by (cases rule: stream_texts_round) (auto dest!: stream_once_called Cons.IH)
qed simp

section \<open>The offsets of a stream\<close>

text \<open>The offsets of the boundaries that are yielded, in order.\<close>

fun offsets :: "tts_chunk list \<Rightarrow> int list" where
  "offsets [] = []"
| "offsets (Audio d # ys) = offsets ys"
| "offsets (Boundary ty off dur txt # ys) = off # offsets ys"

lemma offsets_append [simp]: "offsets (xs @ ys) = offsets xs @ offsets ys"
  by (induction xs rule: offsets.induct) auto

text \<open>
  A turn of the service in which the boundaries come in the order of their offsets, none before
  \<open>lo\<close> and none of negative duration, and which is ended by a \<^verbatim>\<open>turn.end\<close> and not by the socket
  being closed.
\<close>

fun turn_sorted :: "int \<Rightarrow> ws_msg list \<Rightarrow> bool" where
  "turn_sorted lo [] = False"
| "turn_sorted lo (WsText s # ms) =
     (case text_step init_state s of
        (ys, st, r) \<Rightarrow>
          (\<forall>off \<in> set (offsets ys). lo \<le> off \<and> (r = GoOn \<longrightarrow> off \<le> last_duration_offset st))
          \<and> (r = GoOn \<longrightarrow> turn_sorted (foldl max lo (offsets ys)) ms))"
| "turn_sorted lo (WsBinary b # ms) = turn_sorted lo ms"
| "turn_sorted lo (WsError s # ms) = True"
| "turn_sorted lo (WsOther # ms) = turn_sorted lo ms"

lemma receive_sorted:
  "turn_sorted lo ms \<Longrightarrow> 0 \<le> lo
   \<Longrightarrow> offset_compensation st + lo \<le> last_duration_offset st + 8750000
   \<Longrightarrow> receive st a ms = (ys, st', e)
   \<Longrightarrow> sorted (offsets ys) \<and> (\<forall>x \<in> set (offsets ys). offset_compensation st + lo \<le> x)
     \<and> (e = None \<longrightarrow> offset_compensation st + lo \<le> offset_compensation st'
          \<and> (\<forall>x \<in> set (offsets ys). x \<le> offset_compensation st')
          \<and> offset_compensation st' = last_duration_offset st' + 8750000)"
proof (induction ms arbitrary: lo st a ys)
  case (Cons m ms)
  show ?case
  proof (cases m)
    case (WsText s)
    show ?thesis
    proof (cases rule: text_step_cases [of st s])
      case (Fail x)
      then show ?thesis using Cons.prems WsText by auto
    next
      case (Bad ty off dur tx x)
      then show ?thesis using Cons.prems WsText by (auto simp: init_state_def)
    next
      case (Meta ty off dur tx d)
      let ?st = "st\<lparr>last_duration_offset := off + offset_compensation st + d\<rparr>"
      obtain zs where r: "receive ?st a ms = (zs, st', e)"
          and ys: "ys = Boundary ty (off + offset_compensation st) dur tx # zs"
        using Cons.prems(4) WsText Meta(2) by (auto split: prod.splits)
      have b: "lo \<le> off" "off \<le> off + d" "turn_sorted off ms"
        using Cons.prems(1) WsText Meta(3) by (auto simp: max_def init_state_def)
      have comp: "offset_compensation ?st = offset_compensation st" by simp
      have inv: "offset_compensation ?st + off \<le> last_duration_offset ?st + 8750000" using b(2) by simp
      have pos: "0 \<le> off" using Cons.prems(2) b(1) by simp
      have "sorted (offsets zs) \<and> (\<forall>x \<in> set (offsets zs). offset_compensation st + off \<le> x)
          \<and> (e = None \<longrightarrow> offset_compensation st + off \<le> offset_compensation st'
            \<and> (\<forall>x \<in> set (offsets zs). x \<le> offset_compensation st')
            \<and> offset_compensation st' = last_duration_offset st' + 8750000)"
        using Cons.IH [OF b(3) pos inv r] unfolding comp .
      then show ?thesis using b(1) unfolding ys by fastforce
    next
      case End
      then show ?thesis using Cons.prems WsText by auto
    next
      case Skip
      then show ?thesis using Cons.prems WsText Cons.IH [of lo st a]
        by (auto split: prod.splits)
    qed
  next
    case (WsBinary b)
    show ?thesis
    proof (cases "binary_step b")
      case (Inl x)
      then show ?thesis using Cons.prems WsBinary by auto
    next
      case (Inr o')
      show ?thesis
      proof (cases o')
        case None
        then show ?thesis using Cons.prems Cons.IH [of lo st a ys] WsBinary Inr by auto
      next
        case (Some d)
        obtain zs st2 e2 where r: "receive st True ms = (zs, st2, e2)" by (metis prod_cases3)
        then show ?thesis using Cons.prems Cons.IH [of lo st True zs] WsBinary Inr Some by auto
      qed
    qed
  next
    case (WsError x)
    then show ?thesis using Cons.prems by auto
  next
    case WsOther
    then show ?thesis using Cons.prems Cons.IH [of lo st a ys] by auto
  qed
qed simp

definition world_sorted :: "(nat \<Rightarrow> attempt) \<Rightarrow> bool" where
  "world_sorted world \<longleftrightarrow> (\<forall>k ms. at_connection (world k) = Opened ms \<longrightarrow> turn_sorted 0 ms)"

lemma stream_once_sorted:
  assumes "stream_once H config (world k) skew st = (out, ys, st', e)" and "world_sorted world"
    and "offset_compensation st \<le> last_duration_offset st + 8750000"
  shows "sorted (offsets ys) \<and> (\<forall>x \<in> set (offsets ys). offset_compensation st \<le> x)
    \<and> (e = None \<longrightarrow> offset_compensation st \<le> offset_compensation st'
         \<and> (\<forall>x \<in> set (offsets ys). x \<le> offset_compensation st')
         \<and> offset_compensation st' \<le> last_duration_offset st' + 8750000)"
  using assms(1)
proof (cases rule: stream_once_cases)
  case (Opened u hd c r ms)
  then have "turn_sorted 0 ms" using assms(2) by (simp add: world_sorted_def)
  from receive_sorted [OF this _ _ Opened(4)] assms(3) show ?thesis by auto
qed auto

lemma stream_texts_sorted:
  "stream_texts H config world n skew st ts = (out, ys, st', e, n', skew') \<Longrightarrow> world_sorted world \<Longrightarrow>
   offset_compensation st \<le> last_duration_offset st + 8750000 \<Longrightarrow>
   sorted (offsets ys) \<and> (\<forall>x \<in> set (offsets ys). offset_compensation st \<le> x)"
proof (induction ts arbitrary: n skew st out ys)
  case (Cons t ts)
  from Cons.prems(1) show ?case
  proof (cases rule: stream_texts_round)
    case (Stop m k o' x)
    then show ?thesis using stream_once_sorted [of H config world m, OF Stop(2)] Cons.prems(2,3) by simp
  next
    case (Next out1 ys1 st1 out2 ys2 k m pre)
    have one: "sorted (offsets ys1)" "\<forall>x \<in> set (offsets ys1). offset_compensation st \<le> x"
        "offset_compensation st \<le> offset_compensation st1"
        "\<forall>x \<in> set (offsets ys1). x \<le> offset_compensation st1"
        "offset_compensation st1 \<le> last_duration_offset st1 + 8750000"
      using stream_once_sorted [of H config world m, OF Next(1)] Cons.prems(2,3) by auto
    then show ?thesis using Cons.IH [OF Next(4) Cons.prems(2)] Next(3)
      by (fastforce simp: sorted_append)
  qed
qed simp

section \<open>End to end\<close>

text \<open>
  C30: When the stream of a Communicate object ends without an exception, the whole text was
  spoken: its cleaned text is a sequence of pieces with only white space between them, a request
  for every piece, carrying the escaped piece, was sent in their order, at least as many audio
  chunks were yielded as there are pieces, none of them empty, and a second call of stream on
  the object raises without making any connection.
\<close>

theorem text_is_spoken:
  assumes "communicate_init (ArgStr txt0) voice rate volume pitch boundary connector proxy ct rt = Inr c"
    and "comm_stream H world n skew c = (out, ys, c', None, n', skew')"
  shows "(\<exists>pieces reqs. separated pieces (cleaned txt0)
      \<and> list_all2 (\<lambda>p. ssml_request (cm_config c) (utf8 (xml_escape p))) pieces reqs \<and> subseq reqs out
      \<and> length pieces \<le> length (filter is_audio ys))
    \<and> (\<forall>d. Audio d \<in> set ys \<longrightarrow> d \<noteq> [])
    \<and> comm_stream H world n2 skew2 c' = ([], [], c', Some (PyRuntimeError ''stream can only be called once.''), n2, skew2)"
proof -
  have c: "cm_texts c = communicate_texts txt0" "cm_state c = init_state"
    using assms(1) by (auto simp: communicate_init_def exc_simps split: if_splits)
  obtain pieces where p: "communicate_texts txt0 = (map (\<lambda>p. utf8 (xml_escape p)) pieces, None)"
      "separated pieces (cleaned txt0)"
    using split_enc [of 4096 "cleaned txt0"]
    by (auto simp: communicate_texts_eq good_pieces_def utf8_escape)
  obtain o' zs st e m k where r: "stream_texts H (cm_config c) world n skew
      (init_state\<lparr>stream_was_called := True\<rparr>) (map (\<lambda>p. utf8 (xml_escape p)) pieces) = (o', zs, st, e, m, k)"
    by (metis prod_cases6)
  have res: "e = None" "o' = out" "zs = ys" "c' = c\<lparr>cm_state := st\<rparr>"
    using assms(2) c p(1) r by (auto simp: comm_stream_def init_state_def split: option.splits)
  note r' = r [unfolded res]
  have called: "stream_was_called st" using stream_texts_called [OF r] by simp
  obtain reqs where "list_all2 (ssml_request (cm_config c)) (map (\<lambda>p. utf8 (xml_escape p)) pieces) reqs"
      "subseq reqs out" "length pieces \<le> length (filter is_audio ys)"
    using stream_texts_ok [OF r'] by auto
  moreover have "comm_stream H world n2 skew2 c'
      = ([], [], c', Some (PyRuntimeError ''stream can only be called once.''), n2, skew2)"
    using called res(4) by (simp add: comm_stream_def)
  ultimately show ?thesis using p(2) stream_texts_audio [OF r'] by (auto simp: list_all2_map1)
qed

text \<open>
  C31: The offsets of the boundaries that a stream yields never go back, across all its requests,
  retries included: each turn starts after the last boundary of the turn before it. This is under
  the condition that within each turn the service sends its boundaries in order, and ends the
  turn itself.
\<close>

theorem offsets_never_go_back:
  assumes "world_sorted world" and "offset_compensation (cm_state c) \<le> last_duration_offset (cm_state c) + 8750000"
    and "comm_stream H world n skew c = (out, ys, c', e, n', skew')"
  shows "sorted (offsets ys)"
proof (cases "stream_was_called (cm_state c)")
  case True
  then show ?thesis using assms(3) by (auto simp: comm_stream_def)
next
  case False
  obtain o' zs st e1 m k where r: "stream_texts H (cm_config c) world n skew
      ((cm_state c)\<lparr>stream_was_called := True\<rparr>) (fst (cm_texts c)) = (o', zs, st, e1, m, k)"
    by (metis prod_cases6)
  then have "zs = ys" using assms(3) False by (auto simp: comm_stream_def split: option.splits)
  then show ?thesis using stream_texts_sorted [OF r assms(1)] assms(2) by simp
qed

text \<open>When the stream ends with an exception, the synchronous interface waits for ever.\<close>

lemma sync_consume_items: "sync_consume (map Some ys @ q) = (ys @ fst (sync_consume q), snd (sync_consume q))"
  by (induction ys) (auto split: prod.splits)

theorem stream_sync_returns:
  "comm_stream H world n skew c = (out, ys, c', e, n', skew') \<Longrightarrow>
   stream_sync H world n skew c = (ys, case e of None \<Rightarrow> Some () | Some _ \<Rightarrow> None)"
  by (auto simp: stream_sync_def sync_queue_def sync_consume_items split: option.splits)

text \<open>A service that answers each request by one audio message and the end of the turn.\<close>

definition sample_audio :: string where
  "sample_audio =
     [CHR 0x00, CHR 0x2A] @ ''X:1'' @ crlf @ ''Content-Type:audio/mpeg'' @ crlf @ ''Path:audio'' @ crlf @ ''abc''"

definition sample_meta :: string where
  "sample_meta =
     ''Path:audio.metadata'' @ crlf @ crlf
     @ dumps compact (JObj [(''Metadata'', JArr [JObj [(''Type'', JStr ''WordBoundary''),
         (''Data'', JObj [(''Offset'', JInt 10), (''Duration'', JInt 5),
           (''text'', JObj [(''Text'', JStr ''hi'')])])]])])"

definition sample_world :: "nat \<Rightarrow> attempt" where
  "sample_world k =
     \<lparr>at_now = 0,
      at_connection = Opened [WsText (''Path:turn.start'' @ crlf @ crlf), WsText sample_meta,
        WsBinary sample_audio, WsText (''Path:turn.end'' @ crlf @ crlf)],
      at_stamp1 = ''t1'', at_stamp2 = ''t2'', at_conn_id = ''c'', at_request_id = ''r'', at_muid = ''m''\<rparr>"

definition sample_hashes :: hashes where
  "sample_hashes = \<lparr>sha256 = (\<lambda>x. ''0''), hmac256 = (\<lambda>k x. ''0'')\<rparr>"

definition sample_object :: "communicate res" where
  "sample_object =
     communicate_init (ArgStr ''hi'') (ArgStr ''en-US-EmmaNeural'') (ArgStr ''+0%'') (ArgStr ''+0%'')
       (ArgStr ''+0Hz'') ''WordBoundary'' ArgNone ArgNone (ArgInt 10) (ArgInt 60)"

lemma sample_runs:
  obtains c out ys c' n k where "sample_object = Inr c" "cm_state c = init_state"
    "comm_stream sample_hashes sample_world 0 0 c = (out, ys, c', None, n, k)"
proof -
  have "is_ok sample_object" by code_simp
  then obtain c where c: "sample_object = Inr c" by (auto simp: is_ok_iff)
  have st: "cm_state c = init_state"
    using c by (auto simp: sample_object_def communicate_init_def exc_simps split: if_splits)
  have "(case sample_object of Inl e \<Rightarrow> False | Inr c \<Rightarrow> cm_texts c = ([''hi''], None))" by code_simp
  then have t: "cm_texts c = ([''hi''], None)" unfolding c sum.case .
  let ?st = "init_state\<lparr>stream_was_called := True, partial_text := ''hi''\<rparr>"
  obtain out ys st' e where one: "stream_once sample_hashes (cm_config c) (sample_world 0) 0 ?st = (out, ys, st', e)"
    by (metis prod_cases4)
  then have "e = None"
  proof (cases rule: stream_once_cases)
    case (Refused u hd n hs)
    then show ?thesis by (simp add: sample_world_def)
  next
    case (Bytes u hd c' x)
    have "is_ok (mkssml (cm_config c) (PyBytes ''hi''))" by (simp add: mkssml_def)
    then show ?thesis using Bytes one headers_ok [of "at_muid (sample_world 0)"]
      by (auto simp: stream_once_def sample_world_def is_ok_iff)
  next
    case (Opened u hd c' r ms)
    then have "ms = (case at_connection (sample_world 0) of Opened ms \<Rightarrow> ms | _ \<Rightarrow> [])" by simp
    moreover have "snd (snd (receive ?st False (case at_connection (sample_world 0) of Opened ms \<Rightarrow> ms | _ \<Rightarrow> []))) = None"
      by code_simp
    ultimately show ?thesis using Opened(4) by simp
  qed
  then have "comm_stream sample_hashes sample_world 0 0 c = (out, ys, c\<lparr>cm_state := st'\<rparr>, None, 1, 0)"
    using one t st by (simp add: comm_stream_def init_state_def)
  with c st show ?thesis by (rule that)
qed

lemma text_is_spoken_witness:
  "\<exists>c out ys c' n k. sample_object = Inr c
     \<and> comm_stream sample_hashes sample_world 0 0 c = (out, ys, c', None, n, k)
     \<and> comm_stream sample_hashes sample_world 0 0 c'
         = ([], [], c', Some (PyRuntimeError ''stream can only be called once.''), 0, 0)"
proof (rule sample_runs)
  fix c out ys c' n k
  assume c: "sample_object = Inr c"
    and r: "comm_stream sample_hashes sample_world 0 0 c = (out, ys, c', None, n, k)"
  show ?thesis using c r text_is_spoken [OF c [unfolded sample_object_def] r] by blast
qed

lemma offsets_never_go_back_witness:
  "\<exists>c out ys c' n k. sample_object = Inr c
     \<and> comm_stream sample_hashes sample_world 0 0 c = (out, ys, c', None, n, k) \<and> sorted (offsets ys)"
proof (rule sample_runs)
  fix c out ys c' n k
  assume c: "sample_object = Inr c" and st: "cm_state c = init_state"
    and r: "comm_stream sample_hashes sample_world 0 0 c = (out, ys, c', None, n, k)"
  have "turn_sorted 0 (case at_connection (sample_world 0) of Opened ms \<Rightarrow> ms | _ \<Rightarrow> [])"
    by code_simp
  then have w: "world_sorted sample_world" by (simp add: world_sorted_def sample_world_def)
  have "sorted (offsets ys)"
    by (rule offsets_never_go_back [OF w _ r]) (simp add: st init_state_def)
  then show ?thesis using c r by blast
qed

end
