(* ===== verification/Tts_Voices.thy ===== *)
theory Tts_Voices
  imports Tts_Drm
begin

text \<open>
  The voice list of \<^verbatim>\<open>edge_tts/voices.py\<close>: the defaults that are filled in, the retry after a
  refusal, and the search by attributes. The answers of the server are an argument. A voice is
  the JSON value it was sent as.
\<close>

section \<open>The list\<close>

datatype voice_reply = VoicesRefused nat "(string \<times> string) list option" | VoicesText string

datatype voices_error =
    VoicesResponseError nat "(string \<times> string) list option"
  | VoicesSkewError string
  | VoicesRuntimeError string
  | VoicesPyError exc

text \<open>\<^verbatim>\<open>if k not in tag: tag[k] = []\<close>: a tag that is no dictionary cannot be assigned to.\<close>

fun default_list :: "string \<Rightarrow> json \<Rightarrow> json res" where
  "default_list k (JObj ms) = Inr (JObj (if k \<in> set (map fst ms) then ms else ms @ [(k, JArr [])]))"
| "default_list k (JArr xs) = (if JStr k \<in> set xs then Inr (JArr xs) else Inl TypeError)"
| "default_list k (JStr s) = (if str_contains k s then Inr (JStr s) else Inl TypeError)"
| "default_list k _ = Inl TypeError"

fun fill_voice :: "json \<Rightarrow> json res" where
  "fill_voice (JObj ms) =
     (let ms1 = (if ''VoiceTag'' \<in> set (map fst ms) then ms else ms @ [(''VoiceTag'', JObj [])])
      in rbind (jindex (JObj ms1) ''VoiceTag'') (\<lambda>tag.
         rbind (default_list ''ContentCategories'' tag) (\<lambda>tag1.
         rbind (default_list ''VoicePersonalities'' tag1) (\<lambda>tag2.
           Inr (JObj (AList.update ''VoiceTag'' tag2 ms1))))))"
| "fill_voice _ = Inl TypeError"

text \<open>\<^verbatim>\<open>__list_voices\<close> and \<^verbatim>\<open>list_voices\<close>: one retry, with the clock corrected, after status 403.\<close>

definition list_voices_once :: "voice_reply \<Rightarrow> voices_error + json list" where
  "list_voices_once reply =
     (case reply of
        VoicesRefused status hs \<Rightarrow> Inl (VoicesResponseError status hs)
      | VoicesText t \<Rightarrow>
          (case rbind (loads t) (\<lambda>data.
                  case data of
                    JArr voices \<Rightarrow> mapM fill_voice voices
                  | JObj [] \<Rightarrow> Inr []
                  | JStr [] \<Rightarrow> Inr []
                  | _ \<Rightarrow> Inl TypeError) of
             Inl e \<Rightarrow> Inl (VoicesPyError e)
           | Inr vs \<Rightarrow> Inr vs))"

definition list_voices :: "voice_reply \<Rightarrow> voice_reply \<Rightarrow> int \<Rightarrow> int \<Rightarrow> (voices_error + json list) \<times> int" where
  "list_voices first second now skew =
     (case list_voices_once first of
        Inl (VoicesResponseError status hs) \<Rightarrow>
          if status \<noteq> 403 then (Inl (VoicesResponseError status hs), skew)
          else (case drm_handle_error hs now skew of
                  Inl msg \<Rightarrow> (Inl (VoicesSkewError msg), skew)
                | Inr skew' \<Rightarrow> (list_voices_once second, skew'))
      | r \<Rightarrow> (r, skew))"

section \<open>The search\<close>

record voices_manager =
  vm_voices :: "(string \<times> json) list list"
  vm_called_create :: bool

definition voices_manager_init :: voices_manager where
  "voices_manager_init = \<lparr>vm_voices = [], vm_called_create = False\<rparr>"

text \<open>\<^verbatim>\<open>{**voice, "Language": voice["Locale"].split("-")[0]}\<close>\<close>

definition with_language :: "json \<Rightarrow> (string \<times> json) list res" where
  "with_language voice =
     (case voice of
        JObj ms \<Rightarrow>
          rbind (jindex voice ''Locale'') (\<lambda>l.
            case l of
              JStr s \<Rightarrow> Inr (AList.update ''Language'' (JStr (hd (str_split (CHR ''-'') s))) ms)
            | _ \<Rightarrow> Inl AttributeError)
      | _ \<Rightarrow> Inl TypeError)"

definition voices_create :: "json list \<Rightarrow> voices_manager res" where
  "voices_create voices =
     rbind (mapM with_language voices) (\<lambda>vs. Inr \<lparr>vm_voices = vs, vm_called_create = True\<rparr>)"

definition voices_find :: "voices_manager \<Rightarrow> (string \<times> json) list \<Rightarrow> voices_error + (string \<times> json) list list" where
  "voices_find m kwargs =
     (if \<not> vm_called_create m
      then Inl (VoicesRuntimeError ''VoicesManager.find() called before VoicesManager.create()'')
      else Inr (filter (\<lambda>voice. list_all (\<lambda>(k, v). map_of voice k = Some v) kwargs) (vm_voices m)))"

section \<open>Properties\<close>

lemma fill_voice_tag:
  assumes "fill_voice v = Inr w" and "jindex w ''VoiceTag'' = Inr (JObj tag)"
  shows "''ContentCategories'' \<in> fst ` set tag \<and> ''VoicePersonalities'' \<in> fst ` set tag"
proof (cases v)
  case (JObj ms)
  let ?ms1 = "if ''VoiceTag'' \<in> set (map fst ms) then ms else ms @ [(''VoiceTag'', JObj [])]"
  obtain t t1 t2 where t: "default_list ''ContentCategories'' t = Inr t1"
      "default_list ''VoicePersonalities'' t1 = Inr t2" "w = JObj (AList.update ''VoiceTag'' t2 ?ms1)"
    using assms(1) JObj by (auto simp: exc_simps Let_def)
  then have "t2 = JObj tag" using assms(2) by (auto simp: AList.update_conv')
  then show ?thesis using t(1,2)
    by (cases t; cases t1) (auto split: if_splits)
qed (use assms in auto)

text \<open>The voices found by a language are those whose locale starts with it.\<close>

lemma find_by_language:
  assumes "voices_create voices = Inr m"
  shows "voices_find m [(''Language'', JStr l)] =
    Inr (filter (\<lambda>voice. \<exists>s. map_of voice ''Locale'' = Some (JStr s) \<and> hd (str_split (CHR ''-'') s) = l)
      (vm_voices m))"
proof -
  have vs: "list_all2 (\<lambda>v w. with_language v = Inr w) voices (vm_voices m)" and c: "vm_called_create m"
    using assms by (auto simp: voices_create_def exc_simps mapM_Inr_iff)
  have one: "map_of w ''Language'' = Some (JStr l)
      \<longleftrightarrow> (\<exists>s. map_of w ''Locale'' = Some (JStr s) \<and> hd (str_split (CHR ''-'') s) = l)"
    if "w \<in> set (vm_voices m)" for w
  proof -
    obtain v where v: "with_language v = Inr w"
      using vs \<open>w \<in> _\<close> by (auto simp: list_all2_conv_all_nth in_set_conv_nth)
    then obtain ms where ms: "v = JObj ms" by (cases v) (auto simp: with_language_def)
    then obtain j where j: "map_of ms ''Locale'' = Some j"
      using v by (cases "map_of ms ''Locale''") (auto simp: with_language_def)
    then obtain s where "j = JStr s" using v ms by (cases j) (auto simp: with_language_def)
    then have "map_of ms ''Locale'' = Some (JStr s)"
        "w = AList.update ''Language'' (JStr (hd (str_split (CHR ''-'') s))) ms"
      using v ms j by (auto simp: with_language_def)
    then show ?thesis by (auto simp: AList.update_conv')
  qed
  show ?thesis using c one by (auto simp: voices_find_def intro: filter_cong)
qed

end
