(* ===== verification/Yarl_Quote.thy ===== *)
theory Yarl_Quote
  imports Utf8
begin

text \<open>
  Percent quoting of the package \<^verbatim>\<open>yarl\<close>: \<^verbatim>\<open>_quoting_py.py\<close> and \<^verbatim>\<open>_quoters.py\<close>. In the theories of
  \<^verbatim>\<open>yarl\<close> a Python \<^verbatim>\<open>str\<close> is given by the bytes of its UTF-8 encoding, so that every text is
  covered: concatenation, comparison, and searching and cutting at ASCII characters are the same
  on both. The loops over an index are modelled as they are written; \<open>quote_ref\<close> and
  \<open>unquote_ref\<close> are the functions on the rest of the text that they compute, and carry the proofs.
\<close>

section \<open>Hexadecimal digits\<close>

definition pct_digit :: "nat \<Rightarrow> char" where
  "pct_digit n = (if n < 10 then char_of (48 + n) else char_of (55 + n))"

text \<open>\<^verbatim>\<open>f"%{ch:02X}"\<close>\<close>

definition pct_of :: "char \<Rightarrow> string" where
  "pct_of c = [CHR ''%'', pct_digit ((ord c :: nat) div 16), pct_digit ((ord c :: nat) mod 16)]"

definition hex_value :: "char \<Rightarrow> nat option" where
  "hex_value c =
     (let n = ord c :: nat
      in if 48 \<le> n \<and> n \<le> 57 then Some (n - 48)
         else if 65 \<le> n \<and> n \<le> 70 then Some (n - 55)
         else if 97 \<le> n \<and> n \<le> 102 then Some (n - 87) else None)"

text \<open>\<^verbatim>\<open>int(s, base=16)\<close> for two digits.\<close>

definition hex_byte :: "char \<Rightarrow> char \<Rightarrow> char option" where
  "hex_byte a b =
     (case (hex_value a, hex_value b) of
        (Some x, Some y) \<Rightarrow> Some (char_of (16 * x + y))
      | _ \<Rightarrow> None)"

section \<open>The quoter\<close>

record quoter =
  q_safe :: string
  q_protected :: string
  q_qs :: bool
  q_requote :: bool

definition ALLOWED :: string where
  "ALLOWED = ''abcdefghijklmnopqrstuvwxyzABCDEFGHIJKLMNOPQRSTUVWXYZ0123456789-._~!$'' @ [CHR 0x27] @ ''()*,''"

definition quoter_safe :: "quoter \<Rightarrow> string" where
  "quoter_safe q = q_safe q @ ALLOWED @ (if q_qs q then [] else ''+&=;'') @ q_protected q"

text \<open>\<^verbatim>\<open>_IS_HEX\<close>: the pattern has \<^verbatim>\<open>A-Z\<close>; what is no number is found by \<^verbatim>\<open>int\<close>.\<close>

definition is_hex_class :: "char \<Rightarrow> bool" where
  "is_hex_class c \<longleftrightarrow> (let n = ord c :: nat in 48 \<le> n \<and> n \<le> 57 \<or> 65 \<le> n \<and> n \<le> 90)"

definition upper_byte :: "char \<Rightarrow> char" where
  "upper_byte c = (if 97 \<le> (ord c :: nat) \<and> (ord c :: nat) \<le> 122 then char_of ((ord c :: nat) - 32) else c)"

definition quote_measure :: "string \<Rightarrow> nat \<Rightarrow> string \<Rightarrow> nat" where
  "quote_measure bval idx pct =
     (if idx < length pct \<or> 3 \<le> length pct then 4 * length bval + 4 + (length bval - idx)
      else 4 * (length bval - (idx - length pct)) + (3 - length pct))"

function quote_loop :: "quoter \<Rightarrow> string \<Rightarrow> nat \<Rightarrow> string \<Rightarrow> string \<Rightarrow> string" where
  "quote_loop q bval i pct ret =
     (if i < length bval then
        (let ch = bval ! i; idx = i + 1
         in if pct \<noteq> [] then
              (let pct' = pct @ [upper_byte ch]
               in if length pct' = 3 then
                    (case (if is_hex_class (pct' ! 1) \<and> is_hex_class (pct' ! 2)
                           then hex_byte (pct' ! 1) (pct' ! 2) else None) of
                       None \<Rightarrow> quote_loop q bval (idx - 2) [] (ret @ ''%25'')
                     | Some unquoted \<Rightarrow>
                         quote_loop q bval idx []
                           (ret @ (if unquoted \<in> set (q_protected q) then pct'
                                   else if unquoted \<in> set (quoter_safe q) then [unquoted] else pct')))
                  else if length pct' = 2 \<and> idx = length bval
                  then quote_loop q bval (idx - 1) [] (ret @ ''%25'')
                  else quote_loop q bval idx pct' ret)
            else if ch = CHR ''%'' \<and> q_requote q
            then quote_loop q bval idx [ch] (if idx = length bval then ret @ ''%25'' else ret)
            else if q_qs q \<and> ch = CHR '' '' then quote_loop q bval idx [] (ret @ ''+'')
            else if ch \<in> set (quoter_safe q) then quote_loop q bval idx [] (ret @ [ch])
            else quote_loop q bval idx [] (ret @ pct_of ch))
      else ret)"
  by pat_completeness auto
termination
  by (relation "measure (\<lambda>(q, bval, i, pct, ret). quote_measure bval i pct)")
    (auto simp: quote_measure_def split: if_splits)

declare quote_loop.simps [simp del]

definition quoter_call :: "quoter \<Rightarrow> string \<Rightarrow> string" where
  "quoter_call q val = (if val = [] then [] else quote_loop q val 0 [] [])"

section \<open>The unquoter\<close>

record unquoter =
  u_ignore :: string
  u_unsafe :: string
  u_qs :: bool
  u_plus :: bool

definition slice :: "nat \<Rightarrow> nat \<Rightarrow> 'a list \<Rightarrow> 'a list" where
  "slice a b s = take (b - a) (drop a s)"

definition plain_quoter :: quoter where
  "plain_quoter = \<lparr>q_safe = [], q_protected = [], q_qs = False, q_requote = True\<rparr>"

definition plain_qs_quoter :: quoter where
  "plain_qs_quoter = \<lparr>q_safe = [], q_protected = [], q_qs = True, q_requote = True\<rparr>"

text \<open>What is appended for a decoded character.\<close>

definition unquoted_part :: "unquoter \<Rightarrow> string \<Rightarrow> string" where
  "unquoted_part u unquoted =
     (if u_qs u \<and> str_contains unquoted ''+=&;'' then quoter_call plain_qs_quoter unquoted
      else if str_contains unquoted (u_unsafe u) \<or> str_contains unquoted (u_ignore u)
      then quoter_call plain_quoter unquoted
      else unquoted)"

text \<open>What is appended for a character that is not part of a percent code.\<close>

definition plain_part :: "unquoter \<Rightarrow> char \<Rightarrow> string" where
  "plain_part u ch =
     (if ch = CHR ''+'' then
        (if \<not> u_qs u \<and> \<not> u_plus u \<or> ch \<in> set (u_unsafe u) then ''+'' else '' '')
      else if ch \<in> set (u_unsafe u) then pct_of ch
      else [ch])"

text \<open>\<^verbatim>\<open>ch == "%"\<close> with two hexadecimal digits after it: the byte.\<close>

definition pct_at :: "string \<Rightarrow> nat \<Rightarrow> char \<Rightarrow> char option" where
  "pct_at val idx ch =
     (if ch = CHR ''%'' \<and> idx + 2 \<le> length val then hex_byte (val ! idx) (val ! (idx + 1)) else None)"

function unquote_loop :: "unquoter \<Rightarrow> string \<Rightarrow> nat \<Rightarrow> string \<Rightarrow> string \<Rightarrow> string" where
  "unquote_loop u val i buffer ret =
     (if i < length val then
        (let ch = val ! i; idx = i + 1
         in case pct_at val idx ch of
              Some b \<Rightarrow>
                (let idx' = idx + 2
                 in case utf8_step buffer b of
                      Some (unquoted, rest) \<Rightarrow>
                        unquote_loop u val idx' rest
                          (if unquoted = [] then ret else ret @ unquoted_part u unquoted)
                    | None \<Rightarrow>
                        (let ret1 = ret @ slice (idx' - 3 - length buffer * 3) (idx' - 3) val
                         in case utf8_step [] b of
                              Some (unquoted, rest) \<Rightarrow>
                                unquote_loop u val idx' rest
                                  (if unquoted = [] then ret1 else ret1 @ unquoted_part u unquoted)
                            | None \<Rightarrow> unquote_loop u val idx' [] (ret1 @ slice (idx' - 3) idx' val)))
            | None \<Rightarrow>
                (let ret1 = (if buffer \<noteq> [] then ret @ slice (idx - 1 - length buffer * 3) (idx - 1) val
                             else ret)
                 in unquote_loop u val idx [] (ret1 @ plain_part u ch)))
      else (if buffer \<noteq> [] then ret @ drop (length val - length buffer * 3) val else ret))"
  by pat_completeness auto
termination
  by (relation "measure (\<lambda>(u, val, i, buffer, ret). length val - i)") auto

declare unquote_loop.simps [simp del]

definition unquoter_call :: "unquoter \<Rightarrow> string \<Rightarrow> string" where
  "unquoter_call u val = (if val = [] then [] else unquote_loop u val 0 [] [])"

section \<open>The instances\<close>

definition QUOTER :: quoter where
  "QUOTER = \<lparr>q_safe = [], q_protected = [], q_qs = False, q_requote = False\<rparr>"
definition REQUOTER :: quoter where
  "REQUOTER = \<lparr>q_safe = [], q_protected = [], q_qs = False, q_requote = True\<rparr>"
definition PATH_QUOTER :: quoter where
  "PATH_QUOTER = \<lparr>q_safe = ''@:'', q_protected = ''/+'', q_qs = False, q_requote = False\<rparr>"
definition PATH_REQUOTER :: quoter where
  "PATH_REQUOTER = \<lparr>q_safe = ''@:'', q_protected = ''/+'', q_qs = False, q_requote = True\<rparr>"
definition QUERY_QUOTER :: quoter where
  "QUERY_QUOTER = \<lparr>q_safe = ''?/:@'', q_protected = ''=+&;'', q_qs = True, q_requote = False\<rparr>"
definition QUERY_REQUOTER :: quoter where
  "QUERY_REQUOTER = \<lparr>q_safe = ''?/:@'', q_protected = ''=+&;'', q_qs = True, q_requote = True\<rparr>"
definition QUERY_PART_QUOTER :: quoter where
  "QUERY_PART_QUOTER = \<lparr>q_safe = ''?/:@'', q_protected = [], q_qs = True, q_requote = False\<rparr>"
definition FRAGMENT_QUOTER :: quoter where
  "FRAGMENT_QUOTER = \<lparr>q_safe = ''?/:@'', q_protected = [], q_qs = False, q_requote = False\<rparr>"
definition FRAGMENT_REQUOTER :: quoter where
  "FRAGMENT_REQUOTER = \<lparr>q_safe = ''?/:@'', q_protected = [], q_qs = False, q_requote = True\<rparr>"

definition UNQUOTER :: unquoter where
  "UNQUOTER = \<lparr>u_ignore = [], u_unsafe = [], u_qs = False, u_plus = False\<rparr>"
definition PATH_UNQUOTER :: unquoter where
  "PATH_UNQUOTER = \<lparr>u_ignore = [], u_unsafe = ''+'', u_qs = False, u_plus = False\<rparr>"
definition PATH_SAFE_UNQUOTER :: unquoter where
  "PATH_SAFE_UNQUOTER = \<lparr>u_ignore = ''/%'', u_unsafe = ''+'', u_qs = False, u_plus = False\<rparr>"
definition QS_UNQUOTER :: unquoter where
  "QS_UNQUOTER = \<lparr>u_ignore = [], u_unsafe = [], u_qs = True, u_plus = False\<rparr>"
definition UNQUOTER_PLUS :: unquoter where
  "UNQUOTER_PLUS = \<lparr>u_ignore = [], u_unsafe = [], u_qs = False, u_plus = True\<rparr>"

section \<open>What the loops compute\<close>

text \<open>A percent code met while requoting; \<open>None\<close> when it is none.\<close>

definition recode :: "quoter \<Rightarrow> char \<Rightarrow> char \<Rightarrow> string option" where
  "recode q d e =
     (let D = upper_byte d; E = upper_byte e
      in map_option
           (\<lambda>c. if c \<in> set (q_protected q) then [CHR ''%'', D, E]
                else if c \<in> set (quoter_safe q) then [c] else [CHR ''%'', D, E])
           (if is_hex_class D \<and> is_hex_class E then hex_byte D E else None))"

definition quote_char :: "quoter \<Rightarrow> char \<Rightarrow> string" where
  "quote_char q c =
     (if q_qs q \<and> c = CHR '' '' then ''+'' else if c \<in> set (quoter_safe q) then [c] else pct_of c)"

fun quote_ref :: "quoter \<Rightarrow> string \<Rightarrow> string" where
  "quote_ref q [] = []"
| "quote_ref q (c # s) =
     (if c = CHR ''%'' \<and> q_requote q then
        (case s of
           d # e # t \<Rightarrow>
             (case recode q d e of Some w \<Rightarrow> w @ quote_ref q t | None \<Rightarrow> ''%25'' @ quote_ref q s)
         | _ \<Rightarrow> ''%25'' @ quote_ref q s)
      else quote_char q c @ quote_ref q s)"

lemma quote_loop_end: "quote_loop q bval (length bval) pct ret = ret"
  by (subst quote_loop.simps) simp

lemma quote_loop_char:
  assumes "\<not> (c = CHR ''%'' \<and> q_requote q)"
  shows "quote_loop q (pre @ c # s) (length pre) [] ret
    = quote_loop q (pre @ c # s) (Suc (length pre)) [] (ret @ quote_char q c)"
  using assms by (subst quote_loop.simps) (auto simp: Let_def quote_char_def nth_append)

lemma quote_loop_pct0:
  "q_requote q \<Longrightarrow> quote_loop q (pre @ [CHR ''%'']) (length pre) [] ret = ret @ ''%25''"
  by (subst quote_loop.simps) (simp add: nth_append, subst quote_loop.simps, simp)

lemma quote_loop_pct1:
  "q_requote q \<Longrightarrow> quote_loop q (pre @ [CHR ''%'', d]) (length pre) [] ret
    = quote_loop q (pre @ [CHR ''%'', d]) (Suc (length pre)) [] (ret @ ''%25'')"
  by (subst quote_loop.simps) (simp add: nth_append, subst quote_loop.simps, simp add: nth_append)

lemma quote_loop_pct2:
  "q_requote q \<Longrightarrow> quote_loop q (pre @ CHR ''%'' # d # e # s) (length pre) [] ret
    = (case recode q d e of
         None \<Rightarrow> quote_loop q (pre @ CHR ''%'' # d # e # s) (Suc (length pre)) [] (ret @ ''%25'')
       | Some w \<Rightarrow> quote_loop q (pre @ CHR ''%'' # d # e # s) (length pre + 3) [] (ret @ w))"
  by (subst quote_loop.simps, simp add: nth_append, subst quote_loop.simps, simp add: nth_append,
      subst quote_loop.simps)
    (auto simp: nth_append recode_def Let_def eval_nat_numeral split: option.splits)

lemma quote_loop_ref: "quote_loop q (pre @ s) (length pre) [] ret = ret @ quote_ref q s"
proof (induction "length s" arbitrary: s pre ret rule: less_induct)
  case less
  show ?case
  proof (cases s)
    case Nil
    then show ?thesis using quote_loop_end [of q pre] by simp
  next
    case (Cons c s')
    have one: "quote_loop q (pre @ c # s') (Suc (length pre)) [] r = r @ quote_ref q s'" for r
      using less [of s' "pre @ [c]" r] Cons by simp
    show ?thesis
    proof (cases "c = CHR ''%'' \<and> q_requote q")
      case False
      then show ?thesis using one quote_loop_char [OF False, of pre s' ret] Cons by auto
    next
      case True
      then consider "s' = []" | d where "s' = [d]" | d e t where "s' = d # e # t"
        by (metis list.exhaust)
      then show ?thesis
      proof cases
        case 1
        then show ?thesis using True Cons quote_loop_pct0 by simp
      next
        case 2
        then show ?thesis using True Cons quote_loop_pct1 [of q pre d ret] one by simp
      next
        case 3
        then have "quote_loop q (pre @ c # d # e # t) (length pre + 3) [] r = r @ quote_ref q t" for r
          using less [of t "pre @ [c, d, e]" r] Cons by (simp add: numeral_3_eq_3)
        then show ?thesis using True Cons 3 quote_loop_pct2 [of q pre d e t ret] one
          by (auto split: option.splits)
      qed
    qed
  qed
qed

lemma quoter_call_ref: "quoter_call q s = quote_ref q s"
  using quote_loop_ref [of q "[]" s "[]"] by (simp add: quoter_call_def)

text \<open>A percent code at the start of a text: its byte, and what follows it.\<close>

definition pct_start :: "string \<Rightarrow> (char \<times> char \<times> char \<times> string) option" where
  "pct_start s =
     (case s of
        c # d # e # t \<Rightarrow> if c = CHR ''%'' then map_option (\<lambda>b. (b, d, e, t)) (hex_byte d e) else None
      | _ \<Rightarrow> None)"

lemma pct_start_length: "pct_start s = Some (b, d, e, t) \<Longrightarrow> s = CHR ''%'' # d # e # t"
  by (auto simp: pct_start_def split: list.splits if_splits)

text \<open>The buffer of the decoder holds the bytes of the percent codes in \<open>pend\<close>.\<close>

function unquote_ref :: "unquoter \<Rightarrow> string \<Rightarrow> string \<Rightarrow> string \<Rightarrow> string" where
  "unquote_ref u buffer pend [] = pend"
| "unquote_ref u buffer pend (c # s) =
     (case pct_start (c # s) of
        None \<Rightarrow> pend @ plain_part u c @ unquote_ref u [] [] s
      | Some (b, d, e, t) \<Rightarrow>
          (case utf8_step buffer b of
             Some (w, rest) \<Rightarrow>
               if w = [] then unquote_ref u rest (pend @ [CHR ''%'', d, e]) t
               else unquoted_part u w @ unquote_ref u [] [] t
           | None \<Rightarrow>
               pend @
               (case utf8_step [] b of
                  Some (w, rest) \<Rightarrow>
                    if w = [] then unquote_ref u rest [CHR ''%'', d, e] t
                    else unquoted_part u w @ unquote_ref u [] [] t
                | None \<Rightarrow> [CHR ''%'', d, e] @ unquote_ref u [] [] t)))"
  by pat_completeness auto
termination
  by (relation "measure (\<lambda>(u, b, p, s). length s)") (auto dest!: pct_start_length)

lemma utf8_step_result:
  assumes "utf8_step buffer b = Some (w, rest)"
  shows "w = [] \<and> rest = buffer @ [b] \<and> utf8_partial rest \<or> w = buffer @ [b] \<and> rest = [] \<and> utf8_valid w"
  using assms by (auto simp: utf8_step_def Let_def split: if_splits)

lemma slice_middle: "slice (length pre) (length pre + length x) (pre @ x @ y) = x"
  by (simp add: slice_def)

lemma unquote_loop_round:
  assumes "length pend = 3 * length buffer"
  shows "unquote_loop u (pre @ pend @ c # s) (length pre + length pend) buffer ret =
    (case pct_start (c # s) of
       None \<Rightarrow> unquote_loop u (pre @ pend @ c # s) (Suc (length pre + length pend)) [] (ret @ pend @ plain_part u c)
     | Some (b, d, e, t) \<Rightarrow>
         (case utf8_step buffer b of
            Some (w, rest) \<Rightarrow>
              unquote_loop u (pre @ pend @ c # s) (length pre + length pend + 3) rest
                (if w = [] then ret else ret @ unquoted_part u w)
          | None \<Rightarrow>
              (case utf8_step [] b of
                 Some (w, rest) \<Rightarrow>
                   unquote_loop u (pre @ pend @ c # s) (length pre + length pend + 3) rest
                     (if w = [] then ret @ pend else ret @ pend @ unquoted_part u w)
               | None \<Rightarrow>
                   unquote_loop u (pre @ pend @ c # s) (length pre + length pend + 3) []
                     (ret @ pend @ [CHR ''%'', d, e]))))"
proof -
  let ?val = "pre @ pend @ c # s" and ?i = "length pre + length pend"
  have here: "?i < length ?val" "?val ! ?i = c" by (simp_all add: nth_append)
  have code: "pct_at ?val (Suc ?i) c = map_option fst (pct_start (c # s))"
    by (cases s; cases "tl s")
      (auto simp: pct_at_def pct_start_def nth_append option.map_comp comp_def option.map_ident)
  have sl: "slice (?i - length buffer * 3) ?i ?val = pend"
    using slice_middle [of pre pend "c # s"] assms by (simp add: mult.commute)
  have sl3: "slice ?i (Suc (Suc (Suc ?i))) ?val = [CHR ''%'', d, e]"
    if "pct_start (c # s) = Some (b, d, e, t)" for b d e t
    using slice_middle [of "pre @ pend" "[CHR ''%'', d, e]" t] pct_start_length [OF that] by simp
  have empty: "buffer = [] \<Longrightarrow> pend = []" using assms by simp
  show ?thesis
  proof (cases "pct_start (c # s)")
    case None
    then show ?thesis using sl empty
      by (subst unquote_loop.simps) (simp add: here Let_def code)
  next
    case (Some p)
    obtain b d e t where p: "p = (b, d, e, t)" by (metis surj_pair)
    then show ?thesis using sl sl3 [of b d e t] Some
      by (subst unquote_loop.simps) (simp add: here Let_def code eval_nat_numeral split: option.split prod.split)
  qed
qed

lemma utf8_step_length: "utf8_step buffer b = Some ([], rest) \<Longrightarrow> length rest = Suc (length buffer)"
  using utf8_step_result by fastforce

lemma utf8_step_done: "utf8_step buffer b = Some (w, rest) \<Longrightarrow> w \<noteq> [] \<Longrightarrow> rest = []"
  using utf8_step_result by fastforce

lemma unquote_loop_ref:
  "length pend = 3 * length buffer \<Longrightarrow>
   unquote_loop u (pre @ pend @ s) (length pre + length pend) buffer ret
   = ret @ unquote_ref u buffer pend s"
proof (induction "length s" arbitrary: s pre pend buffer ret rule: less_induct)
  case less
  show ?case
  proof (cases s)
    case Nil
    have "drop (length pre + length pend - length buffer * 3) (pre @ pend) = pend"
      using less.prems by simp
    moreover have "buffer = [] \<Longrightarrow> pend = []" using less.prems by simp
    ultimately show ?thesis using Nil by (subst unquote_loop.simps) auto
  next
    case (Cons c s')
    note round = unquote_loop_round [OF less.prems, of u pre c s' ret]
    have one: "unquote_loop u (pre @ pend @ c # s') (Suc (length pre + length pend)) [] r
        = r @ unquote_ref u [] [] s'" for r
      using less.hyps [of s' "[]" "[]" "pre @ pend @ [c]" r] Cons by simp
    show ?thesis
    proof (cases "pct_start (c # s')")
      case None
      then show ?thesis using round one Cons by simp
    next
      case (Some p)
      obtain b d e t where p: "pct_start (c # s') = Some (b, d, e, t)" using Some by (metis surj_pair)
      have cs: "c # s' = [CHR ''%'', d, e] @ t" using pct_start_length [OF p] by simp
      have skip: "unquote_loop u (pre @ pend @ c # s') (length pre + length pend + 3) rest r
          = r @ unquote_ref u rest pend' t"
        if "pre @ pend @ [CHR ''%'', d, e] = x @ pend'" "length pend' = 3 * length rest" for rest r x pend'
      proof -
        have "pre @ pend @ c # s' = x @ pend' @ t" unfolding cs using that(1) by (metis append_assoc)
        moreover have "length pre + length pend + 3 = length x + length pend'"
          using arg_cong [OF that(1), of length] by simp
        moreover have "length t < length s" using Cons cs by (cases s') auto
        ultimately show ?thesis using less.hyps [OF _ that(2), of t x r] by simp
      qed
      have finished: "unquote_loop u (pre @ pend @ c # s') (length pre + length pend + 3) [] r
          = r @ unquote_ref u [] [] t" for r
        by (rule skip [of "pre @ pend @ [CHR ''%'', d, e]" "[]" "[]"]) auto
      have more: "unquote_loop u (pre @ pend @ c # s') (length pre + length pend + 3) rest r
          = r @ unquote_ref u rest (pend @ [CHR ''%'', d, e]) t"
        if "length rest = Suc (length buffer)" for rest r
        by (rule skip [of pre "pend @ [CHR ''%'', d, e]" rest]) (use that less.prems in auto)
      have fresh: "unquote_loop u (pre @ pend @ c # s') (length pre + length pend + 3) rest r
          = r @ unquote_ref u rest [CHR ''%'', d, e] t"
        if "length rest = Suc 0" for rest r
        by (rule skip [of "pre @ pend" "[CHR ''%'', d, e]" rest]) (use that in auto)
      show ?thesis
        using round p finished more fresh Cons utf8_step_length [of buffer b] utf8_step_length [of "[]" b]
          utf8_step_done [of buffer b] utf8_step_done [of "[]" b]
        by (auto split: option.split)
    qed
  qed
qed

lemma unquoter_call_ref: "unquoter_call u s = unquote_ref u [] [] s"
  using unquote_loop_ref [of "[]" "[]" u "[]" s "[]"] by (simp add: unquoter_call_def)

section \<open>Percent codes\<close>

lemma hex_value_char: "n < 16 \<Longrightarrow> hex_value (pct_digit n) = Some n"
proof -
  assume "n < 16"
  then have "n < 10 \<and> ord (char_of (48 + n)) = 48 + n \<or> 10 \<le> n \<and> ord (char_of (55 + n)) = 55 + n"
    by (auto intro!: ord_char_of)
  then show ?thesis using \<open>n < 16\<close> by (auto simp: hex_value_def pct_digit_def Let_def)
qed

lemma hex_byte_code: "hex_byte (pct_digit ((ord c :: nat) div 16)) (pct_digit ((ord c :: nat) mod 16)) = Some c"
proof -
  have "(ord c :: nat) div 16 < 16"
    using ord_less [of c] less_mult_imp_div_less [of "ord c" 16 16] by simp
  then show ?thesis by (simp add: hex_byte_def hex_value_char)
qed

lemma pct_start_code: "pct_start (pct_of c @ s) =
    Some (c, pct_digit ((ord c :: nat) div 16), pct_digit ((ord c :: nat) mod 16), s)"
  by (simp add: pct_start_def pct_of_def hex_byte_code)

lemma unquote_ref_start:
  "pct_start (CHR ''%'' # d # e # s) = Some (c, d, e, s) \<Longrightarrow>
   unquote_ref u buffer pend (CHR ''%'' # d # e # s) =
     (case utf8_step buffer c of
        Some (w, rest) \<Rightarrow>
          if w = [] then unquote_ref u rest (pend @ [CHR ''%'', d, e]) s
          else unquoted_part u w @ unquote_ref u [] [] s
      | None \<Rightarrow>
          pend @
          (case utf8_step [] c of
             Some (w, rest) \<Rightarrow>
               if w = [] then unquote_ref u rest [CHR ''%'', d, e] s
               else unquoted_part u w @ unquote_ref u [] [] s
           | None \<Rightarrow> [CHR ''%'', d, e] @ unquote_ref u [] [] s))"
  by simp

lemma unquote_ref_code:
  "unquote_ref u buffer pend (pct_of c @ s) =
     (case utf8_step buffer c of
        Some (w, rest) \<Rightarrow>
          if w = [] then unquote_ref u rest (pend @ pct_of c) s else unquoted_part u w @ unquote_ref u [] [] s
      | None \<Rightarrow>
          pend @
          (case utf8_step [] c of
             Some (w, rest) \<Rightarrow>
               if w = [] then unquote_ref u rest (pct_of c) s else unquoted_part u w @ unquote_ref u [] [] s
           | None \<Rightarrow> pct_of c @ unquote_ref u [] [] s))"
proof -
  have "pct_of c @ s = CHR ''%'' # pct_digit ((ord c :: nat) div 16) # pct_digit ((ord c :: nat) mod 16) # s"
    by (simp add: pct_of_def)
  from unquote_ref_start [OF pct_start_code [of c s, unfolded this], of u buffer pend, folded this, folded pct_of_def]
  show ?thesis .
qed

lemma unquote_ref_plain: "c \<noteq> CHR ''%'' \<Longrightarrow> unquote_ref u [] [] (c # s) = plain_part u c @ unquote_ref u [] [] s"
  by (simp add: pct_start_def split: list.split)

section \<open>Unquoting takes the quoting back\<close>

text \<open>A quoter and the unquoter that reads what it writes.\<close>

locale quote_pair =
  fixes q :: quoter and u :: unquoter
  assumes no_requote: "\<not> q_requote q"
    and safe_ascii: "c \<in> set (quoter_safe q) \<Longrightarrow> (ord c :: nat) < 128 \<and> c \<noteq> CHR ''%''"
    and safe_kept: "c \<in> set (quoter_safe q) \<Longrightarrow> plain_part u c = [c]"
    and space_plus: "q_qs q \<Longrightarrow> plain_part u (CHR ''+'') = '' ''"
    and coded_kept: "w \<noteq> [] \<Longrightarrow> (\<And>c. w = [c] \<Longrightarrow> c \<notin> set (quoter_safe q)) \<Longrightarrow> unquoted_part u w = w"
begin

lemma quote_step: "quote_ref q (c # s) = quote_char q c @ quote_ref q s"
  using no_requote by simp

lemma wide: "128 \<le> (ord c :: nat) \<Longrightarrow> quote_char q c = pct_of c"
  using safe_ascii [of c] by (auto simp: quote_char_def)

lemma ascii_back:
  assumes "(ord c :: nat) < 128"
  shows "unquote_ref u [] [] (quote_char q c @ s) = c # unquote_ref u [] [] s"
proof (cases "q_qs q \<and> c = CHR '' ''")
  case True
  then show ?thesis using space_plus unquote_ref_plain [of "CHR ''+''" u s] by (simp add: quote_char_def)
next
  case False
  show ?thesis
  proof (cases "c \<in> set (quoter_safe q)")
    case True
    then show ?thesis using False safe_ascii [OF True] safe_kept [OF True] unquote_ref_plain [of c u s]
      by (auto simp: quote_char_def)
  next
    case False
    have "utf8_step [] c = Some ([c], [])" using assms by (simp add: utf8_step_def)
    then show ?thesis using False \<open>\<not> (q_qs q \<and> c = _)\<close> coded_kept [of "[c]"]
      by (auto simp: quote_char_def unquote_ref_code)
  qed
qed

lemma wide_back:
  assumes "length w \<ge> 2" and "w = bs @ [b]"
    and "\<forall>c \<in> set w. 128 \<le> (ord c :: nat)" and "utf8_valid w"
    and "\<And>i. 0 < i \<Longrightarrow> i < length w \<Longrightarrow> \<not> utf8_valid (take i w) \<and> utf8_partial (take i w)"
  shows "unquote_ref u [] [] (concat (map (quote_char q) w) @ s) = w @ unquote_ref u [] [] s"
proof -
  have step: "unquote_ref u (take i w) (concat (map pct_of (take i w))) (concat (map pct_of (drop i w)) @ s)
      = w @ unquote_ref u [] [] s" if "i < length w" for i
    using that
  proof (induction "length w - i" arbitrary: i)
    case (Suc n)
    let ?c = "w ! i"
    have d: "drop i w = ?c # drop (Suc i) w" using Suc.prems by (simp add: Cons_nth_drop_Suc)
    have t: "take i w @ [?c] = take (Suc i) w" using Suc.prems by (simp add: take_Suc_conv_app_nth)
    show ?case
    proof (cases "Suc i = length w")
      case True
      have "utf8_step (take i w) ?c = Some (w, [])"
        unfolding utf8_step_def t using True assms(4) by simp
      moreover have "unquoted_part u w = w"
        using assms(1) by (intro coded_kept) auto
      moreover have "w \<noteq> []" using assms(1) by auto
      ultimately show ?thesis using True unfolding d by (simp add: unquote_ref_code)
    next
      case False
      then have i: "Suc i < length w" using Suc.prems by simp
      have "utf8_step (take i w) ?c = Some ([], take (Suc i) w)"
        unfolding utf8_step_def t using assms(5) [of "Suc i"] i by simp
      then have "unquote_ref u (take i w) (concat (map pct_of (take i w))) (concat (map pct_of (drop i w)) @ s)
          = unquote_ref u (take (Suc i) w) (concat (map pct_of (take (Suc i) w)))
              (concat (map pct_of (drop (Suc i) w)) @ s)"
        unfolding d t [symmetric] by (simp add: unquote_ref_code)
      then show ?thesis using Suc.hyps(1) [of "Suc i"] Suc.hyps(2) i by simp
    qed
  qed simp
  have eq: "map (quote_char q) w = map pct_of w" using assms(3) wide by auto
  have "w \<noteq> []" using assms(1) by auto
  then show ?thesis unfolding eq using step [of 0] by simp
qed

lemma quote_append: "quote_ref q (s @ t) = quote_ref q s @ quote_ref q t"
  by (induction s) (simp_all add: no_requote)

lemma quote_concat: "quote_ref q s = concat (map (quote_char q) s)"
  by (induction s) (simp_all add: no_requote)

theorem unquote_quote: "utf8_valid s \<Longrightarrow> unquoter_call u (quoter_call q s) = s"
  unfolding unquoter_call_ref quoter_call_ref
proof (induction "length s" arbitrary: s rule: less_induct)
  case less
  have wide': "unquote_ref u [] [] (quote_ref q (w @ t)) = w @ t"
    if "s = w @ t" "utf8_valid t" "w = bs @ [b]" "length w \<ge> 2" "\<forall>c \<in> set w. 128 \<le> (ord c :: nat)"
      "utf8_valid w" "\<And>i. 0 < i \<Longrightarrow> i < length w \<Longrightarrow> \<not> utf8_valid (take i w) \<and> utf8_partial (take i w)"
    for w t bs b
  proof -
    have "quote_ref q (w @ t) = concat (map (quote_char q) w) @ quote_ref q t"
      unfolding quote_append using quote_concat [of w] by simp
    moreover have "w \<noteq> []" using that(4) by auto
    then have "unquote_ref u [] [] (quote_ref q t) = t" using less.hyps [of t] that(1,2) by simp
    ultimately show ?thesis using wide_back [OF that(4,3,5,6,7), of "quote_ref q t"] by simp
  qed
  show ?case
    using less.prems
  proof (cases rule: utf8_valid_cases)
    case (One b t)
    then show ?thesis using less.hyps [of t] ascii_back by (simp add: quote_step no_requote)
  next
    case (Two b c t)
    have "unquote_ref u [] [] (quote_ref q ([b, c] @ t)) = [b, c] @ t"
      by (rule wide' [of _ _ "[b]" c]) (use Two in \<open>auto simp: utf8_tail_def less_Suc_eq\<close>)
    then show ?thesis using Two by simp
  next
    case (Three b c d t)
    have "unquote_ref u [] [] (quote_ref q ([b, c, d] @ t)) = [b, c, d] @ t"
      by (rule wide' [of _ _ "[b, c]" d])
        (use Three in \<open>auto simp: utf8_tail_def utf8_second3_def less_Suc_eq numeral_3_eq_3\<close>)
    then show ?thesis using Three by simp
  next
    case (Four b c d e t)
    have "\<not> utf8_valid (take i [b, c, d, e]) \<and> utf8_partial (take i [b, c, d, e])"
      if "0 < i" "i < length [b, c, d, e]" for i
    proof -
      have "i = 1 \<or> i = 2 \<or> i = 3" using that by auto
      then show ?thesis using Four
        by (elim disjE) (auto simp: utf8_tail_def utf8_second4_def numeral_2_eq_2 numeral_3_eq_3)
    qed
    then have "unquote_ref u [] [] (quote_ref q ([b, c, d, e] @ t)) = [b, c, d, e] @ t"
      by (intro wide' [of _ _ "[b, c, d]" e])
        (use Four in \<open>auto simp: utf8_tail_def utf8_second4_def\<close>)
    then show ?thesis using Four by simp
  qed simp
qed

end

text \<open>The pairs that the package uses together.\<close>

lemmas quoter_defs = quoter_safe_def ALLOWED_def QUOTER_def REQUOTER_def PATH_QUOTER_def
  PATH_REQUOTER_def QUERY_QUOTER_def QUERY_REQUOTER_def QUERY_PART_QUOTER_def FRAGMENT_QUOTER_def
  FRAGMENT_REQUOTER_def UNQUOTER_def PATH_UNQUOTER_def PATH_SAFE_UNQUOTER_def QS_UNQUOTER_def
  UNQUOTER_PLUS_def

lemma contains_single: "str_contains w [c] \<longleftrightarrow> w = [] \<or> w = [c]"
  by (cases w) (auto simp: contains_iff sublist_Cons_right)

interpretation text_pair: quote_pair QUOTER UNQUOTER
  by unfold_locales (auto simp: quoter_defs plain_part_def unquoted_part_def)

lemma quoter_call_Nil [simp]: "quoter_call q [] = []"
  by (simp add: quoter_call_def)

lemma path_unquoted: "w \<noteq> ''+'' \<Longrightarrow> unquoted_part PATH_UNQUOTER w = w"
  by (auto simp: unquoted_part_def PATH_UNQUOTER_def contains_single simp del: str_contains.simps(2))

interpretation path_pair: quote_pair PATH_QUOTER PATH_UNQUOTER
proof
  fix w
  assume "w \<noteq> []" and solid: "\<And>c. w = [c] \<Longrightarrow> c \<notin> set (quoter_safe PATH_QUOTER)"
  have "CHR ''+'' \<in> set (quoter_safe PATH_QUOTER)" by (simp add: quoter_defs)
  with solid have "w \<noteq> ''+''" by blast
  then show "unquoted_part PATH_UNQUOTER w = w" by (rule path_unquoted)
qed (auto simp: quoter_defs plain_part_def)

interpretation query_pair: quote_pair QUERY_PART_QUOTER UNQUOTER_PLUS
  by unfold_locales (auto simp: quoter_defs plain_part_def unquoted_part_def)

interpretation fragment_pair: quote_pair FRAGMENT_QUOTER UNQUOTER
  by unfold_locales (auto simp: quoter_defs plain_part_def unquoted_part_def)

section \<open>Requoting twice is requoting once\<close>

text \<open>Texts that requoting leaves as they are.\<close>

inductive stable :: "quoter \<Rightarrow> string \<Rightarrow> bool" for q where
  Empty: "stable q []"
| Safe: "c \<in> set (quoter_safe q) \<Longrightarrow> c \<noteq> CHR ''%'' \<Longrightarrow> stable q s \<Longrightarrow> stable q (c # s)"
| Code: "recode q d e = Some [CHR ''%'', d, e] \<Longrightarrow> stable q s \<Longrightarrow> stable q (CHR ''%'' # d # e # s)"

lemma stable_fixed: "stable q s \<Longrightarrow> q_requote q \<Longrightarrow> \<not> (q_qs q \<and> CHR '' '' \<in> set (quoter_safe q)) \<Longrightarrow> quote_ref q s = s"
  by (induction rule: stable.induct) (auto simp: quote_char_def)

lemma stable_append: "stable q s \<Longrightarrow> stable q t \<Longrightarrow> stable q (s @ t)"
  by (induction rule: stable.induct) (auto intro: stable.intros)

definition upper_hex :: "char \<Rightarrow> bool" where
  "upper_hex c \<longleftrightarrow> c \<in> set ''0123456789ABCDEF''"

lemma pct_digit_upper: "n < 16 \<Longrightarrow> upper_hex (pct_digit n)"
proof -
  have "\<forall>n \<in> set [0..<16]. upper_hex (pct_digit n)" by code_simp
  then show "n < 16 \<Longrightarrow> upper_hex (pct_digit n)" by simp
qed

lemma pct_digits_upper:
  "upper_hex (pct_digit ((ord c :: nat) div 16))" "upper_hex (pct_digit ((ord c :: nat) mod 16))"
  using ord_less [of c] less_mult_imp_div_less [of "ord c" 16 16] by (auto intro!: pct_digit_upper)

lemma upper_hex_class: "upper_hex c \<Longrightarrow> is_hex_class c \<and> upper_byte c = c"
proof -
  have "\<forall>c \<in> set ''0123456789ABCDEF''. is_hex_class c \<and> upper_byte c = c" by code_simp
  then show "upper_hex c \<Longrightarrow> is_hex_class c \<and> upper_byte c = c" unfolding upper_hex_def by (rule bspec)
qed

lemma class_value_upper: "is_hex_class c \<Longrightarrow> hex_value c = Some n \<Longrightarrow> upper_hex c"
proof -
  assume "is_hex_class c" "hex_value c = Some n"
  then have "(ord c :: nat) \<in> {48..57} \<union> {65..70}"
    by (auto simp: is_hex_class_def hex_value_def Let_def split: if_splits)
  then have "(ord c :: nat) \<in> set [48,49,50,51,52,53,54,55,56,57,65,66,67,68,69,70]"
    by (auto simp: le_Suc_eq numeral_eq_Suc)
  moreover have "(ord c :: nat) \<in> ord ` set ''0123456789ABCDEF'' \<Longrightarrow> c \<in> set ''0123456789ABCDEF''"
    by (simp only: image_iff ord_eq_iff [symmetric]) blast
  ultimately show ?thesis by (simp add: upper_hex_def)
qed

lemma recode_cases:
  assumes "recode q d e = Some w"
  obtains (Char) c where "w = [c]" "c \<in> set (quoter_safe q)"
  | (Code) D E where "w = [CHR ''%'', D, E]" "upper_hex D" "upper_hex E" "recode q D E = Some w"
proof -
  let ?D = "upper_byte d" and ?E = "upper_byte e"
  obtain c where c: "is_hex_class ?D" "is_hex_class ?E" "hex_byte ?D ?E = Some c"
      "w = (if c \<in> set (q_protected q) then [CHR ''%'', ?D, ?E]
            else if c \<in> set (quoter_safe q) then [c] else [CHR ''%'', ?D, ?E])"
    using assms by (auto simp: recode_def Let_def split: if_splits)
  then have hex: "upper_hex ?D" "upper_hex ?E"
    by (auto simp: hex_byte_def split: option.splits intro: class_value_upper)
  show ?thesis
  proof (cases "c \<notin> set (q_protected q) \<and> c \<in> set (quoter_safe q)")
    case True
    then show ?thesis using c by (intro that(1) [of c]) auto
  next
    case False
    then have w: "w = [CHR ''%'', ?D, ?E]" using c(4) by auto
    moreover have "recode q ?D ?E = Some w"
      using c False w upper_hex_class [OF hex(1)] upper_hex_class [OF hex(2)]
      by (auto simp: recode_def Let_def)
    ultimately show ?thesis using hex by (intro that(2))
  qed
qed

text \<open>What a requoter of the package satisfies.\<close>

definition proper_requoter :: "quoter \<Rightarrow> bool" where
  "proper_requoter q \<longleftrightarrow> q_requote q
     \<and> (\<forall>c \<in> set (quoter_safe q). c \<noteq> CHR ''%'' \<and> c \<noteq> CHR '' '')
     \<and> (q_qs q \<longrightarrow> CHR ''+'' \<in> set (quoter_safe q))"

lemma recode_unsafe:
  "c \<notin> set (quoter_safe q) \<Longrightarrow>
   recode q (pct_digit ((ord c :: nat) div 16)) (pct_digit ((ord c :: nat) mod 16)) = Some (pct_of c)"
  using pct_digits_upper [THEN upper_hex_class, of c]
  by (auto simp: recode_def Let_def hex_byte_code pct_of_def quoter_safe_def)

lemma stable_code: "c \<notin> set (quoter_safe q) \<Longrightarrow> stable q s \<Longrightarrow> stable q (pct_of c @ s)"
  using recode_unsafe [of c q] stable.Code [of q _ _ s] by (simp add: pct_of_def)

lemma pct25: "''%25'' = pct_of (CHR ''%'')"
  by code_simp

lemma quote_char_stable:
  assumes "proper_requoter q" and "stable q s"
  shows "stable q (quote_char q c @ s)"
  using assms stable_code [of c q s] stable.Safe [of "CHR ''+''" q s] stable.Safe [of c q s]
  by (auto simp: quote_char_def proper_requoter_def)

lemma quote_ref_cases:
  fixes q :: quoter
  obtains (Nil) "s = []"
  | (Recode) d e t w where "s = CHR ''%'' # d # e # t" "q_requote q" "recode q d e = Some w"
      "quote_ref q s = w @ quote_ref q t"
  | (Percent) t where "s = CHR ''%'' # t" "q_requote q" "quote_ref q s = ''%25'' @ quote_ref q t"
  | (Char) c t where "s = c # t" "\<not> (c = CHR ''%'' \<and> q_requote q)"
      "quote_ref q s = quote_char q c @ quote_ref q t"
proof (cases s)
  case (Cons c t)
  show ?thesis
  proof (cases "c = CHR ''%'' \<and> q_requote q")
    case False
    then show ?thesis using Cons by (intro that(4) [of c t]) auto
  next
    case True
    consider d e u w where "t = d # e # u" "recode q d e = Some w"
      | d e u where "t = d # e # u" "recode q d e = None" | "t = []" | d where "t = [d]"
      by (metis list.exhaust not_None_eq)
    then show ?thesis
    proof cases
      case 1
      then show ?thesis using Cons True by (intro that(2)) auto
    qed (use Cons True in \<open>auto intro!: that(3)\<close>)
  qed
qed (rule that(1))

lemma quote_stable: "proper_requoter q \<Longrightarrow> stable q (quote_ref q s)"
proof (induction "length s" arbitrary: s rule: less_induct)
  case less
  have IH: "length t < length s \<Longrightarrow> stable q (quote_ref q t)" for t
    using less by blast
  show ?case
  proof (cases rule: quote_ref_cases [where s = s and q = q])
    case Nil
    then show ?thesis by (simp add: stable.Empty)
  next
    case (Recode d e t w)
    from Recode(3) show ?thesis
    proof (cases rule: recode_cases)
      case (Char c)
      then show ?thesis using IH [of t] less.prems Recode
        by (auto simp: proper_requoter_def intro: stable.Safe)
    next
      case (Code D E)
      then show ?thesis using IH [of t] Recode by (auto intro: stable.Code)
    qed
  next
    case (Percent t)
    then show ?thesis using IH [of t] less.prems stable_code [of "CHR ''%''" q "quote_ref q t"]
      unfolding pct25 by (auto simp: proper_requoter_def)
  next
    case (Char c t)
    then show ?thesis using quote_char_stable [OF less.prems, of "quote_ref q t" c] IH [of t] by simp
  qed
qed

theorem requote_twice: "proper_requoter q \<Longrightarrow> quoter_call q (quoter_call q s) = quoter_call q s"
  unfolding quoter_call_ref
  by (rule stable_fixed) (auto simp: quote_stable proper_requoter_def)

lemma proper_requoters:
  "proper_requoter REQUOTER" "proper_requoter PATH_REQUOTER" "proper_requoter QUERY_REQUOTER"
  "proper_requoter FRAGMENT_REQUOTER"
  by (simp_all add: proper_requoter_def quoter_defs)

text \<open>What a quoter can write: safe characters, percent codes with capital digits, and plus for a space.\<close>

lemma quote_alphabet:
  "x \<in> set (quote_ref q s) \<Longrightarrow>
   x \<in> set (quoter_safe q) \<or> x = CHR ''%'' \<or> upper_hex x \<or> x = CHR ''+'' \<and> q_qs q"
proof (induction "length s" arbitrary: s rule: less_induct)
  case less
  show ?case
  proof (cases rule: quote_ref_cases [where s = s and q = q])
    case Nil
    then show ?thesis using less.prems by simp
  next
    case (Recode d e t w)
    from Recode(3) show ?thesis
      by (cases rule: recode_cases) (use Recode less.hyps [of t] less.prems in auto)
  next
    case (Percent t)
    have "upper_hex (CHR ''2'')" "upper_hex (CHR ''5'')" by (simp_all add: upper_hex_def)
    then show ?thesis using Percent less.hyps [of t] less.prems by auto
  next
    case (Char c t)
    then show ?thesis using less.hyps [of t] less.prems pct_digits_upper [of c]
      by (auto simp: quote_char_def pct_of_def split: if_splits)
  qed
qed

section \<open>The properties\<close>

text \<open>
  C35: Every text that is quoted as user or password, as a path, as a key or value of a query, or as
  a fragment is what unquoting that part gives back, whatever characters it has.
\<close>

theorem quoted_text_returns:
  assumes "utf8_valid s"
  shows "unquoter_call UNQUOTER (quoter_call QUOTER s) = s
    \<and> unquoter_call PATH_UNQUOTER (quoter_call PATH_QUOTER s) = s
    \<and> unquoter_call UNQUOTER_PLUS (quoter_call QUERY_PART_QUOTER s) = s
    \<and> unquoter_call UNQUOTER (quoter_call FRAGMENT_QUOTER s) = s"
  using assms text_pair.unquote_quote path_pair.unquote_quote query_pair.unquote_quote fragment_pair.unquote_quote
  by blast

lemma quoted_text_returns_witness:
  "quoter_call QUERY_PART_QUOTER ([CHR 0xC3, CHR 0xA9] @ '' +%'') = ''%C3%A9+%2B%25''
   \<and> unquoter_call UNQUOTER_PLUS ''%C3%A9+%2B%25'' = [CHR 0xC3, CHR 0xA9] @ '' +%''"
proof -
  have valid: "utf8_valid ([CHR 0xC3, CHR 0xA9] @ '' +%'')" by code_simp
  have "quoter_call QUERY_PART_QUOTER ([CHR 0xC3, CHR 0xA9] @ '' +%'') = ''%C3%A9+%2B%25''"
    unfolding quoter_call_ref by code_simp
  then show ?thesis using quoted_text_returns [OF valid] by simp
qed

text \<open>
  Requoting a user, a path, a query or a fragment that was requoted before changes nothing,
  whatever the text, percent codes that are none included.
\<close>

theorem requoting_settles:
  "quoter_call REQUOTER (quoter_call REQUOTER s) = quoter_call REQUOTER s
   \<and> quoter_call PATH_REQUOTER (quoter_call PATH_REQUOTER s) = quoter_call PATH_REQUOTER s
   \<and> quoter_call QUERY_REQUOTER (quoter_call QUERY_REQUOTER s) = quoter_call QUERY_REQUOTER s
   \<and> quoter_call FRAGMENT_REQUOTER (quoter_call FRAGMENT_REQUOTER s) = quoter_call FRAGMENT_REQUOTER s"
  using proper_requoters by (simp add: requote_twice)

end
