(* ===== verification/Yarl_Path.thy ===== *)
theory Yarl_Path
  imports Prelude
begin

text \<open>
  Dot segments of a path (\<^verbatim>\<open>yarl/_path.py\<close>), with the algorithm of RFC 3986, section 5.2.4, as the
  reference for absolute paths.
\<close>

section \<open>The code\<close>

abbreviation slash :: char where "slash \<equiv> CHR ''/''"

fun resolve_segments :: "string list \<Rightarrow> string list \<Rightarrow> string list" where
  "resolve_segments resolved [] = resolved"
| "resolve_segments resolved (seg # segs) =
     (if seg = ''..'' then resolve_segments (butlast resolved) segs
      else if seg \<noteq> ''.'' then resolve_segments (resolved @ [seg]) segs
      else resolve_segments resolved segs)"

definition normalize_path_segments :: "string list \<Rightarrow> string list" where
  "normalize_path_segments segments =
     (let resolved = resolve_segments [] segments
      in if segments \<noteq> [] \<and> last segments \<in> {''.'', ''..''} then resolved @ [''''] else resolved)"

definition normalize_path :: "string \<Rightarrow> string" where
  "normalize_path path =
     (let absolute = path \<noteq> [] \<and> path ! 0 = slash;
          rest = (if absolute then drop 1 path else path)
      in (if absolute then [slash] else []) @ str_join [slash] (normalize_path_segments (str_split slash rest)))"

section \<open>The algorithm of the RFC\<close>

text \<open>The last segment of the output, with the slash before it if there is one, is removed.\<close>

definition remove_last :: "string \<Rightarrow> string" where
  "remove_last out = rev (drop 1 (dropWhile (\<lambda>c. c \<noteq> slash) (rev out)))"

definition first_segment :: "string \<Rightarrow> string" where
  "first_segment s =
     (if s \<noteq> [] \<and> hd s = slash then slash # takeWhile (\<lambda>c. c \<noteq> slash) (tl s)
      else takeWhile (\<lambda>c. c \<noteq> slash) s)"

lemma first_segment_length: "s \<noteq> [] \<Longrightarrow> 0 < length (first_segment s) \<and> length (first_segment s) \<le> length s"
  using length_takeWhile_le [of "\<lambda>c. c \<noteq> slash" "tl s"]
  by (cases s) (auto simp: first_segment_def)

function remove_dot_segments :: "string \<Rightarrow> string \<Rightarrow> string" where
  "remove_dot_segments s out =
     (if s = [] then out
      else if str_startswith s ''../'' then remove_dot_segments (drop 3 s) out
      else if str_startswith s ''./'' then remove_dot_segments (drop 2 s) out
      else if str_startswith s ''/./'' then remove_dot_segments (drop 2 s) out
      else if s = ''/.'' then remove_dot_segments ''/'' out
      else if str_startswith s ''/../'' then remove_dot_segments (drop 3 s) (remove_last out)
      else if s = ''/..'' then remove_dot_segments ''/'' (remove_last out)
      else if s = ''.'' \<or> s = ''..'' then remove_dot_segments [] out
      else remove_dot_segments (drop (length (first_segment s)) s) (out @ first_segment s))"
  by pat_completeness auto
termination
  by (relation "measure (\<lambda>(s, out). length s)") (use first_segment_length in auto)

declare remove_dot_segments.simps [simp del]

section \<open>They agree\<close>

text \<open>The output of the algorithm as segments.\<close>

abbreviation rooted :: "string list \<Rightarrow> string" where
  "rooted segs \<equiv> concat (map (\<lambda>x. slash # x) segs)"

lemma rooted_join: "segs \<noteq> [] \<Longrightarrow> rooted segs = slash # str_join [slash] segs"
proof (induction segs rule: list_nonempty_induct)
  case (cons x xs)
  then show ?case by (cases xs) auto
qed simp

lemma remove_last_rooted:
  assumes "slash \<notin> set x"
  shows "remove_last (rooted (segs @ [x])) = rooted segs"
proof -
  have "dropWhile (\<lambda>c. c \<noteq> slash) (rev x @ slash # rev (rooted segs)) = slash # rev (rooted segs)"
    using assms by (subst dropWhile_append2) auto
  then show ?thesis by (simp add: remove_last_def)
qed

lemma remove_last_butlast:
  assumes "\<forall>x \<in> set segs. slash \<notin> set x"
  shows "remove_last (rooted segs) = rooted (butlast segs)"
proof (cases segs rule: rev_cases)
  case Nil
  then show ?thesis by (simp add: remove_last_def)
next
  case (snoc ys y)
  then show ?thesis using remove_last_rooted [of y ys] assms by simp
qed

lemma first_segment_rooted:
  assumes "slash \<notin> set x"
  shows "first_segment (rooted (x # segs)) = slash # x"
proof -
  have "takeWhile (\<lambda>c. c \<noteq> slash) (x @ rooted segs) = x"
    using assms by (cases segs) (auto simp: takeWhile_append takeWhile_eq_all_conv [THEN iffD2])
  then show ?thesis by (simp add: first_segment_def)
qed

text \<open>One round of the algorithm on a rooted path.\<close>

lemma round_dot: "remove_dot_segments (rooted (''.'' # seg # segs)) out = remove_dot_segments (rooted (seg # segs)) out"
  by (subst remove_dot_segments.simps) simp

lemma round_dot_end: "remove_dot_segments (rooted [''.'']) out = out @ ''/''"
proof -
  have "remove_dot_segments ''/'' out = out @ ''/''"
    by (subst remove_dot_segments.simps) (simp add: first_segment_def remove_dot_segments.simps [of "[]"])
  then show ?thesis by (subst remove_dot_segments.simps) simp
qed

lemma round_dots:
  "remove_dot_segments (rooted (''..'' # seg # segs)) out = remove_dot_segments (rooted (seg # segs)) (remove_last out)"
  by (subst remove_dot_segments.simps) simp

lemma round_dots_end: "remove_dot_segments (rooted [''..'']) out = remove_last out @ ''/''"
proof -
  have "remove_dot_segments ''/'' (remove_last out) = remove_last out @ ''/''"
    by (subst remove_dot_segments.simps) (simp add: first_segment_def remove_dot_segments.simps [of "[]"])
  then show ?thesis by (subst remove_dot_segments.simps) simp
qed

lemma round_segment:
  assumes "slash \<notin> set x" and "x \<noteq> ''.''" and "x \<noteq> ''..''"
  shows "remove_dot_segments (rooted (x # segs)) out = remove_dot_segments (rooted segs) (out @ slash # x)"
proof -
  let ?s = "rooted (x # segs)"
  have no_dot: "\<not> str_startswith ?s ''/./''" "?s \<noteq> ''/.''" "\<not> str_startswith ?s ''/../''" "?s \<noteq> ''/..''"
    using assms by (cases segs; cases x; cases "tl x"; cases "tl (tl x)"; auto)+
  have "drop (length (first_segment ?s)) ?s = rooted segs"
    unfolding first_segment_rooted [OF assms(1)] by simp
  then show ?thesis using no_dot first_segment_rooted [OF assms(1), of segs]
    by (subst remove_dot_segments.simps) (simp add: first_segment_rooted [OF assms(1)])
qed

text \<open>The algorithm on a rooted path is the loop over its segments.\<close>

lemma rfc_segments:
  assumes "segs \<noteq> []" and "\<forall>x \<in> set (out @ segs). slash \<notin> set x"
  shows "remove_dot_segments (rooted segs) (rooted out) =
    rooted (resolve_segments out segs @ (if last segs \<in> {''.'', ''..''} then [''''] else []))"
  using assms
proof (induction segs arbitrary: out)
  case (Cons x segs)
  note free = Cons.prems(2)
  show ?case
  proof (cases segs)
    case Nil
    have stop: "remove_dot_segments [] s = s" for s by (simp add: remove_dot_segments.simps)
    show ?thesis
      using Nil free round_dot_end [of "rooted out"] round_dots_end [of "rooted out"] round_segment [of x "[]" "rooted out"]
        remove_last_butlast [of out] by (auto simp: stop)
  next
    case (Cons y ys)
    have b: "\<forall>x \<in> set (butlast out @ segs). slash \<notin> set x" using free by (auto dest: in_set_butlastD)
    consider "x = ''.''" | "x = ''..''" | "x \<noteq> ''.''" "x \<noteq> ''..''" by blast
    then show ?thesis
    proof cases
      case 1
      then show ?thesis using Cons.IH [of out] free round_dot [of y ys "rooted out"] \<open>segs = y # ys\<close> by simp
    next
      case 2
      then show ?thesis
        using Cons.IH [OF _ b] free round_dots [of y ys "rooted out"] remove_last_butlast [of out] \<open>segs = y # ys\<close> by simp
    next
      case 3
      then show ?thesis using Cons.IH [of "out @ [x]"] free round_segment [of x segs "rooted out"] \<open>segs = y # ys\<close> by simp
    qed
  qed
qed simp

lemma resolved_not_Nil:
  assumes "segs \<noteq> []"
  shows "resolve_segments out segs @ (if last segs \<in> {''.'', ''..''} then [''''] else []) \<noteq> []"
  using assms by (induction out segs rule: resolve_segments.induct) (auto split: if_splits)

lemma join_split: "str_join [slash] (str_split slash s) = s"
proof (induction s)
  case (Cons c s)
  then show ?case by (cases "str_split slash s"; cases "tl (str_split slash s)") auto
qed simp

lemma rooted_split: "rooted (str_split slash s) = slash # s"
  by (simp add: rooted_join join_split)

text \<open>
  C36: For every path that begins with a slash, dropping the segments one by one gives what the
  algorithm of RFC 3986, section 5.2.4, gives, and the result begins with a slash again.
\<close>

theorem dot_segments_as_rfc:
  assumes "path \<noteq> []" and "path ! 0 = slash"
  shows "normalize_path path = remove_dot_segments path [] \<and> hd (normalize_path path) = slash"
proof -
  define segs where "segs = str_split slash (drop 1 path)"
  have segs: "segs \<noteq> []" "\<forall>x \<in> set ([] @ segs). slash \<notin> set x"
    using split_pieces by (auto simp: segs_def)
  have path: "path = rooted segs" using assms by (cases path) (simp_all add: segs_def rooted_split)
  have norm: "normalize_path_segments segs =
      resolve_segments [] segs @ (if last segs \<in> {''.'', ''..''} then [''''] else [])"
    using segs(1) by (simp add: normalize_path_segments_def Let_def)
  have "normalize_path path = slash # str_join [slash] (normalize_path_segments segs)"
    using assms by (simp add: normalize_path_def segs_def Let_def)
  also have "\<dots> = rooted (normalize_path_segments segs)"
    unfolding norm by (rule rooted_join [OF resolved_not_Nil [OF segs(1)], symmetric])
  also have "\<dots> = remove_dot_segments path []" using rfc_segments [OF segs] path norm by simp
  finally have eq: "normalize_path path = remove_dot_segments path []" .
  have "hd (normalize_path path) = slash" using assms by (simp add: normalize_path_def Let_def)
  with eq show ?thesis by simp
qed

lemma dot_segments_as_rfc_witness:
  "normalize_path ''/a/b/../../../c/.'' = ''/c/'' \<and> remove_dot_segments ''/a/b/../../../c/.'' [] = ''/c/''"
proof -
  have "normalize_path ''/a/b/../../../c/.'' = ''/c/''" by code_simp
  then show ?thesis using dot_segments_as_rfc [of "''/a/b/../../../c/.''"] by simp
qed

section \<open>Facts\<close>

text \<open>No dot segment is left.\<close>

lemma resolved_no_dots: "set (resolve_segments out segs) \<subseteq> set out \<union> (set segs - {''.'', ''..''})"
proof (induction out segs rule: resolve_segments.induct)
  case (2 out seg segs)
  then show ?case using in_set_butlastD [of _ out] by (auto split: if_splits)
qed simp

lemma resolve_id: "set segs \<inter> {''.'', ''..''} = {} \<Longrightarrow> resolve_segments out segs = out @ segs"
  by (induction out segs rule: resolve_segments.induct) auto

lemma normalized_no_dots: "set (normalize_path_segments segs) \<inter> {''.'', ''..''} = {}"
  using resolved_no_dots [of "[]" segs] by (auto simp: normalize_path_segments_def Let_def)

lemma normalize_segments_twice [simp]:
  "normalize_path_segments (normalize_path_segments segs) = normalize_path_segments segs"
proof -
  have d: "set (normalize_path_segments segs) \<inter> {''.'', ''..''} = {}" by (rule normalized_no_dots)
  then have "normalize_path_segments segs \<noteq> [] \<Longrightarrow> last (normalize_path_segments segs) \<notin> {''.'', ''..''}"
    using last_in_set [of "normalize_path_segments segs"] by blast
  then show ?thesis
    using resolve_id [OF d, of "[]"] unfolding normalize_path_segments_def [of "normalize_path_segments segs"]
    by (auto simp: Let_def)
qed

end
