(* ===== verification/Yarl_Parse.thy ===== *)
theory Yarl_Parse
  imports Yarl_Quote Yarl_Path Settings
begin

text \<open>
  Taking a URL apart and putting it together (\<^verbatim>\<open>yarl/_parse.py\<close>). The strings are bytes of UTF-8, as
  in \<^verbatim>\<open>Yarl_Quote\<close>; the delimiters that are looked for are ASCII characters. What the code takes from
  tables of Unicode or from the modules \<^verbatim>\<open>ipaddress\<close> and \<^verbatim>\<open>idna\<close> is an argument.
\<close>

section \<open>The arguments\<close>

text \<open>
  \<^verbatim>\<open>wide_lower\<close>, \<^verbatim>\<open>wide_int\<close> and \<^verbatim>\<open>wide_digit_end\<close> are \<^verbatim>\<open>str.lower\<close>, \<^verbatim>\<open>int\<close> (\<open>None\<close> for \<^verbatim>\<open>ValueError\<close>) and
  \<^verbatim>\<open>s[-1].isdigit()\<close> on texts that are not ASCII. \<^verbatim>\<open>read_ip\<close> is \<^verbatim>\<open>ip_address\<close>: the version and the
  compressed notation, or \<open>None\<close> for \<^verbatim>\<open>ValueError\<close>. \<^verbatim>\<open>uts46_encode\<close>, \<^verbatim>\<open>codec_encode\<close>, \<^verbatim>\<open>label_decode\<close> and
  \<^verbatim>\<open>codec_decode\<close> are \<^verbatim>\<open>idna.encode(host, uts46=True)\<close>, \<^verbatim>\<open>host.encode("idna")\<close>, \<^verbatim>\<open>idna.decode\<close> and the
  decoding with the codec, \<open>None\<close> standing for a \<^verbatim>\<open>UnicodeError\<close>.
\<close>

record yarl_env =
  wide_lower :: "string \<Rightarrow> string"
  wide_int :: "string \<Rightarrow> int option"
  wide_digit_end :: "string \<Rightarrow> bool"
  nfkc :: "string \<Rightarrow> string"
  read_ip :: "string \<Rightarrow> (nat \<times> string) option"
  uts46_encode :: "string \<Rightarrow> string option"
  codec_encode :: "string \<Rightarrow> string option"
  label_decode :: "string \<Rightarrow> string option"
  codec_decode :: "string \<Rightarrow> string option"

definition str_isascii :: "string \<Rightarrow> bool" where
  "str_isascii s \<longleftrightarrow> list_all (\<lambda>c. (ord c :: nat) < 128) s"

definition ascii_lower :: "char \<Rightarrow> char" where
  "ascii_lower c = (if 65 \<le> (ord c :: nat) \<and> (ord c :: nat) \<le> 90 then char_of ((ord c :: nat) + 32) else c)"

definition text_lower :: "yarl_env \<Rightarrow> string \<Rightarrow> string" where
  "text_lower env s = (if str_isascii s then map ascii_lower s else wide_lower env s)"

definition text_int :: "yarl_env \<Rightarrow> string \<Rightarrow> int option" where
  "text_int env s =
     (if str_isascii s then (case py_int s of Inl e \<Rightarrow> None | Inr n \<Rightarrow> Some n) else wide_int env s)"

section \<open>Searching\<close>

text \<open>\<^verbatim>\<open>s.find(c, k)\<close>\<close>

definition find_from :: "char \<Rightarrow> nat \<Rightarrow> string \<Rightarrow> int" where
  "find_from c k s =
     (if c \<in> set (drop k s) then int (k + length (takeWhile (\<lambda>x. x \<noteq> c) (drop k s))) else - 1)"

text \<open>\<^verbatim>\<open>a, _, b = s.rpartition(c)\<close> for a \<open>c\<close> that occurs: the parts before and after its last occurrence.\<close>

definition str_rpartition :: "char \<Rightarrow> string \<Rightarrow> string \<times> string" where
  "str_rpartition c s =
     (rev (tl (dropWhile (\<lambda>x. x \<noteq> c) (rev s))), rev (takeWhile (\<lambda>x. x \<noteq> c) (rev s)))"

section \<open>Splitting a URL\<close>

type_synonym split_url_type = "string \<times> string \<times> string \<times> string \<times> string"

definition WHATWG_C0_CONTROL_OR_SPACE :: string where
  "WHATWG_C0_CONTROL_OR_SPACE = map char_of [0..<33 :: nat]"

definition UNSAFE_URL_BYTES_TO_REMOVE :: string where
  "UNSAFE_URL_BYTES_TO_REMOVE = [CHR 0x09, CHR 0x0D, CHR 0x0A]"

text \<open>\<^verbatim>\<open>scheme_chars\<close>, \<^verbatim>\<open>uses_netloc\<close> and \<^verbatim>\<open>uses_relative\<close> of \<^verbatim>\<open>urllib.parse\<close> (Python 3.11 and 3.12.3).\<close>

definition is_scheme_char :: "char \<Rightarrow> bool" where
  "is_scheme_char c \<longleftrightarrow>
     (let n = ord c :: nat in 97 \<le> n \<and> n \<le> 122 \<or> 65 \<le> n \<and> n \<le> 90 \<or> 48 \<le> n \<and> n \<le> 57 \<or> n = 43 \<or> n = 45 \<or> n = 46)"

definition USES_AUTHORITY :: "string list" where
  "USES_AUTHORITY = ['''', ''ftp'', ''http'', ''gopher'', ''nntp'', ''telnet'', ''imap'', ''wais'', ''file'',
     ''mms'', ''https'', ''shttp'', ''snews'', ''prospero'', ''rtsp'', ''rtsps'', ''rtspu'', ''rsync'', ''svn'',
     ''svn+ssh'', ''sftp'', ''nfs'', ''git'', ''git+ssh'', ''ws'', ''wss'']"

definition strip_url :: "string \<Rightarrow> string" where
  "strip_url url =
     filter (\<lambda>c. c \<notin> set UNSAFE_URL_BYTES_TO_REMOVE)
       (dropWhile (\<lambda>c. c \<in> set WHATWG_C0_CONTROL_OR_SPACE) url)"

definition split_scheme :: "string \<Rightarrow> string \<times> string" where
  "split_scheme url =
     (let i = find_from (CHR '':'') 0 url
      in if 0 < i \<and> is_scheme_char (url ! 0) \<and> list_all is_scheme_char (slice 1 (nat i) url)
         then (map ascii_lower (take (nat i) url), drop (nat i + 1) url)
         else ([], url))"

text \<open>The loop over the characters that may end the authority.\<close>

fun earliest_delim :: "string \<Rightarrow> string \<Rightarrow> int \<Rightarrow> int" where
  "earliest_delim url [] delim = delim"
| "earliest_delim url (c # cs) delim =
     (let wdelim = find_from c 2 url
      in earliest_delim url cs (if 0 \<le> wdelim \<and> wdelim < delim then wdelim else delim))"

text \<open>\<^verbatim>\<open>re.match(r"\Av[a-fA-F0-9]+\..+\Z", s)\<close>; the dot matches no line feed.\<close>

definition is_ipvfuture :: "string \<Rightarrow> bool" where
  "is_ipvfuture s \<longleftrightarrow>
     (case s of [] \<Rightarrow> False
      | c # r \<Rightarrow>
          c = CHR ''v'' \<and> takeWhile (\<lambda>x. hex_value x \<noteq> None) r \<noteq> [] \<and>
          (case dropWhile (\<lambda>x. hex_value x \<noteq> None) r of
             d # e # t \<Rightarrow> d = CHR ''.'' \<and> nl \<notin> set (e # t)
           | _ \<Rightarrow> False))"

definition check_brackets :: "string \<Rightarrow> unit res" where
  "check_brackets netloc =
     (let has_left_bracket = CHR ''['' \<in> set netloc; has_right_bracket = CHR '']'' \<in> set netloc
      in if has_left_bracket \<noteq> has_right_bracket then Inl (ValueError ''Invalid IPv6 URL'')
         else if has_left_bracket then
           (let bracketed_host = fst (str_partition (CHR '']'') (snd (str_partition (CHR ''['') netloc)))
            in if bracketed_host \<noteq> [] \<and> bracketed_host ! 0 = CHR ''v'' then
                 (if is_ipvfuture bracketed_host then Inr () else Inl (ValueError ''IPvFuture address is invalid''))
               else if CHR '':'' \<notin> set bracketed_host
               then Inl (ValueError ''The IPv6 content between brackets is not valid'')
               else Inr ())
         else Inr ())"

definition check_netloc :: "yarl_env \<Rightarrow> string \<Rightarrow> unit res" where
  "check_netloc env netloc =
     (let n = filter (\<lambda>c. c \<notin> set ''@:#?'') netloc; normalized = nfkc env n
      in if n = normalized then Inr ()
         else if list_ex (\<lambda>c. c \<in> set normalized) ''/?#@:''
         then Inl (ValueError (''netloc '' @ [CHR 0x27] @ netloc @ [CHR 0x27]
                @ '' contains invalid characters under NFKC normalization''))
         else Inr ())"

definition split_authority :: "string \<Rightarrow> (string \<times> string) res" where
  "split_authority url =
     (if take 2 url = ''//'' then
        (let delim_chars = (if CHR ''#'' \<in> set url \<and> CHR ''?'' \<in> set url then ''/?#''
                            else if CHR ''?'' \<in> set url then ''/?''
                            else if CHR ''#'' \<in> set url then ''/#'' else ''/'');
             delim = nat (earliest_delim url delim_chars (int (length url)));
             netloc = slice 2 delim url
         in rbind (check_brackets netloc) (\<lambda>_. Inr (netloc, drop delim url)))
      else Inr ([], url))"

definition split_url :: "yarl_env \<Rightarrow> string \<Rightarrow> split_url_type res" where
  "split_url env url0 =
     (let (scheme, url1) = split_scheme (strip_url url0)
      in rbind (split_authority url1) (\<lambda>(netloc, url2).
         let (url3, fragment) = (if CHR ''#'' \<in> set url1 then str_partition (CHR ''#'') url2 else (url2, []));
             (path, query) = (if CHR ''?'' \<in> set url1 then str_partition (CHR ''?'') url3 else (url3, []))
         in rbind (if netloc \<noteq> [] \<and> \<not> str_isascii netloc then check_netloc env netloc else Inr ())
              (\<lambda>_. Inr (scheme, netloc, path, query, fragment))))"

section \<open>The authority\<close>

type_synonym split_loc = "string option \<times> string option \<times> string option \<times> int option"

definition or_none :: "string \<Rightarrow> string option" where
  "or_none s = (if s = [] then None else Some s)"

definition split_userinfo :: "string \<Rightarrow> string option \<times> string option \<times> string" where
  "split_userinfo netloc =
     (if CHR ''@'' \<notin> set netloc then (None, None, netloc)
      else
        (let (userinfo, hostinfo) = str_rpartition (CHR ''@'') netloc;
             (username, password) = str_partition (CHR '':'') userinfo
         in (or_none username, if CHR '':'' \<in> set userinfo then Some password else None, hostinfo)))"

definition split_hostinfo :: "string \<Rightarrow> string \<times> string" where
  "split_hostinfo hostinfo =
     (if CHR ''['' \<in> set hostinfo then
        (let (hostname, port_str) = str_partition (CHR '']'') (snd (str_partition (CHR ''['') hostinfo))
         in (hostname, snd (str_partition (CHR '':'') port_str)))
      else str_partition (CHR '':'') hostinfo)"

definition split_netloc :: "yarl_env \<Rightarrow> string \<Rightarrow> split_loc res" where
  "split_netloc env netloc =
     (let (username, password, hostinfo) = split_userinfo netloc;
          (hostname, port_str) = split_hostinfo hostinfo
      in if port_str = [] then Inr (username, password, or_none hostname, None)
         else
           (case text_int env port_str of
              None \<Rightarrow> Inl (ValueError (''Invalid URL: port can'' @ [CHR 0x27] @ ''t be converted to integer''))
            | Some port \<Rightarrow>
                if \<not> (0 \<le> port \<and> port \<le> 65535) then Inl (ValueError ''Port out of range 0-65535'')
                else Inr (username, password, or_none hostname, Some port)))"

definition with_port_text :: "string \<Rightarrow> int option \<Rightarrow> string" where
  "with_port_text host port = (case port of None \<Rightarrow> host | Some p \<Rightarrow> host @ '':'' @ int_str p)"

definition make_netloc :: "string option \<Rightarrow> string option \<Rightarrow> string option \<Rightarrow> int option \<Rightarrow> bool \<Rightarrow> string" where
  "make_netloc user password host port encode =
     (case host of None \<Rightarrow> []
      | Some h \<Rightarrow>
          (let ret = with_port_text h port; quote = (\<lambda>s. if encode then quoter_call QUOTER s else s)
           in case (user, password) of
                (None, None) \<Rightarrow> ret
              | (u, Some p) \<Rightarrow> quote (case u of None \<Rightarrow> [] | Some x \<Rightarrow> x) @ '':'' @ quote p @ ''@'' @ ret
              | (Some u, None) \<Rightarrow> if u = [] then ret else quote u @ ''@'' @ ret))"

section \<open>Putting together\<close>

definition unsplit_result :: "string \<Rightarrow> string \<Rightarrow> string \<Rightarrow> string \<Rightarrow> string \<Rightarrow> string" where
  "unsplit_result scheme netloc url query fragment =
     (let url1 =
        (if netloc \<noteq> [] \<or> scheme \<noteq> [] \<and> scheme \<in> set USES_AUTHORITY \<or> take 2 url = ''//'' then
           (if url \<noteq> [] \<and> take 1 url \<noteq> ''/'' then
              (if scheme \<noteq> [] then scheme @ ''://'' @ netloc @ ''/'' @ url else scheme @ '':'' @ url)
            else (if scheme \<noteq> [] then scheme @ ''://'' @ netloc @ url else ''//'' @ netloc @ url))
         else if scheme \<noteq> [] then scheme @ '':'' @ url else url);
          url2 = (if query \<noteq> [] then url1 @ ''?'' @ query else url1)
      in if fragment \<noteq> [] then url2 @ ''#'' @ fragment else url2)"

definition query_to_pairs :: "string \<Rightarrow> (string \<times> string) list" where
  "query_to_pairs query_string =
     (if query_string = [] then []
      else map (\<lambda>k_v. let (k, v) = str_partition (CHR ''='') k_v
                      in (unquoter_call UNQUOTER_PLUS k, unquoter_call UNQUOTER_PLUS v))
             (str_split (CHR ''&'') query_string))"

end
