(* ===== verification/Yarl_Query.thy ===== *)
theory Yarl_Query
  imports Yarl_Parse
begin

text \<open>
  Query strings (\<^verbatim>\<open>yarl/_query.py\<close>): the values that are accepted, the three ways to print them, and
  the round trip with the parser of \<^verbatim>\<open>yarl/_parse.py\<close>.
\<close>

section \<open>Values and arguments\<close>

text \<open>
  A \<^verbatim>\<open>float\<close> is given by its \<^verbatim>\<open>str\<close> unless it is no number. \<open>QSupportsInt\<close> is an object of another class
  with \<^verbatim>\<open>__int__\<close>, subclasses of \<^verbatim>\<open>int\<close> included, \<open>QOther\<close> one without.
\<close>

datatype simple_query =
    QStr string
  | QInt int
  | QFloat string
  | QInf
  | QNan
  | QBool bool
  | QSupportsInt int
  | QOther

text \<open>A list or a tuple of values, or a single one.\<close>

datatype query_variable = One simple_query | Several "simple_query list"

type_synonym query_items = "(string \<times> query_variable) list"

text \<open>The argument \<^verbatim>\<open>query\<close>; \<open>QNotQuery\<close> is a value of another type, with its truth value.\<close>

datatype query =
    QNone
  | QText string
  | QMapping query_items
  | QBytes string
  | QSequence query_items
  | QNotQuery bool

fun query_truthy :: "query \<Rightarrow> bool" where
  "query_truthy QNone = False"
| "query_truthy (QText s) = (s \<noteq> [])"
| "query_truthy (QMapping m) = (m \<noteq> [])"
| "query_truthy (QBytes b) = (b \<noteq> [])"
| "query_truthy (QSequence s) = (s \<noteq> [])"
| "query_truthy (QNotQuery b) = b"

section \<open>Printing\<close>

fun query_var :: "simple_query \<Rightarrow> string res" where
  "query_var (QInt n) = Inr (int_str n)"
| "query_var (QStr s) = Inr s"
| "query_var QInf = Inl (ValueError (''float('' @ [CHR 0x27] @ ''inf'' @ [CHR 0x27] @ '') is not supported''))"
| "query_var QNan = Inl (ValueError (''float('' @ [CHR 0x27] @ ''nan'' @ [CHR 0x27] @ '') is not supported''))"
| "query_var (QFloat s) = Inr s"
| "query_var (QBool b) = Inl TypeError"
| "query_var (QSupportsInt n) = Inr (int_str n)"
| "query_var QOther = Inl TypeError"

definition query_pair_text :: "string \<Rightarrow> simple_query \<Rightarrow> string res" where
  "query_pair_text k v =
     rbind (query_var v) (\<lambda>t. Inr (quoter_call QUERY_PART_QUOTER k @ ''='' @ quoter_call QUERY_PART_QUOTER t))"

definition get_str_query_from_sequence_iterable :: "query_items \<Rightarrow> string res" where
  "get_str_query_from_sequence_iterable items =
     rbind
       (mapM (\<lambda>(k, v). query_pair_text k v)
         (concat (map (\<lambda>(k, val). map (\<lambda>v. (k, v)) (case val of One v \<Rightarrow> [v] | Several vs \<Rightarrow> vs)) items)))
       (\<lambda>pairs. Inr (str_join ''&'' pairs))"

text \<open>A list or a tuple among the values is none that \<^verbatim>\<open>query_var\<close> accepts.\<close>

definition get_str_query_from_iterable :: "query_items \<Rightarrow> string res" where
  "get_str_query_from_iterable items =
     rbind
       (mapM (\<lambda>(k, val). case val of One v \<Rightarrow> query_pair_text k v | Several vs \<Rightarrow> Inl TypeError) items)
       (\<lambda>pairs. Inr (str_join ''&'' pairs))"

text \<open>The positional and keyword arguments reduced to the single query; \<^verbatim>\<open>ValueError\<close> otherwise.\<close>

definition query_argument :: "query list \<Rightarrow> query_items \<Rightarrow> query res" where
  "query_argument args kwargs =
     (if kwargs \<noteq> [] then
        (if args \<noteq> [] then Inl (ValueError ''Either kwargs or single query parameter must be present'')
         else Inr (QMapping kwargs))
      else if length args = 1 then Inr (args ! 0)
      else Inl (ValueError ''Either kwargs or single query parameter must be present''))"

fun str_query_of :: "query \<Rightarrow> string option res" where
  "str_query_of QNone = Inr None"
| "str_query_of (QMapping m) = rbind (get_str_query_from_sequence_iterable m) (\<lambda>s. Inr (Some s))"
| "str_query_of (QText s) = Inr (Some (quoter_call QUERY_QUOTER s))"
| "str_query_of (QBytes b) = (if b = [] then Inr (Some []) else Inl TypeError)"
| "str_query_of (QSequence s) = rbind (get_str_query_from_iterable s) (\<lambda>t. Inr (Some t))"
| "str_query_of (QNotQuery b) = (if b then Inl TypeError else Inr (Some []))"

definition get_str_query :: "query list \<Rightarrow> query_items \<Rightarrow> string option res" where
  "get_str_query args kwargs =
     rbind (query_argument args kwargs) (\<lambda>query.
       if query = QNone then Inr None
       else if \<not> query_truthy query then Inr (Some [])
       else str_query_of query)"

section \<open>The round trip\<close>

lemma alphabet_free:
  assumes "x \<notin> set (quoter_safe q)" and "x \<noteq> CHR ''%''" and "\<not> upper_hex x" and "x \<noteq> CHR ''+''"
  shows "x \<notin> set (quoter_call q s)"
  using quote_alphabet [of x q s] assms by (auto simp: quoter_call_ref)

lemma part_free: "CHR ''&'' \<notin> set (quoter_call QUERY_PART_QUOTER s)" "CHR ''='' \<notin> set (quoter_call QUERY_PART_QUOTER s)"
  by (rule alphabet_free; simp add: quoter_defs upper_hex_def)+

lemma partition_found: "c \<notin> set a \<Longrightarrow> str_partition c (a @ c # b) = (a, b)"
  by (auto simp: str_partition_def takeWhile_append dropWhile_append)

lemma split_of_join:
  assumes "ps \<noteq> []" and "\<forall>p \<in> set ps. c \<notin> set p"
  shows "str_split c (str_join [c] ps) = ps"
  using assms
proof (induction ps rule: list_nonempty_induct)
  case (cons x xs)
  then show ?case by (cases xs) (auto simp: split_append)
qed (simp add: split_single)

text \<open>Keys with texts as values; the text of a pair.\<close>

abbreviation str_items :: "(string \<times> string) list \<Rightarrow> query_items" where
  "str_items ps \<equiv> map (\<lambda>(k, v). (k, One (QStr v))) ps"

definition pair_text :: "string \<times> string \<Rightarrow> string" where
  "pair_text p = quoter_call QUERY_PART_QUOTER (fst p) @ ''='' @ quoter_call QUERY_PART_QUOTER (snd p)"

lemma mapM_pure: "mapM (\<lambda>x. Inr (f x)) xs = Inr (map f xs)"
  by (induction xs) auto

lemma from_iterable_str: "get_str_query_from_iterable (str_items ps) = Inr (str_join ''&'' (map pair_text ps))"
proof -
  have "mapM (\<lambda>(k, val). case val of One v \<Rightarrow> query_pair_text k v | Several vs \<Rightarrow> Inl TypeError) (str_items ps)
      = Inr (map pair_text ps)"
    by (induction ps) (auto simp: query_pair_text_def pair_text_def)
  then show ?thesis by (simp add: get_str_query_from_iterable_def)
qed

lemma pairs_back:
  assumes "\<forall>p \<in> set ps. utf8_valid (fst p) \<and> utf8_valid (snd p)"
  shows "query_to_pairs (str_join ''&'' (map pair_text ps)) = ps"
proof (cases "ps = []")
  case False
  have free: "CHR ''&'' \<notin> set (pair_text p)" for p using part_free by (simp add: pair_text_def)
  have ne: "str_join ''&'' (map pair_text ps) \<noteq> []"
    using False by (cases ps; cases "tl ps") (auto simp: pair_text_def)
  have "(let (k, v) = str_partition (CHR ''='') (pair_text p)
         in (unquoter_call UNQUOTER_PLUS k, unquoter_call UNQUOTER_PLUS v)) = p" if "p \<in> set ps" for p
    using assms that by (simp add: pair_text_def partition_found part_free query_pair.unquote_quote)
  then have "map (\<lambda>k_v. let (k, v) = str_partition (CHR ''='') k_v
         in (unquoter_call UNQUOTER_PLUS k, unquoter_call UNQUOTER_PLUS v)) (map pair_text ps) = ps"
    by (simp add: map_idI)
  moreover have "str_split (CHR ''&'') (str_join ''&'' (map pair_text ps)) = map pair_text ps"
    using False free by (intro split_of_join) auto
  ultimately show ?thesis using ne by (simp add: query_to_pairs_def del: map_map)
qed (simp add: query_to_pairs_def)

lemma from_sequence_str: "get_str_query_from_sequence_iterable (str_items ps) = Inr (str_join ''&'' (map pair_text ps))"
proof -
  have flat: "concat (map (\<lambda>(k, val). map (\<lambda>v. (k, v)) (case val of One v \<Rightarrow> [v] | Several vs \<Rightarrow> vs)) (str_items ps))
      = map (\<lambda>(k, v). (k, QStr v)) ps"
    by (induction ps) auto
  have "mapM (\<lambda>(k, v). query_pair_text k v) (map (\<lambda>(k, v). (k, QStr v)) ps) = Inr (map pair_text ps)"
    by (induction ps) (auto simp: query_pair_text_def pair_text_def)
  then show ?thesis unfolding get_str_query_from_sequence_iterable_def flat by simp
qed

text \<open>
  C39: Any list of keys and texts, empty keys, repeated keys and every character included, is printed
  without error, as a sequence of pairs or as a mapping, and the query string parsed again is the list.
\<close>

theorem query_read_back:
  assumes "\<forall>p \<in> set ps. utf8_valid (fst p) \<and> utf8_valid (snd p)"
  shows "\<exists>s. get_str_query [QSequence (str_items ps)] [] = Inr (Some s)
    \<and> get_str_query [QMapping (str_items ps)] [] = Inr (Some s) \<and> query_to_pairs s = ps"
proof -
  let ?s = "str_join ''&'' (map pair_text ps)"
  have nil: "ps = [] \<Longrightarrow> ?s = []" by simp
  show ?thesis
    using pairs_back [OF assms] from_sequence_str [of ps] from_iterable_str [of ps] nil
    by (cases "ps = []") (auto simp: get_str_query_def query_argument_def query_to_pairs_def)
qed

lemma query_read_back_witness:
  "\<exists>s. get_str_query [QSequence (str_items [(''a'', ''1 2''), ('''', ''&''), (''a'', '''')])] [] = Inr (Some s)
     \<and> query_to_pairs s = [(''a'', ''1 2''), ('''', ''&''), (''a'', '''')]"
  using query_read_back [of "[(''a'', ''1 2''), ('''', ''&''), (''a'', '''')]"] by auto

end
