(* ===== verification/Yarl_Url.thy ===== *)
theory Yarl_Url
  imports Yarl_Query
begin

text \<open>
  The class \<^verbatim>\<open>URL\<close> of \<^verbatim>\<open>yarl/_url.py\<close>: its construction from a text or from parts, its properties, and
  the methods that return a new URL. A URL is immutable, so the caches of functions and properties
  change nothing but for one: \<^verbatim>\<open>encode_url\<close> fills in user, password, host and port as it has split them,
  while they are split again from the authority in every other case. That part of the cache is
  kept.
\<close>

section \<open>Constants and texts\<close>

definition DEFAULT_PORTS :: "(string \<times> int) list" where
  "DEFAULT_PORTS = [(''http'', 80), (''https'', 443), (''ws'', 80), (''wss'', 443), (''ftp'', 21)]"

definition USES_RELATIVE :: "string list" where
  "USES_RELATIVE = ['''', ''ftp'', ''http'', ''gopher'', ''nntp'', ''imap'', ''wais'', ''file'', ''https'', ''shttp'',
     ''mms'', ''prospero'', ''rtsp'', ''rtsps'', ''rtspu'', ''sftp'', ''svn'', ''svn+ssh'', ''ws'', ''wss'']"

definition SCHEME_REQUIRES_HOST :: "string list" where
  "SCHEME_REQUIRES_HOST = [''http'', ''https'', ''ws'', ''wss'', ''ftp'']"

text \<open>\<^verbatim>\<open>repr\<close> of an ASCII text; of another one it is an argument.\<close>

definition repr_char :: "char \<Rightarrow> char \<Rightarrow> string" where
  "repr_char q c =
     (let n = ord c :: nat; hex = (\<lambda>d :: nat. char_of (if d < 10 then 48 + d else 87 + d))
      in if c = q \<or> n = 92 then [CHR 0x5C, c]
         else if n = 9 then [CHR 0x5C, CHR ''t''] else if n = 10 then [CHR 0x5C, CHR ''n'']
         else if n = 13 then [CHR 0x5C, CHR ''r'']
         else if n < 32 \<or> n = 127 then [CHR 0x5C, CHR ''x'', hex (n div 16), hex (n mod 16)] else [c])"

definition text_repr :: "(string \<Rightarrow> string) \<Rightarrow> string \<Rightarrow> string" where
  "text_repr wide_repr s =
     (if \<not> str_isascii s then wide_repr s
      else
        (let q = (if CHR 0x27 \<in> set s \<and> CHR 0x22 \<notin> set s then CHR 0x22 else CHR 0x27)
         in q # concat (map (repr_char q) s) @ [q]))"

section \<open>Hosts\<close>

definition is_reg_name_char :: "char \<Rightarrow> bool" where
  "is_reg_name_char c \<longleftrightarrow>
     c \<in> set (''abcdefghijklmnopqrstuvwxyz0123456789-._~!$&'' @ [CHR 0x27] @ ''()*+,;=%'')"

definition is_lower_hex :: "char \<Rightarrow> bool" where
  "is_lower_hex c \<longleftrightarrow> c \<in> set ''0123456789abcdef''"

text \<open>\<^verbatim>\<open>NOT_REG_NAME.search\<close>: the character that is found and its position.\<close>

fun not_reg_name :: "nat \<Rightarrow> string \<Rightarrow> (char \<times> nat) option" where
  "not_reg_name pos [] = None"
| "not_reg_name pos (c # s) =
     (if \<not> is_reg_name_char c then Some (c, pos)
      else if c = CHR ''%'' \<and> \<not> (2 \<le> length s \<and> is_lower_hex (s ! 0) \<and> is_lower_hex (s ! 1)) then Some (c, pos)
      else not_reg_name (Suc pos) s)"

definition ends_in_digit :: "yarl_env \<Rightarrow> string \<Rightarrow> bool" where
  "ends_in_digit env s =
     (if (ord (last s) :: nat) < 128 then is_digit (last s) else wide_digit_end env s)"

definition idna_encode :: "yarl_env \<Rightarrow> string \<Rightarrow> string res" where
  "idna_encode env host =
     (case uts46_encode env host of Some r \<Rightarrow> Inr r
      | None \<Rightarrow> (case codec_encode env host of Some r \<Rightarrow> Inr r | None \<Rightarrow> Inl UnicodeError))"

definition idna_decode :: "yarl_env \<Rightarrow> string \<Rightarrow> string res" where
  "idna_decode env raw =
     (if \<not> str_isascii raw then Inl UnicodeError
      else case label_decode env raw of Some r \<Rightarrow> Inr r
      | None \<Rightarrow> (case codec_decode env raw of Some r \<Rightarrow> Inr r | None \<Rightarrow> Inl UnicodeError))"

definition host_error :: "string \<Rightarrow> char \<Rightarrow> nat \<Rightarrow> exc" where
  "host_error host value pos =
     (let extra =
        (if value = CHR ''@'' \<or> value = CHR '':'' \<and> CHR ''@'' \<in> set (drop pos host)
         then '', if the value includes a username or password, use '' @ [CHR 0x27] @ ''authority'' @ [CHR 0x27]
              @ '' instead of '' @ [CHR 0x27] @ ''host'' @ [CHR 0x27]
         else [])
      in ValueError (''Host '' @ text_repr id host @ '' cannot contain '' @ text_repr id [value] @ '' (at position ''
           @ nat_str pos @ '')'' @ extra))"

definition encode_name :: "yarl_env \<Rightarrow> string \<Rightarrow> bool \<Rightarrow> string res" where
  "encode_name env host validate_host =
     (if str_isascii host then
        (let host1 = map ascii_lower host
         in case (if validate_host then not_reg_name 0 host1 else None) of
              Some (value, pos) \<Rightarrow> Inl (host_error host1 value pos)
            | None \<Rightarrow> Inr host1)
      else idna_encode env host)"

definition encode_host :: "yarl_env \<Rightarrow> string \<Rightarrow> bool \<Rightarrow> string res" where
  "encode_host env host validate_host =
     (let (raw_ip, zone) = str_partition (CHR ''%'') host; sep = (if CHR ''%'' \<in> set host then ''%'' @ zone else [])
      in case (if host \<noteq> [] \<and> (ends_in_digit env host \<or> CHR '':'' \<in> set host) then read_ip env raw_ip else None) of
           Some (version, compressed) \<Rightarrow>
             Inr (if version = 6 then ''['' @ compressed @ sep @ '']'' else compressed @ sep)
         | None \<Rightarrow> encode_name env host validate_host)"

section \<open>Construction\<close>

record url =
  v_scheme :: string
  v_netloc :: string
  v_path :: string
  v_query :: string
  v_fragment :: string
  v_cache :: "split_loc option"

definition from_parts :: "string \<Rightarrow> string \<Rightarrow> string \<Rightarrow> string \<Rightarrow> string \<Rightarrow> url" where
  "from_parts scheme netloc path query fragment =
     \<lparr>v_scheme = scheme, v_netloc = netloc, v_path = path, v_query = query, v_fragment = fragment, v_cache = None\<rparr>"

definition encode_netloc :: "yarl_env \<Rightarrow> string \<Rightarrow> string \<Rightarrow> (string \<times> split_loc option) res" where
  "encode_netloc env scheme netloc =
     (if netloc = [] then Inr ([], None)
      else rbind
        (if list_ex (\<lambda>c. c \<in> set netloc) '':@['' then split_netloc env netloc else Inr (None, None, Some netloc, None))
        (\<lambda>(username, password, host, port).
        rbind (case host of Some h \<Rightarrow> Inr h
               | None \<Rightarrow> if scheme \<in> set SCHEME_REQUIRES_HOST
                   then Inl (ValueError (''Invalid URL: host is required for absolute urls with the '' @ scheme @ '' scheme''))
                   else Inr [])
        (\<lambda>host1. rbind (encode_host env host1 False) (\<lambda>host2.
           let raw_host = (if CHR ''['' \<in> set host2 then slice 1 (length host2 - 1) host2 else host2);
               raw_user = map_option (quoter_call REQUOTER) username;
               raw_password = map_option (quoter_call REQUOTER) password
           in if password = None \<and> username = None
              then Inr (with_port_text host2 port, Some (None, None, Some raw_host, port))
              else Inr (make_netloc raw_user raw_password (Some host2) port False,
                        Some (raw_user, raw_password, Some raw_host, port))))))"

definition encode_path :: "string \<Rightarrow> string \<Rightarrow> string" where
  "encode_path netloc path =
     (if path = [] then path
      else
        (let path1 = quoter_call PATH_REQUOTER path
         in if netloc \<noteq> [] \<and> CHR ''.'' \<in> set path1 then normalize_path path1 else path1))"

definition encode_url :: "yarl_env \<Rightarrow> string \<Rightarrow> url res" where
  "encode_url env url_str =
     rbind (split_url env url_str) (\<lambda>(scheme, netloc, path, query, fragment).
     rbind (encode_netloc env scheme netloc) (\<lambda>(netloc1, cache).
       Inr \<lparr>v_scheme = scheme, v_netloc = netloc1, v_path = encode_path netloc1 path,
            v_query = (if query \<noteq> [] then quoter_call QUERY_REQUOTER query else query),
            v_fragment = (if fragment \<noteq> [] then quoter_call FRAGMENT_REQUOTER fragment else fragment),
            v_cache = cache\<rparr>))"

definition pre_encoded_url :: "yarl_env \<Rightarrow> string \<Rightarrow> url res" where
  "pre_encoded_url env url_str =
     rbind (split_url env url_str) (\<lambda>(scheme, netloc, path, query, fragment).
       Inr (from_parts scheme netloc path query fragment))"

definition drop_default_port :: "string \<Rightarrow> int option \<Rightarrow> int option" where
  "drop_default_port scheme port = (if port = map_of DEFAULT_PORTS scheme then None else port)"

definition build_pre_encoded_url ::
  "string \<Rightarrow> string \<Rightarrow> string option \<Rightarrow> string option \<Rightarrow> string \<Rightarrow> int option \<Rightarrow> string \<Rightarrow> string \<Rightarrow> string \<Rightarrow> url" where
  "build_pre_encoded_url scheme authority user password host port path query_string fragment =
     from_parts scheme
       (if authority \<noteq> [] then authority
        else if host \<noteq> [] then
          (let port1 = drop_default_port scheme port
           in if user = None \<and> password = None then with_port_text host port1
              else make_netloc user password (Some host) port1 False)
        else [])
       path query_string fragment"

text \<open>What \<^verbatim>\<open>URL(...)\<close> is given: a text, a URL, a \<^verbatim>\<open>SplitResult\<close>, nothing, or something else.\<close>

datatype url_arg = Of_Text string | Of_Url url | Of_Split split_url_type | Undefined | Of_Other

fun new_url :: "yarl_env \<Rightarrow> url_arg \<Rightarrow> bool \<Rightarrow> url res" where
  "new_url env (Of_Text s) encoded = (if encoded then pre_encoded_url env s else encode_url env s)"
| "new_url env (Of_Url u) encoded = Inr u"
| "new_url env (Of_Split (scheme, netloc, path, query, fragment)) encoded =
     (if \<not> encoded then Inl (ValueError ''Cannot apply decoding to SplitResult'')
      else Inr (from_parts scheme netloc path query fragment))"
| "new_url env Undefined encoded = Inr (from_parts [] [] [] [] [])"
| "new_url env Of_Other encoded = Inl TypeError"

text \<open>The keyword arguments of \<^verbatim>\<open>URL.build\<close>; \<open>None\<close> is \<^verbatim>\<open>None\<close>.\<close>

record build_args =
  b_scheme :: "string option"
  b_authority :: "string option"
  b_user :: "string option"
  b_password :: "string option"
  b_host :: "string option"
  b_port :: "int option"
  b_path :: "string option"
  b_query :: query
  b_query_string :: "string option"
  b_fragment :: "string option"
  b_encoded :: bool

definition no_args :: build_args where
  "no_args = \<lparr>b_scheme = Some [], b_authority = Some [], b_user = None, b_password = None, b_host = Some [],
     b_port = None, b_path = Some [], b_query = QNone, b_query_string = Some [], b_fragment = Some [],
     b_encoded = False\<rparr>"

definition given_text :: "string option \<Rightarrow> bool" where
  "given_text s \<longleftrightarrow> s \<noteq> None \<and> s \<noteq> Some []"

definition given_port :: "int option \<Rightarrow> bool" where
  "given_port p \<longleftrightarrow> p \<noteq> None \<and> p \<noteq> Some 0"

definition check_build_args :: "build_args \<Rightarrow> unit res" where
  "check_build_args a =
     (if given_text (b_authority a)
         \<and> (given_text (b_user a) \<or> given_text (b_password a) \<or> given_text (b_host a) \<or> given_port (b_port a))
      then Inl (ValueError (''Can'' @ [CHR 0x27] @ ''t mix \"authority\" with \"user\", \"password\", \"host\" or \"port\".''))
      else if given_port (b_port a) \<and> \<not> given_text (b_host a)
      then Inl (ValueError (''Can'' @ [CHR 0x27] @ ''t build URL with \"port\" but without \"host\".''))
      else if query_truthy (b_query a) \<and> given_text (b_query_string a)
      then Inl (ValueError ''Only one of \"query\" or \"query_string\" should be passed'')
      else if None \<in> set [b_scheme a, b_authority a, b_host a, b_path a, b_query_string a, b_fragment a]
      then Inl TypeError
      else Inr ())"

definition build_netloc :: "yarl_env \<Rightarrow> build_args \<Rightarrow> string res" where
  "build_netloc env a =
     (let scheme = the (b_scheme a); authority = the (b_authority a); host = the (b_host a);
          finish = (\<lambda>user password host1 port.
            let port1 = drop_default_port scheme port
            in if user = None \<and> password = None then with_port_text host1 port1
               else make_netloc user password (Some host1) port1 True)
      in if authority \<noteq> [] then
           rbind (split_netloc env authority) (\<lambda>(user, password, host1, port).
           rbind (case host1 of None \<Rightarrow> Inr [] | Some h \<Rightarrow> encode_host env h False) (\<lambda>host2.
             Inr (finish user password host2 port)))
         else if host \<noteq> [] then
           rbind (encode_host env host True) (\<lambda>host1. Inr (finish (b_user a) (b_password a) host1 (b_port a)))
         else Inr [])"

definition build_path :: "string \<Rightarrow> string \<Rightarrow> string res" where
  "build_path netloc path =
     (let path1 = quoter_call PATH_QUOTER path
      in if path1 \<noteq> [] \<and> netloc \<noteq> [] then
           (let path2 = (if CHR ''.'' \<in> set path1 then normalize_path path1 else path1)
            in if path2 = [] then Inl IndexError
               else if path2 ! 0 \<noteq> slash
               then Inl (ValueError (''Path in a URL with authority should start with a slash (''
                      @ [CHR 0x27] @ ''/'' @ [CHR 0x27] @ '') if set''))
               else Inr path2)
         else Inr path1)"

definition url_build :: "yarl_env \<Rightarrow> build_args \<Rightarrow> url res" where
  "url_build env a =
     rbind (check_build_args a) (\<lambda>_.
     rbind (if query_truthy (b_query a)
            then rbind (get_str_query [b_query a] []) (\<lambda>q. Inr (case q of None \<Rightarrow> [] | Some s \<Rightarrow> s))
            else Inr (the (b_query_string a))) (\<lambda>query_string.
       if b_encoded a
       then Inr (build_pre_encoded_url (the (b_scheme a)) (the (b_authority a)) (b_user a) (b_password a)
              (the (b_host a)) (b_port a) (the (b_path a)) query_string (the (b_fragment a)))
       else
         rbind (build_netloc env a) (\<lambda>netloc.
         rbind (build_path netloc (the (b_path a))) (\<lambda>path.
           Inr (from_parts (the (b_scheme a)) netloc path
             (if \<not> query_truthy (b_query a) \<and> query_string \<noteq> [] then quoter_call QUERY_QUOTER query_string
              else query_string)
             (quoter_call FRAGMENT_QUOTER (the (b_fragment a))))))))"

section \<open>Properties\<close>

text \<open>User, password, host and port: from the cache, or split from the authority.\<close>

definition url_loc :: "yarl_env \<Rightarrow> url \<Rightarrow> split_loc res" where
  "url_loc env u = (case v_cache u of Some c \<Rightarrow> Inr c | None \<Rightarrow> split_netloc env (v_netloc u))"

definition url_raw_user :: "yarl_env \<Rightarrow> url \<Rightarrow> string option res" where
  "url_raw_user env u = rbind (url_loc env u) (\<lambda>(user, password, host, port). Inr user)"

definition url_raw_password :: "yarl_env \<Rightarrow> url \<Rightarrow> string option res" where
  "url_raw_password env u = rbind (url_loc env u) (\<lambda>(user, password, host, port). Inr password)"

definition url_raw_host :: "yarl_env \<Rightarrow> url \<Rightarrow> string option res" where
  "url_raw_host env u = rbind (url_loc env u) (\<lambda>(user, password, host, port). Inr host)"

definition url_explicit_port :: "yarl_env \<Rightarrow> url \<Rightarrow> int option res" where
  "url_explicit_port env u = rbind (url_loc env u) (\<lambda>(user, password, host, port). Inr port)"

definition url_user :: "yarl_env \<Rightarrow> url \<Rightarrow> string option res" where
  "url_user env u = rbind (url_raw_user env u) (\<lambda>x. Inr (map_option (unquoter_call UNQUOTER) x))"

definition url_password :: "yarl_env \<Rightarrow> url \<Rightarrow> string option res" where
  "url_password env u = rbind (url_raw_password env u) (\<lambda>x. Inr (map_option (unquoter_call UNQUOTER) x))"

definition url_host :: "yarl_env \<Rightarrow> url \<Rightarrow> string option res" where
  "url_host env u =
     rbind (url_raw_host env u) (\<lambda>x.
       case x of None \<Rightarrow> Inr None
       | Some raw \<Rightarrow>
           if raw \<noteq> [] \<and> ends_in_digit env raw \<or> CHR '':'' \<in> set raw then Inr (Some raw)
           else rbind (idna_decode env raw) (\<lambda>h. Inr (Some h)))"

definition bracket :: "string \<Rightarrow> string" where
  "bracket raw = (if CHR '':'' \<in> set raw then ''['' @ raw @ '']'' else raw)"

definition url_host_subcomponent :: "yarl_env \<Rightarrow> url \<Rightarrow> string option res" where
  "url_host_subcomponent env u = rbind (url_raw_host env u) (\<lambda>x. Inr (map_option bracket x))"

definition url_host_port_subcomponent :: "yarl_env \<Rightarrow> url \<Rightarrow> string option res" where
  "url_host_port_subcomponent env u =
     rbind (url_raw_host env u) (\<lambda>x.
       case x of None \<Rightarrow> Inr None
       | Some raw0 \<Rightarrow>
           if raw0 = [] then Inl IndexError
           else
             (let raw = (if last raw0 = CHR ''.'' then str_rstrip_set ''.'' raw0 else raw0)
              in rbind (url_explicit_port env u) (\<lambda>port.
                   if port = None \<or> port = map_of DEFAULT_PORTS (v_scheme u) then Inr (Some (bracket raw))
                   else Inr (Some (with_port_text (bracket raw) port)))))"

definition url_port :: "yarl_env \<Rightarrow> url \<Rightarrow> int option res" where
  "url_port env u =
     rbind (url_explicit_port env u) (\<lambda>p.
       Inr (case p of Some n \<Rightarrow> Some n | None \<Rightarrow> map_of DEFAULT_PORTS (v_scheme u)))"

definition url_authority :: "yarl_env \<Rightarrow> url \<Rightarrow> string res" where
  "url_authority env u =
     rbind (url_user env u) (\<lambda>user. rbind (url_password env u) (\<lambda>password.
     rbind (url_host env u) (\<lambda>host. rbind (url_port env u) (\<lambda>port.
       Inr (make_netloc user password host port False)))))"

definition url_absolute :: "url \<Rightarrow> bool" where
  "url_absolute u \<longleftrightarrow> v_netloc u \<noteq> []"

definition is_default_port :: "yarl_env \<Rightarrow> url \<Rightarrow> bool res" where
  "is_default_port env u =
     rbind (url_explicit_port env u) (\<lambda>p.
       Inr (if p = None then v_netloc u \<noteq> [] else p = map_of DEFAULT_PORTS (v_scheme u)))"

definition url_raw_path :: "url \<Rightarrow> string" where
  "url_raw_path u = (if v_path u = [] \<and> v_netloc u \<noteq> [] then ''/'' else v_path u)"

definition url_path :: "url \<Rightarrow> string" where
  "url_path u =
     (if v_path u \<noteq> [] then unquoter_call PATH_UNQUOTER (v_path u) else if v_netloc u \<noteq> [] then ''/'' else [])"

definition url_path_safe :: "url \<Rightarrow> string" where
  "url_path_safe u =
     (if v_path u \<noteq> [] then unquoter_call PATH_SAFE_UNQUOTER (v_path u) else if v_netloc u \<noteq> [] then ''/'' else [])"

definition url_parsed_query :: "url \<Rightarrow> (string \<times> string) list" where
  "url_parsed_query u = query_to_pairs (v_query u)"

definition url_query_string :: "url \<Rightarrow> string" where
  "url_query_string u = (if v_query u \<noteq> [] then unquoter_call QS_UNQUOTER (v_query u) else [])"

definition url_path_qs :: "url \<Rightarrow> string" where
  "url_path_qs u = (if url_query_string u = [] then url_path u else url_path u @ ''?'' @ url_query_string u)"

definition url_raw_path_qs :: "url \<Rightarrow> string" where
  "url_raw_path_qs u = (if v_query u \<noteq> [] then url_raw_path u @ ''?'' @ v_query u else url_raw_path u)"

definition url_fragment :: "url \<Rightarrow> string" where
  "url_fragment u = (if v_fragment u \<noteq> [] then unquoter_call UNQUOTER (v_fragment u) else [])"

definition url_raw_parts :: "url \<Rightarrow> string list" where
  "url_raw_parts u =
     (let path = v_path u
      in if v_netloc u \<noteq> [] then (if path \<noteq> [] then ''/'' # str_split slash (drop 1 path) else [''/''])
         else if path \<noteq> [] \<and> path ! 0 = slash then ''/'' # str_split slash (drop 1 path)
         else str_split slash path)"

definition url_parts :: "url \<Rightarrow> string list" where
  "url_parts u = map (unquoter_call UNQUOTER) (url_raw_parts u)"

definition url_raw_name :: "url \<Rightarrow> string" where
  "url_raw_name u =
     (let parts = url_raw_parts u
      in if v_netloc u = [] then last parts
         else (let parts1 = drop 1 parts in if parts1 \<noteq> [] then last parts1 else []))"

definition url_name :: "url \<Rightarrow> string" where
  "url_name u = unquoter_call UNQUOTER (url_raw_name u)"

text \<open>\<^verbatim>\<open>name.rfind(".")\<close>\<close>

definition rfind_dot :: "string \<Rightarrow> int" where
  "rfind_dot s =
     (if CHR ''.'' \<in> set s then int (length s) - 1 - int (length (takeWhile (\<lambda>c. c \<noteq> CHR ''.'') (rev s))) else - 1)"

definition url_raw_suffix :: "url \<Rightarrow> string" where
  "url_raw_suffix u =
     (let name = url_raw_name u; i = rfind_dot name
      in if 0 < i \<and> i < int (length name) - 1 then drop (nat i) name else [])"

definition url_suffix :: "url \<Rightarrow> string" where
  "url_suffix u = unquoter_call UNQUOTER (url_raw_suffix u)"

definition url_raw_suffixes :: "url \<Rightarrow> string list" where
  "url_raw_suffixes u =
     (let name = url_raw_name u
      in if name \<noteq> [] \<and> last name = CHR ''.'' then []
         else map (\<lambda>suffix. ''.'' @ suffix) (drop 1 (str_split (CHR ''.'') (dropWhile (\<lambda>c. c = CHR ''.'') name))))"

definition url_suffixes :: "url \<Rightarrow> string list" where
  "url_suffixes u = map (unquoter_call UNQUOTER) (url_raw_suffixes u)"

section \<open>Text, comparison, parts\<close>

text \<open>\<^verbatim>\<open>__str__\<close>; \<^verbatim>\<open>host_subcomponent\<close>, \<^verbatim>\<open>raw_user\<close> and \<^verbatim>\<open>raw_password\<close> are only read for a default port.\<close>

definition url_str :: "yarl_env \<Rightarrow> url \<Rightarrow> string res" where
  "url_str env u =
     (let path = (if v_path u = [] \<and> v_netloc u \<noteq> [] \<and> (v_query u \<noteq> [] \<or> v_fragment u \<noteq> []) then ''/'' else v_path u)
      in rbind (url_explicit_port env u) (\<lambda>port.
         rbind (if port \<noteq> None \<and> port = map_of DEFAULT_PORTS (v_scheme u) then
                  rbind (url_host_subcomponent env u) (\<lambda>host.
                  rbind (url_raw_user env u) (\<lambda>user. rbind (url_raw_password env u) (\<lambda>password.
                    Inr (make_netloc user password host None False))))
                else Inr (v_netloc u)) (\<lambda>netloc.
           Inr (unsplit_result (v_scheme u) netloc path (v_query u) (v_fragment u)))))"

definition url_bytes :: "yarl_env \<Rightarrow> url \<Rightarrow> string res" where
  "url_bytes env u = rbind (url_str env u) (\<lambda>s. if str_isascii s then Inr s else Inl UnicodeError)"

definition url_val :: "url \<Rightarrow> split_url_type" where
  "url_val u = (v_scheme u, v_netloc u, v_path u, v_query u, v_fragment u)"

definition url_eq :: "url \<Rightarrow> url \<Rightarrow> bool" where
  "url_eq u v \<longleftrightarrow>
     (let path1 = (if v_path u = [] \<and> v_netloc u \<noteq> [] then ''/'' else v_path u);
          path2 = (if v_path v = [] \<and> v_netloc v \<noteq> [] then ''/'' else v_path v)
      in v_scheme u = v_scheme v \<and> v_netloc u = v_netloc v \<and> path1 = path2 \<and> v_query u = v_query v
         \<and> v_fragment u = v_fragment v)"

text \<open>\<^verbatim>\<open>__lt__\<close> and \<^verbatim>\<open>__le__\<close> on the tuples, which compare as lists of texts.\<close>

definition val_texts :: "url \<Rightarrow> string list" where
  "val_texts u = [v_scheme u, v_netloc u, v_path u, v_query u, v_fragment u]"

definition url_lt :: "url \<Rightarrow> url \<Rightarrow> bool" where "url_lt u v \<longleftrightarrow> val_texts u < val_texts v"
definition url_le :: "url \<Rightarrow> url \<Rightarrow> bool" where "url_le u v \<longleftrightarrow> val_texts u \<le> val_texts v"

definition url_bool :: "url \<Rightarrow> bool" where
  "url_bool u \<longleftrightarrow> v_netloc u \<noteq> [] \<or> v_path u \<noteq> [] \<or> v_query u \<noteq> [] \<or> v_fragment u \<noteq> []"

definition url_origin :: "yarl_env \<Rightarrow> url \<Rightarrow> url res" where
  "url_origin env u =
     (if v_netloc u = [] then Inl (ValueError ''URL should be absolute'')
      else if v_scheme u = [] then Inl (ValueError ''URL should have scheme'')
      else if CHR ''@'' \<in> set (v_netloc u) then
        rbind (url_host_subcomponent env u) (\<lambda>encoded_host. rbind (url_explicit_port env u) (\<lambda>port.
          Inr (from_parts (v_scheme u) (make_netloc None None encoded_host port False) [] [] [])))
      else if v_path u = [] \<and> v_query u = [] \<and> v_fragment u = [] then Inr u
      else Inr (from_parts (v_scheme u) (v_netloc u) [] [] []))"

definition url_relative :: "url \<Rightarrow> url res" where
  "url_relative u =
     (if v_netloc u = [] then Inl (ValueError ''URL should be absolute'')
      else Inr (from_parts [] [] (v_path u) (v_query u) (v_fragment u)))"

definition url_parent :: "url \<Rightarrow> url" where
  "url_parent u =
     (let path = v_path u
      in if path = [] \<or> path = ''/'' then
           (if v_fragment u \<noteq> [] \<or> v_query u \<noteq> [] then from_parts (v_scheme u) (v_netloc u) path [] [] else u)
         else from_parts (v_scheme u) (v_netloc u) (str_join ''/'' (butlast (str_split slash path))) [] [])"

end
