(* ===== verification/Yarl_Edit.thy ===== *)
theory Yarl_Edit
  imports Yarl_Url
begin

text \<open>
  The methods of \<^verbatim>\<open>URL\<close> that return a new URL with a part replaced, joined or appended, and
  \<^verbatim>\<open>human_repr\<close>.
\<close>

section \<open>Scheme and authority\<close>

definition with_scheme :: "yarl_env \<Rightarrow> url \<Rightarrow> string \<Rightarrow> url res" where
  "with_scheme env u scheme =
     (let lower_scheme = text_lower env scheme
      in if v_netloc u = [] \<and> lower_scheme \<in> set SCHEME_REQUIRES_HOST
         then Inl (ValueError (''scheme replacement is not allowed for relative URLs for the '' @ lower_scheme @ '' scheme''))
         else Inr (from_parts lower_scheme (v_netloc u) (v_path u) (v_query u) (v_fragment u)))"

definition with_netloc :: "url \<Rightarrow> string \<Rightarrow> url" where
  "with_netloc u netloc = from_parts (v_scheme u) netloc (v_path u) (v_query u) (v_fragment u)"

definition with_user :: "yarl_env \<Rightarrow> url \<Rightarrow> string option \<Rightarrow> url res" where
  "with_user env u user =
     rbind (case user of None \<Rightarrow> Inr (None, None)
            | Some s \<Rightarrow> rbind (url_raw_password env u) (\<lambda>p. Inr (Some (quoter_call QUOTER s), p))) (\<lambda>(user1, password).
       if v_netloc u = [] then Inl (ValueError ''user replacement is not allowed for relative URLs'')
       else rbind (url_host_subcomponent env u) (\<lambda>h. rbind (url_explicit_port env u) (\<lambda>port.
         Inr (with_netloc u (make_netloc user1 password (Some (case h of None \<Rightarrow> [] | Some x \<Rightarrow> x)) port False)))))"

definition with_password :: "yarl_env \<Rightarrow> url \<Rightarrow> string option \<Rightarrow> url res" where
  "with_password env u password =
     (let password1 = map_option (quoter_call QUOTER) password
      in if v_netloc u = [] then Inl (ValueError ''password replacement is not allowed for relative URLs'')
         else rbind (url_host_subcomponent env u) (\<lambda>h. rbind (url_explicit_port env u) (\<lambda>port.
           rbind (url_raw_user env u) (\<lambda>user.
             Inr (with_netloc u (make_netloc user password1 (Some (case h of None \<Rightarrow> [] | Some x \<Rightarrow> x)) port False))))))"

definition with_host :: "yarl_env \<Rightarrow> url \<Rightarrow> string \<Rightarrow> url res" where
  "with_host env u host =
     (if v_netloc u = [] then Inl (ValueError ''host replacement is not allowed for relative URLs'')
      else if host = [] then Inl (ValueError ''host removing is not allowed'')
      else rbind (encode_host env host True) (\<lambda>encoded_host. rbind (url_explicit_port env u) (\<lambda>port.
        rbind (url_raw_user env u) (\<lambda>user. rbind (url_raw_password env u) (\<lambda>password.
          Inr (with_netloc u (make_netloc user password (Some encoded_host) port False)))))))"

text \<open>The argument of \<^verbatim>\<open>with_port\<close>: \<open>Not_Port\<close> is a \<^verbatim>\<open>bool\<close> or no \<^verbatim>\<open>int\<close>.\<close>

datatype port_arg = No_Port | Port int | Not_Port

definition with_port :: "yarl_env \<Rightarrow> url \<Rightarrow> port_arg \<Rightarrow> url res" where
  "with_port env u arg =
     rbind (case arg of No_Port \<Rightarrow> Inr None | Not_Port \<Rightarrow> Inl TypeError
            | Port n \<Rightarrow> if 0 \<le> n \<and> n \<le> 65535 then Inr (Some n)
                else Inl (ValueError (''port must be between 0 and 65535, got '' @ int_str n))) (\<lambda>port.
       if v_netloc u = [] then Inl (ValueError ''port replacement is not allowed for relative URLs'')
       else rbind (url_host_subcomponent env u) (\<lambda>h. rbind (url_raw_user env u) (\<lambda>user.
         rbind (url_raw_password env u) (\<lambda>password.
           Inr (with_netloc u (make_netloc user password (Some (case h of None \<Rightarrow> [] | Some x \<Rightarrow> x)) port False))))))"

section \<open>Path, query and fragment\<close>

definition with_path :: "url \<Rightarrow> string \<Rightarrow> bool \<Rightarrow> bool \<Rightarrow> bool \<Rightarrow> url" where
  "with_path u path0 encoded keep_query keep_fragment =
     (let path1 =
        (if encoded then path0
         else
           (let p = quoter_call PATH_QUOTER path0
            in if v_netloc u \<noteq> [] \<and> CHR ''.'' \<in> set p then normalize_path p else p));
          path2 = (if path1 \<noteq> [] \<and> path1 ! 0 \<noteq> slash then slash # path1 else path1)
      in from_parts (v_scheme u) (v_netloc u) path2 (if keep_query then v_query u else [])
           (if keep_fragment then v_fragment u else []))"

definition with_raw_query :: "url \<Rightarrow> string \<Rightarrow> url" where
  "with_raw_query u query = from_parts (v_scheme u) (v_netloc u) (v_path u) query (v_fragment u)"

definition with_query :: "url \<Rightarrow> query list \<Rightarrow> query_items \<Rightarrow> url res" where
  "with_query u args kwargs =
     rbind (get_str_query args kwargs) (\<lambda>q. Inr (with_raw_query u (case q of None \<Rightarrow> [] | Some s \<Rightarrow> s)))"

definition extend_query :: "url \<Rightarrow> query list \<Rightarrow> query_items \<Rightarrow> url res" where
  "extend_query u args kwargs =
     rbind (get_str_query args kwargs) (\<lambda>q.
       case q of
         None \<Rightarrow> Inr u
       | Some new_query \<Rightarrow>
           if new_query = [] then Inr u
           else Inr (with_raw_query u
             (if v_query u \<noteq> [] then
                (if last (v_query u) = CHR ''&'' then v_query u @ new_query else v_query u @ ''&'' @ new_query)
              else new_query)))"

definition with_fragment :: "url \<Rightarrow> string option \<Rightarrow> url" where
  "with_fragment u fragment =
     (let raw_fragment = (case fragment of None \<Rightarrow> [] | Some s \<Rightarrow> quoter_call FRAGMENT_QUOTER s)
      in if v_fragment u = raw_fragment then u
         else from_parts (v_scheme u) (v_netloc u) (v_path u) (v_query u) raw_fragment)"

text \<open>The parts of the path with the last one replaced, common to the next two methods.\<close>

definition replace_last_part :: "url \<Rightarrow> string \<Rightarrow> string list" where
  "replace_last_part u name =
     (let parts = url_raw_parts u
      in if v_netloc u \<noteq> [] then
           (if length parts = 1 then parts @ [name] else butlast parts @ [name])[0 := []]
         else
           (let parts1 = butlast parts @ [name]
            in if parts1 ! 0 = ''/'' then parts1[0 := []] else parts1))"

definition from_new_parts :: "url \<Rightarrow> string list \<Rightarrow> bool \<Rightarrow> bool \<Rightarrow> url" where
  "from_new_parts u parts keep_query keep_fragment =
     from_parts (v_scheme u) (v_netloc u) (str_join ''/'' parts) (if keep_query then v_query u else [])
       (if keep_fragment then v_fragment u else [])"

definition with_name :: "url \<Rightarrow> string \<Rightarrow> bool \<Rightarrow> bool \<Rightarrow> url res" where
  "with_name u name0 keep_query keep_fragment =
     (if slash \<in> set name0 then Inl (ValueError ''Slash in name is not allowed'')
      else
        (let name = quoter_call PATH_QUOTER name0
         in if name = ''.'' \<or> name = ''..'' then Inl (ValueError ''. and .. values are forbidden'')
            else Inr (from_new_parts u (replace_last_part u name) keep_query keep_fragment)))"

text \<open>\<^verbatim>\<open>repr\<close> of texts that are not ASCII and of the URL itself enter the messages only.\<close>

definition with_suffix :: "(string \<Rightarrow> string) \<Rightarrow> string \<Rightarrow> url \<Rightarrow> string \<Rightarrow> bool \<Rightarrow> bool \<Rightarrow> url res" where
  "with_suffix wide_repr url_repr u suffix0 keep_query keep_fragment =
     (if suffix0 \<noteq> [] \<and> suffix0 ! 0 \<noteq> CHR ''.'' \<or> suffix0 = ''.'' \<or> slash \<in> set suffix0
      then Inl (ValueError (''Invalid suffix '' @ text_repr wide_repr suffix0))
      else
        (let name0 = url_raw_name u
         in if name0 = [] then Inl (ValueError (url_repr @ '' has an empty name''))
            else
              (let old_suffix = url_raw_suffix u; suffix = quoter_call PATH_QUOTER suffix0;
                   name = (if old_suffix = [] then name0 @ suffix
                           else take (length name0 - length old_suffix) name0 @ suffix)
               in if name = ''.'' \<or> name = ''..'' then Inl (ValueError ''. and .. values are forbidden'')
                  else Inr (from_new_parts u (replace_last_part u name) keep_query keep_fragment))))"

section \<open>Joining\<close>

definition join_path_of :: "url \<Rightarrow> string \<Rightarrow> string" where
  "join_path_of base join_path =
     (let orig_path = v_path base;
          path =
            (if join_path ! 0 = slash then join_path
             else if orig_path = [] then slash # join_path
             else if last orig_path = slash then orig_path @ join_path
             else
               (let p = str_join ''/'' (butlast (url_parts base) @ [[]]) @ join_path
                in if orig_path ! 0 = slash then drop 1 p else p))
      in if CHR ''.'' \<in> set path then normalize_path path else path)"

definition url_join :: "url \<Rightarrow> url \<Rightarrow> url" where
  "url_join base url =
     (let scheme = (if v_scheme url \<noteq> [] then v_scheme url else v_scheme base)
      in if scheme \<noteq> v_scheme base \<or> scheme \<notin> set USES_RELATIVE then url
         else if v_netloc url \<noteq> [] \<and> scheme \<in> set USES_AUTHORITY
         then from_parts scheme (v_netloc url) (v_path url) (v_query url) (v_fragment url)
         else
           (let join_path = v_path url
            in from_parts scheme (v_netloc base)
                 (if join_path \<noteq> [] then join_path_of base join_path else v_path base)
                 (if join_path \<noteq> [] \<or> v_query url \<noteq> [] then v_query url else v_query base)
                 (if join_path \<noteq> [] \<or> v_fragment url \<noteq> [] then v_fragment url else v_fragment base)))"

text \<open>The loop of \<^verbatim>\<open>_make_child\<close> over the reversed paths; segments are collected in reverse.\<close>

fun child_loop :: "(string \<Rightarrow> string) \<Rightarrow> bool \<Rightarrow> bool \<Rightarrow> string list \<Rightarrow> string list \<Rightarrow> bool \<Rightarrow> (string list \<times> bool) res" where
  "child_loop wide_repr encoded last1 [] parsed needs_normalize = Inr (parsed, needs_normalize)"
| "child_loop wide_repr encoded last1 (path0 # paths) parsed needs_normalize =
     (if path0 \<noteq> [] \<and> path0 ! 0 = slash
      then Inl (ValueError (''Appending path '' @ text_repr wide_repr path0 @ '' starting from slash is forbidden''))
      else
        (let path = (if encoded then path0 else quoter_call PATH_QUOTER path0);
             segments = rev (str_split slash path)
         in child_loop wide_repr encoded False paths
              (parsed @ (if \<not> last1 \<and> segments ! 0 = [] then drop 1 segments else segments))
              (needs_normalize \<or> CHR ''.'' \<in> set path)))"

definition make_child :: "(string \<Rightarrow> string) \<Rightarrow> url \<Rightarrow> string list \<Rightarrow> bool \<Rightarrow> url res" where
  "make_child wide_repr u paths encoded =
     rbind (child_loop wide_repr encoded True (rev paths) [] False) (\<lambda>(parsed, needs_normalize).
       let old_segments = str_split slash (v_path u);
           parsed1 =
             (if v_path u \<noteq> [] then
                parsed @ rev (if last old_segments = [] then butlast old_segments else old_segments)
              else parsed);
           parsed2 = (if v_netloc u \<noteq> [] \<and> parsed1 \<noteq> [] \<and> last parsed1 \<noteq> [] then parsed1 @ [[]] else parsed1);
           parsed3 = rev parsed2
       in if v_netloc u = [] \<or> \<not> needs_normalize
          then Inr (from_parts (v_scheme u) (v_netloc u) (str_join ''/'' parsed3) [] [])
          else
            (let path = str_join ''/'' (normalize_path_segments parsed3);
                 path1 = (if path \<noteq> [] \<and> path ! 0 \<noteq> slash then slash # path else path)
             in Inr (from_parts (v_scheme u) (v_netloc u) path1 [] [])))"

definition url_joinpath :: "(string \<Rightarrow> string) \<Rightarrow> url \<Rightarrow> string list \<Rightarrow> bool \<Rightarrow> url res" where
  "url_joinpath wide_repr u other encoded = make_child wide_repr u other encoded"

definition url_truediv :: "(string \<Rightarrow> string) \<Rightarrow> url \<Rightarrow> string \<Rightarrow> url res" where
  "url_truediv wide_repr u name = make_child wide_repr u [name] False"

section \<open>For people\<close>

text \<open>The characters of a text, each as its bytes.\<close>

function utf8_chars :: "string \<Rightarrow> string list" where
  "utf8_chars [] = []"
| "utf8_chars (c # s) =
     (c # takeWhile (\<lambda>b. 128 \<le> (ord b :: nat) \<and> (ord b :: nat) < 192) s)
       # utf8_chars (dropWhile (\<lambda>b. 128 \<le> (ord b :: nat) \<and> (ord b :: nat) < 192) s)"
  by pat_completeness auto
termination
  by (relation "measure length") (auto simp: le_imp_less_Suc length_dropWhile_le)

text \<open>\<^verbatim>\<open>str.isprintable\<close> on a character; beyond ASCII it is an argument.\<close>

definition char_printable :: "(string \<Rightarrow> bool) \<Rightarrow> string \<Rightarrow> bool" where
  "char_printable wide_printable c =
     (if str_isascii c then list_all (\<lambda>x. 32 \<le> (ord x :: nat) \<and> (ord x :: nat) < 127) c else wide_printable c)"

definition code_char :: "char \<Rightarrow> string \<Rightarrow> string" where
  "code_char c s = concat (map (\<lambda>x. if x = c then pct_of c else [x]) s)"

text \<open>\<^verbatim>\<open>quote(c)\<close> on a character that is not printable: all of its bytes as percent codes.\<close>

definition human_quote :: "(string \<Rightarrow> bool) \<Rightarrow> string option \<Rightarrow> string \<Rightarrow> string option" where
  "human_quote wide_printable s unsafe =
     map_option (\<lambda>t.
       if t = [] then t
       else
         (let t1 = fold code_char (''%'' @ unsafe) t
          in if list_all (char_printable wide_printable) (utf8_chars t1) then t1
             else concat (map (\<lambda>c. if char_printable wide_printable c then c else concat (map pct_of c))
                    (utf8_chars t1)))) s"

definition human_repr :: "(string \<Rightarrow> bool) \<Rightarrow> yarl_env \<Rightarrow> url \<Rightarrow> string res" where
  "human_repr wide_printable env u =
     rbind (url_user env u) (\<lambda>user0. rbind (url_password env u) (\<lambda>password0.
     rbind (url_host env u) (\<lambda>host0. rbind (url_explicit_port env u) (\<lambda>port.
       let hq = human_quote wide_printable;
           user = hq user0 ''#/:?@[]''; password = hq password0 ''#/:?@[]'';
           host = (case host0 of Some h \<Rightarrow> Some (bracket h) | None \<Rightarrow> None);
           path = the (hq (Some (url_path u)) ''#?'');
           query_string = str_join ''&'' (map (\<lambda>(k, v). the (hq (Some k) ''#&+;='') @ ''='' @ the (hq (Some v) ''#&+;=''))
             (url_parsed_query u));
           fragment = the (hq (Some (url_fragment u)) [])
       in Inr (unsplit_result (v_scheme u) (make_netloc user password host port False) path query_string fragment)))))"

end
