(* ===== verification/Yarl_Canon.thy ===== *)
theory Yarl_Canon
  imports Yarl_Edit
begin

text \<open>
  The text of a URL is a normal form: reading it again and printing it gives the same text.
\<close>

section \<open>Characters that quoting writes\<close>

text \<open>Characters that the splitting of a URL leaves where they are.\<close>

definition plain_char :: "char \<Rightarrow> bool" where
  "plain_char c \<longleftrightarrow> 33 \<le> (ord c :: nat) \<and> (ord c :: nat) < 127"

definition host_char :: "char \<Rightarrow> bool" where
  "host_char c \<longleftrightarrow> plain_char c \<and> c \<notin> set ''/?#@[]''"

lemma quoted_chars:
  assumes "list_all P (quoter_safe q @ ''%0123456789ABCDEF+'')" and "x \<in> set (quoter_call q s)"
  shows "P x"
  using quote_alphabet [of x q s] assms by (auto simp: quoter_call_ref upper_hex_def list_all_iff)

lemma user_chars: "list_all (\<lambda>c. host_char c \<and> c \<noteq> CHR '':'') (quoter_call REQUOTER s)"
proof -
  have "list_all (\<lambda>c. host_char c \<and> c \<noteq> CHR '':'') (quoter_safe REQUOTER @ ''%0123456789ABCDEF+'')" by code_simp
  from quoted_chars [OF this] show ?thesis by (auto simp: list_all_iff)
qed

lemma path_chars: "list_all (\<lambda>c. plain_char c \<and> c \<notin> set ''?#'') (quoter_call PATH_REQUOTER s)"
proof -
  have "list_all (\<lambda>c. plain_char c \<and> c \<notin> set ''?#'') (quoter_safe PATH_REQUOTER @ ''%0123456789ABCDEF+'')" by code_simp
  from quoted_chars [OF this] show ?thesis by (auto simp: list_all_iff)
qed

lemma query_chars: "list_all (\<lambda>c. plain_char c \<and> c \<noteq> CHR ''#'') (quoter_call QUERY_REQUOTER s)"
proof -
  have "list_all (\<lambda>c. plain_char c \<and> c \<noteq> CHR ''#'') (quoter_safe QUERY_REQUOTER @ ''%0123456789ABCDEF+'')" by code_simp
  from quoted_chars [OF this] show ?thesis by (auto simp: list_all_iff)
qed

lemma fragment_chars: "list_all plain_char (quoter_call FRAGMENT_REQUOTER s)"
proof -
  have "list_all plain_char (quoter_safe FRAGMENT_REQUOTER @ ''%0123456789ABCDEF+'')" by code_simp
  from quoted_chars [OF this] show ?thesis by (auto simp: list_all_iff)
qed

lemma quoter_not_Nil: "s \<noteq> [] \<Longrightarrow> quoter_call q s \<noteq> []"
proof -
  assume "s \<noteq> []"
  then show ?thesis unfolding quoter_call_ref
    by (cases rule: quote_ref_cases [where s = s and q = q])
      (auto simp: quote_char_def pct_of_def elim: recode_cases)
qed

section \<open>Paths\<close>

lemma code_no_slash: "recode q d e = Some [CHR ''%'', d, e] \<Longrightarrow> d \<noteq> slash \<and> e \<noteq> slash"
  by (cases rule: recode_cases [where q = q and d = d and e = e]) (auto simp: upper_hex_def)

lemma stable_pieces: "stable q s \<Longrightarrow> p \<in> set (str_split slash s) \<Longrightarrow> stable q p"
proof (induction arbitrary: p rule: stable.induct)
  case Empty
  then show ?case by (simp add: stable.Empty)
next
  case (Safe c s)
  then show ?case by (cases "str_split slash s") (auto split: if_splits intro: stable.intros)
next
  case (Code d e s)
  then show ?case using code_no_slash [OF Code.hyps(1)]
    by (cases "str_split slash s") (auto intro: stable.intros)
qed

lemma stable_join:
  assumes "slash \<in> set (quoter_safe q)" and "\<forall>p \<in> set ps. stable q p"
  shows "stable q (str_join ''/'' ps)"
  using assms(2)
proof (induction "''/''" ps rule: str_join.induct)
  case (3 x y ys)
  then show ?case using assms(1) by (auto intro!: stable_append intro: stable.Safe)
qed (auto intro: stable.Empty)

lemma normalize_subset: "p \<in> set (normalize_path_segments segs) \<Longrightarrow> p = [] \<or> p \<in> set segs"
  using resolved_no_dots [of "[]" segs] by (auto simp: normalize_path_segments_def Let_def split: if_splits)

lemma normalize_stable:
  assumes "stable q p" and "slash \<in> set (quoter_safe q)"
  shows "stable q (normalize_path p)"
proof -
  have rest: "stable q (drop 1 p)" if "p \<noteq> []" "p ! 0 = slash"
    using assms(1) by (cases rule: stable.cases) (use that in auto)
  have "stable q (str_join ''/'' (normalize_path_segments (str_split slash r)))" if "stable q r" for r
    using normalize_subset stable_pieces [OF that] by (intro stable_join assms(2)) (auto intro: stable.Empty)
  then show ?thesis using assms rest by (auto simp: normalize_path_def Let_def intro: stable.Safe)
qed

lemma join_chars: "x \<in> set (str_join ''/'' ps) \<Longrightarrow> x = slash \<or> (\<exists>p \<in> set ps. x \<in> set p)"
  by (induction "''/''" ps rule: str_join.induct) auto

lemma split_chars: "p \<in> set (str_split slash s) \<Longrightarrow> x \<in> set p \<Longrightarrow> x \<in> set s"
  using split_subset [where c = slash and s = s and p = p] by auto

lemma normalize_chars: "x \<in> set (normalize_path p) \<Longrightarrow> x = slash \<or> x \<in> set p"
proof -
  assume "x \<in> set (normalize_path p)"
  then have "x = slash \<or> x \<in> set (str_join ''/'' (normalize_path_segments (str_split slash (drop 1 p))))
      \<or> x \<in> set (str_join ''/'' (normalize_path_segments (str_split slash p)))"
    by (auto simp: normalize_path_def Let_def split: if_splits)
  then show ?thesis
    using normalize_subset split_chars in_set_dropD [of x 1 p] by (fastforce dest!: join_chars)
qed

lemma rooted_path: "p \<noteq> [] \<and> p ! 0 = slash \<longleftrightarrow> (\<exists>r. p = slash # r)"
  by (cases p) auto

lemma normalize_rooted: "normalize_path (slash # r) = slash # str_join ''/'' (normalize_path_segments (str_split slash r))"
  by (simp add: normalize_path_def Let_def)

lemma normalize_twice: "normalize_path (normalize_path (slash # r)) = normalize_path (slash # r)"
proof -
  let ?n = "normalize_path_segments (str_split slash r)"
  have free: "\<forall>p \<in> set ?n. slash \<notin> set p" using normalize_subset split_pieces by fastforce
  have "?n \<noteq> []"
    using resolved_not_Nil [OF split_not_Nil, of "[]" slash r] unfolding normalize_path_segments_def Let_def
    by (cases "last (str_split slash r) \<in> {''.'', ''..''}") simp_all
  then have "str_split slash (str_join ''/'' ?n) = ?n" using free by (intro split_of_join) auto
  then show ?thesis by (simp add: normalize_rooted)
qed

lemma requote_rooted: "\<exists>r'. quoter_call PATH_REQUOTER (slash # r) = slash # r'"
  by (simp add: quoter_call_ref quote_char_def quoter_defs)

lemma path_requote_fixed: "stable PATH_REQUOTER p \<Longrightarrow> quoter_call PATH_REQUOTER p = p"
  using stable_fixed [of PATH_REQUOTER p] by (simp add: quoter_call_ref quoter_defs)

lemma slash_plain: "plain_char slash \<and> slash \<notin> set ''?#''"
  by (simp add: plain_char_def)

text \<open>The path of a URL with an authority.\<close>

lemma encode_path_facts:
  assumes "n \<noteq> []" and "p = [] \<or> hd p = slash"
  shows "encode_path n (encode_path n p) = encode_path n p"
    and "encode_path n p = [] \<or> (\<exists>r. encode_path n p = slash # r)"
    and "list_all (\<lambda>c. plain_char c \<and> c \<notin> set ''?#'') (encode_path n p)"
proof -
  have "encode_path n (encode_path n p) = encode_path n p \<and> (\<exists>r. encode_path n p = slash # r)
      \<and> list_all (\<lambda>c. plain_char c \<and> c \<notin> set ''?#'') (encode_path n p)" if p: "p = slash # r" for r
  proof -
    let ?q = "quoter_call PATH_REQUOTER p"
    obtain r' where q: "?q = slash # r'" using requote_rooted p by blast
    have st: "stable PATH_REQUOTER ?q" using quote_stable proper_requoters(2) by (simp add: quoter_call_ref)
    have stn: "stable PATH_REQUOTER (normalize_path ?q)" by (rule normalize_stable [OF st]) (simp add: quoter_defs)
    have ch: "list_all (\<lambda>c. plain_char c \<and> c \<notin> set ''?#'') (normalize_path ?q)"
      unfolding list_all_iff
    proof
      fix x assume "x \<in> set (normalize_path ?q)"
      from normalize_chars [OF this] show "plain_char x \<and> x \<notin> set ''?#''"
        using path_chars [of p, unfolded list_all_iff] slash_plain by blast
    qed
    have n: "normalize_path ?q = slash # str_join ''/'' (normalize_path_segments (str_split slash r'))"
      unfolding q by (rule normalize_rooted)
    have nn: "normalize_path (normalize_path ?q) = normalize_path ?q" unfolding q by (rule normalize_twice)
    have e: "encode_path n p = (if CHR ''.'' \<in> set ?q then normalize_path ?q else ?q)"
      using p assms(1) by (simp add: encode_path_def Let_def)
    show ?thesis
    proof (cases "CHR ''.'' \<in> set ?q")
      case True
      have ne: "normalize_path ?q \<noteq> []" using n by simp
      have e': "encode_path n p = normalize_path ?q" using e True by simp
      have "encode_path n (normalize_path ?q) = normalize_path ?q"
        using ne nn assms(1) by (simp add: encode_path_def Let_def path_requote_fixed [OF stn])
      then show ?thesis unfolding e' using ch n by (intro conjI) blast+
    next
      case False
      have e': "encode_path n p = ?q" using e False by simp
      have ne: "?q \<noteq> []" using q by simp
      have "encode_path n ?q = ?q"
        using False ne assms(1) by (simp add: encode_path_def Let_def path_requote_fixed [OF st])
      then show ?thesis unfolding e' using path_chars [of p] q by (intro conjI) blast+
    qed
  qed
  then have some: "p \<noteq> [] \<Longrightarrow> encode_path n (encode_path n p) = encode_path n p \<and> (\<exists>r. encode_path n p = slash # r)
      \<and> list_all (\<lambda>c. plain_char c \<and> c \<notin> set ''?#'') (encode_path n p)"
    using assms(2) by (cases p) auto
  have none: "encode_path n [] = []" by (simp add: encode_path_def)
  show "encode_path n (encode_path n p) = encode_path n p" using some none by (cases "p = []") auto
  show "encode_path n p = [] \<or> (\<exists>r. encode_path n p = slash # r)" using some none by (cases "p = []") auto
  show "list_all (\<lambda>c. plain_char c \<and> c \<notin> set ''?#'') (encode_path n p)" using some none by (cases "p = []") auto
qed

section \<open>Splitting what was put together\<close>

lemma find_from_hit: "c \<notin> set a \<Longrightarrow> k \<le> length p \<Longrightarrow> c \<notin> set (drop k p) \<Longrightarrow> find_from c k (p @ a @ c # b) = int (length p + length a)"
  by (auto simp: find_from_def takeWhile_append)

lemma find_from_late:
  assumes "c \<notin> set (drop k a)" and "k \<le> length a"
  shows "find_from c k (a @ b) = - 1 \<or> int (length a) \<le> find_from c k (a @ b)"
proof -
  have "takeWhile (\<lambda>x. x \<noteq> c) (drop k a @ b) = drop k a @ takeWhile (\<lambda>x. x \<noteq> c) b"
    using assms(1) by (subst takeWhile_append2) auto
  then show ?thesis using assms(2) by (simp add: find_from_def)
qed

text \<open>The end of the authority is the first delimiter after it.\<close>

lemma earliest_ge:
  assumes "\<forall>c \<in> set cs. c \<notin> set (drop 2 a)" and "2 \<le> length a" and "int (length a) \<le> d"
  shows "int (length a) \<le> earliest_delim (a @ b) cs d"
  using assms
proof (induction cs arbitrary: d)
  case (Cons c cs)
  have "find_from c 2 (a @ b) = - 1 \<or> int (length a) \<le> find_from c 2 (a @ b)"
    using Cons.prems by (intro find_from_late) auto
  then show ?case using Cons by (auto simp: Let_def)
qed simp

lemma earliest_le: "earliest_delim url cs d \<le> d"
proof (induction cs arbitrary: d)
  case (Cons c cs)
  show ?case
    using Cons [of d] Cons [of "find_from c 2 url"] by (auto simp: Let_def)
qed simp

lemma earliest_hit:
  assumes "\<forall>c \<in> set cs. c \<notin> set (drop 2 a)" and "2 \<le> length a" and "x \<in> set cs" and "int (length a) \<le> d"
  shows "earliest_delim (a @ x # b) cs d = int (length a)"
  using assms
proof (induction cs arbitrary: d)
  case (Cons c cs)
  show ?case
  proof (cases "c = x")
    case True
    have hit: "find_from x 2 (a @ x # b) = int (length a)"
      using Cons.prems True find_from_hit [of x "[]" 2 a b] by simp
    have "int (length a) \<le> earliest_delim (a @ x # b) cs (int (length a))"
      using Cons.prems by (intro earliest_ge) auto
    then have "earliest_delim (a @ x # b) cs (int (length a)) = int (length a)"
      using earliest_le [of "a @ x # b" cs "int (length a)"] by linarith
    then show ?thesis using hit Cons.prems(4) True by (auto simp: Let_def le_less)
  next
    case False
    have "find_from c 2 (a @ x # b) = - 1 \<or> int (length a) \<le> find_from c 2 (a @ x # b)"
      using Cons.prems by (intro find_from_late) auto
    then show ?thesis using Cons False by (auto simp: Let_def)
  qed
qed simp

lemma partition_absent: "c \<notin> set s \<Longrightarrow> str_partition c s = (s, [])"
proof -
  assume "c \<notin> set s"
  then have t: "takeWhile (\<lambda>x. x \<noteq> c) s = s" and d: "dropWhile (\<lambda>x. x \<noteq> c) s = []" by auto
  show ?thesis unfolding str_partition_def t d by simp
qed

text \<open>A part after a mark, when there is one.\<close>

definition marked :: "char \<Rightarrow> string \<Rightarrow> string" where
  "marked c s = (if s = [] then [] else c # s)"

lemma partition_marked: "c \<notin> set a \<Longrightarrow> str_partition c (a @ marked c s) = (a, s)"
  by (simp add: marked_def partition_found partition_absent)

lemma marked_part:
  assumes "c \<notin> set a" and "s \<noteq> [] \<Longrightarrow> c \<in> set u"
  shows "(if c \<in> set u then str_partition c (a @ marked c s) else (a @ marked c s, [])) = (a, s)"
  using assms partition_marked [OF assms(1), of s] by (cases "s = []") (simp_all add: marked_def)

lemma split_authority_back:
  assumes "n \<noteq> []" and "set n \<inter> set ''/?#'' = {}" and "check_brackets n = Inr ()"
    and "r = [] \<or> hd r \<in> set ''/?#''"
  shows "split_authority (''//'' @ n @ r) = Inr (n, r)"
proof -
  let ?url = "''//'' @ n @ r" and ?a = "''//'' @ n"
  let ?cs = "if CHR ''#'' \<in> set ?url \<and> CHR ''?'' \<in> set ?url then ''/?#''
     else if CHR ''?'' \<in> set ?url then ''/?'' else if CHR ''#'' \<in> set ?url then ''/#'' else ''/''"
  define cs where "cs = ?cs"
  have sub: "set cs \<subseteq> set ''/?#''" by (simp add: cs_def)
  have free: "\<forall>c \<in> set cs. c \<notin> set (drop 2 ?a)" using sub assms(2) by auto
  have "earliest_delim ?url cs (int (length ?url)) = int (length ?a)"
  proof (cases r)
    case Nil
    then have "int (length ?a) \<le> earliest_delim (?a @ []) cs (int (length ?url))"
      using free by (intro earliest_ge) auto
    then show ?thesis using earliest_le [of ?url cs "int (length ?url)"] Nil by simp
  next
    case (Cons x b)
    then have "x \<in> set cs" using assms(4) by (auto simp: cs_def)
    then have "earliest_delim (?a @ x # b) cs (int (length ?url)) = int (length ?a)"
      using free Cons by (intro earliest_hit) auto
    then show ?thesis using Cons by simp
  qed
  then show ?thesis using assms(3) unfolding split_authority_def Let_def cs_def [symmetric]
    by (simp add: slice_def nat_add_distrib)
qed

lemma split_scheme_back:
  assumes "scheme \<noteq> []" and "list_all is_scheme_char scheme" and "map ascii_lower scheme = scheme"
  shows "split_scheme (scheme @ '':'' @ r) = (scheme, r)"
proof -
  have colon: "CHR '':'' \<notin> set scheme" using assms(2) by (auto simp: list_all_iff is_scheme_char_def)
  have "find_from (CHR '':'') 0 (scheme @ '':'' @ r) = int (length scheme)"
    using find_from_hit [of "CHR '':''" scheme 0 "[]" r] colon by simp
  moreover have "is_scheme_char (scheme ! 0)" "list_all is_scheme_char (slice 1 (length scheme) (scheme @ '':'' @ r))"
    using assms(1,2) in_set_dropD [of _ 1 scheme] by (auto simp: list_all_iff slice_def)
  ultimately show ?thesis using assms by (simp add: split_scheme_def nth_append)
qed

lemma no_scheme: "split_scheme (slash # r) = ([], slash # r)"
  by (simp add: split_scheme_def Let_def is_scheme_char_def)

lemma strip_plain:
  assumes "s \<noteq> []" and "32 < (ord (hd s) :: nat)" and "set s \<inter> set UNSAFE_URL_BYTES_TO_REMOVE = {}"
  shows "strip_url s = s"
proof -
  have "hd s \<notin> set WHATWG_C0_CONTROL_OR_SPACE" using assms(2) by (auto simp: WHATWG_C0_CONTROL_OR_SPACE_def)
  then have "dropWhile (\<lambda>c. c \<in> set WHATWG_C0_CONTROL_OR_SPACE) s = s" using assms(1) by (cases s) auto
  then show ?thesis using assms(3) by (auto simp: strip_url_def filter_id_conv)
qed

text \<open>The text of an absolute URL.\<close>

definition url_text :: "string \<Rightarrow> string \<Rightarrow> string \<Rightarrow> string \<Rightarrow> string \<Rightarrow> string" where
  "url_text scheme n path query fragment =
     (if scheme = [] then [] else scheme @ '':'') @ ''//'' @ n @ path @ marked (CHR ''?'') query @ marked (CHR ''#'') fragment"

lemma unsplit_text:
  assumes "n \<noteq> []" and "path = [] \<or> (\<exists>r. path = slash # r)"
  shows "unsplit_result scheme n path query fragment = url_text scheme n path query fragment"
  using assms by (auto simp: unsplit_result_def Let_def url_text_def marked_def)

lemma split_url_back:
  assumes scheme: "scheme = [] \<or> list_all is_scheme_char scheme \<and> map ascii_lower scheme = scheme"
    and n: "n \<noteq> []" "list_all plain_char n" "set n \<inter> set ''/?#'' = {}" "check_brackets n = Inr ()"
    and path: "path = [] \<or> (\<exists>r. path = slash # r)" "list_all (\<lambda>c. plain_char c \<and> c \<notin> set ''?#'') path"
    and query: "list_all (\<lambda>c. plain_char c \<and> c \<noteq> CHR ''#'') query"
    and fragment: "list_all plain_char fragment"
  shows "split_url env (url_text scheme n path query fragment) = Inr (scheme, n, path, query, fragment)"
proof -
  let ?t = "url_text scheme n path query fragment"
  let ?q = "path @ marked (CHR ''?'') query" let ?r = "?q @ marked (CHR ''#'') fragment"
  let ?u = "''//'' @ n @ ?r"
  have plain: "plain_char c \<Longrightarrow> c \<notin> set UNSAFE_URL_BYTES_TO_REMOVE" for c
    by (auto simp: plain_char_def UNSAFE_URL_BYTES_TO_REMOVE_def)
  have sc: "is_scheme_char c \<Longrightarrow> plain_char c" for c
    by (auto simp: is_scheme_char_def plain_char_def Let_def)
  have marks: "plain_char (CHR '':'')" "plain_char slash" "plain_char (CHR ''?'')" "plain_char (CHR ''#'')"
    by (simp_all add: plain_char_def)
  have chars: "list_all plain_char ?t"
  proof -
    have "list_all plain_char scheme" using scheme sc by (auto simp: list_all_iff)
    moreover have "list_all plain_char path" "list_all plain_char query" using path(2) query by (auto simp: list_all_iff)
    ultimately show ?thesis using n(2) fragment marks by (simp add: url_text_def marked_def)
  qed
  have ne: "?t \<noteq> []" by (simp add: url_text_def)
  have "plain_char (hd ?t)" using chars hd_in_set [OF ne] by (simp add: list_all_iff)
  then have "32 < (ord (hd ?t) :: nat)" by (simp add: plain_char_def)
  moreover have "set ?t \<inter> set UNSAFE_URL_BYTES_TO_REMOVE = {}" using chars plain by (auto simp: list_all_iff)
  ultimately have "strip_url ?t = ?t" using ne by (intro strip_plain)
  moreover have "split_scheme ?t = (scheme, ?u)"
  proof (cases "scheme = []")
    case False
    then show ?thesis using scheme split_scheme_back [of scheme ?u] by (simp add: url_text_def)
  qed (simp add: url_text_def no_scheme)
  moreover have "split_authority ?u = Inr (n, ?r)"
    using n path(1) by (intro split_authority_back) (auto simp: marked_def)
  moreover have "(if CHR ''#'' \<in> set ?u then str_partition (CHR ''#'') ?r else (?r, [])) = (?q, fragment)"
    using path(2) query by (intro marked_part) (auto simp: list_all_iff marked_def)
  moreover have "(if CHR ''?'' \<in> set ?u then str_partition (CHR ''?'') ?q else (?q, [])) = (path, query)"
    using path(2) by (intro marked_part) (auto simp: list_all_iff marked_def)
  moreover have "str_isascii n" using n(2) by (auto simp: str_isascii_def list_all_iff plain_char_def)
  ultimately show ?thesis unfolding split_url_def by (simp del: append_assoc append.simps)
qed

section \<open>The authority, split and put together\<close>

lemma rpartition_found: "c \<notin> set b \<Longrightarrow> str_rpartition c (a @ c # b) = (a, b)"
proof -
  assume c: "c \<notin> set b"
  have t: "takeWhile (\<lambda>x. x \<noteq> c) (rev b @ c # rev a) = rev b" using c by (subst takeWhile_append2) auto
  have d: "dropWhile (\<lambda>x. x \<noteq> c) (rev b @ c # rev a) = c # rev a" using c by (subst dropWhile_append2) auto
  show ?thesis using t d by (simp add: str_rpartition_def)
qed

lemma int_str_free: "x \<in> set (int_str p) \<Longrightarrow> is_digit x \<or> x = CHR ''-''"
  using nat_str_digits unfolding int_str_def by (auto split: if_splits)

lemma int_str_no: "\<not> is_digit c \<Longrightarrow> c \<noteq> CHR ''-'' \<Longrightarrow> c \<notin> set (int_str p)"
  using int_str_free by blast

lemma host_no: "list_all host_char h \<Longrightarrow> c \<in> set ''/?#@[]'' \<Longrightarrow> c \<notin> set h"
  by (auto simp: list_all_iff host_char_def)

lemma port_text_no:
  assumes "list_all host_char h"
  shows "CHR ''@'' \<notin> set (with_port_text (bracket h) port)" "set (with_port_text (bracket h) port) \<inter> set ''/?#'' = {}"
proof -
  have d: "c \<notin> set (int_str p)" if "c \<in> set ''/?#@[]''" for c p
    using that by (intro int_str_no) (auto simp: is_digit_def)
  show "CHR ''@'' \<notin> set (with_port_text (bracket h) port)"
    using host_no [OF assms, of "CHR ''@''"] d [of "CHR ''@''"] by (cases port) (auto simp: with_port_text_def bracket_def)
  show "set (with_port_text (bracket h) port) \<inter> set ''/?#'' = {}"
    using host_no [OF assms] d by (cases port) (auto simp: with_port_text_def bracket_def)
qed

definition user_text :: "string option \<Rightarrow> bool" where
  "user_text user \<longleftrightarrow> (case user of None \<Rightarrow> True
     | Some s \<Rightarrow> list_all (\<lambda>c. host_char c \<and> c \<noteq> CHR '':'') s \<and> quoter_call REQUOTER s = s)"

lemma userinfo_back:
  assumes "user_text user" "user \<noteq> Some []" "user_text password" "list_all host_char h"
  shows "split_userinfo (make_netloc user password (Some (bracket h)) port False) = (user, password, with_port_text (bracket h) port)"
proof -
  let ?h = "with_port_text (bracket h) port"
  have at: "CHR ''@'' \<notin> set ?h" using assms(4) by (rule port_text_no)
  have free: "CHR ''@'' \<notin> set s \<and> CHR '':'' \<notin> set s" if "user_text (Some s)" for s
    using that by (auto simp: user_text_def list_all_iff host_char_def)
  show ?thesis
  proof (cases password)
    case None
    show ?thesis
    proof (cases user)
      case None
      then show ?thesis using \<open>password = None\<close> at by (simp add: make_netloc_def split_userinfo_def)
    next
      case (Some s)
      then have "s \<noteq> []" using assms(2) by simp
      then show ?thesis using Some None free [of s] assms(1) at
        by (simp add: make_netloc_def split_userinfo_def rpartition_found partition_absent or_none_def)
    qed
  next
    case (Some p)
    let ?u = "case user of None \<Rightarrow> [] | Some x \<Rightarrow> x"
    have n: "make_netloc user password (Some (bracket h)) port False = (?u @ '':'' @ p) @ CHR ''@'' # ?h"
      using Some by (cases user) (simp_all add: make_netloc_def)
    have "CHR '':'' \<notin> set ?u" using free assms(1) by (cases user) auto
    then have "str_partition (CHR '':'') (?u @ CHR '':'' # p) = (?u, p)" by (rule partition_found)
    moreover have "or_none ?u = user" using assms(2) by (cases user) (auto simp: or_none_def)
    ultimately show ?thesis unfolding n using Some at rpartition_found [of "CHR ''@''" ?h "?u @ '':'' @ p"]
      by (simp add: split_userinfo_def)
  qed
qed

definition port_digits :: "int option \<Rightarrow> string" where
  "port_digits port = (case port of None \<Rightarrow> [] | Some p \<Rightarrow> int_str p)"

lemma hostinfo_back:
  assumes "list_all host_char h"
  shows "split_hostinfo (with_port_text (bracket h) port) = (h, port_digits port)"
proof -
  have h: "CHR ''['' \<notin> set h" "CHR '']'' \<notin> set h" using host_no [OF assms] by auto
  have d: "CHR ''['' \<notin> set (int_str p)" "CHR '':'' \<notin> set (int_str p)" for p
    by (rule int_str_no; simp add: is_digit_def)+
  show ?thesis
  proof (cases "CHR '':'' \<in> set h")
    case True
    let ?r = "case port of None \<Rightarrow> [] | Some p \<Rightarrow> '':'' @ int_str p"
    have b: "with_port_text (bracket h) port = CHR ''['' # h @ CHR '']'' # ?r"
      using True by (simp add: with_port_text_def bracket_def split: option.splits)
    have "str_partition (CHR ''['') (CHR ''['' # h @ CHR '']'' # ?r) = ([], h @ CHR '']'' # ?r)"
      using partition_found [of "CHR ''[''" "[]"] by simp
    moreover have "str_partition (CHR '']'') (h @ CHR '']'' # ?r) = (h, ?r)" using h by (intro partition_found)
    moreover have "snd (str_partition (CHR '':'') ?r) = port_digits port"
      using partition_found [of "CHR '':''" "[]"] by (cases port) (simp_all add: port_digits_def partition_absent)
    ultimately show ?thesis unfolding b by (simp add: split_hostinfo_def)
  next
    case False
    then show ?thesis using h d partition_found [of "CHR '':''" h] partition_absent [of "CHR '':''" h]
      by (cases port) (simp_all add: split_hostinfo_def with_port_text_def bracket_def port_digits_def)
  qed
qed

definition port_ok :: "int option \<Rightarrow> bool" where
  "port_ok port \<longleftrightarrow> (case port of None \<Rightarrow> True | Some p \<Rightarrow> 0 \<le> p \<and> p \<le> 65535)"

lemma port_back:
  assumes "0 \<le> p" "p \<le> 65535"
  shows "text_int env (int_str p) = Some p"
proof -
  have "nat \<bar>p\<bar> < 10 ^ 5" using assms by simp
  then have "length (nat_str (nat \<bar>p\<bar>)) \<le> 4300" using nat_str_length [of "nat \<bar>p\<bar>" 5] by simp
  then have "py_int (int_str p) = Inr p" using py_int_padded [of "[]" "[]" p] by simp
  moreover have "str_isascii (int_str p)" by (auto simp: str_isascii_def list_all_iff is_digit_def dest!: int_str_free)
  ultimately show ?thesis by (simp add: text_int_def)
qed

lemma split_netloc_back:
  assumes "user_text user" "user \<noteq> Some []" "user_text password" "list_all host_char h" "port_ok port"
  shows "split_netloc env (make_netloc user password (Some (bracket h)) port False) = Inr (user, password, or_none h, port)"
proof (cases port)
  case None
  then show ?thesis using userinfo_back [OF assms(1-4), of port] hostinfo_back [OF assms(4), of port]
    by (simp add: split_netloc_def port_digits_def)
next
  case (Some p)
  then have "0 \<le> p" "p \<le> 65535" using assms(5) by (simp_all add: port_ok_def)
  moreover have "int_str p \<noteq> []" using nat_str_not_Nil by (simp add: int_str_def)
  ultimately show ?thesis using Some userinfo_back [OF assms(1-4), of port] hostinfo_back [OF assms(4), of port] port_back [of p env]
    by (simp add: split_netloc_def port_digits_def)
qed

lemma split_netloc_simple:
  assumes "\<not> list_ex (\<lambda>c. c \<in> set n) '':@[''" and "n \<noteq> []"
  shows "split_netloc env n = Inr (None, None, Some n, None)"
  using assms by (simp add: split_netloc_def split_userinfo_def split_hostinfo_def partition_absent or_none_def)

lemma bracket_inner:
  assumes "list_all host_char h"
  shows "(if CHR ''['' \<in> set (bracket h) then slice 1 (length (bracket h) - 1) (bracket h) else bracket h) = h"
  using host_no [OF assms, of "CHR ''[''"] by (auto simp: bracket_def slice_def)

lemma encode_netloc_back:
  fixes user password port h
  defines "n \<equiv> make_netloc user password (Some (bracket h)) port False"
  assumes parts: "user_text user" "user \<noteq> Some []" "user_text password" "list_all host_char h" "port_ok port"
    and "n \<noteq> []" and "h = [] \<Longrightarrow> scheme \<notin> set SCHEME_REQUIRES_HOST" and host: "encode_host env h False = Inr (bracket h)"
  shows "encode_netloc env scheme n = Inr (n, Some (user, password, Some h, port))"
proof -
  have split: "split_netloc env n = Inr (user, password, or_none h, port)"
    unfolding n_def by (rule split_netloc_back [OF parts])
  have "(if list_ex (\<lambda>c. c \<in> set n) '':@['' then split_netloc env n else Inr (None, None, Some n, None))
      = Inr (user, password, or_none h, port)"
    using split split_netloc_simple [of n env] \<open>n \<noteq> []\<close> by (cases "list_ex (\<lambda>c. c \<in> set n) '':@[''") auto
  moreover have "(case or_none h of Some h \<Rightarrow> Inr h
      | None \<Rightarrow> if scheme \<in> set SCHEME_REQUIRES_HOST
          then Inl (ValueError (''Invalid URL: host is required for absolute urls with the '' @ scheme @ '' scheme''))
          else Inr []) = Inr h"
    using assms(8) by (auto simp: or_none_def)
  moreover have "map_option (quoter_call REQUOTER) user = user" "map_option (quoter_call REQUOTER) password = password"
    using parts(1,3) by (auto simp: user_text_def split: option.splits)
  moreover have "password = None \<and> user = None \<Longrightarrow> with_port_text (bracket h) port = n"
    by (simp add: n_def make_netloc_def)
  ultimately show ?thesis
    unfolding encode_netloc_def by (simp only: \<open>n \<noteq> []\<close> host bracket_inner [OF parts(4)] n_def [symmetric] rbind.simps
        prod.case if_False Let_def) auto
qed

end
