(* ===== verification/Yarl_Normal.thy ===== *)
theory Yarl_Normal
  imports Yarl_Canon
begin

text \<open>
  What \<^verbatim>\<open>encode_url\<close> makes of an ASCII text, and that the text of the result is a normal form.
\<close>

section \<open>The parts of a text\<close>

lemma split_scheme_ok:
  assumes "split_scheme url = (scheme, rest)"
  shows "scheme = [] \<or> list_all is_scheme_char scheme \<and> map ascii_lower scheme = scheme" and "set rest \<subseteq> set url"
proof -
  have low: "is_scheme_char (ascii_lower c) \<and> ascii_lower (ascii_lower c) = ascii_lower c" if "is_scheme_char c" for c
    using that ord_less [of c] by (auto simp: is_scheme_char_def ascii_lower_def Let_def)
  let ?i = "find_from (CHR '':'') 0 url"
  show "scheme = [] \<or> list_all is_scheme_char scheme \<and> map ascii_lower scheme = scheme"
  proof (cases "0 < ?i \<and> is_scheme_char (url ! 0) \<and> list_all is_scheme_char (slice 1 (nat ?i) url)")
    case True
    then have "0 < length url" by (cases url) (auto simp: find_from_def)
    then have "take (nat ?i) url = url ! 0 # slice 1 (nat ?i) url"
      using True by (cases url; cases "nat ?i") (auto simp: slice_def)
    then have "list_all is_scheme_char (take (nat ?i) url)" using True by simp
    moreover have "scheme = map ascii_lower (take (nat ?i) url)" using assms True by (simp add: split_scheme_def Let_def)
    ultimately show ?thesis using low by (auto simp: list_all_iff)
  next
    case False
    then show ?thesis using assms by (auto simp: split_scheme_def Let_def split: if_splits)
  qed
  show "set rest \<subseteq> set url"
    using assms set_drop_subset by (fastforce simp: split_scheme_def Let_def split: if_splits)
qed

lemma slice_subset: "set (slice a b s) \<subseteq> set s"
  using in_set_takeD in_set_dropD by (fastforce simp: slice_def)

lemma dropWhile_subset: "set (dropWhile P s) \<subseteq> set s"
  using set_dropWhileD by fastforce

text \<open>The path after an authority starts with a slash, if there is one.\<close>

lemma find_from_at: "find_from c k url = j \<Longrightarrow> 0 \<le> j \<Longrightarrow> url ! nat j = c \<and> nat j < length url"
proof -
  assume j: "find_from c k url = j" "0 \<le> j"
  then have c: "c \<in> set (drop k url)" by (auto simp: find_from_def split: if_splits)
  let ?n = "length (takeWhile (\<lambda>x. x \<noteq> c) (drop k url))"
  have "takeWhile (\<lambda>x. x \<noteq> c) (drop k url) \<noteq> drop k url" using c by (auto simp: takeWhile_eq_all_conv)
  then have n: "?n < length (drop k url)"
    using length_takeWhile_le [of "\<lambda>x. x \<noteq> c" "drop k url"] takeWhile_eq_take by (metis le_neq_implies_less take_all_iff order_refl)
  have "drop k url ! ?n = c" using nth_length_takeWhile [OF n] by simp
  moreover have "j = int (k + ?n)" using j c by (simp add: find_from_def)
  ultimately show "url ! nat j = c \<and> nat j < length url" using n by (auto simp: less_diff_conv add.commute nat_add_distrib)
qed

lemma earliest_at:
  "earliest_delim url cs d = j \<Longrightarrow> j = d \<or> (0 \<le> j \<and> nat j < length url \<and> url ! nat j \<in> set cs)"
proof (induction cs arbitrary: d)
  case (Cons c cs)
  let ?w = "find_from c 2 url"
  show ?case
  proof (cases "0 \<le> ?w \<and> ?w < d")
    case True
    then have "earliest_delim url cs ?w = j" using Cons.prems by (simp add: Let_def)
    then show ?thesis using Cons.IH [of ?w] True find_from_at [OF refl, of c 2 url] by auto
  next
    case False
    then have "earliest_delim url cs d = j" using Cons.prems by (auto simp: Let_def)
    then show ?thesis using Cons.IH [of d] by auto
  qed
qed simp

lemma split_authority_ok:
  assumes "split_authority url = Inr (n, rest)" and "n \<noteq> []"
  shows "rest = [] \<or> hd rest \<in> set ''/?#''" and "set n \<subseteq> set url" and "set rest \<subseteq> set url"
proof -
  define cs where "cs = (if CHR ''#'' \<in> set url \<and> CHR ''?'' \<in> set url then ''/?#''
     else if CHR ''?'' \<in> set url then ''/?'' else if CHR ''#'' \<in> set url then ''/#'' else ''/'')"
  define j where "j = earliest_delim url cs (int (length url))"
  have nr: "n = slice 2 (nat j) url" "rest = drop (nat j) url"
  proof -
    have "take 2 url = ''//''" using assms by (simp add: split_authority_def split: if_splits)
    then have "rbind (check_brackets (slice 2 (nat j) url)) (\<lambda>_. Inr (slice 2 (nat j) url, drop (nat j) url)) = Inr (n, rest)"
      using assms(1) unfolding split_authority_def Let_def cs_def [symmetric] j_def [symmetric] by simp
    then show "n = slice 2 (nat j) url" "rest = drop (nat j) url" unfolding rbind_Inr_iff by simp_all
  qed
  show "set n \<subseteq> set url" unfolding nr by (rule slice_subset)
  show "set rest \<subseteq> set url" unfolding nr by (rule set_drop_subset)
  have cs: "set cs \<subseteq> set ''/?#''" by (simp add: cs_def)
  consider "j = int (length url)" | "nat j < length url" "url ! nat j \<in> set cs"
    using earliest_at [OF j_def [symmetric]] by blast
  then show "rest = [] \<or> hd rest \<in> set ''/?#''"
  proof cases
    case 2
    then have "hd rest = url ! nat j" unfolding nr by (simp add: hd_drop_conv_nth)
    then show ?thesis using 2(2) cs by (metis subsetD)
  qed (simp add: nr)
qed

lemma partition_sets:
  assumes "str_partition c s = (a, b)"
  shows "set a \<subseteq> set s" "set b \<subseteq> set s" "a = [] \<or> s \<noteq> [] \<and> hd a = hd s" "c \<notin> set a"
proof -
  have a: "a = takeWhile (\<lambda>x. x \<noteq> c) s" and b: "b = tl (dropWhile (\<lambda>x. x \<noteq> c) s)"
    using assms by (auto simp: str_partition_def)
  show "set a \<subseteq> set s" "c \<notin> set a" unfolding a using set_takeWhileD by fastforce+
  show "set b \<subseteq> set s" unfolding b using dropWhile_subset set_subset_Cons by (metis list.set_sel(2) subset_code(1) tl_Nil)
  show "a = [] \<or> s \<noteq> [] \<and> hd a = hd s" unfolding a by (cases s) auto
qed

lemma cut_sets:
  assumes "(if c \<in> set u then str_partition c r else (r, [])) = (a, b)" and "set r \<subseteq> set u"
  shows "a = [] \<or> r \<noteq> [] \<and> hd a = hd r" "c \<notin> set a" "set a \<subseteq> set r"
proof -
  have "(a = [] \<or> r \<noteq> [] \<and> hd a = hd r) \<and> c \<notin> set a \<and> set a \<subseteq> set r"
  proof (cases "c \<in> set u")
    case True
    then show ?thesis using assms(1) partition_sets [of c r a b] by simp
  qed (use assms in auto)
  then show "a = [] \<or> r \<noteq> [] \<and> hd a = hd r" "c \<notin> set a" "set a \<subseteq> set r" by blast+
qed

lemma split_url_ok:
  assumes "split_url env s = Inr (scheme, n, path, query, fragment)" and "n \<noteq> []"
  shows "scheme = [] \<or> list_all is_scheme_char scheme \<and> map ascii_lower scheme = scheme"
    and "path = [] \<or> hd path = slash" and "set n \<subseteq> set s"
proof -
  obtain scheme' url1 where sc': "split_scheme (strip_url s) = (scheme', url1)" by (cases "split_scheme (strip_url s)")
  define mid where "mid r = (if CHR ''#'' \<in> set url1 then str_partition (CHR ''#'') r else (r, []))" for r
  define fin where "fin r = (if CHR ''?'' \<in> set url1 then str_partition (CHR ''?'') r else (r, []))" for r
  obtain n' r where r': "split_authority url1 = Inr (n', r)"
    and rest: "(let (url3, fragment) = mid r; (path, query) = fin url3
       in rbind (if n' \<noteq> [] \<and> \<not> str_isascii n' then check_netloc env n' else Inr ())
            (\<lambda>_. Inr (scheme', n', path, query, fragment))) = Inr (scheme, n, path, query, fragment)"
    using assms(1) sc' unfolding split_url_def mid_def fin_def by (auto simp: rbind_Inr_iff)
  then have eqs: "scheme' = scheme" "n' = n" and p: "path = fst (fin (fst (mid r)))"
    by (cases "mid r"; cases "fin (fst (mid r))"; auto simp: rbind_Inr_iff)+
  have sc: "split_scheme (strip_url s) = (scheme, url1)" and r: "split_authority url1 = Inr (n, r)"
    using sc' r' eqs by simp_all
  show "scheme = [] \<or> list_all is_scheme_char scheme \<and> map ascii_lower scheme = scheme"
    by (rule split_scheme_ok [OF sc])
  have "set url1 \<subseteq> set s"
    using split_scheme_ok(2) [OF sc] dropWhile_subset by (fastforce simp: strip_url_def)
  then show "set n \<subseteq> set s" using split_authority_ok(2) [OF r assms(2)] by blast
  obtain r1 fr where m: "mid r = (r1, fr)" by (cases "mid r")
  obtain r2 qu where f: "fin r1 = (r2, qu)" by (cases "fin r1")
  note r1 = cut_sets [OF m [unfolded mid_def] split_authority_ok(3) [OF r assms(2)]]
  have "set r1 \<subseteq> set url1" using r1(3) split_authority_ok(3) [OF r assms(2)] by blast
  note r2 = cut_sets [OF f [unfolded fin_def] this]
  have path: "path = r2" using p m f by simp
  show "path = [] \<or> hd path = slash"
  proof (cases "path = []")
    case False
    then have h: "r1 \<noteq> []" "hd path = hd r1" "r \<noteq> []" "hd path = hd r" using r1(1) r2(1) path by auto
    then have delim: "hd path \<in> set ''/?#''" using split_authority_ok(1) [OF r assms(2)] by auto
    have "hd path \<in> set path" using False by (rule hd_in_set)
    moreover have "hd path \<in> set r1" unfolding h(2) using h(1) by (rule hd_in_set)
    ultimately have "hd path \<noteq> CHR ''?''" "hd path \<noteq> CHR ''#''" using r1(2) r2(2) path by auto
    with delim show ?thesis by simp
  qed simp
qed

section \<open>The authority of a text\<close>

text \<open>
  What \<^verbatim>\<open>ip_address\<close> promises: an IPv4 address has one notation, a colon tells an IPv6 address, and its
  compressed notation has lower hexadecimal digits, colons and dots and is read as the same address.
\<close>

definition lawful_ip :: "yarl_env \<Rightarrow> bool" where
  "lawful_ip env \<longleftrightarrow> (\<forall>x v c. CHR ''%'' \<notin> set x \<longrightarrow> read_ip env x = Some (v, c) \<longrightarrow>
     v = 4 \<and> c = x \<and> x \<noteq> [] \<and> set x \<subseteq> set ''0123456789.'' \<or>
     v = 6 \<and> CHR '':'' \<in> set x \<and> CHR '':'' \<in> set c \<and> set c \<subseteq> set ''0123456789abcdef:.'' \<and> read_ip env c = Some (6, c))"

lemma lawful_ip_cases:
  assumes "lawful_ip env" "read_ip env x = Some (v, c)" "CHR ''%'' \<notin> set x"
  obtains (V4) "v = 4" "c = x" "x \<noteq> []" "set x \<subseteq> set ''0123456789.''"
  | (V6) "v = 6" "CHR '':'' \<in> set x" "CHR '':'' \<in> set c" "set c \<subseteq> set ''0123456789abcdef:.''" "read_ip env c = Some (6, c)"
  using assms unfolding lawful_ip_def by blast

lemma partition_joined:
  "str_partition c s = (a, b) \<Longrightarrow> a @ (if c \<in> set s then c # b else []) = s"
proof (induction s arbitrary: a)
  case Nil
  then show ?case by (simp add: str_partition_def)
next
  case (Cons x s)
  show ?case
  proof (cases "x = c")
    case False
    then obtain a' where a': "a = x # a'" "str_partition c s = (a', b)"
      using Cons.prems by (auto simp: str_partition_def)
    then show ?thesis using Cons.IH [OF a'(2)] False by simp
  qed (use Cons.prems in \<open>auto simp: str_partition_def\<close>)
qed

lemma lower_ord:
  "(ord (ascii_lower c) :: nat) = (if 65 \<le> (ord c :: nat) \<and> (ord c :: nat) \<le> 90 then ord c + 32 else ord c)"
  by (simp add: ascii_lower_def)

lemma ascii_lower_other: "ascii_lower c = CHR ''['' \<longleftrightarrow> c = CHR ''[''" "ascii_lower c = CHR '']'' \<longleftrightarrow> c = CHR '']''"
    "ascii_lower (ascii_lower c) = ascii_lower c" "(ord c :: nat) < 128 \<Longrightarrow> (ord (ascii_lower c) :: nat) < 128"
  unfolding ord_eq_iff lower_ord by simp_all

lemma map_lower_twice: "map ascii_lower (map ascii_lower s) = map ascii_lower s"
  by (simp add: ascii_lower_other(3))

text \<open>A host that was encoded once is encoded to itself.\<close>

lemma encode_host_settles:
  assumes law: "lawful_ip env" and ascii: "str_isascii host" and no: "\<not> (CHR ''['' \<in> set host \<and> CHR '']'' \<in> set host)"
    and h: "list_all host_char h" and enc: "encode_host env host False = Inr (bracket h)"
  shows "encode_host env h False = Inr (bracket h)" and "h = [] \<Longrightarrow> host = []"
    and "CHR '':'' \<in> set h \<Longrightarrow> hd h \<in> set ''0123456789abcdef:.''"
proof -
  obtain raw zone where p: "str_partition (CHR ''%'') host = (raw, zone)" by fastforce
  define sep where "sep = (if CHR ''%'' \<in> set host then ''%'' @ zone else [])"
  have joined: "raw @ sep = host" using partition_joined [OF p] unfolding sep_def by (cases "CHR ''%'' \<in> set host") simp_all
  have raw: "CHR ''%'' \<notin> set raw" using partition_sets(4) [OF p] .
  have hb: "CHR ''['' \<notin> set h" "CHR '']'' \<notin> set h" using host_no [OF h] by auto
  have br: "CHR '':'' \<in> set h \<Longrightarrow> bracket h = CHR ''['' # h @ '']''" "CHR '':'' \<notin> set h \<Longrightarrow> bracket h = h"
    by (simp_all add: bracket_def)
  let ?look = "host \<noteq> [] \<and> (ends_in_digit env host \<or> CHR '':'' \<in> set host)"
  have "encode_host env h False = Inr (bracket h) \<and> (h = [] \<longrightarrow> host = [])
      \<and> (CHR '':'' \<in> set h \<longrightarrow> hd h \<in> set ''0123456789abcdef:.'')"
  proof (cases "if ?look then read_ip env raw else None")
    case (Some r)
    obtain v c where r: "r = (v, c)" by fastforce
    have look: "?look" and ip: "read_ip env raw = Some (v, c)" using Some r by (auto split: if_splits)
    have out: "bracket h = (if v = 6 then ''['' @ c @ sep @ '']'' else c @ sep)"
    proof -
      have "encode_host env host False = Inr (if v = 6 then ''['' @ c @ sep @ '']'' else c @ sep)"
        using look ip by (simp add: encode_host_def p Let_def sep_def)
      then show ?thesis using enc by simp
    qed
    from law ip raw show ?thesis
    proof (cases rule: lawful_ip_cases)
      case V4
      then have b: "bracket h = host" using out joined by simp
      have "CHR '':'' \<notin> set h"
      proof
        assume "CHR '':'' \<in> set h"
        then have "hd host = CHR ''[''" using b br by (metis list.sel(1))
        moreover have "hd host \<in> set raw" using V4(3) joined by (cases raw) auto
        ultimately show False using V4(4) by auto
      qed
      then show ?thesis using b br enc by simp
    next
      case V6
      have "CHR '':'' \<in> set h"
      proof (rule ccontr)
        assume "CHR '':'' \<notin> set h"
        then have "CHR ''['' \<in> set h" using out br V6(1) by simp
        then show False using hb by simp
      qed
      then have hc: "h = c @ sep" using out br V6(1) by simp
      have pc: "CHR ''%'' \<notin> set c" using V6(4) by auto
      have "str_partition (CHR ''%'') h = (c, if sep = [] then [] else zone)"
        using partition_found [OF pc, of zone] partition_absent [OF pc] unfolding hc by (simp add: sep_def)
      moreover have "(CHR ''%'' \<in> set h) = (sep \<noteq> [])" using pc by (auto simp: hc sep_def)
      moreover have "hd h \<in> set c" using V6(3) by (cases c) (auto simp: hc)
      ultimately show ?thesis
        using V6 \<open>CHR '':'' \<in> set h\<close> out br hc by (auto simp: encode_host_def sep_def)
    qed
  next
    case None
    have out: "bracket h = map ascii_lower host"
      using enc None ascii by (auto simp: encode_host_def p encode_name_def Let_def)
    have colon: "CHR '':'' \<notin> set h"
    proof
      assume "CHR '':'' \<in> set h"
      then have "CHR ''['' \<in> ascii_lower ` set host" "CHR '']'' \<in> ascii_lower ` set host"
        using br out by (metis list.set_intros(1) list.set_map, metis in_set_conv_decomp list.set_map append_Cons)
      then show False using no ascii_lower_other(1,2) by (metis imageE)
    qed
    then have hl: "h = map ascii_lower host" using out br by simp
    have asc: "str_isascii h" using ascii ascii_lower_other(4) by (auto simp: hl str_isascii_def list_all_iff)
    have name: "encode_name env h False = Inr h"
      using asc map_lower_twice [of host] by (simp add: encode_name_def hl)
    obtain raw' zone' where p': "str_partition (CHR ''%'') h = (raw', zone')" by fastforce
    have raw': "CHR ''%'' \<notin> set raw'" "set raw' \<subseteq> set h" using partition_sets [OF p'] by simp_all
    have "encode_host env h False = Inr h"
    proof (cases "if h \<noteq> [] \<and> (ends_in_digit env h \<or> CHR '':'' \<in> set h) then read_ip env raw' else None")
      case None
      then show ?thesis unfolding encode_host_def p' using name by simp
    next
      case (Some r)
      obtain v c where r: "r = (v, c)" by fastforce
      have ip: "read_ip env raw' = Some (v, c)" using Some r by (auto split: if_splits)
      from law ip raw'(1) show ?thesis
      proof (cases rule: lawful_ip_cases)
        case V4
        have look: "h \<noteq> [] \<and> (ends_in_digit env h \<or> CHR '':'' \<in> set h)" using Some by (simp split: if_splits)
        have "encode_host env h False = Inr (raw' @ (if CHR ''%'' \<in> set h then ''%'' @ zone' else []))"
          using look ip V4 by (simp add: encode_host_def p' Let_def)
        then show ?thesis using partition_joined [OF p'] by (cases "CHR ''%'' \<in> set h") simp_all
      next
        case V6
        then show ?thesis using raw'(2) colon by auto
      qed
    qed
    then show ?thesis using colon hl br by simp
  qed
  then show "encode_host env h False = Inr (bracket h)" "h = [] \<Longrightarrow> host = []"
    "CHR '':'' \<in> set h \<Longrightarrow> hd h \<in> set ''0123456789abcdef:.''" by blast+
qed

lemma split_netloc_ok:
  assumes "split_netloc env n = Inr (user, password, host, port)"
  shows "user \<noteq> Some []" "host \<noteq> Some []" "port_ok port" "set (case host of None \<Rightarrow> [] | Some h \<Rightarrow> h) \<subseteq> set n"
    "\<not> (CHR ''['' \<in> set (case host of None \<Rightarrow> [] | Some h \<Rightarrow> h) \<and> CHR '']'' \<in> set (case host of None \<Rightarrow> [] | Some h \<Rightarrow> h))"
proof -
  obtain us pw hi where u: "split_userinfo n = (us, pw, hi)" by (cases "split_userinfo n")
  obtain hn ps where h: "split_hostinfo hi = (hn, ps)" by fastforce
  have eqs: "user = us" "host = or_none hn" "port_ok port"
    using assms u h by (auto simp: split_netloc_def port_ok_def split: if_splits option.splits)
  have "us \<noteq> Some []" using u by (auto simp: split_userinfo_def or_none_def split: if_splits prod.splits)
  then show "user \<noteq> Some []" by (simp add: eqs)
  show "port_ok port" by (rule eqs)
  show "host \<noteq> Some []" by (simp add: eqs or_none_def)
  have hi: "set hi \<subseteq> set n"
  proof (cases "CHR ''@'' \<in> set n")
    case True
    have "set (rev (takeWhile (\<lambda>x. x \<noteq> CHR ''@'') (rev n))) \<subseteq> set n" using set_takeWhileD by fastforce
    then show ?thesis using u True by (auto simp: split_userinfo_def str_rpartition_def split: prod.splits)
  next
    case False
    then show ?thesis using u by (simp add: split_userinfo_def)
  qed
  have "set hn \<subseteq> set hi \<and> \<not> (CHR ''['' \<in> set hn \<and> CHR '']'' \<in> set hn)"
  proof (cases "CHR ''['' \<in> set hi")
    case True
    obtain a b where ab: "str_partition (CHR ''['') hi = (a, b)" by fastforce
    obtain c d where cd: "str_partition (CHR '']'') b = (c, d)" by fastforce
    have "hn = c" using h True ab cd by (simp add: split_hostinfo_def)
    then show ?thesis using partition_sets [OF ab] partition_sets [OF cd] by blast
  next
    case False
    then have "str_partition (CHR '':'') hi = (hn, ps)" using h by (simp add: split_hostinfo_def)
    then show ?thesis using partition_sets(1) False by blast
  qed
  moreover have "(case host of None \<Rightarrow> [] | Some h \<Rightarrow> h) = hn" by (simp add: eqs or_none_def)
  ultimately show "set (case host of None \<Rightarrow> [] | Some h \<Rightarrow> h) \<subseteq> set n"
    "\<not> (CHR ''['' \<in> set (case host of None \<Rightarrow> [] | Some h \<Rightarrow> h) \<and> CHR '']'' \<in> set (case host of None \<Rightarrow> [] | Some h \<Rightarrow> h))"
    using hi by auto
qed

lemma requoted_user: "user_text (map_option (quoter_call REQUOTER) user)"
  using user_chars requote_twice [OF proper_requoters(1)] by (cases user) (auto simp: user_text_def)

lemma encode_netloc_ok:
  assumes "encode_netloc env scheme n0 = Inr (n, cache)" and "n0 \<noteq> []"
  obtains user password host host2 port where
    "cache = Some (user, password, Some (if CHR ''['' \<in> set host2 then slice 1 (length host2 - 1) host2 else host2), port)"
    "n = make_netloc user password (Some host2) port False" "encode_host env host False = Inr host2"
    "user_text user" "user \<noteq> Some []" "user_text password" "port_ok port" "set host \<subseteq> set n0"
    "\<not> (CHR ''['' \<in> set host \<and> CHR '']'' \<in> set host)" "host = [] \<longrightarrow> scheme \<notin> set SCHEME_REQUIRES_HOST"
proof -
  let ?split = "if list_ex (\<lambda>c. c \<in> set n0) '':@['' then split_netloc env n0 else Inr (None, None, Some n0, None)"
  have "\<exists>q. ?split = Inr q"
  proof (cases ?split)
    case (Inl e)
    then have "encode_netloc env scheme n0 = Inl e"
      unfolding encode_netloc_def using assms(2) by (simp only: if_False rbind.simps)
    then show ?thesis using assms(1) by simp
  qed blast
  then obtain us pw ho port where sp: "?split = Inr (us, pw, ho, port)" by (metis surj_pair)
  have split: "split_netloc env n0 = Inr (us, pw, ho, port)"
    using sp split_netloc_simple [of n0 env] assms(2) by (cases "list_ex (\<lambda>c. c \<in> set n0) '':@[''") auto
  define host where "host = (case ho of None \<Rightarrow> [] | Some h \<Rightarrow> h)"
  define raw where "raw host2 = (if CHR ''['' \<in> set host2 then slice 1 (length host2 - 1) host2 else host2)" for host2 :: string
  obtain host2 where e: "encode_host env host False = Inr host2"
    and req: "ho = None \<Longrightarrow> scheme \<notin> set SCHEME_REQUIRES_HOST"
    and r: "(if pw = None \<and> us = None then (with_port_text host2 port, Some (None, None, Some (raw host2), port))
        else (make_netloc (map_option (quoter_call REQUOTER) us) (map_option (quoter_call REQUOTER) pw) (Some host2) port False,
          Some (map_option (quoter_call REQUOTER) us, map_option (quoter_call REQUOTER) pw, Some (raw host2), port))) = (n, cache)"
    using assms(1)
    unfolding encode_netloc_def sp Let_def raw_def [symmetric] host_def using assms(2)
    by (cases ho) (auto simp: rbind_Inr_iff split: if_splits)
  let ?u = "map_option (quoter_call REQUOTER) us" and ?p = "map_option (quoter_call REQUOTER) pw"
  have n: "n = make_netloc ?u ?p (Some host2) port False" and c: "cache = Some (?u, ?p, Some (raw host2), port)"
    using r by (auto simp: make_netloc_def split: if_splits)
  have u: "?u \<noteq> Some []" using split_netloc_ok(1) [OF split] quoter_not_Nil by (cases us) auto
  have h0: "host = [] \<longrightarrow> scheme \<notin> set SCHEME_REQUIRES_HOST"
    using req split_netloc_ok(2) [OF split] by (cases ho) (auto simp: host_def)
  show ?thesis
    by (rule that [OF c [unfolded raw_def] n e requoted_user u requoted_user split_netloc_ok(3) [OF split]
          split_netloc_ok(4,5) [OF split, folded host_def] h0])
qed

lemma make_netloc_host:
  "make_netloc u p (Some a) port False = make_netloc u p (Some b) port False \<Longrightarrow> a = b"
  by (cases u; cases p; cases port) (auto simp: make_netloc_def with_port_text_def Let_def split: if_splits)

text \<open>The authority in the text of a URL whose parts are settled.\<close>

lemma make_netloc_prefix:
  assumes "user_text user" "user_text password"
  obtains pre where "make_netloc user password (Some h) port False = pre @ with_port_text h port"
    "list_all plain_char pre" "set pre \<inter> set ''/?#[]'' = {}"
proof -
  define pre where "pre = (case (user, password) of (None, None) \<Rightarrow> []
     | (u, Some p) \<Rightarrow> (case u of None \<Rightarrow> [] | Some x \<Rightarrow> x) @ '':'' @ p @ ''@''
     | (Some u, None) \<Rightarrow> if u = [] then [] else u @ ''@'')"
  have t: "list_all plain_char s \<and> set s \<inter> set ''/?#[]'' = {}" if "user_text (Some s)" for s
    using that by (auto simp: user_text_def list_all_iff host_char_def)
  have c: "plain_char (CHR '':'')" "plain_char (CHR ''@'')" by (simp_all add: plain_char_def)
  have "make_netloc user password (Some h) port False = pre @ with_port_text h port"
    by (cases user; cases password) (simp_all add: make_netloc_def pre_def)
  moreover have "list_all plain_char pre \<and> set pre \<inter> set ''/?#[]'' = {}"
    using t assms c by (cases user; cases password) (auto simp: pre_def)
  ultimately show ?thesis using that by blast
qed

lemma host_text:
  assumes "list_all host_char h"
  shows "list_all plain_char (with_port_text (bracket h) port)"
proof -
  have c: "plain_char (CHR '':'')" "plain_char (CHR ''['')" "plain_char (CHR '']'')" by (simp_all add: plain_char_def)
  have "list_all plain_char h" using assms by (simp add: list_all_iff host_char_def)
  moreover have "list_all plain_char (int_str p)" for p
    by (auto simp: list_all_iff plain_char_def is_digit_def dest!: int_str_free)
  ultimately show ?thesis using c by (cases port) (auto simp: with_port_text_def bracket_def)
qed

lemma netloc_text:
  fixes user password port h
  defines "n \<equiv> make_netloc user password (Some (bracket h)) port False"
  assumes parts: "user_text user" "user_text password" "list_all host_char h"
    and first: "CHR '':'' \<in> set h \<Longrightarrow> hd h \<in> set ''0123456789abcdef:.''"
  shows "check_brackets n = Inr ()" "list_all plain_char n" "set n \<inter> set ''/?#'' = {}"
proof -
  obtain pre where n: "n = pre @ with_port_text (bracket h) port" and pre: "list_all plain_char pre" "set pre \<inter> set ''/?#[]'' = {}"
    unfolding n_def by (rule make_netloc_prefix [OF parts(1,2)])
  show "list_all plain_char n" unfolding n using pre(1) host_text [OF parts(3)] by simp
  show "set n \<inter> set ''/?#'' = {}" unfolding n using pre(2) port_text_no(2) [OF parts(3)] by auto
  have hb: "CHR ''['' \<notin> set h" "CHR '']'' \<notin> set h" using host_no [OF parts(3)] by auto
  have d: "CHR ''['' \<notin> set (int_str p)" "CHR '']'' \<notin> set (int_str p)" for p
    by (rule int_str_no; simp add: is_digit_def)+
  let ?r = "case port of None \<Rightarrow> [] | Some p \<Rightarrow> '':'' @ int_str p"
  show "check_brackets n = Inr ()"
  proof (cases "CHR '':'' \<in> set h")
    case False
    then have "CHR ''['' \<notin> set n" "CHR '']'' \<notin> set n"
      using pre(2) hb d by (cases port; force simp: n with_port_text_def bracket_def)+
    then show ?thesis by (simp add: check_brackets_def)
  next
    case True
    have nb: "n = pre @ CHR ''['' # h @ CHR '']'' # ?r"
      using True by (cases port) (simp_all add: n with_port_text_def bracket_def)
    have "str_partition (CHR ''['') n = (pre, h @ CHR '']'' # ?r)" unfolding nb
      using pre(2) by (intro partition_found) auto
    moreover have "str_partition (CHR '']'') (h @ CHR '']'' # ?r) = (h, ?r)" using hb by (intro partition_found)
    moreover have "h \<noteq> []" using True by auto
    then have "h ! 0 \<noteq> CHR ''v''" using first [OF True] by (auto simp: hd_conv_nth)
    ultimately show ?thesis using True by (simp add: check_brackets_def Let_def nb)
  qed
qed

section \<open>The normal form\<close>

lemma dropped_port: "drop_default_port scheme p \<noteq> p \<Longrightarrow> p \<noteq> None \<and> p = map_of DEFAULT_PORTS scheme"
  unfolding drop_default_port_def by (metis (full_types))

lemma default_requires_host: "p \<noteq> None \<Longrightarrow> p = map_of DEFAULT_PORTS scheme \<Longrightarrow> scheme \<in> set SCHEME_REQUIRES_HOST"
  by (auto simp: DEFAULT_PORTS_def SCHEME_REQUIRES_HOST_def split: if_splits)

lemma make_netloc_not_Nil: "h \<noteq> [] \<Longrightarrow> make_netloc user password (Some (bracket h)) port False \<noteq> []"
  by (cases user; cases password; cases port) (auto simp: make_netloc_def with_port_text_def bracket_def Let_def)

lemma encode_path_any: "n \<noteq> [] \<Longrightarrow> m \<noteq> [] \<Longrightarrow> encode_path n p = encode_path m p"
  by (simp add: encode_path_def)

lemma slash_path: "n \<noteq> [] \<Longrightarrow> encode_path n ''/'' = ''/''"
  by (simp add: encode_path_def quoter_call_ref quote_char_def quoter_defs)

text \<open>Parts that \<^verbatim>\<open>encode_url\<close> leaves as they are.\<close>

definition settled_parts ::
  "yarl_env \<Rightarrow> string \<Rightarrow> string option \<Rightarrow> string option \<Rightarrow> string \<Rightarrow> int option \<Rightarrow> string \<Rightarrow> string \<Rightarrow> string \<Rightarrow> bool" where
  "settled_parts env scheme user password h port path query fragment \<longleftrightarrow>
     (scheme = [] \<or> list_all is_scheme_char scheme \<and> map ascii_lower scheme = scheme)
     \<and> user_text user \<and> user \<noteq> Some [] \<and> user_text password \<and> list_all host_char h \<and> port_ok port
     \<and> (CHR '':'' \<in> set h \<longrightarrow> hd h \<in> set ''0123456789abcdef:.'') \<and> encode_host env h False = Inr (bracket h)
     \<and> (h = [] \<longrightarrow> scheme \<notin> set SCHEME_REQUIRES_HOST)
     \<and> encode_path ''x'' path = path \<and> (path = [] \<or> (\<exists>r. path = slash # r))
     \<and> list_all (\<lambda>c. plain_char c \<and> c \<notin> set ''?#'') path
     \<and> list_all (\<lambda>c. plain_char c \<and> c \<noteq> CHR ''#'') query \<and> quoter_call QUERY_REQUOTER query = query
     \<and> list_all plain_char fragment \<and> quoter_call FRAGMENT_REQUOTER fragment = fragment"

lemma settled_text:
  fixes user password port h scheme path query fragment
  defines "n \<equiv> make_netloc user password (Some (bracket h)) port False"
  assumes settled: "settled_parts env scheme user password h port path query fragment" and "n \<noteq> []"
  shows "encode_url env (url_text scheme n path query fragment) =
    Inr \<lparr>v_scheme = scheme, v_netloc = n, v_path = path, v_query = query, v_fragment = fragment,
         v_cache = Some (user, password, Some h, port)\<rparr>"
proof -
  have "split_url env (url_text scheme n path query fragment) = Inr (scheme, n, path, query, fragment)"
    using settled \<open>n \<noteq> []\<close> netloc_text [of user password h port, folded n_def]
    by (intro split_url_back) (auto simp: settled_parts_def)
  moreover have "encode_netloc env scheme n = Inr (n, Some (user, password, Some h, port))"
    unfolding n_def using settled \<open>n \<noteq> []\<close> [unfolded n_def] by (intro encode_netloc_back) (auto simp: settled_parts_def)
  moreover have "encode_path n path = path"
    using settled encode_path_any [OF \<open>n \<noteq> []\<close>, of "''x''" path] by (simp add: settled_parts_def)
  ultimately show ?thesis using settled by (simp add: encode_url_def settled_parts_def)
qed

text \<open>What \<^verbatim>\<open>encode_url\<close> makes of a text is settled.\<close>

lemma encode_url_settled:
  assumes law: "lawful_ip env" and ascii: "str_isascii s" and enc: "encode_url env s = Inr u" and n: "v_netloc u \<noteq> []"
    and loc: "url_loc env u = Inr (user, password, Some h, port)" and h: "list_all host_char h"
    and whole: "v_netloc u = make_netloc user password (Some (bracket h)) port False"
  shows "settled_parts env (v_scheme u) user password h port (v_path u) (v_query u) (v_fragment u)
    \<and> v_cache u = Some (user, password, Some h, port)"
proof -
  obtain scheme n0 path query fragment n1 cache where
    sp: "split_url env s = Inr (scheme, n0, path, query, fragment)" and en: "encode_netloc env scheme n0 = Inr (n1, cache)"
    and u: "u = \<lparr>v_scheme = scheme, v_netloc = n1, v_path = encode_path n1 path,
            v_query = (if query \<noteq> [] then quoter_call QUERY_REQUOTER query else query),
            v_fragment = (if fragment \<noteq> [] then quoter_call FRAGMENT_REQUOTER fragment else fragment),
            v_cache = cache\<rparr>"
    using enc by (auto simp: encode_url_def rbind_Inr_iff)
  have n0: "n0 \<noteq> []" using en n u by (auto simp: encode_netloc_def)
  obtain us pw host host2 po where
    cache: "cache = Some (us, pw, Some (if CHR ''['' \<in> set host2 then slice 1 (length host2 - 1) host2 else host2), po)"
    and n1: "n1 = make_netloc us pw (Some host2) po False" and eh: "encode_host env host False = Inr host2"
    and parts: "user_text us" "us \<noteq> Some []" "user_text pw" "port_ok po" and sub: "set host \<subseteq> set n0"
    and br: "\<not> (CHR ''['' \<in> set host \<and> CHR '']'' \<in> set host)" and req: "host = [] \<longrightarrow> scheme \<notin> set SCHEME_REQUIRES_HOST"
    by (rule encode_netloc_ok [OF en n0])
  have same: "us = user" "pw = password" "po = port"
    using loc u cache by (auto simp: url_loc_def)
  have host2: "host2 = bracket h"
    using whole n1 u same make_netloc_host [of user password host2 port "bracket h"] by simp
  have "str_isascii host"
    using ascii sub split_url_ok(3) [OF sp n0] by (auto simp: str_isascii_def list_all_iff)
  note hs = encode_host_settles [OF law this br h eh [unfolded host2]]
  have p0: "path = [] \<or> hd path = slash" by (rule split_url_ok(2) [OF sp n0])
  have n1': "n1 \<noteq> []" using n u by simp
  note pf = encode_path_facts [OF n1' p0]
  have "encode_path ''x'' (encode_path n1 path) = encode_path n1 path"
    using pf(1) encode_path_any [OF n1', of "''x''"] by simp
  moreover have "quoter_call QUERY_REQUOTER (v_query u) = v_query u" "quoter_call FRAGMENT_REQUOTER (v_fragment u) = v_fragment u"
    using requote_twice proper_requoters by (simp_all add: u)
  moreover have "list_all (\<lambda>c. plain_char c \<and> c \<noteq> CHR ''#'') (v_query u)" "list_all plain_char (v_fragment u)"
    using query_chars fragment_chars by (simp_all add: u)
  ultimately show ?thesis
    using parts same hs req pf(2,3) split_url_ok(1) [OF sp n0] h cache bracket_inner [OF h] host2
    by (auto simp: settled_parts_def u)
qed

lemma url_str_settled:
  assumes c: "v_cache u = Some (user, password, Some h, port)"
    and n: "v_netloc u = make_netloc user password (Some (bracket h)) port False"
    and path: "v_path u = [] \<or> (\<exists>r. v_path u = slash # r)"
    and ne: "make_netloc user password (Some (bracket h)) (drop_default_port (v_scheme u) port) False \<noteq> []" "v_netloc u \<noteq> []"
  shows "url_str env u = Inr (url_text (v_scheme u)
      (make_netloc user password (Some (bracket h)) (drop_default_port (v_scheme u) port) False)
      (if v_path u = [] \<and> (v_query u \<noteq> [] \<or> v_fragment u \<noteq> []) then ''/'' else v_path u) (v_query u) (v_fragment u))"
proof -
  let ?path = "if v_path u = [] \<and> (v_query u \<noteq> [] \<or> v_fragment u \<noteq> []) then ''/'' else v_path u"
  have p: "?path = [] \<or> (\<exists>r. ?path = slash # r)" using path by auto
  have "url_str env u = Inr (unsplit_result (v_scheme u)
      (make_netloc user password (Some (bracket h)) (drop_default_port (v_scheme u) port) False) ?path (v_query u) (v_fragment u))"
    using c n ne(2)
    by (simp add: url_str_def url_explicit_port_def url_host_subcomponent_def url_raw_host_def url_raw_user_def
        url_raw_password_def url_loc_def drop_default_port_def)
  then show ?thesis using unsplit_text [OF ne(1) p] by simp
qed


definition plain_env :: yarl_env where
  "plain_env = \<lparr>wide_lower = id, wide_int = (\<lambda>_. None), wide_digit_end = (\<lambda>_. False), nfkc = id,
     read_ip = (\<lambda>_. None), uts46_encode = Some, codec_encode = Some, label_decode = Some, codec_decode = Some\<rparr>"

lemma plain_env_lawful: "lawful_ip plain_env"
  by (simp add: lawful_ip_def plain_env_def)


section \<open>Where the text is none\<close>

text \<open>
  A bracketed host that is no IPv6 address, an IPvFuture address included, loses its brackets, and
  the text of the URL is refused.
\<close>

lemma bracketed_name_unreadable:
  "\<exists>u. encode_url plain_env ''http://[v1.a:b]/'' = Inr u \<and> url_str plain_env u = Inr ''http://v1.a:b/''
     \<and> \<not> is_ok (encode_url plain_env ''http://v1.a:b/'')"
proof -
  let ?u = "\<lparr>v_scheme = ''http'', v_netloc = ''v1.a:b'', v_path = ''/'', v_query = [], v_fragment = [],
      v_cache = Some (None, None, Some ''v1.a:b'', None)\<rparr>"
  have "encode_url plain_env ''http://[v1.a:b]/'' = Inr ?u" by code_simp
  moreover have "url_str plain_env ?u = Inr ''http://v1.a:b/''" by code_simp
  moreover have "is_ok (encode_url plain_env ''http://v1.a:b/'') = False" by code_simp
  ultimately show ?thesis by simp
qed

text \<open>A colon that is coded in a relative path is decoded, and its text is read as one with a scheme.\<close>

lemma coded_colon_makes_scheme:
  "\<exists>u u'. encode_url plain_env ''a%3Ab'' = Inr u \<and> v_scheme u = [] \<and> url_str plain_env u = Inr ''a:b''
     \<and> encode_url plain_env ''a:b'' = Inr u' \<and> v_scheme u' = ''a''"
proof -
  let ?u = "\<lparr>v_scheme = [], v_netloc = [], v_path = ''a:b'', v_query = [], v_fragment = [], v_cache = None\<rparr>"
  let ?u' = "\<lparr>v_scheme = ''a'', v_netloc = [], v_path = ''b'', v_query = [], v_fragment = [], v_cache = None\<rparr>"
  have "encode_url plain_env ''a%3Ab'' = Inr ?u" by code_simp
  moreover have "url_str plain_env ?u = Inr ''a:b''" by code_simp
  moreover have "encode_url plain_env ''a:b'' = Inr ?u'" by code_simp
  ultimately show ?thesis by simp
qed

text \<open>Joining decodes the path of the base: a question mark in it starts a query.\<close>

lemma join_decodes_base:
  "v_path (url_join (from_parts ''http'' ''a'' ''/x%3Fy/z'' [] []) (from_parts [] [] ''w'' [] [])) = ''/x?y/w''"
  by code_simp

text \<open>A path of dot segments only makes \<^verbatim>\<open>build\<close> fail with \<^verbatim>\<open>IndexError\<close>.\<close>

lemma build_dot_path:
  "url_build plain_env (no_args\<lparr>b_scheme := Some ''http'', b_host := Some ''a'', b_path := Some ''.''\<rparr>) = Inl IndexError"
  by code_simp

text \<open>An authority without host: the host is empty here and missing after the URL was copied.\<close>

lemma empty_host_index_error:
  "\<exists>u. encode_url plain_env ''foo://:80'' = Inr u \<and> url_host_port_subcomponent plain_env u = Inl IndexError
     \<and> url_host_port_subcomponent plain_env (with_fragment u (Some ''x'')) = Inr None"
proof -
  let ?u = "\<lparr>v_scheme = ''foo'', v_netloc = '':80'', v_path = [], v_query = [], v_fragment = [],
      v_cache = Some (None, None, Some [], Some 80)\<rparr>"
  have "encode_url plain_env ''foo://:80'' = Inr ?u" by code_simp
  moreover have "url_host_port_subcomponent plain_env ?u = Inl IndexError" by code_simp
  moreover have "url_host_port_subcomponent plain_env (with_fragment ?u (Some ''x'')) = Inr None" by code_simp
  ultimately show ?thesis by simp
qed

text \<open>Without a scheme and with a path that does not start with a slash the authority is not printed.\<close>

lemma authority_not_printed: "unsplit_result [] ''a'' ''b'' [] [] = '':b''"
  by code_simp

end
