(* ===== verification/Yarl_Laws.thy ===== *)
theory Yarl_Laws
  imports Yarl_Normal
begin

text \<open>
  The methods that replace a part of the authority: the new part reads back, the others stay.
\<close>

section \<open>Quoted users\<close>

lemma quoter_requoter: "quoter_safe QUOTER = quoter_safe REQUOTER" "q_qs QUOTER = q_qs REQUOTER"
  by (simp_all add: quoter_defs)

lemma quoted_user: "user_text (Some (quoter_call QUOTER s))"
proof -
  have char: "quote_char QUOTER = quote_char REQUOTER"
    by (rule ext) (simp add: quote_char_def quoter_requoter)
  have q: "quote_ref QUOTER s = concat (map (quote_char REQUOTER) s)" for s
    using text_pair.quote_concat [of s] by (simp add: char)
  have "stable REQUOTER (quote_ref QUOTER s)"
    unfolding q by (induction s) (auto intro: stable.Empty quote_char_stable [OF proper_requoters(1)])
  then have "quoter_call REQUOTER (quoter_call QUOTER s) = quoter_call QUOTER s"
    using stable_fixed [of REQUOTER] by (simp add: quoter_call_ref quoter_defs)
  then show ?thesis using user_chars [of "quoter_call QUOTER s"] by (simp add: user_text_def)
qed

section \<open>Reading the parts of a new authority\<close>

text \<open>A URL of another scheme of origin: nothing cached, and the authority put together from parts.\<close>

lemma parts_back:
  assumes "user_text user" "user \<noteq> Some []" "user_text password" "list_all host_char h" "h \<noteq> []" "port_ok port"
    and "v_cache u = None" "v_netloc u = make_netloc user password (Some (bracket h)) port False"
  shows "url_loc env u = Inr (user, password, Some h, port)"
  using split_netloc_back [OF assms(1-4) assms(6), of env] assms(5,7,8) by (simp add: url_loc_def or_none_def)

text \<open>What the parts of an absolute URL satisfy.\<close>

definition whole_url :: "yarl_env \<Rightarrow> url \<Rightarrow> string option \<Rightarrow> string option \<Rightarrow> string \<Rightarrow> int option \<Rightarrow> bool" where
  "whole_url env u user password h port \<longleftrightarrow>
     url_loc env u = Inr (user, password, Some h, port)
     \<and> user_text user \<and> user \<noteq> Some [] \<and> user_text password \<and> list_all host_char h \<and> h \<noteq> [] \<and> port_ok port
     \<and> v_netloc u = make_netloc user password (Some (bracket h)) port False"

lemma encode_url_whole:
  assumes "lawful_ip env" and "str_isascii s" and "encode_url env s = Inr u"
    and "url_loc env u = Inr (user, password, Some h, port)" and "h \<noteq> []" and "list_all host_char h"
    and "v_netloc u = make_netloc user password (Some (bracket h)) port False"
  shows "whole_url env u user password h port"
proof -
  have "v_netloc u \<noteq> []" using assms(5,7) make_netloc_not_Nil by simp
  then have "settled_parts env (v_scheme u) user password h port (v_path u) (v_query u) (v_fragment u)"
    using encode_url_settled [OF assms(1-3) _ assms(4,6,7)] by blast
  then show ?thesis using assms(4-7) by (auto simp: whole_url_def settled_parts_def)
qed

abbreviation same_rest :: "url \<Rightarrow> url \<Rightarrow> bool" where
  "same_rest u u' \<equiv> v_scheme u' = v_scheme u \<and> v_path u' = v_path u \<and> v_query u' = v_query u \<and> v_fragment u' = v_fragment u"

lemma with_netloc_whole:
  assumes "user_text user" "user \<noteq> Some []" "user_text password" "list_all host_char h" "h \<noteq> []" "port_ok port"
  shows "whole_url env (with_netloc u (make_netloc user password (Some (bracket h)) port False)) user password h port"
  using parts_back [OF assms] assms by (simp add: whole_url_def with_netloc_def from_parts_def)

lemma whole_not_Nil: "whole_url env u user password h port \<Longrightarrow> v_netloc u \<noteq> []"
  by (auto simp: whole_url_def make_netloc_not_Nil)

lemma whole_parts:
  assumes "whole_url env u user password h port"
  shows "url_raw_user env u = Inr user" "url_raw_password env u = Inr password" "url_raw_host env u = Inr (Some h)"
    "url_explicit_port env u = Inr port" "url_host_subcomponent env u = Inr (Some (bracket h))"
    "url_user env u = Inr (map_option (unquoter_call UNQUOTER) user)"
    "url_password env u = Inr (map_option (unquoter_call UNQUOTER) password)"
  using assms by (simp_all add: whole_url_def url_raw_user_def url_raw_password_def url_raw_host_def url_explicit_port_def
      url_host_subcomponent_def url_user_def url_password_def)

text \<open>
  C38: With a new user, password or port an absolute URL stays whole: what was given is read back from
  the new authority, whatever characters it has, and every other part is the one it had.
\<close>

theorem edits_replace_one_part:
  assumes u: "whole_url env u user password h port"
    and x: "utf8_valid x" "x \<noteq> []" and n: "0 \<le> n" "n \<le> 65535"
  shows "\<exists>u1 u2 u3. with_user env u (Some x) = Inr u1 \<and> with_password env u (Some x) = Inr u2
      \<and> with_port env u (Port n) = Inr u3
    \<and> url_user env u1 = Inr (Some x) \<and> whole_url env u1 (Some (quoter_call QUOTER x)) password h port \<and> same_rest u u1
    \<and> url_password env u2 = Inr (Some x) \<and> whole_url env u2 user (Some (quoter_call QUOTER x)) h port \<and> same_rest u u2
    \<and> url_explicit_port env u3 = Inr (Some n) \<and> whole_url env u3 user password h (Some n) \<and> same_rest u u3"
proof -
  let ?q = "quoter_call QUOTER x"
  note p = whole_parts [OF u] and nn = whole_not_Nil [OF u]
  have parts: "user_text user" "user \<noteq> Some []" "user_text password" "list_all host_char h" "h \<noteq> []" "port_ok port"
    using u by (simp_all add: whole_url_def)
  have q: "user_text (Some ?q)" "Some ?q \<noteq> Some []" using quoted_user quoter_not_Nil [OF x(2)] by simp_all
  have returns: "unquoter_call UNQUOTER ?q = x" by (rule text_pair.unquote_quote [OF x(1)])
  have n': "port_ok (Some n)" using n by (simp add: port_ok_def)
  let ?u1 = "with_netloc u (make_netloc (Some ?q) password (Some (bracket h)) port False)"
  let ?u2 = "with_netloc u (make_netloc user (Some ?q) (Some (bracket h)) port False)"
  let ?u3 = "with_netloc u (make_netloc user password (Some (bracket h)) (Some n) False)"
  have w: "whole_url env ?u1 (Some ?q) password h port" "whole_url env ?u2 user (Some ?q) h port"
      "whole_url env ?u3 user password h (Some n)"
    using with_netloc_whole [OF q parts(3-6)] with_netloc_whole [OF parts(1,2) q(1) parts(4-6)]
      with_netloc_whole [OF parts(1-5) n'] by blast+
  have "with_user env u (Some x) = Inr ?u1" "with_password env u (Some x) = Inr ?u2" "with_port env u (Port n) = Inr ?u3"
    using p nn n by (simp_all add: with_user_def with_password_def with_port_def)
  moreover have "url_user env ?u1 = Inr (Some x)" "url_password env ?u2 = Inr (Some x)" "url_explicit_port env ?u3 = Inr (Some n)"
    using whole_parts(6) [OF w(1)] whole_parts(7) [OF w(2)] whole_parts(4) [OF w(3)] returns by simp_all
  moreover have "same_rest u (with_netloc u m)" for m by (simp add: with_netloc_def from_parts_def)
  ultimately show ?thesis using w by blast
qed

lemma edits_replace_one_part_witness:
  "\<exists>u u1. encode_url plain_env ''http://me:pw@host:81/a?b#c'' = Inr u \<and> with_user plain_env u (Some ''a@b'') = Inr u1
     \<and> url_user plain_env u1 = Inr (Some ''a@b'') \<and> url_password plain_env u1 = Inr (Some ''pw'')"
proof -
  let ?u = "\<lparr>v_scheme = ''http'', v_netloc = ''me:pw@host:81'', v_path = ''/a'', v_query = ''b'', v_fragment = ''c'',
      v_cache = Some (Some ''me'', Some ''pw'', Some ''host'', Some 81)\<rparr>"
  have e: "encode_url plain_env ''http://me:pw@host:81/a?b#c'' = Inr ?u" by code_simp
  have w: "whole_url plain_env ?u (Some ''me'') (Some ''pw'') ''host'' (Some 81)" by code_simp
  have x: "utf8_valid ''a@b''" by code_simp
  obtain u1 where u1: "with_user plain_env ?u (Some ''a@b'') = Inr u1" "url_user plain_env u1 = Inr (Some ''a@b'')"
      "whole_url plain_env u1 (Some (quoter_call QUOTER ''a@b'')) (Some ''pw'') ''host'' (Some 81)"
    using edits_replace_one_part [OF w x, of 1] by auto
  have "url_password plain_env u1 = Inr (Some ''pw'')"
  proof -
    have "unquoter_call UNQUOTER ''pw'' = ''pw''" by code_simp
    then show ?thesis using whole_parts(7) [OF u1(3)] by (simp only: option.map)
  qed
  with e u1(1,2) show ?thesis by blast
qed

end
