(* ===== verification/Yarl_Update.thy ===== *)
theory Yarl_Update
  imports Yarl_Laws Multidict_Bulk
begin

text \<open>
  The methods of \<^verbatim>\<open>URL\<close> that go through a \<^verbatim>\<open>MultiDict\<close> of the parameters: \<^verbatim>\<open>query\<close>, \<^verbatim>\<open>update_query\<close> and
  \<^verbatim>\<open>without_query_params\<close>. They run on the model of the package \<^verbatim>\<open>multidict\<close>; what they do to the
  parameters follows from the refinement proved there.
\<close>

section \<open>The code\<close>

type_synonym params = "query_variable multidict"

definition str_params :: "(string \<times> string) list \<Rightarrow> query_variable md_arg" where
  "str_params ps = Items_Arg True (map (\<lambda>(k, v). Pair_Item k (Some (One (QStr v)))) ps)"

definition item_params :: "query_items \<Rightarrow> query_variable md_arg" where
  "item_params is = Items_Arg True (map (\<lambda>(k, v). Pair_Item k (Some v)) is)"

text \<open>\<^verbatim>\<open>MultiDict(self._parsed_query)\<close>, with the counter of versions.\<close>

definition url_query :: "str_env \<Rightarrow> nat \<Rightarrow> url \<Rightarrow> (params, unit) md_out" where
  "url_query E clock u = md_init E False (str_params (url_parsed_query u)) [] clock"

definition params_items :: "params \<Rightarrow> query_items" where
  "params_items m = map (\<lambda>(k, v). (the k, the v)) (md_items m)"

definition updated_params :: "str_env \<Rightarrow> nat \<Rightarrow> url \<Rightarrow> query_variable md_arg \<Rightarrow> (query_items res) option" where
  "updated_params E clock u arg =
     map_option (\<lambda>(m, r). rbind r (\<lambda>_. Inr (params_items m)))
       (md_then (url_query E clock u) (\<lambda>m _. md_update E arg [] m))"

definition update_with :: "str_env \<Rightarrow> nat \<Rightarrow> url \<Rightarrow> query_variable md_arg \<Rightarrow> (query_items \<Rightarrow> string res) \<Rightarrow> url res option" where
  "update_with E clock u arg print =
     map_option (\<lambda>r. rbind r (\<lambda>items. rbind (print items) (\<lambda>q. Inr (with_raw_query u q))))
       (updated_params E clock u arg)"

definition update_query :: "str_env \<Rightarrow> nat \<Rightarrow> url \<Rightarrow> query list \<Rightarrow> query_items \<Rightarrow> url res option" where
  "update_query E clock u args kwargs =
     (case query_argument args kwargs of
        Inl e \<Rightarrow> Some (Inl e)
      | Inr in_query \<Rightarrow>
          if in_query = QNone then Some (Inr (with_raw_query u []))
          else if \<not> query_truthy in_query then Some (Inr (with_raw_query u (v_query u)))
          else (case in_query of
              QMapping m \<Rightarrow> update_with E clock u (item_params m) get_str_query_from_sequence_iterable
            | QText s \<Rightarrow> update_with E clock u (str_params (query_to_pairs s)) get_str_query_from_iterable
            | QSequence s \<Rightarrow> update_with E clock u (item_params s) get_str_query_from_iterable
            | _ \<Rightarrow> Some (Inl TypeError)))"

definition url_mod :: "str_env \<Rightarrow> nat \<Rightarrow> url \<Rightarrow> query \<Rightarrow> url res option" where
  "url_mod E clock u query = update_query E clock u [query] []"

text \<open>The intersection with the keys of the dictionary; \<^verbatim>\<open>self\<close> when it is empty.\<close>

definition without_query_params :: "str_env \<Rightarrow> nat \<Rightarrow> url \<Rightarrow> string list \<Rightarrow> url res option" where
  "without_query_params E clock u query_params =
     map_option (\<lambda>(m, r).
       let items = params_items m; params_to_remove = set query_params \<inter> set (map fst items)
       in if params_to_remove = {} then Inr u
          else with_query u [QSequence (filter (\<lambda>(name, v). name \<notin> params_to_remove) items)] [])
       (url_query E clock u)"

section \<open>What they do to the parameters\<close>

abbreviation key_values :: "string \<Rightarrow> (string \<times> string) list \<Rightarrow> string list" where
  "key_values k ps \<equiv> map snd (filter (\<lambda>p. fst p = k) ps)"

text \<open>The items of a dictionary of texts.\<close>

definition str_item :: "string \<times> string \<Rightarrow> query_variable mitem" where
  "str_item p = (fst p, Some (fst p), Some (One (QStr (snd p))))"

lemma given_str: "given_items E False (str_params ps) [] = map str_item ps"
  by (induction ps) (auto simp: given_items_def str_params_def given_item_def str_item_def)

lemma item_params_str: "item_params (str_items ps) = str_params ps"
  by (simp add: item_params_def str_params_def comp_def case_prod_beta)

lemma params_str:
  assumes "md_ok E m" "md_list m = map str_item ps"
  shows "params_items m = str_items ps"
proof -
  have "md_items m = map snd (map str_item ps)" using len_ok [OF assms(1)] assms(2) by simp
  then show ?thesis by (simp add: params_items_def str_item_def comp_def case_prod_beta)
qed

lemma query_ok:
  assumes "good_env E"
  obtains m where "url_query E clock u = Some (m, Inr ())" "md_ok E m" "\<not> md_ci m"
    "md_list m = map str_item (url_parsed_query u)"
proof -
  have "arg_ok E (str_params ps)" "given_result (str_params ps) = Inr ()" for ps
    by (auto simp: arg_ok_def given_result_def str_params_def)
  then show ?thesis
    using md_init_ok [OF assms, of "str_params (url_parsed_query u)" False "[]" clock] that
    by (auto simp: url_query_def given_str)
qed

text \<open>Updating texts with texts leaves texts.\<close>

lemma upd_items_subset: "set (upd_items ids ns is) \<subseteq> set ns \<union> set is"
proof (induction "is" arbitrary: ns)
  case (Cons i "is")
  show ?case
  proof (cases "extract_id (fst i) ns")
    case (Some r)
    obtain n ns' where r: "r = (n, ns')" by fastforce
    then have "set ns = insert n (set ns')" using extract_id_values [of "fst i" ns n ns'] Some by simp
    then show ?thesis using Cons [of ns'] Some r by auto
  next
    case None
    then show ?thesis using Cons [of ns] by auto
  qed
qed simp

lemma upd_items_str:
  obtains qs where "upd_items ids (map str_item ns) (map str_item ps) = map str_item qs" "set qs \<subseteq> set ns \<union> set ps"
proof -
  let ?l = "upd_items ids (map str_item ns) (map str_item ps)"
  have sub: "set ?l \<subseteq> str_item ` (set ns \<union> set ps)" using upd_items_subset [of ids "map str_item ns" "map str_item ps"] by auto
  have "\<exists>qs. l = map str_item qs \<and> set qs \<subseteq> set ns \<union> set ps" if "set l \<subseteq> str_item ` (set ns \<union> set ps)" for l
    using that
  proof (induction l)
    case (Cons x l)
    then obtain qs p where "l = map str_item qs" "set qs \<subseteq> set ns \<union> set ps" "x = str_item p" "p \<in> set ns \<union> set ps" by auto
    then show ?case by (intro exI [of _ "p # qs"]) auto
  qed simp
  from this [OF sub] show ?thesis using that by blast
qed

lemma values_str: "values_of k (map str_item ps) = map (\<lambda>v. Some (One (QStr v))) (key_values k ps)"
  by (induction ps) (auto simp: values_of_def str_item_def)

lemma updated_str:
  assumes "good_env E"
  obtains qs where "updated_params E clock u (str_params ps) = Some (Inr (str_items qs))"
    "\<forall>k. key_values k qs = (if k \<in> fst ` set ps then key_values k ps else key_values k (url_parsed_query u))"
    "set qs \<subseteq> set ps \<union> set (url_parsed_query u)"
proof -
  obtain m where m: "url_query E clock u = Some (m, Inr ())" "md_ok E m" "\<not> md_ci m"
      "md_list m = map str_item (url_parsed_query u)"
    by (rule query_ok [OF assms])
  have arg: "arg_ok E (str_params ps)" and res: "given_result (str_params ps) = Inr ()"
    by (auto simp: arg_ok_def given_result_def str_params_def)
  have ids: "fst ` set (map str_item ps) = fst ` set ps" by (force simp: str_item_def)
  obtain m' where m': "md_update E (str_params ps) [] m = Some (m', Inr ())" "md_ok E m'"
      "md_list m' = upd_items (fst ` set ps) (map str_item ps) (map str_item (url_parsed_query u))"
    using update_ok [OF assms m(2) arg, of "[]"] m(3,4) res ids by (auto simp: given_str)
  obtain qs where qs: "md_list m' = map str_item qs" "set qs \<subseteq> set ps \<union> set (url_parsed_query u)"
    unfolding m'(3) by (rule upd_items_str)
  have inj: "inj (\<lambda>v. Some (One (QStr v)))" by (simp add: inj_def)
  have "key_values k qs = (if k \<in> fst ` set ps then key_values k ps else key_values k (url_parsed_query u))" for k
  proof -
    have "values_of k (md_list m') = (if k \<in> fst ` set ps then values_of k (map str_item ps)
        else values_of k (map str_item (url_parsed_query u)))"
      unfolding m'(3) using ids by (intro upd_items_values) simp
    then have "map (\<lambda>v. Some (One (QStr v))) (key_values k qs) =
        map (\<lambda>v. Some (One (QStr v))) (if k \<in> fst ` set ps then key_values k ps else key_values k (url_parsed_query u))"
      unfolding qs(1) values_str by (simp split: if_splits)
    then show ?thesis using inj by (simp only: inj_map_eq_map)
  qed
  moreover have "updated_params E clock u (str_params ps) = Some (Inr (str_items qs))"
    using m(1) m'(1) params_str [OF m'(2) qs(1)] by (simp add: updated_params_def md_then_def)
  ultimately show ?thesis using that qs(2) by blast
qed

lemma raw_query_pairs:
  assumes "\<forall>p \<in> set ps. utf8_valid (fst p) \<and> utf8_valid (snd p)"
  shows "url_parsed_query (with_raw_query u (str_join ''&'' (map pair_text ps))) = ps"
  using pairs_back [OF assms] by (simp add: url_parsed_query_def with_raw_query_def from_parts_def)


lemma length_hash_good: "good_env \<lparr>se_hash = \<lambda>s. int (length s), se_lower = id, se_repr = id\<rparr>"
  by (simp add: good_env_def)


end
