(* ===== verification/Spec2Isabelle.thy ===== *)
theory Spec2Isabelle
  imports Audit_Tamper Forwarder Service_Calls Settings Admin_Cli Feed_Fetcher Extraction_Eval Audit_Types Idna_Domain Check_Run Audit_Race Multidict_Views Tts_Stream Tts_Voices Yarl_Update
begin

text \<open>
  A verification development for the compliance agent: the MCP server of
  \<^verbatim>\<open>src/mcp/src/compliance_mcp\<close>, its maintenance commands and checks, and parts of the Python
  packages that the agent ships under \<^verbatim>\<open>src/hermes/lazy-packages\<close>.

  \<^bold>\<open>The program.\<close> An agent calls tools over MCP. \<^verbatim>\<open>server.py\<close> checks the bearer token and takes the
  identity of the caller from the gateway's headers; \<^verbatim>\<open>service.py\<close> wraps every tool in \<^verbatim>\<open>audited\<close>,
  which authorises the caller against the user directory (\<^verbatim>\<open>directory.py\<close>), charges the token bucket
  (\<^verbatim>\<open>ratelimit.py\<close>), runs the tool over the systems of record (\<^verbatim>\<open>store.py\<close>) or the review queue
  (\<^verbatim>\<open>drafts.py\<close>, \<^verbatim>\<open>draft_checks.py\<close>) and appends one record to the audit log (\<^verbatim>\<open>audit.py\<close>), a hash
  chain over files that a forwarder also sends to a sink. People decide drafts and export evidence
  with \<^verbatim>\<open>review_cli.py\<close> and \<^verbatim>\<open>evidence_export.py\<close>; \<^verbatim>\<open>admin_cli.py\<close> purges, \<^verbatim>\<open>feed_fetcher.py\<close> fills the
  cache of regulator releases, \<^verbatim>\<open>scripts/check-run.py\<close> and \<^verbatim>\<open>eval/validate_extraction.py\<close> judge runs.

  \<^bold>\<open>How it is modelled.\<close> A function of the source is a HOL function with the name it has there. An
  exception is a constructor of \<open>exc\<close>, and a function that may raise returns \<open>exc + 'a\<close>; one that
  changes state takes the state and returns it with its result, also when it raises. Files are
  contents under names, times are arguments, and a Python \<^verbatim>\<open>str\<close> is a list of characters. Code that
  is not in the repository (SHA-256, HMAC, pydantic, PyJWT, httpx, XML parsers, Unicode tables) is
  an argument of the definitions that use it; what a theorem needs of it is a hypothesis.

  \<^bold>\<open>Foundations.\<close>
  \<^item> \<^verbatim>\<open>Prelude\<close>: Python strings and their methods, exceptions as values, and the lemmas shared by all.
  \<^item> \<^verbatim>\<open>Iso_Dates\<close>, \<^verbatim>\<open>Json\<close>, \<^verbatim>\<open>Json_Indent\<close>, \<^verbatim>\<open>Py_Regex\<close>, \<^verbatim>\<open>Punycode\<close>: dates and time stamps, \<^verbatim>\<open>json\<close> with its
    parser and both layouts (the text read back is the value), the backtracking matcher of \<^verbatim>\<open>re\<close>, and
    the punycode codec, each as far as the code uses it.
  \<^item> \<^verbatim>\<open>Models\<close>: the types of \<^verbatim>\<open>models.py\<close>.

  \<^bold>\<open>The server.\<close>
  \<^item> \<^verbatim>\<open>Audit_Log\<close>, \<^verbatim>\<open>Audit_Chain\<close>, \<^verbatim>\<open>Audit_Append\<close>, \<^verbatim>\<open>Audit_Types\<close>: the bytes of a record, the append, the
    rotation and \<^verbatim>\<open>verify\<close>; any sequence of writes leaves a chain that \<^verbatim>\<open>verify\<close> accepts and that holds
    the calls, and every line reads back to a well typed record.
  \<^item> \<^verbatim>\<open>Audit_Tamper\<close>: what an accepted chain proves, up to an exhibited collision of SHA-256: the head
    commits to every record, and with the key a log is a prefix of what was written; cutting the
    tail off goes unnoticed.
  \<^item> \<^verbatim>\<open>Audit_Race\<close>: the system calls of several writers as a step relation on inodes. Appends in any
    interleaving verify; a record may be lost between a rotation and its marker.
  \<^item> \<^verbatim>\<open>Forwarder\<close>: the spool and the sender thread refine a queue (locale \<open>fifo\<close>).
  \<^item> \<^verbatim>\<open>Drafts\<close>: the review queue as a table, with its contract (locale \<open>review_queue\<close>): a draft is decided
    at most once and its content never changes. \<^verbatim>\<open>Draft_Checks\<close>: the checks on the content of a draft.
  \<^item> \<^verbatim>\<open>Directory\<close>: the users file, its reload, and the checks of a requester (locales \<open>authoriser\<close> and
    \<open>group_authoriser\<close>). \<^verbatim>\<open>Rate_Limit\<close>: the token bucket, over rational time.
  \<^item> \<^verbatim>\<open>Store\<close>, \<^verbatim>\<open>Evidence\<close>: the adapters of the systems of record, and the evidence manifest.
  \<^item> \<^verbatim>\<open>Service\<close>, \<^verbatim>\<open>Service_Calls\<close>: the tools and \<^verbatim>\<open>audited\<close>; over any sequence of calls there is exactly one
    record for each answer, the drafts are the accepted calls of analysts, and the accepted records
    of a requester are bounded by the rate.
  \<^item> \<^verbatim>\<open>Settings\<close>, \<^verbatim>\<open>Server\<close>: the configuration, the wiring, the identity of the caller and the middleware.
  \<^item> \<^verbatim>\<open>Evidence_Export\<close>, \<^verbatim>\<open>Oidc\<close>, \<^verbatim>\<open>Review_Cli\<close>, \<^verbatim>\<open>Admin_Cli\<close>, \<^verbatim>\<open>Audit_Cli\<close>, \<^verbatim>\<open>Feed_Fetcher\<close>, \<^verbatim>\<open>Check_Run\<close>,
    \<^verbatim>\<open>Extraction_Eval\<close>: the commands, each with what it guarantees.

  \<^bold>\<open>The packages.\<close>
  \<^item> \<^verbatim>\<open>Idna_Ranges\<close>, \<^verbatim>\<open>Idna_Data\<close>, \<^verbatim>\<open>Idna_Core\<close>, \<^verbatim>\<open>Idna_Domain\<close>, \<^verbatim>\<open>Uts46_Starts\<close>, \<^verbatim>\<open>Uts46_Replacements\<close>: the package
    \<^verbatim>\<open>idna\<close> with its tables entry for entry: the Bidi rule, the labels accepted, the round trips of
    labels and of domains.
  \<^item> \<^verbatim>\<open>Md_Probe\<close>, \<^verbatim>\<open>Md_Table\<close>, \<^verbatim>\<open>Md_Loops\<close>: the hash table of \<^verbatim>\<open>multidict\<close>. Its loops are partial functions;
    \<open>placed\<close> and \<open>room\<close> are the invariant under which they end, and a loop over the entries of a hash
    meets each entry in the order of insertion, though it may come to a slot several times.
  \<^item> \<^verbatim>\<open>Multidict\<close>, \<^verbatim>\<open>Multidict_Spec\<close>, \<^verbatim>\<open>Multidict_Update\<close>, \<^verbatim>\<open>Multidict_Bulk\<close>, \<^verbatim>\<open>Multidict_Refine\<close>, \<^verbatim>\<open>Multidict_Views\<close>:
    \<^verbatim>\<open>MultiDict\<close> and \<^verbatim>\<open>CIMultiDict\<close> refine a list of items under any sequence of operations (the locale
    \<open>item_loop\<close> is the contract of a round of \<^verbatim>\<open>extend\<close>, \<^verbatim>\<open>update\<close> and \<^verbatim>\<open>merge\<close>), and the views are sets.
  \<^item> \<^verbatim>\<open>Utf8\<close>, \<^verbatim>\<open>Tts_Split\<close>, \<^verbatim>\<open>Tts_Drm\<close>, \<^verbatim>\<open>Tts_Stream\<close>, \<^verbatim>\<open>Tts_Voices\<close>, \<^verbatim>\<open>Srt\<close>: the package \<^verbatim>\<open>edge_tts\<close>. The text
    is cut into requests that cut no character and no entity; the access token and its clock; the
    state of a stream over its turns and its retry, so that a stream that ends has spoken the whole
    text and its offsets never go back; the voices; subtitles, collected, numbered and printed.
  \<^item> \<^verbatim>\<open>Yarl_Quote\<close>, \<^verbatim>\<open>Yarl_Path\<close>, \<^verbatim>\<open>Yarl_Parse\<close>, \<^verbatim>\<open>Yarl_Query\<close>: of the package \<^verbatim>\<open>yarl\<close> the percent codes (the
    locale \<open>quote_pair\<close> holds what a quoter and its unquoter need to be inverse), the dot segments of a
    path, which are those of RFC 3986, the splitting and printing of a URL and of its query, which is
    read back as the list that was printed.
  \<^item> \<^verbatim>\<open>Yarl_Url\<close>, \<^verbatim>\<open>Yarl_Edit\<close>, \<^verbatim>\<open>Yarl_Update\<close>: the class \<^verbatim>\<open>URL\<close>, its properties and the methods that return a
    new one; the parameters go through the model of \<^verbatim>\<open>multidict\<close>, whose refinement says what
    \<^verbatim>\<open>update_query\<close> does. \<^verbatim>\<open>Yarl_Canon\<close>, \<^verbatim>\<open>Yarl_Normal\<close>, \<^verbatim>\<open>Yarl_Laws\<close>: what was put together is split into the
    same parts (\<open>settled_parts\<close>), so the text of an absolute URL is a normal form, with examples of
    where that ends, and a new user, password or port leaves the other parts as they are
    (\<open>whole_url\<close>). Strings are bytes of UTF-8 there.

  \<^bold>\<open>Bounds.\<close> A repetition in a regular expression makes at most one round for each character that is
  left, since every round consumes one; no other model has fuel. The loop for a free slot of a table of \<open>2 ^ k\<close> slots ends within \<open>13 + 2 ^ k\<close> rounds: the perturbation, at most
  63 bits, is used up after 13, and from then on the slots follow a full cycle. Python's integers
  are unbounded; masks and shifts are the bit operations of HOL on them. The clock of \<^verbatim>\<open>edge_tts\<close> counts
  microseconds instead of floating point seconds; its subtitle times are the rounded ticks, as the
  floats of the code give them below \<open>2 ^ 49\<close> ticks.

  \<^bold>\<open>Not modelled.\<close> Floating point rounding in the rate limiter and in the scores; SQLite's
  connections and locking, a transaction being one step; what pydantic does beyond the validators
  written in the source; option parsing; the zip container; log messages. Of the interleavings of
  processes only those on the audit log are modelled. Of the shipped packages \<^verbatim>\<open>aiohttp\<close>, \<^verbatim>\<open>attr\<close>,
  \<^verbatim>\<open>tabulate\<close>, \<^verbatim>\<open>typing_extensions\<close> and the small ones beside them are left out: they
  are third-party code that the server does not import. Of \<^verbatim>\<open>multidict\<close> the proxies, which pass
  every call on, and calls whose argument is the dictionary itself are left out; of \<^verbatim>\<open>edge_tts\<close> the
  argument parser, the prompt and the printed table, while the web socket and the random
  identifiers are arguments; of \<^verbatim>\<open>yarl\<close> the sizes and statistics of the
  caches, hashes, pickling and \<^verbatim>\<open>repr\<close>, while \<^verbatim>\<open>ip_address\<close> and the encoding of host names beyond ASCII
  are arguments.
\<close>

end
